(* ===== verification/Prelude.thy ===== *)
theory Prelude
  imports Main "HOL-Library.Char_ord" "HOL-Library.List_Lexorder" "HOL-Library.Word"
  "HOL-Library.Multiset"
begin

text \<open>
  The vocabulary shared by every component.

  \<^item> A Rust string is its UTF-8 byte sequence, a list of 8-bit characters, so \<open>length\<close> is
    \<open>str::len\<close>, indexing is byte indexing and the linear order of
    \<open>List_Lexorder\<close> over \<open>Char_ord\<close> is \<open>str::cmp\<close>.
  \<^item> \<open>std::cmp::Ordering\<close> is the datatype \<open>ordering\<close>; the contract of the \<open>Ord\<close> trait
    is the locale \<open>rust_ord\<close>, in which the facts on \<open>max_by\<close>, \<open>min_by\<close> and
    sorting are proved once.
  \<^item> A fallible function returns \<open>'e + 'a\<close>, with \<open>Inl\<close> for \<open>Err\<close>; the question mark
    operator is \<open>rbind\<close>.
\<close>

type_synonym u8 = "8 word"
type_synonym u16 = "16 word"
type_synonym u32 = "32 word"
type_synonym u64 = "64 word"

section \<open>Results\<close>

definition rbind :: "'e + 'a \<Rightarrow> ('a \<Rightarrow> 'e + 'b) \<Rightarrow> 'e + 'b" where
  "rbind r f = (case r of Inl e \<Rightarrow> Inl e | Inr x \<Rightarrow> f x)"

lemma rbind_simps [simp]:
  shows "rbind (Inl e) f = Inl e" and "rbind (Inr x) f = f x"
  by (simp_all add: rbind_def)

lemma rbind_eq_Inr:
  "rbind r f = Inr y \<longleftrightarrow> (\<exists>x. r = Inr x \<and> f x = Inr y)"
  by (cases r) auto

lemma rbind_eq_Inl:
  "rbind r f = Inl e \<longleftrightarrow> r = Inl e \<or> (\<exists>x. r = Inr x \<and> f x = Inl e)"
  by (cases r) auto

definition ok_or :: "'e \<Rightarrow> 'a option \<Rightarrow> 'e + 'a" where
  "ok_or e v = (case v of None \<Rightarrow> Inl e | Some x \<Rightarrow> Inr x)"

lemma ok_or_simps [simp]:
  shows "ok_or e None = Inl e" and "ok_or e (Some x) = Inr x"
  by (simp_all add: ok_or_def)

lemma ok_or_eq_Inr: "ok_or e v = Inr x \<longleftrightarrow> v = Some x"
  by (cases v) auto

definition map_error :: "('e \<Rightarrow> 'f) \<Rightarrow> 'e + 'a \<Rightarrow> 'f + 'a" where
  "map_error f r = (case r of Inl e \<Rightarrow> Inl (f e) | Inr x \<Rightarrow> Inr x)"

lemma map_error_simps [simp]:
  shows "map_error f (Inl e) = Inl (f e)" and "map_error f (Inr x) = Inr x"
  by (simp_all add: map_error_def)

lemma map_error_Inr: "map_error f r = Inr x \<longleftrightarrow> r = Inr x"
  by (cases r) simp_all

definition is_ok :: "'e + 'a \<Rightarrow> bool" where
  "is_ok r = (case r of Inl _ \<Rightarrow> False | Inr _ \<Rightarrow> True)"

lemma is_ok_simps [simp]:
  shows "\<not> is_ok (Inl e)" and "is_ok (Inr x)"
  by (simp_all add: is_ok_def)

lemma is_ok_iff: "is_ok r \<longleftrightarrow> (\<exists>x. r = Inr x)"
  by (cases r) auto

text \<open>A loop over a list whose body may fail: the first error stops it.\<close>

fun try_fold :: "('s \<Rightarrow> 'a \<Rightarrow> 'e + 's) \<Rightarrow> 's \<Rightarrow> 'a list \<Rightarrow> 'e + 's" where
  "try_fold f s [] = Inr s"
| "try_fold f s (x # xs) = rbind (f s x) (\<lambda>s'. try_fold f s' xs)"

lemma try_fold_append:
  "try_fold f s (xs @ ys) = rbind (try_fold f s xs) (\<lambda>s'. try_fold f s' ys)"
proof (induction xs arbitrary: s)
  case Nil
  then show ?case by simp
next
  case (Cons x xs)
  then show ?case by (cases "f s x") simp_all
qed

lemma try_fold_invariant:
  assumes "try_fold f s xs = Inr t" and "P s"
    and "\<And>s x s'. x \<in> set xs \<Longrightarrow> P s \<Longrightarrow> f s x = Inr s' \<Longrightarrow> P s'"
  shows "P t"
  using assms
proof (induction xs arbitrary: s)
  case Nil
  then show ?case by simp
next
  case (Cons x xs)
  from Cons.prems(1) obtain s' where s': "f s x = Inr s'" "try_fold f s' xs = Inr t"
    by (auto simp: rbind_eq_Inr)
  have "P s'" using Cons.prems(2,3) s'(1) by auto
  then show ?case using Cons.IH[OF s'(2)] Cons.prems(3) by auto
qed

text \<open>\<open>iter().map(f).collect::<Result<Vec<_>, _>>()\<close>: the first error, or every value in order.\<close>

fun try_map :: "('a \<Rightarrow> 'e + 'b) \<Rightarrow> 'a list \<Rightarrow> 'e + 'b list" where
  "try_map f [] = Inr []"
| "try_map f (x # xs) = rbind (f x) (\<lambda>y. rbind (try_map f xs) (\<lambda>ys. Inr (y # ys)))"

lemma try_map_Inr:
  "try_map f xs = Inr ys \<longleftrightarrow> list_all2 (\<lambda>x y. f x = Inr y) xs ys"
  by (induction xs arbitrary: ys) (auto simp: rbind_eq_Inr list_all2_Cons1)

lemma find_SomeD: "List.find P xs = Some x \<Longrightarrow> x \<in> set xs \<and> P x"
  by (induction xs) (auto split: if_splits)

lemma enumerate_set: "x \<in> set (List.enumerate 0 xs) \<longleftrightarrow> (\<exists>i < length xs. x = (i, xs ! i))"
  by (cases x) (auto simp: in_set_enumerate_eq)

lemma set_enumerate: "set (List.enumerate 0 xs) = (\<lambda>i. (i, xs ! i)) ` {..<length xs}"
  by (auto simp: enumerate_set)

text \<open>What holds of a result: \<open>E\<close> of its error, \<open>P\<close> of its value. The rules follow the code.\<close>

definition outcome :: "('e \<Rightarrow> bool) \<Rightarrow> ('a \<Rightarrow> bool) \<Rightarrow> 'e + 'a \<Rightarrow> bool" where
  "outcome E P r = (case r of Inl e \<Rightarrow> E e | Inr x \<Rightarrow> P x)"

lemma outcome_simps [simp]:
  shows "outcome E P (Inl e) \<longleftrightarrow> E e" and "outcome E P (Inr x) \<longleftrightarrow> P x"
  by (simp_all add: outcome_def)

lemma outcome_rbind:
  "outcome E P r \<Longrightarrow> (\<And>x. r = Inr x \<Longrightarrow> P x \<Longrightarrow> outcome E Q (f x)) \<Longrightarrow> outcome E Q (rbind r f)"
  by (cases r) simp_all

lemma outcome_weaken: "outcome E P r \<Longrightarrow> (\<And>x. r = Inr x \<Longrightarrow> P x \<Longrightarrow> Q x) \<Longrightarrow> outcome E Q r"
  by (cases r) simp_all

lemma outcome_Inr: "outcome E P r \<Longrightarrow> r = Inr x \<Longrightarrow> P x"
  by simp

lemma outcome_Inl: "outcome E P r \<Longrightarrow> r = Inl e \<Longrightarrow> E e"
  by simp

lemma outcome_try_fold:
  assumes "I 0 s" and "\<And>k s. k < length xs \<Longrightarrow> I k s \<Longrightarrow> outcome E (I (Suc k)) (f s (xs ! k))"
  shows "outcome E (I (length xs)) (try_fold f s xs)"
  using assms
proof (induction xs arbitrary: s I)
  case Nil
  then show ?case by simp
next
  case (Cons x xs)
  have "outcome E (I (Suc 0)) (f s x)" using Cons.prems(2) [of 0 s] Cons.prems(1) by simp
  then show ?case unfolding try_fold.simps
  proof (rule outcome_rbind)
    fix s' assume "I (Suc 0) s'"
    have "outcome E (\<lambda>s. I (Suc (length xs)) s) (try_fold f s' xs)"
      by (rule Cons.IH [of "\<lambda>k. I (Suc k)"]) (use \<open>I (Suc 0) s'\<close> Cons.prems(2) in force)+
    then show "outcome E (I (length (x # xs))) (try_fold f s' xs)" by simp
  qed
qed

section \<open>Orderings\<close>

datatype ordering = Less | Equal | Greater

fun flip_ordering :: "ordering \<Rightarrow> ordering" where
  "flip_ordering Less = Greater"
| "flip_ordering Equal = Equal"
| "flip_ordering Greater = Less"

fun then_with :: "ordering \<Rightarrow> ordering \<Rightarrow> ordering" where
  "then_with Equal o2 = o2"
| "then_with Less o2 = Less"
| "then_with Greater o2 = Greater"

definition rust_cmp :: "'a::linorder \<Rightarrow> 'a \<Rightarrow> ordering" where
  "rust_cmp x y = (if x < y then Less else if x = y then Equal else Greater)"

lemma rust_cmp_iff [simp]:
  shows "rust_cmp x y = Less \<longleftrightarrow> x < y"
    and "rust_cmp x y = Equal \<longleftrightarrow> x = y"
    and "rust_cmp x y = Greater \<longleftrightarrow> y < x"
    and "Less = rust_cmp x y \<longleftrightarrow> x < y"
    and "Equal = rust_cmp x y \<longleftrightarrow> x = y"
    and "Greater = rust_cmp x y \<longleftrightarrow> y < x"
  by (auto simp: rust_cmp_def)

lemma then_with_iff:
  shows "then_with a b = Less \<longleftrightarrow> a = Less \<or> (a = Equal \<and> b = Less)"
    and "then_with a b = Equal \<longleftrightarrow> a = Equal \<and> b = Equal"
    and "then_with a b = Greater \<longleftrightarrow> a = Greater \<or> (a = Equal \<and> b = Greater)"
  by (cases a; simp)+

lemma then_with_not_greater:
  "then_with a b \<noteq> Greater \<longleftrightarrow> a = Less \<or> a = Equal \<and> b \<noteq> Greater"
  by (cases a) simp_all

lemma flip_ordering_iff [simp]:
  shows "flip_ordering a = Less \<longleftrightarrow> a = Greater"
    and "flip_ordering a = Equal \<longleftrightarrow> a = Equal"
    and "flip_ordering a = Greater \<longleftrightarrow> a = Less"
    and "flip_ordering (flip_ordering a) = a"
  by (cases a; simp)+

lemma flip_then_with: "flip_ordering (then_with a b) = then_with (flip_ordering a) (flip_ordering b)"
  by (cases a) simp_all

text \<open>
  \<open>Iterator::max_by\<close> keeps the later of two equal elements, \<open>Iterator::min_by\<close> the earlier.
\<close>

definition max_by :: "('a \<Rightarrow> 'a \<Rightarrow> ordering) \<Rightarrow> 'a list \<Rightarrow> 'a option" where
  "max_by cmp xs = (case xs of [] \<Rightarrow> None
     | y # ys \<Rightarrow> Some (foldl (\<lambda>best x. if cmp best x = Greater then best else x) y ys))"

definition min_by :: "('a \<Rightarrow> 'a \<Rightarrow> ordering) \<Rightarrow> 'a list \<Rightarrow> 'a option" where
  "min_by cmp xs = (case xs of [] \<Rightarrow> None
     | y # ys \<Rightarrow> Some (foldl (\<lambda>best x. if cmp best x = Greater then x else best) y ys))"

text \<open>
  \<open>slice::sort_by\<close>, written as insertion sort. \<open>sort_unstable_by\<close> is the same function: the
  library promises a sorted permutation and leaves the order of equal elements open, so no
  property below depends on it.
\<close>

fun insort_by :: "('a \<Rightarrow> 'a \<Rightarrow> ordering) \<Rightarrow> 'a \<Rightarrow> 'a list \<Rightarrow> 'a list" where
  "insort_by cmp x [] = [x]"
| "insort_by cmp x (y # ys) = (if cmp x y = Greater then y # insort_by cmp x ys else x # y # ys)"

definition sort_by :: "('a \<Rightarrow> 'a \<Rightarrow> ordering) \<Rightarrow> 'a list \<Rightarrow> 'a list" where
  "sort_by cmp xs = foldr (insort_by cmp) xs []"

lemma mset_insort_by [simp]: "mset (insort_by cmp x xs) = add_mset x (mset xs)"
  by (induction xs) auto

lemma mset_sort_by [simp]: "mset (sort_by cmp xs) = mset xs"
  unfolding sort_by_def by (induction xs) auto

lemma set_sort_by [simp]: "set (sort_by cmp xs) = set xs"
  by (metis mset_sort_by set_mset_mset)

lemma length_sort_by [simp]: "length (sort_by cmp xs) = length xs"
  by (metis mset_sort_by size_mset)

lemma foldl_choose_in:
  "(\<And>b x. f b x = b \<or> f b x = x) \<Longrightarrow> foldl f b xs \<in> insert b (set xs)"
proof (induction xs arbitrary: b)
  case Nil
  then show ?case by simp
next
  case (Cons x xs)
  have "foldl f (f b x) xs \<in> insert (f b x) (set xs)" using Cons by blast
  moreover have "f b x = b \<or> f b x = x" by (rule Cons.prems)
  ultimately show ?case by auto
qed

lemma max_by_None [simp]: "max_by cmp xs = None \<longleftrightarrow> xs = []"
  by (simp add: max_by_def split: list.split)

lemma min_by_None [simp]: "min_by cmp xs = None \<longleftrightarrow> xs = []"
  by (simp add: min_by_def split: list.split)

lemma max_by_in: "max_by cmp xs = Some m \<Longrightarrow> m \<in> set xs"
proof (cases xs)
  case (Cons y ys)
  assume "max_by cmp xs = Some m"
  then have "m = foldl (\<lambda>best x. if cmp best x = Greater then best else x) y ys"
    by (simp add: Cons max_by_def)
  moreover have "foldl (\<lambda>best x. if cmp best x = Greater then best else x) y ys \<in> insert y (set ys)"
    by (rule foldl_choose_in) simp
  ultimately show ?thesis by (simp add: Cons)
qed (simp add: max_by_def min_by_def)

lemma min_by_in: "min_by cmp xs = Some m \<Longrightarrow> m \<in> set xs"
proof (cases xs)
  case (Cons y ys)
  assume "min_by cmp xs = Some m"
  then have "m = foldl (\<lambda>best x. if cmp best x = Greater then x else best) y ys"
    by (simp add: Cons min_by_def)
  moreover have "foldl (\<lambda>best x. if cmp best x = Greater then x else best) y ys \<in> insert y (set ys)"
    by (rule foldl_choose_in) simp
  ultimately show ?thesis by (simp add: Cons)
qed (simp add: max_by_def min_by_def)

section \<open>The \<open>Ord\<close> contract\<close>

text \<open>
  What \<open>std::cmp::Ord\<close> asks of an implementation: comparing is total, reversing the
  arguments reverses the answer, and "not greater" is transitive. Two values may compare
  equal without being the same value, as two spellings of one version do.
\<close>

locale rust_ord =
  fixes cmp :: "'a \<Rightarrow> 'a \<Rightarrow> ordering"
  assumes cmp_refl: "cmp x x = Equal"
    and cmp_flip: "cmp y x = flip_ordering (cmp x y)"
    and cmp_trans: "cmp x y \<noteq> Greater \<Longrightarrow> cmp y z \<noteq> Greater \<Longrightarrow> cmp x z \<noteq> Greater"
begin

lemma not_greater_flip: "cmp x y \<noteq> Greater \<longleftrightarrow> cmp y x \<noteq> Less"
  by (simp add: cmp_flip [of y x])

lemma total: "cmp x y \<noteq> Greater \<or> cmp y x \<noteq> Greater"
  by (cases "cmp x y") (auto simp: cmp_flip [of y x])

lemma equal_sym: "cmp x y = Equal \<Longrightarrow> cmp y x = Equal"
  by (simp add: cmp_flip [of y x])

lemma greater_trans: "cmp x y = Greater \<Longrightarrow> cmp y z \<noteq> Less \<Longrightarrow> cmp x z = Greater"
  using cmp_trans [of z y x] cmp_trans [of x z y] 
  by (metis cmp_flip flip_ordering_iff(1,3) ordering.exhaust)

lemma equal_trans: "cmp x y = Equal \<Longrightarrow> cmp y z = Equal \<Longrightarrow> cmp x z = Equal"
  by (metis cmp_trans cmp_flip flip_ordering_iff(2,3) ordering.distinct(5) ordering.exhaust)

lemma equal_cong: "cmp x y = Equal \<Longrightarrow> cmp x z = cmp y z"
  by (metis cmp_flip equal_trans flip_ordering_iff(2) greater_trans ordering.exhaust ordering.distinct)

lemma less_trans: "cmp x y = Less \<Longrightarrow> cmp y z \<noteq> Greater \<Longrightarrow> cmp x z = Less"
  by (metis cmp_flip flip_ordering_iff(1,3) greater_trans equal_cong ordering.exhaust)

lemma foldl_max_upper:
  fixes b :: 'a and xs :: "'a list"
  defines "m \<equiv> foldl (\<lambda>best x. if cmp best x = Greater then best else x) b xs"
  shows "cmp b m \<noteq> Greater" and "\<And>x. x \<in> set xs \<Longrightarrow> cmp x m \<noteq> Greater"
proof -
  have "cmp b m \<noteq> Greater \<and> (\<forall>x \<in> set xs. cmp x m \<noteq> Greater)"
    unfolding m_def
  proof (induction xs arbitrary: b)
    case Nil
    then show ?case by (simp add: cmp_refl)
  next
    case (Cons x xs)
    let ?c = "if cmp b x = Greater then b else x"
    let ?m = "foldl (\<lambda>best x. if cmp best x = Greater then best else x) ?c xs"
    have c: "cmp ?c ?m \<noteq> Greater" and rest: "\<forall>y \<in> set xs. cmp y ?m \<noteq> Greater"
      using Cons.IH [of ?c] by simp_all
    have "cmp b ?c \<noteq> Greater" and "cmp x ?c \<noteq> Greater"
      by (simp_all add: cmp_refl cmp_flip [of x b])
    then have "cmp b ?m \<noteq> Greater" and "cmp x ?m \<noteq> Greater"
      using c cmp_trans by blast+
    with rest show ?case by simp
  qed
  then show "cmp b m \<noteq> Greater" and "\<And>x. x \<in> set xs \<Longrightarrow> cmp x m \<noteq> Greater" by auto
qed

lemma max_by_upper:
  assumes "max_by cmp xs = Some m" and "x \<in> set xs"
  shows "cmp x m \<noteq> Greater"
proof (cases xs)
  case Nil
  with assms show ?thesis by simp
next
  case (Cons y ys)
  with assms(1) have m: "m = foldl (\<lambda>best x. if cmp best x = Greater then best else x) y ys"
    by (simp add: max_by_def)
  from assms(2) Cons have "x = y \<or> x \<in> set ys" by simp
  then show ?thesis using foldl_max_upper unfolding m by blast
qed

lemma foldl_min_lower:
  fixes b :: 'a and xs :: "'a list"
  defines "m \<equiv> foldl (\<lambda>best x. if cmp best x = Greater then x else best) b xs"
  shows "cmp m b \<noteq> Greater" and "\<And>x. x \<in> set xs \<Longrightarrow> cmp m x \<noteq> Greater"
proof -
  have "cmp m b \<noteq> Greater \<and> (\<forall>x \<in> set xs. cmp m x \<noteq> Greater)"
    unfolding m_def
  proof (induction xs arbitrary: b)
    case Nil
    then show ?case by (simp add: cmp_refl)
  next
    case (Cons x xs)
    let ?c = "if cmp b x = Greater then x else b"
    let ?m = "foldl (\<lambda>best x. if cmp best x = Greater then x else best) ?c xs"
    have c: "cmp ?m ?c \<noteq> Greater" and rest: "\<forall>y \<in> set xs. cmp ?m y \<noteq> Greater"
      using Cons.IH [of ?c] by simp_all
    have "cmp ?c b \<noteq> Greater" and "cmp ?c x \<noteq> Greater"
      by (simp_all add: cmp_refl cmp_flip [of x b])
    then have "cmp ?m b \<noteq> Greater" and "cmp ?m x \<noteq> Greater"
      using c cmp_trans by blast+
    with rest show ?case by simp
  qed
  then show "cmp m b \<noteq> Greater" and "\<And>x. x \<in> set xs \<Longrightarrow> cmp m x \<noteq> Greater" by auto
qed

lemma min_by_lower:
  assumes "min_by cmp xs = Some m" and "x \<in> set xs"
  shows "cmp m x \<noteq> Greater"
proof (cases xs)
  case Nil
  with assms show ?thesis by simp
next
  case (Cons y ys)
  with assms(1) have m: "m = foldl (\<lambda>best x. if cmp best x = Greater then x else best) y ys"
    by (simp add: min_by_def)
  from assms(2) Cons have "x = y \<or> x \<in> set ys" by simp
  then show ?thesis using foldl_min_lower unfolding m by blast
qed

abbreviation sorted_by :: "'a list \<Rightarrow> bool" where
  "sorted_by \<equiv> sorted_wrt (\<lambda>x y. cmp x y \<noteq> Greater)"

lemma sorted_insort_by: "sorted_by xs \<Longrightarrow> sorted_by (insort_by cmp x xs)"
proof (induction xs)
  case Nil
  then show ?case by simp
next
  case (Cons y ys)
  have elems: "set (insort_by cmp x ys) = insert x (set ys)"
    by (metis mset_insort_by set_mset_add_mset_insert set_mset_mset)
  show ?case
  proof (cases "cmp x y = Greater")
    case True
    then have "cmp y x \<noteq> Greater" by (simp add: cmp_flip [of y x])
    with True Cons elems show ?thesis by simp
  next
    case False
    with Cons.prems show ?thesis by (auto dest: cmp_trans [OF False])
  qed
qed

lemma sorted_sort_by: "sorted_by (sort_by cmp xs)"
  unfolding sort_by_def by (induction xs) (simp_all add: sorted_insort_by)

end

text \<open>Ways to build an ordering: by a key, one after another, and along two lists.\<close>

interpretation linorder_ord: rust_ord "rust_cmp :: 'a::linorder \<Rightarrow> 'a \<Rightarrow> ordering"
  by unfold_locales (auto simp: rust_cmp_def split: if_splits)

lemma rust_ord_on: "rust_ord c \<Longrightarrow> rust_ord (\<lambda>x y. c (f x) (f y))"
  unfolding rust_ord_def by blast

lemma rust_ord_key: "rust_ord (\<lambda>x y. rust_cmp (f x) (f y))"
  by (rule rust_ord_on) unfold_locales

lemma rust_ord_flip: "rust_ord c \<Longrightarrow> rust_ord (\<lambda>x y. c y x)"
proof (unfold_locales, goal_cases)
  case (1 x)
  then show ?case by (simp add: rust_ord.cmp_refl)
next
  case (2 y x)
  then show ?case by (rule rust_ord.cmp_flip)
next
  case (3 x y z)
  then show ?case using rust_ord.cmp_trans [of c z y x] by blast
qed

lemma rust_ord_then_with:
  assumes c: "rust_ord c" and d: "rust_ord d"
  shows "rust_ord (\<lambda>x y. then_with (c x y) (d x y))"
proof (unfold_locales, goal_cases)
  case (1 x)
  show ?case by (simp add: rust_ord.cmp_refl [OF c] rust_ord.cmp_refl [OF d])
next
  case (2 y x)
  show ?case
    by (metis flip_then_with rust_ord.cmp_flip [OF c] rust_ord.cmp_flip [OF d])
next
  case (3 x y z)
  then have xy: "c x y = Less \<or> c x y = Equal \<and> d x y \<noteq> Greater"
    and yz: "c y z = Less \<or> c y z = Equal \<and> d y z \<noteq> Greater"
    by (simp_all add: then_with_not_greater)
  show ?case
  proof (cases "c x y = Less \<or> c y z = Less")
    case True
    then have "c x z = Less"
      using xy yz rust_ord.less_trans [OF c] rust_ord.equal_cong [OF c]
      by (metis ordering.distinct(3,5))
    then show ?thesis by simp
  next
    case False
    with xy yz have "c x z = Equal" and "d x z \<noteq> Greater"
      using rust_ord.equal_trans [OF c] rust_ord.cmp_trans [OF d] by blast+
    then show ?thesis by simp
  qed
qed

text \<open>
  Two iterators compared element by element, the shorter one being less when it is a prefix:
  the loop both prerelease comparisons run over their dot-separated parts.
\<close>

fun lex_cmp :: "('a \<Rightarrow> 'a \<Rightarrow> ordering) \<Rightarrow> 'a list \<Rightarrow> 'a list \<Rightarrow> ordering" where
  "lex_cmp c [] [] = Equal"
| "lex_cmp c [] (y # ys) = Less"
| "lex_cmp c (x # xs) [] = Greater"
| "lex_cmp c (x # xs) (y # ys) = then_with (c x y) (lex_cmp c xs ys)"

lemma lex_cmp_trans:
  assumes c: "rust_ord c"
  shows "lex_cmp c xs ys \<noteq> Greater \<Longrightarrow> lex_cmp c ys zs \<noteq> Greater \<Longrightarrow> lex_cmp c xs zs \<noteq> Greater"
proof (induction xs arbitrary: ys zs)
  case Nil
  then show ?case by (cases zs) simp_all
next
  case (Cons x xs)
  from Cons.prems(1) obtain y ys' where ys: "ys = y # ys'" by (cases ys) simp_all
  with Cons.prems(2) obtain z zs' where zs: "zs = z # zs'" by (cases zs) simp_all
  from Cons.prems(1) ys have xy: "c x y = Less \<or> c x y = Equal \<and> lex_cmp c xs ys' \<noteq> Greater"
    by (simp add: then_with_not_greater)
  from Cons.prems(2) ys zs have yz: "c y z = Less \<or> c y z = Equal \<and> lex_cmp c ys' zs' \<noteq> Greater"
    by (simp add: then_with_not_greater)
  show ?case
  proof (cases "c x y = Less \<or> c y z = Less")
    case True
    then have "c x z = Less"
      using xy yz rust_ord.less_trans [OF c] rust_ord.equal_cong [OF c]
      by (metis ordering.distinct(3,5))
    then show ?thesis by (simp add: zs)
  next
    case False
    with xy yz have "c x z = Equal" and "lex_cmp c xs zs' \<noteq> Greater"
      using rust_ord.equal_trans [OF c] Cons.IH by blast+
    then show ?thesis by (simp add: zs)
  qed
qed

lemma rust_ord_lex_cmp:
  assumes c: "rust_ord c"
  shows "rust_ord (lex_cmp c)"
proof (unfold_locales, goal_cases)
  case (1 xs)
  show ?case by (induction xs) (simp_all add: rust_ord.cmp_refl [OF c])
next
  case (2 ys xs)
  show ?case
  proof (induction ys arbitrary: xs)
    case Nil
    then show ?case by (cases xs) simp_all
  next
    case (Cons y ys)
    show ?case
    proof (cases xs)
      case (Cons x xs')
      then show ?thesis
        by (simp add: flip_then_with rust_ord.cmp_flip [OF c, of y x] Cons.IH [of xs'])
    qed simp
  qed
next
  case (3 xs ys zs)
  then show ?case by (rule lex_cmp_trans [OF c])
qed

end
