(* ===== verification/Cancellation_Token.thy ===== *)
theory Cancellation_Token
  imports Prelude
begin

text \<open>
  \<open>crates/dv-core/src/cancellation.rs\<close>: the command-lifetime cancellation token. The first part
  is the token's methods as functions on its state; the second runs any number of callers and
  waiters concurrently, one atomic operation at a time, and shows what every interleaving keeps.

  Instants are nanoseconds of the monotonic clock. \<open>Notify\<close> is tokio's: a \<open>Notified\<close> future
  created before a call of \<open>notify_waiters\<close> is woken by it, so the number of calls so far
  (\<open>wakeups\<close>) and the number a future saw at its creation are its whole state.
\<close>

section \<open>The token\<close>

definition RUNNING :: u8 where "RUNNING = 0"
definition CANCELLING :: u8 where "CANCELLING = 1"
definition FORCED :: u8 where "FORCED = 2"
definition NO_REQUEST :: u64 where "NO_REQUEST = - 1"
definition CHILD_GRACE :: nat where "CHILD_GRACE = 2 * 10 ^ 9"

record cancellation_state =
  requested_elapsed_us :: u64
  phase :: u8
  epoch :: nat
  wakeups :: nat

definition new_token :: "nat \<Rightarrow> cancellation_state" where
  "new_token now = \<lparr>requested_elapsed_us = NO_REQUEST, phase = RUNNING, epoch = now, wakeups = 0\<rparr>"

definition elapsed_us :: "nat \<Rightarrow> cancellation_state \<Rightarrow> u64" where
  "elapsed_us now st = of_nat (min ((now - epoch st) div 1000) (2 ^ 64 - 2))"

definition fetch_max_phase :: "u8 \<Rightarrow> cancellation_state \<Rightarrow> cancellation_state" where
  "fetch_max_phase p st = st\<lparr>phase := max (phase st) p\<rparr>"

definition compare_exchange_requested :: "nat \<Rightarrow> cancellation_state \<Rightarrow> bool \<times> cancellation_state" where
  "compare_exchange_requested now st =
     (if requested_elapsed_us st = NO_REQUEST
      then (True, st\<lparr>requested_elapsed_us := elapsed_us now st\<rparr>) else (False, st))"

definition notify_waiters :: "cancellation_state \<Rightarrow> cancellation_state" where
  "notify_waiters st = st\<lparr>wakeups := Suc (wakeups st)\<rparr>"

definition record_first_request :: "nat \<Rightarrow> cancellation_state \<Rightarrow> bool \<times> cancellation_state" where
  "record_first_request now st =
     (let (first, st1) = compare_exchange_requested now st
      in (first, if first then fetch_max_phase CANCELLING st1 else st1))"

definition request :: "nat \<Rightarrow> cancellation_state \<Rightarrow> cancellation_state" where
  "request now st =
     (let (first, st1) = record_first_request now st
      in notify_waiters (if first then st1 else fetch_max_phase FORCED st1))"

definition cancel :: "nat \<Rightarrow> cancellation_state \<Rightarrow> cancellation_state" where
  "cancel now st = notify_waiters (snd (record_first_request now st))"

definition is_cancelled :: "cancellation_state \<Rightarrow> bool" where
  "is_cancelled st \<longleftrightarrow> CANCELLING \<le> phase st"

definition is_forced :: "cancellation_state \<Rightarrow> bool" where
  "is_forced st \<longleftrightarrow> FORCED \<le> phase st"

text \<open>\<open>Instant::checked_add\<close>: \<open>latest\<close> is the latest instant the platform represents.\<close>

definition checked_add_instant :: "nat \<Rightarrow> nat \<Rightarrow> nat \<Rightarrow> nat option" where
  "checked_add_instant latest t d = (if t + d \<le> latest then Some (t + d) else None)"

definition child_deadline :: "nat \<Rightarrow> cancellation_state \<Rightarrow> nat option" where
  "child_deadline latest st =
     (if requested_elapsed_us st = NO_REQUEST then None
      else Option.bind
        (checked_add_instant latest (epoch st) (unat (requested_elapsed_us st) * 1000))
        (\<lambda>requested. checked_add_instant latest requested CHILD_GRACE))"

definition remaining_child_grace :: "nat \<Rightarrow> nat \<Rightarrow> cancellation_state \<Rightarrow> nat" where
  "remaining_child_grace latest now st =
     (if is_forced st then 0
      else case child_deadline latest st of None \<Rightarrow> CHILD_GRACE | Some deadline \<Rightarrow> deadline - now)"

lemma phase_consts [simp]:
  shows "RUNNING < CANCELLING" "CANCELLING < FORCED" "RUNNING < FORCED"
    "\<not> CANCELLING \<le> RUNNING" "\<not> FORCED \<le> CANCELLING" "\<not> FORCED \<le> RUNNING"
    "CANCELLING \<le> FORCED" "RUNNING \<le> p" "max p RUNNING = p" "max RUNNING p = p"
    "max CANCELLING FORCED = FORCED" "max FORCED CANCELLING = FORCED" "RUNNING \<noteq> CANCELLING" "CANCELLING \<noteq> FORCED" "RUNNING \<noteq> FORCED"
    "CANCELLING \<noteq> RUNNING" "FORCED \<noteq> CANCELLING" "FORCED \<noteq> RUNNING"
  by (simp_all add: RUNNING_def CANCELLING_def FORCED_def max_def) (auto simp: word_le_nat_alt unat_eq_0)

lemma elapsed_us_not_NO_REQUEST [simp]: "elapsed_us now st \<noteq> NO_REQUEST"
proof
  let ?n = "min ((now - epoch st) div 1000) (2 ^ 64 - 2)"
  assume "elapsed_us now st = NO_REQUEST"
  then have "unat (of_nat ?n :: u64) = unat (- 1 :: u64)"
    by (simp add: elapsed_us_def NO_REQUEST_def)
  moreover have "unat (of_nat ?n :: u64) = ?n"
    by (simp add: unat_of_nat)
  moreover have "unat (- 1 :: u64) = 2 ^ 64 - 1"
    by (simp add: unsigned_minus_1_eq_mask mask_eq_exp_minus_1)
  ultimately have "?n = 2 ^ 64 - 1" by simp
  then show False by simp
qed

lemma unat_elapsed_us: "unat (elapsed_us now st) * 1000 \<le> now - epoch st"
proof -
  let ?n = "min ((now - epoch st) div 1000) (2 ^ 64 - 2)"
  have "unat (of_nat ?n :: u64) = ?n" by (simp add: unat_of_nat)
  then have "unat (elapsed_us now st) \<le> (now - epoch st) div 1000"
    by (simp add: elapsed_us_def)
  then show ?thesis by linarith
qed

section \<open>One caller at a time\<close>

lemma record_first_request_first:
  "requested_elapsed_us st = NO_REQUEST \<Longrightarrow>
    record_first_request now st =
      (True, st\<lparr>requested_elapsed_us := elapsed_us now st, phase := max (phase st) CANCELLING\<rparr>)"
  by (simp add: record_first_request_def compare_exchange_requested_def fetch_max_phase_def)

lemma record_first_request_later:
  "requested_elapsed_us st \<noteq> NO_REQUEST \<Longrightarrow> record_first_request now st = (False, st)"
  by (simp add: record_first_request_def compare_exchange_requested_def)

text \<open>The grace left to a child never exceeds the fixed grace once the clock has passed the request.\<close>

lemma child_deadline_bounds:
  assumes "child_deadline latest st = Some d"
  shows "requested_elapsed_us st \<noteq> NO_REQUEST"
    and "d = epoch st + unat (requested_elapsed_us st) * 1000 + CHILD_GRACE" and "d \<le> latest"
  using assms
  by (auto simp: child_deadline_def checked_add_instant_def bind_eq_Some_conv split: if_splits)

section \<open>Any number of callers and waiters\<close>

text \<open>
  A caller of \<open>request\<close> or \<open>cancel\<close> performs the compare-and-exchange, then at most one
  \<open>fetch_max\<close>, then the notification; the flag of the last two states records whether its
  exchange was the first. A waiter runs \<open>wait_for\<close>: it reads the phase, creates a \<open>Notified\<close>
  future (keeping the number of notifications so far), reads the phase again and sleeps until
  the future is ready.
\<close>

datatype call = CallRequest | CallCancel

datatype caller = Idle | Entered call | Won call | Lost | Notifying call bool | Returned call bool

datatype waiter = NotWaiting | Checking u8 | Armed u8 nat | Sleeping u8 nat | Woken u8

record system =
  token :: cancellation_state
  clock :: nat
  callers :: "nat \<Rightarrow> caller"
  waiters :: "nat \<Rightarrow> waiter"

definition init_system :: "nat \<Rightarrow> system" where
  "init_system now = \<lparr>token = new_token now, clock = now, callers = (\<lambda>_. Idle), waiters = (\<lambda>_. NotWaiting)\<rparr>"

inductive step :: "system \<Rightarrow> system \<Rightarrow> bool" where
  tick: "step s (s\<lparr>clock := clock s + d\<rparr>)"
| enter: "callers s t = Idle \<Longrightarrow> step s (s\<lparr>callers := (callers s)(t := Entered c)\<rparr>)"
| exchange_first:
    "callers s t = Entered c \<Longrightarrow> compare_exchange_requested (clock s) (token s) = (True, tok) \<Longrightarrow>
     step s (s\<lparr>token := tok, callers := (callers s)(t := Won c)\<rparr>)"
| exchange_later_request:
    "callers s t = Entered CallRequest \<Longrightarrow> compare_exchange_requested (clock s) (token s) = (False, tok) \<Longrightarrow>
     step s (s\<lparr>token := tok, callers := (callers s)(t := Lost)\<rparr>)"
| exchange_later_cancel:
    "callers s t = Entered CallCancel \<Longrightarrow> compare_exchange_requested (clock s) (token s) = (False, tok) \<Longrightarrow>
     step s (s\<lparr>token := tok, callers := (callers s)(t := Notifying CallCancel False)\<rparr>)"
| set_cancelling:
    "callers s t = Won c \<Longrightarrow>
     step s (s\<lparr>token := fetch_max_phase CANCELLING (token s), callers := (callers s)(t := Notifying c True)\<rparr>)"
| set_forced:
    "callers s t = Lost \<Longrightarrow>
     step s (s\<lparr>token := fetch_max_phase FORCED (token s), callers := (callers s)(t := Notifying CallRequest False)\<rparr>)"
| notify:
    "callers s t = Notifying c f \<Longrightarrow>
     step s (s\<lparr>token := notify_waiters (token s), callers := (callers s)(t := Returned c f)\<rparr>)"
| wait_start:
    "waiters s w = NotWaiting \<Longrightarrow> step s (s\<lparr>waiters := (waiters s)(w := Checking p)\<rparr>)"
| wait_reached:
    "waiters s w = Checking p \<Longrightarrow> p \<le> phase (token s) \<Longrightarrow>
     step s (s\<lparr>waiters := (waiters s)(w := Woken p)\<rparr>)"
| wait_arm:
    "waiters s w = Checking p \<Longrightarrow> \<not> p \<le> phase (token s) \<Longrightarrow>
     step s (s\<lparr>waiters := (waiters s)(w := Armed p (wakeups (token s)))\<rparr>)"
| wait_reached_armed:
    "waiters s w = Armed p g \<Longrightarrow> p \<le> phase (token s) \<Longrightarrow>
     step s (s\<lparr>waiters := (waiters s)(w := Woken p)\<rparr>)"
| wait_sleep:
    "waiters s w = Armed p g \<Longrightarrow> \<not> p \<le> phase (token s) \<Longrightarrow>
     step s (s\<lparr>waiters := (waiters s)(w := Sleeping p g)\<rparr>)"
| wait_wake:
    "waiters s w = Sleeping p g \<Longrightarrow> wakeups (token s) \<noteq> g \<Longrightarrow>
     step s (s\<lparr>waiters := (waiters s)(w := Checking p)\<rparr>)"

inductive reachable :: "system \<Rightarrow> bool" where
  start: "reachable (init_system now)"
| move: "reachable s \<Longrightarrow> step s s' \<Longrightarrow> reachable s'"

fun first_caller :: "caller \<Rightarrow> bool" where
  "first_caller (Won c) = True"
| "first_caller (Notifying c f) = f"
| "first_caller (Returned c f) = f"
| "first_caller _ = False"

fun later_request :: "caller \<Rightarrow> bool" where
  "later_request (Notifying c f) = (c = CallRequest \<and> \<not> f)"
| "later_request (Returned c f) = (c = CallRequest \<and> \<not> f)"
| "later_request _ = False"

fun notifying :: "caller \<Rightarrow> bool" where
  "notifying (Notifying _ _) = True"
| "notifying _ = False"

text \<open>
  The invariant. The exchange has been won exactly when the elapsed time is recorded, by one
  caller only; a phase above \<open>RUNNING\<close> has a recorded request behind it and \<open>FORCED\<close> also
  a later request; whoever has passed its \<open>fetch_max\<close> has moved the phase; and a sleeping
  waiter whose phase is reached is about to be woken.
\<close>

definition first_inv :: "system \<Rightarrow> bool" where
  "first_inv s \<longleftrightarrow>
     (requested_elapsed_us (token s) \<noteq> NO_REQUEST \<longleftrightarrow> (\<exists>t. first_caller (callers s t)))
   \<and> (\<forall>t u. first_caller (callers s t) \<longrightarrow> first_caller (callers s u) \<longrightarrow> t = u)"

definition phase_inv :: "system \<Rightarrow> bool" where
  "phase_inv s \<longleftrightarrow>
     phase (token s) \<in> {RUNNING, CANCELLING, FORCED}
   \<and> (phase (token s) \<noteq> RUNNING \<longrightarrow> requested_elapsed_us (token s) \<noteq> NO_REQUEST)
   \<and> (\<forall>t. callers s t = Lost \<or> later_request (callers s t) \<longrightarrow> requested_elapsed_us (token s) \<noteq> NO_REQUEST)
   \<and> (phase (token s) = FORCED \<longrightarrow> (\<exists>t. later_request (callers s t)))"

definition progress_inv :: "system \<Rightarrow> bool" where
  "progress_inv s \<longleftrightarrow>
     (\<forall>t c. callers s t \<in> {Notifying c True, Returned c True} \<longrightarrow> CANCELLING \<le> phase (token s))
   \<and> (\<forall>t. later_request (callers s t) \<longrightarrow> FORCED \<le> phase (token s))"

definition wake_inv :: "system \<Rightarrow> bool" where
  "wake_inv s \<longleftrightarrow>
     (\<forall>w p g. waiters s w = Sleeping p g \<longrightarrow> p \<le> phase (token s) \<longrightarrow> wakeups (token s) = g
        \<longrightarrow> (\<exists>t. notifying (callers s t)))"

definition clock_inv :: "system \<Rightarrow> bool" where
  "clock_inv s \<longleftrightarrow> epoch (token s) \<le> clock s
     \<and> (requested_elapsed_us (token s) \<noteq> NO_REQUEST \<longrightarrow>
          epoch (token s) + unat (requested_elapsed_us (token s)) * 1000 \<le> clock s)"

lemmas token_ops = compare_exchange_requested_def fetch_max_phase_def notify_waiters_def

lemma clock_inv_step: "step s s' \<Longrightarrow> clock_inv s \<Longrightarrow> clock_inv s'"
proof (induction rule: step.induct)
  case (exchange_first s t c tok)
  then show ?case
    using unat_elapsed_us [of "clock s" "token s"]
    by (auto simp: clock_inv_def token_ops split: if_splits)
qed (auto simp: clock_inv_def token_ops split: if_splits)

lemma step_first_stays: "step s s' \<Longrightarrow> first_caller (callers s t) \<Longrightarrow> first_caller (callers s' t)"
  by (induction rule: step.induct) auto

lemma step_first_new:
  "step s s' \<Longrightarrow> first_caller (callers s' t) \<Longrightarrow> \<not> first_caller (callers s t) \<Longrightarrow>
    requested_elapsed_us (token s) = NO_REQUEST \<and> requested_elapsed_us (token s') \<noteq> NO_REQUEST
    \<and> (\<forall>u. u \<noteq> t \<longrightarrow> callers s' u = callers s u)"
  by (induction rule: step.induct) (auto simp: token_ops split: if_splits)

lemma step_requested:
  "step s s' \<Longrightarrow> requested_elapsed_us (token s') = requested_elapsed_us (token s)
     \<or> requested_elapsed_us (token s) = NO_REQUEST \<and> (\<exists>t. first_caller (callers s' t))"
  by (induction rule: step.induct) (auto simp: token_ops split: if_splits)

lemma step_later_stays: "step s s' \<Longrightarrow> later_request (callers s t) \<Longrightarrow> later_request (callers s' t)"
  by (induction rule: step.induct) auto

lemma step_phase: "step s s' \<Longrightarrow> phase (token s) \<le> phase (token s')"
  by (induction rule: step.induct) (auto simp: token_ops split: if_splits)

lemma step_phase_moved:
  "step s s' \<Longrightarrow> phase (token s') = phase (token s)
     \<or> (\<exists>t c. callers s t = Won c \<and> phase (token s') = max (phase (token s)) CANCELLING
          \<and> callers s' t = Notifying c True)
     \<or> (\<exists>t. callers s t = Lost \<and> phase (token s') = max (phase (token s)) FORCED
          \<and> callers s' t = Notifying CallRequest False)"
  by (induction rule: step.induct) (auto simp: token_ops split: if_splits)

lemma step_wakeups: "step s s' \<Longrightarrow> wakeups (token s) \<le> wakeups (token s')"
  by (induction rule: step.induct) (auto simp: token_ops split: if_splits)

lemma step_notifying:
  "step s s' \<Longrightarrow> notifying (callers s t) \<Longrightarrow> notifying (callers s' t) \<or> wakeups (token s) < wakeups (token s')"
  by (induction rule: step.induct) (auto simp: token_ops split: if_splits)

lemma step_sleeping:
  "step s s' \<Longrightarrow> waiters s' w = Sleeping p g \<Longrightarrow>
     waiters s w = Sleeping p g \<or> waiters s w = Armed p g \<and> \<not> p \<le> phase (token s) \<and> token s' = token s"
  by (induction rule: step.induct) (auto split: if_splits)

lemma step_armed:
  "step s s' \<Longrightarrow> waiters s' w = Armed p g \<Longrightarrow> waiters s w \<noteq> Armed p g \<Longrightarrow> g = wakeups (token s')"
  by (induction rule: step.induct) (auto split: if_splits)

lemma step_lost_new:
  "step s s' \<Longrightarrow> callers s' t = Lost \<Longrightarrow> callers s t \<noteq> Lost \<Longrightarrow> requested_elapsed_us (token s') \<noteq> NO_REQUEST"
  by (induction rule: step.induct) (auto simp: token_ops split: if_splits)

lemma step_later_new:
  "step s s' \<Longrightarrow> later_request (callers s' t) \<Longrightarrow> \<not> later_request (callers s t) \<Longrightarrow>
     callers s t = Lost \<and> phase (token s') = max (phase (token s)) FORCED \<or> first_caller (callers s t) \<and> \<not> first_caller (callers s' t)"
  by (induction rule: step.induct) (auto simp: token_ops split: if_splits)

lemma step_requested_stays:
  "step s s' \<Longrightarrow> requested_elapsed_us (token s) \<noteq> NO_REQUEST \<Longrightarrow>
     requested_elapsed_us (token s') = requested_elapsed_us (token s)"
  using step_requested by blast

lemma first_inv_step:
  assumes "step s s'" and "first_inv s"
  shows "first_inv s'"
  unfolding first_inv_def
proof (intro conjI allI impI)
  show "requested_elapsed_us (token s') \<noteq> NO_REQUEST \<longleftrightarrow> (\<exists>t. first_caller (callers s' t))"
    using assms step_requested [OF assms(1)] step_first_stays [OF assms(1)] step_first_new [OF assms(1)]
    unfolding first_inv_def by metis
next
  fix t u
  assume "first_caller (callers s' t)" and "first_caller (callers s' u)"
  then show "t = u"
    using assms step_first_new [OF assms(1)] unfolding first_inv_def by metis
qed

lemma phase_inv_step:
  assumes st: "step s s'" and fi: "first_inv s" and pi: "phase_inv s"
  shows "phase_inv s'"
  unfolding phase_inv_def
proof (intro conjI allI impI)
  from step_phase_moved [OF st] pi
  show "phase (token s') \<in> {RUNNING, CANCELLING, FORCED}"
    by (auto simp: phase_inv_def max_def)
next
  assume moved: "phase (token s') \<noteq> RUNNING"
  show "requested_elapsed_us (token s') \<noteq> NO_REQUEST"
  proof (cases "phase (token s) = RUNNING")
    case True
    with moved step_phase_moved [OF st] have "requested_elapsed_us (token s) \<noteq> NO_REQUEST"
      using fi pi unfolding first_inv_def phase_inv_def by (metis first_caller.simps(1))
    with step_requested_stays [OF st] show ?thesis by simp
  next
    case False
    with pi step_requested_stays [OF st] show ?thesis by (simp add: phase_inv_def)
  qed
next
  fix t
  assume "callers s' t = Lost \<or> later_request (callers s' t)"
  then show "requested_elapsed_us (token s') \<noteq> NO_REQUEST"
    using step_lost_new [OF st, of t] step_later_new [OF st, of t] step_first_stays [OF st, of t]
      step_requested_stays [OF st] pi unfolding phase_inv_def by metis
next
  assume forced: "phase (token s') = FORCED"
  show "\<exists>t. later_request (callers s' t)"
  proof (cases "phase (token s) = FORCED")
    case True
    with pi step_later_stays [OF st] show ?thesis by (auto simp: phase_inv_def)
  next
    case False
    then have "phase (token s) \<in> {RUNNING, CANCELLING}" using pi by (auto simp: phase_inv_def)
    with step_phase_moved [OF st] forced
    obtain t where "callers s' t = Notifying CallRequest False" by auto
    then have "later_request (callers s' t)" by simp
    then show ?thesis ..
  qed
qed

lemma progress_inv_step:
  assumes st: "step s s'" and pi: "progress_inv s"
  shows "progress_inv s'"
proof -
  have le: "phase (token s) \<le> phase (token s')" by (rule step_phase [OF st])
  from st have "\<And>t c. callers s' t \<in> {Notifying c True, Returned c True} \<Longrightarrow>
      callers s t \<in> {Notifying c True, Returned c True} \<or> CANCELLING \<le> phase (token s')"
    by (induction rule: step.induct) (auto simp: token_ops le_max_iff_disj split: if_splits)
  moreover from st have "\<And>t. later_request (callers s' t) \<Longrightarrow>
      later_request (callers s t) \<or> FORCED \<le> phase (token s')"
    by (induction rule: step.induct) (auto simp: token_ops le_max_iff_disj split: if_splits)
  ultimately show ?thesis
    using pi le unfolding progress_inv_def by (meson order_trans)
qed

text \<open>A waiter only falls asleep on a snapshot that is not ahead of the notification count.\<close>

definition snapshot_inv :: "system \<Rightarrow> bool" where
  "snapshot_inv s \<longleftrightarrow>
     (\<forall>w p g. waiters s w \<in> {Armed p g, Sleeping p g} \<longrightarrow> g \<le> wakeups (token s))"

lemma snapshot_inv_step: "step s s' \<Longrightarrow> snapshot_inv s \<Longrightarrow> snapshot_inv s'"
  by (induction rule: step.induct)
    (auto simp: snapshot_inv_def token_ops le_Suc_eq split: if_splits)

lemma wake_inv_step:
  assumes st: "step s s'" and wi: "wake_inv s" and si: "snapshot_inv s"
  shows "wake_inv s'"
  unfolding wake_inv_def
proof (intro allI impI)
  fix w p g
  assume sleeping: "waiters s' w = Sleeping p g" and reached: "p \<le> phase (token s')"
    and quiet: "wakeups (token s') = g"
  have not_armed: "\<not> (waiters s w = Armed p g \<and> \<not> p \<le> phase (token s) \<and> token s' = token s)"
    using reached by auto
  with step_sleeping [OF st sleeping] have was: "waiters s w = Sleeping p g" by blast
  with si have "g \<le> wakeups (token s)" by (auto simp: snapshot_inv_def)
  with quiet step_wakeups [OF st] have same: "wakeups (token s) = g" by simp
  show "\<exists>t. notifying (callers s' t)"
  proof (cases "p \<le> phase (token s)")
    case True
    with wi was same obtain t where "notifying (callers s t)" by (auto simp: wake_inv_def)
    with step_notifying [OF st, of t] same quiet show ?thesis by auto
  next
    case False
    with reached step_phase_moved [OF st] show ?thesis by (metis notifying.simps(1))
  qed
qed

lemma reachable_invs:
  "reachable s \<Longrightarrow> first_inv s \<and> phase_inv s \<and> progress_inv s \<and> snapshot_inv s \<and> wake_inv s \<and> clock_inv s"
proof (induction rule: reachable.induct)
  case (start now)
  show ?case
    by (simp add: first_inv_def phase_inv_def progress_inv_def snapshot_inv_def wake_inv_def clock_inv_def
        init_system_def new_token_def)
next
  case (move s s')
  then show ?case
    by (blast intro: first_inv_step phase_inv_step progress_inv_step snapshot_inv_step wake_inv_step clock_inv_step)
qed

lemmas reachable_invsD =
  reachable_invs [THEN conjunct1]
  reachable_invs [THEN conjunct2, THEN conjunct1]
  reachable_invs [THEN conjunct2, THEN conjunct2, THEN conjunct1]
  reachable_invs [THEN conjunct2, THEN conjunct2, THEN conjunct2, THEN conjunct2, THEN conjunct1]
  reachable_invs [THEN conjunct2, THEN conjunct2, THEN conjunct2, THEN conjunct2, THEN conjunct2]

text \<open>A call made with no other caller in the way is a run of that caller's steps.\<close>

lemma request_is_a_run:
  assumes idle: "callers s t = Idle"
  shows "step\<^sup>*\<^sup>* s (s\<lparr>token := request (clock s) (token s), callers := (callers s)
           (t := Returned CallRequest (requested_elapsed_us (token s) = NO_REQUEST))\<rparr>)"
proof -
  let ?at = "\<lambda>tok c. s\<lparr>token := tok, callers := (callers s)(t := c)\<rparr>"
  have e: "step s (?at (token s) (Entered CallRequest))"
    using step.enter [OF idle, of CallRequest] by simp
  obtain first tok where x: "compare_exchange_requested (clock s) (token s) = (first, tok)" by fastforce
  then have flag: "first = (requested_elapsed_us (token s) = NO_REQUEST)"
    by (auto simp: compare_exchange_requested_def split: if_splits)
  have finish: "step\<^sup>*\<^sup>* (?at tok' (Notifying CallRequest first)) (?at (notify_waiters tok') (Returned CallRequest first))" for tok'
    using step.notify [of "?at tok' (Notifying CallRequest first)" t CallRequest first] by simp
  show ?thesis
  proof (cases first)
    case True
    have "step (?at (token s) (Entered CallRequest)) (?at tok (Won CallRequest))"
      using step.exchange_first [of "?at (token s) (Entered CallRequest)" t CallRequest tok] x True by simp
    moreover have "step (?at tok (Won CallRequest)) (?at (fetch_max_phase CANCELLING tok) (Notifying CallRequest first))"
      using step.set_cancelling [of "?at tok (Won CallRequest)" t CallRequest] True by simp
    ultimately have "step\<^sup>*\<^sup>* s (?at (notify_waiters (fetch_max_phase CANCELLING tok)) (Returned CallRequest first))"
      using e finish by (meson converse_rtranclp_into_rtranclp)
    then show ?thesis using True x by (simp add: request_def record_first_request_def flag)
  next
    case False
    have "step (?at (token s) (Entered CallRequest)) (?at tok Lost)"
      using step.exchange_later_request [of "?at (token s) (Entered CallRequest)" t tok] x False by simp
    moreover have "step (?at tok Lost) (?at (fetch_max_phase FORCED tok) (Notifying CallRequest first))"
      using step.set_forced [of "?at tok Lost" t] False by simp
    ultimately have "step\<^sup>*\<^sup>* s (?at (notify_waiters (fetch_max_phase FORCED tok)) (Returned CallRequest first))"
      using e finish by (meson converse_rtranclp_into_rtranclp)
    then show ?thesis using False x by (simp add: request_def record_first_request_def flag)
  qed
qed

lemma reachable_run: "step\<^sup>*\<^sup>* s s' \<Longrightarrow> reachable s \<Longrightarrow> reachable s'"
  by (induction rule: rtranclp_induct) (auto intro: reachable.move)

text \<open>C28: a completed second request always leaves the token forced, and the token is never
  forced without one: in every interleaving of any number of \<open>request\<close> and \<open>cancel\<close> calls,
  two different callers whose \<open>request\<close> has returned imply \<open>FORCED\<close>, and \<open>FORCED\<close> implies a
  \<open>request\<close> that found another caller's signal already recorded.\<close>

theorem two_requests_force:
  assumes "reachable s"
  shows "(\<forall>t u f g. t \<noteq> u \<longrightarrow> callers s t = Returned CallRequest f \<longrightarrow> callers s u = Returned CallRequest g
           \<longrightarrow> is_forced (token s))
    \<and> (is_forced (token s) \<longrightarrow>
         (\<exists>t u. t \<noteq> u \<and> later_request (callers s t) \<and> first_caller (callers s u)))"
proof -
  note inv = reachable_invsD [OF assms]
  have "is_forced (token s)"
    if "t \<noteq> u" "callers s t = Returned CallRequest f" "callers s u = Returned CallRequest g" for t u f g
  proof -
    have "\<not> f \<or> \<not> g" using that inv(1) unfolding first_inv_def by (metis first_caller.simps(3))
    with that have "later_request (callers s t) \<or> later_request (callers s u)" by auto
    with inv(3) show ?thesis unfolding progress_inv_def is_forced_def by blast
  qed
  moreover have "\<exists>t u. t \<noteq> u \<and> later_request (callers s t) \<and> first_caller (callers s u)"
    if "is_forced (token s)"
  proof -
    from that inv(2) have "phase (token s) = FORCED"
      by (auto simp: phase_inv_def is_forced_def)
    with inv(2) obtain t where t: "later_request (callers s t)" by (auto simp: phase_inv_def)
    with inv(1,2) obtain u where u: "first_caller (callers s u)"
      unfolding first_inv_def phase_inv_def by metis
    with t have "t \<noteq> u" by (cases "callers s t") auto
    with t u show ?thesis by blast
  qed
  ultimately show ?thesis by blast
qed

theorem two_requests_force_witness:
  "\<exists>s. reachable s \<and> callers s 0 = Returned CallRequest True \<and> callers s 1 = Returned CallRequest False
     \<and> is_forced (token s)"
proof -
  let ?s0 = "init_system 0"
  let ?s1 = "?s0\<lparr>token := request 0 (token ?s0), callers := (callers ?s0)(0 := Returned CallRequest True)\<rparr>"
  let ?s2 = "?s1\<lparr>token := request 0 (token ?s1), callers := (callers ?s1)(1 := Returned CallRequest False)\<rparr>"
  have "step\<^sup>*\<^sup>* ?s0 ?s1"
    using request_is_a_run [of ?s0 0] by (simp add: init_system_def new_token_def)
  moreover have "requested_elapsed_us (token ?s1) \<noteq> NO_REQUEST"
    by (simp add: init_system_def new_token_def request_def record_first_request_first notify_waiters_def)
  then have "step\<^sup>*\<^sup>* ?s1 ?s2"
    using request_is_a_run [of ?s1 1] by (simp add: init_system_def)
  ultimately have r: "reachable ?s2"
    using reachable_run [OF _ reachable.start] reachable_run by blast
  have c0: "callers ?s2 0 = Returned CallRequest True" and c1: "callers ?s2 1 = Returned CallRequest False"
    by simp_all
  have "(0::nat) \<noteq> 1" by simp
  then have "is_forced (token ?s2)"
    using two_requests_force [OF r, THEN conjunct1, rule_format, OF _ c0 c1] by blast
  with r c0 c1 show ?thesis by blast
qed

text \<open>C31: no wake-up is lost. In every reachable state a task sleeping in \<open>wait_for\<close> whose
  phase has been reached is ready to wake, unless a caller is still on its way to
  \<open>notify_waiters\<close>; once every caller has returned, no such task sleeps on.\<close>

theorem no_lost_wakeup:
  assumes "reachable s" and "waiters s w = Sleeping p g" and "p \<le> phase (token s)"
  shows "step s (s\<lparr>waiters := (waiters s)(w := Checking p)\<rparr>) \<or> (\<exists>t c f. callers s t = Notifying c f)"
proof (cases "wakeups (token s) = g")
  case True
  with reachable_invsD(4) [OF assms(1)] assms(2,3) obtain t where "notifying (callers s t)"
    by (auto simp: wake_inv_def)
  then show ?thesis by (cases "callers s t") auto
next
  case False
  with assms(2) show ?thesis by (blast intro: step.wait_wake)
qed

text \<open>A waiter put to sleep before the first signal, and the caller between its two writes.\<close>

definition asleep_system :: system where
  "asleep_system = (init_system 0)\<lparr>waiters := (\<lambda>_. NotWaiting)(0 := Sleeping CANCELLING 0)\<rparr>"

definition signalled_system :: system where
  "signalled_system = asleep_system\<lparr>
     token := (token asleep_system)\<lparr>requested_elapsed_us := elapsed_us 0 (token asleep_system), phase := CANCELLING\<rparr>,
     callers := (\<lambda>_. Idle)(0 := Notifying CallRequest True)\<rparr>"

lemma reachable_asleep_system: "reachable asleep_system"
proof -
  let ?w = "\<lambda>x. (init_system 0)\<lparr>waiters := (\<lambda>_. NotWaiting)(0 := x)\<rparr>"
  have "step (init_system 0) (?w (Checking CANCELLING))"
    using step.wait_start [of "init_system 0" 0 CANCELLING] by (simp add: init_system_def)
  moreover have "step (?w (Checking CANCELLING)) (?w (Armed CANCELLING 0))"
    using step.wait_arm [of "?w (Checking CANCELLING)" 0 CANCELLING]
    by (simp add: init_system_def new_token_def)
  moreover have "step (?w (Armed CANCELLING 0)) (?w (Sleeping CANCELLING 0))"
    using step.wait_sleep [of "?w (Armed CANCELLING 0)" 0 CANCELLING 0]
    by (simp add: init_system_def new_token_def)
  ultimately show ?thesis
    unfolding asleep_system_def by (blast intro: reachable.start reachable.move)
qed

lemma reachable_signalled_system: "reachable signalled_system"
proof -
  let ?tok = "(token asleep_system)\<lparr>requested_elapsed_us := elapsed_us 0 (token asleep_system)\<rparr>"
  let ?c = "\<lambda>tok x. asleep_system\<lparr>token := tok, callers := (\<lambda>_. Idle)(0 := x)\<rparr>"
  have "step asleep_system (?c (token asleep_system) (Entered CallRequest))"
    using step.enter [of asleep_system 0 CallRequest] by (simp add: asleep_system_def init_system_def)
  moreover have "step (?c (token asleep_system) (Entered CallRequest)) (?c ?tok (Won CallRequest))"
    using step.exchange_first [of "?c (token asleep_system) (Entered CallRequest)" 0 CallRequest ?tok]
    by (simp add: asleep_system_def init_system_def new_token_def compare_exchange_requested_def)
  moreover have "step (?c ?tok (Won CallRequest)) signalled_system"
    using step.set_cancelling [of "?c ?tok (Won CallRequest)" 0 CallRequest]
    by (simp add: signalled_system_def asleep_system_def init_system_def new_token_def fetch_max_phase_def)
  ultimately show ?thesis
    using reachable_asleep_system by (blast intro: reachable.move)
qed

theorem no_lost_wakeup_witness:
  "reachable signalled_system \<and> waiters signalled_system 0 = Sleeping CANCELLING 0
   \<and> CANCELLING \<le> phase (token signalled_system)
   \<and> (step signalled_system (signalled_system\<lparr>waiters := (waiters signalled_system)(0 := Checking CANCELLING)\<rparr>)
      \<or> (\<exists>t c f. callers signalled_system t = Notifying c f))"
proof -
  have w: "waiters signalled_system 0 = Sleeping CANCELLING 0"
    and p: "CANCELLING \<le> phase (token signalled_system)"
    by (simp_all add: signalled_system_def asleep_system_def)
  show ?thesis
    using reachable_signalled_system w p no_lost_wakeup [OF reachable_signalled_system w p] by blast
qed

text \<open>The grace of a child never exceeds the fixed two seconds and is counted from the first
  signal: in every reachable state the remaining grace is bounded by \<open>CHILD_GRACE\<close>, later
  steps never move a deadline that is set, and a forced token leaves none.\<close>

theorem child_grace_bounded:
  assumes "reachable s"
  shows "remaining_child_grace latest (clock s) (token s) \<le> CHILD_GRACE
    \<and> (is_forced (token s) \<longrightarrow> remaining_child_grace latest (clock s) (token s) = 0)
    \<and> (\<forall>d s'. child_deadline latest (token s) = Some d \<longrightarrow> step s s' \<longrightarrow> child_deadline latest (token s') = Some d)"
proof (intro conjI allI impI)
  show "remaining_child_grace latest (clock s) (token s) \<le> CHILD_GRACE"
  proof (cases "child_deadline latest (token s)")
    case (Some d)
    from child_deadline_bounds [OF Some] reachable_invsD(5) [OF assms]
    have "d \<le> clock s + CHILD_GRACE" by (simp add: clock_inv_def)
    with Some show ?thesis by (simp add: remaining_child_grace_def le_diff_conv add.commute)
  qed (simp add: remaining_child_grace_def)
next
  assume "is_forced (token s)"
  then show "remaining_child_grace latest (clock s) (token s) = 0"
    by (simp add: remaining_child_grace_def)
next
  fix d s'
  assume d: "child_deadline latest (token s) = Some d" and st: "step s s'"
  have "requested_elapsed_us (token s') = requested_elapsed_us (token s)"
    by (rule step_requested_stays [OF st child_deadline_bounds(1) [OF d]])
  moreover from st have "epoch (token s') = epoch (token s)"
    by (induction rule: step.induct) (auto simp: token_ops split: if_splits)
  ultimately show "child_deadline latest (token s') = Some d"
    using d child_deadline_bounds(1) [OF d] by (simp add: child_deadline_def)
qed

theorem child_grace_bounded_witness:
  "child_deadline (2 ^ 63) (token signalled_system) = Some CHILD_GRACE
   \<and> remaining_child_grace (2 ^ 63) (clock signalled_system) (token signalled_system) \<le> CHILD_GRACE"
proof -
  have "child_deadline (2 ^ 63) (token signalled_system) = Some CHILD_GRACE"
    using elapsed_us_not_NO_REQUEST [of 0 "token asleep_system"]
    by (simp add: child_deadline_def checked_add_instant_def signalled_system_def asleep_system_def
        init_system_def new_token_def elapsed_us_def CHILD_GRACE_def NO_REQUEST_def)
  then show ?thesis using child_grace_bounded [OF reachable_signalled_system] by blast
qed

end
