(* ===== verification/Framework.thy ===== *)
theory Framework
  imports Rust_Str
begin

text \<open>
  Target frameworks: \<open>crates/dv-core/src/framework.rs\<close> (parsing a moniker and the compiler
  defaults derived from it) and the part of \<open>package.rs\<close> that ranks the framework folders and
  groups of a package against the project's target. Components of a version are \<open>u16\<close> values;
  the parser bounds them and no arithmetic on them can leave \<open>u32\<close>, so they are naturals here.
\<close>

section \<open>Monikers\<close>

datatype framework_family = Net | NetCoreApp | NetStandard | NetFramework

record target_framework =
  tfm_family :: framework_family
  tfm_major :: nat
  tfm_minor :: nat

definition mk_framework :: "framework_family \<Rightarrow> nat \<Rightarrow> nat \<Rightarrow> target_framework" where
  "mk_framework f a b = \<lparr>tfm_family = f, tfm_major = a, tfm_minor = b\<rparr>"

text \<open>An error carries the text it rejects.\<close>

definition version_component :: "string \<Rightarrow> nat option" where
  "version_component part = (if part = [] then None else parse_uint (2 ^ 16) part)"

definition dotted_version :: "string \<Rightarrow> string \<Rightarrow> string + nat \<times> nat" where
  "dotted_version value original =
     (let parts = split_on CHR ''.'' value in
      rbind (ok_or original (case parts of [] \<Rightarrow> None | p # _ \<Rightarrow> version_component p)) (\<lambda>a.
      rbind (ok_or original (case parts of _ # p # _ \<Rightarrow> version_component p | _ \<Rightarrow> None)) (\<lambda>b.
      if 2 < length parts then Inl original else Inr (a, b))))"

definition parse_framework :: "string \<Rightarrow> string + target_framework" where
  "parse_framework value =
     (let lower = to_lower value in
      case strip_prefix ''netcoreapp'' lower of
        Some version \<Rightarrow>
          rbind (dotted_version version value) (\<lambda>(a, b). Inr (mk_framework NetCoreApp a b))
      | None \<Rightarrow>
      (case strip_prefix ''netstandard'' lower of
        Some version \<Rightarrow>
          rbind (dotted_version version value) (\<lambda>(a, b). Inr (mk_framework NetStandard a b))
      | None \<Rightarrow>
      (case strip_prefix ''net'' lower of
        None \<Rightarrow> Inl value
      | Some version \<Rightarrow>
          if CHR ''.'' \<in> set version
          then rbind (dotted_version version value) (\<lambda>(a, b). Inr (mk_framework Net a b))
          else if 2 \<le> length version \<and> length version \<le> 3 \<and> all_digits version
          then (let digits = map digit_value version in
                Inr (mk_framework NetFramework (digits ! 0)
                  (if length digits = 2 then digits ! 1 else digits ! 1 * 10 + digits ! 2)))
          else Inl value)))"

definition is_modern_net :: "target_framework \<Rightarrow> bool" where
  "is_modern_net t \<longleftrightarrow> tfm_family t = Net \<and> 5 \<le> tfm_major t"

definition framework_version :: "target_framework \<Rightarrow> string" where
  "framework_version t = show_nat (tfm_major t) @ ''.'' @ show_nat (tfm_minor t)"

fun family_name :: "framework_family \<Rightarrow> string" where
  "family_name Net = ''Net''"
| "family_name NetCoreApp = ''NetCoreApp''"
| "family_name NetStandard = ''NetStandard''"
| "family_name NetFramework = ''NetFramework''"

definition debug_framework :: "target_framework \<Rightarrow> string" where
  "debug_framework t = ''TargetFramework { family: '' @ family_name (tfm_family t) @
     '', major: '' @ show_nat (tfm_major t) @ '', minor: '' @ show_nat (tfm_minor t) @ '' }''"

definition analysis_level :: "target_framework \<Rightarrow> string + nat" where
  "analysis_level t = (if is_modern_net t then Inr (tfm_major t) else Inl (debug_framework t))"

definition csharp_language_major :: "target_framework \<Rightarrow> string + nat" where
  "csharp_language_major t =
     (if is_modern_net t \<and> tfm_major t \<le> 10 \<and> tfm_minor t = 0 then Inr (tfm_major t + 4)
      else Inl (debug_framework t))"

section \<open>Ranking package frameworks\<close>

fun canonical_target_framework :: "target_framework \<Rightarrow> string" where
  "canonical_target_framework t =
     (case tfm_family t of
        Net \<Rightarrow> ''net'' @ show_nat (tfm_major t) @ ''.'' @ show_nat (tfm_minor t)
      | NetCoreApp \<Rightarrow> ''netcoreapp'' @ show_nat (tfm_major t) @ ''.'' @ show_nat (tfm_minor t)
      | NetStandard \<Rightarrow> ''netstandard'' @ show_nat (tfm_major t) @ ''.'' @ show_nat (tfm_minor t)
      | NetFramework \<Rightarrow> ''net'' @ show_nat (tfm_major t) @ show_nat (tfm_minor t))"

definition nuspec_component :: "string list \<Rightarrow> nat \<Rightarrow> nat option" where
  "nuspec_component parts i = (if i < length parts then parse_uint (2 ^ 16) (parts ! i) else None)"

definition parse_nuspec_target_framework :: "string \<Rightarrow> target_framework option" where
  "parse_nuspec_target_framework value =
     (case strip_prefix ''netframework'' (to_lower value) of
        None \<Rightarrow> (case parse_framework value of Inl _ \<Rightarrow> None | Inr t \<Rightarrow> Some t)
      | Some version \<Rightarrow>
          (let parts = split_on CHR ''.'' version in
           Option.bind (nuspec_component parts 0) (\<lambda>a.
           Option.bind (nuspec_component parts 1) (\<lambda>b.
           Option.bind (if 2 < length parts then nuspec_component parts 2 else Some 0) (\<lambda>c.
             if 3 < length parts \<or> 9 < a \<or> 9 < b \<or> 9 < c then None
             else (let compact = (if c = 0 then ''net'' @ show_nat a @ show_nat b
                                  else ''net'' @ show_nat a @ show_nat b @ show_nat c)
                   in (case parse_framework compact of Inl _ \<Rightarrow> None | Inr t \<Rightarrow> Some t)))))))"

definition framework_version_key :: "target_framework \<Rightarrow> nat" where
  "framework_version_key t =
     (if tfm_family t = NetFramework
      then (let encoded = tfm_minor t;
                (m, p) = (if encoded < 10 then (encoded, 0) else (encoded div 10, encoded mod 10))
            in tfm_major t * 10000 + m * 100 + p)
      else tfm_major t * 100 + tfm_minor t)"

definition framework_score_value :: "target_framework \<Rightarrow> target_framework \<Rightarrow> nat option" where
  "framework_score_value candidate target =
     (let version = framework_version_key candidate in
      if tfm_family candidate = tfm_family target \<and> version \<le> framework_version_key target
      then Some (30000 + version)
      else (case tfm_family candidate of
          NetCoreApp \<Rightarrow>
            (if tfm_family target = Net \<and> (tfm_major candidate < 3 \<or> tfm_major candidate = 3 \<and> tfm_minor candidate \<le> 1)
             then Some (20000 + version) else None)
        | NetStandard \<Rightarrow>
            (if tfm_family target = Net \<and> (tfm_major candidate < 2 \<or> tfm_major candidate = 2 \<and> tfm_minor candidate \<le> 1)
             then Some (10000 + version) else None)
        | _ \<Rightarrow> None))"

definition framework_score :: "string option \<Rightarrow> target_framework \<Rightarrow> nat option" where
  "framework_score framework target =
     Option.bind framework (\<lambda>name.
     Option.bind (parse_nuspec_target_framework (dropWhile (\<lambda>c. c = CHR ''.'') (trim name))) (\<lambda>candidate.
       framework_score_value candidate target))"

text \<open>
  A directory entry as enumeration yields it: its name when it is valid Unicode, and whether it is
  a directory, which may fail. \<open>read_dir\<close> of the category is the argument \<open>entries\<close>.
\<close>

record 'e dir_entry =
  entry_name :: "string option"
  entry_is_dir :: "'e + bool"

definition better_framework :: "nat \<times> string \<Rightarrow> (nat \<times> string) option \<Rightarrow> bool" where
  "better_framework cand best =
     (case best of None \<Rightarrow> True
      | Some cur \<Rightarrow> fst cur < fst cand \<or> fst cur = fst cand \<and> snd cur < snd cand)"

definition consider_framework ::
    "target_framework \<Rightarrow> (nat \<times> string) option \<Rightarrow> 'e + 'e dir_entry \<Rightarrow> 'e + (nat \<times> string) option" where
  "consider_framework target best item =
     rbind item (\<lambda>entry. rbind (entry_is_dir entry) (\<lambda>dir.
       if \<not> dir then Inr best
       else (case entry_name entry of
           None \<Rightarrow> Inr best
         | Some name \<Rightarrow>
             (case framework_score (Some name) target of
                None \<Rightarrow> Inr best
              | Some score \<Rightarrow>
                  Inr (if better_framework (score, name) best then Some (score, name) else best)))))"

definition select_framework_directory ::
    "bool \<Rightarrow> 'e + ('e + 'e dir_entry) list \<Rightarrow> target_framework \<Rightarrow> 'e + string option" where
  "select_framework_directory category_is_dir entries target =
     (if \<not> category_is_dir then Inr None
      else rbind entries (\<lambda>items.
        rbind (try_fold (consider_framework target) None items) (\<lambda>best. Inr (map_option snd best))))"

section \<open>Facts on monikers\<close>

lemma mk_framework_simps [simp]:
  shows "tfm_family (mk_framework f a b) = f" and "tfm_major (mk_framework f a b) = a"
    and "tfm_minor (mk_framework f a b) = b"
  by (simp_all add: mk_framework_def)

lemma mk_framework_surjective: "mk_framework (tfm_family t) (tfm_major t) (tfm_minor t) = t"
  by (simp add: mk_framework_def)

lemma lower_byte_digit [simp]: "is_digit c \<Longrightarrow> lower_byte c = c"
  by (auto simp: lower_byte_def is_digit_of_char is_upper_of_char)

lemma to_lower_digits: "all_digits s \<Longrightarrow> to_lower s = s"
  by (induction s) auto

lemma to_lower_show_nat [simp]: "to_lower (show_nat n) = show_nat n"
  by (simp add: to_lower_digits)

lemma dot_not_in_show_nat [simp]: "CHR ''.'' \<notin> set (show_nat n)"
  using show_nat_bytes [of "CHR ''.''" n] by (auto simp: is_digit_of_char)

lemma show_nat_Cons: "\<exists>c r. show_nat n = c # r \<and> is_digit c"
  using show_nat_ne [of n] all_digits_show_nat [of n] by (cases "show_nat n") auto

lemma version_component_show [simp]: "n < 2 ^ 16 \<Longrightarrow> version_component (show_nat n) = Some n"
  by (simp add: version_component_def parse_show_nat)

lemma version_component_bound: "version_component s = Some n \<Longrightarrow> n < 2 ^ 16"
  by (auto simp: version_component_def dest: parse_uint_bound split: if_splits)

lemma dotted_version_show:
  assumes "a < 2 ^ 16" and "b < 2 ^ 16"
  shows "dotted_version (show_nat a @ CHR ''.'' # show_nat b) original = Inr (a, b)"
  using assms by (simp add: dotted_version_def split_on_append split_on_single)

lemma dotted_version_bound:
  "dotted_version value original = Inr (a, b) \<Longrightarrow> a < 2 ^ 16 \<and> b < 2 ^ 16"
  by (auto simp: dotted_version_def Let_def rbind_eq_Inr ok_or_eq_Inr split: list.splits if_splits
      dest: version_component_bound)

lemma dotted_version_error: "dotted_version value original = Inl e \<Longrightarrow> e = original"
  by (auto simp: dotted_version_def Let_def rbind_eq_Inl ok_or_def split: list.splits if_splits option.splits)

text \<open>What a parsed moniker looks like.\<close>

definition wf_framework :: "target_framework \<Rightarrow> bool" where
  "wf_framework t \<longleftrightarrow>
     (if tfm_family t = NetFramework then tfm_major t < 10 \<and> tfm_minor t < 100
      else tfm_major t < 2 ^ 16 \<and> tfm_minor t < 2 ^ 16)"

lemma digit_value_bound: "is_digit c \<Longrightarrow> digit_value c < 10"
  by (auto simp: is_digit_of_char digit_value_def)

definition compact_version :: "string \<Rightarrow> nat \<times> nat" where
  "compact_version v =
     (let digits = map digit_value v in
      (digits ! 0, if length digits = 2 then digits ! 1 else digits ! 1 * 10 + digits ! 2))"

lemma short_list_cases:
  assumes "2 \<le> length v" and "length v \<le> 3"
  obtains x y where "v = [x, y]" | x y z where "v = [x, y, z]"
proof -
  obtain x y w where "v = x # y # w" using assms(1) by (cases v rule: remdups_adj.cases) auto
  with assms(2) that show ?thesis by (cases w rule: remdups_adj.cases) auto
qed

lemma compact_version_bound:
  assumes "2 \<le> length v" and "length v \<le> 3" and "all_digits v"
  shows "fst (compact_version v) < 10 \<and> snd (compact_version v) < 100"
  using assms(1,2)
proof (cases rule: short_list_cases)
  case (1 x y)
  with assms(3) digit_value_bound [of x] digit_value_bound [of y] show ?thesis
    by (simp add: compact_version_def)
next
  case (2 x y z)
  with assms(3) digit_value_bound [of x] digit_value_bound [of y] digit_value_bound [of z] show ?thesis
    by (simp add: compact_version_def)
qed

text \<open>The branches of the parser, one equation each.\<close>

lemma parse_framework_cases:
  "parse_framework value =
     (let lower = to_lower value in
      case strip_prefix ''netcoreapp'' lower of
        Some v \<Rightarrow> rbind (dotted_version v value) (\<lambda>(a, b). Inr (mk_framework NetCoreApp a b))
      | None \<Rightarrow> case strip_prefix ''netstandard'' lower of
        Some v \<Rightarrow> rbind (dotted_version v value) (\<lambda>(a, b). Inr (mk_framework NetStandard a b))
      | None \<Rightarrow> case strip_prefix ''net'' lower of
        None \<Rightarrow> Inl value
      | Some v \<Rightarrow>
          if CHR ''.'' \<in> set v
          then rbind (dotted_version v value) (\<lambda>(a, b). Inr (mk_framework Net a b))
          else if 2 \<le> length v \<and> length v \<le> 3 \<and> all_digits v
          then Inr (mk_framework NetFramework (fst (compact_version v)) (snd (compact_version v)))
          else Inl value)"
  unfolding parse_framework_def compact_version_def Let_def fst_conv snd_conv by (rule refl)

lemma parse_framework_wf:
  assumes "parse_framework value = Inr t"
  shows "wf_framework t"
  using assms unfolding parse_framework_cases Let_def
  by (auto simp: rbind_eq_Inr wf_framework_def compact_version_bound split: option.splits if_splits
      dest: dotted_version_bound)

lemma parse_framework_error: "parse_framework value = Inl e \<Longrightarrow> e = value"
  unfolding parse_framework_def Let_def
  by (auto simp: rbind_eq_Inl split: option.splits if_splits dest: dotted_version_error)

lemma no_letter_prefix: "\<not> is_digit c \<Longrightarrow> \<not> starts_with (c # p) (show_nat n @ r)"
  using show_nat_Cons [of n] by (auto simp: starts_with_def)

lemma show_nat_digit: "n < 10 \<Longrightarrow> show_nat n = [digit_char n]"
  by (simp add: show_nat.simps)

lemma show_nat_two: "10 \<le> n \<Longrightarrow> n < 100 \<Longrightarrow> show_nat n = [digit_char (n div 10), digit_char (n mod 10)]"
  by (simp add: show_nat.simps [of n] show_nat_digit)

lemma strip_net [simp]: "strip_prefix ''net'' (CHR ''n'' # CHR ''e'' # CHR ''t'' # s) = Some s"
  by (simp add: strip_prefix_def starts_with_def)

lemma lower_letters [simp]:
  "lower_byte CHR ''n'' = CHR ''n''" "lower_byte CHR ''e'' = CHR ''e''" "lower_byte CHR ''t'' = CHR ''t''"
  "lower_byte CHR ''c'' = CHR ''c''" "lower_byte CHR ''o'' = CHR ''o''" "lower_byte CHR ''r'' = CHR ''r''"
  "lower_byte CHR ''a'' = CHR ''a''" "lower_byte CHR ''p'' = CHR ''p''" "lower_byte CHR ''s'' = CHR ''s''"
  "lower_byte CHR ''d'' = CHR ''d''" "lower_byte CHR ''.'' = CHR ''.''"
  by (simp_all add: lower_byte_def is_upper_of_char)

lemma net_not_long:
  shows "strip_prefix ''netcoreapp'' (''net'' @ show_nat a @ r) = None"
    and "strip_prefix ''netstandard'' (''net'' @ show_nat a @ r) = None"
  using no_letter_prefix [of "CHR ''c''" "''oreapp''" a r] no_letter_prefix [of "CHR ''s''" "''tandard''" a r]
  by (simp_all add: strip_prefix_None starts_with_def is_digit_of_char)

lemma parse_canonical_dotted:
  assumes "a < 2 ^ 16" and "b < 2 ^ 16"
  shows "parse_framework (''net'' @ show_nat a @ ''.'' @ show_nat b) = Inr (mk_framework Net a b)"
    and "parse_framework (''netcoreapp'' @ show_nat a @ ''.'' @ show_nat b) = Inr (mk_framework NetCoreApp a b)"
    and "parse_framework (''netstandard'' @ show_nat a @ ''.'' @ show_nat b) = Inr (mk_framework NetStandard a b)"
proof -
  have "to_lower (''net'' @ show_nat a @ ''.'' @ show_nat b) = ''net'' @ show_nat a @ ''.'' @ show_nat b"
    by simp
  then show "parse_framework (''net'' @ show_nat a @ ''.'' @ show_nat b) = Inr (mk_framework Net a b)"
    using net_not_long [of a "''.'' @ show_nat b"] dotted_version_show [OF assms]
    unfolding parse_framework_cases Let_def by simp
  have "strip_prefix ''netcoreapp'' (to_lower (''netcoreapp'' @ show_nat a @ ''.'' @ show_nat b)) =
      Some (show_nat a @ ''.'' @ show_nat b)"
    by (simp add: strip_prefix_def starts_with_def)
  then show "parse_framework (''netcoreapp'' @ show_nat a @ ''.'' @ show_nat b) = Inr (mk_framework NetCoreApp a b)"
    using dotted_version_show [OF assms] unfolding parse_framework_cases Let_def by simp
  have "strip_prefix ''netcoreapp'' (to_lower (''netstandard'' @ show_nat a @ ''.'' @ show_nat b)) = None"
    and "strip_prefix ''netstandard'' (to_lower (''netstandard'' @ show_nat a @ ''.'' @ show_nat b)) =
      Some (show_nat a @ ''.'' @ show_nat b)"
    by (simp_all add: strip_prefix_def starts_with_def)
  then show "parse_framework (''netstandard'' @ show_nat a @ ''.'' @ show_nat b) = Inr (mk_framework NetStandard a b)"
    using dotted_version_show [OF assms] unfolding parse_framework_cases Let_def by simp
qed

lemma parse_canonical_compact:
  assumes "a < 10" and "b < 100"
  shows "parse_framework (''net'' @ show_nat a @ show_nat b) = Inr (mk_framework NetFramework a b)"
proof -
  have len: "2 \<le> length (show_nat a @ show_nat b)" "length (show_nat a @ show_nat b) \<le> 3"
    and cv: "compact_version (show_nat a @ show_nat b) = (a, b)"
    using assms
    by (cases "b < 10"; simp add: show_nat_digit show_nat_two compact_version_def)+
  have "to_lower (''net'' @ show_nat a @ show_nat b) = ''net'' @ show_nat a @ show_nat b"
    by simp
  then show ?thesis
    using net_not_long [of a "show_nat b"] len cv
    unfolding parse_framework_cases Let_def by simp
qed

text \<open>the canonical moniker of a parsed target parses back to it, so normalising a moniker
  is idempotent; and a rejected moniker is reported as it was written.\<close>

theorem framework_roundtrip:
  shows "parse_framework value = Inr t \<Longrightarrow> parse_framework (canonical_target_framework t) = Inr t"
proof -
  assume "parse_framework value = Inr t"
  then have wf: "wf_framework t" by (rule parse_framework_wf)
  then show ?thesis
    using parse_canonical_dotted [of "tfm_major t" "tfm_minor t"]
      parse_canonical_compact [of "tfm_major t" "tfm_minor t"] mk_framework_surjective [of t]
    by (cases "tfm_family t") (auto simp: wf_framework_def)
qed

theorem framework_roundtrip_witness:
  "parse_framework ''NetStandard2.00'' = Inr (mk_framework NetStandard 2 0)
   \<and> parse_framework (canonical_target_framework (mk_framework NetStandard 2 0)) = Inr (mk_framework NetStandard 2 0)"
proof -
  have p: "parse_framework ''NetStandard2.00'' = Inr (mk_framework NetStandard 2 0)"
    by (simp add: parse_framework_def dotted_version_def version_component_def str_eval)
  then show ?thesis using framework_roundtrip [OF p] by blast
qed

section \<open>The ranking and the directory choice\<close>

text \<open>
  What the score stands for: compatible candidates are ordered first by family (the target's own,
  then \<open>netcoreapp\<close> up to 3.1, then \<open>netstandard\<close> up to 2.1), then by version. A score
  keeps the version in steps of a hundred, so the correspondence needs minor versions below 100.
\<close>

definition framework_tuple :: "target_framework \<Rightarrow> nat list" where
  "framework_tuple t =
     (if tfm_family t = NetFramework
      then (if tfm_minor t < 10 then [tfm_major t, tfm_minor t, 0]
            else [tfm_major t, tfm_minor t div 10, tfm_minor t mod 10])
      else [tfm_major t, tfm_minor t, 0])"

definition framework_compatible :: "target_framework \<Rightarrow> target_framework \<Rightarrow> bool" where
  "framework_compatible c t \<longleftrightarrow>
     tfm_family c = tfm_family t \<and> framework_tuple c \<le> framework_tuple t
   \<or> tfm_family t = Net \<and> tfm_family c = NetCoreApp \<and> framework_tuple c \<le> [3, 1, 0]
   \<or> tfm_family t = Net \<and> tfm_family c = NetStandard \<and> framework_tuple c \<le> [2, 1, 0]"

definition framework_rank :: "target_framework \<Rightarrow> target_framework \<Rightarrow> nat list" where
  "framework_rank c t =
     (if tfm_family c = tfm_family t then 2 else if tfm_family c = NetCoreApp then 1 else 0) # framework_tuple c"

definition small_framework :: "target_framework \<Rightarrow> bool" where
  "small_framework t \<longleftrightarrow> tfm_minor t < 100"

definition tuple_key :: "target_framework \<Rightarrow> nat" where
  "tuple_key t = (case framework_tuple t of
     [a, b, c] \<Rightarrow> if tfm_family t = NetFramework then a * 10000 + b * 100 + c else a * 100 + b | _ \<Rightarrow> 0)"

lemma framework_version_key_tuple: "framework_version_key t = tuple_key t"
  by (simp add: framework_version_key_def tuple_key_def framework_tuple_def Let_def)

lemma lex3_iff:
  fixes a b c d e f :: nat
  shows "[a, b, c] < [d, e, f] \<longleftrightarrow> a < d \<or> a = d \<and> (b < e \<or> b = e \<and> c < f)"
    and "[a, b, c] \<le> [d, e, f] \<longleftrightarrow> a < d \<or> a = d \<and> (b < e \<or> b = e \<and> c \<le> f)"
  by auto

lemma key_lt_dotted:
  fixes a b c d :: nat
  assumes "b < 100" and "d < 100"
  shows "a * 100 + b < c * 100 + d \<longleftrightarrow> a < c \<or> a = c \<and> b < d"
    and "a * 100 + b \<le> c * 100 + d \<longleftrightarrow> a < c \<or> a = c \<and> b \<le> d"
    and "a * 100 + b = c * 100 + d \<longleftrightarrow> a = c \<and> b = d"
  using assms by (cases a c rule: linorder_cases; simp)+

lemma key_lt_compact:
  fixes a b c d e f :: nat
  assumes "b < 100" and "c < 100" and "e < 100" and "f < 100"
  shows "a * 10000 + b * 100 + c < d * 10000 + e * 100 + f
      \<longleftrightarrow> a < d \<or> a = d \<and> (b < e \<or> b = e \<and> c < f)"
    and "a * 10000 + b * 100 + c \<le> d * 10000 + e * 100 + f
      \<longleftrightarrow> a < d \<or> a = d \<and> (b < e \<or> b = e \<and> c \<le> f)"
proof -
  have nest: "x * 10000 + y * 100 + z = (x * 100 + y) * 100 + z" for x y z :: nat by simp
  show "a * 10000 + b * 100 + c < d * 10000 + e * 100 + f
      \<longleftrightarrow> a < d \<or> a = d \<and> (b < e \<or> b = e \<and> c < f)"
    and "a * 10000 + b * 100 + c \<le> d * 10000 + e * 100 + f
      \<longleftrightarrow> a < d \<or> a = d \<and> (b < e \<or> b = e \<and> c \<le> f)"
    unfolding nest key_lt_dotted [OF assms(2,4)] key_lt_dotted [OF assms(1,3)] by blast+
qed

lemma tuple_form:
  assumes "small_framework t"
  obtains a b c where "framework_tuple t = [a, b, c]" and "b < 100" and "c < 100"
    and "tfm_family t \<noteq> NetFramework \<Longrightarrow> c = 0"
proof (cases "tfm_family t = NetFramework \<and> 10 \<le> tfm_minor t")
  case True
  with assms that [of "tfm_major t" "tfm_minor t div 10" "tfm_minor t mod 10"] show ?thesis
    by (simp add: framework_tuple_def small_framework_def)
next
  case False
  with assms that [of "tfm_major t" "tfm_minor t" 0] show ?thesis
    by (simp add: framework_tuple_def small_framework_def not_le)
qed

lemma tuple_key_order:
  assumes "small_framework c" and "small_framework d" and fam: "tfm_family c = tfm_family d"
  shows "tuple_key c < tuple_key d \<longleftrightarrow> framework_tuple c < framework_tuple d"
    and "tuple_key c \<le> tuple_key d \<longleftrightarrow> framework_tuple c \<le> framework_tuple d"
proof -
  obtain a b x where c: "framework_tuple c = [a, b, x]" "b < 100" "x < 100"
      "tfm_family c \<noteq> NetFramework \<Longrightarrow> x = 0"
    by (rule tuple_form [OF assms(1)]) (rule that)
  obtain a' b' x' where d: "framework_tuple d = [a', b', x']" "b' < 100" "x' < 100"
      "tfm_family d \<noteq> NetFramework \<Longrightarrow> x' = 0"
    by (rule tuple_form [OF assms(2)]) (rule that)
  have "(tuple_key c < tuple_key d \<longleftrightarrow> framework_tuple c < framework_tuple d)
      \<and> (tuple_key c \<le> tuple_key d \<longleftrightarrow> framework_tuple c \<le> framework_tuple d)"
  proof (cases "tfm_family d = NetFramework")
    case True
    then have k: "tuple_key c = a * 10000 + b * 100 + x" "tuple_key d = a' * 10000 + b' * 100 + x'"
      using fam by (simp_all add: tuple_key_def c(1) d(1))
    show ?thesis unfolding k c(1) d(1) lex3_iff key_lt_compact [OF c(2,3) d(2,3)] by blast
  next
    case False
    then have k: "tuple_key c = a * 100 + b" "tuple_key d = a' * 100 + b'"
      and z: "x = 0" "x' = 0"
      using fam c(4) d(4) by (simp_all add: tuple_key_def c(1) d(1))
    show ?thesis unfolding k c(1) d(1) lex3_iff z key_lt_dotted [OF c(2) d(2)] by auto
  qed
  then show "tuple_key c < tuple_key d \<longleftrightarrow> framework_tuple c < framework_tuple d"
    and "tuple_key c \<le> tuple_key d \<longleftrightarrow> framework_tuple c \<le> framework_tuple d"
    by blast+
qed

lemma tuple_key_dotted:
  "small_framework t \<Longrightarrow> tfm_family t \<noteq> NetFramework \<Longrightarrow>
    framework_tuple t = [tfm_major t, tfm_minor t, 0] \<and> tuple_key t = tfm_major t * 100 + tfm_minor t"
  by (simp add: framework_tuple_def tuple_key_def)

lemma score_compatible:
  assumes "small_framework c" and "small_framework t"
  shows "framework_score_value c t =
    (if framework_compatible c t then Some (10000 * (1 + hd (framework_rank c t)) + tuple_key c) else None)"
proof (cases "tfm_family c = tfm_family t")
  case True
  then show ?thesis
    using tuple_key_order(2) [OF assms True]
    by (cases "tfm_family t")
      (auto simp: framework_score_value_def Let_def framework_version_key_tuple framework_compatible_def
        framework_rank_def)
next
  case False
  have le: "framework_tuple c \<le> [n, Suc 0, 0] \<longleftrightarrow> tfm_major c < n \<or> tfm_major c = n \<and> tfm_minor c \<le> 1"
    if "tfm_family c \<noteq> NetFramework" for n
    using that by (auto simp: framework_tuple_def)
  from False show ?thesis
    by (cases "tfm_family c")
      (auto simp: framework_score_value_def Let_def framework_version_key_tuple framework_compatible_def
        framework_rank_def le)
qed

lemma tuple_key_bound:
  assumes "framework_compatible c t" and "small_framework c" and "tfm_family c \<noteq> tfm_family t"
  shows "tuple_key c < 10000"
  using assms by (auto simp: framework_compatible_def tuple_key_def framework_tuple_def small_framework_def)

text \<open>The score ranks package frameworks as specified. For minor versions below 100 a candidate
  has a score exactly when it is compatible with the target, and of two compatible candidates
  the one with the higher rank (family first, then version) has the higher score.\<close>

theorem framework_ranking:
  assumes "small_framework c" and "small_framework d" and "small_framework t"
  shows "(framework_score_value c t \<noteq> None \<longleftrightarrow> framework_compatible c t)
    \<and> (framework_compatible c t \<and> framework_compatible d t \<longrightarrow>
        (the (framework_score_value c t) < the (framework_score_value d t)
           \<longleftrightarrow> framework_rank c t < framework_rank d t))"
proof (intro conjI impI)
  show "framework_score_value c t \<noteq> None \<longleftrightarrow> framework_compatible c t"
    by (simp add: score_compatible [OF assms(1,3)])
next
  assume comp: "framework_compatible c t \<and> framework_compatible d t"
  have other: "tuple_key x < 10000" if "framework_compatible x t" "small_framework x" "tfm_family x \<noteq> tfm_family t" for x
    using that by (rule tuple_key_bound)
  have fams: "tfm_family x = tfm_family t \<or> tfm_family x = NetCoreApp \<or> tfm_family x = NetStandard"
    if "framework_compatible x t" for x
    using that by (auto simp: framework_compatible_def)
  have score: "the (framework_score_value x t) = 10000 * (1 + hd (framework_rank x t)) + tuple_key x"
    if "framework_compatible x t" "small_framework x" for x
    using that by (simp add: score_compatible [OF _ assms(3)])
  show "the (framework_score_value c t) < the (framework_score_value d t)
           \<longleftrightarrow> framework_rank c t < framework_rank d t"
    unfolding score [OF conjunct1 [OF comp] assms(1)] score [OF conjunct2 [OF comp] assms(2)]
    using fams [OF conjunct1 [OF comp]] fams [OF conjunct2 [OF comp]]
      other [OF conjunct1 [OF comp] assms(1)] other [OF conjunct2 [OF comp] assms(2)]
      tuple_key_order(1) [OF assms(1,2)]
    by (cases "tfm_family c = tfm_family t"; cases "tfm_family d = tfm_family t")
      (auto simp: framework_rank_def)
qed

theorem framework_ranking_witness:
  "framework_score_value (mk_framework NetStandard 2 1) (mk_framework Net 8 0) = Some 10201
   \<and> framework_compatible (mk_framework NetStandard 2 1) (mk_framework Net 8 0)"
proof -
  have s: "small_framework (mk_framework NetStandard 2 1)" "small_framework (mk_framework Net 8 0)"
    by (simp_all add: small_framework_def)
  have v: "framework_score_value (mk_framework NetStandard 2 1) (mk_framework Net 8 0) = Some 10201"
    by (simp add: framework_score_value_def framework_version_key_def)
  then show ?thesis using framework_ranking [OF s(1) s(2) s(2)] by simp
qed

text \<open>The scored folders of an enumeration, in its order.\<close>

definition scored_folders ::
    "target_framework \<Rightarrow> ('e + 'e dir_entry) list \<Rightarrow> (nat \<times> string) list" where
  "scored_folders target items =
     [(the (framework_score (entry_name e) target), the (entry_name e)).
        Inr e \<leftarrow> items, entry_is_dir e = Inr True, framework_score (entry_name e) target \<noteq> None]"

definition readable :: "('e + 'e dir_entry) list \<Rightarrow> bool" where
  "readable items \<longleftrightarrow> (\<forall>x \<in> set items. \<exists>e d. x = Inr e \<and> entry_is_dir e = Inr d)"

lemma framework_score_None [simp]: "framework_score None target = None"
  by (simp add: framework_score_def)

definition keep_better :: "(nat \<times> string) option \<Rightarrow> nat \<times> string \<Rightarrow> (nat \<times> string) option" where
  "keep_better best cand = (if better_framework cand best then Some cand else best)"

lemma fold_consider:
  "readable items \<Longrightarrow>
    try_fold (consider_framework target) best items = Inr (foldl keep_better best (scored_folders target items))"
proof (induction items arbitrary: best)
  case Nil
  then show ?case by (simp add: scored_folders_def)
next
  case (Cons x items)
  then obtain e d where x: "x = Inr e" "entry_is_dir e = Inr d" by (auto simp: readable_def)
  from Cons.prems have "readable items" by (simp add: readable_def)
  with Cons.IH show ?case
    by (cases d; cases "entry_name e"; cases "framework_score (entry_name e) target")
      (simp_all add: x consider_framework_def scored_folders_def keep_better_def)
qed

definition score_le :: "nat \<times> string \<Rightarrow> nat \<times> string \<Rightarrow> bool" where
  "score_le x y \<longleftrightarrow> fst x < fst y \<or> fst x = fst y \<and> snd x \<le> snd y"

lemma score_le_order:
  shows "score_le x x" and "score_le x y \<Longrightarrow> score_le y z \<Longrightarrow> score_le x z"
    and "score_le x y \<Longrightarrow> score_le y x \<Longrightarrow> x = y" and "score_le x y \<or> score_le y x"
  by (auto simp: score_le_def prod_eq_iff)

lemma keep_better_Some: "keep_better (Some b) c = Some (if score_le c b then b else c)"
  by (auto simp: keep_better_def better_framework_def score_le_def prod_eq_iff)

lemma foldl_keep_better_max:
  "\<exists>r. foldl keep_better (Some b) cands = Some r \<and> r \<in> insert b (set cands)
     \<and> (\<forall>x \<in> insert b (set cands). score_le x r)"
proof (induction cands arbitrary: b)
  case Nil
  then show ?case by (simp add: score_le_order(1))
next
  case (Cons c cands)
  define m where "m = (if score_le c b then b else c)"
  from Cons.IH [of m] obtain r where r: "foldl keep_better (Some m) cands = Some r"
    "r \<in> insert m (set cands)" "\<forall>x \<in> insert m (set cands). score_le x r" by blast
  have "score_le b m" and "score_le c m"
    using score_le_order(1) score_le_order(4) [of c b] unfolding m_def by auto
  with r(3) have "score_le b r" and "score_le c r" using score_le_order(2) by blast+
  with r show ?case by (auto simp: keep_better_Some m_def split: if_splits)
qed

lemma foldl_keep_better:
  "foldl keep_better None cands = Some r \<longleftrightarrow> r \<in> set cands \<and> (\<forall>x \<in> set cands. score_le x r)"
proof (cases cands)
  case (Cons c cs)
  then have first: "foldl keep_better None cands = foldl keep_better (Some c) cs"
    by (simp add: keep_better_def better_framework_def)
  obtain q where q: "foldl keep_better (Some c) cs = Some q" "q \<in> set cands" "\<forall>x \<in> set cands. score_le x q"
    using foldl_keep_better_max [of c cs] Cons by auto
  have "r = q" if "r \<in> set cands" "\<forall>x \<in> set cands. score_le x r"
    using that q(2,3) score_le_order(3) by blast
  with first q show ?thesis by auto
qed simp

lemma foldl_keep_better_None: "foldl keep_better None cands = None \<longleftrightarrow> cands = []"
proof (cases cands)
  case (Cons c cs)
  then have "foldl keep_better None cands = foldl keep_better (Some c) cs"
    by (simp add: keep_better_def better_framework_def)
  moreover obtain q where "foldl keep_better (Some c) cs = Some q"
    using foldl_keep_better_max [of c cs] by auto
  ultimately show ?thesis using Cons by simp
qed simp

text \<open>C32: the folder chosen for a target does not depend on the order in which the file system
  lists the category: of the scored directories it is the one with the highest score, the
  greatest name deciding between equal scores, and there is none only if nothing is scored.\<close>

theorem select_framework_directory_best:
  assumes "readable items"
  shows "\<exists>r. select_framework_directory True (Inr items) target = Inr r
    \<and> (r = None \<longleftrightarrow> scored_folders target items = [])
    \<and> (\<forall>n. r = Some n \<longleftrightarrow> (\<exists>s. (s, n) \<in> set (scored_folders target items)
          \<and> (\<forall>x \<in> set (scored_folders target items). score_le x (s, n))))"
proof -
  let ?c = "scored_folders target items"
  have "select_framework_directory True (Inr items) target = Inr (map_option snd (foldl keep_better None ?c))"
    by (simp add: select_framework_directory_def fold_consider [OF assms])
  moreover have "map_option snd (foldl keep_better None ?c) = Some n \<longleftrightarrow>
      (\<exists>s. (s, n) \<in> set ?c \<and> (\<forall>x \<in> set ?c. score_le x (s, n)))" for n
    unfolding foldl_keep_better [symmetric] by auto
  ultimately show ?thesis
    by (simp add: foldl_keep_better_None)
qed

text \<open>A category with two usable folders and a file, in either order.\<close>

definition example_folders :: "(unit + unit dir_entry) list" where
  "example_folders =
     [Inr \<lparr>entry_name = Some ''net6.0'', entry_is_dir = Inr True\<rparr>,
      Inr \<lparr>entry_name = Some ''_._'', entry_is_dir = Inr False\<rparr>,
      Inr \<lparr>entry_name = Some ''netstandard2.0'', entry_is_dir = Inr True\<rparr>]"

theorem select_framework_directory_best_witness:
  "readable example_folders
   \<and> (\<exists>r. select_framework_directory True (Inr example_folders) (mk_framework Net 8 0) = Inr r)"
proof -
  have "readable example_folders" by (auto simp: readable_def example_folders_def)
  then show ?thesis using select_framework_directory_best by blast
qed

end
