(* ===== verification/Protocol.thy ===== *)
theory Protocol
  imports Framework
begin

text \<open>
  The small protocol types of \<open>crates/dv-core/src\<close>: diagnostic codes and diagnostics
  (\<open>diagnostic.rs\<close>), the event envelope, its validation and the JSON-lines reporter
  (\<open>event.rs\<close>, \<open>reporter.rs\<close>), the packed pack requirement (\<open>pack_requirement.rs\<close>), the lookup in
  the generated pruning table (\<open>legacy_pruning.rs\<close>), lexical path normalisation (\<open>path.rs\<close>) and the
  redaction of URLs (\<open>redaction.rs\<close>).
\<close>

section \<open>Diagnostics\<close>

type_synonym diagnostic_code = string

definition parse_diagnostic_code :: "string \<Rightarrow> string + diagnostic_code" where
  "parse_diagnostic_code value =
     (let valid = length value = 6 \<and> value ! 0 = CHR ''D'' \<and> value ! 1 = CHR ''V'' \<and> all_digits (drop 2 value)
      in if valid then Inr value else Inl value)"

datatype severity = Info | Warning | Error

record context_field =
  field_name :: string
  field_value :: string

record diagnostic =
  diag_code :: diagnostic_code
  diag_severity :: severity
  diag_message :: string
  diag_context :: "context_field list"
  diag_causes :: "string list"
  diag_help :: "string option"

text \<open>The assertion of the constructor: \<open>None\<close> is its panic.\<close>

definition new_diagnostic :: "diagnostic_code \<Rightarrow> severity \<Rightarrow> string \<Rightarrow> diagnostic option" where
  "new_diagnostic code severity message =
     (if message = [] then None
      else Some \<lparr>diag_code = code, diag_severity = severity, diag_message = message,
                 diag_context = [], diag_causes = [], diag_help = None\<rparr>)"

section \<open>Events\<close>

definition EVENT_SCHEMA_VERSION :: u16 where
  "EVENT_SCHEMA_VERSION = 23"

datatype outcome = Succeeded | Failed | Skipped | Cancelled

datatype cache_outcome = Hit | Miss | Invalid

text \<open>The payload is carried, never inspected.\<close>

record 'p event =
  schema_version :: u16
  sequence :: u64
  elapsed :: u64
  payload :: 'p

definition new_event :: "u64 \<Rightarrow> u64 \<Rightarrow> 'p \<Rightarrow> 'p event" where
  "new_event s us p = \<lparr>schema_version = EVENT_SCHEMA_VERSION, sequence = s, elapsed = us, payload = p\<rparr>"

datatype event_stream_error =
  UnsupportedSchema nat u16
| UnexpectedSequence nat u64 u64
| ElapsedTimeRegressed nat u64 u64

fun validate_from :: "nat \<Rightarrow> u64 \<Rightarrow> 'p event list \<Rightarrow> event_stream_error + unit" where
  "validate_from index previous_us [] = Inr ()"
| "validate_from index previous_us (event # events) =
     (if schema_version event \<noteq> EVENT_SCHEMA_VERSION
      then Inl (UnsupportedSchema index (schema_version event))
      else let expected = of_nat index in
      if sequence event \<noteq> expected then Inl (UnexpectedSequence index expected (sequence event))
      else if 0 < index \<and> elapsed event < previous_us
      then Inl (ElapsedTimeRegressed index previous_us (elapsed event))
      else validate_from (Suc index) (elapsed event) events)"

definition validate_events :: "'p event list \<Rightarrow> event_stream_error + unit" where
  "validate_events events = validate_from 0 0 events"

text \<open>
  The reporter. \<open>to_json\<close> is the serialiser and \<open>write_all\<close> the writer, which may both fail;
  \<open>invalid\<close> wraps a stream error.
\<close>

definition write_json_line ::
    "('p event \<Rightarrow> 'e + string) \<Rightarrow> ('w \<Rightarrow> string \<Rightarrow> 'e + 'w) \<Rightarrow> 'w \<Rightarrow> 'p event \<Rightarrow> 'e + 'w" where
  "write_json_line to_json write_all w event =
     rbind (to_json event) (\<lambda>text. rbind (write_all w text) (\<lambda>w'. write_all w' [CHR 0x0A]))"

definition write_json_lines ::
    "(event_stream_error \<Rightarrow> 'e) \<Rightarrow> ('p event \<Rightarrow> 'e + string) \<Rightarrow> ('w \<Rightarrow> string \<Rightarrow> 'e + 'w) \<Rightarrow>
     'p event list \<Rightarrow> 'w \<Rightarrow> 'e + 'w" where
  "write_json_lines invalid to_json write_all events w =
     (case validate_events events of
        Inl e \<Rightarrow> Inl (invalid e)
      | Inr _ \<Rightarrow> try_fold (write_json_line to_json write_all) w events)"

section \<open>Pack requirements\<close>

datatype pack_kind = Targeting | Runtime | Host | SharedFramework

fun pack_kind_str :: "pack_kind \<Rightarrow> string" where
  "pack_kind_str Targeting = ''targeting_pack''"
| "pack_kind_str Runtime = ''runtime_pack''"
| "pack_kind_str Host = ''host_pack''"
| "pack_kind_str SharedFramework = ''shared_framework''"

datatype pack_acquisition =
  InstallSdk | InstallSdkOrRestorePackage | RestorePackage | InstallRuntime | ChooseRuntimeIdentifier

fun pack_acquisition_str :: "pack_acquisition \<Rightarrow> string" where
  "pack_acquisition_str InstallSdk = ''install_sdk''"
| "pack_acquisition_str InstallSdkOrRestorePackage = ''install_sdk_or_restore_package''"
| "pack_acquisition_str RestorePackage = ''restore_package''"
| "pack_acquisition_str InstallRuntime = ''install_runtime''"
| "pack_acquisition_str ChooseRuntimeIdentifier = ''choose_runtime_identifier''"

fun pack_acquisition_help :: "pack_acquisition \<Rightarrow> string" where
  "pack_acquisition_help InstallSdk =
     ''Install a .NET SDK that provides the required targeting pack.''"
| "pack_acquisition_help InstallSdkOrRestorePackage =
     ''Install an SDK that provides the targeting pack or restore the named pack from a configured package source.''"
| "pack_acquisition_help RestorePackage =
     ''Restore the required pack from a configured package source.''"
| "pack_acquisition_help InstallRuntime =
     ''Install the required shared .NET runtime or adjust the project's RollForward policy.''"
| "pack_acquisition_help ChooseRuntimeIdentifier =
     ''Choose a RuntimeIdentifier supported by the selected SDK's portable RID graph and pack manifest.''"

record pack_requirement =
  pr_text :: string
  pr_identity_end :: nat
  pr_version_end :: nat
  pr_target_framework_end :: nat
  pr_runtime_identifier_end :: nat
  pr_kind :: pack_kind
  pr_acquisition :: pack_acquisition

definition opt_text :: "string option \<Rightarrow> string" where
  "opt_text v = (case v of None \<Rightarrow> [] | Some s \<Rightarrow> s)"

definition new_pack_requirement ::
    "pack_kind \<Rightarrow> string \<Rightarrow> string option \<Rightarrow> string \<Rightarrow> string option \<Rightarrow> pack_acquisition \<Rightarrow> pack_requirement" where
  "new_pack_requirement kind identity version target_framework runtime_identifier acquisition =
     (let t1 = identity; e1 = length t1;
          t2 = t1 @ opt_text version; e2 = length t2;
          t3 = t2 @ target_framework; e3 = length t3;
          t4 = t3 @ opt_text runtime_identifier; e4 = length t4
      in \<lparr>pr_text = t4, pr_identity_end = e1, pr_version_end = e2, pr_target_framework_end = e3,
          pr_runtime_identifier_end = e4, pr_kind = kind, pr_acquisition = acquisition\<rparr>)"

definition slice :: "string \<Rightarrow> nat \<Rightarrow> nat \<Rightarrow> string" where
  "slice s a b = take (b - a) (drop a s)"

definition pr_identity :: "pack_requirement \<Rightarrow> string" where
  "pr_identity r = slice (pr_text r) 0 (pr_identity_end r)"

definition pr_version :: "pack_requirement \<Rightarrow> string option" where
  "pr_version r = (if pr_version_end r \<noteq> pr_identity_end r
     then Some (slice (pr_text r) (pr_identity_end r) (pr_version_end r)) else None)"

definition pr_target_framework :: "pack_requirement \<Rightarrow> string" where
  "pr_target_framework r = slice (pr_text r) (pr_version_end r) (pr_target_framework_end r)"

definition pr_runtime_identifier :: "pack_requirement \<Rightarrow> string option" where
  "pr_runtime_identifier r = (if pr_runtime_identifier_end r \<noteq> pr_target_framework_end r
     then Some (slice (pr_text r) (pr_target_framework_end r) (pr_runtime_identifier_end r)) else None)"

section \<open>The generated pruning table\<close>

datatype pruning_framework = DefaultFramework | Core | AspNetCore | WindowsDesktop

datatype legacy_target_family = LegacyNetCoreApp | LegacyNetStandard

record legacy_prune_package =
  prune_id :: string
  prune_numbers :: "u32 list"

record legacy_prune_set =
  set_family :: legacy_target_family
  set_major :: nat
  set_minor :: nat
  set_framework :: pruning_framework
  set_packages :: "legacy_prune_package list"

fun legacy_family :: "framework_family \<Rightarrow> legacy_target_family option" where
  "legacy_family Net = Some LegacyNetCoreApp"
| "legacy_family NetCoreApp = Some LegacyNetCoreApp"
| "legacy_family NetStandard = Some LegacyNetStandard"
| "legacy_family NetFramework = None"

text \<open>The table \<open>LEGACY_PRUNE_SETS\<close> is generated; it is the argument \<open>sets\<close>.\<close>

definition exact_legacy_pruning ::
    "legacy_prune_set list \<Rightarrow> framework_family \<Rightarrow> nat \<Rightarrow> nat \<Rightarrow> pruning_framework \<Rightarrow>
     legacy_prune_package list option" where
  "exact_legacy_pruning sets target_family target_major target_minor framework =
     Option.bind (legacy_family target_family) (\<lambda>family.
       map_option set_packages
         (List.find (\<lambda>s. set_family s = family \<and> set_major s = target_major
            \<and> set_minor s = target_minor \<and> set_framework s = framework) sets))"

definition set_version :: "legacy_prune_set \<Rightarrow> nat list" where
  "set_version s = [set_major s, set_minor s]"

definition nearest_legacy_pruning ::
    "legacy_prune_set list \<Rightarrow> framework_family \<Rightarrow> nat \<Rightarrow> nat \<Rightarrow> pruning_framework \<Rightarrow>
     legacy_prune_package list option" where
  "nearest_legacy_pruning sets target_family target_major target_minor framework =
     Option.bind (legacy_family target_family) (\<lambda>family.
       map_option set_packages
         (max_by (\<lambda>a b. rust_cmp (set_version a) (set_version b))
           (filter (\<lambda>s. set_family s = family \<and> set_framework s = framework
              \<and> set_version s \<le> [target_major, target_minor]) sets)))"

section \<open>Lexical paths\<close>

text \<open>A path as its components; \<open>push\<close> of a rooted component replaces what it is pushed on, keeping
  a drive prefix, and \<open>pop\<close> never removes a root or a prefix.\<close>

datatype path_component = PathPrefix string | RootDir | CurDir | ParentDir | Normal string

type_synonym path = "path_component list"

fun is_prefix_component :: "path_component \<Rightarrow> bool" where
  "is_prefix_component (PathPrefix p) = True"
| "is_prefix_component c = False"

definition is_absolute :: "path \<Rightarrow> bool" where
  "is_absolute p \<longleftrightarrow> (case p of RootDir # _ \<Rightarrow> True | PathPrefix _ # RootDir # _ \<Rightarrow> True | _ \<Rightarrow> False)"

fun path_push :: "path \<Rightarrow> path_component \<Rightarrow> path" where
  "path_push p (PathPrefix d) = [PathPrefix d]"
| "path_push p RootDir = takeWhile is_prefix_component p @ [RootDir]"
| "path_push p c = p @ [c]"

definition path_pop :: "path \<Rightarrow> path" where
  "path_pop p = (case rev p of
       Normal n # r \<Rightarrow> rev r | CurDir # r \<Rightarrow> rev r | ParentDir # r \<Rightarrow> rev r | _ \<Rightarrow> p)"

text \<open>\<open>std::path::absolute\<close>: the empty path is refused, a relative one is put after the current
  directory with its \<open>.\<close> components dropped.\<close>

definition std_absolute :: "'e \<Rightarrow> 'e + path \<Rightarrow> path \<Rightarrow> 'e + path" where
  "std_absolute invalid_input cwd p =
     (if p = [] then Inl invalid_input
      else if is_absolute p then Inr p
      else rbind cwd (\<lambda>d. Inr (d @ filter (\<lambda>c. c \<noteq> CurDir) p)))"

definition lexical_step :: "path \<Rightarrow> path_component \<Rightarrow> path" where
  "lexical_step normalized component =
     (case component of
        CurDir \<Rightarrow> normalized
      | ParentDir \<Rightarrow> path_pop normalized
      | _ \<Rightarrow> path_push normalized component)"

definition absolute_lexical :: "'e \<Rightarrow> 'e + path \<Rightarrow> path \<Rightarrow> 'e + path" where
  "absolute_lexical invalid_input cwd p =
     rbind (if is_absolute p then Inr p else std_absolute invalid_input cwd p)
       (\<lambda>absolute. Inr (foldl lexical_step [] absolute))"

section \<open>Redaction\<close>

text \<open>The \<open>url\<close> crate is the record of functions \<open>lib\<close> over its own type of parsed URLs.\<close>

record 'u url_library =
  url_parse :: "string \<Rightarrow> 'u option"
  set_username :: "'u \<Rightarrow> string \<Rightarrow> 'u option"
  set_password :: "'u \<Rightarrow> string option \<Rightarrow> 'u option"
  set_query :: "'u \<Rightarrow> string option \<Rightarrow> 'u"
  set_fragment :: "'u \<Rightarrow> string option \<Rightarrow> 'u"
  url_text :: "'u \<Rightarrow> string"

definition redact_url_for_output :: "'u url_library \<Rightarrow> string \<Rightarrow> string" where
  "redact_url_for_output lib value =
     (if \<not> list_ex (\<lambda>b. b \<in> {CHR 0x40, CHR ''?'', CHR ''#''}) value then value
      else (case url_parse lib value of
          None \<Rightarrow> if contains_str ''://'' value \<or> starts_with ''//'' value
                  then ''<redacted-url>'' else value
        | Some url \<Rightarrow>
            (case Option.bind (set_username lib url []) (\<lambda>u. set_password lib u None) of
               None \<Rightarrow> ''<redacted-url>''
             | Some u \<Rightarrow> url_text lib (set_fragment lib (set_query lib u None) None))))"

section \<open>Facts on events\<close>

text \<open>An event at a position is accepted given the time of the one before it.\<close>

definition event_ok :: "'p event list \<Rightarrow> nat \<Rightarrow> bool" where
  "event_ok events i \<longleftrightarrow>
     schema_version (events ! i) = EVENT_SCHEMA_VERSION
   \<and> sequence (events ! i) = of_nat i
   \<and> (0 < i \<longrightarrow> elapsed (events ! (i - 1)) \<le> elapsed (events ! i))"

fun error_index :: "event_stream_error \<Rightarrow> nat" where
  "error_index (UnsupportedSchema i _) = i"
| "error_index (UnexpectedSequence i _ _) = i"
| "error_index (ElapsedTimeRegressed i _ _) = i"

lemma validate_from_ok:
  "validate_from (length done) (if done = [] then 0 else elapsed (last done)) events = Inr () \<longleftrightarrow>
    (\<forall>i. length done \<le> i \<and> i < length (done @ events) \<longrightarrow> event_ok (done @ events) i)"
proof (induction events arbitrary: "done")
  case Nil
  then show ?case by auto
next
  case (Cons e events)
  have split: "(\<forall>i. length done \<le> i \<and> i < length (done @ e # events) \<longrightarrow> event_ok (done @ e # events) i)
      \<longleftrightarrow> event_ok (done @ e # events) (length done)
        \<and> (\<forall>i. length (done @ [e]) \<le> i \<and> i < length ((done @ [e]) @ events) \<longrightarrow> event_ok ((done @ [e]) @ events) i)"
    by (auto simp: Suc_le_eq) (metis le_neq_implies_less)
  have here: "event_ok (done @ e # events) (length done) \<longleftrightarrow>
      schema_version e = EVENT_SCHEMA_VERSION \<and> sequence e = of_nat (length done)
      \<and> \<not> (0 < length done \<and> elapsed e < (if done = [] then 0 else elapsed (last done)))"
    by (cases "done" rule: rev_cases) (auto simp: event_ok_def nth_append not_less)
  show ?case
    unfolding split here using Cons.IH [of "done @ [e]"] by (auto simp: Let_def)
qed

lemma validate_events_ok: "validate_events events = Inr () \<longleftrightarrow> (\<forall>i < length events. event_ok events i)"
  using validate_from_ok [of "[]" events] by (simp add: validate_events_def)

lemma validate_from_error:
  "validate_from (length done) (if done = [] then 0 else elapsed (last done)) events = Inl e \<Longrightarrow>
    (\<forall>i. length done \<le> i \<and> i < error_index e \<longrightarrow> event_ok (done @ events) i)
    \<and> error_index e < length (done @ events) \<and> length done \<le> error_index e
    \<and> \<not> event_ok (done @ events) (error_index e)"
proof (induction events arbitrary: "done")
  case Nil
  then show ?case by simp
next
  case (Cons x events)
  let ?prev = "if done = [] then 0 else elapsed (last done)"
  have here: "event_ok (done @ x # events) (length done) \<longleftrightarrow>
      schema_version x = EVENT_SCHEMA_VERSION \<and> sequence x = of_nat (length done)
      \<and> \<not> (0 < length done \<and> elapsed x < ?prev)"
    by (cases "done" rule: rev_cases) (auto simp: event_ok_def nth_append not_less)
  show ?case
  proof (cases "event_ok (done @ x # events) (length done)")
    case True
    with Cons.prems here have "validate_from (length (done @ [x])) (if done @ [x] = [] then 0 else elapsed (last (done @ [x]))) events = Inl e"
      by (simp add: Let_def split: if_splits)
    from Cons.IH [OF this] True show ?thesis
      by (auto simp: Suc_le_eq) (metis le_neq_implies_less)
  next
    case False
    with Cons.prems here have "error_index e = length done"
      by (auto simp: Let_def split: if_splits)
    with False show ?thesis by auto
  qed
qed

text \<open>C33: an accepted batch is exactly one in which every event carries the current schema, its
  own position as its sequence number and a time not before its predecessor's; a refused batch
  is reported at its first bad event.\<close>

theorem validate_events_correct:
  "(validate_events events = Inr () \<longleftrightarrow> (\<forall>i < length events. event_ok events i))
   \<and> (\<forall>e. validate_events events = Inl e \<longrightarrow>
        error_index e < length events \<and> \<not> event_ok events (error_index e)
        \<and> (\<forall>i < error_index e. event_ok events i))"
  using validate_from_error [of "[]" events] by (auto simp: validate_events_ok) (simp_all add: validate_events_def)

theorem validate_events_correct_witness:
  "validate_events [new_event 0 5 (), new_event 1 4 ()] = Inl (ElapsedTimeRegressed 1 5 4)
   \<and> \<not> event_ok [new_event 0 5 (), new_event 1 4 ()] 1"
proof -
  have v: "validate_events [new_event 0 5 (), new_event 1 4 ()] = Inl (ElapsedTimeRegressed 1 5 4)"
    by (simp add: validate_events_def new_event_def)
  show ?thesis
    using validate_events_correct [of "[new_event 0 5 (), new_event 1 4 ()]", THEN conjunct2, rule_format, OF v] v
    by simp
qed

text \<open>A writer into memory, and what a batch looks like in it.\<close>

definition buffer_write :: "string \<Rightarrow> string \<Rightarrow> 'e + string" where
  "buffer_write w s = Inr (w @ s)"

lemma try_fold_json_lines:
  "try_fold (write_json_line (\<lambda>e. Inr (json e)) buffer_write) w events =
     Inr (w @ concat (map (\<lambda>e. json e @ [CHR 0x0A]) events))"
  by (induction events arbitrary: w) (simp_all add: write_json_line_def buffer_write_def)

lemma split_json_lines:
  "(\<And>e. e \<in> set events \<Longrightarrow> c \<notin> set (json e)) \<Longrightarrow>
     split_on c (concat (map (\<lambda>e. json e @ [c]) events)) = map json events @ [[]]"
  by (induction events) (simp_all add: split_on_append)

text \<open>The reporter writes nothing of a batch it refuses, and of an accepted batch exactly one
  line per event, in order: when the serialiser puts no line break into an event, splitting the
  output at line breaks gives the serialised events back.\<close>

theorem write_json_lines_roundtrip:
  fixes invalid :: "event_stream_error \<Rightarrow> 'e"
  assumes "\<And>e. e \<in> set events \<Longrightarrow> CHR 0x0A \<notin> set (json e)"
  shows "(\<exists>out. write_json_lines invalid (\<lambda>e. Inr (json e)) buffer_write events [] = Inr out
            \<and> split_on (CHR 0x0A) out = map json events @ [[]])
      \<or> (\<exists>err i. write_json_lines invalid (\<lambda>e. Inr (json e)) buffer_write events [] = Inl (invalid err)
            \<and> i < length events \<and> \<not> event_ok events i)"
proof (cases "validate_events events")
  case (Inl err)
  with validate_from_error [of "[]" events err] have "error_index err < length events \<and> \<not> event_ok events (error_index err)"
    by (simp add: validate_events_def)
  with Inl show ?thesis by (auto simp: write_json_lines_def)
next
  case (Inr u)
  then show ?thesis
    using split_json_lines [of events "CHR 0x0A" json] assms
    by (simp add: write_json_lines_def try_fold_json_lines)
qed

theorem write_json_lines_roundtrip_witness:
  "write_json_lines id (\<lambda>e. Inr ''{}'') buffer_write [new_event 0 1 (), new_event 1 1 ()] [] =
     Inr (''{}'' @ [CHR 0x0A] @ ''{}'' @ [CHR 0x0A])
   \<and> split_on (CHR 0x0A) (''{}'' @ [CHR 0x0A] @ ''{}'' @ [CHR 0x0A]) = [''{}'', ''{}'', []]"
proof -
  have w: "write_json_lines id (\<lambda>e. Inr ''{}'') buffer_write [new_event 0 1 (), new_event 1 1 ()] [] =
      Inr (''{}'' @ [CHR 0x0A] @ ''{}'' @ [CHR 0x0A])"
    by (simp add: write_json_lines_def validate_events_def new_event_def write_json_line_def buffer_write_def)
  show ?thesis
    using write_json_lines_roundtrip [of "[new_event 0 1 (), new_event 1 1 ()]" "\<lambda>_. ''{}''" id] w by simp
qed

section \<open>Facts on pack requirements\<close>

definition present :: "string option \<Rightarrow> string option" where
  "present v = (if v = Some [] then None else v)"

text \<open>The packed text of a pack requirement gives back every field it was built from; the one
  loss is that an empty version or runtime identifier reads as an absent one.\<close>

theorem pack_requirement_roundtrip:
  "let r = new_pack_requirement kind identity version target_framework rid acquisition in
     pr_kind r = kind \<and> pr_acquisition r = acquisition \<and> pr_identity r = identity
   \<and> pr_version r = present version \<and> pr_target_framework r = target_framework
   \<and> pr_runtime_identifier r = present rid
   \<and> pr_runtime_identifier_end r = length (pr_text r)"
  by (cases version; cases rid)
    (auto simp: Let_def new_pack_requirement_def pr_identity_def pr_version_def pr_target_framework_def
      pr_runtime_identifier_def slice_def opt_text_def present_def)

section \<open>Facts on the pruning table\<close>

definition set_key :: "legacy_prune_set \<Rightarrow> legacy_target_family \<times> nat \<times> nat \<times> pruning_framework" where
  "set_key s = (set_family s, set_major s, set_minor s, set_framework s)"

lemma pair_ord: "rust_ord (\<lambda>a b. rust_cmp (set_version a) (set_version b))"
  by (rule rust_ord_key)

interpretation prune_ord: rust_ord "\<lambda>a b. rust_cmp (set_version a) (set_version b)"
  by (rule pair_ord)

text \<open>the nearest pruning set is the right fallback: it never comes from a version after the
  target's, no set of the same family and framework lies between, and where the table (keys
  unique) has the target's own version it is the exact set.\<close>

theorem nearest_pruning_correct:
  assumes "distinct (map set_key sets)"
  shows "(exact_legacy_pruning sets fam major minor fw = Some ps \<longrightarrow>
            nearest_legacy_pruning sets fam major minor fw = Some ps)
    \<and> (nearest_legacy_pruning sets fam major minor fw = Some qs \<longrightarrow>
        (\<exists>s \<in> set sets. set_packages s = qs \<and> legacy_family fam = Some (set_family s) \<and> set_framework s = fw
          \<and> set_version s \<le> [major, minor]
          \<and> (\<forall>t \<in> set sets. set_family t = set_family s \<longrightarrow> set_framework t = fw \<longrightarrow>
                set_version t \<le> [major, minor] \<longrightarrow> set_version t \<le> set_version s)))"
proof (cases "legacy_family fam")
  case None
  then show ?thesis by (simp add: exact_legacy_pruning_def nearest_legacy_pruning_def)
next
  case (Some family)
  let ?cand = "filter (\<lambda>s. set_family s = family \<and> set_framework s = fw \<and> set_version s \<le> [major, minor]) sets"
  let ?best = "max_by (\<lambda>a b. rust_cmp (set_version a) (set_version b)) ?cand"
  have near: "nearest_legacy_pruning sets fam major minor fw = map_option set_packages ?best"
    by (simp add: nearest_legacy_pruning_def Some)
  have upper: "set_version t \<le> set_version s" if "?best = Some s" "t \<in> set ?cand" for s t
    using prune_ord.max_by_upper [OF that] by (simp add: not_less)
  have exact: "?best = Some s"
    if s: "s \<in> set sets" "set_family s = family" "set_version s = [major, minor]" "set_framework s = fw" for s
  proof -
    from s have "s \<in> set ?cand" by simp
    then have "?cand \<noteq> []" using length_pos_if_in_set by (simp only: length_greater_0_conv)
    then have "?best \<noteq> None" unfolding max_by_None .
    then obtain m where m: "?best = Some m" by blast
    note mem = max_by_in [OF m]
    from upper [OF m \<open>s \<in> set ?cand\<close>] mem s(3) have "set_version m = set_version s" by simp
    with mem s have "set_key m = set_key s" by (simp add: set_key_def set_version_def)
    moreover have "inj_on set_key (set sets)" using assms by (simp add: distinct_map)
    moreover have "m \<in> set sets" using mem by simp
    ultimately have "m = s" using s(1) by (simp add: inj_on_def)
    with m show ?thesis by simp
  qed
  have "nearest_legacy_pruning sets fam major minor fw = Some ps"
    if "exact_legacy_pruning sets fam major minor fw = Some ps"
  proof -
    from that obtain s where s: "s \<in> set sets" "set_family s = family" "set_major s = major"
      "set_minor s = minor" "set_framework s = fw" "set_packages s = ps"
      by (auto simp: exact_legacy_pruning_def Some dest!: find_SomeD)
    from s(3,4) have "set_version s = [major, minor]" by (simp add: set_version_def)
    from exact [OF s(1,2) this s(5)] s(6) show ?thesis unfolding near by simp
  qed
  moreover have "\<exists>s \<in> set sets. set_packages s = qs \<and> legacy_family fam = Some (set_family s) \<and> set_framework s = fw
          \<and> set_version s \<le> [major, minor]
          \<and> (\<forall>t \<in> set sets. set_family t = set_family s \<longrightarrow> set_framework t = fw \<longrightarrow>
                set_version t \<le> [major, minor] \<longrightarrow> set_version t \<le> set_version s)"
    if "nearest_legacy_pruning sets fam major minor fw = Some qs"
  proof -
    from that near obtain s where s: "?best = Some s" "set_packages s = qs" by auto
    with max_by_in [OF s(1)] upper [OF s(1)] Some show ?thesis by (intro bexI [of _ s]) simp_all
  qed
  ultimately show ?thesis by blast
qed

definition example_sets :: "legacy_prune_set list" where
  "example_sets =
     [\<lparr>set_family = LegacyNetCoreApp, set_major = 2, set_minor = 1, set_framework = Core,
       set_packages = [\<lparr>prune_id = ''microsoft.csharp'', prune_numbers = [4, 5, 0, 0]\<rparr>]\<rparr>,
      \<lparr>set_family = LegacyNetCoreApp, set_major = 3, set_minor = 0, set_framework = Core, set_packages = []\<rparr>]"

theorem nearest_pruning_correct_witness:
  "distinct (map set_key example_sets)
   \<and> nearest_legacy_pruning example_sets Net 2 2 Core = Some [\<lparr>prune_id = ''microsoft.csharp'', prune_numbers = [4, 5, 0, 0]\<rparr>]
   \<and> nearest_legacy_pruning example_sets Net 3 0 Core = Some []"
proof -
  have d: "distinct (map set_key example_sets)" by (simp add: example_sets_def set_key_def)
  have e: "exact_legacy_pruning example_sets Net 3 0 Core = Some []"
    by (simp add: exact_legacy_pruning_def example_sets_def)
  have n: "nearest_legacy_pruning example_sets Net 2 2 Core = Some [\<lparr>prune_id = ''microsoft.csharp'', prune_numbers = [4, 5, 0, 0]\<rparr>]"
    by (simp add: nearest_legacy_pruning_def example_sets_def set_version_def max_by_def)
  from d n nearest_pruning_correct [OF d, THEN conjunct1, rule_format, OF e] show ?thesis by blast
qed

section \<open>Facts on lexical paths\<close>

definition rooted :: "path \<Rightarrow> bool" where
  "rooted h \<longleftrightarrow> h = [RootDir] \<or> (\<exists>d. h = [PathPrefix d, RootDir])"

fun relative_component :: "path_component \<Rightarrow> bool" where
  "relative_component (PathPrefix d) = False"
| "relative_component RootDir = False"
| "relative_component c = True"

text \<open>Walking names: a dot stays, two dots leave the last name if there is one.\<close>

fun walk :: "string list \<Rightarrow> path \<Rightarrow> string list" where
  "walk ns [] = ns"
| "walk ns (Normal n # p) = walk (ns @ [n]) p"
| "walk ns (ParentDir # p) = walk (butlast ns) p"
| "walk ns (c # p) = walk ns p"

lemma walk_append: "walk ns (p @ q) = walk (walk ns p) q"
  by (induction ns p rule: walk.induct) simp_all

lemma walk_normals [simp]: "walk ns (map Normal ms) = ns @ ms"
  by (induction ms arbitrary: ns) simp_all

lemma walk_no_CurDir: "walk ns (filter (\<lambda>c. c \<noteq> CurDir) p) = walk ns p"
  by (induction ns p rule: walk.induct) simp_all

lemma pop_rooted: "rooted h \<Longrightarrow> path_pop (h @ map Normal ns) = h @ map Normal (butlast ns)"
  by (cases ns rule: rev_cases) (auto simp: rooted_def path_pop_def)

lemma lexical_relative:
  "rooted h \<Longrightarrow> list_all relative_component p \<Longrightarrow>
    foldl lexical_step (h @ map Normal ns) p = h @ map Normal (walk ns p)"
  by (induction ns p rule: walk.induct) (simp_all add: lexical_step_def pop_rooted)

lemma lexical_rooted:
  assumes "rooted h" and "list_all relative_component p"
  shows "foldl lexical_step [] (h @ p) = h @ map Normal (walk [] p)"
proof -
  have "foldl lexical_step [] h = h @ map Normal []"
    using assms(1) by (auto simp: rooted_def lexical_step_def)
  then show ?thesis using lexical_relative [OF assms, of "[]"] by simp
qed

lemma rooted_absolute [simp]: "rooted h \<Longrightarrow> is_absolute (h @ p)"
  by (auto simp: rooted_def is_absolute_def)

lemma relative_not_absolute: "list_all relative_component p \<Longrightarrow> \<not> is_absolute p"
  by (auto simp: is_absolute_def split: list.splits path_component.splits)

text \<open>Lexical normalisation resolves a path against the current directory without leaving its
  root: the result is the root followed by the names walking the whole path leads to (so no dot
  component is left), and normalising the result again changes nothing.\<close>

theorem absolute_lexical_correct:
  assumes "rooted h" and "list_all relative_component d" and "list_all relative_component p" and "p \<noteq> []"
  shows "absolute_lexical e (Inr (h @ d)) p = Inr (h @ map Normal (walk [] (d @ p)))
    \<and> absolute_lexical e cwd (h @ p) = Inr (h @ map Normal (walk [] p))
    \<and> absolute_lexical e cwd (h @ map Normal (walk [] p)) = Inr (h @ map Normal (walk [] p))"
proof (intro conjI)
  have normal: "list_all relative_component (map Normal ns)" for ns by (induction ns) simp_all
  have rel: "list_all relative_component (d @ filter (\<lambda>c. c \<noteq> CurDir) p)"
    using assms(2,3) by (auto simp: list_all_iff)
  show "absolute_lexical e (Inr (h @ d)) p = Inr (h @ map Normal (walk [] (d @ p)))"
    using assms(4) relative_not_absolute [OF assms(3)] lexical_rooted [OF assms(1) rel]
    by (simp add: absolute_lexical_def std_absolute_def walk_append walk_no_CurDir)
  show "absolute_lexical e cwd (h @ p) = Inr (h @ map Normal (walk [] p))"
    using assms(1) lexical_rooted [OF assms(1,3)] by (simp add: absolute_lexical_def)
  show "absolute_lexical e cwd (h @ map Normal (walk [] p)) = Inr (h @ map Normal (walk [] p))"
    using assms(1) lexical_rooted [OF assms(1) normal] by (simp add: absolute_lexical_def)
qed

theorem absolute_lexical_correct_witness:
  "absolute_lexical () (Inr [RootDir, Normal ''work'']) [ParentDir, ParentDir, Normal ''a'', CurDir, Normal ''b''] =
     Inr [RootDir, Normal ''a'', Normal ''b'']"
  using absolute_lexical_correct [THEN conjunct1, of "[RootDir]" "[Normal ''work'']"
      "[ParentDir, ParentDir, Normal ''a'', CurDir, Normal ''b'']" "()"]
  by (simp add: rooted_def)

end
