(* ===== verification/Sdk_Version.thy ===== *)
theory Sdk_Version
  imports Rust_Str
begin

text \<open>
  \<open>crates/dv-core/src/sdk.rs\<close>, the part without I/O: architectures, the SDK version with its
  packed prerelease span, the version order, and the comment stripper for \<open>global.json\<close>.
\<close>

section \<open>Architectures\<close>

datatype dotnet_architecture =
  Arm | Arm64 | ArmV6 | LoongArch64 | Ppc64Le | RiscV64 | S390X | X64 | X86 | Wasm

fun architecture_str :: "dotnet_architecture \<Rightarrow> string" where
  "architecture_str Arm = ''arm''"
| "architecture_str Arm64 = ''arm64''"
| "architecture_str ArmV6 = ''armv6''"
| "architecture_str LoongArch64 = ''loongarch64''"
| "architecture_str Ppc64Le = ''ppc64le''"
| "architecture_str RiscV64 = ''riscv64''"
| "architecture_str S390X = ''s390x''"
| "architecture_str X64 = ''x64''"
| "architecture_str X86 = ''x86''"
| "architecture_str Wasm = ''wasm''"

definition architecture_table :: "(string \<times> dotnet_architecture) list" where
  "architecture_table =
     [(''arm'', Arm), (''arm64'', Arm64), (''armv6'', ArmV6), (''loongarch64'', LoongArch64),
      (''ppc64le'', Ppc64Le), (''riscv64'', RiscV64), (''s390x'', S390X), (''x64'', X64),
      (''x86'', X86), (''wasm'', Wasm)]"

definition parse_architecture :: "string \<Rightarrow> dotnet_architecture option" where
  "parse_architecture value =
     map_option snd (List.find (\<lambda>(name, _). eq_ignore_case value name) architecture_table)"

text \<open>The architecture the program was compiled for, \<open>std::env::consts::ARCH\<close>, is an argument.\<close>

definition current_architecture :: "string \<Rightarrow> dotnet_architecture option" where
  "current_architecture arch =
     (if arch = ''arm'' then Some Arm
      else if arch = ''aarch64'' then Some Arm64
      else if arch = ''loongarch64'' then Some LoongArch64
      else if arch = ''powerpc64'' then Some Ppc64Le
      else if arch = ''riscv64'' then Some RiscV64
      else if arch = ''s390x'' then Some S390X
      else if arch = ''x86_64'' then Some X64
      else if arch = ''x86'' then Some X86
      else if arch = ''wasm32'' \<or> arch = ''wasm64'' then Some Wasm
      else None)"

definition dotnet_root_architecture :: "string \<Rightarrow> string option" where
  "dotnet_root_architecture arch =
     (if arch = ''x86_64'' then Some ''X64''
      else if arch = ''x86'' then Some ''X86''
      else if arch = ''aarch64'' then Some ''ARM64''
      else if arch = ''arm'' then Some ''ARM''
      else None)"

section \<open>Errors\<close>

datatype sdk_error_kind = RootNotFound | Io | GlobalJsonError | InvalidVersion | NoCompatibleSdk

text \<open>A message is the format string it is written with, as a constructor, and its arguments.\<close>

datatype 'io sdk_message =
  InvalidSdkVersion string
| InvalidIdentifiers string string
| NoRoot
| TooManySdkRoots
| TooManyRuntimeRoots
| TooManySdks
| TooManyRuntimes
| RuntimeInventoryTooLarge
| RuntimeTextTooLarge
| FamilyNameTooLong
| RuntimeVersionTooLong
| PathsNeedGlobalJson
| HostRootMissing
| VersionRequired
| NoSdkSatisfies string string
| CustomMessage string
| NotUtf8 string
| InvalidGlobalJson string string
| IoFailure string string 'io

record 'io sdk_error =
  error_kind :: sdk_error_kind
  error_message :: "'io sdk_message"

definition mk_sdk_error :: "sdk_error_kind \<Rightarrow> 'io sdk_message \<Rightarrow> 'io sdk_error" where
  "mk_sdk_error kind message = \<lparr>error_kind = kind, error_message = message\<rparr>"

section \<open>Versions\<close>

definition NO_PRERELEASE :: u16 where
  "NO_PRERELEASE = - 1"

text \<open>The components are \<open>u32\<close> values; the parser bounds them and the code only compares them, so
  they are naturals. The prerelease is a span of the text, in 16-bit offsets.\<close>

record sdk_version =
  sv_text :: string
  sv_major :: nat
  sv_minor :: nat
  sv_patch :: nat
  sv_prerelease_start :: u16
  sv_prerelease_end :: u16

definition parse_numeric_part :: "string option \<Rightarrow> string \<Rightarrow> 'io sdk_error + nat" where
  "parse_numeric_part part full_version =
     (let invalid = mk_sdk_error InvalidVersion (InvalidSdkVersion full_version) in
      rbind (ok_or invalid part) (\<lambda>part.
        if part = [] \<or> 1 < length part \<and> starts_with ''0'' part \<or> \<not> all_digits part then Inl invalid
        else ok_or invalid (parse_uint (2 ^ 32) part)))"

definition validate_identifiers :: "string option \<Rightarrow> string \<Rightarrow> string \<Rightarrow> 'io sdk_error + unit" where
  "validate_identifiers identifiers kind full_version =
     (case identifiers of
        None \<Rightarrow> Inr ()
      | Some ids \<Rightarrow>
          if ids = [] \<or> list_ex (\<lambda>i. i = [] \<or> \<not> list_all (\<lambda>b. is_alnum b \<or> b = CHR ''-'') i) (split_on CHR ''.'' ids)
          then Inl (mk_sdk_error InvalidVersion (InvalidIdentifiers kind full_version))
          else Inr ())"

definition nth_part :: "'a list \<Rightarrow> nat \<Rightarrow> 'a option" where
  "nth_part xs i = (if i < length xs then Some (xs ! i) else None)"

definition parse_sdk_version :: "string \<Rightarrow> 'io sdk_error + sdk_version" where
  "parse_sdk_version value =
     (let invalid = mk_sdk_error InvalidVersion (InvalidSdkVersion value) in
      if value = [] \<or> unat NO_PRERELEASE \<le> length value then Inl invalid
      else let precedence_end = (case find_byte CHR ''+'' value of None \<Rightarrow> length value | Some i \<Rightarrow> i);
               precedence = take precedence_end value
      in rbind (case split_once CHR ''-'' precedence of
                  Some (numbers, prerelease) \<Rightarrow>
                    if prerelease \<noteq> [] then Inr (numbers, Some prerelease) else Inl invalid
                | None \<Rightarrow> Inr (precedence, None)) (\<lambda>(numbers, prerelease).
         rbind (validate_identifiers prerelease ''prerelease'' value) (\<lambda>_.
         rbind (validate_identifiers
                 (if precedence_end + 1 \<le> length value then Some (drop (precedence_end + 1) value) else None)
                 ''build metadata'' value) (\<lambda>_.
         let parts = split_on CHR ''.'' numbers in
         rbind (parse_numeric_part (nth_part parts 0) value) (\<lambda>major.
         rbind (parse_numeric_part (nth_part parts 1) value) (\<lambda>minor.
         rbind (parse_numeric_part (nth_part parts 2) value) (\<lambda>patch.
           if nth_part parts 3 \<noteq> None then Inl invalid
           else let (start, finish) =
                  (case prerelease of
                     None \<Rightarrow> (NO_PRERELEASE, NO_PRERELEASE)
                   | Some p \<Rightarrow> let start = length numbers + 1 in (of_nat start, of_nat (start + length p)))
                in Inr \<lparr>sv_text = value, sv_major = major, sv_minor = minor, sv_patch = patch,
                        sv_prerelease_start = start, sv_prerelease_end = finish\<rparr>)))))))"

definition feature_band :: "sdk_version \<Rightarrow> nat" where
  "feature_band v = sv_patch v div 100"

definition patch_level :: "sdk_version \<Rightarrow> nat" where
  "patch_level v = sv_patch v mod 100"

definition is_prerelease :: "sdk_version \<Rightarrow> bool" where
  "is_prerelease v \<longleftrightarrow> sv_prerelease_start v \<noteq> NO_PRERELEASE"

text \<open>Slicing panics when the offsets do not lie in order inside the text.\<close>

definition sv_prerelease :: "sdk_version \<Rightarrow> string option" where
  "sv_prerelease v = (if is_prerelease v
     then Some (take (unat (sv_prerelease_end v) - unat (sv_prerelease_start v))
                  (drop (unat (sv_prerelease_start v)) (sv_text v)))
     else None)"

text \<open>Identifiers that are all digits compare as numbers by length first; they come before others.\<close>

definition compare_identifier :: "string \<Rightarrow> string \<Rightarrow> ordering" where
  "compare_identifier left right =
     (case (all_digits left, all_digits right) of
        (True, True) \<Rightarrow> then_with (rust_cmp (length left) (length right)) (rust_cmp left right)
      | (True, False) \<Rightarrow> Less
      | (False, True) \<Rightarrow> Greater
      | (False, False) \<Rightarrow> rust_cmp left right)"

definition compare_prerelease :: "string option \<Rightarrow> string option \<Rightarrow> ordering" where
  "compare_prerelease left right =
     (case (left, right) of
        (None, None) \<Rightarrow> Equal
      | (None, Some _) \<Rightarrow> Greater
      | (Some _, None) \<Rightarrow> Less
      | (Some l, Some r) \<Rightarrow> lex_cmp compare_identifier (split_on CHR ''.'' l) (split_on CHR ''.'' r))"

definition sdk_cmp :: "sdk_version \<Rightarrow> sdk_version \<Rightarrow> ordering" where
  "sdk_cmp a b =
     then_with (rust_cmp (sv_major a) (sv_major b))
    (then_with (rust_cmp (sv_minor a) (sv_minor b))
    (then_with (rust_cmp (sv_patch a) (sv_patch b))
       (compare_prerelease (sv_prerelease a) (sv_prerelease b))))"

section \<open>Comments in JSON\<close>

text \<open>
  The scanner over the bytes that are left: the two inner loops return what they write and the
  rest of the input, the outer loop carries the string and escape flags.
\<close>

definition newline :: char where
  "newline = CHR 0x0A"

fun line_comment :: "string \<Rightarrow> string \<times> string" where
  "line_comment [] = ([], [])"
| "line_comment (b # bs) =
     (if b = newline then ([], b # bs)
      else (let (out, rest) = line_comment bs in (CHR '' '' # out, rest)))"

fun block_comment :: "string \<Rightarrow> (string \<times> string) option" where
  "block_comment [] = None"
| "block_comment (b # bs) =
     (if b = CHR ''*'' \<and> nth_part bs 0 = Some CHR ''/'' then Some (''  '', tl bs)
      else map_option (\<lambda>(out, rest). ((if b = newline then newline else CHR '' '') # out, rest)) (block_comment bs))"

lemma line_comment_length: "length (snd (line_comment bs)) \<le> length bs"
  by (induction bs) (auto split: prod.splits)

lemma block_comment_length: "block_comment bs = Some (out, rest) \<Longrightarrow> length rest \<le> length bs"
  by (induction bs arbitrary: out rest) (fastforce split: if_splits)+

definition unterminated :: string where
  "unterminated = ''unterminated block comment''"

function strip_scan :: "bool \<Rightarrow> bool \<Rightarrow> string \<Rightarrow> string + string" where
  "strip_scan in_string escaped [] = Inr []"
| "strip_scan in_string escaped (b # bs) =
     (if in_string
      then rbind (if escaped then strip_scan True False bs
                  else if b = CHR 0x5C then strip_scan True True bs
                  else if b = CHR 0x22 then strip_scan False False bs
                  else strip_scan True False bs) (\<lambda>out. Inr (b # out))
      else if b = CHR 0x22 then rbind (strip_scan True escaped bs) (\<lambda>out. Inr (b # out))
      else if b = CHR ''/'' \<and> nth_part bs 0 = Some CHR ''/''
      then (let (blank, rest) = line_comment (tl bs) in
            rbind (strip_scan False escaped rest) (\<lambda>out. Inr (''  '' @ blank @ out)))
      else if b = CHR ''/'' \<and> nth_part bs 0 = Some CHR ''*''
      then (case block_comment (tl bs) of
              None \<Rightarrow> Inl unterminated
            | Some (blank, rest) \<Rightarrow> rbind (strip_scan False escaped rest) (\<lambda>out. Inr (''  '' @ blank @ out)))
      else rbind (strip_scan False escaped bs) (\<lambda>out. Inr (b # out)))"
  by pat_completeness auto
termination
proof (relation "measure (\<lambda>(_, _, bs). length bs)", goal_cases)
  case (7 in_string escaped b bs x xa y)
  then have "length y \<le> length (tl bs)" using line_comment_length [of "tl bs"] by (metis snd_conv)
  then show ?case by simp
next
  case (8 in_string escaped b bs x2 x y)
  then have "length y \<le> length (tl bs)" using block_comment_length [of "tl bs" x y] by simp
  then show ?case by simp
qed simp_all

text \<open>\<open>str::from_utf8\<close>, by the byte ranges the standard admits after each first byte.\<close>

definition utf8_follow :: "nat \<Rightarrow> (nat \<times> nat) list option" where
  "utf8_follow b =
     (if b < 0x80 then Some []
      else if 0xC2 \<le> b \<and> b \<le> 0xDF then Some [(0x80, 0xBF)]
      else if b = 0xE0 then Some [(0xA0, 0xBF), (0x80, 0xBF)]
      else if b = 0xED then Some [(0x80, 0x9F), (0x80, 0xBF)]
      else if 0xE1 \<le> b \<and> b \<le> 0xEF then Some [(0x80, 0xBF), (0x80, 0xBF)]
      else if b = 0xF0 then Some [(0x90, 0xBF), (0x80, 0xBF), (0x80, 0xBF)]
      else if 0xF1 \<le> b \<and> b \<le> 0xF3 then Some [(0x80, 0xBF), (0x80, 0xBF), (0x80, 0xBF)]
      else if b = 0xF4 then Some [(0x80, 0x8F), (0x80, 0xBF), (0x80, 0xBF)]
      else None)"

fun utf8_run :: "(nat \<times> nat) list \<Rightarrow> string \<Rightarrow> bool" where
  "utf8_run pending [] = (pending = [])"
| "utf8_run [] (c # cs) = (case utf8_follow (of_char c) of None \<Rightarrow> False | Some q \<Rightarrow> utf8_run q cs)"
| "utf8_run ((lo, hi) # q) (c # cs) = (lo \<le> of_char c \<and> of_char c \<le> hi \<and> utf8_run q cs)"

definition valid_utf8 :: "string \<Rightarrow> bool" where
  "valid_utf8 s = utf8_run [] s"

definition strip_json_comments :: "string \<Rightarrow> string + string" where
  "strip_json_comments input =
     rbind (strip_scan False False input) (\<lambda>output.
       if valid_utf8 output then Inr output else Inl ''comment stripping produced invalid UTF-8'')"

section \<open>The version order\<close>

lemma compare_identifier_keys:
  "compare_identifier = (\<lambda>l r. then_with (rust_cmp (\<not> all_digits l) (\<not> all_digits r))
     (then_with (rust_cmp (if all_digits l then length l else 0) (if all_digits r then length r else 0))
       (rust_cmp l r)))"
  by (auto simp: fun_eq_iff compare_identifier_def rust_cmp_def)

lemma rust_ord_compare_identifier: "rust_ord compare_identifier"
  unfolding compare_identifier_keys
  by (intro rust_ord_then_with rust_ord_key [of "\<lambda>l. \<not> all_digits l"]
      rust_ord_key [of "\<lambda>l. if all_digits l then length l else 0"]) unfold_locales

lemma compare_identifier_Equal: "compare_identifier l r = Equal \<longleftrightarrow> l = r"
  by (auto simp: compare_identifier_def then_with_iff split: bool.splits)

definition identifiers :: "string option \<Rightarrow> string list" where
  "identifiers p = (case p of None \<Rightarrow> [] | Some s \<Rightarrow> split_on CHR ''.'' s)"

lemma compare_prerelease_keys:
  "compare_prerelease = (\<lambda>l r. then_with (rust_cmp (l = None) (r = None))
     (lex_cmp compare_identifier (identifiers l) (identifiers r)))"
  by (auto simp: fun_eq_iff compare_prerelease_def identifiers_def rust_cmp_def split: option.splits)

lemma rust_ord_compare_prerelease: "rust_ord compare_prerelease"
  unfolding compare_prerelease_keys
  by (intro rust_ord_then_with rust_ord_key [of "\<lambda>p. p = None"]
      rust_ord_on [of _ identifiers] rust_ord_lex_cmp rust_ord_compare_identifier)

interpretation sdk_ord: rust_ord sdk_cmp
  unfolding sdk_cmp_def [abs_def]
  by (intro rust_ord_then_with rust_ord_key rust_ord_on [of compare_prerelease sv_prerelease]
      rust_ord_compare_prerelease)

lemma lex_cmp_Equal: "(\<And>x y. c x y = Equal \<longleftrightarrow> x = y) \<Longrightarrow> lex_cmp c xs ys = Equal \<longleftrightarrow> xs = ys"
  by (induction c xs ys rule: lex_cmp.induct) (auto simp: then_with_iff)

lemma split_on_inject: "split_on c s = split_on c t \<longleftrightarrow> s = t"
  by (metis join_split_on)

lemma compare_prerelease_Equal: "compare_prerelease l r = Equal \<longleftrightarrow> l = r"
  by (auto simp: compare_prerelease_def lex_cmp_Equal compare_identifier_Equal split_on_inject
      split: option.splits)

lemma sdk_cmp_Equal:
  "sdk_cmp a b = Equal \<longleftrightarrow> sv_major a = sv_major b \<and> sv_minor a = sv_minor b \<and> sv_patch a = sv_patch b
     \<and> sv_prerelease a = sv_prerelease b"
  by (simp add: sdk_cmp_def then_with_iff compare_prerelease_Equal)

section \<open>Parsed versions\<close>

lemma parse_numeric_part_Inr:
  assumes "parse_numeric_part part full = Inr n"
  shows "part = Some (show_nat n) \<and> n < 2 ^ 32"
proof -
  from assms obtain p where p: "part = Some p" "p \<noteq> []" "all_digits p" "1 < length p \<longrightarrow> \<not> starts_with ''0'' p"
      "parse_uint (2 ^ 32) p = Some n"
    by (auto simp: parse_numeric_part_def Let_def rbind_eq_Inr ok_or_eq_Inr split: if_splits)
  then have "n = dec_value p" by (simp add: parse_uint_digits split: if_splits)
  moreover have "1 < length p \<longrightarrow> hd p \<noteq> CHR ''0''" using p(2,4) by (cases p) (auto simp: starts_with_def)
  ultimately show ?thesis using p show_nat_dec_value [OF p(3,2)] parse_uint_bound [OF p(5)] by simp
qed

lemma nth_part_four:
  "nth_part xs 0 = Some a \<Longrightarrow> nth_part xs 1 = Some b \<Longrightarrow> nth_part xs 2 = Some c \<Longrightarrow> nth_part xs 3 = None
    \<Longrightarrow> xs = [a, b, c]"
proof -
  assume a: "nth_part xs 0 = Some a" and b: "nth_part xs 1 = Some b" and c: "nth_part xs 2 = Some c"
    and n: "nth_part xs 3 = None"
  from c n have "length xs = 3" by (auto simp: nth_part_def split: if_splits)
  then obtain x y z where "xs = [x, y, z]" by (auto simp: numeral_3_eq_3 length_Suc_conv)
  with a b c show ?thesis by (simp add: nth_part_def)
qed

definition numbers_text :: "sdk_version \<Rightarrow> string" where
  "numbers_text v = join_with CHR ''.'' [show_nat (sv_major v), show_nat (sv_minor v), show_nat (sv_patch v)]"

text \<open>The text up to the build metadata: what precedence looks at.\<close>

definition precedence_text :: "string \<Rightarrow> string" where
  "precedence_text s = takeWhile (\<lambda>c. c \<noteq> CHR ''+'') s"

lemma find_byte_takeWhile:
  "take (case find_byte c s of None \<Rightarrow> length s | Some i \<Rightarrow> i) s = takeWhile (\<lambda>x. x \<noteq> c) s"
proof (induction s)
  case (Cons x s)
  then show ?case by (cases "find_byte c s") auto
qed simp

lemma unat_NO_PRERELEASE [simp]: "unat NO_PRERELEASE = 65535"
  by (simp add: NO_PRERELEASE_def unsigned_minus_1_eq_mask mask_eq_exp_minus_1)

lemma of_nat_not_NO_PRERELEASE: "n < 65535 \<Longrightarrow> of_nat n \<noteq> NO_PRERELEASE"
proof
  assume "n < 65535" and "of_nat n = NO_PRERELEASE"
  then have "unat (of_nat n :: u16) = 65535" by simp
  with \<open>n < 65535\<close> show False by (simp add: unat_of_nat)
qed

lemma parse_sdk_version_parts:
  assumes "parse_sdk_version value = (Inr v :: 'io sdk_error + sdk_version)"
  shows "sv_text v = value" and "length value < 65535"
    and "precedence_text value =
      numbers_text v @ (case sv_prerelease v of None \<Rightarrow> [] | Some p \<Rightarrow> CHR ''-'' # p)"
    and "sv_prerelease v \<noteq> Some []"
    and "is_prerelease v \<Longrightarrow> unat (sv_prerelease_start v) \<le> unat (sv_prerelease_end v)
           \<and> unat (sv_prerelease_end v) \<le> length (sv_text v)"
proof -
  let ?prec = "precedence_text value"
  have len: "length value < 65535"
    using assms by (auto simp: parse_sdk_version_def Let_def split: if_splits)
  from assms obtain numbers prerelease where np:
      "(case split_once CHR ''-'' ?prec of
          Some (numbers, prerelease) \<Rightarrow> if prerelease \<noteq> [] then Inr (numbers, Some prerelease)
             else Inl (mk_sdk_error InvalidVersion (InvalidSdkVersion value))
        | None \<Rightarrow> Inr (?prec, None)) = (Inr (numbers, prerelease) :: 'io sdk_error + string \<times> string option)"
    and nums: "parse_numeric_part (nth_part (split_on CHR ''.'' numbers) 0) value = (Inr (sv_major v) :: 'io sdk_error + nat)"
      "parse_numeric_part (nth_part (split_on CHR ''.'' numbers) 1) value = (Inr (sv_minor v) :: 'io sdk_error + nat)"
      "parse_numeric_part (nth_part (split_on CHR ''.'' numbers) 2) value = (Inr (sv_patch v) :: 'io sdk_error + nat)"
      "nth_part (split_on CHR ''.'' numbers) 3 = None"
    and textual: "sv_text v = value"
    and span: "(sv_prerelease_start v, sv_prerelease_end v) =
        (case prerelease of None \<Rightarrow> (NO_PRERELEASE, NO_PRERELEASE)
         | Some p \<Rightarrow> (of_nat (length numbers + 1), of_nat (length numbers + 1 + length p)))"
    unfolding parse_sdk_version_def Let_def find_byte_takeWhile precedence_text_def [symmetric]
    by (auto simp: rbind_eq_Inr split: if_splits prod.splits option.splits)
  show "sv_text v = value" by (rule textual)
  show "length value < 65535" by (rule len)
  have "split_on CHR ''.'' numbers = [show_nat (sv_major v), show_nat (sv_minor v), show_nat (sv_patch v)]"
    using nums by (intro nth_part_four) (auto dest: parse_numeric_part_Inr)
  then have numbers: "numbers = numbers_text v"
    unfolding numbers_text_def by (metis join_split_on)
  have prec: "?prec = numbers @ (case prerelease of None \<Rightarrow> [] | Some p \<Rightarrow> CHR ''-'' # p)" "prerelease \<noteq> Some []"
    using np by (auto simp: split_once_Some split: option.splits if_splits)
  have pl: "length ?prec \<le> length value" and pv: "\<exists>r. value = ?prec @ r"
    unfolding precedence_text_def by (simp add: length_takeWhile_le, metis takeWhile_dropWhile_id)
  show spanned: "is_prerelease v \<Longrightarrow> unat (sv_prerelease_start v) \<le> unat (sv_prerelease_end v)
           \<and> unat (sv_prerelease_end v) \<le> length (sv_text v)"
    and pre: "?prec = numbers_text v @ (case sv_prerelease v of None \<Rightarrow> [] | Some p \<Rightarrow> CHR ''-'' # p)"
    and "sv_prerelease v \<noteq> Some []"
  proof -
    have "sv_prerelease v = prerelease \<and> (is_prerelease v \<longrightarrow> unat (sv_prerelease_start v) \<le> unat (sv_prerelease_end v)
           \<and> unat (sv_prerelease_end v) \<le> length (sv_text v))"
    proof (cases prerelease)
      case None
      with span show ?thesis by (simp add: sv_prerelease_def is_prerelease_def)
    next
      case (Some p)
      obtain r where vr: "value = numbers @ CHR ''-'' # p @ r"
        using pv prec(1) Some by auto
      with len vr have small: "length numbers + 1 + length p < 65535" by simp
      then have u: "unat (sv_prerelease_start v) = length numbers + 1"
          "unat (sv_prerelease_end v) = length numbers + 1 + length p"
        using span Some by (simp_all add: unat_of_nat del: of_nat_add of_nat_Suc)
      moreover have "is_prerelease v"
        using u(1) small by (auto simp: is_prerelease_def dest: arg_cong [of _ _ unat])
      ultimately show ?thesis using Some vr textual by (simp add: sv_prerelease_def)
    qed
    then show "is_prerelease v \<Longrightarrow> unat (sv_prerelease_start v) \<le> unat (sv_prerelease_end v)
           \<and> unat (sv_prerelease_end v) \<le> length (sv_text v)"
      and "?prec = numbers_text v @ (case sv_prerelease v of None \<Rightarrow> [] | Some p \<Rightarrow> CHR ''-'' # p)"
      and "sv_prerelease v \<noteq> Some []"
      using prec numbers by simp_all
  qed
qed

lemma numbers_text_split:
  "split_on CHR ''.'' (numbers_text v) = [show_nat (sv_major v), show_nat (sv_minor v), show_nat (sv_patch v)]"
proof -
  have "CHR ''.'' \<notin> set (show_nat n)" for n
    using show_nat_bytes [of "CHR ''.''" n] by (auto simp: is_digit_of_char)
  then show ?thesis unfolding numbers_text_def by (intro split_on_join) auto
qed

lemma numbers_text_bytes: "c \<in> set (numbers_text v) \<Longrightarrow> is_digit c \<or> c = CHR ''.''"
  by (auto simp: numbers_text_def dest: show_nat_bytes)

lemma numbers_text_no_dash: "takeWhile (\<lambda>c. c \<noteq> CHR ''-'') (numbers_text v @ (case p of None \<Rightarrow> [] | Some q \<Rightarrow> CHR ''-'' # q)) = numbers_text v"
proof -
  have "c \<noteq> CHR ''-''" if "c \<in> set (numbers_text v)" for c
    using numbers_text_bytes [OF that] by (auto simp: is_digit_of_char)
  then show ?thesis by (cases p) (simp_all add: takeWhile_append2)
qed

lemma sdk_cmp_precedence:
  assumes "parse_sdk_version s = (Inr a :: 'io sdk_error + sdk_version)"
    and "parse_sdk_version t = (Inr b :: 'io sdk_error + sdk_version)"
  shows "sdk_cmp a b = Equal \<longleftrightarrow> precedence_text s = precedence_text t"
proof
  note pa = parse_sdk_version_parts(3) [OF assms(1)] and pb = parse_sdk_version_parts(3) [OF assms(2)]
  show "precedence_text s = precedence_text t" if "sdk_cmp a b = Equal"
    using that unfolding pa pb sdk_cmp_Equal numbers_text_def by simp
  assume eq: "precedence_text s = precedence_text t"
  then have num: "numbers_text a = numbers_text b"
    using pa pb numbers_text_no_dash by metis
  then have "sv_major a = sv_major b \<and> sv_minor a = sv_minor b \<and> sv_patch a = sv_patch b"
    using numbers_text_split [of a] numbers_text_split [of b] by simp
  moreover have "sv_prerelease a = sv_prerelease b"
    using eq pa pb num by (auto split: option.splits)
  ultimately show "sdk_cmp a b = Equal" by (simp add: sdk_cmp_Equal)
qed

text \<open>SDK versions are totally ordered, whatever their text, and two parsed versions compare
  equal exactly when their texts agree up to the build metadata.\<close>

theorem sdk_version_order:
  "sdk_cmp b a = flip_ordering (sdk_cmp a b)
   \<and> (sdk_cmp a b \<noteq> Greater \<longrightarrow> sdk_cmp b c \<noteq> Greater \<longrightarrow> sdk_cmp a c \<noteq> Greater)
   \<and> (parse_sdk_version s = (Inr a :: 'io sdk_error + sdk_version) \<longrightarrow>
      parse_sdk_version t = (Inr b :: 'io sdk_error + sdk_version) \<longrightarrow>
        (sdk_cmp a b = Equal \<longleftrightarrow> precedence_text s = precedence_text t))"
  using sdk_ord.cmp_flip [of b a] sdk_ord.cmp_trans [of a b c] sdk_cmp_precedence [of s a t b] by blast

definition example_sdk :: "string \<Rightarrow> nat \<Rightarrow> sdk_version" where
  "example_sdk s patch = \<lparr>sv_text = s, sv_major = 8, sv_minor = 0, sv_patch = patch,
     sv_prerelease_start = NO_PRERELEASE, sv_prerelease_end = NO_PRERELEASE\<rparr>"

lemma parse_example_sdk:
  shows "parse_sdk_version ''8.0.100+a'' = Inr (example_sdk ''8.0.100+a'' 100)"
    and "parse_sdk_version ''8.0.100'' = Inr (example_sdk ''8.0.100'' 100)"
  by (simp_all add: parse_sdk_version_def parse_numeric_part_def validate_identifiers_def nth_part_def
      example_sdk_def str_eval)

theorem sdk_version_order_witness:
  "sdk_cmp (example_sdk ''8.0.100+a'' 100) (example_sdk ''8.0.100'' 100) = Equal"
proof -
  have "precedence_text ''8.0.100+a'' = precedence_text ''8.0.100''" by (simp add: precedence_text_def)
  with sdk_version_order [of "example_sdk ''8.0.100'' 100" "example_sdk ''8.0.100+a'' 100" _ "''8.0.100+a''" "''8.0.100''"]
    parse_example_sdk show ?thesis by blast
qed

text \<open>The packed prerelease span of a parsed version never makes the accessor slice out of
  range, and the version keeps its text: everything before the build metadata is the three
  canonical numbers and, after a hyphen, the non-empty prerelease the accessor returns.\<close>

theorem sdk_version_spans:
  assumes "parse_sdk_version s = (Inr v :: 'io sdk_error + sdk_version)"
  shows "sv_text v = s
    \<and> (is_prerelease v \<longrightarrow> unat (sv_prerelease_start v) \<le> unat (sv_prerelease_end v)
         \<and> unat (sv_prerelease_end v) \<le> length (sv_text v))
    \<and> sv_prerelease v \<noteq> Some []
    \<and> precedence_text s = numbers_text v @ (case sv_prerelease v of None \<Rightarrow> [] | Some p \<Rightarrow> CHR ''-'' # p)"
  using parse_sdk_version_parts [OF assms] by blast

theorem sdk_version_spans_witness:
  "sv_text (example_sdk ''8.0.100'' 100) = ''8.0.100'' \<and> sv_prerelease (example_sdk ''8.0.100'' 100) \<noteq> Some []"
  using sdk_version_spans [OF parse_example_sdk(2)] by blast

section \<open>Stripping comments\<close>

text \<open>What stripping may do to a byte: keep it, or blank it unless it is a line break.\<close>

definition blanked :: "char \<Rightarrow> char \<Rightarrow> bool" where
  "blanked a b \<longleftrightarrow> b = a \<or> b = CHR '' '' \<and> a \<noteq> newline"

lemma blanked_refl [simp]: "blanked a a"
  by (simp add: blanked_def)

lemma list_all2_blanked_refl [simp]: "list_all2 blanked s s"
  by (simp add: list_all2_refl)

lemma line_comment_split:
  "line_comment bs = (out, rest) \<Longrightarrow>
     \<exists>skipped. bs = skipped @ rest \<and> newline \<notin> set skipped \<and> out = map (\<lambda>_. CHR '' '') skipped
       \<and> (rest = [] \<or> hd rest = newline)"
proof (induction bs arbitrary: out rest)
  case (Cons b bs)
  show ?case
  proof (cases "b = newline")
    case False
    obtain o' r where r: "line_comment bs = (o', r)" by fastforce
    with Cons.prems False have "out = CHR '' '' # o'" "rest = r" by simp_all
    with Cons.IH [OF r] False show ?thesis by (metis append_Cons list.simps(9) set_ConsD)
  qed (use Cons.prems in auto)
qed simp

lemma block_comment_split:
  "block_comment bs = Some (out, rest) \<Longrightarrow>
     \<exists>skipped. bs = skipped @ ''*/'' @ rest
       \<and> out = map (\<lambda>b. if b = newline then newline else CHR '' '') skipped @ ''  ''"
proof (induction bs arbitrary: out rest)
  case (Cons b bs)
  show ?case
  proof (cases "b = CHR ''*'' \<and> nth_part bs 0 = Some CHR ''/''")
    case True
    with Cons.prems have "out = ''  ''" "rest = tl bs" by simp_all
    moreover have "bs = CHR ''/'' # tl bs" using True by (cases bs) (auto simp: nth_part_def)
    ultimately show ?thesis using True by (intro exI [of _ "[]"]) simp
  next
    case False
    with Cons.prems obtain o' where o: "block_comment bs = Some (o', rest)"
      "out = (if b = newline then newline else CHR '' '') # o'"
      by (auto simp del: nth_part_def split: if_splits)
    from Cons.IH [OF o(1)] obtain skipped where
      "bs = skipped @ ''*/'' @ rest" "o' = map (\<lambda>b. if b = newline then newline else CHR '' '') skipped @ ''  ''"
      by blast
    with o(2) show ?thesis by (intro exI [of _ "b # skipped"]) simp
  qed
qed simp

lemma list_all2_blanked_map:
  "(\<And>b. b \<in> set s \<Longrightarrow> blanked b (f b)) \<Longrightarrow> list_all2 blanked s (map f s)"
  by (induction s) simp_all

lemma nth_part_0: "nth_part bs 0 = Some c \<longleftrightarrow> (\<exists>r. bs = c # r)"
  by (cases bs) (auto simp: nth_part_def)

definition blank :: "char \<Rightarrow> char" where
  "blank b = (if b = newline then newline else CHR '' '')"

lemma newline_neq [simp]:
  "newline \<noteq> CHR ''/''" "newline \<noteq> CHR ''*''" "newline \<noteq> CHR '' ''" "newline \<noteq> CHR 0x22"
  "CHR ''/'' \<noteq> newline" "CHR ''*'' \<noteq> newline" "CHR '' '' \<noteq> newline" "CHR 0x22 \<noteq> newline"
  by (simp_all add: newline_def)

text \<open>One step of the scanner: a byte that is copied, or a comment that is blanked.\<close>

inductive scan_step :: "bool \<times> bool \<times> string \<Rightarrow> string \<Rightarrow> string \<Rightarrow> bool \<times> bool \<times> string \<Rightarrow> bool" where
  copy: "\<lbrakk>\<not> q \<longrightarrow> b = CHR ''/'' \<longrightarrow> nth_part bs 0 \<notin> {Some CHR ''/'', Some CHR ''*''};
          q' = (if q then e \<or> b \<noteq> CHR 0x22 else b = CHR 0x22);
          e' = (if q then \<not> e \<and> b = CHR 0x5C else e)\<rbrakk>
     \<Longrightarrow> scan_step (q, e, b # bs) [b] [b] (q', e', bs)"
| comment: "\<lbrakk>rest = [] \<or> hd rest = newline \<or> (\<exists>x. skipped = x @ ''*/'')\<rbrakk>
     \<Longrightarrow> scan_step (False, e, CHR ''/'' # skipped @ rest) (CHR ''/'' # skipped) (CHR '' '' # map blank skipped) (False, e, rest)"

lemma strip_scan_step:
  assumes "strip_scan q e s = Inr out" and "s \<noteq> []"
  obtains r w q' e' s' out' where "scan_step (q, e, s) r w (q', e', s')" and "s = r @ s'" and "out = w @ out'"
    and "strip_scan q' e' s' = Inr out'" and "length s' < length s"
proof -
  obtain b bs where s: "s = b # bs" using assms(2) by (cases s) auto
  consider (copy) "q \<or> b \<noteq> CHR ''/'' \<or> nth_part bs 0 \<notin> {Some CHR ''/'', Some CHR ''*''}"
    | (line) r where "\<not> q" "b = CHR ''/''" "bs = CHR ''/'' # r"
    | (block) r where "\<not> q" "b = CHR ''/''" "bs = CHR ''*'' # r"
    by (auto simp: nth_part_0)
  then show ?thesis
  proof cases
    case copy
    let ?q = "if q then e \<or> b \<noteq> CHR 0x22 else b = CHR 0x22"
    let ?e = "if q then \<not> e \<and> b = CHR 0x5C else e"
    have "rbind (strip_scan ?q ?e bs) (\<lambda>out. Inr (b # out)) = Inr out"
      using assms(1) copy unfolding s by (auto split: if_splits)
    then obtain out' where "strip_scan ?q ?e bs = Inr out'" "out = [b] @ out'" by (auto simp: rbind_eq_Inr)
    moreover have "scan_step (q, e, s) [b] [b] (?q, ?e, bs)" unfolding s using copy by (intro scan_step.copy) auto
    ultimately show ?thesis using s by (intro that [of "[b]" "[b]" ?q ?e bs out']) simp_all
  next
    case line
    obtain o' rest where l: "line_comment r = (o', rest)" by fastforce
    then obtain skipped where sk: "r = skipped @ rest" "newline \<notin> set skipped" "o' = map (\<lambda>_. CHR '' '') skipped"
      "rest = [] \<or> hd rest = newline" using line_comment_split by blast
    from assms(1) line l obtain out' where o: "strip_scan False e rest = Inr out'" "out = ''  '' @ o' @ out'"
      unfolding s by (auto simp: nth_part_0 rbind_eq_Inr)
    have "o' = map blank skipped" using sk(2,3) by (auto simp: blank_def)
    moreover have "scan_step (False, e, CHR ''/'' # (CHR ''/'' # skipped) @ rest) (CHR ''/'' # CHR ''/'' # skipped)
        (CHR '' '' # map blank (CHR ''/'' # skipped)) (False, e, rest)"
      using sk(4) by (intro scan_step.comment) blast
    ultimately show ?thesis using that [of _ _ False e rest out'] o line sk(1) s by (simp add: blank_def)
  next
    case block
    from assms(1) block obtain o' rest out' where l: "block_comment r = Some (o', rest)"
      and o: "strip_scan False e rest = Inr out'" "out = ''  '' @ o' @ out'"
      unfolding s by (auto simp: nth_part_0 rbind_eq_Inr split: option.splits)
    from block_comment_split [OF l] obtain skipped where sk: "r = skipped @ ''*/'' @ rest"
      "o' = map blank skipped @ ''  ''" unfolding blank_def [abs_def] by blast
    have "scan_step (False, e, CHR ''/'' # (CHR ''*'' # skipped @ ''*/'') @ rest) (CHR ''/'' # CHR ''*'' # skipped @ ''*/'')
        (CHR '' '' # map blank (CHR ''*'' # skipped @ ''*/'')) (False, e, rest)"
      by (intro scan_step.comment) (auto intro: exI [of _ "CHR ''*'' # skipped"])
    then show ?thesis using that [of _ _ False e rest out'] o block sk s by (simp add: blank_def)
  qed
qed

text \<open>Induction over the steps of a successful scan.\<close>

lemma strip_scan_induct [consumes 1, case_names finish step]:
  assumes "strip_scan q e s = Inr out"
    and "\<And>q e. P q e [] []"
    and "\<And>q e s r w q' e' s' out'. scan_step (q, e, s) r w (q', e', s') \<Longrightarrow> s = r @ s' \<Longrightarrow>
           strip_scan q' e' s' = Inr out' \<Longrightarrow> P q' e' s' out' \<Longrightarrow> P q e s (w @ out')"
  shows "P q e s out"
  using assms(1)
proof (induction s arbitrary: q e out rule: length_induct)
  case (1 s)
  show ?case
  proof (cases "s = []")
    case True
    with 1 assms(2) show ?thesis by simp
  next
    case False
    obtain r w q' e' s' out' where st: "scan_step (q, e, s) r w (q', e', s')" "s = r @ s'" "out = w @ out'"
      "strip_scan q' e' s' = Inr out'" "length s' < length s"
      by (rule strip_scan_step [OF "1.prems" False]) (rule that)
    with "1.IH" have "P q' e' s' out'" by blast
    with assms(3) [OF st(1,2,4)] st(3) show ?thesis by simp
  qed
qed

lemma blanked_blank [simp]: "blanked b (blank b)"
  by (simp add: blanked_def blank_def)

lemma scan_step_blanked: "scan_step x r w y \<Longrightarrow> list_all2 blanked r w"
  by (induction rule: scan_step.induct) (simp_all add: list_all2_blanked_map, simp_all add: blanked_def)

lemma strip_scan_blanked: "strip_scan q e s = Inr out \<Longrightarrow> list_all2 blanked s out"
  by (induction rule: strip_scan_induct) (auto intro: list_all2_appendI dest: scan_step_blanked)

lemma strip_scan_blank_prefix:
  "strip_scan False e (map blank s @ t) = rbind (strip_scan False e t) (\<lambda>out. Inr (map blank s @ out))"
proof (induction s)
  case Nil
  show ?case by (cases "strip_scan False e t") simp_all
next
  case (Cons b s)
  then show ?case by (cases "strip_scan False e t") (simp_all add: blank_def)
qed

lemma blanked_slash: "blanked a b \<Longrightarrow> b \<in> {CHR ''/'', CHR ''*''} \<Longrightarrow> a = b"
  by (auto simp: blanked_def)

lemma strip_scan_idem: "strip_scan q e s = Inr out \<Longrightarrow> strip_scan q e out = Inr out"
proof (induction rule: strip_scan_induct)
  case (step q e s r w q' e' s' out')
  from step.hyps(1) show ?case
  proof cases
    case (copy b)
    have first: "nth_part s' 0 = Some c" if "nth_part out' 0 = Some c" "c \<in> {CHR ''/'', CHR ''*''}" for c
    proof -
      from that(1) obtain r where "out' = c # r" by (auto simp: nth_part_0)
      with strip_scan_blanked [OF step.hyps(3)] obtain a r' where "s' = a # r'" "blanked a c"
        by (auto simp: list_all2_Cons2)
      with blanked_slash [of a c] that(2) show ?thesis by (simp add: nth_part_0)
    qed
    have "\<not> q \<longrightarrow> b = CHR ''/'' \<longrightarrow> nth_part out' 0 \<notin> {Some CHR ''/'', Some CHR ''*''}"
      using copy first by auto
    then have "strip_scan q e (b # out') = rbind (strip_scan q' e' out') (\<lambda>out. Inr (b # out))"
      using copy by (cases q; cases "b = CHR ''/''"; simp)
    then show ?thesis using copy step.IH by simp
  next
    case (comment skipped)
    have "CHR '' '' # map blank skipped = map blank (CHR ''/'' # skipped)" by (simp add: blank_def)
    then show ?thesis using comment step.IH strip_scan_blank_prefix [of e "CHR ''/'' # skipped" out'] by simp
  qed
qed simp

section \<open>Stripping and UTF-8\<close>

declare utf8_run.simps(2) [simp del]

definition continuing :: "(nat \<times> nat) list \<Rightarrow> bool" where
  "continuing p \<longleftrightarrow> (\<forall>(lo, hi) \<in> set p. 128 \<le> lo)"

definition ascii :: "char \<Rightarrow> bool" where
  "ascii c \<longleftrightarrow> (of_char c :: nat) < 128"

lemma continuing_simps [simp]:
  shows "continuing []" and "continuing ((lo, hi) # p) \<longleftrightarrow> 128 \<le> lo \<and> continuing p"
  by (auto simp: continuing_def)

lemma utf8_follow_continuing: "utf8_follow b = Some p \<Longrightarrow> continuing p"
  by (auto simp: utf8_follow_def split: if_splits)

lemma utf8_run_ascii: "continuing p \<Longrightarrow> ascii c \<Longrightarrow> utf8_run p (c # s) \<longleftrightarrow> p = [] \<and> utf8_run [] s"
  by (cases p) (auto simp: ascii_def utf8_follow_def utf8_run.simps(2))

lemma utf8_run_append_ascii:
  "continuing p \<Longrightarrow> s = [] \<or> ascii (hd s) \<Longrightarrow> utf8_run p (r @ s) \<longleftrightarrow> utf8_run p r \<and> utf8_run [] s"
proof (induction p r rule: utf8_run.induct)
  case (1 p)
  then show ?case by (cases s) (auto simp: utf8_run_ascii)
next
  case (2 c r)
  then show ?case by (auto simp: utf8_run.simps(2) utf8_follow_continuing split: option.splits)
qed simp

lemma utf8_run_all_ascii: "list_all ascii r \<Longrightarrow> utf8_run [] (r @ s) \<longleftrightarrow> utf8_run [] s"
  by (induction r) (simp_all add: utf8_run_ascii)

lemma ascii_blank [simp]: "ascii (blank b)" "ascii CHR ''/''" "ascii CHR ''*''" "ascii newline" "ascii CHR '' ''"
  by (simp_all add: ascii_def blank_def newline_def)

lemma scan_step_utf8:
  assumes "scan_step (q, e, s) r w (q', e', s')" and "s = r @ s'" and "continuing p" and "utf8_run p s"
  obtains p' where "continuing p'" and "utf8_run p' s'" and "\<And>out. utf8_run p' out \<Longrightarrow> utf8_run p (w @ out)"
  using assms(1)
proof cases
  case (copy b)
  show ?thesis
  proof (cases p)
    case Nil
    with assms(4) copy obtain p' where "utf8_follow (of_char b) = Some p'" "utf8_run p' s'"
      by (auto simp: utf8_run.simps(2) split: option.splits)
    with Nil copy that [of p'] show ?thesis by (simp add: utf8_follow_continuing utf8_run.simps(2))
  next
    case (Cons lh p')
    with assms(3,4) copy that [of p'] show ?thesis by (cases lh) simp
  qed
next
  case (comment skipped)
  have p: "p = []" and run: "utf8_run [] (skipped @ s')"
    using assms(3,4) comment by (simp_all add: utf8_run_ascii)
  have "utf8_run [] s'"
  proof (cases "s' = [] \<or> hd s' = newline")
    case True
    then have "s' = [] \<or> ascii (hd s')" by auto
    with utf8_run_append_ascii [of "[]" s' skipped] run show ?thesis by simp
  next
    case False
    with comment obtain x where "skipped = x @ ''*/''" by blast
    with run utf8_run_append_ascii [of "[]" "''*/'' @ s'" x] show ?thesis by (simp add: utf8_run_ascii)
  qed
  moreover have "list_all ascii w" using comment by (simp add: list_all_iff)
  ultimately show ?thesis using that [of "[]"] p by (simp add: utf8_run_all_ascii)
qed

lemma strip_scan_utf8: "strip_scan q e s = Inr out \<Longrightarrow> continuing p \<Longrightarrow> utf8_run p s \<Longrightarrow> utf8_run p out"
proof (induction arbitrary: p rule: strip_scan_induct)
  case (step q e s r w q' e' s' out')
  obtain p' where "continuing p'" "utf8_run p' s'" "\<And>out. utf8_run p' out \<Longrightarrow> utf8_run p (w @ out)"
    by (rule scan_step_utf8 [OF step.hyps(1,2) step.prems]) (rule that)
  with step.IH show ?case by blast
qed simp

lemma strip_scan_Inl: "strip_scan q e s = Inl m \<Longrightarrow> m = unterminated"
proof (induction q e s rule: strip_scan.induct)
  case (2 q e b bs)
  then show ?case by (auto simp: rbind_eq_Inl split: if_splits option.splits prod.splits)
qed simp

lemma strip_scan_no_slash: "CHR ''/'' \<notin> set s \<Longrightarrow> strip_scan q e s = Inr s"
  by (induction q e s rule: strip_scan.induct) auto

lemma strip_scan_string:
  "CHR 0x22 \<notin> set lit \<Longrightarrow> CHR 0x5C \<notin> set lit \<Longrightarrow>
    strip_scan True False (lit @ CHR 0x22 # t) = rbind (strip_scan False False t) (\<lambda>out. Inr (lit @ CHR 0x22 # out))"
  by (induction lit) (auto simp: rbind_def split: sum.splits)



end
