(* ===== verification/Sdk_Discovery.thy ===== *)
theory Sdk_Discovery
  imports Sdk_Version
begin

text \<open>
  \<open>crates/dv-core/src/sdk.rs\<close>, the part that reads the machine: installation roots, the inventory
  of SDKs and shared runtimes, and the choice of an SDK under the policy of \<open>global.json\<close>.
  Paths, the file system and the environment are records of functions; an I/O result is a value of
  them, so an error is a branch of the model.
\<close>

section \<open>The machine\<close>

record ('p, 'io) fs_entry =
  fe_name :: "string option"
  fe_path :: 'p
  fe_is_dir :: "'io + bool"

record ('p, 'io) machine =
  path_of :: "string \<Rightarrow> 'p"
  path_join :: "'p \<Rightarrow> string \<Rightarrow> 'p"
  path_parent :: "'p \<Rightarrow> 'p option"
  path_text :: "'p \<Rightarrow> string"
  path_is_absolute :: "'p \<Rightarrow> bool"
  canonicalize :: "'p \<Rightarrow> 'io + 'p"
  is_file :: "'p \<Rightarrow> bool"
  is_dir :: "'p \<Rightarrow> bool"
  read_dir :: "'p \<Rightarrow> 'io + ('io + ('p, 'io) fs_entry) list"
  read_file :: "'p \<Rightarrow> 'io + string"
  not_found :: "'io \<Rightarrow> bool"
  env_var :: "string \<Rightarrow> string option"
  split_paths :: "string \<Rightarrow> 'p list"
  registered_root :: "dotnet_architecture \<Rightarrow> 'p option"
  arch_const :: string
  exe_suffix :: string
  cfg_windows :: bool
  cfg_macos :: bool

definition io_error :: "('p, 'io) machine \<Rightarrow> string \<Rightarrow> 'p \<Rightarrow> 'io \<Rightarrow> 'io sdk_error" where
  "io_error m operation path e = mk_sdk_error Io (IoFailure operation (path_text m path) e)"

section \<open>Roots\<close>

definition trim_end_slashes :: "string \<Rightarrow> string" where
  "trim_end_slashes s = rev (dropWhile (\<lambda>c. c = CHR 0x5C \<or> c = CHR ''/'') (rev s))"

definition paths_equal :: "('p, 'io) machine \<Rightarrow> 'p \<Rightarrow> 'p \<Rightarrow> bool" where
  "paths_equal m left right =
     (let left_text = trim_end_slashes (path_text m left);
          right_text = trim_end_slashes (path_text m right)
      in if left_text = right_text then True
         else if \<not> eq_ignore_case left_text right_text then False
         else (case canonicalize m left of
             Inl _ \<Rightarrow> False
           | Inr l \<Rightarrow> (case canonicalize m right of Inl _ \<Rightarrow> False | Inr r \<Rightarrow> l = r)))"

definition push_unique_path :: "('p, 'io) machine \<Rightarrow> 'p list \<Rightarrow> 'p \<Rightarrow> 'p list" where
  "push_unique_path m paths path =
     (if \<not> list_ex (\<lambda>existing. paths_equal m existing path) paths then paths @ [path] else paths)"

definition push_existing_root :: "('p, 'io) machine \<Rightarrow> 'p list \<Rightarrow> 'p \<Rightarrow> 'p list" where
  "push_existing_root m roots root =
     (let host = path_join m root (''dotnet'' @ exe_suffix m)
      in if is_file m host \<or> is_dir m (path_join m root ''sdk'') \<or> is_dir m (path_join m root ''shared'')
         then push_unique_path m roots root else roots)"

fun path_root :: "('p, 'io) machine \<Rightarrow> 'p list \<Rightarrow> 'p option" where
  "path_root m [] = None"
| "path_root m (directory # rest) =
     (let executable = path_join m directory (''dotnet'' @ exe_suffix m)
      in if is_file m executable
         then Some (if cfg_windows m then directory
                    else (case canonicalize m executable of
                        Inl _ \<Rightarrow> directory
                      | Inr p \<Rightarrow> (case path_parent m p of None \<Rightarrow> directory | Some q \<Rightarrow> q)))
         else path_root m rest)"

fun first_existing :: "('p, 'io) machine \<Rightarrow> 'p list \<Rightarrow> string list \<Rightarrow> 'p list" where
  "first_existing m roots [] = roots"
| "first_existing m roots (r # rest) =
     (let roots' = push_existing_root m roots (path_of m r)
      in if roots' \<noteq> [] then roots' else first_existing m roots' rest)"

definition push_env_root :: "('p, 'io) machine \<Rightarrow> 'p list \<Rightarrow> string option \<Rightarrow> 'p list" where
  "push_env_root m roots v =
     (case v of None \<Rightarrow> roots | Some root \<Rightarrow> push_existing_root m roots (path_of m root))"

definition discover_host_roots :: "('p, 'io) machine \<Rightarrow> 'p list" where
  "discover_host_roots m =
     (case Option.bind (env_var m ''PATH'') (\<lambda>path. path_root m (split_paths m path)) of
        Some root \<Rightarrow> push_unique_path m [] root
      | None \<Rightarrow>
          (let roots = push_env_root m []
                 (Option.bind (dotnet_root_architecture (arch_const m)) (\<lambda>a. env_var m (''DOTNET_ROOT_'' @ a)))
           in if roots \<noteq> [] then roots
           else let roots = push_env_root m roots (env_var m ''DOTNET_ROOT'')
           in if roots \<noteq> [] then roots
           else if cfg_windows m
           then (case env_var m ''ProgramFiles'' of
                   None \<Rightarrow> roots
                 | Some program_files \<Rightarrow>
                     push_existing_root m roots (path_join m (path_of m program_files) ''dotnet''))
           else first_existing m roots [''/usr/share/dotnet'', ''/usr/lib/dotnet'', ''/usr/local/share/dotnet'']))"

text \<open>On Windows the registry is the field \<open>registered_root\<close>; elsewhere the first line of a file.\<close>

definition registered_architecture_root :: "('p, 'io) machine \<Rightarrow> dotnet_architecture \<Rightarrow> 'p option" where
  "registered_architecture_root m architecture =
     (if cfg_windows m then registered_root m architecture
      else (case read_file m (path_of m (''/etc/dotnet/install_location_'' @ architecture_str architecture)) of
          Inl _ \<Rightarrow> None
        | Inr content \<Rightarrow>
            (let line = takeWhile (\<lambda>c. c \<noteq> newline) content
             in if \<not> valid_utf8 line then None
                else if line \<noteq> [] then Some (path_of m line) else None)))"

definition windows_native_architecture_is_arm64 :: "('p, 'io) machine \<Rightarrow> bool" where
  "windows_native_architecture_is_arm64 m =
     list_ex (\<lambda>name. case env_var m name of None \<Rightarrow> False | Some v \<Rightarrow> eq_ignore_case v ''ARM64'')
       [''PROCESSOR_ARCHITEW6432'', ''PROCESSOR_ARCHITECTURE'']"

definition default_architecture_root :: "('p, 'io) machine \<Rightarrow> dotnet_architecture \<Rightarrow> 'p option" where
  "default_architecture_root m architecture =
     (let current = current_architecture (arch_const m) in
      if cfg_windows m
      then Option.bind current (\<lambda>current.
           Option.bind
             (if current = X64 \<and> architecture = X86 then env_var m ''ProgramFiles(x86)''
              else if current = Arm64 \<and> architecture = X64 then env_var m ''ProgramFiles''
              else if current = X86 \<and> architecture = X64 then env_var m ''ProgramW6432''
              else if current = X64 \<and> architecture = Arm64 \<and> windows_native_architecture_is_arm64 m
              then env_var m ''ProgramFiles'' else None) (\<lambda>program_files.
             (let root = path_join m (path_of m program_files) ''dotnet''
              in Some (if current = Arm64 \<and> architecture = X64 then path_join m root ''x64'' else root))))
      else if cfg_macos m
      then (if current = Some Arm64 \<and> architecture = X64
            then Some (path_of m ''/usr/local/share/dotnet/x64'') else None)
      else None)"

definition discover_architecture_roots :: "('p, 'io) machine \<Rightarrow> dotnet_architecture \<Rightarrow> 'p list" where
  "discover_architecture_roots m architecture =
     (case registered_architecture_root m architecture of
        Some root \<Rightarrow> [root]
      | None \<Rightarrow> (case default_architecture_root m architecture of
            None \<Rightarrow> []
          | Some root \<Rightarrow> if is_dir m root then [root] else []))"

section \<open>The SDK inventory\<close>

definition MAX_SDK_INSTALLATIONS :: nat where
  "MAX_SDK_INSTALLATIONS = 4096"

record sdk_installation =
  si_version :: sdk_version
  si_root_index :: u16

text \<open>One entry of a root's \<open>sdk\<close> directory; a name that is no version is passed over.\<close>

definition scan_sdk_entry ::
    "('p, 'io) machine \<Rightarrow> 'p \<Rightarrow> nat \<Rightarrow> sdk_installation list \<Rightarrow> 'io + ('p, 'io) fs_entry \<Rightarrow>
     'io sdk_error + sdk_installation list" where
  "scan_sdk_entry m sdk_directory root_index installations item =
     rbind (map_error (io_error m ''enumerate'' sdk_directory) item) (\<lambda>entry.
     rbind (map_error (io_error m ''inspect'' (fe_path entry)) (fe_is_dir entry)) (\<lambda>dir.
       if \<not> dir then Inr installations
       else (case fe_name entry of
           None \<Rightarrow> Inr installations
         | Some name \<Rightarrow> (case parse_sdk_version name :: 'io sdk_error + sdk_version of
             Inl _ \<Rightarrow> Inr installations
           | Inr version \<Rightarrow>
               if \<not> is_file m (path_join m (fe_path entry) ''dotnet.dll'') then Inr installations
               else if length installations = MAX_SDK_INSTALLATIONS
               then Inl (mk_sdk_error Io TooManySdks)
               else Inr (installations @ [\<lparr>si_version = version, si_root_index = of_nat root_index\<rparr>])))))"

definition scan_sdk_root ::
    "('p, 'io) machine \<Rightarrow> sdk_installation list \<Rightarrow> nat \<times> 'p \<Rightarrow> 'io sdk_error + sdk_installation list" where
  "scan_sdk_root m installations indexed =
     (case indexed of (root_index, root) \<Rightarrow>
       let sdk_directory = path_join m root ''sdk'' in
       case read_dir m sdk_directory of
         Inl e \<Rightarrow> if not_found m e then Inr installations else Inl (io_error m ''enumerate'' sdk_directory e)
       | Inr entries \<Rightarrow> try_fold (scan_sdk_entry m sdk_directory root_index) installations entries)"

definition installation_cmp :: "sdk_installation \<Rightarrow> sdk_installation \<Rightarrow> ordering" where
  "installation_cmp left right =
     then_with (rust_cmp (si_root_index left) (si_root_index right)) (sdk_cmp (si_version left) (si_version right))"

definition discover_installations ::
    "('p, 'io) machine \<Rightarrow> 'p list \<Rightarrow> 'io sdk_error + sdk_installation list" where
  "discover_installations m roots =
     (if 65535 < length roots then Inl (mk_sdk_error GlobalJsonError TooManySdkRoots)
      else rbind (try_fold (scan_sdk_root m) [] (List.enumerate 0 roots))
        (\<lambda>installations. Inr (sort_by installation_cmp installations)))"

section \<open>The choice of an SDK\<close>

datatype roll_forward =
  Patch | Feature | Minor | Major | LatestPatch | LatestFeature | LatestMinor | LatestMajor | Disable

definition same_feature_band :: "sdk_version \<Rightarrow> sdk_version \<Rightarrow> bool" where
  "same_feature_band left right \<longleftrightarrow>
     sv_major left = sv_major right \<and> sv_minor left = sv_minor right \<and> feature_band left = feature_band right"

definition sdk_ge :: "sdk_version \<Rightarrow> sdk_version \<Rightarrow> bool" where
  "sdk_ge a b \<longleftrightarrow> sdk_cmp a b \<noteq> Less"

definition max_version :: "(nat \<times> sdk_installation) list \<Rightarrow> nat option" where
  "max_version candidates =
     map_option fst (max_by (\<lambda>a b. sdk_cmp (si_version (snd a)) (si_version (snd b))) candidates)"

definition nearest_cmp ::
    "(sdk_version \<Rightarrow> nat list) \<Rightarrow> nat \<times> sdk_installation \<Rightarrow> nat \<times> sdk_installation \<Rightarrow> ordering" where
  "nearest_cmp grp left right =
     then_with (rust_cmp (grp (si_version (snd left))) (grp (si_version (snd right))))
       (sdk_cmp (si_version (snd right)) (si_version (snd left)))"

definition select_nearest_group ::
    "(sdk_version \<Rightarrow> nat list) \<Rightarrow> (nat \<times> sdk_installation) list \<Rightarrow> nat option" where
  "select_nearest_group grp candidates = map_option fst (min_by (nearest_cmp grp) candidates)"

definition root_candidates :: "sdk_installation list \<Rightarrow> u16 \<Rightarrow> bool \<Rightarrow> (nat \<times> sdk_installation) list" where
  "root_candidates installations root_index allow_prerelease =
     filter (\<lambda>(_, i). allow_prerelease \<or> \<not> is_prerelease (si_version i))
       (filter (\<lambda>(_, i). si_root_index i = root_index) (List.enumerate 0 installations))"

definition select_by_policy ::
    "(nat \<times> sdk_installation) list \<Rightarrow> sdk_version \<Rightarrow> roll_forward \<Rightarrow> nat option" where
  "select_by_policy candidates requested policy =
     (let keep = (\<lambda>P. filter (\<lambda>(_, i). P (si_version i)) candidates);
          same_minor = (\<lambda>v. sv_major v = sv_major requested \<and> sv_minor v = sv_minor requested \<and> sdk_ge v requested);
          same_major = (\<lambda>v. sv_major v = sv_major requested \<and> sdk_ge v requested);
          same_band = (\<lambda>v. same_feature_band v requested \<and> sdk_ge v requested)
      in case policy of
           Disable \<Rightarrow> (case keep (\<lambda>v. sdk_cmp v requested = Equal) of [] \<Rightarrow> None | x # _ \<Rightarrow> Some (fst x))
         | Patch \<Rightarrow>
             (case List.find (\<lambda>(_, i). sdk_cmp (si_version i) requested = Equal) candidates of
                Some (index, _) \<Rightarrow> Some index
              | None \<Rightarrow> max_version (keep same_band))
         | LatestPatch \<Rightarrow> max_version (keep same_band)
         | LatestFeature \<Rightarrow> max_version (keep same_minor)
         | LatestMinor \<Rightarrow> max_version (keep same_major)
         | LatestMajor \<Rightarrow> max_version (keep (\<lambda>v. sdk_ge v requested))
         | Feature \<Rightarrow> select_nearest_group (\<lambda>v. [feature_band v, 0, 0]) (keep same_minor)
         | Minor \<Rightarrow> select_nearest_group (\<lambda>v. [sv_minor v, feature_band v, 0]) (keep same_major)
         | Major \<Rightarrow> select_nearest_group (\<lambda>v. [sv_major v, sv_minor v, feature_band v])
             (keep (\<lambda>v. sdk_ge v requested)))"

definition select_from_root ::
    "sdk_installation list \<Rightarrow> u16 \<Rightarrow> sdk_version option \<Rightarrow> roll_forward \<Rightarrow> bool \<Rightarrow> nat option" where
  "select_from_root installations root_index requested policy allow_prerelease =
     (let candidates = root_candidates installations root_index allow_prerelease
      in case requested of
           None \<Rightarrow> max_version candidates
         | Some r \<Rightarrow> select_by_policy candidates r policy)"

section \<open>\<open>global.json\<close>\<close>

record global_sdk =
  gs_version :: "string option"
  gs_roll_forward :: "roll_forward option"
  gs_allow_prerelease :: "bool option"
  gs_paths :: "string list option"
  gs_error_message :: "string option"

definition default_global_sdk :: global_sdk where
  "default_global_sdk = \<lparr>gs_version = None, gs_roll_forward = None, gs_allow_prerelease = None,
     gs_paths = None, gs_error_message = None\<rparr>"

text \<open>The JSON reader of \<open>serde_json\<close> is the argument \<open>from_json\<close>.\<close>

definition read_global_json ::
    "('p, 'io) machine \<Rightarrow> (string \<Rightarrow> string + global_sdk) \<Rightarrow> 'p \<Rightarrow> 'io sdk_error + global_sdk" where
  "read_global_json m from_json path =
     rbind (map_error (io_error m ''read'' path) (read_file m path)) (\<lambda>bytes.
       if \<not> valid_utf8 bytes then Inl (mk_sdk_error GlobalJsonError (NotUtf8 (path_text m path)))
       else let invalid = (\<lambda>message. mk_sdk_error GlobalJsonError (InvalidGlobalJson (path_text m path) message))
       in rbind (map_error invalid (strip_json_comments (strip_heads [[CHR 0xEF, CHR 0xBB, CHR 0xBF]] bytes)))
            (\<lambda>json. map_error invalid (from_json json)))"

definition resolve_root ::
    "('p, 'io) machine \<Rightarrow> 'p \<Rightarrow> 'p list \<Rightarrow> 'p list \<Rightarrow> string \<Rightarrow> 'io sdk_error + 'p list" where
  "resolve_root m global_directory host_roots roots path =
     (if path = ''$host$''
      then (case host_roots of
              [] \<Rightarrow> Inl (mk_sdk_error RootNotFound HostRootMissing)
            | host # _ \<Rightarrow> Inr (push_unique_path m roots host))
      else (let p = path_of m path;
                resolved = (if path_is_absolute m p then p else path_join m global_directory path)
            in Inr (push_unique_path m roots resolved)))"

definition resolve_search_roots ::
    "('p, 'io) machine \<Rightarrow> 'p option \<Rightarrow> global_sdk \<Rightarrow> 'p list \<Rightarrow> 'io sdk_error + 'p list" where
  "resolve_search_roots m global_json sdk host_roots =
     (case gs_paths sdk of
        None \<Rightarrow> Inr host_roots
      | Some paths \<Rightarrow>
          rbind (ok_or (mk_sdk_error GlobalJsonError PathsNeedGlobalJson) (Option.bind global_json (path_parent m)))
            (\<lambda>global_directory. try_fold (resolve_root m global_directory host_roots) [] paths))"

record 'p sdk_inventory =
  inv_roots :: "'p list"
  inv_installations :: "sdk_installation list"
  inv_selected_index :: nat
  inv_global_json :: "'p option"

definition inv_selected :: "'p sdk_inventory \<Rightarrow> sdk_installation" where
  "inv_selected inventory = inv_installations inventory ! inv_selected_index inventory"

definition inv_root :: "'p list \<Rightarrow> sdk_installation \<Rightarrow> 'p" where
  "inv_root roots i = roots ! unat (si_root_index i)"

definition inv_installation_path :: "('p, 'io) machine \<Rightarrow> 'p list \<Rightarrow> sdk_installation \<Rightarrow> 'p" where
  "inv_installation_path m roots i =
     path_join m (path_join m (inv_root roots i) ''sdk'') (sv_text (si_version i))"

fun roll_forward_name :: "roll_forward \<Rightarrow> string" where
  "roll_forward_name Patch = ''Patch''"
| "roll_forward_name Feature = ''Feature''"
| "roll_forward_name Minor = ''Minor''"
| "roll_forward_name Major = ''Major''"
| "roll_forward_name LatestPatch = ''LatestPatch''"
| "roll_forward_name LatestFeature = ''LatestFeature''"
| "roll_forward_name LatestMinor = ''LatestMinor''"
| "roll_forward_name LatestMajor = ''LatestMajor''"
| "roll_forward_name Disable = ''Disable''"

definition select_installation ::
    "sdk_installation list \<Rightarrow> 'p list \<Rightarrow> sdk_version option \<Rightarrow> roll_forward \<Rightarrow> bool \<Rightarrow> nat option" where
  "select_installation installations roots requested policy allow_prerelease =
     (case List.find (\<lambda>i. select_from_root installations (of_nat i) requested policy allow_prerelease \<noteq> None)
             [0..<length roots] of
        None \<Rightarrow> None
      | Some i \<Rightarrow> select_from_root installations (of_nat i) requested policy allow_prerelease)"

text \<open>The search for the nearest \<open>global.json\<close> has its own module; its outcome is the argument
  \<open>ancestor\<close>, an error already mapped to its SDK error kind by the code's four-way match.\<close>

datatype ancestor_error_kind = UnsupportedFileType | LimitExceeded | AncestorNotFound | AncestorIo

definition ancestor_sdk_kind :: "ancestor_error_kind \<Rightarrow> sdk_error_kind" where
  "ancestor_sdk_kind k = (case k of
       UnsupportedFileType \<Rightarrow> GlobalJsonError | LimitExceeded \<Rightarrow> GlobalJsonError
     | AncestorNotFound \<Rightarrow> Io | AncestorIo \<Rightarrow> Io)"

definition effective_policy :: "global_sdk \<Rightarrow> sdk_version option \<Rightarrow> roll_forward" where
  "effective_policy config requested =
     (case (gs_roll_forward config, requested) of
        (Some policy, _) \<Rightarrow> policy
      | (None, Some _) \<Rightarrow> Patch
      | (None, None) \<Rightarrow> LatestMajor)"

definition effective_prerelease :: "global_sdk \<Rightarrow> bool" where
  "effective_prerelease config = (case gs_allow_prerelease config of None \<Rightarrow> True | Some b \<Rightarrow> b)"

definition effective_config ::
    "('p, 'io) machine \<Rightarrow> (string \<Rightarrow> string + global_sdk) \<Rightarrow> 'p option \<Rightarrow> 'io sdk_error + global_sdk" where
  "effective_config m from_json global_json =
     (case global_json of None \<Rightarrow> Inr default_global_sdk | Some p \<Rightarrow> read_global_json m from_json p)"

definition requested_version :: "global_sdk \<Rightarrow> 'io sdk_error + sdk_version option" where
  "requested_version config =
     (case gs_version config of None \<Rightarrow> Inr None | Some v \<Rightarrow> rbind (parse_sdk_version v) (\<lambda>r. Inr (Some r)))"

definition discover_sdks_in_roots ::
    "('p, 'io) machine \<Rightarrow> (string \<Rightarrow> string + global_sdk) \<Rightarrow> (ancestor_error_kind \<times> string) + 'p option \<Rightarrow>
     'p list \<Rightarrow> 'io sdk_error + 'p sdk_inventory" where
  "discover_sdks_in_roots m from_json ancestor host_roots =
     rbind (map_error (\<lambda>(k, message). mk_sdk_error (ancestor_sdk_kind k) (CustomMessage message)) ancestor) (\<lambda>global_json.
     rbind (effective_config m from_json global_json) (\<lambda>config.
     rbind (resolve_search_roots m global_json config host_roots) (\<lambda>roots.
     rbind (discover_installations m roots) (\<lambda>installations.
     rbind (requested_version config) (\<lambda>requested.
     let policy = effective_policy config requested
     in if requested = None \<and> policy \<noteq> LatestMajor
        then Inl (mk_sdk_error GlobalJsonError VersionRequired)
        else let allow_prerelease = effective_prerelease config
        in rbind (ok_or (mk_sdk_error NoCompatibleSdk
                   (case gs_error_message config of
                      Some message \<Rightarrow> CustomMessage message
                    | None \<Rightarrow> NoSdkSatisfies
                        (case requested of None \<Rightarrow> ''<latest>'' | Some r \<Rightarrow> sv_text r) (roll_forward_name policy)))
                 (select_installation installations roots requested policy allow_prerelease))
             (\<lambda>selected. Inr \<lparr>inv_roots = roots, inv_installations = installations,
                inv_selected_index = selected, inv_global_json = global_json\<rparr>))))))"

definition discover_sdks ::
    "('p, 'io) machine \<Rightarrow> (string \<Rightarrow> string + global_sdk) \<Rightarrow> (ancestor_error_kind \<times> string) + 'p option \<Rightarrow>
     'io sdk_error + 'p sdk_inventory" where
  "discover_sdks m from_json ancestor =
     (let roots = discover_host_roots m in
      if roots = [] then Inl (mk_sdk_error RootNotFound NoRoot)
      else discover_sdks_in_roots m from_json ancestor roots)"

record 'p installed_sdk_inventory =
  ins_roots :: "'p list"
  ins_installations :: "sdk_installation list"

definition discover_installed_sdks :: "('p, 'io) machine \<Rightarrow> 'io sdk_error + 'p installed_sdk_inventory" where
  "discover_installed_sdks m =
     (let roots = discover_host_roots m in
      if roots = [] then Inl (mk_sdk_error RootNotFound NoRoot)
      else rbind (discover_installations m roots)
        (\<lambda>installations. Inr \<lparr>ins_roots = roots, ins_installations = installations\<rparr>))"

definition discover_installed_sdks_for_architecture ::
    "('p, 'io) machine \<Rightarrow> dotnet_architecture \<Rightarrow> 'io sdk_error + 'p installed_sdk_inventory" where
  "discover_installed_sdks_for_architecture m architecture =
     (if current_architecture (arch_const m) = Some architecture then discover_installed_sdks m
      else let roots = discover_architecture_roots m architecture in
        rbind (discover_installations m roots)
          (\<lambda>installations. Inr \<lparr>ins_roots = roots, ins_installations = installations\<rparr>))"

section \<open>Facts on roots\<close>

lemma push_unique_path_unique:
  "sorted_wrt (\<lambda>a b. \<not> paths_equal m a b) ps \<Longrightarrow> sorted_wrt (\<lambda>a b. \<not> paths_equal m a b) (push_unique_path m ps p)"
  by (auto simp: push_unique_path_def sorted_wrt_append list_ex_iff)

lemma push_unique_path_set: "set (push_unique_path m ps p) \<subseteq> insert p (set ps)" "set ps \<subseteq> set (push_unique_path m ps p)"
  by (auto simp: push_unique_path_def)

lemma paths_equal_refl [simp]: "paths_equal m p p"
  by (simp add: paths_equal_def)

lemma push_unique_path_covers: "\<exists>q \<in> set (push_unique_path m ps p). paths_equal m q p"
  by (auto simp: push_unique_path_def list_ex_iff)

section \<open>Facts on the inventory\<close>

text \<open>What it means for an SDK to be installed below a root.\<close>

definition installed :: "('p, 'io) machine \<Rightarrow> nat \<Rightarrow> 'p \<Rightarrow> sdk_installation \<Rightarrow> bool" where
  "installed m index root i \<longleftrightarrow>
     (\<exists>entries e name. read_dir m (path_join m root ''sdk'') = Inr entries \<and> Inr e \<in> set entries
        \<and> fe_is_dir e = Inr True \<and> fe_name e = Some name
        \<and> parse_sdk_version name = (Inr (si_version i) :: 'io sdk_error + sdk_version)
        \<and> is_file m (path_join m (fe_path e) ''dotnet.dll'') \<and> si_root_index i = of_nat index)"

definition entry_installs ::
    "('p, 'io) machine \<Rightarrow> nat \<Rightarrow> 'io + ('p, 'io) fs_entry \<Rightarrow> sdk_installation \<Rightarrow> bool" where
  "entry_installs m index item i \<longleftrightarrow>
     (\<exists>e name. item = Inr e \<and> fe_is_dir e = Inr True \<and> fe_name e = Some name
        \<and> parse_sdk_version name = (Inr (si_version i) :: 'io sdk_error + sdk_version)
        \<and> is_file m (path_join m (fe_path e) ''dotnet.dll'') \<and> si_root_index i = of_nat index)"

lemma scan_sdk_entry_set:
  fixes m :: "('p, 'io) machine"
  assumes "scan_sdk_entry m d index acc item = Inr acc'"
  shows "set acc' = set acc \<union> {i. entry_installs m index item i}"
    and "length acc \<le> MAX_SDK_INSTALLATIONS \<Longrightarrow> length acc' \<le> MAX_SDK_INSTALLATIONS"
proof -
  from assms obtain e dir where e: "item = Inr e" "fe_is_dir e = Inr dir"
    by (cases item; cases "fe_is_dir (projr item)") (auto simp: scan_sdk_entry_def)
  have "set acc' = set acc \<union> {i. entry_installs m index item i}
      \<and> (length acc \<le> MAX_SDK_INSTALLATIONS \<longrightarrow> length acc' \<le> MAX_SDK_INSTALLATIONS)"
  proof (cases "dir \<and> (\<exists>n v. fe_name e = Some n \<and> parse_sdk_version n = (Inr v :: 'io sdk_error + sdk_version)
      \<and> is_file m (path_join m (fe_path e) ''dotnet.dll''))")
    case True
    then obtain n v where n: "dir" "fe_name e = Some n" "parse_sdk_version n = (Inr v :: 'io sdk_error + sdk_version)"
      "is_file m (path_join m (fe_path e) ''dotnet.dll'')" by blast
    have "{i. entry_installs m index item i} = {\<lparr>si_version = v, si_root_index = of_nat index\<rparr>}"
      using e n by (auto simp: entry_installs_def)
    moreover have "acc' = acc @ [\<lparr>si_version = v, si_root_index = of_nat index\<rparr>] \<and> length acc \<noteq> MAX_SDK_INSTALLATIONS"
      using assms e n by (simp add: scan_sdk_entry_def split: if_split_asm)
    ultimately show ?thesis by auto
  next
    case False
    then have "acc' = acc"
      using assms e by (auto simp: scan_sdk_entry_def split: if_splits option.splits sum.splits)
    moreover have "{i. entry_installs m index item i} = {}"
      using False e by (auto simp: entry_installs_def)
    ultimately show ?thesis by simp
  qed
  then show "set acc' = set acc \<union> {i. entry_installs m index item i}"
    and "length acc \<le> MAX_SDK_INSTALLATIONS \<Longrightarrow> length acc' \<le> MAX_SDK_INSTALLATIONS" by blast+
qed

lemma try_fold_sets:
  assumes "try_fold f acc xs = Inr acc'"
    and "\<And>a x a'. x \<in> set xs \<Longrightarrow> f a x = Inr a' \<Longrightarrow> set a' = set a \<union> G x \<and> (length a \<le> n \<longrightarrow> length a' \<le> n)"
  shows "set acc' = set acc \<union> (\<Union>x \<in> set xs. G x) \<and> (length acc \<le> n \<longrightarrow> length acc' \<le> n)"
  using assms
proof (induction xs arbitrary: acc)
  case Nil
  then show ?case by simp
next
  case (Cons x xs)
  from Cons.prems(1) obtain a where a: "f acc x = Inr a" "try_fold f a xs = Inr acc'" by (auto simp: rbind_eq_Inr)
  have "set acc' = set a \<union> (\<Union>x \<in> set xs. G x) \<and> (length a \<le> n \<longrightarrow> length acc' \<le> n)"
    by (rule Cons.IH [OF a(2)]) (use Cons.prems(2) in auto)
  moreover have "set a = set acc \<union> G x \<and> (length acc \<le> n \<longrightarrow> length a \<le> n)"
    by (rule Cons.prems(2) [OF _ a(1)]) simp
  ultimately show ?case by auto
qed

lemma scan_sdk_root_set:
  fixes m :: "('p, 'io) machine"
  assumes "scan_sdk_root m acc (index, root) = Inr acc'"
  shows "set acc' = set acc \<union> {i. installed m index root i}
    \<and> (length acc \<le> MAX_SDK_INSTALLATIONS \<longrightarrow> length acc' \<le> MAX_SDK_INSTALLATIONS)"
proof (cases "read_dir m (path_join m root ''sdk'')")
  case (Inl e)
  with assms have "acc' = acc" by (auto simp: scan_sdk_root_def Let_def split: if_splits)
  moreover have "\<not> installed m index root i" for i using Inl by (simp add: installed_def)
  ultimately show ?thesis by simp
next
  case (Inr entries)
  with assms have "try_fold (scan_sdk_entry m (path_join m root ''sdk'') index) acc entries = Inr acc'"
    by (simp add: scan_sdk_root_def Let_def)
  then have "set acc' = set acc \<union> (\<Union>x \<in> set entries. {i. entry_installs m index x i})
      \<and> (length acc \<le> MAX_SDK_INSTALLATIONS \<longrightarrow> length acc' \<le> MAX_SDK_INSTALLATIONS)"
    by (rule try_fold_sets) (simp add: scan_sdk_entry_set)
  moreover have "(\<Union>x \<in> set entries. {i. entry_installs m index x i}) = {i. installed m index root i}"
    using Inr by (auto simp: installed_def entry_installs_def)
  ultimately show ?thesis by simp
qed

interpretation installation_ord: rust_ord installation_cmp
  unfolding installation_cmp_def [abs_def]
  by (intro rust_ord_then_with rust_ord_key rust_ord_on [of sdk_cmp si_version] sdk_ord.rust_ord_axioms)

text \<open>the inventory is complete, sound, bounded and deterministic in order: it holds exactly
  the directories below a root's \<open>sdk\<close> folder whose name is a version and which contain
  \<open>dotnet.dll\<close>, at most 4096 of them, by root and then by ascending version.\<close>

theorem discover_installations_correct:
  fixes m :: "('p, 'io) machine"
  assumes "discover_installations m roots = Inr installations"
  shows "set installations = {i. \<exists>index < length roots. installed m index (roots ! index) i}
    \<and> length installations \<le> MAX_SDK_INSTALLATIONS
    \<and> sorted_wrt (\<lambda>a b. installation_cmp a b \<noteq> Greater) installations"
proof -
  from assms obtain found where f: "try_fold (scan_sdk_root m) [] (List.enumerate 0 roots) = Inr found"
      and i: "installations = sort_by installation_cmp found"
    by (auto simp: discover_installations_def rbind_eq_Inr split: if_splits)
  from f have "set found = set [] \<union> (\<Union>x \<in> set (List.enumerate 0 roots). {i. installed m (fst x) (snd x) i})
      \<and> (length ([] :: sdk_installation list) \<le> MAX_SDK_INSTALLATIONS \<longrightarrow> length found \<le> MAX_SDK_INSTALLATIONS)"
    by (rule try_fold_sets) (metis prod.collapse scan_sdk_root_set)
  then have "set found = {i. \<exists>index < length roots. installed m index (roots ! index) i}
      \<and> length found \<le> MAX_SDK_INSTALLATIONS"
    by (auto simp: set_enumerate)
  with i show ?thesis by (simp add: installation_ord.sorted_sort_by)
qed

text \<open>A machine with one root that holds two SDKs and a directory that is none.\<close>

definition example_entry :: "string \<Rightarrow> (string, unit) fs_entry" where
  "example_entry name = \<lparr>fe_name = Some name, fe_path = ''/d/sdk/'' @ name, fe_is_dir = Inr True\<rparr>"

definition example_machine :: "(string, unit) machine" where
  "example_machine =
     \<lparr>path_of = id, path_join = (\<lambda>p s. p @ ''/'' @ s), path_parent = Some, path_text = id,
      path_is_absolute = (\<lambda>p. True), canonicalize = Inr, is_file = (\<lambda>p. True), is_dir = (\<lambda>p. True),
      read_dir = (\<lambda>p. Inr [Inr (example_entry ''8.0.100''), Inr (example_entry ''tools''), Inr (example_entry ''8.0.100+a'')]),
      read_file = (\<lambda>p. Inl ()), not_found = (\<lambda>_. True), env_var = (\<lambda>_. None), split_paths = (\<lambda>_. []),
      registered_root = (\<lambda>_. None), arch_const = ''x86_64'', exe_suffix = [], cfg_windows = False, cfg_macos = False\<rparr>"

lemma parse_tools: "parse_sdk_version ''tools'' = Inl (mk_sdk_error InvalidVersion (InvalidSdkVersion ''tools''))"
  by (simp add: parse_sdk_version_def parse_numeric_part_def validate_identifiers_def nth_part_def str_eval)

lemma discover_example:
  "discover_installations example_machine [''/d''] =
     Inr [\<lparr>si_version = example_sdk ''8.0.100'' 100, si_root_index = 0\<rparr>,
          \<lparr>si_version = example_sdk ''8.0.100+a'' 100, si_root_index = 0\<rparr>]"
proof -
  have "sdk_cmp (example_sdk ''8.0.100'' 100) (example_sdk ''8.0.100+a'' 100) = Equal"
    by (simp add: sdk_cmp_def example_sdk_def sv_prerelease_def is_prerelease_def compare_prerelease_def rust_cmp_def)
  then show ?thesis
    by (simp add: discover_installations_def scan_sdk_root_def scan_sdk_entry_def example_machine_def example_entry_def
        parse_example_sdk parse_tools MAX_SDK_INSTALLATIONS_def sort_by_def installation_cmp_def rust_cmp_def)
qed

theorem discover_installations_correct_witness:
  "length [\<lparr>si_version = example_sdk ''8.0.100'' 100, si_root_index = 0\<rparr>,
           \<lparr>si_version = example_sdk ''8.0.100+a'' 100, si_root_index = (0 :: u16)\<rparr>] \<le> MAX_SDK_INSTALLATIONS
   \<and> installed example_machine 0 ''/d'' \<lparr>si_version = example_sdk ''8.0.100'' 100, si_root_index = 0\<rparr>"
  using discover_installations_correct [OF discover_example] by auto

section \<open>Facts on the choice\<close>

text \<open>What a policy admits, and when it prefers one admitted version to another.\<close>

definition policy_admits :: "roll_forward \<Rightarrow> sdk_version \<Rightarrow> sdk_version \<Rightarrow> bool" where
  "policy_admits policy requested v \<longleftrightarrow>
     (case policy of
        Disable \<Rightarrow> sdk_cmp v requested = Equal
      | Patch \<Rightarrow> same_feature_band v requested \<and> sdk_ge v requested
      | LatestPatch \<Rightarrow> same_feature_band v requested \<and> sdk_ge v requested
      | Feature \<Rightarrow> sv_major v = sv_major requested \<and> sv_minor v = sv_minor requested \<and> sdk_ge v requested
      | LatestFeature \<Rightarrow> sv_major v = sv_major requested \<and> sv_minor v = sv_minor requested \<and> sdk_ge v requested
      | Minor \<Rightarrow> sv_major v = sv_major requested \<and> sdk_ge v requested
      | LatestMinor \<Rightarrow> sv_major v = sv_major requested \<and> sdk_ge v requested
      | Major \<Rightarrow> sdk_ge v requested
      | LatestMajor \<Rightarrow> sdk_ge v requested)"

definition policy_group :: "roll_forward \<Rightarrow> sdk_version \<Rightarrow> nat list" where
  "policy_group policy v =
     (case policy of
        Feature \<Rightarrow> [feature_band v, 0, 0]
      | Minor \<Rightarrow> [sv_minor v, feature_band v, 0]
      | Major \<Rightarrow> [sv_major v, sv_minor v, feature_band v]
      | _ \<Rightarrow> [])"

definition policy_prefers :: "roll_forward \<Rightarrow> sdk_version \<Rightarrow> sdk_version \<Rightarrow> sdk_version \<Rightarrow> bool" where
  "policy_prefers policy requested a b \<longleftrightarrow>
     policy = Patch \<and> sdk_cmp a requested = Equal
   \<or> (policy \<noteq> Patch \<or> sdk_cmp b requested \<noteq> Equal)
       \<and> (policy_group policy a < policy_group policy b
          \<or> policy_group policy a = policy_group policy b \<and> sdk_ge a b)"

lemma max_version_Some:
  assumes "max_version cs = Some i"
  shows "\<exists>s. (i, s) \<in> set cs \<and> (\<forall>(j, t) \<in> set cs. sdk_ge (si_version s) (si_version t))"
proof -
  from assms obtain p where p: "max_by (\<lambda>a b. sdk_cmp (si_version (snd a)) (si_version (snd b))) cs = Some p" "fst p = i"
    by (auto simp: max_version_def)
  have ord: "rust_ord (\<lambda>a b. sdk_cmp (si_version (snd a)) (si_version (snd b)))"
    by (rule rust_ord_on [of sdk_cmp "\<lambda>a. si_version (snd a)"]) (rule sdk_ord.rust_ord_axioms)
  have "sdk_ge (si_version (snd p)) (si_version (snd q))" if "q \<in> set cs" for q
    using rust_ord.max_by_upper [OF ord p(1) that] by (simp add: sdk_ge_def sdk_ord.not_greater_flip)
  with max_by_in [OF p(1)] p(2) show ?thesis by (intro exI [of _ "snd p"]) auto
qed

lemma max_version_None [simp]: "max_version cs = None \<longleftrightarrow> cs = []"
  by (simp add: max_version_def)

lemma select_nearest_group_None [simp]: "select_nearest_group grp cs = None \<longleftrightarrow> cs = []"
  by (simp add: select_nearest_group_def)

lemma select_nearest_group_Some:
  assumes "select_nearest_group grp cs = Some i"
  shows "\<exists>s. (i, s) \<in> set cs \<and> (\<forall>(j, t) \<in> set cs. grp (si_version s) < grp (si_version t)
           \<or> grp (si_version s) = grp (si_version t) \<and> sdk_ge (si_version s) (si_version t))"
proof -
  from assms obtain p where p: "min_by (nearest_cmp grp) cs = Some p" "fst p = i"
    unfolding select_nearest_group_def by blast
  have ord: "rust_ord (nearest_cmp grp)"
    unfolding nearest_cmp_def [abs_def]
    by (rule rust_ord_then_with [OF rust_ord_key [of "\<lambda>x. grp (si_version (snd x))"]
          rust_ord_flip [OF rust_ord_on [OF sdk_ord.rust_ord_axioms, of "\<lambda>a. si_version (snd a)"]]])
  have "grp (si_version (snd p)) < grp (si_version (snd q))
      \<or> grp (si_version (snd p)) = grp (si_version (snd q)) \<and> sdk_ge (si_version (snd p)) (si_version (snd q))"
    if "q \<in> set cs" for q
    using rust_ord.min_by_lower [OF ord p(1) that]
    by (simp add: nearest_cmp_def then_with_not_greater sdk_ge_def sdk_ord.not_greater_flip)
  with min_by_in [OF p(1)] p(2) show ?thesis by (intro exI [of _ "snd p"]) fastforce
qed

text \<open>A policy's choice among candidates, as a filter and a preference.\<close>

definition chosen_by ::
    "(sdk_version \<Rightarrow> bool) \<Rightarrow> (sdk_version \<Rightarrow> sdk_version \<Rightarrow> bool) \<Rightarrow> (nat \<times> sdk_installation) list \<Rightarrow>
     nat option \<Rightarrow> bool" where
  "chosen_by P pref cs r \<longleftrightarrow>
     (case r of
        None \<Rightarrow> \<forall>(j, t) \<in> set cs. \<not> P (si_version t)
      | Some i \<Rightarrow> \<exists>s. (i, s) \<in> set cs \<and> P (si_version s)
          \<and> (\<forall>(j, t) \<in> set cs. P (si_version t) \<longrightarrow> pref (si_version s) (si_version t)))"

lemma chosen_by_None: "chosen_by P pref cs None \<longleftrightarrow> filter (\<lambda>(_, i). P (si_version i)) cs = []"
  by (auto simp: chosen_by_def filter_empty_conv)

lemma chosen_by_Some:
  "chosen_by P pref cs (Some i) \<longleftrightarrow>
     (\<exists>s. (i, s) \<in> set (filter (\<lambda>(_, i). P (si_version i)) cs)
        \<and> (\<forall>(j, t) \<in> set (filter (\<lambda>(_, i). P (si_version i)) cs). pref (si_version s) (si_version t)))"
  by (auto simp: chosen_by_def)

lemma chosen_by_max:
  "chosen_by P (\<lambda>a b. sdk_ge a b) cs (max_version (filter (\<lambda>(_, i). P (si_version i)) cs))"
proof (cases "max_version (filter (\<lambda>(_, i). P (si_version i)) cs)")
  case None
  then have "filter (\<lambda>(_, i). P (si_version i)) cs = []" by simp
  then show ?thesis unfolding None chosen_by_None .
next
  case (Some i)
  show ?thesis unfolding Some chosen_by_Some by (rule max_version_Some [OF Some])
qed

lemma chosen_by_nearest:
  "chosen_by P (\<lambda>a b. grp a < grp b \<or> grp a = grp b \<and> sdk_ge a b) cs
     (select_nearest_group grp (filter (\<lambda>(_, i). P (si_version i)) cs))"
proof (cases "select_nearest_group grp (filter (\<lambda>(_, i). P (si_version i)) cs)")
  case None
  then have "filter (\<lambda>(_, i). P (si_version i)) cs = []" by simp
  then show ?thesis unfolding None chosen_by_None .
next
  case (Some i)
  show ?thesis unfolding Some chosen_by_Some by (rule select_nearest_group_Some [OF Some])
qed

lemma chosen_by_weaken:
  assumes "chosen_by P p cs r" and "\<And>v. P v = Q v" and "\<And>a b. p a b \<Longrightarrow> q a b"
  shows "chosen_by Q q cs r"
proof -
  have "P = Q" using assms(2) by blast
  with assms(1,3) show ?thesis unfolding chosen_by_def by (cases r) (auto, blast)
qed

lemma equal_in_band: "sdk_cmp v r = Equal \<Longrightarrow> same_feature_band v r \<and> sdk_ge v r"
  by (rule conjI, simp add: sdk_cmp_Equal same_feature_band_def feature_band_def, simp add: sdk_ge_def)

lemma sdk_ge_equal: "sdk_cmp a r = Equal \<Longrightarrow> sdk_cmp b r = Equal \<Longrightarrow> sdk_ge a b"
  using sdk_ord.equal_trans [of a r b] sdk_ord.equal_sym [of b r] by (simp add: sdk_ge_def)

lemma chosen_by_find:
  assumes "List.find (\<lambda>(_, i). sdk_cmp (si_version i) r = Equal) cs = Some (i, s)"
  shows "chosen_by (policy_admits Patch r) (policy_prefers Patch r) cs (Some i)"
proof -
  from find_SomeD [OF assms] have "(i, s) \<in> set cs" and "sdk_cmp (si_version s) r = Equal" by auto
  then show ?thesis using equal_in_band by (fastforce simp: chosen_by_def policy_admits_def policy_prefers_def)
qed

lemma select_by_policy_chosen:
  "chosen_by (policy_admits policy r) (policy_prefers policy r) cs (select_by_policy cs r policy)"
proof (cases policy)
  case Disable
  show ?thesis
  proof (cases "filter (\<lambda>(_, i). sdk_cmp (si_version i) r = Equal) cs")
    case Nil
    then show ?thesis using Disable
      by (auto simp: select_by_policy_def chosen_by_def policy_admits_def filter_empty_conv)
  next
    case (Cons x xs)
    then have x: "x \<in> set (filter (\<lambda>(_, i). sdk_cmp (si_version i) r = Equal) cs)" by simp
    have pref: "policy_prefers Disable r a b" if "sdk_cmp a r = Equal" "sdk_cmp b r = Equal" for a b
      using sdk_ge_equal [OF that] by (simp add: policy_prefers_def policy_group_def)
    have "select_by_policy cs r Disable = Some (fst x)" using Cons by (simp add: select_by_policy_def)
    moreover have "(fst x, snd x) \<in> set cs" "sdk_cmp (si_version (snd x)) r = Equal" using x by auto
    ultimately show ?thesis unfolding Disable chosen_by_def
      by (auto simp: policy_admits_def intro!: exI [of _ "snd x"] pref)
  qed
next
  case Patch
  show ?thesis
  proof (cases "List.find (\<lambda>(_, i). sdk_cmp (si_version i) r = Equal) cs")
    case None
    then have none: "\<forall>(j, t) \<in> set cs. sdk_cmp (si_version t) r \<noteq> Equal" by (auto simp: find_None_iff)
    have "chosen_by (\<lambda>v. same_feature_band v r \<and> sdk_ge v r) sdk_ge cs (select_by_policy cs r Patch)"
      using None chosen_by_max [of "\<lambda>v. same_feature_band v r \<and> sdk_ge v r" cs]
      by (simp add: select_by_policy_def)
    with none show ?thesis unfolding Patch
      by (auto simp: chosen_by_def policy_admits_def policy_prefers_def policy_group_def split: option.splits)
  next
    case (Some x)
    with chosen_by_find [of r cs "fst x" "snd x"] Patch show ?thesis
      by (cases x) (simp add: select_by_policy_def)
  qed
next
  case LatestPatch
  then show ?thesis
    using chosen_by_max [of "\<lambda>v. same_feature_band v r \<and> sdk_ge v r" cs]
    by (simp add: select_by_policy_def) (erule chosen_by_weaken; simp add: policy_admits_def policy_prefers_def policy_group_def)
next
  case LatestFeature
  then show ?thesis
    using chosen_by_max [of "\<lambda>v. sv_major v = sv_major r \<and> sv_minor v = sv_minor r \<and> sdk_ge v r" cs]
    by (simp add: select_by_policy_def) (erule chosen_by_weaken; simp add: policy_admits_def policy_prefers_def policy_group_def)
next
  case LatestMinor
  then show ?thesis
    using chosen_by_max [of "\<lambda>v. sv_major v = sv_major r \<and> sdk_ge v r" cs]
    by (simp add: select_by_policy_def) (erule chosen_by_weaken; simp add: policy_admits_def policy_prefers_def policy_group_def)
next
  case LatestMajor
  then show ?thesis
    using chosen_by_max [of "\<lambda>v. sdk_ge v r" cs]
    by (simp add: select_by_policy_def) (erule chosen_by_weaken; simp add: policy_admits_def policy_prefers_def policy_group_def)
next
  case Feature
  then show ?thesis
    using chosen_by_nearest [of "\<lambda>v. sv_major v = sv_major r \<and> sv_minor v = sv_minor r \<and> sdk_ge v r" "\<lambda>v. [feature_band v, 0, 0]" cs]
    by (simp add: select_by_policy_def) (erule chosen_by_weaken; simp add: policy_admits_def policy_prefers_def policy_group_def)
next
  case Minor
  then show ?thesis
    using chosen_by_nearest [of "\<lambda>v. sv_major v = sv_major r \<and> sdk_ge v r" "\<lambda>v. [sv_minor v, feature_band v, 0]" cs]
    by (simp add: select_by_policy_def) (erule chosen_by_weaken; simp add: policy_admits_def policy_prefers_def policy_group_def)
next
  case Major
  then show ?thesis
    using chosen_by_nearest [of "\<lambda>v. sdk_ge v r" "\<lambda>v. [sv_major v, sv_minor v, feature_band v]" cs]
    by (simp add: select_by_policy_def) (erule chosen_by_weaken; simp add: policy_admits_def policy_prefers_def policy_group_def)
qed

text \<open>A usable installation of a root: it passes the prerelease filter.\<close>

definition usable :: "sdk_installation list \<Rightarrow> u16 \<Rightarrow> bool \<Rightarrow> nat \<Rightarrow> bool" where
  "usable installations root_index allow_prerelease i \<longleftrightarrow>
     i < length installations \<and> si_root_index (installations ! i) = root_index
   \<and> (allow_prerelease \<or> \<not> is_prerelease (si_version (installations ! i)))"

lemma root_candidates_set:
  "set (root_candidates installations root_index ap) =
     (\<lambda>i. (i, installations ! i)) ` {i. usable installations root_index ap i}"
  by (auto simp: root_candidates_def set_enumerate usable_def)

text \<open>C27: under every roll-forward policy the SDK chosen in a root is usable and admitted by the
  policy, no usable admitted SDK is preferred to it, and none is chosen only when none is
  usable and admitted.\<close>

theorem select_from_root_policy:
  "case select_from_root installations root_index (Some r) policy ap of
     None \<Rightarrow> (\<forall>j. usable installations root_index ap j \<longrightarrow> \<not> policy_admits policy r (si_version (installations ! j)))
   | Some i \<Rightarrow> usable installations root_index ap i \<and> policy_admits policy r (si_version (installations ! i))
       \<and> (\<forall>j. usable installations root_index ap j \<longrightarrow> policy_admits policy r (si_version (installations ! j)) \<longrightarrow>
            policy_prefers policy r (si_version (installations ! i)) (si_version (installations ! j)))"
  using select_by_policy_chosen [of policy r "root_candidates installations root_index ap"]
  by (auto simp: select_from_root_def chosen_by_def root_candidates_set split: option.splits)

theorem select_from_root_policy_witness:
  "usable [\<lparr>si_version = example_sdk ''8.0.105'' 105, si_root_index = 0\<rparr>,
           \<lparr>si_version = example_sdk ''8.0.203'' 203, si_root_index = 0\<rparr>] 0 True 1
   \<and> \<not> policy_admits Patch (example_sdk ''8.0.204'' 204) (example_sdk ''8.0.203'' 203)"
proof -
  let ?l = "[\<lparr>si_version = example_sdk ''8.0.105'' 105, si_root_index = (0 :: u16)\<rparr>,
           \<lparr>si_version = example_sdk ''8.0.203'' 203, si_root_index = 0\<rparr>]"
  have n: "select_from_root ?l 0 (Some (example_sdk ''8.0.204'' 204)) Patch True = None"
    by (simp add: select_from_root_def select_by_policy_def root_candidates_def example_sdk_def
        same_feature_band_def feature_band_def sdk_ge_def sdk_cmp_def rust_cmp_def)
  have u: "usable ?l 0 True 1" by (simp add: usable_def)
  with select_from_root_policy [where installations = ?l and root_index = 0 and r = "example_sdk ''8.0.204'' 204"
      and policy = Patch and ap = True] n show ?thesis by auto
qed

section \<open>The whole search\<close>

lemma select_from_root_usable:
  assumes "select_from_root installations ri requested policy ap = Some i"
  shows "usable installations ri ap i"
proof (cases requested)
  case None
  with assms have "max_version (root_candidates installations ri ap) = Some i" by (simp add: select_from_root_def)
  from max_version_Some [OF this] show ?thesis by (auto simp: root_candidates_set)
next
  case (Some r)
  with select_by_policy_chosen [of policy r "root_candidates installations ri ap"] assms
  show ?thesis by (auto simp: select_from_root_def chosen_by_def root_candidates_set split: option.splits)
qed

lemma select_installation_Some:
  assumes "select_installation installations roots requested policy ap = Some i"
  shows "\<exists>k < length roots. usable installations (of_nat k) ap i
    \<and> select_from_root installations (of_nat k) requested policy ap = Some i
    \<and> (\<forall>j < k. select_from_root installations (of_nat j) requested policy ap = None)"
proof -
  let ?P = "\<lambda>i. select_from_root installations (of_nat i) requested policy ap \<noteq> None"
  from assms obtain k where k: "List.find ?P [0..<length roots] = Some k"
    "select_from_root installations (of_nat k) requested policy ap = Some i"
    by (auto simp: select_installation_def split: option.splits)
  from k(1) have "k < length roots" "\<forall>j < k. \<not> ?P j" by (auto simp: find_Some_iff)
  with select_from_root_usable [OF k(2)] k(2) show ?thesis by blast
qed

lemma discover_installations_roots:
  assumes "discover_installations m roots = Inr installations" and "i \<in> set installations"
  shows "unat (si_root_index i) < length roots"
proof -
  from assms(1) obtain found where f: "try_fold (scan_sdk_root m) [] (List.enumerate 0 roots) = Inr found"
      and i: "installations = sort_by installation_cmp found" and len: "length roots \<le> 65535"
    by (auto simp: discover_installations_def rbind_eq_Inr not_less split: if_splits)
  from f have "set found = set [] \<union> (\<Union>x \<in> set (List.enumerate 0 roots). {i. installed m (fst x) (snd x) i})
      \<and> (length ([] :: sdk_installation list) \<le> MAX_SDK_INSTALLATIONS \<longrightarrow> length found \<le> MAX_SDK_INSTALLATIONS)"
    by (rule try_fold_sets) (metis prod.collapse scan_sdk_root_set)
  with assms(2) i obtain k where "k < length roots" "installed m k (roots ! k) i"
    by (auto simp: set_enumerate)
  with len show ?thesis by (auto simp: installed_def unat_of_nat)
qed

text \<open>A successful search returns an inventory whose every index is in range, so no accessor
  panics, and the SDK it selects is the one the effective policy chooses in the first root, in
  search order, in which that policy finds one.\<close>

theorem discover_sdks_in_roots_selected:
  fixes m :: "('p, 'io) machine"
  assumes "discover_sdks_in_roots m from_json ancestor host_roots = Inr inventory"
    and "ancestor = Inr g" and "effective_config m from_json g = Inr config"
    and "requested_version config = (Inr requested :: 'io sdk_error + sdk_version option)"
  shows "inv_selected_index inventory < length (inv_installations inventory)
    \<and> (\<forall>i \<in> set (inv_installations inventory). unat (si_root_index i) < length (inv_roots inventory))
    \<and> (\<exists>k < length (inv_roots inventory).
          usable (inv_installations inventory) (of_nat k) (effective_prerelease config) (inv_selected_index inventory)
        \<and> select_from_root (inv_installations inventory) (of_nat k) requested
            (effective_policy config requested) (effective_prerelease config) = Some (inv_selected_index inventory)
        \<and> (\<forall>j < k. select_from_root (inv_installations inventory) (of_nat j) requested
              (effective_policy config requested) (effective_prerelease config) = None))"
proof -
  from assms obtain roots installations selected where
      d: "discover_installations m roots = Inr installations"
    and s: "select_installation installations roots requested (effective_policy config requested)
              (effective_prerelease config) = Some selected"
    and inv: "inventory = \<lparr>inv_roots = roots, inv_installations = installations,
                inv_selected_index = selected, inv_global_json = g\<rparr>"
    unfolding discover_sdks_in_roots_def Let_def
    by (auto simp: rbind_eq_Inr ok_or_eq_Inr split: if_splits)
  from select_installation_Some [OF s] obtain k where "k < length roots"
    "usable installations (of_nat k) (effective_prerelease config) selected"
    "select_from_root installations (of_nat k) requested (effective_policy config requested)
       (effective_prerelease config) = Some selected"
    "\<forall>j < k. select_from_root installations (of_nat j) requested (effective_policy config requested)
       (effective_prerelease config) = None" by blast
  moreover from this(2) have "selected < length installations" by (simp add: usable_def)
  ultimately show ?thesis using discover_installations_roots [OF d] unfolding inv by auto
qed

theorem discover_sdks_in_roots_selected_witness:
  "discover_sdks_in_roots example_machine (\<lambda>_. Inl []) (Inr None) [''/d''] =
     Inr \<lparr>inv_roots = [''/d''],
          inv_installations = [\<lparr>si_version = example_sdk ''8.0.100'' 100, si_root_index = 0\<rparr>,
             \<lparr>si_version = example_sdk ''8.0.100+a'' 100, si_root_index = 0\<rparr>],
          inv_selected_index = 1, inv_global_json = None\<rparr>
   \<and> unat (0 :: u16) < length [''/d'']"
proof -
  have c: "sdk_cmp (example_sdk ''8.0.100'' 100) (example_sdk ''8.0.100+a'' 100) = Equal"
    by (simp add: sdk_cmp_def example_sdk_def sv_prerelease_def is_prerelease_def compare_prerelease_def rust_cmp_def)
  have d: "discover_sdks_in_roots example_machine (\<lambda>_. Inl []) (Inr None) [''/d''] =
     Inr \<lparr>inv_roots = [''/d''],
          inv_installations = [\<lparr>si_version = example_sdk ''8.0.100'' 100, si_root_index = 0\<rparr>,
             \<lparr>si_version = example_sdk ''8.0.100+a'' 100, si_root_index = 0\<rparr>],
          inv_selected_index = 1, inv_global_json = None\<rparr>"
    by (simp add: discover_sdks_in_roots_def effective_config_def requested_version_def effective_policy_def
        effective_prerelease_def default_global_sdk_def resolve_search_roots_def discover_example
        select_installation_def select_from_root_def root_candidates_def max_version_def max_by_def c)
  have "effective_config example_machine (\<lambda>_. Inl []) None = Inr default_global_sdk"
    and "requested_version default_global_sdk = Inr None"
    by (simp_all add: effective_config_def requested_version_def default_global_sdk_def)
  with d discover_sdks_in_roots_selected [OF d refl] show ?thesis by simp
qed

end
