(* ===== verification/Sdk_Runtimes.thy ===== *)
theory Sdk_Runtimes
  imports Sdk_Discovery
begin

text \<open>
  The inventory of shared frameworks of \<open>crates/dv-core/src/sdk.rs\<close>: the scan of the
  \<open>shared\<close> directories and the text arena in which each row is two 32-bit offsets and two
  16-bit lengths.
\<close>

definition MAX_RUNTIME_INSTALLATIONS :: nat where
  "MAX_RUNTIME_INSTALLATIONS = 4096"

record work_family =
  wf_family :: string
  wf_versions :: "sdk_version list"
  wf_root_index :: u16

record runtime_installation =
  family_start :: u32
  version_start :: u32
  family_len :: u16
  version_len :: u16
  ri_root_index :: u16

record 'p runtime_inventory =
  rt_roots :: "'p list"
  rt_text :: string
  rt_installations :: "runtime_installation list"

definition text_range :: "string \<Rightarrow> u32 \<Rightarrow> u16 \<Rightarrow> string" where
  "text_range text start len = take (unat len) (drop (unat start) text)"

definition rt_family :: "'p runtime_inventory \<Rightarrow> runtime_installation \<Rightarrow> string" where
  "rt_family inventory i = text_range (rt_text inventory) (family_start i) (family_len i)"

definition rt_version :: "'p runtime_inventory \<Rightarrow> runtime_installation \<Rightarrow> string" where
  "rt_version inventory i = text_range (rt_text inventory) (version_start i) (version_len i)"

definition rt_root :: "'p runtime_inventory \<Rightarrow> runtime_installation \<Rightarrow> 'p" where
  "rt_root inventory i = rt_roots inventory ! unat (ri_root_index i)"

definition rt_installation_path :: "('p, 'io) machine \<Rightarrow> 'p runtime_inventory \<Rightarrow> runtime_installation \<Rightarrow> 'p" where
  "rt_installation_path m inventory i =
     path_join m (path_join m (path_join m (rt_root inventory i) ''shared'') (rt_family inventory i))
       (rt_version inventory i)"

section \<open>The scan\<close>

text \<open>The running count of all rows is carried beside the list being built.\<close>

definition scan_runtime_version ::
    "('p, 'io) machine \<Rightarrow> 'p \<Rightarrow> nat \<times> sdk_version list \<Rightarrow> 'io + ('p, 'io) fs_entry \<Rightarrow>
     'io sdk_error + nat \<times> sdk_version list" where
  "scan_runtime_version m family_directory st item =
     (case st of (discovered, versions) \<Rightarrow>
       rbind (map_error (io_error m ''enumerate'' family_directory) item) (\<lambda>entry.
       rbind (map_error (io_error m ''inspect'' (fe_path entry)) (fe_is_dir entry)) (\<lambda>dir.
         if \<not> dir then Inr st
         else (case fe_name entry of
             None \<Rightarrow> Inr st
           | Some version_text \<Rightarrow> (case parse_sdk_version version_text :: 'io sdk_error + sdk_version of
               Inl _ \<Rightarrow> Inr st
             | Inr version \<Rightarrow>
                 if discovered = MAX_RUNTIME_INSTALLATIONS then Inl (mk_sdk_error Io TooManyRuntimes)
                 else Inr (discovered + 1, versions @ [version]))))))"

definition version_less_sort :: "sdk_version list \<Rightarrow> sdk_version list" where
  "version_less_sort = sort_by sdk_cmp"

definition scan_runtime_family ::
    "('p, 'io) machine \<Rightarrow> 'p \<Rightarrow> nat \<Rightarrow> nat \<times> work_family list \<Rightarrow> 'io + ('p, 'io) fs_entry \<Rightarrow>
     'io sdk_error + nat \<times> work_family list" where
  "scan_runtime_family m shared_directory root_index st item =
     (case st of (discovered, work) \<Rightarrow>
       rbind (map_error (io_error m ''enumerate'' shared_directory) item) (\<lambda>family_entry.
       rbind (map_error (io_error m ''inspect'' (fe_path family_entry)) (fe_is_dir family_entry)) (\<lambda>dir.
         if \<not> dir then Inr st
         else (case fe_name family_entry of
             None \<Rightarrow> Inr st
           | Some family \<Rightarrow>
               (let family_directory = fe_path family_entry in
                rbind (map_error (io_error m ''enumerate'' family_directory) (read_dir m family_directory)) (\<lambda>versions.
                rbind (try_fold (scan_runtime_version m family_directory) (discovered, []) versions)
                  (\<lambda>(discovered, family_versions).
                     if family_versions \<noteq> []
                     then Inr (discovered, work @ [\<lparr>wf_family = family,
                            wf_versions = version_less_sort family_versions, wf_root_index = of_nat root_index\<rparr>])
                     else Inr (discovered, work))))))))"

definition scan_runtime_root ::
    "('p, 'io) machine \<Rightarrow> nat \<times> work_family list \<Rightarrow> nat \<times> 'p \<Rightarrow> 'io sdk_error + nat \<times> work_family list" where
  "scan_runtime_root m st indexed =
     (case indexed of (root_index, root) \<Rightarrow>
       let shared_directory = path_join m root ''shared'' in
       case read_dir m shared_directory of
         Inl e \<Rightarrow> if not_found m e then Inr st else Inl (io_error m ''enumerate'' shared_directory e)
       | Inr families \<Rightarrow> try_fold (scan_runtime_family m shared_directory root_index) st families)"

definition work_cmp :: "work_family \<Rightarrow> work_family \<Rightarrow> ordering" where
  "work_cmp left right =
     then_with (rust_cmp (wf_root_index left) (wf_root_index right)) (rust_cmp (wf_family left) (wf_family right))"

section \<open>The arena\<close>

definition checked_add_usize :: "nat \<Rightarrow> nat \<Rightarrow> nat option" where
  "checked_add_usize a b = (if a + b < 2 ^ 64 then Some (a + b) else None)"

definition saturating_add_usize :: "nat \<Rightarrow> nat \<Rightarrow> nat" where
  "saturating_add_usize a b = min (a + b) (2 ^ 64 - 1)"

fun checked_sum :: "nat \<Rightarrow> nat list \<Rightarrow> nat option" where
  "checked_sum acc [] = Some acc"
| "checked_sum acc (x # xs) = Option.bind (checked_add_usize acc x) (\<lambda>a. checked_sum a xs)"

definition family_bytes :: "work_family \<Rightarrow> nat" where
  "family_bytes w =
     foldl (\<lambda>bytes v. saturating_add_usize bytes (length (sv_text v))) (length (wf_family w)) (wf_versions w)"

definition pack_version ::
    "u32 \<Rightarrow> u16 \<Rightarrow> u16 \<Rightarrow> string \<times> runtime_installation list \<Rightarrow> sdk_version \<Rightarrow>
     'io sdk_error + string \<times> runtime_installation list" where
  "pack_version fstart flen root_index st version =
     (case st of (text, installations) \<Rightarrow>
       if 2 ^ 16 \<le> length (sv_text version) then Inl (mk_sdk_error Io RuntimeVersionTooLong)
       else let vstart = of_nat (length text) in
         Inr (text @ sv_text version,
              installations @ [\<lparr>family_start = fstart, version_start = vstart, family_len = flen,
                version_len = of_nat (length (sv_text version)), ri_root_index = root_index\<rparr>]))"

definition pack_family ::
    "string \<times> runtime_installation list \<Rightarrow> work_family \<Rightarrow>
     'io sdk_error + string \<times> runtime_installation list" where
  "pack_family st w =
     (case st of (text, installations) \<Rightarrow>
       if 2 ^ 16 \<le> length (wf_family w) then Inl (mk_sdk_error Io FamilyNameTooLong)
       else let flen = of_nat (length (wf_family w)); fstart = of_nat (length text) in
         try_fold (pack_version fstart flen (wf_root_index w)) (text @ wf_family w, installations) (wf_versions w))"

definition pack_runtimes ::
    "'p list \<Rightarrow> work_family list \<Rightarrow> 'io sdk_error + 'p runtime_inventory" where
  "pack_runtimes roots work =
     rbind (ok_or (mk_sdk_error Io RuntimeInventoryTooLarge) (checked_sum 0 (map (length \<circ> wf_versions) work))) (\<lambda>_.
     rbind (ok_or (mk_sdk_error Io RuntimeTextTooLarge) (checked_sum 0 (map family_bytes work))) (\<lambda>text_capacity.
       if 2 ^ 32 - 1 < text_capacity then Inl (mk_sdk_error Io RuntimeTextTooLarge)
       else rbind (try_fold pack_family ([], []) work) (\<lambda>(text, installations).
         Inr \<lparr>rt_roots = roots, rt_text = text, rt_installations = installations\<rparr>)))"

definition discover_runtimes_in_owned_roots ::
    "('p, 'io) machine \<Rightarrow> 'p list \<Rightarrow> 'io sdk_error + 'p runtime_inventory" where
  "discover_runtimes_in_owned_roots m roots =
     (if 65535 < length roots then Inl (mk_sdk_error GlobalJsonError TooManyRuntimeRoots)
      else rbind (try_fold (scan_runtime_root m) (0, []) (List.enumerate 0 roots)) (\<lambda>(_, work).
        pack_runtimes roots (sort_by work_cmp work)))"

definition discover_runtimes_in_roots :: "('p, 'io) machine \<Rightarrow> 'p list \<Rightarrow> 'io sdk_error + 'p runtime_inventory" where
  "discover_runtimes_in_roots m roots = discover_runtimes_in_owned_roots m roots"

definition discover_runtimes :: "('p, 'io) machine \<Rightarrow> 'io sdk_error + 'p runtime_inventory" where
  "discover_runtimes m =
     (let roots = discover_host_roots m in
      if roots = [] then Inl (mk_sdk_error RootNotFound NoRoot)
      else discover_runtimes_in_owned_roots m roots)"

definition discover_runtimes_for_architecture ::
    "('p, 'io) machine \<Rightarrow> dotnet_architecture \<Rightarrow> 'io sdk_error + 'p runtime_inventory" where
  "discover_runtimes_for_architecture m architecture =
     (if current_architecture (arch_const m) = Some architecture then discover_runtimes m
      else discover_runtimes_in_owned_roots m (discover_architecture_roots m architecture))"

section \<open>Reading the arena\<close>

definition in_range :: "string \<Rightarrow> u32 \<Rightarrow> u16 \<Rightarrow> bool" where
  "in_range text start len \<longleftrightarrow> unat start + unat len \<le> length text"

lemma in_range_append: "in_range text s l \<Longrightarrow> in_range (text @ t) s l"
  by (simp add: in_range_def)

lemma text_range_append: "in_range text s l \<Longrightarrow> text_range (text @ t) s l = text_range text s l"
  by (simp add: in_range_def text_range_def)

lemma push_text:
  assumes "length text < 2 ^ 32" and "length x < 2 ^ 16"
  shows "in_range (text @ x) (of_nat (length text)) (of_nat (length x))"
    and "text_range (text @ x) (of_nat (length text)) (of_nat (length x)) = x"
  using assms by (simp_all add: in_range_def text_range_def unat_of_nat)

text \<open>What a row denotes: its root and the two texts, each read in range.\<close>

definition row_reads :: "string \<Rightarrow> runtime_installation \<Rightarrow> u16 \<times> string \<times> string \<Rightarrow> bool" where
  "row_reads text row den \<longleftrightarrow>
     in_range text (family_start row) (family_len row) \<and> in_range text (version_start row) (version_len row)
   \<and> den = (ri_root_index row, text_range text (family_start row) (family_len row),
             text_range text (version_start row) (version_len row))"

lemma row_reads_append: "row_reads text row den \<Longrightarrow> row_reads (text @ t) row den"
  by (simp add: row_reads_def in_range_append text_range_append)

definition family_rows :: "work_family \<Rightarrow> (u16 \<times> string \<times> string) list" where
  "family_rows w = map (\<lambda>v. (wf_root_index w, wf_family w, sv_text v)) (wf_versions w)"

definition family_text :: "work_family \<Rightarrow> string" where
  "family_text w = wf_family w @ concat (map sv_text (wf_versions w))"

lemma pack_version_eq:
  "pack_version fstart flen ri (t, rows) v =
     (if 2 ^ 16 \<le> length (sv_text v) then Inl (mk_sdk_error Io RuntimeVersionTooLong)
      else Inr (t @ sv_text v,
             rows @ [\<lparr>family_start = fstart, version_start = of_nat (length t), family_len = flen,
               version_len = of_nat (length (sv_text v)), ri_root_index = ri\<rparr>]))"
  by (simp add: pack_version_def Let_def)

lemma pack_family_eq:
  "pack_family (t, rows) w =
     (if 2 ^ 16 \<le> length (wf_family w) then Inl (mk_sdk_error Io FamilyNameTooLong)
      else try_fold (pack_version (of_nat (length t)) (of_nat (length (wf_family w))) (wf_root_index w))
             (t @ wf_family w, rows) (wf_versions w))"
  by (simp add: pack_family_def Let_def)

lemma pack_versions:
  assumes "try_fold (pack_version fstart flen ri) (text, installations) vs =
      (Inr (text', installations') :: 'io sdk_error + string \<times> runtime_installation list)"
    and "length text' < 2 ^ 32" and "in_range text fstart flen" and "text_range text fstart flen = fam"
  shows "text' = text @ concat (map sv_text vs)
    \<and> (\<exists>rows. installations' = installations @ rows
         \<and> list_all2 (row_reads text') rows (map (\<lambda>v. (ri, fam, sv_text v)) vs))"
  using assms
proof (induction vs arbitrary: "text" installations)
  case Nil
  then show ?case by simp
next
  case (Cons v vs)
  let ?row = "\<lparr>family_start = fstart, version_start = of_nat (length text), family_len = flen,
      version_len = of_nat (length (sv_text v)), ri_root_index = ri\<rparr>"
  let ?text = "text @ sv_text v"
  from Cons.prems(1) have len: "length (sv_text v) < 2 ^ 16"
    and rest: "try_fold (pack_version fstart flen ri) (?text, installations @ [?row]) vs =
          (Inr (text', installations') :: 'io sdk_error + string \<times> runtime_installation list)"
    by (auto simp: pack_version_eq rbind_eq_Inr split: if_splits)
  have "in_range ?text fstart flen" and "text_range ?text fstart flen = fam"
    using Cons.prems(3,4) by (simp_all add: in_range_append text_range_append)
  from Cons.IH [OF rest Cons.prems(2) this] obtain rows where
      t: "text' = ?text @ concat (map sv_text vs)"
    and rows: "installations' = (installations @ [?row]) @ rows"
      "list_all2 (row_reads text') rows (map (\<lambda>v. (ri, fam, sv_text v)) vs)" by blast
  from t Cons.prems(2) have "length text < 2 ^ 32" by simp
  with push_text [OF _ len] Cons.prems(3,4) have "row_reads ?text ?row (ri, fam, sv_text v)"
    by (simp add: row_reads_def in_range_append text_range_append)
  then have "row_reads text' ?row (ri, fam, sv_text v)" unfolding t by (rule row_reads_append)
  with t rows show ?case by simp
qed

lemma pack_versions_text:
  "try_fold (pack_version fstart flen ri) (t, rows) vs = Inr (t', rows') \<Longrightarrow> t' = t @ concat (map sv_text vs)"
  by (induction vs arbitrary: t rows) (fastforce simp: pack_version_eq rbind_eq_Inr split: if_splits)+

lemma pack_families_text:
  "try_fold pack_family (t, rows) work = Inr (t', rows') \<Longrightarrow> t' = t @ concat (map family_text work)"
  by (induction work arbitrary: t rows)
    (fastforce simp: pack_family_eq rbind_eq_Inr family_text_def dest: pack_versions_text split: if_splits)+

lemma pack_families:
  assumes "try_fold pack_family (text, installations) work =
      (Inr (text', installations') :: 'io sdk_error + string \<times> runtime_installation list)"
    and "length text' < 2 ^ 32"
  shows "text' = text @ concat (map family_text work)
    \<and> (\<exists>rows. installations' = installations @ rows
         \<and> list_all2 (row_reads text') rows (concat (map family_rows work)))"
  using assms
proof (induction work arbitrary: "text" installations)
  case Nil
  then show ?case by simp
next
  case (Cons w work)
  from Cons.prems(1) obtain text1 ins1 where len: "length (wf_family w) < 2 ^ 16"
    and first: "try_fold (pack_version (of_nat (length text)) (of_nat (length (wf_family w))) (wf_root_index w))
        (text @ wf_family w, installations) (wf_versions w) =
          (Inr (text1, ins1) :: 'io sdk_error + string \<times> runtime_installation list)"
    and rest: "try_fold pack_family (text1, ins1) work =
          (Inr (text', installations') :: 'io sdk_error + string \<times> runtime_installation list)"
    by (auto simp: pack_family_eq rbind_eq_Inr split: if_splits)
  from Cons.IH [OF rest Cons.prems(2)] obtain rows2 where
      t2: "text' = text1 @ concat (map family_text work)"
    and r2: "installations' = ins1 @ rows2" "list_all2 (row_reads text') rows2 (concat (map family_rows work))"
    by blast
  have l1: "length text1 < 2 ^ 32" using Cons.prems(2) t2 by simp
  have "case (text1, ins1) of (t, _) \<Rightarrow> length text \<le> length t"
    using first by (rule try_fold_invariant) (auto simp: pack_version_eq split: if_splits)
  then have "length text \<le> length text1" by simp
  with l1 have "length text < 2 ^ 32" by simp
  note fam = push_text [OF this len]
  from pack_versions [OF first l1 fam] obtain rows1 where
      t1: "text1 = (text @ wf_family w) @ concat (map sv_text (wf_versions w))"
    and r1: "ins1 = installations @ rows1" "list_all2 (row_reads text1) rows1 (family_rows w)"
    unfolding family_rows_def by blast
  have "list_all2 (row_reads text') rows1 (family_rows w)"
    using r1(2) unfolding t2 by (rule list_all2_mono) (rule row_reads_append)
  with r2 r1 t1 t2 show ?case by (auto simp: family_text_def [of w] intro: list_all2_appendI)
qed

lemma checked_sum_Some: "checked_sum acc xs = Some n \<Longrightarrow> n = acc + sum_list xs"
  by (induction acc xs rule: checked_sum.induct) (auto simp: checked_add_usize_def bind_eq_Some_conv split: if_splits)

lemma saturating_fold:
  "foldl (\<lambda>b v. saturating_add_usize b (f v)) acc vs = n \<Longrightarrow> n < 2 ^ 64 - 1 \<Longrightarrow> n = acc + sum_list (map f vs)"
proof (induction vs arbitrary: acc)
  case Nil
  then show ?case by simp
next
  case (Cons v vs)
  from Cons.IH [of "saturating_add_usize acc (f v)"] Cons.prems
  have n: "n = saturating_add_usize acc (f v) + sum_list (map f vs)" by simp
  with Cons.prems(2) have "saturating_add_usize acc (f v) < 2 ^ 64 - 1" by simp
  then have "saturating_add_usize acc (f v) = acc + f v" by (simp add: saturating_add_usize_def split: if_splits)
  with n show ?case by simp
qed

lemma family_bytes_text: "family_bytes w < 2 ^ 64 - 1 \<Longrightarrow> family_bytes w = length (family_text w)"
  using saturating_fold [of "\<lambda>v. length (sv_text v)" "length (wf_family w)" "wf_versions w" "family_bytes w"]
  by (simp add: family_bytes_def family_text_def length_concat comp_def)

lemma capacity_text:
  assumes "checked_sum 0 (map family_bytes work) = Some n" and "n < 2 ^ 64 - 1"
  shows "n = length (concat (map family_text work))"
proof -
  have n: "n = sum_list (map family_bytes work)" using checked_sum_Some [OF assms(1)] by simp
  have "family_bytes w = length (family_text w)" if "w \<in> set work" for w
  proof -
    have "family_bytes w \<le> n" unfolding n using that by (simp add: member_le_sum_list)
    with assms(2) show ?thesis by (intro family_bytes_text) simp
  qed
  then show ?thesis unfolding n by (simp add: length_concat comp_def cong: map_cong)
qed

interpretation work_ord: rust_ord work_cmp
  unfolding work_cmp_def [abs_def]
  by (rule rust_ord_then_with [OF rust_ord_key rust_ord_key])

lemma pack_runtimes_rows:
  assumes "pack_runtimes roots work = (Inr inventory :: 'io sdk_error + 'p runtime_inventory)"
  shows "list_all2 (row_reads (rt_text inventory)) (rt_installations inventory) (concat (map family_rows work))
    \<and> rt_text inventory = concat (map family_text work) \<and> length (rt_text inventory) < 2 ^ 32 \<and> rt_roots inventory = roots"
proof -
  from assms obtain n t rows where n: "checked_sum 0 (map family_bytes work) = Some n" "n < 2 ^ 32"
    and f: "try_fold pack_family ([], []) work = (Inr (t, rows) :: 'io sdk_error + string \<times> runtime_installation list)"
    and inv: "inventory = \<lparr>rt_roots = roots, rt_text = t, rt_installations = rows\<rparr>"
    by (auto simp: pack_runtimes_def rbind_eq_Inr ok_or_eq_Inr split: if_splits)
  have len: "length (concat (map family_text work)) < 2 ^ 32"
    using capacity_text [OF n(1)] n(2) by simp
  moreover have "t = concat (map family_text work)" using pack_families_text [OF f] by simp
  ultimately show ?thesis using pack_families [OF f] by (auto simp: inv)
qed

text \<open>The packed inventory loses nothing and never reads out of range: its rows denote, in
  order of root and family, exactly the families and versions the scan found, every offset and
  length fitting its 32 or 16 bits.\<close>

theorem runtime_inventory_roundtrip:
  fixes m :: "('p, 'io) machine"
  assumes "discover_runtimes_in_owned_roots m roots = Inr inventory"
  shows "\<exists>count found work.
      try_fold (scan_runtime_root m) (0, []) (List.enumerate 0 roots) =
        (Inr (count, found) :: 'io sdk_error + nat \<times> work_family list)
    \<and> mset work = mset found \<and> sorted_wrt (\<lambda>a b. work_cmp a b \<noteq> Greater) work
    \<and> list_all2 (row_reads (rt_text inventory)) (rt_installations inventory) (concat (map family_rows work))"
proof -
  from assms obtain count found where f: "try_fold (scan_runtime_root m) (0, []) (List.enumerate 0 roots) =
        (Inr (count, found) :: 'io sdk_error + nat \<times> work_family list)"
    and p: "pack_runtimes roots (sort_by work_cmp found) = (Inr inventory :: 'io sdk_error + 'p runtime_inventory)"
    by (auto simp: discover_runtimes_in_owned_roots_def rbind_eq_Inr split: if_splits)
  have "mset (sort_by work_cmp found) = mset found" "sorted_wrt (\<lambda>a b. work_cmp a b \<noteq> Greater) (sort_by work_cmp found)"
    by (simp_all add: work_ord.sorted_sort_by)
  with f pack_runtimes_rows [OF p] show ?thesis by blast
qed

definition example_runtimes :: "(string, unit) machine" where
  "example_runtimes = example_machine\<lparr>
     read_dir := (\<lambda>p. if p = ''/d/shared'' then Inr [Inr (example_entry ''App'')] else Inr [Inr (example_entry ''8.0.100'')])\<rparr>"

theorem runtime_inventory_roundtrip_witness:
  "discover_runtimes_in_owned_roots example_runtimes [''/d''] =
     Inr \<lparr>rt_roots = [''/d''], rt_text = ''App8.0.100'',
       rt_installations = [\<lparr>family_start = 0, version_start = 3, family_len = 3, version_len = 7, ri_root_index = 0\<rparr>]\<rparr>
   \<and> (\<exists>work. sorted_wrt (\<lambda>a b. work_cmp a b \<noteq> Greater) work \<and>
        list_all2 (row_reads ''App8.0.100'')
          [\<lparr>family_start = 0, version_start = 3, family_len = 3, version_len = 7, ri_root_index = 0\<rparr>]
          (concat (map family_rows work)))"
proof -
  have d: "discover_runtimes_in_owned_roots example_runtimes [''/d''] =
     Inr \<lparr>rt_roots = [''/d''], rt_text = ''App8.0.100'',
       rt_installations = [\<lparr>family_start = 0, version_start = 3, family_len = 3, version_len = 7, ri_root_index = 0\<rparr>]\<rparr>"
    by (simp add: discover_runtimes_in_owned_roots_def scan_runtime_root_def scan_runtime_family_def
        scan_runtime_version_def example_runtimes_def example_machine_def example_entry_def parse_example_sdk
        MAX_RUNTIME_INSTALLATIONS_def version_less_sort_def sort_by_def pack_runtimes_def checked_add_usize_def
        family_bytes_def saturating_add_usize_def pack_family_eq pack_version_eq example_sdk_def)
  from runtime_inventory_roundtrip [OF d] d show ?thesis by auto
qed

end
