(* ===== verification/Rust_Map.thy ===== *)
theory Rust_Map
  imports Prelude
begin

text \<open>
  The ordered containers of the standard library: \<open>BTreeMap\<close> as an association list with
  strictly increasing keys, \<open>BTreeSet\<close> as a strictly increasing list, and
  \<open>slice::binary_search_by\<close> as the bisection over a slice. Iteration order is list order.
  What a client may rely on is stated once, in the locale \<open>ordered_map\<close>.
\<close>

section \<open>The map interface\<close>

locale ordered_map =
  fixes lookup :: "'m \<Rightarrow> 'k::linorder \<Rightarrow> 'v option"
    and insert :: "'k \<Rightarrow> 'v \<Rightarrow> 'm \<Rightarrow> 'm"
    and remove :: "'k \<Rightarrow> 'm \<Rightarrow> 'm"
    and keys :: "'m \<Rightarrow> 'k list"
    and inv :: "'m \<Rightarrow> bool"
  assumes lookup_insert: "inv m \<Longrightarrow> lookup (insert k v m) = (lookup m)(k \<mapsto> v)"
    and lookup_remove: "inv m \<Longrightarrow> lookup (remove k m) = (lookup m)(k := None)"
    and set_keys: "inv m \<Longrightarrow> set (keys m) = dom (lookup m)"
    and sorted_keys: "inv m \<Longrightarrow> sorted_wrt (<) (keys m)"
    and inv_insert: "inv m \<Longrightarrow> inv (insert k v m)"
    and inv_remove: "inv m \<Longrightarrow> inv (remove k m)"
begin

lemma distinct_keys: "inv m \<Longrightarrow> distinct (keys m)"
  using sorted_keys strict_sorted_iff by blast

lemma keys_determined:
  assumes "inv m" and "inv n" and "dom (lookup m) = dom (lookup n)"
  shows "keys m = keys n"
  using assms by (metis set_keys sorted_keys strict_sorted_equal)

lemma length_insert_fresh:
  assumes "inv m" and "lookup m k = None"
  shows "length (keys (insert k v m)) = Suc (length (keys m))"
proof -
  have "card (dom (lookup (insert k v m))) = Suc (card (dom (lookup m)))"
    using assms set_keys [OF assms(1)]
    by (simp add: lookup_insert domIff) (metis List.finite_set card_insert_disjoint domIff)
  then show ?thesis
    by (metis assms(1) distinct_card distinct_keys inv_insert set_keys)
qed

end

section \<open>\<open>BTreeMap\<close>\<close>

type_synonym ('k, 'v) btree = "('k \<times> 'v) list"

definition bt_inv :: "('k::linorder, 'v) btree \<Rightarrow> bool" where
  "bt_inv m \<longleftrightarrow> sorted_wrt (<) (map fst m)"

definition bt_keys :: "('k, 'v) btree \<Rightarrow> 'k list" where
  "bt_keys m = map fst m"

definition bt_values :: "('k, 'v) btree \<Rightarrow> 'v list" where
  "bt_values m = map snd m"

fun bt_get :: "('k, 'v) btree \<Rightarrow> 'k \<Rightarrow> 'v option" where
  "bt_get [] k = None"
| "bt_get ((a, v) # m) k = (if a = k then Some v else bt_get m k)"

fun bt_insert :: "'k::linorder \<Rightarrow> 'v \<Rightarrow> ('k, 'v) btree \<Rightarrow> ('k, 'v) btree" where
  "bt_insert k v [] = [(k, v)]"
| "bt_insert k v ((a, w) # m) =
     (if k < a then (k, v) # (a, w) # m
      else if k = a then (k, v) # m
      else (a, w) # bt_insert k v m)"

fun bt_remove :: "'k \<Rightarrow> ('k, 'v) btree \<Rightarrow> ('k, 'v) btree" where
  "bt_remove k [] = []"
| "bt_remove k ((a, w) # m) = (if k = a then m else (a, w) # bt_remove k m)"

text \<open>\<open>get_mut\<close> followed by a write through the reference.\<close>

fun bt_modify :: "'k \<Rightarrow> ('v \<Rightarrow> 'v) \<Rightarrow> ('k, 'v) btree \<Rightarrow> ('k, 'v) btree" where
  "bt_modify k f [] = []"
| "bt_modify k f ((a, w) # m) = (if k = a then (a, f w) # m else (a, w) # bt_modify k f m)"

lemma bt_get_map_of: "bt_get m = map_of m"
proof (rule ext)
  show "bt_get m k = map_of m k" for k by (induction m k rule: bt_get.induct) auto
qed

lemma bt_get_in: "bt_get m k = Some v \<Longrightarrow> (k, v) \<in> set m"
  by (simp add: bt_get_map_of map_of_SomeD)

lemma bt_inv_simps [simp]:
  shows "bt_inv []"
    and "bt_inv ((a, v) # m) \<longleftrightarrow> (\<forall>b \<in> set (bt_keys m). a < b) \<and> bt_inv m"
  by (auto simp: bt_inv_def bt_keys_def)

lemma bt_keys_simps [simp]:
  shows "bt_keys [] = []" and "bt_keys ((a, v) # m) = a # bt_keys m"
  by (simp_all add: bt_keys_def)

lemma set_bt_keys: "set (bt_keys m) = dom (bt_get m)"
  by (simp add: bt_keys_def bt_get_map_of dom_map_of_conv_image_fst)

lemma bt_get_None: "bt_get m k = None \<longleftrightarrow> k \<notin> set (bt_keys m)"
  by (simp add: set_bt_keys domIff)

lemma bt_get_Some_in_keys: "bt_get m k = Some v \<Longrightarrow> k \<in> set (bt_keys m)"
  by (auto simp: set_bt_keys)

lemma bt_keys_insert: "set (bt_keys (bt_insert k v m)) = Set.insert k (set (bt_keys m))"
  by (induction k v m rule: bt_insert.induct) auto

lemma bt_inv_insert: "bt_inv m \<Longrightarrow> bt_inv (bt_insert k v m)"
  by (induction k v m rule: bt_insert.induct) (auto simp: bt_keys_insert)

lemma bt_get_insert: "bt_inv m \<Longrightarrow> bt_get (bt_insert k v m) x = (if x = k then Some v else bt_get m x)"
proof (induction k v m rule: bt_insert.induct)
  case (2 k v a w m)
  then show ?case by (auto simp: bt_get_None)
qed simp

lemma bt_keys_remove: "bt_inv m \<Longrightarrow> set (bt_keys (bt_remove k m)) = set (bt_keys m) - {k}"
  by (induction k m rule: bt_remove.induct) auto

lemma bt_inv_remove: "bt_inv m \<Longrightarrow> bt_inv (bt_remove k m)"
  by (induction k m rule: bt_remove.induct) (auto simp: bt_keys_remove)

lemma bt_get_remove: "bt_inv m \<Longrightarrow> bt_get (bt_remove k m) x = (if x = k then None else bt_get m x)"
proof (induction k m rule: bt_remove.induct)
  case (2 k a w m)
  then show ?case by (auto simp: bt_get_None)
qed simp

lemma bt_keys_modify [simp]: "bt_keys (bt_modify k f m) = bt_keys m"
  by (induction k f m rule: bt_modify.induct) auto

lemma bt_inv_modify [simp]: "bt_inv (bt_modify k f m) = bt_inv m"
  by (induction k f m rule: bt_modify.induct) auto

lemma bt_get_modify: "bt_get (bt_modify k f m) x = (if x = k then map_option f (bt_get m k) else bt_get m x)"
  by (induction k f m rule: bt_modify.induct) auto

lemma length_bt_remove: "k \<in> set (bt_keys m) \<Longrightarrow> Suc (length (bt_remove k m)) = length m"
  by (induction k m rule: bt_remove.induct) auto

lemma length_bt_modify [simp]: "length (bt_modify k f m) = length m"
  by (induction k f m rule: bt_modify.induct) auto

interpretation btree: ordered_map bt_get bt_insert bt_remove bt_keys bt_inv
proof (unfold_locales, goal_cases)
  case (4 m)
  then show ?case by (simp add: bt_inv_def bt_keys_def)
qed (auto simp: fun_eq_iff bt_get_insert bt_get_remove set_bt_keys bt_inv_insert bt_inv_remove)

section \<open>\<open>BTreeSet\<close>\<close>

fun bs_insert :: "'k::linorder \<Rightarrow> 'k list \<Rightarrow> 'k list" where
  "bs_insert k [] = [k]"
| "bs_insert k (a # s) = (if k < a then k # a # s else if k = a then a # s else a # bs_insert k s)"

definition bs_remove :: "'k \<Rightarrow> 'k list \<Rightarrow> 'k list" where
  "bs_remove k s = filter (\<lambda>a. a \<noteq> k) s"

lemma set_bs_insert [simp]: "set (bs_insert k s) = insert k (set s)"
  by (induction k s rule: bs_insert.induct) auto

lemma sorted_bs_insert: "sorted_wrt (<) s \<Longrightarrow> sorted_wrt (<) (bs_insert k s)"
  by (induction k s rule: bs_insert.induct) auto

lemma set_bs_remove [simp]: "set (bs_remove k s) = set s - {k}"
  by (auto simp: bs_remove_def)

lemma sorted_bs_remove: "sorted_wrt (<) s \<Longrightarrow> sorted_wrt (<) (bs_remove k s)"
  by (simp add: bs_remove_def sorted_wrt_filter)

section \<open>Binary search\<close>

text \<open>The found index, or the index where the key would be inserted.\<close>

function bsearch :: "('a \<Rightarrow> ordering) \<Rightarrow> 'a list \<Rightarrow> nat \<Rightarrow> nat \<Rightarrow> nat + nat" where
  "bsearch f xs lo hi =
     (if lo < hi then
        (let mid = lo + (hi - lo) div 2 in
         case f (xs ! mid) of
           Less \<Rightarrow> bsearch f xs (Suc mid) hi
         | Greater \<Rightarrow> bsearch f xs lo mid
         | Equal \<Rightarrow> Inr mid)
      else Inl lo)"
  by pat_completeness auto
termination
  by (relation "measure (\<lambda>(f, xs, lo, hi). hi - lo)") auto

declare bsearch.simps [simp del]

definition binary_search_by :: "('a \<Rightarrow> ordering) \<Rightarrow> 'a list \<Rightarrow> nat + nat" where
  "binary_search_by f xs = bsearch f xs 0 (length xs)"

text \<open>What the probe function must satisfy: first the elements below, then those above.\<close>

definition ordered_probe :: "('a \<Rightarrow> ordering) \<Rightarrow> 'a list \<Rightarrow> bool" where
  "ordered_probe f xs \<longleftrightarrow>
     sorted_wrt (\<lambda>x y. (f x = Greater \<longrightarrow> f y = Greater) \<and> (f y = Less \<longrightarrow> f x = Less)) xs"

lemma bsearch_found:
  "bsearch f xs lo hi = Inr i \<Longrightarrow> lo \<le> i \<and> i < hi \<and> f (xs ! i) = Equal"
proof (induction f xs lo hi rule: bsearch.induct)
  case (1 f xs lo hi)
  show ?case
  proof (cases "lo < hi")
    case True
    then have mid: "lo \<le> lo + (hi - lo) div 2" "lo + (hi - lo) div 2 < hi" by auto
    show ?thesis
      using "1.IH" [OF True refl] "1.prems" mid True
      by (subst (asm) bsearch.simps) (auto simp: Let_def split: ordering.splits)
  next
    case False
    with "1.prems" show ?thesis by (subst (asm) bsearch.simps) simp
  qed
qed

lemma bsearch_missing:
  assumes "ordered_probe f xs" and "lo \<le> hi" and "hi \<le> length xs"
    and "\<And>j. j < lo \<Longrightarrow> f (xs ! j) = Less"
    and "\<And>j. hi \<le> j \<Longrightarrow> j < length xs \<Longrightarrow> f (xs ! j) = Greater"
    and "bsearch f xs lo hi = Inl i"
  shows "i \<le> length xs \<and> (\<forall>j < i. f (xs ! j) = Less) \<and> (\<forall>j. i \<le> j \<and> j < length xs \<longrightarrow> f (xs ! j) = Greater)"
  using assms
proof (induction f xs lo hi rule: bsearch.induct)
  case (1 f xs lo hi)
  show ?case
  proof (cases "lo < hi")
    case True
    define mid where "mid = lo + (hi - lo) div 2"
    have mid: "lo \<le> mid" "mid < hi" using True by (auto simp: mid_def)
    then have len: "mid < length xs" using "1.prems"(3) by simp
    have below: "f (xs ! j) = Less" if "f (xs ! mid) = Less" "j \<le> mid" for j
      using that "1.prems"(1) len unfolding ordered_probe_def sorted_wrt_iff_nth_less
      by (cases "j = mid") (simp, metis le_neq_implies_less)
    have above: "f (xs ! j) = Greater" if "f (xs ! mid) = Greater" "mid \<le> j" "j < length xs" for j
      using that "1.prems"(1) unfolding ordered_probe_def sorted_wrt_iff_nth_less
      by (cases "j = mid") (simp, metis le_neq_implies_less)
    have step: "bsearch f xs lo hi =
        (case f (xs ! mid) of Less \<Rightarrow> bsearch f xs (Suc mid) hi
         | Greater \<Rightarrow> bsearch f xs lo mid | Equal \<Rightarrow> Inr mid)"
      using True unfolding mid_def by (subst bsearch.simps) (simp add: Let_def)
    show ?thesis
    proof (cases "f (xs ! mid)")
      case Less
      with step "1.prems"(6) have r: "bsearch f xs (Suc mid) hi = Inl i" by simp
      show ?thesis
        by (rule "1.IH"(1) [OF True mid_def Less "1.prems"(1) _ "1.prems"(3) _ "1.prems"(5) r])
          (use mid below [OF Less] in auto)
    next
      case Equal
      with step "1.prems"(6) show ?thesis by simp
    next
      case Greater
      with step "1.prems"(6) have r: "bsearch f xs lo mid = Inl i" by simp
      show ?thesis
        by (rule "1.IH"(2) [OF True mid_def Greater "1.prems"(1) mid(1) _ "1.prems"(4) _ r])
          (use len above [OF Greater] in auto)
    qed
  next
    case False
    then have "bsearch f xs lo hi = Inl lo" by (subst bsearch.simps) simp
    with False "1.prems" show ?thesis by auto
  qed
qed

lemma binary_search_found:
  "binary_search_by f xs = Inr i \<Longrightarrow> i < length xs \<and> f (xs ! i) = Equal"
  unfolding binary_search_by_def by (drule bsearch_found) simp

lemma binary_search_missing:
  assumes "ordered_probe f xs" and "binary_search_by f xs = Inl i"
  shows "i \<le> length xs" and "\<And>j. j < i \<Longrightarrow> f (xs ! j) = Less"
    and "\<And>j. i \<le> j \<Longrightarrow> j < length xs \<Longrightarrow> f (xs ! j) = Greater"
  using bsearch_missing [OF assms(1) _ order_refl, of 0 i] assms(2)
  unfolding binary_search_by_def by auto

lemma ordered_probe_key:
  "sorted_wrt (<) (map key xs) \<Longrightarrow> ordered_probe (\<lambda>x. rust_cmp (key x) k) xs"
  unfolding ordered_probe_def sorted_wrt_map
  by (rule sorted_wrt_mono_rel [where P = "\<lambda>x y. key x < key y"]) auto

lemma binary_search_key:
  assumes "sorted_wrt (<) (map key xs)"
  shows "binary_search_by (\<lambda>x. rust_cmp (key x) k) xs = Inr i \<longleftrightarrow> i < length xs \<and> key (xs ! i) = k"
    (is "?s = Inr i \<longleftrightarrow> ?r")
proof
  assume "?s = Inr i"
  then show ?r by (auto dest: binary_search_found)
next
  assume r: ?r
  show "?s = Inr i"
  proof (cases ?s)
    case (Inl n)
    note m = binary_search_missing [OF ordered_probe_key [OF assms] Inl]
    show ?thesis using m(2) [of i] m(3) [of i] r by (cases "i < n") auto
  next
    case (Inr n)
    then have "n < length xs" "key (xs ! n) = k" by (auto dest: binary_search_found)
    then have "map key xs ! n = map key xs ! i" using r by simp
    moreover have "distinct (map key xs)" using assms strict_sorted_iff by blast
    ultimately have "n = i" using r \<open>n < length xs\<close> by (metis length_map nth_eq_iff_index_eq)
    with Inr show ?thesis by simp
  qed
qed

lemma binary_search_key_ok:
  assumes "sorted_wrt (<) (map key xs)"
  shows "is_ok (binary_search_by (\<lambda>x. rust_cmp (key x) k) xs) \<longleftrightarrow> k \<in> key ` set xs"
  by (simp add: is_ok_iff binary_search_key [OF assms]) (metis in_set_conv_nth image_iff)

end
