(* ===== verification/Text_Arena.thy ===== *)
theory Text_Arena
  imports Prelude
begin

text \<open>
  The contract of the text tables the program packs strings into: a push returns a span, reading a
  span gives back what was pushed, and later pushes disturb no earlier span.
\<close>

locale text_arena =
  fixes push :: "'a \<Rightarrow> string \<Rightarrow> 'e + 'a \<times> 'span"
    and read :: "'a \<Rightarrow> 'span \<Rightarrow> string"
    and valid :: "'a \<Rightarrow> 'span \<Rightarrow> bool"
  assumes push_valid: "push a s = Inr (b, sp) \<Longrightarrow> valid b sp"
    and push_read: "push a s = Inr (b, sp) \<Longrightarrow> read b sp = s"
    and keeps_valid: "push a s = Inr (b, sp) \<Longrightarrow> valid a sp' \<Longrightarrow> valid b sp'"
    and keeps_read: "push a s = Inr (b, sp) \<Longrightarrow> valid a sp' \<Longrightarrow> read b sp' = read a sp'"
begin

text \<open>Pushing a batch, collecting a row built from each span.\<close>

definition push_row :: "('span \<Rightarrow> 'r) \<Rightarrow> 'a \<times> 'r list \<Rightarrow> string \<Rightarrow> 'e + 'a \<times> 'r list" where
  "push_row row st s = rbind (push (fst st) s) (\<lambda>(b, sp). Inr (b, snd st @ [row sp]))"

lemma push_row_eq: "push_row row (a, rows) s = rbind (push a s) (\<lambda>(b, sp). Inr (b, rows @ [row sp]))"
  by (simp add: push_row_def)

lemma push_rows:
  assumes "try_fold (push_row row) (a, rows) ss = Inr (b, rows')"
  shows "(\<forall>sp. valid a sp \<longrightarrow> valid b sp \<and> read b sp = read a sp)
    \<and> (\<exists>spans. rows' = rows @ map row spans \<and> (\<forall>sp \<in> set spans. valid b sp) \<and> map (read b) spans = ss)"
  using assms
proof (induction ss arbitrary: a rows)
  case Nil
  then show ?case by simp
next
  case (Cons s ss)
  from Cons.prems obtain a1 sp1 where p: "push a s = Inr (a1, sp1)"
    and rest: "try_fold (push_row row) (a1, rows @ [row sp1]) ss = Inr (b, rows')"
    by (auto simp: push_row_eq rbind_eq_Inr)
  from Cons.IH [OF rest] obtain spans where
      keep: "\<forall>sp. valid a1 sp \<longrightarrow> valid b sp \<and> read b sp = read a1 sp"
    and spans: "rows' = (rows @ [row sp1]) @ map row spans" "\<forall>sp \<in> set spans. valid b sp" "map (read b) spans = ss"
    by blast
  have "valid b sp1" "read b sp1 = s" using keep push_valid [OF p] push_read [OF p] by auto
  with spans have "rows' = rows @ map row (sp1 # spans) \<and> (\<forall>sp \<in> set (sp1 # spans). valid b sp)
      \<and> map (read b) (sp1 # spans) = s # ss" by simp
  moreover have "valid b sp \<and> read b sp = read a sp" if "valid a sp" for sp
    using keep keeps_valid [OF p that] keeps_read [OF p that] by simp
  ultimately show ?case by (intro conjI allI impI exI [of _ "sp1 # spans"]) auto
qed

end

end
