(* ===== verification/Runtime_Graph.thy ===== *)
theory Runtime_Graph
  imports Rust_Map Text_Arena Sdk_Discovery
begin

text \<open>
  \<open>crates/dv-core/src/runtime_graph.rs\<close>: the portable runtime-identifier graph, compiled into a text
  table, index ranges and breadth-first compatibility batches. A \<open>u32\<close> is a natural below
  \<open>2 ^ 32\<close>: every one is made by the checked conversion \<open>u32_len\<close>, and the additions are
  written modulo \<open>2 ^ 32\<close>. Indexing out of range is the failure \<open>Panic\<close>.
\<close>

section \<open>Data\<close>

record text_span =
  ts_start :: nat
  ts_len :: nat

record index_range =
  ir_start :: nat
  ir_len :: nat

record runtime_node =
  rn_identifier :: text_span
  rn_imports :: index_range

record 'p runtime_graph =
  rg_source :: 'p
  rg_text :: string
  rg_nodes :: "runtime_node list"
  rg_imports :: "nat list"
  rg_compatibility_ranges :: "index_range list"
  rg_compatibilities :: "nat list"

datatype graph_error_kind = GraphNotFound | GraphIo | InvalidJson | InvalidGraph | TextOverflow

datatype 'io graph_message =
  NoGraphFile string
| BadGraphJson string string
| EmptyIdentifier
| BatchOverflow string
| TextTableOverflow
| GraphIoFailure string string 'io

record ('p, 'io) graph_error =
  ge_kind :: graph_error_kind
  ge_path :: 'p
  ge_message :: "'io graph_message"

text \<open>An error value, or a panic.\<close>

datatype ('p, 'io) graph_failure = Err "('p, 'io) graph_error" | Panic

definition mk_graph_error :: "graph_error_kind \<Rightarrow> 'p \<Rightarrow> 'io graph_message \<Rightarrow> ('p, 'io) graph_failure" where
  "mk_graph_error kind path message = Err \<lparr>ge_kind = kind, ge_path = path, ge_message = message\<rparr>"

type_synonym graph_document = "(string, string list) btree"

section \<open>Checked building blocks\<close>

definition u32_len :: "nat \<Rightarrow> 'p \<Rightarrow> string \<Rightarrow> ('p, 'io) graph_failure + nat" where
  "u32_len value path batch =
     (if value < 2 ^ 32 then Inr value else Inl (mk_graph_error TextOverflow path (BatchOverflow batch)))"

definition validate_identifier :: "'p \<Rightarrow> string \<Rightarrow> ('p, 'io) graph_failure + unit" where
  "validate_identifier path identifier =
     (if identifier = [] then Inl (mk_graph_error InvalidGraph path EmptyIdentifier) else Inr ())"

definition push_text_span :: "'p \<Rightarrow> string \<Rightarrow> string \<Rightarrow> ('p, 'io) graph_failure + string \<times> text_span" where
  "push_text_span path text value =
     rbind (u32_len (length text) path ''runtime text table'') (\<lambda>start.
     rbind (u32_len (length value) path ''runtime identifier'') (\<lambda>len.
       if 2 ^ 32 \<le> start + len then Inl (mk_graph_error TextOverflow path TextTableOverflow)
       else Inr (text @ value, \<lparr>ts_start = start, ts_len = len\<rparr>)))"

definition get_span :: "string \<Rightarrow> text_span \<Rightarrow> string" where
  "get_span text span = take (ts_len span) (drop (ts_start span) text)"

text \<open>\<open>items[range(r)]\<close>: the upper end is a 32-bit sum; an inverted or too long range panics.\<close>

definition slice_range :: "'a list \<Rightarrow> index_range \<Rightarrow> 'a list option" where
  "slice_range items r =
     (let finish = (ir_start r + ir_len r) mod 2 ^ 32
      in if ir_start r \<le> finish \<and> finish \<le> length items
         then Some (take (finish - ir_start r) (drop (ir_start r) items)) else None)"

section \<open>Breadth-first compatibility\<close>

fun visit_imports :: "nat \<Rightarrow> nat list \<Rightarrow> nat list \<Rightarrow> nat list \<Rightarrow> (nat list \<times> nat list) option" where
  "visit_imports generation [] visited queue = Some (visited, queue)"
| "visit_imports generation (imported # rest) visited queue =
     (if length visited \<le> imported then None
      else if visited ! imported \<noteq> generation
      then visit_imports generation rest (visited[imported := generation]) (queue @ [imported])
      else visit_imports generation rest visited queue)"

definition unvisited :: "nat \<Rightarrow> nat list \<Rightarrow> nat" where
  "unvisited generation visited = length (filter (\<lambda>g. g \<noteq> generation) visited)"

lemma unvisited_update:
  "i < length v \<Longrightarrow> v ! i \<noteq> g \<Longrightarrow> Suc (unvisited g (v[i := g])) = unvisited g v"
proof (induction v arbitrary: i)
  case Nil
  then show ?case by simp
next
  case (Cons x v)
  show ?case
  proof (cases i)
    case 0
    with Cons.prems show ?thesis by (simp add: unvisited_def)
  next
    case (Suc j)
    with Cons have "Suc (unvisited g (v[j := g])) = unvisited g v" by simp
    with Suc show ?thesis by (simp add: unvisited_def)
  qed
qed

lemma visit_imports_measure:
  "visit_imports g is v q = Some (v', q') \<Longrightarrow>
     unvisited g v' + length q' = unvisited g v + length q \<and> length v' = length v \<and> length q \<le> length q'"
proof (induction g "is" v q rule: visit_imports.induct)
  case (2 g i "rest" v q)
  show ?case
  proof (cases "v ! i \<noteq> g")
    case True
    with "2.prems" have "i < length v" "visit_imports g rest (v[i := g]) (q @ [i]) = Some (v', q')"
      by (auto split: if_splits)
    with "2.IH"(1) True unvisited_update [of i v g] show ?thesis by fastforce
  next
    case False
    with "2.prems" have "i < length v" "visit_imports g rest v q = Some (v', q')"
      by (auto split: if_splits)
    with "2.IH"(2) False show ?thesis by simp
  qed
qed simp

function bfs ::
    "runtime_node list \<Rightarrow> nat list \<Rightarrow> nat \<Rightarrow> nat list \<Rightarrow> nat \<Rightarrow> nat list \<Rightarrow> nat list \<Rightarrow> (nat list \<times> nat list) option" where
  "bfs nodes imports generation queue cursor visited compatibility =
     (if cursor < length queue
      then (let node_index = queue ! cursor in
            if length nodes \<le> node_index then None
            else (case slice_range imports (rn_imports (nodes ! node_index)) of
                None \<Rightarrow> None
              | Some imported \<Rightarrow>
                  (case visit_imports generation imported visited queue of
                     None \<Rightarrow> None
                   | Some (visited', queue') \<Rightarrow>
                       bfs nodes imports generation queue' (Suc cursor) visited' (compatibility @ [node_index]))))
      else Some (visited, compatibility))"
  by pat_completeness auto
termination
proof (relation "measure (\<lambda>(nodes, imports, g, queue, cursor, visited, c). unvisited g visited + (length queue - cursor))",
    goal_cases)
  case (2 nodes imp g queue cursor visited c x imported p visited' queue')
  then have "unvisited g visited' + length queue' = unvisited g visited + length queue"
    and "length queue \<le> length queue'"
    using visit_imports_measure by (metis fst_conv)+
  with 2(1) show ?case by simp
qed simp

declare bfs.simps [simp del]

definition compile_start ::
    "'p \<Rightarrow> runtime_node list \<Rightarrow> nat list \<Rightarrow> index_range list \<times> nat list \<times> nat list \<Rightarrow> nat \<Rightarrow>
     ('p, 'io) graph_failure + index_range list \<times> nat list \<times> nat list" where
  "compile_start path nodes imports st start_node =
     (case st of (ranges, compatibility, visited) \<Rightarrow>
       rbind (u32_len start_node path ''runtime traversal generation'') (\<lambda>g.
       let generation = (g + 1) mod 2 ^ 32 in
       rbind (u32_len (length compatibility) path ''runtime compatibility batch'') (\<lambda>start.
       case bfs nodes imports generation [start_node] 0 (visited[start_node := generation]) compatibility of
         None \<Rightarrow> Inl Panic
       | Some (visited', compatibility') \<Rightarrow>
           rbind (u32_len (length compatibility') path ''runtime compatibility batch'') (\<lambda>finish.
             Inr (ranges @ [\<lparr>ir_start = start, ir_len = finish - start\<rparr>], compatibility', visited')))))"

definition compile_compatibility_ranges ::
    "'p \<Rightarrow> runtime_node list \<Rightarrow> nat list \<Rightarrow> ('p, 'io) graph_failure + index_range list \<times> nat list" where
  "compile_compatibility_ranges path nodes imports =
     rbind (try_fold (compile_start path nodes imports) ([], [], replicate (length nodes) 0) [0..<length nodes])
       (\<lambda>(ranges, compatibility, _). Inr (ranges, compatibility))"

section \<open>Loading\<close>

definition note_missing ::
    "'p \<Rightarrow> graph_document \<Rightarrow> string list \<Rightarrow> string \<Rightarrow> ('p, 'io) graph_failure + string list" where
  "note_missing path document missing import =
     rbind (validate_identifier path import) (\<lambda>_.
       if bt_get document import = None \<and> import \<notin> set missing then Inr (missing @ [import]) else Inr missing)"

definition push_node ::
    "'p \<Rightarrow> string \<times> runtime_node list \<Rightarrow> string \<Rightarrow> ('p, 'io) graph_failure + string \<times> runtime_node list" where
  "push_node path st identifier =
     rbind (push_text_span path (fst st) identifier) (\<lambda>(text, span).
       Inr (text, snd st @ [\<lparr>rn_identifier = span, rn_imports = \<lparr>ir_start = 0, ir_len = 0\<rparr>\<rparr>]))"

definition find_import ::
    "'p \<Rightarrow> string \<Rightarrow> runtime_node list \<Rightarrow> nat list \<Rightarrow> string \<Rightarrow> ('p, 'io) graph_failure + nat list" where
  "find_import path text nodes imports import =
     (case binary_search_by (\<lambda>node. rust_cmp (get_span text (rn_identifier node)) import) nodes of
        Inl _ \<Rightarrow> Inl Panic
      | Inr imported \<Rightarrow>
          rbind (u32_len imported path ''runtime node index'') (\<lambda>i. Inr (imports @ [i])))"

definition link_node ::
    "'p \<Rightarrow> string \<Rightarrow> runtime_node list \<times> nat list \<Rightarrow> nat \<times> string list \<Rightarrow>
     ('p, 'io) graph_failure + runtime_node list \<times> nat list" where
  "link_node path text st runtime =
     (case (st, runtime) of ((nodes, imports), (index, runtime_imports)) \<Rightarrow>
       rbind (u32_len (length imports) path ''runtime import batch'') (\<lambda>start.
       rbind (try_fold (find_import path text nodes) imports runtime_imports) (\<lambda>imports'.
       rbind (u32_len (length imports') path ''runtime import batch'') (\<lambda>finish.
         Inr (nodes[index := (nodes ! index)\<lparr>rn_imports := \<lparr>ir_start = start, ir_len = finish - start\<rparr>\<rparr>], imports')))))"

definition compile_graph :: "'p \<Rightarrow> graph_document \<Rightarrow> ('p, 'io) graph_failure + 'p runtime_graph" where
  "compile_graph path document =
     rbind (try_fold (\<lambda>_. validate_identifier path) () (bt_keys document)) (\<lambda>_.
     rbind (try_fold (note_missing path document) [] (concat (bt_values document))) (\<lambda>missing.
     let document = foldl (\<lambda>d identifier. bt_insert identifier [] d) document missing in
     rbind (u32_len (length document) path ''runtime node batch'') (\<lambda>_.
     rbind (try_fold (push_node path) ([], []) (bt_keys document)) (\<lambda>(text, nodes).
     rbind (try_fold (link_node path text) (nodes, []) (List.enumerate 0 (bt_values document))) (\<lambda>(nodes, imports).
     rbind (compile_compatibility_ranges path nodes imports) (\<lambda>(ranges, indices).
       Inr \<lparr>rg_source = path, rg_text = text, rg_nodes = nodes, rg_imports = imports,
            rg_compatibility_ranges = ranges, rg_compatibilities = indices\<rparr>))))))"

text \<open>The JSON reader is the argument \<open>from_json\<close>.\<close>

definition load_graph ::
    "('p, 'io) machine \<Rightarrow> (string \<Rightarrow> string + graph_document) \<Rightarrow> 'p \<Rightarrow> ('p, 'io) graph_failure + 'p runtime_graph" where
  "load_graph m from_json path =
     rbind (map_error (\<lambda>e. mk_graph_error GraphIo path (GraphIoFailure ''read'' (path_text m path) e)) (read_file m path)) (\<lambda>bytes.
     let bytes = (case strip_prefix [CHR 0xEF, CHR 0xBB, CHR 0xBF] bytes of None \<Rightarrow> bytes | Some b \<Rightarrow> b) in
     rbind (map_error (\<lambda>e. mk_graph_error InvalidJson path (BadGraphJson (path_text m path) e)) (from_json bytes))
       (compile_graph path))"

definition load_portable_runtime_graph ::
    "('p, 'io) machine \<Rightarrow> (string \<Rightarrow> string + graph_document) \<Rightarrow> 'p sdk_inventory \<Rightarrow>
     ('p, 'io) graph_failure + 'p runtime_graph" where
  "load_portable_runtime_graph m from_json inventory =
     (let path = path_join m (inv_installation_path m (inv_roots inventory) (inv_selected inventory))
        ''PortableRuntimeIdentifierGraph.json''
      in if \<not> is_file m path then Inl (mk_graph_error GraphNotFound path (NoGraphFile (path_text m path)))
         else load_graph m from_json path)"

section \<open>Queries\<close>

definition find_node :: "'p runtime_graph \<Rightarrow> string \<Rightarrow> nat option" where
  "find_node g runtime_identifier =
     (case binary_search_by (\<lambda>node. rust_cmp (get_span (rg_text g) (rn_identifier node)) runtime_identifier) (rg_nodes g) of
        Inl _ \<Rightarrow> None | Inr i \<Rightarrow> Some i)"

definition node_identifier :: "'p runtime_graph \<Rightarrow> nat \<Rightarrow> string" where
  "node_identifier g index = get_span (rg_text g) (rn_identifier (rg_nodes g ! index))"

text \<open>\<open>None\<close> of the outer option is the panic of a slice.\<close>

definition direct_imports :: "'p runtime_graph \<Rightarrow> string \<Rightarrow> string list option option" where
  "direct_imports g runtime_identifier =
     (case find_node g runtime_identifier of
        None \<Rightarrow> Some None
      | Some index \<Rightarrow>
          map_option (\<lambda>is. Some (map (node_identifier g) is))
            (slice_range (rg_imports g) (rn_imports (rg_nodes g ! index))))"

definition compatibility_batch :: "'p runtime_graph \<Rightarrow> nat \<Rightarrow> nat list option" where
  "compatibility_batch g index =
     (if index < length (rg_compatibility_ranges g)
      then slice_range (rg_compatibilities g) (rg_compatibility_ranges g ! index) else None)"

definition compatible_rids :: "'p runtime_graph \<Rightarrow> string \<Rightarrow> string list option" where
  "compatible_rids g runtime_identifier =
     (case find_node g runtime_identifier of
        None \<Rightarrow> Some [runtime_identifier]
      | Some index \<Rightarrow>
          Option.bind (compatibility_batch g index) (\<lambda>batch.
            if batch = [] then None
            else Some (runtime_identifier # map (node_identifier g) (tl batch))))"

definition are_compatible :: "'p runtime_graph \<Rightarrow> string \<Rightarrow> string \<Rightarrow> bool option" where
  "are_compatible g requested provided =
     (if requested = provided then Some True
      else (case find_node g requested of
          None \<Rightarrow> Some False
        | Some requested_index \<Rightarrow>
            (case find_node g provided of
               None \<Rightarrow> Some False
             | Some provided_index \<Rightarrow>
                 map_option (\<lambda>batch. provided_index \<in> set batch) (compatibility_batch g requested_index))))"

end
