(* ===== verification/Bfs.thy ===== *)
theory Bfs
  imports Runtime_Graph
begin

text \<open>
  The breadth-first traversal of the runtime graph visits exactly the reachable nodes, each once,
  in the order of their distance from the start.
\<close>

definition node_edges :: "runtime_node list \<Rightarrow> nat list \<Rightarrow> (nat \<times> nat) set" where
  "node_edges nodes imp =
     {(i, j). i < length nodes \<and> (\<exists>js. slice_range imp (rn_imports (nodes ! i)) = Some js \<and> j \<in> set js)}"

definition wf_nodes :: "runtime_node list \<Rightarrow> nat list \<Rightarrow> bool" where
  "wf_nodes nodes imp \<longleftrightarrow>
     (\<forall>i < length nodes. \<exists>js. slice_range imp (rn_imports (nodes ! i)) = Some js \<and> (\<forall>j \<in> set js. j < length nodes))"

definition marked :: "nat \<Rightarrow> nat list \<Rightarrow> nat list \<Rightarrow> bool" where
  "marked g visited queue \<longleftrightarrow> (\<forall>j < length visited. visited ! j = g \<longleftrightarrow> j \<in> set queue)"

lemma visit_imports_result:
  assumes "\<forall>j \<in> set js. j < length visited" and "marked g visited queue" and "distinct queue"
  shows "\<exists>visited' new. visit_imports g js visited queue = Some (visited', queue @ new)
    \<and> length visited' = length visited \<and> marked g visited' (queue @ new) \<and> distinct (queue @ new)
    \<and> set (queue @ new) = set queue \<union> set js"
  using assms
proof (induction g js visited queue rule: visit_imports.induct)
  case (1 g visited queue)
  then show ?case by auto
next
  case (2 g j js visited queue)
  have j: "j < length visited" using "2.prems"(1) by simp
  show ?case
  proof (cases "visited ! j = g")
    case True
    with "2.prems" j have "j \<in> set queue" by (simp add: marked_def)
    moreover have "\<forall>i \<in> set js. i < length visited" using "2.prems"(1) by simp
    ultimately show ?thesis
      using "2.IH"(2) [OF _ _ _ "2.prems"(2,3)] True j by (simp add: insert_absorb)
  next
    case False
    with "2.prems" j have new: "j \<notin> set queue" by (auto simp: marked_def)
    have m: "marked g (visited[j := g]) (queue @ [j])"
      using "2.prems"(2) j by (auto simp: marked_def nth_list_update)
    have "\<forall>i \<in> set js. i < length (visited[j := g])" "distinct (queue @ [j])" "\<not> length visited \<le> j"
      using "2.prems" new j by simp_all
    from "2.IH"(1) [OF this(3) False this(1) m this(2)] obtain visited' rest where
      "visit_imports g js (visited[j := g]) (queue @ [j]) = Some (visited', (queue @ [j]) @ rest)"
      "length visited' = length (visited[j := g])" "marked g visited' ((queue @ [j]) @ rest)"
      "distinct ((queue @ [j]) @ rest)" "set ((queue @ [j]) @ rest) = set (queue @ [j]) \<union> set js" by blast
    then show ?thesis using False j by (intro exI [of _ visited'] exI [of _ "j # rest"]) simp
  qed
qed

text \<open>The invariant of the loop, with the level of every queued node.\<close>

definition bfs_inv :: "(nat \<times> nat) set \<Rightarrow> nat \<Rightarrow> nat \<Rightarrow> nat list \<Rightarrow> nat list \<Rightarrow> bool" where
  "bfs_inv E s cursor queue levels \<longleftrightarrow>
     length levels = length queue \<and> sorted levels \<and> distinct queue \<and> cursor \<le> length queue
   \<and> (\<exists>q. queue = s # q) \<and> levels ! 0 = 0
   \<and> (\<forall>i < length queue. (s, queue ! i) \<in> E ^^ (levels ! i))
   \<and> (\<forall>i < cursor. \<forall>y. (queue ! i, y) \<in> E \<longrightarrow> (\<exists>j < length queue. queue ! j = y \<and> levels ! j \<le> Suc (levels ! i)))
   \<and> (cursor < length queue \<longrightarrow> (\<forall>j < length queue. levels ! j \<le> Suc (levels ! cursor)))"

lemma bfs_inv_start: "bfs_inv E s 0 [s] [0]"
  by (simp add: bfs_inv_def)

lemma bfs_inv_step:
  assumes inv: "bfs_inv E s cursor queue levels" and c: "cursor < length queue"
    and d: "distinct (queue @ new)" and cover: "set (queue @ new) = set queue \<union> E `` {queue ! cursor}"
  shows "bfs_inv E s (Suc cursor) (queue @ new) (levels @ replicate (length new) (Suc (levels ! cursor)))"
proof -
  let ?q = "queue @ new" and ?l = "levels @ replicate (length new) (Suc (levels ! cursor))"
  have len: "length levels = length queue" and sorted: "sorted levels"
    and lev: "\<forall>i < length queue. (s, queue ! i) \<in> E ^^ (levels ! i)"
    and closed: "\<forall>i < cursor. \<forall>y. (queue ! i, y) \<in> E \<longrightarrow> (\<exists>j < length queue. queue ! j = y \<and> levels ! j \<le> Suc (levels ! i))"
    and top: "\<forall>j < length queue. levels ! j \<le> Suc (levels ! cursor)"
    using inv c by (simp_all add: bfs_inv_def)
  have ll: "length ?l = length ?q" using len by simp
  have "sorted ?l"
    using sorted top len by (auto simp: sorted_append set_conv_nth)
  have newlev: "?l ! i = Suc (levels ! cursor)" if "length queue \<le> i" "i < length ?q" for i
    using that len by (simp add: nth_append)
  have oldlev: "?l ! i = levels ! i" if "i < length queue" for i
    using that len by (simp add: nth_append)
  have reach: "(s, ?q ! i) \<in> E ^^ (?l ! i)" if "i < length ?q" for i
  proof (cases "i < length queue")
    case True
    with lev oldlev show ?thesis by (simp add: nth_append)
  next
    case False
    then have "?q ! i \<in> set new" using that by (simp add: nth_append)
    with d cover have "(queue ! cursor, ?q ! i) \<in> E" by auto
    moreover have "(s, queue ! cursor) \<in> E ^^ (levels ! cursor)" using lev c by simp
    ultimately have "(s, ?q ! i) \<in> E ^^ Suc (levels ! cursor)" by auto
    with newlev False that show ?thesis by simp
  qed
  have covers: "\<exists>j < length ?q. ?q ! j = y \<and> ?l ! j \<le> Suc (?l ! i)" if "i < Suc cursor" "(?q ! i, y) \<in> E" for i y
  proof (cases "i = cursor")
    case True
    with that c have "y \<in> set ?q" using cover by (auto simp: nth_append)
    then obtain j where j: "j < length ?q" "?q ! j = y" by (metis in_set_conv_nth)
    moreover have "?l ! j \<le> Suc (?l ! i)"
      using j(1) top newlev [of j] oldlev [of j] oldlev [OF c] True by (cases "j < length queue") simp_all
    ultimately show ?thesis by blast
  next
    case False
    with that c have "i < cursor" "(queue ! i, y) \<in> E" by (auto simp: nth_append)
    with closed obtain j where "j < length queue" "queue ! j = y" "levels ! j \<le> Suc (levels ! i)" by blast
    with oldlev \<open>i < cursor\<close> c show ?thesis by (intro exI [of _ j]) (auto simp: nth_append)
  qed
  have next_top: "?l ! j \<le> Suc (?l ! Suc cursor)" if "Suc cursor < length ?q" "j < length ?q" for j
  proof -
    have "?l ! cursor \<le> ?l ! Suc cursor"
      using \<open>sorted ?l\<close> that(1) ll by (simp add: sorted_iff_nth_mono)
    moreover have "?l ! j \<le> Suc (levels ! cursor)"
      using that(2) top newlev [of j] oldlev [of j] by (cases "j < length queue") simp_all
    ultimately show ?thesis using oldlev [OF c] by simp
  qed
  have "\<exists>q. ?q = s # q" "?l ! 0 = 0" using inv oldlev [of 0] by (auto simp: bfs_inv_def)
  with ll \<open>sorted ?l\<close> d c reach covers next_top show ?thesis
    unfolding bfs_inv_def by auto
qed

text \<open>At the end the levels are the distances and every reachable node is queued.\<close>

lemma bfs_inv_complete:
  assumes inv: "bfs_inv E s (length queue) queue levels" and "(s, y) \<in> E ^^ k"
  shows "\<exists>j < length queue. queue ! j = y \<and> levels ! j \<le> k"
  using assms(2)
proof (induction k arbitrary: y)
  case 0
  with inv show ?case by (auto simp: bfs_inv_def)
next
  case (Suc k)
  then obtain x where "(s, x) \<in> E ^^ k" "(x, y) \<in> E" by auto
  with Suc.IH obtain i where "i < length queue" "queue ! i = x" "levels ! i \<le> k" by blast
  with inv \<open>(x, y) \<in> E\<close> obtain j where "j < length queue" "queue ! j = y" "levels ! j \<le> Suc (levels ! i)"
    unfolding bfs_inv_def by blast
  with \<open>levels ! i \<le> k\<close> show ?case by (intro exI [of _ j]) simp
qed

definition distance_to :: "(nat \<times> nat) set \<Rightarrow> nat \<Rightarrow> nat \<Rightarrow> nat \<Rightarrow> bool" where
  "distance_to E s y k \<longleftrightarrow> (s, y) \<in> E ^^ k \<and> (\<forall>j < k. (s, y) \<notin> E ^^ j)"

definition bfs_order :: "(nat \<times> nat) set \<Rightarrow> nat \<Rightarrow> nat list \<Rightarrow> bool" where
  "bfs_order E s out \<longleftrightarrow>
     distinct out \<and> set out = {y. (s, y) \<in> E\<^sup>*} \<and> (\<exists>q. out = s # q)
   \<and> (\<exists>levels. sorted levels \<and> list_all2 (distance_to E s) out levels)"

lemma bfs_inv_order:
  assumes inv: "bfs_inv E s (length queue) queue levels"
  shows "bfs_order E s queue"
proof -
  have dist: "distance_to E s (queue ! i) (levels ! i)" if "i < length queue" for i
  proof -
    have "(s, queue ! i) \<notin> E ^^ k" if "k < levels ! i" for k
    proof
      assume "(s, queue ! i) \<in> E ^^ k"
      from bfs_inv_complete [OF inv this] obtain j where j: "j < length queue" "queue ! j = queue ! i" "levels ! j \<le> k"
        by blast
      with inv \<open>i < length queue\<close> have "j = i" by (simp add: bfs_inv_def nth_eq_iff_index_eq)
      with j(3) that show False by simp
    qed
    with inv that show ?thesis by (simp add: distance_to_def bfs_inv_def)
  qed
  have "set queue = {y. (s, y) \<in> E\<^sup>*}"
  proof (intro set_eqI iffI)
    fix y assume "y \<in> set queue"
    then obtain i where "i < length queue" "queue ! i = y" by (metis in_set_conv_nth)
    with dist [of i] show "y \<in> {y. (s, y) \<in> E\<^sup>*}" by (auto simp: distance_to_def rtrancl_power)
  next
    fix y assume "y \<in> {y. (s, y) \<in> E\<^sup>*}"
    then obtain k where "(s, y) \<in> E ^^ k" by (auto simp: rtrancl_power)
    from bfs_inv_complete [OF inv this] show "y \<in> set queue" by auto
  qed
  moreover have "list_all2 (distance_to E s) queue levels"
    using dist inv by (simp add: list_all2_conv_all_nth bfs_inv_def)
  ultimately show ?thesis using inv unfolding bfs_order_def bfs_inv_def by blast
qed

lemma bfs_correct:
  assumes "wf_nodes nodes imp" and "length visited = length nodes" and "marked g visited queue"
    and "set queue \<subseteq> {..<length nodes}"
    and "bfs_inv (node_edges nodes imp) s cursor queue levels"
    and "acc = pre @ take cursor queue"
  shows "\<exists>visited' out. bfs nodes imp g queue cursor visited acc = Some (visited', pre @ out)
    \<and> length visited' = length nodes \<and> bfs_order (node_edges nodes imp) s out"
  using assms
proof (induction nodes imp g queue cursor visited acc arbitrary: levels rule: bfs.induct)
  case (1 nodes imp g queue cursor visited acc)
  let ?E = "node_edges nodes imp"
  have distinct: "distinct queue" using "1.prems"(5) by (simp add: bfs_inv_def)
  show ?case
  proof (cases "cursor < length queue")
    case False
    with "1.prems"(5) have "cursor = length queue" by (simp add: bfs_inv_def)
    with "1.prems"(2,5,6) bfs_inv_order show ?thesis by (subst bfs.simps) auto
  next
    case True
    let ?n = "queue ! cursor"
    have n: "?n < length nodes" using True "1.prems"(4) nth_mem by fastforce
    with "1.prems"(1) obtain js where js: "slice_range imp (rn_imports (nodes ! ?n)) = Some js"
        "\<forall>j \<in> set js. j < length nodes" unfolding wf_nodes_def by blast
    have E: "?E `` {?n} = set js" using n js by (auto simp: node_edges_def)
    from visit_imports_result [of js visited g queue] js(2) "1.prems"(2,3) distinct
    obtain visited' new where v: "visit_imports g js visited queue = Some (visited', queue @ new)"
      "length visited' = length visited" "marked g visited' (queue @ new)" "distinct (queue @ new)"
      "set (queue @ new) = set queue \<union> set js" by auto
    have inv: "bfs_inv ?E s (Suc cursor) (queue @ new) (levels @ replicate (length new) (Suc (levels ! cursor)))"
      by (rule bfs_inv_step [OF "1.prems"(5) True v(4)]) (simp only: v(5) E)
    have sub: "set (queue @ new) \<subseteq> {..<length nodes}" using v(5) js(2) "1.prems"(4) by auto
    have pre: "acc @ [?n] = pre @ take (Suc cursor) (queue @ new)"
      using "1.prems"(6) True by (simp add: take_Suc_conv_app_nth)
    have "bfs nodes imp g queue cursor visited acc =
        bfs nodes imp g (queue @ new) (Suc cursor) visited' (acc @ [?n])"
      using True n js v by (subst bfs.simps) (simp add: Let_def)
    moreover have "\<exists>visited'' out. bfs nodes imp g (queue @ new) (Suc cursor) visited' (acc @ [?n]) = Some (visited'', pre @ out)
        \<and> length visited'' = length nodes \<and> bfs_order ?E s out"
      by (rule "1.IH" [OF True refl _ js(1) v(1) refl "1.prems"(1) _ v(3) sub inv pre])
        (use n v(2) "1.prems"(2) in simp_all)
    ultimately show ?thesis by simp
  qed
qed

end
