(* ===== verification/Runtime_Graph_Facts.thy ===== *)
theory Runtime_Graph_Facts
  imports Bfs
begin

text \<open>
  What loading a runtime graph establishes: the compiled spans, ranges and batches denote the
  document's import relation, so a compatibility query decides its reflexive-transitive closure.
\<close>

abbreviation no_panic :: "('p, 'io) graph_failure \<Rightarrow> bool" where
  "no_panic e \<equiv> e \<noteq> Panic"

lemma outcome_u32_len: "outcome no_panic (\<lambda>n. n = value \<and> value < 2 ^ 32) (u32_len value path batch)"
  by (simp add: u32_len_def mk_graph_error_def)

lemma outcome_validate: "outcome no_panic (\<lambda>_. identifier \<noteq> []) (validate_identifier path identifier)"
  by (simp add: validate_identifier_def mk_graph_error_def)

section \<open>Ranges\<close>

text \<open>A range made from checked bounds, and what it reads now and after the list has grown.\<close>

definition good_range :: "'a list \<Rightarrow> index_range \<Rightarrow> 'a list \<Rightarrow> bool" where
  "good_range items r xs \<longleftrightarrow>
     ir_start r + ir_len r < 2 ^ 32 \<and> ir_start r + ir_len r \<le> length items
   \<and> take (ir_len r) (drop (ir_start r) items) = xs"

lemma good_range_slice: "good_range items r xs \<Longrightarrow> slice_range items r = Some xs"
  by (simp add: good_range_def slice_range_def Let_def)

lemma good_range_append: "good_range items r xs \<Longrightarrow> good_range (items @ ys) r xs"
  by (simp add: good_range_def)

lemma good_range_new:
  "length (items @ xs) < 2 ^ 32 \<Longrightarrow>
     good_range (items @ xs) \<lparr>ir_start = length items, ir_len = length (items @ xs) - length items\<rparr> xs"
  by (simp add: good_range_def)

section \<open>The compatibility batches\<close>

definition batches_inv ::
    "runtime_node list \<Rightarrow> nat list \<Rightarrow> nat \<Rightarrow> index_range list \<times> nat list \<times> nat list \<Rightarrow> bool" where
  "batches_inv nodes imp k st \<longleftrightarrow>
     (case st of (ranges, batch, visited) \<Rightarrow>
        length ranges = k \<and> length visited = length nodes \<and> (\<forall>j < length visited. visited ! j \<le> k)
      \<and> (\<forall>i < k. \<exists>out. good_range batch (ranges ! i) out \<and> bfs_order (node_edges nodes imp) i out))"

lemma visit_imports_bound:
  "visit_imports g js visited queue = Some (visited', queue') \<Longrightarrow> \<forall>j < length visited. visited ! j \<le> g \<Longrightarrow>
    \<forall>j < length visited'. visited' ! j \<le> g"
  by (induction g js visited queue rule: visit_imports.induct) (auto simp: nth_list_update split: if_splits)

lemma bfs_bound:
  "bfs nodes imp g queue cursor visited acc = Some (visited', out) \<Longrightarrow> \<forall>j < length visited. visited ! j \<le> g \<Longrightarrow>
    \<forall>j < length visited'. visited' ! j \<le> g"
proof (induction nodes imp g queue cursor visited acc rule: bfs.induct)
  case (1 nodes imp g queue cursor visited acc)
  show ?case
  proof (cases "cursor < length queue")
    case False
    with "1.prems" show ?thesis by (subst (asm) bfs.simps) simp
  next
    case True
    with "1.prems"(1) obtain js v q where
      s: "\<not> length nodes \<le> queue ! cursor" "slice_range imp (rn_imports (nodes ! (queue ! cursor))) = Some js"
        "visit_imports g js visited queue = Some (v, q)"
        "bfs nodes imp g q (Suc cursor) v (acc @ [queue ! cursor]) = Some (visited', out)"
      by (subst (asm) bfs.simps) (auto simp: Let_def split: if_splits option.splits)
    show ?thesis
      by (rule "1.IH" [OF True refl s(1,2,3) refl s(4) visit_imports_bound [OF s(3) "1.prems"(2)]])
  qed
qed

lemma batches_step:
  assumes wf: "wf_nodes nodes imp" and size: "length nodes < 2 ^ 32" and k: "k < length nodes"
    and inv: "batches_inv nodes imp k st"
  shows "outcome no_panic (batches_inv nodes imp (Suc k)) (compile_start path nodes imp st k)"
proof -
  obtain ranges batch visited where st: "st = (ranges, batch, visited)" by (cases st)
  let ?E = "node_edges nodes imp" and ?v = "visited[k := Suc k]"
  have g: "(k + 1) mod 2 ^ 32 = Suc k" "k < 2 ^ 32" using size k by simp_all
  have v: "length visited = length nodes" "\<forall>j < length visited. visited ! j \<le> k"
    and rl: "length ranges = k"
    and old: "\<forall>i < k. \<exists>out. good_range batch (ranges ! i) out \<and> bfs_order ?E i out"
    using inv by (auto simp: batches_inv_def st)
  have mark: "marked (Suc k) ?v [k]"
    using v k by (auto simp: marked_def nth_list_update)
  obtain v' out where b: "bfs nodes imp (Suc k) [k] 0 ?v batch = Some (v', batch @ out)"
      "length v' = length nodes" "bfs_order ?E k out"
    using bfs_correct [OF wf _ mark _ bfs_inv_start, of batch batch] v(1) k by auto
  have bound: "\<forall>j < length v'. v' ! j \<le> Suc k"
    by (rule bfs_bound [OF b(1)]) (use v k in \<open>auto simp: nth_list_update le_SucI\<close>)
  have run: "compile_start path nodes imp st k =
      rbind (u32_len (length batch) path ''runtime compatibility batch'') (\<lambda>start.
        rbind (u32_len (length (batch @ out)) path ''runtime compatibility batch'') (\<lambda>finish.
          Inr (ranges @ [\<lparr>ir_start = start, ir_len = finish - start\<rparr>], batch @ out, v')))"
    using g b(1) by (simp add: compile_start_def st u32_len_def Let_def)
  show ?thesis unfolding run
  proof (rule outcome_rbind [OF outcome_u32_len], rule outcome_rbind [OF outcome_u32_len])
    fix start finish
    assume s: "start = length batch \<and> length batch < 2 ^ 32"
      and f: "finish = length (batch @ out) \<and> length (batch @ out) < 2 ^ 32"
    have "\<exists>o'. good_range (batch @ out) ((ranges @ [\<lparr>ir_start = start, ir_len = finish - start\<rparr>]) ! i) o' \<and> bfs_order ?E i o'"
      if "i < Suc k" for i
    proof (cases "i < k")
      case True
      with old rl show ?thesis by (auto simp: nth_append intro: good_range_append)
    next
      case False
      with that have "i = k" by simp
      with rl b(3) good_range_new [of batch out] f s show ?thesis by (auto simp: nth_append)
    qed
    with rl b(2) bound show "outcome no_panic (batches_inv nodes imp (Suc k))
        (Inr (ranges @ [\<lparr>ir_start = start, ir_len = finish - start\<rparr>], batch @ out, v'))"
      by (simp add: batches_inv_def)
  qed
qed

lemma compile_compatibility_correct:
  assumes wf: "wf_nodes nodes imp" and size: "length nodes < 2 ^ 32"
  shows "outcome no_panic (\<lambda>(ranges, batch). length ranges = length nodes
      \<and> (\<forall>i < length nodes. \<exists>out. slice_range batch (ranges ! i) = Some out \<and> bfs_order (node_edges nodes imp) i out))
    (compile_compatibility_ranges path nodes imp)"
proof -
  have "outcome no_panic (batches_inv nodes imp (length [0..<length nodes]))
      (try_fold (compile_start path nodes imp) ([], [], replicate (length nodes) 0) [0..<length nodes])"
  proof (rule outcome_try_fold)
    show "batches_inv nodes imp 0 ([], [], replicate (length nodes) 0)" by (simp add: batches_inv_def)
    fix k st assume "k < length [0..<length nodes]" and "batches_inv nodes imp k st"
    then show "outcome no_panic (batches_inv nodes imp (Suc k)) (compile_start path nodes imp st ([0..<length nodes] ! k))"
      using batches_step [OF wf size] by simp
  qed
  then show ?thesis
    unfolding compile_compatibility_ranges_def
    by (rule outcome_rbind) (fastforce simp: batches_inv_def dest: good_range_slice)
qed

section \<open>The text table\<close>

definition span_valid :: "string \<Rightarrow> text_span \<Rightarrow> bool" where
  "span_valid text span \<longleftrightarrow> ts_start span + ts_len span \<le> length text"

interpretation text_table: text_arena "push_text_span path" get_span span_valid for path
  by unfold_locales
    (auto simp: push_text_span_def rbind_eq_Inr u32_len_def get_span_def span_valid_def split: if_splits)

definition empty_node :: "text_span \<Rightarrow> runtime_node" where
  "empty_node span = \<lparr>rn_identifier = span, rn_imports = \<lparr>ir_start = 0, ir_len = 0\<rparr>\<rparr>"

lemma push_node_row: "push_node path = text_table.push_row path empty_node"
  by (simp add: fun_eq_iff push_node_def text_table.push_row_def empty_node_def)

lemma push_node_no_panic: "outcome no_panic (\<lambda>_. True) (push_node path st identifier)"
  by (auto simp: push_node_def push_text_span_def u32_len_def mk_graph_error_def outcome_def split: sum.splits)

lemma push_nodes:
  fixes path :: 'p
  shows "outcome (no_panic :: ('p, 'io) graph_failure \<Rightarrow> bool) (\<lambda>(text, nodes). length nodes = length ids
      \<and> (\<forall>i < length ids. get_span text (rn_identifier (nodes ! i)) = ids ! i))
    (try_fold (push_node path) ([], []) ids)"
proof (rule outcome_weaken)
  show "outcome (no_panic :: ('p, 'io) graph_failure \<Rightarrow> bool) ((\<lambda>_ _. True) (length ids))
      (try_fold (push_node path) ([], []) ids)"
    by (rule outcome_try_fold) (simp_all add: push_node_no_panic)
  fix st :: "string \<times> runtime_node list"
  assume "try_fold (push_node path) ([], []) ids = (Inr st :: ('p, 'io) graph_failure + string \<times> runtime_node list)"
  then obtain t nodes where "try_fold (text_table.push_row path empty_node) ([], []) ids =
        (Inr (t, nodes) :: ('p, 'io) graph_failure + string \<times> runtime_node list)"
    and st: "st = (t, nodes)" unfolding push_node_row by (cases st) simp
  from text_table.push_rows [OF this(1)] obtain spans where "nodes = map empty_node spans" "map (get_span t) spans = ids"
    by auto
  then show "case st of (text, nodes) \<Rightarrow> length nodes = length ids
      \<and> (\<forall>i < length ids. get_span text (rn_identifier (nodes ! i)) = ids ! i)"
    unfolding st by (auto simp: empty_node_def)
qed

section \<open>Linking\<close>

definition names_nodes :: "string \<Rightarrow> runtime_node list \<Rightarrow> string list \<Rightarrow> bool" where
  "names_nodes text nodes ids \<longleftrightarrow> map (\<lambda>n. get_span text (rn_identifier n)) nodes = ids"

lemma find_index:
  assumes "names_nodes text nodes ids" and "sorted_wrt (<) ids"
  shows "binary_search_by (\<lambda>n. rust_cmp (get_span text (rn_identifier n)) name) nodes = Inr i \<longleftrightarrow>
           i < length ids \<and> ids ! i = name"
proof -
  have "sorted_wrt (<) (map (\<lambda>n. get_span text (rn_identifier n)) nodes)"
    using assms by (simp add: names_nodes_def)
  from binary_search_key [OF this, of name i] assms(1) show ?thesis
    by (auto simp: names_nodes_def)
qed

definition index_of :: "string list \<Rightarrow> string \<Rightarrow> nat" where
  "index_of ids name = length (takeWhile (\<lambda>x. x \<noteq> name) ids)"

lemma index_of_in: "name \<in> set ids \<Longrightarrow> index_of ids name < length ids \<and> ids ! index_of ids name = name"
proof (induction ids)
  case (Cons x ids)
  then show ?case by (cases "x = name") (auto simp: index_of_def)
qed simp

lemma find_import_outcome:
  assumes "names_nodes text nodes ids" and "sorted_wrt (<) ids" and "name \<in> set ids"
  shows "outcome no_panic (\<lambda>imp'. imp' = imp @ [index_of ids name]) (find_import path text nodes imp name)"
proof -
  have "binary_search_by (\<lambda>n. rust_cmp (get_span text (rn_identifier n)) name) nodes = Inr (index_of ids name)"
    using index_of_in [OF assms(3)] by (simp add: find_index [OF assms(1,2)])
  then show ?thesis by (simp add: find_import_def u32_len_def mk_graph_error_def)
qed

lemma find_imports_outcome:
  assumes "names_nodes text nodes ids" and "sorted_wrt (<) ids" and "set names \<subseteq> set ids"
  shows "outcome no_panic (\<lambda>imp'. imp' = imp @ map (index_of ids) names) (try_fold (find_import path text nodes) imp names)"
proof -
  have "outcome no_panic ((\<lambda>k imp'. imp' = imp @ map (index_of ids) (take k names)) (length names))
      (try_fold (find_import path text nodes) imp names)"
  proof (rule outcome_try_fold)
    fix k s assume k: "k < length names" and s: "s = imp @ map (index_of ids) (take k names)"
    from k assms(3) have "names ! k \<in> set ids" using nth_mem by blast
    from find_import_outcome [OF assms(1,2) this, of s path]
    show "outcome no_panic (\<lambda>imp'. imp' = imp @ map (index_of ids) (take (Suc k) names))
        (find_import path text nodes s (names ! k))"
      by (rule outcome_weaken) (simp add: s take_Suc_conv_app_nth [OF k])
  qed simp
  then show ?thesis by simp
qed

definition linked ::
    "string \<Rightarrow> string list \<Rightarrow> string list list \<Rightarrow> nat \<Rightarrow> runtime_node list \<times> nat list \<Rightarrow> bool" where
  "linked text ids vals k st \<longleftrightarrow>
     (case st of (nodes, imp) \<Rightarrow> names_nodes text nodes ids
       \<and> (\<forall>i < k. good_range imp (rn_imports (nodes ! i)) (map (index_of ids) (vals ! i))))"

lemma link_step:
  assumes sorted: "sorted_wrt (<) ids" and closed: "\<forall>names \<in> set vals. set names \<subseteq> set ids"
    and len: "length vals = length ids" and k: "k < length vals" and inv: "linked text ids vals k st"
  shows "outcome no_panic (linked text ids vals (Suc k)) (link_node path text st (k, vals ! k))"
proof -
  obtain nodes imp where st: "st = (nodes, imp)" by (cases st)
  let ?new = "map (index_of ids) (vals ! k)"
  have names: "names_nodes text nodes ids" and old: "\<forall>i < k. good_range imp (rn_imports (nodes ! i)) (map (index_of ids) (vals ! i))"
    using inv by (auto simp: linked_def st)
  have kn: "k < length nodes" using k len names by (auto simp: names_nodes_def)
  have sub: "set (vals ! k) \<subseteq> set ids" using closed k nth_mem by blast
  show ?thesis unfolding link_node_def st prod.case
  proof (rule outcome_rbind [OF outcome_u32_len], rule outcome_rbind [OF find_imports_outcome [OF names sorted sub]],
      rule outcome_rbind [OF outcome_u32_len])
    fix start imp' finish
    assume s: "start = length imp \<and> length imp < 2 ^ 32" and i: "imp' = imp @ ?new"
      and f: "finish = length imp' \<and> length imp' < 2 ^ 32"
    let ?r = "\<lparr>ir_start = start, ir_len = finish - start\<rparr>"
    let ?nodes = "nodes[k := (nodes ! k)\<lparr>rn_imports := ?r\<rparr>]"
    have "map (\<lambda>n. get_span text (rn_identifier n)) ?nodes = map (\<lambda>n. get_span text (rn_identifier n)) nodes"
      using kn by (simp add: map_update list_update_same_conv)
    then have "names_nodes text ?nodes ids" using names by (simp add: names_nodes_def)
    moreover have "good_range imp' (rn_imports (?nodes ! j)) (map (index_of ids) (vals ! j))" if "j < Suc k" for j
    proof (cases "j = k")
      case True
      with good_range_new [of imp ?new] s i f kn show ?thesis by simp
    next
      case False
      with that old i kn show ?thesis by (auto intro: good_range_append)
    qed
    ultimately show "outcome no_panic (linked text ids vals (Suc k)) (Inr (?nodes, imp'))"
      by (simp add: linked_def)
  qed
qed

lemma link_nodes:
  assumes "sorted_wrt (<) ids" and "\<forall>names \<in> set vals. set names \<subseteq> set ids"
    and "length vals = length ids" and "names_nodes text nodes ids"
  shows "outcome no_panic (linked text ids vals (length vals))
    (try_fold (link_node path text) (nodes, []) (List.enumerate 0 vals))"
proof -
  have "outcome no_panic (linked text ids vals (length (List.enumerate 0 vals)))
    (try_fold (link_node path text) (nodes, []) (List.enumerate 0 vals))"
  proof (rule outcome_try_fold)
    show "linked text ids vals 0 (nodes, [])" using assms(4) by (simp add: linked_def)
    fix k st assume "k < length (List.enumerate 0 vals)" and "linked text ids vals k st"
    then show "outcome no_panic (linked text ids vals (Suc k)) (link_node path text st (List.enumerate 0 vals ! k))"
      using link_step [OF assms(1,2,3)] by (simp add: nth_enumerate_eq)
  qed
  then show ?thesis by simp
qed

section \<open>The document completed\<close>

definition add_leaves :: "graph_document \<Rightarrow> string list \<Rightarrow> graph_document" where
  "add_leaves document missing = foldl (\<lambda>d identifier. bt_insert identifier [] d) document missing"

lemma add_leaves:
  "bt_inv document \<Longrightarrow> bt_inv (add_leaves document missing)
     \<and> (\<forall>x. bt_get (add_leaves document missing) x = (if x \<in> set missing then Some [] else bt_get document x))"
  unfolding add_leaves_def
proof (induction missing arbitrary: document)
  case Nil
  then show ?case by simp
next
  case (Cons i missing)
  from Cons.IH [OF bt_inv_insert [OF Cons.prems]] bt_get_insert [OF Cons.prems] show ?case by simp
qed

lemma missing_outcome:
  "outcome no_panic (\<lambda>missing. set missing = {x \<in> set names. bt_get document x = None})
     (try_fold (note_missing path document) [] names)"
proof -
  have "outcome no_panic ((\<lambda>k missing. set missing = {x \<in> set (take k names). bt_get document x = None}) (length names))
      (try_fold (note_missing path document) [] names)"
  proof (rule outcome_try_fold)
    fix k missing assume k: "k < length names" and m: "set missing = {x \<in> set (take k names). bt_get document x = None}"
    show "outcome no_panic (\<lambda>missing. set missing = {x \<in> set (take (Suc k) names). bt_get document x = None})
        (note_missing path document missing (names ! k))"
      unfolding note_missing_def
      by (rule outcome_rbind [OF outcome_validate]) (use m in \<open>auto simp: take_Suc_conv_app_nth [OF k]\<close>)
  qed simp
  then show ?thesis by simp
qed

text \<open>The import relation of a document: what the graph is meant to answer about.\<close>

definition import_rel :: "graph_document \<Rightarrow> (string \<times> string) set" where
  "import_rel document = {(a, b). \<exists>names. bt_get document a = Some names \<and> b \<in> set names}"

definition graph_denotes :: "'p runtime_graph \<Rightarrow> graph_document \<Rightarrow> string list \<Rightarrow> bool" where
  "graph_denotes g document ids \<longleftrightarrow>
     sorted_wrt (<) ids \<and> names_nodes (rg_text g) (rg_nodes g) ids
   \<and> (\<forall>(a, b) \<in> import_rel document. a \<in> set ids \<and> b \<in> set ids) \<and> set (bt_keys document) \<subseteq> set ids
   \<and> (\<forall>i < length ids. \<exists>out. compatibility_batch g i = Some out
        \<and> bfs_order {(i, j). i < length ids \<and> j < length ids \<and> (ids ! i, ids ! j) \<in> import_rel document} i out)"

lemma bt_values_nth:
  "bt_inv document \<Longrightarrow> i < length document \<Longrightarrow> bt_get document (bt_keys document ! i) = Some (bt_values document ! i)"
proof (induction document arbitrary: i)
  case (Cons kv document)
  obtain k v where kv: "kv = (k, v)" by (cases kv)
  show ?case
  proof (cases i)
    case 0
    with kv show ?thesis by (simp add: bt_values_def)
  next
    case (Suc j)
    with Cons.prems kv have "bt_keys document ! j \<in> set (bt_keys document)" by (simp add: bt_keys_def)
    with Cons.prems kv have "bt_keys document ! j \<noteq> k" by auto
    with Suc Cons kv show ?thesis by (simp add: bt_values_def)
  qed
qed simp

lemma linked_edges:
  assumes l: "linked text ids vals (length vals) (nodes, imp)" and len: "length vals = length ids"
    and closed: "\<forall>names \<in> set vals. set names \<subseteq> set ids" and d: "distinct ids"
  shows "wf_nodes nodes imp" and "length nodes = length ids"
    and "node_edges nodes imp = {(i, j). i < length ids \<and> j < length ids \<and> ids ! j \<in> set (vals ! i)}"
proof -
  have n: "length nodes = length ids" using l by (auto simp: linked_def names_nodes_def)
  have slice: "slice_range imp (rn_imports (nodes ! i)) = Some (map (index_of ids) (vals ! i))" if "i < length ids" for i
    using l len that by (auto simp: linked_def intro: good_range_slice)
  have sub: "set (vals ! i) \<subseteq> set ids" if "i < length ids" for i
    using closed len that nth_mem by metis
  have idx: "index_of ids x = j \<longleftrightarrow> j < length ids \<and> ids ! j = x" if "x \<in> set ids" for x j
    using index_of_in [OF that] d nth_eq_iff_index_eq by metis
  have "index_of ids x < length nodes" if "i < length ids" "x \<in> set (vals ! i)" for i x
    using index_of_in sub [OF that(1)] that(2) n by auto
  then show "wf_nodes nodes imp" using slice n by (auto simp: wf_nodes_def)
  show "length nodes = length ids" by (rule n)
  show "node_edges nodes imp = {(i, j). i < length ids \<and> j < length ids \<and> ids ! j \<in> set (vals ! i)}"
  proof (intro set_eqI, clarify)
    fix i j
    show "(i, j) \<in> node_edges nodes imp \<longleftrightarrow> (i, j) \<in> {(i, j). i < length ids \<and> j < length ids \<and> ids ! j \<in> set (vals ! i)}"
    proof (cases "i < length ids")
      case True
      have "j \<in> index_of ids ` set (vals ! i) \<longleftrightarrow> j < length ids \<and> ids ! j \<in> set (vals ! i)"
        using idx sub [OF True] by (auto simp: image_iff) (metis subsetD)+
      with True slice n show ?thesis by (auto simp: node_edges_def)
    next
      case False
      with n show ?thesis by (simp add: node_edges_def)
    qed
  qed
qed

lemma completed_document:
  fixes document :: graph_document and missing :: "string list"
  assumes inv: "bt_inv document"
    and m: "set missing = {x \<in> set (concat (bt_values document)). bt_get document x = None}"
  defines "doc \<equiv> add_leaves document missing"
  defines "ids \<equiv> bt_keys doc" and "vals \<equiv> bt_values doc"
  shows "sorted_wrt (<) ids" and "length vals = length ids" and "\<forall>names \<in> set vals. set names \<subseteq> set ids"
    and "\<forall>(a, b) \<in> import_rel document. a \<in> set ids \<and> b \<in> set ids" and "set (bt_keys document) \<subseteq> set ids"
    and "\<And>i b. i < length ids \<Longrightarrow> b \<in> set (vals ! i) \<longleftrightarrow> (ids ! i, b) \<in> import_rel document"
proof -
  have di: "bt_inv doc" and get: "bt_get doc x = (if x \<in> set missing then Some [] else bt_get document x)" for x
    using add_leaves [OF inv] by (simp_all add: doc_def)
  show "sorted_wrt (<) ids" using di by (simp add: ids_def bt_keys_def bt_inv_def)
  show len: "length vals = length ids" by (simp add: vals_def ids_def bt_keys_def bt_values_def)
  have val: "bt_get doc (ids ! i) = Some (vals ! i)" if "i < length ids" for i
    using bt_values_nth [OF di] that by (simp add: ids_def vals_def bt_keys_def)
  have rel: "import_rel doc = import_rel document"
  proof -
    have "(\<exists>names. bt_get doc a = Some names \<and> b \<in> set names) \<longleftrightarrow> (\<exists>names. bt_get document a = Some names \<and> b \<in> set names)" for a b
      using get [of a] m by (cases "a \<in> set missing") auto
    then show ?thesis by (simp add: import_rel_def)
  qed
  show iff: "b \<in> set (vals ! i) \<longleftrightarrow> (ids ! i, b) \<in> import_rel document" if "i < length ids" for i b
    unfolding rel [symmetric] using val [OF that] by (simp add: import_rel_def)
  have known: "x \<in> set ids \<longleftrightarrow> bt_get doc x \<noteq> None" for x
    by (auto simp: ids_def set_bt_keys domIff)
  have in_values: "b \<in> set (concat (bt_values document))" if "bt_get document a = Some names" "b \<in> set names" for a b names
    using bt_get_in [OF that(1)] that(2) by (force simp: bt_values_def)
  show cl: "\<forall>(a, b) \<in> import_rel document. a \<in> set ids \<and> b \<in> set ids"
    using m get known in_values by (fastforce simp: import_rel_def)
  show "set (bt_keys document) \<subseteq> set ids"
    using m get known by (auto simp: set_bt_keys)
  show "\<forall>names \<in> set vals. set names \<subseteq> set ids"
  proof
    fix names assume "names \<in> set vals"
    then obtain i where "i < length ids" "vals ! i = names" using len by (metis in_set_conv_nth)
    with iff cl show "set names \<subseteq> set ids" by auto
  qed
qed

lemma compile_tail_denotes:
  assumes doc: "sorted_wrt (<) ids" "length vals = length ids" "\<forall>names \<in> set vals. set names \<subseteq> set ids"
      "\<forall>(a, b) \<in> import_rel document. a \<in> set ids \<and> b \<in> set ids" "set (bt_keys document) \<subseteq> set ids"
      "\<And>i b. i < length ids \<Longrightarrow> b \<in> set (vals ! i) \<longleftrightarrow> (ids ! i, b) \<in> import_rel document"
    and size: "length ids < 2 ^ 32" and nn: "names_nodes text nodes ids"
  shows "outcome no_panic (\<lambda>g. graph_denotes g document ids)
    (rbind (try_fold (link_node path text) (nodes, []) (List.enumerate 0 vals)) (\<lambda>(nodes, imports).
     rbind (compile_compatibility_ranges path nodes imports) (\<lambda>(ranges, indices).
       Inr \<lparr>rg_source = path, rg_text = text, rg_nodes = nodes, rg_imports = imports,
            rg_compatibility_ranges = ranges, rg_compatibilities = indices\<rparr>)))"
proof (rule outcome_rbind [OF link_nodes [OF doc(1,3,2) nn]], clarify)
  fix nodes' imp assume l: "linked text ids vals (length vals) (nodes', imp)"
  have d: "distinct ids" using doc(1) strict_sorted_iff by blast
  note e = linked_edges [OF l doc(2,3) d]
  have small: "length nodes' < 2 ^ 32" using e(2) size by simp
  have edges: "node_edges nodes' imp = {(i, j). i < length ids \<and> j < length ids \<and> (ids ! i, ids ! j) \<in> import_rel document}"
    unfolding e(3) using doc(6) by auto
  show "outcome no_panic (\<lambda>g. graph_denotes g document ids)
    (rbind (compile_compatibility_ranges path nodes' imp) (\<lambda>(ranges, indices).
     Inr \<lparr>rg_source = path, rg_text = text, rg_nodes = nodes', rg_imports = imp,
          rg_compatibility_ranges = ranges, rg_compatibilities = indices\<rparr>))"
  proof (rule outcome_rbind [OF compile_compatibility_correct [OF e(1) small]], clarify)
    fix ranges batch
    assume r: "length ranges = length nodes'"
      "\<forall>i < length nodes'. \<exists>out. slice_range batch (ranges ! i) = Some out \<and> bfs_order (node_edges nodes' imp) i out"
    have "names_nodes text nodes' ids" using l by (simp add: linked_def)
    with r doc(1,4,5) e(2) show "outcome no_panic (\<lambda>g. graph_denotes g document ids)
      (Inr \<lparr>rg_source = path, rg_text = text, rg_nodes = nodes', rg_imports = imp,
          rg_compatibility_ranges = ranges, rg_compatibilities = batch\<rparr>)"
      by (auto simp: graph_denotes_def compatibility_batch_def edges)
  qed
qed

lemma outcome_validate_all:
  "outcome no_panic (\<lambda>_. True) (try_fold (\<lambda>_. validate_identifier path) () ids)"
proof -
  have "outcome no_panic ((\<lambda>_ _. True) (length ids)) (try_fold (\<lambda>_. validate_identifier path) () ids)"
    by (rule outcome_try_fold) (auto intro: outcome_weaken [OF outcome_validate])
  then show ?thesis by simp
qed

lemma compile_graph_denotes:
  assumes inv: "bt_inv document"
  shows "outcome no_panic (\<lambda>g. \<exists>ids. graph_denotes g document ids) (compile_graph path document)"
  unfolding compile_graph_def Let_def add_leaves_def [symmetric]
proof (rule outcome_rbind [OF outcome_validate_all], rule outcome_rbind [OF missing_outcome],
    rule outcome_rbind [OF outcome_u32_len], rule outcome_rbind [OF push_nodes], clarify)
  fix missing "text" and nodes :: "runtime_node list"
  let ?doc = "add_leaves document missing"
  assume m: "set missing = {x \<in> set (concat (bt_values document)). bt_get document x = None}"
    and size: "length ?doc < 2 ^ 32" and nl: "length nodes = length (bt_keys ?doc)"
    and names: "\<forall>i < length (bt_keys ?doc). get_span text (rn_identifier (nodes ! i)) = bt_keys ?doc ! i"
  have nn: "names_nodes text nodes (bt_keys ?doc)" using nl names by (simp add: names_nodes_def list_eq_iff_nth_eq)
  have small: "length (bt_keys ?doc) < 2 ^ 32" using size by (simp add: bt_keys_def)
  show "outcome no_panic (\<lambda>g. \<exists>ids. graph_denotes g document ids)
    (rbind (try_fold (link_node path text) (nodes, []) (List.enumerate 0 (bt_values ?doc))) (\<lambda>(nodes, imports).
     rbind (compile_compatibility_ranges path nodes imports) (\<lambda>(ranges, indices).
       Inr \<lparr>rg_source = path, rg_text = text, rg_nodes = nodes, rg_imports = imports,
            rg_compatibility_ranges = ranges, rg_compatibilities = indices\<rparr>)))"
    by (rule outcome_weaken [OF compile_tail_denotes [OF completed_document [OF inv m] small nn]]) (assumption, erule exI)
qed

section \<open>Queries\<close>

lemma relpow_names:
  assumes "i < length ids" and "\<forall>(a, b) \<in> R. a \<in> set ids \<and> b \<in> set ids" and "distinct ids" and "j < length ids"
  shows "(i, j) \<in> {(i, j). i < length ids \<and> j < length ids \<and> (ids ! i, ids ! j) \<in> R} ^^ k \<longleftrightarrow> (ids ! i, ids ! j) \<in> R ^^ k"
  using assms(4)
proof (induction k arbitrary: j)
  case 0
  then show ?case using assms(1,3) nth_eq_iff_index_eq by auto
next
  case (Suc k)
  let ?E = "{(i, j). i < length ids \<and> j < length ids \<and> (ids ! i, ids ! j) \<in> R}"
  show ?case
  proof
    assume "(i, j) \<in> ?E ^^ Suc k"
    then obtain l where "(i, l) \<in> ?E ^^ k" "(l, j) \<in> ?E" by auto
    with Suc.IH [of l] show "(ids ! i, ids ! j) \<in> R ^^ Suc k" by auto
  next
    assume "(ids ! i, ids ! j) \<in> R ^^ Suc k"
    then obtain b where b: "(ids ! i, b) \<in> R ^^ k" "(b, ids ! j) \<in> R" by auto
    with assms(2) obtain l where "l < length ids" "ids ! l = b" by (fastforce simp: in_set_conv_nth)
    with b Suc show "(i, j) \<in> ?E ^^ Suc k" by auto
  qed
qed

lemma reach_names:
  assumes "i < length ids" and "\<forall>(a, b) \<in> R. a \<in> set ids \<and> b \<in> set ids" and "distinct ids" and "j < length ids"
  shows "(i, j) \<in> {(i, j). i < length ids \<and> j < length ids \<and> (ids ! i, ids ! j) \<in> R}\<^sup>* \<longleftrightarrow> (ids ! i, ids ! j) \<in> R\<^sup>*"
  unfolding rtrancl_power using relpow_names [OF assms] by blast

lemma find_node_denotes:
  assumes "graph_denotes g document ids"
  shows "find_node g name = (if name \<in> set ids then Some (index_of ids name) else None)"
proof -
  have n: "names_nodes (rg_text g) (rg_nodes g) ids" "sorted_wrt (<) ids" using assms by (simp_all add: graph_denotes_def)
  let ?b = "binary_search_by (\<lambda>node. rust_cmp (get_span (rg_text g) (rn_identifier node)) name) (rg_nodes g)"
  show ?thesis
  proof (cases "name \<in> set ids")
    case True
    with index_of_in [OF True] have "?b = Inr (index_of ids name)" by (simp add: find_index [OF n])
    with True show ?thesis by (simp add: find_node_def)
  next
    case False
    then have "?b \<noteq> Inr i" for i using find_index [OF n, of name i] by auto
    with False show ?thesis by (cases ?b) (auto simp: find_node_def)
  qed
qed

lemma are_compatible_denotes:
  assumes den: "graph_denotes g document ids"
  shows "are_compatible g requested provided = Some ((requested, provided) \<in> (import_rel document)\<^sup>*)"
proof (cases "requested = provided")
  case True
  then show ?thesis by (simp add: are_compatible_def)
next
  case False
  have known: "\<forall>(a, b) \<in> import_rel document. a \<in> set ids \<and> b \<in> set ids" and d: "distinct ids"
    using den strict_sorted_iff by (auto simp: graph_denotes_def)
  have ends: "(requested, provided) \<in> (import_rel document)\<^sup>* \<Longrightarrow> requested \<in> set ids \<and> provided \<in> set ids"
    using known False by (metis (mono_tags, lifting) case_prodD converse_rtranclE rtranclE)
  show ?thesis
  proof (cases "requested \<in> set ids \<and> provided \<in> set ids")
    case True
    let ?i = "index_of ids requested" and ?j = "index_of ids provided"
    have i: "?i < length ids" "ids ! ?i = requested" and j: "?j < length ids" "ids ! ?j = provided"
      using True index_of_in by blast+
    from den i obtain out where out: "compatibility_batch g ?i = Some out"
      "bfs_order {(i, j). i < length ids \<and> j < length ids \<and> (ids ! i, ids ! j) \<in> import_rel document} ?i out"
      by (auto simp: graph_denotes_def)
    have "?j \<in> set out \<longleftrightarrow> (requested, provided) \<in> (import_rel document)\<^sup>*"
      using out(2) reach_names [OF i(1) known d j(1)] i j by (simp add: bfs_order_def)
    with out(1) True False show ?thesis
      by (simp add: are_compatible_def find_node_denotes [OF den])
  next
    case outside: False
    with ends have "(requested, provided) \<notin> (import_rel document)\<^sup>*" by blast
    with outside False show ?thesis by (auto simp: are_compatible_def find_node_denotes [OF den])
  qed
qed

lemma list_all2_mono_strong:
  "list_all2 P xs ys \<Longrightarrow> (\<And>x y. x \<in> set xs \<Longrightarrow> P x y \<Longrightarrow> Q x y) \<Longrightarrow> list_all2 Q xs ys"
  by (induction rule: list_all2_induct) auto

lemma reached_names:
  assumes "\<forall>(a, b) \<in> R. a \<in> set ids \<and> b \<in> set ids" and "distinct ids" and r: "requested \<in> set ids"
    and "set out = {j. (index_of ids requested, j) \<in> {(i, j). i < length ids \<and> j < length ids \<and> (ids ! i, ids ! j) \<in> R}\<^sup>*}"
  shows "set (map ((!) ids) out) = {p. (requested, p) \<in> R\<^sup>*}"
proof -
  let ?i = "index_of ids requested"
  note i = index_of_in [OF r]
  note n = reach_names [OF conjunct1 [OF i] assms(1,2)]
  have known: "p \<in> set ids" if "(requested, p) \<in> R\<^sup>*" for p
    using that r assms(1) by (auto elim: rtranclE)
  have bound: "j < length ids" if "j \<in> set out" for j
    using that i unfolding assms(4) by (auto elim: rtranclE)
  show ?thesis
  proof (intro set_eqI iffI)
    fix p assume "p \<in> set (map ((!) ids) out)"
    then obtain j where "j \<in> set out" "p = ids ! j" by auto
    with n [OF bound] i assms(4) show "p \<in> {p. (requested, p) \<in> R\<^sup>*}" by auto
  next
    fix p assume p: "p \<in> {p. (requested, p) \<in> R\<^sup>*}"
    then obtain j where j: "j < length ids" "ids ! j = p" using known by (metis in_set_conv_nth mem_Collect_eq)
    with p n [OF j(1)] i have "j \<in> set out" unfolding assms(4) by simp
    with j show "p \<in> set (map ((!) ids) out)" by auto
  qed
qed

text \<open>C5: compatibility of runtime identifiers is decided right. Compiling a document never panics,
  and a compiled graph answers for any two identifiers, known or not, whether the second is
  reached from the first along the document's imports, without panicking either.\<close>

theorem are_compatible_correct:
  assumes "bt_inv document"
  shows "compile_graph path document \<noteq> Inl Panic
    \<and> (compile_graph path document = Inr g \<longrightarrow>
        are_compatible g requested provided = Some ((requested, provided) \<in> (import_rel document)\<^sup>*))"
proof -
  note c = compile_graph_denotes [OF assms, of path]
  have "compile_graph path document \<noteq> Inl Panic" using outcome_Inl [OF c] by blast
  moreover have "are_compatible g requested provided = Some ((requested, provided) \<in> (import_rel document)\<^sup>*)"
    if "compile_graph path document = Inr g"
    using outcome_Inr [OF c that] are_compatible_denotes by blast
  ultimately show ?thesis by blast
qed

definition example_document :: graph_document where
  "example_document = [(''linux'', [''unix'']), (''unix'', [])]"

definition example_node :: "nat \<Rightarrow> nat \<Rightarrow> nat \<Rightarrow> nat \<Rightarrow> runtime_node" where
  "example_node a b c d =
     \<lparr>rn_identifier = \<lparr>ts_start = a, ts_len = b\<rparr>, rn_imports = \<lparr>ir_start = c, ir_len = d\<rparr>\<rparr>"

definition example_graph :: "string runtime_graph" where
  "example_graph = \<lparr>rg_source = ''g'', rg_text = ''linuxunix'',
     rg_nodes = [example_node 0 5 0 1, example_node 5 4 1 0], rg_imports = [1],
     rg_compatibility_ranges = [\<lparr>ir_start = 0, ir_len = 2\<rparr>, \<lparr>ir_start = 2, ir_len = 1\<rparr>],
     rg_compatibilities = [0, 1, 1]\<rparr>"

lemma example_push:
  "try_fold (push_node p) ([], []) [''linux'', ''unix''] =
     Inr (''linuxunix'', [example_node 0 5 0 0, example_node 5 4 0 0])"
  by (simp add: push_node_def push_text_span_def u32_len_def example_node_def)

lemma example_link:
  "try_fold (link_node p ''linuxunix'') ([example_node 0 5 0 0, example_node 5 4 0 0], []) [(0, [''unix'']), (Suc 0, [])] =
     Inr ([example_node 0 5 0 1, example_node 5 4 1 0], [1])"
  by (simp add: link_node_def find_import_def u32_len_def binary_search_by_def bsearch.simps get_span_def
      rust_cmp_def example_node_def)

lemma example_batches:
  "compile_compatibility_ranges p [example_node 0 5 0 1, example_node 5 4 1 0] [1] =
     Inr ([\<lparr>ir_start = 0, ir_len = 2\<rparr>, \<lparr>ir_start = 2, ir_len = 1\<rparr>], [0, 1, 1])"
  by (simp add: compile_compatibility_ranges_def compile_start_def bfs.simps u32_len_def slice_range_def example_node_def)

lemma example_checks:
  "try_fold (\<lambda>_. validate_identifier p) () [''linux'', ''unix''] = Inr ()"
  "try_fold (note_missing p example_document) [] [''unix''] = Inr []"
  by (simp_all add: validate_identifier_def note_missing_def example_document_def)

lemma example_compiles: "compile_graph ''g'' example_document = Inr example_graph"
proof -
  have "bt_keys example_document = [''linux'', ''unix'']" "bt_values example_document = [[''unix''], []]"
    "length example_document = 2" "List.enumerate 0 [[''unix''], []] = [(0, [''unix'']), (1, [])]"
    by (simp_all add: example_document_def bt_values_def)
  then show ?thesis
    by (simp add: compile_graph_def example_checks u32_len_def example_push example_link example_batches
        example_graph_def del: try_fold.simps(2) One_nat_def)
qed

theorem are_compatible_correct_witness:
  "are_compatible example_graph ''linux'' ''unix'' = Some True \<and> are_compatible example_graph ''unix'' ''linux'' = Some False"
proof -
  have inv: "bt_inv example_document" by (simp add: example_document_def)
  note c = are_compatible_correct [OF inv, THEN conjunct2, rule_format, OF example_compiles]
  have rel: "import_rel example_document = {(''linux'', ''unix'')}"
    by (auto simp: import_rel_def example_document_def split: if_splits)
  have "(''linux'', ''unix'') \<in> (import_rel example_document)\<^sup>*"
    unfolding rel by auto
  moreover have "(''unix'', ''linux'') \<notin> (import_rel example_document)\<^sup>*"
    unfolding rel by (auto elim: converse_rtranclE)
  ultimately show ?thesis using c by simp
qed

text \<open>The identifiers listed for one are exactly those compatible with it, each once, it
  itself first and the rest nearest first, by the number of imports on a shortest path.\<close>

lemma compatible_rids_nearest_first:
  assumes "bt_inv document" and "compile_graph path document = Inr g"
  shows "\<exists>rids levels. compatible_rids g requested = Some (requested # rids) \<and> distinct (requested # rids)
    \<and> set (requested # rids) = {p. (requested, p) \<in> (import_rel document)\<^sup>*}
    \<and> sorted levels
    \<and> list_all2 (\<lambda>p k. (requested, p) \<in> import_rel document ^^ k \<and> (\<forall>j < k. (requested, p) \<notin> import_rel document ^^ j))
        (requested # rids) levels"
proof -
  let ?R = "import_rel document"
  obtain ids where den: "graph_denotes g document ids"
    using outcome_Inr [OF compile_graph_denotes [OF assms(1), of path] assms(2)] by blast
  let ?E = "{(i, j). i < length ids \<and> j < length ids \<and> (ids ! i, ids ! j) \<in> ?R}"
  let ?i = "index_of ids requested"
  have known: "\<forall>(a, b) \<in> ?R. a \<in> set ids \<and> b \<in> set ids" and d: "distinct ids"
    and n: "names_nodes (rg_text g) (rg_nodes g) ids"
    using den strict_sorted_iff by (auto simp: graph_denotes_def)
  show ?thesis
  proof (cases "requested \<in> set ids")
    case False
    then have out: "(requested, p) \<notin> ?R" for p using known by blast
    have "p = requested" if "(requested, p) \<in> ?R\<^sup>*" for p
      using that by (cases rule: converse_rtranclE) (use out in simp_all)
    then have reach: "{p. (requested, p) \<in> ?R\<^sup>*} = {requested}" by blast
    have "compatible_rids g requested = Some [requested]" using False by (simp add: compatible_rids_def find_node_denotes [OF den])
    then show ?thesis unfolding reach by (intro exI [of _ "[]"] exI [of _ "[0]"]) simp
  next
  case r: True
  note i = index_of_in [OF r]
  from den i obtain out where out: "compatibility_batch g ?i = Some out" "bfs_order ?E ?i out"
    by (auto simp: graph_denotes_def)
  from out(2) obtain q levels where q: "out = ?i # q" and lev: "sorted levels" "list_all2 (distance_to ?E ?i) out levels"
    and dist: "distinct out" and reach: "set out = {j. (?i, j) \<in> ?E\<^sup>*}" by (auto simp: bfs_order_def)
  have bound: "j < length ids" if "j \<in> set out" for j
    using that i unfolding reach by (auto elim: rtranclE)
  have name: "node_identifier g j = ids ! j" if "j \<in> set out" for j
    using n bound [OF that] by (auto simp: names_nodes_def node_identifier_def)
  have map: "requested # map (node_identifier g) q = map ((!) ids) out"
    using i name unfolding q by simp
  have "compatible_rids g requested = Some (requested # map (node_identifier g) q)"
    using out(1) r by (simp add: compatible_rids_def find_node_denotes [OF den] q)
  moreover have "distinct (map ((!) ids) out)"
    using dist bound d by (auto simp: distinct_map inj_on_def nth_eq_iff_index_eq)
  moreover have "set (map ((!) ids) out) = {p. (requested, p) \<in> ?R\<^sup>*}"
    by (rule reached_names [OF known d r reach])
  moreover have "list_all2 (\<lambda>p k. (requested, p) \<in> ?R ^^ k \<and> (\<forall>j < k. (requested, p) \<notin> ?R ^^ j)) (map ((!) ids) out) levels"
    unfolding list_all2_map1 using lev(2)
    by (rule list_all2_mono_strong) (use bound relpow_names [OF conjunct1 [OF i] known d] i in \<open>auto simp: distance_to_def\<close>)
  ultimately show ?thesis using lev(1) unfolding map [symmetric] by blast
  qed
qed

lemma compatible_rids_example:
  "\<exists>rids. compatible_rids example_graph ''linux'' = Some (''linux'' # rids) \<and> ''unix'' \<in> set rids"
proof -
  have inv: "bt_inv example_document" by (simp add: example_document_def)
  have "(''linux'', ''unix'') \<in> (import_rel example_document)\<^sup>*"
    by (rule r_into_rtrancl) (simp add: import_rel_def example_document_def)
  moreover obtain rids where rids: "compatible_rids example_graph ''linux'' = Some (''linux'' # rids)"
      "set (''linux'' # rids) = {p. (''linux'', p) \<in> (import_rel example_document)\<^sup>*}"
    using compatible_rids_nearest_first [OF inv example_compiles, of "''linux''"] by blast
  ultimately have "''unix'' \<in> set (''linux'' # rids)" by blast
  then have "''unix'' \<in> set rids" by simp
  with rids(1) show ?thesis by blast
qed

end
