(* ===== verification/Package_Version.thy ===== *)
theory Package_Version
  imports Rust_Str
begin

text \<open>
  \<open>crates/dv-core/src/package.rs\<close>: the package error value and NuGet versions. A version keeps
  its normalized text, four \<open>u32\<close> numbers (naturals the parser bounds; the code only compares
  them) and the offset of its prerelease in the normalized text.
\<close>

section \<open>Errors\<close>

datatype package_error_kind =
  Configuration | Resolution | ConstraintConflict | Downgrade | DependencyCycle | PackageNotFound
| VersionNotFound | Incompatible | OfflineMiss | Network | Integrity | Archive | PackageIo
| NonUnicodePath | TextOverflow | CredentialProvider | PackageCancelled | UnmappedIdentity

text \<open>A message is a format string and the arguments formatted into it, the last of which may be the
  message of another error.\<close>

datatype message = Format string "string list" | Nested string "string list" message

text \<open>The accounting a failed request carries: 64-bit and 32-bit counters.\<close>

record http_work =
  hw_downloaded_bytes :: u64
  hw_duration_us :: u64
  hw_requests :: u32

record source_work =
  sw_downloaded_bytes :: u64
  sw_duration_us :: u64
  sw_source_index :: u32
  sw_requests :: u32

record diagnostic_data =
  dd_context :: "(string \<times> string) list"
  dd_causes :: "string list"

record package_error =
  pe_kind :: package_error_kind
  pe_context :: string
  pe_message :: message
  pe_diagnostic :: "diagnostic_data option"
  pe_http_work :: "http_work option"
  pe_source_work :: "source_work list"

definition package_error_new :: "package_error_kind \<Rightarrow> string \<Rightarrow> message \<Rightarrow> package_error" where
  "package_error_new kind context message =
     \<lparr>pe_kind = kind, pe_context = context, pe_message = message, pe_diagnostic = None,
      pe_http_work = None, pe_source_work = []\<rparr>"

definition diagnostic_or_default :: "package_error \<Rightarrow> diagnostic_data" where
  "diagnostic_or_default e = (case pe_diagnostic e of None \<Rightarrow> \<lparr>dd_context = [], dd_causes = []\<rparr> | Some d \<Rightarrow> d)"

definition with_context :: "string \<Rightarrow> string \<Rightarrow> package_error \<Rightarrow> package_error" where
  "with_context name value e =
     (let d = diagnostic_or_default e
      in e\<lparr>pe_diagnostic := Some (d\<lparr>dd_context := dd_context d @ [(name, value)]\<rparr>)\<rparr>)"

definition with_cause :: "string \<Rightarrow> package_error \<Rightarrow> package_error" where
  "with_cause cause e =
     (let d = diagnostic_or_default e
      in e\<lparr>pe_diagnostic := Some (d\<lparr>dd_causes := dd_causes d @ [cause]\<rparr>)\<rparr>)"

definition diagnostic_context :: "package_error \<Rightarrow> (string \<times> string) list" where
  "diagnostic_context e = (case pe_diagnostic e of None \<Rightarrow> [] | Some d \<Rightarrow> dd_context d)"

definition causes :: "package_error \<Rightarrow> string list" where
  "causes e = (case pe_diagnostic e of None \<Rightarrow> [] | Some d \<Rightarrow> dd_causes d)"

definition with_http_work :: "http_work \<Rightarrow> package_error \<Rightarrow> package_error" where
  "with_http_work work e = e\<lparr>pe_http_work := Some work\<rparr>"

definition take_http_work :: "package_error \<Rightarrow> http_work option \<times> package_error" where
  "take_http_work e = (pe_http_work e, e\<lparr>pe_http_work := None\<rparr>)"

definition with_source_work :: "source_work list \<Rightarrow> package_error \<Rightarrow> package_error" where
  "with_source_work work e = e\<lparr>pe_source_work := work\<rparr>"

definition take_source_work :: "package_error \<Rightarrow> source_work list \<times> package_error" where
  "take_source_work e = (pe_source_work e, e\<lparr>pe_source_work := []\<rparr>)"

section \<open>Versions\<close>

record package_version =
  pv_normalized :: string
  pv_numbers :: "nat list"
  pv_prerelease_start :: "nat option"

definition version_error :: "string \<Rightarrow> string \<Rightarrow> package_error" where
  "version_error value template = package_error_new Resolution value (Format template [value])"

definition valid_labels :: "string \<Rightarrow> bool" where
  "valid_labels value \<longleftrightarrow>
     value \<noteq> [] \<and> \<not> list_ex (\<lambda>part. part = [] \<or> \<not> list_all (\<lambda>b. is_alnum b \<or> b = CHR ''-'') part)
                       (split_on CHR ''.'' value)"

text \<open>
  The loop over the dotted parts fills the array of four; \<open>index\<close> is the part's position.
  Splitting gives at least one part, so the check of a zero part count after the loop never fires.
\<close>

fun parse_parts :: "string \<Rightarrow> nat \<Rightarrow> nat list \<Rightarrow> string list \<Rightarrow> package_error + nat list" where
  "parse_parts value index numbers [] = Inr numbers"
| "parse_parts value index numbers (part # parts) =
     (if length numbers \<le> index
      then Inl (version_error value ''package version {:?} must contain one to four numeric parts'')
      else (case parse_uint (2 ^ 32) part of
          None \<Rightarrow> Inl (version_error value ''package version {:?} contains a non-numeric version part'')
        | Some n \<Rightarrow> parse_parts value (Suc index) (numbers[index := n]) parts))"

definition parse_package_version :: "string \<Rightarrow> package_error + package_version" where
  "parse_package_version value =
     (if value = [] \<or> 256 < length value
      then Inl (version_error value ''package version {:?} must contain between 1 and 256 bytes'')
      else let (precedence, metadata) =
             (case split_once CHR ''+'' value of None \<Rightarrow> (value, None) | Some (p, m) \<Rightarrow> (p, Some m)) in
      if (case metadata of None \<Rightarrow> False | Some m \<Rightarrow> \<not> valid_labels m)
      then Inl (version_error value ''package version {:?} has invalid build metadata'')
      else let (numbers_text, prerelease) =
             (case split_once CHR ''-'' precedence of None \<Rightarrow> (precedence, None) | Some (n, p) \<Rightarrow> (n, Some p)) in
      if (case prerelease of None \<Rightarrow> False | Some p \<Rightarrow> \<not> valid_labels p)
      then Inl (version_error value ''package version {:?} has an invalid prerelease'')
      else rbind (parse_parts value 0 [0, 0, 0, 0] (split_on CHR ''.'' numbers_text)) (\<lambda>numbers.
        let text = show_nat (numbers ! 0) @ ''.'' @ show_nat (numbers ! 1) @ ''.'' @ show_nat (numbers ! 2);
            text = (if numbers ! 3 \<noteq> 0 then text @ ''.'' @ show_nat (numbers ! 3) else text)
        in Inr (case prerelease of
             None \<Rightarrow> \<lparr>pv_normalized = text, pv_numbers = numbers, pv_prerelease_start = None\<rparr>
           | Some p \<Rightarrow>
               (let text = text @ ''-''; start = length text
                in \<lparr>pv_normalized = text @ to_lower p, pv_numbers = numbers,
                    pv_prerelease_start = Some (start mod 2 ^ 32)\<rparr>))))"

definition pv_prerelease :: "package_version \<Rightarrow> string option" where
  "pv_prerelease v = map_option (\<lambda>start. drop start (pv_normalized v)) (pv_prerelease_start v)"

definition trim_zeros :: "string \<Rightarrow> string" where
  "trim_zeros s = dropWhile (\<lambda>c. c = CHR ''0'') s"

definition compare_prerelease_part :: "string \<Rightarrow> string \<Rightarrow> ordering" where
  "compare_prerelease_part left right =
     (case (all_digits left, all_digits right) of
        (True, True) \<Rightarrow>
          (let left = trim_zeros left; right = trim_zeros right
           in then_with (rust_cmp (length left) (length right)) (rust_cmp left right))
      | (True, False) \<Rightarrow> Less
      | (False, True) \<Rightarrow> Greater
      | (False, False) \<Rightarrow> rust_cmp left right)"

definition compare_package_prerelease :: "string option \<Rightarrow> string option \<Rightarrow> ordering" where
  "compare_package_prerelease left right =
     (case (left, right) of
        (None, None) \<Rightarrow> Equal
      | (None, Some _) \<Rightarrow> Greater
      | (Some _, None) \<Rightarrow> Less
      | (Some l, Some r) \<Rightarrow> lex_cmp compare_prerelease_part (split_on CHR ''.'' l) (split_on CHR ''.'' r))"

definition pv_cmp :: "package_version \<Rightarrow> package_version \<Rightarrow> ordering" where
  "pv_cmp a b =
     then_with (rust_cmp (pv_numbers a) (pv_numbers b))
       (compare_package_prerelease (pv_prerelease a) (pv_prerelease b))"

abbreviation pv_lt :: "package_version \<Rightarrow> package_version \<Rightarrow> bool" where
  "pv_lt a b \<equiv> pv_cmp a b = Less"

abbreviation pv_eq :: "package_version \<Rightarrow> package_version \<Rightarrow> bool" where
  "pv_eq a b \<equiv> pv_cmp a b = Equal"

section \<open>The order\<close>

lemma compare_prerelease_part_keys:
  "compare_prerelease_part = (\<lambda>l r. then_with (rust_cmp (\<not> all_digits l) (\<not> all_digits r))
     (then_with (rust_cmp (if all_digits l then length (trim_zeros l) else 0)
                          (if all_digits r then length (trim_zeros r) else 0))
       (rust_cmp (if all_digits l then trim_zeros l else l) (if all_digits r then trim_zeros r else r))))"
  by (auto simp: fun_eq_iff compare_prerelease_part_def rust_cmp_def Let_def)

lemma rust_ord_compare_prerelease_part: "rust_ord compare_prerelease_part"
  unfolding compare_prerelease_part_keys
  by (intro rust_ord_then_with rust_ord_key [of "\<lambda>l. \<not> all_digits l"]
      rust_ord_key [of "\<lambda>l. if all_digits l then length (trim_zeros l) else 0"]
      rust_ord_key [of "\<lambda>l. if all_digits l then trim_zeros l else l"])

definition labels :: "string option \<Rightarrow> string list" where
  "labels p = (case p of None \<Rightarrow> [] | Some s \<Rightarrow> split_on CHR ''.'' s)"

lemma compare_package_prerelease_keys:
  "compare_package_prerelease = (\<lambda>l r. then_with (rust_cmp (l = None) (r = None))
     (lex_cmp compare_prerelease_part (labels l) (labels r)))"
  by (auto simp: fun_eq_iff compare_package_prerelease_def labels_def rust_cmp_def split: option.splits)

lemma rust_ord_compare_package_prerelease: "rust_ord compare_package_prerelease"
  unfolding compare_package_prerelease_keys
  by (intro rust_ord_then_with rust_ord_key [of "\<lambda>p. p = None"]
      rust_ord_on [of _ labels] rust_ord_lex_cmp rust_ord_compare_prerelease_part)

interpretation pv_ord: rust_ord pv_cmp
  unfolding pv_cmp_def [abs_def]
  by (intro rust_ord_then_with rust_ord_key
      rust_ord_on [of compare_package_prerelease pv_prerelease] rust_ord_compare_package_prerelease)

section \<open>Parsed versions\<close>

lemma parse_parts_length: "parse_parts value i ns parts = Inr ms \<Longrightarrow> length ms = length ns"
  by (induction "value" i ns parts rule: parse_parts.induct) (auto split: if_splits option.splits)

lemma parse_parts_bound:
  "parse_parts value i ns parts = Inr ms \<Longrightarrow> \<forall>n \<in> set ns. n < b \<Longrightarrow> 2 ^ 32 \<le> b \<Longrightarrow> \<forall>m \<in> set ms. m < b"
proof (induction "value" i ns parts rule: parse_parts.induct)
  case (2 "value" i ns part parts)
  then obtain n where n: "i < length ns" "parse_uint (2 ^ 32) part = Some n"
    "parse_parts value (Suc i) (ns[i := n]) parts = Inr ms" by (auto split: if_splits option.splits)
  then have "n < b" using parse_uint_bound [OF n(2)] "2.prems"(3) by simp
  then have "\<forall>x \<in> set (ns[i := n]). x < b" using "2.prems"(2) set_update_subset_insert by fastforce
  with "2.IH" n "2.prems"(3) show ?case by simp
qed simp

text \<open>The shape of a parsed version.\<close>

definition numbers_part :: "nat list \<Rightarrow> string" where
  "numbers_part ns = show_nat (ns ! 0) @ ''.'' @ show_nat (ns ! 1) @ ''.'' @ show_nat (ns ! 2)
     @ (if ns ! 3 \<noteq> 0 then ''.'' @ show_nat (ns ! 3) else [])"

definition wf_package_version :: "package_version \<Rightarrow> bool" where
  "wf_package_version v \<longleftrightarrow>
     length (pv_numbers v) = 4 \<and> (\<forall>n \<in> set (pv_numbers v). n < 2 ^ 32)
   \<and> (case pv_prerelease_start v of
        None \<Rightarrow> pv_normalized v = numbers_part (pv_numbers v)
      | Some start \<Rightarrow> \<exists>p. valid_labels p \<and> to_lower p = p \<and> start = length (numbers_part (pv_numbers v)) + 1
          \<and> pv_normalized v = numbers_part (pv_numbers v) @ CHR ''-'' # p)"

lemma valid_labels_bytes: "valid_labels p \<Longrightarrow> c \<in> set p \<Longrightarrow> is_alnum c \<or> c = CHR ''-'' \<or> c = CHR ''.''"
proof -
  assume v: "valid_labels p" and c: "c \<in> set p"
  have "set p \<subseteq> insert CHR ''.'' (\<Union> (set ` set (split_on CHR ''.'' p)))"
    using set_join_with [of "CHR ''.''" "split_on CHR ''.'' p"] by (simp add: join_split_on)
  with v c show ?thesis by (fastforce simp: valid_labels_def list_ex_iff list_all_iff)
qed

lemma lower_byte_dot [simp]: "lower_byte c = CHR ''.'' \<longleftrightarrow> c = CHR ''.''"
proof (cases "is_upper c")
  case True
  then have "(of_char c :: nat) + 32 < 256" by (simp add: is_upper_of_char)
  then have "(of_char (lower_byte c) :: nat) = of_char c + 32" using True by (simp add: lower_byte_def)
  moreover have "of_char c + 32 \<noteq> (of_char CHR ''.'' :: nat)" using True by (simp add: is_upper_of_char)
  ultimately have "lower_byte c \<noteq> CHR ''.''" by metis
  moreover have "c \<noteq> CHR ''.''" using True by (auto simp: is_upper_of_char)
  ultimately show ?thesis by simp
qed (simp add: lower_byte_def)

lemma split_on_to_lower: "split_on CHR ''.'' (to_lower s) = map to_lower (split_on CHR ''.'' s)"
  by (induction s) (auto split: list.splits)

lemma alnum_lower_byte: "is_alnum c \<Longrightarrow> is_alnum (lower_byte c)"
proof (cases "is_upper c")
  case True
  then have "(of_char c :: nat) + 32 < 256" by (simp add: is_upper_of_char)
  then have "(of_char (lower_byte c) :: nat) = of_char c + 32" using True by (simp add: lower_byte_def)
  with True have "is_lower (lower_byte c)" by (simp add: is_lower_def char_le_iff is_upper_of_char)
  then show ?thesis by (simp add: is_alnum_def is_alphabetic_def)
qed (simp add: lower_byte_def)

lemma lower_byte_dash [simp]: "lower_byte CHR ''-'' = CHR ''-''"
  by (simp add: lower_byte_def is_upper_of_char)

lemma valid_labels_lower: "valid_labels p \<Longrightarrow> valid_labels (to_lower p)"
  unfolding valid_labels_def split_on_to_lower
  by (auto simp: list_ex_iff list_all_iff to_lower_def alnum_lower_byte) (metis alnum_lower_byte lower_byte_dash)+

lemma numbers_part_length:
  assumes "length ns = 4" and "\<forall>n \<in> set ns. n < 2 ^ 32"
  shows "length (numbers_part ns) \<le> 43"
proof -
  have "length (show_nat (ns ! i)) \<le> 10" if "i < 4" for i
  proof -
    have "ns ! i < 2 ^ 32" using assms that nth_mem [of i ns] by auto
    then have "ns ! i < 10 ^ Suc 9" by simp
    then show ?thesis using length_show_nat [of "ns ! i" 9] by simp
  qed
  from this [of 0] this [of 1] this [of 2] this [of 3] show ?thesis by (simp add: numbers_part_def)
qed

definition build_version :: "nat list \<Rightarrow> string option \<Rightarrow> package_version" where
  "build_version numbers prerelease =
     (case prerelease of
        None \<Rightarrow> \<lparr>pv_normalized = numbers_part numbers, pv_numbers = numbers, pv_prerelease_start = None\<rparr>
      | Some p \<Rightarrow> \<lparr>pv_normalized = numbers_part numbers @ CHR ''-'' # to_lower p, pv_numbers = numbers,
                    pv_prerelease_start = Some ((length (numbers_part numbers) + 1) mod 2 ^ 32)\<rparr>)"

text \<open>The parser as one equation: split off metadata and prerelease, check labels, read numbers.\<close>

lemma parse_package_version_Inr:
  "parse_package_version value = Inr v \<longleftrightarrow>
     value \<noteq> [] \<and> length value \<le> 256
   \<and> (\<exists>precedence metadata numbers_text prerelease numbers.
        (precedence, metadata) = (case split_once CHR ''+'' value of None \<Rightarrow> (value, None) | Some (p, m) \<Rightarrow> (p, Some m))
      \<and> (\<forall>m. metadata = Some m \<longrightarrow> valid_labels m)
      \<and> (numbers_text, prerelease) = (case split_once CHR ''-'' precedence of None \<Rightarrow> (precedence, None) | Some (n, p) \<Rightarrow> (n, Some p))
      \<and> (\<forall>p. prerelease = Some p \<longrightarrow> valid_labels p)
      \<and> parse_parts value 0 [0, 0, 0, 0] (split_on CHR ''.'' numbers_text) = Inr numbers
      \<and> v = build_version numbers prerelease)"
  unfolding parse_package_version_def Let_def
  by (auto simp: rbind_eq_Inr build_version_def numbers_part_def split: if_splits option.splits prod.splits)

lemma parse_package_version_wf:
  assumes "parse_package_version value = Inr v"
  shows "wf_package_version v" and "length value \<le> 256"
proof -
  show "length value \<le> 256" using assms by (simp add: parse_package_version_Inr)
  from assms obtain parts prerelease numbers where
      p: "parse_parts value 0 [0, 0, 0, 0] parts = Inr numbers"
    and l: "\<forall>q. prerelease = Some q \<longrightarrow> valid_labels q" and v: "v = build_version numbers prerelease"
    unfolding parse_package_version_Inr by blast
  have n: "length numbers = 4" "\<forall>n \<in> set numbers. n < 2 ^ 32"
    using parse_parts_length [OF p] parse_parts_bound [OF p, of "2 ^ 32"] by auto
  show "wf_package_version v"
  proof (cases prerelease)
    case None
    with n v show ?thesis by (simp add: wf_package_version_def build_version_def)
  next
    case (Some q)
    with l valid_labels_lower have "valid_labels (to_lower q)" by blast
    with n v Some numbers_part_length [OF n] show ?thesis
      by (auto simp: wf_package_version_def build_version_def intro!: exI [of _ "to_lower q"])
  qed
qed

lemma four_elements: "length ns = 4 \<Longrightarrow> \<exists>a b c d. ns = [a, b, c, d]"
proof -
  assume "length ns = 4"
  then have "length ns = Suc (Suc (Suc (Suc 0)))" by simp
  then show ?thesis by (simp only: length_Suc_conv length_0_conv) blast
qed

lemma numbers_part_split:
  "split_on CHR ''.'' (numbers_part ns) = [show_nat (ns ! 0), show_nat (ns ! 1), show_nat (ns ! 2)]
     @ (if ns ! 3 \<noteq> 0 then [show_nat (ns ! 3)] else [])"
proof -
  have "CHR ''.'' \<notin> set (show_nat n)" for n
    using show_nat_bytes [of "CHR ''.''" n] by (auto simp: is_digit_of_char)
  then show ?thesis by (simp add: numbers_part_def split_on_append split_on_single)
qed

lemma parse_numbers_part:
  assumes "length ns = 4" and "\<forall>n \<in> set ns. n < 2 ^ 32"
  shows "parse_parts value 0 [0, 0, 0, 0] (split_on CHR ''.'' (numbers_part ns)) = Inr ns"
proof -
  obtain a b c d where ns: "ns = [a, b, c, d]" using four_elements [OF assms(1)] by blast
  have p: "parse_uint (2 ^ 32) (show_nat n) = Some n" if "n \<in> set ns" for n
    using assms(2) that by (intro parse_show_nat) auto
  have "parse_uint (2 ^ 32) (show_nat a) = Some a" "parse_uint (2 ^ 32) (show_nat b) = Some b"
    "parse_uint (2 ^ 32) (show_nat c) = Some c" "parse_uint (2 ^ 32) (show_nat d) = Some d"
    using p by (simp_all add: ns)
  then show ?thesis unfolding numbers_part_split by (simp add: ns)
qed

lemma numbers_part_bytes: "c \<in> set (numbers_part ns) \<Longrightarrow> is_digit c \<or> c = CHR ''.''"
  by (auto simp: numbers_part_def dest: show_nat_bytes split: if_splits)

lemma numbers_part_no_sign: "CHR ''+'' \<notin> set (numbers_part ns)" "CHR ''-'' \<notin> set (numbers_part ns)"
  using numbers_part_bytes [of "CHR ''+''" ns] numbers_part_bytes [of "CHR ''-''" ns]
  by (auto simp: is_digit_of_char)

lemma numbers_part_ne: "numbers_part ns \<noteq> []"
  by (simp add: numbers_part_def)

lemma valid_labels_no_plus: "valid_labels p \<Longrightarrow> CHR ''+'' \<notin> set p"
  using valid_labels_bytes [of p "CHR ''+''"]
  by (auto simp: is_alnum_def is_digit_of_char is_alphabetic_def is_upper_of_char is_lower_def char_le_iff)

lemma parse_normalized:
  assumes wf: "wf_package_version v" and len: "length (pv_normalized v) \<le> 256"
  shows "parse_package_version (pv_normalized v) = Inr v"
proof -
  let ?n = "pv_numbers v"
  have n: "length ?n = 4" "\<forall>n \<in> set ?n. n < 2 ^ 32" using wf by (simp_all add: wf_package_version_def)
  note parse = parse_numbers_part [OF n] and no = numbers_part_no_sign [of ?n] and short = numbers_part_length [OF n]
  show ?thesis
  proof (cases "pv_prerelease_start v")
    case None
    with wf have norm: "pv_normalized v = numbers_part ?n" by (simp add: wf_package_version_def)
    have "split_once CHR ''+'' (numbers_part ?n) = None" "split_once CHR ''-'' (numbers_part ?n) = None"
      using no by (simp_all add: split_once_None)
    moreover have "v = build_version ?n None" using None norm by (simp add: build_version_def)
    ultimately show ?thesis
      using len parse numbers_part_ne [of ?n] unfolding parse_package_version_Inr norm
      by (intro conjI exI [of _ "numbers_part ?n"] exI [of _ None] exI [of _ ?n]) auto
  next
    case (Some start)
    with wf obtain p where p: "valid_labels p" "to_lower p = p" "start = length (numbers_part ?n) + 1"
      and norm: "pv_normalized v = numbers_part ?n @ CHR ''-'' # p" by (auto simp: wf_package_version_def)
    have "split_once CHR ''+'' (pv_normalized v) = None"
      using no valid_labels_no_plus [OF p(1)] by (simp add: split_once_None norm)
    moreover have "split_once CHR ''-'' (pv_normalized v) = Some (numbers_part ?n, p)"
      using no by (simp add: split_once_Some norm)
    moreover have "v = build_version ?n (Some p)" using Some norm p short by (simp add: build_version_def)
    ultimately show ?thesis
      using len parse p(1) unfolding parse_package_version_Inr
      by (intro conjI exI [of _ "pv_normalized v"] exI [of _ None] exI [of _ "numbers_part ?n"]
          exI [of _ "Some p"] exI [of _ ?n]) (auto simp: norm)
  qed
qed

text \<open>Parsing a package version normalises it: unless the normalised text is longer than the
  256 bytes the parser admits, parsing that text gives the same value back, so equal texts after
  normalisation mean the same version; and the prerelease offset always lies in the text.\<close>

theorem package_version_normalized:
  assumes "parse_package_version value = Inr v"
  shows "(length (pv_normalized v) \<le> 256 \<longrightarrow> parse_package_version (pv_normalized v) = Inr v)
    \<and> (\<forall>start. pv_prerelease_start v = Some start \<longrightarrow> start < length (pv_normalized v)
          \<and> pv_normalized v ! (start - 1) = CHR ''-'')"
proof -
  note wf = parse_package_version_wf(1) [OF assms]
  have "start < length (pv_normalized v) \<and> pv_normalized v ! (start - 1) = CHR ''-''"
    if start: "pv_prerelease_start v = Some start" for start
  proof -
    from wf start obtain p where "valid_labels p" "start = length (numbers_part (pv_numbers v)) + 1"
      "pv_normalized v = numbers_part (pv_numbers v) @ CHR ''-'' # p" by (auto simp: wf_package_version_def)
    moreover from this(1) have "p \<noteq> []" by (auto simp: valid_labels_def)
    ultimately show ?thesis by simp
  qed
  with parse_normalized [OF wf] show ?thesis by blast
qed

definition example_version :: package_version where
  "example_version = \<lparr>pv_normalized = ''1.2.0-rc'', pv_numbers = [1, 2, 0, 0], pv_prerelease_start = Some 6\<rparr>"

lemma show_digit: "n < 10 \<Longrightarrow> show_nat n = [char_of (48 + n)]"
  by (simp add: show_nat.simps digit_char_def)

lemma parse_example_version: "parse_package_version ''1.02-RC+m'' = Inr example_version"
  by (simp add: parse_package_version_def valid_labels_def example_version_def show_digit char_of_def str_eval
      is_alnum_def is_alphabetic_def)

theorem package_version_normalized_witness:
  "parse_package_version ''1.02-RC+m'' = Inr example_version \<and> parse_package_version ''1.2.0-rc'' = Inr example_version"
  using package_version_normalized [OF parse_example_version] parse_example_version
  by (simp add: example_version_def)

end
