(* ===== verification/Version_Range.thy ===== *)
theory Version_Range
  imports Package_Version
begin

text \<open>
  \<open>crates/dv-core/src/package.rs\<close>: version ranges. A bound carries a version, whether it is
  inclusive, and how it floats; a range is a lower and an upper bound. The code panics when a
  prefix float's bound has no release label, or one shorter than the prefix: those functions return
  an option, \<open>None\<close> being the panic, and the parser's ranges never reach it.
\<close>

section \<open>Bounds and floats\<close>

datatype float_behavior =
  FloatNone | FloatPrerelease | FloatRevision | FloatPatch | FloatMinor | FloatMajor | AbsoluteLatest
| PrereleaseRevision | PrereleasePatch | PrereleaseMinor | PrereleaseMajor

definition includes_prerelease :: "float_behavior \<Rightarrow> bool" where
  "includes_prerelease b \<longleftrightarrow>
     b \<in> {FloatPrerelease, AbsoluteLatest, PrereleaseRevision, PrereleasePatch, PrereleaseMinor, PrereleaseMajor}"

record version_bound =
  vb_version :: package_version
  vb_float_prefix_len :: nat
  vb_inclusive :: bool
  vb_float_behavior :: float_behavior

definition new_bound :: "package_version \<Rightarrow> bool \<Rightarrow> version_bound" where
  "new_bound version inclusive =
     \<lparr>vb_version = version, vb_float_prefix_len = 0, vb_inclusive = inclusive, vb_float_behavior = FloatNone\<rparr>"

definition floating_bound :: "package_version \<Rightarrow> bool \<Rightarrow> float_behavior \<Rightarrow> nat \<Rightarrow> version_bound" where
  "floating_bound version inclusive behavior prefix_len =
     \<lparr>vb_version = version, vb_float_prefix_len = prefix_len mod 2 ^ 16, vb_inclusive = inclusive,
      vb_float_behavior = behavior\<rparr>"

definition float_prefix :: "version_bound \<Rightarrow> string option" where
  "float_prefix b =
     (case pv_prerelease (vb_version b) of
        None \<Rightarrow> None
      | Some release \<Rightarrow>
          if length release < vb_float_prefix_len b then None
          else Some (take (vb_float_prefix_len b) release))"

text \<open>The disjunction \<open>stable || version.prerelease().is_some_and(..)\<close>, shared by five arms.\<close>

definition label_matches :: "version_bound \<Rightarrow> package_version \<Rightarrow> bool option" where
  "label_matches b version =
     (case pv_prerelease version of
        None \<Rightarrow> Some True
      | Some release \<Rightarrow> map_option (\<lambda>prefix. starts_with prefix release) (float_prefix b))"

definition float_satisfies :: "version_bound \<Rightarrow> package_version \<Rightarrow> bool option" where
  "float_satisfies b version =
     (let stable = (pv_prerelease version = None); own = pv_numbers (vb_version b); ns = pv_numbers version
      in case vb_float_behavior b of
           FloatNone \<Rightarrow> Some False
         | AbsoluteLatest \<Rightarrow> Some True
         | FloatMajor \<Rightarrow> Some stable
         | FloatMinor \<Rightarrow> Some (stable \<and> own ! 0 = ns ! 0)
         | FloatPatch \<Rightarrow> Some (stable \<and> take 2 own = take 2 ns)
         | FloatRevision \<Rightarrow> Some (stable \<and> take 3 own = take 3 ns)
         | FloatPrerelease \<Rightarrow> if own = ns then label_matches b version else Some False
         | PrereleaseMajor \<Rightarrow> label_matches b version
         | PrereleaseMinor \<Rightarrow> if own ! 0 = ns ! 0 then label_matches b version else Some False
         | PrereleasePatch \<Rightarrow> if take 2 own = take 2 ns then label_matches b version else Some False
         | PrereleaseRevision \<Rightarrow> if take 3 own = take 3 ns then label_matches b version else Some False)"

section \<open>Parsing\<close>

record version_range =
  vr_lower :: "version_bound option"
  vr_upper :: "version_bound option"

definition unsupported_version_range :: "string \<Rightarrow> package_error" where
  "unsupported_version_range value =
     version_error value ''dependency range {:?} is outside the supported NuGet interval syntax''"

definition count_byte :: "char \<Rightarrow> string \<Rightarrow> nat" where
  "count_byte c s = length (filter (\<lambda>b. b = c) s)"

text \<open>
  A floating version ends in a wildcard; the function's three exits are one definition each: a
  numeric and a label wildcard, a label wildcard, and a numeric one. The searches for the wildcard
  and for the last dash succeed where the code expects them to.
\<close>

definition parse_two_wildcards :: "string \<Rightarrow> nat \<Rightarrow> nat \<Rightarrow> package_error + package_version \<times> float_behavior \<times> nat" where
  "parse_two_wildcards value first_star last_star =
     rbind (ok_or (unsupported_version_range value) (find_byte CHR ''-'' value)) (\<lambda>dash.
     if first_star + 1 \<noteq> dash \<or> last_star + 1 \<noteq> length value then Inl (unsupported_version_range value)
     else let numeric = take first_star value @ ''0''; parts = count_byte CHR ''.'' numeric + 1
     in rbind (if parts = 1 then Inr PrereleaseMajor else if parts = 2 then Inr PrereleaseMinor
               else if parts = 3 then Inr PrereleasePatch else if parts = 4 then Inr PrereleaseRevision
               else Inl (unsupported_version_range value)) (\<lambda>behavior.
        let prefix = drop (dash + 1) (take last_star value);
            actual = numeric @ ''-'' @ prefix;
            actual = (if prefix = [] \<or> ends_with ''.'' prefix then actual @ ''0'' else actual)
        in rbind (map_error (\<lambda>_. unsupported_version_range value) (parse_package_version actual)) (\<lambda>version.
           Inr (version, behavior, length prefix))))"

definition parse_label_wildcard :: "string \<Rightarrow> nat \<Rightarrow> nat \<Rightarrow> package_error + package_version \<times> float_behavior \<times> nat" where
  "parse_label_wildcard value dash last_star =
     (let explicit_prefix =
            (if dash = the (rfind_byte CHR ''-'' value) then Some (drop (dash + 1) (take last_star value)) else None);
          actual = take last_star value;
          actual = (if (case explicit_prefix of None \<Rightarrow> False | Some p \<Rightarrow> p = [] \<or> ends_with ''.'' p)
                    then actual @ ''0'' else actual)
      in rbind (map_error (\<lambda>_. unsupported_version_range value) (parse_package_version actual)) (\<lambda>version.
         let prefix_len = (case explicit_prefix of
                Some p \<Rightarrow> length p
              | None \<Rightarrow> (case pv_prerelease version of None \<Rightarrow> 0 | Some p \<Rightarrow> length p))
         in Inr (version, FloatPrerelease, prefix_len)))"

definition parse_number_wildcard :: "string \<Rightarrow> nat \<Rightarrow> package_error + package_version \<times> float_behavior \<times> nat" where
  "parse_number_wildcard value last_star =
     (let actual = take last_star value @ ''0''; parts = count_byte CHR ''.'' actual + 1
      in rbind (if parts = 1 then Inr FloatNone else if parts = 2 then Inr FloatMinor
                else if parts = 3 then Inr FloatPatch else if parts = 4 then Inr FloatRevision
                else Inl (unsupported_version_range value)) (\<lambda>behavior.
         rbind (map_error (\<lambda>_. unsupported_version_range value) (parse_package_version actual)) (\<lambda>version.
         Inr (version, behavior, 0))))"

definition parse_floating_version :: "string \<Rightarrow> package_error + package_version \<times> float_behavior \<times> nat" where
  "parse_floating_version value =
     (if 256 < length value \<or> CHR ''+'' \<in> set value \<or> \<not> ends_with ''*'' value
      then Inl (unsupported_version_range value)
      else if value = ''*''
      then rbind (parse_package_version ''0.0.0'') (\<lambda>v. Inr (v, FloatMajor, 0))
      else if value = ''*-*''
      then rbind (parse_package_version ''0.0.0-0'') (\<lambda>v. Inr (v, AbsoluteLatest, 0))
      else let first_star = the (find_byte CHR ''*'' value); last_star = the (rfind_byte CHR ''*'' value)
      in if first_star \<noteq> last_star then parse_two_wildcards value first_star last_star
         else (case find_byte CHR ''-'' value of
             Some dash \<Rightarrow> parse_label_wildcard value dash last_star
           | None \<Rightarrow> parse_number_wildcard value last_star))"

definition parse_version_bound :: "string \<Rightarrow> bool \<Rightarrow> bool \<Rightarrow> package_error + version_bound" where
  "parse_version_bound value inclusive allow_floating =
     (if CHR ''*'' \<notin> set value
      then rbind (parse_package_version value) (\<lambda>version. Inr (new_bound version inclusive))
      else if \<not> allow_floating then Inl (unsupported_version_range value)
      else rbind (parse_floating_version value) (\<lambda>(version, behavior, prefix_len).
        Inr (floating_bound version inclusive behavior prefix_len)))"

text \<open>An end of an interval: absent when blank, else a bound.\<close>

definition parse_interval_end :: "string \<Rightarrow> bool \<Rightarrow> bool \<Rightarrow> package_error + version_bound option" where
  "parse_interval_end text inclusive allow_floating =
     (if trim text = [] then Inr None
      else rbind (parse_version_bound (trim text) inclusive allow_floating) (\<lambda>b. Inr (Some b)))"

definition disjoint_bounds :: "version_bound \<Rightarrow> version_bound \<Rightarrow> bool" where
  "disjoint_bounds lower upper \<longleftrightarrow>
     pv_cmp (vb_version lower) (vb_version upper) = Greater
   \<or> pv_eq (vb_version lower) (vb_version upper) \<and> (\<not> vb_inclusive lower \<or> \<not> vb_inclusive upper)"

definition parse_version_range :: "string \<Rightarrow> package_error + version_range" where
  "parse_version_range text =
     (let value = trim text in
      if value = [] then Inl (unsupported_version_range value)
      else if hd value \<noteq> CHR ''['' \<and> hd value \<noteq> CHR ''(''
      then rbind (parse_version_bound value True True) (\<lambda>b. Inr \<lparr>vr_lower = Some b, vr_upper = None\<rparr>)
      else let lower_inclusive = starts_with ''['' value; upper_inclusive = ends_with '']'' value
      in if (\<not> ends_with '']'' value \<and> \<not> ends_with '')'' value) \<or> length value < 3
         then Inl (unsupported_version_range value)
         else let body = drop 1 (take (length value - 1) value)
         in case split_once CHR '','' body of
              None \<Rightarrow>
                if \<not> lower_inclusive \<or> \<not> upper_inclusive then Inl (unsupported_version_range value)
                else rbind (parse_package_version (trim body)) (\<lambda>version.
                  Inr \<lparr>vr_lower = Some (new_bound version True), vr_upper = Some (new_bound version True)\<rparr>)
            | Some (lower, upper) \<Rightarrow>
                rbind (parse_interval_end lower lower_inclusive True) (\<lambda>lower.
                rbind (parse_interval_end upper upper_inclusive False) (\<lambda>upper.
                if lower = None \<and> upper = None then Inl (unsupported_version_range value)
                else if (case (lower, upper) of (Some l, Some u) \<Rightarrow> disjoint_bounds l u | _ \<Rightarrow> False)
                then Inl (version_error value ''dependency range {:?} contains no versions'')
                else Inr \<lparr>vr_lower = lower, vr_upper = upper\<rparr>)))"

section \<open>Operations\<close>

definition above_lower :: "version_bound option \<Rightarrow> package_version \<Rightarrow> bool" where
  "above_lower bound version \<longleftrightarrow>
     (case bound of None \<Rightarrow> True
      | Some b \<Rightarrow> pv_cmp version (vb_version b) = Greater \<or> vb_inclusive b \<and> pv_eq version (vb_version b))"

definition below_upper :: "version_bound option \<Rightarrow> package_version \<Rightarrow> bool" where
  "below_upper bound version \<longleftrightarrow>
     (case bound of None \<Rightarrow> True
      | Some b \<Rightarrow> pv_lt version (vb_version b) \<or> vb_inclusive b \<and> pv_eq version (vb_version b))"

definition range_contains :: "version_range \<Rightarrow> package_version \<Rightarrow> bool" where
  "range_contains r version \<longleftrightarrow> above_lower (vr_lower r) version \<and> below_upper (vr_upper r) version"

definition is_pre :: "package_version \<Rightarrow> bool" where
  "is_pre v \<longleftrightarrow> pv_prerelease v \<noteq> None"

definition allows_prerelease :: "version_range \<Rightarrow> bool" where
  "allows_prerelease r \<longleftrightarrow>
     (case vr_lower r of None \<Rightarrow> False | Some b \<Rightarrow> includes_prerelease (vb_float_behavior b) \<or> is_pre (vb_version b))
   \<or> (case vr_upper r of None \<Rightarrow> False | Some b \<Rightarrow> is_pre (vb_version b))"

definition is_floating :: "version_range \<Rightarrow> bool" where
  "is_floating r \<longleftrightarrow> (case vr_lower r of None \<Rightarrow> False | Some b \<Rightarrow> vb_float_behavior b \<noteq> FloatNone)"

definition is_better :: "version_range \<Rightarrow> package_version \<Rightarrow> package_version \<Rightarrow> bool option" where
  "is_better r current considering =
     (case (case vr_lower r of None \<Rightarrow> None | Some b \<Rightarrow> if vb_float_behavior b \<noteq> FloatNone then Some b else None) of
        None \<Rightarrow> Some (pv_cmp current considering = Greater)
      | Some lower \<Rightarrow>
          (case float_satisfies lower current of None \<Rightarrow> None | Some current_floats \<Rightarrow>
           case float_satisfies lower considering of None \<Rightarrow> None | Some considering_floats \<Rightarrow>
           Some (case (current_floats, considering_floats) of
               (True, False) \<Rightarrow> False
             | (False, True) \<Rightarrow> True
             | (True, True) \<Rightarrow> pv_lt current considering
             | (False, False) \<Rightarrow>
                 (case (pv_lt current (vb_version lower), pv_lt considering (vb_version lower)) of
                    (True, False) \<Rightarrow> True
                  | (False, True) \<Rightarrow> False
                  | (False, False) \<Rightarrow> pv_cmp current considering = Greater
                  | (True, True) \<Rightarrow> pv_lt current considering))))"

definition diagnostic_text :: "version_range \<Rightarrow> string" where
  "diagnostic_text r =
     (if (case (vr_lower r, vr_upper r) of
            (Some l, Some u) \<Rightarrow> vb_inclusive l \<and> vb_inclusive u \<and> pv_eq (vb_version l) (vb_version u) | _ \<Rightarrow> False)
      then (case vr_lower r of Some l \<Rightarrow> ''['' @ pv_normalized (vb_version l) @ '']'' | None \<Rightarrow> [])
      else if is_floating r
      then (case vr_lower r of Some l \<Rightarrow> pv_normalized (vb_version l) @ '' (floating)'' | None \<Rightarrow> [])
      else (if (case vr_lower r of None \<Rightarrow> False | Some b \<Rightarrow> vb_inclusive b) then ''['' else ''('')
        @ (case vr_lower r of None \<Rightarrow> [] | Some b \<Rightarrow> pv_normalized (vb_version b)) @ '',''
        @ (case vr_upper r of None \<Rightarrow> [] | Some b \<Rightarrow> pv_normalized (vb_version b))
        @ (if (case vr_upper r of None \<Rightarrow> False | Some b \<Rightarrow> vb_inclusive b) then '']'' else '')''))"

definition minimum_version_from_range :: "version_range \<Rightarrow> package_error + package_version" where
  "minimum_version_from_range r =
     (case vr_lower r of
        Some lower \<Rightarrow>
          if vb_inclusive lower \<and> \<not> is_floating r then Inr (vb_version lower)
          else Inl (package_error_new Resolution ''dependency range''
                 (Format ''dependency range requires package source version enumeration'' []))
      | None \<Rightarrow> Inl (package_error_new Resolution ''dependency range''
                 (Format ''dependency range requires package source version enumeration'' [])))"

text \<open>The derived equality of bounds and ranges compares versions by precedence.\<close>

definition vb_eq :: "version_bound \<Rightarrow> version_bound \<Rightarrow> bool" where
  "vb_eq a b \<longleftrightarrow> pv_eq (vb_version a) (vb_version b) \<and> vb_float_prefix_len a = vb_float_prefix_len b
     \<and> vb_inclusive a = vb_inclusive b \<and> vb_float_behavior a = vb_float_behavior b"

definition vr_eq :: "version_range \<Rightarrow> version_range \<Rightarrow> bool" where
  "vr_eq a b \<longleftrightarrow> rel_option vb_eq (vr_lower a) (vr_lower b) \<and> rel_option vb_eq (vr_upper a) (vr_upper b)"


section \<open>Parsed bounds are well formed\<close>

definition prefix_float :: "float_behavior \<Rightarrow> bool" where
  "prefix_float b \<longleftrightarrow> includes_prerelease b \<and> b \<noteq> AbsoluteLatest"

definition wf_bound :: "version_bound \<Rightarrow> bool" where
  "wf_bound b \<longleftrightarrow> wf_package_version (vb_version b)
     \<and> (vb_float_behavior b = FloatNone \<longrightarrow> vb_float_prefix_len b = 0)
     \<and> (prefix_float (vb_float_behavior b) \<longrightarrow> float_prefix b \<noteq> None)"

definition wf_range :: "version_range \<Rightarrow> bool" where
  "wf_range r \<longleftrightarrow> pred_option wf_bound (vr_lower r)
     \<and> pred_option (\<lambda>b. wf_bound b \<and> vb_float_behavior b = FloatNone) (vr_upper r)
     \<and> (vr_lower r \<noteq> None \<or> vr_upper r \<noteq> None)
     \<and> (case (vr_lower r, vr_upper r) of (Some l, Some u) \<Rightarrow> \<not> disjoint_bounds l u | _ \<Rightarrow> True)"

lemma prefix_float_simps [simp]:
  "prefix_float FloatPrerelease" "prefix_float PrereleaseMajor" "prefix_float PrereleaseMinor"
  "prefix_float PrereleasePatch" "prefix_float PrereleaseRevision" "\<not> prefix_float FloatNone"
  "\<not> prefix_float FloatMajor" "\<not> prefix_float FloatMinor" "\<not> prefix_float FloatPatch"
  "\<not> prefix_float FloatRevision" "\<not> prefix_float AbsoluteLatest"
  by (simp_all add: prefix_float_def includes_prerelease_def)

lemma label_matches_total: "float_prefix b \<noteq> None \<Longrightarrow> label_matches b v \<noteq> None"
  by (auto simp: label_matches_def split: option.splits)

lemma float_satisfies_total: "wf_bound b \<Longrightarrow> float_satisfies b v \<noteq> None"
  using label_matches_total [of b v]
  by (cases "vb_float_behavior b") (auto simp: float_satisfies_def wf_bound_def Let_def)

text \<open>The label of a parsed version is the lower-cased text after the first dash.\<close>

lemma parsed_prerelease:
  assumes "parse_package_version value = Inr v" and "CHR ''+'' \<notin> set value"
  shows "pv_prerelease v = map_option (\<lambda>(n, p). to_lower p) (split_once CHR ''-'' value)"
proof -
  have "split_once CHR ''+'' value = None" using assms(2) by (simp add: split_once_None)
  with assms(1) obtain numbers_text prerelease numbers where
      split: "(numbers_text, prerelease) = (case split_once CHR ''-'' value of None \<Rightarrow> (value, None) | Some (n, p) \<Rightarrow> (n, Some p))"
    and p: "parse_parts value 0 [0, 0, 0, 0] (split_on CHR ''.'' numbers_text) = Inr numbers"
    and v: "v = build_version numbers prerelease"
    unfolding parse_package_version_Inr by auto
  have "length numbers = 4" "\<forall>n \<in> set numbers. n < 2 ^ 32"
    using parse_parts_length [OF p] parse_parts_bound [OF p, of "2 ^ 32"] by auto
  then have "length (numbers_part numbers) \<le> 43" by (rule numbers_part_length)
  then have "pv_prerelease v = map_option to_lower prerelease"
    by (cases prerelease) (simp_all add: v build_version_def pv_prerelease_def)
  then show ?thesis using split by (auto split: option.splits)
qed

lemma float_prefix_parsed:
  assumes "parse_package_version (numeric @ CHR ''-'' # release) = Inr v"
    and "CHR ''-'' \<notin> set numeric" and "CHR ''+'' \<notin> set numeric" and "CHR ''+'' \<notin> set release"
    and "n \<le> length release"
  shows "float_prefix (floating_bound v inclusive behavior n) \<noteq> None"
proof -
  have "split_once CHR ''-'' (numeric @ CHR ''-'' # release) = Some (numeric, release)"
    using assms(2) by (simp add: split_once_Some)
  then have "pv_prerelease v = Some (to_lower release)" using parsed_prerelease [OF assms(1)] assms(3,4) by simp
  moreover have "n mod 2 ^ 16 \<le> length release" using assms(5) by (rule le_trans [OF mod_less_eq_dividend])
  ultimately show ?thesis by (simp add: float_prefix_def floating_bound_def)
qed


lemma float_prefix_two_stars:
  assumes p: "parse_package_version (take k value @ ''0'' @ ''-'' @ drop (dash + 1) (take last_star value)
      @ (if c then ''0'' else [])) = Inr v"
    and dash: "find_byte CHR ''-'' value = Some dash" and k: "k + 1 = dash" and plus: "CHR ''+'' \<notin> set value"
  shows "float_prefix (floating_bound v inclusive behavior (length (drop (dash + 1) (take last_star value)))) \<noteq> None"
proof (rule float_prefix_parsed)
  let ?prefix = "drop (dash + 1) (take last_star value)"
  show "parse_package_version ((take k value @ ''0'') @ CHR ''-'' # (?prefix @ (if c then ''0'' else []))) = Inr v"
    using p by simp
  have "CHR ''-'' \<notin> set (take dash value)" using dash by (simp add: find_byte_Some)
  moreover have "set (take k value) \<subseteq> set (take dash value)" using k set_take_subset_set_take [of k dash] by simp
  ultimately show "CHR ''-'' \<notin> set (take k value @ ''0'')" by auto
  show "CHR ''+'' \<notin> set (take k value @ ''0'')" using plus by (auto dest: in_set_takeD)
  show "CHR ''+'' \<notin> set (?prefix @ (if c then ''0'' else []))"
    using plus by (auto dest: in_set_takeD in_set_dropD)
qed simp

lemma take_dash:
  assumes "find_byte CHR ''-'' value = Some dash" and "dash < last_star"
  shows "take last_star value = take dash value @ CHR ''-'' # drop (dash + 1) (take last_star value)"
  using id_take_nth_drop [of dash "take last_star value"] assms by (simp add: find_byte_Some min_def)

lemma float_prefix_one_star:
  assumes p: "parse_package_version (take last_star value @ (if c then ''0'' else [])) = Inr v"
    and dash: "find_byte CHR ''-'' value = Some dash" and less: "dash < last_star" and plus: "CHR ''+'' \<notin> set value"
    and n: "n \<le> length (drop (dash + 1) (take last_star value @ (if c then ''0'' else [])))"
  shows "float_prefix (floating_bound v inclusive behavior n) \<noteq> None"
proof (rule float_prefix_parsed)
  let ?t = "take last_star value @ (if c then ''0'' else [])"
  from dash have d: "dash < length value" "value ! dash = CHR ''-''" "CHR ''-'' \<notin> set (take dash value)"
    by (simp_all add: find_byte_Some)
  note take_dash [OF dash less]
  moreover have "drop (dash + 1) ?t = drop (dash + 1) (take last_star value) @ (if c then ''0'' else [])"
    using d(1) less by auto
  ultimately have "?t = take dash value @ CHR ''-'' # drop (dash + 1) ?t" by simp
  then show "parse_package_version (take dash value @ CHR ''-'' # drop (dash + 1) ?t) = Inr v" using p by metis
  show "CHR ''-'' \<notin> set (take dash value)" by (rule d(3))
  show "CHR ''+'' \<notin> set (take dash value)" using plus by (auto dest: in_set_takeD)
  show "CHR ''+'' \<notin> set (drop (dash + 1) ?t)"
    using plus by (auto dest!: in_set_dropD dest: in_set_takeD split: if_splits)
  show "n \<le> length (drop (dash + 1) ?t)" by (rule n)
qed


lemma ends_star: "ends_with ''*'' value \<Longrightarrow> value \<noteq> [] \<and> last value = CHR ''*''"
  by (auto simp: ends_with_iff)

lemma rfind_last:
  assumes "ends_with [c] value"
  shows "rfind_byte c value = Some (length value - 1)"
proof -
  from assms obtain t where "value = t @ [c]" by (auto simp: ends_with_iff)
  then show ?thesis by (simp add: rfind_byte_def)
qed

text \<open>A dash before the last byte: the searches succeed at distinct places.\<close>

lemma dash_before_star:
  assumes "ends_with ''*'' value" and "find_byte CHR ''-'' value = Some dash"
  shows "dash < length value - 1"
proof -
  have v: "value \<noteq> []" "last value = CHR ''*''" using ends_star [OF assms(1)] by auto
  have "dash < length value" "value ! dash = CHR ''-''" using assms(2) by (auto simp: find_byte_Some)
  moreover have "dash \<noteq> length value - 1" using v calculation by (auto simp: last_conv_nth)
  ultimately show ?thesis by simp
qed

lemma map_error_parse_Inr:
  "map_error f (parse_package_version t) = Inr v \<Longrightarrow> parse_package_version t = Inr v"
  by (simp add: map_error_Inr)

lemma parse_two_wildcards_wf:
  assumes "parse_two_wildcards value k j = Inr (v, behavior, n)" and plus: "CHR ''+'' \<notin> set value"
  shows "wf_bound (floating_bound v inclusive behavior n)"
proof -
  from assms(1) obtain dash where dash: "find_byte CHR ''-'' value = Some dash" "k + 1 = dash"
    and p: "parse_package_version (take k value @ ''0'' @ ''-'' @ drop (dash + 1) (take j value)
        @ (if drop (dash + 1) (take j value) = [] \<or> ends_with ''.'' (drop (dash + 1) (take j value)) then ''0'' else [])) = Inr v"
    and n: "n = length (drop (dash + 1) (take j value))" and b: "prefix_float behavior"
    by (auto simp: parse_two_wildcards_def Let_def rbind_eq_Inr ok_or_eq_Inr map_error_Inr split: if_splits)
  have "float_prefix (floating_bound v inclusive behavior n) \<noteq> None"
    unfolding n by (rule float_prefix_two_stars [OF p dash plus])
  then show ?thesis using b parse_package_version_wf(1) [OF p] by (auto simp: wf_bound_def floating_bound_def)
qed

lemma parse_label_wildcard_wf:
  assumes "parse_label_wildcard value dash j = Inr (v, behavior, n)" and plus: "CHR ''+'' \<notin> set value"
    and dash: "find_byte CHR ''-'' value = Some dash" "dash < j"
  shows "wf_bound (floating_bound v inclusive behavior n)"
proof -
  let ?prefix = "drop (dash + 1) (take j value)"
  have "\<exists>c. parse_package_version (take j value @ (if c then ''0'' else [])) = Inr v \<and> behavior = FloatPrerelease
      \<and> (n = length ?prefix \<or> \<not> c \<and> n = (case pv_prerelease v of None \<Rightarrow> 0 | Some p \<Rightarrow> length p))"
  proof (cases "dash = the (rfind_byte CHR ''-'' value)")
    case True
    have "parse_package_version (take j value @ (if ?prefix = [] \<or> ends_with ''.'' ?prefix then ''0'' else [])) = Inr v
        \<and> behavior = FloatPrerelease \<and> n = length ?prefix"
      using assms(1) unfolding parse_label_wildcard_def Let_def if_P [OF True] option.case
      by (cases "?prefix = [] \<or> ends_with ''.'' ?prefix") (simp_all add: rbind_eq_Inr map_error_Inr)
    then show ?thesis by blast
  next
    case False
    have "parse_package_version (take j value) = Inr v
        \<and> behavior = FloatPrerelease \<and> n = (case pv_prerelease v of None \<Rightarrow> 0 | Some p \<Rightarrow> length p)"
      using assms(1) unfolding parse_label_wildcard_def Let_def if_not_P [OF False] option.case
      by (auto simp add: rbind_eq_Inr map_error_Inr)
    then show ?thesis by (intro exI [of _ False]) simp
  qed
  then obtain c where p: "parse_package_version (take j value @ (if c then ''0'' else [])) = Inr v"
    and b: "behavior = FloatPrerelease"
    and n: "n = length ?prefix \<or> \<not> c \<and> n = (case pv_prerelease v of None \<Rightarrow> 0 | Some p \<Rightarrow> length p)" by blast
  let ?t = "take j value @ (if c then ''0'' else [])"
  have "n \<le> length (drop (dash + 1) ?t)"
  proof (cases "n = length (drop (dash + 1) (take j value))")
    case False
    with n have c: "\<not> c" and n: "n = (case pv_prerelease v of None \<Rightarrow> 0 | Some p \<Rightarrow> length p)" by auto
    have plus: "CHR ''+'' \<notin> set (take j value)" using plus by (auto dest: in_set_takeD)
    have "split_once CHR ''-'' (take j value) = Some (take dash value, drop (dash + 1) (take j value))"
      using take_dash [OF dash] dash(1) by (simp add: split_once_Some find_byte_Some)
    then have "pv_prerelease v = Some (to_lower (drop (dash + 1) (take j value)))"
      using parsed_prerelease [OF p] c plus by simp
    then show ?thesis using n c by simp
  qed simp
  then have "float_prefix (floating_bound v inclusive behavior n) \<noteq> None"
    by (rule float_prefix_one_star [OF p dash plus])
  then show ?thesis using b parse_package_version_wf(1) [OF p] by (auto simp: wf_bound_def floating_bound_def)
qed

lemma parse_number_wildcard_wf:
  "parse_number_wildcard value j = Inr (v, behavior, n) \<Longrightarrow> wf_bound (floating_bound v inclusive behavior n)"
  by (auto simp: parse_number_wildcard_def Let_def rbind_eq_Inr map_error_Inr wf_bound_def floating_bound_def
      split: if_splits dest: parse_package_version_wf(1))

lemma parse_floating_version_wf:
  assumes "parse_floating_version value = Inr (v, behavior, n)"
  shows "wf_bound (floating_bound v inclusive behavior n)"
proof -
  from assms have plus: "CHR ''+'' \<notin> set value" and star: "ends_with ''*'' value"
    by (auto simp: parse_floating_version_def split: if_splits)
  have r: "rfind_byte CHR ''*'' value = Some (length value - 1)" by (rule rfind_last [OF star])
  note dash = dash_before_star [OF star]
  from assms consider
      "parse_package_version ''0.0.0'' = Inr v \<and> behavior = FloatMajor \<and> n = 0"
    | "parse_package_version ''0.0.0-0'' = Inr v \<and> behavior = AbsoluteLatest \<and> n = 0"
    | k where "parse_two_wildcards value k (length value - 1) = Inr (v, behavior, n)"
    | d where "find_byte CHR ''-'' value = Some d" "parse_label_wildcard value d (length value - 1) = Inr (v, behavior, n)"
    | "parse_number_wildcard value (length value - 1) = Inr (v, behavior, n)"
    unfolding parse_floating_version_def Let_def r option.sel
    by (auto simp: rbind_eq_Inr split: if_splits option.splits)
  then show ?thesis
  proof cases
    case 1
    then show ?thesis by (auto simp: wf_bound_def floating_bound_def dest: parse_package_version_wf(1))
  next
    case 2
    then show ?thesis by (auto simp: wf_bound_def floating_bound_def dest: parse_package_version_wf(1))
  next
    case 3
    then show ?thesis using plus by (rule parse_two_wildcards_wf)
  next
    case (4 d)
    then show ?thesis using plus dash by (intro parse_label_wildcard_wf)
  next
    case 5
    then show ?thesis by (rule parse_number_wildcard_wf)
  qed
qed


lemma new_bound_wf: "wf_package_version v \<Longrightarrow> wf_bound (new_bound v inclusive) \<and> vb_float_behavior (new_bound v inclusive) = FloatNone"
  by (simp add: wf_bound_def new_bound_def)

lemma parse_version_bound_wf:
  assumes "parse_version_bound value inclusive floating = Inr b"
  shows "wf_bound b \<and> (\<not> floating \<longrightarrow> vb_float_behavior b = FloatNone)"
proof (cases "CHR ''*'' \<in> set value")
  case False
  with assms show ?thesis
    by (auto simp: parse_version_bound_def rbind_eq_Inr dest!: parse_package_version_wf(1) intro: new_bound_wf [THEN conjunct1] new_bound_wf [THEN conjunct2])
next
  case True
  with assms show ?thesis
    by (auto simp: parse_version_bound_def rbind_eq_Inr split: if_splits intro: parse_floating_version_wf)
qed

lemma parse_interval_end_wf:
  assumes "parse_interval_end value inclusive floating = Inr b"
  shows "pred_option (\<lambda>b. wf_bound b \<and> (\<not> floating \<longrightarrow> vb_float_behavior b = FloatNone)) b"
  using assms parse_version_bound_wf [of "trim value" inclusive floating]
  by (auto simp: parse_interval_end_def rbind_eq_Inr split: if_splits)

lemma disjoint_new_bound [simp]: "\<not> disjoint_bounds (new_bound v True) (new_bound v True)"
  by (simp add: disjoint_bounds_def new_bound_def pv_ord.cmp_refl)

lemma parse_version_range_wf:
  assumes "parse_version_range value = Inr r"
  shows "wf_range r"
proof -
  from assms consider
      b where "parse_version_bound (trim value) True True = Inr b" "r = \<lparr>vr_lower = Some b, vr_upper = None\<rparr>"
    | v t where "parse_package_version t = Inr v" "r = \<lparr>vr_lower = Some (new_bound v True), vr_upper = Some (new_bound v True)\<rparr>"
    | s t i j l u where "parse_interval_end s i True = Inr l" "parse_interval_end t j False = Inr u"
        "l \<noteq> None \<or> u \<noteq> None" "case (l, u) of (Some l, Some u) \<Rightarrow> \<not> disjoint_bounds l u | _ \<Rightarrow> True"
        "r = \<lparr>vr_lower = l, vr_upper = u\<rparr>"
    unfolding parse_version_range_def Let_def
    by (auto simp: rbind_eq_Inr split: if_splits option.splits prod.splits)
  then show ?thesis
  proof cases
    case (1 b)
    then show ?thesis using parse_version_bound_wf by (auto simp: wf_range_def)
  next
    case (2 v t)
    from parse_package_version_wf(1) [OF 2(1)] show ?thesis
      by (simp add: 2(2) wf_range_def new_bound_wf)
  next
    case (3 s t i j l u)
    from parse_interval_end_wf [OF 3(1)] parse_interval_end_wf [OF 3(2)] 3(3,4) show ?thesis
      by (auto simp: 3(5) wf_range_def split: option.splits)
  qed
qed

lemma is_better_total: "wf_range r \<Longrightarrow> is_better r current considering \<noteq> None"
  using float_satisfies_total [of "the (vr_lower r)" current] float_satisfies_total [of "the (vr_lower r)" considering]
  by (auto simp: is_better_def wf_range_def split: option.splits)

text \<open>a range the parser accepts never reaches a panic of the float tests or of the preference
  between candidates: a bound that floats on a label has one at least as long as its prefix. Its
  upper bound does not float, one of its bounds is present, and its bounds do not exclude each other.\<close>

theorem parsed_range_safe:
  assumes "parse_version_range value = Inr r"
  shows "(\<forall>b v. vr_lower r = Some b \<longrightarrow> float_satisfies b v \<noteq> None)
    \<and> (\<forall>current considering. is_better r current considering \<noteq> None)
    \<and> (\<forall>u. vr_upper r = Some u \<longrightarrow> vb_float_behavior u = FloatNone)
    \<and> (vr_lower r \<noteq> None \<or> vr_upper r \<noteq> None)
    \<and> (\<forall>l u. vr_lower r = Some l \<longrightarrow> vr_upper r = Some u \<longrightarrow> \<not> disjoint_bounds l u)"
  using parse_version_range_wf [OF assms] float_satisfies_total is_better_total
  by (auto simp: wf_range_def split: option.splits)


definition safe_range_example :: version_range where
  "safe_range_example = \<lparr>vr_lower = Some \<lparr>vb_version = \<lparr>pv_normalized = ''1.0.0-rc.0'', pv_numbers = [1, 0, 0, 0],
       pv_prerelease_start = Some 6\<rparr>, vb_float_prefix_len = 3, vb_inclusive = True, vb_float_behavior = PrereleaseMinor\<rparr>,
     vr_upper = None\<rparr>"

lemma parse_safe_range_example: "parse_version_range '' 1.*-RC.*'' = Inr safe_range_example"
  by (simp add: parse_version_range_def parse_version_bound_def parse_floating_version_def parse_two_wildcards_def
      parse_package_version_def valid_labels_def count_byte_def floating_bound_def safe_range_example_def
      show_digit str_eval)

theorem parsed_range_safe_witness:
  "float_satisfies (the (vr_lower safe_range_example)) example_version \<noteq> None
   \<and> parse_version_range '' 1.*-RC.*'' = Inr safe_range_example"
  using parsed_range_safe [OF parse_safe_range_example] parse_safe_range_example
  by (simp add: safe_range_example_def)

section \<open>The preference between candidates\<close>

text \<open>
  The order a range puts on candidates: for a floating range those the wildcard admits come first
  (the highest best), then those at or above the bound (the lowest best), then those below (the
  highest best); otherwise the lowest version is best.
\<close>

definition preference_class :: "version_range \<Rightarrow> package_version \<Rightarrow> nat" where
  "preference_class r v =
     (case vr_lower r of None \<Rightarrow> 1
      | Some lower \<Rightarrow>
          if vb_float_behavior lower = FloatNone then 1
          else if float_satisfies lower v = Some True then 2
          else if pv_lt v (vb_version lower) then 0 else 1)"

definition range_preference :: "version_range \<Rightarrow> package_version \<Rightarrow> package_version \<Rightarrow> ordering" where
  "range_preference r a b =
     then_with (rust_cmp (preference_class r a) (preference_class r b))
       (if preference_class r a = 1 then pv_cmp b a else pv_cmp a b)"

lemma rust_ord_range_preference: "rust_ord (range_preference r)"
proof
  fix a b c :: package_version
  show "range_preference r a a = Equal" by (simp add: range_preference_def rust_cmp_def pv_ord.cmp_refl)
  show "range_preference r b a = flip_ordering (range_preference r a b)"
    by (auto simp: range_preference_def rust_cmp_def pv_ord.cmp_flip [of b a])
  assume "range_preference r a b \<noteq> Greater" "range_preference r b c \<noteq> Greater"
  then show "range_preference r a c \<noteq> Greater"
    using pv_ord.cmp_trans [of a b c] pv_ord.cmp_trans [of c b a]
    by (auto simp: range_preference_def rust_cmp_def split: if_splits)
qed

lemma is_better_preference:
  assumes "wf_range r"
  shows "is_better r current considering = Some (range_preference r considering current = Greater)"
proof (cases "vr_lower r")
  case None
  then show ?thesis
    by (simp add: is_better_def range_preference_def preference_class_def rust_cmp_def)
next
  case (Some lower)
  then have wf: "wf_bound lower" using assms by (simp add: wf_range_def)
  obtain x y where f: "float_satisfies lower current = Some x" "float_satisfies lower considering = Some y"
    using float_satisfies_total [OF wf] by blast
  show ?thesis
    using f Some pv_ord.cmp_flip [of considering current]
    by (cases x; cases y)
      (auto simp: is_better_def range_preference_def preference_class_def rust_cmp_def split: bool.splits)
qed


text \<open>C26: for a range the parser accepts, the pairwise preference that picks among the available
  versions is the strict part of one total preorder (so a best candidate exists and no cycle of
  preferences does): what the wildcard admits beats what it does not, and among candidates of a
  range without a wildcard the lower version is better.\<close>

theorem preference_correct:
  assumes "parse_version_range value = Inr r"
  shows "(\<forall>current considering. is_better r current considering = Some (range_preference r considering current = Greater))
    \<and> rust_ord (range_preference r)
    \<and> (\<forall>lower a b. vr_lower r = Some lower \<longrightarrow> float_satisfies lower a = Some True \<longrightarrow> float_satisfies lower b = Some False
          \<longrightarrow> is_better r b a = Some True \<and> is_better r a b = Some False)
    \<and> (\<forall>lower a b. vr_lower r = Some lower \<longrightarrow> float_satisfies lower a = Some True \<longrightarrow> float_satisfies lower b = Some True
          \<longrightarrow> is_better r b a = Some (pv_lt b a))
    \<and> (\<not> is_floating r \<longrightarrow> (\<forall>a b. is_better r b a = Some (pv_lt a b)))"
proof (intro conjI allI impI)
  note better = is_better_preference [OF parse_version_range_wf [OF assms]]
  show "is_better r current considering = Some (range_preference r considering current = Greater)"
    for current considering by (rule better)
  show "rust_ord (range_preference r)" by (rule rust_ord_range_preference)
  fix lower a b assume l: "vr_lower r = Some lower" and a: "float_satisfies lower a = Some True"
  then have n: "vb_float_behavior lower \<noteq> FloatNone" by (auto simp: float_satisfies_def)
  { assume "float_satisfies lower b = Some False"
    with l a n show "is_better r b a = Some True" "is_better r a b = Some False" by (simp_all add: is_better_def) }
  { assume "float_satisfies lower b = Some True"
    with l a n show "is_better r b a = Some (pv_lt b a)" by (simp add: is_better_def) }
next
  fix a b assume "\<not> is_floating r"
  then show "is_better r b a = Some (pv_lt a b)" using pv_ord.cmp_flip [of b a]
    by (auto simp: is_better_def is_floating_def split: option.splits if_splits)
qed

theorem preference_correct_witness:
  "is_better safe_range_example example_version \<lparr>pv_normalized = ''1.3.0'', pv_numbers = [1, 3, 0, 0], pv_prerelease_start = None\<rparr> = Some True"
proof -
  have "float_satisfies (the (vr_lower safe_range_example)) \<lparr>pv_normalized = ''1.3.0'', pv_numbers = [1, 3, 0, 0], pv_prerelease_start = None\<rparr> = Some True"
    "float_satisfies (the (vr_lower safe_range_example)) example_version = Some False"
    by (simp_all add: safe_range_example_def example_version_def float_satisfies_def label_matches_def
        pv_prerelease_def float_prefix_def starts_with_def)
  moreover have "vr_lower safe_range_example = Some (the (vr_lower safe_range_example))"
    by (simp add: safe_range_example_def)
  ultimately show ?thesis using preference_correct [OF parse_safe_range_example] by blast
qed

section \<open>The text of a range parses back\<close>

definition graphic :: "char \<Rightarrow> bool" where
  "graphic c \<longleftrightarrow> 33 \<le> (of_char c :: nat) \<and> (of_char c :: nat) \<le> 126"

lemma white_space_ends: "w \<in> set white_space \<Longrightarrow> w \<noteq> [] \<and> \<not> graphic (hd w) \<and> \<not> graphic (last w)"
  by (auto simp: white_space_def graphic_def)

lemma strip_heads_graphic:
  assumes "\<And>w. w \<in> set ws \<Longrightarrow> w \<noteq> [] \<and> \<not> graphic (hd w)" and "s \<noteq> []" and "graphic (hd s)"
  shows "strip_heads ws s = s"
proof -
  have "\<not> (w \<noteq> [] \<and> starts_with w s)" if "w \<in> set ws" for w
  proof -
    from assms(1) [OF that] have "w \<noteq> []" "\<not> graphic (hd w)" by auto
    with assms(2,3) show ?thesis by (cases w; cases s) (auto simp: starts_with_def)
  qed
  then have "List.find (\<lambda>w. w \<noteq> [] \<and> starts_with w s) ws = None" by (auto simp: find_None_iff)
  then show ?thesis by (simp add: strip_heads.simps [of ws s])
qed

lemma trim_graphic: "s \<noteq> [] \<Longrightarrow> graphic (hd s) \<Longrightarrow> graphic (last s) \<Longrightarrow> trim s = s"
proof -
  assume s: "s \<noteq> []" "graphic (hd s)" "graphic (last s)"
  have "strip_heads white_space s = s" using white_space_ends s by (intro strip_heads_graphic) auto
  moreover have "strip_heads (map rev white_space) (rev s) = rev s"
  proof (rule strip_heads_graphic)
    fix w assume "w \<in> set (map rev white_space)"
    then obtain u where "w = rev u" "u \<in> set white_space" by auto
    then show "w \<noteq> [] \<and> \<not> graphic (hd w)" using white_space_ends [of u] by (simp add: hd_rev)
  qed (use s in \<open>simp_all add: hd_rev\<close>)
  ultimately show ?thesis by (simp add: trim_def trim_start_def trim_end_def)
qed

lemma alnum_graphic: "is_alnum c \<Longrightarrow> graphic c"
  by (auto simp: is_alnum_def graphic_def is_digit_of_char is_alphabetic_def is_upper_of_char is_lower_def char_le_iff)

lemma normalized_bytes:
  assumes "wf_package_version v" and "c \<in> set (pv_normalized v)"
  shows "is_alnum c \<or> c = CHR ''.'' \<or> c = CHR ''-''"
proof (cases "pv_prerelease_start v")
  case None
  with assms show ?thesis using numbers_part_bytes [of c "pv_numbers v"] by (auto simp: wf_package_version_def is_alnum_def)
next
  case (Some start)
  with assms(1) obtain p where "valid_labels p" "pv_normalized v = numbers_part (pv_numbers v) @ CHR ''-'' # p"
    by (auto simp: wf_package_version_def)
  with assms(2) show ?thesis using numbers_part_bytes [of c "pv_numbers v"] valid_labels_bytes [of p c]
    by (auto simp: is_alnum_def)
qed

lemma normalized_graphic: "wf_package_version v \<Longrightarrow> c \<in> set (pv_normalized v) \<Longrightarrow> graphic c"
  using normalized_bytes [of v c] alnum_graphic [of c] by (auto simp: graphic_def)

lemma normalized_ne: "wf_package_version v \<Longrightarrow> pv_normalized v \<noteq> []"
  using numbers_part_ne [of "pv_numbers v"] by (auto simp: wf_package_version_def split: option.splits)

lemma trim_normalized [simp]: "wf_package_version v \<Longrightarrow> trim (pv_normalized v) = pv_normalized v"
  using normalized_ne normalized_graphic by (intro trim_graphic) auto

lemma normalized_no:
  assumes "wf_package_version v" and "c \<in> {CHR ''*'', CHR '','', CHR ''['', CHR ''('', CHR '']'', CHR '')''}"
  shows "c \<notin> set (pv_normalized v)"
  using normalized_bytes [OF assms(1), of c] assms(2)
  by (auto simp: is_alnum_def is_digit_of_char is_alphabetic_def is_upper_of_char is_lower_def char_le_iff)

lemma parse_normalized_bound:
  assumes "wf_package_version v" and "length (pv_normalized v) \<le> 256"
  shows "parse_version_bound (pv_normalized v) inclusive floating = Inr (new_bound v inclusive)"
  using normalized_no [OF assms(1), of "CHR ''*''"] parse_normalized [OF assms] by (simp add: parse_version_bound_def)


lemma trim_brackets:
  "a \<in> {CHR ''['', CHR ''(''} \<Longrightarrow> z \<in> {CHR '']'', CHR '')''} \<Longrightarrow> trim (a # s @ [z]) = a # s @ [z]"
  by (rule trim_graphic) (auto simp: graphic_def)

lemma ends_with_snoc: "ends_with [c] (s @ [z]) \<longleftrightarrow> z = c"
  by (auto simp: ends_with_iff)

lemma parse_interval:
  assumes a: "a \<in> {CHR ''['', CHR ''(''}" and z: "z \<in> {CHR '']'', CHR '')''}"
    and l: "CHR '','' \<notin> set l" and p: "parse_interval_end l (a = CHR ''['') True = Inr lower"
    and q: "parse_interval_end u (z = CHR '']'') False = Inr upper"
    and some: "lower \<noteq> None \<or> upper \<noteq> None"
    and ok: "case (lower, upper) of (Some l, Some u) \<Rightarrow> \<not> disjoint_bounds l u | _ \<Rightarrow> True" and t: "text = (l @ CHR '','' # u) @ [z]"
  shows "parse_version_range (a # text) = Inr \<lparr>vr_lower = lower, vr_upper = upper\<rparr>"
proof -
  have "trim (a # text) = a # text" unfolding t by (rule trim_brackets [OF a z])
  moreover have "split_once CHR '','' (l @ CHR '','' # u) = Some (l, u)" using l by (simp add: split_once_Some)
  moreover have "starts_with ''['' (a # text) \<longleftrightarrow> a = CHR ''[''" by (simp add: starts_with_def)
  moreover have "ends_with [c] (a # text) \<longleftrightarrow> z = c" for c
    using ends_with_snoc [of c "a # l @ CHR '','' # u" z] by (simp add: t)
  moreover have "drop 1 (take (length (a # text) - 1) (a # text)) = l @ CHR '','' # u" by (simp add: t)
  moreover have "3 \<le> length (a # text)" by (simp add: t)
  ultimately show ?thesis using a z p q some ok unfolding parse_version_range_def
    by (auto simp: Let_def split: option.splits)
qed

lemma parse_exact:
  assumes "wf_package_version v" and "length (pv_normalized v) \<le> 256"
  shows "parse_version_range (CHR ''['' # pv_normalized v @ '']'')
     = Inr \<lparr>vr_lower = Some (new_bound v True), vr_upper = Some (new_bound v True)\<rparr>"
proof -
  let ?n = "pv_normalized v" and ?s = "CHR ''['' # pv_normalized v @ '']''"
  have "trim ?s = ?s" by (rule trim_brackets) simp_all
  moreover have "split_once CHR '','' ?n = None" using normalized_no [OF assms(1)] by (simp add: split_once_None)
  moreover have "ends_with '']'' ?s" using ends_with_snoc [of "CHR '']''" "CHR ''['' # ?n" "CHR '']''"] by simp
  moreover have "drop 1 (take (length ?s - 1) ?s) = ?n" by simp
  moreover have "3 \<le> length ?s" using normalized_ne [OF assms(1)] by (cases ?n) simp_all
  moreover have "starts_with ''['' ?s" by (simp add: starts_with_def)
  moreover note parse_normalized [OF assms] trim_normalized [OF assms(1)] normalized_ne [OF assms(1)]
  ultimately show ?thesis unfolding parse_version_range_def Let_def by simp
qed

lemma parse_end_of_bound:
  assumes "pred_option wf_bound b" and "pred_option (\<lambda>b. length (pv_normalized (vb_version b)) \<le> 256) b"
    and "pred_option (\<lambda>b. vb_inclusive b = inclusive) b"
  shows "parse_interval_end (case b of None \<Rightarrow> [] | Some b \<Rightarrow> pv_normalized (vb_version b)) inclusive floating
     = Inr (map_option (\<lambda>b. new_bound (vb_version b) inclusive) b)"
proof (cases b)
  case None
  have "trim [] = []" by (simp add: trim_def trim_start_def trim_end_def strip_heads.simps starts_with_def white_space_def)
  then show ?thesis by (simp add: None parse_interval_end_def)
next
  case (Some c)
  with assms have "wf_package_version (vb_version c)" "length (pv_normalized (vb_version c)) \<le> 256"
    by (simp_all add: wf_bound_def)
  then show ?thesis by (simp add: Some parse_interval_end_def parse_normalized_bound normalized_ne)
qed


lemma vr_eq_contains:
  assumes "vr_eq r s"
  shows "range_contains s v = range_contains r v"
proof -
  have eq: "pv_cmp v x = pv_cmp v y" if "pv_eq x y" for x y
    using pv_ord.equal_cong [OF that, of v] pv_ord.cmp_flip [of v x] pv_ord.cmp_flip [of v y] by simp
  have "above_lower (vr_lower s) v = above_lower (vr_lower r) v"
    using assms eq by (cases "vr_lower r"; cases "vr_lower s") (auto simp: vr_eq_def above_lower_def vb_eq_def)
  moreover have "below_upper (vr_upper s) v = below_upper (vr_upper r) v"
    using assms eq by (cases "vr_upper r"; cases "vr_upper s") (auto simp: vr_eq_def below_upper_def vb_eq_def)
  ultimately show ?thesis by (simp add: range_contains_def)
qed

lemma vb_eq_refl [simp]: "vb_eq b b"
  by (simp add: vb_eq_def pv_ord.cmp_refl)

lemma vb_eq_new_bound:
  "wf_bound b \<Longrightarrow> vb_float_behavior b = FloatNone \<Longrightarrow> pv_eq (vb_version b) v \<Longrightarrow> vb_inclusive b = i \<Longrightarrow> vb_eq b (new_bound v i)"
  by (simp add: vb_eq_def new_bound_def wf_bound_def)

definition short_range :: "version_range \<Rightarrow> bool" where
  "short_range r \<longleftrightarrow> pred_option (\<lambda>b. length (pv_normalized (vb_version b)) \<le> 256) (vr_lower r)
     \<and> pred_option (\<lambda>b. length (pv_normalized (vb_version b)) \<le> 256) (vr_upper r)"

lemma exact_text_parses:
  assumes wf: "wf_range r" "short_range r" and fixed: "\<not> is_floating r"
    and lu: "vr_lower r = Some l" "vr_upper r = Some u" "vb_inclusive l" "vb_inclusive u" "pv_eq (vb_version l) (vb_version u)"
  shows "\<exists>s. parse_version_range (diagnostic_text r) = Inr s \<and> vr_eq r s"
proof -
  have "diagnostic_text r = CHR ''['' # pv_normalized (vb_version l) @ '']''" using lu by (simp add: diagnostic_text_def)
  moreover have "wf_package_version (vb_version l)" "length (pv_normalized (vb_version l)) \<le> 256"
    using wf lu by (simp_all add: wf_range_def short_range_def wf_bound_def)
  ultimately have "parse_version_range (diagnostic_text r)
      = Inr \<lparr>vr_lower = Some (new_bound (vb_version l) True), vr_upper = Some (new_bound (vb_version l) True)\<rparr>"
    using parse_exact by simp
  moreover have "vb_eq l (new_bound (vb_version l) True)" "vb_eq u (new_bound (vb_version l) True)"
    using wf lu fixed by (auto intro!: vb_eq_new_bound simp: wf_range_def is_floating_def pv_ord.cmp_refl pv_ord.equal_sym)
  ultimately show ?thesis using lu by (simp add: vr_eq_def)
qed

lemma interval_text_parses:
  assumes wf: "wf_range r" "short_range r" and fixed: "\<not> is_floating r"
    and no: "\<not> (case (vr_lower r, vr_upper r) of
            (Some l, Some u) \<Rightarrow> vb_inclusive l \<and> vb_inclusive u \<and> pv_eq (vb_version l) (vb_version u) | _ \<Rightarrow> False)"
  shows "\<exists>s. parse_version_range (diagnostic_text r) = Inr s \<and> vr_eq r s"
proof -
  let ?t = "\<lambda>b. case b of None \<Rightarrow> [] | Some b \<Rightarrow> pv_normalized (vb_version b)"
  let ?i = "\<lambda>b. case b of None \<Rightarrow> False | Some b \<Rightarrow> vb_inclusive b"
  let ?b = "\<lambda>b. map_option (\<lambda>c. new_bound (vb_version c) (?i b)) b"
  let ?a = "if ?i (vr_lower r) then CHR ''['' else CHR ''(''" and ?z = "if ?i (vr_upper r) then CHR '']'' else CHR '')''"
  have text_eq: "diagnostic_text r = ?a # (?t (vr_lower r) @ CHR '','' # ?t (vr_upper r)) @ [?z]"
    unfolding diagnostic_text_def if_not_P [OF no] using fixed by simp
  have brackets: "(?a = CHR ''['') = ?i (vr_lower r)" "(?z = CHR '']'') = ?i (vr_upper r)" by simp_all
  have incl: "pred_option (\<lambda>c. vb_inclusive c = ?i b) b" for b by (cases b) simp_all
  have wfl: "pred_option wf_bound (vr_lower r)" "pred_option wf_bound (vr_upper r)"
    using wf by (auto simp: wf_range_def option.pred_set)
  have short: "pred_option (\<lambda>b. length (pv_normalized (vb_version b)) \<le> 256) (vr_lower r)"
    "pred_option (\<lambda>b. length (pv_normalized (vb_version b)) \<le> 256) (vr_upper r)"
    using wf by (simp_all add: short_range_def)
  have "parse_version_range (diagnostic_text r) = Inr \<lparr>vr_lower = ?b (vr_lower r), vr_upper = ?b (vr_upper r)\<rparr>"
    unfolding text_eq
  proof (rule parse_interval)
    show "CHR '','' \<notin> set (?t (vr_lower r))"
      using wfl(1) normalized_no [of _ "CHR '',''"] by (cases "vr_lower r") (auto simp: wf_bound_def)
    show "parse_interval_end (?t (vr_lower r)) (?a = CHR ''['') True = Inr (?b (vr_lower r))"
      using parse_end_of_bound [OF wfl(1) short(1) incl, of True] unfolding brackets .
    show "parse_interval_end (?t (vr_upper r)) (?z = CHR '']'') False = Inr (?b (vr_upper r))"
      using parse_end_of_bound [OF wfl(2) short(2) incl, of False] unfolding brackets .
    show "?b (vr_lower r) \<noteq> None \<or> ?b (vr_upper r) \<noteq> None" using wf by (auto simp: wf_range_def)
    show "case (?b (vr_lower r), ?b (vr_upper r)) of (Some l, Some u) \<Rightarrow> \<not> disjoint_bounds l u | _ \<Rightarrow> True"
      using wf(1) by (auto simp: wf_range_def disjoint_bounds_def new_bound_def split: option.splits)
  qed simp_all
  moreover have "vr_eq r \<lparr>vr_lower = ?b (vr_lower r), vr_upper = ?b (vr_upper r)\<rparr>"
    using wf(1) fixed
    by (auto intro!: vb_eq_new_bound simp: vr_eq_def wf_range_def is_floating_def pv_ord.cmp_refl split: option.splits)
  ultimately show ?thesis by blast
qed

text \<open>C35: the interval text an error message shows for a range is a range: unless the range floats
  (its text says so) or the normalized text of a bound is longer than the parser admits, parsing the
  text gives a range equal to it, which admits the same versions.\<close>

theorem diagnostic_text_parses:
  assumes "parse_version_range value = Inr r" and "\<not> is_floating r" and "short_range r"
  shows "\<exists>s. parse_version_range (diagnostic_text r) = Inr s \<and> vr_eq r s \<and> (\<forall>v. range_contains s v = range_contains r v)"
proof -
  note wf = parse_version_range_wf [OF assms(1)]
  have "\<exists>s. parse_version_range (diagnostic_text r) = Inr s \<and> vr_eq r s"
  proof (cases "case (vr_lower r, vr_upper r) of
            (Some l, Some u) \<Rightarrow> vb_inclusive l \<and> vb_inclusive u \<and> pv_eq (vb_version l) (vb_version u) | _ \<Rightarrow> False")
    case True
    then show ?thesis using exact_text_parses [OF wf assms(3,2)] by (auto split: option.splits)
  next
    case False
    then show ?thesis by (rule interval_text_parses [OF wf assms(3,2)])
  qed
  then show ?thesis using vr_eq_contains by blast
qed

definition interval_example :: version_range where
  "interval_example = \<lparr>vr_lower = Some (new_bound example_version False), vr_upper = None\<rparr>"

lemma parse_example_bound: "parse_version_bound ''1.2-RC'' inclusive floating = Inr (new_bound example_version inclusive)"
  by (simp add: parse_version_bound_def parse_package_version_def valid_labels_def example_version_def show_digit str_eval)

lemma parse_interval_example: "parse_version_range ''(1.2-RC,)'' = Inr interval_example"
proof -
  have "trim ''1.2-RC'' = ''1.2-RC''" "trim [] = []" by (simp_all add: str_eval)
  then have "parse_interval_end ''1.2-RC'' False True = Inr (Some (new_bound example_version False))"
    "parse_interval_end [] False False = Inr None"
    by (simp_all add: parse_interval_end_def parse_example_bound)
  then show ?thesis
    using parse_interval [of "CHR ''(''" "CHR '')''" "''1.2-RC''" "Some (new_bound example_version False)" "[]" None]
    by (simp add: interval_example_def)
qed

theorem diagnostic_text_parses_witness:
  "\<exists>s. parse_version_range ''(1.2.0-rc,)'' = Inr s \<and> vr_eq interval_example s"
  using diagnostic_text_parses [OF parse_interval_example]
  by (simp add: interval_example_def short_range_def is_floating_def new_bound_def example_version_def
      diagnostic_text_def) blast

end
