(* ===== verification/Span_Table.thy ===== *)
theory Span_Table
  imports Text_Arena
begin

text \<open>
  The text table of \<open>crates/dv-core/src/project.rs\<close> and \<open>package.rs\<close>: one string, and spans of
  32-bit start and length into it. Both crates' \<open>TextTable\<close> is this one; they differ in the error
  they report. A \<open>u32\<close> is a natural that the checked conversion bounds.
\<close>

record tspan =
  sp_start :: nat
  sp_len :: nat

definition NO_TEXT :: tspan where
  "NO_TEXT = \<lparr>sp_start = 2 ^ 32 - 1, sp_len = 0\<rparr>"

definition push_span :: "'e \<Rightarrow> 'e \<Rightarrow> string \<Rightarrow> string \<Rightarrow> 'e + string \<times> tspan" where
  "push_span table_error value_error table value =
     (if 2 ^ 32 \<le> length table then Inl table_error
      else if 2 ^ 32 \<le> length value then Inl value_error
      else Inr (table @ value, \<lparr>sp_start = length table, sp_len = length value\<rparr>))"

definition span_text :: "string \<Rightarrow> tspan \<Rightarrow> string" where
  "span_text table span = take (sp_len span) (drop (sp_start span) table)"

definition span_ok :: "string \<Rightarrow> tspan \<Rightarrow> bool" where
  "span_ok table span \<longleftrightarrow> sp_start span + sp_len span \<le> length table"

definition optional_span_text :: "string \<Rightarrow> tspan \<Rightarrow> string option" where
  "optional_span_text table span = (if span \<noteq> NO_TEXT then Some (span_text table span) else None)"

interpretation spans: text_arena "push_span e f" span_text span_ok for e f
  by unfold_locales (auto simp: push_span_def span_text_def span_ok_def split: if_splits)

lemma push_span_len: "push_span e f a s = Inr (b, sp) \<Longrightarrow> sp_len sp = length s"
  by (auto simp: push_span_def split: if_splits)

lemma optional_pushed:
  "push_span e f a s = Inr (b, sp) \<Longrightarrow> s \<noteq> [] \<Longrightarrow> optional_span_text b sp = Some s"
  using spans.push_read [of e f a s b sp] push_span_len [of e f a s b sp]
  by (auto simp: optional_span_text_def NO_TEXT_def)

lemma optional_kept:
  "span_ok a sp \<Longrightarrow> push_span e f a s = Inr (b, sp') \<Longrightarrow> optional_span_text b sp = optional_span_text a sp"
  using spans.keeps_read [of e f a s b sp' sp] by (simp add: optional_span_text_def)

end
