(* ===== verification/Project_Spec.thy ===== *)
theory Project_Spec
  imports Span_Table Framework
begin

text \<open>
  \<open>crates/dv-core/src/project.rs\<close>: the evaluated project and what it is made of: the enumerations
  with their spellings, the asset flags (a \<open>u8\<close>), the packed rows, the project record whose
  variable text is one table, its accessors, the error value and the property parsers. A path is
  its text.
\<close>

section \<open>Enumerations\<close>

datatype project_configuration = Debug | Release

definition parse_configuration :: "string \<Rightarrow> project_configuration option" where
  "parse_configuration value =
     (if eq_ignore_case value ''Debug'' then Some Debug
      else if eq_ignore_case value ''Release'' then Some Release else None)"

fun configuration_str :: "project_configuration \<Rightarrow> string" where
  "configuration_str Debug = ''Debug''"
| "configuration_str Release = ''Release''"

datatype project_output_type = Exe | Library

fun output_type_str :: "project_output_type \<Rightarrow> string" where
  "output_type_str Exe = ''Exe''"
| "output_type_str Library = ''Library''"

datatype runtime_roll_forward =
  RollDisable | RollLatestPatch | RollMinor | RollMajor | RollLatestMinor | RollLatestMajor

definition parse_roll_forward :: "string \<Rightarrow> runtime_roll_forward option" where
  "parse_roll_forward value =
     (if eq_ignore_case value ''Disable'' then Some RollDisable
      else if eq_ignore_case value ''LatestPatch'' then Some RollLatestPatch
      else if eq_ignore_case value ''Minor'' then Some RollMinor
      else if eq_ignore_case value ''Major'' then Some RollMajor
      else if eq_ignore_case value ''LatestMinor'' then Some RollLatestMinor
      else if eq_ignore_case value ''LatestMajor'' then Some RollLatestMajor
      else None)"

fun roll_forward_str :: "runtime_roll_forward \<Rightarrow> string" where
  "roll_forward_str RollDisable = ''Disable''"
| "roll_forward_str RollLatestPatch = ''LatestPatch''"
| "roll_forward_str RollMinor = ''Minor''"
| "roll_forward_str RollMajor = ''Major''"
| "roll_forward_str RollLatestMinor = ''LatestMinor''"
| "roll_forward_str RollLatestMajor = ''LatestMajor''"

datatype nuget_audit_mode = AuditDirect | AuditAll

definition parse_audit_mode :: "string \<Rightarrow> nuget_audit_mode option" where
  "parse_audit_mode value =
     (if eq_ignore_case value ''direct'' then Some AuditDirect
      else if eq_ignore_case value ''all'' then Some AuditAll else None)"

fun audit_mode_str :: "nuget_audit_mode \<Rightarrow> string" where
  "audit_mode_str AuditDirect = ''direct''"
| "audit_mode_str AuditAll = ''all''"

datatype nuget_audit_level = AuditLow | AuditModerate | AuditHigh | AuditCritical

definition parse_audit_level :: "string \<Rightarrow> nuget_audit_level option" where
  "parse_audit_level value =
     (if eq_ignore_case value ''low'' then Some AuditLow
      else if eq_ignore_case value ''moderate'' then Some AuditModerate
      else if eq_ignore_case value ''high'' then Some AuditHigh
      else if eq_ignore_case value ''critical'' then Some AuditCritical
      else None)"

fun audit_level_str :: "nuget_audit_level \<Rightarrow> string" where
  "audit_level_str AuditLow = ''low''"
| "audit_level_str AuditModerate = ''moderate''"
| "audit_level_str AuditHigh = ''high''"
| "audit_level_str AuditCritical = ''critical''"

datatype project_property =
  PropertyTargetFramework | PropertyTargetFrameworks | PropertyRuntimeIdentifier
| PropertyRuntimeIdentifiers | PropertyOutputType | PropertyNullable
| PropertyImplicitUsings | PropertyAssemblyName | PropertyRootNamespace
| PropertyDeterministic | PropertyRuntimeFrameworkVersion | PropertyTargetLatestRuntimePatch
| PropertyRollForward | PropertySelfContained | PropertyNuGetAudit
| PropertyNuGetAuditMode | PropertyNuGetAuditLevel | PropertyRestoreEnablePackagePruning
| PropertyAllowMissingPrunePackageData | PropertyManagePackageVersionsCentrally | PropertyCentralPackageTransitivePinningEnabled
| PropertyCentralPackageVersionOverrideEnabled | PropertyBaseOutputPath | PropertyBaseIntermediateOutputPath
| PropertyOutputPath | PropertyIntermediateOutputPath | PropertyArtifactsPath

section \<open>Asset flags\<close>

unbundle bit_operations_syntax

type_synonym asset_flags = u8

definition ASSETS_NONE :: asset_flags where "ASSETS_NONE = 0"
definition ASSETS_RUNTIME :: asset_flags where "ASSETS_RUNTIME = push_bit 0 1"
definition ASSETS_COMPILE :: asset_flags where "ASSETS_COMPILE = push_bit 1 1"
definition ASSETS_BUILD :: asset_flags where "ASSETS_BUILD = push_bit 2 1"
definition ASSETS_NATIVE :: asset_flags where "ASSETS_NATIVE = push_bit 3 1"
definition ASSETS_CONTENT_FILES :: asset_flags where "ASSETS_CONTENT_FILES = push_bit 4 1"
definition ASSETS_ANALYZERS :: asset_flags where "ASSETS_ANALYZERS = push_bit 5 1"
definition ASSETS_BUILD_MULTI_TARGETING :: asset_flags where "ASSETS_BUILD_MULTI_TARGETING = push_bit 6 1"
definition ASSETS_BUILD_TRANSITIVE :: asset_flags where "ASSETS_BUILD_TRANSITIVE = push_bit 7 1"
definition ASSETS_ALL :: asset_flags where "ASSETS_ALL = 255"
definition ASSETS_DEFAULT_PRIVATE :: asset_flags where "ASSETS_DEFAULT_PRIVATE = ASSETS_CONTENT_FILES OR ASSETS_ANALYZERS OR ASSETS_BUILD"
definition ASSETS_NO_CONTENT :: asset_flags where "ASSETS_NO_CONTENT = ASSETS_ALL AND NOT ASSETS_CONTENT_FILES"

definition flags_contain :: "asset_flags \<Rightarrow> asset_flags \<Rightarrow> bool" where
  "flags_contain a b \<longleftrightarrow> a AND b = b"

definition flags_union :: "asset_flags \<Rightarrow> asset_flags \<Rightarrow> asset_flags" where
  "flags_union a b = a OR b"

definition flags_intersect :: "asset_flags \<Rightarrow> asset_flags \<Rightarrow> asset_flags" where
  "flags_intersect a b = a AND b"

definition flags_without :: "asset_flags \<Rightarrow> asset_flags \<Rightarrow> asset_flags" where
  "flags_without a b = a AND NOT b"

section \<open>Errors\<close>

datatype project_error_kind =
  ProjectNotFound | Ambiguous | ProjectIo | InvalidXml | Unsupported | InvalidProperty
| ProjectNonUnicodePath | UnsafePath

text \<open>A message is a format string and the arguments formatted into it.\<close>

datatype project_message = Text string "string list"

record project_error =
  je_kind :: project_error_kind
  je_path :: string
  je_message :: project_message
  je_diagnostic :: "(string \<times> string) list option"

definition project_error_new :: "project_error_kind \<Rightarrow> string \<Rightarrow> project_message \<Rightarrow> project_error" where
  "project_error_new kind path message =
     \<lparr>je_kind = kind, je_path = path, je_message = message, je_diagnostic = None\<rparr>"

definition je_with_context :: "string \<Rightarrow> string \<Rightarrow> project_error \<Rightarrow> project_error" where
  "je_with_context name value e =
     e\<lparr>je_diagnostic := Some ((case je_diagnostic e of None \<Rightarrow> [] | Some c \<Rightarrow> c) @ [(name, value)])\<rparr>"

definition preserve_input_spelling :: "string \<Rightarrow> string \<Rightarrow> project_error \<Rightarrow> project_error" where
  "preserve_input_spelling identity spelling e = (if je_path e = identity then e\<lparr>je_path := spelling\<rparr> else e)"

definition je_diagnostic_context :: "project_error \<Rightarrow> (string \<times> string) list" where
  "je_diagnostic_context e = (case je_diagnostic e of None \<Rightarrow> [] | Some c \<Rightarrow> c)"

section \<open>The project record\<close>

record package_reference =
  pkg_id :: tspan
  pkg_version :: tspan
  pkg_no_warn :: tspan
  pkg_aliases :: tspan
  pkg_include_assets :: asset_flags
  pkg_exclude_assets :: asset_flags
  pkg_private_assets :: asset_flags
  pkg_generate_path_property :: bool

record framework_reference =
  fr_id :: tspan
  fr_runtime_version :: tspan
  fr_targeting_pack_version :: tspan
  fr_target_latest_runtime_patch :: "bool option"

record central_package_version =
  cpv_id :: tspan
  cpv_version :: tspan

definition NO_RUNTIME_IDENTIFIER :: nat where
  "NO_RUNTIME_IDENTIFIER = 2 ^ 32 - 1"

record project_spec =
  ps_text :: string
  ps_project_path :: tspan
  ps_project_directory :: tspan
  ps_target_framework_text :: tspan
  ps_assembly_name :: tspan
  ps_root_namespace :: tspan
  ps_runtime_dimensions :: "tspan list"
  ps_sources :: "tspan list"
  ps_project_references :: "tspan list"
  ps_package_references :: "package_reference list"
  ps_central_package_versions :: "central_package_version list"
  ps_central_package_fingerprint :: tspan
  ps_framework_references :: "framework_reference list"
  ps_runtime_framework_version :: tspan
  ps_runtime_identifier_index :: nat
  ps_runtime_identifiers_len :: nat
  ps_configuration :: project_configuration
  ps_output_type :: project_output_type
  ps_nullable :: bool
  ps_implicit_usings :: bool
  ps_deterministic :: bool
  ps_self_contained :: bool
  ps_nuget_audit_enabled :: bool
  ps_restore_package_pruning :: bool
  ps_allow_missing_prune_package_data :: bool
  ps_central_package_management :: bool
  ps_central_transitive_pinning :: bool
  ps_nuget_audit_mode :: nuget_audit_mode
  ps_nuget_audit_level :: nuget_audit_level
  ps_target_latest_runtime_patch :: "bool option"
  ps_roll_forward :: runtime_roll_forward
  ps_target_framework :: target_framework

text \<open>The accessors; those that only return a field are the record's own selectors.\<close>

definition ps_span :: "project_spec \<Rightarrow> tspan \<Rightarrow> string" where
  "ps_span p span = span_text (ps_text p) span"

definition ps_optional :: "project_spec \<Rightarrow> tspan \<Rightarrow> string option" where
  "ps_optional p span = optional_span_text (ps_text p) span"

definition project_path :: "project_spec \<Rightarrow> string" where
  "project_path p = ps_span p (ps_project_path p)"

definition project_directory :: "project_spec \<Rightarrow> string" where
  "project_directory p = ps_span p (ps_project_directory p)"

definition target_framework_name :: "project_spec \<Rightarrow> string" where
  "target_framework_name p = ps_span p (ps_target_framework_text p)"

definition runtime_identifier :: "project_spec \<Rightarrow> string option" where
  "runtime_identifier p =
     (if ps_runtime_identifier_index p \<noteq> NO_RUNTIME_IDENTIFIER
      then Some (ps_span p (ps_runtime_dimensions p ! ps_runtime_identifier_index p)) else None)"

definition runtime_identifiers :: "project_spec \<Rightarrow> string list" where
  "runtime_identifiers p = map (ps_span p) (take (ps_runtime_identifiers_len p) (ps_runtime_dimensions p))"

definition runtime_dimensions :: "project_spec \<Rightarrow> string list" where
  "runtime_dimensions p = map (ps_span p) (ps_runtime_dimensions p)"

definition assembly_name :: "project_spec \<Rightarrow> string" where
  "assembly_name p = ps_span p (ps_assembly_name p)"

definition root_namespace :: "project_spec \<Rightarrow> string" where
  "root_namespace p = ps_span p (ps_root_namespace p)"

definition project_sources :: "project_spec \<Rightarrow> string list" where
  "project_sources p = map (ps_span p) (ps_sources p)"

definition project_references :: "project_spec \<Rightarrow> string list" where
  "project_references p = map (ps_span p) (ps_project_references p)"

definition package_id :: "project_spec \<Rightarrow> package_reference \<Rightarrow> string" where
  "package_id p r = ps_span p (pkg_id r)"

definition package_version_text :: "project_spec \<Rightarrow> package_reference \<Rightarrow> string" where
  "package_version_text p r = ps_span p (pkg_version r)"

definition package_effective_assets :: "package_reference \<Rightarrow> asset_flags" where
  "package_effective_assets r = flags_without (pkg_include_assets r) (pkg_exclude_assets r)"

definition package_no_warn :: "project_spec \<Rightarrow> package_reference \<Rightarrow> string option" where
  "package_no_warn p r = ps_optional p (pkg_no_warn r)"

definition package_aliases :: "project_spec \<Rightarrow> package_reference \<Rightarrow> string option" where
  "package_aliases p r = ps_optional p (pkg_aliases r)"

definition central_package_id :: "project_spec \<Rightarrow> central_package_version \<Rightarrow> string" where
  "central_package_id p r = ps_span p (cpv_id r)"

definition central_package_version_text :: "project_spec \<Rightarrow> central_package_version \<Rightarrow> string" where
  "central_package_version_text p r = ps_span p (cpv_version r)"

definition framework_reference_id :: "project_spec \<Rightarrow> framework_reference \<Rightarrow> string" where
  "framework_reference_id p r = ps_span p (fr_id r)"

definition framework_runtime_version :: "project_spec \<Rightarrow> framework_reference \<Rightarrow> string option" where
  "framework_runtime_version p r = ps_optional p (fr_runtime_version r)"

definition framework_targeting_pack_version :: "project_spec \<Rightarrow> framework_reference \<Rightarrow> string option" where
  "framework_targeting_pack_version p r = ps_optional p (fr_targeting_pack_version r)"

definition runtime_framework_version :: "project_spec \<Rightarrow> string option" where
  "runtime_framework_version p = ps_optional p (ps_runtime_framework_version p)"

section \<open>Property parsers\<close>

definition invalid_property :: "string \<Rightarrow> string \<Rightarrow> string list \<Rightarrow> project_error" where
  "invalid_property path template args = project_error_new InvalidProperty path (Text template args)"

definition is_dynamic :: "string \<Rightarrow> bool" where
  "is_dynamic value \<longleftrightarrow> contains_str ''$('' value"

definition parse_toggle :: "string \<Rightarrow> string \<Rightarrow> string option \<Rightarrow> bool \<Rightarrow> bool \<Rightarrow> project_error + bool" where
  "parse_toggle path property value fallback only_enable =
     (case value of None \<Rightarrow> Inr fallback
      | Some v \<Rightarrow>
          if eq_ignore_case v ''enable'' then Inr True
          else if \<not> only_enable \<and> eq_ignore_case v ''disable'' then Inr False
          else Inl (invalid_property path ''{property} value {value:?} is unsupported'' [property, v]))"

definition parse_bool :: "string \<Rightarrow> string \<Rightarrow> string option \<Rightarrow> bool \<Rightarrow> project_error + bool" where
  "parse_bool path property value fallback =
     (case value of None \<Rightarrow> Inr fallback
      | Some v \<Rightarrow>
          if eq_ignore_case v ''true'' then Inr True
          else if eq_ignore_case v ''false'' then Inr False
          else Inl (invalid_property path ''{property} value {value:?} must be true or false'' [property, v]))"

definition validate_optional_version :: "string \<Rightarrow> string \<Rightarrow> string option \<Rightarrow> project_error + unit" where
  "validate_optional_version path property value =
     (if (case value of None \<Rightarrow> False | Some v \<Rightarrow> v = [] \<or> is_dynamic v)
      then Inl (invalid_property path ''{property} must be a non-empty literal version'' [property])
      else Inr ())"

definition parse_runtime_identifier :: "string \<Rightarrow> string option \<Rightarrow> project_error + string option" where
  "parse_runtime_identifier path value =
     (case value of None \<Rightarrow> Inr None
      | Some v \<Rightarrow>
          if v = [] then Inr None
          else if is_dynamic v \<or> CHR '';'' \<in> set v
          then Inl (invalid_property path ''RuntimeIdentifier {value:?} must be one literal runtime identifier'' [v])
          else Inr (Some v))"

definition push_unique :: "string list \<Rightarrow> string \<Rightarrow> string list" where
  "push_unique xs x = (if x \<in> set xs then xs else xs @ [x])"

definition parse_runtime_identifiers :: "string \<Rightarrow> string option \<Rightarrow> project_error + string list" where
  "parse_runtime_identifiers path value =
     (case value of None \<Rightarrow> Inr []
      | Some v \<Rightarrow>
          if is_dynamic v
          then Inl (invalid_property path ''RuntimeIdentifiers must be a literal semicolon-delimited list'' [])
          else Inr (foldl push_unique [] (filter (\<lambda>s. s \<noteq> []) (map trim (split_on CHR '';'' v)))))"

definition required_property :: "string \<Rightarrow> string \<Rightarrow> string option \<Rightarrow> project_error + string" where
  "required_property path name value =
     (case value of
        None \<Rightarrow> Inl (invalid_property path ''{name} must be a non-empty literal'' [name])
      | Some v \<Rightarrow>
          if v \<noteq> [] \<and> \<not> is_dynamic v then Inr v
          else Inl (invalid_property path ''{name} must be a non-empty literal'' [name]))"

definition property_table :: "(string \<times> project_property) list" where
  "property_table =
    [(''TargetFramework'', PropertyTargetFramework), (''TargetFrameworks'', PropertyTargetFrameworks),
     (''RuntimeIdentifier'', PropertyRuntimeIdentifier), (''RuntimeIdentifiers'', PropertyRuntimeIdentifiers),
     (''OutputType'', PropertyOutputType), (''Nullable'', PropertyNullable),
     (''ImplicitUsings'', PropertyImplicitUsings), (''AssemblyName'', PropertyAssemblyName),
     (''RootNamespace'', PropertyRootNamespace), (''Deterministic'', PropertyDeterministic),
     (''RuntimeFrameworkVersion'', PropertyRuntimeFrameworkVersion), (''TargetLatestRuntimePatch'', PropertyTargetLatestRuntimePatch),
     (''RollForward'', PropertyRollForward), (''SelfContained'', PropertySelfContained),
     (''NuGetAudit'', PropertyNuGetAudit), (''NuGetAuditMode'', PropertyNuGetAuditMode),
     (''NuGetAuditLevel'', PropertyNuGetAuditLevel), (''RestoreEnablePackagePruning'', PropertyRestoreEnablePackagePruning),
     (''AllowMissingPrunePackageData'', PropertyAllowMissingPrunePackageData), (''ManagePackageVersionsCentrally'', PropertyManagePackageVersionsCentrally),
     (''CentralPackageTransitivePinningEnabled'', PropertyCentralPackageTransitivePinningEnabled), (''CentralPackageVersionOverrideEnabled'', PropertyCentralPackageVersionOverrideEnabled),
     (''BaseOutputPath'', PropertyBaseOutputPath), (''BaseIntermediateOutputPath'', PropertyBaseIntermediateOutputPath),
     (''OutputPath'', PropertyOutputPath), (''IntermediateOutputPath'', PropertyIntermediateOutputPath),
     (''ArtifactsPath'', PropertyArtifactsPath)]"

definition parse_property :: "string \<Rightarrow> string \<Rightarrow> project_error + project_property" where
  "parse_property path name =
     (case map_of property_table name of
        Some p \<Rightarrow> Inr p
      | None \<Rightarrow> Inl (project_error_new Unsupported path
          (Text ''property {name} is outside the initial project compatibility contract'' [name])))"

definition normalize_project_reference :: "string \<Rightarrow> string \<Rightarrow> project_error + string" where
  "normalize_project_reference path value =
     (if value = [] \<or> is_dynamic value \<or> CHR ''*'' \<in> set value \<or> CHR ''?'' \<in> set value
      then Inl (invalid_property path ''ProjectReference Include {value:?} must be one literal path'' [value])
      else let normalized = map (\<lambda>c. if c = CHR 0x5C then CHR ''/'' else c) value
      in if \<not> ends_with ''.csproj'' (to_lower normalized)
         then Inl (project_error_new Unsupported path (Text ''project reference {value:?} is not a C# project'' [value]))
         else Inr normalized)"

definition optional_literal_metadata :: "string \<Rightarrow> string \<Rightarrow> string option \<Rightarrow> project_error + string option" where
  "optional_literal_metadata path name value =
     (case value of None \<Rightarrow> Inr None
      | Some v \<Rightarrow>
          if is_dynamic v then Inl (invalid_property path ''{name} must be literal'' [name])
          else if trim v = [] then Inr None else Inr (Some (trim v)))"

definition is_literal_package_version :: "string \<Rightarrow> bool" where
  "is_literal_package_version value \<longleftrightarrow> value \<noteq> [] \<and> length value \<le> 256 \<and> \<not> is_dynamic value"

section \<open>Asset lists\<close>

text \<open>One token: the flags it selects and whether it is \<open>all\<close> or \<open>none\<close>.\<close>

definition asset_token :: "string \<Rightarrow> (asset_flags \<times> bool) option" where
  "asset_token asset =
     (if eq_ignore_case asset ''none'' then Some (ASSETS_NONE, True)
      else if eq_ignore_case asset ''all'' then Some (ASSETS_ALL, True)
      else if eq_ignore_case asset ''runtime'' then Some (ASSETS_RUNTIME, False)
      else if eq_ignore_case asset ''compile'' then Some (ASSETS_COMPILE, False)
      else if eq_ignore_case asset ''build'' then Some (ASSETS_BUILD, False)
      else if eq_ignore_case asset ''buildmultitargeting'' then Some (ASSETS_BUILD_MULTI_TARGETING, False)
      else if eq_ignore_case asset ''buildtransitive'' then Some (flags_union ASSETS_BUILD_TRANSITIVE ASSETS_BUILD, False)
      else if eq_ignore_case asset ''native'' then Some (ASSETS_NATIVE, False)
      else if eq_ignore_case asset ''contentfiles'' then Some (ASSETS_CONTENT_FILES, False)
      else if eq_ignore_case asset ''analyzers'' then Some (ASSETS_ANALYZERS, False)
      else None)"

fun asset_tokens :: "string \<Rightarrow> string \<Rightarrow> asset_flags \<Rightarrow> nat \<Rightarrow> bool \<Rightarrow> string list \<Rightarrow>
    project_error + asset_flags \<times> nat \<times> bool" where
  "asset_tokens path name flags token_count all_or_none [] = Inr (flags, token_count, all_or_none)"
| "asset_tokens path name flags token_count all_or_none (asset # rest) =
     (case asset_token asset of
        None \<Rightarrow> Inl (invalid_property path ''{name} contains unsupported asset {asset:?}'' [name, asset])
      | Some (selected, special) \<Rightarrow>
          asset_tokens path name (flags_union flags selected) (token_count + 1) (all_or_none \<or> special) rest)"

text \<open>\<open>split([',', ';'])\<close>: split at either separator.\<close>

definition split_assets :: "string \<Rightarrow> string list" where
  "split_assets value = split_on CHR '';'' (map (\<lambda>c. if c = CHR '','' then CHR '';'' else c) value)"

definition parse_package_assets ::
    "string \<Rightarrow> string \<Rightarrow> string option \<Rightarrow> asset_flags \<Rightarrow> project_error + asset_flags" where
  "parse_package_assets path name value fallback =
     (case value of None \<Rightarrow> Inr fallback
      | Some v \<Rightarrow>
          if is_dynamic v then Inl (invalid_property path ''{name} must be a literal asset list'' [name])
          else rbind (asset_tokens path name ASSETS_NONE 0 False (filter (\<lambda>s. s \<noteq> []) (map trim (split_assets v))))
            (\<lambda>(flags, token_count, all_or_none).
            if token_count = 0 then Inr fallback
            else if token_count \<noteq> 1 \<and> all_or_none
            then Inl (invalid_property path ''{name} values all and none must appear by themselves'' [name])
            else Inr flags))"

end
