(* ===== verification/Project_Conditions.thy ===== *)
theory Project_Conditions
  imports Project_Spec
begin

text \<open>
  \<open>crates/dv-core/src/project.rs\<close>: the evaluator of the conditions on project references,
  \<open>ReferenceConditionParser\<close>. The parser's position is the suffix of the input still to read; the
  nesting depth, which every return restores, is the number of levels left, a recursion argument.
  The loops over \<open>Or\<close> and \<open>And\<close> recurse on the length of that suffix, which every turn shortens.
\<close>

definition MAX_REFERENCE_CONDITION_BYTES :: nat where "MAX_REFERENCE_CONDITION_BYTES = 1024"
definition MAX_REFERENCE_CONDITION_OPERATORS :: nat where "MAX_REFERENCE_CONDITION_OPERATORS = 32"
definition MAX_REFERENCE_CONDITION_DEPTH :: nat where "MAX_REFERENCE_CONDITION_DEPTH = 8"

record condition_context =
  cc_target_framework :: string
  cc_runtime_identifier :: "string option"
  cc_configuration :: string

text \<open>What no step changes: the path and input named in errors, and the dimensions.\<close>

record condition_input =
  ci_path :: string
  ci_input :: string
  ci_context :: condition_context

record condition_state =
  cs_rest :: string
  cs_comparisons :: nat

section \<open>Lexical steps\<close>

definition cond_invalid :: "condition_input \<Rightarrow> string \<Rightarrow> project_error" where
  "cond_invalid ci message =
     project_error_new InvalidProperty (ci_path ci) (Text ''reference Condition {:?} {message}'' [ci_input ci, message])"

definition cond_unsupported :: "condition_input \<Rightarrow> string \<Rightarrow> project_error" where
  "cond_unsupported ci message =
     project_error_new Unsupported (ci_path ci) (Text ''reference Condition {:?} {message}'' [ci_input ci, message])"

definition is_ascii_space :: "char \<Rightarrow> bool" where
  "is_ascii_space c \<longleftrightarrow> c \<in> {CHR 0x20, CHR 0x09, CHR 0x0A, CHR 0x0C, CHR 0x0D}"

definition skip_whitespace :: "string \<Rightarrow> string" where
  "skip_whitespace s = dropWhile is_ascii_space s"

definition consume_text :: "string \<Rightarrow> string \<Rightarrow> string option" where
  "consume_text word s = strip_prefix word s"

definition consume_byte :: "char \<Rightarrow> string \<Rightarrow> string option" where
  "consume_byte c s = (case s of [] \<Rightarrow> None | x # r \<Rightarrow> if x = c then Some r else None)"

text \<open>A keyword is matched in any case and must not run on into a word.\<close>

definition consume_keyword :: "string \<Rightarrow> string \<Rightarrow> string option" where
  "consume_keyword keyword s =
     (let r = skip_whitespace s; after = drop (length keyword) r
      in if length keyword \<le> length r \<and> eq_ignore_case (take (length keyword) r) keyword
            \<and> (case after of [] \<Rightarrow> True | c # _ \<Rightarrow> \<not> is_alnum c \<and> c \<noteq> CHR ''_'')
         then Some after else None)"

fun find_str :: "string \<Rightarrow> string \<Rightarrow> nat option" where
  "find_str p [] = (if p = [] then Some 0 else None)"
| "find_str p (x # xs) = (if starts_with p (x # xs) then Some 0 else map_option Suc (find_str p xs))"

section \<open>Operands\<close>

definition property_value :: "condition_input \<Rightarrow> string \<Rightarrow> project_error + string" where
  "property_value ci property =
     (if eq_ignore_case property ''TargetFramework'' then Inr (cc_target_framework (ci_context ci))
      else if eq_ignore_case property ''RuntimeIdentifier''
      then Inr (case cc_runtime_identifier (ci_context ci) of None \<Rightarrow> [] | Some r \<Rightarrow> r)
      else if eq_ignore_case property ''Configuration'' then Inr (cc_configuration (ci_context ci))
      else Inl (cond_unsupported ci (''references unsupported property $('' @ property @ '')'')))"

lemma starts_with_length: "starts_with p s \<Longrightarrow> length p \<le> length s"
  by (metis starts_with_iff length_append le_add1)

lemma find_str_length: "find_str p s = Some i \<Longrightarrow> i + length p \<le> length s"
  by (induction s arbitrary: i) (auto split: if_splits dest: starts_with_length)

function expand_loop :: "condition_input \<Rightarrow> string \<Rightarrow> string \<Rightarrow> project_error + string" where
  "expand_loop ci expanded remaining =
     (case find_str ''$('' remaining of
        None \<Rightarrow> Inr (expanded @ remaining)
      | Some offset \<Rightarrow>
          (let tail = drop (offset + 2) remaining
           in case find_byte CHR '')'' tail of
                None \<Rightarrow> Inl (cond_invalid ci ''contains an unterminated property reference'')
              | Some close \<Rightarrow>
                  rbind (property_value ci (take close tail)) (\<lambda>v.
                    expand_loop ci (expanded @ take offset remaining @ v) (drop (close + 1) tail))))"
  by pat_completeness auto
termination
  by (relation "measure (\<lambda>(ci, e, r). length r)") (auto dest!: find_str_length)

declare expand_loop.simps [simp del]

text \<open>A value that is one property reference is the property's value; others are expanded.\<close>

definition expand_operand :: "condition_input \<Rightarrow> string \<Rightarrow> project_error + string" where
  "expand_operand ci value =
     (case find_str ''$('' value of
        None \<Rightarrow> Inr value
      | Some first \<Rightarrow>
          (case (if first = 0 then find_byte CHR '')'' (drop 2 value) else None) of
             Some close \<Rightarrow>
               if close + 3 = length value then property_value ci (take close (drop 2 value))
               else expand_loop ci [] value
           | None \<Rightarrow> expand_loop ci [] value))"

text \<open>An unquoted value ends at whitespace or an operator, outside property references.\<close>

function scan_bare :: "condition_input \<Rightarrow> string \<Rightarrow> string \<Rightarrow> project_error + string \<times> string" where
  "scan_bare ci taken rest =
     (case rest of
        [] \<Rightarrow> Inr (taken, [])
      | c # r \<Rightarrow>
          if starts_with ''$('' rest then
            (case find_byte CHR '')'' (drop 2 rest) of
               None \<Rightarrow> Inl (cond_invalid ci ''contains an unterminated property reference'')
             | Some close \<Rightarrow> scan_bare ci (taken @ take (close + 3) rest) (drop (close + 3) rest))
          else if is_ascii_space c \<or> c \<in> {CHR ''('', CHR '')'', CHR ''!'', CHR ''=''} then Inr (taken, rest)
          else scan_bare ci (taken @ [c]) r)"
  by pat_completeness auto
termination
  by (relation "measure (\<lambda>(ci, t, r). length r)") auto

declare scan_bare.simps [simp del]

definition parse_operand :: "condition_input \<Rightarrow> string \<Rightarrow> project_error + string \<times> string" where
  "parse_operand ci s =
     (case skip_whitespace s of
        [] \<Rightarrow> Inl (cond_invalid ci ''ends before a comparison value'')
      | first # r \<Rightarrow>
          rbind (if first = CHR 0x27 \<or> first = CHR 0x22 then
                   (case find_byte first r of
                      None \<Rightarrow> Inl (cond_invalid ci ''contains an unterminated quoted value'')
                    | Some offset \<Rightarrow> Inr (take offset r, drop (offset + 1) r))
                 else rbind (scan_bare ci [] (first # r)) (\<lambda>(taken, rest).
                   if taken = [] then Inl (cond_invalid ci ''is missing a comparison value'') else Inr (taken, rest)))
            (\<lambda>(value, rest). rbind (expand_operand ci value) (\<lambda>v. Inr (v, rest))))"

section \<open>Expressions\<close>

type_synonym condition_result = "project_error + bool \<times> condition_state"

definition parse_comparison :: "condition_input \<Rightarrow> condition_state \<Rightarrow> condition_result" where
  "parse_comparison ci st =
     (if cs_comparisons st = MAX_REFERENCE_CONDITION_OPERATORS
      then Inl (cond_unsupported ci ''contains more than 32 comparisons'')
      else rbind (parse_operand ci (cs_rest st)) (\<lambda>(left, rest).
        let rest = skip_whitespace rest;
            done_with = (\<lambda>r. \<lparr>cs_rest = r, cs_comparisons = cs_comparisons st + 1\<rparr>);
            compare = (\<lambda>equal r. rbind (parse_operand ci r) (\<lambda>(right, rest).
              let matches = eq_ignore_case left right
              in Inr (if equal then matches else \<not> matches, done_with rest)))
        in case consume_text ''=='' rest of
             Some r \<Rightarrow> compare True r
           | None \<Rightarrow> (case consume_text ''!='' rest of
               Some r \<Rightarrow> compare False r
             | None \<Rightarrow>
                 if eq_ignore_case left ''true'' then Inr (True, done_with rest)
                 else if eq_ignore_case left ''false'' then Inr (False, done_with rest)
                 else Inl (cond_unsupported ci ''must compare dimension values with == or !=''))))"

text \<open>\<open>while consume_keyword(..) { right = next()?; value = op(value, right) }\<close>\<close>

fun keyword_loop :: "nat \<Rightarrow> string \<Rightarrow> (bool \<Rightarrow> bool \<Rightarrow> bool) \<Rightarrow> (condition_state \<Rightarrow> condition_result) \<Rightarrow>
    bool \<Rightarrow> condition_state \<Rightarrow> condition_result" where
  "keyword_loop 0 keyword comb parse acc st = Inr (acc, st)"
| "keyword_loop (Suc n) keyword comb parse acc st =
     (case consume_keyword keyword (cs_rest st) of
        None \<Rightarrow> Inr (acc, st)
      | Some r \<Rightarrow>
          rbind (parse (st\<lparr>cs_rest := r\<rparr>)) (\<lambda>(right, st').
            keyword_loop n keyword comb parse (comb acc right) st'))"

definition parse_chain :: "string \<Rightarrow> (bool \<Rightarrow> bool \<Rightarrow> bool) \<Rightarrow> (condition_state \<Rightarrow> condition_result) \<Rightarrow>
    condition_state \<Rightarrow> condition_result" where
  "parse_chain keyword comb parse st =
     rbind (parse st) (\<lambda>(first, st').
       keyword_loop (Suc (length (cs_rest st'))) keyword comb parse first st')"

definition parse_and :: "(condition_state \<Rightarrow> condition_result) \<Rightarrow> condition_state \<Rightarrow> condition_result" where
  "parse_and unary = parse_chain ''And'' (\<and>) unary"

definition parse_or :: "(condition_state \<Rightarrow> condition_result) \<Rightarrow> condition_state \<Rightarrow> condition_result" where
  "parse_or unary = parse_chain ''Or'' (\<or>) (parse_and unary)"

definition too_deep :: "condition_input \<Rightarrow> project_error" where
  "too_deep ci = cond_unsupported ci ''exceeds the 8-level nesting limit''"

fun parse_unary :: "nat \<Rightarrow> condition_input \<Rightarrow> condition_state \<Rightarrow> condition_result" where
  "parse_unary levels ci st =
     (let r = skip_whitespace (cs_rest st)
      in case consume_byte CHR ''!'' r of
           Some r' \<Rightarrow>
             (case levels of 0 \<Rightarrow> Inl (too_deep ci)
              | Suc n \<Rightarrow> rbind (parse_unary n ci (st\<lparr>cs_rest := r'\<rparr>)) (\<lambda>(v, st'). Inr (\<not> v, st')))
         | None \<Rightarrow> (case consume_byte CHR ''('' r of
           Some r' \<Rightarrow>
             (case levels of 0 \<Rightarrow> Inl (too_deep ci)
              | Suc n \<Rightarrow> rbind (parse_or (parse_unary n ci) (st\<lparr>cs_rest := r'\<rparr>)) (\<lambda>(v, st').
                  case consume_byte CHR '')'' (skip_whitespace (cs_rest st')) of
                    None \<Rightarrow> Inl (cond_invalid ci ''has an unclosed parenthesized expression'')
                  | Some rest \<Rightarrow> Inr (v, st'\<lparr>cs_rest := rest\<rparr>)))
         | None \<Rightarrow> parse_comparison ci (st\<lparr>cs_rest := r\<rparr>)))"

declare parse_unary.simps [simp del]

definition is_ascii :: "string \<Rightarrow> bool" where
  "is_ascii s \<longleftrightarrow> list_all (\<lambda>c. (of_char c :: nat) < 128) s"

definition evaluate_condition :: "string \<Rightarrow> string \<Rightarrow> condition_context \<Rightarrow> project_error + bool" where
  "evaluate_condition path input context =
     (if MAX_REFERENCE_CONDITION_BYTES < length input
      then Inl (project_error_new Unsupported path
        (Text ''reference Condition exceeds the {MAX_REFERENCE_CONDITION_BYTES}-byte evaluation limit'' []))
      else if \<not> is_ascii input
      then Inl (project_error_new Unsupported path
        (Text ''reference Condition must use ASCII syntax and dimension values'' []))
      else let ci = \<lparr>ci_path = path, ci_input = input, ci_context = context\<rparr>
      in rbind (parse_or (parse_unary MAX_REFERENCE_CONDITION_DEPTH ci) \<lparr>cs_rest = input, cs_comparisons = 0\<rparr>)
           (\<lambda>(v, st). if skip_whitespace (cs_rest st) \<noteq> []
             then Inl (cond_unsupported ci ''contains syntax outside equality, inequality, And, Or, !, and parentheses'')
             else Inr v))"

section \<open>Selecting references\<close>

record raw_reference_conditions =
  rrc_group :: nat
  rrc_item :: nat

definition NO_REFERENCE_CONDITION :: nat where
  "NO_REFERENCE_CONDITION = 2 ^ 32 - 1"

definition reference_conditions_match ::
    "string \<Rightarrow> string list \<Rightarrow> raw_reference_conditions \<Rightarrow> condition_context \<Rightarrow> project_error + bool" where
  "reference_conditions_match path conditions selected context =
     rbind (if rrc_group selected \<noteq> NO_REFERENCE_CONDITION
            then evaluate_condition path (conditions ! rrc_group selected) context else Inr True) (\<lambda>group_ok.
     if \<not> group_ok then Inr False
     else rbind (if rrc_item selected \<noteq> NO_REFERENCE_CONDITION
            then evaluate_condition path (conditions ! rrc_item selected) context else Inr True) (\<lambda>item_ok.
     if \<not> item_ok then Inr False else Inr True))"


section \<open>The loops stop by themselves\<close>

lemma skip_whitespace_length: "length (skip_whitespace s) \<le> length s"
  by (simp add: skip_whitespace_def length_dropWhile_le)

lemma consume_keyword_length: "keyword \<noteq> [] \<Longrightarrow> consume_keyword keyword s = Some r \<Longrightarrow> length r < length s"
  using skip_whitespace_length [of s] by (cases keyword) (auto simp: consume_keyword_def Let_def split: if_splits)

lemma consume_byte_length: "consume_byte c s = Some r \<Longrightarrow> length r < length s"
  by (auto simp: consume_byte_def split: list.splits if_splits)

lemma consume_text_length: "consume_text w s = Some r \<Longrightarrow> length r \<le> length s"
  by (auto simp: consume_text_def strip_prefix_Some)

lemma scan_bare_length: "scan_bare ci t s = Inr (v, r) \<Longrightarrow> length r \<le> length s"
proof (induction ci t s rule: scan_bare.induct)
  case (1 ci t rest)
  show ?case
  proof (cases rest)
    case Nil
    with "1.prems" show ?thesis by (subst (asm) scan_bare.simps) simp
  next
    case (Cons c r')
    note IH = "1.IH" [OF Cons] and step = "1.prems" [unfolded scan_bare.simps [of ci t rest]]
    show ?thesis
    proof (cases "starts_with ''$('' rest")
      case True
      with step Cons obtain close where "find_byte CHR '')'' (drop 2 rest) = Some close"
        "scan_bare ci (t @ take (close + 3) rest) (drop (close + 3) rest) = Inr (v, r)"
        by (auto split: option.splits)
      with IH(1) [OF True] show ?thesis by fastforce
    next
      case False
      show ?thesis
      proof (cases "is_ascii_space c \<or> c \<in> {CHR ''('', CHR '')'', CHR ''!'', CHR ''=''}")
        case True
        with step False Cons show ?thesis by auto
      next
        case F: False
        with step False Cons have "scan_bare ci (t @ [c]) r' = Inr (v, r)" by auto
        with IH(2) [OF False F] Cons show ?thesis by simp
      qed
    qed
  qed
qed

lemma parse_operand_length: "parse_operand ci s = Inr (v, r) \<Longrightarrow> length r \<le> length s"
proof -
  assume p: "parse_operand ci s = Inr (v, r)"
  then obtain c t where s: "skip_whitespace s = c # t" by (auto simp: parse_operand_def split: list.splits)
  with p have "length r \<le> length (c # t)"
    by (auto simp: parse_operand_def rbind_eq_Inr split: if_splits option.splits dest!: scan_bare_length)
  then show ?thesis using skip_whitespace_length [of s] s by simp
qed

text \<open>A step that reads on: it never gives text back, counts at most 32 comparisons.\<close>

definition reads_on :: "(condition_state \<Rightarrow> condition_result) \<Rightarrow> bool" where
  "reads_on p \<longleftrightarrow> (\<forall>st v st'. p st = Inr (v, st') \<longrightarrow> length (cs_rest st') \<le> length (cs_rest st)
     \<and> cs_comparisons st \<le> cs_comparisons st' \<and> (cs_comparisons st \<le> 32 \<longrightarrow> cs_comparisons st' \<le> 32))"

lemma reads_onD:
  "reads_on p \<Longrightarrow> p st = Inr (v, st') \<Longrightarrow> length (cs_rest st') \<le> length (cs_rest st)
     \<and> cs_comparisons st \<le> cs_comparisons st' \<and> (cs_comparisons st \<le> 32 \<longrightarrow> cs_comparisons st' \<le> 32)"
  by (auto simp: reads_on_def)

lemma reads_on_comparison: "reads_on (parse_comparison ci)"
proof -
  have le: "length (skip_whitespace r) \<le> length s" if "parse_operand ci s = Inr (v, r)" for s v r
    using parse_operand_length [OF that] skip_whitespace_length [of r] by simp
  show ?thesis unfolding reads_on_def
  proof (intro allI impI)
    fix st v st' assume "parse_comparison ci st = Inr (v, st')"
    note p = this
    then obtain l r where o: "parse_operand ci (cs_rest st) = Inr (l, r)" and c: "cs_comparisons st \<noteq> 32"
      by (auto simp: parse_comparison_def rbind_eq_Inr MAX_REFERENCE_CONDITION_OPERATORS_def split: if_splits)
    let ?r = "skip_whitespace r"
    have "cs_comparisons st' = cs_comparisons st + 1 \<and> length (cs_rest st') \<le> length ?r"
    proof (cases "consume_text ''=='' ?r")
      case (Some t)
      with p o c show ?thesis
        by (auto simp: parse_comparison_def Let_def rbind_eq_Inr MAX_REFERENCE_CONDITION_OPERATORS_def
            split: if_splits dest!: parse_operand_length consume_text_length)
    next
      case None
      show ?thesis
      proof (cases "consume_text ''!='' ?r")
        case (Some t)
        with p o c None show ?thesis
          by (auto simp: parse_comparison_def Let_def rbind_eq_Inr MAX_REFERENCE_CONDITION_OPERATORS_def
              split: if_splits dest!: parse_operand_length consume_text_length)
      next
        case none: None
        with p o c None show ?thesis
          by (auto simp: parse_comparison_def Let_def MAX_REFERENCE_CONDITION_OPERATORS_def split: if_splits)
      qed
    qed
    with le [OF o] c show "length (cs_rest st') \<le> length (cs_rest st)
        \<and> cs_comparisons st \<le> cs_comparisons st' \<and> (cs_comparisons st \<le> 32 \<longrightarrow> cs_comparisons st' \<le> 32)" by simp
  qed
qed

lemma reads_on_loop: "reads_on p \<Longrightarrow> keyword \<noteq> [] \<Longrightarrow> reads_on (keyword_loop n keyword comb p acc)"
proof (induction n arbitrary: acc)
  case 0
  then show ?case by (simp add: reads_on_def)
next
  case (Suc n)
  show ?case unfolding reads_on_def
  proof (intro allI impI)
    fix st v st' assume "keyword_loop (Suc n) keyword comb p acc st = Inr (v, st')"
    then consider "st' = st" | r x s where "consume_keyword keyword (cs_rest st) = Some r"
        "p (st\<lparr>cs_rest := r\<rparr>) = Inr (x, s)" "keyword_loop n keyword comb p (comb acc x) s = Inr (v, st')"
      by (auto simp: rbind_eq_Inr split: option.splits)
    then show "length (cs_rest st') \<le> length (cs_rest st)
        \<and> cs_comparisons st \<le> cs_comparisons st' \<and> (cs_comparisons st \<le> 32 \<longrightarrow> cs_comparisons st' \<le> 32)"
    proof cases
      case (2 r x s)
      then show ?thesis
        using consume_keyword_length [OF Suc.prems(2) 2(1)] reads_onD [OF Suc.prems(1) 2(2)]
          reads_onD [OF Suc.IH [OF Suc.prems] 2(3)] by auto
    qed simp
  qed
qed

lemma reads_on_chain:
  assumes p: "reads_on p" and kw: "keyword \<noteq> []"
  shows "reads_on (parse_chain keyword comb p)"
proof (subst reads_on_def, intro allI impI)
  fix st v st' assume "parse_chain keyword comb p st = Inr (v, st')"
  then obtain x s where "p st = Inr (x, s)" "keyword_loop (Suc (length (cs_rest s))) keyword comb p x s = Inr (v, st')"
    unfolding parse_chain_def rbind_eq_Inr by (auto simp del: keyword_loop.simps)
  from reads_onD [OF p this(1)] reads_onD [OF reads_on_loop [OF p kw] this(2)]
  show "length (cs_rest st') \<le> length (cs_rest st)
      \<and> cs_comparisons st \<le> cs_comparisons st' \<and> (cs_comparisons st \<le> 32 \<longrightarrow> cs_comparisons st' \<le> 32)" by linarith
qed

lemma reads_on_or: "reads_on p \<Longrightarrow> reads_on (parse_or p)"
  unfolding parse_or_def parse_and_def by (intro reads_on_chain) simp_all


text \<open>More fuel than text left changes nothing: \<open>parse_chain\<close> is the loop of the code.\<close>

lemma keyword_loop_fuel:
  "reads_on p \<Longrightarrow> keyword \<noteq> [] \<Longrightarrow> length (cs_rest st) < n \<Longrightarrow>
     keyword_loop (Suc n) keyword comb p acc st = keyword_loop n keyword comb p acc st"
proof (induction n arbitrary: acc st)
  case 0
  then show ?case by simp
next
  case (Suc n)
  show ?case
  proof (cases "consume_keyword keyword (cs_rest st)")
    case None
    then show ?thesis by simp
  next
    case (Some r)
    show ?thesis
    proof (cases "p (st\<lparr>cs_rest := r\<rparr>)")
      case (Inl e)
      then show ?thesis by (simp add: Some)
    next
      case (Inr q)
      obtain x s where q: "q = (x, s)" by (cases q)
      have "length (cs_rest s) < n"
        using reads_onD [OF Suc.prems(1) Inr [unfolded q]] consume_keyword_length [OF Suc.prems(2) Some] Suc.prems(3)
        by simp
      then have "keyword_loop (Suc n) keyword comb p (comb acc x) s = keyword_loop n keyword comb p (comb acc x) s"
        by (rule Suc.IH [OF Suc.prems(1,2)])
      then show ?thesis by (simp add: Some Inr q)
    qed
  qed
qed

lemma keyword_loop_unroll:
  assumes "reads_on p" and "keyword \<noteq> []" and "n = Suc (length (cs_rest st))"
  shows "keyword_loop n keyword comb p acc st =
     (case consume_keyword keyword (cs_rest st) of
        None \<Rightarrow> Inr (acc, st)
      | Some r \<Rightarrow> rbind (p (st\<lparr>cs_rest := r\<rparr>)) (\<lambda>(right, st').
          keyword_loop (Suc (length (cs_rest st'))) keyword comb p (comb acc right) st'))"
proof (cases "consume_keyword keyword (cs_rest st)")
  case None
  then show ?thesis by (simp add: assms(3))
next
  case (Some r)
  have enough: "keyword_loop m keyword comb p a s = keyword_loop (Suc (length (cs_rest s))) keyword comb p a s"
    if "length (cs_rest s) < m" for m a s
    using that
  proof (induction m rule: less_induct)
    case (less m)
    show ?case
    proof (cases "m = Suc (length (cs_rest s))")
      case False
      with less.prems obtain k where k: "m = Suc k" "length (cs_rest s) < k" by (cases m) auto
      then show ?thesis using keyword_loop_fuel [OF assms(1,2) k(2)] less.IH [of k] by simp
    qed simp
  qed
  show ?thesis
  proof (cases "p (st\<lparr>cs_rest := r\<rparr>)")
    case (Inl e)
    then show ?thesis by (simp add: Some assms(3))
  next
    case (Inr q)
    obtain x s where q: "q = (x, s)" by (cases q)
    have "length (cs_rest s) < length (cs_rest st)"
      using reads_onD [OF assms(1) Inr [unfolded q]] consume_keyword_length [OF assms(2) Some] by simp
    then show ?thesis using enough [of s "length (cs_rest st)" "comb acc x"]
      by (simp add: Some Inr q assms(3) del: keyword_loop.simps(2)) (simp add: Some Inr q)
  qed
qed

section \<open>Expressions and their text\<close>

datatype dimension = TargetFrameworkDim | RuntimeIdentifierDim | ConfigurationDim

datatype operand_piece = Chars string | Dim dimension

datatype cond = Cmp bool "operand_piece list" "operand_piece list" | Flag bool | Neg cond | Group "cond list list"

fun dim_name :: "dimension \<Rightarrow> string" where
  "dim_name TargetFrameworkDim = ''TargetFramework''"
| "dim_name RuntimeIdentifierDim = ''RuntimeIdentifier''"
| "dim_name ConfigurationDim = ''Configuration''"

fun dim_value :: "condition_context \<Rightarrow> dimension \<Rightarrow> string" where
  "dim_value c TargetFrameworkDim = cc_target_framework c"
| "dim_value c RuntimeIdentifierDim = (case cc_runtime_identifier c of None \<Rightarrow> [] | Some r \<Rightarrow> r)"
| "dim_value c ConfigurationDim = cc_configuration c"

fun print_piece :: "operand_piece \<Rightarrow> string" where
  "print_piece (Chars s) = s"
| "print_piece (Dim d) = ''$('' @ dim_name d @ '')''"

fun piece_value :: "condition_context \<Rightarrow> operand_piece \<Rightarrow> string" where
  "piece_value c (Chars s) = s"
| "piece_value c (Dim d) = dim_value c d"

definition operand_value :: "condition_context \<Rightarrow> operand_piece list \<Rightarrow> string" where
  "operand_value c ps = concat (map (piece_value c) ps)"

definition print_operand :: "operand_piece list \<Rightarrow> string" where
  "print_operand ps = CHR 0x27 # concat (map print_piece ps) @ [CHR 0x27]"

fun print_cond :: "cond \<Rightarrow> string" where
  "print_cond (Cmp equal a b) = print_operand a @ (if equal then '' == '' else '' != '') @ print_operand b"
| "print_cond (Flag b) = (if b then ''true'' else ''false'')"
| "print_cond (Neg c) = CHR ''!'' # print_cond c"
| "print_cond (Group ds) = CHR ''('' # join_str '' Or '' (map (\<lambda>cs. join_str '' And '' (map print_cond cs)) ds) @ '')''"

definition print_or :: "cond list list \<Rightarrow> string" where
  "print_or ds = join_str '' Or '' (map (\<lambda>cs. join_str '' And '' (map print_cond cs)) ds)"

fun eval_cond :: "condition_context \<Rightarrow> cond \<Rightarrow> bool" where
  "eval_cond c (Cmp equal a b) = (eq_ignore_case (operand_value c a) (operand_value c b) = equal)"
| "eval_cond c (Flag b) = b"
| "eval_cond c (Neg e) = (\<not> eval_cond c e)"
| "eval_cond c (Group ds) = list_ex (list_all (eval_cond c)) ds"

fun comparisons_of :: "cond \<Rightarrow> nat" where
  "comparisons_of (Cmp equal a b) = 1"
| "comparisons_of (Flag b) = 1"
| "comparisons_of (Neg c) = comparisons_of c"
| "comparisons_of (Group ds) = sum_list (map (\<lambda>cs. sum_list (map comparisons_of cs)) ds)"

fun depth_of :: "cond \<Rightarrow> nat" where
  "depth_of (Cmp equal a b) = 0"
| "depth_of (Flag b) = 0"
| "depth_of (Neg c) = Suc (depth_of c)"
| "depth_of (Group ds) = Suc (foldr max (map (\<lambda>cs. foldr max (map depth_of cs) 0) ds) 0)"

fun wf_piece :: "operand_piece \<Rightarrow> bool" where
  "wf_piece (Chars s) \<longleftrightarrow> CHR 0x27 \<notin> set s \<and> CHR ''$'' \<notin> set s"
| "wf_piece (Dim d) \<longleftrightarrow> True"

fun wf_cond :: "cond \<Rightarrow> bool" where
  "wf_cond (Cmp equal a b) \<longleftrightarrow> list_all wf_piece a \<and> list_all wf_piece b"
| "wf_cond (Flag b) \<longleftrightarrow> True"
| "wf_cond (Neg c) \<longleftrightarrow> wf_cond c"
| "wf_cond (Group ds) \<longleftrightarrow> ds \<noteq> [] \<and> list_all (\<lambda>cs. cs \<noteq> [] \<and> list_all wf_cond cs) ds"


section \<open>Operands read back\<close>

lemma find_str_dollar_skip:
  "CHR ''$'' \<notin> set s \<Longrightarrow> find_str ''$('' (s @ t) = map_option (\<lambda>i. length s + i) (find_str ''$('' t)"
  by (cases "find_str ''$('' t"; induction s) (auto simp: starts_with_def)

lemma expand_loop_chars:
  assumes "CHR ''$'' \<notin> set s"
  shows "expand_loop ci e (s @ t) = expand_loop ci (e @ s) t"
proof (cases "find_str ''$('' t")
  case None
  then show ?thesis
    by (simp add: expand_loop.simps [of ci e "s @ t"] expand_loop.simps [of ci "e @ s" t] find_str_dollar_skip [OF assms])
next
  case (Some i)
  then show ?thesis
    by (cases "find_byte CHR '')'' (drop (Suc (Suc i)) t)")
      (simp_all add: expand_loop.simps [of ci e "s @ t"] expand_loop.simps [of ci "e @ s" t] find_str_dollar_skip [OF assms] Let_def)
qed

lemma dim_name_no_close: "CHR '')'' \<notin> set (dim_name d)"
  by (cases d) simp_all

lemma property_value_dim: "property_value ci (dim_name d) = Inr (dim_value (ci_context ci) d)"
  by (cases d) (simp_all add: property_value_def eq_ignore_case_def to_lower_def lower_byte_def is_upper_of_char)

lemma expand_loop_dim:
  "expand_loop ci e (''$('' @ dim_name d @ '')'' @ t) = expand_loop ci (e @ dim_value (ci_context ci) d) t"
proof -
  have "find_byte CHR '')'' (dim_name d @ CHR '')'' # t) = Some (length (dim_name d))"
    using dim_name_no_close [of d] by (simp add: find_byte_Some nth_append)
  then show ?thesis
    by (simp add: expand_loop.simps [of ci e "CHR ''$'' # CHR ''('' # dim_name d @ CHR '')'' # t"]
        starts_with_def property_value_dim)
qed

lemma expand_loop_pieces:
  "list_all wf_piece ps \<Longrightarrow>
     expand_loop ci e (concat (map print_piece ps)) = Inr (e @ operand_value (ci_context ci) ps)"
proof (induction ps arbitrary: e)
  case Nil
  then show ?case by (simp add: expand_loop.simps [of ci e "[]"] operand_value_def)
next
  case (Cons p ps)
  then show ?case using expand_loop_dim [of ci e]
    by (cases p) (simp_all add: expand_loop_chars operand_value_def)
qed

text \<open>The two shortcuts of \<open>expand_operand\<close> do what the loop does.\<close>

lemma expand_operand_loop: "expand_operand ci value = expand_loop ci [] value"
proof (cases "find_str ''$('' value")
  case None
  then show ?thesis by (simp add: expand_operand_def expand_loop.simps [of ci "[]"])
next
  case (Some first)
  show ?thesis
  proof (cases "find_byte CHR '')'' (drop 2 value)")
    case None
    with Some show ?thesis by (simp add: expand_operand_def)
  next
    case close: (Some close)
    show ?thesis
    proof (cases "first = 0 \<and> close + 3 = length value")
      case True
      then have "drop (close + 1) (drop 2 value) = []" by simp
      with True Some close show ?thesis
        by (cases "property_value ci (take close (drop 2 value))")
          (simp_all add: expand_operand_def expand_loop.simps [of ci "[]" "value"] expand_loop.simps [of ci _ "[]"] Let_def
            numeral_2_eq_2)
    next
      case False
      with Some close show ?thesis by (auto simp: expand_operand_def)
    qed
  qed
qed

lemma skip_idem [simp]: "skip_whitespace (skip_whitespace s) = skip_whitespace s"
  by (simp add: skip_whitespace_def)

lemma skip_cons [simp]: "\<not> is_ascii_space c \<Longrightarrow> skip_whitespace (c # s) = c # s"
  by (simp add: skip_whitespace_def)

lemma skip_blank [simp]: "skip_whitespace (CHR 0x20 # s) = skip_whitespace s"
  by (simp add: skip_whitespace_def is_ascii_space_def)

lemma skip_Nil [simp]: "skip_whitespace [] = []"
  by (simp add: skip_whitespace_def)

lemma quote_in_piece: "list_all wf_piece ps \<Longrightarrow> CHR 0x27 \<notin> set (concat (map print_piece ps))"
proof (induction ps)
  case (Cons p ps)
  then show ?case by (cases p; cases "case p of Dim d \<Rightarrow> d | _ \<Rightarrow> ConfigurationDim") auto
qed simp

lemma parse_print_operand:
  assumes "list_all wf_piece ps" and "skip_whitespace s = print_operand ps @ rest"
  shows "parse_operand ci s = Inr (operand_value (ci_context ci) ps, rest)"
proof -
  let ?b = "concat (map print_piece ps)"
  have "find_byte CHR 0x27 (?b @ CHR 0x27 # rest) = Some (length ?b)"
    using quote_in_piece [OF assms(1)] by (simp add: find_byte_Some nth_append)
  then show ?thesis
    using expand_loop_pieces [OF assms(1), of ci "[]"] assms(2)
    by (simp add: parse_operand_def print_operand_def expand_operand_loop)
qed

lemma scan_bare_word:
  assumes "\<forall>c \<in> set w. c \<noteq> CHR ''$'' \<and> \<not> is_ascii_space c \<and> c \<notin> {CHR ''('', CHR '')'', CHR ''!'', CHR ''=''}"
    and "rest = [] \<or> (is_ascii_space (hd rest) \<or> hd rest \<in> {CHR ''('', CHR '')'', CHR ''!'', CHR ''=''}) \<and> hd rest \<noteq> CHR ''$''"
  shows "scan_bare ci t (w @ rest) = Inr (t @ w, rest)"
  using assms(1)
proof (induction w arbitrary: t)
  case Nil
  with assms(2) show ?case
    by (cases rest) (auto simp: scan_bare.simps [of ci t] starts_with_def split: list.splits)
next
  case (Cons c w)
  then show ?case by (simp add: scan_bare.simps [of ci t "c # w @ rest"] starts_with_def)
qed


section \<open>Expressions read back\<close>

text \<open>What may follow an expression: the end, a closing parenthesis, or a keyword.\<close>

definition follows :: "string \<Rightarrow> bool" where
  "follows rest \<longleftrightarrow> rest = [] \<or> (\<exists>r. rest = CHR '')'' # r) \<or> (\<exists>r. rest = '' And '' @ r) \<or> (\<exists>r. rest = '' Or '' @ r)"

definition reads_back :: "(condition_state \<Rightarrow> condition_result) \<Rightarrow> string \<Rightarrow> bool \<Rightarrow> nat \<Rightarrow> string \<Rightarrow> bool" where
  "reads_back p printed v n rest \<longleftrightarrow>
     (\<forall>st. skip_whitespace (cs_rest st) = printed @ rest \<longrightarrow> cs_comparisons st + n \<le> 32 \<longrightarrow>
       (\<exists>r. p st = Inr (v, \<lparr>cs_rest = r, cs_comparisons = cs_comparisons st + n\<rparr>)
          \<and> skip_whitespace r = skip_whitespace rest))"

lemma consume_keyword_skip: "skip_whitespace a = skip_whitespace b \<Longrightarrow> consume_keyword k a = consume_keyword k b"
  by (simp add: consume_keyword_def)

lemma skip_word: "\<not> is_ascii_space c \<Longrightarrow> skip_whitespace (CHR 0x20 # c # s) = c # s"
  by simp

lemma consume_keyword_hit:
  "\<not> is_ascii_space k \<Longrightarrow> consume_keyword (k # w) (CHR 0x20 # (k # w) @ CHR 0x20 # t) = Some (CHR 0x20 # t)"
  by (simp add: consume_keyword_def Let_def is_alnum_def is_digit_of_char is_alphabetic_def is_upper_of_char is_lower_def char_le_iff)

lemma chain_loop_reads_back:
  assumes kw: "keyword = k # w" "\<not> is_ascii_space k"
    and items: "\<And>x rest. x \<in> set xs \<Longrightarrow> F rest \<Longrightarrow> reads_back p (pr x) (ev x) (n x) rest"
    and first: "\<And>x. x \<in> set xs \<Longrightarrow> pr x \<noteq> [] \<and> \<not> is_ascii_space (hd (pr x))"
    and rest: "F rest" "consume_keyword keyword rest = None"
    and sep: "\<And>r. F (CHR 0x20 # keyword @ CHR 0x20 # r)"
    and st: "skip_whitespace (cs_rest st)
        = skip_whitespace (concat (map (\<lambda>x. CHR 0x20 # keyword @ CHR 0x20 # pr x) xs) @ rest)"
    and count: "cs_comparisons st + sum_list (map n xs) \<le> 32" and fuel: "length xs < m"
  shows "\<exists>r. keyword_loop m keyword comb p acc st
        = Inr (foldl comb acc (map ev xs), \<lparr>cs_rest = r, cs_comparisons = cs_comparisons st + sum_list (map n xs)\<rparr>)
      \<and> skip_whitespace r = skip_whitespace rest"
  using items first st count fuel
proof (induction xs arbitrary: acc st m)
  case Nil
  then obtain m' where "m = Suc m'" by (cases m) auto
  moreover have "consume_keyword keyword (cs_rest st) = None"
    using consume_keyword_skip [of "cs_rest st" rest keyword] Nil.prems(3) rest(2) by simp
  ultimately show ?case using Nil.prems(3) by (cases st) simp
next
  case (Cons x xs)
  then obtain m' where m: "m = Suc m'" by (cases m) auto
  let ?tail = "concat (map (\<lambda>x. CHR 0x20 # keyword @ CHR 0x20 # pr x) xs) @ rest"
  have st: "skip_whitespace (cs_rest st) = skip_whitespace (CHR 0x20 # keyword @ CHR 0x20 # pr x @ ?tail)"
    using Cons.prems(3) by simp
  have hit: "consume_keyword keyword (cs_rest st) = Some (CHR 0x20 # pr x @ ?tail)"
    using consume_keyword_skip [OF st, of keyword] consume_keyword_hit [OF kw(2), of w "pr x @ ?tail"] kw(1) by simp
  have "F ?tail"
  proof (cases xs)
    case Nil
    then show ?thesis using rest(1) by simp
  next
    case (Cons y ys)
    then show ?thesis using sep [of "pr y @ concat (map (\<lambda>x. CHR 0x20 # keyword @ CHR 0x20 # pr x) ys) @ rest"] by simp
  qed
  then have "reads_back p (pr x) (ev x) (n x) ?tail" using Cons.prems(1) by simp
  moreover have "skip_whitespace (CHR 0x20 # pr x @ ?tail) = pr x @ ?tail"
    using Cons.prems(2) [of x] by (cases "pr x") auto
  ultimately obtain r where r: "p (st\<lparr>cs_rest := CHR 0x20 # pr x @ ?tail\<rparr>)
        = Inr (ev x, \<lparr>cs_rest = r, cs_comparisons = cs_comparisons st + n x\<rparr>)"
      "skip_whitespace r = skip_whitespace ?tail"
    using Cons.prems(4) unfolding reads_back_def by (elim allE [of _ "st\<lparr>cs_rest := CHR 0x20 # pr x @ ?tail\<rparr>"]) auto
  have "\<exists>r'. keyword_loop m' keyword comb p (comb acc (ev x)) \<lparr>cs_rest = r, cs_comparisons = cs_comparisons st + n x\<rparr>
      = Inr (foldl comb (comb acc (ev x)) (map ev xs),
          \<lparr>cs_rest = r', cs_comparisons = cs_comparisons \<lparr>cs_rest = r, cs_comparisons = cs_comparisons st + n x\<rparr> + sum_list (map n xs)\<rparr>)
      \<and> skip_whitespace r' = skip_whitespace rest"
    by (rule Cons.IH) (use Cons.prems r m in auto)
  then show ?case by (simp add: m hit r(1) add.assoc)
qed


lemma join_str_concat: "join_str sep (x # xs) = x @ concat (map (\<lambda>y. sep @ y) xs)"
  by (induction xs arbitrary: x) simp_all

lemma chain_reads_back:
  assumes kw: "keyword = k # w" "\<not> is_ascii_space k"
    and items: "\<And>y rest. y \<in> set (x # xs) \<Longrightarrow> F rest \<Longrightarrow> reads_back p (pr y) (ev y) (n y) rest"
    and first: "\<And>y. y \<in> set (x # xs) \<Longrightarrow> pr y \<noteq> [] \<and> \<not> is_ascii_space (hd (pr y))"
    and rest: "F rest" "consume_keyword keyword rest = None"
    and sep: "\<And>r. F (CHR 0x20 # keyword @ CHR 0x20 # r)"
  shows "reads_back (parse_chain keyword comb p) (join_str (CHR 0x20 # keyword @ '' '') (map pr (x # xs)))
      (foldl comb (ev x) (map ev xs)) (sum_list (map n (x # xs))) rest"
  unfolding reads_back_def
proof (intro allI impI)
  fix st :: condition_state
  let ?tail = "concat (map (\<lambda>x. CHR 0x20 # keyword @ CHR 0x20 # pr x) xs) @ rest"
  assume "skip_whitespace (cs_rest st) = join_str (CHR 0x20 # keyword @ '' '') (map pr (x # xs)) @ rest"
  then have st: "skip_whitespace (cs_rest st) = pr x @ ?tail" by (simp add: join_str_concat comp_def)
  assume count: "cs_comparisons st + sum_list (map n (x # xs)) \<le> 32"
  have "F ?tail"
  proof (cases xs)
    case Nil
    then show ?thesis using rest(1) by simp
  next
    case (Cons y ys)
    then show ?thesis using sep [of "pr y @ concat (map (\<lambda>x. CHR 0x20 # keyword @ CHR 0x20 # pr x) ys) @ rest"] by simp
  qed
  then have "reads_back p (pr x) (ev x) (n x) ?tail" using items by simp
  then obtain r where r: "p st = Inr (ev x, \<lparr>cs_rest = r, cs_comparisons = cs_comparisons st + n x\<rparr>)"
      "skip_whitespace r = skip_whitespace ?tail"
    using st count unfolding reads_back_def by fastforce
  have "length xs \<le> length (skip_whitespace ?tail)"
  proof (cases xs)
    case (Cons y ys)
    have "length ys \<le> length (concat (map (\<lambda>x. CHR 0x20 # keyword @ CHR 0x20 # pr x) ys))"
      by (induction ys) simp_all
    then show ?thesis using Cons kw by simp
  qed simp
  then have fuel: "length xs < Suc (length r)" using r(2) skip_whitespace_length [of r] by simp
  have "\<exists>r'. keyword_loop (Suc (length r)) keyword comb p (ev x) \<lparr>cs_rest = r, cs_comparisons = cs_comparisons st + n x\<rparr>
      = Inr (foldl comb (ev x) (map ev xs), \<lparr>cs_rest = r',
          cs_comparisons = cs_comparisons \<lparr>cs_rest = r, cs_comparisons = cs_comparisons st + n x\<rparr> + sum_list (map n xs)\<rparr>)
      \<and> skip_whitespace r' = skip_whitespace rest"
    by (rule chain_loop_reads_back [where F = F and pr = pr and k = k and w = w])
      (use kw items first rest sep r(2) count fuel in auto)
  then show "\<exists>r'. parse_chain keyword comb p st = Inr (foldl comb (ev x) (map ev xs),
        \<lparr>cs_rest = r', cs_comparisons = cs_comparisons st + sum_list (map n (x # xs))\<rparr>)
      \<and> skip_whitespace r' = skip_whitespace rest"
    by (simp add: parse_chain_def r(1) add.assoc del: keyword_loop.simps)
qed

lemma foldl_and: "foldl (\<and>) b bs = (b \<and> list_all id bs)"
  by (induction bs arbitrary: b) auto

lemma foldl_or: "foldl (\<or>) b bs = (b \<or> list_ex id bs)"
  by (induction bs arbitrary: b) auto

lemma print_cond_first: "wf_cond c \<Longrightarrow> print_cond c \<noteq> [] \<and> \<not> is_ascii_space (hd (print_cond c))"
  by (cases c) (auto simp: print_operand_def is_ascii_space_def)

lemma keyword_elsewhere [simp]:
  "consume_keyword k [] = None \<longleftrightarrow> k \<noteq> []" "consume_keyword ''And'' (CHR '')'' # r) = None"
  "consume_keyword ''Or'' (CHR '')'' # r) = None" "consume_keyword ''And'' ('' Or '' @ r) = None"
  "consume_keyword ''Or'' ('' And '' @ r) = None"
  by (auto simp: consume_keyword_def Let_def is_ascii_space_def str_eval)


lemma follows_simps [simp]:
  "follows []" "follows (CHR '')'' # r)" "follows ('' And '' @ r)" "follows ('' Or '' @ r)"
  "follows (CHR 0x20 # ''And'' @ CHR 0x20 # r)" "follows (CHR 0x20 # ''Or'' @ CHR 0x20 # r)"
  by (auto simp: follows_def)

lemma follows_words [simp]:
  "follows (CHR 0x20 # CHR ''A'' # CHR ''n'' # CHR ''d'' # CHR 0x20 # r)"
  "follows (CHR 0x20 # CHR ''O'' # CHR ''r'' # CHR 0x20 # r)"
  by (auto simp: follows_def)

lemma or_reads_back:
  assumes ds: "ds \<noteq> []" "\<And>cs. cs \<in> set ds \<Longrightarrow> cs \<noteq> []"
    and items: "\<And>cs c rest. cs \<in> set ds \<Longrightarrow> c \<in> set cs \<Longrightarrow> follows rest \<Longrightarrow>
        reads_back p (print_cond c) (eval_cond ctx c) (comparisons_of c) rest"
    and wf: "\<And>cs c. cs \<in> set ds \<Longrightarrow> c \<in> set cs \<Longrightarrow> wf_cond c"
    and rest: "follows rest" "consume_keyword ''Or'' rest = None" "consume_keyword ''And'' rest = None"
  shows "reads_back (parse_or p) (print_or ds) (list_ex (list_all (eval_cond ctx)) ds)
      (sum_list (map (\<lambda>cs. sum_list (map comparisons_of cs)) ds)) rest"
proof -
  let ?F = "\<lambda>rest. follows rest \<and> consume_keyword ''And'' rest = None"
  let ?pr = "\<lambda>cs. join_str '' And '' (map print_cond cs)"
  let ?ev = "list_all (eval_cond ctx)" and ?n = "\<lambda>cs. sum_list (map comparisons_of cs)"
  have inner: "reads_back (parse_and p) (?pr cs) (?ev cs) (?n cs) rest"
    if mem: "cs \<in> set ds" and ok: "?F rest" for cs rest
  proof -
    obtain x xs where cs: "cs = x # xs" using ds(2) [OF mem] by (cases cs) auto
    have "reads_back (parse_chain ''And'' (\<and>) p) (join_str (CHR 0x20 # ''And'' @ '' '') (map print_cond (x # xs)))
        (foldl (\<and>) (eval_cond ctx x) (map (eval_cond ctx) xs)) (sum_list (map comparisons_of (x # xs))) rest"
      by (rule chain_reads_back [where F = follows and k = "CHR ''A''" and w = "''nd''"])
        (use mem ok items [of cs] wf [of cs] print_cond_first in \<open>auto simp: cs is_ascii_space_def\<close>)
    then show ?thesis by (simp add: cs parse_and_def foldl_and list_all_iff)
  qed
  obtain y ys where dsy: "ds = y # ys" using ds(1) by (cases ds) auto
  have "reads_back (parse_chain ''Or'' (\<or>) (parse_and p)) (join_str (CHR 0x20 # ''Or'' @ '' '') (map ?pr (y # ys)))
      (foldl (\<or>) (?ev y) (map ?ev ys)) (sum_list (map ?n (y # ys))) rest"
  proof (rule chain_reads_back [where F = ?F and k = "CHR ''O''" and w = "''r''"])
    fix cs assume cs: "cs \<in> set (y # ys)"
    then have "cs \<noteq> []" using ds(2) [of cs] dsy by simp
    then obtain x xs where x: "cs = x # xs" by (cases cs) auto
    then show "?pr cs \<noteq> [] \<and> \<not> is_ascii_space (hd (?pr cs))"
      using print_cond_first [of x] wf [of cs x] cs dsy by (cases xs) auto
  next
    fix r show "?F (CHR 0x20 # ''Or'' @ CHR 0x20 # r)" using keyword_elsewhere(4) [of r] by simp
  qed (use inner rest dsy in \<open>auto simp: is_ascii_space_def\<close>)
  then show ?thesis by (simp add: dsy parse_or_def print_or_def foldl_or list_ex_iff)
qed

lemma print_or_first:
  assumes "ds \<noteq> []" and "\<And>cs. cs \<in> set ds \<Longrightarrow> cs \<noteq> []" and "\<And>cs c. cs \<in> set ds \<Longrightarrow> c \<in> set cs \<Longrightarrow> wf_cond c"
  shows "print_or ds \<noteq> [] \<and> \<not> is_ascii_space (hd (print_or ds))"
proof -
  obtain y ys where ds: "ds = y # ys" using assms(1) by (cases ds) auto
  then have "y \<noteq> []" using assms(2) [of y] by simp
  then obtain x xs where y: "y = x # xs" by (cases y) auto
  show ?thesis using print_cond_first [of x] assms(3) [of y x]
    by (auto simp: ds y print_or_def join_str_concat)
qed

lemma unary_skip: "skip_whitespace a = skip_whitespace b \<Longrightarrow>
   parse_unary n ci (st\<lparr>cs_rest := a\<rparr>) = parse_unary n ci (st\<lparr>cs_rest := b\<rparr>)"
  by (simp add: parse_unary.simps [of n ci "st\<lparr>cs_rest := a\<rparr>"] parse_unary.simps [of n ci "st\<lparr>cs_rest := b\<rparr>"]
      cong: nat.case_cong option.case_cong)

lemma cmp_reads_back:
  assumes "list_all wf_piece a" and "list_all wf_piece b"
  shows "reads_back (parse_unary n ci) (print_cond (Cmp equal a b)) (eval_cond (ci_context ci) (Cmp equal a b)) 1 rest"
  unfolding reads_back_def
proof (intro allI impI)
  fix st :: condition_state
  assume st: "skip_whitespace (cs_rest st) = print_cond (Cmp equal a b) @ rest" and "cs_comparisons st + 1 \<le> 32"
  let ?op = "if equal then '' == '' else '' != ''"
  let ?s = "print_operand a @ ?op @ print_operand b @ rest"
  have s: "skip_whitespace (cs_rest st) = ?s" using st by simp
  have q: "?s = CHR 0x27 # tl ?s" by (simp add: print_operand_def)
  have sk: "skip_whitespace ?s = ?s" by (subst q, subst (2) q) (simp add: is_ascii_space_def)
  have "parse_unary n ci st = parse_comparison ci (st\<lparr>cs_rest := ?s\<rparr>)"
    unfolding parse_unary.simps [of n ci st] s
    by (simp add: Let_def consume_byte_def print_operand_def)
  moreover have "parse_operand ci ?s = Inr (operand_value (ci_context ci) a, ?op @ print_operand b @ rest)"
    using assms(1) sk by (intro parse_print_operand) simp_all
  moreover have "parse_operand ci (CHR 0x20 # print_operand b @ rest) = Inr (operand_value (ci_context ci) b, rest)"
    using assms(2) by (intro parse_print_operand) (simp_all add: print_operand_def is_ascii_space_def)
  ultimately show "\<exists>r. parse_unary n ci st = Inr (eval_cond (ci_context ci) (Cmp equal a b),
        \<lparr>cs_rest = r, cs_comparisons = cs_comparisons st + 1\<rparr>) \<and> skip_whitespace r = skip_whitespace rest"
    using \<open>cs_comparisons st + 1 \<le> 32\<close>
    by (cases equal) (auto simp: parse_comparison_def MAX_REFERENCE_CONDITION_OPERATORS_def Let_def consume_text_def
        strip_prefix_def starts_with_def is_ascii_space_def)
qed


lemma flag_reads_back:
  assumes "follows rest"
  shows "reads_back (parse_unary n ci) (print_cond (Flag b)) (eval_cond (ci_context ci) (Flag b)) 1 rest"
  unfolding reads_back_def
proof (intro allI impI)
  fix st :: condition_state
  let ?w = "if b then ''true'' else ''false''"
  assume s: "skip_whitespace (cs_rest st) = print_cond (Flag b) @ rest" and count: "cs_comparisons st + 1 \<le> 32"
  have bare: "scan_bare ci [] (?w @ rest) = Inr ([] @ ?w, rest)"
    using assms by (intro scan_bare_word) (auto simp: is_ascii_space_def follows_def split: if_splits)
  have expand: "expand_operand ci ?w = Inr ?w" by (cases b) (simp_all add: expand_operand_def starts_with_def)
  have sk: "skip_whitespace (?w @ rest) = ?w @ rest" by (cases b) (simp_all add: is_ascii_space_def)
  have "parse_operand ci (?w @ rest) = Inr (?w, rest)"
    using bare expand sk by (cases b) (simp_all add: parse_operand_def)
  moreover have "parse_unary n ci st = parse_comparison ci (st\<lparr>cs_rest := ?w @ rest\<rparr>)"
    unfolding parse_unary.simps [of n ci st] s by (cases b) (simp_all add: Let_def consume_byte_def)
  moreover have "consume_text ''=='' (skip_whitespace rest) = None" "consume_text ''!='' (skip_whitespace rest) = None"
    using assms by (auto simp: follows_def consume_text_def strip_prefix_def starts_with_def is_ascii_space_def)
  moreover have "eq_ignore_case ?w ''true'' = b" "eq_ignore_case ?w ''false'' = (\<not> b)"
    by (cases b; simp add: str_eval)+
  ultimately show "\<exists>r. parse_unary n ci st = Inr (eval_cond (ci_context ci) (Flag b),
        \<lparr>cs_rest = r, cs_comparisons = cs_comparisons st + 1\<rparr>) \<and> skip_whitespace r = skip_whitespace rest"
    using count by (simp add: parse_comparison_def MAX_REFERENCE_CONDITION_OPERATORS_def Let_def)
qed

lemma max_le: "foldr max xs 0 \<le> n \<longleftrightarrow> (\<forall>x \<in> set xs. x \<le> n)" for n :: nat
  by (induction xs) auto

lemma group_reads_back:
  assumes ds: "ds \<noteq> []" "\<And>cs. cs \<in> set ds \<Longrightarrow> cs \<noteq> []" "\<And>cs c. cs \<in> set ds \<Longrightarrow> c \<in> set cs \<Longrightarrow> wf_cond c"
    and items: "\<And>cs c rest. cs \<in> set ds \<Longrightarrow> c \<in> set cs \<Longrightarrow> follows rest \<Longrightarrow>
        reads_back (parse_unary m ci) (print_cond c) (eval_cond (ci_context ci) c) (comparisons_of c) rest"
  shows "reads_back (parse_unary (Suc m) ci) (print_cond (Group ds)) (eval_cond (ci_context ci) (Group ds))
      (comparisons_of (Group ds)) rest"
  unfolding reads_back_def
proof (intro allI impI)
  fix st :: condition_state
  assume s: "skip_whitespace (cs_rest st) = print_cond (Group ds) @ rest"
    and count: "cs_comparisons st + comparisons_of (Group ds) \<le> 32"
  let ?body = "print_or ds @ CHR '')'' # rest"
  have "reads_back (parse_or (parse_unary m ci)) (print_or ds) (list_ex (list_all (eval_cond (ci_context ci))) ds)
      (sum_list (map (\<lambda>cs. sum_list (map comparisons_of cs)) ds)) (CHR '')'' # rest)"
    using ds items by (intro or_reads_back) simp_all
  moreover have "skip_whitespace ?body = ?body"
  proof -
    have "print_or ds \<noteq> [] \<and> \<not> is_ascii_space (hd (print_or ds))" using ds by (rule print_or_first)
    then show ?thesis by (cases "print_or ds") auto
  qed
  ultimately obtain r where r: "parse_or (parse_unary m ci) (st\<lparr>cs_rest := ?body\<rparr>)
        = Inr (eval_cond (ci_context ci) (Group ds), \<lparr>cs_rest = r, cs_comparisons = cs_comparisons st + comparisons_of (Group ds)\<rparr>)"
      "skip_whitespace r = skip_whitespace (CHR '')'' # rest)"
    using count unfolding reads_back_def by (elim allE [of _ "st\<lparr>cs_rest := ?body\<rparr>"]) auto
  have "skip_whitespace (cs_rest st) = CHR ''('' # ?body" using s by (simp add: print_or_def)
  then have "parse_unary (Suc m) ci st = Inr (eval_cond (ci_context ci) (Group ds),
      \<lparr>cs_rest = rest, cs_comparisons = cs_comparisons st + comparisons_of (Group ds)\<rparr>)"
    unfolding parse_unary.simps [of "Suc m" ci st] using r
    by (simp add: Let_def consume_byte_def is_ascii_space_def del: eval_cond.simps comparisons_of.simps)
  then show "\<exists>r. parse_unary (Suc m) ci st = Inr (eval_cond (ci_context ci) (Group ds),
        \<lparr>cs_rest = r, cs_comparisons = cs_comparisons st + comparisons_of (Group ds)\<rparr>)
      \<and> skip_whitespace r = skip_whitespace rest" by blast
qed

lemma neg_reads_back:
  assumes wf: "wf_cond c"
    and item: "reads_back (parse_unary m ci) (print_cond c) (eval_cond (ci_context ci) c) (comparisons_of c) rest"
  shows "reads_back (parse_unary (Suc m) ci) (print_cond (Neg c)) (eval_cond (ci_context ci) (Neg c))
      (comparisons_of (Neg c)) rest"
  unfolding reads_back_def
proof (intro allI impI)
  fix st :: condition_state
  let ?body = "print_cond c @ rest"
  assume s: "skip_whitespace (cs_rest st) = print_cond (Neg c) @ rest"
    and count: "cs_comparisons st + comparisons_of (Neg c) \<le> 32"
  have "skip_whitespace ?body = ?body" using print_cond_first [OF wf] by (cases "print_cond c") auto
  with item obtain r where "parse_unary m ci (st\<lparr>cs_rest := ?body\<rparr>)
        = Inr (eval_cond (ci_context ci) c, \<lparr>cs_rest = r, cs_comparisons = cs_comparisons st + comparisons_of c\<rparr>)"
      "skip_whitespace r = skip_whitespace rest"
    using count unfolding reads_back_def by (elim allE [of _ "st\<lparr>cs_rest := ?body\<rparr>"]) auto
  moreover have "skip_whitespace (cs_rest st) = CHR ''!'' # ?body" using s by simp
  ultimately show "\<exists>r. parse_unary (Suc m) ci st = Inr (eval_cond (ci_context ci) (Neg c),
        \<lparr>cs_rest = r, cs_comparisons = cs_comparisons st + comparisons_of (Neg c)\<rparr>)
      \<and> skip_whitespace r = skip_whitespace rest"
    unfolding parse_unary.simps [of "Suc m" ci st] by (simp add: Let_def consume_byte_def)
qed

lemma print_reads_back:
  "wf_cond c \<Longrightarrow> depth_of c \<le> n \<Longrightarrow> follows rest \<Longrightarrow>
     reads_back (parse_unary n ci) (print_cond c) (eval_cond (ci_context ci) c) (comparisons_of c) rest"
proof (induction c arbitrary: n rest)
  case (Cmp equal a b)
  then show ?case using cmp_reads_back [of a b n ci equal rest] by simp
next
  case (Flag b)
  then show ?case using flag_reads_back [of rest n ci b] by simp
next
  case (Neg c)
  then obtain m where n: "n = Suc m" "depth_of c \<le> m" by (cases n) auto
  have "wf_cond c" using Neg.prems(1) by simp
  then have "reads_back (parse_unary m ci) (print_cond c) (eval_cond (ci_context ci) c) (comparisons_of c) rest"
    using n(2) Neg.prems(3) by (rule Neg.IH)
  with \<open>wf_cond c\<close> show ?case unfolding n(1) by (rule neg_reads_back)
next
  case (Group ds)
  then obtain m where n: "n = Suc m" by (cases n) auto
  have depth: "depth_of c \<le> m" if "cs \<in> set ds" "c \<in> set cs" for cs c
    using Group.prems(2) that unfolding n by (auto simp: max_le)
  have wf: "ds \<noteq> []" "\<And>cs. cs \<in> set ds \<Longrightarrow> cs \<noteq> []" "\<And>cs c. cs \<in> set ds \<Longrightarrow> c \<in> set cs \<Longrightarrow> wf_cond c"
    using Group.prems(1) by (auto simp: list_all_iff)
  show ?case unfolding n
    by (rule group_reads_back) (use wf Group.IH depth in auto)
qed

text \<open>C4: the condition evaluator reads its language: the text of an expression of comparisons,
  flags, negations and parenthesised disjunctions of conjunctions evaluates to the expression's value
  in the given dimensions, where \<open>And\<close> binds stronger than \<open>Or\<close> and a comparison ignores case, as long
  as it respects the three limits on bytes, comparisons and nesting.\<close>

theorem evaluate_printed_condition:
  assumes "wf_cond (Group ds)" and "list_all (list_all (\<lambda>c. depth_of c \<le> 8)) ds" and "comparisons_of (Group ds) \<le> 32"
    and "length (print_or ds) \<le> 1024" and "is_ascii (print_or ds)"
  shows "evaluate_condition path (print_or ds) ctx = Inr (eval_cond ctx (Group ds))"
proof -
  let ?ci = "\<lparr>ci_path = path, ci_input = print_or ds, ci_context = ctx\<rparr>"
  have ds: "ds \<noteq> []" "\<And>cs. cs \<in> set ds \<Longrightarrow> cs \<noteq> []" "\<And>cs c. cs \<in> set ds \<Longrightarrow> c \<in> set cs \<Longrightarrow> wf_cond c"
    using assms(1) by (auto simp: list_all_iff)
  have "reads_back (parse_or (parse_unary 8 ?ci)) (print_or ds) (list_ex (list_all (eval_cond ctx)) ds)
      (sum_list (map (\<lambda>cs. sum_list (map comparisons_of cs)) ds)) []"
    using ds assms(2) print_reads_back [of _ 8 _ ?ci] by (intro or_reads_back) (auto simp: list_all_iff)
  moreover have "skip_whitespace (print_or ds) = print_or ds"
  proof -
    have "print_or ds \<noteq> [] \<and> \<not> is_ascii_space (hd (print_or ds))" using ds by (rule print_or_first)
    then show ?thesis by (cases "print_or ds") auto
  qed
  ultimately have "\<exists>r. parse_or (parse_unary 8 ?ci) \<lparr>cs_rest = print_or ds, cs_comparisons = 0\<rparr>
        = Inr (list_ex (list_all (eval_cond ctx)) ds, \<lparr>cs_rest = r, cs_comparisons = 0 + comparisons_of (Group ds)\<rparr>)
      \<and> skip_whitespace r = skip_whitespace []"
    using assms(3) unfolding reads_back_def
    by (elim allE [of _ "\<lparr>cs_rest = print_or ds, cs_comparisons = 0\<rparr>"]) auto
  then show ?thesis using assms(4,5)
    by (auto simp: evaluate_condition_def MAX_REFERENCE_CONDITION_BYTES_def MAX_REFERENCE_CONDITION_DEPTH_def)
qed

definition example_condition :: "cond list list" where
  "example_condition =
     [[Cmp True [Dim TargetFrameworkDim] [Chars ''net10.0''], Neg (Group [[Cmp False [Dim ConfigurationDim] [Chars ''debug'']]])],
      [Flag False]]"

definition example_context :: condition_context where
  "example_context = \<lparr>cc_target_framework = ''net10.0'', cc_runtime_identifier = None, cc_configuration = ''Debug''\<rparr>"

theorem evaluate_printed_condition_witness:
  "evaluate_condition ''a.csproj'' (print_or example_condition) example_context = Inr True"
proof -
  have "is_ascii (print_or example_condition)" "length (print_or example_condition) \<le> 1024"
    by (simp_all add: example_condition_def print_or_def print_operand_def is_ascii_def)
  moreover have "eval_cond example_context (Group example_condition)"
    by (simp add: example_condition_def example_context_def operand_value_def str_eval)
  ultimately show ?thesis
    using evaluate_printed_condition [of example_condition "''a.csproj''" example_context]
    by (simp add: example_condition_def)
qed

end
