(* ===== verification/Package_Pruning.thy ===== *)
theory Package_Pruning
  imports Package_Version Rust_Map Span_Table Project_Spec Protocol Sdk_Discovery
begin

text \<open>
  \<open>crates/dv-core/src/package.rs\<close>: the packages a target framework provides, which the resolver
  prunes: reading the data files and generated tables, the framework batch, and the compact sorted
  table with its binary search. SHA-512 and Base64 are not in the sources: the digest of the hashed
  text is the argument \<open>fingerprint\<close>. The frameworks that need the SDK's bundled manifest are the
  argument \<open>manifest_names\<close>, and \<open>io_text\<close> displays an I/O error.
\<close>

definition MAX_PRUNE_DATA_BYTES :: nat where "MAX_PRUNE_DATA_BYTES = 1024 * 1024"
definition MAX_PRUNE_PACKAGES :: nat where "MAX_PRUNE_PACKAGES = 10000"

section \<open>Shared helpers\<close>

definition u32_overflow :: "string \<Rightarrow> package_error" where
  "u32_overflow meaning = package_error_new TextOverflow meaning (Format ''{meaning} exceeds u32'' [meaning])"

definition push_text :: "string \<Rightarrow> string \<Rightarrow> package_error + string \<times> tspan" where
  "push_text = push_span (u32_overflow ''package text table'') (u32_overflow ''package text value'')"

definition package_io :: "('io \<Rightarrow> string) \<Rightarrow> string \<Rightarrow> string \<Rightarrow> 'io \<Rightarrow> package_error" where
  "package_io io_text operation path e =
     package_error_new PackageIo path (Format ''failed to {operation} {}: {error}'' [operation, path, io_text e])"

definition normalize_id :: "string \<Rightarrow> package_error + string" where
  "normalize_id value =
     (if value = [] \<or> 100 < length value
         \<or> \<not> list_all (\<lambda>b. is_alnum b \<or> b \<in> {CHR ''.'', CHR ''-'', CHR ''_''}) value
      then Inl (version_error value ''package identity {value:?} is outside the supported NuGet identifier form'')
      else Inr (to_lower value))"

section \<open>The pruning table\<close>

record pruned_package =
  pp_lower_id :: tspan
  pp_upper_numbers :: "nat list"
  pp_upper_prerelease :: tspan

record package_pruning =
  pru_text :: string
  pru_packages :: "pruned_package list"
  pru_fingerprint :: string

definition no_pruning :: package_pruning where
  "no_pruning = \<lparr>pru_text = [], pru_packages = [], pru_fingerprint = []\<rparr>"

record parsed_pruned_package =
  ppp_lower_id :: string
  ppp_upper :: package_version

definition pruning_contains :: "package_pruning \<Rightarrow> string \<Rightarrow> package_version \<Rightarrow> bool" where
  "pruning_contains p lower_id version =
     (case binary_search_by (\<lambda>q. rust_cmp (span_text (pru_text p) (pp_lower_id q)) lower_id) (pru_packages p) of
        Inl _ \<Rightarrow> False
      | Inr index \<Rightarrow>
          (let q = pru_packages p ! index
           in then_with (rust_cmp (pv_numbers version) (pp_upper_numbers q))
                (compare_package_prerelease (pv_prerelease version)
                  (if sp_len (pp_upper_prerelease q) \<noteq> 0
                   then Some (span_text (pru_text p) (pp_upper_prerelease q)) else None)) \<noteq> Greater))"

text \<open>The rows are merged per identity, keeping the greater upper version.\<close>

definition merge_pruned :: "parsed_pruned_package list \<Rightarrow> parsed_pruned_package \<Rightarrow> parsed_pruned_package list" where
  "merge_pruned merged package =
     (if merged \<noteq> [] \<and> ppp_lower_id (last merged) = ppp_lower_id package
      then if pv_cmp (ppp_upper package) (ppp_upper (last merged)) = Greater
           then butlast merged @ [(last merged)\<lparr>ppp_upper := ppp_upper package\<rparr>]
           else merged
      else merged @ [package])"

definition pruned_cmp :: "parsed_pruned_package \<Rightarrow> parsed_pruned_package \<Rightarrow> ordering" where
  "pruned_cmp a b = then_with (rust_cmp (ppp_lower_id a) (ppp_lower_id b)) (pv_cmp (ppp_upper a) (ppp_upper b))"

definition compact_row :: "string \<times> pruned_package list \<Rightarrow> parsed_pruned_package \<Rightarrow>
    package_error + string \<times> pruned_package list" where
  "compact_row st package =
     rbind (push_text (fst st) (ppp_lower_id package)) (\<lambda>(t1, ident).
     rbind (push_text t1 (case pv_prerelease (ppp_upper package) of None \<Rightarrow> [] | Some p \<Rightarrow> p)) (\<lambda>(t2, pre).
       Inr (t2, snd st @ [\<lparr>pp_lower_id = ident, pp_upper_numbers = pv_numbers (ppp_upper package),
         pp_upper_prerelease = pre\<rparr>])))"

definition hashed_row :: "parsed_pruned_package \<Rightarrow> string" where
  "hashed_row package = ppp_lower_id package @ [CHR 0x00] @ pv_normalized (ppp_upper package) @ [CHR 0x0A]"

definition compact_package_pruning ::
    "(string \<Rightarrow> string) \<Rightarrow> parsed_pruned_package list \<Rightarrow> package_error + package_pruning" where
  "compact_package_pruning fingerprint packages =
     (let merged = foldl merge_pruned [] (sort_by pruned_cmp packages)
      in rbind (try_fold compact_row ([], []) merged) (\<lambda>(text, rows).
         Inr \<lparr>pru_text = text, pru_packages = rows,
              pru_fingerprint = fingerprint (concat (map hashed_row merged))\<rparr>))"

section \<open>Reading the data\<close>

text \<open>\<open>str::lines\<close>: a trailing newline ends the last line, and a carriage return before a newline goes.\<close>

definition strip_cr :: "string \<Rightarrow> string" where
  "strip_cr s = (if s \<noteq> [] \<and> last s = CHR 0x0D then butlast s else s)"

definition rust_lines :: "string \<Rightarrow> string list" where
  "rust_lines s =
     (let parts = split_on CHR 0x0A s
      in map strip_cr (butlast parts) @ (if last parts = [] then [] else [last parts]))"

definition invalid_prune_line :: "string \<Rightarrow> nat \<Rightarrow> package_error" where
  "invalid_prune_line path line = package_error_new Configuration path
     (Format ''invalid package-pruning record on line {line}; expected Package.Id|version'' [show_nat line])"

text \<open>A stable ceiling stands for every patch of its minor version.\<close>

definition patch_ceiling :: "package_version \<Rightarrow> package_version" where
  "patch_ceiling v =
     (if pv_prerelease v = None
      then v\<lparr>pv_numbers := [pv_numbers v ! 0, pv_numbers v ! 1, 32767, 0],
             pv_normalized := show_nat (pv_numbers v ! 0) @ ''.'' @ show_nat (pv_numbers v ! 1) @ ''.32767''\<rparr>
      else v)"

definition prune_line :: "string \<Rightarrow> parsed_pruned_package list \<Rightarrow> nat \<times> string \<Rightarrow>
    package_error + parsed_pruned_package list" where
  "prune_line path packages row =
     (case row of (index, text) \<Rightarrow>
      let line = trim text in
      if line = [] \<or> starts_with ''#'' line then Inr packages
      else if MAX_PRUNE_PACKAGES \<le> length packages
      then Inl (package_error_new Configuration path
             (Format ''package-pruning data exceeds {MAX_PRUNE_PACKAGES} entries'' []))
      else (case split_once CHR ''|'' line of
          None \<Rightarrow> Inl (invalid_prune_line path (index + 1))
        | Some (ident, version) \<Rightarrow>
            if ident = [] \<or> version = [] \<or> CHR ''|'' \<in> set version then Inl (invalid_prune_line path (index + 1))
            else rbind (map_error (\<lambda>e. package_error_new Configuration path
                   (Nested ''invalid package-pruning version on line {}: {error}'' [show_nat (index + 1)] (pe_message e)))
                   (parse_package_version version)) (\<lambda>upper.
                 rbind (map_error (\<lambda>e. package_error_new Configuration path
                   (Nested ''invalid package-pruning identity on line {}: {error}'' [show_nat (index + 1)] (pe_message e)))
                   (normalize_id ident)) (\<lambda>lower_id.
                 Inr (packages @ [\<lparr>ppp_lower_id = lower_id, ppp_upper = patch_ceiling upper\<rparr>])))))"

text \<open>\<open>utf8_error\<close> is the standard library's UTF-8 check, displaying its error.\<close>

definition parse_package_pruning ::
    "('p, 'io) machine \<Rightarrow> ('io \<Rightarrow> string) \<Rightarrow> (string \<Rightarrow> string option) \<Rightarrow> 'p \<Rightarrow>
     package_error + parsed_pruned_package list" where
  "parse_package_pruning m io_text utf8_error path =
     (let shown = path_text m path in
      rbind (map_error (package_io io_text ''read package-pruning data'' shown) (read_file m path)) (\<lambda>bytes.
      if MAX_PRUNE_DATA_BYTES < length bytes
      then Inl (package_error_new Configuration shown
             (Format ''package-pruning data exceeds {MAX_PRUNE_DATA_BYTES} bytes'' []))
      else (case utf8_error bytes of
          Some e \<Rightarrow> Inl (package_error_new Configuration shown (Format ''package-pruning data is not UTF-8: {error}'' [e]))
        | None \<Rightarrow> try_fold (prune_line shown) [] (List.enumerate 0 (rust_lines bytes)))))"

definition legacy_package :: "bool \<Rightarrow> legacy_prune_package \<Rightarrow> parsed_pruned_package" where
  "legacy_package stable_patch_ceiling package =
     (let ns = map unat (prune_numbers package);
          ns = (if stable_patch_ceiling then [ns ! 0, ns ! 1, 32767, 0] else ns);
          normalized = show_nat (ns ! 0) @ ''.'' @ show_nat (ns ! 1) @ ''.'' @ show_nat (ns ! 2)
            @ (if ns ! 3 = 0 then [] else ''.'' @ show_nat (ns ! 3))
      in \<lparr>ppp_lower_id = prune_id package,
          ppp_upper = \<lparr>pv_normalized = normalized, pv_numbers = ns, pv_prerelease_start = None\<rparr>\<rparr>)"

definition extend_parsed_pruning ::
    "parsed_pruned_package list \<Rightarrow> parsed_pruned_package list \<Rightarrow> package_error + parsed_pruned_package list" where
  "extend_parsed_pruning packages selected =
     (if MAX_PRUNE_PACKAGES < length packages + length selected
      then Inl (package_error_new Configuration ''package-pruning data''
             (Format ''merged package-pruning data exceeds {MAX_PRUNE_PACKAGES} entries'' []))
      else Inr (packages @ selected))"

definition extend_legacy_packages ::
    "parsed_pruned_package list \<Rightarrow> legacy_prune_package list \<Rightarrow> bool \<Rightarrow> package_error + parsed_pruned_package list" where
  "extend_legacy_packages packages rows stable_patch_ceiling =
     (if MAX_PRUNE_PACKAGES < length packages + length rows
      then Inl (package_error_new Configuration ''generated package-pruning data''
             (Format ''merged package-pruning data exceeds {MAX_PRUNE_PACKAGES} entries'' []))
      else Inr (packages @ map (legacy_package stable_patch_ceiling) rows))"


section \<open>The framework batch\<close>

text \<open>An error value, or the panic of an index out of range.\<close>

datatype prune_failure = PruneError package_error | PrunePanic

definition MAX_PRUNE_FRAMEWORKS :: nat where "MAX_PRUNE_FRAMEWORKS = 3"

text \<open>The array of three and its length are the list of the pushed frameworks; a fourth is out of range.\<close>

type_synonym pruning_batch = "pruning_framework list"

definition push_framework :: "pruning_batch \<Rightarrow> pruning_framework \<Rightarrow> prune_failure + pruning_batch" where
  "push_framework batch framework =
     (if framework \<in> set batch then Inr batch
      else if MAX_PRUNE_FRAMEWORKS \<le> length batch then Inl PrunePanic
      else Inr (batch @ [framework]))"

definition pruning_framework_kind :: "string \<Rightarrow> pruning_framework option" where
  "pruning_framework_kind runtime_name =
     (if eq_ignore_case runtime_name ''Microsoft.NETCore.App'' then Some Core
      else if eq_ignore_case runtime_name ''Microsoft.AspNetCore.App'' then Some AspNetCore
      else if eq_ignore_case runtime_name ''Microsoft.WindowsDesktop.App'' then Some WindowsDesktop
      else None)"

fun pruning_framework_name :: "pruning_framework \<Rightarrow> string" where
  "pruning_framework_name DefaultFramework = []"
| "pruning_framework_name Core = ''Microsoft.NETCore.App''"
| "pruning_framework_name AspNetCore = ''Microsoft.AspNetCore.App''"
| "pruning_framework_name WindowsDesktop = ''Microsoft.WindowsDesktop.App''"

definition push_reference :: "pruning_batch \<times> bool \<Rightarrow> string \<Rightarrow> prune_failure + pruning_batch \<times> bool" where
  "push_reference st name =
     (case pruning_framework_kind name of
        Some framework \<Rightarrow> rbind (push_framework (fst st) framework) (\<lambda>b. Inr (b, snd st))
      | None \<Rightarrow> Inr (fst st, True))"

definition push_runtime_name :: "pruning_batch \<Rightarrow> string \<Rightarrow> prune_failure + pruning_batch" where
  "push_runtime_name batch name =
     (case pruning_framework_kind name of
        Some framework \<Rightarrow> push_framework batch framework
      | None \<Rightarrow> Inr batch)"

text \<open>
  \<open>manifest_names\<close> is \<open>package_pruning_runtime_names\<close>: the path and text of its error, or names. A
  reference that is none of the three frameworks is looked up there.
\<close>

definition finish_batch ::
    "(project_spec \<Rightarrow> 'p sdk_inventory \<Rightarrow> (string \<times> string) + string list) \<Rightarrow>
     project_spec \<Rightarrow> 'p sdk_inventory option \<Rightarrow> pruning_batch \<Rightarrow> bool \<Rightarrow> prune_failure + pruning_batch" where
  "finish_batch manifest_names project inventory batch needs_manifest =
     (if \<not> needs_manifest then Inr batch
      else rbind (ok_or (PruneError (package_error_new Configuration (project_path project)
              (Format ''framework-profile pruning requires the selected SDK inventory'' []))) inventory) (\<lambda>inventory.
      rbind (map_error (\<lambda>(path, e). PruneError (package_error_new Configuration path
              (Format ''failed to map package-pruning framework references: {error}'' [e])))
              (manifest_names project inventory)) (\<lambda>names.
      try_fold push_runtime_name batch names)))"

definition pruning_framework_batch ::
    "(project_spec \<Rightarrow> 'p sdk_inventory \<Rightarrow> (string \<times> string) + string list) \<Rightarrow>
     project_spec \<Rightarrow> 'p sdk_inventory option \<Rightarrow> prune_failure + pruning_batch" where
  "pruning_framework_batch manifest_names project inventory =
     (case tfm_family (ps_target_framework project) of
        NetFramework \<Rightarrow> Inr []
      | family \<Rightarrow>
          rbind (push_framework [] (if family = NetStandard then DefaultFramework else Core)) (\<lambda>batch.
          rbind (try_fold push_reference (batch, False)
                  (map (framework_reference_id project) (ps_framework_references project))) (\<lambda>(batch, needs_manifest).
          finish_batch manifest_names project inventory batch needs_manifest)))"

section \<open>Choosing the data\<close>

text \<open>One entry of the targeting-pack directory, against the best so far.\<close>

definition consider_pack ::
    "('p, 'io) machine \<Rightarrow> ('io \<Rightarrow> string) \<Rightarrow> 'p \<Rightarrow> nat \<Rightarrow> nat \<Rightarrow> (package_version \<times> 'p) option \<Rightarrow>
     'io + ('p, 'io) fs_entry \<Rightarrow> package_error + (package_version \<times> 'p) option" where
  "consider_pack m io_text root major minor selected item =
     rbind (map_error (package_io io_text ''enumerate package-pruning packs'' (path_text m root)) item) (\<lambda>entry.
     rbind (map_error (package_io io_text ''inspect package-pruning pack'' (path_text m (fe_path entry))) (fe_is_dir entry)) (\<lambda>dir.
     if \<not> dir then Inr selected
     else (case fe_name entry of None \<Rightarrow> Inr selected | Some name \<Rightarrow>
       (case parse_package_version name of Inl _ \<Rightarrow> Inr selected | Inr version \<Rightarrow>
          let data = path_join m (path_join m (fe_path entry) ''data'') ''PackageOverrides.txt''
          in if pv_prerelease version \<noteq> None \<or> pv_numbers version ! 0 \<noteq> major \<or> pv_numbers version ! 1 \<noteq> minor
                \<or> \<not> is_file m data
             then Inr selected
             else if (case selected of None \<Rightarrow> True | Some (current, _) \<Rightarrow> pv_cmp version current = Greater)
             then Inr (Some (version, data)) else Inr selected))))"

definition select_pruning_pack_data ::
    "('p, 'io) machine \<Rightarrow> ('io \<Rightarrow> string) \<Rightarrow> 'p \<Rightarrow> nat \<Rightarrow> nat \<Rightarrow> package_error + 'p option" where
  "select_pruning_pack_data m io_text root major minor =
     (case read_dir m root of
        Inl e \<Rightarrow> if not_found m e then Inr None
                 else Inl (package_io io_text ''enumerate package-pruning packs'' (path_text m root) e)
      | Inr entries \<Rightarrow>
          rbind (try_fold (consider_pack m io_text root major minor) None entries) (\<lambda>selected.
            Inr (map_option snd selected)))"

definition missing_pruning_data :: "project_spec \<Rightarrow> pruning_framework \<Rightarrow> package_error" where
  "missing_pruning_data project framework =
     package_error_new Configuration (project_path project)
       (Format ''selected SDK has no package-pruning data for {} {}''
         [target_framework_name project, pruning_framework_name framework])"

text \<open>The flag is whether the data was found.\<close>

definition extend_legacy_pruning ::
    "legacy_prune_set list \<Rightarrow> parsed_pruned_package list \<Rightarrow> project_spec \<Rightarrow> pruning_framework \<Rightarrow> bool \<Rightarrow>
     package_error + parsed_pruned_package list \<times> bool" where
  "extend_legacy_pruning sets packages project framework stable_patch_ceiling =
     (let target = ps_target_framework project
      in case exact_legacy_pruning sets (tfm_family target) (tfm_major target) (tfm_minor target) framework of
           Some rows \<Rightarrow> rbind (extend_legacy_packages packages rows stable_patch_ceiling) (\<lambda>ps. Inr (ps, True))
         | None \<Rightarrow> Inr (packages, False))"

definition extend_modern_pruning ::
    "('p, 'io) machine \<Rightarrow> ('io \<Rightarrow> string) \<Rightarrow> (string \<Rightarrow> string option) \<Rightarrow> legacy_prune_set list \<Rightarrow>
     parsed_pruned_package list \<Rightarrow> project_spec \<Rightarrow> 'p sdk_inventory \<Rightarrow> pruning_framework \<Rightarrow>
     package_error + parsed_pruned_package list \<times> bool" where
  "extend_modern_pruning m io_text utf8_error sets packages project inventory framework =
     (let target = ps_target_framework project;
          selected = inv_selected inventory;
          name = pruning_framework_name framework;
          sdk_data_root = path_join m (inv_installation_path m (inv_roots inventory) selected) ''PrunePackageData'';
          pack_root = path_join m (path_join m (inv_root (inv_roots inventory) selected) ''packs'') (name @ ''.Ref'');
          sdk_data = path_join m (path_join m (path_join m sdk_data_root (framework_version target)) name)
            ''PackageOverrides.txt''
      in if framework = Core \<and> is_file m sdk_data then
           rbind (parse_package_pruning m io_text utf8_error sdk_data) (\<lambda>parsed.
           rbind (extend_parsed_pruning packages parsed) (\<lambda>ps. Inr (ps, True)))
         else rbind (select_pruning_pack_data m io_text pack_root (tfm_major target) (tfm_minor target)) (\<lambda>pack_data.
           case pack_data of
             Some path \<Rightarrow>
               rbind (parse_package_pruning m io_text utf8_error path) (\<lambda>parsed.
               rbind (extend_parsed_pruning packages parsed) (\<lambda>ps. Inr (ps, True)))
           | None \<Rightarrow>
               (case (if framework = WindowsDesktop
                      then nearest_legacy_pruning sets (tfm_family target) (tfm_major target) (tfm_minor target) framework
                      else None) of
                  Some rows \<Rightarrow> rbind (extend_legacy_packages packages rows True) (\<lambda>ps. Inr (ps, True))
                | None \<Rightarrow> Inr (packages, False))))"

text \<open>One framework of the batch: missing data is an error unless the project allows it.\<close>

definition extend_found ::
    "project_spec \<Rightarrow> (parsed_pruned_package list \<Rightarrow> pruning_framework \<Rightarrow> package_error + parsed_pruned_package list \<times> bool) \<Rightarrow>
     parsed_pruned_package list \<Rightarrow> pruning_framework \<Rightarrow> package_error + parsed_pruned_package list" where
  "extend_found project add packages kind =
     rbind (add packages kind) (\<lambda>(packages, found).
       if \<not> found \<and> \<not> ps_allow_missing_prune_package_data project
       then Inl (missing_pruning_data project kind) else Inr packages)"

definition discover_package_pruning ::
    "('p, 'io) machine \<Rightarrow> ('io \<Rightarrow> string) \<Rightarrow> (string \<Rightarrow> string option) \<Rightarrow> (string \<Rightarrow> string) \<Rightarrow>
     legacy_prune_set list \<Rightarrow> (project_spec \<Rightarrow> 'p sdk_inventory \<Rightarrow> (string \<times> string) + string list) \<Rightarrow>
     (string \<Rightarrow> string + 'p sdk_inventory) \<Rightarrow> project_spec \<Rightarrow> 'p sdk_inventory option \<Rightarrow>
     prune_failure + package_pruning" where
  "discover_package_pruning m io_text utf8_error fingerprint sets manifest_names discover project inventory =
     (let target = ps_target_framework project; family = tfm_family target;
          compact = (\<lambda>packages. map_error PruneError (compact_package_pruning fingerprint packages));
          references = ps_framework_references project
      in if \<not> ps_restore_package_pruning project then Inr no_pruning
      else if family = NetFramework then
        (if ps_allow_missing_prune_package_data project then compact []
         else Inl (PruneError (missing_pruning_data project DefaultFramework)))
      else if family = NetStandard \<and> references = [] then
        rbind (map_error PruneError (extend_found project
            (\<lambda>ps kind. extend_legacy_pruning sets ps project kind False) [] DefaultFramework)) compact
      else if \<not> (family = Net \<and> 10 \<le> tfm_major target \<or> references \<noteq> []) then
        (if family \<noteq> NetStandard then
           rbind (map_error PruneError (extend_found project
              (\<lambda>ps kind. extend_legacy_pruning sets ps project kind True) [] Core)) compact
         else compact [])
      else rbind (case inventory of
            Some i \<Rightarrow> Inr i
          | None \<Rightarrow> map_error (\<lambda>e. PruneError (package_error_new Configuration (project_directory project)
              (Format ''failed to select the SDK needed for package pruning: {error}'' [e])))
              (discover (project_directory project))) (\<lambda>inventory.
        rbind (pruning_framework_batch manifest_names project (Some inventory)) (\<lambda>frameworks.
        rbind (map_error PruneError (try_fold (extend_found project
              (if family \<noteq> Net \<or> tfm_major target < 10
               then (\<lambda>ps kind. extend_legacy_pruning sets ps project kind (family \<noteq> NetStandard))
               else (\<lambda>ps kind. extend_modern_pruning m io_text utf8_error sets ps project inventory kind)))
            [] frameworks)) compact)))"


section \<open>The table means what was collected\<close>

definition covered_by :: "parsed_pruned_package \<Rightarrow> parsed_pruned_package \<Rightarrow> bool" where
  "covered_by q r \<longleftrightarrow> ppp_lower_id r = ppp_lower_id q \<and> pv_cmp (ppp_upper q) (ppp_upper r) \<noteq> Greater"

definition same_row :: "parsed_pruned_package \<Rightarrow> parsed_pruned_package \<Rightarrow> bool" where
  "same_row x y \<longleftrightarrow> ppp_lower_id x = ppp_lower_id y \<and> ppp_upper x = ppp_upper y"

text \<open>Rows that stand for a set of records: one per identity, each from a record, every record covered.\<close>

definition merged_of :: "parsed_pruned_package set \<Rightarrow> parsed_pruned_package list \<Rightarrow> bool" where
  "merged_of S rows \<longleftrightarrow> sorted_wrt (<) (map ppp_lower_id rows)
     \<and> (\<forall>x \<in> set rows. \<exists>y \<in> S. same_row x y) \<and> (\<forall>y \<in> S. \<exists>x \<in> set rows. covered_by y x)"

lemma covered_refl [simp]: "covered_by q q"
  by (simp add: covered_by_def pv_ord.cmp_refl)

lemma covered_trans: "covered_by q r \<Longrightarrow> covered_by r s \<Longrightarrow> covered_by q s"
  using pv_ord.cmp_trans [of "ppp_upper q" "ppp_upper r" "ppp_upper s"] by (simp add: covered_by_def)

lemma same_refl [simp]: "same_row x x"
  by (simp add: same_row_def)

lemma same_trans: "same_row x y \<Longrightarrow> same_row y z \<Longrightarrow> same_row x z"
  by (simp add: same_row_def)

lemma merged_of_mono:
  assumes "merged_of S rows" and "merged_of (set rows \<union> T) rows'"
  shows "merged_of (S \<union> T) rows'"
  unfolding merged_of_def
proof (intro conjI ballI)
  show "sorted_wrt (<) (map ppp_lower_id rows')" using assms(2) by (simp add: merged_of_def)
  fix x assume "x \<in> set rows'"
  then obtain y where y: "y \<in> set rows \<union> T" "same_row x y" using assms(2) unfolding merged_of_def by blast
  then show "\<exists>y \<in> S \<union> T. same_row x y"
    using assms(1) same_trans unfolding merged_of_def by blast
next
  fix y assume "y \<in> S \<union> T"
  then obtain z where z: "z \<in> set rows \<union> T" "covered_by y z" using assms(1) covered_refl unfolding merged_of_def by blast
  then obtain x where "x \<in> set rows'" "covered_by z x" using assms(2) unfolding merged_of_def by blast
  then show "\<exists>x \<in> set rows'. covered_by y x" using covered_trans [OF z(2)] by blast
qed

lemma merged_of_covering:
  assumes "sorted_wrt (<) (map ppp_lower_id rows)" and "set rows \<subseteq> S" and "S \<subseteq> insert q (set rows)"
    and "\<exists>x \<in> set rows. covered_by q x"
  shows "merged_of S rows"
  unfolding merged_of_def
proof (intro conjI ballI assms(1))
  fix x assume "x \<in> set rows"
  then show "\<exists>y \<in> S. same_row x y" using assms(2) same_refl [of x] by (meson subsetD)
next
  fix y assume "y \<in> S"
  then consider "y = q" | "y \<in> set rows" using assms(3) by auto
  then show "\<exists>x \<in> set rows. covered_by y x"
  proof cases
    case 1
    then show ?thesis using assms(4) by simp
  next
    case 2
    then show ?thesis using covered_refl [of y] by (rule bexI [rotated])
  qed
qed

lemma merge_pruned_step:
  assumes "sorted_wrt (<) (map ppp_lower_id acc)" and le: "\<forall>a \<in> set acc. ppp_lower_id a \<le> ppp_lower_id q"
  shows "merged_of (insert q (set acc)) (merge_pruned acc q) \<and> (\<forall>a \<in> set (merge_pruned acc q). ppp_lower_id a \<le> ppp_lower_id q)"
proof (cases acc rule: rev_cases)
  case Nil
  then show ?thesis by (simp add: merge_pruned_def merged_of_def)
next
  case (snoc front r)
  have front: "sorted_wrt (<) (map ppp_lower_id front)" "\<forall>a \<in> set front. ppp_lower_id a < ppp_lower_id r"
    using assms(1) by (auto simp: snoc sorted_wrt_append)
  show ?thesis
  proof (cases "ppp_lower_id r = ppp_lower_id q")
    case False
    then have "ppp_lower_id r < ppp_lower_id q" using le by (simp add: snoc order.strict_iff_order)
    then have "\<forall>a \<in> set acc. ppp_lower_id a < ppp_lower_id q" using front(2) by (auto simp: snoc)
    then have s: "sorted_wrt (<) (map ppp_lower_id (acc @ [q]))" using assms(1) by (simp add: sorted_wrt_append)
    have m: "merge_pruned acc q = acc @ [q]" using False by (simp add: merge_pruned_def snoc)
    have "merged_of (insert q (set acc)) (acc @ [q])" by (rule merged_of_covering [OF s, of _ q]) auto
    then show ?thesis using le by (simp add: m)
  next
    case r: True
    show ?thesis
    proof (cases "pv_cmp (ppp_upper q) (ppp_upper r) = Greater")
      case True
      let ?r = "r\<lparr>ppp_upper := ppp_upper q\<rparr>"
      have m: "merge_pruned acc q = front @ [?r]" using r True by (simp add: merge_pruned_def snoc)
      have c: "covered_by r ?r" "covered_by q ?r" "same_row ?r q"
        using True r pv_ord.cmp_flip [of "ppp_upper r" "ppp_upper q"] by (simp_all add: covered_by_def same_row_def pv_ord.cmp_refl)
      have "sorted_wrt (<) (map ppp_lower_id (front @ [?r]))" using front by (simp add: sorted_wrt_append)
      moreover have "\<forall>x \<in> set (front @ [?r]). \<exists>y \<in> insert q (set acc). same_row x y" using c(3) same_refl by (fastforce simp: snoc)
      moreover have "\<forall>y \<in> insert q (set acc). \<exists>x \<in> set (front @ [?r]). covered_by y x" using c(1,2) covered_refl by (fastforce simp: snoc)
      ultimately show ?thesis using le r unfolding m merged_of_def by (auto simp: snoc)
    next
      case False
      then have "merge_pruned acc q = acc" using r by (simp add: merge_pruned_def snoc)
      moreover have "covered_by q r" using False r by (simp add: covered_by_def)
      moreover have "\<exists>x \<in> set acc. covered_by q x" using calculation(2) by (auto simp: snoc)
      moreover from this have "merged_of (insert q (set acc)) acc"
        using assms(1) by (intro merged_of_covering [of acc _ q]) auto
      ultimately show ?thesis using le by simp
    qed
  qed
qed

lemma merge_pruned_all:
  assumes "sorted_wrt (\<lambda>a b. ppp_lower_id a \<le> ppp_lower_id b) qs" and "sorted_wrt (<) (map ppp_lower_id acc)"
    and "\<forall>a \<in> set acc. \<forall>q \<in> set qs. ppp_lower_id a \<le> ppp_lower_id q"
  shows "merged_of (set acc \<union> set qs) (foldl merge_pruned acc qs)"
  using assms
proof (induction qs arbitrary: acc)
  case Nil
  show ?case
  proof (cases acc)
    case (Cons a as)
    then show ?thesis using merged_of_covering [of acc _ a] Nil(2) covered_refl [of a] by auto
  qed (simp add: merged_of_def)
next
  case (Cons q qs)
  let ?acc = "merge_pruned acc q"
  have "\<forall>a \<in> set acc. ppp_lower_id a \<le> ppp_lower_id q" using Cons.prems(3) by simp
  from merge_pruned_step [OF Cons.prems(2) this]
  have m: "merged_of (insert q (set acc)) ?acc" and le: "\<forall>a \<in> set ?acc. ppp_lower_id a \<le> ppp_lower_id q" by auto
  have "\<forall>a \<in> set ?acc. \<forall>p \<in> set qs. ppp_lower_id a \<le> ppp_lower_id p"
    using le Cons.prems(1) by (meson order_trans sorted_wrt.simps(2))
  then have "merged_of (set ?acc \<union> set qs) (foldl merge_pruned ?acc qs)"
    using Cons.IH [of ?acc] Cons.prems(1) m by (simp add: merged_of_def)
  then have "merged_of (insert q (set acc) \<union> set qs) (foldl merge_pruned ?acc qs)" by (rule merged_of_mono [OF m])
  then show ?case by simp
qed

lemma rust_ord_pruned_cmp: "rust_ord pruned_cmp"
  unfolding pruned_cmp_def [abs_def]
  by (intro rust_ord_then_with rust_ord_key rust_ord_on [of pv_cmp ppp_upper] pv_ord.rust_ord_axioms)

lemma pruned_cmp_le: "pruned_cmp a b \<noteq> Greater \<Longrightarrow> ppp_lower_id a \<le> ppp_lower_id b"
  by (auto simp: pruned_cmp_def then_with_not_greater)

lemma sorted_rows: "sorted_wrt (\<lambda>a b. ppp_lower_id a \<le> ppp_lower_id b) (sort_by pruned_cmp qs)"
  by (rule sorted_wrt_mono_rel [OF _ rust_ord.sorted_sort_by [OF rust_ord_pruned_cmp, of qs]]) (rule pruned_cmp_le)

lemma merged_rows: "merged_of (set qs) (foldl merge_pruned [] (sort_by pruned_cmp qs))"
  using merge_pruned_all [of "sort_by pruned_cmp qs" "[]"] sorted_rows [of qs] by simp

text \<open>A compact row and the record it packs.\<close>

definition packs :: "string \<Rightarrow> pruned_package \<Rightarrow> parsed_pruned_package \<Rightarrow> bool" where
  "packs text row q \<longleftrightarrow> span_ok text (pp_lower_id row) \<and> span_ok text (pp_upper_prerelease row)
     \<and> span_text text (pp_lower_id row) = ppp_lower_id q \<and> pp_upper_numbers row = pv_numbers (ppp_upper q)
     \<and> span_text text (pp_upper_prerelease row) = (case pv_prerelease (ppp_upper q) of None \<Rightarrow> [] | Some p \<Rightarrow> p)
     \<and> sp_len (pp_upper_prerelease row) = length (span_text text (pp_upper_prerelease row))"

lemma packs_kept:
  assumes "packs a row q" and push: "push_text a s = Inr (b, sp)"
  shows "packs b row q"
proof -
  note p = push [unfolded push_text_def]
  show ?thesis
    using assms(1) spans.keeps_valid [OF p, of "pp_lower_id row"] spans.keeps_valid [OF p, of "pp_upper_prerelease row"]
      spans.keeps_read [OF p, of "pp_lower_id row"] spans.keeps_read [OF p, of "pp_upper_prerelease row"]
    by (simp add: packs_def)
qed

lemma compact_row_packs:
  assumes "compact_row (tb, rows) q = Inr (tb', rows')"
  shows "\<exists>row. rows' = rows @ [row] \<and> packs tb' row q \<and> (\<forall>r p. packs tb r p \<longrightarrow> packs tb' r p)"
proof -
  let ?pre = "case pv_prerelease (ppp_upper q) of None \<Rightarrow> [] | Some p \<Rightarrow> p"
  from assms obtain t1 i p where p1: "push_text tb (ppp_lower_id q) = Inr (t1, i)"
    and p2: "push_text t1 ?pre = Inr (tb', p)"
    and rows: "rows' = rows @ [\<lparr>pp_lower_id = i, pp_upper_numbers = pv_numbers (ppp_upper q), pp_upper_prerelease = p\<rparr>]"
    by (auto simp: compact_row_def rbind_eq_Inr)
  note a = p1 [unfolded push_text_def] and b = p2 [unfolded push_text_def]
  have "packs tb' \<lparr>pp_lower_id = i, pp_upper_numbers = pv_numbers (ppp_upper q), pp_upper_prerelease = p\<rparr> q"
    using spans.push_read [OF a] spans.keeps_valid [OF b spans.push_valid [OF a]]
      spans.keeps_read [OF b spans.push_valid [OF a]]
      spans.push_valid [OF b] spans.push_read [OF b] push_span_len [OF b]
    by (simp add: packs_def)
  then show ?thesis using rows packs_kept [OF packs_kept [OF _ p1] p2] by blast
qed

lemma compact_rows_pack:
  "try_fold compact_row (tb, rows) qs = Inr (tb', rows') \<Longrightarrow> list_all2 (packs tb) rows ps \<Longrightarrow>
   list_all2 (packs tb') rows' (ps @ qs)"
proof (induction qs arbitrary: tb rows ps)
  case (Cons q qs)
  from Cons.prems(1) obtain t1 r1 where step: "compact_row (tb, rows) q = Inr (t1, r1)"
    and rest: "try_fold compact_row (t1, r1) qs = Inr (tb', rows')" by (auto simp: rbind_eq_Inr)
  from compact_row_packs [OF step] obtain row where
    row: "r1 = rows @ [row]" "packs t1 row q" "\<And>r p. packs tb r p \<Longrightarrow> packs t1 r p" by blast
  have "list_all2 (packs t1) rows ps" using Cons.prems(2) row(3) by (rule list_all2_mono)
  then have "list_all2 (packs t1) r1 (ps @ [q])" using row by (simp add: list_all2_appendI)
  from Cons.IH [OF rest this] show ?case by simp
qed simp

lemma contains_packed:
  assumes rows: "list_all2 (packs tb) rows qs" and sorted: "sorted_wrt (<) (map ppp_lower_id qs)"
    and ne: "\<forall>q \<in> set qs. pv_prerelease (ppp_upper q) \<noteq> Some []"
  shows "pruning_contains \<lparr>pru_text = tb, pru_packages = rows, pru_fingerprint = f\<rparr> name v \<longleftrightarrow>
    (\<exists>q \<in> set qs. ppp_lower_id q = name \<and> pv_cmp v (ppp_upper q) \<noteq> Greater)"
proof -
  let ?key = "\<lambda>r. span_text tb (pp_lower_id r)"
  have keys: "map ?key rows = map ppp_lower_id qs"
    using rows by (simp add: list_all2_conv_all_nth packs_def list_eq_iff_nth_eq)
  have len: "length rows = length qs" using rows by (rule list_all2_lengthD)
  have nth: "packs tb (rows ! i) (qs ! i)" if "i < length qs" for i
    using rows that by (simp add: list_all2_conv_all_nth)
  have found: "binary_search_by (\<lambda>r. rust_cmp (?key r) name) rows = Inr i \<longleftrightarrow> i < length qs \<and> ppp_lower_id (qs ! i) = name" for i
    using binary_search_key [of ?key rows name i] sorted keys nth len unfolding packs_def by (metis (no_types, lifting))
  have row_value: "then_with (rust_cmp (pv_numbers v) (pp_upper_numbers r))
      (compare_package_prerelease (pv_prerelease v)
        (if sp_len (pp_upper_prerelease r) \<noteq> 0 then Some (span_text tb (pp_upper_prerelease r)) else None))
      = pv_cmp v (ppp_upper q)" if "packs tb r q" "q \<in> set qs" for r q
    using that ne by (auto simp: packs_def pv_cmp_def split: option.splits)
  show ?thesis
  proof (cases "\<exists>i < length qs. ppp_lower_id (qs ! i) = name")
    case True
    then obtain i where i: "i < length qs" "ppp_lower_id (qs ! i) = name" by blast
    have only: "q = qs ! i" if q: "q \<in> set qs" "ppp_lower_id q = name" for q
    proof -
      obtain j where j: "j < length qs" "q = qs ! j" using q(1) by (auto simp: in_set_conv_nth)
      have "map ppp_lower_id qs ! i = map ppp_lower_id qs ! j" using i j q by simp
      moreover have "distinct (map ppp_lower_id qs)" using sorted strict_sorted_iff by blast
      ultimately have "i = j" using i(1) j(1) by (simp add: nth_eq_iff_index_eq del: nth_map)
      then show ?thesis using j by simp
    qed
    have "pruning_contains \<lparr>pru_text = tb, pru_packages = rows, pru_fingerprint = f\<rparr> name v
        \<longleftrightarrow> pv_cmp v (ppp_upper (qs ! i)) \<noteq> Greater"
      using found [of i] i row_value [OF nth [OF i(1)]] by (simp add: pruning_contains_def Let_def split: if_splits)
    then show ?thesis using only i by (metis nth_mem)
  next
    case False
    then have "\<nexists>i. binary_search_by (\<lambda>r. rust_cmp (?key r) name) rows = Inr i" using found by blast
    then obtain n where "binary_search_by (\<lambda>r. rust_cmp (?key r) name) rows = Inl n"
      by (cases "binary_search_by (\<lambda>r. rust_cmp (?key r) name) rows") auto
    then show ?thesis using False by (simp add: pruning_contains_def) (metis in_set_conv_nth)
  qed
qed

text \<open>C6: the compact pruning table answers as the collected records do. A package at some version is
  pruned exactly when one of the records names it with an upper version the version does not exceed.
\<close>

theorem compact_pruning_exact:
  assumes built: "compact_package_pruning fingerprint packages = Inr table"
    and labels: "\<forall>q \<in> set packages. pv_prerelease (ppp_upper q) \<noteq> Some []"
  shows "pruning_contains table name version \<longleftrightarrow>
    (\<exists>q \<in> set packages. ppp_lower_id q = name \<and> pv_cmp version (ppp_upper q) \<noteq> Greater)"
proof -
  let ?rows = "foldl merge_pruned [] (sort_by pruned_cmp packages)"
  from built obtain tb rows where
    fold: "try_fold compact_row ([], []) ?rows = Inr (tb, rows)"
    and table: "table = \<lparr>pru_text = tb, pru_packages = rows, pru_fingerprint = fingerprint (concat (map hashed_row ?rows))\<rparr>"
    by (auto simp: compact_package_pruning_def Let_def rbind_eq_Inr)
  have merged: "sorted_wrt (<) (map ppp_lower_id ?rows)" "\<forall>x \<in> set ?rows. \<exists>y \<in> set packages. same_row x y"
    "\<forall>y \<in> set packages. \<exists>x \<in> set ?rows. covered_by y x"
    using merged_rows [of packages] unfolding merged_of_def by blast+
  have "\<forall>q \<in> set ?rows. pv_prerelease (ppp_upper q) \<noteq> Some []"
    using merged(2) labels unfolding same_row_def by metis
  from contains_packed [OF _ merged(1) this] compact_rows_pack [OF fold, of "[]"]
  have "pruning_contains table name version \<longleftrightarrow>
      (\<exists>q \<in> set ?rows. ppp_lower_id q = name \<and> pv_cmp version (ppp_upper q) \<noteq> Greater)"
    by (simp add: table)
  also have "\<dots> \<longleftrightarrow> (\<exists>q \<in> set packages. ppp_lower_id q = name \<and> pv_cmp version (ppp_upper q) \<noteq> Greater)"
    using merged(2,3) pv_ord.cmp_trans unfolding same_row_def covered_by_def by metis
  finally show ?thesis .
qed

definition example_rows :: "parsed_pruned_package list" where
  "example_rows = map (\<lambda>n. \<lparr>ppp_lower_id = ''a'',
     ppp_upper = \<lparr>pv_normalized = [], pv_numbers = [n, 0, 0, 0], pv_prerelease_start = None\<rparr>\<rparr>) [1, 3]"

lemma compact_example:
  "compact_package_pruning (\<lambda>s. s) example_rows = Inr
     \<lparr>pru_text = ''a'', pru_packages = [\<lparr>pp_lower_id = \<lparr>sp_start = 0, sp_len = 1\<rparr>,
        pp_upper_numbers = [3, 0, 0, 0], pp_upper_prerelease = \<lparr>sp_start = 1, sp_len = 0\<rparr>\<rparr>],
      pru_fingerprint = [CHR ''a'', CHR 0x00, CHR 0x0A]\<rparr>"
  by (simp add: compact_package_pruning_def example_rows_def sort_by_def pruned_cmp_def pv_cmp_def rust_cmp_def
      merge_pruned_def compact_row_def push_text_def push_span_def pv_prerelease_def hashed_row_def
      compare_package_prerelease_def Let_def)

theorem compact_pruning_exact_witness:
  "pruning_contains \<lparr>pru_text = ''a'', pru_packages = [\<lparr>pp_lower_id = \<lparr>sp_start = 0, sp_len = 1\<rparr>,
        pp_upper_numbers = [3, 0, 0, 0], pp_upper_prerelease = \<lparr>sp_start = 1, sp_len = 0\<rparr>\<rparr>],
      pru_fingerprint = [CHR ''a'', CHR 0x00, CHR 0x0A]\<rparr> ''a''
     \<lparr>pv_normalized = [], pv_numbers = [2, 0, 0, 0], pv_prerelease_start = None\<rparr>"
  by (subst compact_pruning_exact [OF compact_example])
    (simp_all add: example_rows_def pv_cmp_def pv_prerelease_def rust_cmp_def)

section \<open>The fixed batch\<close>

lemma pruning_kind_named: "pruning_framework_kind name \<noteq> Some DefaultFramework"
  by (simp add: pruning_framework_kind_def)

definition named_batch :: "pruning_batch \<Rightarrow> bool" where
  "named_batch batch \<longleftrightarrow> distinct batch \<and> DefaultFramework \<notin> set batch"

text \<open>Only three frameworks have names, so a batch of named frameworks always has room.\<close>

lemma named_batch_room:
  assumes "named_batch batch" and "framework \<notin> set batch" and "framework \<noteq> DefaultFramework"
  shows "length batch < MAX_PRUNE_FRAMEWORKS"
proof -
  have "- {DefaultFramework} \<subseteq> {Core, AspNetCore, WindowsDesktop}" using pruning_framework.exhaust by blast
  moreover have "set (framework # batch) \<subseteq> - {DefaultFramework}" using assms by (auto simp: named_batch_def)
  ultimately have "set (framework # batch) \<subseteq> {Core, AspNetCore, WindowsDesktop}" by (rule subset_trans [rotated])
  then have "card (set (framework # batch)) \<le> card {Core, AspNetCore, WindowsDesktop}" by (intro card_mono) simp_all
  moreover have "card (set (framework # batch)) = Suc (length batch)"
    using assms(1,2) distinct_card [of batch] by (simp add: named_batch_def)
  ultimately show ?thesis by (simp add: MAX_PRUNE_FRAMEWORKS_def)
qed

lemma named_batch_fits:
  assumes "named_batch batch"
  shows "distinct batch \<and> length batch \<le> MAX_PRUNE_FRAMEWORKS"
proof (cases batch)
  case Nil
  then show ?thesis by simp
next
  case (Cons f fs)
  then have "length fs < MAX_PRUNE_FRAMEWORKS" using assms by (intro named_batch_room [of fs f]) (auto simp: named_batch_def)
  then show ?thesis using assms by (simp add: Cons named_batch_def)
qed

lemma push_named:
  "named_batch batch \<Longrightarrow> framework \<noteq> DefaultFramework \<Longrightarrow>
   outcome (\<lambda>e. e \<noteq> PrunePanic) named_batch (push_framework batch framework)"
  using named_batch_room [of batch framework]
  by (cases "framework \<in> set batch") (simp_all add: push_framework_def named_batch_def not_le)

lemma push_reference_named:
  "named_batch (fst st) \<Longrightarrow> outcome (\<lambda>e. e \<noteq> PrunePanic) (\<lambda>st. named_batch (fst st)) (push_reference st name)"
  using pruning_kind_named [of name] push_named [of "fst st"]
  by (auto simp: push_reference_def split: option.split intro!: outcome_rbind)

lemma push_runtime_named:
  "named_batch batch \<Longrightarrow> outcome (\<lambda>e. e \<noteq> PrunePanic) named_batch (push_runtime_name batch name)"
  using pruning_kind_named [of name] push_named [of batch]
  by (auto simp: push_runtime_name_def split: option.split)

lemma framework_batch_named:
  assumes "tfm_family (ps_target_framework project) \<noteq> NetStandard"
  shows "outcome (\<lambda>e. e \<noteq> PrunePanic) (\<lambda>batch. distinct batch \<and> length batch \<le> MAX_PRUNE_FRAMEWORKS)
    (pruning_framework_batch manifest_names project inventory)"
proof -
  let ?E = "\<lambda>e. e \<noteq> PrunePanic"
  have fits: "outcome ?E (\<lambda>b. distinct b \<and> length b \<le> MAX_PRUNE_FRAMEWORKS) r" if "outcome ?E named_batch r" for r
    using that by (rule outcome_weaken) (rule named_batch_fits)
  show ?thesis
  proof (cases "tfm_family (ps_target_framework project) = NetFramework")
    case True
    then show ?thesis by (simp add: pruning_framework_batch_def)
  next
    case False
    have start: "push_framework [] Core = Inr [Core]" by (simp add: push_framework_def MAX_PRUNE_FRAMEWORKS_def)
    let ?names = "map (framework_reference_id project) (ps_framework_references project)"
    let ?refs = "try_fold push_reference ([Core], False) ?names"
    have refs: "outcome ?E (\<lambda>st. named_batch (fst st)) ?refs"
      by (rule outcome_try_fold [of "\<lambda>_ st. named_batch (fst st)"])
        (simp add: named_batch_def, rule push_reference_named)
    have names: "outcome ?E named_batch (try_fold push_runtime_name b names)" if "named_batch b" for b names
      by (rule outcome_try_fold [of "\<lambda>_. named_batch"]) (rule that, rule push_runtime_named)
    have "pruning_framework_batch manifest_names project inventory =
        rbind ?refs (\<lambda>(batch, needs_manifest). finish_batch manifest_names project inventory batch needs_manifest)"
      using assms False
      by (cases "tfm_family (ps_target_framework project)") (simp_all add: pruning_framework_batch_def start)
    moreover have "outcome ?E named_batch (finish_batch manifest_names project inventory (fst st) (snd st))"
      if "named_batch (fst st)" for st
      using that names
      by (auto simp: finish_batch_def ok_or_def map_error_def split: option.split sum.split)
    ultimately show ?thesis using refs by (intro fits) (auto intro!: outcome_rbind)
  qed
qed

definition three_references :: "project_spec \<Rightarrow> bool" where
  "three_references project \<longleftrightarrow> map (framework_reference_id project) (ps_framework_references project)
     = map pruning_framework_name [AspNetCore, Core, WindowsDesktop]"

text \<open>
  On .NET Standard the batch starts with the default framework, and the three named ones after it
  write past the array of three.
\<close>

lemma framework_batch_panics:
  assumes "tfm_family (ps_target_framework project) = NetStandard" and "three_references project"
  shows "pruning_framework_batch manifest_names project inventory = Inl PrunePanic"
  using assms
  by (simp add: pruning_framework_batch_def three_references_def push_reference_def push_framework_def
      pruning_framework_kind_def MAX_PRUNE_FRAMEWORKS_def str_eval)


definition project_with :: "string \<Rightarrow> framework_reference list \<Rightarrow> target_framework \<Rightarrow> project_spec" where
  "project_with table references target =
     \<lparr>ps_text = table, ps_project_path = NO_TEXT, ps_project_directory = NO_TEXT, ps_target_framework_text = NO_TEXT,
      ps_assembly_name = NO_TEXT, ps_root_namespace = NO_TEXT, ps_runtime_dimensions = [], ps_sources = [],
      ps_project_references = [], ps_package_references = [], ps_central_package_versions = [],
      ps_central_package_fingerprint = NO_TEXT, ps_framework_references = references,
      ps_runtime_framework_version = NO_TEXT, ps_runtime_identifier_index = NO_RUNTIME_IDENTIFIER,
      ps_runtime_identifiers_len = 0, ps_configuration = Debug, ps_output_type = Exe, ps_nullable = False,
      ps_implicit_usings = False, ps_deterministic = True, ps_self_contained = False, ps_nuget_audit_enabled = True,
      ps_restore_package_pruning = True, ps_allow_missing_prune_package_data = False,
      ps_central_package_management = False, ps_central_transitive_pinning = False, ps_nuget_audit_mode = AuditAll,
      ps_nuget_audit_level = AuditLow, ps_target_latest_runtime_patch = None, ps_roll_forward = RollMinor,
      ps_target_framework = target\<rparr>"

text \<open>C36: outside .NET Standard the framework batch never outgrows its fixed array: building it either
  gives distinct named frameworks or a reported error. On .NET Standard, whose batch starts with the
  default framework, a project with all three framework references panics.\<close>

theorem framework_batch_fits:
  "(tfm_family (ps_target_framework project) \<noteq> NetStandard \<longrightarrow>
     outcome (\<lambda>e. e \<noteq> PrunePanic) (\<lambda>batch. distinct batch \<and> length batch \<le> MAX_PRUNE_FRAMEWORKS)
       (pruning_framework_batch manifest_names project inventory))
   \<and> (tfm_family (ps_target_framework project) = NetStandard \<longrightarrow> three_references project \<longrightarrow>
     pruning_framework_batch manifest_names project inventory = Inl PrunePanic)"
  using framework_batch_named framework_batch_panics by blast

definition three_names :: "framework_reference list" where
  "three_names = map (\<lambda>(a, n). \<lparr>fr_id = \<lparr>sp_start = a, sp_len = n\<rparr>, fr_runtime_version = NO_TEXT,
     fr_targeting_pack_version = NO_TEXT, fr_target_latest_runtime_patch = None\<rparr>) [(0, 24), (24, 21), (45, 28)]"

definition three_texts :: string where
  "three_texts = ''Microsoft.AspNetCore.AppMicrosoft.NETCore.AppMicrosoft.WindowsDesktop.App''"

theorem framework_batch_fits_witness:
  "outcome (\<lambda>e. e \<noteq> PrunePanic) (\<lambda>batch. distinct batch \<and> length batch \<le> MAX_PRUNE_FRAMEWORKS)
    (pruning_framework_batch (\<lambda>_ _. Inr [])
      (project_with [] [] \<lparr>tfm_family = Net, tfm_major = 8, tfm_minor = 0\<rparr>) (None :: nat sdk_inventory option))
   \<and> pruning_framework_batch (\<lambda>_ _. Inr [])
      (project_with three_texts three_names \<lparr>tfm_family = NetStandard, tfm_major = 2, tfm_minor = 0\<rparr>)
      (None :: nat sdk_inventory option) = Inl PrunePanic"
  using framework_batch_fits [of "project_with [] [] \<lparr>tfm_family = Net, tfm_major = 8, tfm_minor = 0\<rparr>"
      "\<lambda>_ _. Inr []" "None :: nat sdk_inventory option"]
    framework_batch_fits [of "project_with three_texts three_names \<lparr>tfm_family = NetStandard, tfm_major = 2, tfm_minor = 0\<rparr>"
      "\<lambda>_ _. Inr []" "None :: nat sdk_inventory option"]
  by (simp add: project_with_def three_references_def three_names_def three_texts_def framework_reference_id_def
      ps_span_def span_text_def)

end
