(* ===== verification/Constraint_Selection.thy ===== *)
theory Constraint_Selection
  imports Version_Range Rust_Map Project_Spec
begin

text \<open>
  \<open>crates/dv-core/src/package.rs\<close>: one node of the package graph and the choice of its version
  from its direct range, its central pin, or the ranges of its parents. A panic of the float tests is
  \<open>ResolvePanic\<close>; ranges the parser accepts never reach it.
\<close>

section \<open>Nodes\<close>

record package_request =
  rq_id :: string
  rq_lower_id :: string
  rq_version :: string
  rq_direct :: bool
  rq_central_transitive :: bool

record package_requirement =
  rr_id :: string
  rr_lower_id :: string
  rr_range :: version_range
  rr_direct :: bool
  rr_include_assets :: asset_flags
  rr_suppress_parent :: asset_flags

record central_package_pin =
  pin_lower_id :: string
  pin_version :: package_version

record constraint_node =
  cn_id :: string
  cn_direct :: "version_range option"
  cn_central_pin :: "package_version option"
  cn_constraints :: "(string, version_range) btree"
  cn_selected :: "package_version option"
  cn_metadata_version :: "package_version option"
  cn_dependencies :: "package_requirement list"
  cn_available_versions :: "package_version list option"
  cn_pruned :: bool
  cn_generation :: nat

datatype node_selection = SelectVersion package_version | Enumerate

datatype resolve_failure = ResolveError package_error | ResolvePanic

definition resolution_error :: "string \<Rightarrow> string \<Rightarrow> package_error" where
  "resolution_error context text = package_error_new Resolution context (Format text [])"

definition version_not_found_error :: "string \<Rightarrow> string \<Rightarrow> package_version list option \<Rightarrow> package_error" where
  "version_not_found_error ident requested available =
     (let e = with_context ''required_range'' requested (with_context ''package_id'' ident
            (package_error_new VersionNotFound ident
              (Format ''package {id} has no available version satisfying {requested}'' [ident, requested])))
      in case available of
           None \<Rightarrow> e
         | Some versions \<Rightarrow>
             (let e = with_context ''available_versions'' (show_nat (length versions)) e
              in if versions = [] then e
                 else with_context ''nearest_version'' (pv_normalized (last versions)) e))"

section \<open>The ranges a selection looks at\<close>

datatype constraint_view = AllConstraints "(string, version_range) btree" | ActiveConstraints "version_range list"

fun view_ranges :: "constraint_view \<Rightarrow> version_range list" where
  "view_ranges (AllConstraints constraints) = bt_values constraints"
| "view_ranges (ActiveConstraints constraints) = constraints"

definition view_any :: "constraint_view \<Rightarrow> (version_range \<Rightarrow> bool) \<Rightarrow> bool" where
  "view_any view P = list_ex P (view_ranges view)"

definition view_all :: "constraint_view \<Rightarrow> (version_range \<Rightarrow> bool) \<Rightarrow> bool" where
  "view_all view P = list_all P (view_ranges view)"

definition view_first :: "constraint_view \<Rightarrow> (version_range \<Rightarrow> bool) \<Rightarrow> version_range option" where
  "view_first view P = List.find P (view_ranges view)"

definition consider_lower :: "package_version option \<Rightarrow> version_range \<Rightarrow> package_version option" where
  "consider_lower candidate rng =
     (case vr_lower rng of
        None \<Rightarrow> candidate
      | Some lower \<Rightarrow>
          if vb_inclusive lower
            \<and> (case candidate of None \<Rightarrow> True | Some c \<Rightarrow> pv_cmp (vb_version lower) c = Greater)
          then Some (vb_version lower) else candidate)"

definition highest_inclusive_lower :: "constraint_view \<Rightarrow> package_version option" where
  "highest_inclusive_lower view = foldl consider_lower None (view_ranges view)"

text \<open>The tightest bounds: on equal versions the exclusive bound is the tighter one.\<close>

definition tighter_lower :: "version_bound option \<Rightarrow> version_range \<Rightarrow> version_bound option" where
  "tighter_lower current rng =
     (case vr_lower rng of
        None \<Rightarrow> current
      | Some candidate \<Rightarrow>
          if (case current of None \<Rightarrow> True
              | Some c \<Rightarrow> pv_cmp (vb_version candidate) (vb_version c) = Greater
                  \<or> pv_eq (vb_version candidate) (vb_version c) \<and> \<not> vb_inclusive candidate \<and> vb_inclusive c)
          then Some candidate else current)"

definition tighter_upper :: "version_bound option \<Rightarrow> version_range \<Rightarrow> version_bound option" where
  "tighter_upper current rng =
     (case vr_upper rng of
        None \<Rightarrow> current
      | Some candidate \<Rightarrow>
          if (case current of None \<Rightarrow> True
              | Some c \<Rightarrow> pv_lt (vb_version candidate) (vb_version c)
                  \<or> pv_eq (vb_version candidate) (vb_version c) \<and> \<not> vb_inclusive candidate \<and> vb_inclusive c)
          then Some candidate else current)"

definition has_empty_intersection :: "constraint_view \<Rightarrow> bool" where
  "has_empty_intersection view =
     (case (foldl tighter_lower None (view_ranges view), foldl tighter_upper None (view_ranges view)) of
        (Some lower, Some upper) \<Rightarrow> disjoint_bounds lower upper
      | _ \<Rightarrow> False)"

definition diagnostic_ranges :: "constraint_view \<Rightarrow> string" where
  "diagnostic_ranges view =
     foldl (\<lambda>text rng. (if text \<noteq> [] then text @ ''; '' else text) @ diagnostic_text rng) [] (view_ranges view)"

section \<open>Choosing a version\<close>

definition pin_conflict :: "constraint_node \<Rightarrow> package_version \<Rightarrow> version_range \<Rightarrow> package_error" where
  "pin_conflict node pin required =
     with_cause ''CentralPackageTransitivePinning forced the selected version''
       (with_context ''required_range'' (diagnostic_text required)
       (with_context ''selected_version'' (pv_normalized pin)
       (with_context ''package_id'' (cn_id node)
         (package_error_new Downgrade (cn_id node)
           (Format ''central package pin selects {} {}, which does not satisfy {}''
             [cn_id node, pv_normalized pin, diagnostic_text required])))))"

text \<open>A transitive package with a central pin.\<close>

definition select_pinned :: "constraint_node \<Rightarrow> package_version \<Rightarrow> resolve_failure + node_selection" where
  "select_pinned node pin =
     (case List.find (\<lambda>rng. \<not> range_contains rng pin) (bt_values (cn_constraints node)) of
        Some required \<Rightarrow> Inl (ResolveError (pin_conflict node pin required))
      | None \<Rightarrow>
          if (case cn_available_versions node of None \<Rightarrow> False
              | Some versions \<Rightarrow> \<not> is_ok (binary_search_by (\<lambda>v. pv_cmp v pin) versions))
          then Inl (ResolveError (version_not_found_error (cn_id node) (''['' @ pv_normalized pin @ '']'')
                 (cn_available_versions node)))
          else Inr (SelectVersion pin))"

definition node_accepts :: "constraint_node \<Rightarrow> constraint_view \<Rightarrow> package_version \<Rightarrow> bool" where
  "node_accepts node view version \<longleftrightarrow>
     (pv_prerelease version = None
       \<or> (case cn_direct node of None \<Rightarrow> view_any view allows_prerelease | Some d \<Rightarrow> allows_prerelease d))
   \<and> (case cn_direct node of None \<Rightarrow> view_all view (\<lambda>rng. range_contains rng version)
      | Some d \<Rightarrow> range_contains d version)"

text \<open>The floating range whose wildcard ranks the candidates, the direct one first.\<close>

definition float_preference :: "constraint_node \<Rightarrow> constraint_view \<Rightarrow> version_range option" where
  "float_preference node view =
     (case (case cn_direct node of None \<Rightarrow> None | Some d \<Rightarrow> if is_floating d then Some d else None) of
        Some d \<Rightarrow> Some d
      | None \<Rightarrow> view_first view is_floating)"

text \<open>The best candidate seen so far; the outer option is the panic of the float test.\<close>

fun best_candidate :: "version_range \<Rightarrow> package_version option \<Rightarrow> package_version list \<Rightarrow> package_version option option" where
  "best_candidate r selected [] = Some selected"
| "best_candidate r None (v # vs) = best_candidate r (Some v) vs"
| "best_candidate r (Some current) (v # vs) =
     (case is_better r current v of
        None \<Rightarrow> None
      | Some better \<Rightarrow> best_candidate r (Some (if better then v else current)) vs)"

definition select_available :: "constraint_node \<Rightarrow> constraint_view \<Rightarrow> package_version list \<Rightarrow> resolve_failure + node_selection" where
  "select_available node view versions =
     (let accepted = filter (node_accepts node view) versions;
          missing = ResolveError (version_not_found_error (cn_id node)
            (case cn_direct node of Some d \<Rightarrow> diagnostic_text d | None \<Rightarrow> diagnostic_ranges view)
            (cn_available_versions node))
      in case float_preference node view of
           None \<Rightarrow> (case accepted of [] \<Rightarrow> Inl missing | v # _ \<Rightarrow> Inr (SelectVersion v))
         | Some r \<Rightarrow>
             (case best_candidate r None accepted of
                None \<Rightarrow> Inl ResolvePanic
              | Some None \<Rightarrow> Inl missing
              | Some (Some v) \<Rightarrow> Inr (SelectVersion v)))"

definition select_node_version :: "constraint_node \<Rightarrow> constraint_view \<Rightarrow> resolve_failure + node_selection" where
  "select_node_version node view =
     (case (cn_direct node, cn_central_pin node) of
        (None, Some pin) \<Rightarrow> select_pinned node pin
      | _ \<Rightarrow>
        if cn_direct node = None \<and> has_empty_intersection view then
          Inl (ResolveError (with_context ''required_ranges'' (diagnostic_ranges view)
            (with_context ''package_id'' (cn_id node)
              (package_error_new ConstraintConflict (cn_id node)
                (Format ''dependency constraints for {} have no common version'' [cn_id node])))))
        else (case cn_available_versions node of
            Some versions \<Rightarrow> select_available node view versions
          | None \<Rightarrow>
              if (case cn_direct node of None \<Rightarrow> False | Some d \<Rightarrow> is_floating d) \<or> view_any view is_floating
              then Inr Enumerate
              else (case (case cn_direct node of Some d \<Rightarrow> consider_lower None d | None \<Rightarrow> highest_inclusive_lower view) of
                  None \<Rightarrow> Inr Enumerate
                | Some candidate \<Rightarrow>
                    if node_accepts node view candidate then Inr (SelectVersion candidate) else Inr Enumerate)))"

section \<open>Keeping the best of a fold\<close>

definition keep_best :: "('b \<Rightarrow> 'b \<Rightarrow> ordering) \<Rightarrow> ('a \<Rightarrow> 'b option) \<Rightarrow> 'b option \<Rightarrow> 'a \<Rightarrow> 'b option" where
  "keep_best cmp f best x =
     (case f x of
        None \<Rightarrow> best
      | Some c \<Rightarrow> if (case best of None \<Rightarrow> True | Some b \<Rightarrow> cmp c b = Greater) then Some c else best)"

definition best_of :: "('b \<Rightarrow> 'b \<Rightarrow> ordering) \<Rightarrow> ('a \<Rightarrow> 'b option) \<Rightarrow> 'a list \<Rightarrow> 'b option \<Rightarrow> 'b option \<Rightarrow> bool" where
  "best_of cmp f xs start best \<longleftrightarrow>
     (case best of
        None \<Rightarrow> start = None \<and> (\<forall>x \<in> set xs. f x = None)
      | Some m \<Rightarrow> (start = Some m \<or> (\<exists>x \<in> set xs. f x = Some m)) \<and> (\<forall>a. start = Some a \<longrightarrow> cmp a m \<noteq> Greater)
          \<and> (\<forall>x \<in> set xs. \<forall>c. f x = Some c \<longrightarrow> cmp c m \<noteq> Greater))"

context rust_ord
begin

lemma keep_best_step: "best_of cmp f [x] start (keep_best cmp f start x)"
proof (cases start)
  case None
  then show ?thesis by (auto simp: best_of_def keep_best_def cmp_refl split: option.split)
next
  case (Some a)
  have "cmp c a = Greater \<Longrightarrow> cmp a c \<noteq> Greater" for c using cmp_flip [of a c] by simp
  then show ?thesis using Some by (auto simp: best_of_def keep_best_def cmp_refl split: option.split)
qed

lemma best_of_append:
  assumes "best_of cmp f xs start mid" and "best_of cmp f ys mid best"
  shows "best_of cmp f (xs @ ys) start best"
proof (cases mid)
  case None
  then show ?thesis using assms by (cases best) (auto simp: best_of_def)
next
  case (Some m)
  then obtain b where b: "best = Some b" "cmp m b \<noteq> Greater" "\<forall>y \<in> set ys. \<forall>c. f y = Some c \<longrightarrow> cmp c b \<noteq> Greater"
      "m = b \<or> (\<exists>y \<in> set ys. f y = Some b)"
    using assms(2) by (cases best) (auto simp: best_of_def)
  have m: "start = Some m \<or> (\<exists>x \<in> set xs. f x = Some m)" "\<forall>a. start = Some a \<longrightarrow> cmp a m \<noteq> Greater"
      "\<forall>x \<in> set xs. \<forall>c. f x = Some c \<longrightarrow> cmp c m \<noteq> Greater"
    using assms(1) Some by (auto simp: best_of_def)
  have "\<forall>a. start = Some a \<longrightarrow> cmp a b \<noteq> Greater" "\<forall>x \<in> set xs. \<forall>c. f x = Some c \<longrightarrow> cmp c b \<noteq> Greater"
    using m(2,3) cmp_trans [OF _ b(2)] by blast+
  then show ?thesis using b m(1) by (auto simp: best_of_def)
qed

lemma foldl_keep_best: "best_of cmp f xs start (foldl (keep_best cmp f) start xs)"
proof (induction xs arbitrary: start)
  case Nil
  then show ?case by (simp add: best_of_def cmp_refl split: option.split)
next
  case (Cons x xs)
  from best_of_append [OF keep_best_step [of f x start] Cons.IH] show ?case by simp
qed

end

section \<open>The tightest bounds\<close>

definition lower_cmp :: "version_bound \<Rightarrow> version_bound \<Rightarrow> ordering" where
  "lower_cmp a b = then_with (pv_cmp (vb_version a) (vb_version b)) (rust_cmp (\<not> vb_inclusive a) (\<not> vb_inclusive b))"

definition upper_cmp :: "version_bound \<Rightarrow> version_bound \<Rightarrow> ordering" where
  "upper_cmp a b = then_with (pv_cmp (vb_version b) (vb_version a)) (rust_cmp (\<not> vb_inclusive a) (\<not> vb_inclusive b))"

interpretation lower_ord: rust_ord lower_cmp
  unfolding lower_cmp_def [abs_def]
  by (intro rust_ord_then_with rust_ord_key rust_ord_on [of pv_cmp vb_version] pv_ord.rust_ord_axioms)

interpretation upper_ord: rust_ord upper_cmp
  unfolding upper_cmp_def [abs_def]
  by (intro rust_ord_then_with rust_ord_key rust_ord_flip [of "\<lambda>a b. pv_cmp (vb_version a) (vb_version b)"]
      rust_ord_on [of pv_cmp vb_version] pv_ord.rust_ord_axioms)

definition inclusive_lower :: "version_range \<Rightarrow> package_version option" where
  "inclusive_lower r = (case vr_lower r of None \<Rightarrow> None | Some b \<Rightarrow> if vb_inclusive b then Some (vb_version b) else None)"

lemma tighter_lower_keep: "tighter_lower = keep_best lower_cmp vr_lower"
  by (simp add: fun_eq_iff tighter_lower_def keep_best_def lower_cmp_def then_with_iff split: option.split) blast

lemma tighter_upper_keep: "tighter_upper = keep_best upper_cmp vr_upper"
proof (intro ext)
  fix current r
  have "pv_cmp (vb_version b) (vb_version a) = Greater \<longleftrightarrow> pv_lt (vb_version a) (vb_version b)"
    "pv_eq (vb_version b) (vb_version a) \<longleftrightarrow> pv_eq (vb_version a) (vb_version b)" for a b
    using pv_ord.cmp_flip [of "vb_version b" "vb_version a"] by simp_all
  then show "tighter_upper current r = keep_best upper_cmp vr_upper current r"
    by (simp add: tighter_upper_def keep_best_def upper_cmp_def then_with_iff split: option.split) blast
qed

lemma consider_lower_keep: "consider_lower = keep_best pv_cmp inclusive_lower"
  by (simp add: fun_eq_iff consider_lower_def keep_best_def inclusive_lower_def split: option.split)

lemma lower_cmp_disjoint:
  assumes "lower_cmp a b \<noteq> Greater" and "disjoint_bounds a u"
  shows "disjoint_bounds b u"
proof -
  let ?a = "vb_version a" and ?b = "vb_version b" and ?u = "vb_version u"
  have ab: "pv_lt ?a ?b \<or> pv_eq ?a ?b \<and> (vb_inclusive b \<longrightarrow> vb_inclusive a)"
    using assms(1) by (auto simp: lower_cmp_def then_with_not_greater)
  show ?thesis
  proof (cases "pv_lt ?a ?b")
    case True
    moreover have "pv_cmp ?u ?a \<noteq> Greater" using assms(2) pv_ord.cmp_flip [of ?u ?a] by (auto simp: disjoint_bounds_def)
    ultimately have "pv_lt ?u ?b" using pv_ord.less_trans pv_ord.cmp_flip pv_ord.greater_trans
      by (metis flip_ordering_iff(1) flip_ordering_iff(3))
    then show ?thesis using pv_ord.cmp_flip [of ?b ?u] by (simp add: disjoint_bounds_def)
  next
    case False
    then have "pv_cmp ?a ?u = pv_cmp ?b ?u" using ab pv_ord.equal_cong by blast
    then show ?thesis using assms(2) ab False by (auto simp: disjoint_bounds_def)
  qed
qed

lemma upper_cmp_disjoint:
  assumes "upper_cmp a b \<noteq> Greater" and "disjoint_bounds l a"
  shows "disjoint_bounds l b"
proof -
  let ?a = "vb_version a" and ?b = "vb_version b" and ?l = "vb_version l"
  have ab: "pv_lt ?b ?a \<or> pv_eq ?b ?a \<and> (vb_inclusive b \<longrightarrow> vb_inclusive a)"
    using assms(1) by (auto simp: upper_cmp_def then_with_not_greater)
  show ?thesis
  proof (cases "pv_lt ?b ?a")
    case True
    moreover have "pv_cmp ?a ?l \<noteq> Greater" using assms(2) pv_ord.cmp_flip [of ?a ?l] by (auto simp: disjoint_bounds_def)
    ultimately have "pv_lt ?b ?l" by (rule pv_ord.less_trans)
    then show ?thesis using pv_ord.cmp_flip [of ?l ?b] by (simp add: disjoint_bounds_def)
  next
    case False
    then have "pv_cmp ?b ?l = pv_cmp ?a ?l" using ab pv_ord.equal_cong by blast
    then have "pv_cmp ?l ?b = pv_cmp ?l ?a" using pv_ord.cmp_flip [of ?l] by simp
    then show ?thesis using assms(2) ab False by (auto simp: disjoint_bounds_def)
  qed
qed

lemma disjoint_no_version:
  assumes "disjoint_bounds l u" and "above_lower (Some l) v"
  shows "\<not> below_upper (Some u) v"
proof
  let ?l = "vb_version l" and ?u = "vb_version u"
  assume "below_upper (Some u) v"
  then have vu: "pv_lt v ?u \<or> vb_inclusive u \<and> pv_eq v ?u" by (simp add: below_upper_def)
  have lv: "pv_lt ?l v \<or> vb_inclusive l \<and> pv_eq ?l v"
    using assms(2) pv_ord.cmp_flip [of ?l v] by (auto simp: above_lower_def)
  have "pv_cmp ?l ?u \<noteq> Greater" using lv vu by (intro pv_ord.cmp_trans [of ?l v ?u]) auto
  then have eq: "pv_eq ?l ?u" "\<not> vb_inclusive l \<or> \<not> vb_inclusive u" using assms(1) by (auto simp: disjoint_bounds_def)
  then consider "pv_lt ?l v" | "pv_lt v ?u" "pv_eq ?l v" using lv vu by auto
  then show False
  proof cases
    case 1
    then have "pv_lt ?l ?u" using vu by (intro pv_ord.less_trans [of ?l v ?u]) auto
    then show ?thesis using eq by simp
  next
    case 2
    then have "pv_cmp ?l ?u = pv_cmp v ?u" using pv_ord.equal_cong by blast
    then show ?thesis using eq 2 by simp
  qed
qed

lemma has_empty_intersection_iff:
  "has_empty_intersection view \<longleftrightarrow>
     (\<exists>r \<in> set (view_ranges view). \<exists>s \<in> set (view_ranges view). \<exists>l u.
        vr_lower r = Some l \<and> vr_upper s = Some u \<and> disjoint_bounds l u)"
  (is "_ \<longleftrightarrow> ?clash")
proof -
  let ?rs = "view_ranges view"
  let ?low = "foldl tighter_lower None ?rs" and ?up = "foldl tighter_upper None ?rs"
  have low: "best_of lower_cmp vr_lower ?rs None ?low"
    unfolding tighter_lower_keep by (rule lower_ord.foldl_keep_best)
  have up: "best_of upper_cmp vr_upper ?rs None ?up"
    unfolding tighter_upper_keep by (rule upper_ord.foldl_keep_best)
  show ?thesis
  proof
    assume "has_empty_intersection view"
    then obtain l u where lu: "?low = Some l" "?up = Some u" "disjoint_bounds l u"
      by (auto simp: has_empty_intersection_def split: option.splits)
    have "\<exists>r \<in> set ?rs. vr_lower r = Some l" "\<exists>s \<in> set ?rs. vr_upper s = Some u"
      using low up lu by (simp_all add: best_of_def)
    then show ?clash using lu(3) by blast
  next
    assume ?clash
    then obtain r s l u where rs: "r \<in> set ?rs" "s \<in> set ?rs" "vr_lower r = Some l" "vr_upper s = Some u" "disjoint_bounds l u"
      by blast
    obtain l' where l': "?low = Some l'" "lower_cmp l l' \<noteq> Greater"
      using low rs by (cases ?low) (auto simp: best_of_def)
    obtain u' where u': "?up = Some u'" "upper_cmp u u' \<noteq> Greater"
      using up rs by (cases ?up) (auto simp: best_of_def)
    have "disjoint_bounds l' u'" by (rule upper_cmp_disjoint [OF u'(2) lower_cmp_disjoint [OF l'(2) rs(5)]])
    then show "has_empty_intersection view" by (simp add: has_empty_intersection_def l'(1) u'(1))
  qed
qed

lemma empty_intersection_none:
  "has_empty_intersection view \<Longrightarrow> \<not> view_all view (\<lambda>r. range_contains r v)"
  unfolding has_empty_intersection_iff view_all_def range_contains_def list_all_iff
  using disjoint_no_version by metis

section \<open>What is selected\<close>

definition version_sorted :: "package_version list \<Rightarrow> bool" where
  "version_sorted vs \<longleftrightarrow> sorted_wrt (\<lambda>a b. pv_cmp a b \<noteq> Greater) vs"

definition wf_choice :: "constraint_node \<Rightarrow> constraint_view \<Rightarrow> bool" where
  "wf_choice node view \<longleftrightarrow> list_all wf_range (view_ranges view) \<and> pred_option wf_range (cn_direct node)
     \<and> pred_option version_sorted (cn_available_versions node)"

text \<open>The candidates: any version while none are listed, else the listed ones.\<close>

definition is_candidate :: "constraint_node \<Rightarrow> constraint_view \<Rightarrow> package_version \<Rightarrow> bool" where
  "is_candidate node view w \<longleftrightarrow> node_accepts node view w \<and> pred_option (\<lambda>vs. w \<in> set vs) (cn_available_versions node)"

text \<open>How a candidate compares with the selected one, \<open>Greater\<close> being better.\<close>

definition candidate_order :: "constraint_node \<Rightarrow> constraint_view \<Rightarrow> package_version \<Rightarrow> package_version \<Rightarrow> ordering" where
  "candidate_order node view a b =
     (case float_preference node view of None \<Rightarrow> pv_cmp b a | Some r \<Rightarrow> range_preference r a b)"

lemma float_preference_wf: "wf_choice node view \<Longrightarrow> float_preference node view = Some r \<Longrightarrow> wf_range r"
  by (auto simp: wf_choice_def float_preference_def view_first_def list_all_iff
      split: option.splits if_splits dest!: find_SomeD)

lemma best_candidate_fold:
  "wf_range r \<Longrightarrow> best_candidate r start vs = Some (foldl (keep_best (range_preference r) Some) start vs)"
  by (induction r start vs rule: best_candidate.induct) (simp_all add: is_better_preference keep_best_def)

lemma best_candidate_best:
  assumes "wf_range r"
  obtains best where "best_candidate r None vs = Some best" and "best_of (range_preference r) Some vs None best"
  using best_candidate_fold [OF assms, of None vs] rust_ord.foldl_keep_best [OF rust_ord_range_preference, of r Some vs None]
  by blast

lemma select_pinned_correct:
  "select_pinned node pin \<noteq> Inl ResolvePanic
   \<and> (select_pinned node pin = Inr (SelectVersion v) \<longrightarrow> v = pin \<and> (\<forall>r \<in> set (bt_values (cn_constraints node)). range_contains r v))"
  by (auto simp: select_pinned_def find_None_iff split: option.splits)

lemma sorted_first_least:
  assumes "version_sorted vs" and "filter P vs = v # rest" and "w \<in> set vs" and "P w"
  shows "pv_cmp v w \<noteq> Greater"
proof -
  have "version_sorted (v # rest)" using assms(1,2) by (metis version_sorted_def sorted_wrt_filter)
  moreover have "w \<in> set (v # rest)" using assms(3,4) by (simp flip: assms(2))
  ultimately show ?thesis by (auto simp: version_sorted_def pv_ord.cmp_refl)
qed

lemma select_available_correct:
  assumes wf: "wf_choice node view" and vs: "cn_available_versions node = Some vs"
  shows "select_available node view vs \<noteq> Inl ResolvePanic
    \<and> (select_available node view vs = Inr (SelectVersion v) \<longrightarrow> is_candidate node view v
        \<and> (\<forall>w. is_candidate node view w \<longrightarrow> candidate_order node view w v \<noteq> Greater))"
proof (cases "float_preference node view")
  case None
  have sorted: "version_sorted vs" using wf vs by (simp add: wf_choice_def)
  show ?thesis
  proof (cases "filter (node_accepts node view) vs")
    case Nil
    then show ?thesis by (simp add: select_available_def None Let_def)
  next
    case (Cons u rest)
    then have "u \<in> set (filter (node_accepts node view) vs)" by simp
    then have "u \<in> set vs" "node_accepts node view u" by simp_all
    then show ?thesis
      using Cons None vs sorted_first_least [OF sorted Cons]
      by (auto simp: select_available_def is_candidate_def candidate_order_def)
  qed
next
  case (Some r)
  obtain best where b: "best_candidate r None (filter (node_accepts node view) vs) = Some best"
    "best_of (range_preference r) Some (filter (node_accepts node view) vs) None best"
    using best_candidate_best [OF float_preference_wf [OF wf Some]] by blast
  then show ?thesis
    using Some vs by (cases best) (auto simp: select_available_def is_candidate_def candidate_order_def best_of_def Let_def)
qed

lemma inclusive_lower_least:
  assumes "inclusive_lower r = Some c" and "range_contains r w"
  shows "pv_cmp c w \<noteq> Greater"
  using assms pv_ord.cmp_flip [of c w]
  by (auto simp: inclusive_lower_def range_contains_def above_lower_def split: option.splits if_splits)

text \<open>Without listed versions the candidate is a lower bound that every accepted version respects.\<close>

lemma bound_candidate_least:
  assumes "(case cn_direct node of Some d \<Rightarrow> consider_lower None d | None \<Rightarrow> highest_inclusive_lower view) = Some c"
    and "node_accepts node view w"
  shows "pv_cmp c w \<noteq> Greater"
proof (cases "cn_direct node")
  case None
  have "best_of pv_cmp inclusive_lower (view_ranges view) None (highest_inclusive_lower view)"
    unfolding highest_inclusive_lower_def consider_lower_keep by (rule pv_ord.foldl_keep_best)
  then obtain r where r: "r \<in> set (view_ranges view)" "inclusive_lower r = Some c"
    using assms(1) None by (auto simp: best_of_def)
  have "range_contains r w" using assms(2) None r(1) by (auto simp: node_accepts_def view_all_def list_all_iff)
  then show ?thesis by (rule inclusive_lower_least [OF r(2)])
next
  case (Some d)
  then have "inclusive_lower d = Some c" using assms(1) by (simp add: consider_lower_keep keep_best_def split: option.splits)
  moreover have "range_contains d w" using assms(2) Some by (simp add: node_accepts_def)
  ultimately show ?thesis by (rule inclusive_lower_least)
qed


definition plain_version :: "nat \<Rightarrow> package_version" where
  "plain_version n = \<lparr>pv_normalized = numbers_part [n, 0, 0, 0], pv_numbers = [n, 0, 0, 0], pv_prerelease_start = None\<rparr>"

definition at_least :: "nat \<Rightarrow> version_range" where
  "at_least n = \<lparr>vr_lower = Some (new_bound (plain_version n) True), vr_upper = None\<rparr>"

definition below :: "nat \<Rightarrow> version_range" where
  "below n = \<lparr>vr_lower = None, vr_upper = Some (new_bound (plain_version n) False)\<rparr>"

definition example_node :: "(string, version_range) btree \<Rightarrow> constraint_node" where
  "example_node constraints = \<lparr>cn_id = ''A'', cn_direct = None, cn_central_pin = None, cn_constraints = constraints,
     cn_selected = None, cn_metadata_version = None, cn_dependencies = [], cn_available_versions = None,
     cn_pruned = False, cn_generation = 0\<rparr>"

lemmas example_eval = plain_version_def at_least_def below_def example_node_def new_bound_def pv_cmp_def pv_prerelease_def
  rust_cmp_def compare_package_prerelease_def

lemma wf_example:
  "wf_choice (example_node constraints) (AllConstraints [(''p'', at_least 1), (''q'', at_least 2)])"
  by (simp add: wf_choice_def bt_values_def at_least_def wf_range_def wf_bound_def wf_package_version_def prefix_float_def
      includes_prerelease_def example_node_def new_bound_def plain_version_def pv_prerelease_def)




end
