(* ===== verification/Graph_Search.thy ===== *)
theory Graph_Search
  imports Rust_Map
begin

text \<open>
  The depth-first traversals of the resolver in \<open>crates/dv-core/src/package.rs\<close>: a vector as stack,
  a vector of visited names, and a map from names to nodes. Names the map lacks have no successors,
  so the unvisited names of the map, then the stack, decrease.
\<close>

definition succs :: "(string, 'n) btree \<Rightarrow> ('n \<Rightarrow> string list) \<Rightarrow> string \<Rightarrow> string list" where
  "succs nodes after name = (case bt_get nodes name of None \<Rightarrow> [] | Some node \<Rightarrow> after node)"

definition edges :: "(string, 'n) btree \<Rightarrow> ('n \<Rightarrow> string list) \<Rightarrow> (string \<times> string) set" where
  "edges nodes after = {(a, b). b \<in> set (succs nodes after a)}"

definition unvisited :: "(string, 'n) btree \<Rightarrow> string list \<Rightarrow> nat" where
  "unvisited nodes visited = card (set (bt_keys nodes) - set visited)"

lemma succs_missing: "name \<notin> set (bt_keys nodes) \<Longrightarrow> succs nodes after name = []"
  by (simp add: succs_def set_bt_keys domIff)

lemma unvisited_visit:
  assumes "current \<notin> set visited"
  shows "unvisited nodes (visited @ [current]) < unvisited nodes visited
    \<or> unvisited nodes (visited @ [current]) = unvisited nodes visited \<and> succs nodes after current = []"
proof (cases "current \<in> set (bt_keys nodes)")
  case True
  then have "set (bt_keys nodes) - set (visited @ [current]) \<subset> set (bt_keys nodes) - set visited" using assms by auto
  then show ?thesis unfolding unvisited_def by (meson List.finite_set finite_Diff psubset_card_mono)
next
  case False
  then have "set (bt_keys nodes) - set (visited @ [current]) = set (bt_keys nodes) - set visited" by auto
  then show ?thesis using succs_missing [OF False] by (simp add: unvisited_def)
qed

section \<open>Looking for a name\<close>

text \<open>
  Whether a name that \<open>hit\<close> wants is reached from the stack without going on from a name to skip.
\<close>

function search :: "(string \<Rightarrow> bool) \<Rightarrow> (string \<Rightarrow> bool) \<Rightarrow> (string, 'n) btree \<Rightarrow> ('n \<Rightarrow> string list) \<Rightarrow>
    string list \<Rightarrow> string list \<Rightarrow> bool" where
  "search hit skip nodes after stack visited =
     (if stack = [] then False
      else let current = last stack; rest = butlast stack
      in if hit current then True
         else if skip current \<or> current \<in> set visited then search hit skip nodes after rest visited
         else search hit skip nodes after (rest @ succs nodes after current) (visited @ [current]))"
  by pat_completeness auto

termination
proof (relation "inv_image (less_than <*lex*> less_than)
    (\<lambda>(hit, skip, nodes, after, stack, visited). (unvisited nodes visited, length stack))", goal_cases)
  case (3 hit skip nodes after stack visited current rest)
  then show ?case using unvisited_visit [of current visited nodes after] by auto
qed auto

declare search.simps [simp del]

lemma search_eqs:
  shows "search hit skip nodes after [] visited = False"
    and "hit current \<Longrightarrow> search hit skip nodes after (rest @ [current]) visited = True"
    and "\<not> hit current \<Longrightarrow> skip current \<or> current \<in> set visited \<Longrightarrow>
      search hit skip nodes after (rest @ [current]) visited = search hit skip nodes after rest visited"
    and "\<not> hit current \<Longrightarrow> \<not> (skip current \<or> current \<in> set visited) \<Longrightarrow>
      search hit skip nodes after (rest @ [current]) visited
        = search hit skip nodes after (rest @ succs nodes after current) (visited @ [current])"
  by (subst search.simps; simp)+

text \<open>The recursion of both traversals, popping the end of the stack.\<close>

lemma stack_induct:
  assumes "\<And>visited. P [] visited"
    and "\<And>rest current visited. P rest visited \<Longrightarrow>
      (current \<notin> set visited \<Longrightarrow> P (rest @ succs nodes after current) (visited @ [current])) \<Longrightarrow>
      P (rest @ [current]) visited"
  shows "P stack visited"
proof (induction "(stack, visited)" arbitrary: stack visited
    rule: wf_induct_rule [OF wf_inv_image [OF wf_lex_prod [OF wf_less_than wf_less_than],
        where f = "\<lambda>(stack, visited). (unvisited nodes visited, length stack)"]])
  case (1 stack visited)
  show ?case
  proof (cases stack rule: rev_cases)
    case Nil
    then show ?thesis using assms(1) by simp
  next
    case (snoc rest current)
    have "P (rest @ [current]) visited"
    proof (rule assms(2))
      show "P rest visited" by (rule 1) (simp add: snoc)
      show "P (rest @ succs nodes after current) (visited @ [current])" if "current \<notin> set visited"
        by (rule 1) (use unvisited_visit [OF that, of nodes after] in \<open>auto simp: snoc\<close>)
    qed
    then show ?thesis by (simp add: snoc)
  qed
qed

definition onward :: "(string \<Rightarrow> bool) \<Rightarrow> (string, 'n) btree \<Rightarrow> ('n \<Rightarrow> string list) \<Rightarrow> (string \<times> string) set" where
  "onward skip nodes after = {(a, b) \<in> edges nodes after. \<not> skip a}"

definition reaches :: "(string \<Rightarrow> bool) \<Rightarrow> (string \<Rightarrow> bool) \<Rightarrow> (string, 'n) btree \<Rightarrow> ('n \<Rightarrow> string list) \<Rightarrow> string \<Rightarrow> bool" where
  "reaches hit skip nodes after s \<longleftrightarrow> (\<exists>t. hit t \<and> (s, t) \<in> (onward skip nodes after)\<^sup>*)"

lemma reaches_unfold:
  "reaches hit skip nodes after s \<longleftrightarrow>
     hit s \<or> \<not> skip s \<and> (\<exists>t \<in> set (succs nodes after s). reaches hit skip nodes after t)"
  unfolding reaches_def onward_def edges_def
  by (auto elim: converse_rtranclE intro: converse_rtrancl_into_rtrancl)

definition explored :: "(string \<Rightarrow> bool) \<Rightarrow> (string \<Rightarrow> bool) \<Rightarrow> (string, 'n) btree \<Rightarrow> ('n \<Rightarrow> string list) \<Rightarrow>
    string list \<Rightarrow> string list \<Rightarrow> bool" where
  "explored hit skip nodes after stack visited \<longleftrightarrow>
     (\<forall>a \<in> set visited. \<not> hit a \<and>
        (\<forall>b \<in> set (succs nodes after a). b \<in> set visited \<union> set stack \<or> skip b \<and> \<not> hit b))"

lemma explored_leaves:
  assumes "explored hit skip nodes after stack visited" and "(s, t) \<in> (onward skip nodes after)\<^sup>*"
    and "hit t" and "s \<in> set visited"
  shows "\<exists>s' \<in> set stack - set visited. reaches hit skip nodes after s'"
  using assms(2,4)
proof (induction rule: converse_rtrancl_induct)
  case base
  then show ?case using assms(1,3) by (simp add: explored_def)
next
  case (step a b)
  have "reaches hit skip nodes after b" using step.hyps(2) assms(3) by (auto simp: reaches_def)
  then have "\<not> (skip b \<and> \<not> hit b)" using reaches_unfold [of hit skip nodes after b] by blast
  then have "b \<in> set visited \<union> set stack"
    using step.hyps(1) step.prems assms(1) by (auto simp: onward_def edges_def explored_def)
  then show ?case using step.IH \<open>reaches hit skip nodes after b\<close> by auto
qed

lemma explored_drop:
  assumes "explored hit skip nodes after (rest @ [current]) visited"
    and "\<not> hit current" and "skip current \<or> current \<in> set visited"
  shows "explored hit skip nodes after rest visited"
  using assms unfolding explored_def by fastforce

lemma explored_visit:
  assumes "explored hit skip nodes after (rest @ [current]) visited" and "\<not> hit current"
  shows "explored hit skip nodes after (rest @ succs nodes after current) (visited @ [current])"
  using assms unfolding explored_def by fastforce

lemma search_reaches:
  "explored hit skip nodes after stack visited \<Longrightarrow>
   search hit skip nodes after stack visited \<longleftrightarrow> (\<exists>s \<in> set stack. reaches hit skip nodes after s)"
proof (induction stack visited rule: stack_induct [where nodes = nodes and after = after])
  case (1 visited)
  then show ?case by (simp add: search_eqs)
next
  case (2 rest current visited)
  let ?reaches = "reaches hit skip nodes after"
  have current: "?reaches current \<longleftrightarrow> hit current \<or> \<not> skip current \<and> (\<exists>t \<in> set (succs nodes after current). ?reaches t)"
    by (rule reaches_unfold)
  consider "hit current" | "\<not> hit current" "skip current \<or> current \<in> set visited"
    | "\<not> hit current" "\<not> (skip current \<or> current \<in> set visited)" by blast
  then show ?case
  proof cases
    case 1
    then show ?thesis using current by (simp add: search_eqs)
  next
    case drop: 2
    have "\<exists>s \<in> set rest. ?reaches s" if r: "?reaches current"
    proof -
      have "current \<in> set visited" using drop r current by blast
      moreover obtain t where "hit t" "(current, t) \<in> (onward skip nodes after)\<^sup>*" using r by (auto simp: reaches_def)
      ultimately obtain s where "s \<in> set (rest @ [current]) - set visited" "?reaches s"
        using explored_leaves [OF "2.prems"] by blast
      then show ?thesis using \<open>current \<in> set visited\<close> by auto
    qed
    then show ?thesis
      using "2.IH"(1) explored_drop [OF "2.prems" drop] search_eqs(3) [of hit current skip visited nodes after rest] drop by auto
  next
    case visit: 3
    have "search hit skip nodes after (rest @ succs nodes after current) (visited @ [current])
        \<longleftrightarrow> (\<exists>s \<in> set (rest @ succs nodes after current). ?reaches s)"
      using "2.IH"(2) explored_visit [OF "2.prems" visit(1)] visit(2) by blast
    then show ?thesis using visit current search_eqs(4) [of hit current skip visited nodes after rest] by auto
  qed
qed

text \<open>A fresh search finds what is reachable.\<close>

lemma search_correct: "search hit skip nodes after stack [] \<longleftrightarrow> (\<exists>s \<in> set stack. reaches hit skip nodes after s)"
  by (rule search_reaches) (simp add: explored_def)

section \<open>Collecting what is below\<close>

function collect_below :: "(string, 'n) btree \<Rightarrow> ('n \<Rightarrow> string list) \<Rightarrow> string list \<Rightarrow> string list \<Rightarrow> string list \<Rightarrow> string list" where
  "collect_below nodes after stack visited found =
     (if stack = [] then found
      else let current = last stack; rest = butlast stack
      in if current \<in> set visited then collect_below nodes after rest visited found
         else collect_below nodes after (rest @ succs nodes after current) (visited @ [current])
           (foldl (\<lambda>found name. bs_insert name found) found (succs nodes after current)))"
  by pat_completeness auto

termination
proof (relation "inv_image (less_than <*lex*> less_than)
    (\<lambda>(nodes, after, stack, visited, found). (unvisited nodes visited, length stack))", goal_cases)
  case (3 nodes after stack visited found current rest)
  then show ?case using unvisited_visit [of current visited nodes after] by auto
qed auto

declare collect_below.simps [simp del]

lemma collect_below_eqs:
  shows "collect_below nodes after [] visited found = found"
    and "current \<in> set visited \<Longrightarrow>
      collect_below nodes after (rest @ [current]) visited found = collect_below nodes after rest visited found"
    and "current \<notin> set visited \<Longrightarrow>
      collect_below nodes after (rest @ [current]) visited found
        = collect_below nodes after (rest @ succs nodes after current) (visited @ [current])
            (foldl (\<lambda>found name. bs_insert name found) found (succs nodes after current))"
  by (subst collect_below.simps; simp)+

lemma set_foldl_bs_insert [simp]: "set (foldl (\<lambda>found name. bs_insert name found) found names) = set found \<union> set names"
  by (induction names arbitrary: found) auto

lemma sorted_foldl_bs_insert:
  "sorted_wrt (<) found \<Longrightarrow> sorted_wrt (<) (foldl (\<lambda>found name. bs_insert name found) found names)"
  by (induction names arbitrary: found) (simp_all add: sorted_bs_insert)

lemma sorted_collect_below: "sorted_wrt (<) found \<Longrightarrow> sorted_wrt (<) (collect_below nodes after stack visited found)"
proof (induction stack visited arbitrary: found rule: stack_induct [where nodes = nodes and after = after])
  case (1 visited)
  then show ?case by (simp add: collect_below_eqs)
next
  case (2 rest current visited)
  then show ?case using sorted_foldl_bs_insert [of found "succs nodes after current"]
    by (cases "current \<in> set visited") (simp_all add: collect_below_eqs)
qed

text \<open>What the loop has still to find: below the stack, or already in the result.\<close>

lemma below_step: "(a, b) \<in> E\<^sup>+ \<longleftrightarrow> (a, b) \<in> E \<or> (\<exists>c. (a, c) \<in> E \<and> (c, b) \<in> E\<^sup>+)"
  by (auto elim: converse_tranclE intro: trancl_into_trancl2)

definition collected :: "(string, 'n) btree \<Rightarrow> ('n \<Rightarrow> string list) \<Rightarrow> string list \<Rightarrow> string list \<Rightarrow> string list \<Rightarrow> bool" where
  "collected nodes after stack visited found \<longleftrightarrow>
     (\<forall>a \<in> set visited. set (succs nodes after a) \<subseteq> set found \<inter> (set visited \<union> set stack))"

lemma below_visited:
  assumes "collected nodes after stack visited found" and "(a, b) \<in> (edges nodes after)\<^sup>+" and "a \<in> set visited"
  shows "b \<in> set found \<union> (edges nodes after)\<^sup>+ `` set stack"
  using assms(2,3)
proof (induction rule: converse_trancl_induct)
  case (base a)
  then show ?case using assms(1) by (auto simp: collected_def edges_def)
next
  case (step a c)
  then have "c \<in> set visited \<union> set stack" using assms(1) by (auto simp: collected_def edges_def)
  then show ?case using step by auto
qed

lemma collect_below_set:
  "collected nodes after stack visited found \<Longrightarrow>
   set (collect_below nodes after stack visited found) = set found \<union> (edges nodes after)\<^sup>+ `` set stack"
proof (induction stack visited arbitrary: found rule: stack_induct [where nodes = nodes and after = after])
  case (1 visited)
  then show ?case by (simp add: collect_below_eqs)
next
  case (2 rest current visited)
  let ?E = "edges nodes after"
  show ?case
  proof (cases "current \<in> set visited")
    case True
    then have inv: "collected nodes after rest visited found" using "2.prems" by (auto simp: collected_def)
    have "?E\<^sup>+ `` {current} \<subseteq> set found \<union> ?E\<^sup>+ `` set rest" using below_visited [OF inv] True by blast
    moreover have "set (collect_below nodes after rest visited found) = set found \<union> ?E\<^sup>+ `` set rest"
      by (rule "2.IH"(1) [OF inv])
    moreover have "?E\<^sup>+ `` set (rest @ [current]) = ?E\<^sup>+ `` set rest \<union> ?E\<^sup>+ `` {current}" by auto
    ultimately show ?thesis using True by (auto simp: collect_below_eqs)
  next
    case False
    let ?found = "foldl (\<lambda>found name. bs_insert name found) found (succs nodes after current)"
    let ?stack = "rest @ succs nodes after current"
    have inv: "collected nodes after ?stack (visited @ [current]) ?found"
      using "2.prems" by (auto simp: collected_def)
    have "set (collect_below nodes after ?stack (visited @ [current]) ?found) = set ?found \<union> ?E\<^sup>+ `` set ?stack"
      by (rule "2.IH"(2) [OF False inv])
    moreover have "?E\<^sup>+ `` {current} = set (succs nodes after current) \<union> ?E\<^sup>+ `` set (succs nodes after current)"
      using below_step [of current _ ?E] by (auto simp: edges_def)
    moreover have "?E\<^sup>+ `` set (rest @ [current]) = ?E\<^sup>+ `` set rest \<union> ?E\<^sup>+ `` {current}"
      "?E\<^sup>+ `` set ?stack = ?E\<^sup>+ `` set rest \<union> ?E\<^sup>+ `` set (succs nodes after current)" by auto
    ultimately show ?thesis using False by (auto simp: collect_below_eqs)
  qed
qed

lemma collect_below_correct:
  "set (collect_below nodes after stack [] found) = set found \<union> (edges nodes after)\<^sup>+ `` set stack"
  by (rule collect_below_set) (simp add: collected_def)

end
