(* ===== verification/Constraint_Graph.thy ===== *)
theory Constraint_Graph
  imports Constraint_Selection Graph_Search Package_Pruning
begin

text \<open>
  \<open>crates/dv-core/src/package.rs\<close>: the graph of packages under resolution. A node is keyed by its
  package's lower-case identity, holds the ranges its parents ask for, keyed by parent, and the
  requirements of its selected version; which parents' ranges count, the re-selection of nodes whose
  input changed, and the installation of a version's requirements.
\<close>

type_synonym graph_nodes = "(string, constraint_node) btree"

definition MAX_GRAPH_REVISIONS :: nat where "MAX_GRAPH_REVISIONS = 64"

section \<open>Which parents count\<close>

definition parents_of :: "constraint_node \<Rightarrow> string list" where
  "parents_of node = bt_keys (cn_constraints node)"

definition children_of :: "constraint_node \<Rightarrow> string list" where
  "children_of node = map rr_lower_id (cn_dependencies node)"

definition constraint_parent_is_ancestor :: "graph_nodes \<Rightarrow> string \<Rightarrow> string \<Rightarrow> string \<Rightarrow> bool" where
  "constraint_parent_is_ancestor nodes target ancestor descendant =
     search (\<lambda>current. current = ancestor) (\<lambda>current. current = target) nodes
       (\<lambda>node. filter (\<lambda>parent. parent \<noteq> target) (parents_of node)) [descendant] []"

definition direct_roots :: "graph_nodes \<Rightarrow> string list" where
  "direct_roots nodes = map fst (filter (\<lambda>(_, node). cn_direct node \<noteq> None) nodes)"

definition constraint_parent_has_alternate_root_path :: "graph_nodes \<Rightarrow> string \<Rightarrow> string \<Rightarrow> string \<Rightarrow> bool" where
  "constraint_parent_has_alternate_root_path nodes target blocked descendant =
     search (\<lambda>current. current = descendant) (\<lambda>current. current = target \<or> current = blocked) nodes
       children_of (filter (\<lambda>name. name \<noteq> blocked) (direct_roots nodes)) []"

text \<open>\<open>nodes[target]\<close>: the target is a node wherever this is called.\<close>

definition constraint_is_dominated :: "graph_nodes \<Rightarrow> string \<Rightarrow> string \<Rightarrow> bool" where
  "constraint_is_dominated nodes target parent =
     list_ex (\<lambda>candidate. candidate \<noteq> parent
         \<and> constraint_parent_is_ancestor nodes target candidate parent
         \<and> \<not> constraint_parent_is_ancestor nodes target parent candidate
         \<and> \<not> constraint_parent_has_alternate_root_path nodes target candidate parent)
       (succs nodes parents_of target)"

definition collect_active_constraints :: "graph_nodes \<Rightarrow> string \<Rightarrow> version_range list" where
  "collect_active_constraints nodes target =
     (case bt_get nodes target of
        None \<Rightarrow> []
      | Some node \<Rightarrow> map snd (filter (\<lambda>(parent, _). \<not> constraint_is_dominated nodes target parent) (cn_constraints node)))"

record resolved_downgrade =
  rd_package_id :: string
  rd_selected_version :: string
  rd_requested_range :: string
  rd_requesting_package :: string

definition node_downgrades :: "graph_nodes \<Rightarrow> string \<times> constraint_node \<Rightarrow> resolved_downgrade list" where
  "node_downgrades nodes entry =
     (case entry of (lower_id, node) \<Rightarrow>
      (case (if cn_pruned node then None else cn_selected node) of
         None \<Rightarrow> []
       | Some selected \<Rightarrow>
           map (\<lambda>(parent, rng). \<lparr>rd_package_id = cn_id node, rd_selected_version = pv_normalized selected,
                rd_requested_range = diagnostic_text rng,
                rd_requesting_package = (case bt_get nodes parent of None \<Rightarrow> parent | Some p \<Rightarrow> cn_id p)\<rparr>)
             (filter (\<lambda>(parent, rng). \<not> range_contains rng selected
                 \<and> (cn_direct node \<noteq> None \<or> constraint_is_dominated nodes lower_id parent))
               (cn_constraints node))))"

definition collect_downgrades :: "graph_nodes \<Rightarrow> resolved_downgrade list" where
  "collect_downgrades nodes = concat (map (node_downgrades nodes) nodes)"

section \<open>Re-selection\<close>

definition mark_dirty_below :: "graph_nodes \<Rightarrow> string \<Rightarrow> string list \<Rightarrow> string list" where
  "mark_dirty_below nodes root dirty = collect_below nodes children_of [root] [] dirty"

record graph_state =
  gs_nodes :: graph_nodes
  gs_dirty :: "string list"
  gs_ready :: "string list"

definition mark_dependencies :: "graph_nodes \<Rightarrow> package_requirement list \<Rightarrow> string list \<Rightarrow> string list" where
  "mark_dependencies nodes deps dirty = foldl (\<lambda>dirty dep. mark_dirty_below nodes (rr_lower_id dep) dirty) dirty deps"

text \<open>Withdrawing the ranges of \<open>parent\<close> from the children it had.\<close>

definition drop_constraint :: "string \<Rightarrow> constraint_node \<Rightarrow> constraint_node" where
  "drop_constraint parent child = child\<lparr>cn_constraints := bt_remove parent (cn_constraints child)\<rparr>"

definition retract_edge :: "string \<Rightarrow> graph_nodes \<times> string list \<Rightarrow> package_requirement \<Rightarrow> graph_nodes \<times> string list" where
  "retract_edge parent st dep =
     (case bt_get (fst st) (rr_lower_id dep) of
        None \<Rightarrow> st
      | Some _ \<Rightarrow> (bt_modify (rr_lower_id dep) (drop_constraint parent) (fst st), bs_insert (rr_lower_id dep) (snd st)))"

definition retract_edges :: "string \<Rightarrow> package_requirement list \<Rightarrow> graph_nodes \<times> string list \<Rightarrow> graph_nodes \<times> string list" where
  "retract_edges parent deps st = foldl (retract_edge parent) st deps"

text \<open>A package nothing asks for any more.\<close>

definition remove_node :: "string \<Rightarrow> constraint_node \<Rightarrow> graph_state \<Rightarrow> graph_state" where
  "remove_node lower_id node st =
     (let dirty = mark_dependencies (gs_nodes st) (cn_dependencies node) (gs_dirty st);
          (nodes, dirty) = retract_edges lower_id (cn_dependencies node) (bt_remove lower_id (gs_nodes st), dirty)
      in \<lparr>gs_nodes = nodes, gs_dirty = dirty, gs_ready = bs_remove lower_id (gs_ready st)\<rparr>)"

definition selection_view :: "graph_nodes \<Rightarrow> string \<Rightarrow> constraint_node \<Rightarrow> constraint_view" where
  "selection_view nodes lower_id node =
     (if cn_direct node = None \<and> cn_central_pin node = None \<and> 1 < length (cn_constraints node)
      then ActiveConstraints (collect_active_constraints nodes lower_id)
      else AllConstraints (cn_constraints node))"

definition is_pruned_choice :: "package_pruning \<Rightarrow> string \<Rightarrow> constraint_node \<Rightarrow> package_version option \<Rightarrow> bool" where
  "is_pruned_choice pruning lower_id node next =
     (case next of
        None \<Rightarrow> False
      | Some version \<Rightarrow> cn_direct node = None \<and> cn_central_pin node = None \<and> pruning_contains pruning lower_id version)"

fun selected_of :: "node_selection \<Rightarrow> package_version option" where
  "selected_of (SelectVersion version) = Some version"
| "selected_of Enumerate = None"

definition no_convergence :: "constraint_node \<Rightarrow> resolve_failure" where
  "no_convergence node = ResolveError (resolution_error (cn_id node) ''package dependency graph did not converge'')"

definition revised :: "package_version option \<Rightarrow> bool \<Rightarrow> constraint_node \<Rightarrow> constraint_node" where
  "revised next pruned node =
     node\<lparr>cn_dependencies := [], cn_selected := next, cn_pruned := pruned, cn_metadata_version := None,
       cn_generation := cn_generation node + 1\<rparr>"

text \<open>A new choice: the node's old requirements go, and their packages and all below are looked at again.\<close>

definition revise_node :: "string \<Rightarrow> constraint_node \<Rightarrow> package_version option \<Rightarrow> bool \<Rightarrow> graph_state \<Rightarrow>
    resolve_failure + graph_state" where
  "revise_node lower_id node next pruned st =
     (let dirty = mark_dependencies (gs_nodes st) (cn_dependencies node) (gs_dirty st)
      in if MAX_GRAPH_REVISIONS < cn_generation node + 1 then Inl (no_convergence node)
         else let nodes = bt_modify lower_id (revised next pruned) (gs_nodes st);
                  (nodes, dirty) = retract_edges lower_id (cn_dependencies node) (nodes, dirty)
              in Inr \<lparr>gs_nodes = nodes, gs_dirty = dirty,
                   gs_ready = (if pruned then bs_remove lower_id (gs_ready st) else bs_insert lower_id (gs_ready st))\<rparr>)"

text \<open>\<open>Option<PackageVersion>\<close> equality, where versions are equal by precedence.\<close>

definition same_choice :: "package_version option \<Rightarrow> package_version option \<Rightarrow> bool" where
  "same_choice a b = rel_option (\<lambda>x y. pv_eq x y) a b"

text \<open>One turn of the loop, for a name taken off the dirty set.\<close>

definition settle_node :: "package_pruning \<Rightarrow> string \<Rightarrow> graph_state \<Rightarrow> resolve_failure + graph_state" where
  "settle_node pruning lower_id st =
     (case bt_get (gs_nodes st) lower_id of
        None \<Rightarrow> Inr st
      | Some node \<Rightarrow>
          if cn_direct node = None \<and> cn_constraints node = [] then Inr (remove_node lower_id node st)
          else (case select_node_version node (selection_view (gs_nodes st) lower_id node) of
              Inl e \<Rightarrow> Inl e
            | Inr selection \<Rightarrow>
                (let next = selected_of selection; pruned = is_pruned_choice pruning lower_id node next
                 in if next \<noteq> None \<and> same_choice (cn_selected node) next \<and> cn_pruned node = pruned then Inr st
                    else revise_node lower_id node next pruned st)))"

text \<open>What the revisions left to all nodes bound, then the dirty names.\<close>

definition revisions_left :: "graph_nodes \<Rightarrow> nat" where
  "revisions_left nodes = sum_list (map (\<lambda>(_, node). Suc (MAX_GRAPH_REVISIONS - cn_generation node)) nodes)"

lemma revisions_left_modify:
  assumes "\<And>node. cn_generation (f node) = cn_generation node"
  shows "revisions_left (bt_modify k f nodes) = revisions_left nodes"
  by (induction nodes) (auto simp: revisions_left_def assms)

lemma revisions_left_retract [simp]:
  "revisions_left (fst (retract_edges parent deps st)) = revisions_left (fst st)"
  by (induction deps arbitrary: st)
    (auto simp: retract_edges_def retract_edge_def revisions_left_modify drop_constraint_def split: option.split)

lemma revisions_left_remove:
  "bt_get nodes k = Some node \<Longrightarrow> revisions_left (bt_remove k nodes) < revisions_left nodes"
  by (induction nodes) (auto simp: revisions_left_def split: if_splits)

lemma revisions_left_revised:
  "bt_get nodes k = Some node \<Longrightarrow> cn_generation node < MAX_GRAPH_REVISIONS \<Longrightarrow>
   revisions_left (bt_modify k (revised next pruned) nodes) < revisions_left nodes"
  by (induction nodes) (auto simp: revisions_left_def revised_def split: if_splits)

lemma settle_node_measure:
  assumes "settle_node pruning lower_id st = Inr st'"
  shows "st' = st \<or> revisions_left (gs_nodes st') < revisions_left (gs_nodes st)"
  using assms revisions_left_remove [of "gs_nodes st" lower_id] revisions_left_revised [of "gs_nodes st" lower_id]
  by (auto simp: settle_node_def remove_node_def revise_node_def Let_def split: option.splits sum.splits
      if_splits prod.splits dest!: arg_cong [where f = fst])

function stabilize_constraint_nodes :: "package_pruning \<Rightarrow> graph_state \<Rightarrow> resolve_failure + graph_state" where
  "stabilize_constraint_nodes pruning st =
     (case gs_dirty st of
        [] \<Rightarrow> Inr st
      | lower_id # dirty \<Rightarrow>
          (case settle_node pruning lower_id (st\<lparr>gs_dirty := dirty\<rparr>) of
             Inl e \<Rightarrow> Inl e
           | Inr st' \<Rightarrow> stabilize_constraint_nodes pruning st'))"
  by pat_completeness auto

termination
proof (relation "inv_image (less_than <*lex*> less_than)
    (\<lambda>(pruning, st). (revisions_left (gs_nodes st), length (gs_dirty st)))", goal_cases)
  case (2 pruning st lower_id dirty st')
  then show ?case using settle_node_measure [OF 2(2)] by auto
qed auto

declare stabilize_constraint_nodes.simps [simp del]

section \<open>Installing requirements\<close>

definition duplicate_requirement :: "package_requirement list \<Rightarrow> package_requirement option" where
  "duplicate_requirement deps =
     map_option snd (List.find (\<lambda>(a, b). rr_lower_id a = rr_lower_id b \<and> \<not> vr_eq (rr_range a) (rr_range b))
       (zip deps (tl deps)))"

text \<open>\<open>dedup_by\<close> on sorted requirements keeps the first of each identity.\<close>

fun dedup_requirements :: "package_requirement list \<Rightarrow> package_requirement list" where
  "dedup_requirements (a # b # rest) =
     (if rr_lower_id a = rr_lower_id b then dedup_requirements (a # rest)
      else a # dedup_requirements (b # rest))"
| "dedup_requirements deps = deps"

definition pin_of :: "central_package_pin list \<Rightarrow> string \<Rightarrow> package_version option" where
  "pin_of pins lower_id =
     (case binary_search_by (\<lambda>pin. rust_cmp (pin_lower_id pin) lower_id) pins of
        Inl _ \<Rightarrow> None
      | Inr index \<Rightarrow> Some (pin_version (pins ! index)))"

definition fresh_node :: "string \<Rightarrow> version_range option \<Rightarrow> package_version option \<Rightarrow> constraint_node" where
  "fresh_node ident direct pin =
     \<lparr>cn_id = ident, cn_direct = direct, cn_central_pin = pin, cn_constraints = [], cn_selected = None,
      cn_metadata_version = None, cn_dependencies = [], cn_available_versions = None, cn_pruned = False,
      cn_generation = 0\<rparr>"

definition add_constraint :: "string \<Rightarrow> version_range \<Rightarrow> package_version option \<Rightarrow> constraint_node \<Rightarrow> constraint_node" where
  "add_constraint parent rng pin child =
     child\<lparr>cn_central_pin := (if cn_central_pin child = None then pin else cn_central_pin child),
       cn_constraints := bt_insert parent rng (cn_constraints child)\<rparr>"

definition install_edge :: "central_package_pin list \<Rightarrow> string \<Rightarrow> graph_nodes \<times> string list \<Rightarrow> package_requirement \<Rightarrow>
    graph_nodes \<times> string list" where
  "install_edge pins parent st dep =
     (let nodes = fst st; child_id = rr_lower_id dep; pin = pin_of pins child_id;
          dirty = (case bt_get nodes child_id of
              Some child \<Rightarrow> if cn_metadata_version child \<noteq> None then mark_dirty_below nodes child_id (snd st) else snd st
            | None \<Rightarrow> snd st);
          child = (case bt_get nodes child_id of Some child \<Rightarrow> child | None \<Rightarrow> fresh_node (rr_id dep) None pin)
      in (bt_insert child_id (add_constraint parent (rr_range dep) pin child) nodes, bs_insert child_id dirty))"

definition install_edges :: "central_package_pin list \<Rightarrow> string \<Rightarrow> package_requirement list \<Rightarrow>
    graph_nodes \<times> string list \<Rightarrow> graph_nodes \<times> string list" where
  "install_edges pins parent deps st = foldl (install_edge pins parent) st deps"

definition requirement_cmp :: "package_requirement \<Rightarrow> package_requirement \<Rightarrow> ordering" where
  "requirement_cmp a b = rust_cmp (rr_lower_id a) (rr_lower_id b)"

text \<open>
  Requirements of an outdated generation are ignored. The code's sort is unstable: among requirements
  of one identity, which agree on the range, it may keep another one than the first.
\<close>

definition install_node_dependencies ::
    "string \<Rightarrow> nat \<Rightarrow> package_requirement list \<Rightarrow> central_package_pin list \<Rightarrow> graph_state \<Rightarrow> resolve_failure + graph_state" where
  "install_node_dependencies lower_id generation deps pins st =
     (let sorted = sort_by requirement_cmp deps
      in case duplicate_requirement sorted of
           Some dup \<Rightarrow> Inl (ResolveError (resolution_error (rr_id dup)
             ''a package dependency group contains duplicate identities with different ranges''))
         | None \<Rightarrow>
             (let deps = dedup_requirements sorted
              in case bt_get (gs_nodes st) lower_id of
                   None \<Rightarrow> Inl (ResolveError (resolution_error lower_id ''package graph node disappeared''))
                 | Some node \<Rightarrow>
                     if cn_generation node \<noteq> generation then Inr st
                     else let nodes = bt_insert lower_id (node\<lparr>cn_metadata_version := cn_selected node\<rparr>) (gs_nodes st);
                              (nodes, dirty) = install_edges pins lower_id deps (nodes, gs_dirty st)
                          in Inr (st\<lparr>gs_nodes := bt_modify lower_id (\<lambda>n. n\<lparr>cn_dependencies := deps\<rparr>) nodes,
                                gs_dirty := dirty\<rparr>)))"

section \<open>The resolved graph\<close>

definition missing_selection :: "package_requirement \<Rightarrow> package_error" where
  "missing_selection dep = resolution_error (rr_id dep) ''dependency graph has no selected package''"

definition concrete_dependency :: "graph_nodes \<Rightarrow> package_request list \<Rightarrow> package_requirement \<Rightarrow>
    package_error + package_request list" where
  "concrete_dependency nodes acc dep =
     (case bt_get nodes (rr_lower_id dep) of
        None \<Rightarrow> Inl (missing_selection dep)
      | Some node \<Rightarrow>
          if cn_pruned node then Inr acc
          else (case cn_selected node of
              None \<Rightarrow> Inl (missing_selection dep)
            | Some selected \<Rightarrow> Inr (acc @ [\<lparr>rq_id = rr_id dep, rq_lower_id = rr_lower_id dep,
                rq_version = pv_normalized selected, rq_direct = False,
                rq_central_transitive = cn_direct node = None \<and> cn_central_pin node \<noteq> None\<rparr>])))"

definition concrete_dependencies :: "graph_nodes \<Rightarrow> string \<Rightarrow> package_error + package_request list" where
  "concrete_dependencies nodes lower_id =
     (case bt_get nodes lower_id of
        None \<Rightarrow> Inr []
      | Some node \<Rightarrow> try_fold (concrete_dependency nodes) [] (cn_dependencies node))"

end
