(* ===== verification/Constraint_Fixpoint.thy ===== *)
theory Constraint_Fixpoint
  imports Constraint_Graph
begin

text \<open>
  What re-selection achieves. The ranges a node holds and the requirements of its parents are the
  same edges, seen from both ends; and re-selecting only the nodes marked dirty leaves every node
  with the choice that the whole graph calls for.
\<close>

section \<open>Both ends of an edge\<close>

definition down :: "graph_nodes \<Rightarrow> (string \<times> string) set" where
  "down nodes = edges nodes children_of"

definition wf_nodes :: "graph_nodes \<Rightarrow> bool" where
  "wf_nodes nodes \<longleftrightarrow> bt_inv nodes \<and>
     (\<forall>k n. bt_get nodes k = Some n \<longrightarrow> bt_inv (cn_constraints n) \<and> distinct (children_of n))"

text \<open>The range parent \<open>p\<close> asks of \<open>k\<close>, from either end.\<close>

definition asked :: "graph_nodes \<Rightarrow> string \<Rightarrow> string \<Rightarrow> version_range \<Rightarrow> bool" where
  "asked nodes p k r \<longleftrightarrow> (\<exists>n d. bt_get nodes p = Some n \<and> d \<in> set (cn_dependencies n) \<and> rr_lower_id d = k \<and> rr_range d = r)"

definition held :: "graph_nodes \<Rightarrow> string \<Rightarrow> string \<Rightarrow> version_range \<Rightarrow> bool" where
  "held nodes p k r \<longleftrightarrow> (\<exists>c. bt_get nodes k = Some c \<and> bt_get (cn_constraints c) p = Some r)"

definition consistent :: "graph_nodes \<Rightarrow> bool" where
  "consistent nodes \<longleftrightarrow> wf_nodes nodes \<and> (\<forall>p k r. asked nodes p k r \<longleftrightarrow> held nodes p k r)"

lemma down_iff: "(p, k) \<in> down nodes \<longleftrightarrow> (\<exists>r. asked nodes p k r)"
  by (cases "bt_get nodes p") (auto simp: down_def edges_def succs_def children_of_def asked_def)

lemma parents_iff:
  "p \<in> set (succs nodes parents_of k) \<longleftrightarrow> (\<exists>r. held nodes p k r)"
  by (cases "bt_get nodes k") (auto simp: succs_def parents_of_def held_def set_bt_keys dom_def)

lemma parents_down: "consistent nodes \<Longrightarrow> p \<in> set (succs nodes parents_of k) \<longleftrightarrow> (p, k) \<in> down nodes"
  unfolding consistent_def parents_iff down_iff by blast

section \<open>Which ranges count depends on what is above\<close>

lemma succs_filter: "succs nodes (\<lambda>n. filter P (after n)) k = filter P (succs nodes after k)"
  by (simp add: succs_def split: option.split)

lemma ancestor_iff:
  assumes "consistent nodes"
  shows "constraint_parent_is_ancestor nodes t a d \<longleftrightarrow>
    (d, a) \<in> {(x, y). (y, x) \<in> down nodes \<and> x \<noteq> t \<and> y \<noteq> t}\<^sup>*"
proof -
  have "onward (\<lambda>c. c = t) nodes (\<lambda>n. filter (\<lambda>p. p \<noteq> t) (parents_of n))
      = {(x, y). (y, x) \<in> down nodes \<and> x \<noteq> t \<and> y \<noteq> t}"
    unfolding onward_def edges_def succs_filter using parents_down [OF assms] by auto
  then show ?thesis by (simp add: constraint_parent_is_ancestor_def search_correct reaches_def)
qed

lemma alternate_iff:
  "constraint_parent_has_alternate_root_path nodes t b d \<longleftrightarrow>
    (\<exists>s \<in> set (direct_roots nodes). s \<noteq> b \<and> (s, d) \<in> {(x, y) \<in> down nodes. x \<noteq> t \<and> x \<noteq> b}\<^sup>*)"
proof -
  have "onward (\<lambda>c. c = t \<or> c = b) nodes children_of = {(x, y) \<in> down nodes. x \<noteq> t \<and> x \<noteq> b}"
    by (auto simp: onward_def down_def)
  then show ?thesis by (auto simp: constraint_parent_has_alternate_root_path_def search_correct reaches_def)
qed

text \<open>Edges into \<open>X\<close> come or go: what is not at or below \<open>X\<close> keeps what is above it.\<close>

definition edges_differ :: "string set \<Rightarrow> graph_nodes \<Rightarrow> graph_nodes \<Rightarrow> bool" where
  "edges_differ X small large \<longleftrightarrow> down small \<subseteq> down large \<and> down large \<subseteq> down small \<union> UNIV \<times> X
     \<and> set (direct_roots small) = set (direct_roots large)"

lemma up_frame:
  assumes "E \<subseteq> D \<union> UNIV \<times> X" and "D \<subseteq> E" and "d \<notin> E\<^sup>* `` X"
  shows "(d, a) \<in> {(x, y). (y, x) \<in> E \<and> x \<noteq> t \<and> y \<noteq> t}\<^sup>* \<longleftrightarrow> (d, a) \<in> {(x, y). (y, x) \<in> D \<and> x \<noteq> t \<and> y \<noteq> t}\<^sup>*"
    (is "_ \<in> ?L\<^sup>* \<longleftrightarrow> _ \<in> ?S\<^sup>*")
proof
  assume "(d, a) \<in> ?L\<^sup>*"
  then have "(d, a) \<in> ?S\<^sup>* \<and> (a, d) \<in> E\<^sup>*"
  proof (induction rule: rtrancl_induct)
    case base
    then show ?case by simp
  next
    case (step y z)
    then have "y \<notin> X" using assms(3) by blast
    then have "(y, z) \<in> ?S" using step.hyps(2) assms(1) by auto
    moreover have "(z, d) \<in> E\<^sup>*" using step by (auto intro: converse_rtrancl_into_rtrancl)
    ultimately show ?case using step.IH by (auto intro: rtrancl_into_rtrancl)
  qed
  then show "(d, a) \<in> ?S\<^sup>*" ..
next
  assume "(d, a) \<in> ?S\<^sup>*"
  then show "(d, a) \<in> ?L\<^sup>*" by (rule rtrancl_mono [THEN subsetD, rotated]) (use assms(2) in auto)
qed

lemma down_frame:
  assumes "E \<subseteq> D \<union> UNIV \<times> X" and "D \<subseteq> E" and "d \<notin> E\<^sup>* `` X"
  shows "(s, d) \<in> {(x, y) \<in> E. x \<noteq> t \<and> x \<noteq> b}\<^sup>* \<longleftrightarrow> (s, d) \<in> {(x, y) \<in> D. x \<noteq> t \<and> x \<noteq> b}\<^sup>*"
    (is "_ \<in> ?L\<^sup>* \<longleftrightarrow> _ \<in> ?S\<^sup>*")
proof
  assume "(s, d) \<in> ?L\<^sup>*"
  then have "(s, d) \<in> ?S\<^sup>* \<and> (s, d) \<in> E\<^sup>*"
  proof (induction rule: converse_rtrancl_induct)
    case base
    then show ?case by simp
  next
    case (step x y)
    then have "y \<notin> X" using assms(3) by blast
    then have "(x, y) \<in> ?S" using step.hyps(1) assms(1) by auto
    moreover have "(x, d) \<in> E\<^sup>*" using step by (auto intro: converse_rtrancl_into_rtrancl)
    ultimately show ?case using step.IH by (auto intro: converse_rtrancl_into_rtrancl)
  qed
  then show "(s, d) \<in> ?S\<^sup>*" ..
next
  assume "(s, d) \<in> ?S\<^sup>*"
  then show "(s, d) \<in> ?L\<^sup>*" by (rule rtrancl_mono [THEN subsetD, rotated]) (use assms(2) in auto)
qed

lemma dominated_frame:
  assumes small: "consistent small" and large: "consistent large" and X: "edges_differ X small large"
    and t: "t \<notin> X \<union> (down large)\<^sup>+ `` X" and p: "p \<in> set (succs small parents_of t)"
  shows "constraint_is_dominated large t p = constraint_is_dominated small t p"
proof -
  have sub: "down large \<subseteq> down small \<union> UNIV \<times> X" "down small \<subseteq> down large"
    and roots: "set (direct_roots small) = set (direct_roots large)" using X by (auto simp: edges_differ_def)
  have parents: "q \<in> set (succs large parents_of t) \<longleftrightarrow> q \<in> set (succs small parents_of t)" for q
    using parents_down [OF small] parents_down [OF large] sub t by blast
  have above: "q \<notin> (down large)\<^sup>* `` X" if "q \<in> set (succs small parents_of t)" for q
  proof
    assume "q \<in> (down large)\<^sup>* `` X"
    moreover have "(q, t) \<in> down large" using that parents_down [OF small] sub(2) by blast
    ultimately have "t \<in> (down large)\<^sup>+ `` X" by (meson Image_iff rtrancl_into_trancl1)
    then show False using t by blast
  qed
  have same: "constraint_parent_is_ancestor large t a q = constraint_parent_is_ancestor small t a q"
    "constraint_parent_has_alternate_root_path large t a q = constraint_parent_has_alternate_root_path small t a q"
    if "q \<in> set (succs small parents_of t)" for a q
    using up_frame [OF sub above [OF that]] down_frame [OF sub above [OF that]]
    by (simp_all add: ancestor_iff [OF small] ancestor_iff [OF large] alternate_iff roots)
  have sets: "set (succs large parents_of t) = set (succs small parents_of t)" using parents by blast
  show ?thesis unfolding constraint_is_dominated_def list_ex_iff
    by (rule bex_cong [OF sets]) (simp add: same [OF p] same(1))
qed

lemma active_frame:
  assumes "consistent small" and "consistent large" and "edges_differ X small large"
    and "t \<notin> X \<union> (down large)\<^sup>+ `` X" and "bt_get small t = Some n" and "bt_get large t = Some m"
    and "cn_constraints m = cn_constraints n"
  shows "collect_active_constraints large t = collect_active_constraints small t"
proof -
  have "filter (\<lambda>(p, _). \<not> constraint_is_dominated large t p) (cn_constraints n)
      = filter (\<lambda>(p, _). \<not> constraint_is_dominated small t p) (cn_constraints n)"
  proof (rule filter_cong [OF refl])
    fix e assume "e \<in> set (cn_constraints n)"
    then have "fst e \<in> set (succs small parents_of t)"
      using assms(5) by (auto simp: succs_def parents_of_def bt_keys_def)
    from dominated_frame [OF assms(1-4) this]
    show "(case e of (p, _) \<Rightarrow> \<not> constraint_is_dominated large t p) = (case e of (p, _) \<Rightarrow> \<not> constraint_is_dominated small t p)"
      by (simp add: case_prod_beta)
  qed
  then show ?thesis by (simp add: collect_active_constraints_def assms(5-7))
qed

section \<open>Withdrawing a node's edges\<close>

lemma bt_in_get:
  assumes "bt_inv m"
  shows "(k, v) \<in> set m \<longleftrightarrow> bt_get m k = Some v"
proof
  assume "(k, v) \<in> set m"
  with assms show "bt_get m k = Some v"
    using map_of_is_SomeI [of m k v] btree.distinct_keys [of m] by (simp add: bt_get_map_of bt_keys_def)
qed (rule bt_get_in)

lemma direct_roots_iff:
  "bt_inv nodes \<Longrightarrow> k \<in> set (direct_roots nodes) \<longleftrightarrow> (\<exists>n. bt_get nodes k = Some n \<and> cn_direct n \<noteq> None)"
  by (force simp: direct_roots_def bt_in_get)

lemma bt_remove_missing: "k \<notin> set (bt_keys m) \<Longrightarrow> bt_remove k m = m"
  by (induction m) auto

lemma bt_remove_twice: "bt_inv m \<Longrightarrow> bt_remove k (bt_remove k m) = bt_remove k m"
proof (induction k m rule: bt_remove.induct)
  case (2 k a w m)
  then have "k = a \<Longrightarrow> k \<notin> set (bt_keys m)" by auto
  then show ?case using 2 bt_remove_missing [of k m] by auto
qed simp

definition retracted :: "string \<Rightarrow> bool \<Rightarrow> constraint_node \<Rightarrow> constraint_node" where
  "retracted parent child node = (if child then drop_constraint parent node else node)"

lemma retracted_False [simp]: "map_option (retracted parent False) x = x"
  by (cases x) (simp_all add: retracted_def)

lemma retract_edges_get:
  "distinct (map rr_lower_id deps) \<Longrightarrow>
   bt_get (fst (retract_edges parent deps (nodes, dirty))) k
     = map_option (retracted parent (k \<in> rr_lower_id ` set deps)) (bt_get nodes k)"
proof (induction deps arbitrary: nodes dirty)
  case Nil
  then show ?case by (simp add: retract_edges_def retracted_def option.map_ident)
next
  case (Cons dep deps)
  obtain nodes1 dirty1 where step: "retract_edge parent (nodes, dirty) dep = (nodes1, dirty1)" by fastforce
  then have "bt_get nodes1 k = map_option (retracted parent (k = rr_lower_id dep)) (bt_get nodes k)"
    by (cases "bt_get nodes (rr_lower_id dep)"; cases "k = rr_lower_id dep")
      (auto simp: retract_edge_def retracted_def bt_get_modify)
  moreover have "bt_get (fst (retract_edges parent deps (nodes1, dirty1))) k
      = map_option (retracted parent (k \<in> rr_lower_id ` set deps)) (bt_get nodes1 k)"
    using Cons by simp
  moreover have "fst (retract_edges parent (dep # deps) (nodes, dirty)) = fst (retract_edges parent deps (nodes1, dirty1))"
    by (simp add: retract_edges_def step)
  ultimately show ?case using Cons.prems
    by (cases "k = rr_lower_id dep"; cases "bt_get nodes k") (auto simp: retracted_def)
qed

lemma retract_edges_dirty:
  "set (snd (retract_edges parent deps (nodes, dirty))) = set dirty \<union> (rr_lower_id ` set deps \<inter> dom (bt_get nodes))"
proof (induction deps arbitrary: nodes dirty)
  case Nil
  then show ?case by (simp add: retract_edges_def)
next
  case (Cons dep deps)
  obtain nodes1 dirty1 where step: "retract_edge parent (nodes, dirty) dep = (nodes1, dirty1)" by fastforce
  then have "dom (bt_get nodes1) = dom (bt_get nodes)"
    "set dirty1 = set dirty \<union> ({rr_lower_id dep} \<inter> dom (bt_get nodes))"
    by (auto simp: retract_edge_def dom_def bt_get_modify split: option.splits if_splits)
  then show ?case using Cons.IH [of nodes1 dirty1] by (auto simp: retract_edges_def step)
qed

lemma retract_edges_inv: "bt_inv (fst (retract_edges parent deps st)) = bt_inv (fst st)"
  by (induction deps arbitrary: st) (auto simp: retract_edges_def retract_edge_def split: option.split)

lemma mark_dependencies_set:
  "set (mark_dependencies nodes deps dirty) = set dirty \<union> (down nodes)\<^sup>+ `` (rr_lower_id ` set deps)"
  unfolding mark_dependencies_def mark_dirty_below_def down_def
  by (induction deps arbitrary: dirty) (auto simp: collect_below_correct)

text \<open>The graph after node \<open>p\<close> lost its requirements, itself kept as \<open>own\<close> or removed.\<close>

definition withdrawn :: "string \<Rightarrow> constraint_node \<Rightarrow> constraint_node option \<Rightarrow> graph_nodes \<Rightarrow> graph_nodes \<Rightarrow> bool" where
  "withdrawn p n own nodes nodes' \<longleftrightarrow> bt_inv nodes'
     \<and> (\<forall>k. bt_get nodes' k = map_option (retracted p (k \<in> set (children_of n))) (if k = p then own else bt_get nodes k))"

definition keeps_input :: "constraint_node \<Rightarrow> constraint_node option \<Rightarrow> bool" where
  "keeps_input n own \<longleftrightarrow>
     (case own of
        None \<Rightarrow> cn_direct n = None \<and> cn_constraints n = []
      | Some m \<Rightarrow> cn_dependencies m = [] \<and> cn_direct m = cn_direct n \<and> cn_central_pin m = cn_central_pin n
          \<and> cn_constraints m = cn_constraints n \<and> cn_available_versions m = cn_available_versions n \<and> cn_id m = cn_id n)"

lemma retracted_simps [simp]:
  "cn_dependencies (retracted p b n) = cn_dependencies n" "cn_direct (retracted p b n) = cn_direct n"
  "cn_central_pin (retracted p b n) = cn_central_pin n" "cn_available_versions (retracted p b n) = cn_available_versions n"
  "cn_id (retracted p b n) = cn_id n" "cn_selected (retracted p b n) = cn_selected n"
  "cn_pruned (retracted p b n) = cn_pruned n" "cn_metadata_version (retracted p b n) = cn_metadata_version n"
  "cn_generation (retracted p b n) = cn_generation n" "children_of (retracted p b n) = children_of n"
  "cn_constraints (retracted p b n) = (if b then bt_remove p (cn_constraints n) else cn_constraints n)"
  by (simp_all add: retracted_def drop_constraint_def children_of_def)


lemma withdrawn_get:
  assumes "withdrawn p n own nodes nodes'"
  shows "bt_get nodes' k = map_option (retracted p (k \<in> set (children_of n))) (if k = p then own else bt_get nodes k)"
  using assms by (simp add: withdrawn_def)

lemma withdrawn_asked:
  assumes "bt_get nodes p = Some n" and "keeps_input n own" and "withdrawn p n own nodes nodes'"
  shows "asked nodes' q k r \<longleftrightarrow> asked nodes q k r \<and> q \<noteq> p"
  using withdrawn_get [OF assms(3), of q] assms(2)
  by (auto simp: asked_def keeps_input_def split: option.splits if_splits)

lemma withdrawn_held:
  assumes c: "consistent nodes" and n: "bt_get nodes p = Some n" and own: "keeps_input n own"
    and w: "withdrawn p n own nodes nodes'"
  shows "held nodes' q k r \<longleftrightarrow> held nodes q k r \<and> q \<noteq> p"
proof -
  have child: "k \<in> set (children_of n)" if "held nodes p k r"
  proof -
    have "asked nodes p k r" using that c unfolding consistent_def by blast
    then show ?thesis using n by (auto simp: asked_def children_of_def)
  qed
  have inv: "bt_inv (cn_constraints m)" if "bt_get nodes k = Some m" for m
    using that c by (auto simp: consistent_def wf_nodes_def)
  have none: "\<not> held nodes q p r" if "own = None" using that own n by (auto simp: keeps_input_def held_def)
  show ?thesis
  proof (cases "k = p \<and> own = None")
    case True
    then show ?thesis using none withdrawn_get [OF w, of k] by (auto simp: held_def)
  next
    case False
    then consider m m' where "bt_get nodes k = Some m" "bt_get nodes' k = Some m'"
        "cn_constraints m' = (if k \<in> set (children_of n) then bt_remove p (cn_constraints m) else cn_constraints m)"
      | "bt_get nodes k = None" "bt_get nodes' k = None"
      using withdrawn_get [OF w, of k] own n
      by (cases "bt_get nodes k") (auto simp: keeps_input_def split: option.splits if_splits)
    then show ?thesis
    proof cases
      case 1
      then show ?thesis using child inv by (auto simp: held_def bt_get_remove)
    qed (simp add: held_def)
  qed
qed

lemma withdrawn_consistent:
  assumes c: "consistent nodes" and n: "bt_get nodes p = Some n" and own: "keeps_input n own"
    and w: "withdrawn p n own nodes nodes'"
  shows "consistent nodes' \<and> edges_differ (set (children_of n)) nodes' nodes"
proof
  note asked = withdrawn_asked [OF n own w] and held = withdrawn_held [OF c n own w]
  have "wf_nodes nodes'"
    unfolding wf_nodes_def
  proof (intro conjI allI impI)
    show "bt_inv nodes'" using w by (simp add: withdrawn_def)
    fix k m' assume "bt_get nodes' k = Some m'"
    then obtain m where m: "(if k = p then own else bt_get nodes k) = Some m" "m' = retracted p (k \<in> set (children_of n)) m"
      using withdrawn_get [OF w, of k] by auto
    have "bt_inv (cn_constraints m) \<and> distinct (children_of m)"
      using m(1) c n own by (auto simp: consistent_def wf_nodes_def keeps_input_def children_of_def split: if_splits)
    then show "bt_inv (cn_constraints m')" "distinct (children_of m')" by (simp_all add: m(2) bt_inv_remove)
  qed
  then show "consistent nodes'" using c asked held by (simp add: consistent_def)
  have "down nodes' \<subseteq> down nodes" by (auto simp: down_iff asked)
  moreover have "down nodes \<subseteq> down nodes' \<union> UNIV \<times> set (children_of n)"
    using n by (auto simp: down_iff asked) (auto simp: asked_def children_of_def)
  moreover have "set (direct_roots nodes') = set (direct_roots nodes)"
  proof -
    have inv: "bt_inv nodes'" "bt_inv nodes" using w c by (simp_all add: withdrawn_def consistent_def wf_nodes_def)
    show ?thesis
      using withdrawn_get [OF w] own n
      by (auto simp: direct_roots_iff [OF inv(1)] direct_roots_iff [OF inv(2)] keeps_input_def split: option.splits if_splits)
  qed
  ultimately show "edges_differ (set (children_of n)) nodes' nodes" by (simp add: edges_differ_def)
qed

section \<open>Settled nodes\<close>

text \<open>The node is asked for, and carries the choice its place in the graph calls for.\<close>

definition settled :: "package_pruning \<Rightarrow> graph_nodes \<Rightarrow> string \<Rightarrow> constraint_node \<Rightarrow> bool" where
  "settled pruning nodes k n \<longleftrightarrow> (cn_direct n \<noteq> None \<or> cn_constraints n \<noteq> []) \<and>
     (case select_node_version n (selection_view nodes k n) of
        Inl _ \<Rightarrow> False
      | Inr selection \<Rightarrow> same_choice (cn_selected n) (selected_of selection)
          \<and> cn_pruned n = is_pruned_choice pruning k n (selected_of selection))"

definition settled_but :: "package_pruning \<Rightarrow> graph_nodes \<Rightarrow> string set \<Rightarrow> bool" where
  "settled_but pruning nodes dirty \<longleftrightarrow>
     (\<forall>k n. bt_get nodes k = Some n \<longrightarrow> k \<notin> dirty \<longrightarrow> settled pruning nodes k n)"

definition same_input :: "constraint_node \<Rightarrow> constraint_node \<Rightarrow> bool" where
  "same_input m n \<longleftrightarrow> cn_direct m = cn_direct n \<and> cn_central_pin m = cn_central_pin n
     \<and> cn_constraints m = cn_constraints n \<and> cn_available_versions m = cn_available_versions n \<and> cn_id m = cn_id n"

lemma select_same_input:
  assumes "same_input m n"
  shows "select_node_version m view = select_node_version n view"
proof -
  note eqs = assms [unfolded same_input_def]
  have acc: "node_accepts m view = node_accepts n view" "float_preference m view = float_preference n view"
    by (simp_all add: fun_eq_iff node_accepts_def float_preference_def eqs)
  have pinned: "select_pinned m pin = select_pinned n pin" for pin
    by (simp add: select_pinned_def pin_conflict_def eqs split: option.split)
  have available: "select_available m view vs = select_available n view vs" for vs
    by (simp add: select_available_def acc eqs Let_def split: option.split list.split)
  show ?thesis
    by (cases "cn_direct n"; cases "cn_central_pin n"; cases "cn_available_versions n")
      (simp_all add: select_node_version_def eqs acc pinned available split: option.split)
qed

lemma pruned_same_input: "same_input m n \<Longrightarrow> is_pruned_choice pruning k m next = is_pruned_choice pruning k n next"
  by (cases "next") (simp_all add: is_pruned_choice_def same_input_def)

lemma view_frame:
  assumes "consistent small" and "consistent large" and "edges_differ X small large"
    and "k \<notin> X \<union> (down large)\<^sup>+ `` X" and "bt_get small k = Some n" and "bt_get large k = Some m" and "same_input m n"
  shows "selection_view large k m = selection_view small k n"
  using active_frame [OF assms(1-6)] assms(7) by (simp add: selection_view_def same_input_def)

lemma settled_frame:
  assumes "consistent small" and "consistent large" and "edges_differ X small large"
    and "k \<notin> X \<union> (down large)\<^sup>+ `` X" and "bt_get small k = Some n" and "bt_get large k = Some m"
    and "same_input m n" and "cn_selected m = cn_selected n" and "cn_pruned m = cn_pruned n"
  shows "settled pruning large k m = settled pruning small k n"
  using view_frame [OF assms(1-7)] select_same_input [OF assms(7)] pruned_same_input [OF assms(7)]
    assms(7) [unfolded same_input_def] assms(8,9)
  by (simp add: settled_def split: sum.split)

lemma same_choice_refl [simp]: "same_choice a a"
  by (cases a) (simp_all add: same_choice_def pv_ord.cmp_refl)

text \<open>The two ways a turn withdraws edges.\<close>

lemma withdrawn_retract:
  assumes "consistent nodes" and "bt_get nodes p = Some n" and "bt_inv nodes1"
    and "\<And>k. bt_get nodes1 k = (if k = p then own else bt_get nodes k)"
  shows "withdrawn p n own nodes (fst (retract_edges p (cn_dependencies n) (nodes1, dirty)))"
proof -
  have "distinct (map rr_lower_id (cn_dependencies n))"
    using assms(1,2) by (auto simp: consistent_def wf_nodes_def children_of_def)
  then show ?thesis
    using assms(3,4) by (simp add: withdrawn_def retract_edges_inv retract_edges_get children_of_def)
qed

definition withdrawal :: "package_pruning \<Rightarrow> string \<Rightarrow> constraint_node \<Rightarrow> constraint_node option \<Rightarrow> graph_state \<Rightarrow> graph_state \<Rightarrow> bool" where
  "withdrawal pruning p n own st st' \<longleftrightarrow> withdrawn p n own (gs_nodes st) (gs_nodes st') \<and> keeps_input n own
     \<and> set (gs_dirty st') = set (gs_dirty st) \<union> (down (gs_nodes st))\<^sup>+ `` set (children_of n)
         \<union> (set (children_of n) \<inter> dom (bt_get (gs_nodes st')))
     \<and> (\<forall>m. own = Some m \<longrightarrow> (case select_node_version n (selection_view (gs_nodes st) p n) of
          Inl _ \<Rightarrow> False
        | Inr selection \<Rightarrow> cn_selected m = selected_of selection
            \<and> cn_pruned m = is_pruned_choice pruning p n (selected_of selection)) \<and> (cn_direct n \<noteq> None \<or> cn_constraints n \<noteq> []))"

lemma withdrawal_settled:
  assumes c: "consistent (gs_nodes st)" and n: "bt_get (gs_nodes st) p = Some n"
    and w: "withdrawal pruning p n own st st'" and s: "settled_but pruning (gs_nodes st) (insert p (set (gs_dirty st)))"
  shows "consistent (gs_nodes st') \<and> settled_but pruning (gs_nodes st') (set (gs_dirty st'))"
proof
  have wd: "withdrawn p n own (gs_nodes st) (gs_nodes st')" and keep: "keeps_input n own"
    and dirty: "set (gs_dirty st') = set (gs_dirty st) \<union> (down (gs_nodes st))\<^sup>+ `` set (children_of n)
       \<union> (set (children_of n) \<inter> dom (bt_get (gs_nodes st')))"
    using w by (simp_all add: withdrawal_def)
  note cd = withdrawn_consistent [OF c n keep wd]
  show "consistent (gs_nodes st')" using cd by simp
  show "settled_but pruning (gs_nodes st') (set (gs_dirty st'))"
    unfolding settled_but_def
  proof (intro allI impI)
    fix k m' assume k: "bt_get (gs_nodes st') k = Some m'" "k \<notin> set (gs_dirty st')"
    then have notX: "k \<notin> set (children_of n) \<union> (down (gs_nodes st))\<^sup>+ `` set (children_of n)"
      unfolding dirty by auto
    then have m': "(if k = p then own else bt_get (gs_nodes st) k) = Some m'"
      using withdrawn_get [OF wd, of k] k(1) by simp
    note frame = cd [THEN conjunct1] c cd [THEN conjunct2] notX k(1)
    show "settled pruning (gs_nodes st') k m'"
    proof (cases "k = p")
      case False
      then have m: "bt_get (gs_nodes st) k = Some m'" using m' by simp
      have "k \<notin> insert p (set (gs_dirty st))" using False k(2) by (simp add: dirty)
      then have "settled pruning (gs_nodes st) k m'" using s m by (simp add: settled_but_def)
      then show ?thesis using settled_frame [OF frame m] by (simp add: same_input_def)
    next
      case True
      then have own: "own = Some m'" using m' by simp
      then have same: "same_input n m'" using keep by (simp add: keeps_input_def same_input_def)
      have view: "selection_view (gs_nodes st) p n = selection_view (gs_nodes st') p m'"
        using view_frame [OF frame [unfolded True] n same] .
      have "select_node_version m' (selection_view (gs_nodes st') p m') = select_node_version n (selection_view (gs_nodes st) p n)"
        using select_same_input [OF same] view by simp
      moreover have "is_pruned_choice pruning p m' next = is_pruned_choice pruning p n next" for "next"
        using pruned_same_input [OF same] by simp
      ultimately show ?thesis
        using w own same True by (simp add: withdrawal_def settled_def same_input_def split: sum.splits)
    qed
  qed
qed

section \<open>A turn of the loop\<close>

lemma dirty_after_withdrawal:
  assumes "consistent (gs_nodes st)" and "bt_get (gs_nodes st) p = Some n"
    and "retract_edges p (cn_dependencies n) (nodes1, mark_dependencies (gs_nodes st) (cn_dependencies n) (gs_dirty st))
      = (nodes', dirty')"
    and "dom (bt_get nodes1) \<inter> set (children_of n) = dom (bt_get nodes') \<inter> set (children_of n)"
  shows "set dirty' = set (gs_dirty st) \<union> (down (gs_nodes st))\<^sup>+ `` set (children_of n)
    \<union> (set (children_of n) \<inter> dom (bt_get nodes'))"
  using retract_edges_dirty [of p "cn_dependencies n" nodes1 "mark_dependencies (gs_nodes st) (cn_dependencies n) (gs_dirty st)"]
    assms(3,4)
  by (simp add: mark_dependencies_set children_of_def Int_commute)

lemma remove_node_withdrawal:
  assumes c: "consistent (gs_nodes st)" and n: "bt_get (gs_nodes st) p = Some n"
    and "cn_direct n = None" and "cn_constraints n = []"
  shows "withdrawal pruning p n None st (remove_node p n st)"
proof -
  let ?dirty = "mark_dependencies (gs_nodes st) (cn_dependencies n) (gs_dirty st)"
  let ?nodes = "bt_remove p (gs_nodes st)"
  obtain nodes' dirty' where r: "retract_edges p (cn_dependencies n) (?nodes, ?dirty) = (nodes', dirty')" by fastforce
  have inv: "bt_inv (gs_nodes st)" using c by (simp add: consistent_def wf_nodes_def)
  have "withdrawn p n None (gs_nodes st) (fst (retract_edges p (cn_dependencies n) (?nodes, ?dirty)))"
    by (rule withdrawn_retract [OF c n]) (simp_all add: inv bt_inv_remove bt_get_remove)
  then have w: "withdrawn p n None (gs_nodes st) nodes'" by (simp add: r)
  have "dom (bt_get ?nodes) = dom (bt_get nodes')"
    using withdrawn_get [OF w] inv by (auto simp: dom_def bt_get_remove)
  then have "set dirty' = set (gs_dirty st) \<union> (down (gs_nodes st))\<^sup>+ `` set (children_of n)
      \<union> (set (children_of n) \<inter> dom (bt_get nodes'))"
    using dirty_after_withdrawal [OF c n r] by simp
  then show ?thesis using w assms(3,4) by (simp add: withdrawal_def keeps_input_def remove_node_def r)
qed

lemma revise_node_withdrawal:
  assumes c: "consistent (gs_nodes st)" and n: "bt_get (gs_nodes st) p = Some n"
    and revise: "revise_node p n (selected_of selection) pruned st = Inr st'"
    and choice: "select_node_version n (selection_view (gs_nodes st) p n) = Inr selection"
      "pruned = is_pruned_choice pruning p n (selected_of selection)"
    and asked: "cn_direct n \<noteq> None \<or> cn_constraints n \<noteq> []"
  shows "withdrawal pruning p n (Some (revised (selected_of selection) pruned n)) st st'"
proof -
  let ?dirty = "mark_dependencies (gs_nodes st) (cn_dependencies n) (gs_dirty st)"
  let ?own = "revised (selected_of selection) pruned n"
  let ?nodes = "bt_modify p (revised (selected_of selection) pruned) (gs_nodes st)"
  obtain nodes' dirty' where r: "retract_edges p (cn_dependencies n) (?nodes, ?dirty) = (nodes', dirty')" by fastforce
  have inv: "bt_inv (gs_nodes st)" using c by (simp add: consistent_def wf_nodes_def)
  have "withdrawn p n (Some ?own) (gs_nodes st) (fst (retract_edges p (cn_dependencies n) (?nodes, ?dirty)))"
    by (rule withdrawn_retract [OF c n]) (simp_all add: inv bt_get_modify n)
  then have w: "withdrawn p n (Some ?own) (gs_nodes st) nodes'" by (simp add: r)
  have "dom (bt_get ?nodes) = dom (bt_get nodes')"
    using withdrawn_get [OF w] n by (auto simp: dom_def bt_get_modify)
  then have "set dirty' = set (gs_dirty st) \<union> (down (gs_nodes st))\<^sup>+ `` set (children_of n)
      \<union> (set (children_of n) \<inter> dom (bt_get nodes'))"
    using dirty_after_withdrawal [OF c n r] by simp
  moreover have "gs_nodes st' = nodes'" "gs_dirty st' = dirty'"
    using revise by (auto simp: revise_node_def r Let_def split: if_splits)
  moreover have "keeps_input n (Some ?own)" by (simp add: keeps_input_def revised_def)
  ultimately show ?thesis using w choice asked by (simp add: withdrawal_def revised_def)
qed

text \<open>What a turn does: nothing, for an absent or settled node, or a withdrawal.\<close>

lemma settle_node_cases:
  assumes c: "consistent (gs_nodes st)" and step: "settle_node pruning p st = Inr st'"
  obtains (absent) "bt_get (gs_nodes st) p = None" "st' = st"
  | (unchanged) n where "bt_get (gs_nodes st) p = Some n" "st' = st" "settled pruning (gs_nodes st) p n" "cn_selected n \<noteq> None"
  | (removed) n where "bt_get (gs_nodes st) p = Some n" "st' = remove_node p n st" "cn_direct n = None"
      "withdrawal pruning p n None st st'"
  | (revised) n choice pruned where "bt_get (gs_nodes st) p = Some n" "revise_node p n choice pruned st = Inr st'"
      "withdrawal pruning p n (Some (Constraint_Graph.revised choice pruned n)) st st'"
proof (cases "bt_get (gs_nodes st) p")
  case None
  then show thesis using absent step by (simp add: settle_node_def)
next
  case (Some n)
  show thesis
  proof (cases "cn_direct n = None \<and> cn_constraints n = []")
    case True
    then have "st' = remove_node p n st" using step Some by (simp add: settle_node_def)
    then show thesis using removed [OF Some] remove_node_withdrawal [OF c Some] True by simp
  next
    case asked: False
    then obtain selection where sel: "select_node_version n (selection_view (gs_nodes st) p n) = Inr selection"
      using step Some by (auto simp: settle_node_def split: sum.splits)
    let ?next = "selected_of selection" and ?pruned = "is_pruned_choice pruning p n (selected_of selection)"
    show thesis
    proof (cases "?next \<noteq> None \<and> same_choice (cn_selected n) ?next \<and> cn_pruned n = ?pruned")
      case True
      then have "st' = st" using step Some asked sel by (auto simp: settle_node_def)
      moreover have "cn_selected n \<noteq> None" using True by (cases "cn_selected n") (auto simp: same_choice_def)
      ultimately show thesis using unchanged [OF Some] True sel asked by (simp add: settled_def)
    next
      case False
      then have "revise_node p n ?next ?pruned st = Inr st'"
        using step Some asked sel by (simp add: settle_node_def Let_def split: if_splits)
      then show thesis using revised [OF Some] revise_node_withdrawal [OF c Some _ sel] asked by simp
    qed
  qed
qed

lemma settle_node_settles:
  assumes c: "consistent (gs_nodes st)" and s: "settled_but pruning (gs_nodes st) (insert p (set (gs_dirty st)))"
    and step: "settle_node pruning p st = Inr st'"
  shows "consistent (gs_nodes st') \<and> settled_but pruning (gs_nodes st') (set (gs_dirty st'))"
  using c step
proof (cases rule: settle_node_cases)
  case absent
  then have "k \<noteq> p" if "bt_get (gs_nodes st) k = Some n" for k n using that by auto
  then show ?thesis using absent c s by (simp add: settled_but_def)
next
  case (unchanged n)
  have "settled pruning (gs_nodes st) k m" if "bt_get (gs_nodes st) k = Some m" "k \<notin> set (gs_dirty st)" for k m
    using that unchanged(1,3) s by (cases "k = p") (simp_all add: settled_but_def)
  then show ?thesis using unchanged(2) c by (simp add: settled_but_def)
next
  case (removed n)
  then show ?thesis using withdrawal_settled [OF c _ _ s] by blast
next
  case (revised n choice pruned)
  then show ?thesis using withdrawal_settled [OF c _ _ s] by blast
qed

lemma stabilize_induct:
  assumes "stabilize_constraint_nodes pruning st = Inr st'" and "I st"
    and "\<And>st d dirty st1. I st \<Longrightarrow> gs_dirty st = d # dirty \<Longrightarrow>
      settle_node pruning d (st\<lparr>gs_dirty := dirty\<rparr>) = Inr st1 \<Longrightarrow> I st1"
  shows "I st' \<and> gs_dirty st' = []"
  using assms
proof (induction pruning st rule: stabilize_constraint_nodes.induct)
  case (1 pruning st)
  show ?case
  proof (cases "gs_dirty st")
    case Nil
    then show ?thesis using "1.prems" by (simp add: stabilize_constraint_nodes.simps)
  next
    case (Cons d dirty)
    then obtain st1 where "settle_node pruning d (st\<lparr>gs_dirty := dirty\<rparr>) = Inr st1" "stabilize_constraint_nodes pruning st1 = Inr st'"
      using "1.prems"(1) by (auto simp: stabilize_constraint_nodes.simps [of pruning st] split: sum.splits)
    then show ?thesis using "1.IH" [OF Cons] "1.prems"(3) [OF "1.prems"(2) Cons] "1.prems"(3) by metis
  qed
qed

text \<open>C1: re-selection looks only at the nodes marked dirty, and it is enough. Starting from a graph
  whose other nodes carry the right choice, it ends with no dirty node, the two ends of every edge
  in agreement, and every node asked for and carrying the version that selection over the whole
  graph, with its dominated ranges left out, gives it.\<close>

theorem stabilize_fixpoint:
  assumes "consistent (gs_nodes st)" and "settled_but pruning (gs_nodes st) (set (gs_dirty st))"
    and "stabilize_constraint_nodes pruning st = Inr st'"
  shows "gs_dirty st' = [] \<and> consistent (gs_nodes st')
    \<and> (\<forall>k n. bt_get (gs_nodes st') k = Some n \<longrightarrow> settled pruning (gs_nodes st') k n)"
proof -
  let ?I = "\<lambda>st. consistent (gs_nodes st) \<and> settled_but pruning (gs_nodes st) (set (gs_dirty st))"
  have "?I st' \<and> gs_dirty st' = []"
  proof (rule stabilize_induct [OF assms(3), of ?I])
    fix st1 d dirty st2
    assume I: "?I st1" and dirty: "gs_dirty st1 = d # dirty"
      and step: "settle_node pruning d (st1\<lparr>gs_dirty := dirty\<rparr>) = Inr st2"
    show "?I st2" by (rule settle_node_settles [OF _ _ step]) (use I dirty in simp_all)
  qed (use assms(1,2) in simp)
  then show ?thesis by (simp add: settled_but_def)
qed

definition one_root :: graph_state where
  "one_root = \<lparr>gs_nodes = [(''a'', fresh_node ''A'' (Some (at_least 1)) None)], gs_dirty = [''a''], gs_ready = []\<rparr>"

definition one_root_settled :: graph_state where
  "one_root_settled = \<lparr>gs_nodes = [(''a'', (fresh_node ''A'' (Some (at_least 1)) None)
      \<lparr>cn_selected := Some (plain_version 1), cn_generation := 1\<rparr>)], gs_dirty = [], gs_ready = [''a'']\<rparr>"

lemma one_root_run: "stabilize_constraint_nodes no_pruning one_root = Inr one_root_settled"
  by (simp add: stabilize_constraint_nodes.simps one_root_def one_root_settled_def settle_node_def fresh_node_def
      select_node_version_def selection_view_def view_any_def bt_values_def is_floating_def consider_lower_def
      node_accepts_def range_contains_def above_lower_def below_upper_def allows_prerelease_def is_pruned_choice_def
      same_choice_def revise_node_def mark_dependencies_def retract_edges_def revised_def MAX_GRAPH_REVISIONS_def
      Let_def example_eval)

lemma one_root_consistent: "consistent (gs_nodes one_root)"
  by (auto simp: consistent_def wf_nodes_def one_root_def asked_def held_def fresh_node_def children_of_def split: if_splits)

theorem stabilize_fixpoint_witness:
  "\<exists>n. bt_get (gs_nodes one_root_settled) ''a'' = Some n \<and> settled no_pruning (gs_nodes one_root_settled) ''a'' n"
proof -
  have "settled_but no_pruning (gs_nodes one_root) (set (gs_dirty one_root))"
    by (simp add: settled_but_def one_root_def)
  from stabilize_fixpoint [OF one_root_consistent this one_root_run] show ?thesis
    by (simp add: one_root_settled_def)
qed

end
