(* ===== verification/Constraint_Install.thy ===== *)
theory Constraint_Install
  imports Constraint_Fixpoint
begin

text \<open>
  Installing the requirements of a selected version keeps both ends of every edge in agreement and
  marks dirty every node whose choice may change.
\<close>

section \<open>Sorted requirements\<close>

lemma dedup_requirements_subset: "set (dedup_requirements deps) \<subseteq> set deps"
  by (induction deps rule: dedup_requirements.induct) auto

lemma dedup_requirements_sorted:
  "sorted_wrt (\<lambda>a b. rr_lower_id a \<le> rr_lower_id b) deps \<Longrightarrow>
   sorted_wrt (\<lambda>a b. rr_lower_id a < rr_lower_id b) (dedup_requirements deps)"
proof (induction deps rule: dedup_requirements.induct)
  case (1 a b rest)
  show ?case
  proof (cases "rr_lower_id a = rr_lower_id b")
    case True
    then show ?thesis using 1 by simp
  next
    case False
    then have "\<forall>c \<in> set (b # rest). rr_lower_id a < rr_lower_id c" using "1.prems" by auto
    then have "\<forall>c \<in> set (dedup_requirements (b # rest)). rr_lower_id a < rr_lower_id c"
      using dedup_requirements_subset [of "b # rest"] by blast
    then show ?thesis using 1 False by simp
  qed
qed simp_all

lemma requirements_distinct:
  "distinct (map rr_lower_id (dedup_requirements (sort_by requirement_cmp deps)))"
proof -
  have ord: "rust_ord requirement_cmp" unfolding requirement_cmp_def [abs_def] by (rule rust_ord_key)
  have "sorted_wrt (\<lambda>a b. rr_lower_id a \<le> rr_lower_id b) (sort_by requirement_cmp deps)"
    by (rule sorted_wrt_mono_rel [OF _ rust_ord.sorted_sort_by [OF ord]]) (auto simp: requirement_cmp_def)
  then have "sorted_wrt (<) (map rr_lower_id (dedup_requirements (sort_by requirement_cmp deps)))"
    unfolding sorted_wrt_map by (rule dedup_requirements_sorted)
  then show ?thesis using strict_sorted_iff by blast
qed

section \<open>The children's end\<close>

definition installed_child :: "central_package_pin list \<Rightarrow> string \<Rightarrow> package_requirement \<Rightarrow> constraint_node option \<Rightarrow> constraint_node" where
  "installed_child pins parent dep child =
     add_constraint parent (rr_range dep) (pin_of pins (rr_lower_id dep))
       (case child of Some c \<Rightarrow> c | None \<Rightarrow> fresh_node (rr_id dep) None (pin_of pins (rr_lower_id dep)))"

lemma installed_child_simps [simp]:
  "cn_dependencies (installed_child pins p d c) = (case c of None \<Rightarrow> [] | Some n \<Rightarrow> cn_dependencies n)"
  "cn_direct (installed_child pins p d c) = (case c of None \<Rightarrow> None | Some n \<Rightarrow> cn_direct n)"
  "cn_metadata_version (installed_child pins p d c) = (case c of None \<Rightarrow> None | Some n \<Rightarrow> cn_metadata_version n)"
  "cn_selected (installed_child pins p d c) = (case c of None \<Rightarrow> None | Some n \<Rightarrow> cn_selected n)"
  "cn_pruned (installed_child pins p d c) = (case c of None \<Rightarrow> False | Some n \<Rightarrow> cn_pruned n)"
  "cn_generation (installed_child pins p d c) = (case c of None \<Rightarrow> 0 | Some n \<Rightarrow> cn_generation n)"
  "cn_constraints (installed_child pins p d c)
    = bt_insert p (rr_range d) (case c of None \<Rightarrow> [] | Some n \<Rightarrow> cn_constraints n)"
  by (simp_all add: installed_child_def add_constraint_def fresh_node_def split: option.split)

lemma install_edge_get:
  "bt_inv nodes \<Longrightarrow> bt_get (fst (install_edge pins p (nodes, dirty) d)) k
     = (if k = rr_lower_id d then Some (installed_child pins p d (bt_get nodes k)) else bt_get nodes k)"
  by (simp add: install_edge_def Let_def bt_get_insert installed_child_def)

lemma install_edge_inv: "bt_inv (fst st) \<Longrightarrow> bt_inv (fst (install_edge pins p st d))"
  by (simp add: install_edge_def Let_def bt_inv_insert)

lemma install_edge_down:
  assumes "bt_inv nodes"
  shows "down (fst (install_edge pins p (nodes, dirty) d)) = down nodes"
proof -
  have "succs (fst (install_edge pins p (nodes, dirty) d)) children_of k = succs nodes children_of k" for k
    using install_edge_get [OF assms, of pins p dirty d k]
    by (auto simp: succs_def children_of_def split: option.split)
  then show ?thesis by (simp add: down_def edges_def)
qed

lemma install_edges_inv: "bt_inv (fst st) \<Longrightarrow> bt_inv (fst (install_edges pins p deps st))"
  by (induction deps arbitrary: st) (simp_all add: install_edges_def install_edge_inv)

lemma install_edges_down: "bt_inv (fst st) \<Longrightarrow> down (fst (install_edges pins p deps st)) = down (fst st)"
proof (induction deps arbitrary: st)
  case Nil
  then show ?case by (simp add: install_edges_def)
next
  case (Cons d deps)
  then show ?case using install_edge_down [of "fst st" pins p "snd st" d] install_edge_inv [of st pins p d]
    by (simp add: install_edges_def)
qed

lemma install_edges_other:
  "bt_inv (fst st) \<Longrightarrow> k \<notin> rr_lower_id ` set deps \<Longrightarrow> bt_get (fst (install_edges pins p deps st)) k = bt_get (fst st) k"
proof (induction deps arbitrary: st)
  case Nil
  then show ?case by (simp add: install_edges_def)
next
  case (Cons d deps)
  then show ?case using install_edge_get [of "fst st" pins p "snd st" d k] install_edge_inv [of st pins p d]
    by (simp add: install_edges_def)
qed

lemma install_edges_child:
  "bt_inv (fst st) \<Longrightarrow> distinct (map rr_lower_id deps) \<Longrightarrow> d \<in> set deps \<Longrightarrow>
   bt_get (fst (install_edges pins p deps st)) (rr_lower_id d)
     = Some (installed_child pins p d (bt_get (fst st) (rr_lower_id d)))"
proof (induction deps arbitrary: st)
  case (Cons e deps)
  let ?st1 = "install_edge pins p st e"
  have inv: "bt_inv (fst ?st1)" using Cons.prems(1) by (rule install_edge_inv)
  have rest: "install_edges pins p (e # deps) st = install_edges pins p deps ?st1" by (simp add: install_edges_def)
  show ?case
  proof (cases "d = e")
    case True
    then show ?thesis
      using Cons.prems install_edges_other [OF inv, of "rr_lower_id d" deps pins p]
        install_edge_get [of "fst st" pins p "snd st" e] unfolding rest by simp
  next
    case False
    then have "rr_lower_id d \<in> rr_lower_id ` set deps" using Cons.prems(3) by simp
    then have "rr_lower_id d \<noteq> rr_lower_id e" using Cons.prems(2) by auto
    then show ?thesis
      using Cons.IH [OF inv] Cons.prems False install_edge_get [of "fst st" pins p "snd st" e]
      unfolding rest by simp
  qed
qed simp

text \<open>The dirty set: the children, and what lies below those that had requirements of their own.\<close>

definition has_metadata :: "graph_nodes \<Rightarrow> string \<Rightarrow> bool" where
  "has_metadata nodes k \<longleftrightarrow> (\<exists>c. bt_get nodes k = Some c \<and> cn_metadata_version c \<noteq> None)"

lemma install_edges_dirty:
  "bt_inv nodes \<Longrightarrow> distinct (map rr_lower_id deps) \<Longrightarrow>
   set (snd (install_edges pins p deps (nodes, dirty)))
     = set dirty \<union> rr_lower_id ` set deps \<union> (down nodes)\<^sup>+ `` {k \<in> rr_lower_id ` set deps. has_metadata nodes k}"
proof (induction deps arbitrary: nodes dirty)
  case Nil
  then show ?case by (simp add: install_edges_def)
next
  case (Cons d deps)
  obtain nodes1 dirty1 where step: "install_edge pins p (nodes, dirty) d = (nodes1, dirty1)" by fastforce
  have inv: "bt_inv nodes1" and down: "down nodes1 = down nodes"
    using install_edge_inv [of "(nodes, dirty)" pins p d] install_edge_down [of nodes pins p dirty d] Cons.prems(1)
    by (simp_all add: step)
  have "set dirty1 = set dirty \<union> {rr_lower_id d}
      \<union> (if has_metadata nodes (rr_lower_id d) then (down nodes)\<^sup>+ `` {rr_lower_id d} else {})"
    using step by (auto simp: install_edge_def Let_def has_metadata_def mark_dirty_below_def collect_below_correct down_def
        split: option.splits if_splits)
  moreover have "has_metadata nodes1 k = has_metadata nodes k" if "k \<in> rr_lower_id ` set deps" for k
  proof -
    have "rr_lower_id d \<notin> rr_lower_id ` set deps" using Cons.prems(2) by simp
    with that have "k \<noteq> rr_lower_id d" by blast
    then show ?thesis
      using install_edge_get [OF Cons.prems(1), of pins p dirty d k] by (simp add: step has_metadata_def)
  qed
  then have "{k \<in> rr_lower_id ` set deps. has_metadata nodes1 k} = {k \<in> rr_lower_id ` set deps. has_metadata nodes k}" by blast
  moreover have "{k \<in> rr_lower_id ` set (d # deps). has_metadata nodes k}
      = {k \<in> rr_lower_id ` set deps. has_metadata nodes k} \<union> (if has_metadata nodes (rr_lower_id d) then {rr_lower_id d} else {})"
    by auto
  moreover have "install_edges pins p (d # deps) (nodes, dirty) = install_edges pins p deps (nodes1, dirty1)"
    by (simp add: install_edges_def step)
  ultimately show ?case using Cons.IH [OF inv, of dirty1] Cons.prems(2) down by auto
qed

section \<open>Installing\<close>

text \<open>A node without metadata has no requirements.\<close>

definition bare :: "graph_nodes \<Rightarrow> bool" where
  "bare nodes \<longleftrightarrow> (\<forall>k n. bt_get nodes k = Some n \<longrightarrow> cn_metadata_version n = None \<longrightarrow> cn_dependencies n = [])"

text \<open>The graph once the requirements \<open>deps\<close> of node \<open>p\<close> are installed.\<close>

definition installed :: "central_package_pin list \<Rightarrow> string \<Rightarrow> constraint_node \<Rightarrow> package_requirement list \<Rightarrow>
    graph_nodes \<Rightarrow> graph_nodes \<Rightarrow> bool" where
  "installed pins p n deps nodes nodes' \<longleftrightarrow> bt_inv nodes' \<and> distinct (map rr_lower_id deps)
     \<and> (\<forall>k. k \<notin> rr_lower_id ` set deps \<longrightarrow> bt_get nodes' k
          = (if k = p then Some (n\<lparr>cn_metadata_version := cn_selected n, cn_dependencies := deps\<rparr>) else bt_get nodes k))
     \<and> (\<forall>d \<in> set deps. bt_get nodes' (rr_lower_id d)
          = (let c = installed_child pins p d (if rr_lower_id d = p then Some (n\<lparr>cn_metadata_version := cn_selected n\<rparr>)
                                               else bt_get nodes (rr_lower_id d))
             in Some (if rr_lower_id d = p then c\<lparr>cn_dependencies := deps\<rparr> else c)))"

lemma install_result:
  assumes "install_node_dependencies p generation raw pins st = Inr st'" and "bt_inv (gs_nodes st)"
    and "bt_get (gs_nodes st) p = Some n" and "cn_generation n = generation"
  defines "deps \<equiv> dedup_requirements (sort_by requirement_cmp raw)"
  defines "nodes \<equiv> bt_insert p (n\<lparr>cn_metadata_version := cn_selected n\<rparr>) (gs_nodes st)"
  shows "installed pins p n deps (gs_nodes st) (gs_nodes st') \<and> gs_ready st' = gs_ready st
    \<and> set (gs_dirty st') = set (gs_dirty st) \<union> rr_lower_id ` set deps
        \<union> (down nodes)\<^sup>+ `` {k \<in> rr_lower_id ` set deps. has_metadata nodes k}"
proof -
  obtain nodes1 dirty1 where edges: "install_edges pins p deps (nodes, gs_dirty st) = (nodes1, dirty1)" by fastforce
  have inv: "bt_inv nodes" using assms(2) by (simp add: nodes_def bt_inv_insert)
  have distinct: "distinct (map rr_lower_id deps)" unfolding deps_def by (rule requirements_distinct)
  have st': "st' = st\<lparr>gs_nodes := bt_modify p (\<lambda>n. n\<lparr>cn_dependencies := deps\<rparr>) nodes1, gs_dirty := dirty1\<rparr>"
    using assms(1,3,4) edges unfolding deps_def nodes_def
    by (auto simp: install_node_dependencies_def Let_def split: option.splits)
  have get: "bt_get nodes k = (if k = p then Some (n\<lparr>cn_metadata_version := cn_selected n\<rparr>) else bt_get (gs_nodes st) k)" for k
    using assms(2) by (simp add: nodes_def bt_get_insert)
  have inv1: "bt_inv nodes1" using install_edges_inv [of "(nodes, gs_dirty st)" pins p deps] inv by (simp add: edges)
  have other: "bt_get nodes1 k = bt_get nodes k" if "k \<notin> rr_lower_id ` set deps" for k
    using install_edges_other [of "(nodes, gs_dirty st)" k deps pins p] inv that by (simp add: edges)
  have child: "bt_get nodes1 (rr_lower_id d) = Some (installed_child pins p d (bt_get nodes (rr_lower_id d)))"
    if "d \<in> set deps" for d
    using install_edges_child [of "(nodes, gs_dirty st)" deps d pins p] inv that distinct by (simp add: edges)
  have "installed pins p n deps (gs_nodes st) (gs_nodes st')"
    unfolding installed_def
  proof (intro conjI allI impI ballI)
    show "bt_inv (gs_nodes st')" by (simp add: st' inv1)
    show "distinct (map rr_lower_id deps)" by (rule distinct)
    fix k assume "k \<notin> rr_lower_id ` set deps"
    then show "bt_get (gs_nodes st') k
        = (if k = p then Some (n\<lparr>cn_metadata_version := cn_selected n, cn_dependencies := deps\<rparr>) else bt_get (gs_nodes st) k)"
      using other [of k] get [of k] by (cases "k = p") (simp_all add: st' bt_get_modify)
  next
    fix d assume "d \<in> set deps"
    from child [OF this] show "bt_get (gs_nodes st') (rr_lower_id d)
        = (let c = installed_child pins p d (if rr_lower_id d = p then Some (n\<lparr>cn_metadata_version := cn_selected n\<rparr>)
                                               else bt_get (gs_nodes st) (rr_lower_id d))
           in Some (if rr_lower_id d = p then c\<lparr>cn_dependencies := deps\<rparr> else c))"
      using get [of "rr_lower_id d"] by (cases "rr_lower_id d = p") (simp_all add: st' bt_get_modify Let_def)
  qed
  then show ?thesis
    using install_edges_dirty [OF inv distinct, of pins p "gs_dirty st"] by (simp add: edges st')
qed

text \<open>Every node of the graph after installing, in terms of the node before.\<close>

lemma installed_get:
  assumes "installed pins p n deps nodes nodes'" and "bt_get nodes p = Some n"
  shows "bt_get nodes' k = (case List.find (\<lambda>d. rr_lower_id d = k) deps of
      None \<Rightarrow> (if k = p then Some (n\<lparr>cn_metadata_version := cn_selected n, cn_dependencies := deps\<rparr>) else bt_get nodes k)
    | Some d \<Rightarrow> (let c = installed_child pins p d (if k = p then Some (n\<lparr>cn_metadata_version := cn_selected n\<rparr>) else bt_get nodes k)
        in Some (if k = p then c\<lparr>cn_dependencies := deps\<rparr> else c)))"
proof (cases "List.find (\<lambda>d. rr_lower_id d = k) deps")
  case None
  then have "k \<notin> rr_lower_id ` set deps" by (auto simp: find_None_iff)
  then show ?thesis using assms None by (simp add: installed_def)
next
  case (Some d)
  then have "d \<in> set deps" "rr_lower_id d = k" by (auto dest: find_SomeD)
  then show ?thesis using assms Some unfolding installed_def by auto
qed

lemma installed_children: 
  assumes "installed pins p n deps nodes nodes'" and "bt_get nodes p = Some n" and "bt_get nodes' k = Some m'"
  shows "cn_dependencies m' = (if k = p then deps else (case bt_get nodes k of None \<Rightarrow> [] | Some m \<Rightarrow> cn_dependencies m))"
    and "cn_direct m' = (case bt_get nodes k of None \<Rightarrow> None | Some m \<Rightarrow> cn_direct m)"
    and "cn_constraints m' = (case List.find (\<lambda>d. rr_lower_id d = k) deps of
        None \<Rightarrow> (case bt_get nodes k of None \<Rightarrow> [] | Some m \<Rightarrow> cn_constraints m)
      | Some d \<Rightarrow> bt_insert p (rr_range d) (case bt_get nodes k of None \<Rightarrow> [] | Some m \<Rightarrow> cn_constraints m))"
  using installed_get [OF assms(1,2), of k] assms(2,3)
  by (auto simp: Let_def split: option.splits if_splits)

lemma installed_live:
  assumes "installed pins p n deps nodes nodes'" and "bt_get nodes p = Some n"
  shows "bt_get nodes' k = None \<longleftrightarrow> bt_get nodes k = None \<and> k \<notin> rr_lower_id ` set deps"
  using installed_get [OF assms, of k] assms(2)
  by (auto simp: Let_def find_None_iff split: option.splits if_splits dest!: find_SomeD)

lemma installed_asked:
  assumes i: "installed pins p n deps nodes nodes'" and n: "bt_get nodes p = Some n" and "cn_dependencies n = []"
  shows "asked nodes' q k r \<longleftrightarrow> asked nodes q k r \<or> q = p \<and> (\<exists>d \<in> set deps. rr_lower_id d = k \<and> rr_range d = r)"
proof (cases "bt_get nodes' q")
  case None
  then have "q \<noteq> p" "bt_get nodes q = None" using installed_live [OF i n, of q] n by auto
  then show ?thesis using None by (auto simp: asked_def)
next
  case (Some m')
  show ?thesis
    using installed_children(1) [OF i n Some] n assms(3) by (auto simp: asked_def Some split: option.splits if_splits)
qed

lemma installed_held:
  assumes c: "consistent nodes" and i: "installed pins p n deps nodes nodes'" and n: "bt_get nodes p = Some n"
    and "cn_dependencies n = []"
  shows "held nodes' q k r \<longleftrightarrow> held nodes q k r \<or> q = p \<and> (\<exists>d \<in> set deps. rr_lower_id d = k \<and> rr_range d = r)"
proof -
  have none: "\<not> held nodes p k r" for r
  proof -
    have "\<not> asked nodes p k r" using n assms(4) by (simp add: asked_def)
    then show ?thesis using c unfolding consistent_def by blast
  qed
  have inv: "bt_get nodes k = Some m \<Longrightarrow> bt_inv (cn_constraints m)" for m using c by (simp add: consistent_def wf_nodes_def)
  have distinct: "distinct (map rr_lower_id deps)" using i by (simp add: installed_def)
  show ?thesis
  proof (cases "List.find (\<lambda>d. rr_lower_id d = k) deps")
    case None
    then have "\<forall>d \<in> set deps. rr_lower_id d \<noteq> k" by (auto simp: find_None_iff)
    moreover have "held nodes' q k r \<longleftrightarrow> held nodes q k r"
      using installed_get [OF i n, of k] n by (simp add: held_def None)
    ultimately show ?thesis by blast
  next
    case (Some d)
    then have d: "d \<in> set deps" "rr_lower_id d = k" by (auto dest: find_SomeD)
    have "inj_on rr_lower_id (set deps)" using distinct by (simp add: distinct_map)
    then have only: "e = d" if "e \<in> set deps" "rr_lower_id e = k" for e using that d by (simp add: inj_on_def)
    have new: "(\<exists>e \<in> set deps. rr_lower_id e = k \<and> rr_range e = r) \<longleftrightarrow> r = rr_range d" using d only by metis
    have "k \<in> rr_lower_id ` set deps" using d by blast
    then obtain m' where m': "bt_get nodes' k = Some m'" using installed_live [OF i n, of k] by (cases "bt_get nodes' k") simp_all
    have get: "bt_get (cn_constraints m') q = (if q = p then Some (rr_range d) else
        (case bt_get nodes k of None \<Rightarrow> None | Some m \<Rightarrow> bt_get (cn_constraints m) q))"
      using installed_children(3) [OF i n m'] inv by (cases "bt_get nodes k") (simp_all add: Some bt_get_insert)
    show ?thesis
    proof (cases "q = p")
      case True
      then have "held nodes' q k r \<longleftrightarrow> r = rr_range d" using get m' by (auto simp: held_def)
      then show ?thesis using none [of r] new True by simp
    next
      case False
      then have "held nodes' q k r \<longleftrightarrow> held nodes q k r"
        using get m' by (cases "bt_get nodes k") (simp_all add: held_def)
      then show ?thesis using False by simp
    qed
  qed
qed

lemma installed_wf:
  assumes c: "wf_nodes nodes" and i: "installed pins p n deps nodes nodes'" and n: "bt_get nodes p = Some n"
  shows "wf_nodes nodes'"
  unfolding wf_nodes_def
proof (intro conjI allI impI)
  have distinct: "distinct (map rr_lower_id deps)" using i by (simp add: installed_def)
  show "bt_inv nodes'" using i by (simp add: installed_def)
  fix k m' assume m': "bt_get nodes' k = Some m'"
  have old: "bt_inv (cn_constraints m)" "distinct (children_of m)" if "bt_get nodes k = Some m" for m
    using that c by (simp_all add: wf_nodes_def)
  show "bt_inv (cn_constraints m')"
    using installed_children(3) [OF i n m'] old
    by (cases "bt_get nodes k"; cases "List.find (\<lambda>d. rr_lower_id d = k) deps") (simp_all add: bt_inv_insert)
  show "distinct (children_of m')"
    using installed_children(1) [OF i n m'] old distinct
    by (cases "bt_get nodes k"; cases "k = p") (simp_all add: children_of_def)
qed

lemma installed_consistent:
  assumes c: "consistent nodes" and i: "installed pins p n deps nodes nodes'" and n: "bt_get nodes p = Some n"
    and none: "cn_dependencies n = []"
  shows "consistent nodes'"
proof -
  have ends: "asked nodes q k r \<longleftrightarrow> held nodes q k r" for q k r using c by (simp add: consistent_def)
  have "asked nodes' q k r \<longleftrightarrow> held nodes' q k r" for q k r
    by (simp only: installed_asked [OF i n none] installed_held [OF c i n none] ends)
  moreover have "wf_nodes nodes'" using installed_wf [OF _ i n] c by (simp add: consistent_def)
  ultimately show ?thesis by (simp add: consistent_def)
qed

lemma installed_roots:
  assumes "wf_nodes nodes" and i: "installed pins p n deps nodes nodes'" and n: "bt_get nodes p = Some n"
  shows "set (direct_roots nodes') = set (direct_roots nodes)"
proof (rule set_eqI)
  have inv: "bt_inv nodes'" "bt_inv nodes" using i assms(1) by (simp_all add: installed_def wf_nodes_def)
  fix k
  have "(\<exists>m'. bt_get nodes' k = Some m' \<and> cn_direct m' \<noteq> None) \<longleftrightarrow> (\<exists>m. bt_get nodes k = Some m \<and> cn_direct m \<noteq> None)"
  proof (cases "bt_get nodes' k")
    case None
    then have "bt_get nodes k = None" using installed_live [OF i n, of k] by simp
    then show ?thesis using None by simp
  next
    case (Some m')
    then show ?thesis using installed_children(2) [OF i n Some] by (cases "bt_get nodes k") simp_all
  qed
  then show "k \<in> set (direct_roots nodes') \<longleftrightarrow> k \<in> set (direct_roots nodes)"
    unfolding direct_roots_iff [OF inv(1)] direct_roots_iff [OF inv(2)] .
qed

lemma installed_differ:
  assumes c: "wf_nodes nodes" and i: "installed pins p n deps nodes nodes'" and n: "bt_get nodes p = Some n"
    and none: "cn_dependencies n = []"
  shows "edges_differ (rr_lower_id ` set deps) nodes nodes'"
  unfolding edges_differ_def
proof (intro conjI subrelI)
  note asked = installed_asked [OF i n none]
  fix q k assume "(q, k) \<in> down nodes"
  then show "(q, k) \<in> down nodes'" unfolding down_iff asked by blast
next
  note asked = installed_asked [OF i n none]
  fix q k assume "(q, k) \<in> down nodes'"
  then obtain r where "asked nodes q k r \<or> q = p \<and> (\<exists>d \<in> set deps. rr_lower_id d = k \<and> rr_range d = r)"
    unfolding down_iff asked by blast
  then have "(q, k) \<in> down nodes \<or> k \<in> rr_lower_id ` set deps" unfolding down_iff by blast
  then show "(q, k) \<in> down nodes \<union> UNIV \<times> rr_lower_id ` set deps" by blast
next
  show "set (direct_roots nodes) = set (direct_roots nodes')" using installed_roots [OF c i n] by simp
qed

text \<open>Below the new edges there is nothing that was not below their heads before, but the heads.\<close>

lemma below_new_edges:
  assumes "large \<subseteq> small \<union> UNIV \<times> X"
  shows "large\<^sup>+ `` X \<subseteq> X \<union> small\<^sup>+ `` X"
proof
  fix y assume "y \<in> large\<^sup>+ `` X"
  then obtain x where "x \<in> X" "(x, y) \<in> large\<^sup>+" by blast
  from this(2) show "y \<in> X \<union> small\<^sup>+ `` X"
  proof (induction rule: trancl_induct)
    case (base y)
    then show ?case using assms \<open>x \<in> X\<close> by blast
  next
    case (step y z)
    then consider "z \<in> X" | "(y, z) \<in> small" "y \<in> X" | "(y, z) \<in> small" "y \<in> small\<^sup>+ `` X" using assms by blast
    then show ?case by cases (auto intro: trancl_into_trancl)
  qed
qed

lemma install_settles:
  assumes c: "consistent (gs_nodes st)" and b: "bare (gs_nodes st)"
    and s: "settled_but pruning (gs_nodes st) (set (gs_dirty st))"
    and step: "install_node_dependencies p generation raw pins st = Inr st'"
    and n: "bt_get (gs_nodes st) p = Some n" "cn_generation n = generation"
    and fresh: "cn_metadata_version n = None" and chosen: "cn_selected n \<noteq> None"
  shows "consistent (gs_nodes st') \<and> bare (gs_nodes st') \<and> settled_but pruning (gs_nodes st') (set (gs_dirty st'))"
proof -
  let ?deps = "dedup_requirements (sort_by requirement_cmp raw)"
  let ?X = "rr_lower_id ` set ?deps"
  let ?nodes = "bt_insert p (n\<lparr>cn_metadata_version := cn_selected n\<rparr>) (gs_nodes st)"
  have inv: "bt_inv (gs_nodes st)" using c by (simp add: consistent_def wf_nodes_def)
  have none: "cn_dependencies n = []" using b n(1) fresh by (simp add: bare_def)
  note result = install_result [OF step inv n]
  have i: "installed pins p n ?deps (gs_nodes st) (gs_nodes st')" using result by simp
  have ce: "consistent (gs_nodes st') \<and> edges_differ ?X (gs_nodes st) (gs_nodes st')"
    using installed_consistent [OF c i n(1) none] installed_differ [OF _ i n(1) none] c by (simp add: consistent_def)
  have "succs ?nodes children_of k = succs (gs_nodes st) children_of k" for k
    using inv n(1) by (auto simp: succs_def bt_get_insert children_of_def)
  then have down: "down ?nodes = down (gs_nodes st)" by (simp add: down_def edges_def)
  have "has_metadata ?nodes k" if below: "(k, j) \<in> (down (gs_nodes st))\<^sup>+" for k j
  proof -
    obtain j' where "(k, j') \<in> down (gs_nodes st)" using tranclD [OF below] by blast
    then obtain m where m: "bt_get (gs_nodes st) k = Some m" "cn_dependencies m \<noteq> []"
      unfolding down_iff asked_def by force
    then have "cn_metadata_version m \<noteq> None" "k \<noteq> p" using b n(1) none by (auto simp: bare_def)
    then show ?thesis using m inv by (simp add: has_metadata_def bt_get_insert)
  qed
  then have "(down ?nodes)\<^sup>+ `` {k \<in> ?X. has_metadata ?nodes k} = (down (gs_nodes st))\<^sup>+ `` ?X"
    unfolding down by blast
  then have dirty: "set (gs_dirty st') = set (gs_dirty st) \<union> ?X \<union> (down (gs_nodes st))\<^sup>+ `` ?X"
    using result by simp
  have "settled pruning (gs_nodes st') k m'"
    if k: "bt_get (gs_nodes st') k = Some m'" "k \<notin> set (gs_dirty st')" for k m'
  proof -
    have notX: "k \<notin> ?X \<union> (down (gs_nodes st'))\<^sup>+ `` ?X"
      using k(2) below_new_edges [of "down (gs_nodes st')" "down (gs_nodes st)" ?X] ce by (auto simp: dirty edges_differ_def)
    then obtain m where m: "bt_get (gs_nodes st) k = Some m"
      "m' = (if k = p then n\<lparr>cn_metadata_version := cn_selected n, cn_dependencies := ?deps\<rparr> else m)" "k = p \<longrightarrow> m = n"
      using i k(1) n(1) by (auto simp: installed_def split: if_splits)
    have "settled pruning (gs_nodes st) k m" using s m(1) k(2) by (auto simp: settled_but_def dirty)
    then show ?thesis
      using settled_frame [OF c ce [THEN conjunct1] ce [THEN conjunct2] notX m(1) k(1)] m(2,3)
      by (auto simp: same_input_def split: if_splits)
  qed
  moreover have "bare (gs_nodes st')"
    unfolding bare_def
  proof (intro allI impI)
    fix k m' assume m': "bt_get (gs_nodes st') k = Some m'" "cn_metadata_version m' = None"
    have "k \<noteq> p"
      using m' installed_get [OF i n(1), of k] chosen by (auto simp: Let_def split: option.splits)
    moreover have "bt_get (gs_nodes st) k = Some m \<Longrightarrow> cn_metadata_version m = None" for m
      using m' installed_get [OF i n(1), of k] calculation by (auto simp: Let_def split: option.splits)
    ultimately show "cn_dependencies m' = []"
      using installed_children(1) [OF i n(1) m'(1)] b by (auto simp: bare_def split: option.splits)
  qed
  ultimately show ?thesis using ce by (simp add: settled_but_def)
qed

end
