(* ===== verification/Resolver_Loop.thy ===== *)
theory Resolver_Loop
  imports Constraint_Install
begin

text \<open>
  \<open>crates/dv-core/src/package.rs\<close>: the scheduler of \<open>resolve_streaming_graph\<close>. Ready packages are
  dispatched, up to a bound, to tasks that fetch a version's requirements or list the versions; tasks
  finish in any order, and may belong to a node that has changed or gone since. What a task or the
  shared metadata cache brings is left open: the step relation allows any answer. An error of a
  step ends the resolution, so only steps that go on are steps here.
\<close>

definition MAX_DOWNLOAD_WORKERS :: nat where "MAX_DOWNLOAD_WORKERS = 24"

record metadata_task =
  tk_id :: string
  tk_generation :: nat
  tk_version :: "string option"

record resolver =
  rs_graph :: graph_state
  rs_in_flight :: "string list"
  rs_tasks :: "metadata_task list"

definition rs_nodes :: "resolver \<Rightarrow> graph_nodes" where
  "rs_nodes s = gs_nodes (rs_graph s)"

definition rs_ready :: "resolver \<Rightarrow> string list" where
  "rs_ready s = gs_ready (rs_graph s)"

definition live_unpruned :: "graph_nodes \<Rightarrow> string \<Rightarrow> bool" where
  "live_unpruned nodes k = (case bt_get nodes k of None \<Rightarrow> False | Some n \<Rightarrow> \<not> cn_pruned n)"

text \<open>The next package to dispatch, and the state with it taken off the ready set.\<close>

definition next_ready :: "resolver \<Rightarrow> string option" where
  "next_ready s =
     (if MAX_DOWNLOAD_WORKERS \<le> length (rs_tasks s) then None
      else List.find (\<lambda>k. k \<notin> set (rs_in_flight s) \<and> live_unpruned (rs_nodes s) k) (rs_ready s))"

definition take_ready :: "string \<Rightarrow> graph_state \<Rightarrow> graph_state" where
  "take_ready k g = g\<lparr>gs_ready := bs_remove k (gs_ready g)\<rparr>"

text \<open>The initial graph: the project's own requirements, all dirty.\<close>

definition root_node :: "package_requirement \<Rightarrow> constraint_node" where
  "root_node request = fresh_node (rr_id request) (Some (rr_range request)) None"

definition initial_graph :: "package_requirement list \<Rightarrow> graph_state" where
  "initial_graph direct =
     foldl (\<lambda>g request. g\<lparr>gs_nodes := bt_insert (rr_lower_id request) (root_node request) (gs_nodes g),
         gs_dirty := bs_insert (rr_lower_id request) (gs_dirty g)\<rparr>)
       \<lparr>gs_nodes = [], gs_dirty = [], gs_ready = []\<rparr> direct"

definition start_resolver :: "package_pruning \<Rightarrow> package_requirement list \<Rightarrow> resolve_failure + resolver" where
  "start_resolver pruning direct =
     (case stabilize_constraint_nodes pruning (initial_graph direct) of
        Inl e \<Rightarrow> Inl e
      | Inr g \<Rightarrow> Inr \<lparr>rs_graph = g, rs_in_flight = [], rs_tasks = []\<rparr>)"

definition install_and_settle :: "package_pruning \<Rightarrow> central_package_pin list \<Rightarrow> string \<Rightarrow> nat \<Rightarrow>
    package_requirement list \<Rightarrow> graph_state \<Rightarrow> resolve_failure + graph_state" where
  "install_and_settle pruning pins k generation deps g =
     (case install_node_dependencies k generation deps pins g of
        Inl e \<Rightarrow> Inl e
      | Inr g' \<Rightarrow> stabilize_constraint_nodes pruning g')"

definition mark_ready :: "string \<Rightarrow> graph_state \<Rightarrow> graph_state" where
  "mark_ready k g = (if live_unpruned (gs_nodes g) k then g\<lparr>gs_ready := bs_insert k (gs_ready g)\<rparr> else g)"

text \<open>\<open>nodes.get(&lower_id).is_none_or(|node| node.generation != generation)\<close>\<close>

definition is_stale :: "metadata_task \<Rightarrow> graph_nodes \<Rightarrow> bool" where
  "is_stale t nodes = (case bt_get nodes (tk_id t) of None \<Rightarrow> True | Some n \<Rightarrow> cn_generation n \<noteq> tk_generation t)"

definition list_versions :: "string \<Rightarrow> package_version list \<Rightarrow> graph_state \<Rightarrow> graph_state" where
  "list_versions k versions g =
     (case bt_get (gs_nodes g) k of
        None \<Rightarrow> g
      | Some _ \<Rightarrow> g\<lparr>gs_nodes := bt_modify k (\<lambda>n. n\<lparr>cn_available_versions := Some versions\<rparr>) (gs_nodes g),
          gs_dirty := bs_insert k (gs_dirty g)\<rparr>)"

text \<open>A task leaves the set of tasks, whichever finished first.\<close>

definition finish_task :: "metadata_task \<Rightarrow> resolver \<Rightarrow> resolver" where
  "finish_task t s = s\<lparr>rs_in_flight := bs_remove (tk_id t) (rs_in_flight s), rs_tasks := remove1 t (rs_tasks s)\<rparr>"

definition new_task :: "string \<Rightarrow> constraint_node \<Rightarrow> metadata_task" where
  "new_task k n = \<lparr>tk_id = k, tk_generation = cn_generation n, tk_version = map_option pv_normalized (cn_selected n)\<rparr>"

datatype resolver_event =
  Shared string | Dispatched string | Listed metadata_task | Installed metadata_task | Outdated metadata_task

text \<open>
  The waiting of the loop is for any task, and begins only when nothing more can be dispatched. A
  failed task ends the resolution unless its node has changed.
\<close>

inductive resolver_step :: "package_pruning \<Rightarrow> central_package_pin list \<Rightarrow> resolver_event \<Rightarrow> resolver \<Rightarrow> resolver \<Rightarrow> bool"
  for pruning :: package_pruning and pins :: "central_package_pin list" where
  shared_metadata:
    "next_ready s = Some k \<Longrightarrow> bt_get (rs_nodes s) k = Some n \<Longrightarrow> cn_selected n = Some v \<Longrightarrow>
     install_and_settle pruning pins k (cn_generation n) deps (take_ready k (rs_graph s)) = Inr g \<Longrightarrow>
     resolver_step pruning pins (Shared k) s (s\<lparr>rs_graph := g\<rparr>)"
| dispatch:
    "next_ready s = Some k \<Longrightarrow> bt_get (rs_nodes s) k = Some n \<Longrightarrow>
     resolver_step pruning pins (Dispatched k) s (s\<lparr>rs_graph := take_ready k (rs_graph s),
       rs_in_flight := bs_insert k (rs_in_flight s), rs_tasks := rs_tasks s @ [new_task k n]\<rparr>)"
| versions_listed:
    "next_ready s = None \<Longrightarrow> t \<in> set (rs_tasks s) \<Longrightarrow>
     stabilize_constraint_nodes pruning (list_versions (tk_id t) versions (rs_graph s)) = Inr g \<Longrightarrow>
     resolver_step pruning pins (Listed t) s ((finish_task t s)\<lparr>rs_graph := g\<rparr>)"
| requirements_installed:
    "next_ready s = None \<Longrightarrow> t \<in> set (rs_tasks s) \<Longrightarrow> tk_version t \<noteq> None \<Longrightarrow> \<not> is_stale t (rs_nodes s) \<Longrightarrow>
     install_and_settle pruning pins (tk_id t) (tk_generation t) deps (rs_graph s) = Inr g \<Longrightarrow>
     resolver_step pruning pins (Installed t) s ((finish_task t s)\<lparr>rs_graph := g\<rparr>)"
| outdated:
    "next_ready s = None \<Longrightarrow> t \<in> set (rs_tasks s) \<Longrightarrow> is_stale t (rs_nodes s) \<Longrightarrow>
     stabilize_constraint_nodes pruning (mark_ready (tk_id t) (rs_graph s)) = Inr g \<Longrightarrow>
     resolver_step pruning pins (Outdated t) s ((finish_task t s)\<lparr>rs_graph := g\<rparr>)"

text \<open>The states of runs all of whose events \<open>P\<close> allows in the state they happen in.\<close>

inductive resolver_run :: "package_pruning \<Rightarrow> central_package_pin list \<Rightarrow> (resolver_event \<Rightarrow> resolver \<Rightarrow> bool) \<Rightarrow>
    package_requirement list \<Rightarrow> resolver \<Rightarrow> bool"
  for pruning :: package_pruning and pins :: "central_package_pin list" and P :: "resolver_event \<Rightarrow> resolver \<Rightarrow> bool"
    and direct :: "package_requirement list" where
  start: "start_resolver pruning direct = Inr s \<Longrightarrow> resolver_run pruning pins P direct s"
| step: "resolver_run pruning pins P direct s \<Longrightarrow> P e s \<Longrightarrow> resolver_step pruning pins e s s' \<Longrightarrow>
    resolver_run pruning pins P direct s'"

text \<open>The loop goes on while something is ready or in flight; then every kept package needs a version.\<close>

definition resolver_done :: "resolver \<Rightarrow> bool" where
  "resolver_done s \<longleftrightarrow> rs_ready s = [] \<and> rs_tasks s = []"

definition exact_request :: "string \<Rightarrow> constraint_node \<Rightarrow> package_version \<Rightarrow> package_request" where
  "exact_request lower_id node version =
     \<lparr>rq_id = cn_id node, rq_lower_id = lower_id, rq_version = pv_normalized version,
      rq_direct = cn_direct node \<noteq> None,
      rq_central_transitive = cn_direct node = None \<and> cn_central_pin node \<noteq> None\<rparr>"

definition add_exact :: "(string, package_request) btree \<Rightarrow> string \<times> constraint_node \<Rightarrow>
    package_error + (string, package_request) btree" where
  "add_exact exact entry =
     (case entry of (lower_id, node) \<Rightarrow>
        if cn_pruned node then Inr exact
        else (case cn_selected node of
            None \<Rightarrow> Inl (resolution_error (cn_id node) ''package graph did not select a version'')
          | Some version \<Rightarrow> Inr (bt_insert lower_id (exact_request lower_id node version) exact)))"

definition exact_packages :: "graph_nodes \<Rightarrow> package_error + (string, package_request) btree" where
  "exact_packages nodes = try_fold add_exact [] nodes"

section \<open>The loop never spins\<close>

text \<open>What is ready is a node to be kept, in every graph the operations make.\<close>

definition ready_live :: "graph_state \<Rightarrow> bool" where
  "ready_live g \<longleftrightarrow> bt_inv (gs_nodes g) \<and> (\<forall>k \<in> set (gs_ready g). live_unpruned (gs_nodes g) k)"

lemma live_modify:
  assumes "\<And>n. cn_pruned (f n) = cn_pruned n"
  shows "live_unpruned (bt_modify p f nodes) k = live_unpruned nodes k"
  by (cases "k = p"; cases "bt_get nodes k") (simp_all add: live_unpruned_def bt_get_modify assms)

lemma retract_edges_live:
  "live_unpruned (fst (retract_edges p deps (nodes, dirty))) k = live_unpruned nodes k"
proof (induction deps arbitrary: nodes dirty)
  case Nil
  then show ?case by (simp add: retract_edges_def)
next
  case (Cons d deps)
  obtain nodes1 dirty1 where step: "retract_edge p (nodes, dirty) d = (nodes1, dirty1)" by fastforce
  have "live_unpruned nodes1 k = live_unpruned nodes k"
    using step by (auto simp: retract_edge_def live_modify drop_constraint_def split: option.splits)
  then show ?case using Cons.IH [of nodes1 dirty1] by (simp add: retract_edges_def step)
qed

lemma settle_node_options:
  assumes "settle_node pruning p g = Inr g'" and "bt_get (gs_nodes g) p = Some n"
  shows "g' = g \<or> g' = remove_node p n g \<or> (\<exists>choice pruned. revise_node p n choice pruned g = Inr g')"
proof (cases "cn_direct n = None \<and> cn_constraints n = []")
  case True
  then show ?thesis using assms by (simp add: settle_node_def)
next
  case False
  then obtain selection where "select_node_version n (selection_view (gs_nodes g) p n) = Inr selection"
    using assms by (auto simp: settle_node_def split: sum.splits)
  then show ?thesis using assms False by (auto simp: settle_node_def Let_def split: if_splits)
qed

lemma settle_node_ready:
  assumes "settle_node pruning p g = Inr g'" and "ready_live g"
  shows "ready_live g'"
proof -
  have inv: "bt_inv (gs_nodes g)" using assms(2) by (simp add: ready_live_def)
  show ?thesis
  proof (cases "bt_get (gs_nodes g) p")
    case None
    then show ?thesis using assms by (simp add: settle_node_def)
  next
    case (Some n)
    let ?dirty = "mark_dependencies (gs_nodes g) (cn_dependencies n) (gs_dirty g)"
    consider "g' = g" | "g' = remove_node p n g" | choice pruned where "revise_node p n choice pruned g = Inr g'"
      using settle_node_options [OF assms(1) Some] by blast
    then show ?thesis
    proof cases
      case 1
      then show ?thesis using assms(2) by simp
    next
      case 2
      let ?st = "retract_edges p (cn_dependencies n) (bt_remove p (gs_nodes g), ?dirty)"
      have "gs_nodes g' = fst ?st" "gs_ready g' = bs_remove p (gs_ready g)"
        by (simp_all add: 2 remove_node_def case_prod_beta Let_def)
      moreover have "live_unpruned (bt_remove p (gs_nodes g)) k" if "live_unpruned (gs_nodes g) k" "k \<noteq> p" for k
        using that inv by (simp add: live_unpruned_def bt_get_remove)
      ultimately show ?thesis using assms(2) inv
        by (simp add: ready_live_def retract_edges_live retract_edges_inv bt_inv_remove)
    next
      case 3
      let ?st = "retract_edges p (cn_dependencies n) (bt_modify p (revised choice pruned) (gs_nodes g), ?dirty)"
      have "gs_nodes g' = fst ?st"
        "gs_ready g' = (if pruned then bs_remove p (gs_ready g) else bs_insert p (gs_ready g))"
        using 3 by (auto simp: revise_node_def case_prod_beta Let_def split: if_splits)
      moreover have "live_unpruned (bt_modify p (revised choice pruned) (gs_nodes g)) k
          \<longleftrightarrow> (if k = p then \<not> pruned else live_unpruned (gs_nodes g) k)" for k
        using Some by (simp add: live_unpruned_def bt_get_modify revised_def)
      ultimately show ?thesis using assms(2) inv
        by (simp add: ready_live_def retract_edges_live retract_edges_inv split: if_splits)
    qed
  qed
qed

lemma stabilize_ready:
  assumes "stabilize_constraint_nodes pruning g = Inr g'" and "ready_live g"
  shows "ready_live g' \<and> gs_dirty g' = []"
proof (rule stabilize_induct [OF assms(1), of ready_live])
  fix g d dirty g1
  assume "ready_live g" "settle_node pruning d (g\<lparr>gs_dirty := dirty\<rparr>) = Inr g1"
  then show "ready_live g1" using settle_node_ready [of pruning d "g\<lparr>gs_dirty := dirty\<rparr>" g1] by (simp add: ready_live_def)
qed (rule assms(2))

lemma installed_live_unpruned:
  assumes "installed pins p n deps nodes nodes'" and "bt_get nodes p = Some n" and "live_unpruned nodes k"
  shows "live_unpruned nodes' k"
  using installed_get [OF assms(1,2), of k] assms(2,3)
  by (auto simp: live_unpruned_def Let_def split: option.splits if_splits)

lemma install_ready:
  assumes "install_node_dependencies p generation deps pins g = Inr g'" and "ready_live g"
  shows "ready_live g'"
proof -
  have inv: "bt_inv (gs_nodes g)" using assms(2) by (simp add: ready_live_def)
  obtain n where n: "bt_get (gs_nodes g) p = Some n"
    using assms(1) by (auto simp: install_node_dependencies_def Let_def split: option.splits)
  show ?thesis
  proof (cases "cn_generation n = generation")
    case True
    note result = install_result [OF assms(1) inv n True]
    have "installed pins p n (dedup_requirements (sort_by requirement_cmp deps)) (gs_nodes g) (gs_nodes g')"
      using result by simp
    then show ?thesis using assms(2) result installed_live_unpruned [OF _ n] by (auto simp: ready_live_def installed_def)
  next
    case False
    then have "g' = g" using assms(1) n by (auto simp: install_node_dependencies_def Let_def split: option.splits)
    then show ?thesis using assms(2) by simp
  qed
qed

lemma install_and_settle_ready:
  "install_and_settle pruning pins k generation deps g = Inr g' \<Longrightarrow> ready_live g \<Longrightarrow> ready_live g' \<and> gs_dirty g' = []"
  using install_ready stabilize_ready by (auto simp: install_and_settle_def split: sum.splits)

lemma list_versions_ready: "ready_live g \<Longrightarrow> ready_live (list_versions k versions g)"
  by (auto simp: list_versions_def ready_live_def live_modify split: option.split)

lemma mark_ready_ready: "ready_live g \<Longrightarrow> ready_live (mark_ready k g)"
  by (auto simp: mark_ready_def ready_live_def)

lemma take_ready_ready: "ready_live g \<Longrightarrow> ready_live (take_ready k g)"
  by (auto simp: take_ready_def ready_live_def)

definition scheduler_inv :: "resolver \<Rightarrow> bool" where
  "scheduler_inv s \<longleftrightarrow> ready_live (rs_graph s) \<and> gs_dirty (rs_graph s) = []
     \<and> set (rs_in_flight s) = tk_id ` set (rs_tasks s) \<and> distinct (map tk_id (rs_tasks s))
     \<and> length (rs_tasks s) \<le> MAX_DOWNLOAD_WORKERS"

lemma finish_task_inv:
  assumes "t \<in> set (rs_tasks s)" and "distinct (map tk_id (rs_tasks s))"
    and "set (rs_in_flight s) = tk_id ` set (rs_tasks s)" and "length (rs_tasks s) \<le> MAX_DOWNLOAD_WORKERS"
  shows "set (rs_in_flight (finish_task t s)) = tk_id ` set (rs_tasks (finish_task t s))
    \<and> distinct (map tk_id (rs_tasks (finish_task t s))) \<and> length (rs_tasks (finish_task t s)) \<le> MAX_DOWNLOAD_WORKERS"
proof -
  have d: "distinct (rs_tasks s)" "inj_on tk_id (set (rs_tasks s))" using assms(2) by (simp_all add: distinct_map)
  then have "tk_id ` (set (rs_tasks s) - {t}) = tk_id ` set (rs_tasks s) - {tk_id t}"
    using assms(1) by (auto simp: inj_on_def)
  moreover have "distinct (map tk_id (remove1 t (rs_tasks s)))"
    using d by (simp add: distinct_map inj_on_diff)
  ultimately show ?thesis using assms d by (simp add: finish_task_def length_remove1)
qed

lemma next_ready_Some:
  "next_ready s = Some k \<Longrightarrow> k \<in> set (rs_ready s) \<and> k \<notin> set (rs_in_flight s) \<and> length (rs_tasks s) < MAX_DOWNLOAD_WORKERS"
  by (auto simp: next_ready_def dest: find_SomeD split: if_splits)

lemma resolver_step_inv:
  assumes "resolver_step pruning pins e s s'" and "scheduler_inv s"
  shows "scheduler_inv s'"
  using assms
proof (induction rule: resolver_step.induct)
  case (shared_metadata s k n v deps g)
  then show ?case using install_and_settle_ready [OF shared_metadata.hyps(4)] take_ready_ready
    by (simp add: scheduler_inv_def)
next
  case (dispatch s k n)
  then show ?case using next_ready_Some [OF dispatch.hyps(1)] take_ready_ready [of "rs_graph s" k]
    by (auto simp: scheduler_inv_def new_task_def take_ready_def)
next
  case (versions_listed s t versions g)
  have "ready_live g \<and> gs_dirty g = []"
    using stabilize_ready [OF versions_listed.hyps(3) list_versions_ready] versions_listed.prems
    by (simp add: scheduler_inv_def)
  then show ?case using finish_task_inv [OF versions_listed.hyps(2)] versions_listed.prems
    by (simp add: scheduler_inv_def)
next
  case (requirements_installed s t deps g)
  then show ?case using install_and_settle_ready [OF requirements_installed.hyps(5)] finish_task_inv [of t s]
    by (simp add: scheduler_inv_def)
next
  case (outdated s t g)
  have "ready_live g \<and> gs_dirty g = []"
    using stabilize_ready [OF outdated.hyps(4) mark_ready_ready] outdated.prems by (simp add: scheduler_inv_def)
  then show ?case using finish_task_inv [OF outdated.hyps(2)] outdated.prems by (simp add: scheduler_inv_def)
qed

lemma initial_graph_ready: "gs_ready (initial_graph direct) = [] \<and> bt_inv (gs_nodes (initial_graph direct))"
proof -
  have "gs_ready (foldl f g direct) = gs_ready g \<and> bt_inv (gs_nodes (foldl f g direct))"
    if "bt_inv (gs_nodes g)" and "\<And>g r. gs_ready (f g r) = gs_ready g \<and> (bt_inv (gs_nodes g) \<longrightarrow> bt_inv (gs_nodes (f g r)))"
    for f and g :: graph_state
    using that by (induction direct arbitrary: g) simp_all
  then show ?thesis unfolding initial_graph_def by (simp add: bt_inv_insert)
qed

lemma resolver_run_scheduler: "resolver_run pruning pins P direct s \<Longrightarrow> scheduler_inv s"
proof (induction rule: resolver_run.induct)
  case (start s)
  then obtain g where g: "stabilize_constraint_nodes pruning (initial_graph direct) = Inr g"
    "s = \<lparr>rs_graph = g, rs_in_flight = [], rs_tasks = []\<rparr>"
    by (auto simp: start_resolver_def split: sum.splits)
  have "ready_live (initial_graph direct)" using initial_graph_ready [of direct] by (simp add: ready_live_def)
  from stabilize_ready [OF g(1) this] show ?case by (simp add: scheduler_inv_def g(2))
next
  case (step s e s')
  then show ?case using resolver_step_inv by blast
qed

end
