(* ===== verification/Resolver_Facts.thy ===== *)
theory Resolver_Facts
  imports Resolver_Loop
begin

text \<open>
  What the resolver's loop achieves when every task that is not outdated answers for the node it was
  started for: the graph stays the fixpoint of selection, and, if exact requests bring requirements,
  no package is left without them.
\<close>

section \<open>Bookkeeping of every node\<close>

text \<open>
  \<open>F\<close> are the packages in flight, \<open>T\<close> the tasks, \<open>D\<close> the dirty and \<open>R\<close> the ready names. \<open>full\<close> asks in
  addition that a kept node is on its way to requirements or has them.
\<close>

definition node_ok :: "bool \<Rightarrow> string set \<Rightarrow> metadata_task set \<Rightarrow> string set \<Rightarrow> string set \<Rightarrow> string \<Rightarrow> constraint_node \<Rightarrow> bool" where
  "node_ok full F T D R k n \<longleftrightarrow>
     (full \<longrightarrow> cn_pruned n \<or> k \<in> D \<and> cn_selected n = None \<or> k \<in> R \<or> k \<in> F \<or> cn_metadata_version n \<noteq> None)
   \<and> (k \<in> R \<union> F \<longrightarrow> cn_metadata_version n = None)
   \<and> (cn_metadata_version n = None \<or> cn_metadata_version n = cn_selected n)
   \<and> (\<forall>t \<in> T. tk_id t = k \<longrightarrow> \<not> cn_pruned n \<longrightarrow> cn_generation n \<noteq> tk_generation t
        \<longrightarrow> k \<in> R \<or> k \<in> D \<and> cn_selected n = None)"

definition nodes_ok :: "bool \<Rightarrow> string set \<Rightarrow> metadata_task set \<Rightarrow> graph_state \<Rightarrow> bool" where
  "nodes_ok full F T g \<longleftrightarrow>
     (\<forall>k n. bt_get (gs_nodes g) k = Some n \<longrightarrow> node_ok full F T (set (gs_dirty g)) (set (gs_ready g)) k n)
   \<and> bare (gs_nodes g)"

lemma node_ok_mono:
  "node_ok full F T D R k n \<Longrightarrow> D \<subseteq> D' \<Longrightarrow> k \<in> R \<longleftrightarrow> k \<in> R' \<Longrightarrow> node_ok full F T D' R' k n"
  unfolding node_ok_def by blast

lemma node_ok_drop:
  "node_ok full F T (insert p D) R k n \<Longrightarrow> k \<noteq> p \<or> cn_selected n \<noteq> None \<Longrightarrow> node_ok full F T D R k n"
  by (cases "k = p"; cases "cn_selected n") (auto simp: node_ok_def)

lemma node_ok_retracted [simp]: "node_ok full F T D R k (retracted p b n) = node_ok full F T D R k n"
  by (simp add: node_ok_def)

lemma withdrawal_ok:
  assumes c: "consistent (gs_nodes g)" and w: "withdrawal pruning p n own g g'" and n: "bt_get (gs_nodes g) p = Some n"
    and ok: "nodes_ok full F T (g\<lparr>gs_dirty := p # gs_dirty g\<rparr>)"
    and ready: "\<And>k. k \<noteq> p \<Longrightarrow> k \<in> set (gs_ready g) \<longleftrightarrow> k \<in> set (gs_ready g')"
    and own: "\<And>m. own = Some m \<Longrightarrow> cn_metadata_version m = None \<and> (cn_pruned m \<or> p \<in> set (gs_ready g'))"
  shows "nodes_ok full F T g'"
proof -
  have wd: "withdrawn p n own (gs_nodes g) (gs_nodes g')" and keep: "keeps_input n own"
    and dirty: "set (gs_dirty g) \<subseteq> set (gs_dirty g')" using w by (auto simp: withdrawal_def)
  have "node_ok full F T (set (gs_dirty g')) (set (gs_ready g')) k n' \<and>
      (cn_metadata_version n' = None \<longrightarrow> cn_dependencies n' = [])"
    if k: "bt_get (gs_nodes g') k = Some n'" for k n'
  proof (cases "k = p")
    case True
    then obtain m where m: "own = Some m" "n' = retracted p (p \<in> set (children_of n)) m"
      using withdrawn_get [OF wd, of k] k by auto
    then show ?thesis using own [OF m(1)] keep True by (auto simp: node_ok_def keeps_input_def)
  next
    case False
    then obtain m where m: "bt_get (gs_nodes g) k = Some m" "n' = retracted p (k \<in> set (children_of n)) m"
      using withdrawn_get [OF wd, of k] k by (cases "bt_get (gs_nodes g) k") simp_all
    have "node_ok full F T (insert p (set (gs_dirty g))) (set (gs_ready g)) k m" "bare (gs_nodes g)"
      using ok m(1) by (simp_all add: nodes_ok_def)
    then have "node_ok full F T (set (gs_dirty g)) (set (gs_ready g)) k m" using node_ok_drop False by blast
    then have "node_ok full F T (set (gs_dirty g')) (set (gs_ready g')) k m"
      using node_ok_mono [OF _ dirty ready [OF False]] by blast
    then show ?thesis using m \<open>bare (gs_nodes g)\<close> by (simp add: bare_def)
  qed
  then show ?thesis by (simp add: nodes_ok_def bare_def)
qed

lemma settle_node_ok:
  assumes c: "consistent (gs_nodes g)" and step: "settle_node pruning p g = Inr g'"
    and ok: "nodes_ok full F T (g\<lparr>gs_dirty := p # gs_dirty g\<rparr>)"
  shows "nodes_ok full F T g'"
  using c step
proof (cases rule: settle_node_cases)
  case absent
  have "node_ok full F T (set (gs_dirty g)) (set (gs_ready g)) k n" if "bt_get (gs_nodes g) k = Some n" for k n
  proof (rule node_ok_drop [where p = p])
    show "node_ok full F T (insert p (set (gs_dirty g))) (set (gs_ready g)) k n"
      using ok that by (simp add: nodes_ok_def)
    show "k \<noteq> p \<or> cn_selected n \<noteq> None" using that absent by auto
  qed
  then show ?thesis using absent(2) ok by (simp add: nodes_ok_def)
next
  case (unchanged n)
  have "node_ok full F T (set (gs_dirty g)) (set (gs_ready g)) k m" if "bt_get (gs_nodes g) k = Some m" for k m
  proof (rule node_ok_drop [where p = p])
    show "node_ok full F T (insert p (set (gs_dirty g))) (set (gs_ready g)) k m"
      using ok that by (simp add: nodes_ok_def)
    show "k \<noteq> p \<or> cn_selected m \<noteq> None" using that unchanged(1,4) by auto
  qed
  then show ?thesis using unchanged(2) ok by (simp add: nodes_ok_def)
next
  case (removed n)
  show ?thesis
    by (rule withdrawal_ok [OF c removed(4) removed(1) ok]) (simp_all add: removed(2) remove_node_def case_prod_beta Let_def)
next
  case (revised n choice pruned)
  have ready: "gs_ready g' = (if pruned then bs_remove p (gs_ready g) else bs_insert p (gs_ready g))"
    using revised(2) by (auto simp: revise_node_def case_prod_beta Let_def split: if_splits)
  show ?thesis
    by (rule withdrawal_ok [OF c revised(3) revised(1) ok]) (auto simp: ready revised_def)
qed

definition clean_graph :: "package_pruning \<Rightarrow> bool \<Rightarrow> string set \<Rightarrow> metadata_task set \<Rightarrow> graph_state \<Rightarrow> bool" where
  "clean_graph pruning full F T g \<longleftrightarrow> consistent (gs_nodes g)
     \<and> settled_but pruning (gs_nodes g) (set (gs_dirty g)) \<and> nodes_ok full F T g"

lemma stabilize_clean:
  assumes "stabilize_constraint_nodes pruning g = Inr g'" and "clean_graph pruning full F T g"
  shows "clean_graph pruning full F T g' \<and> gs_dirty g' = []"
proof (rule stabilize_induct [OF assms(1), of "clean_graph pruning full F T"])
  fix g d dirty g1
  assume clean: "clean_graph pruning full F T g" and dirty: "gs_dirty g = d # dirty"
    and step: "settle_node pruning d (g\<lparr>gs_dirty := dirty\<rparr>) = Inr g1"
  let ?g = "g\<lparr>gs_dirty := dirty\<rparr>"
  have c: "consistent (gs_nodes ?g)" "settled_but pruning (gs_nodes ?g) (insert d (set (gs_dirty ?g)))"
    "nodes_ok full F T (?g\<lparr>gs_dirty := d # gs_dirty ?g\<rparr>)"
    using clean dirty by (simp_all add: clean_graph_def nodes_ok_def)
  show "clean_graph pruning full F T g1"
    using settle_node_settles [OF c(1,2) step] settle_node_ok [OF c(1) step c(3)] by (simp add: clean_graph_def)
qed (rule assms(2))

section \<open>Installing\<close>

lemma install_ok:
  assumes c: "consistent (gs_nodes g)" and s: "settled_but pruning (gs_nodes g) (set (gs_dirty g))" and b: "bare (gs_nodes g)"
    and others: "\<And>k n. k \<noteq> p \<Longrightarrow> bt_get (gs_nodes g) k = Some n \<Longrightarrow> node_ok full F T (set (gs_dirty g)) (set (gs_ready g)) k n"
    and n: "bt_get (gs_nodes g) p = Some n" "cn_generation n = generation" "cn_metadata_version n = None" "cn_selected n \<noteq> None"
    and away: "p \<notin> set (gs_ready g)" "p \<notin> F" "\<forall>t \<in> T. tk_id t \<noteq> p"
    and step: "install_node_dependencies p generation raw pins g = Inr g'"
  shows "clean_graph pruning full F T g'"
proof -
  let ?deps = "dedup_requirements (sort_by requirement_cmp raw)"
  have inv: "bt_inv (gs_nodes g)" using c by (simp add: consistent_def wf_nodes_def)
  note result = install_result [OF step inv n(1,2)]
  have i: "installed pins p n ?deps (gs_nodes g) (gs_nodes g')" and ready: "gs_ready g' = gs_ready g"
    and dirty: "set (gs_dirty g) \<union> rr_lower_id ` set ?deps \<subseteq> set (gs_dirty g')" using result by auto
  note settled = install_settles [OF c b s step n]
  have "node_ok full F T (set (gs_dirty g')) (set (gs_ready g')) k n'" if k: "bt_get (gs_nodes g') k = Some n'" for k n'
  proof (cases "k = p")
    case True
    have "cn_metadata_version n' = cn_selected n \<and> cn_selected n' = cn_selected n"
      using installed_get [OF i n(1), of k] k True by (auto simp: Let_def split: option.splits)
    then show ?thesis using n(4) away True by (simp add: node_ok_def ready)
  next
    case False
    show ?thesis
    proof (cases "bt_get (gs_nodes g) k")
      case None
      then have "k \<in> rr_lower_id ` set ?deps" using installed_live [OF i n(1), of k] k by auto
      then have "k \<in> set (gs_dirty g')" using dirty by blast
      moreover have "cn_selected n' = None \<and> cn_metadata_version n' = None"
        using installed_get [OF i n(1), of k] k None False by (auto simp: Let_def split: option.splits)
      ultimately show ?thesis by (simp add: node_ok_def)
    next
      case (Some m)
      have "cn_selected n' = cn_selected m \<and> cn_metadata_version n' = cn_metadata_version m
          \<and> cn_pruned n' = cn_pruned m \<and> cn_generation n' = cn_generation m"
        using installed_get [OF i n(1), of k] k Some False by (auto simp: Let_def split: option.splits)
      moreover have "node_ok full F T (set (gs_dirty g')) (set (gs_ready g')) k m"
        using node_ok_mono [OF others [OF False Some], of "set (gs_dirty g')"] dirty by (simp add: ready)
      ultimately show ?thesis by (simp add: node_ok_def)
    qed
  qed
  then show ?thesis using settled by (simp add: clean_graph_def nodes_ok_def)
qed

lemma install_and_settle_clean:
  assumes "install_and_settle pruning pins p generation raw g = Inr g'"
    and "consistent (gs_nodes g)" "settled_but pruning (gs_nodes g) (set (gs_dirty g))" "bare (gs_nodes g)"
    and "\<And>k n. k \<noteq> p \<Longrightarrow> bt_get (gs_nodes g) k = Some n \<Longrightarrow> node_ok full F T (set (gs_dirty g)) (set (gs_ready g)) k n"
    and "bt_get (gs_nodes g) p = Some n" "cn_generation n = generation" "cn_metadata_version n = None" "cn_selected n \<noteq> None"
    and "p \<notin> set (gs_ready g)" "p \<notin> F" "\<forall>t \<in> T. tk_id t \<noteq> p"
  shows "clean_graph pruning full F T g' \<and> gs_dirty g' = []"
proof -
  obtain g1 where "install_node_dependencies p generation raw pins g = Inr g1" "stabilize_constraint_nodes pruning g1 = Inr g'"
    using assms(1) by (auto simp: install_and_settle_def split: sum.splits)
  then show ?thesis using stabilize_clean install_ok [OF assms(2-12)] by blast
qed

section \<open>Listing versions\<close>

lemma list_versions_get:
  "bt_get (gs_nodes (list_versions k versions g)) j
     = map_option (\<lambda>n. if j = k then n\<lparr>cn_available_versions := Some versions\<rparr> else n) (bt_get (gs_nodes g) j)"
  by (cases "bt_get (gs_nodes g) k"; cases "bt_get (gs_nodes g) j")
    (auto simp: list_versions_def bt_get_modify)

lemma list_versions_edges:
  assumes c: "consistent (gs_nodes g)"
  shows "consistent (gs_nodes (list_versions k versions g))
    \<and> edges_differ {} (gs_nodes g) (gs_nodes (list_versions k versions g))"
proof -
  let ?nodes = "gs_nodes (list_versions k versions g)"
  have "asked ?nodes p j r = asked (gs_nodes g) p j r" "held ?nodes p j r = held (gs_nodes g) p j r" for p j r
    by (cases "bt_get (gs_nodes g) p"; cases "bt_get (gs_nodes g) j"; auto simp: asked_def held_def list_versions_get)+
  then have same: "asked ?nodes = asked (gs_nodes g)" "held ?nodes = held (gs_nodes g)" by (simp_all add: fun_eq_iff)
  have inv: "bt_inv (gs_nodes g)" "bt_inv ?nodes"
    using c by (simp_all add: consistent_def wf_nodes_def list_versions_def split: option.split)
  have wf: "wf_nodes ?nodes"
    using c inv by (auto simp: consistent_def wf_nodes_def list_versions_get children_of_def)
  have "j \<in> set (direct_roots (gs_nodes g)) \<longleftrightarrow> j \<in> set (direct_roots ?nodes)" for j
    unfolding direct_roots_iff [OF inv(1)] direct_roots_iff [OF inv(2)] list_versions_get
    by (cases "bt_get (gs_nodes g) j") auto
  then have roots: "set (direct_roots (gs_nodes g)) = set (direct_roots ?nodes)" by blast
  have "down ?nodes = down (gs_nodes g)" by (auto simp: down_iff same)
  then show ?thesis using c roots wf by (simp add: consistent_def edges_differ_def same)
qed

lemma list_versions_settled:
  assumes c: "consistent (gs_nodes g)" and s: "settled_but pruning (gs_nodes g) (set (gs_dirty g))"
  shows "settled_but pruning (gs_nodes (list_versions k versions g)) (set (gs_dirty (list_versions k versions g)))"
  unfolding settled_but_def
proof (intro allI impI)
  let ?g = "list_versions k versions g"
  fix j m assume j: "bt_get (gs_nodes ?g) j = Some m" "j \<notin> set (gs_dirty ?g)"
  have "j \<noteq> k" "j \<notin> set (gs_dirty g)"
    using j by (auto simp: list_versions_def split: option.splits)
  moreover have m: "bt_get (gs_nodes g) j = Some m"
    using j(1) calculation by (cases "bt_get (gs_nodes g) j") (simp_all add: list_versions_get)
  ultimately have "settled pruning (gs_nodes g) j m" using s by (simp add: settled_but_def)
  note e = list_versions_edges [OF c, of k versions]
  show "settled pruning (gs_nodes ?g) j m"
    using settled_frame [OF c e [THEN conjunct1] e [THEN conjunct2] _ m j(1)] \<open>settled pruning (gs_nodes g) j m\<close>
    by (simp add: same_input_def)
qed

section \<open>Clean runs\<close>

text \<open>A task that answers for the node it was started for, still waiting for it.\<close>

definition task_current :: "metadata_task \<Rightarrow> resolver \<Rightarrow> bool" where
  "task_current t s = (case bt_get (rs_nodes s) (tk_id t) of
       None \<Rightarrow> False
     | Some n \<Rightarrow> cn_generation n = tk_generation t \<and> cn_metadata_version n = None
         \<and> tk_version t = map_option pv_normalized (cn_selected n) \<and> tk_id t \<notin> set (rs_ready s))"

text \<open>
  Every task is outdated or current: none has the name and generation of a node made after its own
  was removed. And a task asked for one version does not come back with a list of versions.
\<close>

definition own_answers :: "resolver \<Rightarrow> bool" where
  "own_answers s \<longleftrightarrow> (\<forall>t \<in> set (rs_tasks s). is_stale t (rs_nodes s) \<or> task_current t s)"

fun exact_answer :: "resolver_event \<Rightarrow> bool" where
  "exact_answer (Listed t) \<longleftrightarrow> tk_version t = None"
| "exact_answer _ \<longleftrightarrow> True"

definition clean :: "bool \<Rightarrow> resolver_event \<Rightarrow> resolver \<Rightarrow> bool" where
  "clean full e s \<longleftrightarrow> own_answers s \<and> (full \<longrightarrow> exact_answer e)"

definition clean_state :: "package_pruning \<Rightarrow> bool \<Rightarrow> resolver \<Rightarrow> bool" where
  "clean_state pruning full s \<longleftrightarrow> clean_graph pruning full (set (rs_in_flight s)) (set (rs_tasks s)) (rs_graph s)"

lemma node_ok_finish:
  assumes "node_ok full F T D R k n" and "k \<noteq> tk_id t"
  shows "node_ok full (F - {tk_id t}) (T - {t}) D R k n"
  using assms unfolding node_ok_def by auto

lemma finish_sets:
  assumes "scheduler_inv s"
  shows "set (rs_in_flight (finish_task t s)) = set (rs_in_flight s) - {tk_id t}"
    and "set (rs_tasks (finish_task t s)) = set (rs_tasks s) - {t}"
  using assms by (simp_all add: finish_task_def scheduler_inv_def distinct_map)

lemma clean_state_parts:
  assumes "clean_state pruning full s" and "scheduler_inv s"
  shows "consistent (rs_nodes s)" and "settled_but pruning (rs_nodes s) {}" and "bare (rs_nodes s)"
    and "\<And>k n. bt_get (rs_nodes s) k = Some n \<Longrightarrow>
      node_ok full (set (rs_in_flight s)) (set (rs_tasks s)) {} (set (rs_ready s)) k n"
  using assms by (simp_all add: clean_state_def clean_graph_def scheduler_inv_def nodes_ok_def rs_nodes_def rs_ready_def)

lemma shared_clean:
  assumes inv: "scheduler_inv s" and clean: "clean_state pruning full s"
    and ready: "next_ready s = Some k" and n: "bt_get (rs_nodes s) k = Some n" "cn_selected n = Some v"
    and step: "install_and_settle pruning pins k (cn_generation n) deps (take_ready k (rs_graph s)) = Inr g"
  shows "clean_state pruning full (s\<lparr>rs_graph := g\<rparr>)"
proof -
  note parts = clean_state_parts [OF clean inv]
  note r = next_ready_Some [OF ready]
  let ?g = "take_ready k (rs_graph s)"
  have dirty: "gs_dirty ?g = []" and gr: "gs_nodes ?g = rs_nodes s" "set (gs_ready ?g) = set (rs_ready s) - {k}"
    using inv by (simp_all add: take_ready_def scheduler_inv_def rs_nodes_def rs_ready_def)
  have "clean_graph pruning full (set (rs_in_flight s)) (set (rs_tasks s)) g \<and> gs_dirty g = []"
  proof (rule install_and_settle_clean [OF step])
    show "cn_metadata_version n = None" using parts(4) [OF n(1)] r by (auto simp: node_ok_def)
    show "node_ok full (set (rs_in_flight s)) (set (rs_tasks s)) (set (gs_dirty ?g)) (set (gs_ready ?g)) j m"
      if "j \<noteq> k" "bt_get (gs_nodes ?g) j = Some m" for j m
      using node_ok_mono [OF parts(4), of j m "{}" "set (gs_ready ?g)"] that by (simp add: gr dirty)
    show "\<forall>t \<in> set (rs_tasks s). tk_id t \<noteq> k" using r inv by (auto simp: scheduler_inv_def)
  qed (use parts n r in \<open>simp_all add: gr dirty\<close>)
  then show ?thesis by (simp add: clean_state_def)
qed

lemma dispatch_clean:
  assumes inv: "scheduler_inv s" and clean: "clean_state pruning full s"
    and ready: "next_ready s = Some k" and n: "bt_get (rs_nodes s) k = Some n"
  shows "clean_state pruning full (s\<lparr>rs_graph := take_ready k (rs_graph s),
     rs_in_flight := bs_insert k (rs_in_flight s), rs_tasks := rs_tasks s @ [new_task k n]\<rparr>)"
proof -
  note parts = clean_state_parts [OF clean inv]
  note r = next_ready_Some [OF ready]
  have gr: "gs_nodes (take_ready k (rs_graph s)) = rs_nodes s" "gs_dirty (take_ready k (rs_graph s)) = []"
    "set (gs_ready (take_ready k (rs_graph s))) = set (rs_ready s) - {k}"
    using inv by (simp_all add: take_ready_def scheduler_inv_def rs_nodes_def rs_ready_def)
  have none: "tk_id t \<noteq> k" if "t \<in> set (rs_tasks s)" for t using that r inv by (auto simp: scheduler_inv_def)
  have "node_ok full (insert k (set (rs_in_flight s))) (insert (new_task k n) (set (rs_tasks s))) {} (set (rs_ready s) - {k}) j m"
    if j: "bt_get (rs_nodes s) j = Some m" for j m
  proof (cases "j = k")
    case True
    then show ?thesis using parts(4) [OF j] r none j n by (auto simp: node_ok_def new_task_def)
  next
    case False
    then show ?thesis using parts(4) [OF j] by (auto simp: node_ok_def new_task_def)
  qed
  then show ?thesis using parts by (simp add: clean_state_def clean_graph_def nodes_ok_def gr)
qed

lemma listed_clean:
  assumes inv: "scheduler_inv s" and clean: "clean_state pruning full s" and t: "t \<in> set (rs_tasks s)"
    and own: "own_answers s" and exact: "full \<longrightarrow> tk_version t = None"
    and step: "stabilize_constraint_nodes pruning (list_versions (tk_id t) versions (rs_graph s)) = Inr g"
  shows "clean_state pruning full ((finish_task t s)\<lparr>rs_graph := g\<rparr>)"
proof -
  note parts = clean_state_parts [OF clean inv]
  let ?k = "tk_id t" and ?g = "list_versions (tk_id t) versions (rs_graph s)"
  let ?F = "set (rs_in_flight s) - {?k}" and ?T = "set (rs_tasks s) - {t}"
  have gr: "gs_ready ?g = rs_ready s" "bt_get (rs_nodes s) ?k \<noteq> None \<Longrightarrow> set (gs_dirty ?g) = {?k}"
    using inv by (auto simp: list_versions_def scheduler_inv_def rs_nodes_def rs_ready_def split: option.split)
  have flying: "?k \<in> set (rs_in_flight s)" using inv t by (auto simp: scheduler_inv_def)
  have alone: "u = t" if "u \<in> set (rs_tasks s)" "tk_id u = ?k" for u
    using that t inv by (auto simp: scheduler_inv_def distinct_map inj_on_def)
  have "node_ok full ?F ?T (set (gs_dirty ?g)) (set (gs_ready ?g)) j m \<and> (cn_metadata_version m = None \<longrightarrow> cn_dependencies m = [])"
    if j: "bt_get (gs_nodes ?g) j = Some m" for j m
  proof -
    obtain n where n: "bt_get (rs_nodes s) j = Some n" "m = (if j = ?k then n\<lparr>cn_available_versions := Some versions\<rparr> else n)"
      using j by (auto simp: list_versions_get rs_nodes_def)
    have old: "node_ok full (set (rs_in_flight s)) (set (rs_tasks s)) {} (set (rs_ready s)) j n" by (rule parts(4) [OF n(1)])
    have bare: "cn_metadata_version n = None \<longrightarrow> cn_dependencies n = []" using parts(3) n(1) by (simp add: bare_def)
    show ?thesis
    proof (cases "j = ?k")
      case False
      then have "node_ok full ?F ?T {} (set (rs_ready s)) j n" using node_ok_finish [OF old] by simp
      then have "node_ok full ?F ?T (set (gs_dirty ?g)) (set (gs_ready ?g)) j n" using node_ok_mono by (simp add: gr)
      then show ?thesis using n(2) bare False by simp
    next
      case True
      then have dirty: "set (gs_dirty ?g) = {?k}" using gr(2) n(1) by simp
      have cleared: "cn_metadata_version n = None" using old flying True by (auto simp: node_ok_def)
      have "full \<longrightarrow> cn_pruned n \<or> cn_selected n = None \<or> ?k \<in> set (rs_ready s)"
      proof (cases "is_stale t (rs_nodes s)")
        case stale: True
        then have "cn_generation n \<noteq> tk_generation t" using n(1) True by (simp add: is_stale_def)
        then show ?thesis using old t True by (auto simp: node_ok_def)
      next
        case False
        then have "task_current t s" using own t by (auto simp: own_answers_def)
        then show ?thesis using exact n(1) True by (auto simp: task_current_def)
      qed
      then have "node_ok full ?F ?T {?k} (set (rs_ready s)) ?k n"
        using cleared alone by (auto simp: node_ok_def)
      then show ?thesis using n(2) True bare by (simp add: node_ok_def dirty gr(1))
    qed
  qed
  then have "clean_graph pruning full ?F ?T ?g"
    using list_versions_edges [of "rs_graph s" ?k versions] list_versions_settled [of "rs_graph s" pruning ?k versions]
      parts(1,2) inv
    by (simp add: clean_graph_def nodes_ok_def bare_def rs_nodes_def scheduler_inv_def)
  from stabilize_clean [OF step this] show ?thesis by (simp add: clean_state_def finish_sets [OF inv])
qed

lemma alone:
  assumes "scheduler_inv s" and "t \<in> set (rs_tasks s)" and "u \<in> set (rs_tasks s)" and "tk_id u = tk_id t"
  shows "u = t"
  using assms by (auto simp: scheduler_inv_def distinct_map inj_on_def)

lemma installed_clean:
  assumes inv: "scheduler_inv s" and clean: "clean_state pruning full s" and t: "t \<in> set (rs_tasks s)"
    and own: "own_answers s" and exact: "tk_version t \<noteq> None" and fresh: "\<not> is_stale t (rs_nodes s)"
    and step: "install_and_settle pruning pins (tk_id t) (tk_generation t) deps (rs_graph s) = Inr g"
  shows "clean_state pruning full ((finish_task t s)\<lparr>rs_graph := g\<rparr>)"
proof -
  note parts = clean_state_parts [OF clean inv]
  let ?k = "tk_id t"
  let ?F = "set (rs_in_flight s) - {?k}" and ?T = "set (rs_tasks s) - {t}"
  have dirty: "gs_dirty (rs_graph s) = []" using inv by (simp add: scheduler_inv_def)
  have "task_current t s" using own t fresh by (auto simp: own_answers_def)
  then obtain n where n: "bt_get (rs_nodes s) ?k = Some n" "cn_generation n = tk_generation t" "cn_metadata_version n = None"
    "tk_version t = map_option pv_normalized (cn_selected n)" "?k \<notin> set (rs_ready s)"
    by (auto simp: task_current_def split: option.splits)
  have selected: "cn_selected n \<noteq> None" using n(4) exact by auto
  have "clean_graph pruning full ?F ?T g \<and> gs_dirty g = []"
  proof (rule install_and_settle_clean [OF step])
    show "node_ok full ?F ?T (set (gs_dirty (rs_graph s))) (set (gs_ready (rs_graph s))) j m"
      if "j \<noteq> ?k" "bt_get (gs_nodes (rs_graph s)) j = Some m" for j m
      using node_ok_finish [OF parts(4), of j m t] that by (simp add: dirty rs_nodes_def rs_ready_def)
    show "\<forall>u \<in> ?T. tk_id u \<noteq> ?k" using alone [OF inv t] by blast
  qed (use parts n selected dirty in \<open>simp_all add: rs_nodes_def rs_ready_def\<close>)
  then show ?thesis by (simp add: clean_state_def finish_sets [OF inv])
qed

lemma outdated_clean:
  assumes inv: "scheduler_inv s" and clean: "clean_state pruning full s" and t: "t \<in> set (rs_tasks s)"
    and stale: "is_stale t (rs_nodes s)"
    and step: "stabilize_constraint_nodes pruning (mark_ready (tk_id t) (rs_graph s)) = Inr g"
  shows "clean_state pruning full ((finish_task t s)\<lparr>rs_graph := g\<rparr>)"
proof -
  note parts = clean_state_parts [OF clean inv]
  let ?k = "tk_id t" and ?g = "mark_ready (tk_id t) (rs_graph s)"
  let ?F = "set (rs_in_flight s) - {?k}" and ?T = "set (rs_tasks s) - {t}"
  have dirty: "gs_dirty (rs_graph s) = []" using inv by (simp add: scheduler_inv_def)
  have gr: "gs_nodes ?g = rs_nodes s" "gs_dirty ?g = []"
    "\<And>j. j \<noteq> ?k \<Longrightarrow> j \<in> set (gs_ready ?g) \<longleftrightarrow> j \<in> set (rs_ready s)"
    "live_unpruned (rs_nodes s) ?k \<Longrightarrow> ?k \<in> set (gs_ready ?g)"
    "\<not> live_unpruned (rs_nodes s) ?k \<Longrightarrow> ?k \<in> set (gs_ready ?g) \<longleftrightarrow> ?k \<in> set (rs_ready s)"
    using dirty by (auto simp: mark_ready_def rs_nodes_def rs_ready_def)
  have flying: "?k \<in> set (rs_in_flight s)" using inv t by (auto simp: scheduler_inv_def)
  have "node_ok full ?F ?T {} (set (gs_ready ?g)) j m" if j: "bt_get (rs_nodes s) j = Some m" for j m
  proof (cases "j = ?k")
    case False
    then have "node_ok full ?F ?T {} (set (rs_ready s)) j m" using node_ok_finish [OF parts(4) [OF j]] by simp
    then show ?thesis using node_ok_mono gr(3) [OF False] by blast
  next
    case True
    have none: "cn_metadata_version m = None" using parts(4) [OF j] flying True by (auto simp: node_ok_def)
    have "cn_pruned m \<or> ?k \<in> set (gs_ready ?g)" using gr(4) j True by (auto simp: live_unpruned_def)
    moreover have "\<forall>u \<in> ?T. tk_id u \<noteq> ?k" using alone [OF inv t] by blast
    ultimately show ?thesis using none True by (auto simp: node_ok_def)
  qed
  then have "clean_graph pruning full ?F ?T ?g"
    using parts by (simp add: clean_graph_def nodes_ok_def gr)
  from stabilize_clean [OF step this] show ?thesis by (simp add: clean_state_def finish_sets [OF inv])
qed

end
