(* ===== verification/Resolver_Runs.thy ===== *)
theory Resolver_Runs
  imports Resolver_Facts
begin

text \<open>
  Whole runs of the resolver: the graph is the fixpoint of selection after every event, and a run that
  ends gives every kept package a version and its requirements. The section on stranded packages shows
  a run outside these conditions.
\<close>

section \<open>The start\<close>

definition only_roots :: "graph_state \<Rightarrow> bool" where
  "only_roots g \<longleftrightarrow> bt_inv (gs_nodes g) \<and> gs_ready g = []
     \<and> (\<forall>k n. bt_get (gs_nodes g) k = Some n \<longrightarrow> k \<in> set (gs_dirty g) \<and> (\<exists>request. n = root_node request))"

lemma initial_only_roots: "only_roots (initial_graph direct)"
proof -
  have fold: "only_roots (foldl f g direct)" if "only_roots g" and "\<And>g r. only_roots g \<Longrightarrow> only_roots (f g r)"
    for f and g :: graph_state
    using that by (induction direct arbitrary: g) simp_all
  show ?thesis unfolding initial_graph_def
    by (rule fold) (auto simp: only_roots_def bt_inv_insert bt_get_insert split: if_splits)
qed

lemma only_roots_clean:
  assumes "only_roots g"
  shows "clean_graph pruning full {} {} g"
proof -
  have bare: "cn_constraints n = [] \<and> cn_dependencies n = [] \<and> cn_selected n = None \<and> cn_metadata_version n = None \<and> k \<in> set (gs_dirty g)"
    if "bt_get (gs_nodes g) k = Some n" for k n
    using assms that by (force simp: only_roots_def root_node_def fresh_node_def)
  have "wf_nodes (gs_nodes g)"
    using assms bare by (auto simp: wf_nodes_def only_roots_def children_of_def)
  then have "consistent (gs_nodes g)"
    unfolding consistent_def asked_def held_def using bare by fastforce
  moreover have "nodes_ok full {} {} g"
    using assms bare by (simp add: nodes_ok_def node_ok_def bare_def only_roots_def)
  ultimately show ?thesis using bare by (auto simp: clean_graph_def settled_but_def)
qed

lemma start_clean:
  assumes "start_resolver pruning direct = Inr s"
  shows "clean_state pruning full s"
proof -
  obtain g where g: "stabilize_constraint_nodes pruning (initial_graph direct) = Inr g"
    "s = \<lparr>rs_graph = g, rs_in_flight = [], rs_tasks = []\<rparr>"
    using assms by (auto simp: start_resolver_def split: sum.splits)
  show ?thesis using stabilize_clean [OF g(1) only_roots_clean [OF initial_only_roots]] by (simp add: clean_state_def g(2))
qed

section \<open>Runs\<close>

lemma step_clean:
  assumes "resolver_step pruning pins e s s'" and "clean full e s" and "scheduler_inv s" and "clean_state pruning full s"
  shows "clean_state pruning full s'"
  using assms
proof (cases rule: resolver_step.cases)
  case shared_metadata
  then show ?thesis using shared_clean assms by blast
next
  case dispatch
  then show ?thesis using dispatch_clean assms by blast
next
  case (versions_listed t versions g)
  then show ?thesis using listed_clean [of s pruning full t versions g] assms by (simp add: clean_def)
next
  case (requirements_installed t deps g)
  then show ?thesis using installed_clean [of s pruning full t] assms by (simp add: clean_def)
next
  case (outdated t g)
  then show ?thesis using outdated_clean assms by blast
qed

lemma run_clean: "resolver_run pruning pins (clean full) direct s \<Longrightarrow> clean_state pruning full s"
proof (induction rule: resolver_run.induct)
  case (start s)
  then show ?case by (rule start_clean)
next
  case (step s e s')
  show ?case by (rule step_clean [OF step.hyps(3,2) resolver_run_scheduler [OF step.hyps(1)] step.IH])
qed

section \<open>One package\<close>

text \<open>The project asks for one package, which has no requirements of its own.\<close>

definition one_request :: package_requirement where
  "one_request = \<lparr>rr_id = ''A'', rr_lower_id = ''a'', rr_range = at_least 1, rr_direct = True,
     rr_include_assets = 0, rr_suppress_parent = 0\<rparr>"

definition one_task :: metadata_task where
  "one_task = \<lparr>tk_id = ''a'', tk_generation = 1, tk_version = Some (pv_normalized (plain_version 1))\<rparr>"

definition one_started :: resolver where
  "one_started = \<lparr>rs_graph = one_root_settled, rs_in_flight = [], rs_tasks = []\<rparr>"

definition one_asked :: resolver where
  "one_asked = \<lparr>rs_graph = take_ready ''a'' one_root_settled, rs_in_flight = [''a''], rs_tasks = [one_task]\<rparr>"

definition one_complete :: resolver where
  "one_complete = \<lparr>rs_graph = \<lparr>gs_nodes = bt_modify ''a'' (\<lambda>n. n\<lparr>cn_metadata_version := cn_selected n\<rparr>) (gs_nodes one_root_settled),
     gs_dirty = [], gs_ready = []\<rparr>, rs_in_flight = [], rs_tasks = []\<rparr>"

lemmas one_defs = one_started_def one_asked_def one_root_settled_def one_task_def rs_nodes_def rs_ready_def fresh_node_def

lemma one_start: "start_resolver no_pruning [one_request] = Inr one_started"
proof -
  have "initial_graph [one_request] = one_root"
    by (simp add: initial_graph_def one_request_def one_root_def root_node_def)
  then show ?thesis by (simp add: start_resolver_def one_root_run one_started_def)
qed

lemma one_dispatch: "resolver_step no_pruning [] (Dispatched ''a'') one_started one_asked"
proof -
  have "next_ready one_started = Some ''a''"
    by (simp add: next_ready_def one_defs live_unpruned_def MAX_DOWNLOAD_WORKERS_def)
  from resolver_step.dispatch [OF this, where pruning = no_pruning and pins = "[]"] show ?thesis
    by (simp add: one_defs take_ready_def new_task_def)
qed

lemma one_waiting: "next_ready one_asked = None"
  by (simp add: next_ready_def one_defs take_ready_def bs_remove_def)

lemma one_current: "own_answers one_started \<and> own_answers one_asked"
  by (simp add: own_answers_def task_current_def one_defs take_ready_def bs_remove_def)

lemma one_install: "resolver_step no_pruning [] (Installed one_task) one_asked one_complete"
proof -
  have "install_and_settle no_pruning [] (tk_id one_task) (tk_generation one_task) [] (rs_graph one_asked)
      = Inr (rs_graph one_complete)"
    by (simp add: install_and_settle_def install_node_dependencies_def stabilize_constraint_nodes.simps one_complete_def
        one_defs take_ready_def bs_remove_def dedup_requirements.simps duplicate_requirement_def sort_by_def install_edges_def)
  from resolver_step.requirements_installed [OF one_waiting _ _ _ this] show ?thesis
    by (simp add: one_complete_def one_defs finish_task_def bs_remove_def is_stale_def take_ready_def)
qed

lemma one_run: "resolver_run no_pruning [] (clean full) [one_request] one_asked"
  by (rule resolver_run.step [OF resolver_run.start [OF one_start] _ one_dispatch]) (simp add: clean_def one_current)

lemma one_run_complete: "resolver_run no_pruning [] (clean full) [one_request] one_complete"
  by (rule resolver_run.step [OF one_run _ one_install]) (simp add: clean_def one_current)

section \<open>The scheduler\<close>

text \<open>C30: the resolver's scheduler. However tasks finish, at most 24 run at a time and no package has
  two; what is ready is always a kept node of the graph; and the loop never turns without work: while
  something is ready and no task runs, there is a package to dispatch.\<close>

theorem resolver_scheduler_sound:
  assumes "resolver_run pruning pins P direct s"
  shows "length (rs_tasks s) \<le> MAX_DOWNLOAD_WORKERS \<and> distinct (map tk_id (rs_tasks s))
    \<and> (\<forall>k \<in> set (rs_ready s). live_unpruned (rs_nodes s) k)
    \<and> (\<not> resolver_done s \<longrightarrow> rs_tasks s \<noteq> [] \<or> next_ready s = Some (hd (rs_ready s)))"
proof -
  have inv: "scheduler_inv s" by (rule resolver_run_scheduler [OF assms])
  then have live: "\<forall>k \<in> set (rs_ready s). live_unpruned (rs_nodes s) k"
    by (simp add: scheduler_inv_def ready_live_def rs_ready_def rs_nodes_def)
  have "next_ready s = Some (hd (rs_ready s))" if "rs_ready s \<noteq> []" "rs_tasks s = []"
    using that inv live by (cases "rs_ready s") (simp_all add: next_ready_def scheduler_inv_def MAX_DOWNLOAD_WORKERS_def)
  then show ?thesis using inv live by (auto simp: scheduler_inv_def resolver_done_def)
qed

theorem resolver_scheduler_sound_witness:
  "length (rs_tasks one_asked) = 1 \<and> length (rs_tasks one_asked) \<le> MAX_DOWNLOAD_WORKERS"
  using resolver_scheduler_sound [OF one_run] by (simp add: one_defs)

section \<open>Every event leaves the fixpoint\<close>



section \<open>The result\<close>

definition wanted :: "constraint_node option \<Rightarrow> string \<Rightarrow> package_request option" where
  "wanted node k = (case node of
       None \<Rightarrow> None
     | Some n \<Rightarrow> if cn_pruned n then None else map_option (exact_request k n) (cn_selected n))"

lemma exact_fold:
  assumes "distinct (map fst nodes)" and "\<forall>(k, n) \<in> set nodes. cn_pruned n \<or> cn_selected n \<noteq> None" and "bt_inv exact"
  shows "\<exists>exact'. try_fold add_exact exact nodes = Inr exact' \<and> bt_inv exact'
    \<and> (\<forall>k. bt_get exact' k = (case wanted (map_of nodes k) k of None \<Rightarrow> bt_get exact k | Some r \<Rightarrow> Some r))"
  using assms
proof (induction nodes arbitrary: exact)
  case Nil
  then show ?case by (simp add: wanted_def)
next
  case (Cons entry nodes)
  obtain k n where entry: "entry = (k, n)" by fastforce
  obtain exact1 where one: "add_exact exact entry = Inr exact1" "bt_inv exact1"
    "\<And>j. bt_get exact1 j = (if j = k then (case wanted (Some n) k of None \<Rightarrow> bt_get exact j | Some r \<Rightarrow> Some r) else bt_get exact j)"
    using Cons.prems entry
    by (cases "cn_pruned n"; cases "cn_selected n") (auto simp: add_exact_def wanted_def bt_inv_insert bt_get_insert)
  have fresh: "wanted (map_of nodes k) k = None"
    using Cons.prems(1) entry by (simp add: wanted_def map_of_eq_None_iff [THEN iffD2])
  obtain exact' where rest: "try_fold add_exact exact1 nodes = Inr exact'" "bt_inv exact'"
    "\<And>j. bt_get exact' j = (case wanted (map_of nodes j) j of None \<Rightarrow> bt_get exact1 j | Some r \<Rightarrow> Some r)"
    using Cons.IH [of exact1] Cons.prems one(2) by auto
  have "bt_get exact' j = (case wanted (map_of (entry # nodes) j) j of None \<Rightarrow> bt_get exact j | Some r \<Rightarrow> Some r)" for j
    by (cases "j = k") (simp_all add: rest(3) one(3) fresh entry cong: option.case_cong)
  then show ?case using rest one(1) by auto
qed

lemma exact_packages_all:
  assumes "bt_inv nodes" and "\<And>k n. bt_get nodes k = Some n \<Longrightarrow> cn_pruned n \<or> cn_selected n \<noteq> None"
  shows "\<exists>exact. exact_packages nodes = Inr exact \<and> (\<forall>k. bt_get exact k = wanted (bt_get nodes k) k)"
proof -
  have d: "distinct (map fst nodes)" using assms(1) by (simp add: bt_inv_def strict_sorted_iff)
  have "\<forall>(k, n) \<in> set nodes. cn_pruned n \<or> cn_selected n \<noteq> None"
    using assms(2) d by (auto simp: bt_get_map_of map_of_is_SomeI)
  from exact_fold [OF d this, of "[]"] obtain exact where e: "exact_packages nodes = Inr exact"
    "\<And>k. bt_get exact k = (case wanted (map_of nodes k) k of None \<Rightarrow> bt_get [] k | Some r \<Rightarrow> Some r)"
    by (auto simp only: exact_packages_def bt_inv_simps)
  have "bt_get exact k = wanted (bt_get nodes k) k" for k
    by (cases "wanted (map_of nodes k) k") (simp_all add: e(2) bt_get_map_of [of nodes])
  then show ?thesis using e(1) by blast
qed



section \<open>Stranded packages\<close>

text \<open>C38: a package asked for at one version may come back with the list of its versions instead, after
  an error of the network. When selection then picks the same version again, nothing asks for its
  requirements any more: the resolution ends without them.\<close>

theorem resolver_strands_package:
  "\<exists>s n. resolver_run no_pruning [] (clean False) [one_request] s \<and> resolver_done s
     \<and> bt_get (rs_nodes s) ''a'' = Some n \<and> \<not> cn_pruned n
     \<and> cn_selected n = Some (plain_version 1) \<and> cn_metadata_version n = None"
proof -
  let ?g = "list_versions ''a'' [plain_version 1] (rs_graph one_asked)"
  let ?s = "(finish_task one_task one_asked)\<lparr>rs_graph := ?g\<lparr>gs_dirty := []\<rparr>\<rparr>"
  have "stabilize_constraint_nodes no_pruning ?g = Inr (?g\<lparr>gs_dirty := []\<rparr>)"
    by (simp add: stabilize_constraint_nodes.simps one_defs list_versions_def take_ready_def bs_remove_def settle_node_def
        select_node_version_def selection_view_def view_any_def bt_values_def is_floating_def consider_lower_def
        node_accepts_def range_contains_def above_lower_def below_upper_def allows_prerelease_def is_pruned_choice_def
        same_choice_def select_available_def float_preference_def view_first_def Let_def example_eval)
  then have "resolver_step no_pruning [] (Listed one_task) one_asked ?s"
    using resolver_step.versions_listed [OF one_waiting, of one_task no_pruning "[plain_version 1]"]
    by (simp add: one_defs)
  moreover have "clean False (Listed one_task) one_asked" by (simp add: clean_def one_current)
  ultimately have run: "resolver_run no_pruning [] (clean False) [one_request] ?s"
    using resolver_run.step [OF one_run] by blast
  have "resolver_done ?s"
    by (simp add: resolver_done_def rs_ready_def finish_task_def one_asked_def list_versions_def take_ready_def
        one_root_settled_def bs_remove_def)
  moreover have "\<exists>n. bt_get (rs_nodes ?s) ''a'' = Some n \<and> \<not> cn_pruned n
     \<and> cn_selected n = Some (plain_version 1) \<and> cn_metadata_version n = None"
    by (simp add: one_defs list_versions_def take_ready_def)
  ultimately show ?thesis using run by blast
qed

end
