(* ===== verification/Asset_Flow.thy ===== *)
theory Asset_Flow
  imports Constraint_Graph
begin

text \<open>
  \<open>crates/dv-core/src/package.rs\<close>: the assets each package of the resolved graph contributes
  (\<open>flatten_asset_flags\<close>). The flags a project asks for travel along the requirements, masked by what
  every requirement includes and suppresses, until no package gains a flag.
\<close>

section \<open>The traversal\<close>

definition pruned_node :: "graph_nodes \<Rightarrow> string \<Rightarrow> bool" where
  "pruned_node nodes k = (case bt_get nodes k of None \<Rightarrow> False | Some node \<Rightarrow> cn_pruned node)"

definition flags_of :: "(string, asset_flags) btree \<Rightarrow> string \<Rightarrow> asset_flags" where
  "flags_of result k = (case bt_get result k of None \<Rightarrow> ASSETS_NONE | Some flags \<Rightarrow> flags)"

definition passed_flags :: "asset_flags \<Rightarrow> package_requirement \<Rightarrow> asset_flags" where
  "passed_flags incoming dep = flags_without (flags_intersect incoming (rr_include_assets dep)) (rr_suppress_parent dep)"

definition passes_on :: "graph_nodes \<Rightarrow> package_requirement \<Rightarrow> bool" where
  "passes_on nodes dep \<longleftrightarrow> \<not> (rr_suppress_parent dep = ASSETS_ALL \<or> pruned_node nodes (rr_lower_id dep))"

definition flow_edges :: "graph_nodes \<Rightarrow> string \<Rightarrow> asset_flags \<Rightarrow> (string \<times> asset_flags) list" where
  "flow_edges nodes k incoming =
     (case bt_get nodes k of
        None \<Rightarrow> []
      | Some node \<Rightarrow> map (\<lambda>dep. (rr_lower_id dep, passed_flags incoming dep)) (filter (passes_on nodes) (cn_dependencies node)))"

definition unset_flags :: "graph_nodes \<Rightarrow> (string, asset_flags) btree \<Rightarrow> (string \<times> nat) set" where
  "unset_flags nodes result = {(k, i). k \<in> set (bt_keys nodes) \<and> i < 8 \<and> \<not> bit (flags_of result k) i}"

definition add_flags :: "string \<Rightarrow> asset_flags \<Rightarrow> (string, asset_flags) btree \<Rightarrow> (string, asset_flags) btree" where
  "add_flags k incoming result = bt_insert k (flags_union (flags_of result k) incoming) result"

lemma bt_get_insert_any: "bt_get (bt_insert k v m) j = (if j = k then Some v else bt_get m j)"
  by (induction k v m rule: bt_insert.induct) auto

lemma flags_of_add: "flags_of (add_flags k incoming result) j = (if j = k then flags_union (flags_of result k) incoming else flags_of result j)"
  by (simp add: add_flags_def flags_of_def bt_get_insert_any)

lemma flags_contain_iff: "flags_contain a b \<longleftrightarrow> (\<forall>i < 8. bit b i \<longrightarrow> bit a i)"
proof
  assume "flags_contain a b"
  then have same: "bit (a AND b) i = bit b i" for i by (simp add: flags_contain_def)
  show "\<forall>i < 8. bit b i \<longrightarrow> bit a i" using same by (auto simp: bit_and_iff)
next
  assume "\<forall>i < 8. bit b i \<longrightarrow> bit a i"
  then show "flags_contain a b" unfolding flags_contain_def by (intro bit_word_eqI) (auto simp: bit_and_iff)
qed

lemma finite_unset_flags: "finite (unset_flags nodes result)"
  by (rule finite_subset [of _ "set (bt_keys nodes) \<times> {..< 8}"]) (auto simp: unset_flags_def)

lemma unset_flags_add:
  assumes "\<not> flags_contain (flags_of result k) incoming"
  shows "card (unset_flags nodes (add_flags k incoming result)) < card (unset_flags nodes result)
    \<or> unset_flags nodes (add_flags k incoming result) = unset_flags nodes result \<and> bt_get nodes k = None"
proof (cases "k \<in> set (bt_keys nodes)")
  case True
  obtain i where i: "i < 8" "bit incoming i" "\<not> bit (flags_of result k) i"
    using assms by (auto simp: flags_contain_iff)
  have "(k, i) \<in> unset_flags nodes result" "(k, i) \<notin> unset_flags nodes (add_flags k incoming result)"
    using True i by (auto simp: unset_flags_def flags_of_add flags_union_def bit_or_iff)
  moreover have "unset_flags nodes (add_flags k incoming result) \<subseteq> unset_flags nodes result"
    by (auto simp: unset_flags_def flags_of_add flags_union_def bit_or_iff split: if_splits)
  ultimately have "unset_flags nodes (add_flags k incoming result) \<subset> unset_flags nodes result" by blast
  then show ?thesis using psubset_card_mono [OF finite_unset_flags] by blast
next
  case False
  then have "unset_flags nodes (add_flags k incoming result) = unset_flags nodes result"
    by (auto simp: unset_flags_def flags_of_add split: if_splits)
  moreover have "bt_get nodes k = None" using False by (simp add: bt_get_None)
  ultimately show ?thesis by simp
qed

function flow :: "graph_nodes \<Rightarrow> (string \<times> asset_flags) list \<Rightarrow> (string, asset_flags) btree \<Rightarrow> (string, asset_flags) btree" where
  "flow nodes [] result = result"
| "flow nodes ((k, incoming) # queue) result =
     (if flags_contain (flags_of result k) incoming then flow nodes queue result
      else flow nodes (queue @ flow_edges nodes k incoming) (add_flags k incoming result))"
  by pat_completeness auto

termination
proof (relation "inv_image (less_than <*lex*> less_than)
    (\<lambda>(nodes, queue, result). (card (unset_flags nodes result), length queue))", goal_cases)
  case (3 nodes k incoming queue result)
  then show ?case using unset_flags_add [of result k incoming nodes] by (auto simp: flow_edges_def)
qed auto

definition flatten_asset_flags :: "graph_nodes \<Rightarrow> package_requirement list \<Rightarrow> (string, asset_flags) btree" where
  "flatten_asset_flags nodes direct =
     flow nodes (map (\<lambda>r. (rr_lower_id r, rr_include_assets r))
       (filter (\<lambda>r. case bt_get nodes (rr_lower_id r) of None \<Rightarrow> False | Some node \<Rightarrow> \<not> cn_pruned node) direct)) []"

section \<open>One flag at a time\<close>

text \<open>A package passes flag \<open>i\<close> on to another over a requirement that includes and does not suppress it.\<close>

definition flag_edges :: "graph_nodes \<Rightarrow> nat \<Rightarrow> (string \<times> string) set" where
  "flag_edges nodes i =
     {(a, b). \<exists>node dep. bt_get nodes a = Some node \<and> dep \<in> set (cn_dependencies node) \<and> rr_lower_id dep = b
        \<and> \<not> pruned_node nodes b \<and> bit (rr_include_assets dep) i \<and> \<not> bit (rr_suppress_parent dep) i}"

definition flag_roots :: "graph_nodes \<Rightarrow> package_requirement list \<Rightarrow> nat \<Rightarrow> string set" where
  "flag_roots nodes direct i =
     {rr_lower_id r | r. r \<in> set direct \<and> (\<exists>node. bt_get nodes (rr_lower_id r) = Some node \<and> \<not> cn_pruned node)
        \<and> bit (rr_include_assets r) i}"

lemma bit_all_assets: "i < 8 \<Longrightarrow> bit ASSETS_ALL i"
proof -
  have "ASSETS_ALL = mask 8" by (simp add: ASSETS_ALL_def mask_eq_exp_minus_1)
  moreover assume "i < 8"
  ultimately show "bit ASSETS_ALL i" using bit_mask_iff [of 8 i, where 'a = u8] by simp
qed

lemma flow_edges_bit:
  assumes "i < 8"
  shows "(\<exists>passed. (b, passed) \<in> set (flow_edges nodes a incoming) \<and> bit passed i) \<longleftrightarrow> (a, b) \<in> flag_edges nodes i \<and> bit incoming i"
proof (cases "bt_get nodes a")
  case None
  then show ?thesis by (simp add: flow_edges_def flag_edges_def)
next
  case (Some node)
  have "bit (passed_flags incoming dep) i \<longleftrightarrow> bit incoming i \<and> bit (rr_include_assets dep) i \<and> \<not> bit (rr_suppress_parent dep) i" for dep
    using assms by (auto simp: passed_flags_def flags_without_def flags_intersect_def bit_and_iff bit_not_iff)
  moreover have "rr_suppress_parent dep = ASSETS_ALL \<Longrightarrow> bit (rr_suppress_parent dep) i" for dep
    using bit_all_assets [OF assms] by simp
  ultimately show ?thesis using Some
    by (auto simp: flow_edges_def flag_edges_def passes_on_def image_iff)
qed

text \<open>Every edge out of a flagged package is followed already or waits in the queue.\<close>

definition flow_closed :: "graph_nodes \<Rightarrow> nat \<Rightarrow> (string \<times> asset_flags) list \<Rightarrow> (string, asset_flags) btree \<Rightarrow> bool" where
  "flow_closed nodes i queue result \<longleftrightarrow>
     (\<forall>a b. bit (flags_of result a) i \<longrightarrow> (a, b) \<in> flag_edges nodes i \<longrightarrow>
        bit (flags_of result b) i \<or> (\<exists>incoming. (b, incoming) \<in> set queue \<and> bit incoming i))"

lemma flow_flags:
  assumes "i < 8" and "flow_closed nodes i queue result"
  shows "bit (flags_of (flow nodes queue result) k) i \<longleftrightarrow>
    (\<exists>a. (bit (flags_of result a) i \<or> (\<exists>incoming. (a, incoming) \<in> set queue \<and> bit incoming i)) \<and> (a, k) \<in> (flag_edges nodes i)\<^sup>*)"
  using assms(2)
proof (induction nodes queue result rule: flow.induct)
  case (1 nodes result)
  have "(a, k) \<in> (flag_edges nodes i)\<^sup>* \<Longrightarrow> bit (flags_of result a) i \<Longrightarrow> bit (flags_of result k) i" for a
    by (induction rule: converse_rtrancl_induct) (use "1.prems" in \<open>auto simp: flow_closed_def\<close>)
  then show ?case by auto
next
  case (2 nodes k' incoming queue result)
  let ?E = "flag_edges nodes i"
  show ?case
  proof (cases "flags_contain (flags_of result k') incoming")
    case True
    then have "bit incoming i \<longrightarrow> bit (flags_of result k') i" using assms(1) by (simp add: flags_contain_iff)
    moreover from this have "flow_closed nodes i queue result"
      using "2.prems" by (auto simp: flow_closed_def)
    ultimately show ?thesis using "2.IH"(1) [OF True] True by auto
  next
    case False
    let ?queue = "queue @ flow_edges nodes k' incoming" and ?result = "add_flags k' incoming result"
    have flags: "bit (flags_of ?result a) i \<longleftrightarrow> bit (flags_of result a) i \<or> a = k' \<and> bit incoming i" for a
      by (simp add: flags_of_add flags_union_def bit_or_iff)
    have queued: "(\<exists>x. (b, x) \<in> set ?queue \<and> bit x i)
        \<longleftrightarrow> (\<exists>x. (b, x) \<in> set queue \<and> bit x i) \<or> (k', b) \<in> ?E \<and> bit incoming i" for b
      using flow_edges_bit [OF assms(1), of b nodes k' incoming] by auto
    have "flow_closed nodes i ?queue ?result"
      unfolding flow_closed_def flags queued using "2.prems" by (auto simp: flow_closed_def)
    note IH = "2.IH"(2) [OF False this]
    have "(\<exists>a. (bit (flags_of ?result a) i \<or> (\<exists>x. (a, x) \<in> set ?queue \<and> bit x i)) \<and> (a, k) \<in> ?E\<^sup>*) \<longleftrightarrow>
      (\<exists>a. (bit (flags_of result a) i \<or> (\<exists>x. (a, x) \<in> set ((k', incoming) # queue) \<and> bit x i)) \<and> (a, k) \<in> ?E\<^sup>*)"
      unfolding flags queued by (auto intro: converse_rtrancl_into_rtrancl)
    then show ?thesis using IH False by simp
  qed
qed

text \<open>C39: asset flags are the flags that arrive. A package is given a kind of asset exactly when some
  reference of the project asks for that kind and a chain of requirements, none of which leaves it out
  or suppresses it and none of whose packages is pruned, leads to the package; and the computation
  always ends.\<close>

theorem flatten_asset_flags_correct:
  assumes "i < 8"
  shows "bit (flags_of (flatten_asset_flags nodes direct) k) i
    \<longleftrightarrow> (\<exists>root \<in> flag_roots nodes direct i. (root, k) \<in> (flag_edges nodes i)\<^sup>*)"
proof -
  have start: "flow_closed nodes i queue []" for queue
    by (simp add: flow_closed_def flags_of_def ASSETS_NONE_def)
  show ?thesis
    unfolding flatten_asset_flags_def flow_flags [OF assms start]
    by (fastforce simp: flag_roots_def flags_of_def ASSETS_NONE_def split: option.splits)
qed

definition flow_example :: graph_nodes where
  "flow_example =
     [(''a'', (fresh_node ''A'' None None)\<lparr>cn_dependencies :=
         [\<lparr>rr_id = ''B'', rr_lower_id = ''b'', rr_range = at_least 1, rr_direct = False,
            rr_include_assets = ASSETS_ALL, rr_suppress_parent = ASSETS_COMPILE\<rparr>]\<rparr>),
      (''b'', fresh_node ''B'' None None)]"

theorem flatten_asset_flags_correct_witness:
  "bit (flags_of (flatten_asset_flags flow_example
      [\<lparr>rr_id = ''A'', rr_lower_id = ''a'', rr_range = at_least 1, rr_direct = True,
         rr_include_assets = ASSETS_ALL, rr_suppress_parent = ASSETS_NONE\<rparr>]) ''b'') 0"
proof -
  let ?direct = "[\<lparr>rr_id = ''A'', rr_lower_id = ''a'', rr_range = at_least 1, rr_direct = True,
         rr_include_assets = ASSETS_ALL, rr_suppress_parent = ASSETS_NONE\<rparr>]"
  have all: "bit ASSETS_ALL 0" "\<not> bit ASSETS_COMPILE 0"
    by (simp_all add: bit_all_assets ASSETS_COMPILE_def bit_push_bit_iff)
  have "''a'' \<in> flag_roots flow_example ?direct 0"
    using all by (auto simp: flag_roots_def flow_example_def fresh_node_def)
  moreover have "(''a'', ''b'') \<in> flag_edges flow_example 0"
    using all by (auto simp: flag_edges_def flow_example_def fresh_node_def pruned_node_def)
  ultimately have "\<exists>root \<in> flag_roots flow_example ?direct 0. (root, ''b'') \<in> (flag_edges flow_example 0)\<^sup>*" by blast
  then show ?thesis by (subst flatten_asset_flags_correct) simp_all
qed

end
