(* ===== verification/Xml_Events.thy ===== *)
theory Xml_Events
  imports Rust_Str
begin

text \<open>
  What the readers of \<open>dv-core\<close> see of an XML document: the events of the \<open>quick_xml\<close> reader, in order,
  with the errors the reader reports. The reader itself is a library: a document is any list of its
  results, which ends where the reader reports the end of the file.
\<close>

text \<open>An attribute is an error of the attribute syntax, or a name and its decoded value or an error.\<close>

type_synonym xml_attribute = "string + string \<times> (string + string)"

record xml_element =
  xe_name :: string
  xe_attributes :: "xml_attribute list"

datatype xml_event =
  StartTag xml_element | EmptyTag xml_element | EndTag string | TextNode "string + string" | OtherNode

type_synonym xml_document = "(string + xml_event) list"

definition local_name :: "string \<Rightarrow> string" where
  "local_name name = last (split_on CHR '':'' name)"

text \<open>The first attribute of a name; an invalid attribute before it is an error.\<close>

fun find_attribute :: "string \<Rightarrow> xml_attribute list \<Rightarrow> (string + string) + string option" where
  "find_attribute name [] = Inr None"
| "find_attribute name (Inl e # rest) = Inl (Inl e)"
| "find_attribute name (Inr (key, val) # rest) =
     (if local_name key = name then (case val of Inl e \<Rightarrow> Inl (Inr e) | Inr v \<Rightarrow> Inr (Some v))
      else find_attribute name rest)"

end
