(* ===== verification/Package_Sources.thy ===== *)
theory Package_Sources
  imports Package_Pruning Protocol Xml_Events
begin

text \<open>
  \<open>crates/dv-core/src/package.rs\<close>: package sources and the values of NuGet configuration files. The
  machine, the environment, the \<open>url\<close> crate and the XML reader are arguments.
\<close>

section \<open>The host\<close>

text \<open>What the \<open>url\<close> crate says of a parsed URL; \<open>url_error\<close> is the text of its error.\<close>

record 'u source_urls =
  url_lib :: "'u url_library"
  url_error :: "string \<Rightarrow> string"
  url_scheme :: "'u \<Rightarrow> string"
  url_host :: "'u \<Rightarrow> string option"
  url_username :: "'u \<Rightarrow> string"
  url_password :: "'u \<Rightarrow> string option"
  url_port :: "'u \<Rightarrow> nat option"
  url_same :: "'u \<Rightarrow> 'u \<Rightarrow> bool"

text \<open>\<open>env_os\<close> looks a variable up; its value may not be Unicode. \<open>path_str\<close> is a Unicode path's text.\<close>

record ('p, 'io, 'u) nuget_host = "('p, 'io) machine" +
  urls :: "'u source_urls"
  url_file_path :: "'u \<Rightarrow> 'p option"
  path_str :: "'p \<Rightarrow> string option"
  path_join_path :: "'p \<Rightarrow> 'p \<Rightarrow> 'p"
  env_os :: "string \<Rightarrow> string option option"
  io_text :: "'io \<Rightarrow> string"

definition parse_url :: "('p, 'io, 'u) nuget_host \<Rightarrow> string \<Rightarrow> 'u option" where
  "parse_url h value = url_parse (url_lib (urls h)) value"

definition config_error :: "string \<Rightarrow> message \<Rightarrow> package_error" where
  "config_error path message = package_error_new Configuration path message"

section \<open>Sources\<close>

datatype nuget_protocol = LocalFeed | V2 | V3

record package_source =
  ps_url :: string
  ps_protocol :: nuget_protocol
  ps_security_flags :: u8

definition SOURCE_ALLOW_INSECURE_CONNECTIONS :: u8 where "SOURCE_ALLOW_INSECURE_CONNECTIONS = push_bit 0 1"
definition SOURCE_DISABLE_TLS_VALIDATION :: u8 where "SOURCE_DISABLE_TLS_VALIDATION = push_bit 1 1"

definition DEFAULT_SOURCE :: string where "DEFAULT_SOURCE = ''https://api.nuget.org/v3/index.json''"

definition parse_http_protocol :: "string option \<Rightarrow> string \<Rightarrow> string \<Rightarrow> package_error + nuget_protocol" where
  "parse_http_protocol value source context =
     (case value of
        Some text \<Rightarrow>
          if text = ''2'' then Inr V2
          else if text = ''3'' then Inr V3
          else Inl (config_error context
            (Format ''package source {source:?} has unsupported protocolVersion {other:?}; expected 2 or 3'' [source, text]))
      | None \<Rightarrow>
          if ends_with (rev (dropWhile (\<lambda>c. c = CHR ''/'') (rev source))) ''/v3/index.json'' then Inr V3 else Inr V2)"

definition protocol_text :: "nuget_protocol \<Rightarrow> string" where
  "protocol_text protocol = (case protocol of LocalFeed \<Rightarrow> ''local'' | V2 \<Rightarrow> ''v2'' | V3 \<Rightarrow> ''v3'')"

definition source_security_flags :: "bool \<Rightarrow> bool \<Rightarrow> u8" where
  "source_security_flags allow_insecure disable_tls =
     (if allow_insecure then SOURCE_ALLOW_INSECURE_CONNECTIONS else 0)
       OR (if disable_tls then SOURCE_DISABLE_TLS_VALIDATION else 0)"

definition allow_insecure_connections :: "package_source \<Rightarrow> bool" where
  "allow_insecure_connections source \<longleftrightarrow> ps_security_flags source AND SOURCE_ALLOW_INSECURE_CONNECTIONS \<noteq> 0"

definition tls_validation :: "package_source \<Rightarrow> bool" where
  "tls_validation source \<longleftrightarrow> ps_security_flags source AND SOURCE_DISABLE_TLS_VALIDATION = 0"

definition has_scheme_prefix :: "string \<Rightarrow> string \<Rightarrow> bool" where
  "has_scheme_prefix prefix value = eq_ignore_case (take (length prefix) value) prefix"

text \<open>An HTTP source: a host, no credentials in the URL, and no plain HTTP unless it is allowed.\<close>

definition parse_http_source :: "('p, 'io, 'u) nuget_host \<Rightarrow> string \<Rightarrow> string option \<Rightarrow> bool \<Rightarrow> bool \<Rightarrow> string \<Rightarrow>
    package_error + package_source" where
  "parse_http_source h value protocol allow_insecure disable_tls context =
     (case parse_url h value of
        None \<Rightarrow> Inl (config_error context (Format ''invalid HTTP package source {value:?}: {error}'' [value, url_error (urls h) value]))
      | Some url \<Rightarrow>
          if url_host (urls h) url = None then
            Inl (config_error context (Format ''HTTP package source {value:?} must include a host'' [value]))
          else if url_username (urls h) url \<noteq> [] \<or> url_password (urls h) url \<noteq> None then
            Inl (config_error context (Format ''package-source URLs must not embed credentials; use packageSourceCredentials or NuGetPackageSourceCredentials_{name}'' []))
          else if has_scheme_prefix ''http://'' value \<and> \<not> allow_insecure then
            Inl (config_error context (Format ''insecure HTTP package source {value:?} requires allowInsecureConnections=true'' [value]))
          else rbind (parse_http_protocol protocol value context) (\<lambda>proto.
            Inr \<lparr>ps_url = value, ps_protocol = proto, ps_security_flags = source_security_flags allow_insecure disable_tls\<rparr>))"

definition local_source_path :: "('p, 'io, 'u) nuget_host \<Rightarrow> string \<Rightarrow> string \<Rightarrow> 'p \<Rightarrow> package_error + 'p" where
  "local_source_path h value context relative_to =
     (if has_scheme_prefix ''file://'' value then
        (case parse_url h value of
           None \<Rightarrow> Inl (config_error context (Format ''invalid local package-source URI {value:?}: {error}'' [value, url_error (urls h) value]))
         | Some url \<Rightarrow> (case url_file_path h url of
             None \<Rightarrow> Inl (config_error context (Format ''local package-source URI {value:?} does not identify a filesystem path'' [value]))
           | Some path \<Rightarrow> Inr path))
      else if contains_str ''://'' value then
        Inl (config_error context (Format ''package source {value:?} must be HTTP, HTTPS, file://, or a local folder path'' [value]))
      else (let path = path_of h value in Inr (if path_is_absolute h path then path else path_join_path h relative_to path)))"

definition parse_local_source :: "('p, 'io, 'u) nuget_host \<Rightarrow> string \<Rightarrow> bool \<Rightarrow> bool \<Rightarrow> string \<Rightarrow> 'p \<Rightarrow>
    package_error + package_source" where
  "parse_local_source h value allow_insecure disable_tls context relative_to =
     rbind (local_source_path h value context relative_to) (\<lambda>path.
       case path_str h path of
         None \<Rightarrow> Inl (package_error_new NonUnicodePath (path_text h path) (Format ''local package-source path is not valid Unicode'' []))
       | Some text \<Rightarrow> Inr \<lparr>ps_url = text, ps_protocol = LocalFeed,
           ps_security_flags = source_security_flags allow_insecure disable_tls\<rparr>)"

definition parse_package_source :: "('p, 'io, 'u) nuget_host \<Rightarrow> string \<Rightarrow> string option \<Rightarrow> bool \<Rightarrow> bool \<Rightarrow> string \<Rightarrow> 'p \<Rightarrow>
    package_error + package_source" where
  "parse_package_source h value protocol allow_insecure disable_tls context relative_to =
     (if trim value = [] then Inl (config_error context (Format ''package source cannot be empty'' []))
      else if has_scheme_prefix ''https://'' value \<or> has_scheme_prefix ''http://'' value then
        parse_http_source h value protocol allow_insecure disable_tls context
      else case protocol of
        Some version \<Rightarrow>
          if version \<noteq> ''2'' \<and> version \<noteq> ''3'' then
            Inl (config_error context (Format ''local package source {value:?} has unsupported protocolVersion {version:?}; expected 2 or 3'' [value, version]))
          else parse_local_source h value allow_insecure disable_tls context relative_to
      | None \<Rightarrow> parse_local_source h value allow_insecure disable_tls context relative_to)"

section \<open>Origins\<close>

record http_origin =
  ho_host :: string
  ho_port :: nat
  ho_secure :: bool

text \<open>The port is known for both schemes: an unknown one is a panic, the \<open>Inl None\<close>.\<close>

definition parse_http_origin :: "('p, 'io, 'u) nuget_host \<Rightarrow> string \<Rightarrow> string \<Rightarrow> package_error option + http_origin" where
  "parse_http_origin h address context =
     (case parse_url h address of
        None \<Rightarrow> Inl (Some (config_error context (Format ''invalid HTTP package source {url:?}: {error}'' [address, url_error (urls h) address])))
      | Some url \<Rightarrow>
          if url_scheme (urls h) url \<notin> {''http'', ''https''} then
            Inl (Some (config_error context (Format ''package source {url:?} must use HTTP or HTTPS'' [address])))
          else (case url_host (urls h) url of
              None \<Rightarrow> Inl (Some (config_error context (Format ''HTTP package source {url:?} must include a host'' [address])))
            | Some host \<Rightarrow> (case url_port (urls h) url of
                None \<Rightarrow> Inl None
              | Some port \<Rightarrow> Inr \<lparr>ho_host = to_lower host, ho_port = port, ho_secure = url_scheme (urls h) url = ''https''\<rparr>)))"

definition origin_matches :: "('p, 'io, 'u) nuget_host \<Rightarrow> http_origin \<Rightarrow> string \<Rightarrow> bool" where
  "origin_matches h origin address =
     (case parse_url h address of
        None \<Rightarrow> False
      | Some url \<Rightarrow> url_scheme (urls h) url = (if ho_secure origin then ''https'' else ''http'')
          \<and> (case url_host (urls h) url of None \<Rightarrow> False | Some host \<Rightarrow> eq_ignore_case host (ho_host origin))
          \<and> url_port (urls h) url = Some (ho_port origin))"

section \<open>Named entries\<close>

text \<open>
  Lists of named entries, where a later entry of a name takes the place of the earlier one.
  \<open>replace_first\<close> is \<open>iter_mut().find\<close> followed by an assignment.
\<close>

fun replace_first :: "('a \<Rightarrow> bool) \<Rightarrow> 'a \<Rightarrow> 'a list \<Rightarrow> 'a list" where
  "replace_first p entry [] = [entry]"
| "replace_first p entry (x # xs) = (if p x then entry # xs else x # replace_first p entry xs)"

definition add_or_replace_source :: "string \<Rightarrow> package_source \<Rightarrow> (string \<times> package_source) list \<Rightarrow> (string \<times> package_source) list" where
  "add_or_replace_source key source sources = replace_first (\<lambda>(name, _). eq_ignore_case name key) (key, source) sources"

record 'p fallback_folder =
  ff_name :: string
  ff_path :: 'p
  ff_config_priority :: nat

definition add_or_replace_path :: "string \<Rightarrow> 'p \<Rightarrow> nat \<Rightarrow> 'p fallback_folder list \<Rightarrow> 'p fallback_folder list" where
  "add_or_replace_path key path config_priority paths =
     replace_first (\<lambda>folder. eq_ignore_case (ff_name folder) key)
       \<lparr>ff_name = key, ff_path = path, ff_config_priority = config_priority\<rparr> paths"

text \<open>\<open>sort_by_key\<close> is stable: the latest file's folders come first.\<close>

definition ordered_fallback_paths :: "'p fallback_folder list \<Rightarrow> 'p list" where
  "ordered_fallback_paths folders =
     map ff_path (sort_by (\<lambda>a b. rust_cmp (ff_config_priority b) (ff_config_priority a)) folders)"

definition resolve_config_path :: "('p, 'io, 'u) nuget_host \<Rightarrow> 'p \<Rightarrow> string \<Rightarrow> 'p" where
  "resolve_config_path h config_path value =
     (let candidate = path_of h value
      in if path_is_absolute h candidate then candidate
         else path_join_path h (case path_parent h config_path of Some parent \<Rightarrow> parent | None \<Rightarrow> path_of h ''.'') candidate)"

section \<open>Sources on the command line\<close>

definition add_command_source :: "('p, 'io, 'u) nuget_host \<Rightarrow> (string \<times> package_source) list \<Rightarrow> 'p \<Rightarrow>
    (string \<times> package_source) list \<Rightarrow> string \<Rightarrow> package_error + (string \<times> package_source) list" where
  "add_command_source h configured directory sources value =
     (if value = [] then Inl (config_error ''--source'' (Format ''command-line package source cannot be empty'' []))
      else rbind (case List.find (\<lambda>(_, source). ps_url source = value) (rev configured) of
            Some selected \<Rightarrow> Inr selected
          | None \<Rightarrow> rbind (parse_package_source h value None False False ''--source'' directory)
              (\<lambda>source. Inr (redact_url_for_output (url_lib (urls h)) value, source)))
        (\<lambda>selected. Inr (if \<exists>(_, source) \<in> set sources. ps_url source = ps_url (snd selected) then sources
                         else sources @ [selected])))"

definition command_line_sources :: "('p, 'io, 'u) nuget_host \<Rightarrow> string list \<Rightarrow> (string \<times> package_source) list \<Rightarrow> 'p \<Rightarrow>
    package_error + (string \<times> package_source) list" where
  "command_line_sources h overrides configured directory =
     (if overrides = [] then Inr configured
      else try_fold (add_command_source h configured directory) [] overrides)"

section \<open>Variables in values\<close>

text \<open>
  \<open>%NAME%\<close> is replaced by the variable's value, if it has one; then the search goes on after the
  closing mark.
\<close>

definition slice :: "string \<Rightarrow> nat \<Rightarrow> nat \<Rightarrow> string" where
  "slice value first after = take (after - first) (drop first value)"

definition expand_name :: "('p, 'io, 'u) nuget_host \<Rightarrow> string \<Rightarrow> string \<Rightarrow> nat \<Rightarrow> nat \<Rightarrow> nat \<times> string option \<Rightarrow>
    package_error + nat \<times> string option" where
  "expand_name h context value marker end_mark st =
     (if end_mark \<le> marker + 1 then Inr st
      else let name = slice value (marker + 1) end_mark
        in case env_os h name of
             None \<Rightarrow> Inr st
           | Some None \<Rightarrow> Inl (config_error context (Format ''NuGet environment variable {name:?} is not valid Unicode'' [name]))
           | Some (Some replacement) \<Rightarrow>
               Inr (end_mark + 1, Some ((case snd st of None \<Rightarrow> [] | Some output \<Rightarrow> output)
                 @ slice value (fst st) marker @ replacement)))"

definition expanded_text :: "string \<Rightarrow> nat \<times> string option \<Rightarrow> string" where
  "expanded_text value st = (case snd st of None \<Rightarrow> value | Some output \<Rightarrow> output @ drop (fst st) value)"

function expand_from :: "('p, 'io, 'u) nuget_host \<Rightarrow> string \<Rightarrow> string \<Rightarrow> nat \<Rightarrow> nat \<times> string option \<Rightarrow> package_error + string" where
  "expand_from h context value marker st =
     (if length value \<le> marker + 1 then Inr (expanded_text value st)
      else case find_byte CHR ''%'' (drop (marker + 1) value) of
        None \<Rightarrow> Inr (expanded_text value st)
      | Some end_offset \<Rightarrow>
          (let end_mark = marker + 1 + end_offset
           in case expand_name h context value marker end_mark st of
                Inl e \<Rightarrow> Inl e
              | Inr st' \<Rightarrow> (case find_byte CHR ''%'' (drop (end_mark + 1) value) of
                  None \<Rightarrow> Inr (expanded_text value st')
                | Some next_offset \<Rightarrow> expand_from h context value (end_mark + 1 + next_offset) st')))"
  by pat_completeness auto

termination by (relation "measure (\<lambda>(h, context, value, marker, st). length value - marker)") auto

declare expand_from.simps [simp del]

definition expand_config_value :: "('p, 'io, 'u) nuget_host \<Rightarrow> string \<Rightarrow> string \<Rightarrow> package_error + string" where
  "expand_config_value h context value =
     (case find_byte CHR ''%'' value of
        None \<Rightarrow> Inr value
      | Some marker \<Rightarrow> expand_from h context value marker (0, None))"

section \<open>Attributes\<close>

definition config_attribute :: "string \<Rightarrow> xml_element \<Rightarrow> string \<Rightarrow> package_error + string option" where
  "config_attribute path element name =
     (case find_attribute name (xe_attributes element) of
        Inl (Inl e) \<Rightarrow> Inl (config_error path (Format ''invalid NuGet attribute: {error}'' [e]))
      | Inl (Inr e) \<Rightarrow> Inl (config_error path (Format ''invalid NuGet attribute value: {error}'' [e]))
      | Inr found \<Rightarrow> Inr found)"

definition required_attribute :: "string \<Rightarrow> xml_element \<Rightarrow> string \<Rightarrow> string \<Rightarrow> package_error + string" where
  "required_attribute path element name missing =
     rbind (config_attribute path element name) (ok_or (config_error path (Format missing [])))"

definition required_expanded_attribute :: "('p, 'io, 'u) nuget_host \<Rightarrow> string \<Rightarrow> xml_element \<Rightarrow> string \<Rightarrow> package_error + string" where
  "required_expanded_attribute h path element name =
     rbind (rbind (config_attribute path element name)
         (ok_or (config_error path (Format ''NuGet client certificate requires attribute {:?}'' [name]))))
       (expand_config_value h path)"

definition optional_expanded_attribute :: "('p, 'io, 'u) nuget_host \<Rightarrow> string \<Rightarrow> xml_element \<Rightarrow> string \<Rightarrow> package_error + string option" where
  "optional_expanded_attribute h path element name =
     rbind (config_attribute path element name) (\<lambda>found. case found of
         None \<Rightarrow> Inr None
       | Some value \<Rightarrow> rbind (expand_config_value h path value) (\<lambda>v. Inr (Some v)))"

end
