(* ===== verification/Dependency_Cycles.thy ===== *)
theory Dependency_Cycles
  imports Constraint_Selection Package_Sources
begin

text \<open>
  \<open>crates/dv-core/src/package.rs\<close>: the resolved packages and the check that their requirements form no
  cycle (\<open>validate_acyclic\<close>): a depth-first search that names the cycle it finds.
\<close>

section \<open>Resolved packages\<close>

datatype runtime_target_kind = RuntimeTarget | ResourceTarget | NativeTarget

record 'p work_runtime_target =
  wt_path :: 'p
  wt_runtime_identifier :: string
  wt_kind :: runtime_target_kind

record 'p work_content_file =
  wc_path :: 'p
  wc_build_action :: nat
  wc_copy_to_output :: bool
  wc_flatten :: bool

record 'p work_package =
  wp_request :: package_request
  wp_root :: 'p
  wp_hash :: string
  wp_dependencies :: "package_request list"
  wp_compile_assets :: "'p list"
  wp_runtime_assets :: "'p list"
  wp_analyzers :: "'p list"
  wp_resource_assets :: "'p list"
  wp_content_files :: "'p work_content_file list"
  wp_content_actions :: "string list"
  wp_build_assets :: "'p list"
  wp_build_multi_targeting_assets :: "'p list"
  wp_build_transitive_assets :: "'p list"
  wp_native_assets :: "'p list"
  wp_runtime_targets :: "'p work_runtime_target list"
  wp_framework_references :: "string list"
  wp_framework_assemblies :: "string list"
  wp_cache_hit :: bool
  wp_origin :: "package_source option"

type_synonym 'p resolved_packages = "(string, 'p work_package) btree"

section \<open>The search\<close>

definition cycle_text :: "string list \<Rightarrow> string" where
  "cycle_text names = join_str '' -> '' names"

definition cycle_error :: "string list \<Rightarrow> string \<Rightarrow> package_error" where
  "cycle_error stack name =
     (let start = takeWhile (\<lambda>entry. entry \<noteq> name) stack;
          cycle = cycle_text (drop (length start) stack) @ '' -> '' @ name
      in with_cause ''package metadata contains a circular dependency chain''
           (with_context ''cycle'' cycle
             (with_context ''package_id'' name
               (package_error_new DependencyCycle name
                 (Format ''package dependency cycle detected: {}'' [cycle])))))"

definition required_ids :: "'p resolved_packages \<Rightarrow> string \<Rightarrow> string list" where
  "required_ids packages name =
     (case bt_get packages name of None \<Rightarrow> [] | Some package \<Rightarrow> map rq_lower_id (wp_dependencies package))"

lemma unstacked_decreases:
  assumes "bt_get packages name = Some package" and "name \<notin> set stack"
  shows "card (set (bt_keys packages) - set (stack @ [name])) < card (set (bt_keys packages) - set stack)"
proof -
  have "name \<in> set (bt_keys packages)" using assms(1) by (rule bt_get_Some_in_keys)
  then have "set (bt_keys packages) - set (stack @ [name]) \<subset> set (bt_keys packages) - set stack" using assms(2) by auto
  then show ?thesis by (meson List.finite_set finite_Diff psubset_card_mono)
qed

text \<open>
  \<open>visit\<close> takes a name off \<open>visiting\<close> and \<open>stack\<close> again before it returns without an error, so only
  \<open>visited\<close> is passed on.
\<close>

function visit :: "'p resolved_packages \<Rightarrow> string list \<Rightarrow> string list \<Rightarrow> string \<Rightarrow> package_error + string list"
  and visit_all :: "'p resolved_packages \<Rightarrow> string list \<Rightarrow> string list \<Rightarrow> string list \<Rightarrow> package_error + string list" where
  "visit packages stack visited name =
     (if name \<in> set visited then Inr visited
      else if name \<in> set stack then Inl (cycle_error stack name)
      else case bt_get packages name of
          None \<Rightarrow> Inr (bs_insert name visited)
        | Some package \<Rightarrow>
            rbind (visit_all packages (stack @ [name]) visited (map rq_lower_id (wp_dependencies package)))
              (\<lambda>visited'. Inr (bs_insert name visited')))"
| "visit_all packages stack visited [] = Inr visited"
| "visit_all packages stack visited (name # names) =
     rbind (visit packages stack visited name) (\<lambda>visited'. visit_all packages stack visited' names)"
  by pat_completeness auto

termination
proof (relation "inv_image (less_than <*lex*> less_than) (\<lambda>call. case call of
      Inl (packages, stack, visited, name) \<Rightarrow> (card (set (bt_keys packages) - set stack), 0)
    | Inr (packages, stack, visited, names) \<Rightarrow> (card (set (bt_keys packages) - set stack), Suc (length names)))", goal_cases)
  case (2 packages stack visited name package)
  then show ?case using unstacked_decreases [of packages name package stack] by simp
qed auto

declare visit.simps [simp del]

definition validate_acyclic :: "'p resolved_packages \<Rightarrow> package_error + unit" where
  "validate_acyclic packages = rbind (visit_all packages [] [] (bt_keys packages)) (\<lambda>_. Inr ())"

section \<open>The search finds the cycles\<close>

definition requires :: "'p resolved_packages \<Rightarrow> (string \<times> string) set" where
  "requires packages = {(a, b). b \<in> set (required_ids packages a)}"

text \<open>What is visited is closed under requirements, and on no cycle.\<close>

definition search_ok :: "'p resolved_packages \<Rightarrow> string list \<Rightarrow> bool" where
  "search_ok packages visited \<longleftrightarrow>
     (\<forall>a \<in> set visited. (a, a) \<notin> (requires packages)\<^sup>+ \<and> (\<forall>b. (a, b) \<in> requires packages \<longrightarrow> b \<in> set visited))"

text \<open>The stack is a chain of requirements that leads to the name looked at.\<close>

fun chain :: "'p resolved_packages \<Rightarrow> string list \<Rightarrow> bool" where
  "chain packages (a # b # rest) \<longleftrightarrow> (a, b) \<in> requires packages \<and> chain packages (b # rest)"
| "chain packages _ \<longleftrightarrow> True"

definition cycle_found :: "'p resolved_packages \<Rightarrow> package_error \<Rightarrow> bool" where
  "cycle_found packages e \<longleftrightarrow> (\<exists>stack name. e = cycle_error stack name \<and> name \<in> set stack
     \<and> chain packages (dropWhile (\<lambda>entry. entry \<noteq> name) stack @ [name]))"

lemma search_closed:
  assumes "search_ok packages visited" and "a \<in> set visited" and "(a, b) \<in> (requires packages)\<^sup>*"
  shows "b \<in> set visited"
  using assms(3,2) by (induction rule: converse_rtrancl_induct) (use assms(1) in \<open>auto simp: search_ok_def\<close>)

lemma search_ok_insert:
  assumes ok: "search_ok packages visited" and known: "set (required_ids packages name) \<subseteq> set visited"
  shows "search_ok packages (bs_insert name visited)"
proof -
  have "(name, name) \<notin> (requires packages)\<^sup>+"
  proof
    assume cyclic: "(name, name) \<in> (requires packages)\<^sup>+"
    then obtain next_name where "(name, next_name) \<in> requires packages" "(next_name, name) \<in> (requires packages)\<^sup>*"
      by (meson tranclD)
    then have "name \<in> set visited" using search_closed [OF ok, of next_name name] known by (auto simp: requires_def)
    then show False using ok cyclic by (auto simp: search_ok_def)
  qed
  then show ?thesis using ok known by (auto simp: search_ok_def requires_def)
qed

lemma chain_snoc: "chain packages (xs @ [a, b]) \<longleftrightarrow> chain packages (xs @ [a]) \<and> (a, b) \<in> requires packages"
proof (induction xs)
  case (Cons x xs)
  then show ?case by (cases xs) auto
qed simp

lemma chain_drop: "chain packages (xs @ ys) \<Longrightarrow> chain packages ys"
proof (induction xs)
  case (Cons x xs)
  then show ?case by (cases "xs @ ys") auto
qed simp

lemma visit_correct:
  shows "search_ok packages visited \<Longrightarrow> chain packages (stack @ [name]) \<Longrightarrow>
      (case visit packages stack visited name of
         Inl e \<Rightarrow> cycle_found packages e
       | Inr visited' \<Rightarrow> search_ok packages visited' \<and> insert name (set visited) \<subseteq> set visited')"
    and "search_ok packages visited \<Longrightarrow> (\<And>name. name \<in> set names \<Longrightarrow> chain packages (stack @ [name])) \<Longrightarrow>
      (case visit_all packages stack visited names of
         Inl e \<Rightarrow> cycle_found packages e
       | Inr visited' \<Rightarrow> search_ok packages visited' \<and> set names \<union> set visited \<subseteq> set visited')"
proof (induction packages stack visited name and packages stack visited names rule: visit_visit_all.induct)
  case (1 packages stack visited name)
  show ?case
  proof (cases "name \<in> set visited")
    case True
    then show ?thesis using "1.prems" by (simp add: visit.simps)
  next
    case unvisited: False
    show ?thesis
    proof (cases "name \<in> set stack")
      case True
      have "stack @ [name] = takeWhile (\<lambda>entry. entry \<noteq> name) stack @ (dropWhile (\<lambda>entry. entry \<noteq> name) stack @ [name])"
        by simp
      then have "chain packages (dropWhile (\<lambda>entry. entry \<noteq> name) stack @ [name])"
        using "1.prems"(2) chain_drop by metis
      then show ?thesis using True unvisited by (auto simp: visit.simps cycle_found_def)
    next
      case False
      show ?thesis
      proof (cases "bt_get packages name")
        case None
        then have "required_ids packages name = []" by (simp add: required_ids_def)
        then show ?thesis using unvisited False None search_ok_insert [OF "1.prems"(1), of name]
          by (auto simp: visit.simps)
      next
        case (Some package)
        let ?names = "map rq_lower_id (wp_dependencies package)"
        have names: "required_ids packages name = ?names" using Some by (simp add: required_ids_def)
        have "chain packages ((stack @ [name]) @ [next_name])" if "next_name \<in> set ?names" for next_name
          using "1.prems"(2) that chain_snoc [of packages stack name next_name] by (simp add: requires_def names)
        note IH = "1.IH" [OF unvisited False Some "1.prems"(1) this]
        show ?thesis
        proof (cases "visit_all packages (stack @ [name]) visited ?names")
          case (Inl e)
          then show ?thesis using IH unvisited False Some by (simp add: visit.simps)
        next
          case (Inr visited')
          then have "search_ok packages visited'" "set ?names \<union> set visited \<subseteq> set visited'" using IH by simp_all
          then show ?thesis using unvisited False Some Inr search_ok_insert [of packages visited' name] names
            by (auto simp: visit.simps)
        qed
      qed
    qed
  qed
next
  case (2 packages stack visited)
  then show ?case by simp
next
  case (3 packages stack visited name names)
  show ?case
  proof (cases "visit packages stack visited name")
    case (Inl e)
    then show ?thesis using "3.IH"(1) "3.prems" by simp
  next
    case (Inr visited')
    then have one: "search_ok packages visited'" "insert name (set visited) \<subseteq> set visited'"
      using "3.IH"(1) "3.prems" by simp_all
    then show ?thesis using "3.IH"(2) [OF one(1)] "3.prems"(2) Inr one(2)
      by (cases "visit_all packages stack visited' names") auto
  qed
qed

text \<open>C40: the dependency check. It accepts a set of resolved packages exactly when their requirements
  form no cycle; otherwise the error names a real cycle, every step of which is a requirement.\<close>

theorem validate_acyclic_correct:
  "case validate_acyclic packages of
     Inl e \<Rightarrow> \<not> acyclic (requires packages) \<and> cycle_found packages e
   | Inr _ \<Rightarrow> acyclic (requires packages)"
proof -
  let ?search = "visit_all packages [] [] (bt_keys packages)"
  have result: "case ?search of
         Inl e \<Rightarrow> cycle_found packages e
       | Inr visited \<Rightarrow> search_ok packages visited \<and> set (bt_keys packages) \<union> set [] \<subseteq> set visited"
    by (rule visit_correct(2)) (simp_all add: search_ok_def)
  have cyclic: "\<not> acyclic (requires packages)" if found: "cycle_found packages e" for e
  proof -
    have path: "chain packages (a # names) \<Longrightarrow> (a, last (a # names)) \<in> (requires packages)\<^sup>*" for a names
      by (induction names arbitrary: a) (auto intro: converse_rtrancl_into_rtrancl)
    from found obtain stack name where "name \<in> set stack" "chain packages (dropWhile (\<lambda>entry. entry \<noteq> name) stack @ [name])"
      by (auto simp: cycle_found_def)
    moreover from this(1) have "\<exists>rest. dropWhile (\<lambda>entry. entry \<noteq> name) stack = name # rest"
      by (induction stack) auto
    then obtain rest where "dropWhile (\<lambda>entry. entry \<noteq> name) stack = name # rest" ..
    ultimately have "chain packages (name # rest @ [name])" by simp
    then obtain b where "(name, b) \<in> requires packages" "chain packages (b # tl (rest @ [name]))" "last (b # tl (rest @ [name])) = name"
      by (cases rest) auto
    then have "(name, name) \<in> (requires packages)\<^sup>+" using path [of b "tl (rest @ [name])"] by (metis rtrancl_into_trancl2)
    then show ?thesis by (auto simp: acyclic_def)
  qed
  have acyclic: "acyclic (requires packages)" if "search_ok packages visited" "set (bt_keys packages) \<subseteq> set visited" for visited
  proof -
    have "a \<in> set visited" if "(a, b) \<in> (requires packages)\<^sup>+" for a b
    proof -
      from that obtain c where "(a, c) \<in> requires packages" by (meson tranclD)
      then obtain package where "bt_get packages a = Some package"
        by (cases "bt_get packages a") (simp_all add: requires_def required_ids_def)
      from bt_get_Some_in_keys [OF this] show ?thesis using \<open>set (bt_keys packages) \<subseteq> set visited\<close> by (rule rev_subsetD)
    qed
    then show ?thesis using that(1) by (auto simp: acyclic_def search_ok_def)
  qed
  show ?thesis using result cyclic acyclic
    by (cases ?search) (auto simp: validate_acyclic_def)
qed

end
