(* ===== verification/Utf16.thy ===== *)
theory Utf16
  imports Rust_Str
begin

text \<open>
  Code points of a Rust string, whose bytes are UTF-8, and their UTF-16 code units, as
  \<open>str::chars\<close>, \<open>char::encode_utf16\<close> and \<open>String::from_utf16\<close> give them.
\<close>

definition byte_at :: "string \<Rightarrow> nat \<Rightarrow> nat" where
  "byte_at s i = of_char (s ! i)"

text \<open>The length of the encoding that a first byte announces, and the code point of the encoding.\<close>

definition char_width :: "string \<Rightarrow> nat" where
  "char_width s = (let b = byte_at s 0 in if b < 0x80 then 1 else if b < 0xE0 then 2 else if b < 0xF0 then 3 else 4)"

definition code_point :: "string \<Rightarrow> nat" where
  "code_point s =
     (let b = byte_at s; follow = (\<lambda>i. b i mod 0x40)
      in if b 0 < 0x80 then b 0
         else if b 0 < 0xE0 then b 0 mod 0x20 * 0x40 + follow 1
         else if b 0 < 0xF0 then b 0 mod 0x10 * 0x1000 + follow 1 * 0x40 + follow 2
         else b 0 mod 8 * 0x40000 + follow 1 * 0x1000 + follow 2 * 0x40 + follow 3)"

definition utf8_bytes :: "nat \<Rightarrow> string" where
  "utf8_bytes c = map char_of
     (if c < 0x80 then [c]
      else if c < 0x800 then [0xC0 + c div 0x40, 0x80 + c mod 0x40]
      else if c < 0x10000 then [0xE0 + c div 0x1000, 0x80 + c div 0x40 mod 0x40, 0x80 + c mod 0x40]
      else [0xF0 + c div 0x40000, 0x80 + c div 0x1000 mod 0x40, 0x80 + c div 0x40 mod 0x40, 0x80 + c mod (0x40 :: nat)])"

definition utf16_units :: "nat \<Rightarrow> nat list" where
  "utf16_units c =
     (if c < 0x10000 then [c]
      else [0xD800 + (c - 0x10000) div 0x400, 0xDC00 + (c - 0x10000) mod 0x400])"

definition high_surrogate :: "nat \<Rightarrow> bool" where "high_surrogate u \<longleftrightarrow> 0xD800 \<le> u \<and> u < 0xDC00"
definition low_surrogate :: "nat \<Rightarrow> bool" where "low_surrogate u \<longleftrightarrow> 0xDC00 \<le> u \<and> u < 0xE000"

fun from_utf16 :: "nat list \<Rightarrow> string option" where
  "from_utf16 [] = Some []"
| "from_utf16 [u] = (if high_surrogate u \<or> low_surrogate u then None else Some (utf8_bytes u))"
| "from_utf16 (u # v # units) =
     (if low_surrogate u then None
      else if high_surrogate u then
        (if low_surrogate v
         then map_option ((@) (utf8_bytes (0x10000 + (u - 0xD800) * 0x400 + (v - 0xDC00)))) (from_utf16 units)
         else None)
      else map_option ((@) (utf8_bytes u)) (from_utf16 (v # units)))"

text \<open>\<open>encode_utf16().count()\<close>: an encoding of four bytes is two units.\<close>

definition utf16_length :: "string \<Rightarrow> nat" where
  "utf16_length s = sum_list (map (\<lambda>c. let b = of_char c :: nat in if 0x80 \<le> b \<and> b < 0xC0 then 0 else if b < 0xF0 then 1 else 2) s)"

definition hex_value :: "char \<Rightarrow> nat option" where
  "hex_value c =
     (let b = of_char c :: nat
      in if 0x30 \<le> b \<and> b \<le> 0x39 then Some (b - 0x30)
         else if 0x61 \<le> b \<and> b \<le> 0x66 then Some (b - 0x57)
         else if 0x41 \<le> b \<and> b \<le> 0x46 then Some (b - 0x37)
         else None)"

text \<open>\<open>u16::from_str_radix(hex, 16)\<close> of four bytes: digits, or a plus sign and digits.\<close>

definition parse_hex :: "string \<Rightarrow> nat option" where
  "parse_hex s =
     (let digits = (case s of CHR ''+'' # rest \<Rightarrow> rest | _ \<Rightarrow> s)
      in if digits = [] \<or> (\<exists>c \<in> set digits. hex_value c = None) then None
         else Some (foldl (\<lambda>n c. n * 16 + the (hex_value c)) 0 digits))"

text \<open>The name of an XML element with its \<open>_xHHHH_\<close> escapes, as UTF-16 units.\<close>

definition name_escape :: "string \<Rightarrow> nat option" where
  "name_escape s =
     (if 7 \<le> length s \<and> s ! 0 = CHR ''_'' \<and> (s ! 1 = CHR ''x'' \<or> s ! 1 = CHR ''X'') \<and> s ! 6 = CHR ''_''
      then parse_hex (take 4 (drop 2 s)) else None)"

lemma char_width_pos: "0 < char_width s"
  by (simp add: char_width_def Let_def)

function name_units :: "string \<Rightarrow> nat list" where
  "name_units s =
     (if s = [] then []
      else case name_escape s of
        Some u \<Rightarrow> u # name_units (drop 7 s)
      | None \<Rightarrow> utf16_units (code_point s) @ name_units (drop (char_width s) s))"
  by pat_completeness auto

termination
  by (relation "measure length") (use char_width_pos in \<open>auto simp: neq_Nil_conv\<close>)

declare name_units.simps [simp del]

definition decode_xml_name :: "string \<Rightarrow> string option" where
  "decode_xml_name value = from_utf16 (name_units value)"

end
