(* ===== verification/Trusted_Signers.thy ===== *)
theory Trusted_Signers
  imports Package_Sources Utf16
begin

text \<open>
  \<open>crates/dv-core/src/package_signature.rs\<close>: the policy on package signatures, and its reading from
  the \<open>trustedSigners\<close> of NuGet configuration files (\<open>merge_trusted_signers\<close> of \<open>package.rs\<close>). A result
  \<open>Inl None\<close> is a panic.
\<close>

section \<open>The policy\<close>

datatype signature_validation_mode = AcceptSignatures | RequireSignatures

definition signature_mode_text :: "signature_validation_mode \<Rightarrow> string" where
  "signature_mode_text mode = (case mode of AcceptSignatures \<Rightarrow> ''accept'' | RequireSignatures \<Rightarrow> ''require'')"

datatype trusted_signer_kind = AuthorSigner | RepositorySigner

datatype fingerprint_algorithm = Sha256 | Sha384 | Sha512

definition parse_fingerprint_algorithm :: "string \<Rightarrow> fingerprint_algorithm option" where
  "parse_fingerprint_algorithm value =
     (if eq_ignore_case value ''SHA256'' then Some Sha256
      else if eq_ignore_case value ''SHA384'' then Some Sha384
      else if eq_ignore_case value ''SHA512'' then Some Sha512
      else None)"

definition fingerprint_bytes :: "fingerprint_algorithm \<Rightarrow> nat" where
  "fingerprint_bytes algorithm = (case algorithm of Sha256 \<Rightarrow> 32 | Sha384 \<Rightarrow> 48 | Sha512 \<Rightarrow> 64)"

record trusted_certificate =
  tc_fingerprint :: "nat list"
  tc_algorithm :: fingerprint_algorithm
  tc_allow_untrusted_root :: bool

definition hex_nibble :: "char \<Rightarrow> nat" where
  "hex_nibble c = (case hex_value c of Some n \<Rightarrow> n | None \<Rightarrow> 0)"

fun hex_pairs :: "string \<Rightarrow> nat list" where
  "hex_pairs (a # b # rest) = (16 * hex_nibble a + hex_nibble b) # hex_pairs rest"
| "hex_pairs _ = []"

definition parse_trusted_certificate :: "string \<Rightarrow> fingerprint_algorithm \<Rightarrow> bool \<Rightarrow> string + trusted_certificate" where
  "parse_trusted_certificate fingerprint algorithm allow_untrusted_root =
     (if length fingerprint \<noteq> fingerprint_bytes algorithm * 2 \<or> (\<exists>c \<in> set fingerprint. hex_value c = None)
      then Inl ''certificate fingerprint has the wrong length or contains non-hexadecimal characters''
      else Inr \<lparr>tc_fingerprint = hex_pairs fingerprint, tc_algorithm = algorithm,
        tc_allow_untrusted_root = allow_untrusted_root\<rparr>)"

record trusted_signer =
  ts_name :: string
  ts_service_index :: "string option"
  ts_owners :: "string list"
  ts_certificates :: "trusted_certificate list"
  ts_kind :: trusted_signer_kind

record signature_policy =
  sp_signers :: "trusted_signer list"
  sp_mode :: signature_validation_mode

definition validate_signature_policy :: "signature_policy \<Rightarrow> package_error + unit" where
  "validate_signature_policy policy =
     (if sp_mode policy = RequireSignatures \<and> sp_signers policy = [] then
        Inl (package_error_new Configuration ''trustedSigners''
          (Format ''signatureValidationMode=require needs at least one author or repository in trustedSigners'' []))
      else Inr ())"

section \<open>Reading signers\<close>

text \<open>A pending signer is a signer whose certificates are still being read.\<close>

record signer_reader =
  sr_in_section :: bool
  sr_in_owners :: bool
  sr_owner_text :: "string option"
  sr_pending :: "trusted_signer option"
  sr_signers :: "trusted_signer list"

definition signer_error :: "string \<Rightarrow> string \<Rightarrow> package_error option + 'a" where
  "signer_error path text = Inl (Some (config_error path (Format text [])))"

definition as_failure :: "package_error + 'a \<Rightarrow> package_error option + 'a" where
  "as_failure r = map_error Some r"

definition signer_service_index :: "('p, 'io, 'u) nuget_host \<Rightarrow> string \<Rightarrow> xml_element \<Rightarrow> package_error + string" where
  "signer_service_index h path element =
     rbind (required_attribute path element ''serviceIndex'' ''NuGet trusted repository requires serviceIndex'') (\<lambda>value.
       case parse_url h value of
         None \<Rightarrow> Inl (config_error path (Format ''invalid trusted repository serviceIndex: {error}'' [url_error (urls h) value]))
       | Some url \<Rightarrow>
           if url_scheme (urls h) url \<noteq> ''https'' \<or> url_host (urls h) url = None
           then Inl (config_error path (Format ''NuGet trusted repository serviceIndex must use HTTPS'' []))
           else Inr value)"

definition begin_trusted_signer :: "('p, 'io, 'u) nuget_host \<Rightarrow> string \<Rightarrow> xml_element \<Rightarrow> trusted_signer option \<Rightarrow>
    package_error + trusted_signer" where
  "begin_trusted_signer h path element pending =
     (if pending \<noteq> None then Inl (config_error path (Format ''NuGet trusted signers cannot be nested'' []))
      else rbind (required_attribute path element ''name'' ''NuGet trusted signer requires a name'') (\<lambda>name.
        if name = [] then Inl (config_error path (Format ''NuGet trusted signer name cannot be empty'' []))
        else if local_name (xe_name element) = ''author'' then
          Inr \<lparr>ts_name = name, ts_service_index = None, ts_owners = [], ts_certificates = [], ts_kind = AuthorSigner\<rparr>
        else rbind (signer_service_index h path element) (\<lambda>index.
          Inr \<lparr>ts_name = name, ts_service_index = Some index, ts_owners = [], ts_certificates = [], ts_kind = RepositorySigner\<rparr>)))"

definition parse_bool :: "string \<Rightarrow> bool option" where
  "parse_bool text = (if text = ''true'' then Some True else if text = ''false'' then Some False else None)"

definition append_trusted_certificate :: "string \<Rightarrow> xml_element \<Rightarrow> trusted_signer option \<Rightarrow> package_error + trusted_signer" where
  "append_trusted_certificate path element pending =
     rbind (ok_or (config_error path (Format ''NuGet trusted certificate must be inside an author or repository'' [])) pending) (\<lambda>signer.
     rbind (required_attribute path element ''fingerprint'' ''NuGet trusted certificate requires fingerprint'') (\<lambda>fingerprint.
     rbind (rbind (config_attribute path element ''hashAlgorithm'') (\<lambda>found.
         ok_or (config_error path (Format ''NuGet trusted certificate hashAlgorithm must be SHA256, SHA384, or SHA512'' []))
           (Option.bind found parse_fingerprint_algorithm))) (\<lambda>algorithm.
     rbind (rbind (required_attribute path element ''allowUntrustedRoot'' ''NuGet trusted certificate requires allowUntrustedRoot'')
         (\<lambda>text. ok_or (config_error path (Format ''NuGet trusted certificate allowUntrustedRoot must be true or false'' []))
           (parse_bool text))) (\<lambda>allow_untrusted_root.
     case parse_trusted_certificate fingerprint algorithm allow_untrusted_root of
       Inl e \<Rightarrow> Inl (config_error path (Format ''invalid NuGet trusted certificate: {error}'' [e]))
     | Inr certificate \<Rightarrow> Inr (signer\<lparr>ts_certificates := ts_certificates signer @ [certificate]\<rparr>)))))"

text \<open>The signer a new one takes the place of.\<close>

definition same_signer :: "('p, 'io, 'u) nuget_host \<Rightarrow> trusted_signer \<Rightarrow> trusted_signer \<Rightarrow> bool" where
  "same_signer h signer existing =
     (case ts_kind signer of
        AuthorSigner \<Rightarrow> ts_kind existing = AuthorSigner \<and> eq_ignore_case (ts_name existing) (ts_name signer)
      | RepositorySigner \<Rightarrow> ts_kind existing = RepositorySigner
          \<and> (case (Option.bind (ts_service_index existing) (parse_url h), Option.bind (ts_service_index signer) (parse_url h)) of
               (Some a, Some b) \<Rightarrow> url_same (urls h) a b
             | _ \<Rightarrow> False))"

definition finish_trusted_signer :: "('p, 'io, 'u) nuget_host \<Rightarrow> string \<Rightarrow> trusted_signer option \<Rightarrow> trusted_signer list \<Rightarrow>
    package_error + trusted_signer list" where
  "finish_trusted_signer h path pending signers =
     rbind (ok_or (config_error path (Format ''NuGet trusted signer ended without a start'' [])) pending) (\<lambda>signer.
       if ts_certificates signer = []
       then Inl (config_error path (Format ''NuGet trusted signer requires at least one certificate'' []))
       else Inr (replace_first (same_signer h signer) signer signers))"

definition parse_owners :: "string \<Rightarrow> string \<Rightarrow> package_error + string list" where
  "parse_owners path value =
     (let owners = map trim (split_on CHR '';'' value)
      in if owners = [] \<or> [] \<in> set owners
         then Inl (config_error path (Format ''NuGet trusted repository owners must be semicolon-delimited non-empty names'' []))
         else Inr owners)"

section \<open>Events\<close>

definition signer_start :: "('p, 'io, 'u) nuget_host \<Rightarrow> string \<Rightarrow> xml_element \<Rightarrow> signer_reader \<Rightarrow> package_error option + signer_reader" where
  "signer_start h path element s =
     (let name = local_name (xe_name element)
      in if name = ''trustedSigners'' then
           (if sr_in_section s then signer_error path ''NuGet trustedSigners sections cannot be nested''
            else Inr (s\<lparr>sr_in_section := True\<rparr>))
         else if \<not> sr_in_section s then Inr s
         else if name = ''author'' \<or> name = ''repository'' then
           rbind (as_failure (begin_trusted_signer h path element (sr_pending s))) (\<lambda>signer. Inr (s\<lparr>sr_pending := Some signer\<rparr>))
         else if name = ''certificate'' then
           rbind (as_failure (append_trusted_certificate path element (sr_pending s))) (\<lambda>signer. Inr (s\<lparr>sr_pending := Some signer\<rparr>))
         else if name = ''owners'' then
           (case sr_pending s of
              None \<Rightarrow> signer_error path ''NuGet trusted repository owners must be inside a repository''
            | Some signer \<Rightarrow>
                if ts_kind signer \<noteq> RepositorySigner \<or> sr_in_owners s \<or> sr_owner_text s \<noteq> None
                then signer_error path ''NuGet trusted repository must contain at most one owners element''
                else Inr (s\<lparr>sr_in_owners := True\<rparr>))
         else Inr s)"

definition signer_empty :: "string \<Rightarrow> xml_element \<Rightarrow> signer_reader \<Rightarrow> package_error option + signer_reader" where
  "signer_empty path element s =
     (let name = local_name (xe_name element)
      in if \<not> sr_in_section s then Inr s
         else if name = ''clear'' \<and> sr_pending s = None then Inr (s\<lparr>sr_signers := []\<rparr>)
         else if name = ''certificate'' then
           rbind (as_failure (append_trusted_certificate path element (sr_pending s))) (\<lambda>signer. Inr (s\<lparr>sr_pending := Some signer\<rparr>))
         else if name = ''author'' \<or> name = ''repository'' then
           signer_error path ''NuGet trusted signer requires at least one certificate''
         else Inr s)"

definition signer_text :: "string \<Rightarrow> string + string \<Rightarrow> signer_reader \<Rightarrow> package_error option + signer_reader" where
  "signer_text path content s =
     (if \<not> sr_in_owners s then Inr s
      else case content of
        Inl e \<Rightarrow> Inl (Some (config_error path (Format ''invalid NuGet trusted repository owners text: {error}'' [e])))
      | Inr value \<Rightarrow>
          if sr_owner_text s \<noteq> None then signer_error path ''NuGet trusted repository owners must contain one text value''
          else Inr (s\<lparr>sr_owner_text := Some value\<rparr>))"

definition signer_end :: "('p, 'io, 'u) nuget_host \<Rightarrow> string \<Rightarrow> string \<Rightarrow> signer_reader \<Rightarrow> package_error option + signer_reader" where
  "signer_end h path tag s =
     (let name = local_name tag
      in if sr_in_section s \<and> name = ''owners'' then
           (case sr_owner_text s of
              None \<Rightarrow> signer_error path ''NuGet trusted repository owners cannot be empty''
            | Some value \<Rightarrow> rbind (as_failure (parse_owners path value)) (\<lambda>owners.
                case sr_pending s of
                  None \<Rightarrow> Inl None
                | Some signer \<Rightarrow> Inr (s\<lparr>sr_owner_text := None, sr_pending := Some (signer\<lparr>ts_owners := owners\<rparr>), sr_in_owners := False\<rparr>)))
         else if sr_in_section s \<and> (name = ''author'' \<or> name = ''repository'') then
           rbind (as_failure (finish_trusted_signer h path (sr_pending s) (sr_signers s)))
             (\<lambda>signers. Inr (s\<lparr>sr_pending := None, sr_signers := signers\<rparr>))
         else if name = ''trustedSigners'' then
           (if sr_pending s \<noteq> None \<or> sr_in_owners s then signer_error path ''NuGet trusted signer did not close''
            else Inr (s\<lparr>sr_in_section := False\<rparr>))
         else Inr s)"

definition signer_event :: "('p, 'io, 'u) nuget_host \<Rightarrow> string \<Rightarrow> signer_reader \<Rightarrow> string + xml_event \<Rightarrow> package_error option + signer_reader" where
  "signer_event h path s event =
     (case event of
        Inl e \<Rightarrow> Inl (Some (config_error path (Format ''invalid NuGet configuration XML: {error}'' [e])))
      | Inr (StartTag element) \<Rightarrow> signer_start h path element s
      | Inr (EmptyTag element) \<Rightarrow> signer_empty path element s
      | Inr (EndTag tag) \<Rightarrow> signer_end h path tag s
      | Inr (TextNode content) \<Rightarrow> signer_text path content s
      | Inr OtherNode \<Rightarrow> Inr s)"

definition merge_trusted_signers :: "('p, 'io, 'u) nuget_host \<Rightarrow> string \<Rightarrow> xml_document \<Rightarrow> trusted_signer list \<Rightarrow>
    package_error option + trusted_signer list" where
  "merge_trusted_signers h path document signers =
     rbind (try_fold (signer_event h path)
         \<lparr>sr_in_section = False, sr_in_owners = False, sr_owner_text = None, sr_pending = None, sr_signers = signers\<rparr> document)
       (\<lambda>s. if sr_in_section s \<or> sr_pending s \<noteq> None \<or> sr_in_owners s
            then signer_error path ''NuGet trustedSigners section did not close''
            else Inr (sr_signers s))"

end
