(* ===== verification/Nuget_Config.thy ===== *)
theory Nuget_Config
  imports Trusted_Signers
begin

text \<open>
  \<open>crates/dv-core/src/package.rs\<close>: reading one NuGet configuration file into what the files before it
  gave (\<open>merge_config\<close>), as a function of the events of its XML. A result \<open>Inl None\<close> is a panic.
\<close>

section \<open>What is merged\<close>

datatype stored_password = ClearPassword string | EncryptedPassword string

record source_login =
  sl_source :: string
  sl_username :: string
  sl_password :: stored_password
  sl_valid_authentication_types :: "string option"

record pending_login =
  pl_source :: string
  pl_username :: "string option"
  pl_password :: "stored_password option"
  pl_valid_authentication_types :: "string option"

datatype 'p client_certificate =
  FileCertificate (cc_source: string) 'p "stored_password option"
| StoreCertificate (cc_source: string) string string string string

definition is_file_certificate :: "'p client_certificate \<Rightarrow> bool" where
  "is_file_certificate certificate = (case certificate of FileCertificate _ _ _ \<Rightarrow> True | StoreCertificate _ _ _ _ _ \<Rightarrow> False)"

record item_range =
  ir_start :: nat
  ir_len :: nat

record mapping_entry =
  me_source :: string
  me_patterns :: item_range

record source_mapping =
  sm_sources :: "mapping_entry list"
  sm_patterns :: "string list"

record pending_mapping =
  pm_source :: string
  pm_pattern_start :: nat

record 'p config_merge =
  cm_sources :: "(string \<times> package_source) list"
  cm_credentials :: "source_login list"
  cm_client_certificates :: "'p client_certificate list"
  cm_disabled :: "string list"
  cm_audit_sources :: "(string \<times> package_source) list"
  cm_source_mapping :: source_mapping
  cm_global_packages :: "'p option"
  cm_fallback_folders :: "'p fallback_folder list"
  cm_config_priority :: nat
  cm_signature_validation :: "signature_validation_mode option"
  cm_trusted_signers :: "trusted_signer list"
  cm_proxy_url :: "string option"
  cm_proxy_user :: "string option"
  cm_proxy_password :: "string option"
  cm_no_proxy :: "string option"
  cm_max_http_requests_per_source :: "string option"

definition default_merge :: "'p config_merge" where
  "default_merge = \<lparr>cm_sources = [], cm_credentials = [], cm_client_certificates = [], cm_disabled = [],
     cm_audit_sources = [], cm_source_mapping = \<lparr>sm_sources = [], sm_patterns = []\<rparr>, cm_global_packages = None,
     cm_fallback_folders = [], cm_config_priority = 0, cm_signature_validation = None, cm_trusted_signers = [],
     cm_proxy_url = None, cm_proxy_user = None, cm_proxy_password = None, cm_no_proxy = None,
     cm_max_http_requests_per_source = None\<rparr>"

definition clear_config :: "'p config_merge \<Rightarrow> 'p config_merge" where
  "clear_config m = m\<lparr>cm_global_packages := None, cm_signature_validation := None, cm_proxy_url := None,
     cm_proxy_user := None, cm_proxy_password := None, cm_no_proxy := None, cm_max_http_requests_per_source := None\<rparr>"

definition remove_config :: "string \<Rightarrow> 'p config_merge \<Rightarrow> 'p config_merge" where
  "remove_config key m =
     (if eq_ignore_case key ''globalPackagesFolder'' then m\<lparr>cm_global_packages := None\<rparr>
      else if eq_ignore_case key ''signatureValidationMode'' then m\<lparr>cm_signature_validation := None\<rparr>
      else if eq_ignore_case key ''http_proxy'' then m\<lparr>cm_proxy_url := None\<rparr>
      else if eq_ignore_case key ''http_proxy.user'' then m\<lparr>cm_proxy_user := None\<rparr>
      else if eq_ignore_case key ''http_proxy.password'' then m\<lparr>cm_proxy_password := None\<rparr>
      else if eq_ignore_case key ''no_proxy'' then m\<lparr>cm_no_proxy := None\<rparr>
      else if eq_ignore_case key ''maxHttpRequestsPerSource'' then m\<lparr>cm_max_http_requests_per_source := None\<rparr>
      else m)"

definition set_config :: "('p, 'io, 'u) nuget_host \<Rightarrow> 'p \<Rightarrow> string \<Rightarrow> string \<Rightarrow> 'p config_merge \<Rightarrow> 'p config_merge" where
  "set_config h path key value m =
     (if eq_ignore_case key ''globalPackagesFolder'' then m\<lparr>cm_global_packages := Some (resolve_config_path h path value)\<rparr>
      else if eq_ignore_case key ''signatureValidationMode'' then
        m\<lparr>cm_signature_validation := Some (if eq_ignore_case value ''require'' then RequireSignatures else AcceptSignatures)\<rparr>
      else if eq_ignore_case key ''http_proxy'' then m\<lparr>cm_proxy_url := Some value\<rparr>
      else if eq_ignore_case key ''http_proxy.user'' then m\<lparr>cm_proxy_user := Some value\<rparr>
      else if eq_ignore_case key ''http_proxy.password'' then m\<lparr>cm_proxy_password := Some value\<rparr>
      else if eq_ignore_case key ''no_proxy'' then m\<lparr>cm_no_proxy := Some value\<rparr>
      else if eq_ignore_case key ''maxHttpRequestsPerSource'' then m\<lparr>cm_max_http_requests_per_source := Some value\<rparr>
      else m)"

section \<open>Source mapping\<close>

definition mapping_remove :: "string \<Rightarrow> source_mapping \<Rightarrow> source_mapping" where
  "mapping_remove key mapping =
     mapping\<lparr>sm_sources := filter (\<lambda>entry. \<not> eq_ignore_case (me_source entry) key) (sm_sources mapping)\<rparr>"

definition begin_source_mapping :: "string \<Rightarrow> xml_element \<Rightarrow> source_mapping \<Rightarrow> pending_mapping option \<Rightarrow> string list \<Rightarrow>
    package_error + pending_mapping \<times> string list" where
  "begin_source_mapping path element mapping pending seen =
     (if pending \<noteq> None then Inl (config_error path (Format ''NuGet package-source mappings cannot be nested'' []))
      else rbind (required_attribute path element ''key'' ''NuGet package-source mapping requires a key'') (\<lambda>source.
        if trim source = [] then Inl (config_error path (Format ''NuGet package-source mapping key cannot be empty'' []))
        else if \<exists>name \<in> set seen. eq_ignore_case name source then
          Inl (config_error path (Format ''NuGet package-source mapping contains duplicate source {source:?}'' [source]))
        else Inr (\<lparr>pm_source = source, pm_pattern_start = length (sm_patterns mapping)\<rparr>, seen @ [source])))"

definition append_source_pattern :: "string \<Rightarrow> xml_element \<Rightarrow> pending_mapping option \<Rightarrow> source_mapping \<Rightarrow> package_error + source_mapping" where
  "append_source_pattern path element pending mapping =
     (if pending = None then Inl (config_error path (Format ''NuGet package pattern must be inside a packageSource mapping'' []))
      else rbind (required_attribute path element ''pattern'' ''NuGet package mapping requires a pattern'') (\<lambda>pattern.
        if trim pattern = [] \<or> 100 < utf16_length pattern
        then Inl (config_error path (Format ''NuGet package mapping pattern must contain 1 to 100 UTF-16 code units'' []))
        else Inr (mapping\<lparr>sm_patterns := sm_patterns mapping @ [pattern]\<rparr>)))"

definition u32_len :: "string \<Rightarrow> nat \<Rightarrow> package_error + nat" where
  "u32_len meaning value = (if 2 ^ 32 \<le> value then Inl (u32_overflow meaning) else Inr value)"

definition finish_source :: "string \<Rightarrow> pending_mapping \<Rightarrow> source_mapping \<Rightarrow> package_error + source_mapping" where
  "finish_source path pending mapping =
     (let pattern_count = length (sm_patterns mapping) - pm_pattern_start pending
      in if pattern_count = 0
         then Inl (config_error path (Format ''NuGet package-source mapping {:?} requires at least one package pattern'' [pm_source pending]))
         else rbind (u32_len ''package-source mapping pattern index'' (pm_pattern_start pending)) (\<lambda>start.
              rbind (u32_len ''package-source mapping pattern count'' pattern_count) (\<lambda>len.
                Inr (mapping\<lparr>sm_sources := replace_first (\<lambda>entry. eq_ignore_case (me_source entry) (pm_source pending))
                  \<lparr>me_source = pm_source pending, me_patterns = \<lparr>ir_start = start, ir_len = len\<rparr>\<rparr> (sm_sources mapping)\<rparr>))))"

section \<open>Credentials\<close>

definition begin_source_credential :: "string \<Rightarrow> string \<Rightarrow> pending_login option \<Rightarrow> package_error + pending_login" where
  "begin_source_credential path tag pending =
     (if pending \<noteq> None then Inl (config_error path (Format ''NuGet package-source credential groups cannot be nested'' []))
      else case decode_xml_name tag of
        None \<Rightarrow> Inl (config_error path (Format ''NuGet credential source name {value:?} contains an invalid UTF-16 escape'' [tag]))
      | Some source \<Rightarrow>
          if source = [] then Inl (config_error path (Format ''NuGet package-source credential name cannot be empty'' []))
          else Inr \<lparr>pl_source = source, pl_username = None, pl_password = None, pl_valid_authentication_types = None\<rparr>)"

definition duplicate_login :: "string \<Rightarrow> string \<Rightarrow> pending_login \<Rightarrow> package_error" where
  "duplicate_login path what login = config_error path (Format what [pl_source login])"

definition append_source_credential :: "string \<Rightarrow> string \<Rightarrow> string \<Rightarrow> pending_login option \<Rightarrow> package_error + pending_login" where
  "append_source_credential path key value pending =
     rbind (ok_or (config_error path (Format ''NuGet credential add must be inside a package-source group'' [])) pending) (\<lambda>login.
       if eq_ignore_case key ''Username'' then
         (if pl_username login \<noteq> None then Inl (duplicate_login path ''NuGet package source {:?} has more than one Username'' login)
          else Inr (login\<lparr>pl_username := Some value\<rparr>))
       else if eq_ignore_case key ''Password'' then
         (if pl_password login \<noteq> None then Inl (duplicate_login path ''NuGet package source {:?} has more than one password'' login)
          else Inr (login\<lparr>pl_password := Some (EncryptedPassword value)\<rparr>))
       else if eq_ignore_case key ''ClearTextPassword'' then
         (if pl_password login \<noteq> None then Inl (duplicate_login path ''NuGet package source {:?} has more than one password'' login)
          else Inr (login\<lparr>pl_password := Some (ClearPassword value)\<rparr>))
       else if eq_ignore_case key ''ValidAuthenticationTypes'' then
         (if pl_valid_authentication_types login \<noteq> None
          then Inl (duplicate_login path ''NuGet package source {:?} has more than one ValidAuthenticationTypes value'' login)
          else Inr (login\<lparr>pl_valid_authentication_types := Some value\<rparr>))
       else Inr login)"

definition finish_source_credential :: "string \<Rightarrow> pending_login option \<Rightarrow> source_login list \<Rightarrow> package_error + source_login list" where
  "finish_source_credential path pending logins =
     rbind (ok_or (config_error path (Format ''NuGet package-source credential group ended without a start'' [])) pending) (\<lambda>login.
     rbind (ok_or (duplicate_login path ''NuGet package source {:?} credential requires Username'' login) (pl_username login)) (\<lambda>username.
     rbind (ok_or (duplicate_login path ''NuGet package source {:?} credential requires Password or ClearTextPassword'' login)
         (pl_password login)) (\<lambda>password.
       Inr (replace_first (\<lambda>existing. sl_source existing = pl_source login)
         \<lparr>sl_source = pl_source login, sl_username = username, sl_password = password,
          sl_valid_authentication_types = pl_valid_authentication_types login\<rparr> logins))))"

section \<open>Client certificates\<close>

definition certificate_password :: "('p, 'io, 'u) nuget_host \<Rightarrow> string \<Rightarrow> xml_element \<Rightarrow> string \<Rightarrow> package_error + stored_password option" where
  "certificate_password h path element source =
     rbind (config_attribute path element ''password'') (\<lambda>password.
     rbind (config_attribute path element ''clearTextPassword'') (\<lambda>clear.
       case (password, clear) of
         (Some _, Some _) \<Rightarrow> Inl (config_error path (Format
           ''NuGet file certificate for source {source:?} cannot specify both password and clearTextPassword'' [source]))
       | (Some value, None) \<Rightarrow> rbind (expand_config_value h path value) (\<lambda>v. Inr (Some (EncryptedPassword v)))
       | (None, Some value) \<Rightarrow> rbind (expand_config_value h path value) (\<lambda>v. Inr (Some (ClearPassword v)))
       | (None, None) \<Rightarrow> Inr None))"

definition or_default :: "string \<Rightarrow> string option \<Rightarrow> string" where
  "or_default d value = (case value of None \<Rightarrow> d | Some v \<Rightarrow> v)"

definition read_client_certificate :: "('p, 'io, 'u) nuget_host \<Rightarrow> 'p \<Rightarrow> xml_element \<Rightarrow> package_error + 'p client_certificate" where
  "read_client_certificate h config_path element =
     (let path = path_text h config_path; name = local_name (xe_name element)
      in rbind (required_expanded_attribute h path element ''packageSource'') (\<lambda>source.
         if source = [] then Inl (config_error path (Format ''NuGet client certificate packageSource cannot be empty'' []))
         else if name = ''fileCert'' then
           rbind (required_expanded_attribute h path element ''path'') (\<lambda>configured_path.
             if configured_path = []
             then Inl (config_error path (Format ''NuGet file certificate for source {source:?} has an empty path'' [source]))
             else rbind (certificate_password h path element source) (\<lambda>password.
               Inr (FileCertificate source (resolve_config_path h config_path configured_path) password)))
         else if name = ''storeCert'' then
           rbind (optional_expanded_attribute h path element ''storeLocation'') (\<lambda>location.
           rbind (optional_expanded_attribute h path element ''storeName'') (\<lambda>store.
           rbind (optional_expanded_attribute h path element ''findBy'') (\<lambda>find_by.
           rbind (required_expanded_attribute h path element ''findValue'') (\<lambda>find_value.
             Inr (StoreCertificate source (or_default ''CurrentUser'' location) (or_default ''My'' store)
               (or_default ''Thumbprint'' find_by) find_value)))))
         else Inl (config_error path (Format ''unsupported NuGet client certificate element'' []))))"

definition append_client_certificate :: "('p, 'io, 'u) nuget_host \<Rightarrow> 'p \<Rightarrow> xml_element \<Rightarrow> 'p client_certificate list \<Rightarrow>
    package_error + 'p client_certificate list" where
  "append_client_certificate h config_path element certificates =
     rbind (read_client_certificate h config_path element) (\<lambda>certificate.
       Inr (replace_first (\<lambda>existing. cc_source existing = cc_source certificate
           \<and> is_file_certificate existing = is_file_certificate certificate) certificate certificates))"

end
