(* ===== verification/Config_Merge.thy ===== *)
theory Config_Merge
  imports Nuget_Config
begin

text \<open>
  \<open>crates/dv-core/src/package.rs\<close>: the loop of \<open>merge_config\<close> over the events of one NuGet configuration
  file, and the merge of all files in order. A result \<open>Inl None\<close> is a panic.
\<close>

section \<open>The reader\<close>

datatype config_section =
  OtherSection | Sources | Credentials | ClientCertificates | DisabledSources | AuditSources
| SourceMapping | FallbackFolders | ConfigValues

record 'p config_reader =
  cr_section :: config_section
  cr_pending_mapping :: "pending_mapping option"
  cr_pending_credential :: "pending_login option"
  cr_mapping_sources :: "string list"
  cr_merged :: "'p config_merge"

definition on_merged :: "('p config_merge \<Rightarrow> 'p config_merge) \<Rightarrow> 'p config_reader \<Rightarrow> 'p config_reader" where
  "on_merged f s = s\<lparr>cr_merged := f (cr_merged s)\<rparr>"

definition section_of :: "string \<Rightarrow> config_section option" where
  "section_of name =
     (if name = ''packageSources'' then Some Sources
      else if name = ''packageSourceCredentials'' then Some Credentials
      else if name = ''clientCertificates'' then Some ClientCertificates
      else if name = ''disabledPackageSources'' then Some DisabledSources
      else if name = ''auditSources'' then Some AuditSources
      else if name = ''packageSourceMapping'' then Some SourceMapping
      else if name = ''fallbackPackageFolders'' then Some FallbackFolders
      else if name = ''config'' then Some ConfigValues
      else None)"

definition add_certificate :: "('p, 'io, 'u) nuget_host \<Rightarrow> 'p \<Rightarrow> xml_element \<Rightarrow> 'p config_reader \<Rightarrow> package_error + 'p config_reader" where
  "add_certificate h path element s =
     rbind (append_client_certificate h path element (cm_client_certificates (cr_merged s))) (\<lambda>certificates.
       Inr (on_merged (\<lambda>m. m\<lparr>cm_client_certificates := certificates\<rparr>) s))"

definition add_pattern :: "string \<Rightarrow> xml_element \<Rightarrow> 'p config_reader \<Rightarrow> package_error + 'p config_reader" where
  "add_pattern path element s =
     rbind (append_source_pattern path element (cr_pending_mapping s) (cm_source_mapping (cr_merged s))) (\<lambda>mapping.
       Inr (on_merged (\<lambda>m. m\<lparr>cm_source_mapping := mapping\<rparr>) s))"

definition certificate_element :: "string \<Rightarrow> bool" where
  "certificate_element name \<longleftrightarrow> name = ''fileCert'' \<or> name = ''storeCert''"

section \<open>Start tags\<close>

definition config_start :: "('p, 'io, 'u) nuget_host \<Rightarrow> 'p \<Rightarrow> xml_element \<Rightarrow> 'p config_reader \<Rightarrow> package_error + 'p config_reader" where
  "config_start h path element s =
     (let name = local_name (xe_name element); text = path_text h path
      in if cr_section s = Credentials then
           rbind (begin_source_credential text (xe_name element) (cr_pending_credential s)) (\<lambda>login.
             Inr (s\<lparr>cr_pending_credential := Some login\<rparr>))
         else if certificate_element name \<and> cr_section s = ClientCertificates then add_certificate h path element s
         else case section_of name of
           Some section \<Rightarrow> Inr (s\<lparr>cr_section := section\<rparr>)
         | None \<Rightarrow>
             if name = ''packageSource'' \<and> cr_section s = SourceMapping then
               rbind (begin_source_mapping text element (cm_source_mapping (cr_merged s)) (cr_pending_mapping s) (cr_mapping_sources s))
                 (\<lambda>(pending, seen). Inr (s\<lparr>cr_pending_mapping := Some pending, cr_mapping_sources := seen\<rparr>))
             else if name = ''package'' \<and> cr_section s = SourceMapping then add_pattern text element s
             else Inr s)"

section \<open>Empty tags\<close>

definition config_clear :: "string \<Rightarrow> 'p config_reader \<Rightarrow> package_error + 'p config_reader" where
  "config_clear text s =
     (case cr_section s of
        Sources \<Rightarrow> Inr (on_merged (\<lambda>m. m\<lparr>cm_sources := []\<rparr>) s)
      | Credentials \<Rightarrow>
          if cr_pending_credential s = None then Inr (on_merged (\<lambda>m. m\<lparr>cm_credentials := []\<rparr>) s)
          else Inl (config_error text (Format ''NuGet source credential groups do not support clear'' []))
      | ClientCertificates \<Rightarrow> Inr (on_merged (\<lambda>m. m\<lparr>cm_client_certificates := []\<rparr>) s)
      | DisabledSources \<Rightarrow> Inr (on_merged (\<lambda>m. m\<lparr>cm_disabled := []\<rparr>) s)
      | AuditSources \<Rightarrow> Inr (on_merged (\<lambda>m. m\<lparr>cm_audit_sources := []\<rparr>) s)
      | SourceMapping \<Rightarrow> Inr (on_merged (\<lambda>m. m\<lparr>cm_source_mapping := \<lparr>sm_sources = [], sm_patterns = []\<rparr>\<rparr>) s)
      | FallbackFolders \<Rightarrow> Inr (on_merged (\<lambda>m. m\<lparr>cm_fallback_folders := []\<rparr>) s)
      | ConfigValues \<Rightarrow> Inr (on_merged clear_config s)
      | OtherSection \<Rightarrow> Inr s)"

definition true_attribute :: "('p, 'io, 'u) nuget_host \<Rightarrow> string \<Rightarrow> xml_element \<Rightarrow> string \<Rightarrow> package_error + bool" where
  "true_attribute h text element name =
     rbind (optional_expanded_attribute h text element name) (\<lambda>value.
       Inr (case value of None \<Rightarrow> False | Some v \<Rightarrow> eq_ignore_case (trim v) ''true''))"

definition read_source :: "('p, 'io, 'u) nuget_host \<Rightarrow> 'p \<Rightarrow> xml_element \<Rightarrow> string \<Rightarrow> package_error + package_source" where
  "read_source h path element value =
     (let text = path_text h path
      in rbind (config_attribute text element ''protocolVersion'') (\<lambda>protocol.
         rbind (true_attribute h text element ''allowInsecureConnections'') (\<lambda>allow_insecure.
         rbind (true_attribute h text element ''disableTLSCertificateValidation'') (\<lambda>disable_tls.
           parse_package_source h value protocol allow_insecure disable_tls text
             (case path_parent h path of Some parent \<Rightarrow> parent | None \<Rightarrow> path_of h ''.'')))))"

definition config_add_value :: "('p, 'io, 'u) nuget_host \<Rightarrow> 'p \<Rightarrow> nat \<Rightarrow> xml_element \<Rightarrow> string \<Rightarrow> string \<Rightarrow> 'p config_reader \<Rightarrow>
    package_error + 'p config_reader" where
  "config_add_value h path config_priority element key value s =
     (case cr_section s of
        Sources \<Rightarrow> rbind (read_source h path element value) (\<lambda>source.
          Inr (on_merged (\<lambda>m. m\<lparr>cm_sources := add_or_replace_source key source (cm_sources m)\<rparr>) s))
      | AuditSources \<Rightarrow> rbind (read_source h path element value) (\<lambda>source.
          Inr (on_merged (\<lambda>m. m\<lparr>cm_audit_sources := add_or_replace_source key source (cm_audit_sources m)\<rparr>) s))
      | Credentials \<Rightarrow> rbind (append_source_credential (path_text h path) key value (cr_pending_credential s)) (\<lambda>login.
          Inr (s\<lparr>cr_pending_credential := Some login\<rparr>))
      | DisabledSources \<Rightarrow>
          if \<not> eq_ignore_case value ''true'' \<and> \<not> eq_ignore_case value ''false''
          then Inl (config_error (path_text h path) (Format ''disabled package-source values must be true or false'' []))
          else Inr (on_merged (\<lambda>m. m\<lparr>cm_disabled := filter (\<lambda>name. \<not> eq_ignore_case name key) (cm_disabled m) @ [key]\<rparr>) s)
      | FallbackFolders \<Rightarrow> Inr (on_merged (\<lambda>m. m\<lparr>cm_fallback_folders :=
          add_or_replace_path key (resolve_config_path h path value) config_priority (cm_fallback_folders m)\<rparr>) s)
      | ConfigValues \<Rightarrow> Inr (on_merged (set_config h path key value) s)
      | OtherSection \<Rightarrow> Inr s
      | ClientCertificates \<Rightarrow> Inr s
      | SourceMapping \<Rightarrow> Inr s)"

definition config_add :: "('p, 'io, 'u) nuget_host \<Rightarrow> 'p \<Rightarrow> nat \<Rightarrow> xml_element \<Rightarrow> 'p config_reader \<Rightarrow> package_error + 'p config_reader" where
  "config_add h path config_priority element s =
     (let text = path_text h path
      in rbind (required_attribute text element ''key'' ''NuGet add element requires key'') (\<lambda>key.
         rbind (required_attribute text element ''value'' ''NuGet add element requires value'') (\<lambda>value.
         rbind (expand_config_value h text value) (\<lambda>value.
           config_add_value h path config_priority element key value s))))"

text \<open>In the section of client certificates \<open>remove\<close> is an unsupported element already.\<close>

definition config_remove :: "string \<Rightarrow> xml_element \<Rightarrow> 'p config_reader \<Rightarrow> package_error + 'p config_reader" where
  "config_remove text element s =
     rbind (required_attribute text element ''key'' ''NuGet remove element requires key'') (\<lambda>key.
       case cr_section s of
         Sources \<Rightarrow> Inr (on_merged (\<lambda>m. m\<lparr>cm_sources := filter (\<lambda>(name, _). \<not> eq_ignore_case name key) (cm_sources m)\<rparr>) s)
       | Credentials \<Rightarrow> Inl (config_error text (Format ''NuGet source credential groups do not support remove'' []))
       | ClientCertificates \<Rightarrow> Inl (config_error text (Format ''NuGet clientCertificates does not support remove'' []))
       | DisabledSources \<Rightarrow> Inr (on_merged (\<lambda>m. m\<lparr>cm_disabled := filter (\<lambda>name. \<not> eq_ignore_case name key) (cm_disabled m)\<rparr>) s)
       | AuditSources \<Rightarrow> Inr (on_merged (\<lambda>m. m\<lparr>cm_audit_sources := filter (\<lambda>(name, _). \<not> eq_ignore_case name key) (cm_audit_sources m)\<rparr>) s)
       | SourceMapping \<Rightarrow> Inr (on_merged (\<lambda>m. m\<lparr>cm_source_mapping := mapping_remove key (cm_source_mapping m)\<rparr>) s)
       | FallbackFolders \<Rightarrow> Inr (on_merged (\<lambda>m. m\<lparr>cm_fallback_folders :=
           filter (\<lambda>folder. \<not> eq_ignore_case (ff_name folder) key) (cm_fallback_folders m)\<rparr>) s)
       | ConfigValues \<Rightarrow> Inr (on_merged (remove_config key) s)
       | OtherSection \<Rightarrow> Inr s)"

definition config_empty_credential :: "string \<Rightarrow> xml_element \<Rightarrow> 'p config_reader \<Rightarrow> package_error + 'p config_reader" where
  "config_empty_credential text element s =
     rbind (begin_source_credential text (xe_name element) (cr_pending_credential s)) (\<lambda>login.
     rbind (finish_source_credential text (Some login) (cm_credentials (cr_merged s))) (\<lambda>logins.
       Inr (on_merged (\<lambda>m. m\<lparr>cm_credentials := logins\<rparr>) (s\<lparr>cr_pending_credential := None\<rparr>))))"

definition config_empty :: "('p, 'io, 'u) nuget_host \<Rightarrow> 'p \<Rightarrow> nat \<Rightarrow> xml_element \<Rightarrow> 'p config_reader \<Rightarrow> package_error + 'p config_reader" where
  "config_empty h path config_priority element s =
     (let name = local_name (xe_name element); text = path_text h path
      in if name = ''clear'' then config_clear text s
         else if name = ''add'' then config_add h path config_priority element s
         else if cr_section s = ClientCertificates then
           (if certificate_element name then add_certificate h path element s
            else Inl (config_error text (Format
              ''unsupported NuGet clientCertificates element {:?}; expected fileCert or storeCert'' [name])))
         else if name = ''packageSource'' \<and> cr_section s = SourceMapping then
           Inl (config_error text (Format ''NuGet package-source mapping requires at least one package pattern'' []))
         else if name = ''package'' \<and> cr_section s = SourceMapping then add_pattern text element s
         else if name = ''remove'' then config_remove text element s
         else if cr_section s = Credentials then config_empty_credential text element s
         else Inr s)"

section \<open>End tags\<close>

definition closing_section :: "string \<Rightarrow> bool" where
  "closing_section name \<longleftrightarrow> name \<in> {''packageSources'', ''clientCertificates'', ''disabledPackageSources'', ''auditSources'',
     ''packageSourceMapping'', ''fallbackPackageFolders'', ''config''}"

definition config_end :: "string \<Rightarrow> string \<Rightarrow> 'p config_reader \<Rightarrow> package_error + 'p config_reader" where
  "config_end text tag s =
     (let name = local_name tag
      in if cr_section s = Credentials \<and> cr_pending_credential s \<noteq> None then
           rbind (finish_source_credential text (cr_pending_credential s) (cm_credentials (cr_merged s))) (\<lambda>logins.
             Inr (on_merged (\<lambda>m. m\<lparr>cm_credentials := logins\<rparr>) (s\<lparr>cr_pending_credential := None\<rparr>)))
         else if name = ''packageSource'' \<and> cr_section s = SourceMapping then
           (case cr_pending_mapping s of
              None \<Rightarrow> Inl (config_error text (Format ''NuGet package-source mapping ended without a source'' []))
            | Some pending \<Rightarrow> rbind (finish_source text pending (cm_source_mapping (cr_merged s))) (\<lambda>mapping.
                Inr (on_merged (\<lambda>m. m\<lparr>cm_source_mapping := mapping\<rparr>) (s\<lparr>cr_pending_mapping := None\<rparr>))))
         else if name = ''packageSourceCredentials'' \<and> cr_section s = Credentials then Inr (s\<lparr>cr_section := OtherSection\<rparr>)
         else if closing_section name then
           (if cr_pending_mapping s \<noteq> None
            then Inl (config_error text (Format ''NuGet package-source mapping did not close its source'' []))
            else Inr (s\<lparr>cr_section := OtherSection\<rparr>))
         else Inr s)"

section \<open>Files\<close>

definition config_event :: "('p, 'io, 'u) nuget_host \<Rightarrow> 'p \<Rightarrow> nat \<Rightarrow> 'p config_reader \<Rightarrow> string + xml_event \<Rightarrow> package_error + 'p config_reader" where
  "config_event h path config_priority s event =
     (case event of
        Inl e \<Rightarrow> Inl (config_error (path_text h path) (Format ''invalid NuGet configuration XML: {error}'' [e]))
      | Inr (StartTag element) \<Rightarrow> config_start h path element s
      | Inr (EmptyTag element) \<Rightarrow> config_empty h path config_priority element s
      | Inr (EndTag tag) \<Rightarrow> config_end (path_text h path) tag s
      | Inr (TextNode _) \<Rightarrow> Inr s
      | Inr OtherNode \<Rightarrow> Inr s)"

definition read_config :: "('p, 'io, 'u) nuget_host \<Rightarrow> 'p \<Rightarrow> xml_document \<Rightarrow> 'p config_merge \<Rightarrow> package_error + 'p config_merge" where
  "read_config h path document merged =
     (let config_priority = cm_config_priority merged; text = path_text h path
      in rbind (try_fold (config_event h path config_priority)
           \<lparr>cr_section = OtherSection, cr_pending_mapping = None, cr_pending_credential = None, cr_mapping_sources = [],
            cr_merged = merged\<rparr> document) (\<lambda>s.
         if cr_pending_credential s \<noteq> None
         then Inl (config_error text (Format ''NuGet package-source credential group did not close'' []))
         else if 2 ^ 32 \<le> config_priority + 1
         then Inl (config_error text (Format ''NuGet configuration file count exceeds u32'' []))
         else Inr ((cr_merged s)\<lparr>cm_config_priority := config_priority + 1\<rparr>)))"

text \<open>\<open>xml\<close> is the XML reader over the bytes of a file.\<close>

definition merge_config :: "('p, 'io, 'u) nuget_host \<Rightarrow> (string \<Rightarrow> xml_document) \<Rightarrow> 'p config_merge \<Rightarrow> 'p \<Rightarrow>
    package_error option + 'p config_merge" where
  "merge_config h xml merged path =
     (case read_file h path of
        Inl e \<Rightarrow> Inl (Some (package_io (io_text h) ''read NuGet configuration'' (path_text h path) e))
      | Inr bytes \<Rightarrow>
          rbind (merge_trusted_signers h (path_text h path) (xml bytes) (cm_trusted_signers merged)) (\<lambda>signers.
            as_failure (read_config h path (xml bytes) (merged\<lparr>cm_trusted_signers := signers\<rparr>))))"

definition default_sources :: "(string \<times> package_source) list" where
  "default_sources = [(''nuget.org'', \<lparr>ps_url = DEFAULT_SOURCE, ps_protocol = V3, ps_security_flags = 0\<rparr>)]"

definition merge_configs :: "('p, 'io, 'u) nuget_host \<Rightarrow> (string \<Rightarrow> xml_document) \<Rightarrow> 'p list \<Rightarrow> package_error option + 'p config_merge" where
  "merge_configs h xml paths =
     try_fold (merge_config h xml) (if paths = [] then default_merge\<lparr>cm_sources := default_sources\<rparr> else default_merge) paths"

definition drop_disabled :: "string list \<Rightarrow> (string \<times> package_source) list \<Rightarrow> (string \<times> package_source) list" where
  "drop_disabled disabled sources =
     foldl (\<lambda>sources key. filter (\<lambda>(name, _). \<not> eq_ignore_case name key) sources) sources disabled"

end
