(* ===== verification/Source_Mapping.thy ===== *)
theory Source_Mapping
  imports Config_Merge
begin

text \<open>
  \<open>crates/dv-core/src/package.rs\<close>: package source mapping. The patterns of the configuration are
  compiled to a table over one packed string, and every package identity is looked up in it: the
  longest pattern that matches decides which sources may serve the package.
\<close>

section \<open>The compiled table\<close>

definition U32_MAX :: nat where "U32_MAX = 2 ^ 32 - 1"
definition USIZE_MAX :: nat where "USIZE_MAX = 2 ^ 64 - 1"

record source_pattern =
  pat_text :: tspan
  pat_prefix :: bool

record source_row =
  row_source_index :: nat
  row_patterns :: item_range

record compiled_mapping =
  map_text :: string
  map_sources :: "source_row list"
  map_patterns :: "source_pattern list"

text \<open>\<open>&values[range(r)]\<close>; a range past the end is a panic, the \<open>None\<close>.\<close>

definition range_slice :: "'a list \<Rightarrow> item_range \<Rightarrow> 'a list option" where
  "range_slice values r =
     (if ir_start r + ir_len r \<le> length values then Some (take (ir_len r) (drop (ir_start r) values)) else None)"

text \<open>A pattern is trimmed; what follows its first star does not count.\<close>

definition split_pattern :: "string \<Rightarrow> string \<times> bool" where
  "split_pattern pattern =
     (case find_byte CHR ''*'' (trim pattern) of
        None \<Rightarrow> (trim pattern, False)
      | Some star \<Rightarrow> (take star (trim pattern), True))"

definition push_pattern :: "string \<times> source_pattern list \<Rightarrow> string \<Rightarrow> package_error + string \<times> source_pattern list" where
  "push_pattern st pattern =
     rbind (push_text (fst st) (fst (split_pattern pattern))) (\<lambda>(text, span).
       Inr (text, snd st @ [\<lparr>pat_text = span, pat_prefix = snd (split_pattern pattern)\<rparr>]))"

definition position :: "('a \<Rightarrow> bool) \<Rightarrow> 'a list \<Rightarrow> nat option" where
  "position p xs = (let i = length (takeWhile (\<lambda>x. \<not> p x) xs) in if i < length xs then Some i else None)"

definition source_index :: "(string \<times> package_source) list \<Rightarrow> string \<Rightarrow> package_error + nat" where
  "source_index configured name =
     (case position (\<lambda>(other, _). eq_ignore_case other name) configured of
        None \<Rightarrow> Inr U32_MAX
      | Some i \<Rightarrow> rbind (u32_len ''NuGet package-source index'' i) (\<lambda>i.
          if i = U32_MAX then Inl (package_error_new TextOverflow ''NuGet package sources''
            (Format ''NuGet package-source count reserves u32::MAX for an unavailable mapping'' []))
          else Inr i))"

definition compile_source :: "(string \<times> package_source) list \<Rightarrow> string list \<Rightarrow> compiled_mapping \<Rightarrow> mapping_entry \<Rightarrow>
    package_error option + compiled_mapping" where
  "compile_source configured patterns m entry =
     rbind (as_failure (source_index configured (me_source entry))) (\<lambda>index.
     rbind (ok_or None (range_slice patterns (me_patterns entry))) (\<lambda>own.
     rbind (as_failure (try_fold push_pattern (map_text m, map_patterns m) own)) (\<lambda>(text, rows).
     rbind (as_failure (u32_len ''NuGet package-source pattern index'' (length (map_patterns m)))) (\<lambda>start.
     rbind (as_failure (u32_len ''NuGet package-source pattern count'' (length rows - length (map_patterns m)))) (\<lambda>len.
       Inr \<lparr>map_text = text,
         map_sources = map_sources m @ [\<lparr>row_source_index = index, row_patterns = \<lparr>ir_start = start, ir_len = len\<rparr>\<rparr>],
         map_patterns = rows\<rparr>)))))"

definition compile_mapping :: "source_mapping \<Rightarrow> (string \<times> package_source) list \<Rightarrow> package_error option + compiled_mapping" where
  "compile_mapping merged configured =
     try_fold (compile_source configured (sm_patterns merged)) \<lparr>map_text = [], map_sources = [], map_patterns = []\<rparr> (sm_sources merged)"

section \<open>Queries\<close>

definition pattern_rank :: "compiled_mapping \<Rightarrow> source_pattern \<Rightarrow> string \<Rightarrow> nat option" where
  "pattern_rank m pattern identity =
     (let text = span_text (map_text m) (pat_text pattern)
      in if pat_prefix pattern
         then (if eq_ignore_case (take (length text) identity) text then Some (length text + 1) else None)
         else if eq_ignore_case text identity then Some USIZE_MAX else None)"

text \<open>The rows of a source; the table's own ranges are in bounds, so the slices do not panic.\<close>

definition row_ranks :: "compiled_mapping \<Rightarrow> string \<Rightarrow> source_row \<Rightarrow> nat option list" where
  "row_ranks m identity row =
     map (\<lambda>pattern. pattern_rank m pattern identity)
       (case range_slice (map_patterns m) (row_patterns row) of None \<Rightarrow> [] | Some ps \<Rightarrow> ps)"

definition raise_best :: "nat \<Rightarrow> nat option \<Rightarrow> nat" where
  "raise_best best rank = (case rank of None \<Rightarrow> best | Some r \<Rightarrow> max best r)"

definition required_rank :: "compiled_mapping \<Rightarrow> string \<Rightarrow> nat option" where
  "required_rank m identity =
     (let best = foldl raise_best 0 (concat (map (row_ranks m identity) (map_sources m)))
      in if best \<noteq> 0 then Some best else None)"

definition source_indices_at_rank :: "compiled_mapping \<Rightarrow> string \<Rightarrow> nat \<Rightarrow> nat list" where
  "source_indices_at_rank m identity required =
     map row_source_index (filter (\<lambda>row. row_source_index row \<noteq> U32_MAX \<and> Some required \<in> set (row_ranks m identity row)) (map_sources m))"

definition enabled_rank :: "compiled_mapping \<Rightarrow> string \<Rightarrow> nat option" where
  "enabled_rank m identity =
     (case required_rank m identity of
        None \<Rightarrow> None
      | Some required \<Rightarrow> if source_indices_at_rank m identity required = [] then None else Some required)"

definition source_matches_rank :: "compiled_mapping \<Rightarrow> nat \<Rightarrow> string \<Rightarrow> nat \<Rightarrow> bool" where
  "source_matches_rank m index identity required \<longleftrightarrow>
     (\<exists>row \<in> set (map_sources m). row_source_index row = index \<and> Some required \<in> set (row_ranks m identity row))"

definition source_mapping_selects :: "compiled_mapping option \<Rightarrow> nat option \<Rightarrow> string \<Rightarrow> nat \<Rightarrow> bool" where
  "source_mapping_selects mapping selected_rank identity index =
     (case mapping of
        None \<Rightarrow> True
      | Some m \<Rightarrow> (case selected_rank of None \<Rightarrow> False | Some required \<Rightarrow> source_matches_rank m index identity required))"

definition unmapped_identity :: "string \<Rightarrow> package_error" where
  "unmapped_identity identity = package_error_new UnmappedIdentity identity
     (Format ''package source mapping selects no enabled source for package {identity}'' [identity])"

section \<open>What the table stands for\<close>

definition entry_patterns :: "source_mapping \<Rightarrow> mapping_entry \<Rightarrow> string list" where
  "entry_patterns merged entry = take (ir_len (me_patterns entry)) (drop (ir_start (me_patterns entry)) (sm_patterns merged))"

text \<open>How closely a pattern of the configuration matches a package, if it does.\<close>

definition closeness :: "string \<Rightarrow> string \<Rightarrow> nat option" where
  "closeness identity pattern =
     (case split_pattern pattern of
        (text, True) \<Rightarrow> if eq_ignore_case (take (length text) identity) text then Some (length text + 1) else None
      | (text, False) \<Rightarrow> if eq_ignore_case text identity then Some USIZE_MAX else None)"

definition reads_pattern :: "string \<Rightarrow> source_pattern \<Rightarrow> string \<Rightarrow> bool" where
  "reads_pattern text sp pattern \<longleftrightarrow> span_ok text (pat_text sp)
     \<and> (span_text text (pat_text sp), pat_prefix sp) = split_pattern pattern"

lemma reads_pattern_kept:
  assumes "push_text a s = Inr (b, sp)" and "reads_pattern a row pattern"
  shows "reads_pattern b row pattern"
  using assms(2) spans.keeps_valid [OF assms(1) [unfolded push_text_def]] spans.keeps_read [OF assms(1) [unfolded push_text_def]]
  by (simp add: reads_pattern_def)

lemma push_pattern_eq:
  "push_pattern (a, rows) pattern = rbind (push_text a (fst (split_pattern pattern))) (\<lambda>(b, span).
     Inr (b, rows @ [\<lparr>pat_text = span, pat_prefix = snd (split_pattern pattern)\<rparr>]))"
  by (simp add: push_pattern_def)

lemma list_all2_left: "list_all2 P xs ys \<Longrightarrow> x \<in> set xs \<Longrightarrow> \<exists>y \<in> set ys. P x y"
  by (induction rule: list_all2_induct) auto

lemma list_all2_right: "list_all2 P xs ys \<Longrightarrow> y \<in> set ys \<Longrightarrow> \<exists>x \<in> set xs. P x y"
  by (induction rule: list_all2_induct) auto

lemma push_patterns:
  assumes "try_fold push_pattern (a, rows) own = Inr (b, rows')"
  shows "(\<forall>row pattern. reads_pattern a row pattern \<longrightarrow> reads_pattern b row pattern)
    \<and> (\<exists>new. rows' = rows @ new \<and> list_all2 (reads_pattern b) new own)"
  using assms
proof (induction own arbitrary: a rows)
  case Nil
  then show ?case by simp
next
  case (Cons pattern own)
  from Cons.prems obtain a1 sp where push: "push_text a (fst (split_pattern pattern)) = Inr (a1, sp)"
    and rest: "try_fold push_pattern (a1, rows @ [\<lparr>pat_text = sp, pat_prefix = snd (split_pattern pattern)\<rparr>]) own = Inr (b, rows')"
    by (auto simp: push_pattern_eq rbind_eq_Inr)
  let ?row = "\<lparr>pat_text = sp, pat_prefix = snd (split_pattern pattern)\<rparr>"
  from Cons.IH [OF rest] obtain new where keep: "\<forall>row pattern. reads_pattern a1 row pattern \<longrightarrow> reads_pattern b row pattern"
    and new: "rows' = (rows @ [?row]) @ new" "list_all2 (reads_pattern b) new own" by blast
  have "reads_pattern a1 ?row pattern"
    using spans.push_valid [OF push [unfolded push_text_def]] spans.push_read [OF push [unfolded push_text_def]]
    by (simp add: reads_pattern_def)
  then have "reads_pattern b ?row pattern" using keep by blast
  then have "rows' = rows @ ?row # new \<and> list_all2 (reads_pattern b) (?row # new) (pattern # own)"
    using new by simp
  moreover have "\<forall>row pattern. reads_pattern a row pattern \<longrightarrow> reads_pattern b row pattern"
    using keep reads_pattern_kept [OF push] by blast
  ultimately show ?case by blast
qed

definition row_denotes :: "(string \<times> package_source) list \<Rightarrow> source_mapping \<Rightarrow> compiled_mapping \<Rightarrow> source_row \<Rightarrow> mapping_entry \<Rightarrow> bool" where
  "row_denotes configured merged m row entry \<longleftrightarrow>
     source_index configured (me_source entry) = Inr (row_source_index row)
     \<and> (\<exists>ps. range_slice (map_patterns m) (row_patterns row) = Some ps
          \<and> list_all2 (reads_pattern (map_text m)) ps (entry_patterns merged entry))"

lemma range_slice_append: "range_slice xs r = Some ys \<Longrightarrow> range_slice (xs @ zs) r = Some ys"
  by (auto simp: range_slice_def split: if_splits)

lemma range_slice_new: "range_slice (xs @ ys) \<lparr>ir_start = length xs, ir_len = length (xs @ ys) - length xs\<rparr> = Some ys"
  by (simp add: range_slice_def)

lemma compile_source_denotes:
  assumes "compile_source configured (sm_patterns merged) m entry = Inr m'"
    and rows: "list_all2 (row_denotes configured merged m) (map_sources m) entries"
  shows "list_all2 (row_denotes configured merged m') (map_sources m') (entries @ [entry])"
proof -
  from assms(1) obtain index own tx rows' where
      index: "source_index configured (me_source entry) = Inr index"
    and own: "range_slice (sm_patterns merged) (me_patterns entry) = Some own"
    and push: "try_fold push_pattern (map_text m, map_patterns m) own = Inr (tx, rows')"
    and m': "m' = \<lparr>map_text = tx, map_sources = map_sources m
      @ [\<lparr>row_source_index = index, row_patterns = \<lparr>ir_start = length (map_patterns m), ir_len = length rows' - length (map_patterns m)\<rparr>\<rparr>],
      map_patterns = rows'\<rparr>"
    by (auto simp: compile_source_def as_failure_def map_error_Inr rbind_eq_Inr u32_len_def ok_or_eq_Inr split: if_splits)
  from push_patterns [OF push] obtain new where keep: "\<And>row pattern. reads_pattern (map_text m) row pattern \<Longrightarrow> reads_pattern tx row pattern"
    and new: "rows' = map_patterns m @ new" "list_all2 (reads_pattern tx) new own" by blast
  have "entry_patterns merged entry = own" using own by (auto simp: range_slice_def entry_patterns_def split: if_splits)
  then have last: "row_denotes configured merged m' \<lparr>row_source_index = index,
      row_patterns = \<lparr>ir_start = length (map_patterns m), ir_len = length rows' - length (map_patterns m)\<rparr>\<rparr> entry"
    using index new range_slice_new [of "map_patterns m" new] by (simp add: row_denotes_def m')
  have "row_denotes configured merged m' row e" if "row_denotes configured merged m row e" for row e
    using that range_slice_append [of "map_patterns m" "row_patterns row" _ new] list_all2_mono [OF _ keep]
    by (fastforce simp: row_denotes_def m' new(1))
  then have "list_all2 (row_denotes configured merged m') (map_sources m) entries" using rows list_all2_mono by blast
  then show ?thesis using last by (simp add: m' list_all2_appendI)
qed

lemma compile_mapping_denotes:
  assumes "compile_mapping merged configured = Inr m"
  shows "list_all2 (row_denotes configured merged m) (map_sources m) (sm_sources merged)"
proof -
  have "list_all2 (row_denotes configured merged m') (map_sources m') (done_entries @ entries)"
    if "try_fold (compile_source configured (sm_patterns merged)) m0 entries = Inr m'"
      "list_all2 (row_denotes configured merged m0) (map_sources m0) done_entries" for m0 m' entries done_entries
    using that
  proof (induction entries arbitrary: m0 done_entries)
    case Nil
    then show ?case by simp
  next
    case (Cons entry entries)
    then obtain m1 where one: "compile_source configured (sm_patterns merged) m0 entry = Inr m1"
      and rest: "try_fold (compile_source configured (sm_patterns merged)) m1 entries = Inr m'"
      by (auto simp: rbind_eq_Inr)
    show ?case using Cons.IH [OF rest compile_source_denotes [OF one Cons.prems(2)]] by simp
  qed
  from this [OF assms [unfolded compile_mapping_def], of "[]"] show ?thesis by simp
qed

lemma row_ranks_closeness:
  assumes "row_denotes configured merged m row entry"
  shows "row_ranks m identity row = map (closeness identity) (entry_patterns merged entry)"
proof -
  from assms obtain ps where ps: "range_slice (map_patterns m) (row_patterns row) = Some ps"
    "list_all2 (reads_pattern (map_text m)) ps (entry_patterns merged entry)" by (auto simp: row_denotes_def)
  have "pattern_rank m sp identity = closeness identity pattern" if "reads_pattern (map_text m) sp pattern" for sp pattern
    using that by (cases "split_pattern pattern"; cases "pat_prefix sp")
      (auto simp: reads_pattern_def pattern_rank_def closeness_def Let_def)
  from list_all2_mono [OF ps(2) this]
  have "list_all2 (\<lambda>sp pattern. pattern_rank m sp identity = closeness identity pattern) ps (entry_patterns merged entry)" .
  then have "map (\<lambda>sp. pattern_rank m sp identity) ps = map (closeness identity) (entry_patterns merged entry)"
    by (simp add: list_all2_conv_all_nth list_eq_iff_nth_eq)
  then show ?thesis using ps(1) by (simp add: row_ranks_def)
qed

section \<open>The closest pattern decides\<close>

definition all_closeness :: "source_mapping \<Rightarrow> string \<Rightarrow> nat set" where
  "all_closeness merged identity =
     {w. \<exists>entry \<in> set (sm_sources merged). \<exists>pattern \<in> set (entry_patterns merged entry). closeness identity pattern = Some w}"

text \<open>Source \<open>i\<close> is named by an entry one of whose patterns matches, and no pattern of any entry is closer.\<close>

definition maps_to :: "source_mapping \<Rightarrow> (string \<times> package_source) list \<Rightarrow> string \<Rightarrow> nat \<Rightarrow> bool" where
  "maps_to merged configured identity i \<longleftrightarrow>
     (\<exists>entry \<in> set (sm_sources merged). position (\<lambda>(name, _). eq_ignore_case name (me_source entry)) configured = Some i
        \<and> (\<exists>pattern \<in> set (entry_patterns merged entry). \<exists>w. closeness identity pattern = Some w
             \<and> (\<forall>v \<in> all_closeness merged identity. v \<le> w)))"

lemma foldl_raise_best: "foldl raise_best best ranks = Max (insert best {r. Some r \<in> set ranks})"
proof (induction ranks arbitrary: best)
  case Nil
  then show ?case by simp
next
  case (Cons rank ranks)
  have fin: "finite {r. Some r \<in> set ranks}" by (rule finite_subset [of _ "the ` set ranks"]) force+
  show ?case
  proof (cases rank)
    case None
    then show ?thesis using Cons.IH by (simp add: raise_best_def)
  next
    case (Some r)
    then have "insert best {x. Some x \<in> set (rank # ranks)} = insert best (insert r {x. Some x \<in> set ranks})" by auto
    then show ?thesis using Cons.IH [of "max best r"] fin Some
      by (cases "{x. Some x \<in> set ranks} = {}") (simp_all add: raise_best_def max.assoc max.left_commute)
  qed
qed

lemma closeness_pos: "closeness identity pattern = Some w \<Longrightarrow> 0 < w"
  by (auto simp: closeness_def USIZE_MAX_def split: prod.splits bool.splits if_splits)

lemma finite_closeness: "finite (all_closeness merged identity)"
proof -
  have "all_closeness merged identity \<subseteq> (\<Union>entry \<in> set (sm_sources merged). (\<lambda>p. the (closeness identity p)) ` set (entry_patterns merged entry))"
    by (force simp: all_closeness_def)
  then show ?thesis by (rule finite_subset) simp
qed

lemma required_rank_max:
  assumes "compile_mapping merged configured = Inr m"
  shows "required_rank m identity
    = (if all_closeness merged identity = {} then None else Some (Max (all_closeness merged identity)))"
proof -
  note rows = compile_mapping_denotes [OF assms]
  have "map (row_ranks m identity) (map_sources m) = map (\<lambda>entry. map (closeness identity) (entry_patterns merged entry)) (sm_sources merged)"
    using rows row_ranks_closeness by (fastforce simp: list_all2_conv_all_nth list_eq_iff_nth_eq)
  then have "{r. Some r \<in> set (concat (map (row_ranks m identity) (map_sources m)))} = all_closeness merged identity"
    by (auto simp: all_closeness_def image_iff) metis+
  then have best: "foldl raise_best 0 (concat (map (row_ranks m identity) (map_sources m))) = Max (insert 0 (all_closeness merged identity))"
    by (simp add: foldl_raise_best)
  show ?thesis
  proof (cases "all_closeness merged identity = {}")
    case True
    then show ?thesis by (simp add: required_rank_def best)
  next
    case False
    then have "Max (all_closeness merged identity) \<in> all_closeness merged identity" using finite_closeness by simp
    then have "0 < Max (all_closeness merged identity)" by (auto simp: all_closeness_def closeness_pos)
    then show ?thesis using False finite_closeness by (simp add: required_rank_def best)
  qed
qed

lemma source_index_position:
  assumes "source_index configured name = Inr i"
  shows "i \<noteq> U32_MAX \<Longrightarrow> position (\<lambda>(other, _). eq_ignore_case other name) configured = Some i"
    and "position (\<lambda>(other, _). eq_ignore_case other name) configured = Some j \<Longrightarrow> i = j \<and> i \<noteq> U32_MAX"
  using assms by (auto simp: source_index_def rbind_eq_Inr u32_len_def split: option.splits if_splits)

lemma source_matches_iff:
  assumes "compile_mapping merged configured = Inr m" and "i \<noteq> U32_MAX"
  shows "source_matches_rank m i identity w \<longleftrightarrow>
    (\<exists>entry \<in> set (sm_sources merged). position (\<lambda>(name, _). eq_ignore_case name (me_source entry)) configured = Some i
       \<and> Some w \<in> closeness identity ` set (entry_patterns merged entry))" (is "?l \<longleftrightarrow> ?r")
proof
  note rows = compile_mapping_denotes [OF assms(1)]
  show ?r if ?l
  proof -
    from that obtain row where row: "row \<in> set (map_sources m)" "row_source_index row = i" "Some w \<in> set (row_ranks m identity row)"
      by (auto simp: source_matches_rank_def)
    from list_all2_left [OF rows row(1)] obtain entry
      where "entry \<in> set (sm_sources merged)" "row_denotes configured merged m row entry" by blast
    then show ?r using row assms(2) row_ranks_closeness source_index_position(1)
      by (fastforce simp: row_denotes_def)
  qed
  show ?l if ?r
  proof -
    from that obtain entry where entry: "entry \<in> set (sm_sources merged)"
      "position (\<lambda>(name, _). eq_ignore_case name (me_source entry)) configured = Some i"
      "Some w \<in> closeness identity ` set (entry_patterns merged entry)" by blast
    from list_all2_right [OF rows entry(1)] obtain row
      where row: "row \<in> set (map_sources m)" "row_denotes configured merged m row entry" by blast
    have "row_source_index row = i" using row(2) source_index_position(2) [OF _ entry(2)] by (auto simp: row_denotes_def)
    then show ?l using row entry(3) row_ranks_closeness [OF row(2)] by (auto simp: source_matches_rank_def)
  qed
qed

lemma enabled_rank_iff:
  assumes "compile_mapping merged configured = Inr m"
  shows "enabled_rank m identity = Some w \<longleftrightarrow>
    required_rank m identity = Some w \<and> (\<exists>i. i \<noteq> U32_MAX \<and> source_matches_rank m i identity w)"
  by (cases "required_rank m identity")
    (auto simp: enabled_rank_def source_indices_at_rank_def source_matches_rank_def filter_empty_conv split: if_splits)

text \<open>C25: package source mapping is a longest-match policy. A source may serve a package exactly when an
  entry of the mapping names it and has a pattern that matches the package at least as closely as
  every pattern of every entry, disabled sources included: an exact name before any prefix, a longer
  prefix before a shorter one, without regard to case.\<close>

theorem source_mapping_longest_match:
  assumes "compile_mapping merged configured = Inr m" and "i < U32_MAX"
  shows "source_mapping_selects (Some m) (enabled_rank m identity) identity i \<longleftrightarrow> maps_to merged configured identity i"
proof -
  let ?all = "all_closeness merged identity"
  have i: "i \<noteq> U32_MAX" using assms(2) by simp
  have "source_mapping_selects (Some m) (enabled_rank m identity) identity i \<longleftrightarrow>
      (\<exists>w. required_rank m identity = Some w \<and> source_matches_rank m i identity w)"
  proof (cases "enabled_rank m identity")
    case None
    then show ?thesis using enabled_rank_iff [OF assms(1), of identity] i by (auto simp: source_mapping_selects_def)
  next
    case (Some w)
    then have "required_rank m identity = Some w" using enabled_rank_iff [OF assms(1)] by blast
    then show ?thesis using Some by (simp add: source_mapping_selects_def)
  qed
  also have "\<dots> \<longleftrightarrow> ?all \<noteq> {} \<and> source_matches_rank m i identity (Max ?all)"
    by (simp add: required_rank_max [OF assms(1)])
  also have "\<dots> \<longleftrightarrow> maps_to merged configured identity i"
  proof -
    have max: "w = Max ?all" if "w \<in> ?all" "\<forall>v \<in> ?all. v \<le> w" for w
      using that finite_closeness [of merged identity] by (metis Max_eqI)
    have member: "entry \<in> set (sm_sources merged) \<Longrightarrow> pattern \<in> set (entry_patterns merged entry) \<Longrightarrow>
        closeness identity pattern = Some w \<Longrightarrow> w \<in> ?all" for entry pattern w
      by (auto simp: all_closeness_def)
    show ?thesis
    proof
      assume l: "?all \<noteq> {} \<and> source_matches_rank m i identity (Max ?all)"
      then obtain entry pattern where "entry \<in> set (sm_sources merged)"
        "position (\<lambda>(name, _). eq_ignore_case name (me_source entry)) configured = Some i"
        "pattern \<in> set (entry_patterns merged entry)" "closeness identity pattern = Some (Max ?all)"
        using source_matches_iff [OF assms(1) i, of identity "Max ?all"] by (metis image_iff)
      moreover have "\<forall>v \<in> ?all. v \<le> Max ?all" using finite_closeness by simp
      ultimately show "maps_to merged configured identity i" unfolding maps_to_def by blast
    next
      assume "maps_to merged configured identity i"
      then obtain entry pattern w where e: "entry \<in> set (sm_sources merged)"
        "position (\<lambda>(name, _). eq_ignore_case name (me_source entry)) configured = Some i"
        "pattern \<in> set (entry_patterns merged entry)" "closeness identity pattern = Some w" "\<forall>v \<in> ?all. v \<le> w"
        unfolding maps_to_def by blast
      have w: "w \<in> ?all" "w = Max ?all" using member [OF e(1,3,4)] max e(5) by blast+
      then have "source_matches_rank m i identity (Max ?all)"
        using source_matches_iff [OF assms(1) i, of identity "Max ?all"] e by force
      then show "?all \<noteq> {} \<and> source_matches_rank m i identity (Max ?all)" using w by blast
    qed
  qed
  finally show ?thesis .
qed

definition two_sources :: "(string \<times> package_source) list" where
  "two_sources = [(''a'', \<lparr>ps_url = ''A'', ps_protocol = V3, ps_security_flags = 0\<rparr>),
     (''b'', \<lparr>ps_url = ''B'', ps_protocol = V3, ps_security_flags = 0\<rparr>)]"

definition a_entry :: mapping_entry where "a_entry = \<lparr>me_source = ''a'', me_patterns = \<lparr>ir_start = 0, ir_len = 1\<rparr>\<rparr>"
definition b_entry :: mapping_entry where "b_entry = \<lparr>me_source = ''b'', me_patterns = \<lparr>ir_start = 1, ir_len = 1\<rparr>\<rparr>"

definition two_entries :: source_mapping where
  "two_entries = \<lparr>sm_sources = [a_entry,
       b_entry], sm_patterns = [''*'', ''x*'']\<rparr>"

lemma split_two: "split_pattern ''*'' = ([], True)" "split_pattern ''x*'' = (''x'', True)"
  by (simp_all add: split_pattern_def str_eval)

theorem source_mapping_longest_match_witness:
  "\<exists>m. compile_mapping two_entries two_sources = Inr m
     \<and> source_mapping_selects (Some m) (enabled_rank m ''xy'') ''xy'' 1
     \<and> \<not> source_mapping_selects (Some m) (enabled_rank m ''xy'') ''xy'' 0"
proof -
  have "\<exists>m. compile_mapping two_entries two_sources = Inr m"
    by (simp add: compile_mapping_def compile_source_def two_entries_def a_entry_def b_entry_def two_sources_def source_index_def position_def
        u32_len_def range_slice_def as_failure_def push_pattern_eq split_two push_text_def push_span_def U32_MAX_def str_eval)
  then obtain m where m: "compile_mapping two_entries two_sources = Inr m" by blast
  have close: "closeness ''xy'' ''*'' = Some 1" "closeness ''xy'' ''x*'' = Some 2"
    by (simp_all add: closeness_def split_two str_eval)
  have patterns: "entry_patterns two_entries a_entry = [''*'']"
    "entry_patterns two_entries b_entry = [''x*'']"
    by (simp_all add: entry_patterns_def two_entries_def a_entry_def b_entry_def)
  have entries: "set (sm_sources two_entries) = {a_entry,
      b_entry}" by (simp add: two_entries_def)
  have all: "all_closeness two_entries ''xy'' = {1, 2}"
    by (auto simp: all_closeness_def entries patterns close)
  have place: "position (\<lambda>(name, _). eq_ignore_case name (me_source a_entry)) two_sources = Some 0"
    "position (\<lambda>(name, _). eq_ignore_case name (me_source b_entry)) two_sources = Some 1"
    by (simp_all add: two_sources_def position_def a_entry_def b_entry_def str_eval)
  have "maps_to two_entries two_sources ''xy'' 1" "\<not> maps_to two_entries two_sources ''xy'' 0"
    by (auto simp: maps_to_def all entries patterns close place)
  then show ?thesis using source_mapping_longest_match [OF m, of 1 "''xy''"] source_mapping_longest_match [OF m, of 0 "''xy''"] m
    by (auto simp: U32_MAX_def)
qed

end
