(* ===== verification/Config_Facts.thy ===== *)
theory Config_Facts
  imports Source_Mapping
begin

text \<open>
  What every merged NuGet configuration satisfies, whatever files it comes from: names are unique, the
  ranges of the source mapping are in bounds, and no source uses plain HTTP unless it is allowed to.
\<close>

section \<open>Named entries\<close>

definition unique_by :: "('a \<Rightarrow> 'k) \<Rightarrow> 'a list \<Rightarrow> bool" where
  "unique_by key xs \<longleftrightarrow> distinct (map key xs)"

lemma set_replace_first: "set (replace_first p e xs) \<subseteq> insert e (set xs)"
  by (induction xs) auto

lemma key_replace_first:
  assumes "\<And>x. p x \<longleftrightarrow> key x = key e"
  shows "set (map key (replace_first p e xs)) = insert (key e) (set (map key xs))"
  using assms by (induction xs) auto

lemma unique_replace_first:
  assumes "\<And>x. p x \<longleftrightarrow> key x = key e" and "unique_by key xs"
  shows "unique_by key (replace_first p e xs)"
  using assms(2)
proof (induction xs)
  case Nil
  then show ?case by (simp add: unique_by_def)
next
  case (Cons x xs)
  then show ?case
    using assms(1) [of x] key_replace_first [of p key e xs, OF assms(1)] by (auto simp: unique_by_def)
qed

lemma unique_simps [simp]: "unique_by key []" "unique_by key [x]"
  by (simp_all add: unique_by_def)

lemma unique_filter: "unique_by key xs \<Longrightarrow> unique_by key (filter q xs)"
  by (simp add: unique_by_def distinct_map_filter)

lemma unique_filter_snoc:
  assumes "unique_by key xs" and "\<And>x. q x \<Longrightarrow> key x \<noteq> key e"
  shows "unique_by key (filter q xs @ [e])"
  using assms(1) assms(2) [THEN not_sym] by (auto simp: unique_by_def distinct_map_filter)

section \<open>Sources\<close>

definition source_ok :: "package_source \<Rightarrow> bool" where
  "source_ok s \<longleftrightarrow> ps_protocol s = LocalFeed \<or> has_scheme_prefix ''https://'' (ps_url s)
     \<or> has_scheme_prefix ''http://'' (ps_url s) \<and> allow_insecure_connections s"

lemma security_flags_allow: "allow_insecure_connections s \<longleftrightarrow> allow" if "ps_security_flags s = source_security_flags allow disable"
  using that by (cases allow; cases disable)
    (simp_all add: allow_insecure_connections_def source_security_flags_def SOURCE_ALLOW_INSECURE_CONNECTIONS_def SOURCE_DISABLE_TLS_VALIDATION_def)

lemma parse_package_source_ok:
  assumes "parse_package_source h value protocol allow_insecure disable_tls context relative_to = Inr s"
  shows "source_ok s"
  using assms security_flags_allow [of s allow_insecure disable_tls]
  by (auto simp: parse_package_source_def parse_http_source_def parse_local_source_def source_ok_def rbind_eq_Inr
      split: option.splits if_splits)

lemma read_source_ok: "read_source h path element value = Inr s \<Longrightarrow> source_ok s"
  by (auto simp: read_source_def rbind_eq_Inr Let_def dest: parse_package_source_ok)

section \<open>The invariant\<close>

definition lower_name :: "string \<times> package_source \<Rightarrow> string" where
  "lower_name entry = to_lower (fst entry)"

definition sources_ok :: "(string \<times> package_source) list \<Rightarrow> bool" where
  "sources_ok sources \<longleftrightarrow> unique_by lower_name sources \<and> (\<forall>(_, s) \<in> set sources. source_ok s)"

definition mapping_ok :: "source_mapping \<Rightarrow> bool" where
  "mapping_ok mapping \<longleftrightarrow> unique_by (\<lambda>entry. to_lower (me_source entry)) (sm_sources mapping)
     \<and> (\<forall>entry \<in> set (sm_sources mapping). 0 < ir_len (me_patterns entry)
          \<and> ir_start (me_patterns entry) + ir_len (me_patterns entry) \<le> length (sm_patterns mapping))"

definition signer_ok :: "trusted_signer \<Rightarrow> bool" where
  "signer_ok signer \<longleftrightarrow> (\<forall>c \<in> set (ts_certificates signer). length (tc_fingerprint c) = fingerprint_bytes (tc_algorithm c))"

definition config_ok :: "'p config_merge \<Rightarrow> bool" where
  "config_ok m \<longleftrightarrow> sources_ok (cm_sources m) \<and> sources_ok (cm_audit_sources m)
     \<and> unique_by to_lower (cm_disabled m)
     \<and> unique_by (\<lambda>f. to_lower (ff_name f)) (cm_fallback_folders m)
     \<and> unique_by sl_source (cm_credentials m)
     \<and> unique_by (\<lambda>c. (cc_source c, is_file_certificate c)) (cm_client_certificates m)
     \<and> mapping_ok (cm_source_mapping m)
     \<and> (\<forall>signer \<in> set (cm_trusted_signers m). ts_certificates signer \<noteq> [] \<and> signer_ok signer)"

lemma same_name: "eq_ignore_case a b \<longleftrightarrow> to_lower a = to_lower b"
  by (simp add: eq_ignore_case_def)

lemma sources_add: "sources_ok sources \<Longrightarrow> source_ok s \<Longrightarrow> sources_ok (add_or_replace_source key s sources)"
  using unique_replace_first [of "\<lambda>(name, _). eq_ignore_case name key" lower_name "(key, s)" sources]
    set_replace_first [of "\<lambda>(name, _). eq_ignore_case name key" "(key, s)" sources]
  by (fastforce simp: sources_ok_def add_or_replace_source_def lower_name_def same_name)

lemma sources_filter: "sources_ok sources \<Longrightarrow> sources_ok (filter q sources)"
  by (auto simp: sources_ok_def unique_filter)

lemma mapping_append: "append_source_pattern path element pending mapping = Inr mapping' \<Longrightarrow> mapping_ok mapping \<Longrightarrow> mapping_ok mapping'"
  by (fastforce simp: append_source_pattern_def mapping_ok_def rbind_eq_Inr split: if_splits)

lemma mapping_finish:
  assumes "finish_source path pending mapping = Inr mapping'" and "mapping_ok mapping"
  shows "mapping_ok mapping'"
proof -
  let ?n = "length (sm_patterns mapping) - pm_pattern_start pending"
  let ?e = "\<lparr>me_source = pm_source pending, me_patterns = \<lparr>ir_start = pm_pattern_start pending, ir_len = ?n\<rparr>\<rparr>"
  let ?p = "\<lambda>entry. eq_ignore_case (me_source entry) (pm_source pending)"
  have "0 < ?n" and m: "mapping' = mapping\<lparr>sm_sources := replace_first ?p ?e (sm_sources mapping)\<rparr>"
    using assms(1) by (auto simp: finish_source_def Let_def rbind_eq_Inr u32_len_def split: if_splits)
  moreover have "unique_by (\<lambda>entry. to_lower (me_source entry)) (replace_first ?p ?e (sm_sources mapping))"
    by (rule unique_replace_first) (use assms(2) in \<open>auto simp: same_name mapping_ok_def\<close>)
  ultimately show ?thesis using assms(2) set_replace_first [of ?p ?e "sm_sources mapping"]
    by (auto simp: mapping_ok_def)
qed

lemma mapping_remove_ok: "mapping_ok mapping \<Longrightarrow> mapping_ok (mapping_remove key mapping)"
  by (auto simp: mapping_ok_def mapping_remove_def unique_filter)

lemma logins_finish: "finish_source_credential path pending logins = Inr logins' \<Longrightarrow> unique_by sl_source logins \<Longrightarrow> unique_by sl_source logins'"
  by (auto simp: finish_source_credential_def rbind_eq_Inr intro!: unique_replace_first)

lemma certificates_add:
  "append_client_certificate h path element certificates = Inr certificates' \<Longrightarrow>
   unique_by (\<lambda>c. (cc_source c, is_file_certificate c)) certificates \<Longrightarrow>
   unique_by (\<lambda>c. (cc_source c, is_file_certificate c)) certificates'"
  by (auto simp: append_client_certificate_def rbind_eq_Inr intro!: unique_replace_first)

lemma folders_add:
  "unique_by (\<lambda>f. to_lower (ff_name f)) folders \<Longrightarrow> unique_by (\<lambda>f. to_lower (ff_name f)) (add_or_replace_path key path priority folders)"
  unfolding add_or_replace_path_def by (rule unique_replace_first) (simp_all add: same_name)

lemma disabled_add:
  "unique_by to_lower disabled \<Longrightarrow> unique_by to_lower (filter (\<lambda>name. \<not> eq_ignore_case name key) disabled @ [key])"
  by (rule unique_filter_snoc) (auto simp: same_name)

lemmas config_ok_intros = sources_add sources_filter mapping_append mapping_finish mapping_remove_ok logins_finish
  certificates_add folders_add disabled_add unique_filter

lemma set_config_fields [simp]:
  shows "cm_sources (set_config h path key v m) = cm_sources m"
    and "cm_audit_sources (set_config h path key v m) = cm_audit_sources m"
    and "cm_disabled (set_config h path key v m) = cm_disabled m"
    and "cm_fallback_folders (set_config h path key v m) = cm_fallback_folders m"
    and "cm_credentials (set_config h path key v m) = cm_credentials m"
    and "cm_client_certificates (set_config h path key v m) = cm_client_certificates m"
    and "cm_source_mapping (set_config h path key v m) = cm_source_mapping m"
    and "cm_trusted_signers (set_config h path key v m) = cm_trusted_signers m"
  by (simp_all add: set_config_def)

lemma remove_config_fields [simp]:
  shows "cm_sources (remove_config key m) = cm_sources m"
    and "cm_audit_sources (remove_config key m) = cm_audit_sources m"
    and "cm_disabled (remove_config key m) = cm_disabled m"
    and "cm_fallback_folders (remove_config key m) = cm_fallback_folders m"
    and "cm_credentials (remove_config key m) = cm_credentials m"
    and "cm_client_certificates (remove_config key m) = cm_client_certificates m"
    and "cm_source_mapping (remove_config key m) = cm_source_mapping m"
    and "cm_trusted_signers (remove_config key m) = cm_trusted_signers m"
  by (simp_all add: remove_config_def)

lemma clear_config_fields [simp]:
  shows "cm_sources (clear_config m) = cm_sources m"
    and "cm_audit_sources (clear_config m) = cm_audit_sources m"
    and "cm_disabled (clear_config m) = cm_disabled m"
    and "cm_fallback_folders (clear_config m) = cm_fallback_folders m"
    and "cm_credentials (clear_config m) = cm_credentials m"
    and "cm_client_certificates (clear_config m) = cm_client_certificates m"
    and "cm_source_mapping (clear_config m) = cm_source_mapping m"
    and "cm_trusted_signers (clear_config m) = cm_trusted_signers m"
  by (simp_all add: clear_config_def)

section \<open>Every event keeps it\<close>

definition reader_ok :: "'p config_reader \<Rightarrow> bool" where
  "reader_ok s \<longleftrightarrow> config_ok (cr_merged s)"

lemma add_certificate_ok: "add_certificate h path element s = Inr s' \<Longrightarrow> reader_ok s \<Longrightarrow> reader_ok s'"
  by (auto simp: add_certificate_def rbind_eq_Inr reader_ok_def on_merged_def config_ok_def intro: config_ok_intros)

lemma add_pattern_ok: "add_pattern path element s = Inr s' \<Longrightarrow> reader_ok s \<Longrightarrow> reader_ok s'"
  by (auto simp: add_pattern_def rbind_eq_Inr reader_ok_def on_merged_def config_ok_def intro: config_ok_intros)

lemma config_start_ok: "config_start h path element s = Inr s' \<Longrightarrow> reader_ok s \<Longrightarrow> reader_ok s'"
  by (auto simp: config_start_def Let_def rbind_eq_Inr split: if_splits option.splits intro: add_certificate_ok add_pattern_ok)
    (simp_all add: reader_ok_def)

lemma config_clear_ok: "config_clear text s = Inr s' \<Longrightarrow> reader_ok s \<Longrightarrow> reader_ok s'"
  by (auto simp: config_clear_def reader_ok_def on_merged_def config_ok_def sources_ok_def mapping_ok_def
      split: config_section.splits if_splits)

lemma config_add_ok: "config_add h path priority element s = Inr s' \<Longrightarrow> reader_ok s \<Longrightarrow> reader_ok s'"
proof -
  have "config_add_value h path priority element key v s = Inr s' \<Longrightarrow> reader_ok s \<Longrightarrow> reader_ok s'" for key v
    by (cases "cr_section s")
      (auto simp: config_add_value_def reader_ok_def on_merged_def rbind_eq_Inr config_ok_def
        split: if_splits dest!: read_source_ok intro: config_ok_intros)
  then show "config_add h path priority element s = Inr s' \<Longrightarrow> reader_ok s \<Longrightarrow> reader_ok s'"
    by (auto simp: config_add_def Let_def rbind_eq_Inr)
qed

lemma config_remove_ok: "config_remove text element s = Inr s' \<Longrightarrow> reader_ok s \<Longrightarrow> reader_ok s'"
  by (cases "cr_section s")
    (auto simp: config_remove_def reader_ok_def on_merged_def rbind_eq_Inr config_ok_def intro: config_ok_intros)

lemma config_empty_ok: "config_empty h path priority element s = Inr s' \<Longrightarrow> reader_ok s \<Longrightarrow> reader_ok s'"
proof -
  have "config_empty_credential label element s = Inr s' \<Longrightarrow> reader_ok s \<Longrightarrow> reader_ok s'" for label
    by (auto simp: config_empty_credential_def rbind_eq_Inr reader_ok_def on_merged_def config_ok_def intro: config_ok_intros)
  then show "config_empty h path priority element s = Inr s' \<Longrightarrow> reader_ok s \<Longrightarrow> reader_ok s'"
    by (auto simp: config_empty_def Let_def split: if_splits
        intro: config_clear_ok config_add_ok add_certificate_ok add_pattern_ok config_remove_ok)
qed

lemma config_end_ok: "config_end text tag s = Inr s' \<Longrightarrow> reader_ok s \<Longrightarrow> reader_ok s'"
  by (auto simp: config_end_def Let_def rbind_eq_Inr reader_ok_def on_merged_def config_ok_def
      split: if_splits option.splits intro: config_ok_intros)

lemma config_event_ok: "config_event h path priority s event = Inr s' \<Longrightarrow> reader_ok s \<Longrightarrow> reader_ok s'"
  by (auto simp: config_event_def split: sum.splits xml_event.splits intro: config_start_ok config_empty_ok config_end_ok)

section \<open>Trusted signers\<close>

definition signers_ok :: "trusted_signer list \<Rightarrow> bool" where
  "signers_ok signers \<longleftrightarrow> (\<forall>signer \<in> set signers. ts_certificates signer \<noteq> [] \<and> signer_ok signer)"

definition signer_reader_ok :: "signer_reader \<Rightarrow> bool" where
  "signer_reader_ok s \<longleftrightarrow> signers_ok (sr_signers s) \<and> (\<forall>signer. sr_pending s = Some signer \<longrightarrow> signer_ok signer)"

lemma length_hex_pairs: "length (hex_pairs s) = length s div 2"
  by (induction s rule: hex_pairs.induct) auto

lemma parse_trusted_certificate_ok:
  "parse_trusted_certificate fingerprint algorithm root = Inr c \<Longrightarrow> length (tc_fingerprint c) = fingerprint_bytes (tc_algorithm c)"
  by (auto simp: parse_trusted_certificate_def length_hex_pairs split: if_splits)

lemma append_trusted_certificate_ok:
  assumes "append_trusted_certificate path element pending = Inr signer" and "\<And>s. pending = Some s \<Longrightarrow> signer_ok s"
  shows "signer_ok signer"
proof -
  from assms(1) obtain base fingerprint algorithm root where base: "pending = Some base"
    and step: "(case parse_trusted_certificate fingerprint algorithm root of
      Inl e \<Rightarrow> Inl (config_error path (Format ''invalid NuGet trusted certificate: {error}'' [e]))
    | Inr c \<Rightarrow> Inr (base\<lparr>ts_certificates := ts_certificates base @ [c]\<rparr>)) = Inr signer"
    by (auto simp: append_trusted_certificate_def rbind_eq_Inr ok_or_eq_Inr)
  show ?thesis
  proof (cases "parse_trusted_certificate fingerprint algorithm root")
    case (Inl e)
    then show ?thesis using step by simp
  next
    case (Inr c)
    then show ?thesis using step parse_trusted_certificate_ok [OF Inr] assms(2) [OF base] by (auto simp: signer_ok_def)
  qed
qed

lemma begin_trusted_signer_ok: "begin_trusted_signer h path element pending = Inr signer \<Longrightarrow> signer_ok signer"
  by (auto simp: begin_trusted_signer_def rbind_eq_Inr signer_ok_def split: if_splits)

lemma finish_trusted_signer_ok:
  "finish_trusted_signer h path pending signers = Inr signers' \<Longrightarrow> signers_ok signers \<Longrightarrow>
   (\<And>s. pending = Some s \<Longrightarrow> signer_ok s) \<Longrightarrow> signers_ok signers'"
  using set_replace_first [of "same_signer h (the pending)" "the pending" signers]
  by (auto simp: finish_trusted_signer_def rbind_eq_Inr ok_or_eq_Inr signers_ok_def split: if_splits)

lemma signer_start_ok: "signer_start h path element s = Inr s' \<Longrightarrow> signer_reader_ok s \<Longrightarrow> signer_reader_ok s'"
  by (auto simp: signer_start_def Let_def rbind_eq_Inr as_failure_def map_error_Inr signer_error_def signer_reader_ok_def
      split: if_splits option.splits dest: begin_trusted_signer_ok append_trusted_certificate_ok)

lemma signer_empty_ok: "signer_empty path element s = Inr s' \<Longrightarrow> signer_reader_ok s \<Longrightarrow> signer_reader_ok s'"
  by (auto simp: signer_empty_def Let_def rbind_eq_Inr as_failure_def map_error_Inr signer_error_def signer_reader_ok_def
      signers_ok_def split: if_splits dest: append_trusted_certificate_ok)

lemma signer_text_ok: "signer_text path content s = Inr s' \<Longrightarrow> signer_reader_ok s \<Longrightarrow> signer_reader_ok s'"
  by (auto simp: signer_text_def signer_error_def signer_reader_ok_def split: if_splits sum.splits)

lemma signer_end_ok: "signer_end h path tag s = Inr s' \<Longrightarrow> signer_reader_ok s \<Longrightarrow> signer_reader_ok s'"
  by (auto simp: signer_end_def Let_def rbind_eq_Inr as_failure_def map_error_Inr signer_error_def signer_reader_ok_def signer_ok_def
      split: if_splits option.splits intro: finish_trusted_signer_ok [unfolded signer_ok_def])

lemma merge_trusted_signers_ok:
  assumes "merge_trusted_signers h path document signers = Inr signers'" and "signers_ok signers"
  shows "signers_ok signers'"
proof -
  let ?s = "\<lparr>sr_in_section = False, sr_in_owners = False, sr_owner_text = None, sr_pending = None, sr_signers = signers\<rparr>"
  from assms(1) obtain s where s: "try_fold (signer_event h path) ?s document = Inr s" "signers' = sr_signers s"
    by (auto simp: merge_trusted_signers_def rbind_eq_Inr signer_error_def split: if_splits)
  have "signer_reader_ok s"
  proof (rule try_fold_invariant [OF s(1)])
    show "signer_reader_ok ?s" using assms(2) by (simp add: signer_reader_ok_def)
    show "signer_reader_ok t'" if "signer_reader_ok t" "signer_event h path t event = Inr t'" for t event t'
      using that by (auto simp: signer_event_def split: sum.splits xml_event.splits
          intro: signer_start_ok signer_empty_ok signer_text_ok signer_end_ok)
  qed
  then show ?thesis by (simp add: s(2) signer_reader_ok_def)
qed

section \<open>All files\<close>

lemma read_config_ok:
  assumes "read_config h path document merged = Inr m" and "config_ok merged"
  shows "config_ok m \<and> cm_config_priority m = cm_config_priority merged + 1"
proof -
  let ?s = "\<lparr>cr_section = OtherSection, cr_pending_mapping = None, cr_pending_credential = None, cr_mapping_sources = [],
    cr_merged = merged\<rparr>"
  from assms(1) obtain s where s: "try_fold (config_event h path (cm_config_priority merged)) ?s document = Inr s"
    "m = (cr_merged s)\<lparr>cm_config_priority := cm_config_priority merged + 1\<rparr>"
    by (auto simp: read_config_def Let_def rbind_eq_Inr split: if_splits)
  have "reader_ok s"
    by (rule try_fold_invariant [OF s(1)]) (use assms(2) config_event_ok in \<open>auto simp: reader_ok_def\<close>)
  then show ?thesis by (simp add: s(2) reader_ok_def config_ok_def)
qed

lemma merge_config_ok:
  assumes "merge_config h xml merged path = Inr m" and "config_ok merged"
  shows "config_ok m \<and> cm_config_priority m = cm_config_priority merged + 1"
proof -
  from assms(1) obtain bytes signers where
      signers: "merge_trusted_signers h (path_text h path) (xml bytes) (cm_trusted_signers merged) = Inr signers"
    and read: "read_config h path (xml bytes) (merged\<lparr>cm_trusted_signers := signers\<rparr>) = Inr m"
    by (auto simp: merge_config_def rbind_eq_Inr as_failure_def map_error_Inr split: sum.splits)
  have "config_ok (merged\<lparr>cm_trusted_signers := signers\<rparr>)"
    using assms(2) merge_trusted_signers_ok [OF signers] by (simp add: config_ok_def signers_ok_def)
  from read_config_ok [OF read this] show ?thesis by simp
qed

lemma default_merge_ok: "config_ok default_merge" "config_ok (default_merge\<lparr>cm_sources := default_sources\<rparr>)"
proof -
  have "has_scheme_prefix ''https://'' DEFAULT_SOURCE"
    by (simp add: has_scheme_prefix_def DEFAULT_SOURCE_def eq_ignore_case_def)
  then show "config_ok default_merge" "config_ok (default_merge\<lparr>cm_sources := default_sources\<rparr>)"
    by (simp_all add: config_ok_def default_merge_def sources_ok_def mapping_ok_def default_sources_def source_ok_def)
qed

lemma compile_source_no_panic:
  assumes "ir_start (me_patterns entry) + ir_len (me_patterns entry) \<le> length patterns"
  shows "compile_source configured patterns m entry \<noteq> Inl None"
  using assms by (auto simp: compile_source_def as_failure_def rbind_eq_Inl range_slice_def map_error_def split: sum.splits)

lemma compile_mapping_no_panic:
  assumes "mapping_ok mapping"
  shows "compile_mapping mapping configured \<noteq> Inl None"
proof -
  have "try_fold (compile_source configured (sm_patterns mapping)) m entries \<noteq> Inl None"
    if "set entries \<subseteq> set (sm_sources mapping)" for m entries
    using that
  proof (induction entries arbitrary: m)
    case (Cons entry entries)
    then have "compile_source configured (sm_patterns mapping) m entry \<noteq> Inl None"
      using assms compile_source_no_panic by (fastforce simp: mapping_ok_def)
    then show ?case using Cons by (auto simp: rbind_eq_Inl)
  qed simp
  then show ?thesis by (simp add: compile_mapping_def)
qed

text \<open>C24: what NuGet configuration may say. However files and their events are ordered, a merged
  configuration names every source, folder, credential, certificate and mapping once, without regard
  to case; plain HTTP sources are only those allowed to be; fingerprints have the length of their
  algorithm and no signer is without one; it counts its files; and the source mapping compiles
  without a slice out of bounds.\<close>

theorem merged_configuration_ok:
  assumes "merge_configs h xml paths = Inr m"
  shows "config_ok m \<and> cm_config_priority m = length paths \<and> compile_mapping (cm_source_mapping m) configured \<noteq> Inl None"
proof -
  let ?start = "if paths = [] then default_merge\<lparr>cm_sources := default_sources\<rparr> else default_merge"
  have "config_ok m \<and> cm_config_priority m = cm_config_priority start + length paths"
    if "try_fold (merge_config h xml) start paths = Inr m" "config_ok start" for start
    using that
  proof (induction paths arbitrary: start)
    case (Cons path paths)
    then obtain next_merge where step: "merge_config h xml start path = Inr next_merge"
      "try_fold (merge_config h xml) next_merge paths = Inr m" by (auto simp: rbind_eq_Inr)
    then show ?case using Cons.IH [OF step(2)] merge_config_ok [OF step(1) Cons.prems(2)] by simp
  qed simp
  from this [of ?start] have "config_ok m \<and> cm_config_priority m = length paths"
    using assms default_merge_ok by (auto simp: merge_configs_def default_merge_def split: if_splits)
  then show ?thesis using compile_mapping_no_panic by (simp add: config_ok_def)
qed

text \<open>One file that maps the packages of a prefix to a source.\<close>

definition mapping_host :: "(string, unit, unit) nuget_host" where
  "mapping_host = \<lparr>path_of = (\<lambda>s. s), path_join = (@), path_parent = (\<lambda>_. None), path_text = (\<lambda>s. s),
     path_is_absolute = (\<lambda>_. True), canonicalize = Inr, is_file = (\<lambda>_. True), is_dir = (\<lambda>_. False),
     read_dir = (\<lambda>_. Inl ()), read_file = (\<lambda>_. Inr []), not_found = (\<lambda>_. True), env_var = (\<lambda>_. None),
     split_paths = (\<lambda>s. [s]), registered_root = (\<lambda>_. None), arch_const = [], exe_suffix = [], cfg_windows = False,
     cfg_macos = False, urls = \<lparr>url_lib = \<lparr>url_parse = (\<lambda>_. None), set_username = (\<lambda>_ _. None), set_password = (\<lambda>_ _. None),
       set_query = (\<lambda>u _. u), set_fragment = (\<lambda>u _. u), url_text = (\<lambda>_. [])\<rparr>, url_error = (\<lambda>s. s), url_scheme = (\<lambda>_. []),
       url_host = (\<lambda>_. None), url_username = (\<lambda>_. []), url_password = (\<lambda>_. None), url_port = (\<lambda>_. None), url_same = (=)\<rparr>,
     url_file_path = (\<lambda>_. None), path_str = Some, path_join_path = (@), env_os = (\<lambda>_. None), io_text = (\<lambda>_. [])\<rparr>"

definition mapping_document :: xml_document where
  "mapping_document =
     [Inr (StartTag \<lparr>xe_name = ''packageSourceMapping'', xe_attributes = []\<rparr>),
      Inr (StartTag \<lparr>xe_name = ''packageSource'', xe_attributes = [Inr (''key'', Inr ''a'')]\<rparr>),
      Inr (EmptyTag \<lparr>xe_name = ''package'', xe_attributes = [Inr (''pattern'', Inr ''x*'')]\<rparr>),
      Inr (EndTag ''packageSource''), Inr (EndTag ''packageSourceMapping'')]"

lemma local_names: "local_name ''packageSourceMapping'' = ''packageSourceMapping''" "local_name ''packageSource'' = ''packageSource''"
  "local_name ''package'' = ''package''" "local_name ''key'' = ''key''" "local_name ''pattern'' = ''pattern''"
  by (simp_all add: local_name_def)

lemma mapping_signers: "merge_trusted_signers h path mapping_document signers = Inr signers"
  by (simp add: merge_trusted_signers_def mapping_document_def signer_event_def signer_start_def signer_empty_def signer_end_def
      local_names Let_def)

lemma trim_short: "trim ''a'' = ''a''" "trim ''x*'' = ''x*''"
  by (simp_all add: str_eval)

lemma mapping_read:
  "read_config h path mapping_document default_merge
     = Inr (default_merge\<lparr>cm_source_mapping := \<lparr>sm_sources = [\<lparr>me_source = ''a'', me_patterns = \<lparr>ir_start = 0, ir_len = 1\<rparr>\<rparr>],
         sm_patterns = [''x*'']\<rparr>, cm_config_priority := 1\<rparr>)"
  by (simp add: mapping_document_def read_config_def config_event_def config_start_def config_empty_def config_end_def
      section_of_def certificate_element_def closing_section_def begin_source_mapping_def add_pattern_def
      append_source_pattern_def finish_source_def required_attribute_def config_attribute_def on_merged_def
      utf16_length_def u32_len_def local_names trim_short default_merge_def Let_def)

theorem merged_configuration_ok_witness:
  "\<exists>m. merge_configs mapping_host (\<lambda>_. mapping_document) [''nuget.config''] = Inr m
     \<and> length (sm_sources (cm_source_mapping m)) = 1 \<and> cm_config_priority m = 1"
proof -
  have bytes: "read_file mapping_host ''nuget.config'' = Inr []" by (simp add: mapping_host_def)
  obtain m where m: "merge_configs mapping_host (\<lambda>_. mapping_document) [''nuget.config''] = Inr m"
    "length (sm_sources (cm_source_mapping m)) = 1"
    by (simp add: merge_configs_def merge_config_def bytes mapping_signers mapping_read as_failure_def)
  then show ?thesis using merged_configuration_ok [OF m(1)] by auto
qed

end
