(* ===== verification/Http_Policy.thy ===== *)
theory Http_Policy
  imports Config_Merge
begin

text \<open>
  \<open>crates/dv-core/src/package.rs\<close>: the transport policy of package sources. What the configuration and
  the environment say about retries, limits and the proxy, how long a retry waits, and the accounting
  of requests. The environment is a function from names to Unicode values.
\<close>

section \<open>Constants and policy\<close>

definition MAX_DOWNLOAD_WORKERS :: nat where "MAX_DOWNLOAD_WORKERS = 24"
definition DEFAULT_GLOBAL_NETWORK_REQUESTS :: u16 where "DEFAULT_GLOBAL_NETWORK_REQUESTS = of_nat MAX_DOWNLOAD_WORKERS"
definition DEFAULT_MAX_HTTP_REQUESTS_PER_SOURCE :: u16 where "DEFAULT_MAX_HTTP_REQUESTS_PER_SOURCE = 64"
definition MAX_NETWORK_TRIES :: nat where "MAX_NETWORK_TRIES = 32"
definition MAX_RETRY_DELAY_MS :: nat where "MAX_RETRY_DELAY_MS = 60000"
definition MAX_RETRY_AFTER_SECONDS :: nat where "MAX_RETRY_AFTER_SECONDS = 86400"

definition HTTP_RETRY_429 :: u8 where "HTTP_RETRY_429 = push_bit 0 1"
definition HTTP_OBSERVE_RETRY_AFTER :: u8 where "HTTP_OBSERVE_RETRY_AFTER = push_bit 1 1"
definition HTTP_PROXY_CONFIGURED :: u8 where "HTTP_PROXY_CONFIGURED = push_bit 2 1"
definition HTTP_PROXY_AUTHENTICATED :: u8 where "HTTP_PROXY_AUTHENTICATED = push_bit 3 1"
definition HTTP_NO_PROXY_CONFIGURED :: u8 where "HTTP_NO_PROXY_CONFIGURED = push_bit 4 1"
definition HTTP_OFFLINE :: u8 where "HTTP_OFFLINE = push_bit 5 1"
definition HTTP_TLS_VALIDATION :: u8 where "HTTP_TLS_VALIDATION = push_bit 6 1"
definition HTTP_INSECURE_CONNECTIONS :: u8 where "HTTP_INSECURE_CONNECTIONS = push_bit 7 1"

record http_policy =
  hp_retry_delay_ms :: u32
  hp_max_retry_after_seconds :: u32
  hp_request_timeout_seconds :: u16
  hp_download_timeout_seconds :: u16
  hp_max_requests_per_source :: u16
  hp_max_tries :: u8
  hp_flags :: u8

definition DEFAULT_HTTP_POLICY :: http_policy where
  "DEFAULT_HTTP_POLICY = \<lparr>hp_retry_delay_ms = 1000, hp_max_retry_after_seconds = 3600, hp_request_timeout_seconds = 100,
     hp_download_timeout_seconds = 60, hp_max_requests_per_source = DEFAULT_MAX_HTTP_REQUESTS_PER_SOURCE, hp_max_tries = 6,
     hp_flags = HTTP_RETRY_429 OR HTTP_OBSERVE_RETRY_AFTER OR HTTP_TLS_VALIDATION\<rparr>"

definition has_flag :: "http_policy \<Rightarrow> u8 \<Rightarrow> bool" where
  "has_flag policy bits \<longleftrightarrow> hp_flags policy AND bits \<noteq> 0"

definition retries_http_429 :: "http_policy \<Rightarrow> bool" where
  "retries_http_429 policy = has_flag policy HTTP_RETRY_429"

definition observes_retry_after :: "http_policy \<Rightarrow> bool" where
  "observes_retry_after policy = has_flag policy HTTP_OBSERVE_RETRY_AFTER"

definition proxy_configured :: "http_policy \<Rightarrow> bool" where
  "proxy_configured policy = has_flag policy HTTP_PROXY_CONFIGURED"

definition proxy_authenticated :: "http_policy \<Rightarrow> bool" where
  "proxy_authenticated policy = has_flag policy HTTP_PROXY_AUTHENTICATED"

definition no_proxy_configured :: "http_policy \<Rightarrow> bool" where
  "no_proxy_configured policy = has_flag policy HTTP_NO_PROXY_CONFIGURED"

definition policy_offline :: "http_policy \<Rightarrow> bool" where
  "policy_offline policy = has_flag policy HTTP_OFFLINE"

definition policy_tls_validation :: "http_policy \<Rightarrow> bool" where
  "policy_tls_validation policy = has_flag policy HTTP_TLS_VALIDATION"

definition allows_insecure_connections :: "http_policy \<Rightarrow> bool" where
  "allows_insecure_connections policy = has_flag policy HTTP_INSECURE_CONNECTIONS"

definition effective_request_limit :: "http_policy \<Rightarrow> nat \<Rightarrow> nat" where
  "effective_request_limit policy global_limit =
     (let configured = unat (hp_max_requests_per_source policy)
      in if configured < global_limit then configured else global_limit)"

text \<open>Setting and clearing a mask, as the code writes it in several places.\<close>

definition set_http_flag :: "u8 \<Rightarrow> u8 \<Rightarrow> bool \<Rightarrow> u8" where
  "set_http_flag flags bits enabled = (if enabled then flags OR bits else flags AND NOT bits)"

definition with_offline :: "bool \<Rightarrow> http_policy \<Rightarrow> http_policy" where
  "with_offline offline policy =
     (if offline then policy\<lparr>hp_flags := hp_flags policy OR HTTP_OFFLINE\<rparr>
      else policy\<lparr>hp_flags := hp_flags policy AND NOT HTTP_OFFLINE\<rparr>)"

definition with_source_security :: "(string \<times> package_source) list \<Rightarrow> http_policy \<Rightarrow> http_policy" where
  "with_source_security sources policy =
     (let policy = (if list_ex (\<lambda>(_, source). allow_insecure_connections source) sources
            then policy\<lparr>hp_flags := hp_flags policy OR HTTP_INSECURE_CONNECTIONS\<rparr> else policy)
      in if list_ex (\<lambda>(_, source). \<not> tls_validation source) sources
         then policy\<lparr>hp_flags := hp_flags policy AND NOT HTTP_TLS_VALIDATION\<rparr> else policy)"

section \<open>Environment\<close>

type_synonym environment = "string \<Rightarrow> string option"

text \<open>\<open>str::parse\<close> at \<open>i32\<close> and \<open>bool\<close>.\<close>

definition parse_i32 :: "string \<Rightarrow> int option" where
  "parse_i32 s =
     (case s of
        c # digits \<Rightarrow>
          if c = CHR ''-'' then
            (if digits = [] \<or> \<not> all_digits digits \<or> 2 ^ 31 < dec_value digits then None else Some (- int (dec_value digits)))
          else map_option int (parse_uint (2 ^ 31) s)
      | [] \<Rightarrow> None)"

definition parse_bool :: "string \<Rightarrow> bool option" where
  "parse_bool s = (if s = ''true'' then Some True else if s = ''false'' then Some False else None)"

definition keep_if :: "('a \<Rightarrow> bool) \<Rightarrow> 'a option \<Rightarrow> 'a option" where
  "keep_if p value = (case value of None \<Rightarrow> None | Some x \<Rightarrow> if p x then Some x else None)"

definition unwrap_or :: "'a \<Rightarrow> 'a option \<Rightarrow> 'a" where
  "unwrap_or d value = (case value of None \<Rightarrow> d | Some x \<Rightarrow> x)"

definition parsed_or :: "('a \<Rightarrow> bool) \<Rightarrow> (string \<Rightarrow> 'a option) \<Rightarrow> 'a \<Rightarrow> string option \<Rightarrow> 'a" where
  "parsed_or p parse d value = unwrap_or d (keep_if p (Option.bind value parse))"

text \<open>The global budget, as the number of requests.\<close>

definition effective_request_budget_with :: "environment \<Rightarrow> u16" where
  "effective_request_budget_with environment =
     (case keep_if (\<lambda>value. 0 < value) (Option.bind (environment ''NUGET_CONCURRENCY_LIMIT'') (\<lambda>value. parse_i32 (trim value))) of
        None \<Rightarrow> DEFAULT_GLOBAL_NETWORK_REQUESTS
      | Some value \<Rightarrow> of_nat (min (nat value) (unat DEFAULT_GLOBAL_NETWORK_REQUESTS)))"

record proxy_settings =
  px_url :: string
  px_no_proxy :: "string option"
  px_username :: "string option"
  px_password :: "string option"

definition proxy_flags :: "proxy_settings option \<Rightarrow> u8 \<Rightarrow> u8" where
  "proxy_flags proxy flags =
     (case proxy of
        None \<Rightarrow> flags
      | Some p \<Rightarrow>
          (let flags = flags OR HTTP_PROXY_CONFIGURED;
               flags = (if px_username p \<noteq> None then flags OR HTTP_PROXY_AUTHENTICATED else flags)
           in if px_no_proxy p \<noteq> None then flags OR HTTP_NO_PROXY_CONFIGURED else flags))"

definition effective_http_policy_with :: "'p config_merge \<Rightarrow> proxy_settings option \<Rightarrow> environment \<Rightarrow> http_policy" where
  "effective_http_policy_with merged proxy environment =
     DEFAULT_HTTP_POLICY\<lparr>
       hp_max_requests_per_source := of_nat (parsed_or (\<lambda>value. 0 < value) (parse_uint (2 ^ 16))
         (unat DEFAULT_MAX_HTTP_REQUESTS_PER_SOURCE) (cm_max_http_requests_per_source merged)),
       hp_max_tries := of_nat (parsed_or (\<lambda>value. 1 \<le> value \<and> value \<le> MAX_NETWORK_TRIES) (parse_uint (2 ^ 8))
         (unat (hp_max_tries DEFAULT_HTTP_POLICY)) (environment ''NUGET_ENHANCED_MAX_NETWORK_TRY_COUNT'')),
       hp_retry_delay_ms := of_nat (parsed_or (\<lambda>value. value \<le> MAX_RETRY_DELAY_MS) (parse_uint (2 ^ 32))
         (unat (hp_retry_delay_ms DEFAULT_HTTP_POLICY)) (environment ''NUGET_ENHANCED_NETWORK_RETRY_DELAY_MILLISECONDS'')),
       hp_max_retry_after_seconds := of_nat (parsed_or (\<lambda>value. value \<le> MAX_RETRY_AFTER_SECONDS) (parse_uint (2 ^ 32))
         (unat (hp_max_retry_after_seconds DEFAULT_HTTP_POLICY)) (environment ''NUGET_MAX_RETRY_AFTER_DELAY_SECONDS'')),
       hp_flags := proxy_flags proxy
         (set_http_flag
           (set_http_flag (hp_flags DEFAULT_HTTP_POLICY) HTTP_RETRY_429
             (unwrap_or True (Option.bind (environment ''NUGET_RETRY_HTTP_429'') parse_bool)))
           HTTP_OBSERVE_RETRY_AFTER (unwrap_or True (Option.bind (environment ''NUGET_OBSERVE_RETRY_AFTER'') parse_bool)))\<rparr>"

section \<open>Proxy\<close>

type_synonym proxy_login = "string \<times> string"

text \<open>\<open>percent_decode_str(..).decode_utf8()\<close> is an argument, \<open>None\<close> where the bytes are not UTF-8.\<close>

definition embedded_login :: "('p, 'io, 'u) nuget_host \<Rightarrow> (string \<Rightarrow> string option) \<Rightarrow> 'u \<Rightarrow> package_error + proxy_login option" where
  "embedded_login h percent_decode url =
     (if url_username (urls h) url = [] \<and> url_password (urls h) url = None then Inr None
      else rbind (ok_or (config_error ''http_proxy'' (Format ''NuGet proxy username is not valid UTF-8'' []))
          (percent_decode (url_username (urls h) url))) (\<lambda>username.
        rbind (ok_or (config_error ''http_proxy'' (Format ''NuGet proxy password is not valid UTF-8'' []))
          (percent_decode (unwrap_or [] (url_password (urls h) url)))) (\<lambda>password.
          Inr (Some (username, password)))))"

definition proxy_settings_of :: "('p, 'io, 'u) nuget_host \<Rightarrow> (string \<Rightarrow> string option) \<Rightarrow> string \<Rightarrow> string option \<Rightarrow> proxy_login option \<Rightarrow>
    package_error + proxy_settings option" where
  "proxy_settings_of h percent_decode raw_url no_proxy configured =
     rbind (ok_or (config_error ''http_proxy'' (Format ''invalid NuGet proxy address: {error}'' [url_error (urls h) raw_url]))
         (parse_url h raw_url)) (\<lambda>parsed.
     if url_host (urls h) parsed = None \<or> url_scheme (urls h) parsed \<notin> {''http'', ''https''}
     then Inl (config_error ''http_proxy'' (Format ''NuGet proxy address must be an absolute HTTP or HTTPS URL'' []))
     else rbind (embedded_login h percent_decode parsed) (\<lambda>embedded.
          rbind (ok_or (config_error ''http_proxy'' (Format ''failed to remove proxy credentials from the retained URL'' []))
              (Option.bind (set_username (url_lib (urls h)) parsed []) (\<lambda>url. set_password (url_lib (urls h)) url None))) (\<lambda>stripped.
            let login = (case configured of Some l \<Rightarrow> Some l | None \<Rightarrow> embedded)
            in Inr (Some \<lparr>px_url = url_text (url_lib (urls h)) stripped, px_no_proxy = keep_if (\<lambda>v. v \<noteq> []) no_proxy,
                 px_username = map_option fst login, px_password = map_option snd login\<rparr>))))"

text \<open>The configuration's proxy comes first; its credentials are those of the platform's secret store,
  an argument (none outside Windows). \<open>environment_value\<close> takes the first of two variables that is set.\<close>

definition environment_value :: "environment \<Rightarrow> string \<Rightarrow> string \<Rightarrow> string option" where
  "environment_value environment primary fallback =
     (case keep_if (\<lambda>v. v \<noteq> []) (environment primary) of
        Some v \<Rightarrow> Some v
      | None \<Rightarrow> keep_if (\<lambda>v. v \<noteq> []) (environment fallback))"

definition effective_proxy_with :: "('p, 'io, 'u) nuget_host \<Rightarrow> (string \<Rightarrow> string option) \<Rightarrow>
    ('p config_merge \<Rightarrow> package_error + proxy_login option) \<Rightarrow> environment \<Rightarrow> 'p config_merge \<Rightarrow>
    package_error + proxy_settings option" where
  "effective_proxy_with h percent_decode configured_proxy_credentials environment merged =
     (case keep_if (\<lambda>url. url \<noteq> []) (cm_proxy_url merged) of
        Some url \<Rightarrow> rbind (configured_proxy_credentials merged) (\<lambda>login.
          proxy_settings_of h percent_decode url (cm_no_proxy merged) login)
      | None \<Rightarrow> (case environment_value environment ''http_proxy'' ''HTTP_PROXY'' of
          None \<Rightarrow> Inr None
        | Some url \<Rightarrow> proxy_settings_of h percent_decode url (environment_value environment ''no_proxy'' ''NO_PROXY'') None))"

section \<open>Accounting\<close>

definition checked_add :: "'w::len word \<Rightarrow> 'w word \<Rightarrow> 'w word option" where
  "checked_add a b = (if unat a + unat b < 2 ^ LENGTH('w) then Some (a + b) else None)"

text \<open>A network error names its URL without credentials, in the context and in the text of the message.\<close>

function replace_text :: "string \<Rightarrow> string \<Rightarrow> string \<Rightarrow> string" where
  "replace_text old new s =
     (if old = [] \<or> s = [] then s
      else if starts_with old s then new @ replace_text old new (drop (length old) s)
      else hd s # replace_text old new (tl s))"
  by pat_completeness auto

termination by (relation "measure (\<lambda>(old, new, s). length s)") auto

declare replace_text.simps [simp del]

fun redact_message :: "string \<Rightarrow> string \<Rightarrow> message \<Rightarrow> message" where
  "redact_message context redacted (Format template arguments) = Format template (map (replace_text context redacted) arguments)"
| "redact_message context redacted (Nested template arguments inner) =
     Nested template (map (replace_text context redacted) arguments) (redact_message context redacted inner)"

definition network_error :: "'u url_library \<Rightarrow> string \<Rightarrow> message \<Rightarrow> package_error" where
  "network_error lib context message =
     (let redacted = redact_url_for_output lib context
      in package_error_new Network redacted (if redacted = context then message else redact_message context redacted message))"

definition no_http_work :: http_work where
  "no_http_work = \<lparr>hw_downloaded_bytes = 0, hw_duration_us = 0, hw_requests = 0\<rparr>"

definition merge_http_work :: "'u url_library \<Rightarrow> string \<Rightarrow> http_work \<Rightarrow> http_work \<Rightarrow> package_error + http_work" where
  "merge_http_work lib context self other =
     rbind (ok_or (network_error lib context (Format ''HTTP request count overflow'' [])) (checked_add (hw_requests self) (hw_requests other))) (\<lambda>requests.
     rbind (ok_or (network_error lib context (Format ''HTTP response byte count overflow'' []))
         (checked_add (hw_downloaded_bytes self) (hw_downloaded_bytes other))) (\<lambda>bytes.
     rbind (ok_or (network_error lib context (Format ''HTTP request duration overflow'' []))
         (checked_add (hw_duration_us self) (hw_duration_us other))) (\<lambda>duration.
       Inr \<lparr>hw_downloaded_bytes = bytes, hw_duration_us = duration, hw_requests = requests\<rparr>)))"

definition new_source_work :: "nat \<Rightarrow> source_work" where
  "new_source_work index = \<lparr>sw_downloaded_bytes = 0, sw_duration_us = 0, sw_source_index = of_nat index, sw_requests = 0\<rparr>"

definition work_of_source :: "source_work \<Rightarrow> http_work" where
  "work_of_source w = \<lparr>hw_downloaded_bytes = sw_downloaded_bytes w, hw_duration_us = sw_duration_us w, hw_requests = sw_requests w\<rparr>"

definition merge_http :: "'u url_library \<Rightarrow> string \<Rightarrow> http_work \<Rightarrow> source_work \<Rightarrow> package_error + source_work" where
  "merge_http lib context work self =
     rbind (merge_http_work lib context (work_of_source self) work) (\<lambda>total.
       Inr (self\<lparr>sw_downloaded_bytes := hw_downloaded_bytes total, sw_duration_us := hw_duration_us total,
         sw_requests := hw_requests total\<rparr>))"

definition source_work_table :: "nat \<Rightarrow> package_error + source_work list" where
  "source_work_table source_count =
     try_map (\<lambda>index. rbind (u32_len ''NuGet package-source index'' index) (\<lambda>index. Inr (new_source_work index))) [0..<source_count]"

definition merge_source_work :: "'u url_library \<Rightarrow> string \<Rightarrow> source_work \<Rightarrow> source_work list \<Rightarrow> package_error + source_work list" where
  "merge_source_work lib context work target =
     (let index = unat (sw_source_index work)
      in if length target \<le> index then
           Inl (package_error_new TextOverflow context
             (Format ''NuGet source-work index {} is outside the configured source batch'' [show_nat index]))
         else if sw_source_index (target ! index) \<noteq> sw_source_index work then
           Inl (package_error_new TextOverflow context (Format ''NuGet source-work table is not indexed contiguously'' []))
         else rbind (merge_http lib context (work_of_source work) (target ! index)) (\<lambda>slot. Inr (target[index := slot])))"

section \<open>Retry delays\<close>

text \<open>Times are milliseconds since some origin; \<open>http_date\<close> is \<open>httpdate::parse_http_date\<close>.\<close>

definition parse_retry_after :: "(string \<Rightarrow> nat option) \<Rightarrow> string \<Rightarrow> nat \<Rightarrow> nat option" where
  "parse_retry_after http_date value now =
     (case parse_uint (2 ^ 64) value of
        Some seconds \<Rightarrow> Some (1000 * seconds)
      | None \<Rightarrow> (case http_date value of None \<Rightarrow> None | Some at \<Rightarrow> if now \<le> at then Some (at - now) else None))"

definition saturating_mul32 :: "nat \<Rightarrow> nat \<Rightarrow> nat" where
  "saturating_mul32 a b = min (a * b) (2 ^ 32 - 1)"

text \<open>The shift is by at most 15 bits, so \<open>checked_shl\<close> always has a value.\<close>

definition exponential_retry_delay :: "http_policy \<Rightarrow> nat \<Rightarrow> nat" where
  "exponential_retry_delay policy attempt =
     (let multiplier = 2 ^ min attempt 15
      in min (saturating_mul32 (unat (hp_retry_delay_ms policy)) multiplier)
             (saturating_mul32 (unat (hp_max_retry_after_seconds policy)) 1000))"

definition retryable_status :: "nat \<Rightarrow> http_policy \<Rightarrow> bool" where
  "retryable_status status policy \<longleftrightarrow> 500 \<le> status \<and> status < 600 \<or> (status = 408 \<or> status = 429) \<and> retries_http_429 policy"

end
