(* ===== verification/Http_Transport.thy ===== *)
theory Http_Transport
  imports Http_Policy
begin

text \<open>
  \<open>crates/dv-core/src/package.rs\<close>: what the transport knows of each package source (its authorization,
  origin, clients, limits and policy), and the sending of one request with retries and renewed
  credentials. The answers of the network, the clock and the credential providers are arguments.
\<close>

section \<open>Credentials of a source\<close>

text \<open>A client is known by what it was built from: nothing special, the security flags of a source, or
  the client certificate of a source.\<close>

datatype http_client = SharedClient | SourceClient u8 | CertificateClient string

record source_credential =
  sc_authorization :: "string option"
  sc_origin :: http_origin
  sc_provider :: "string option"
  sc_client :: "http_client option"
  sc_transport_client :: "http_client option"
  sc_global_limiter :: "nat option"
  sc_source_limiter :: "nat option"
  sc_http_policy :: http_policy
  sc_security_flags :: u8

type_synonym credential_batch = "source_credential option list"

definition batch_get :: "credential_batch \<Rightarrow> nat \<Rightarrow> source_credential option" where
  "batch_get entries source = (if source < length entries then entries ! source else None)"

text \<open>Secrets: Base64, the check of \<open>HeaderValue::from_bytes\<close>, the platform's decryption of a stored
  password, and the building of clients, which may fail.\<close>

record 'p secret_tools =
  st_base64 :: "string \<Rightarrow> string"
  st_header_ok :: "string \<Rightarrow> bool"
  st_decrypt :: "string \<Rightarrow> string \<Rightarrow> string \<Rightarrow> package_error + string"
  st_certificate_client :: "'p client_certificate \<Rightarrow> u8 \<Rightarrow> package_error + unit"
  st_source_client :: "u8 \<Rightarrow> package_error + unit"

definition ascii_position :: "string \<Rightarrow> string \<Rightarrow> nat option" where
  "ascii_position value needle =
     List.find (\<lambda>i. eq_ignore_case (take (length needle) (drop i value)) needle) [0..<length value + 1 - length needle]"

text \<open>\<open>Username=..;Password=..\<close> with optional types; the password starts at the first \<open>;\<close> that
  \<open>Password=\<close> follows.\<close>

definition password_after :: "string \<Rightarrow> nat \<Rightarrow> (string \<times> string) option" where
  "password_after rest separator =
     (let after = trim_start (drop (separator + 1) rest)
      in if eq_ignore_case (take 9 after) ''Password='' then Some (take separator rest, drop 9 after) else None)"

fun find_map :: "('a \<Rightarrow> 'b option) \<Rightarrow> 'a list \<Rightarrow> 'b option" where
  "find_map f [] = None"
| "find_map f (x # xs) = (case f x of Some y \<Rightarrow> Some y | None \<Rightarrow> find_map f xs)"

definition parse_environment_credential :: "string \<Rightarrow> (string \<times> string \<times> string option) option" where
  "parse_environment_credential value =
     (let value = trim value
      in if \<not> eq_ignore_case (take 9 value) ''Username='' then None
         else let rest = drop 9 value; marker = '';ValidAuthenticationTypes=''
           in case find_map (password_after rest) (filter (\<lambda>i. rest ! i = CHR '';'') [0..<length rest]) of
                None \<Rightarrow> None
              | Some (username, password) \<Rightarrow> (case ascii_position password marker of
                  Some i \<Rightarrow> Some (username, take i password, Some (drop (i + length marker) password))
                | None \<Rightarrow> Some (username, password, None)))"

definition environment_source_credential :: "environment \<Rightarrow> string \<Rightarrow> source_login option" where
  "environment_source_credential environment source =
     (case Option.bind (environment (''NuGetPackageSourceCredentials_'' @ source)) parse_environment_credential of
        None \<Rightarrow> None
      | Some (username, password, types) \<Rightarrow>
          if username = [] \<or> password = [] then None
          else Some \<lparr>sl_source = source, sl_username = username, sl_password = ClearPassword password,
                 sl_valid_authentication_types = types\<rparr>)"

definition basic_authorization :: "'p secret_tools \<Rightarrow> string \<Rightarrow> string \<Rightarrow> string \<Rightarrow> string \<Rightarrow> package_error + string" where
  "basic_authorization t username password source context =
     (let header = ''Basic '' @ st_base64 t (username @ '':'' @ password)
      in if st_header_ok t header then Inr header
         else Inl (config_error context (Format ''package source {source:?} has a credential which cannot form an HTTP Basic header'' [source])))"

definition stored_secret :: "'p secret_tools \<Rightarrow> string \<Rightarrow> stored_password \<Rightarrow> string \<Rightarrow> package_error + string" where
  "stored_secret t source password context =
     (case password of ClearPassword p \<Rightarrow> Inr p | EncryptedPassword p \<Rightarrow> st_decrypt t source p context)"

definition allows_basic :: "string option \<Rightarrow> bool" where
  "allows_basic types \<longleftrightarrow> (case types of None \<Rightarrow> True | Some types \<Rightarrow> trim types = []
     \<or> list_ex (\<lambda>kind. eq_ignore_case (trim kind) ''basic'') (split_on CHR '','' types))"

definition materialize_source_credential :: "'p secret_tools \<Rightarrow> source_login \<Rightarrow> string \<Rightarrow> package_error + string" where
  "materialize_source_credential t login context =
     (if sl_username login = [] then
        Inl (config_error context (Format ''package source {:?} has an empty credential username'' [sl_source login]))
      else rbind (stored_secret t (sl_source login) (sl_password login) context) (\<lambda>password.
        if password = [] then
          Inl (config_error context (Format ''package source {:?} has an empty credential password'' [sl_source login]))
        else if \<not> allows_basic (sl_valid_authentication_types login) then
          Inl (config_error context (Format
            ''package source {:?} does not allow Basic authentication; other mechanisms remain tracked by NUGET-009'' [sl_source login]))
        else basic_authorization t (sl_username login) password (sl_source login) context))"

text \<open>\<open>Vec::swap_remove\<close>: the last element takes the place of the removed one.\<close>

definition swap_remove :: "nat \<Rightarrow> 'a list \<Rightarrow> 'a list" where
  "swap_remove i xs = butlast (xs[i := last xs])"

definition find_position :: "('a \<Rightarrow> bool) \<Rightarrow> 'a list \<Rightarrow> nat option" where
  "find_position p xs = (let i = length (takeWhile (\<lambda>x. \<not> p x) xs) in if i < length xs then Some i else None)"

definition plain_credential :: "http_origin \<Rightarrow> u8 \<Rightarrow> source_credential" where
  "plain_credential origin flags = \<lparr>sc_authorization = None, sc_origin = origin, sc_provider = None, sc_client = None,
     sc_transport_client = None, sc_global_limiter = None, sc_source_limiter = None, sc_http_policy = DEFAULT_HTTP_POLICY,
     sc_security_flags = flags\<rparr>"

text \<open>The login of a source: that of the environment, or the configuration's, which is used up.\<close>

definition source_authorization :: "'p secret_tools \<Rightarrow> environment \<Rightarrow> string \<Rightarrow> string \<Rightarrow> source_login list \<Rightarrow>
    package_error + string option \<times> source_login list" where
  "source_authorization t environment context name configured =
     (case environment_source_credential environment name of
        Some login \<Rightarrow> rbind (materialize_source_credential t login context) (\<lambda>a. Inr (Some a, configured))
      | None \<Rightarrow> (case find_position (\<lambda>login. sl_source login = name) configured of
          None \<Rightarrow> Inr (None, configured)
        | Some i \<Rightarrow> rbind (materialize_source_credential t (configured ! i) context) (\<lambda>a. Inr (Some a, swap_remove i configured))))"

definition source_entry :: "('p, 'io, 'u) nuget_host \<Rightarrow> bool \<Rightarrow> string \<Rightarrow> package_source \<Rightarrow> string option \<Rightarrow>
    package_error option + source_credential option" where
  "source_entry h provider_configured context source authorization =
     (if authorization \<noteq> None \<or> provider_configured
      then rbind (parse_http_origin h (ps_url source) context) (\<lambda>origin.
        Inr (Some ((plain_credential origin (ps_security_flags source))\<lparr>sc_authorization := authorization,
          sc_provider := (if provider_configured then Some (ps_url source) else None)\<rparr>)))
      else Inr None)"

text \<open>The batch is only made for the first source that has a credential.\<close>

definition push_entry :: "nat \<Rightarrow> source_credential option \<Rightarrow> credential_batch option \<Rightarrow> credential_batch option" where
  "push_entry source_index credential entries =
     map_option (\<lambda>es. es @ [credential])
       (if credential \<noteq> None \<and> entries = None then Some (replicate source_index None) else entries)"

definition resolve_step :: "('p, 'io, 'u) nuget_host \<Rightarrow> 'p secret_tools \<Rightarrow> environment \<Rightarrow> bool \<Rightarrow> string \<Rightarrow>
    source_login list \<times> credential_batch option \<Rightarrow> nat \<times> string \<times> package_source \<Rightarrow>
    package_error option + source_login list \<times> credential_batch option" where
  "resolve_step h t environment provider_configured context st indexed =
     (case (st, indexed) of ((configured, entries), (source_index, name, source)) \<Rightarrow>
        if ps_protocol source = LocalFeed then Inr (configured, push_entry source_index None entries)
        else rbind (as_failure (source_authorization t environment context name configured)) (\<lambda>(authorization, configured).
          rbind (source_entry h provider_configured context source authorization) (\<lambda>credential.
            Inr (configured, push_entry source_index credential entries))))"

definition resolve_source_credentials_with :: "('p, 'io, 'u) nuget_host \<Rightarrow> 'p secret_tools \<Rightarrow> environment \<Rightarrow> bool \<Rightarrow> string \<Rightarrow>
    (string \<times> package_source) list \<Rightarrow> source_login list \<Rightarrow> package_error option + credential_batch" where
  "resolve_source_credentials_with h t environment provider_configured context sources configured =
     rbind (try_fold (resolve_step h t environment provider_configured context) (configured, None)
        (zip [0..<length sources] sources)) (\<lambda>(_, entries). Inr (case entries of None \<Rightarrow> [] | Some es \<Rightarrow> es))"

section \<open>Client certificates and policy\<close>

fun duplicate_certificate :: "'p client_certificate list \<Rightarrow> string option" where
  "duplicate_certificate [] = None"
| "duplicate_certificate (c # cs) =
     (if \<exists>other \<in> set cs. eq_ignore_case (cc_source other) (cc_source c) then Some (cc_source c) else duplicate_certificate cs)"

text \<open>\<open>Vec::resize_with\<close>: the missing entries are \<open>None\<close>.\<close>

definition resize_batch :: "nat \<Rightarrow> credential_batch \<Rightarrow> credential_batch" where
  "resize_batch n entries = take n entries @ replicate (n - length entries) None"

definition certificate_step :: "('p, 'io, 'u) nuget_host \<Rightarrow> 'p secret_tools \<Rightarrow> string \<Rightarrow> 'p client_certificate list \<Rightarrow>
    credential_batch \<Rightarrow> nat \<times> string \<times> package_source \<Rightarrow> package_error option + credential_batch" where
  "certificate_step h t context certificates entries indexed =
     (case indexed of (i, name, source) \<Rightarrow>
        if ps_protocol source = LocalFeed then Inr entries
        else case List.find (\<lambda>c. cc_source c = name) certificates of
          None \<Rightarrow> Inr entries
        | Some certificate \<Rightarrow>
            rbind (as_failure (st_certificate_client t certificate (ps_security_flags source))) (\<lambda>_.
              case entries ! i of
                Some credential \<Rightarrow> Inr (entries[i := Some (credential\<lparr>sc_client := Some (CertificateClient name)\<rparr>)])
              | None \<Rightarrow> rbind (parse_http_origin h (ps_url source) context) (\<lambda>origin.
                  Inr (entries[i := Some ((plain_credential origin (ps_security_flags source))\<lparr>sc_client := Some (CertificateClient name)\<rparr>)]))))"

definition attach_client_certificates :: "('p, 'io, 'u) nuget_host \<Rightarrow> 'p secret_tools \<Rightarrow> string \<Rightarrow> (string \<times> package_source) list \<Rightarrow>
    'p client_certificate list \<Rightarrow> credential_batch \<Rightarrow> package_error option + credential_batch" where
  "attach_client_certificates h t context sources certificates entries =
     (if certificates = [] then Inr entries
      else case duplicate_certificate certificates of
        Some source \<Rightarrow> Inl (Some (config_error context (Format
          ''NuGet package source {:?} has more than one client certificate configuration'' [source])))
      | None \<Rightarrow> try_fold (certificate_step h t context certificates) (resize_batch (length sources) entries)
          (zip [0..<length sources] sources))"

definition runtime_changed :: "http_policy \<Rightarrow> u16 \<Rightarrow> bool" where
  "runtime_changed policy budget \<longleftrightarrow>
     hp_max_tries policy \<noteq> hp_max_tries DEFAULT_HTTP_POLICY
     \<or> hp_retry_delay_ms policy \<noteq> hp_retry_delay_ms DEFAULT_HTTP_POLICY
     \<or> hp_max_retry_after_seconds policy \<noteq> hp_max_retry_after_seconds DEFAULT_HTTP_POLICY
     \<or> (hp_flags policy XOR hp_flags DEFAULT_HTTP_POLICY) AND (HTTP_RETRY_429 OR HTTP_OBSERVE_RETRY_AFTER) \<noteq> 0
     \<or> unat budget < MAX_DOWNLOAD_WORKERS
     \<or> effective_request_limit policy (unat budget) < unat budget"

definition policy_step :: "('p, 'io, 'u) nuget_host \<Rightarrow> 'p secret_tools \<Rightarrow> string \<Rightarrow> http_policy \<Rightarrow> u16 \<Rightarrow>
    credential_batch \<Rightarrow> nat \<times> string \<times> package_source \<Rightarrow> package_error option + credential_batch" where
  "policy_step h t context policy budget entries indexed =
     (case indexed of (i, name, source) \<Rightarrow>
        let flags = ps_security_flags source;
            source_limit = effective_request_limit policy (unat budget);
            attach = (\<lambda>credential client. credential\<lparr>sc_transport_client := client,
              sc_global_limiter := (if unat budget < MAX_DOWNLOAD_WORKERS then Some (unat budget) else None),
              sc_source_limiter := (if source_limit < unat budget then Some source_limit else None),
              sc_http_policy := policy, sc_security_flags := flags\<rparr>)
        in if ps_protocol source = LocalFeed then Inr entries
           else rbind (if flags = 0 then Inr None
                       else rbind (as_failure (st_source_client t flags)) (\<lambda>_. Inr (Some (SourceClient flags)))) (\<lambda>client.
             case entries ! i of
               Some credential \<Rightarrow> Inr (entries[i := Some (attach credential client)])
             | None \<Rightarrow>
                 if runtime_changed policy budget \<or> flags \<noteq> 0
                 then rbind (parse_http_origin h (ps_url source) context) (\<lambda>origin.
                   Inr (entries[i := Some (attach (plain_credential origin flags) client)]))
                 else Inr entries))"

definition attach_http_policy :: "('p, 'io, 'u) nuget_host \<Rightarrow> 'p secret_tools \<Rightarrow> string \<Rightarrow> (string \<times> package_source) list \<Rightarrow>
    http_policy \<Rightarrow> u16 \<Rightarrow> credential_batch \<Rightarrow> package_error option + credential_batch" where
  "attach_http_policy h t context sources policy budget entries =
     (if entries = [] \<and> \<not> runtime_changed policy budget \<and> \<not> list_ex (\<lambda>(_, source). ps_security_flags source \<noteq> 0) sources
      then Inr entries
      else try_fold (policy_step h t context policy budget) (resize_batch (length sources) entries) (zip [0..<length sources] sources))"

text \<open>The credentials of all sources, in the order \<open>discover_configuration\<close> builds them.\<close>

definition source_credentials :: "('p, 'io, 'u) nuget_host \<Rightarrow> 'p secret_tools \<Rightarrow> environment \<Rightarrow> bool \<Rightarrow> string \<Rightarrow>
    (string \<times> package_source) list \<Rightarrow> source_login list \<Rightarrow> 'p client_certificate list \<Rightarrow> http_policy \<Rightarrow> u16 \<Rightarrow>
    package_error option + credential_batch" where
  "source_credentials h t environment provider_configured context sources logins certificates policy budget =
     rbind (resolve_source_credentials_with h t environment provider_configured context sources logins) (\<lambda>batch.
     rbind (attach_client_certificates h t context sources certificates batch) (\<lambda>batch.
       attach_http_policy h t context sources policy budget batch))"

end
