(* ===== verification/Http_Send.thy ===== *)
theory Http_Send
  imports Http_Transport
begin

text \<open>
  \<open>crates/dv-core/src/package.rs\<close>: sending a request and reading its body. What the program asks of the
  outside is a list of actions, and the outside answers from all that was asked so far: any network,
  clock, credential provider and use of the token by others is such a function.
\<close>

section \<open>The outside\<close>

datatype net_action =
  SourcePermit | GlobalPermit | Snapshot | SendRequest http_client string "string option"
| AcquireProvider u32 bool | SleepMs nat

record http_response =
  rs_status :: nat
  rs_retry_after :: "string option"
  rs_content_length :: "nat option"

datatype sent_answer = Responded http_response | SendFailed string | SendTimedOut

text \<open>The state of a credential provider, shared by all requests of the source.\<close>

record provider_state =
  pr_authorization :: "string option"
  pr_provider_index :: "nat option"
  pr_generation :: u32

record 'u outside =
  os_urls :: "'u url_library"
  os_cancelled :: "net_action list \<Rightarrow> bool"
  os_limiter_closed :: "net_action list \<Rightarrow> bool"
  os_provider :: "net_action list \<Rightarrow> provider_state"
  os_acquire :: "net_action list \<Rightarrow> package_error + (string \<times> nat) option"
  os_sent :: "net_action list \<Rightarrow> sent_answer"
  os_now :: "net_action list \<Rightarrow> nat"
  os_elapsed_us :: "net_action list \<Rightarrow> nat"
  os_http_date :: "string \<Rightarrow> nat option"

section \<open>Actions in sequence\<close>

text \<open>An error \<open>None\<close> is a panic.\<close>

type_synonym 'a transport = "net_action list \<Rightarrow> (package_error option + 'a) \<times> net_action list"

definition give :: "'a \<Rightarrow> 'a transport" where
  "give x history = (Inr x, history)"

definition fail_with :: "package_error option \<Rightarrow> 'a transport" where
  "fail_with e history = (Inl e, history)"

definition and_then :: "'a transport \<Rightarrow> ('a \<Rightarrow> 'b transport) \<Rightarrow> 'b transport" where
  "and_then m k history = (case m history of (Inl e, h) \<Rightarrow> (Inl e, h) | (Inr x, h) \<Rightarrow> k x h)"

definition package_cancelled_error :: package_error where
  "package_cancelled_error = package_error_new PackageCancelled ''package work'' (Format ''package work was cancelled'' [])"

definition check_package_cancellation :: "'u outside \<Rightarrow> unit transport" where
  "check_package_cancellation w history =
     (if os_cancelled w history then Inl (Some package_cancelled_error) else Inr (), history)"

text \<open>\<open>await_with_cancellation\<close>: a cancellation wins over the answer.\<close>

definition await :: "'u outside \<Rightarrow> net_action \<Rightarrow> (net_action list \<Rightarrow> 'a) \<Rightarrow> 'a transport" where
  "await w action answer history =
     (let h = history @ [action]
      in (if os_cancelled w h then Inl (Some package_cancelled_error) else Inr (answer h), h))"

section \<open>Credentials in use\<close>

definition authorization_snapshot :: "source_credential \<Rightarrow> provider_state \<Rightarrow> string option \<times> u32 \<times> bool" where
  "authorization_snapshot credential state =
     (if sc_provider credential = None then (sc_authorization credential, 0, False)
      else case pr_authorization state of
        Some authorization \<Rightarrow> (Some authorization, pr_generation state, True)
      | None \<Rightarrow> (sc_authorization credential, pr_generation state, False))"

text \<open>Another request may have renewed the credential already; then no provider is asked. The state
  after the call is the second result.\<close>

definition acquire_provider :: "source_credential \<Rightarrow> u32 \<Rightarrow> provider_state \<Rightarrow> package_error + (string \<times> nat) option \<Rightarrow>
    (package_error + string option) \<times> provider_state" where
  "acquire_provider credential observed_generation state answer =
     (if sc_provider credential = None then (Inr None, state)
      else if pr_generation state \<noteq> observed_generation then (Inr (pr_authorization state), state)
      else case answer of
        Inl e \<Rightarrow> (Inl e, state)
      | Inr None \<Rightarrow> (Inr None, state)
      | Inr (Some (authorization, index)) \<Rightarrow>
          (Inr (Some authorization), \<lparr>pr_authorization = Some authorization, pr_provider_index = Some index,
             pr_generation = pr_generation state + 1\<rparr>))"

section \<open>Retries\<close>

definition response_retry_delay :: "'u outside \<Rightarrow> net_action list \<Rightarrow> http_response \<Rightarrow> http_policy \<Rightarrow> nat \<Rightarrow> nat" where
  "response_retry_delay w history response policy attempt =
     (case (if observes_retry_after policy
            then Option.bind (rs_retry_after response) (\<lambda>value. parse_retry_after (os_http_date w) value (os_now w history)) else None) of
        Some delay \<Rightarrow> min delay (1000 * unat (hp_max_retry_after_seconds policy))
      | None \<Rightarrow> exponential_retry_delay policy attempt)"

definition elapsed_us :: "'u outside \<Rightarrow> net_action list \<Rightarrow> u64" where
  "elapsed_us w history = of_nat (min (os_elapsed_us w history) (2 ^ 64 - 1))"

definition transport_work :: "'u outside \<Rightarrow> net_action list \<Rightarrow> nat \<Rightarrow> u32 \<Rightarrow> http_work" where
  "transport_work w history downloaded_bytes requests =
     \<lparr>hw_downloaded_bytes = of_nat downloaded_bytes, hw_duration_us = elapsed_us w history, hw_requests = requests\<rparr>"

text \<open>How one network attempt ends: with a response, or so that the next attempt follows.\<close>

datatype attempt_end = Finished http_response u32 | NextAttempt u32

record request =
  rq_client :: http_client
  rq_credential :: "source_credential option"
  rq_url :: string
  rq_operation :: string
  rq_policy :: http_policy

definition send_failure :: "'u outside \<Rightarrow> request \<Rightarrow> nat \<Rightarrow> u32 \<Rightarrow> message \<Rightarrow> attempt_end transport" where
  "send_failure w r network_attempt requests message =
     (if network_attempt + 1 = unat (hp_max_tries (rq_policy r))
      then (\<lambda>history. fail_with (Some (with_http_work (transport_work w history 0 requests)
             (network_error (os_urls w) (rq_url r) message))) history)
      else and_then (await w (SleepMs (exponential_retry_delay (rq_policy r) network_attempt)) (\<lambda>_. ()))
             (\<lambda>_. give (NextAttempt requests)))"

definition handle_response :: "'u outside \<Rightarrow> request \<Rightarrow> nat \<Rightarrow> u32 \<Rightarrow> http_response \<Rightarrow> attempt_end transport" where
  "handle_response w r network_attempt requests response =
     (if retryable_status (rs_status response) (rq_policy r) \<and> network_attempt + 1 < unat (hp_max_tries (rq_policy r))
      then (\<lambda>history. and_then (await w (SleepMs (response_retry_delay w history response (rq_policy r) network_attempt)) (\<lambda>_. ()))
             (\<lambda>_. give (NextAttempt requests)) history)
      else give (Finished response requests))"

definition snapshot :: "'u outside \<Rightarrow> request \<Rightarrow> (string option \<times> u32 \<times> bool) transport" where
  "snapshot w r =
     (case rq_credential r of
        None \<Rightarrow> give (None, 0, False)
      | Some credential \<Rightarrow> await w Snapshot (\<lambda>h. authorization_snapshot credential (os_provider w h)))"

definition renew :: "'u outside \<Rightarrow> source_credential \<Rightarrow> u32 \<Rightarrow> bool \<Rightarrow> string option transport" where
  "renew w credential generation used =
     and_then (await w (AcquireProvider generation used)
       (\<lambda>h. fst (acquire_provider credential generation (os_provider w h) (os_acquire w h))))
       (\<lambda>answer. case answer of Inl e \<Rightarrow> fail_with (Some e) | Inr found \<Rightarrow> give found)"

text \<open>What follows a request that was sent; \<open>again\<close> is the attempt with a renewed credential.\<close>

definition handle_sent :: "'u outside \<Rightarrow> request \<Rightarrow> nat \<Rightarrow> nat \<Rightarrow> u32 \<Rightarrow> bool \<Rightarrow> attempt_end transport \<Rightarrow> u32 \<Rightarrow> sent_answer \<Rightarrow>
    attempt_end transport" where
  "handle_sent w r network_attempt authentication_attempt generation used again requests sent =
     (case sent of
        SendFailed e \<Rightarrow> send_failure w r network_attempt requests
          (Format ''{operation} failed after {} attempts: {error}'' [rq_operation r, show_nat (unat (hp_max_tries (rq_policy r))), e])
      | SendTimedOut \<Rightarrow> send_failure w r network_attempt requests
          (Format ''{operation} timed out after {} seconds and {} attempts'' [rq_operation r,
            show_nat (unat (hp_request_timeout_seconds (rq_policy r))), show_nat (unat (hp_max_tries (rq_policy r)))])
      | Responded response \<Rightarrow>
          if rs_status response = 401 \<and> authentication_attempt < 2 then
            (case rq_credential r of
               None \<Rightarrow> give (Finished response requests)
             | Some credential \<Rightarrow> and_then (renew w credential generation used) (\<lambda>found.
                 if found = None then give (Finished response requests) else again))
          else handle_response w r network_attempt requests response)"

primrec authentication_attempts :: "'u outside \<Rightarrow> request \<Rightarrow> nat \<Rightarrow> nat list \<Rightarrow> u32 \<Rightarrow> attempt_end transport" where
  "authentication_attempts w r network_attempt [] requests = give (NextAttempt requests)"
| "authentication_attempts w r network_attempt (authentication_attempt # rest) requests =
     and_then (snapshot w r) (\<lambda>(authorization, generation, used).
       case checked_add requests 1 of
         None \<Rightarrow> fail_with (Some (network_error (os_urls w) (rq_url r) (Format ''HTTP request count overflow'' [])))
       | Some requests \<Rightarrow>
           and_then (await w (SendRequest (rq_client r) (rq_url r) authorization) (os_sent w))
             (handle_sent w r network_attempt authentication_attempt generation used
               (authentication_attempts w r network_attempt rest requests) requests))"

primrec network_attempts :: "'u outside \<Rightarrow> request \<Rightarrow> nat list \<Rightarrow> u32 \<Rightarrow> (http_response \<times> u32) transport" where
  "network_attempts w r [] requests = fail_with None"
| "network_attempts w r (network_attempt # rest) requests =
     and_then (authentication_attempts w r network_attempt [0, 1, 2] requests) (\<lambda>ended.
       case ended of
         Finished response requests \<Rightarrow> give (response, requests)
       | NextAttempt requests \<Rightarrow> network_attempts w r rest requests)"

definition send_with_policy :: "'u outside \<Rightarrow> request \<Rightarrow> (http_response \<times> u32) transport" where
  "send_with_policy w r = network_attempts w r [0..<unat (hp_max_tries (rq_policy r))] 0"

section \<open>A request to a source\<close>

definition take_permit :: "'u outside \<Rightarrow> net_action \<Rightarrow> string \<Rightarrow> string \<Rightarrow> nat option \<Rightarrow> unit transport" where
  "take_permit w action address closed limiter =
     (case limiter of
        None \<Rightarrow> give ()
      | Some _ \<Rightarrow> and_then (await w action (os_limiter_closed w)) (\<lambda>is_closed.
          if is_closed then fail_with (Some (network_error (os_urls w) address (Format closed []))) else give ()))"

definition request_to :: "('p, 'io, 'u) nuget_host \<Rightarrow> source_credential option \<Rightarrow> string \<Rightarrow> string \<Rightarrow> request" where
  "request_to h source address operation =
     (let credential = (case source of None \<Rightarrow> None | Some c \<Rightarrow> if origin_matches h (sc_origin c) address then Some c else None)
      in \<lparr>rq_client = (case Option.bind credential sc_client of
             Some client \<Rightarrow> client
           | None \<Rightarrow> (case Option.bind source sc_transport_client of Some client \<Rightarrow> client | None \<Rightarrow> SharedClient)),
          rq_credential = credential, rq_url = address, rq_operation = operation,
          rq_policy = (case source of None \<Rightarrow> DEFAULT_HTTP_POLICY | Some c \<Rightarrow> sc_http_policy c)\<rparr>)"

text \<open>The narrower limit first, so that a busy source holds no global permits while it waits.\<close>

definition send_authenticated :: "('p, 'io, 'u) nuget_host \<Rightarrow> 'u outside \<Rightarrow> source_credential option \<Rightarrow> string \<Rightarrow> string \<Rightarrow>
    (http_response \<times> u32) transport" where
  "send_authenticated h w source address operation =
     and_then (check_package_cancellation w) (\<lambda>_.
     and_then (take_permit w SourcePermit address ''package-source request limiter closed'' (Option.bind source sc_source_limiter)) (\<lambda>_.
     and_then (take_permit w GlobalPermit address ''global package request limiter closed'' (Option.bind source sc_global_limiter)) (\<lambda>_.
       send_with_policy w (request_to h source address operation))))"

end
