(* ===== verification/Http_Facts.thy ===== *)
theory Http_Facts
  imports Http_Send
begin

text \<open>
  What every request satisfies, whatever the network answers: it is bounded in requests, waits and the
  length of each wait, ends with an answer or an error and never in the unreachable code after the
  loop; and secrets of a source go to its own origin only.
\<close>

section \<open>Reasoning about what is asked\<close>

text \<open>Whatever was asked before, \<open>m\<close> asks something more, and \<open>Q\<close> holds of its result and of that.\<close>

definition follows :: "'a transport \<Rightarrow> (package_error option + 'a \<Rightarrow> net_action list \<Rightarrow> bool) \<Rightarrow> bool" where
  "follows m Q \<longleftrightarrow> (\<forall>h. \<exists>asked. snd (m h) = h @ asked \<and> Q (fst (m h)) asked)"

named_theorems asks

lemma follows_give [asks]: "Q (Inr x) [] \<Longrightarrow> follows (give x) Q"
  by (simp add: follows_def give_def)

lemma follows_fail [asks]: "Q (Inl e) [] \<Longrightarrow> follows (fail_with e) Q"
  by (simp add: follows_def fail_with_def)

lemma follows_fail_at [asks]: "(\<And>h. Q (Inl (e h)) []) \<Longrightarrow> follows (\<lambda>h. fail_with (e h) h) Q"
  by (simp add: follows_def fail_with_def)

lemma follows_await [asks]:
  "Q (Inl (Some package_cancelled_error)) [a] \<Longrightarrow> (\<And>x. x \<in> range f \<Longrightarrow> Q (Inr x) [a]) \<Longrightarrow> follows (await w a f) Q"
  by (simp add: follows_def await_def Let_def)

lemma follows_check [asks]:
  "Q (Inl (Some package_cancelled_error)) [] \<Longrightarrow> Q (Inr ()) [] \<Longrightarrow> follows (check_package_cancellation w) Q"
  by (simp add: follows_def check_package_cancellation_def)

lemma follows_weaken: "follows m P \<Longrightarrow> (\<And>r asked. P r asked \<Longrightarrow> Q r asked) \<Longrightarrow> follows m Q"
  unfolding follows_def by blast

lemma follows_then:
  assumes m: "follows m P" and error: "\<And>e asked. P (Inl e) asked \<Longrightarrow> Q (Inl e) asked"
    and rest: "\<And>x asked. P (Inr x) asked \<Longrightarrow> follows (k x) (\<lambda>r more. Q r (asked @ more))"
  shows "follows (and_then m k) Q"
  unfolding follows_def
proof
  fix h
  from m obtain asked where a: "snd (m h) = h @ asked" "P (fst (m h)) asked" unfolding follows_def by blast
  obtain r h' where mh: "m h = (r, h')" by (cases "m h")
  show "\<exists>asked. snd (and_then m k h) = h @ asked \<and> Q (fst (and_then m k h)) asked"
  proof (cases r)
    case (Inl e)
    then show ?thesis using a mh error by (auto simp: and_then_def)
  next
    case (Inr x)
    then have "P (Inr x) asked" and h': "h' = h @ asked" using a mh by simp_all
    from rest [OF this(1)] obtain more where "snd (k x h') = h' @ more" "Q (fst (k x h')) (asked @ more)"
      unfolding follows_def by blast
    then show ?thesis using mh Inr h' by (auto simp: and_then_def)
  qed
qed

lemma follows_at: "(\<And>g. follows (m g) Q) \<Longrightarrow> follows (\<lambda>h. m h h) Q"
  unfolding follows_def by blast

section \<open>Bounds\<close>

definition sends :: "net_action list \<Rightarrow> nat" where
  "sends asked = length (filter (\<lambda>a. case a of SendRequest _ _ _ \<Rightarrow> True | _ \<Rightarrow> False) asked)"

fun sleeps :: "net_action list \<Rightarrow> nat list" where
  "sleeps [] = []"
| "sleeps (SleepMs n # asked) = n # sleeps asked"
| "sleeps (a # asked) = sleeps asked"

lemma sends_append [simp]: "sends (a @ b) = sends a + sends b"
  by (simp add: sends_def)

lemma sends_cons [simp]:
  "sends [] = 0" "sends (SendRequest c u a # asked) = Suc (sends asked)" "sends (SleepMs n # asked) = sends asked"
  "sends (Snapshot # asked) = sends asked" "sends (AcquireProvider g b # asked) = sends asked"
  "sends (SourcePermit # asked) = sends asked" "sends (GlobalPermit # asked) = sends asked"
  by (simp_all add: sends_def)

lemma sleeps_append [simp]: "sleeps (a @ b) = sleeps a @ sleeps b"
  by (induction a rule: sleeps.induct) simp_all

definition longest_wait :: "http_policy \<Rightarrow> nat" where
  "longest_wait policy = 1000 * unat (hp_max_retry_after_seconds policy)"

lemma exponential_bound: "exponential_retry_delay policy n \<le> longest_wait policy"
  by (simp add: exponential_retry_delay_def saturating_mul32_def longest_wait_def Let_def min_le_iff_disj)

lemma response_bound: "response_retry_delay w h response policy n \<le> longest_wait policy"
  using exponential_bound [of policy n]
  by (auto simp: response_retry_delay_def longest_wait_def split: option.split)

text \<open>How an attempt may end that starts with \<open>requests\<close> sent: \<open>last\<close> says that no other follows.\<close>

definition attempt_ok :: "request \<Rightarrow> bool \<Rightarrow> nat \<Rightarrow> u32 \<Rightarrow> package_error option + attempt_end \<Rightarrow> net_action list \<Rightarrow> bool" where
  "attempt_ok r final k requests ended asked \<longleftrightarrow>
     sends asked \<le> k \<and> (\<forall>ms \<in> set (sleeps asked). ms \<le> longest_wait (rq_policy r))
     \<and> (case ended of
          Inl e \<Rightarrow> e \<noteq> None \<and> length (sleeps asked) \<le> (if final then 0 else 1)
        | Inr (Finished response n) \<Rightarrow> sleeps asked = [] \<and> unat n = unat requests + sends asked
            \<and> (retryable_status (rs_status response) (rq_policy r) \<longrightarrow> final)
        | Inr (NextAttempt n) \<Rightarrow> \<not> final \<and> length (sleeps asked) = 1 \<and> unat n = unat requests + sends asked)"

lemma checked_add_unat: "checked_add a b = Some c \<Longrightarrow> unat c = unat a + unat b"
  by (auto simp: checked_add_def unat_word_ariths split: if_splits)

lemma failure_ok:
  assumes "n < unat (hp_max_tries (rq_policy r))"
  shows "follows (send_failure w r n requests message) (attempt_ok r (n + 1 = unat (hp_max_tries (rq_policy r))) 0 requests)"
  unfolding send_failure_def
  using exponential_bound [of "rq_policy r" n]
  by (auto intro!: asks follows_then [OF follows_await [where Q = "\<lambda>r' asked. asked = [SleepMs (exponential_retry_delay (rq_policy r) n)]
        \<and> (\<forall>e. r' = Inl e \<longrightarrow> e \<noteq> None)"]] simp: attempt_ok_def)

lemma response_ok:
  assumes "n < unat (hp_max_tries (rq_policy r))"
  shows "follows (handle_response w r n requests response) (attempt_ok r (n + 1 = unat (hp_max_tries (rq_policy r))) 0 requests)"
proof -
  have "follows (and_then (await w (SleepMs (response_retry_delay w g response (rq_policy r) n)) (\<lambda>_. ()))
      (\<lambda>_. give (NextAttempt requests))) (attempt_ok r False 0 requests)" for g
    using response_bound [of w g response "rq_policy r" n]
    by (auto intro!: asks follows_then [OF follows_await [where Q = "\<lambda>r' asked. asked = [SleepMs (response_retry_delay w g response (rq_policy r) n)]
        \<and> (\<forall>e. r' = Inl e \<longrightarrow> e \<noteq> None)"]] simp: attempt_ok_def)
  from follows_at [OF this] show ?thesis
    using assms by (auto simp: handle_response_def attempt_ok_def intro!: asks)
qed


definition quiet :: "package_error option + 'a \<Rightarrow> net_action list \<Rightarrow> bool" where
  "quiet r asked \<longleftrightarrow> sends asked = 0 \<and> sleeps asked = [] \<and> r \<noteq> Inl None"

lemma snapshot_quiet: "follows (snapshot w r) quiet"
  by (auto simp: snapshot_def quiet_def intro!: asks split: option.split)

lemma renew_quiet: "follows (renew w credential generation used) quiet"
  unfolding renew_def
  by (rule follows_then [where P = quiet]) (auto simp: quiet_def intro!: asks split: sum.split)

definition one_send :: "package_error option + 'a \<Rightarrow> net_action list \<Rightarrow> bool" where
  "one_send r asked \<longleftrightarrow> sends asked = 1 \<and> sleeps asked = [] \<and> r \<noteq> Inl None"

lemma attempt_later:
  assumes "attempt_ok r final k n ended later" and "sends asked = d" and "sleeps asked = []" and "unat n = unat requests + d"
    and "k + d \<le> k'"
  shows "attempt_ok r final k' requests ended (asked @ later)"
  using assms by (auto simp: attempt_ok_def split: sum.splits attempt_end.splits)

lemma attempt_weaken: "attempt_ok r final k n ended asked \<Longrightarrow> k \<le> k' \<Longrightarrow> attempt_ok r final k' n ended asked"
  by (auto simp: attempt_ok_def)

lemma attempt_error: "e \<noteq> None \<Longrightarrow> sends asked \<le> k \<Longrightarrow> sleeps asked = [] \<Longrightarrow> attempt_ok r final k n (Inl e) asked"
  by (simp add: attempt_ok_def)

lemma renewed_ok:
  assumes "follows again (attempt_ok r final k n)" and "attempt_ok r final 0 n (Inr (Finished response n)) []"
  shows "follows (and_then (renew w credential generation used) (\<lambda>found.
    if found = None then give (Finished response n) else again)) (attempt_ok r final k n)"
proof (rule follows_then [OF renew_quiet])
  show "attempt_ok r final k n (Inl e) asked" if "quiet (Inl e :: package_error option + string option) asked" for e asked
    using that by (intro attempt_error) (simp_all add: quiet_def)
  show "follows (if found = None then give (Finished response n) else again) (\<lambda>ended later. attempt_ok r final k n ended (asked @ later))"
    if "quiet (Inr found :: package_error option + string option) asked" for found asked
  proof (cases "found = None")
    case True
    then show ?thesis using that assms(2) by (auto simp: quiet_def attempt_ok_def intro!: asks)
  next
    case False
    then have "(if found = None then give (Finished response n) else again) = again" by auto
    then show ?thesis using that by (auto simp: quiet_def intro: attempt_later intro!: follows_weaken [OF assms(1)])
  qed
qed

lemma sent_ok:
  assumes "n < unat (hp_max_tries (rq_policy r))"
    and "a < 2 \<Longrightarrow> follows again (attempt_ok r (n + 1 = unat (hp_max_tries (rq_policy r))) k req)"
  shows "follows (handle_sent w r n a generation used again req sent) (attempt_ok r (n + 1 = unat (hp_max_tries (rq_policy r))) k req)"
proof (cases sent)
  case (Responded response)
  show ?thesis
  proof (cases "rs_status response = 401 \<and> a < 2")
    case True
    then have ended: "attempt_ok r (n + 1 = unat (hp_max_tries (rq_policy r))) 0 req (Inr (Finished response req)) []"
      by (simp add: attempt_ok_def retryable_status_def)
    then show ?thesis using True Responded renewed_ok [OF assms(2) ended] attempt_weaken [OF ended, of k]
      by (auto simp: handle_sent_def intro!: asks split: option.split)
  next
    case False
    then have "handle_sent w r n a generation used again req sent = handle_response w r n req response"
      using Responded by (auto simp: handle_sent_def)
    then show ?thesis
      by (simp only:) (rule follows_weaken [OF response_ok [OF assms(1)]], rule attempt_weaken, assumption, simp)
  qed
qed (simp only: handle_sent_def sent_answer.case, rule follows_weaken [OF failure_ok [OF assms(1)]], rule attempt_weaken, assumption, simp)+

lemma attempts_ok:
  assumes "n < unat (hp_max_tries (rq_policy r))" and "tries \<noteq> []" and "last tries = 2"
  shows "follows (authentication_attempts w r n tries requests)
    (attempt_ok r (n + 1 = unat (hp_max_tries (rq_policy r))) (length tries) requests)"
  using assms(2,3)
proof (induction tries arbitrary: requests)
  case (Cons a tries)
  let ?final = "n + 1 = unat (hp_max_tries (rq_policy r))"
  have again: "follows (authentication_attempts w r n tries req) (attempt_ok r ?final (length tries) req)" if "a < 2" for req
    using Cons that by (cases "tries = []") auto
  have one: "follows (case checked_add requests 1 of
         None \<Rightarrow> fail_with (Some (network_error (os_urls w) (rq_url r) (Format ''HTTP request count overflow'' [])))
       | Some requests \<Rightarrow> and_then (await w (SendRequest (rq_client r) (rq_url r) authorization) (os_sent w))
             (handle_sent w r n a generation used (authentication_attempts w r n tries requests) requests))
      (attempt_ok r ?final (Suc (length tries)) requests)" for authorization generation used
  proof (cases "checked_add requests 1")
    case None
    then show ?thesis by (auto intro!: asks attempt_error)
  next
    case (Some req)
    have add: "unat req = unat requests + 1" using checked_add_unat [OF Some] by simp
    have send: "follows (await w (SendRequest (rq_client r) (rq_url r) authorization) (os_sent w)) one_send"
      by (auto simp: one_send_def intro!: asks)
    show ?thesis
      unfolding Some option.case
    proof (rule follows_then [OF send])
      show "attempt_ok r ?final (Suc (length tries)) requests (Inl e) asked"
        if "one_send (Inl e :: package_error option + sent_answer) asked" for e asked
        using that by (intro attempt_error) (simp_all add: one_send_def)
      show "follows (handle_sent w r n a generation used (authentication_attempts w r n tries req) req sent)
          (\<lambda>ended later. attempt_ok r ?final (Suc (length tries)) requests ended (asked @ later))"
        if "one_send (Inr sent :: package_error option + sent_answer) asked" for sent asked
        using that add by (intro follows_weaken [OF sent_ok [OF assms(1) again]])
          (auto simp: one_send_def intro: attempt_later)
    qed
  qed
  show ?case
    unfolding authentication_attempts.simps
  proof (rule follows_then [OF snapshot_quiet])
    show "attempt_ok r ?final (length (a # tries)) requests (Inl e) asked"
      if "quiet (Inl e :: package_error option + string option \<times> u32 \<times> bool) asked" for e asked
      using that by (intro attempt_error) (simp_all add: quiet_def)
    fix x :: "string option \<times> u32 \<times> bool" and asked
    assume "quiet (Inr x :: package_error option + string option \<times> u32 \<times> bool) asked"
    then have "attempt_ok r ?final (Suc (length tries)) requests ended later \<Longrightarrow>
        attempt_ok r ?final (length (a # tries)) requests ended (asked @ later)" for ended later
      by (auto simp: quiet_def intro: attempt_later)
    from follows_weaken [OF one this]
    show "follows ((\<lambda>(authorization, generation, used).
       case checked_add requests 1 of
         None \<Rightarrow> fail_with (Some (network_error (os_urls w) (rq_url r) (Format ''HTTP request count overflow'' [])))
       | Some requests \<Rightarrow> and_then (await w (SendRequest (rq_client r) (rq_url r) authorization) (os_sent w))
             (handle_sent w r n a generation used (authentication_attempts w r n tries requests) requests)) x)
      (\<lambda>ended later. attempt_ok r ?final (length (a # tries)) requests ended (asked @ later))"
      by (cases x) simp
  qed
qed simp


definition network_ok :: "request \<Rightarrow> nat \<Rightarrow> u32 \<Rightarrow> package_error option + http_response \<times> u32 \<Rightarrow> net_action list \<Rightarrow> bool" where
  "network_ok r left requests ended asked \<longleftrightarrow>
     ended \<noteq> Inl None \<and> sends asked \<le> 3 * left \<and> length (sleeps asked) < left
     \<and> (\<forall>ms \<in> set (sleeps asked). ms \<le> longest_wait (rq_policy r))
     \<and> (\<forall>response n. ended = Inr (response, n) \<longrightarrow> unat n = unat requests + sends asked
          \<and> (retryable_status (rs_status response) (rq_policy r) \<longrightarrow> length (sleeps asked) + 1 = left))"

lemma network_attempts_ok:
  assumes "n < unat (hp_max_tries (rq_policy r))"
  shows "follows (network_attempts w r [n..<unat (hp_max_tries (rq_policy r))] requests)
    (network_ok r (unat (hp_max_tries (rq_policy r)) - n) requests)"
  using assms
proof (induction "unat (hp_max_tries (rq_policy r)) - n" arbitrary: n requests rule: less_induct)
  case less
  let ?m = "unat (hp_max_tries (rq_policy r))"
  have attempt: "follows (authentication_attempts w r n [0, 1, 2] requests) (attempt_ok r (n + 1 = ?m) 3 requests)"
    using attempts_ok [OF less.prems, of "[0, 1, 2]" w requests] by (simp del: authentication_attempts.simps add: numeral_3_eq_3)
  have "follows (and_then (authentication_attempts w r n [0, 1, 2] requests) (\<lambda>ended.
       case ended of Finished response requests \<Rightarrow> give (response, requests)
       | NextAttempt requests \<Rightarrow> network_attempts w r [Suc n..<?m] requests)) (network_ok r (?m - n) requests)"
  proof (rule follows_then [OF attempt])
    show "network_ok r (?m - n) requests (Inl e) asked"
      if "attempt_ok r (n + 1 = ?m) 3 requests (Inl e) asked" for e asked
      using that less.prems by (auto simp: attempt_ok_def network_ok_def split: if_splits)
    fix ended asked
    assume ended: "attempt_ok r (n + 1 = ?m) 3 requests (Inr ended) asked"
    show "follows (case ended of Finished response requests \<Rightarrow> give (response, requests)
       | NextAttempt requests \<Rightarrow> network_attempts w r [Suc n..<?m] requests)
       (\<lambda>ended later. network_ok r (?m - n) requests ended (asked @ later))"
    proof (cases ended)
      case (Finished response k)
      then show ?thesis using ended less.prems by (auto simp: attempt_ok_def network_ok_def intro!: asks)
    next
      case (NextAttempt k)
      then have next_attempt: "Suc n < ?m" using ended less.prems by (simp add: attempt_ok_def)
      have later: "network_ok r (?m - n) requests ended (asked @ later)" if "network_ok r (?m - Suc n) k ended later" for ended later
        using that NextAttempt \<open>attempt_ok _ _ _ _ _ _\<close> next_attempt by (auto simp: attempt_ok_def network_ok_def)
      have "follows (network_attempts w r [Suc n..<?m] k) (network_ok r (?m - Suc n) k)"
        by (rule less.hyps) (use next_attempt in simp_all)
      from follows_weaken [OF this later] show ?thesis using NextAttempt by simp
    qed
  qed
  then show ?case using less.prems by (simp add: upt_conv_Cons)
qed

lemma send_ok:
  assumes "0 < unat (hp_max_tries (rq_policy r))"
  shows "follows (send_with_policy w r) (network_ok r (unat (hp_max_tries (rq_policy r))) 0)"
  using network_attempts_ok [OF assms, of w 0] by (simp add: send_with_policy_def)


lemma permit_quiet: "follows (take_permit w action address closed limiter) quiet" if "action \<in> {SourcePermit, GlobalPermit}"
  using that unfolding take_permit_def
  by (auto simp: quiet_def intro!: asks follows_then [where P = quiet] split: option.split)

lemma check_quiet: "follows (check_package_cancellation w) quiet"
  by (auto simp: quiet_def intro!: asks)

lemma quiet_then:
  assumes "follows m quiet" and "\<And>x. follows (k x) (network_ok r left requests)" and "0 < left"
  shows "follows (and_then m k) (network_ok r left requests)"
proof (rule follows_then [OF assms(1)])
  show "network_ok r left requests (Inl e) asked" if "quiet (Inl e :: package_error option + 'a) asked" for e asked
    using that assms(3) by (auto simp: quiet_def network_ok_def)
  show "follows (k x) (\<lambda>ended later. network_ok r left requests ended (asked @ later))"
    if "quiet (Inr x :: package_error option + 'a) asked" for x asked
    by (rule follows_weaken [OF assms(2)]) (use that in \<open>simp add: quiet_def network_ok_def\<close>)
qed

lemma request_ok:
  assumes "request_to h source address operation = r" and "0 < unat (hp_max_tries (rq_policy r))"
  shows "follows (send_authenticated h w source address operation) (network_ok r (unat (hp_max_tries (rq_policy r))) 0)"
  unfolding send_authenticated_def assms(1)
  by (intro quiet_then [OF check_quiet] quiet_then [OF permit_quiet] send_ok assms(2)) simp_all

section \<open>Where secrets go\<close>

definition own_sends :: "request \<Rightarrow> net_action list \<Rightarrow> bool" where
  "own_sends r asked \<longleftrightarrow> (\<forall>client address authorization. SendRequest client address authorization \<in> set asked \<longrightarrow>
     client = rq_client r \<and> address = rq_url r \<and> (authorization \<noteq> None \<longrightarrow> rq_credential r \<noteq> None))"

lemma own_sends_simps [simp]:
  "own_sends r []" "own_sends r (a @ b) \<longleftrightarrow> own_sends r a \<and> own_sends r b" "own_sends r [SleepMs n]" "own_sends r [Snapshot]"
  "own_sends r [AcquireProvider g u]" "own_sends r [SourcePermit]" "own_sends r [GlobalPermit]"
  "own_sends r [SendRequest c v auth] \<longleftrightarrow> c = rq_client r \<and> v = rq_url r \<and> (auth \<noteq> None \<longrightarrow> rq_credential r \<noteq> None)"
  by (auto simp: own_sends_def)

lemma own_then:
  assumes "follows m (\<lambda>_. own_sends r)" and "\<And>x. follows (k x) (\<lambda>_. own_sends r)"
  shows "follows (and_then m k) (\<lambda>_. own_sends r)"
  by (rule follows_then [OF assms(1)]) (auto intro: follows_weaken [OF assms(2)])

lemma failure_sends: "follows (send_failure w r n requests message) (\<lambda>_. own_sends r)"
  by (auto simp: send_failure_def intro!: asks own_then)

lemma response_sends: "follows (handle_response w r n requests response) (\<lambda>_. own_sends r)"
proof -
  have "follows (and_then (await w (SleepMs (response_retry_delay w g response (rq_policy r) n)) (\<lambda>_. ()))
      (\<lambda>_. give (NextAttempt requests))) (\<lambda>_. own_sends r)" for g
    by (auto intro!: asks own_then)
  from follows_at [OF this] show ?thesis by (auto simp: handle_response_def intro!: asks)
qed

lemma renew_sends: "follows (renew w credential generation used) (\<lambda>_. own_sends r)"
  by (auto simp: renew_def intro!: own_then asks split: sum.split)

lemma handle_sends: "follows again (\<lambda>_. own_sends r) \<Longrightarrow> follows (handle_sent w r n a generation used again req sent) (\<lambda>_. own_sends r)"
  by (auto simp: handle_sent_def failure_sends response_sends intro!: own_then renew_sends asks split: sent_answer.split option.split)

lemma snapshot_sends:
  "follows (snapshot w r) (\<lambda>ended asked. own_sends r asked \<and> (\<forall>a g u. ended = Inr (a, g, u) \<longrightarrow> a \<noteq> None \<longrightarrow> rq_credential r \<noteq> None))"
  by (auto simp: snapshot_def intro!: asks split: option.split)

lemma attempts_send: "follows (authentication_attempts w r n tries requests) (\<lambda>_. own_sends r)"
proof (induction tries arbitrary: requests)
  case (Cons a tries)
  have "follows (case checked_add requests 1 of
         None \<Rightarrow> fail_with (Some (network_error (os_urls w) (rq_url r) (Format ''HTTP request count overflow'' [])))
       | Some requests \<Rightarrow> and_then (await w (SendRequest (rq_client r) (rq_url r) authorization) (os_sent w))
             (handle_sent w r n a generation used (authentication_attempts w r n tries requests) requests))
      (\<lambda>_. own_sends r)" if "authorization \<noteq> None \<longrightarrow> rq_credential r \<noteq> None" for authorization generation used
    using that by (auto intro!: asks own_then handle_sends Cons.IH split: option.split)
  note later = this
  show ?case
    unfolding authentication_attempts.simps
    by (rule follows_then [OF snapshot_sends]) (auto intro!: follows_weaken [OF later] split: prod.split)
qed (auto intro: asks)

lemma network_sends: "follows (network_attempts w r tries requests) (\<lambda>_. own_sends r)"
  by (induction tries arbitrary: requests) (auto intro!: asks own_then attempts_send split: attempt_end.split simp del: authentication_attempts.simps)

lemma request_sends: "follows (send_authenticated h w source address operation) (\<lambda>_. own_sends (request_to h source address operation))"
  unfolding send_authenticated_def send_with_policy_def
  by (auto simp: take_permit_def intro!: own_then asks network_sends split: option.split)

end
