(* ===== verification/Http_Sources.thy ===== *)
theory Http_Sources
  imports Http_Facts
begin

text \<open>
  The credentials of all sources together with the sending of requests: the bounds of every request
  under any configuration, the origin that secrets of a source are confined to, and the policy that
  applies to a source.
\<close>

section \<open>What the environment can ask for\<close>

lemma parsed_or_holds: "p d \<Longrightarrow> p (parsed_or p parse d value)"
  by (auto simp: parsed_or_def unwrap_or_def keep_if_def split: option.split)

definition policy_ok :: "http_policy \<Rightarrow> bool" where
  "policy_ok policy \<longleftrightarrow> 1 \<le> unat (hp_max_tries policy) \<and> unat (hp_max_tries policy) \<le> MAX_NETWORK_TRIES
     \<and> unat (hp_max_retry_after_seconds policy) \<le> MAX_RETRY_AFTER_SECONDS"

lemma unat_small: "n < 2 ^ LENGTH('w::len) \<Longrightarrow> unat (of_nat n :: 'w word) = n"
  by (simp add: unat_of_nat)

lemma default_policy_ok: "policy_ok DEFAULT_HTTP_POLICY"
  by (simp add: policy_ok_def DEFAULT_HTTP_POLICY_def MAX_NETWORK_TRIES_def MAX_RETRY_AFTER_SECONDS_def)

lemma effective_policy_ok: "policy_ok (with_source_security sources (effective_http_policy_with merged proxy environment))"
proof -
  let ?t = "parsed_or (\<lambda>value. 1 \<le> value \<and> value \<le> MAX_NETWORK_TRIES) (parse_uint (2 ^ 8))
    (unat (hp_max_tries DEFAULT_HTTP_POLICY)) (environment ''NUGET_ENHANCED_MAX_NETWORK_TRY_COUNT'')"
  let ?a = "parsed_or (\<lambda>value. value \<le> MAX_RETRY_AFTER_SECONDS) (parse_uint (2 ^ 32))
    (unat (hp_max_retry_after_seconds DEFAULT_HTTP_POLICY)) (environment ''NUGET_MAX_RETRY_AFTER_DELAY_SECONDS'')"
  have t: "1 \<le> ?t \<and> ?t \<le> MAX_NETWORK_TRIES"
    by (rule parsed_or_holds) (simp add: DEFAULT_HTTP_POLICY_def MAX_NETWORK_TRIES_def)
  have a: "?a \<le> MAX_RETRY_AFTER_SECONDS"
    by (rule parsed_or_holds) (simp add: DEFAULT_HTTP_POLICY_def MAX_RETRY_AFTER_SECONDS_def)
  have "unat (of_nat ?t :: u8) = ?t" using t by (intro unat_small) (simp add: MAX_NETWORK_TRIES_def)
  moreover have "unat (of_nat ?a :: u32) = ?a" using a by (intro unat_small) (simp add: MAX_RETRY_AFTER_SECONDS_def)
  ultimately show ?thesis using t a
    by (simp add: policy_ok_def with_source_security_def effective_http_policy_with_def Let_def)
qed

section \<open>The entries of a batch\<close>

lemma indexed_fold:
  assumes "try_fold f s (zip [0..<length xs] xs) = Inr t" and "P 0 s"
    and "\<And>i s s'. i < length xs \<Longrightarrow> P i s \<Longrightarrow> f s (i, xs ! i) = Inr s' \<Longrightarrow> P (Suc i) s'"
  shows "P (length xs) t"
  using assms
proof (induction xs arbitrary: t rule: rev_induct)
  case (snoc x xs)
  obtain u where u: "try_fold f s (zip [0..<length xs] xs) = Inr u" "f u (length xs, x) = Inr t"
    using snoc.prems(1) by (auto simp: try_fold_append rbind_eq_Inr)
  have "P (length xs) u"
  proof (rule snoc.IH [OF u(1) snoc.prems(2)])
    fix i s s'
    assume "i < length xs" "P i s" "f s (i, xs ! i) = Inr s'"
    then show "P (Suc i) s'" using snoc.prems(3) [of i s s'] by (simp add: nth_append)
  qed
  then show ?case using snoc.prems(3) [of "length xs" u t] u(2) by simp
qed simp

definition entry_ok :: "('p, 'io, 'u) nuget_host \<Rightarrow> string \<Rightarrow> http_policy \<Rightarrow> string \<times> package_source \<Rightarrow> source_credential option \<Rightarrow> bool" where
  "entry_ok h context policy source entry \<longleftrightarrow>
     (case entry of
        None \<Rightarrow> True
      | Some c \<Rightarrow> parse_http_origin h (ps_url (snd source)) context = Inr (sc_origin c)
          \<and> sc_client c \<in> {None, Some (CertificateClient (fst source))}
          \<and> sc_transport_client c \<in> {None, Some (SourceClient (ps_security_flags (snd source)))}
          \<and> sc_http_policy c \<in> {DEFAULT_HTTP_POLICY, policy})"

lemma entry_ok_None [simp]: "entry_ok h context policy source None"
  by (simp add: entry_ok_def)

definition batch_ok :: "('p, 'io, 'u) nuget_host \<Rightarrow> string \<Rightarrow> http_policy \<Rightarrow> (string \<times> package_source) list \<Rightarrow> credential_batch \<Rightarrow> bool" where
  "batch_ok h context policy sources entries \<longleftrightarrow>
     length entries \<le> length sources \<and> (\<forall>i < length entries. entry_ok h context policy (sources ! i) (entries ! i))"

lemma plain_entry_ok:
  "parse_http_origin h (ps_url (snd source)) context = Inr origin \<Longrightarrow>
    entry_ok h context policy source (Some ((plain_credential origin flags)\<lparr>sc_authorization := a, sc_provider := p\<rparr>))"
  by (simp add: entry_ok_def plain_credential_def)

lemma source_entry_ok:
  "source_entry h provider context (snd source) authorization = Inr entry \<Longrightarrow> entry_ok h context policy source entry"
  by (auto simp: source_entry_def rbind_eq_Inr plain_entry_ok split: if_splits)

definition pushed_ok :: "('p, 'io, 'u) nuget_host \<Rightarrow> string \<Rightarrow> http_policy \<Rightarrow> (string \<times> package_source) list \<Rightarrow> nat \<Rightarrow> credential_batch option \<Rightarrow> bool" where
  "pushed_ok h context policy sources k entries \<longleftrightarrow> (\<forall>es. entries = Some es \<longrightarrow>
    length es = k \<and> (\<forall>i < k. entry_ok h context policy (sources ! i) (es ! i)))"

lemma push_entry_ok:
  assumes "pushed_ok h context policy sources i entries" and "entry_ok h context policy (sources ! i) entry"
  shows "pushed_ok h context policy sources (Suc i) (push_entry i entry entries)"
  using assms by (auto simp: pushed_ok_def push_entry_def nth_append less_Suc_eq split: if_splits)

lemma resolved_ok:
  assumes "resolve_source_credentials_with h t environment provider context sources configured = Inr batch"
  shows "batch_ok h context policy sources batch"
proof -
  let ?P = "\<lambda>k st. pushed_ok h context policy sources k (snd st)"
  obtain left entries where fold: "try_fold (resolve_step h t environment provider context) (configured, None)
      (zip [0..<length sources] sources) = Inr (left, entries)" and batch: "batch = (case entries of None \<Rightarrow> [] | Some es \<Rightarrow> es)"
    using assms by (auto simp: resolve_source_credentials_with_def rbind_eq_Inr)
  have "?P (length sources) (left, entries)"
  proof (rule indexed_fold [where P = ?P, OF fold])
    fix i and s s' :: "source_login list \<times> credential_batch option"
    assume P: "?P i s" and step: "resolve_step h t environment provider context s (i, sources ! i) = Inr s'"
    show "?P (Suc i) s'"
    proof (cases "ps_protocol (snd (sources ! i)) = LocalFeed")
      case True
      then have "s' = (fst s, push_entry i None (snd s))" using step by (auto simp: resolve_step_def split: prod.splits)
      then show ?thesis using push_entry_ok [OF P entry_ok_None] by simp
    next
      case False
      then obtain authorization credential where "source_entry h provider context (snd (sources ! i)) authorization = Inr credential"
        "snd s' = push_entry i credential (snd s)"
        using step by (auto simp: resolve_step_def rbind_eq_Inr split: prod.splits)
      then show ?thesis using push_entry_ok [OF P source_entry_ok] by simp
    qed
  qed (simp add: pushed_ok_def)
  then show ?thesis using batch by (auto simp: batch_ok_def pushed_ok_def split: option.splits)
qed

lemma resized_ok:
  assumes "batch_ok h context policy sources entries"
  shows "batch_ok h context policy sources (resize_batch (length sources) entries)"
    and "length (resize_batch (length sources) entries) = length sources"
  using assms by (auto simp: batch_ok_def resize_batch_def nth_append)

lemma update_ok:
  assumes "batch_ok h context policy sources entries" and "entry_ok h context policy (sources ! i) entry"
  shows "batch_ok h context policy sources (entries[i := entry])"
proof -
  have "entry_ok h context policy (sources ! j) (entries[i := entry] ! j)" if "j < length entries" for j
    using assms that by (cases "j = i") (auto simp: batch_ok_def)
  then show ?thesis using assms(1) by (simp add: batch_ok_def)
qed

definition full_batch :: "('p, 'io, 'u) nuget_host \<Rightarrow> string \<Rightarrow> http_policy \<Rightarrow> (string \<times> package_source) list \<Rightarrow> credential_batch \<Rightarrow> bool" where
  "full_batch h context policy sources entries \<longleftrightarrow>
     batch_ok h context policy sources entries \<and> length entries = length sources"

lemma full_batch_entry: "full_batch h context policy sources entries \<Longrightarrow> i < length sources \<Longrightarrow> entry_ok h context policy (sources ! i) (entries ! i)"
  by (simp add: full_batch_def batch_ok_def)

lemma full_batch_update:
  "full_batch h context policy sources entries \<Longrightarrow> entry_ok h context policy (sources ! i) entry \<Longrightarrow>
    full_batch h context policy sources (entries[i := entry])"
  by (simp add: full_batch_def update_ok)

lemma certificate_step_ok:
  assumes "certificate_step h t context certificates entries (i, sources ! i) = Inr entries'" and "i < length sources"
    and "full_batch h context policy sources entries"
  shows "full_batch h context policy sources entries'"
proof -
  obtain name source where source: "sources ! i = (name, source)" by (cases "sources ! i")
  have entry: "entry_ok h context policy (name, source) (entries ! i)"
    using full_batch_entry [OF assms(3,2)] source by simp
  show ?thesis using assms(1,3) source entry
    by (auto simp: certificate_step_def rbind_eq_Inr entry_ok_def plain_credential_def intro!: full_batch_update
        split: if_splits option.splits)
qed

lemma full_fold:
  assumes "try_fold step (resize_batch (length sources) entries) (zip [0..<length sources] sources) = Inr entries'"
    and "batch_ok h context policy sources entries"
    and "\<And>i es es'. step es (i, sources ! i) = Inr es' \<Longrightarrow> i < length sources \<Longrightarrow> full_batch h context policy sources es \<Longrightarrow>
      full_batch h context policy sources es'"
  shows "full_batch h context policy sources entries'"
proof (rule indexed_fold [where P = "\<lambda>_. full_batch h context policy sources", OF assms(1)])
  show "full_batch h context policy sources (resize_batch (length sources) entries)"
    using resized_ok [OF assms(2)] by (simp add: full_batch_def)
qed (rule assms(3))

lemma certificates_ok:
  assumes "attach_client_certificates h t context sources certificates entries = Inr entries'"
    and "batch_ok h context policy sources entries"
  shows "batch_ok h context policy sources entries'"
proof -
  have "full_batch h context policy sources entries'"
    if "try_fold (certificate_step h t context certificates) (resize_batch (length sources) entries)
      (zip [0..<length sources] sources) = Inr entries'"
    by (rule full_fold [OF that assms(2)]) (rule certificate_step_ok)
  then show ?thesis using assms
    by (auto simp: attach_client_certificates_def full_batch_def split: if_splits option.splits)
qed

lemma policy_step_ok:
  assumes "policy_step h t context policy budget entries (i, sources ! i) = Inr entries'" and "i < length sources"
    and "full_batch h context policy sources entries"
  shows "full_batch h context policy sources entries'"
proof -
  obtain name source where source: "sources ! i = (name, source)" by (cases "sources ! i")
  have entry: "entry_ok h context policy (name, source) (entries ! i)"
    using full_batch_entry [OF assms(3,2)] source by simp
  show ?thesis using assms(1,3) source entry
    by (auto simp: policy_step_def rbind_eq_Inr entry_ok_def plain_credential_def Let_def intro!: full_batch_update
        split: if_splits option.splits)
qed

lemma credentials_ok:
  assumes "source_credentials h t environment provider context sources logins certificates policy budget = Inr batch"
  shows "batch_ok h context policy sources batch"
proof -
  obtain resolved certified where steps: "resolve_source_credentials_with h t environment provider context sources logins = Inr resolved"
    "attach_client_certificates h t context sources certificates resolved = Inr certified"
    "attach_http_policy h t context sources policy budget certified = Inr batch"
    using assms by (auto simp: source_credentials_def rbind_eq_Inr)
  have certified: "batch_ok h context policy sources certified"
    by (rule certificates_ok [OF steps(2) resolved_ok [OF steps(1)]])
  have "full_batch h context policy sources batch"
    if "try_fold (policy_step h t context policy budget) (resize_batch (length sources) certified)
      (zip [0..<length sources] sources) = Inr batch"
    by (rule full_fold [OF that certified]) (rule policy_step_ok)
  then show ?thesis using steps(3) certified
    by (auto simp: attach_http_policy_def full_batch_def split: if_splits)
qed

lemma source_policy:
  assumes "source_credentials h t environment provider context sources logins certificates policy budget = Inr batch"
  shows "rq_policy (request_to h (batch_get batch i) address operation) \<in> {DEFAULT_HTTP_POLICY, policy}"
  using credentials_ok [OF assms]
  by (fastforce simp: request_to_def batch_get_def batch_ok_def entry_ok_def Let_def split: option.split)


section \<open>Requests are bounded\<close>

text \<open>The policy and budget of a configuration and environment, as \<open>discover_configuration\<close> computes them.\<close>

definition configured_credentials :: "('p, 'io, 'u) nuget_host \<Rightarrow> 'p secret_tools \<Rightarrow> environment \<Rightarrow> bool \<Rightarrow> string \<Rightarrow>
    (string \<times> package_source) list \<Rightarrow> 'p config_merge \<Rightarrow> proxy_settings option \<Rightarrow> package_error option + credential_batch" where
  "configured_credentials h t environment provider_configured context sources merged proxy =
     source_credentials h t environment provider_configured context sources (cm_credentials merged) (cm_client_certificates merged)
       (with_source_security sources (effective_http_policy_with merged proxy environment))
       (effective_request_budget_with environment)"

text \<open>C21: every request to a package source is bounded, whatever the configuration, the environment and
  the answers of the network. It never reaches the unreachable code after the retry loop; it tries the
  network at most 32 times and sends at most three requests in each try; it sleeps less often than it
  tries, never longer than the configured maximum of at most a day; the count it reports is that of the
  requests it sent; and an answer that calls for a retry is only returned from the last try.\<close>

theorem requests_bounded:
  assumes "configured_credentials h t environment provider_configured context sources merged proxy = Inr batch"
  shows "\<exists>asked tries.
     snd (send_authenticated h w (batch_get batch i) address operation history) = history @ asked
   \<and> tries = unat (hp_max_tries (rq_policy (request_to h (batch_get batch i) address operation)))
   \<and> 1 \<le> tries \<and> tries \<le> 32 \<and> sends asked \<le> 3 * tries \<and> length (sleeps asked) < tries
   \<and> (\<forall>ms \<in> set (sleeps asked). ms \<le> 86400000)
   \<and> (case fst (send_authenticated h w (batch_get batch i) address operation history) of
        Inl e \<Rightarrow> e \<noteq> None
      | Inr (response, n) \<Rightarrow> unat n = sends asked
          \<and> (retryable_status (rs_status response) (rq_policy (request_to h (batch_get batch i) address operation))
               \<longrightarrow> length (sleeps asked) + 1 = tries))"
proof -
  let ?r = "request_to h (batch_get batch i) address operation"
  let ?send = "send_authenticated h w (batch_get batch i) address operation history"
  have ok: "policy_ok (rq_policy ?r)"
    using source_policy [OF assms [unfolded configured_credentials_def], of i address operation] default_policy_ok effective_policy_ok
    by auto
  then have tries: "1 \<le> unat (hp_max_tries (rq_policy ?r))" "unat (hp_max_tries (rq_policy ?r)) \<le> 32"
    and wait: "longest_wait (rq_policy ?r) \<le> 86400000"
    by (simp_all add: policy_ok_def MAX_NETWORK_TRIES_def MAX_RETRY_AFTER_SECONDS_def longest_wait_def)
  have "follows (send_authenticated h w (batch_get batch i) address operation)
      (network_ok ?r (unat (hp_max_tries (rq_policy ?r))) 0)"
    by (rule request_ok) (use tries in simp_all)
  then obtain asked where asked: "snd ?send = history @ asked"
    "network_ok ?r (unat (hp_max_tries (rq_policy ?r))) 0 (fst ?send) asked"
    unfolding follows_def by blast
  have short: "\<forall>ms \<in> set (sleeps asked). ms \<le> 86400000"
    using asked(2) wait by (auto simp: network_ok_def)
  have ended: "case fst ?send of Inl e \<Rightarrow> e \<noteq> None
      | Inr (response, n) \<Rightarrow> unat n = sends asked
          \<and> (retryable_status (rs_status response) (rq_policy ?r) \<longrightarrow> length (sleeps asked) + 1 = unat (hp_max_tries (rq_policy ?r)))"
    using asked(2) by (auto simp: network_ok_def split: sum.split)
  show ?thesis using asked tries short ended
    by (intro exI [of _ asked] exI [of _ "unat (hp_max_tries (rq_policy ?r))"]) (simp add: network_ok_def)
qed



section \<open>The policy that applies\<close>

text \<open>What a request to a source uses: its policy as far as sending goes, and the limits of its permits.\<close>

definition sending_policy :: "http_policy \<Rightarrow> nat \<times> nat \<times> nat \<times> bool \<times> bool" where
  "sending_policy policy = (unat (hp_max_tries policy), unat (hp_retry_delay_ms policy), unat (hp_max_retry_after_seconds policy),
     retries_http_429 policy, observes_retry_after policy)"

definition applied :: "http_policy \<Rightarrow> u16 \<Rightarrow> string \<times> package_source \<Rightarrow> source_credential option \<Rightarrow> bool" where
  "applied policy budget source entry \<longleftrightarrow>
     (case entry of
        None \<Rightarrow> \<not> runtime_changed policy budget \<and> ps_security_flags (snd source) = 0
      | Some c \<Rightarrow> sc_http_policy c = policy
          \<and> sc_source_limiter c = (let limit = effective_request_limit policy (unat budget)
              in if limit < unat budget then Some limit else None)
          \<and> sc_global_limiter c = (if unat budget < MAX_DOWNLOAD_WORKERS then Some (unat budget) else None)
          \<and> sc_transport_client c = (if ps_security_flags (snd source) = 0 then None
              else Some (SourceClient (ps_security_flags (snd source)))))"

lemma policy_step_applied:
  assumes "policy_step h t context policy budget entries (i, sources ! i) = Inr entries'" and "i < length entries"
  shows "length entries' = length entries"
    and "ps_protocol (snd (sources ! i)) \<noteq> LocalFeed \<Longrightarrow> applied policy budget (sources ! i) (entries' ! i)"
    and "j \<noteq> i \<Longrightarrow> entries' ! j = entries ! j"
  using assms
  by (auto simp: policy_step_def applied_def rbind_eq_Inr Let_def split: prod.splits if_splits option.splits)

lemma policy_applied:
  assumes "attach_http_policy h t context sources policy budget entries = Inr batch" and "length entries \<le> length sources"
    and "i < length sources" and "ps_protocol (snd (sources ! i)) \<noteq> LocalFeed"
  shows "applied policy budget (sources ! i) (batch_get batch i)"
proof (cases "entries = [] \<and> \<not> runtime_changed policy budget \<and> \<not> list_ex (\<lambda>(_, source). ps_security_flags source \<noteq> 0) sources")
  case True
  then have "ps_security_flags (snd source) = 0" if "source \<in> set sources" for source
    using that by (cases source) (auto simp: list_ex_iff)
  then show ?thesis using True assms(1) nth_mem [OF assms(3)]
    by (simp add: attach_http_policy_def applied_def batch_get_def)
next
  case False
  let ?P = "\<lambda>k es. length es = length sources
    \<and> (\<forall>j < k. ps_protocol (snd (sources ! j)) \<noteq> LocalFeed \<longrightarrow> applied policy budget (sources ! j) (es ! j))"
  have "?P (length sources) batch"
  proof (rule indexed_fold [where P = ?P])
    show "try_fold (policy_step h t context policy budget) (resize_batch (length sources) entries)
        (zip [0..<length sources] sources) = Inr batch"
      using assms(1) False by (auto simp: attach_http_policy_def split: if_splits)
    show "?P 0 (resize_batch (length sources) entries)" using assms(2) by (simp add: resize_batch_def)
    show "?P (Suc k) es'" if "k < length sources" "?P k es" "policy_step h t context policy budget es (k, sources ! k) = Inr es'"
      for k es es'
    proof -
      have "k < length es" using that by simp
      note step = policy_step_applied [OF that(3) this]
      show ?thesis using that(2) step by (auto simp: less_Suc_eq)
    qed
  qed
  then show ?thesis using assms(3,4) by (simp add: batch_get_def)
qed

lemma unchanged_policy:
  assumes "\<not> runtime_changed policy budget"
  shows "sending_policy policy = sending_policy DEFAULT_HTTP_POLICY"
    and "effective_request_limit policy (unat budget) = unat budget" and "MAX_DOWNLOAD_WORKERS \<le> unat budget"
proof -
  have flags: "(hp_flags policy XOR hp_flags DEFAULT_HTTP_POLICY) AND (HTTP_RETRY_429 OR HTTP_OBSERVE_RETRY_AFTER) = 0"
    using assms by (simp add: runtime_changed_def)
  have bits: "bit (hp_flags policy) n = bit (hp_flags DEFAULT_HTTP_POLICY) n"
    if "bit (HTTP_RETRY_429 OR HTTP_OBSERVE_RETRY_AFTER) n" for n
  proof -
    have "bit ((hp_flags policy XOR hp_flags DEFAULT_HTTP_POLICY) AND (HTTP_RETRY_429 OR HTTP_OBSERVE_RETRY_AFTER)) n \<longleftrightarrow> False"
      using flags by simp
    then show ?thesis using that unfolding bit_and_iff bit_xor_iff by blast
  qed
  have same: "hp_flags policy AND HTTP_RETRY_429 = hp_flags DEFAULT_HTTP_POLICY AND HTTP_RETRY_429"
    "hp_flags policy AND HTTP_OBSERVE_RETRY_AFTER = hp_flags DEFAULT_HTTP_POLICY AND HTTP_OBSERVE_RETRY_AFTER"
    by (rule bit_eqI; use bits in \<open>auto simp: bit_and_iff bit_or_iff\<close>)+
  show "sending_policy policy = sending_policy DEFAULT_HTTP_POLICY"
    using assms same by (simp add: runtime_changed_def sending_policy_def retries_http_429_def observes_retry_after_def has_flag_def)
  show "effective_request_limit policy (unat budget) = unat budget" and "MAX_DOWNLOAD_WORKERS \<le> unat budget"
    using assms by (auto simp: runtime_changed_def effective_request_limit_def Let_def split: if_splits)
qed



section \<open>An example\<close>

definition example_urls :: "string source_urls" where
  "example_urls = \<lparr>url_lib = \<lparr>url_parse = Some, set_username = (\<lambda>u _. Some u), set_password = (\<lambda>u _. Some u),
       set_query = (\<lambda>u _. u), set_fragment = (\<lambda>u _. u), url_text = (\<lambda>u. u)\<rparr>, url_error = (\<lambda>s. s), url_scheme = (\<lambda>_. ''https''),
     url_host = (\<lambda>u. Some (take 1 u)), url_username = (\<lambda>_. []), url_password = (\<lambda>_. None), url_port = (\<lambda>_. Some 443), url_same = (=)\<rparr>"

definition example_host :: "(string, unit, string) nuget_host" where
  "example_host = \<lparr>path_of = (\<lambda>s. s), path_join = (@), path_parent = (\<lambda>_. None), path_text = (\<lambda>s. s),
     path_is_absolute = (\<lambda>_. True), canonicalize = Inr, is_file = (\<lambda>_. True), is_dir = (\<lambda>_. False),
     read_dir = (\<lambda>_. Inl ()), read_file = (\<lambda>_. Inr []), not_found = (\<lambda>_. True), env_var = (\<lambda>_. None),
     split_paths = (\<lambda>s. [s]), registered_root = (\<lambda>_. None), arch_const = [], exe_suffix = [], cfg_windows = False,
     cfg_macos = False, urls = example_urls,
     url_file_path = (\<lambda>_. None), path_str = Some, path_join_path = (@), env_os = (\<lambda>_. None), io_text = (\<lambda>_. [])\<rparr>"

definition example_tools :: "string secret_tools" where
  "example_tools = \<lparr>st_base64 = (\<lambda>s. s), st_header_ok = (\<lambda>_. True), st_decrypt = (\<lambda>_ p _. Inr p),
     st_certificate_client = (\<lambda>_ _. Inr ()), st_source_client = (\<lambda>_. Inr ())\<rparr>"

definition example_sources :: "(string \<times> package_source) list" where
  "example_sources = [(''a'', \<lparr>ps_url = ''a/feed'', ps_protocol = V3, ps_security_flags = 0\<rparr>)]"

definition example_merge :: "string config_merge" where
  "example_merge = default_merge\<lparr>cm_credentials := [\<lparr>sl_source = ''a'', sl_username = ''u'', sl_password = ClearPassword ''p'',
     sl_valid_authentication_types = None\<rparr>]\<rparr>"

definition example_outside :: "string outside" where
  "example_outside = \<lparr>os_urls = url_lib example_urls, os_cancelled = (\<lambda>_. False), os_limiter_closed = (\<lambda>_. False),
     os_provider = (\<lambda>_. \<lparr>pr_authorization = None, pr_provider_index = None, pr_generation = 0\<rparr>), os_acquire = (\<lambda>_. Inr None),
     os_sent = (\<lambda>_. Responded \<lparr>rs_status = 200, rs_retry_after = None, rs_content_length = None\<rparr>),
     os_now = length, os_elapsed_us = length, os_http_date = (\<lambda>_. None)\<rparr>"

definition example_credential :: "http_policy \<Rightarrow> source_credential" where
  "example_credential policy = (plain_credential \<lparr>ho_host = ''a'', ho_port = 443, ho_secure = True\<rparr> 0)
     \<lparr>sc_authorization := Some ''Basic u:p'', sc_http_policy := policy\<rparr>"

lemma example_batch:
  assumes "effective_request_limit policy 24 = 24"
  shows "source_credentials example_host example_tools (\<lambda>_. None) False ''.'' example_sources (cm_credentials example_merge)
    (cm_client_certificates example_merge) policy 24 = Inr [Some (example_credential policy)]"
  using assms
  by (simp add: source_credentials_def resolve_source_credentials_with_def resolve_step_def push_entry_def source_entry_def
      source_authorization_def environment_source_credential_def find_position_def materialize_source_credential_def
      stored_secret_def allows_basic_def basic_authorization_def example_tools_def parse_http_origin_def parse_url_def
      example_host_def example_urls_def example_sources_def example_merge_def default_merge_def attach_client_certificates_def
      attach_http_policy_def policy_step_def resize_batch_def example_credential_def plain_credential_def as_failure_def
      swap_remove_def MAX_DOWNLOAD_WORKERS_def Let_def str_eval)


abbreviation example_policy :: http_policy where
  "example_policy \<equiv> with_source_security example_sources (effective_http_policy_with example_merge None (\<lambda>_. None))"

lemma example_limit: "effective_request_limit example_policy 24 = 24"
  by (simp add: effective_request_limit_def with_source_security_def effective_http_policy_with_def parsed_or_def unwrap_or_def
      keep_if_def example_merge_def default_merge_def DEFAULT_MAX_HTTP_REQUESTS_PER_SOURCE_def Let_def)

lemma example_configured:
  "configured_credentials example_host example_tools (\<lambda>_. None) False ''.'' example_sources example_merge None
     = Inr [Some (example_credential example_policy)]"
  using example_batch [OF example_limit]
  by (simp add: configured_credentials_def effective_request_budget_with_def keep_if_def DEFAULT_GLOBAL_NETWORK_REQUESTS_def
      MAX_DOWNLOAD_WORKERS_def)

lemma example_matches: "origin_matches example_host \<lparr>ho_host = ''a'', ho_port = 443, ho_secure = True\<rparr> ''a/x''"
  by (simp add: origin_matches_def parse_url_def example_host_def example_urls_def str_eval)

lemma example_tries: "unat (hp_max_tries example_policy) = 6"
  by (simp add: with_source_security_def effective_http_policy_with_def parsed_or_def unwrap_or_def keep_if_def
      DEFAULT_HTTP_POLICY_def Let_def)

lemma example_sent:
  "send_authenticated example_host example_outside (Some (example_credential example_policy)) ''a/x'' ''read'' []
     = (Inr (\<lparr>rs_status = 200, rs_retry_after = None, rs_content_length = None\<rparr>, 1),
        [Snapshot, SendRequest SharedClient ''a/x'' (Some ''Basic u:p'')])"
proof -
  have "request_to example_host (Some (example_credential example_policy)) ''a/x'' ''read''
      = \<lparr>rq_client = SharedClient, rq_credential = Some (example_credential example_policy), rq_url = ''a/x'',
         rq_operation = ''read'', rq_policy = example_policy\<rparr>"
    using example_matches by (simp add: request_to_def example_credential_def plain_credential_def)
  then show ?thesis
    by (simp add: send_authenticated_def and_then_def check_package_cancellation_def example_outside_def take_permit_def give_def
        example_credential_def plain_credential_def send_with_policy_def example_tries upt_conv_Cons snapshot_def await_def
        authorization_snapshot_def checked_add_def handle_sent_def handle_response_def retryable_status_def Let_def)
qed

theorem requests_bounded_witness:
  "\<exists>batch asked. configured_credentials example_host example_tools (\<lambda>_. None) False ''.'' example_sources example_merge None = Inr batch
     \<and> snd (send_authenticated example_host example_outside (batch_get batch 0) ''a/x'' ''read'' []) = asked
     \<and> sends asked = 1 \<and> sends asked \<le> 96 \<and> length (sleeps asked) < 32"
proof -
  let ?batch = "[Some (example_credential example_policy)]"
  obtain asked tries where asked: "snd (send_authenticated example_host example_outside (batch_get ?batch 0) ''a/x'' ''read'' []) = asked"
    "tries \<le> 32" "sends asked \<le> 3 * tries" "length (sleeps asked) < tries"
    using requests_bounded [OF example_configured, of example_outside 0 "''a/x''" "''read''" "[]"] by auto
  moreover have "sends asked = 1" using asked(1) example_sent by (auto simp: batch_get_def)
  ultimately show ?thesis using example_configured by (intro exI [of _ ?batch] exI [of _ asked]) simp
qed



end
