(* ===== verification/Http_Bodies.thy ===== *)
theory Http_Bodies
  imports Http_Sources
begin

text \<open>
  \<open>crates/dv-core/src/package.rs\<close>: reading the body of an answer, within a limit. The chunks of the body
  are an argument, a function of what was asked so far; SHA-512 and Base64 are arguments as well.
\<close>

section \<open>Chunks\<close>

datatype chunk_answer = Chunk string | ChunkFailed string | ChunkStalled | ChunkCancelled

definition chunk_error :: "'u url_library \<Rightarrow> request \<Rightarrow> string \<Rightarrow> chunk_answer \<Rightarrow> package_error" where
  "chunk_error lib r kind answer =
     (case answer of
        ChunkFailed e \<Rightarrow> network_error lib (rq_url r) (Format ''read {kind} response: {error}'' [kind, e])
      | ChunkStalled \<Rightarrow> network_error lib (rq_url r) (Format ''{kind} response stalled for {} seconds''
          [kind, show_nat (unat (hp_download_timeout_seconds (rq_policy r)))])
      | _ \<Rightarrow> package_cancelled_error)"

text \<open>Bytes are kept while they fit; \<open>work\<close> is the accounting of a number of bytes.\<close>

primrec read_chunks :: "'u url_library \<Rightarrow> request \<Rightarrow> nat \<Rightarrow> string \<Rightarrow> (nat \<Rightarrow> http_work) \<Rightarrow> chunk_answer list \<Rightarrow> string \<Rightarrow>
    package_error + string" where
  "read_chunks lib r limit kind work [] bytes = Inr bytes"
| "read_chunks lib r limit kind work (answer # rest) bytes =
     (case answer of
        Chunk chunk \<Rightarrow>
          if length bytes + length chunk \<le> limit then read_chunks lib r limit kind work rest (bytes @ chunk)
          else Inl (with_http_work (work (min (length bytes + length chunk) (2 ^ 64 - 1)))
            (network_error lib (rq_url r) (Format ''{kind} response exceeds the {limit} byte limit'' [kind, show_nat limit])))
      | _ \<Rightarrow> Inl (with_http_work (work (length bytes)) (chunk_error lib r kind answer)))"

definition is_error_status :: "nat \<Rightarrow> bool" where
  "is_error_status status \<longleftrightarrow> 400 \<le> status \<and> status < 600"

record 'a http_payload =
  payload :: 'a
  payload_work :: http_work

type_synonym http_body = "net_action list \<Rightarrow> chunk_answer list"

text \<open>What follows an answer that is not \<open>404\<close>, or of which \<open>404\<close> is an error as well.\<close>

definition receive :: "'u outside \<Rightarrow> http_body \<Rightarrow> request \<Rightarrow> nat \<Rightarrow> string \<Rightarrow> http_response \<times> u32 \<Rightarrow> string http_payload transport" where
  "receive w body r limit kind answer history =
     (let (response, requests) = answer;
          work = (\<lambda>bytes. transport_work w history bytes requests)
      in (if is_error_status (rs_status response) then
            Inl (Some (with_http_work (work 0) (network_error (os_urls w) (rq_url r)
              (Format ''HTTP request failed: {error}'' [show_nat (rs_status response)]))))
          else if (case rs_content_length response of None \<Rightarrow> False | Some n \<Rightarrow> limit < n) then
            Inl (Some (with_http_work (work 0) (network_error (os_urls w) (rq_url r)
              (Format ''{kind} response exceeds the {limit} byte limit'' [kind, show_nat limit]))))
          else case read_chunks (os_urls w) r limit kind work (body history) [] of
            Inl e \<Rightarrow> Inl (Some e)
          | Inr bytes \<Rightarrow> Inr \<lparr>payload = bytes, payload_work = work (length bytes)\<rparr>, history))"

definition get_bytes :: "('p, 'io, 'u) nuget_host \<Rightarrow> 'u outside \<Rightarrow> http_body \<Rightarrow> source_credential option \<Rightarrow> string \<Rightarrow> nat \<Rightarrow> string \<Rightarrow>
    string http_payload transport" where
  "get_bytes h w body source address limit kind =
     and_then (send_authenticated h w source address ''HTTP request'')
       (receive w body (request_to h source address ''HTTP request'') limit kind)"

definition get_optional_bytes :: "('p, 'io, 'u) nuget_host \<Rightarrow> 'u outside \<Rightarrow> http_body \<Rightarrow> source_credential option \<Rightarrow> string \<Rightarrow> nat \<Rightarrow> string \<Rightarrow>
    string option http_payload transport" where
  "get_optional_bytes h w body source address limit kind =
     and_then (send_authenticated h w source address ''HTTP request'') (\<lambda>answer.
       if rs_status (fst answer) = 404
       then (\<lambda>history. give \<lparr>payload = None, payload_work = transport_work w history 0 (snd answer)\<rparr> history)
       else and_then (receive w body (request_to h source address ''HTTP request'') limit kind answer)
         (\<lambda>p. give \<lparr>payload = Some (payload p), payload_work = payload_work p\<rparr>))"

section \<open>Packages\<close>

definition MAX_PACKAGE_BYTES :: nat where "MAX_PACKAGE_BYTES = 512 * 1024 * 1024"

text \<open>The file the archive is written to: what creating it, its successive writes and the final flush
  report.\<close>

record download_file =
  du_create :: "string option"
  du_write :: "nat \<Rightarrow> string option"
  du_flush :: "string option"
  du_path :: string


definition integrity_error :: "string \<Rightarrow> message \<Rightarrow> package_error" where
  "integrity_error address message = package_error_new Integrity address message"

text \<open>\<open>written\<close> is the file's content, which is also what was hashed.\<close>

primrec download_chunks :: "'u url_library \<Rightarrow> request \<Rightarrow> download_file \<Rightarrow> (nat \<Rightarrow> http_work) \<Rightarrow> nat \<Rightarrow> chunk_answer list \<Rightarrow> string \<Rightarrow>
    package_error + string" where
  "download_chunks lib r file work n [] written = Inr written"
| "download_chunks lib r file work n (answer # rest) written =
     (case answer of
        Chunk chunk \<Rightarrow>
          if MAX_PACKAGE_BYTES < length written + length chunk then
            Inl (integrity_error (rq_url r) (Format ''package response exceeds the download limit'' []))
          else (case du_write file n of
              Some e \<Rightarrow> Inl (package_io (\<lambda>e. e) ''write package archive'' (du_path file) e)
            | None \<Rightarrow> download_chunks lib r file work (n + 1) rest (written @ chunk))
      | _ \<Rightarrow> Inl (with_http_work (work (length written)) (chunk_error lib r ''package'' answer)))"

record download =
  dl_content :: string
  dl_hash :: string
  dl_work :: http_work

definition receive_package :: "(string \<Rightarrow> string) \<Rightarrow> 'u outside \<Rightarrow> http_body \<Rightarrow> request \<Rightarrow> download_file \<Rightarrow> http_response \<times> u32 \<Rightarrow>
    download transport" where
  "receive_package sha512_base64 w body r file answer history =
     (let (response, requests) = answer;
          work = (\<lambda>bytes. transport_work w history bytes requests)
      in (if is_error_status (rs_status response) then
            Inl (Some (with_http_work (work 0) (network_error (os_urls w) (rq_url r)
              (Format ''package download failed: {error}'' [show_nat (rs_status response)]))))
          else if (case rs_content_length response of None \<Rightarrow> False | Some n \<Rightarrow> MAX_PACKAGE_BYTES < n) then
            Inl (Some (integrity_error (rq_url r) (Format ''package Content-Length exceeds the {} byte limit'' [show_nat MAX_PACKAGE_BYTES])))
          else case du_create file of
            Some e \<Rightarrow> Inl (Some (package_io (\<lambda>e. e) ''create package archive'' (du_path file) e))
          | None \<Rightarrow> (case download_chunks (os_urls w) r file work 0 (body history) [] of
              Inl e \<Rightarrow> Inl (Some e)
            | Inr content \<Rightarrow> (case du_flush file of
                Some e \<Rightarrow> Inl (Some (package_io (\<lambda>e. e) ''flush package archive'' (du_path file) e))
              | None \<Rightarrow>
                  if (case rs_content_length response of None \<Rightarrow> False | Some n \<Rightarrow> length content \<noteq> n) then
                    Inl (Some (integrity_error (rq_url r) (Format ''package response body has {total} bytes but Content-Length declared {expected}''
                      [show_nat (length content), show_nat (unwrap_or 0 (rs_content_length response))])))
                  else Inr \<lparr>dl_content = content, dl_hash = sha512_base64 content, dl_work = work (length content)\<rparr>)), history))"

definition download_package :: "(string \<Rightarrow> string) \<Rightarrow> ('p, 'io, 'u) nuget_host \<Rightarrow> 'u outside \<Rightarrow> http_body \<Rightarrow> source_credential option \<Rightarrow>
    string \<Rightarrow> download_file \<Rightarrow> download transport" where
  "download_package sha512_base64 h w body source address file =
     and_then (send_authenticated h w source address ''package download'')
       (receive_package sha512_base64 w body (request_to h source address ''package download'') file)"

section \<open>Whole bodies only\<close>

lemma read_chunks_result:
  assumes "read_chunks lib r limit kind work chunks bytes = Inr content" and "length bytes \<le> limit"
  shows "\<exists>parts. chunks = map Chunk parts \<and> content = bytes @ concat parts \<and> length content \<le> limit"
  using assms
proof (induction chunks arbitrary: bytes)
  case (Cons answer rest)
  then obtain chunk where chunk: "answer = Chunk chunk" "length bytes + length chunk \<le> limit"
    "read_chunks lib r limit kind work rest (bytes @ chunk) = Inr content"
    by (cases answer) (auto split: if_splits)
  obtain parts where "rest = map Chunk parts" "content = (bytes @ chunk) @ concat parts" "length content \<le> limit"
    using Cons.IH [OF chunk(3)] chunk(2) by auto
  then show ?case using chunk(1) by (intro exI [of _ "chunk # parts"]) simp
qed simp

lemma download_chunks_result:
  assumes "download_chunks lib r file work n chunks bytes = Inr content" and "length bytes \<le> MAX_PACKAGE_BYTES"
  shows "\<exists>parts. chunks = map Chunk parts \<and> content = bytes @ concat parts \<and> length content \<le> MAX_PACKAGE_BYTES
    \<and> (\<forall>i < length parts. du_write file (n + i) = None)"
  using assms
proof (induction chunks arbitrary: bytes n)
  case (Cons answer rest)
  then obtain chunk where chunk: "answer = Chunk chunk" "length (bytes @ chunk) \<le> MAX_PACKAGE_BYTES" "du_write file n = None"
    "download_chunks lib r file work (n + 1) rest (bytes @ chunk) = Inr content"
    by (cases answer) (auto split: if_splits option.splits)
  obtain parts where parts: "rest = map Chunk parts" "content = (bytes @ chunk) @ concat parts" "length content \<le> MAX_PACKAGE_BYTES"
    "\<forall>i < length parts. du_write file (n + 1 + i) = None"
    using Cons.IH [OF chunk(4,2)] by auto
  have "du_write file (n + i) = None" if "i < length (chunk # parts)" for i
    using that chunk(3) parts(4) by (cases i) auto
  then show ?case using parts(1-3) chunk(1) by (intro exI [of _ "chunk # parts"]) simp
qed simp

text \<open>What a successful read returns is the whole body, and no more than the limit.\<close>

lemma get_bytes_complete:
  assumes "fst (get_bytes h w body source address limit kind history) = Inr p"
  shows "\<exists>later parts. body later = map Chunk parts \<and> payload p = concat parts \<and> length (payload p) \<le> limit
    \<and> hw_downloaded_bytes (payload_work p) = of_nat (length (payload p))"
proof -
  obtain response requests later where send: "send_authenticated h w source address ''HTTP request'' history = (Inr (response, requests), later)"
    using assms by (auto simp: get_bytes_def and_then_def split: prod.splits sum.splits)
  then obtain content where "read_chunks (os_urls w) (request_to h source address ''HTTP request'') limit kind
      (\<lambda>bytes. transport_work w later bytes requests) (body later) [] = Inr content"
    and p: "p = \<lparr>payload = content, payload_work = transport_work w later (length content) requests\<rparr>"
    using assms by (auto simp: get_bytes_def and_then_def receive_def Let_def split: if_splits sum.splits)
  from read_chunks_result [OF this(1)] p show ?thesis
    by (intro exI [of _ later]) (auto simp: transport_work_def)
qed

text \<open>A package is only accepted whole: every chunk was written and hashed, the length is the declared
  one, if any, and at most the limit.\<close>

lemma download_complete:
  assumes "fst (download_package sha512_base64 h w body source address file history) = Inr d"
  shows "\<exists>later parts. body later = map Chunk parts \<and> dl_content d = concat parts \<and> length (dl_content d) \<le> MAX_PACKAGE_BYTES
    \<and> dl_hash d = sha512_base64 (dl_content d) \<and> (\<forall>i < length parts. du_write file i = None)
    \<and> (\<forall>response n. send_authenticated h w source address ''package download'' history = (Inr (response, n), later) \<longrightarrow>
         rs_content_length response \<in> {None, Some (length (dl_content d))})"
proof -
  obtain response requests later where send: "send_authenticated h w source address ''package download'' history = (Inr (response, requests), later)"
    using assms by (auto simp: download_package_def and_then_def split: prod.splits sum.splits)
  then obtain content where read: "download_chunks (os_urls w) (request_to h source address ''package download'') file
      (\<lambda>bytes. transport_work w later bytes requests) 0 (body later) [] = Inr content"
    and d: "d = \<lparr>dl_content = content, dl_hash = sha512_base64 content, dl_work = transport_work w later (length content) requests\<rparr>"
    and whole: "rs_content_length response \<in> {None, Some (length content)}"
    using assms by (auto simp: download_package_def and_then_def receive_package_def Let_def split: if_splits sum.splits option.splits)
  from download_chunks_result [OF read] obtain parts where "body later = map Chunk parts" "content = concat parts"
    "length content \<le> MAX_PACKAGE_BYTES" "\<forall>i < length parts. du_write file i = None" by auto
  then show ?thesis using send d whole by (intro exI [of _ later] exI [of _ parts]) auto
qed

end
