(* ===== verification/Service_Index.thy ===== *)
theory Service_Index
  imports Http_Bodies Source_Mapping
begin

text \<open>
  \<open>crates/dv-core/src/package.rs\<close>: the service index of a NuGet v3 source. Each capability is served by
  the resources of the first type it knows that any resource offers, in the newest client version this
  program supports. The JSON reader is an argument; a document is the value it gives.
\<close>

section \<open>JSON values\<close>

datatype json = JNull | JBool bool | JNumber string | JString string | JArray "json list" | JObject "(string \<times> json) list"

definition json_get :: "string \<Rightarrow> json \<Rightarrow> json option" where
  "json_get key v = (case v of JObject members \<Rightarrow> map_of members key | _ \<Rightarrow> None)"

definition json_str :: "json \<Rightarrow> string option" where
  "json_str v = (case v of JString s \<Rightarrow> Some s | _ \<Rightarrow> None)"

definition json_array :: "json \<Rightarrow> json list option" where
  "json_array v = (case v of JArray vs \<Rightarrow> Some vs | _ \<Rightarrow> None)"

section \<open>Capabilities\<close>

datatype service_capability = PackageBase | Registration | Search | Vulnerability | PackagePublish

definition capabilities :: "service_capability list" where
  "capabilities = [PackageBase, Registration, Search, Vulnerability, PackagePublish]"

fun capability_index :: "service_capability \<Rightarrow> nat" where
  "capability_index PackageBase = 0"
| "capability_index Registration = 1"
| "capability_index Search = 2"
| "capability_index Vulnerability = 3"
| "capability_index PackagePublish = 4"

definition service_types :: "service_capability \<Rightarrow> string list" where
  "service_types capability =
     (case capability of
        PackageBase \<Rightarrow> [''PackageBaseAddress/Versioned'', ''PackageBaseAddress/3.0.0'']
      | Registration \<Rightarrow> [''RegistrationsBaseUrl/Versioned'', ''RegistrationsBaseUrl/3.6.0'', ''RegistrationsBaseUrl/3.4.0'',
          ''RegistrationsBaseUrl/3.0.0-rc'', ''RegistrationsBaseUrl/3.0.0-beta'', ''RegistrationsBaseUrl'']
      | Search \<Rightarrow> [''SearchQueryService/Versioned'', ''SearchQueryService/3.4.0'', ''SearchQueryService/3.0.0-beta'']
      | Vulnerability \<Rightarrow> [''VulnerabilityInfo/6.7.0'']
      | PackagePublish \<Rightarrow> [''PackagePublish/Versioned'', ''PackagePublish/2.0.0''])"

definition NUGET_PROTOCOL_CLIENT_VERSION :: string where "NUGET_PROTOCOL_CLIENT_VERSION = ''7.0.0''"
definition MAX_ARCHIVE_ENTRIES :: nat where "MAX_ARCHIVE_ENTRIES = 100000"

record service_endpoints =
  se_text :: string
  se_entries :: "tspan list"
  se_ranges :: "item_range list"

text \<open>A range past the entries is a panic, the \<open>None\<close>.\<close>

definition endpoint_values :: "service_endpoints \<Rightarrow> service_capability \<Rightarrow> string list option" where
  "endpoint_values endpoints capability =
     map_option (map (span_text (se_text endpoints)))
       (range_slice (se_entries endpoints) (se_ranges endpoints ! capability_index capability))"

definition package_base_address :: "service_endpoints \<Rightarrow> string option" where
  "package_base_address endpoints =
     (case endpoint_values endpoints PackageBase of None \<Rightarrow> None | Some [] \<Rightarrow> None | Some (v # _) \<Rightarrow> Some v)"

section \<open>Resources\<close>

definition zero_package_version :: package_version where
  "zero_package_version = \<lparr>pv_normalized = ''0.0.0'', pv_numbers = [0, 0, 0, 0], pv_prerelease_start = None\<rparr>"

definition parsed_version :: "string \<Rightarrow> package_version option" where
  "parsed_version value = (case parse_package_version value of Inl _ \<Rightarrow> None | Inr v \<Rightarrow> Some v)"

definition resource_type_matches :: "json option \<Rightarrow> string \<Rightarrow> bool" where
  "resource_type_matches value expected =
     (case value of
        Some (JString s) \<Rightarrow> s = expected
      | Some (JArray values) \<Rightarrow> list_ex (\<lambda>v. json_str v = Some expected) values
      | _ \<Rightarrow> False)"

text \<open>Client versions that are strings and parse.\<close>

definition listed_versions :: "json list \<Rightarrow> package_version list" where
  "listed_versions values = List.map_filter (\<lambda>v. Option.bind (json_str v) parsed_version) values"

definition best_compatible_client_version :: "package_version \<Rightarrow> json option \<Rightarrow> package_version option" where
  "best_compatible_client_version supported value =
     (case value of
        None \<Rightarrow> Some zero_package_version
      | Some (JString s) \<Rightarrow> keep_if (\<lambda>v. pv_cmp v supported \<noteq> Greater) (parsed_version s)
      | Some (JArray values) \<Rightarrow> max_by pv_cmp (filter (\<lambda>v. pv_cmp v supported \<noteq> Greater) (listed_versions values))
      | _ \<Rightarrow> None)"

definition resource_supports_client_version :: "json option \<Rightarrow> package_version \<Rightarrow> bool" where
  "resource_supports_client_version value selected =
     (case value of
        None \<Rightarrow> pv_eq selected zero_package_version
      | Some (JString s) \<Rightarrow> (case parsed_version s of None \<Rightarrow> False | Some v \<Rightarrow> pv_eq v selected)
      | Some (JArray values) \<Rightarrow> list_ex (\<lambda>v. pv_eq v selected) (listed_versions values)
      | _ \<Rightarrow> False)"

definition valid_service_location :: "('p, 'io, 'u) nuget_host \<Rightarrow> json \<Rightarrow> string option" where
  "valid_service_location h resource =
     (case Option.bind (json_get ''@id'' resource) json_str of
        None \<Rightarrow> None
      | Some location \<Rightarrow> (case parse_url h location of
          None \<Rightarrow> None
        | Some url \<Rightarrow>
            if url_host (urls h) url \<noteq> None \<and> url_scheme (urls h) url \<in> {''http'', ''https''}
               \<and> url_username (urls h) url = [] \<and> url_password (urls h) url = None
            then Some location else None))"

section \<open>Selection\<close>

definition is_resource_of :: "string \<Rightarrow> json \<Rightarrow> bool" where
  "is_resource_of resource_type resource = resource_type_matches (json_get ''@type'' resource) resource_type"

definition resource_offer :: "('p, 'io, 'u) nuget_host \<Rightarrow> package_version \<Rightarrow> string \<Rightarrow> json \<Rightarrow> package_version option" where
  "resource_offer h supported resource_type resource =
     (if is_resource_of resource_type resource \<and> valid_service_location h resource \<noteq> None
      then best_compatible_client_version supported (json_get ''clientVersion'' resource) else None)"

text \<open>The URL was validated before: parsing it again cannot fail, and would be a panic.\<close>

definition push_endpoint :: "('p, 'io, 'u) nuget_host \<Rightarrow> u8 \<Rightarrow> string \<Rightarrow> package_version \<Rightarrow> string \<times> tspan list \<Rightarrow> json \<Rightarrow>
    package_error option + string \<times> tspan list" where
  "push_endpoint h flags resource_type best st resource =
     (if \<not> resource_supports_client_version (json_get ''clientVersion'' resource) best then Inr st
      else case valid_service_location h resource of
        None \<Rightarrow> Inr st
      | Some location \<Rightarrow> (case parse_url h location of
          None \<Rightarrow> Inl None
        | Some url \<Rightarrow>
            if url_username (urls h) url \<noteq> [] \<or> url_password (urls h) url \<noteq> None then
              Inl (Some (network_error (url_lib (urls h)) location
                (Format ''NuGet service resource {resource_type} must not embed credentials in its URL'' [resource_type])))
            else if url_scheme (urls h) url \<noteq> ''https''
                \<and> \<not> (url_scheme (urls h) url = ''http'' \<and> flags AND SOURCE_ALLOW_INSECURE_CONNECTIONS \<noteq> 0) then
              Inl (Some (network_error (url_lib (urls h)) location
                (Format ''NuGet service resource {resource_type} uses insecure HTTP; set allowInsecureConnections=true on its package source to opt in''
                  [resource_type])))
            else rbind (as_failure (push_text (fst st) location)) (\<lambda>(text, span). Inr (text, snd st @ [span]))))"

fun append_selected_service_endpoints :: "('p, 'io, 'u) nuget_host \<Rightarrow> json list \<Rightarrow> package_version \<Rightarrow> u8 \<Rightarrow> string list \<Rightarrow>
    string \<times> tspan list \<Rightarrow> package_error option + string \<times> tspan list" where
  "append_selected_service_endpoints h resources supported flags [] st = Inr st"
| "append_selected_service_endpoints h resources supported flags (resource_type # rest) st =
     (case max_by pv_cmp (List.map_filter (resource_offer h supported resource_type) resources) of
        None \<Rightarrow> append_selected_service_endpoints h resources supported flags rest st
      | Some best \<Rightarrow> try_fold (push_endpoint h flags resource_type best) st (filter (is_resource_of resource_type) resources))"

definition append_capability :: "('p, 'io, 'u) nuget_host \<Rightarrow> json list \<Rightarrow> package_version \<Rightarrow> u8 \<Rightarrow> service_endpoints \<Rightarrow> service_capability \<Rightarrow>
    package_error option + service_endpoints" where
  "append_capability h resources supported flags endpoints capability =
     rbind (as_failure (u32_len ''NuGet service endpoint range'' (length (se_entries endpoints)))) (\<lambda>start.
     rbind (append_selected_service_endpoints h resources supported flags (service_types capability)
         (se_text endpoints, se_entries endpoints)) (\<lambda>(text, entries).
     rbind (as_failure (u32_len ''NuGet service endpoint range'' (length entries - start))) (\<lambda>len.
       Inr \<lparr>se_text = text, se_entries = entries,
         se_ranges = (se_ranges endpoints)[capability_index capability := \<lparr>ir_start = start, ir_len = len\<rparr>]\<rparr>)))"

definition parse_v3_service_index :: "('p, 'io, 'u) nuget_host \<Rightarrow> string \<Rightarrow> json \<Rightarrow> u8 \<Rightarrow> package_error option + service_endpoints" where
  "parse_v3_service_index h source document flags =
     (let network = (\<lambda>message. Some (network_error (url_lib (urls h)) source message))
      in rbind (ok_or (network (Format ''NuGet service index has no schema version'' []))
           (Option.bind (json_get ''version'' document) json_str)) (\<lambda>schema.
         rbind (map_error (\<lambda>e. network (Nested ''invalid NuGet service-index schema version {schema:?}: {error}'' [schema] (pe_message e)))
           (parse_package_version schema)) (\<lambda>schema_version.
         if pv_numbers schema_version ! 0 \<noteq> 3 then
           Inl (network (Format ''unsupported NuGet service-index schema version {schema:?}; expected major version 3'' [schema]))
         else rbind (ok_or (network (Format ''NuGet service index has no resources array'' []))
           (Option.bind (json_get ''resources'' document) json_array)) (\<lambda>resources.
         if MAX_ARCHIVE_ENTRIES < length resources then
           Inl (network (Format ''NuGet service index exceeds the resource count limit'' []))
         else rbind (map_error (\<lambda>_. None) (parse_package_version NUGET_PROTOCOL_CLIENT_VERSION)) (\<lambda>supported.
           try_fold (append_capability h resources supported flags)
             \<lparr>se_text = [], se_entries = [], se_ranges = replicate 5 \<lparr>ir_start = 0, ir_len = 0\<rparr>\<rparr> capabilities)))))"

text \<open>\<open>from_json\<close> is \<open>serde_json\<close>'s reader.\<close>

definition MAX_JSON_BYTES :: nat where "MAX_JSON_BYTES = 8 * 1024 * 1024"

definition fetch_v3_service_index :: "('p, 'io, 'u) nuget_host \<Rightarrow> 'u outside \<Rightarrow> http_body \<Rightarrow> (string \<Rightarrow> string + json) \<Rightarrow> source_credential option \<Rightarrow>
    string \<Rightarrow> (service_endpoints \<times> http_work) transport" where
  "fetch_v3_service_index h w body from_json credential source =
     and_then (get_bytes h w body credential source MAX_JSON_BYTES ''NuGet service index'') (\<lambda>p history.
       (rbind (map_error (\<lambda>e. Some (network_error (url_lib (urls h)) source (Format ''invalid NuGet service-index JSON: {error}'' [e])))
           (from_json (payload p))) (\<lambda>document.
        rbind (parse_v3_service_index h source document (case credential of None \<Rightarrow> 0 | Some c \<Rightarrow> sc_security_flags c)) (\<lambda>endpoints.
          Inr (endpoints, payload_work p))), history))"


section \<open>What is selected\<close>

definition supports :: "package_version \<Rightarrow> json \<Rightarrow> bool" where
  "supports best resource = resource_supports_client_version (json_get ''clientVersion'' resource) best"

definition locations :: "('p, 'io, 'u) nuget_host \<Rightarrow> string \<Rightarrow> package_version \<Rightarrow> json list \<Rightarrow> string list" where
  "locations h resource_type best resources =
     List.map_filter (valid_service_location h) (filter (supports best) (filter (is_resource_of resource_type) resources))"

definition acceptable_url :: "('p, 'io, 'u) nuget_host \<Rightarrow> u8 \<Rightarrow> string \<Rightarrow> bool" where
  "acceptable_url h flags location \<longleftrightarrow>
     (\<exists>url. parse_url h location = Some url \<and> url_host (urls h) url \<noteq> None \<and> url_username (urls h) url = []
        \<and> url_password (urls h) url = None \<and> (url_scheme (urls h) url = ''https''
          \<or> url_scheme (urls h) url = ''http'' \<and> flags AND SOURCE_ALLOW_INSECURE_CONNECTIONS \<noteq> 0))"

text \<open>The endpoints of a capability, as NuGet describes them: those of the first type with an offer, in the
  best version offered; none when no type has one.\<close>

definition serves :: "('p, 'io, 'u) nuget_host \<Rightarrow> json list \<Rightarrow> package_version \<Rightarrow> u8 \<Rightarrow> string list \<Rightarrow> string list \<Rightarrow> bool" where
  "serves h resources supported flags types endpoints \<longleftrightarrow>
     (\<forall>endpoint \<in> set endpoints. acceptable_url h flags endpoint)
     \<and> ((endpoints = [] \<and> (\<forall>t \<in> set types. \<forall>r \<in> set resources. resource_offer h supported t r = None))
       \<or> (\<exists>earlier t later best. types = earlier @ t # later
            \<and> (\<forall>t' \<in> set earlier. \<forall>r \<in> set resources. resource_offer h supported t' r = None)
            \<and> (\<exists>r \<in> set resources. resource_offer h supported t r = Some best)
            \<and> (\<forall>r \<in> set resources. \<forall>v. resource_offer h supported t r = Some v \<longrightarrow> pv_cmp v best \<noteq> Greater)
            \<and> endpoints = locations h t best resources))"

text \<open>Entries are added at the end, with spans into a text that only grows.\<close>

definition grows :: "string \<times> tspan list \<Rightarrow> string \<times> tspan list \<Rightarrow> string list \<Rightarrow> bool" where
  "grows st st' texts \<longleftrightarrow> (\<exists>spans. snd st' = snd st @ spans \<and> map (span_text (fst st')) spans = texts \<and> list_all (span_ok (fst st')) spans)
     \<and> (\<forall>span. span_ok (fst st) span \<longrightarrow> span_ok (fst st') span \<and> span_text (fst st') span = span_text (fst st) span)"

lemma grows_refl: "grows st st []"
  by (simp add: grows_def)

lemma grows_trans: "grows a b xs \<Longrightarrow> grows b c ys \<Longrightarrow> grows a c (xs @ ys)"
  unfolding grows_def
  by (fastforce simp: list_all_iff intro: exI [of _ "_ @ _"])

lemma grows_push:
  assumes "push_text (fst st) s = Inr (b, span)"
  shows "grows st (b, snd st @ [span]) [s]"
  using spans.push_valid [OF assms [unfolded push_text_def]] spans.push_read [OF assms [unfolded push_text_def]]
    spans.keeps_valid [OF assms [unfolded push_text_def]] spans.keeps_read [OF assms [unfolded push_text_def]]
  by (simp add: grows_def)

lemma push_endpoint_grows:
  assumes "push_endpoint h flags t best st r = Inr st'"
  shows "grows st st' (List.map_filter (valid_service_location h) (filter (supports best) [r]))
    \<and> (\<forall>location. valid_service_location h r = Some location \<longrightarrow> supports best r \<longrightarrow> acceptable_url h flags location)"
proof (cases "supports best r")
  case True
  show ?thesis
  proof (cases "valid_service_location h r")
    case (Some location)
    obtain url where url: "parse_url h location = Some url" "url_host (urls h) url \<noteq> None"
      using Some by (auto simp: valid_service_location_def split: option.splits if_splits)
    obtain b span where push: "push_text (fst st) location = Inr (b, span)" and st': "st' = (b, snd st @ [span])"
      using assms True Some url(1)
      by (auto simp: push_endpoint_def supports_def as_failure_def rbind_eq_Inr map_error_Inr split: if_splits)
    have "acceptable_url h flags location"
      using assms True Some url
      by (auto simp: push_endpoint_def supports_def acceptable_url_def split: if_splits)
    then show ?thesis using grows_push [OF push] st' True Some by (simp add: map_filter_simps)
  qed (use assms True in \<open>simp add: push_endpoint_def supports_def map_filter_simps grows_refl\<close>)
qed (use assms in \<open>simp add: push_endpoint_def supports_def map_filter_simps grows_refl\<close>)

lemma endpoints_grow:
  assumes "try_fold (push_endpoint h flags t best) st rs = Inr st'"
  shows "grows st st' (List.map_filter (valid_service_location h) (filter (supports best) rs))
    \<and> (\<forall>endpoint \<in> set (List.map_filter (valid_service_location h) (filter (supports best) rs)). acceptable_url h flags endpoint)"
  using assms
proof (induction rs arbitrary: st)
  case (Cons r rs)
  let ?get = "\<lambda>rs. List.map_filter (valid_service_location h) (filter (supports best) rs)"
  obtain mid where mid: "push_endpoint h flags t best st r = Inr mid" "try_fold (push_endpoint h flags t best) mid rs = Inr st'"
    using Cons.prems by (auto simp: rbind_eq_Inr)
  have split: "?get (r # rs) = ?get [r] @ ?get rs" by (simp add: map_filter_simps split: option.split)
  have one: "acceptable_url h flags endpoint" if "endpoint \<in> set (?get [r])" for endpoint
    using that push_endpoint_grows [OF mid(1)] by (auto simp: map_filter_simps split: if_splits option.splits)
  have "grows st st' (?get [r] @ ?get rs)"
    by (rule grows_trans [OF conjunct1 [OF push_endpoint_grows [OF mid(1)]] conjunct1 [OF Cons.IH [OF mid(2)]]])
  moreover have "\<forall>endpoint \<in> set (?get [r] @ ?get rs). acceptable_url h flags endpoint"
    using one conjunct2 [OF Cons.IH [OF mid(2)]] by (simp only: set_append) blast
  ultimately show ?case unfolding split by (rule conjI)
qed (simp add: grows_refl map_filter_simps)

lemma map_filter_Some: "x \<in> set (List.map_filter f xs) \<longleftrightarrow> (\<exists>y \<in> set xs. f y = Some x)"
  by (force simp: map_filter_def)

lemma serves_later:
  assumes "serves h resources supported flags types endpoints" and "\<forall>r \<in> set resources. resource_offer h supported t r = None"
  shows "serves h resources supported flags (t # types) endpoints"
  using assms(1) unfolding serves_def
proof (elim conjE disjE exE, goal_cases)
  case 1
  then show ?case using assms(2) by auto
next
  case (2 earlier t' later best)
  then have "t # types = (t # earlier) @ t' # later" "\<forall>t' \<in> set (t # earlier). \<forall>r \<in> set resources. resource_offer h supported t' r = None"
    using assms(2) by auto
  then show ?case using 2 by blast
qed

lemma serves_here:
  assumes "r \<in> set resources" and "resource_offer h supported t r = Some best"
    and "\<And>r v. r \<in> set resources \<Longrightarrow> resource_offer h supported t r = Some v \<Longrightarrow> pv_cmp v best \<noteq> Greater"
    and "\<forall>endpoint \<in> set (locations h t best resources). acceptable_url h flags endpoint"
  shows "serves h resources supported flags (t # types) (locations h t best resources)"
  unfolding serves_def
  by (intro conjI assms(4) disjI2 exI [of _ "[]"] exI [of _ t] exI [of _ types] exI [of _ best]) (use assms(1-3) in auto)

lemma selected_grow:
  assumes "append_selected_service_endpoints h resources supported flags types st = Inr st'"
  shows "\<exists>endpoints. grows st st' endpoints \<and> serves h resources supported flags types endpoints"
  using assms
proof (induction types)
  case Nil
  then show ?case by (auto simp: serves_def intro: exI [of _ "[]"] grows_refl)
next
  case (Cons t types)
  let ?offers = "List.map_filter (resource_offer h supported t) resources"
  show ?case
  proof (cases "max_by pv_cmp ?offers")
    case None
    then have none: "\<forall>r \<in> set resources. resource_offer h supported t r = None"
      by (auto simp: map_filter_def filter_empty_conv)
    have "append_selected_service_endpoints h resources supported flags types st = Inr st'"
      using Cons.prems None by simp
    from Cons.IH [OF this] show ?thesis using serves_later [OF _ none] by blast
  next
    case (Some best)
    then have fold: "try_fold (push_endpoint h flags t best) st (filter (is_resource_of t) resources) = Inr st'"
      using Cons.prems by simp
    obtain r where r: "r \<in> set resources" "resource_offer h supported t r = Some best"
      using max_by_in [OF Some] by (auto simp: map_filter_Some)
    have upper: "pv_cmp v best \<noteq> Greater" if "r \<in> set resources" "resource_offer h supported t r = Some v" for r v
      using pv_ord.max_by_upper [OF Some, of v] that by (auto simp: map_filter_Some)
    note grown = endpoints_grow [OF fold, folded locations_def]
    have "serves h resources supported flags (t # types) (locations h t best resources)"
      by (rule serves_here [OF r _ conjunct2 [OF grown]]) (rule upper)
    then show ?thesis using conjunct1 [OF grown] by blast
  qed
qed

text \<open>Reading a range of entries, and the ranges of the capabilities before it, which later entries keep.\<close>

definition endpoints_of :: "service_endpoints \<Rightarrow> nat \<Rightarrow> string list option" where
  "endpoints_of e i = map_option (map (span_text (se_text e))) (range_slice (se_entries e) (se_ranges e ! i))"

definition index_ok :: "service_endpoints \<Rightarrow> bool" where
  "index_ok e \<longleftrightarrow> length (se_ranges e) = 5 \<and> list_all (span_ok (se_text e)) (se_entries e)"

lemma appended:
  assumes "append_capability h resources supported flags e capability = Inr e'" and "index_ok e"
  shows "index_ok e' \<and> (\<exists>endpoints. endpoints_of e' (capability_index capability) = Some endpoints
      \<and> serves h resources supported flags (service_types capability) endpoints)
    \<and> (\<forall>i endpoints. i \<noteq> capability_index capability \<longrightarrow> endpoints_of e i = Some endpoints \<longrightarrow> endpoints_of e' i = Some endpoints)"
proof -
  obtain b entries where step: "append_selected_service_endpoints h resources supported flags (service_types capability)
      (se_text e, se_entries e) = Inr (b, entries)"
    and e': "e' = \<lparr>se_text = b, se_entries = entries, se_ranges = (se_ranges e)[capability_index capability :=
        \<lparr>ir_start = length (se_entries e), ir_len = length entries - length (se_entries e)\<rparr>]\<rparr>"
    using assms(1) by (auto simp: append_capability_def rbind_eq_Inr as_failure_def map_error_Inr u32_len_def split: if_splits)
  obtain endpoints where grows: "grows (se_text e, se_entries e) (b, entries) endpoints"
    and serves: "serves h resources supported flags (service_types capability) endpoints"
    using selected_grow [OF step] by blast
  obtain spans where spans: "entries = se_entries e @ spans" "map (span_text b) spans = endpoints" "list_all (span_ok b) spans"
    and kept: "\<And>span. span_ok (se_text e) span \<Longrightarrow> span_ok b span \<and> span_text b span = span_text (se_text e) span"
    using grows by (auto simp: grows_def)
  have bound: "capability_index capability < 5" by (cases capability) simp_all
  have ok: "index_ok e'" using assms(2) spans kept e' by (auto simp: index_ok_def list_all_iff)
  have read: "endpoints_of e' (capability_index capability) = Some endpoints"
    using assms(2) bound spans e' by (simp add: endpoints_of_def range_slice_def index_ok_def)
  have "endpoints_of e' i = Some old" if i: "i \<noteq> capability_index capability" and old: "endpoints_of e i = Some old" for i old
  proof -
    obtain slice where slice: "range_slice (se_entries e) (se_ranges e ! i) = Some slice" "old = map (span_text (se_text e)) slice"
      using old by (auto simp: endpoints_of_def)
    have "set slice \<subseteq> set (se_entries e)"
      using slice(1) by (auto simp: range_slice_def split: if_splits dest!: in_set_takeD in_set_dropD)
    then have "map (span_text b) slice = old" using slice(2) assms(2) kept by (auto simp: index_ok_def list_all_iff)
    moreover have "range_slice entries (se_ranges e ! i) = Some slice"
      using slice(1) spans(1) by (auto simp: range_slice_def split: if_splits)
    ultimately show ?thesis using e' i by (simp add: endpoints_of_def)
  qed
  then show ?thesis using ok read serves by blast
qed


lemma capability_index_inject: "capability_index a = capability_index b \<longleftrightarrow> a = b"
  by (cases a; cases b) simp_all

lemma all_appended:
  assumes "try_fold (append_capability h resources supported flags) e cs = Inr e'" and "index_ok e" and "distinct cs"
  shows "(\<forall>c \<in> set cs. \<exists>endpoints. endpoints_of e' (capability_index c) = Some endpoints
      \<and> serves h resources supported flags (service_types c) endpoints)
    \<and> (\<forall>i endpoints. i \<notin> capability_index ` set cs \<longrightarrow> endpoints_of e i = Some endpoints \<longrightarrow> endpoints_of e' i = Some endpoints)"
  using assms
proof (induction cs arbitrary: e)
  case (Cons c cs)
  obtain mid where mid: "append_capability h resources supported flags e c = Inr mid"
    "try_fold (append_capability h resources supported flags) mid cs = Inr e'"
    using Cons.prems(1) by (auto simp: rbind_eq_Inr)
  note first = appended [OF mid(1) Cons.prems(2)]
  note rest = Cons.IH [OF mid(2) conjunct1 [OF first]]
  have "capability_index c \<notin> capability_index ` set cs" using Cons.prems(3) by (auto simp: capability_index_inject)
  then show ?case using first rest Cons.prems(3) by (auto; blast)
qed simp

section \<open>No panic\<close>

lemma try_fold_no_panic:
  assumes "\<And>s x. f s x \<noteq> Inl None"
  shows "try_fold f s xs \<noteq> Inl None"
proof (induction xs arbitrary: s)
  case (Cons x xs)
  show ?case using Cons.IH assms [of s x] by (cases "f s x") simp_all
qed simp

lemma push_endpoint_no_panic: "push_endpoint h flags t best st r \<noteq> Inl None"
  by (auto simp: push_endpoint_def valid_service_location_def as_failure_def rbind_def map_error_def split: option.splits sum.splits if_splits)

lemma selected_no_panic: "append_selected_service_endpoints h resources supported flags types st \<noteq> Inl None"
  by (induction types) (auto intro!: try_fold_no_panic push_endpoint_no_panic split: option.split)

lemma append_no_panic: "append_capability h resources supported flags e c \<noteq> Inl None"
  using selected_no_panic [of h resources supported flags "service_types c" "(se_text e, se_entries e)"]
  by (auto simp: append_capability_def as_failure_def rbind_def map_error_def split: sum.splits)

lemma supported_client: "\<exists>v. parse_package_version NUGET_PROTOCOL_CLIENT_VERSION = Inr v"
  by (simp add: NUGET_PROTOCOL_CLIENT_VERSION_def parse_package_version_def str_eval)



definition example_index :: json where
  "example_index = JObject [(''version'', JString ''3.0.0''), (''resources'', JArray
     [JObject [(''@type'', JString ''PackageBaseAddress/3.0.0''), (''@id'', JString ''flat'')]])]"


end
