(* ===== verification/Project_Xml.thy ===== *)
theory Project_Xml
  imports Project_Conditions
begin

text \<open>
  \<open>crates/dv-core/src/project.rs\<close>: reading a project file. The XML reader is \<open>quick_xml\<close>, with empty
  elements expanded and blank text dropped: a file is the list of the events it reports. The errors are
  those of the program; \<open>Inl None\<close> is a panic.
\<close>

section \<open>Events\<close>

text \<open>Names are bytes that may not be UTF-8; a value may not decode; an error has the reader's text.\<close>

type_synonym xml_name = "string + string"
type_synonym project_attribute = "string + xml_name \<times> (string + string)"

record project_element =
  pe_name :: xml_name
  pe_attributes :: "project_attribute list"

text \<open>An entity: a character reference that resolves or not, or a name.\<close>

datatype xml_reference = CharacterReference "string + string" | EntityReference "string + string"

datatype project_event =
  StartElement project_element | EndElement | TextValue "string + string" | GeneralReference xml_reference
| Ignored | UnsupportedConstruct | BadXml "string list"

section \<open>Attributes\<close>

definition SUPPORTED_SDK :: string where "SUPPORTED_SDK = ''Microsoft.NET.Sdk''"
definition MAX_XML_DEPTH :: nat where "MAX_XML_DEPTH = 8"

definition xml_error :: "string \<Rightarrow> string \<Rightarrow> string list \<Rightarrow> project_error" where
  "xml_error path template arguments = project_error_new InvalidXml path (Text template arguments)"

definition unsupported_error :: "string \<Rightarrow> string \<Rightarrow> string list \<Rightarrow> project_error" where
  "unsupported_error path template arguments = project_error_new Unsupported path (Text template arguments)"

definition element_name :: "string \<Rightarrow> xml_name \<Rightarrow> project_error + string" where
  "element_name path name = map_error (\<lambda>e. xml_error path ''element name is not UTF-8: {error}'' [e]) name"

text \<open>The name of an attribute and its decoding, checked in the order of the code.\<close>

definition attribute_name :: "string \<Rightarrow> project_attribute \<Rightarrow> project_error + string \<times> (string + string)" where
  "attribute_name path attribute =
     (case attribute of
        Inl e \<Rightarrow> Inl (xml_error path ''invalid XML attribute: {error}'' [e])
      | Inr (key, val) \<Rightarrow> rbind (element_name path key) (\<lambda>name. Inr (name, val)))"

definition attribute_value :: "string \<Rightarrow> string \<Rightarrow> string + string \<Rightarrow> project_error + string" where
  "attribute_value path name val = map_error (\<lambda>e. xml_error path ''invalid {name} attribute: {error}'' [name, e]) val"

definition allowed_attribute :: "string \<Rightarrow> string list \<Rightarrow> string \<Rightarrow> project_error + unit" where
  "allowed_attribute path allowed name =
     (if name \<in> set allowed then Inr ()
      else if name = ''Condition'' then Inl (unsupported_error path ''MSBuild Condition evaluation is not supported yet'' [])
      else Inl (unsupported_error path ''attribute {name} is outside the initial project compatibility contract'' [name]))"

fun validate_attributes :: "string \<Rightarrow> string list \<Rightarrow> project_attribute list \<Rightarrow> project_error + unit" where
  "validate_attributes path allowed [] = Inr ()"
| "validate_attributes path allowed (attribute # rest) =
     rbind (attribute_name path attribute) (\<lambda>(name, val).
     rbind (allowed_attribute path allowed name) (\<lambda>_.
     rbind (attribute_value path name val) (\<lambda>_.
       validate_attributes path allowed rest)))"

fun find_required :: "string \<Rightarrow> string \<Rightarrow> string list \<Rightarrow> string option \<Rightarrow> project_attribute list \<Rightarrow> project_error + string option" where
  "find_required path required additional found [] = Inr found"
| "find_required path required additional found (attribute # rest) =
     rbind (attribute_name path attribute) (\<lambda>(name, val).
     rbind (if name = ''Condition'' \<and> name \<notin> set additional
            then Inl (unsupported_error path ''MSBuild Condition evaluation is not supported yet'' [])
            else allowed_attribute path (required # additional) name) (\<lambda>_.
     rbind (attribute_value path name val) (\<lambda>decoded.
       if name = required then
         (if found \<noteq> None then Inl (xml_error path ''attribute {required} appears more than once'' [required])
          else find_required path required additional (Some decoded) rest)
       else find_required path required additional found rest)))"

definition required_attribute :: "string \<Rightarrow> string \<Rightarrow> string list \<Rightarrow> project_attribute list \<Rightarrow> project_error + string" where
  "required_attribute path required additional attributes =
     rbind (find_required path required additional None attributes)
       (ok_or (invalid_property path ''element requires a {required} attribute'' [required]))"

fun optional_attribute :: "string \<Rightarrow> string \<Rightarrow> project_attribute list \<Rightarrow> project_error + string option" where
  "optional_attribute path requested [] = Inr None"
| "optional_attribute path requested (attribute # rest) =
     rbind (attribute_name path attribute) (\<lambda>(name, val).
       if name = requested then rbind (attribute_value path name val) (\<lambda>v. Inr (Some v))
       else optional_attribute path requested rest)"

definition store_condition :: "string \<Rightarrow> project_attribute list \<Rightarrow> string list \<Rightarrow> project_error + nat \<times> string list" where
  "store_condition path attributes conditions =
     rbind (optional_attribute path ''Condition'' attributes) (\<lambda>found. case found of
         None \<Rightarrow> Inr (NO_REFERENCE_CONDITION, conditions)
       | Some condition \<Rightarrow>
           if trim condition = [] then Inl (invalid_property path ''reference Condition must not be empty'' [])
           else if MAX_REFERENCE_CONDITION_BYTES < length condition then
             Inl (unsupported_error path ''reference Condition exceeds the {}-byte evaluation limit'' [show_nat MAX_REFERENCE_CONDITION_BYTES])
           else if 2 ^ 32 \<le> length conditions then
             Inl (unsupported_error path ''project contains more than 4 billion reference conditions'' [])
           else Inr (length conditions, conditions @ [condition]))"

text \<open>The predefined entities; \<open>CharacterReference\<close> carries the character's bytes.\<close>

definition append_reference :: "string \<Rightarrow> xml_reference \<Rightarrow> string \<Rightarrow> project_error + string" where
  "append_reference path reference output =
     (case reference of
        CharacterReference (Inl e) \<Rightarrow> Inl (xml_error path ''invalid character reference: {error}'' [e])
      | CharacterReference (Inr bytes) \<Rightarrow> Inr (output @ bytes)
      | EntityReference (Inl e) \<Rightarrow> Inl (xml_error path ''invalid entity reference: {error}'' [e])
      | EntityReference (Inr name) \<Rightarrow>
          (case map_of [(''amp'', CHR 0x26), (''lt'', CHR ''<''), (''gt'', CHR ''>''), (''apos'', CHR 0x27), (''quot'', CHR 0x22)] name of
             Some c \<Rightarrow> Inr (output @ [c])
           | None \<Rightarrow> Inl (unsupported_error path ''custom XML entity &{name}; is unsupported'' [name])))"

section \<open>What a file says\<close>

datatype package_metadata =
  MetadataVersion | MetadataVersionOverride | MetadataIncludeAssets | MetadataExcludeAssets
| MetadataPrivateAssets | MetadataNoWarn | MetadataAliases | MetadataGeneratePathProperty

datatype framework_metadata =
  MetadataRuntimeFrameworkVersion | MetadataTargetingPackVersion | MetadataTargetLatestRuntimePatch

record raw_project_reference =
  rj_path :: string
  rj_conditions :: raw_reference_conditions

text \<open>One optional text for each kind of metadata, which are the fields of the code's structs.\<close>

record raw_package_reference =
  rp_id :: string
  rp_metadata :: "package_metadata \<Rightarrow> string option"
  rp_conditions :: raw_reference_conditions
  rp_central_global :: bool

record raw_framework_reference =
  rf_id :: string
  rf_metadata :: "framework_metadata \<Rightarrow> string option"
  rf_conditions :: raw_reference_conditions

record raw_project =
  raw_properties :: "project_property \<Rightarrow> string option"
  raw_conditions :: "string list"
  raw_project_references :: "raw_project_reference list"
  raw_package_references :: "raw_package_reference list"
  raw_framework_references :: "raw_framework_reference list"

definition default_raw_project :: raw_project where
  "default_raw_project = \<lparr>raw_properties = (\<lambda>_. None), raw_conditions = [], raw_project_references = [],
     raw_package_references = [], raw_framework_references = []\<rparr>"

definition package_metadata_table :: "(string \<times> package_metadata) list" where
  "package_metadata_table = [(''Version'', MetadataVersion), (''VersionOverride'', MetadataVersionOverride),
     (''IncludeAssets'', MetadataIncludeAssets), (''ExcludeAssets'', MetadataExcludeAssets), (''PrivateAssets'', MetadataPrivateAssets),
     (''NoWarn'', MetadataNoWarn), (''Aliases'', MetadataAliases), (''GeneratePathProperty'', MetadataGeneratePathProperty)]"

definition framework_metadata_table :: "(string \<times> framework_metadata) list" where
  "framework_metadata_table = [(''RuntimeFrameworkVersion'', MetadataRuntimeFrameworkVersion),
     (''TargetingPackVersion'', MetadataTargetingPackVersion), (''TargetLatestRuntimePatch'', MetadataTargetLatestRuntimePatch)]"

fun package_metadata_name :: "package_metadata \<Rightarrow> string" where
  "package_metadata_name MetadataVersion = ''Version''"
| "package_metadata_name MetadataVersionOverride = ''VersionOverride''"
| "package_metadata_name MetadataIncludeAssets = ''IncludeAssets''"
| "package_metadata_name MetadataExcludeAssets = ''ExcludeAssets''"
| "package_metadata_name MetadataPrivateAssets = ''PrivateAssets''"
| "package_metadata_name MetadataNoWarn = ''NoWarn''"
| "package_metadata_name MetadataAliases = ''Aliases''"
| "package_metadata_name MetadataGeneratePathProperty = ''GeneratePathProperty''"

fun framework_metadata_name :: "framework_metadata \<Rightarrow> string" where
  "framework_metadata_name MetadataRuntimeFrameworkVersion = ''RuntimeFrameworkVersion''"
| "framework_metadata_name MetadataTargetingPackVersion = ''TargetingPackVersion''"
| "framework_metadata_name MetadataTargetLatestRuntimePatch = ''TargetLatestRuntimePatch''"

section \<open>Start tags\<close>

datatype xml_context =
  DocumentElement | ProjectElement | PropertyGroupElement | ItemGroupElement nat | PropertyElement project_property
| ProjectReferenceElement | PackageReferenceElement nat | PackageMetadataElement nat package_metadata
| FrameworkReferenceElement nat | FrameworkMetadataElement nat framework_metadata

record project_reader =
  rd_raw :: raw_project
  rd_stack :: "xml_context list"
  rd_text :: string
  rd_root_seen :: bool

text \<open>The values of the attributes that are metadata; the first that fails is the error.\<close>

fun optional_attributes :: "string \<Rightarrow> (string \<times> 'm) list \<Rightarrow> project_attribute list \<Rightarrow> ('m \<Rightarrow> string option) \<Rightarrow>
    project_error + ('m \<Rightarrow> string option)" where
  "optional_attributes path [] attributes metadata = Inr metadata"
| "optional_attributes path ((name, kind) # rest) attributes metadata =
     rbind (optional_attribute path name attributes) (\<lambda>val.
       optional_attributes path rest attributes (metadata(kind := val)))"

definition start_project_reference :: "string \<Rightarrow> project_attribute list \<Rightarrow> nat \<Rightarrow> raw_project \<Rightarrow> project_error + raw_project \<times> xml_context" where
  "start_project_reference path attributes grp raw =
     rbind (required_attribute path ''Include'' [''Condition''] attributes) (\<lambda>include.
     rbind (store_condition path attributes (raw_conditions raw)) (\<lambda>(item, conditions).
       Inr (raw\<lparr>raw_conditions := conditions, raw_project_references := raw_project_references raw @
         [\<lparr>rj_path = include, rj_conditions = \<lparr>rrc_group = grp, rrc_item = item\<rparr>\<rparr>]\<rparr>, ProjectReferenceElement)))"

text \<open>The code reads \<open>Version\<close> and \<open>VersionOverride\<close> before the condition and the rest after it.\<close>

definition start_package_reference :: "string \<Rightarrow> project_attribute list \<Rightarrow> nat \<Rightarrow> raw_project \<Rightarrow> project_error + raw_project \<times> xml_context" where
  "start_package_reference path attributes grp raw =
     rbind (required_attribute path ''Include'' (map fst package_metadata_table @ [''Condition'']) attributes) (\<lambda>include.
     rbind (optional_attributes path (take 2 package_metadata_table) attributes (\<lambda>_. None)) (\<lambda>versions.
     rbind (store_condition path attributes (raw_conditions raw)) (\<lambda>(item, conditions).
     rbind (optional_attributes path (drop 2 package_metadata_table) attributes versions) (\<lambda>metadata.
       Inr (raw\<lparr>raw_conditions := conditions, raw_package_references := raw_package_references raw @
         [\<lparr>rp_id = include, rp_metadata = metadata, rp_conditions = \<lparr>rrc_group = grp, rrc_item = item\<rparr>, rp_central_global = False\<rparr>]\<rparr>,
         PackageReferenceElement (length (raw_package_references raw)))))))"

definition start_framework_reference :: "string \<Rightarrow> project_attribute list \<Rightarrow> nat \<Rightarrow> raw_project \<Rightarrow> project_error + raw_project \<times> xml_context" where
  "start_framework_reference path attributes grp raw =
     rbind (required_attribute path ''Include'' (map fst framework_metadata_table @ [''Condition'']) attributes) (\<lambda>include.
     rbind (store_condition path attributes (raw_conditions raw)) (\<lambda>(item, conditions).
     rbind (optional_attributes path framework_metadata_table attributes (\<lambda>_. None)) (\<lambda>metadata.
       Inr (raw\<lparr>raw_conditions := conditions, raw_framework_references := raw_framework_references raw @
         [\<lparr>rf_id = include, rf_metadata = metadata, rf_conditions = \<lparr>rrc_group = grp, rrc_item = item\<rparr>\<rparr>]\<rparr>,
         FrameworkReferenceElement (length (raw_framework_references raw))))))"

definition outside_contract :: "string \<Rightarrow> string \<Rightarrow> project_error" where
  "outside_contract path name = unsupported_error path ''element {name} is outside the initial project compatibility contract'' [name]"

definition start_metadata :: "string \<Rightarrow> string \<Rightarrow> (string \<times> 'm) list \<Rightarrow> project_attribute list \<Rightarrow> string \<Rightarrow> project_error + 'm" where
  "start_metadata path template table attributes name =
     rbind (validate_attributes path [] attributes) (\<lambda>_.
       ok_or (unsupported_error path template [name]) (map_of table name))"

definition start_in_project :: "string \<Rightarrow> string \<Rightarrow> project_attribute list \<Rightarrow> raw_project \<Rightarrow> project_error + raw_project \<times> xml_context" where
  "start_in_project path name attributes raw =
     (if name = ''PropertyGroup'' then
        rbind (validate_attributes path [''Label''] attributes) (\<lambda>_. Inr (raw, PropertyGroupElement))
      else if name = ''ItemGroup'' then
        rbind (validate_attributes path [''Label'', ''Condition''] attributes) (\<lambda>_.
        rbind (store_condition path attributes (raw_conditions raw)) (\<lambda>(condition, conditions).
          Inr (raw\<lparr>raw_conditions := conditions\<rparr>, ItemGroupElement condition)))
      else if name \<in> {''Import'', ''Target'', ''UsingTask'', ''Sdk''} then
        Inl (unsupported_error path ''{name} is outside the initial project compatibility contract'' [name])
      else Inl (outside_contract path name))"

definition start_in_item_group :: "string \<Rightarrow> string \<Rightarrow> project_attribute list \<Rightarrow> nat \<Rightarrow> raw_project \<Rightarrow> project_error + raw_project \<times> xml_context" where
  "start_in_item_group path name attributes grp raw =
     (if name = ''ProjectReference'' then start_project_reference path attributes grp raw
      else if name = ''PackageReference'' then start_package_reference path attributes grp raw
      else if name = ''FrameworkReference'' then start_framework_reference path attributes grp raw
      else Inl (outside_contract path name))"

text \<open>The new context of a start tag below \<open>parent\<close>, and whether the root has been seen.\<close>

definition start_element :: "string \<Rightarrow> project_element \<Rightarrow> xml_context \<Rightarrow> raw_project \<Rightarrow> bool \<Rightarrow>
    project_error + (raw_project \<times> xml_context) \<times> bool" where
  "start_element path element parent raw root_seen =
     rbind (element_name path (pe_name element)) (\<lambda>name.
       let attributes = pe_attributes element; keep = (\<lambda>r. rbind r (\<lambda>st. Inr (st, root_seen)))
       in case parent of
            DocumentElement \<Rightarrow>
              if name \<noteq> ''Project'' then Inl (outside_contract path name)
              else if root_seen then Inl (xml_error path ''project XML contains multiple root elements'' [])
              else rbind (required_attribute path ''Sdk'' [] attributes) (\<lambda>sdk.
                if sdk \<noteq> SUPPORTED_SDK
                then Inl (unsupported_error path ''project SDK {sdk:?} is unsupported; use {SUPPORTED_SDK}'' [sdk])
                else Inr ((raw, ProjectElement), True))
          | ProjectElement \<Rightarrow> keep (start_in_project path name attributes raw)
          | PropertyGroupElement \<Rightarrow> keep (rbind (validate_attributes path [] attributes) (\<lambda>_.
              rbind (parse_property path name) (\<lambda>p. Inr (raw, PropertyElement p))))
          | ItemGroupElement grp \<Rightarrow> keep (start_in_item_group path name attributes grp raw)
          | PackageReferenceElement i \<Rightarrow> keep (rbind (start_metadata path
              ''package-reference metadata element {name} is not supported here'' package_metadata_table attributes name)
              (\<lambda>m. Inr (raw, PackageMetadataElement i m)))
          | FrameworkReferenceElement i \<Rightarrow> keep (rbind (start_metadata path
              ''framework-reference metadata element {name} is not supported here'' framework_metadata_table attributes name)
              (\<lambda>m. Inr (raw, FrameworkMetadataElement i m)))
          | ProjectReferenceElement \<Rightarrow> Inl (unsupported_error path ''metadata element {name} is not supported here'' [name])
          | PropertyElement _ \<Rightarrow> Inl (unsupported_error path ''nested element {name} is not supported in a property value'' [name])
          | PackageMetadataElement _ _ \<Rightarrow> Inl (unsupported_error path ''nested element {name} is not supported in a property value'' [name])
          | FrameworkMetadataElement _ _ \<Rightarrow> Inl (unsupported_error path ''nested element {name} is not supported in a property value'' [name]))"

section \<open>End tags\<close>

text \<open>The last value of a property stays; metadata may be given once, as an attribute or as an element.
  An index out of range would be a panic.\<close>

definition finish_element :: "string \<Rightarrow> xml_context \<Rightarrow> string \<Rightarrow> raw_project \<Rightarrow> project_error option + raw_project" where
  "finish_element path element text raw =
     (case element of
        PropertyElement PropertyTargetFrameworks \<Rightarrow>
          Inl (Some (unsupported_error path ''multi-target projects are unsupported; use TargetFramework'' []))
      | PropertyElement p \<Rightarrow> Inr (raw\<lparr>raw_properties := (raw_properties raw)(p := Some text)\<rparr>)
      | PackageMetadataElement i m \<Rightarrow>
          if length (raw_package_references raw) \<le> i then Inl None
          else let package = raw_package_references raw ! i
            in if rp_metadata package m \<noteq> None
               then Inl (Some (invalid_property path ''package {:?} declares {name} more than once'' [rp_id package, package_metadata_name m]))
               else Inr (raw\<lparr>raw_package_references := (raw_package_references raw)[i := package\<lparr>rp_metadata := (rp_metadata package)(m := Some text)\<rparr>]\<rparr>)
      | FrameworkMetadataElement i m \<Rightarrow>
          if length (raw_framework_references raw) \<le> i then Inl None
          else let reference = raw_framework_references raw ! i
            in if rf_metadata reference m \<noteq> None
               then Inl (Some (invalid_property path ''framework reference {:?} declares {name} more than once''
                 [rf_id reference, framework_metadata_name m]))
               else Inr (raw\<lparr>raw_framework_references := (raw_framework_references raw)[i := reference\<lparr>rf_metadata := (rf_metadata reference)(m := Some text)\<rparr>]\<rparr>)
      | _ \<Rightarrow> Inr raw)"

section \<open>The file\<close>

definition takes_text :: "xml_context \<Rightarrow> bool" where
  "takes_text element = (case element of PropertyElement _ \<Rightarrow> True | PackageMetadataElement _ _ \<Rightarrow> True
     | FrameworkMetadataElement _ _ \<Rightarrow> True | _ \<Rightarrow> False)"

definition lift_error :: "'e + 'a \<Rightarrow> 'e option + 'a" where
  "lift_error r = map_error Some r"

text \<open>The stack has the innermost element first and the document last; it is never empty.\<close>

definition read_event :: "string \<Rightarrow> project_reader \<Rightarrow> project_event \<Rightarrow> project_error option + project_reader" where
  "read_event path s event =
     (case rd_stack s of
        [] \<Rightarrow> Inl None
      | current # below \<Rightarrow> (case event of
          StartElement element \<Rightarrow>
            rbind (lift_error (start_element path element current (rd_raw s) (rd_root_seen s))) (\<lambda>((raw, entered), root_seen).
              if length (rd_stack s) = MAX_XML_DEPTH then Inl (Some (unsupported_error path ''project XML nesting is too deep'' []))
              else Inr \<lparr>rd_raw = raw, rd_stack = entered # rd_stack s,
                rd_text = (if takes_text entered then [] else rd_text s), rd_root_seen = root_seen\<rparr>)
        | EndElement \<Rightarrow>
            if below = [] then Inl (Some (xml_error path ''project XML contains an unexpected closing element'' []))
            else rbind (finish_element path current (rd_text s) (rd_raw s)) (\<lambda>raw. Inr (s\<lparr>rd_raw := raw, rd_stack := below\<rparr>))
        | TextValue val \<Rightarrow>
            if \<not> takes_text current then Inl (Some (unsupported_error path ''project contains text outside a supported property'' []))
            else rbind (lift_error (map_error (\<lambda>e. xml_error path ''project text is invalid: {error}'' [e]) val)) (\<lambda>v.
              Inr (s\<lparr>rd_text := rd_text s @ v\<rparr>))
        | GeneralReference reference \<Rightarrow>
            if \<not> takes_text current then Inl (Some (unsupported_error path ''project contains an entity outside a supported property'' []))
            else rbind (lift_error (append_reference path reference (rd_text s))) (\<lambda>v. Inr (s\<lparr>rd_text := v\<rparr>))
        | Ignored \<Rightarrow> Inr s
        | UnsupportedConstruct \<Rightarrow>
            Inl (Some (unsupported_error path ''CDATA, processing instructions, and document types are not supported'' []))
        | BadXml e \<Rightarrow> Inl (Some (xml_error path ''invalid project XML at byte {}: {error}'' e))))"

definition parse_project :: "string \<Rightarrow> project_event list \<Rightarrow> project_error option + raw_project" where
  "parse_project path events =
     rbind (try_fold (read_event path)
       \<lparr>rd_raw = default_raw_project, rd_stack = [DocumentElement], rd_text = [], rd_root_seen = False\<rparr> events) (\<lambda>s.
       if length (rd_stack s) \<noteq> 1 \<or> \<not> rd_root_seen s
       then Inl (Some (xml_error path ''project XML does not contain one complete Project element'' []))
       else Inr (rd_raw s))"

end
