(* ===== verification/Project_Document.thy ===== *)
theory Project_Document
  imports Project_Xml
begin

text \<open>
  Project files as documents: groups of properties and of items with their conditions. Reading the XML
  of a document gives back what the document says.
\<close>

section \<open>Documents\<close>

text \<open>Metadata of a reference is written as attributes or as elements below it.\<close>

datatype project_item =
  ProjectItem string
| PackageItem string "(package_metadata \<times> string) list" "(package_metadata \<times> string) list"
| FrameworkItem string "(framework_metadata \<times> string) list" "(framework_metadata \<times> string) list"

datatype project_group =
  Properties "(project_property \<times> string) list"
| Items "string option" "(string option \<times> project_item) list"

type_synonym project_document = "project_group list"

section \<open>Their XML\<close>

definition plain :: "(string \<times> string) list \<Rightarrow> project_attribute list" where
  "plain attributes = map (\<lambda>(name, v). Inr (Inr name, Inr v)) attributes"

definition enclosed :: "string \<Rightarrow> (string \<times> string) list \<Rightarrow> project_event list \<Rightarrow> project_event list" where
  "enclosed name attributes content =
     StartElement \<lparr>pe_name = Inr name, pe_attributes = plain attributes\<rparr> # content @ [EndElement]"

definition valued :: "string \<Rightarrow> string \<Rightarrow> project_event list" where
  "valued name v = enclosed name [] [TextValue (Inr v)]"

definition condition_attribute :: "string option \<Rightarrow> (string \<times> string) list" where
  "condition_attribute condition = (case condition of None \<Rightarrow> [] | Some c \<Rightarrow> [(''Condition'', c)])"

definition property_name :: "project_property \<Rightarrow> string" where
  "property_name p = the (map_of (map (\<lambda>(n, q). (q, n)) property_table) p)"

fun item_events :: "string option \<times> project_item \<Rightarrow> project_event list" where
  "item_events (condition, ProjectItem inc) =
     enclosed ''ProjectReference'' ((''Include'', inc) # condition_attribute condition) []"
| "item_events (condition, PackageItem inc attributes elements) =
     enclosed ''PackageReference'' ((''Include'', inc) # map (\<lambda>(m, v). (package_metadata_name m, v)) attributes @ condition_attribute condition)
       (concat (map (\<lambda>(m, v). valued (package_metadata_name m) v) elements))"
| "item_events (condition, FrameworkItem inc attributes elements) =
     enclosed ''FrameworkReference'' ((''Include'', inc) # map (\<lambda>(m, v). (framework_metadata_name m, v)) attributes @ condition_attribute condition)
       (concat (map (\<lambda>(m, v). valued (framework_metadata_name m) v) elements))"

fun group_events :: "project_group \<Rightarrow> project_event list" where
  "group_events (Properties properties) =
     enclosed ''PropertyGroup'' [] (concat (map (\<lambda>(p, v). valued (property_name p) v) properties))"
| "group_events (Items condition items) =
     enclosed ''ItemGroup'' (condition_attribute condition) (concat (map item_events items))"

definition document_events :: "project_document \<Rightarrow> project_event list" where
  "document_events groups = enclosed ''Project'' [(''Sdk'', SUPPORTED_SDK)] (concat (map group_events groups))"

section \<open>Attributes of plain elements\<close>

lemma plain_simps [simp]: "plain [] = []" "plain ((n, v) # attributes) = Inr (Inr n, Inr v) # plain attributes"
  by (simp_all add: plain_def)

lemma element_name_Inr [simp]: "element_name path (Inr n) = Inr n"
  by (simp add: element_name_def)

lemma attribute_name_plain [simp]: "attribute_name path (Inr (Inr n, v)) = Inr (n, v)"
  by (simp add: attribute_name_def)

lemma attribute_value_plain [simp]: "attribute_value path n (Inr v) = Inr v"
  by (simp add: attribute_value_def)

lemma validate_plain: "fst ` set attributes \<subseteq> set allowed \<Longrightarrow> validate_attributes path allowed (plain attributes) = Inr ()"
  by (induction attributes) (auto simp: allowed_attribute_def)

lemma optional_plain: "optional_attribute path n (plain attributes) = Inr (map_of attributes n)"
  by (induction attributes) auto

lemma find_required_plain:
  "fst ` set attributes \<subseteq> set additional \<Longrightarrow> required \<notin> fst ` set attributes \<Longrightarrow>
    find_required path required additional found (plain attributes) = Inr found"
  by (induction attributes) (auto simp: allowed_attribute_def)

lemma required_plain:
  assumes "fst ` set attributes \<subseteq> set additional" and "required \<noteq> ''Condition''" and "required \<notin> fst ` set attributes"
  shows "required_attribute path required additional (plain ((required, v) # attributes)) = Inr v"
  using assms by (simp add: required_attribute_def ok_or_def allowed_attribute_def find_required_plain)

lemma optional_attributes_plain:
  "optional_attributes path table (plain attributes) m = Inr (foldl (\<lambda>m (n, k). m(k := map_of attributes n)) m table)"
  by (induction table arbitrary: m) (auto simp: optional_plain split: prod.split)

definition condition_ok :: "string option \<Rightarrow> bool" where
  "condition_ok condition \<longleftrightarrow> (case condition of None \<Rightarrow> True | Some c \<Rightarrow> trim c \<noteq> [] \<and> length c \<le> MAX_REFERENCE_CONDITION_BYTES)"

text \<open>A condition gets the next index; no condition the reserved one.\<close>

definition stored :: "string option \<Rightarrow> string list \<Rightarrow> nat \<times> string list" where
  "stored condition conditions =
     (case condition of None \<Rightarrow> (NO_REFERENCE_CONDITION, conditions) | Some c \<Rightarrow> (length conditions, conditions @ [c]))"

lemma store_plain:
  assumes "map_of attributes ''Condition'' = condition" and "condition_ok condition" and "length conditions < 2 ^ 32"
  shows "store_condition path (plain attributes) conditions = Inr (stored condition conditions)"
  using assms by (auto simp: store_condition_def optional_plain condition_ok_def stored_def split: option.splits)

section \<open>Reading a part\<close>

definition reading :: "raw_project \<Rightarrow> xml_context list \<Rightarrow> string \<Rightarrow> project_reader" where
  "reading raw stack text = \<lparr>rd_raw = raw, rd_stack = stack, rd_text = text, rd_root_seen = True\<rparr>"

text \<open>The events are read below a stack, which stays, and add their part to what was read before.\<close>

definition reads :: "string \<Rightarrow> xml_context list \<Rightarrow> raw_project \<Rightarrow> project_event list \<Rightarrow> raw_project \<Rightarrow> bool" where
  "reads path stack raw events raw' \<longleftrightarrow> (\<forall>t. \<exists>t'. try_fold (read_event path) (reading raw stack t) events = Inr (reading raw' stack t'))"

lemma reads_Nil: "reads path stack raw [] raw"
  unfolding reads_def by (intro allI exI) simp

lemma reads_append:
  assumes "reads path stack raw a mid" and "reads path stack mid b raw'"
  shows "reads path stack raw (a @ b) raw'"
  unfolding reads_def
proof
  fix t :: string
  obtain u where u: "try_fold (read_event path) (reading raw stack t) a = Inr (reading mid stack u)"
    using assms(1) unfolding reads_def by blast
  obtain v where v: "try_fold (read_event path) (reading mid stack u) b = Inr (reading raw' stack v)"
    using assms(2) unfolding reads_def by blast
  show "\<exists>t'. try_fold (read_event path) (reading raw stack t) (a @ b) = Inr (reading raw' stack t')"
    using u v by (intro exI [of _ v]) (simp add: try_fold_append)
qed

lemma reads_all:
  assumes "\<And>raw x. x \<in> set xs \<Longrightarrow> P raw \<Longrightarrow> reads path stack raw (f x) (g raw x) \<and> P (g raw x)" and "P raw"
  shows "reads path stack raw (concat (map f xs)) (foldl g raw xs)"
  using assms
proof (induction xs arbitrary: raw)
  case (Cons x xs)
  have "reads path stack (g raw x) (concat (map f xs)) (foldl g (g raw x) xs)"
    by (rule Cons.IH) (use Cons.prems in auto)
  then show ?case using Cons.prems(1) [of x raw] Cons.prems(2) by (auto intro: reads_append)
qed (simp add: reads_Nil)

lemma reads_enclosed:
  assumes start: "start_element path \<lparr>pe_name = Inr name, pe_attributes = plain attributes\<rparr> (hd stack) raw True = Inr ((mid, entered), True)"
    and content: "reads path (entered # stack) mid content last_raw"
    and finish: "\<And>t. finish_element path entered t last_raw = Inr last_raw"
    and stack: "stack \<noteq> []" "length stack < MAX_XML_DEPTH"
  shows "reads path stack raw (enclosed name attributes content) last_raw"
  unfolding reads_def
proof
  fix t :: string
  let ?u = "if takes_text entered then [] else t"
  obtain current below where s: "stack = current # below" using stack(1) by (cases stack) auto
  have enter: "read_event path (reading raw stack t) (StartElement \<lparr>pe_name = Inr name, pe_attributes = plain attributes\<rparr>)
      = Inr (reading mid (entered # stack) ?u)"
    using start stack(2) s by (simp add: read_event_def reading_def lift_error_def)
  obtain v where v: "try_fold (read_event path) (reading mid (entered # stack) ?u) content = Inr (reading last_raw (entered # stack) v)"
    using content unfolding reads_def by blast
  have leave: "read_event path (reading last_raw (entered # stack) v) EndElement = Inr (reading last_raw stack v)"
    using finish stack(1) by (simp add: read_event_def reading_def)
  show "\<exists>t'. try_fold (read_event path) (reading raw stack t) (enclosed name attributes content) = Inr (reading last_raw stack t')"
    unfolding enclosed_def using enter v leave by (intro exI [of _ v]) (simp add: try_fold_append)
qed

lemma reads_valued:
  assumes start: "start_element path \<lparr>pe_name = Inr name, pe_attributes = []\<rparr> (hd stack) raw True = Inr ((raw, entered), True)"
    and takes: "takes_text entered" and finish: "finish_element path entered v raw = Inr raw'"
    and stack: "stack \<noteq> []" "length stack < MAX_XML_DEPTH"
  shows "reads path stack raw (valued name v) raw'"
proof -
  obtain current below where "stack = current # below" using stack(1) by (cases stack) auto
  then show ?thesis
    using assms by (simp add: reads_def valued_def enclosed_def read_event_def reading_def lift_error_def)
qed


section \<open>Metadata\<close>

definition given :: "('m \<Rightarrow> string option) \<Rightarrow> ('m \<times> string) list \<Rightarrow> 'm \<Rightarrow> string option" where
  "given M xs = foldl (\<lambda>M (m, v). M(m := Some v)) M xs"

lemma given_simps [simp]: "given M [] = M" "given M ((m, v) # xs) = given (M(m := Some v)) xs"
  by (simp_all add: given_def)

lemma given_distinct: "distinct (map fst xs) \<Longrightarrow> given M xs m = (case map_of xs m of None \<Rightarrow> M m | Some v \<Rightarrow> Some v)"
proof (induction xs arbitrary: M m)
  case (Cons e xs)
  obtain k v where e: "e = (k, v)" by (cases e)
  then have "map_of xs k = None" using Cons.prems by (simp add: map_of_eq_None_iff)
  moreover have "distinct (map fst xs)" using Cons.prems e by simp
  ultimately show ?case using e by (cases "m = k") (simp_all add: Cons.IH split: option.split)
qed simp

lemma map_of_names:
  assumes "inj f" and "\<And>m. f m \<notin> fst ` set rest"
  shows "map_of (map (\<lambda>(m, v). (f m, v)) xs @ rest) (f m) = map_of xs m"
  by (induction xs) (use assms in \<open>auto simp: inj_eq map_of_eq_None_iff\<close>)

lemma condition_keys: "fst ` set (condition_attribute condition) \<subseteq> {''Condition''}"
  by (auto simp: condition_attribute_def split: option.splits)

lemma map_of_condition: "map_of (condition_attribute condition) ''Condition'' = condition"
  by (simp add: condition_attribute_def split: option.split)

lemma package_names: "inj package_metadata_name" "package_metadata_name m \<noteq> ''Condition''" "package_metadata_name m \<noteq> ''Include''"
  "map_of package_metadata_table (package_metadata_name m) = Some m" "package_metadata_name m \<in> fst ` set package_metadata_table"
proof -
  show "inj package_metadata_name"
  proof (rule injI)
    fix a b
    assume "package_metadata_name a = package_metadata_name b"
    then show "a = b" by (cases a; cases b) simp_all
  qed
qed (cases m; simp add: package_metadata_table_def)+

lemma framework_names: "inj framework_metadata_name" "framework_metadata_name k \<noteq> ''Condition''" "framework_metadata_name k \<noteq> ''Include''"
  "map_of framework_metadata_table (framework_metadata_name k) = Some k" "framework_metadata_name k \<in> fst ` set framework_metadata_table"
proof -
  show "inj framework_metadata_name"
  proof (rule injI)
    fix a b
    assume "framework_metadata_name a = framework_metadata_name b"
    then show "a = b" by (cases a; cases b) simp_all
  qed
qed (cases k; simp add: framework_metadata_table_def)+

lemma property_names: "parse_property path (property_name p) = Inr p"
  by (cases p) (simp_all add: parse_property_def property_name_def property_table_def)

lemma package_table_all: "foldl (\<lambda>m (n, k). m(k := f n)) M package_metadata_table = (\<lambda>k. f (package_metadata_name k))"
  by (rule ext, rename_tac k, case_tac k) (simp_all add: package_metadata_table_def)

lemma framework_table_all: "foldl (\<lambda>m (n, k). m(k := f n)) M framework_metadata_table = (\<lambda>k. f (framework_metadata_name k))"
  by (rule ext, rename_tac k, case_tac k) (simp_all add: framework_metadata_table_def)

lemma package_elements:
  assumes "distinct (map fst elements)" and "\<forall>(m, v) \<in> set elements. M m = None" and "stack \<noteq> []" and "length stack + 1 < MAX_XML_DEPTH"
  shows "reads path (PackageReferenceElement (length refs) # stack)
    (raw\<lparr>raw_package_references := refs @ [r\<lparr>rp_metadata := M\<rparr>]\<rparr>)
    (concat (map (\<lambda>(m, v). valued (package_metadata_name m) v) elements))
    (raw\<lparr>raw_package_references := refs @ [r\<lparr>rp_metadata := given M elements\<rparr>]\<rparr>)"
  using assms(1,2)
proof (induction elements arbitrary: M)
  case (Cons e elements)
  obtain m v where e: "e = (m, v)" by (cases e)
  have "reads path (PackageReferenceElement (length refs) # stack) (raw\<lparr>raw_package_references := refs @ [r\<lparr>rp_metadata := M\<rparr>]\<rparr>)
      (valued (package_metadata_name m) v) (raw\<lparr>raw_package_references := refs @ [r\<lparr>rp_metadata := M(m := Some v)\<rparr>]\<rparr>)"
    by (rule reads_valued [where entered = "PackageMetadataElement (length refs) m"])
      (use Cons.prems e assms(3,4) package_names(2-5) [of m] in
        \<open>auto simp: start_element_def start_metadata_def ok_or_def takes_text_def finish_element_def Let_def\<close>)
  moreover have "reads path (PackageReferenceElement (length refs) # stack) (raw\<lparr>raw_package_references := refs @ [r\<lparr>rp_metadata := M(m := Some v)\<rparr>]\<rparr>)
      (concat (map (\<lambda>(m, v). valued (package_metadata_name m) v) elements))
      (raw\<lparr>raw_package_references := refs @ [r\<lparr>rp_metadata := given (M(m := Some v)) elements\<rparr>]\<rparr>)"
    by (rule Cons.IH) (use Cons.prems e in force)+
  ultimately show ?case using e by (auto intro: reads_append)
qed (simp add: reads_Nil)

lemma framework_elements:
  assumes "distinct (map fst elements)" and "\<forall>(m, v) \<in> set elements. M m = None" and "stack \<noteq> []" and "length stack + 1 < MAX_XML_DEPTH"
  shows "reads path (FrameworkReferenceElement (length refs) # stack)
    (raw\<lparr>raw_framework_references := refs @ [r\<lparr>rf_metadata := M\<rparr>]\<rparr>)
    (concat (map (\<lambda>(m, v). valued (framework_metadata_name m) v) elements))
    (raw\<lparr>raw_framework_references := refs @ [r\<lparr>rf_metadata := given M elements\<rparr>]\<rparr>)"
  using assms(1,2)
proof (induction elements arbitrary: M)
  case (Cons e elements)
  obtain m v where e: "e = (m, v)" by (cases e)
  have "reads path (FrameworkReferenceElement (length refs) # stack) (raw\<lparr>raw_framework_references := refs @ [r\<lparr>rf_metadata := M\<rparr>]\<rparr>)
      (valued (framework_metadata_name m) v) (raw\<lparr>raw_framework_references := refs @ [r\<lparr>rf_metadata := M(m := Some v)\<rparr>]\<rparr>)"
    by (rule reads_valued [where entered = "FrameworkMetadataElement (length refs) m"])
      (use Cons.prems e assms(3,4) framework_names(2-5) [of m] in
        \<open>auto simp: start_element_def start_metadata_def ok_or_def takes_text_def finish_element_def Let_def\<close>)
  moreover have "reads path (FrameworkReferenceElement (length refs) # stack) (raw\<lparr>raw_framework_references := refs @ [r\<lparr>rf_metadata := M(m := Some v)\<rparr>]\<rparr>)
      (concat (map (\<lambda>(m, v). valued (framework_metadata_name m) v) elements))
      (raw\<lparr>raw_framework_references := refs @ [r\<lparr>rf_metadata := given (M(m := Some v)) elements\<rparr>]\<rparr>)"
    by (rule Cons.IH) (use Cons.prems e in force)+
  ultimately show ?case using e by (auto intro: reads_append)
qed (simp add: reads_Nil)


section \<open>What a document says\<close>

fun add_item :: "nat \<Rightarrow> raw_project \<Rightarrow> string option \<times> project_item \<Rightarrow> raw_project" where
  "add_item g raw (condition, item) =
     (let (i, conditions) = stored condition (raw_conditions raw); at = \<lparr>rrc_group = g, rrc_item = i\<rparr>
      in case item of
           ProjectItem inc \<Rightarrow> raw\<lparr>raw_conditions := conditions,
             raw_project_references := raw_project_references raw @ [\<lparr>rj_path = inc, rj_conditions = at\<rparr>]\<rparr>
         | PackageItem inc attributes elements \<Rightarrow> raw\<lparr>raw_conditions := conditions,
             raw_package_references := raw_package_references raw @ [\<lparr>rp_id = inc,
               rp_metadata = given (given (\<lambda>_. None) attributes) elements, rp_conditions = at, rp_central_global = False\<rparr>]\<rparr>
         | FrameworkItem inc attributes elements \<Rightarrow> raw\<lparr>raw_conditions := conditions,
             raw_framework_references := raw_framework_references raw @ [\<lparr>rf_id = inc,
               rf_metadata = given (given (\<lambda>_. None) attributes) elements, rf_conditions = at\<rparr>]\<rparr>)"

fun add_group :: "raw_project \<Rightarrow> project_group \<Rightarrow> raw_project" where
  "add_group raw (Properties properties) = raw\<lparr>raw_properties := given (raw_properties raw) properties\<rparr>"
| "add_group raw (Items condition items) =
     (let (g, conditions) = stored condition (raw_conditions raw)
      in foldl (add_item g) (raw\<lparr>raw_conditions := conditions\<rparr>) items)"

fun item_ok :: "string option \<times> project_item \<Rightarrow> bool" where
  "item_ok (condition, ProjectItem inc) \<longleftrightarrow> condition_ok condition"
| "item_ok (condition, PackageItem inc attributes elements) \<longleftrightarrow> condition_ok condition \<and> distinct (map fst (attributes @ elements))"
| "item_ok (condition, FrameworkItem inc attributes elements) \<longleftrightarrow> condition_ok condition \<and> distinct (map fst (attributes @ elements))"

definition condition_count :: "string option \<Rightarrow> nat" where
  "condition_count condition = (case condition of None \<Rightarrow> 0 | Some _ \<Rightarrow> 1)"

lemma stored_simps [simp]: "stored None cs = (NO_REFERENCE_CONDITION, cs)" "stored (Some c) cs = (length cs, cs @ [c])"
  by (simp_all add: stored_def)

lemma condition_count_simps [simp]: "condition_count None = 0" "condition_count (Some c) = 1"
  by (simp_all add: condition_count_def)

lemma conditions_added [simp]:
  "length (raw_conditions (add_item g raw x)) = length (raw_conditions raw) + condition_count (fst x)"
  by (cases x; cases "fst x"; cases "snd x") auto

lemma given_disjoint: "distinct (map fst (attributes @ elements)) \<Longrightarrow> \<forall>(m, v) \<in> set elements. given (\<lambda>_. None) attributes m = None"
  by (force simp: given_distinct map_of_eq_None_iff dest: map_of_SomeD split: option.split)

lemma package_attributes:
  assumes "distinct (map fst attributes)"
  shows "optional_attributes path package_metadata_table
      (plain ((''Include'', inc) # map (\<lambda>(m, v). (package_metadata_name m, v)) attributes @ condition_attribute condition)) (\<lambda>_. None)
    = Inr (given (\<lambda>_. None) attributes)"
proof -
  have "map_of (map (\<lambda>(m, v). (package_metadata_name m, v)) attributes @ condition_attribute condition) (package_metadata_name k) = map_of attributes k" for k
    by (rule map_of_names) (use package_names condition_keys [of condition] in auto)
  then show ?thesis
    using package_names(3) by (simp add: optional_attributes_plain package_table_all given_distinct [OF assms] fun_eq_iff split: option.split del: plain_simps)
qed

lemma framework_attributes:
  assumes "distinct (map fst attributes)"
  shows "optional_attributes path framework_metadata_table
      (plain ((''Include'', inc) # map (\<lambda>(m, v). (framework_metadata_name m, v)) attributes @ condition_attribute condition)) (\<lambda>_. None)
    = Inr (given (\<lambda>_. None) attributes)"
proof -
  have "map_of (map (\<lambda>(m, v). (framework_metadata_name m, v)) attributes @ condition_attribute condition) (framework_metadata_name k) = map_of attributes k" for k
    by (rule map_of_names) (use framework_names condition_keys [of condition] in auto)
  then show ?thesis
    using framework_names(3) by (simp add: optional_attributes_plain framework_table_all given_distinct [OF assms] fun_eq_iff split: option.split del: plain_simps)
qed

lemma optional_attributes_append:
  "optional_attributes path (a @ b) attributes m = rbind (optional_attributes path a attributes m) (optional_attributes path b attributes)"
  by (induction a arbitrary: m) (auto simp: rbind_def split: sum.split)

lemma condition_found:
  assumes "''Condition'' \<notin> fst ` set attributes"
  shows "map_of (attributes @ condition_attribute condition) ''Condition'' = condition"
  using assms by (force simp: map_of_condition map_add_def dest: map_of_SomeD split: option.split)


section \<open>Items and groups\<close>

definition in_group :: "nat \<Rightarrow> xml_context list" where
  "in_group g = [ItemGroupElement g, ProjectElement, DocumentElement]"

lemma item_read:
  assumes "item_ok (condition, item)" and "length (raw_conditions raw) + condition_count condition \<le> NO_REFERENCE_CONDITION"
  shows "reads path (in_group g) raw (item_events (condition, item)) (add_item g raw (condition, item))"
proof -
  have room: "length (raw_conditions raw) < 2 ^ 32" using assms(2) by (simp add: NO_REFERENCE_CONDITION_def)
  have ok: "condition_ok condition" using assms(1) by (cases item) simp_all
  obtain i cs where stored: "stored condition (raw_conditions raw) = (i, cs)" by (cases "stored condition (raw_conditions raw)")
  let ?at = "\<lparr>rrc_group = g, rrc_item = i\<rparr>"
  show ?thesis
  proof (cases item)
    case (ProjectItem inc)
    let ?attributes = "(''Include'', inc) # condition_attribute condition"
    have required: "required_attribute path ''Include'' [''Condition''] (plain ?attributes) = Inr inc"
      by (rule required_plain) (use condition_keys [of condition] in auto)
    have store: "store_condition path (plain ?attributes) (raw_conditions raw) = Inr (i, cs)"
      using store_plain [OF _ ok room, of ?attributes] stored by (simp add: map_of_condition del: plain_simps)
    show ?thesis unfolding ProjectItem item_events.simps add_item.simps stored
      by (rule reads_enclosed [where entered = ProjectReferenceElement, OF _ reads_Nil])
        (use required store in \<open>simp_all add: in_group_def start_element_def start_in_item_group_def start_project_reference_def
          finish_element_def MAX_XML_DEPTH_def Let_def del: plain_simps\<close>)
  next
    case (PackageItem inc attributes elements)
    let ?named = "map (\<lambda>(m, v). (package_metadata_name m, v)) attributes"
    let ?attributes = "(''Include'', inc) # ?named @ condition_attribute condition"
    have distinct: "distinct (map fst attributes)" "distinct (map fst elements)" using assms(1) PackageItem by simp_all
    have free: "\<forall>(m, v) \<in> set elements. given (\<lambda>_. None) attributes m = None"
      by (rule given_disjoint) (use assms(1) PackageItem in simp)
    have inc: "''Include'' \<notin> fst ` set ?named" using package_names(3) by (auto simp: image_def) metis
    have named: "fst ` set ?named \<subseteq> fst ` set package_metadata_table" using package_names(5) by (auto simp: image_def)
    have required: "required_attribute path ''Include'' (map fst package_metadata_table @ [''Condition'']) (plain ?attributes) = Inr inc"
      by (rule required_plain) (use named inc condition_keys [of condition] in \<open>auto simp: package_metadata_table_def\<close>)
    have missing: "''Condition'' \<notin> fst ` set ((''Include'', inc) # ?named)" using package_names(2) by (auto simp: image_def) metis
    have store: "store_condition path (plain ?attributes) (raw_conditions raw) = Inr (i, cs)"
      using store_plain [OF condition_found [OF missing] ok room] stored by (simp del: plain_simps)
    have metadata: "rbind (optional_attributes path (take 2 package_metadata_table) (plain ?attributes) (\<lambda>_. None)) (\<lambda>versions.
        optional_attributes path (drop 2 package_metadata_table) (plain ?attributes) versions) = Inr (given (\<lambda>_. None) attributes)"
      using package_attributes [OF distinct(1)] by (simp only: optional_attributes_append [symmetric] append_take_drop_id)
    let ?entered = "PackageReferenceElement (length (raw_package_references raw))"
    let ?with = "\<lambda>M. raw\<lparr>raw_conditions := cs, raw_package_references := raw_package_references raw @
        [\<lparr>rp_id = inc, rp_metadata = M, rp_conditions = ?at, rp_central_global = False\<rparr>]\<rparr>"
    have start: "start_package_reference path (plain ?attributes) g raw = Inr (?with (given (\<lambda>_. None) attributes), ?entered)"
      using metadata unfolding start_package_reference_def required store
      by (auto simp: rbind_eq_Inr simp del: plain_simps)
    have content: "reads path (?entered # in_group g) (?with (given (\<lambda>_. None) attributes))
        (concat (map (\<lambda>(m, v). valued (package_metadata_name m) v) elements)) (?with (given (given (\<lambda>_. None) attributes) elements))"
      using package_elements [OF distinct(2), where M = "given (\<lambda>_. None) attributes" and stack = "in_group g" and path = path
          and refs = "raw_package_references raw" and raw = "raw\<lparr>raw_conditions := cs\<rparr>"
          and r = "\<lparr>rp_id = inc, rp_metadata = \<lambda>_. None, rp_conditions = ?at, rp_central_global = False\<rparr>"]
        free by (simp add: in_group_def MAX_XML_DEPTH_def)
    show ?thesis unfolding PackageItem item_events.simps add_item.simps stored
      by (rule reads_enclosed [where entered = ?entered and mid = "?with (given (\<lambda>_. None) attributes)"])
        (use start content in \<open>simp_all add: in_group_def start_element_def start_in_item_group_def
          finish_element_def MAX_XML_DEPTH_def Let_def del: plain_simps\<close>)
  next
    case (FrameworkItem inc attributes elements)
    let ?named = "map (\<lambda>(m, v). (framework_metadata_name m, v)) attributes"
    let ?attributes = "(''Include'', inc) # ?named @ condition_attribute condition"
    have distinct: "distinct (map fst attributes)" "distinct (map fst elements)" using assms(1) FrameworkItem by simp_all
    have free: "\<forall>(m, v) \<in> set elements. given (\<lambda>_. None) attributes m = None"
      by (rule given_disjoint) (use assms(1) FrameworkItem in simp)
    have inc: "''Include'' \<notin> fst ` set ?named" using framework_names(3) by (auto simp: image_def) metis
    have named: "fst ` set ?named \<subseteq> fst ` set framework_metadata_table" using framework_names(5) by (auto simp: image_def)
    have required: "required_attribute path ''Include'' (map fst framework_metadata_table @ [''Condition'']) (plain ?attributes) = Inr inc"
      by (rule required_plain) (use named inc condition_keys [of condition] in \<open>auto simp: framework_metadata_table_def\<close>)
    have missing: "''Condition'' \<notin> fst ` set ((''Include'', inc) # ?named)" using framework_names(2) by (auto simp: image_def) metis
    have store: "store_condition path (plain ?attributes) (raw_conditions raw) = Inr (i, cs)"
      using store_plain [OF condition_found [OF missing] ok room] stored by (simp del: plain_simps)
    note metadata = framework_attributes [OF distinct(1)]
    let ?entered = "FrameworkReferenceElement (length (raw_framework_references raw))"
    let ?with = "\<lambda>M. raw\<lparr>raw_conditions := cs, raw_framework_references := raw_framework_references raw @
        [\<lparr>rf_id = inc, rf_metadata = M, rf_conditions = ?at\<rparr>]\<rparr>"
    have start: "start_framework_reference path (plain ?attributes) g raw = Inr (?with (given (\<lambda>_. None) attributes), ?entered)"
      unfolding start_framework_reference_def required store metadata by (simp del: plain_simps add: metadata)
    have content: "reads path (?entered # in_group g) (?with (given (\<lambda>_. None) attributes))
        (concat (map (\<lambda>(m, v). valued (framework_metadata_name m) v) elements)) (?with (given (given (\<lambda>_. None) attributes) elements))"
      using framework_elements [OF distinct(2), where M = "given (\<lambda>_. None) attributes" and stack = "in_group g" and path = path
          and refs = "raw_framework_references raw" and raw = "raw\<lparr>raw_conditions := cs\<rparr>"
          and r = "\<lparr>rf_id = inc, rf_metadata = \<lambda>_. None, rf_conditions = ?at\<rparr>"]
        free by (simp add: in_group_def MAX_XML_DEPTH_def)
    show ?thesis unfolding FrameworkItem item_events.simps add_item.simps stored
      by (rule reads_enclosed [where entered = ?entered and mid = "?with (given (\<lambda>_. None) attributes)"])
        (use start content in \<open>simp_all add: in_group_def start_element_def start_in_item_group_def
          finish_element_def MAX_XML_DEPTH_def Let_def del: plain_simps\<close>)
  qed
qed


lemma items_read:
  assumes "\<forall>x \<in> set items. item_ok x"
    and "length (raw_conditions raw) + sum_list (map (\<lambda>x. condition_count (fst x)) items) \<le> NO_REFERENCE_CONDITION"
  shows "reads path (in_group g) raw (concat (map item_events items)) (foldl (add_item g) raw items)"
  using assms
proof (induction items arbitrary: raw)
  case (Cons x items)
  obtain condition item where x: "x = (condition, item)" by (cases x)
  have "reads path (in_group g) raw (item_events x) (add_item g raw x)"
    unfolding x by (rule item_read) (use Cons.prems x in simp_all)
  moreover have "reads path (in_group g) (add_item g raw x) (concat (map item_events items)) (foldl (add_item g) (add_item g raw x) items)"
    by (rule Cons.IH) (use Cons.prems in simp_all)
  ultimately show ?case by (auto intro: reads_append)
qed (simp add: reads_Nil)

fun group_ok :: "project_group \<Rightarrow> bool" where
  "group_ok (Properties properties) \<longleftrightarrow> PropertyTargetFrameworks \<notin> fst ` set properties"
| "group_ok (Items condition items) \<longleftrightarrow> condition_ok condition \<and> (\<forall>x \<in> set items. item_ok x)"

fun group_conditions :: "project_group \<Rightarrow> nat" where
  "group_conditions (Properties properties) = 0"
| "group_conditions (Items condition items) = condition_count condition + sum_list (map (\<lambda>x. condition_count (fst x)) items)"

definition document_ok :: "project_document \<Rightarrow> bool" where
  "document_ok groups \<longleftrightarrow> (\<forall>x \<in> set groups. group_ok x) \<and> sum_list (map group_conditions groups) \<le> NO_REFERENCE_CONDITION"

lemma items_conditions [simp]:
  "length (raw_conditions (foldl (add_item g) raw items)) = length (raw_conditions raw) + sum_list (map (\<lambda>x. condition_count (fst x)) items)"
  by (induction items arbitrary: raw) simp_all

lemma stored_length [simp]: "length (snd (stored condition cs)) = length cs + condition_count condition"
  by (cases condition) simp_all

lemma group_conditions_added [simp]:
  "length (raw_conditions (add_group raw x)) = length (raw_conditions raw) + group_conditions x"
  by (cases x) (simp_all add: case_prod_beta)

definition in_project :: "xml_context list" where
  "in_project = [ProjectElement, DocumentElement]"

lemma properties_read:
  assumes "PropertyTargetFrameworks \<notin> fst ` set properties"
  shows "reads path (PropertyGroupElement # in_project) raw (concat (map (\<lambda>(p, v). valued (property_name p) v) properties))
    (raw\<lparr>raw_properties := given (raw_properties raw) properties\<rparr>)"
  using assms
proof (induction properties arbitrary: raw)
  case (Cons e properties)
  obtain p v where e: "e = (p, v)" by (cases e)
  have p: "p \<noteq> PropertyTargetFrameworks" using Cons.prems e by auto
  let ?raw = "raw\<lparr>raw_properties := (raw_properties raw)(p := Some v)\<rparr>"
  have finish: "finish_element path (PropertyElement p) v raw = Inr ?raw"
    using p by (cases p) (simp_all add: finish_element_def)
  have "reads path (PropertyGroupElement # in_project) raw (valued (property_name p) v) ?raw"
    by (rule reads_valued [where entered = "PropertyElement p", OF _ _ finish])
      (simp_all add: start_element_def property_names takes_text_def in_project_def MAX_XML_DEPTH_def)
  moreover have "reads path (PropertyGroupElement # in_project) ?raw (concat (map (\<lambda>(p, v). valued (property_name p) v) properties))
      (?raw\<lparr>raw_properties := given (raw_properties ?raw) properties\<rparr>)"
    by (rule Cons.IH) (use Cons.prems e in auto)
  ultimately show ?case using e by (auto intro: reads_append)
qed (simp add: reads_Nil)

lemma group_read:
  assumes "group_ok x" and "length (raw_conditions raw) + group_conditions x \<le> NO_REFERENCE_CONDITION"
  shows "reads path in_project raw (group_events x) (add_group raw x)"
proof (cases x)
  case (Properties properties)
  have content: "reads path (PropertyGroupElement # in_project) raw (concat (map (\<lambda>(p, v). valued (property_name p) v) properties))
      (raw\<lparr>raw_properties := given (raw_properties raw) properties\<rparr>)"
    by (rule properties_read) (use assms(1) Properties in simp)
  show ?thesis unfolding Properties group_events.simps add_group.simps
    by (rule reads_enclosed [where entered = PropertyGroupElement, OF _ content])
      (simp_all add: in_project_def start_element_def start_in_project_def finish_element_def MAX_XML_DEPTH_def)
next
  case (Items condition items)
  obtain g cs where stored: "stored condition (raw_conditions raw) = (g, cs)" by (cases "stored condition (raw_conditions raw)")
  have cs: "length cs = length (raw_conditions raw) + condition_count condition"
    using stored_length [of condition "raw_conditions raw"] stored by simp
  have store: "store_condition path (plain (condition_attribute condition)) (raw_conditions raw) = Inr (g, cs)"
    using store_plain [OF map_of_condition, of condition "raw_conditions raw" path] assms Items stored
    by (simp add: NO_REFERENCE_CONDITION_def)
  have valid: "validate_attributes path [''Label'', ''Condition''] (plain (condition_attribute condition)) = Inr ()"
    by (rule validate_plain) (use condition_keys [of condition] in auto)
  have content: "reads path (ItemGroupElement g # in_project) (raw\<lparr>raw_conditions := cs\<rparr>) (concat (map item_events items))
      (foldl (add_item g) (raw\<lparr>raw_conditions := cs\<rparr>) items)"
    using items_read [of items "raw\<lparr>raw_conditions := cs\<rparr>" path g] assms Items cs by (simp add: in_group_def in_project_def)
  show ?thesis unfolding Items group_events.simps add_group.simps stored Let_def prod.case
    by (rule reads_enclosed [where entered = "ItemGroupElement g", OF _ content])
      (use store valid in \<open>simp_all add: in_project_def start_element_def start_in_project_def finish_element_def MAX_XML_DEPTH_def\<close>)
qed

lemma groups_read:
  assumes "\<forall>x \<in> set groups. group_ok x" and "length (raw_conditions raw) + sum_list (map group_conditions groups) \<le> NO_REFERENCE_CONDITION"
  shows "reads path in_project raw (concat (map group_events groups)) (foldl add_group raw groups)"
  using assms
proof (induction groups arbitrary: raw)
  case (Cons x groups)
  have "reads path in_project raw (group_events x) (add_group raw x)" by (rule group_read) (use Cons.prems in simp_all)
  moreover have "reads path in_project (add_group raw x) (concat (map group_events groups)) (foldl add_group (add_group raw x) groups)"
    by (rule Cons.IH) (use Cons.prems in simp_all)
  ultimately show ?case by (auto intro: reads_append)
qed (simp add: reads_Nil)

lemma document_read:
  assumes "document_ok doc"
  shows "parse_project path (document_events doc) = Inr (foldl add_group default_raw_project doc)"
proof -
  let ?sdk = "[(''Sdk'', SUPPORTED_SDK)]"
  let ?start = "\<lparr>rd_raw = default_raw_project, rd_stack = [DocumentElement], rd_text = [], rd_root_seen = False\<rparr>"
  have sdk: "required_attribute path ''Sdk'' [] (plain ?sdk) = Inr SUPPORTED_SDK" by (rule required_plain) simp_all
  have enter: "read_event path ?start (StartElement \<lparr>pe_name = Inr ''Project'', pe_attributes = plain ?sdk\<rparr>)
      = Inr (reading default_raw_project in_project [])"
    using sdk by (simp add: read_event_def start_element_def lift_error_def takes_text_def reading_def in_project_def MAX_XML_DEPTH_def Let_def del: plain_simps)
  have content: "reads path in_project default_raw_project (concat (map group_events doc)) (foldl add_group default_raw_project doc)"
    by (rule groups_read) (use assms in \<open>simp_all add: document_ok_def default_raw_project_def\<close>)
  then obtain v where v: "try_fold (read_event path) (reading default_raw_project in_project []) (concat (map group_events doc))
      = Inr (reading (foldl add_group default_raw_project doc) in_project v)"
    unfolding reads_def by blast
  have leave: "read_event path (reading (foldl add_group default_raw_project doc) in_project v) EndElement
      = Inr (reading (foldl add_group default_raw_project doc) [DocumentElement] v)"
    by (simp add: read_event_def reading_def in_project_def finish_element_def)
  show ?thesis
    using enter v leave by (simp add: parse_project_def document_events_def enclosed_def try_fold_append reading_def del: plain_simps)
qed

end
