(* ===== verification/Project_Reading.thy ===== *)
theory Project_Reading
  imports Project_Document
begin

text \<open>
  What the reader of project files guarantees: it never indexes out of a table, every condition index it
  hands on is one of the table or the reserved one, and what it reads of the XML of a document is the
  document.
\<close>

section \<open>Condition indices\<close>

text \<open>Indices that point into the table, which stays below the reserved index.\<close>

definition index_ok :: "string list \<Rightarrow> nat \<Rightarrow> bool" where
  "index_ok conditions i \<longleftrightarrow> i = NO_REFERENCE_CONDITION \<or> i < length conditions"

definition at_ok :: "string list \<Rightarrow> raw_reference_conditions \<Rightarrow> bool" where
  "at_ok conditions at \<longleftrightarrow> index_ok conditions (rrc_group at) \<and> index_ok conditions (rrc_item at)"

definition raw_ok :: "raw_project \<Rightarrow> bool" where
  "raw_ok raw \<longleftrightarrow> (\<forall>r \<in> set (raw_project_references raw). at_ok (raw_conditions raw) (rj_conditions r))
     \<and> (\<forall>r \<in> set (raw_package_references raw). at_ok (raw_conditions raw) (rp_conditions r))
     \<and> (\<forall>r \<in> set (raw_framework_references raw). at_ok (raw_conditions raw) (rf_conditions r))"

lemma index_ok_append: "index_ok cs i \<Longrightarrow> index_ok (cs @ ds) i"
  by (auto simp: index_ok_def)

lemma at_ok_append: "at_ok cs at \<Longrightarrow> at_ok (cs @ ds) at"
  by (simp add: at_ok_def index_ok_append)

lemma raw_ok_append: "raw_ok raw \<Longrightarrow> raw_ok (raw\<lparr>raw_conditions := raw_conditions raw @ ds\<rparr>)"
  by (simp add: raw_ok_def at_ok_append)

lemma store_condition_index:
  assumes "store_condition path attributes conditions = Inr (i, conditions')"
  shows "(\<exists>ds. conditions' = conditions @ ds) \<and> index_ok conditions' i"
proof -
  obtain found where "optional_attribute path ''Condition'' attributes = Inr found"
    using assms by (auto simp: store_condition_def rbind_eq_Inr)
  then show ?thesis using assms by (cases found) (auto simp: store_condition_def index_ok_def Let_def split: if_split_asm)
qed

section \<open>The reader never panics\<close>

definition context_ok :: "raw_project \<Rightarrow> xml_context \<Rightarrow> bool" where
  "context_ok raw element \<longleftrightarrow> (case element of
       ItemGroupElement g \<Rightarrow> index_ok (raw_conditions raw) g
     | PackageReferenceElement i \<Rightarrow> i < length (raw_package_references raw)
     | PackageMetadataElement i _ \<Rightarrow> i < length (raw_package_references raw)
     | FrameworkReferenceElement i \<Rightarrow> i < length (raw_framework_references raw)
     | FrameworkMetadataElement i _ \<Rightarrow> i < length (raw_framework_references raw)
     | _ \<Rightarrow> True)"

definition reader_ok :: "project_reader \<Rightarrow> bool" where
  "reader_ok s \<longleftrightarrow> rd_stack s \<noteq> [] \<and> (\<forall>element \<in> set (rd_stack s). context_ok (rd_raw s) element) \<and> raw_ok (rd_raw s)"

text \<open>Tables only grow, so what was in range stays in range.\<close>

definition grows :: "raw_project \<Rightarrow> raw_project \<Rightarrow> bool" where
  "grows raw raw' \<longleftrightarrow> length (raw_package_references raw) \<le> length (raw_package_references raw')
     \<and> length (raw_framework_references raw) \<le> length (raw_framework_references raw')
     \<and> (\<exists>ds. raw_conditions raw' = raw_conditions raw @ ds) \<and> raw_ok raw'"

lemma context_grows: "context_ok raw element \<Longrightarrow> grows raw raw' \<Longrightarrow> context_ok raw' element"
  by (auto simp: context_ok_def grows_def index_ok_append split: xml_context.splits)

lemma grows_conditions:
  assumes "store_condition path attributes (raw_conditions raw) = Inr (i, conditions)" and "raw_ok raw" and "index_ok (raw_conditions raw) g"
  shows "\<exists>ds. conditions = raw_conditions raw @ ds" "raw_ok (raw\<lparr>raw_conditions := conditions\<rparr>)" "at_ok conditions \<lparr>rrc_group = g, rrc_item = i\<rparr>"
  using store_condition_index [OF assms(1)] assms(2,3) by (auto simp: raw_ok_append at_ok_def index_ok_append)

lemma project_start_grows:
  assumes "start_project_reference path attributes g raw = Inr (raw', entered)" and "raw_ok raw" and "index_ok (raw_conditions raw) g"
  shows "grows raw raw' \<and> context_ok raw' entered"
proof -
  obtain i conditions inc where store: "store_condition path attributes (raw_conditions raw) = Inr (i, conditions)"
    and entered: "entered = ProjectReferenceElement"
    and raw': "raw' = raw\<lparr>raw_conditions := conditions, raw_project_references := raw_project_references raw @ [\<lparr>rj_path = inc, rj_conditions = \<lparr>rrc_group = g, rrc_item = i\<rparr>\<rparr>]\<rparr>"
    using assms(1) by (auto simp: start_project_reference_def rbind_eq_Inr)
  note at = grows_conditions [OF store assms(2,3)]
  show ?thesis using at unfolding entered raw' by (auto simp: grows_def context_ok_def raw_ok_def)
qed

lemma package_start_grows:
  assumes "start_package_reference path attributes g raw = Inr (raw', entered)" and "raw_ok raw" and "index_ok (raw_conditions raw) g"
  shows "grows raw raw' \<and> context_ok raw' entered"
proof -
  obtain i conditions inc M where store: "store_condition path attributes (raw_conditions raw) = Inr (i, conditions)"
    and entered: "entered = PackageReferenceElement (length (raw_package_references raw))"
    and raw': "raw' = raw\<lparr>raw_conditions := conditions, raw_package_references := raw_package_references raw @ [\<lparr>rp_id = inc, rp_metadata = M, rp_conditions = \<lparr>rrc_group = g, rrc_item = i\<rparr>, rp_central_global = False\<rparr>]\<rparr>"
    using assms(1) by (auto simp: start_package_reference_def rbind_eq_Inr)
  note at = grows_conditions [OF store assms(2,3)]
  show ?thesis using at unfolding entered raw' by (auto simp: grows_def context_ok_def raw_ok_def)
qed

lemma framework_start_grows:
  assumes "start_framework_reference path attributes g raw = Inr (raw', entered)" and "raw_ok raw" and "index_ok (raw_conditions raw) g"
  shows "grows raw raw' \<and> context_ok raw' entered"
proof -
  obtain i conditions inc M where store: "store_condition path attributes (raw_conditions raw) = Inr (i, conditions)"
    and entered: "entered = FrameworkReferenceElement (length (raw_framework_references raw))"
    and raw': "raw' = raw\<lparr>raw_conditions := conditions, raw_framework_references := raw_framework_references raw @ [\<lparr>rf_id = inc, rf_metadata = M, rf_conditions = \<lparr>rrc_group = g, rrc_item = i\<rparr>\<rparr>]\<rparr>"
    using assms(1) by (auto simp: start_framework_reference_def rbind_eq_Inr)
  note at = grows_conditions [OF store assms(2,3)]
  show ?thesis using at unfolding entered raw' by (auto simp: grows_def context_ok_def raw_ok_def)
qed

lemma item_start_grows:
  assumes "start_in_item_group path name attributes g raw = Inr (raw', entered)" and "raw_ok raw" and "index_ok (raw_conditions raw) g"
  shows "grows raw raw' \<and> context_ok raw' entered"
  using assms project_start_grows package_start_grows framework_start_grows
  by (auto simp: start_in_item_group_def split: if_splits)

lemma start_grows:
  assumes "start_element path element parent raw seen = Inr ((raw', entered), seen')" and "context_ok raw parent" and "raw_ok raw"
  shows "grows raw raw' \<and> context_ok raw' entered"
proof (cases parent)
  case (ItemGroupElement g)
  then show ?thesis using assms item_start_grows [of path _ _ g raw raw' entered]
    by (auto simp: start_element_def Let_def rbind_eq_Inr context_ok_def)
next
  case ProjectElement
  then show ?thesis using assms store_condition_index
    by (fastforce simp: start_element_def start_in_project_def Let_def rbind_eq_Inr grows_def context_ok_def raw_ok_append split: if_splits)
qed (use assms in \<open>auto simp: start_element_def Let_def rbind_eq_Inr grows_def context_ok_def split: if_splits\<close>)

lemma finish_ok:
  assumes "context_ok raw element"
  shows "finish_element path element t raw \<noteq> Inl None"
  using assms by (auto simp: finish_element_def context_ok_def Let_def split: xml_context.splits project_property.splits if_splits)

lemma finish_grows:
  assumes "context_ok raw element" and "finish_element path element t raw = Inr raw'" and "raw_ok raw"
  shows "grows raw raw'"
proof (cases element)
  case (PropertyElement p)
  then show ?thesis using assms(2,3) by (cases p) (auto simp: finish_element_def grows_def raw_ok_def)
next
  case (PackageMetadataElement i m)
  then have i: "i < length (raw_package_references raw)" using assms(1) by (simp add: context_ok_def)
  then have "at_ok (raw_conditions raw) (rp_conditions (raw_package_references raw ! i))" using assms(3) by (simp add: raw_ok_def)
  then show ?thesis using i assms(2,3) PackageMetadataElement set_update_subset_insert
    by (fastforce simp: finish_element_def grows_def raw_ok_def Let_def split: if_splits)
next
  case (FrameworkMetadataElement i m)
  then have i: "i < length (raw_framework_references raw)" using assms(1) by (simp add: context_ok_def)
  then have "at_ok (raw_conditions raw) (rf_conditions (raw_framework_references raw ! i))" using assms(3) by (simp add: raw_ok_def)
  then show ?thesis using i assms(2,3) FrameworkMetadataElement set_update_subset_insert
    by (fastforce simp: finish_element_def grows_def raw_ok_def Let_def split: if_splits)
qed (use assms(2,3) in \<open>simp_all add: finish_element_def grows_def\<close>)

lemma read_event_ok:
  assumes "reader_ok s"
  shows "outcome (\<lambda>e. e \<noteq> None) reader_ok (read_event path s event)"
proof -
  obtain current below where stack: "rd_stack s = current # below" using assms by (cases "rd_stack s") (auto simp: reader_ok_def)
  have current: "context_ok (rd_raw s) current" "raw_ok (rd_raw s)" using assms stack by (simp_all add: reader_ok_def)
  have finish_error: "\<exists>y. e = Some y" if "finish_element path current t (rd_raw s) = Inl e" for t e
    using finish_ok [OF current(1), of path t] that by (cases e) auto
  have "read_event path s event \<noteq> Inl None"
    using stack finish_error by (cases event) (auto simp: read_event_def lift_error_def map_error_def rbind_def split: sum.splits)
  moreover have "reader_ok s'" if s': "read_event path s event = Inr s'" for s'
  proof (cases event)
    case (StartElement element)
    then obtain raw entered seen where start: "start_element path element current (rd_raw s) (rd_root_seen s) = Inr ((raw, entered), seen)"
      and new: "rd_raw s' = raw" "rd_stack s' = entered # rd_stack s"
      using s' stack by (auto simp: read_event_def lift_error_def map_error_Inr rbind_eq_Inr split: if_splits)
    show ?thesis using start_grows [OF start current] new assms by (auto simp: reader_ok_def grows_def intro: context_grows)
  next
    case EndElement
    then obtain raw where finish: "finish_element path current (rd_text s) (rd_raw s) = Inr raw"
      and new: "rd_raw s' = raw" "rd_stack s' = below" "below \<noteq> []"
      using s' stack by (auto simp: read_event_def rbind_eq_Inr split: if_splits)
    have "grows (rd_raw s) raw" by (rule finish_grows [OF current(1) finish current(2)])
    then show ?thesis using new assms stack by (auto simp: reader_ok_def grows_def intro: context_grows)
  qed (use s' stack assms in \<open>auto simp: read_event_def rbind_eq_Inr reader_ok_def split: if_splits\<close>)
  ultimately show ?thesis by (cases "read_event path s event") auto
qed


section \<open>The document that was read\<close>

text \<open>The conditions of a row by their text.\<close>

definition condition_at :: "string list \<Rightarrow> nat \<Rightarrow> string option" where
  "condition_at conditions i = (if i = NO_REFERENCE_CONDITION then None else Some (conditions ! i))"

definition conditions_at :: "string list \<Rightarrow> raw_reference_conditions \<Rightarrow> string option \<times> string option" where
  "conditions_at conditions at = (condition_at conditions (rrc_group at), condition_at conditions (rrc_item at))"

definition project_rows :: "raw_project \<Rightarrow> ((string option \<times> string option) \<times> string) list" where
  "project_rows raw = map (\<lambda>r. (conditions_at (raw_conditions raw) (rj_conditions r), rj_path r)) (raw_project_references raw)"

definition package_rows :: "raw_project \<Rightarrow> ((string option \<times> string option) \<times> string \<times> (package_metadata \<Rightarrow> string option)) list" where
  "package_rows raw = map (\<lambda>r. (conditions_at (raw_conditions raw) (rp_conditions r), rp_id r, rp_metadata r)) (raw_package_references raw)"

definition framework_rows :: "raw_project \<Rightarrow> ((string option \<times> string option) \<times> string \<times> (framework_metadata \<Rightarrow> string option)) list" where
  "framework_rows raw = map (\<lambda>r. (conditions_at (raw_conditions raw) (rf_conditions r), rf_id r, rf_metadata r)) (raw_framework_references raw)"

text \<open>The same rows of a document, in its order.\<close>

fun group_items :: "project_group \<Rightarrow> ((string option \<times> string option) \<times> project_item) list" where
  "group_items (Properties properties) = []"
| "group_items (Items gc items) = map (\<lambda>(ic, item). ((gc, ic), item)) items"

fun group_properties :: "project_group \<Rightarrow> (project_property \<times> string) list" where
  "group_properties (Properties properties) = properties"
| "group_properties (Items gc items) = []"

fun as_project :: "(string option \<times> string option) \<times> project_item \<Rightarrow> ((string option \<times> string option) \<times> string) list" where
  "as_project (cs, ProjectItem inc) = [(cs, inc)]"
| "as_project (cs, _) = []"

fun as_package :: "(string option \<times> string option) \<times> project_item \<Rightarrow>
    ((string option \<times> string option) \<times> string \<times> (package_metadata \<Rightarrow> string option)) list" where
  "as_package (cs, PackageItem inc attributes elements) = [(cs, inc, map_of (attributes @ elements))]"
| "as_package (cs, _) = []"

fun as_framework :: "(string option \<times> string option) \<times> project_item \<Rightarrow>
    ((string option \<times> string option) \<times> string \<times> (framework_metadata \<Rightarrow> string option)) list" where
  "as_framework (cs, FrameworkItem inc attributes elements) = [(cs, inc, map_of (attributes @ elements))]"
| "as_framework (cs, _) = []"

definition document_items :: "project_document \<Rightarrow> ((string option \<times> string option) \<times> project_item) list" where
  "document_items doc = concat (map group_items doc)"

lemma condition_at_append: "index_ok cs i \<Longrightarrow> condition_at (cs @ ds) i = condition_at cs i"
  by (auto simp: index_ok_def condition_at_def nth_append)

lemma conditions_at_append: "at_ok cs at \<Longrightarrow> conditions_at (cs @ ds) at = conditions_at cs at"
  by (simp add: at_ok_def conditions_at_def condition_at_append)

lemma stored_condition:
  assumes "stored c cs = (i, cs')" and "length cs + condition_count c \<le> NO_REFERENCE_CONDITION"
  shows "\<exists>ds. cs' = cs @ ds" "index_ok cs' i" "condition_at cs' i = c"
  using assms by (cases c; auto simp: index_ok_def condition_at_def)+

text \<open>More conditions change no row.\<close>

lemma rows_append:
  assumes "raw_ok raw" and cs: "cs = raw_conditions raw @ ds"
  shows "project_rows (raw\<lparr>raw_conditions := cs\<rparr>) = project_rows raw" "package_rows (raw\<lparr>raw_conditions := cs\<rparr>) = package_rows raw"
    "framework_rows (raw\<lparr>raw_conditions := cs\<rparr>) = framework_rows raw" "raw_ok (raw\<lparr>raw_conditions := cs\<rparr>)"
  using assms
  by (auto simp: raw_ok_def project_rows_def package_rows_def framework_rows_def conditions_at_append at_ok_append)

lemma given_all:
  assumes "distinct (map fst (attributes @ elements))"
  shows "given (given (\<lambda>_. None) attributes) elements = map_of (attributes @ elements)"
proof
  fix m
  have "given (\<lambda>_. None) (attributes @ elements) m = map_of (attributes @ elements) m"
    unfolding given_distinct [OF assms] by (simp del: map_of_append split: option.split)
  moreover have "given (\<lambda>_. None) (attributes @ elements) = given (given (\<lambda>_. None) attributes) elements" by (simp add: given_def)
  ultimately show "given (given (\<lambda>_. None) attributes) elements m = map_of (attributes @ elements) m" by simp
qed

text \<open>The rows of a project, gathered.\<close>

definition says :: "raw_project \<Rightarrow> ((string option \<times> string option) \<times> project_item) list \<Rightarrow> bool" where
  "says raw items \<longleftrightarrow> raw_ok raw \<and> project_rows raw = concat (map as_project items)
     \<and> package_rows raw = concat (map as_package items) \<and> framework_rows raw = concat (map as_framework items)"

lemma item_said:
  assumes "says raw before" and "item_ok (ic, item)"
    and room: "length (raw_conditions raw) + condition_count ic \<le> NO_REFERENCE_CONDITION"
    and g: "index_ok (raw_conditions raw) g" "condition_at (raw_conditions raw) g = gc"
  shows "says (add_item g raw (ic, item)) (before @ [((gc, ic), item)])"
    and "\<exists>ds. raw_conditions (add_item g raw (ic, item)) = raw_conditions raw @ ds"
proof -
  obtain i cs where stored: "stored ic (raw_conditions raw) = (i, cs)" by (cases "stored ic (raw_conditions raw)")
  obtain ds where cs: "cs = raw_conditions raw @ ds" using stored_condition(1) [OF stored room] by blast
  note i = stored_condition(2,3) [OF stored room]
  have ok: "raw_ok raw" using assms(1) by (simp add: says_def)
  let ?at = "\<lparr>rrc_group = g, rrc_item = i\<rparr>"
  have at: "at_ok cs ?at" "conditions_at cs ?at = (gc, ic)"
    using i g index_ok_append [OF g(1), of ds] condition_at_append [OF g(1), of ds] by (simp_all add: cs at_ok_def conditions_at_def)
  have before: "says (raw\<lparr>raw_conditions := cs\<rparr>) before" using assms(1) rows_append [OF ok cs] by (simp add: says_def)
  show "says (add_item g raw (ic, item)) (before @ [((gc, ic), item)])"
    using before at stored assms(2)
    by (cases item) (auto simp: says_def raw_ok_def project_rows_def package_rows_def framework_rows_def given_all)
  show "\<exists>ds. raw_conditions (add_item g raw (ic, item)) = raw_conditions raw @ ds"
    using cs stored by (cases item) auto
qed

lemma items_said:
  assumes "says raw before" and "\<forall>x \<in> set items. item_ok x"
    and "length (raw_conditions raw) + sum_list (map (\<lambda>x. condition_count (fst x)) items) \<le> NO_REFERENCE_CONDITION"
    and "index_ok (raw_conditions raw) g" and "condition_at (raw_conditions raw) g = gc"
  shows "says (foldl (add_item g) raw items) (before @ map (\<lambda>(ic, item). ((gc, ic), item)) items)"
  using assms
proof (induction items arbitrary: raw before)
  case (Cons x items)
  obtain ic item where x: "x = (ic, item)" by (cases x)
  have room: "length (raw_conditions raw) + condition_count ic \<le> NO_REFERENCE_CONDITION" using Cons.prems(3) x by simp
  have ok: "item_ok (ic, item)" using Cons.prems(2) x by simp
  note said = item_said [OF Cons.prems(1) ok room Cons.prems(4,5)]
  obtain ds where ds: "raw_conditions (add_item g raw x) = raw_conditions raw @ ds" using said(2) x by blast
  have "says (foldl (add_item g) (add_item g raw x) items) ((before @ [((gc, ic), item)]) @ map (\<lambda>(ic, item). ((gc, ic), item)) items)"
  proof (rule Cons.IH)
    show "says (add_item g raw x) (before @ [((gc, ic), item)])" using said(1) x by simp
    show "index_ok (raw_conditions (add_item g raw x)) g" "condition_at (raw_conditions (add_item g raw x)) g = gc"
      using Cons.prems(4,5) by (simp_all only: ds index_ok_append condition_at_append)
  qed (use Cons.prems x in \<open>simp_all del: add_item.simps\<close>)
  then show ?case using x by (simp del: add_item.simps)
qed simp

lemma add_item_properties [simp]: "raw_properties (foldl (add_item g) raw items) = raw_properties raw"
proof (induction items arbitrary: raw)
  case (Cons x items)
  obtain ic item where x: "x = (ic, item)" by (cases x)
  have "raw_properties (add_item g raw x) = raw_properties raw" unfolding x by (cases item) (simp_all add: case_prod_beta)
  then show ?case using Cons.IH by simp
qed simp

lemma group_said:
  assumes "says raw before" and "group_ok x" and "length (raw_conditions raw) + group_conditions x \<le> NO_REFERENCE_CONDITION"
  shows "says (add_group raw x) (before @ group_items x)"
    and "raw_properties (add_group raw x) = given (raw_properties raw) (group_properties x)"
proof -
  show "says (add_group raw x) (before @ group_items x)"
  proof (cases x)
    case (Properties properties)
    then show ?thesis using assms(1) by (simp add: says_def raw_ok_def project_rows_def package_rows_def framework_rows_def)
  next
    case (Items gc items)
    obtain g cs where stored: "stored gc (raw_conditions raw) = (g, cs)" by (cases "stored gc (raw_conditions raw)")
    have room: "length (raw_conditions raw) + condition_count gc \<le> NO_REFERENCE_CONDITION" using assms(3) Items by simp
    obtain ds where cs: "cs = raw_conditions raw @ ds" using stored_condition(1) [OF stored room] by blast
    have "says (raw\<lparr>raw_conditions := cs\<rparr>) before" using assms(1) rows_append [OF _ cs] by (simp add: says_def)
    moreover have "length cs = length (raw_conditions raw) + condition_count gc"
      using stored_length [of gc "raw_conditions raw"] stored by simp
    ultimately show ?thesis
      using items_said [of "raw\<lparr>raw_conditions := cs\<rparr>" before items g gc] assms(2,3) Items stored_condition(2,3) [OF stored room] stored by simp
  qed
  show "raw_properties (add_group raw x) = given (raw_properties raw) (group_properties x)"
    by (cases x) (simp_all add: case_prod_beta)
qed

lemma groups_said:
  assumes "says raw before" and "\<forall>x \<in> set doc. group_ok x"
    and "length (raw_conditions raw) + sum_list (map group_conditions doc) \<le> NO_REFERENCE_CONDITION"
  shows "says (foldl add_group raw doc) (before @ concat (map group_items doc))
    \<and> raw_properties (foldl add_group raw doc) = given (raw_properties raw) (concat (map group_properties doc))"
  using assms
proof (induction doc arbitrary: raw before)
  case (Cons x doc)
  have room: "length (raw_conditions raw) + group_conditions x \<le> NO_REFERENCE_CONDITION" and ok: "group_ok x" using Cons.prems by simp_all
  note said = group_said [OF Cons.prems(1) ok room]
  have "says (foldl add_group (add_group raw x) doc) ((before @ group_items x) @ concat (map group_items doc))
      \<and> raw_properties (foldl add_group (add_group raw x) doc) = given (raw_properties (add_group raw x)) (concat (map group_properties doc))"
    by (rule Cons.IH) (use Cons.prems said(1) in simp_all)
  then show ?case using said(2) by (simp add: given_def)
qed simp

lemma given_last: "given M xs p = (case map_of (rev xs) p of None \<Rightarrow> M p | Some v \<Rightarrow> Some v)"
  by (induction xs arbitrary: M) (auto simp: map_add_def split: option.split)

text \<open>C7: Reading the XML of a project document gives the document back. Every property has its last value;
  project, package and framework references stand in the order of the document, each with the texts of
  its group's and its own condition and with the metadata of its attributes and elements. The document
  has conditions that are not blank and not too long, fewer of them than the reserved index, metadata
  that is given once, and no TargetFrameworks.\<close>
theorem project_file_read:
  assumes "document_ok doc"
  shows "\<exists>raw. parse_project path (document_events doc) = Inr raw
    \<and> raw_properties raw = map_of (rev (concat (map group_properties doc)))
    \<and> project_rows raw = concat (map as_project (document_items doc))
    \<and> package_rows raw = concat (map as_package (document_items doc))
    \<and> framework_rows raw = concat (map as_framework (document_items doc))"
proof -
  have "says default_raw_project []"
    by (simp add: says_def raw_ok_def project_rows_def package_rows_def framework_rows_def default_raw_project_def)
  from groups_said [OF this, of doc] have "says (foldl add_group default_raw_project doc) (document_items doc)"
    "raw_properties (foldl add_group default_raw_project doc) = given (\<lambda>_. None) (concat (map group_properties doc))"
    using assms by (simp_all add: document_ok_def default_raw_project_def document_items_def)
  then show ?thesis
    using document_read [OF assms, of path] by (auto simp: says_def given_last fun_eq_iff split: option.split)
qed

definition example_document :: project_document where
  "example_document = [Properties [(PropertyTargetFramework, ''net8.0''), (PropertyNullable, ''disable''), (PropertyNullable, ''enable'')],
     Items (Some ''true'') [(None, ProjectItem ''../Lib/Lib.csproj''),
       (Some ''false'', PackageItem ''Newtonsoft.Json'' [(MetadataVersion, ''13.0.3'')] [(MetadataPrivateAssets, ''all'')])]]"

lemma project_file_read_witness:
  "\<exists>raw. parse_project ''App.csproj'' (document_events example_document) = Inr raw
    \<and> raw_properties raw = map_of (rev (concat (map group_properties example_document)))
    \<and> project_rows raw = concat (map as_project (document_items example_document))
    \<and> package_rows raw = concat (map as_package (document_items example_document))
    \<and> framework_rows raw = concat (map as_framework (document_items example_document))"
  by (rule project_file_read)
    (simp add: document_ok_def example_document_def condition_ok_def condition_count_def str_eval MAX_REFERENCE_CONDITION_BYTES_def NO_REFERENCE_CONDITION_def)

end
