(* ===== verification/Central_Packages.thy ===== *)
theory Central_Packages
  imports Project_Xml Rust_Map
begin

text \<open>
  \<open>crates/dv-core/src/project.rs\<close>: \<open>Directory.Packages.props\<close>. Reading the events of the file, selecting
  the rows whose conditions hold, the sorted table of versions without duplicates and its fingerprint.
  As for project files, the XML reader gives the events; the hash function is a parameter.
\<close>

section \<open>What the file says\<close>

definition MAX_CENTRAL_PACKAGE_ROWS :: nat where "MAX_CENTRAL_PACKAGE_ROWS = 100000"

datatype central_property =
  ManagePackageVersionsCentrally | CentralPackageTransitivePinningEnabled | CentralPackageVersionOverrideEnabled

datatype central_context =
  CentralDocument | CentralProject | CentralPropertyGroup | CentralItemGroup nat | CentralPropertyElement central_property
| PackageVersionElement nat | PackageVersionValue nat | GlobalPackageElement nat | GlobalPackageMetadata nat package_metadata

record raw_central_version =
  rv_id :: string
  rv_version :: "string option"
  rv_conditions :: raw_reference_conditions

record raw_central_packages =
  rc_path :: "string option"
  rc_properties :: "central_property \<Rightarrow> string option"
  rc_conditions :: "string list"
  rc_versions :: "raw_central_version list"
  rc_globals :: "raw_package_reference list"

definition default_central_packages :: raw_central_packages where
  "default_central_packages = \<lparr>rc_path = None, rc_properties = (\<lambda>_. None), rc_conditions = [], rc_versions = [], rc_globals = []\<rparr>"

section \<open>Start and end tags\<close>

definition central_property_table :: "(string \<times> central_property) list" where
  "central_property_table =
     [(''ManagePackageVersionsCentrally'', ManagePackageVersionsCentrally),
      (''CentralPackageTransitivePinningEnabled'', CentralPackageTransitivePinningEnabled),
      (''CentralPackageVersionOverrideEnabled'', CentralPackageVersionOverrideEnabled)]"

definition start_package_version :: "string \<Rightarrow> project_attribute list \<Rightarrow> nat \<Rightarrow> raw_central_packages \<Rightarrow>
    project_error + raw_central_packages \<times> central_context" where
  "start_package_version path attributes grp raw =
     (if length (rc_versions raw) = MAX_CENTRAL_PACKAGE_ROWS then
        Inl (unsupported_error path ''Directory.Packages.props contains more than {MAX_CENTRAL_PACKAGE_ROWS} PackageVersion rows'' [])
      else rbind (required_attribute path ''Include'' [''Version'', ''Condition''] attributes) (\<lambda>inc.
        rbind (store_condition path attributes (rc_conditions raw)) (\<lambda>(item, conditions).
        rbind (optional_attribute path ''Version'' attributes) (\<lambda>version.
          Inr (raw\<lparr>rc_conditions := conditions, rc_versions := rc_versions raw @
            [\<lparr>rv_id = inc, rv_version = version, rv_conditions = \<lparr>rrc_group = grp, rrc_item = item\<rparr>\<rparr>]\<rparr>,
            PackageVersionElement (length (rc_versions raw)))))))"

definition start_global_package :: "string \<Rightarrow> project_attribute list \<Rightarrow> nat \<Rightarrow> raw_central_packages \<Rightarrow>
    project_error + raw_central_packages \<times> central_context" where
  "start_global_package path attributes grp raw =
     (if length (rc_globals raw) = MAX_CENTRAL_PACKAGE_ROWS then
        Inl (unsupported_error path ''Directory.Packages.props contains more than {MAX_CENTRAL_PACKAGE_ROWS} GlobalPackageReference rows'' [])
      else rbind (required_attribute path ''Include'' [''Version'', ''Condition''] attributes) (\<lambda>inc.
        rbind (store_condition path attributes (rc_conditions raw)) (\<lambda>(item, conditions).
        rbind (optional_attribute path ''Version'' attributes) (\<lambda>version.
          Inr (raw\<lparr>rc_conditions := conditions, rc_globals := rc_globals raw @
            [\<lparr>rp_id = inc, rp_metadata = (\<lambda>_. None)(MetadataVersion := version),
              rp_conditions = \<lparr>rrc_group = grp, rrc_item = item\<rparr>, rp_central_global = True\<rparr>]\<rparr>,
            GlobalPackageElement (length (rc_globals raw)))))))"

definition start_central_group :: "string \<Rightarrow> string \<Rightarrow> project_attribute list \<Rightarrow> raw_central_packages \<Rightarrow>
    project_error + raw_central_packages \<times> central_context" where
  "start_central_group path name attributes raw =
     (if name = ''PropertyGroup'' then
        rbind (validate_attributes path [''Label''] attributes) (\<lambda>_. Inr (raw, CentralPropertyGroup))
      else if name = ''ItemGroup'' then
        rbind (validate_attributes path [''Label'', ''Condition''] attributes) (\<lambda>_.
        rbind (store_condition path attributes (rc_conditions raw)) (\<lambda>(condition, conditions).
          Inr (raw\<lparr>rc_conditions := conditions\<rparr>, CentralItemGroup condition)))
      else Inl (unsupported_error path ''element {name} is outside the RES-006 Directory.Packages.props contract'' [name]))"

definition start_central_element :: "string \<Rightarrow> project_element \<Rightarrow> central_context \<Rightarrow> raw_central_packages \<Rightarrow> bool \<Rightarrow>
    project_error + (raw_central_packages \<times> central_context) \<times> bool" where
  "start_central_element path element parent raw root_seen =
     rbind (element_name path (pe_name element)) (\<lambda>name.
       let attributes = pe_attributes element; keep = (\<lambda>r. rbind r (\<lambda>st. Inr (st, root_seen)));
         outside = unsupported_error path ''element {name} is outside the RES-006 Directory.Packages.props contract'' [name];
         nested = unsupported_error path ''nested element {name} is not supported in a central package value'' [name]
       in case parent of
            CentralDocument \<Rightarrow>
              if name \<noteq> ''Project'' then Inl outside
              else if root_seen then Inl (xml_error path ''Directory.Packages.props contains multiple root elements'' [])
              else rbind (validate_attributes path [] attributes) (\<lambda>_. Inr ((raw, CentralProject), True))
          | CentralProject \<Rightarrow> keep (start_central_group path name attributes raw)
          | CentralPropertyGroup \<Rightarrow> keep (rbind (validate_attributes path [] attributes) (\<lambda>_.
              rbind (ok_or (unsupported_error path ''central package property {name} is outside the RES-006 compatibility contract'' [name])
                (map_of central_property_table name)) (\<lambda>p. Inr (raw, CentralPropertyElement p))))
          | CentralItemGroup grp \<Rightarrow> keep
              (if name = ''PackageVersion'' then start_package_version path attributes grp raw
               else if name = ''GlobalPackageReference'' then start_global_package path attributes grp raw
               else Inl outside)
          | PackageVersionElement i \<Rightarrow>
              if name = ''Version'' then keep (rbind (validate_attributes path [] attributes) (\<lambda>_. Inr (raw, PackageVersionValue i)))
              else Inl (unsupported_error path ''PackageVersion metadata element {name} is not supported here'' [name])
          | GlobalPackageElement i \<Rightarrow> keep (rbind (validate_attributes path [] attributes) (\<lambda>_.
              if name = ''Version'' then Inr (raw, GlobalPackageMetadata i MetadataVersion)
              else Inl (unsupported_error path ''global-package metadata element {name} is not supported here'' [name])))
          | CentralPropertyElement _ \<Rightarrow> Inl nested
          | PackageVersionValue _ \<Rightarrow> Inl nested
          | GlobalPackageMetadata _ _ \<Rightarrow> Inl nested)"

text \<open>\<open>Inl None\<close> is a panic: an index out of range or the arm marked unreachable.\<close>

definition finish_central_element :: "string \<Rightarrow> central_context \<Rightarrow> string \<Rightarrow> raw_central_packages \<Rightarrow>
    project_error option + raw_central_packages" where
  "finish_central_element path element text raw =
     (case element of
        CentralPropertyElement p \<Rightarrow> Inr (raw\<lparr>rc_properties := (rc_properties raw)(p := Some text)\<rparr>)
      | PackageVersionValue i \<Rightarrow>
          if length (rc_versions raw) \<le> i then Inl None
          else let package = rc_versions raw ! i
            in if rv_version package \<noteq> None
               then Inl (Some (invalid_property path ''central package {:?} declares Version more than once'' [rv_id package]))
               else Inr (raw\<lparr>rc_versions := (rc_versions raw)[i := package\<lparr>rv_version := Some text\<rparr>]\<rparr>)
      | GlobalPackageMetadata i m \<Rightarrow>
          if length (rc_globals raw) \<le> i \<or> m = MetadataVersionOverride then Inl None
          else let package = rc_globals raw ! i
            in if rp_metadata package m \<noteq> None
               then Inl (Some (invalid_property path ''global package {:?} declares {name} more than once'' [rp_id package, package_metadata_name m]))
               else Inr (raw\<lparr>rc_globals := (rc_globals raw)[i := package\<lparr>rp_metadata := (rp_metadata package)(m := Some text)\<rparr>]\<rparr>)
      | _ \<Rightarrow> Inr raw)"

section \<open>The file\<close>

record central_reader =
  cr_raw :: raw_central_packages
  cr_stack :: "central_context list"
  cr_text :: string
  cr_root_seen :: bool

definition central_takes_text :: "central_context \<Rightarrow> bool" where
  "central_takes_text element = (case element of CentralPropertyElement _ \<Rightarrow> True | PackageVersionValue _ \<Rightarrow> True
     | GlobalPackageMetadata _ _ \<Rightarrow> True | _ \<Rightarrow> False)"

definition read_central_event :: "string \<Rightarrow> central_reader \<Rightarrow> project_event \<Rightarrow> project_error option + central_reader" where
  "read_central_event path s event =
     (case cr_stack s of
        [] \<Rightarrow> Inl None
      | current # below \<Rightarrow> (case event of
          StartElement element \<Rightarrow>
            rbind (lift_error (start_central_element path element current (cr_raw s) (cr_root_seen s))) (\<lambda>((raw, entered), root_seen).
              if length (cr_stack s) = MAX_XML_DEPTH
              then Inl (Some (unsupported_error path ''Directory.Packages.props XML nesting is too deep'' []))
              else Inr \<lparr>cr_raw = raw, cr_stack = entered # cr_stack s,
                cr_text = (if central_takes_text entered then [] else cr_text s), cr_root_seen = root_seen\<rparr>)
        | EndElement \<Rightarrow>
            if below = [] then Inl (Some (xml_error path ''Directory.Packages.props contains an unexpected closing element'' []))
            else rbind (finish_central_element path current (cr_text s) (cr_raw s)) (\<lambda>raw. Inr (s\<lparr>cr_raw := raw, cr_stack := below\<rparr>))
        | TextValue val \<Rightarrow>
            if \<not> central_takes_text current
            then Inl (Some (unsupported_error path ''Directory.Packages.props contains text outside a supported value'' []))
            else rbind (lift_error (map_error (\<lambda>e. xml_error path ''central package text is invalid: {error}'' [e]) val)) (\<lambda>v.
              Inr (s\<lparr>cr_text := cr_text s @ v\<rparr>))
        | GeneralReference reference \<Rightarrow>
            if \<not> central_takes_text current
            then Inl (Some (unsupported_error path ''Directory.Packages.props contains an entity outside a supported value'' []))
            else rbind (lift_error (append_reference path reference (cr_text s))) (\<lambda>v. Inr (s\<lparr>cr_text := v\<rparr>))
        | Ignored \<Rightarrow> Inr s
        | UnsupportedConstruct \<Rightarrow>
            Inl (Some (unsupported_error path ''Directory.Packages.props contains unsupported XML constructs'' []))
        | BadXml e \<Rightarrow> Inl (Some (xml_error path ''invalid Directory.Packages.props XML at byte {}: {error}'' e))))"

definition parse_central_packages :: "string \<Rightarrow> project_event list \<Rightarrow> project_error option + raw_central_packages" where
  "parse_central_packages path events =
     rbind (try_fold (read_central_event path)
       \<lparr>cr_raw = default_central_packages, cr_stack = [CentralDocument], cr_text = [], cr_root_seen = False\<rparr> events) (\<lambda>s.
       if length (cr_stack s) \<noteq> 1 \<or> \<not> cr_root_seen s
       then Inl (Some (xml_error path ''Directory.Packages.props does not contain one complete Project element'' []))
       else Inr (cr_raw s))"

section \<open>The selected versions\<close>

definition compare_ascii_case_insensitive :: "string \<Rightarrow> string \<Rightarrow> ordering" where
  "compare_ascii_case_insensitive left right = rust_cmp (to_lower left) (to_lower right)"

text \<open>Whether a version and an identity are literal; \<open>template\<close> names the kind of row.\<close>

definition literal_central_row :: "string \<Rightarrow> string \<Rightarrow> string \<Rightarrow> string option \<Rightarrow> project_error + string" where
  "literal_central_row path kind ident version =
     rbind (ok_or (invalid_property path (kind @ '' package {:?} requires a Version'') [ident]) version) (\<lambda>v.
       if ident = [] \<or> is_dynamic ident \<or> \<not> is_literal_package_version v
       then Inl (invalid_property path (kind @ '' package {:?} requires a literal identity and version'') [ident])
       else Inr v)"

fun select_central_versions :: "string \<Rightarrow> string list \<Rightarrow> condition_context \<Rightarrow> raw_central_version list \<Rightarrow>
    project_error + raw_central_version list" where
  "select_central_versions path conditions context [] = Inr []"
| "select_central_versions path conditions context (package # rest) =
     rbind (reference_conditions_match path conditions (rv_conditions package) context) (\<lambda>selected.
       if \<not> selected then select_central_versions path conditions context rest
       else rbind (literal_central_row path ''central'' (rv_id package) (rv_version package)) (\<lambda>_.
         rbind (select_central_versions path conditions context rest) (\<lambda>versions. Inr (package # versions))))"

definition global_row :: "raw_package_reference \<Rightarrow> raw_central_version" where
  "global_row reference = \<lparr>rv_id = rp_id reference, rv_version = rp_metadata reference MetadataVersion,
     rv_conditions = \<lparr>rrc_group = NO_REFERENCE_CONDITION, rrc_item = NO_REFERENCE_CONDITION\<rparr>\<rparr>"

fun select_globals :: "string \<Rightarrow> string list \<Rightarrow> condition_context \<Rightarrow> raw_package_reference list \<Rightarrow>
    project_error + raw_package_reference list" where
  "select_globals path conditions context [] = Inr []"
| "select_globals path conditions context (reference # rest) =
     rbind (reference_conditions_match path conditions (rp_conditions reference) context) (\<lambda>selected.
       if \<not> selected then select_globals path conditions context rest
       else rbind (literal_central_row path ''global'' (rp_id reference) (rp_metadata reference MetadataVersion)) (\<lambda>_.
         rbind (select_globals path conditions context rest) (\<lambda>globals. Inr (reference # globals))))"

text \<open>The first pair of neighbours with the same identity.\<close>

fun duplicate_central :: "raw_central_version list \<Rightarrow> string option" where
  "duplicate_central (first # second # rest) =
     (if eq_ignore_case (rv_id first) (rv_id second) then Some (rv_id second) else duplicate_central (second # rest))"
| "duplicate_central _ = None"

definition select_central :: "bool \<Rightarrow> string \<Rightarrow> condition_context \<Rightarrow> raw_central_packages \<Rightarrow>
    project_error + raw_central_version list \<times> raw_package_reference list" where
  "select_central management central_path context central =
     (if \<not> management then Inr ([], [])
      else rbind (select_central_versions central_path (rc_conditions central) context (rc_versions central)) (\<lambda>versions.
        rbind (select_globals central_path (rc_conditions central) context (rc_globals central)) (\<lambda>globals.
          let sorted = sort_by (\<lambda>l r. compare_ascii_case_insensitive (rv_id l) (rv_id r)) (versions @ map global_row globals)
          in case duplicate_central sorted of
               Some ident \<Rightarrow> Inl (invalid_property central_path ''central package {:?} has more than one selected PackageVersion'' [ident])
             | None \<Rightarrow> Inr (sorted, globals))))"

definition find_central :: "raw_central_version list \<Rightarrow> string \<Rightarrow> string option" where
  "find_central versions ident =
     (case binary_search_by (\<lambda>candidate. compare_ascii_case_insensitive (rv_id candidate) ident) versions of
        Inr i \<Rightarrow> rv_version (versions ! i)
      | Inl _ \<Rightarrow> None)"

section \<open>The fingerprint\<close>

definition hex_byte :: "char \<Rightarrow> string" where
  "hex_byte c = (let n = of_char c :: nat; digit = (\<lambda>d. ''0123456789abcdef'' ! d) in [digit (n div 16), digit (n mod 16)])"

definition fingerprint_input :: "raw_central_version list \<Rightarrow> bool \<Rightarrow> bool \<Rightarrow> string" where
  "fingerprint_input versions transitive_pinning version_override =
     ''dv-central-packages-v1'' @ [CHR 0x00] @ [if transitive_pinning then CHR 0x01 else CHR 0x00, if version_override then CHR 0x01 else CHR 0x00]
     @ concat (map (\<lambda>package. to_lower (rv_id package) @ [CHR 0x00] @ trim (case rv_version package of None \<Rightarrow> [] | Some v \<Rightarrow> v) @ [CHR 0x00]) versions)"

definition central_package_fingerprint :: "(string \<Rightarrow> string) \<Rightarrow> raw_central_version list \<Rightarrow> bool \<Rightarrow> bool \<Rightarrow> bool \<Rightarrow> string" where
  "central_package_fingerprint sha256 versions management transitive_pinning version_override =
     (if \<not> management then [] else concat (map hex_byte (sha256 (fingerprint_input versions transitive_pinning version_override))))"

end
