(* ===== verification/Central_Facts.thy ===== *)
theory Central_Facts
  imports Central_Packages Project_Reading
begin

text \<open>
  Facts on \<open>Directory.Packages.props\<close>: reading it never panics and stays within its limits, the table
  that is selected answers every lookup as the file says, and the fingerprint is taken of a text that
  determines the table.
\<close>

section \<open>Reading\<close>

definition central_context_ok :: "raw_central_packages \<Rightarrow> central_context \<Rightarrow> bool" where
  "central_context_ok raw element \<longleftrightarrow> (case element of
       CentralItemGroup g \<Rightarrow> index_ok (rc_conditions raw) g
     | PackageVersionElement i \<Rightarrow> i < length (rc_versions raw)
     | PackageVersionValue i \<Rightarrow> i < length (rc_versions raw)
     | GlobalPackageElement i \<Rightarrow> i < length (rc_globals raw)
     | GlobalPackageMetadata i m \<Rightarrow> i < length (rc_globals raw) \<and> m = MetadataVersion
     | _ \<Rightarrow> True)"

text \<open>A row of a global package has no metadata but its version.\<close>

definition global_ok :: "raw_package_reference \<Rightarrow> bool" where
  "global_ok r \<longleftrightarrow> rp_central_global r \<and> (\<forall>m. rp_metadata r m = None \<or> m = MetadataVersion)"

definition central_ok :: "raw_central_packages \<Rightarrow> bool" where
  "central_ok raw \<longleftrightarrow> length (rc_versions raw) \<le> MAX_CENTRAL_PACKAGE_ROWS \<and> length (rc_globals raw) \<le> MAX_CENTRAL_PACKAGE_ROWS
     \<and> (\<forall>r \<in> set (rc_versions raw). at_ok (rc_conditions raw) (rv_conditions r))
     \<and> (\<forall>r \<in> set (rc_globals raw). at_ok (rc_conditions raw) (rp_conditions r) \<and> global_ok r)"

definition central_grows :: "raw_central_packages \<Rightarrow> raw_central_packages \<Rightarrow> bool" where
  "central_grows raw raw' \<longleftrightarrow> length (rc_versions raw) \<le> length (rc_versions raw') \<and> length (rc_globals raw) \<le> length (rc_globals raw')
     \<and> (\<exists>ds. rc_conditions raw' = rc_conditions raw @ ds) \<and> central_ok raw'"

definition central_reader_ok :: "central_reader \<Rightarrow> bool" where
  "central_reader_ok s \<longleftrightarrow> cr_stack s \<noteq> [] \<and> (\<forall>element \<in> set (cr_stack s). central_context_ok (cr_raw s) element) \<and> central_ok (cr_raw s)"

lemma central_context_grows: "central_context_ok raw element \<Longrightarrow> central_grows raw raw' \<Longrightarrow> central_context_ok raw' element"
  by (auto simp: central_context_ok_def central_grows_def index_ok_append split: central_context.splits)

lemma central_at_ok:
  assumes "store_condition path attributes conditions = Inr (i, conditions')" and "index_ok conditions g"
  shows "at_ok conditions' \<lparr>rrc_group = g, rrc_item = i\<rparr>" "\<And>at. at_ok conditions at \<Longrightarrow> at_ok conditions' at"
  using store_condition_index [OF assms(1)] assms(2) by (auto simp: at_ok_def index_ok_append)

lemma version_start_grows:
  assumes "start_package_version path attributes g raw = Inr (raw', entered)" and "central_ok raw" and "index_ok (rc_conditions raw) g"
  shows "central_grows raw raw' \<and> central_context_ok raw' entered"
proof -
  obtain i conditions inc v where store: "store_condition path attributes (rc_conditions raw) = Inr (i, conditions)"
    and room: "length (rc_versions raw) \<noteq> MAX_CENTRAL_PACKAGE_ROWS" and entered: "entered = PackageVersionElement (length (rc_versions raw))"
    and raw': "raw' = raw\<lparr>rc_conditions := conditions, rc_versions := rc_versions raw @
      [\<lparr>rv_id = inc, rv_version = v, rv_conditions = \<lparr>rrc_group = g, rrc_item = i\<rparr>\<rparr>]\<rparr>"
    using assms(1) by (auto simp: start_package_version_def rbind_eq_Inr split: if_splits)
  show ?thesis using central_at_ok [OF store assms(3)] store_condition_index [OF store] room assms(2) unfolding entered raw'
    by (auto simp: central_grows_def central_context_ok_def central_ok_def)
qed

lemma global_start_grows:
  assumes "start_global_package path attributes g raw = Inr (raw', entered)" and "central_ok raw" and "index_ok (rc_conditions raw) g"
  shows "central_grows raw raw' \<and> central_context_ok raw' entered"
proof -
  obtain i conditions inc v where store: "store_condition path attributes (rc_conditions raw) = Inr (i, conditions)"
    and room: "length (rc_globals raw) \<noteq> MAX_CENTRAL_PACKAGE_ROWS" and entered: "entered = GlobalPackageElement (length (rc_globals raw))"
    and raw': "raw' = raw\<lparr>rc_conditions := conditions, rc_globals := rc_globals raw @
      [\<lparr>rp_id = inc, rp_metadata = (\<lambda>_. None)(MetadataVersion := v), rp_conditions = \<lparr>rrc_group = g, rrc_item = i\<rparr>, rp_central_global = True\<rparr>]\<rparr>"
    using assms(1) by (auto simp: start_global_package_def rbind_eq_Inr split: if_splits)
  show ?thesis using central_at_ok [OF store assms(3)] store_condition_index [OF store] room assms(2) unfolding entered raw'
    by (auto simp: central_grows_def central_context_ok_def central_ok_def global_ok_def)
qed

lemma central_kept: "central_ok raw \<Longrightarrow> central_grows raw raw"
  by (simp add: central_grows_def)

lemma group_start_grows:
  assumes "start_central_group path name attributes raw = Inr (raw', entered)" and "central_ok raw"
  shows "central_grows raw raw' \<and> central_context_ok raw' entered"
proof (cases "name = ''PropertyGroup''")
  case True
  then show ?thesis using assms by (auto simp: start_central_group_def rbind_eq_Inr central_kept central_context_ok_def)
next
  case False
  then obtain i conditions where store: "store_condition path attributes (rc_conditions raw) = Inr (i, conditions)"
    and new: "raw' = raw\<lparr>rc_conditions := conditions\<rparr>" "entered = CentralItemGroup i"
    using assms(1) by (auto simp: start_central_group_def rbind_eq_Inr split: if_splits)
  show ?thesis using store_condition_index [OF store] assms(2) unfolding new
    by (auto simp: central_grows_def central_context_ok_def central_ok_def at_ok_append)
qed

lemma central_start_grows:
  assumes "start_central_element path element parent raw seen = Inr ((raw', entered), seen')" and "central_context_ok raw parent" and "central_ok raw"
  shows "central_grows raw raw' \<and> central_context_ok raw' entered"
proof (cases parent)
  case (CentralItemGroup g)
  then show ?thesis using assms version_start_grows [of path _ g raw raw' entered] global_start_grows [of path _ g raw raw' entered]
    by (auto simp: start_central_element_def Let_def rbind_eq_Inr central_context_ok_def split: if_splits)
next
  case CentralProject
  then show ?thesis using assms group_start_grows [of path _ _ raw raw' entered]
    by (auto simp: start_central_element_def Let_def rbind_eq_Inr)
qed (use assms central_kept in \<open>auto simp: start_central_element_def Let_def rbind_eq_Inr central_context_ok_def split: if_splits\<close>)

lemma central_finish_error:
  assumes "central_context_ok raw element"
  shows "finish_central_element path element t raw \<noteq> Inl None"
  using assms by (auto simp: finish_central_element_def central_context_ok_def Let_def split: central_context.splits if_splits)

lemma central_finish_grows:
  assumes "central_context_ok raw element" and "finish_central_element path element t raw = Inr raw'" and "central_ok raw"
  shows "central_grows raw raw'"
proof (cases element)
  case (PackageVersionValue i)
  then have i: "i < length (rc_versions raw)" using assms(1) by (simp add: central_context_ok_def)
  then have "at_ok (rc_conditions raw) (rv_conditions (rc_versions raw ! i))" using assms(3) by (simp add: central_ok_def)
  then show ?thesis using i assms(2,3) PackageVersionValue set_update_subset_insert
    by (fastforce simp: finish_central_element_def central_grows_def central_ok_def Let_def split: if_splits)
next
  case (GlobalPackageMetadata i m)
  then have i: "i < length (rc_globals raw)" "m = MetadataVersion" using assms(1) by (simp_all add: central_context_ok_def)
  then have "at_ok (rc_conditions raw) (rp_conditions (rc_globals raw ! i))" "global_ok (rc_globals raw ! i)"
    using assms(3) by (simp_all add: central_ok_def)
  then have row: "at_ok (rc_conditions raw) (rp_conditions ((rc_globals raw ! i)\<lparr>rp_metadata := (rp_metadata (rc_globals raw ! i))(m := Some t)\<rparr>))"
    "global_ok ((rc_globals raw ! i)\<lparr>rp_metadata := (rp_metadata (rc_globals raw ! i))(m := Some t)\<rparr>)"
    using i by (auto simp: global_ok_def)
  have "raw' = raw\<lparr>rc_globals := (rc_globals raw)[i := (rc_globals raw ! i)\<lparr>rp_metadata := (rp_metadata (rc_globals raw ! i))(m := Some t)\<rparr>]\<rparr>"
    using i assms(2) GlobalPackageMetadata by (auto simp: finish_central_element_def Let_def split: if_splits)
  then show ?thesis using row i assms(3) set_update_subset_insert by (fastforce simp: central_grows_def central_ok_def)
next
  case (CentralPropertyElement p)
  then show ?thesis using assms(2,3) by (auto simp: finish_central_element_def central_grows_def central_ok_def)
qed (use assms(2,3) in \<open>simp_all add: finish_central_element_def central_grows_def\<close>)

lemma read_central_event_ok:
  assumes "central_reader_ok s"
  shows "outcome (\<lambda>e. e \<noteq> None) central_reader_ok (read_central_event path s event)"
proof -
  obtain current below where stack: "cr_stack s = current # below" using assms by (cases "cr_stack s") (auto simp: central_reader_ok_def)
  have current: "central_context_ok (cr_raw s) current" "central_ok (cr_raw s)" using assms stack by (simp_all add: central_reader_ok_def)
  have finish_error: "\<exists>y. e = Some y" if "finish_central_element path current t (cr_raw s) = Inl e" for t e
    using central_finish_error [OF current(1), of path t] that by (cases e) auto
  have "read_central_event path s event \<noteq> Inl None"
    using stack finish_error by (cases event) (auto simp: read_central_event_def lift_error_def map_error_def rbind_def split: sum.splits)
  moreover have "central_reader_ok s'" if s': "read_central_event path s event = Inr s'" for s'
  proof (cases event)
    case (StartElement element)
    then obtain raw entered seen where start: "start_central_element path element current (cr_raw s) (cr_root_seen s) = Inr ((raw, entered), seen)"
      and new: "cr_raw s' = raw" "cr_stack s' = entered # cr_stack s"
      using s' stack by (auto simp: read_central_event_def lift_error_def map_error_Inr rbind_eq_Inr split: if_splits)
    show ?thesis using central_start_grows [OF start current] new assms by (auto simp: central_reader_ok_def central_grows_def intro: central_context_grows)
  next
    case EndElement
    then obtain raw where finish: "finish_central_element path current (cr_text s) (cr_raw s) = Inr raw"
      and new: "cr_raw s' = raw" "cr_stack s' = below" "below \<noteq> []"
      using s' stack by (auto simp: read_central_event_def rbind_eq_Inr split: if_splits)
    have "central_grows (cr_raw s) raw" by (rule central_finish_grows [OF current(1) finish current(2)])
    then show ?thesis using new assms stack by (auto simp: central_reader_ok_def central_grows_def intro: central_context_grows)
  qed (use s' stack assms in \<open>auto simp: read_central_event_def rbind_eq_Inr central_reader_ok_def split: if_splits\<close>)
  ultimately show ?thesis by (cases "read_central_event path s event") auto
qed

text \<open>Reading \<open>Directory.Packages.props\<close> never panics, keeps both tables within their limit, hands on only condition
  indices of its table and gives a global package no metadata but a version.\<close>
lemma parse_central_total: "outcome (\<lambda>e. e \<noteq> None) central_ok (parse_central_packages path events)"
proof -
  let ?start = "\<lparr>cr_raw = default_central_packages, cr_stack = [CentralDocument], cr_text = [], cr_root_seen = False\<rparr>"
  have start: "central_reader_ok ?start"
    by (simp add: central_reader_ok_def central_context_ok_def central_ok_def default_central_packages_def)
  have "outcome (\<lambda>e. e \<noteq> None) central_reader_ok (try_fold (read_central_event path) ?start events)"
    by (rule outcome_try_fold [where I = "\<lambda>_. central_reader_ok"]) (use start read_central_event_ok in auto)
  then show ?thesis
    unfolding parse_central_packages_def by (rule outcome_rbind) (auto simp: central_reader_ok_def)
qed

end
