(* ===== verification/Central_Selection.thy ===== *)
theory Central_Selection
  imports Central_Facts
begin

text \<open>
  The table of central versions: what is in it, what a lookup finds, and that the text the fingerprint
  is taken of determines it.
\<close>

section \<open>Selected rows\<close>

definition row_selected :: "string \<Rightarrow> string list \<Rightarrow> condition_context \<Rightarrow> raw_reference_conditions \<Rightarrow> bool" where
  "row_selected path conditions context at \<longleftrightarrow> reference_conditions_match path conditions at context = Inr True"

definition central_rows :: "string \<Rightarrow> condition_context \<Rightarrow> raw_central_packages \<Rightarrow> raw_central_version list" where
  "central_rows path context central =
     filter (\<lambda>p. row_selected path (rc_conditions central) context (rv_conditions p)) (rc_versions central)
     @ map global_row (filter (\<lambda>r. row_selected path (rc_conditions central) context (rp_conditions r)) (rc_globals central))"

definition central_row_ok :: "raw_central_version \<Rightarrow> bool" where
  "central_row_ok p \<longleftrightarrow> rv_id p \<noteq> [] \<and> \<not> is_dynamic (rv_id p) \<and> (\<exists>v. rv_version p = Some v \<and> is_literal_package_version v)"

lemma literal_central_row_Inr:
  "literal_central_row path kind ident version = Inr v \<longleftrightarrow>
    version = Some v \<and> ident \<noteq> [] \<and> \<not> is_dynamic ident \<and> is_literal_package_version v"
  by (auto simp: literal_central_row_def rbind_eq_Inr ok_or_eq_Inr)

lemma select_central_versions_Inr:
  assumes "select_central_versions path conditions context packages = Inr vs"
  shows "vs = filter (\<lambda>p. row_selected path conditions context (rv_conditions p)) packages \<and> list_all central_row_ok vs"
  using assms
proof (induction packages arbitrary: vs)
  case (Cons package rest)
  then show ?case
    by (auto simp: rbind_eq_Inr row_selected_def literal_central_row_Inr central_row_ok_def split: if_splits)
qed simp

lemma select_globals_Inr:
  assumes "select_globals path conditions context references = Inr rs"
  shows "rs = filter (\<lambda>r. row_selected path conditions context (rp_conditions r)) references
    \<and> list_all (\<lambda>r. central_row_ok (global_row r)) rs"
  using assms
proof (induction references arbitrary: rs)
  case (Cons reference rest)
  then show ?case
    by (auto simp: rbind_eq_Inr row_selected_def literal_central_row_Inr central_row_ok_def global_row_def split: if_splits)
qed simp

section \<open>The sorted table\<close>

lemma no_duplicate_strict:
  assumes "sorted_wrt (\<lambda>l r. to_lower (rv_id l) \<le> to_lower (rv_id r)) vs" and "duplicate_central vs = None"
  shows "sorted_wrt (<) (map (\<lambda>p. to_lower (rv_id p)) vs)"
  using assms
proof (induction vs rule: duplicate_central.induct)
  case (1 first second rest)
  then have strict: "sorted_wrt (<) (map (\<lambda>p. to_lower (rv_id p)) (second # rest))"
    and less: "to_lower (rv_id first) < to_lower (rv_id second)"
    by (auto simp: eq_ignore_case_def split: if_splits)
  then show ?case by (auto dest: order.strict_trans)
qed simp_all

lemma sorted_central: "sorted_wrt (\<lambda>l r. to_lower (rv_id l) \<le> to_lower (rv_id r)) (sort_by (\<lambda>l r. compare_ascii_case_insensitive (rv_id l) (rv_id r)) vs)"
proof -
  have "rust_ord (\<lambda>l r. rust_cmp (to_lower (rv_id l)) (to_lower (rv_id r)))" by (rule rust_ord_key)
  from rust_ord.sorted_sort_by [OF this, of vs] show ?thesis
    by (auto simp: compare_ascii_case_insensitive_def not_less elim: sorted_wrt_mono_rel [rotated])
qed

lemma find_central_sorted:
  assumes "sorted_wrt (<) (map (\<lambda>p. to_lower (rv_id p)) vs)" and "\<forall>p \<in> set vs. rv_version p \<noteq> None"
  shows "find_central vs ident = Some v \<longleftrightarrow> (\<exists>p \<in> set vs. eq_ignore_case (rv_id p) ident \<and> rv_version p = Some v)"
proof -
  let ?search = "binary_search_by (\<lambda>p. rust_cmp (to_lower (rv_id p)) (to_lower ident)) vs"
  note key = binary_search_key [OF assms(1), of "to_lower ident"]
  show ?thesis
  proof (cases ?search)
    case (Inl n)
    then have "\<not> eq_ignore_case (rv_id p) ident" if "p \<in> set vs" for p
      using key that unfolding eq_ignore_case_def in_set_conv_nth by force
    then show ?thesis using Inl by (auto simp: find_central_def compare_ascii_case_insensitive_def)
  next
    case (Inr i)
    then have i: "i < length vs" "to_lower (rv_id (vs ! i)) = to_lower ident" using key by simp_all
    have unique: "p = vs ! i" if "p \<in> set vs" "to_lower (rv_id p) = to_lower ident" for p
      using assms(1) that i by (metis (no_types, lifting) in_set_conv_nth key Inr sum.inject(2))
    show ?thesis using Inr i unique by (auto simp: find_central_def compare_ascii_case_insensitive_def eq_ignore_case_def)
  qed
qed

lemma select_central_table:
  assumes "select_central True path context central = Inr (table, globals)"
  shows "sorted_wrt (<) (map (\<lambda>p. to_lower (rv_id p)) table)" and "mset table = mset (central_rows path context central)"
    and "globals = filter (\<lambda>r. row_selected path (rc_conditions central) context (rp_conditions r)) (rc_globals central)"
    and "list_all central_row_ok table"
proof -
  obtain versions where versions: "select_central_versions path (rc_conditions central) context (rc_versions central) = Inr versions"
    and globals: "select_globals path (rc_conditions central) context (rc_globals central) = Inr globals"
    and table: "table = sort_by (\<lambda>l r. compare_ascii_case_insensitive (rv_id l) (rv_id r)) (versions @ map global_row globals)"
    and unique: "duplicate_central table = None"
    using assms by (auto simp: select_central_def rbind_eq_Inr Let_def split: option.splits)
  note v = select_central_versions_Inr [OF versions] and g = select_globals_Inr [OF globals]
  have rows: "versions @ map global_row globals = central_rows path context central" using v g by (simp add: central_rows_def)
  show "sorted_wrt (<) (map (\<lambda>p. to_lower (rv_id p)) table)"
    by (rule no_duplicate_strict [OF _ unique]) (simp only: table sorted_central)
  show "mset table = mset (central_rows path context central)" by (simp only: table mset_sort_by rows)
  show "globals = filter (\<lambda>r. row_selected path (rc_conditions central) context (rp_conditions r)) (rc_globals central)" using g by blast
  show "list_all central_row_ok table" using v g unfolding list_all_iff table set_sort_by by auto
qed

lemma find_selected:
  assumes "select_central True path context central = Inr (table, globals)"
  shows "find_central table ident = Some v \<longleftrightarrow>
    (\<exists>p \<in> set (central_rows path context central). eq_ignore_case (rv_id p) ident \<and> rv_version p = Some v)"
proof -
  note t = select_central_table [OF assms]
  have "find_central table ident = Some v \<longleftrightarrow> (\<exists>p \<in> set table. eq_ignore_case (rv_id p) ident \<and> rv_version p = Some v)"
    by (rule find_central_sorted [OF t(1)]) (use t(4) in \<open>auto simp: list_all_iff central_row_ok_def\<close>)
  then show ?thesis unfolding mset_eq_setD [OF t(2)] .
qed

text \<open>C11: With central management the selected table is strictly sorted by identity without case and holds
  exactly the rows of \<open>Directory.Packages.props\<close> whose conditions hold, global packages included. So an
  identity has at most one version, and a lookup by binary search finds it, in any case, exactly
  when there is such a row.\<close>
theorem central_table_lookup:
  assumes "select_central True path context central = Inr (table, globals)"
  shows "sorted_wrt (<) (map (\<lambda>p. to_lower (rv_id p)) table)
    \<and> mset table = mset (central_rows path context central)
    \<and> globals = filter (\<lambda>r. row_selected path (rc_conditions central) context (rp_conditions r)) (rc_globals central)
    \<and> list_all central_row_ok table
    \<and> (find_central table ident = Some v \<longleftrightarrow>
        (\<exists>p \<in> set (central_rows path context central). eq_ignore_case (rv_id p) ident \<and> rv_version p = Some v))"
  using select_central_table [OF assms] find_selected [OF assms] by blast

definition example_central :: raw_central_packages where
  "example_central = \<lparr>rc_path = Some ''Directory.Packages.props'', rc_properties = (\<lambda>_. None), rc_conditions = [],
     rc_versions = [\<lparr>rv_id = ''Serilog'', rv_version = Some ''3.1.1'',
         rv_conditions = \<lparr>rrc_group = NO_REFERENCE_CONDITION, rrc_item = NO_REFERENCE_CONDITION\<rparr>\<rparr>,
       \<lparr>rv_id = ''AutoMapper'', rv_version = Some ''12.0.1'',
         rv_conditions = \<lparr>rrc_group = NO_REFERENCE_CONDITION, rrc_item = NO_REFERENCE_CONDITION\<rparr>\<rparr>],
     rc_globals = []\<rparr>"

definition example_context :: condition_context where
  "example_context = \<lparr>cc_target_framework = ''net8.0'', cc_runtime_identifier = None, cc_configuration = ''Release''\<rparr>"

lemma central_table_lookup_witness:
  "find_central (rev (rc_versions example_central)) ''SERILOG'' = Some ''3.1.1''"
proof -
  let ?table = "rev (rc_versions example_central)"
  have select: "select_central True ''Directory.Packages.props'' example_context example_central = Inr (?table, [])"
    by (simp add: select_central_def example_central_def reference_conditions_match_def literal_central_row_def sort_by_def
        compare_ascii_case_insensitive_def is_dynamic_def is_literal_package_version_def rust_cmp_def str_eval)
  show ?thesis
    using central_table_lookup [OF select, of "''SERILOG''" "''3.1.1''"]
    by (simp add: central_rows_def example_central_def row_selected_def reference_conditions_match_def eq_ignore_case_def str_eval)
qed

section \<open>The fingerprint\<close>

definition central_identity :: "raw_central_version \<Rightarrow> string \<times> string" where
  "central_identity p = (to_lower (rv_id p), trim (case rv_version p of None \<Rightarrow> [] | Some v \<Rightarrow> v))"

definition terminated :: "string \<times> string \<Rightarrow> string" where
  "terminated p = fst p @ [CHR 0x00] @ snd p @ [CHR 0x00]"

definition no_nul :: "string \<Rightarrow> bool" where
  "no_nul s \<longleftrightarrow> CHR 0x00 \<notin> set s"

lemma until_nul: "no_nul a \<Longrightarrow> no_nul b \<Longrightarrow> a @ CHR 0x00 # x = b @ CHR 0x00 # y \<longleftrightarrow> a = b \<and> x = y"
proof (induction a arbitrary: b)
  case Nil
  then show ?case by (cases b) (auto simp: no_nul_def)
next
  case (Cons c a)
  then show ?case by (cases b) (auto simp: no_nul_def)
qed

lemma terminated_inject:
  assumes "\<forall>p \<in> set xs \<union> set ys. no_nul (fst p) \<and> no_nul (snd p)"
  shows "concat (map terminated xs) = concat (map terminated ys) \<longleftrightarrow> xs = ys"
  using assms
proof (induction xs arbitrary: ys)
  case Nil
  then show ?case by (cases ys) (auto simp: terminated_def)
next
  case (Cons x xs)
  then show ?case by (cases ys) (auto simp: terminated_def until_nul prod_eq_iff)
qed

lemma lower_byte_nul: "lower_byte c = CHR 0x00 \<Longrightarrow> c = CHR 0x00"
proof (cases "is_upper c")
  case True
  then have "(of_char (lower_byte c) :: nat) = of_char c + 32" by (simp add: lower_byte_def is_upper_of_char)
  then have "(of_char (lower_byte c) :: nat) \<noteq> of_char (CHR 0x00)" by simp
  then show "lower_byte c = CHR 0x00 \<Longrightarrow> c = CHR 0x00" by metis
qed (simp add: lower_byte_def)

lemma no_nul_lower: "no_nul s \<Longrightarrow> no_nul (to_lower s)"
  by (force simp: no_nul_def to_lower_def dest: sym [THEN lower_byte_nul])

lemma no_nul_trim: "no_nul s \<Longrightarrow> no_nul (trim s)"
proof -
  obtain a b where "s = a @ trim s @ b" using trim_infix by blast
  then show "no_nul s \<Longrightarrow> no_nul (trim s)" unfolding no_nul_def by (metis UnI1 UnI2 set_append)
qed

definition row_no_nul :: "raw_central_version \<Rightarrow> bool" where
  "row_no_nul p \<longleftrightarrow> no_nul (rv_id p) \<and> (case rv_version p of None \<Rightarrow> True | Some v \<Rightarrow> no_nul v)"

text \<open>The text hashed into the fingerprint of central packages determines what it stands for: two tables
  whose texts have no NUL byte give the same text exactly when both switches agree and the tables have
  the same identities without case and the same trimmed versions, row for row.\<close>
theorem fingerprint_determines_table:
  assumes "list_all row_no_nul vs" and "list_all row_no_nul ws"
  shows "fingerprint_input vs pinning override = fingerprint_input ws pinning' override' \<longleftrightarrow>
    pinning = pinning' \<and> override = override' \<and> map central_identity vs = map central_identity ws"
proof -
  have input: "fingerprint_input vs a b = ''dv-central-packages-v1'' @ [CHR 0x00] @ [if a then CHR 0x01 else CHR 0x00, if b then CHR 0x01 else CHR 0x00]
      @ concat (map terminated (map central_identity vs))" for vs a b
    by (simp add: fingerprint_input_def terminated_def central_identity_def comp_def)
  have empty: "no_nul []" by (simp add: no_nul_def)
  have "\<forall>p \<in> set (map central_identity vs) \<union> set (map central_identity ws). no_nul (fst p) \<and> no_nul (snd p)"
    using assms by (auto simp: list_all_iff row_no_nul_def central_identity_def no_nul_lower empty intro!: no_nul_trim split: option.splits)
  from terminated_inject [OF this] show ?thesis unfolding input by auto
qed

lemma fingerprint_determines_table_witness:
  "fingerprint_input [\<lparr>rv_id = ''A'', rv_version = Some '' 1.0'', rv_conditions = \<lparr>rrc_group = 0, rrc_item = 0\<rparr>\<rparr>] True False
    = fingerprint_input [\<lparr>rv_id = ''a'', rv_version = Some ''1.0'', rv_conditions = \<lparr>rrc_group = 0, rrc_item = 0\<rparr>\<rparr>] True False"
  by (rule fingerprint_determines_table [THEN iffD2])
    (simp_all add: row_no_nul_def no_nul_def central_identity_def str_eval)

end
