(* ===== verification/Source_Exclusions.thy ===== *)
theory Source_Exclusions
  imports Project_Spec Protocol Rust_Map
begin

text \<open>
  \<open>crates/dv-core/src/project.rs\<close>: the directories a project keeps out of its sources. The configured
  output paths are expanded, made absolute and kept sorted without repetition; a directory is excluded
  by its name, by a configured path above it, or by one that differs in case only and is the same
  directory. Paths are those of Unix: the text between slashes.
\<close>

section \<open>Paths and the file system\<close>

text \<open>The components of a path's text: empty ones and dots after the start are dropped.\<close>

definition path_component_of :: "string \<Rightarrow> path_component" where
  "path_component_of name = (if name = ''..'' then ParentDir else Normal name)"

definition path_of_text :: "string \<Rightarrow> path" where
  "path_of_text s =
     (let parts = split_on CHR ''/'' s;
        names = map path_component_of (filter (\<lambda>name. name \<noteq> [] \<and> name \<noteq> ''.'') parts)
      in if starts_with ''/'' s then RootDir # names
         else if hd parts = ''.'' then CurDir # names else names)"

fun component_text :: "path_component \<Rightarrow> string" where
  "component_text (PathPrefix d) = d"
| "component_text RootDir = ''/''"
| "component_text CurDir = ''.''"
| "component_text ParentDir = ''..''"
| "component_text (Normal name) = name"

definition path_display :: "path \<Rightarrow> string" where
  "path_display p = (case p of RootDir # rest \<Rightarrow> CHR ''/'' # join_with CHR ''/'' (map component_text rest)
     | _ \<Rightarrow> join_with CHR ''/'' (map component_text p))"

definition path_join :: "path \<Rightarrow> path \<Rightarrow> path" where
  "path_join p q = foldl path_push p q"

definition path_starts_with :: "path \<Rightarrow> path \<Rightarrow> bool" where
  "path_starts_with p q \<longleftrightarrow> take (length q) p = q"

text \<open>\<open>Ord\<close> of \<open>PathBuf\<close>: the components in turn, by kind and then by name.\<close>

fun component_rank :: "path_component \<Rightarrow> nat" where
  "component_rank (PathPrefix d) = 0"
| "component_rank RootDir = 1"
| "component_rank CurDir = 2"
| "component_rank ParentDir = 3"
| "component_rank (Normal name) = 4"

definition component_cmp :: "path_component \<Rightarrow> path_component \<Rightarrow> ordering" where
  "component_cmp c d = then_with (rust_cmp (component_rank c) (component_rank d)) (rust_cmp (component_text c) (component_text d))"

definition path_cmp :: "path \<Rightarrow> path \<Rightarrow> ordering" where
  "path_cmp = lex_cmp component_cmp"

text \<open>The file name without its last extension.\<close>

definition path_file_name :: "path \<Rightarrow> string option" where
  "path_file_name p = (case rev p of Normal name # _ \<Rightarrow> Some name | _ \<Rightarrow> None)"

definition stem_of_name :: "string \<Rightarrow> string" where
  "stem_of_name name = (case rfind_byte CHR ''.'' name of Some i \<Rightarrow> (if i = 0 then name else take i name) | None \<Rightarrow> name)"

definition extension_of_name :: "string \<Rightarrow> string option" where
  "extension_of_name name = (case rfind_byte CHR ''.'' name of Some i \<Rightarrow> (if i = 0 then None else Some (drop (i + 1) name)) | None \<Rightarrow> None)"

datatype file_kind = Directory | RegularFile | SymbolicLink | OtherFile

text \<open>What the program asks of the file system. Reading a directory gives entries, any of which may fail,
  and each entry its name and its own kind; \<open>sf_metadata\<close> follows links. \<open>sf_unicode\<close> is the test that
  bytes are UTF-8.\<close>

type_synonym 'io directory_entry = "'io + string \<times> ('io + file_kind)"

record 'io source_files =
  sf_cwd :: "'io + path"
  sf_read_dir :: "path \<Rightarrow> 'io + 'io directory_entry list"
  sf_metadata :: "path \<Rightarrow> 'io + file_kind"
  sf_canonicalize :: "path \<Rightarrow> 'io + path"
  sf_invalid_input :: 'io
  sf_not_found :: "'io \<Rightarrow> bool"
  sf_message :: "'io \<Rightarrow> string"
  sf_unicode :: "string \<Rightarrow> bool"

definition source_io_error :: "'io source_files \<Rightarrow> string \<Rightarrow> path \<Rightarrow> 'io \<Rightarrow> project_error" where
  "source_io_error fs operation path e =
     project_error_new ProjectIo (path_display path) (Text ''failed to {operation} {}: {error}'' [operation, path_display path, sf_message fs e])"

section \<open>Expanding a path property\<close>

record source_path_variables =
  sv_project_directory :: string
  sv_project_name :: string
  sv_configuration :: string
  sv_target_framework :: string
  sv_runtime_identifier :: string
  sv_assembly_name :: string
  sv_artifacts_path :: string
  sv_base_output_path :: string
  sv_base_intermediate_output_path :: string

definition source_variable_table :: "(string \<times> (source_path_variables \<Rightarrow> string)) list" where
  "source_variable_table =
     [(''MSBuildProjectDirectory'', sv_project_directory), (''MSBuildProjectName'', sv_project_name), (''Configuration'', sv_configuration),
      (''TargetFramework'', sv_target_framework), (''RuntimeIdentifier'', sv_runtime_identifier), (''AssemblyName'', sv_assembly_name),
      (''ArtifactsPath'', sv_artifacts_path), (''BaseOutputPath'', sv_base_output_path),
      (''BaseIntermediateOutputPath'', sv_base_intermediate_output_path)]"

definition source_variable :: "string \<Rightarrow> string \<Rightarrow> source_path_variables \<Rightarrow> string \<Rightarrow> project_error + string" where
  "source_variable path property variables name =
     (case List.find (\<lambda>(known, get). eq_ignore_case name known) source_variable_table of
        Some (_, get) \<Rightarrow> Inr (get variables)
      | None \<Rightarrow> Inl (project_error_new Unsupported path
          (Text ''{property} uses unsupported property expansion $({name})'' [property, name])))"

definition validate_source_path_value :: "string \<Rightarrow> string \<Rightarrow> string \<Rightarrow> project_error + unit" where
  "validate_source_path_value path property value =
     (if CHR ''*'' \<in> set value \<or> CHR ''?'' \<in> set value \<or> CHR '';'' \<in> set value
      then Inl (invalid_property path ''{property} must resolve to one directory path'' [property]) else Inr ())"

text \<open>The text before the first \<open>$(\<close> and the text after it.\<close>

fun split_expansion :: "string \<Rightarrow> (string \<times> string) option" where
  "split_expansion (c # d # rest) =
     (if c = CHR ''$'' \<and> d = CHR ''('' then Some ([], rest)
      else map_option (\<lambda>(before, after). (c # before, after)) (split_expansion (d # rest)))"
| "split_expansion _ = None"

lemma split_expansion_length: "split_expansion s = Some (before, after) \<Longrightarrow> length after < length s"
  by (induction s arbitrary: before rule: split_expansion.induct) (auto split: if_splits)

lemma split_once_length: "split_once c s = Some (x, y) \<Longrightarrow> length y < length s"
  by (simp add: split_once_Some)

function expand_loop :: "string \<Rightarrow> string \<Rightarrow> source_path_variables \<Rightarrow> string \<Rightarrow> string \<Rightarrow> project_error + string" where
  "expand_loop path property variables output remaining =
     (case split_expansion remaining of
        None \<Rightarrow> Inr (output @ remaining)
      | Some (before, expression) \<Rightarrow>
          (case split_once CHR '')'' expression of
             None \<Rightarrow> Inl (invalid_property path ''{property} contains an unterminated property expansion'' [property])
           | Some (name, rest) \<Rightarrow>
               (case source_variable path property variables name of
                  Inl e \<Rightarrow> Inl e
                | Inr replacement \<Rightarrow> expand_loop path property variables (output @ before @ replacement) rest)))"
  by pat_completeness auto
termination
  by (relation "measure (\<lambda>(path, property, variables, output, remaining). length remaining)")
    (auto dest!: split_expansion_length split_once_length)

declare expand_loop.simps [simp del]

definition expand_source_path :: "string \<Rightarrow> string \<Rightarrow> string \<Rightarrow> source_path_variables \<Rightarrow> project_error + string" where
  "expand_source_path path property value variables =
     (if \<not> contains_str ''$('' value then rbind (validate_source_path_value path property value) (\<lambda>_. Inr value)
      else rbind (expand_loop path property variables [] value) (\<lambda>output.
        rbind (validate_source_path_value path property output) (\<lambda>_. Inr output)))"

section \<open>The excluded paths\<close>

definition portable_text :: "string \<Rightarrow> string" where
  "portable_text value = map (\<lambda>c. if c = CHR 0x5C then CHR ''/'' else c) value"

definition insert_exclusion :: "'io source_files \<Rightarrow> path \<Rightarrow> path list \<Rightarrow> string \<Rightarrow> project_error + path list" where
  "insert_exclusion fs directory paths raw_value =
     (let value = trim raw_value in
      if value = [] then Inr paths
      else let p = path_of_text (portable_text value) in
        rbind (map_error (source_io_error fs ''normalize configured source exclusion'' directory)
          (absolute_lexical (sf_invalid_input fs) (sf_cwd fs) (if is_absolute p then p else path_join directory p))) (\<lambda>path.
        case binary_search_by (\<lambda>candidate. path_cmp candidate path) paths of
          Inr _ \<Rightarrow> Inr paths
        | Inl index \<Rightarrow> Inr (take index paths @ path # drop index paths)))"

text \<open>The property values of the five paths, in the order of the code's fields.\<close>

record raw_source_exclusions =
  xs_base_output_path :: "string option"
  xs_base_intermediate_output_path :: "string option"
  xs_output_path :: "string option"
  xs_intermediate_output_path :: "string option"
  xs_artifacts_path :: "string option"

definition or_default :: "string \<Rightarrow> string option \<Rightarrow> string" where
  "or_default fallback value = (case value of None \<Rightarrow> fallback | Some v \<Rightarrow> v)"

definition project_file_stem :: "'io source_files \<Rightarrow> string \<Rightarrow> string option" where
  "project_file_stem fs path =
     (case path_file_name (path_of_text path) of
        Some name \<Rightarrow> (if sf_unicode fs (stem_of_name name) then Some (stem_of_name name) else None)
      | None \<Rightarrow> None)"

definition expanded_exclusions :: "string \<Rightarrow> raw_source_exclusions \<Rightarrow> source_path_variables \<Rightarrow> project_error + string list" where
  "expanded_exclusions path raw v0 =
     rbind (expand_source_path path ''ArtifactsPath'' (or_default [] (xs_artifacts_path raw)) v0) (\<lambda>artifacts.
     let v1 = v0\<lparr>sv_artifacts_path := artifacts\<rparr> in
     rbind (expand_source_path path ''BaseOutputPath'' (or_default ''bin/'' (xs_base_output_path raw)) v1) (\<lambda>base_output.
     let v2 = v1\<lparr>sv_base_output_path := base_output\<rparr> in
     rbind (expand_source_path path ''BaseIntermediateOutputPath'' (or_default ''obj/'' (xs_base_intermediate_output_path raw)) v2) (\<lambda>base_intermediate.
     let v3 = v2\<lparr>sv_base_intermediate_output_path := base_intermediate\<rparr> in
     rbind (expand_source_path path ''OutputPath'' (or_default [] (xs_output_path raw)) v3) (\<lambda>output.
     rbind (expand_source_path path ''IntermediateOutputPath'' (or_default [] (xs_intermediate_output_path raw)) v3) (\<lambda>intermediate.
       Inr (List.map_filter (\<lambda>(given, value). map_option (\<lambda>_. value) given)
         [(xs_base_output_path raw, base_output), (xs_base_intermediate_output_path raw, base_intermediate),
          (xs_output_path raw, output), (xs_intermediate_output_path raw, intermediate), (xs_artifacts_path raw, artifacts)]))))))"

definition exclusions_from_project :: "'io source_files \<Rightarrow> string \<Rightarrow> string \<Rightarrow> raw_source_exclusions \<Rightarrow>
    project_configuration \<Rightarrow> string \<Rightarrow> string option \<Rightarrow> string \<Rightarrow> project_error + path list" where
  "exclusions_from_project fs path directory raw configuration framework runtime assembly =
     (if xs_base_output_path raw = None \<and> xs_base_intermediate_output_path raw = None \<and> xs_output_path raw = None
         \<and> xs_intermediate_output_path raw = None \<and> xs_artifacts_path raw = None
      then Inr []
      else if \<not> sf_unicode fs directory
      then Inl (project_error_new ProjectNonUnicodePath path (Text ''project directory {} is not valid Unicode'' [directory]))
      else rbind (ok_or (project_error_new ProjectNonUnicodePath path (Text ''project file name is not valid Unicode'' []))
          (project_file_stem fs path)) (\<lambda>name.
        rbind (expanded_exclusions path raw \<lparr>sv_project_directory = directory, sv_project_name = name,
            sv_configuration = configuration_str configuration, sv_target_framework = framework,
            sv_runtime_identifier = or_default [] runtime, sv_assembly_name = assembly, sv_artifacts_path = [],
            sv_base_output_path = ''bin/'', sv_base_intermediate_output_path = ''obj/''\<rparr>)
          (try_fold (insert_exclusion fs (path_of_text directory)) [])))"

section \<open>Testing a directory\<close>

definition is_default_excluded_directory :: "string \<Rightarrow> bool" where
  "is_default_excluded_directory name \<longleftrightarrow> starts_with ''.'' name \<or> eq_ignore_case name ''bin'' \<or> eq_ignore_case name ''obj''"

fun path_has_ascii_case_variant_prefix :: "path \<Rightarrow> path \<Rightarrow> bool" where
  "path_has_ascii_case_variant_prefix p [] \<longleftrightarrow> True"
| "path_has_ascii_case_variant_prefix [] (d # q) \<longleftrightarrow> False"
| "path_has_ascii_case_variant_prefix (c # p) (d # q) \<longleftrightarrow>
     (c = d \<or> eq_ignore_case (component_text c) (component_text d)) \<and> path_has_ascii_case_variant_prefix p q"

fun excludes_configured :: "'io source_files \<Rightarrow> path list \<Rightarrow> path \<Rightarrow> project_error + bool" where
  "excludes_configured fs [] path = Inr False"
| "excludes_configured fs (exclusion # rest) path =
     (if path_starts_with path exclusion then Inr True
      else if \<not> path_has_ascii_case_variant_prefix path exclusion then excludes_configured fs rest path
      else case sf_canonicalize fs exclusion of
        Inl e \<Rightarrow> if sf_not_found fs e then excludes_configured fs rest path
          else Inl (source_io_error fs ''resolve configured source exclusion'' exclusion e)
      | Inr exclusion_identity \<Rightarrow>
          rbind (map_error (source_io_error fs ''resolve source directory identity'' path) (sf_canonicalize fs path)) (\<lambda>path_identity.
            if path_starts_with path_identity exclusion_identity then Inr True else excludes_configured fs rest path))"

definition excludes :: "'io source_files \<Rightarrow> path list \<Rightarrow> path \<Rightarrow> string \<Rightarrow> project_error + bool" where
  "excludes fs exclusions path file_name =
     (if is_default_excluded_directory file_name then Inr True else excludes_configured fs exclusions path)"

end
