(* ===== verification/Source_Collection.thy ===== *)
theory Source_Collection
  imports Source_Exclusions
begin

text \<open>
  \<open>crates/dv-core/src/project.rs\<close>: collecting the C# sources below a project. Directories are walked with
  a stack; a link is followed when its target lies in the workspace, and a directory reached through a
  link is walked with the chain of physical directories above it, so that a cycle is an error.
\<close>

section \<open>Links\<close>

text \<open>How a walk ends without sources: an error of the program, an \<open>expect\<close> that fails, or no fuel.\<close>

datatype source_stop = SourceError project_error | SourcePanic | OutOfFuel

definition source_error :: "project_error + 'a \<Rightarrow> source_stop + 'a" where
  "source_error r = map_error SourceError r"

lemma source_error_simps [simp]: "source_error (Inl e) = Inl (SourceError e)" "source_error (Inr x) = Inr x"
  by (simp_all add: source_error_def)

definition unsafe_link :: "path \<Rightarrow> path \<Rightarrow> string \<Rightarrow> project_error" where
  "unsafe_link path workspace_root template =
     je_with_context ''workspace_root'' (path_display workspace_root)
       (project_error_new UnsafePath (path_display path) (Text template [path_display path]))"

definition unsafe_link_identity_error :: "'io source_files \<Rightarrow> path \<Rightarrow> path \<Rightarrow> 'io \<Rightarrow> project_error" where
  "unsafe_link_identity_error fs path workspace_root e =
     je_with_context ''workspace_root'' (path_display workspace_root)
       (project_error_new UnsafePath (path_display path)
         (Text ''cannot establish filesystem-link identity for {}: {error}'' [path_display path, sf_message fs e]))"

definition source_link_cycle_error :: "path \<Rightarrow> path \<Rightarrow> path \<Rightarrow> project_error" where
  "source_link_cycle_error path workspace_root target =
     je_with_context ''resolved_target'' (path_display target)
       (unsafe_link path workspace_root ''filesystem link {} creates a source traversal cycle'')"

definition unsupported_link_target_error :: "path \<Rightarrow> path \<Rightarrow> path \<Rightarrow> project_error" where
  "unsupported_link_target_error path workspace_root target =
     je_with_context ''resolved_target'' (path_display target)
       (unsafe_link path workspace_root ''filesystem link {} has an unsupported target type'')"

definition resolve_workspace_link :: "'io source_files \<Rightarrow> path \<Rightarrow> path \<Rightarrow> path \<Rightarrow> project_error + path" where
  "resolve_workspace_link fs path workspace_root physical_root =
     rbind (map_error (unsafe_link_identity_error fs path workspace_root) (sf_canonicalize fs path)) (\<lambda>target.
       if \<not> path_starts_with target physical_root
       then Inl (je_with_context ''resolved_target'' (path_display target)
         (je_with_context ''workspace_root'' (path_display workspace_root)
           (project_error_new UnsafePath (path_display path)
             (Text ''filesystem link {} resolves outside workspace {}'' [path_display path, path_display workspace_root]))))
       else Inr target)"

text \<open>The physical root is found once, at the first link.\<close>

definition validate_workspace_link :: "'io source_files \<Rightarrow> path \<Rightarrow> path \<Rightarrow> path option \<Rightarrow> path \<Rightarrow> project_error + path \<times> path" where
  "validate_workspace_link fs path workspace_root physical_root project_file =
     rbind (case physical_root of Some root \<Rightarrow> Inr root
            | None \<Rightarrow> map_error (source_io_error fs ''resolve workspace identity'' project_file) (sf_canonicalize fs workspace_root)) (\<lambda>root.
     rbind (resolve_workspace_link fs path workspace_root root) (\<lambda>target. Inr (target, root)))"

section \<open>Sources\<close>

text \<open>A path's text relative to its project, with slashes.\<close>

fun portable_names :: "'io source_files \<Rightarrow> path \<Rightarrow> path \<Rightarrow> path \<Rightarrow> project_error + string list" where
  "portable_names fs path project_file [] = Inr []"
| "portable_names fs path project_file (Normal name # rest) =
     (if \<not> sf_unicode fs name
      then Inl (project_error_new ProjectNonUnicodePath (path_display project_file)
        (Text ''source path {} is not valid Unicode'' [path_display path]))
      else rbind (portable_names fs path project_file rest) (\<lambda>names. Inr (name # names)))"
| "portable_names fs path project_file (c # rest) =
     Inl (project_error_new InvalidProperty (path_display project_file)
       (Text ''source path {} is not relative to its project'' [path_display path]))"

definition portable_path :: "'io source_files \<Rightarrow> path \<Rightarrow> path \<Rightarrow> project_error + string" where
  "portable_path fs path project_file = rbind (portable_names fs path project_file path) (\<lambda>names. Inr (join_with CHR ''/'' names))"

definition strip_path_prefix :: "path \<Rightarrow> path \<Rightarrow> path option" where
  "strip_path_prefix p q = (if path_starts_with p q then Some (drop (length q) p) else None)"

definition is_csharp_name :: "string \<Rightarrow> bool" where
  "is_csharp_name name \<longleftrightarrow> (case extension_of_name name of Some e \<Rightarrow> eq_ignore_case e ''cs'' | None \<Rightarrow> False)"

definition push_source :: "'io source_files \<Rightarrow> path \<Rightarrow> path \<Rightarrow> path \<Rightarrow> string list \<Rightarrow> source_stop + string list" where
  "push_source fs workspace_root project_file path sources =
     (case strip_path_prefix path workspace_root of
        None \<Rightarrow> Inl SourcePanic
      | Some relative \<Rightarrow> rbind (source_error (portable_path fs relative project_file)) (\<lambda>text. Inr (sources @ [text])))"

text \<open>What every walk needs.\<close>

record 'io walk =
  wk_fs :: "'io source_files"
  wk_root :: path
  wk_project_path :: path
  wk_exclusions :: "path list"

section \<open>Below a link\<close>

datatype linked_source_work = Visit path path | Leave

definition push_if_csharp :: "'io walk \<Rightarrow> path \<Rightarrow> string \<Rightarrow> string list \<Rightarrow> source_stop + string list" where
  "push_if_csharp w path name sources =
     (if is_csharp_name name then push_source (wk_fs w) (wk_root w) (wk_project_path w) path sources else Inr sources)"

definition linked_link :: "'io walk \<Rightarrow> path \<Rightarrow> path \<Rightarrow> string \<Rightarrow> linked_source_work list \<times> string list \<Rightarrow>
    source_stop + linked_source_work list \<times> string list" where
  "linked_link w physical_root path name st =
     (let fs = wk_fs w; (work, sources) = st;
        resolve = source_error (resolve_workspace_link fs path (wk_root w) physical_root) in
      rbind (source_error (excludes fs (wk_exclusions w) path name)) (\<lambda>excluded.
      if excluded then Inr st else
      rbind (source_error (map_error (unsafe_link_identity_error fs path (wk_root w)) (sf_metadata fs path))) (\<lambda>target.
        if target = Directory then rbind resolve (\<lambda>resolved. Inr (Visit path resolved # work, sources))
        else if target = RegularFile then
          (if is_csharp_name name
           then rbind resolve (\<lambda>_. rbind (push_if_csharp w path name sources) (\<lambda>sources. Inr (work, sources)))
           else Inr st)
        else rbind resolve (\<lambda>resolved. Inl (SourceError (unsupported_link_target_error path (wk_root w) resolved))))))"

definition linked_entry :: "'io walk \<Rightarrow> path \<Rightarrow> path \<Rightarrow> path \<Rightarrow> linked_source_work list \<times> string list \<Rightarrow> 'io directory_entry \<Rightarrow>
    source_stop + linked_source_work list \<times> string list" where
  "linked_entry w physical_root logical physical st found =
     rbind (source_error (map_error (source_io_error (wk_fs w) ''enumerate'' logical) found)) (\<lambda>(name, kind).
     let path = logical @ [Normal name]; (work, sources) = st in
     rbind (source_error (map_error (source_io_error (wk_fs w) ''inspect'' path) kind)) (\<lambda>file_type.
       case file_type of
         Directory \<Rightarrow>
           rbind (source_error (excludes (wk_fs w) (wk_exclusions w) path name)) (\<lambda>excluded.
             Inr (if excluded then work else Visit path (physical @ [Normal name]) # work, sources))
       | RegularFile \<Rightarrow> rbind (push_if_csharp w path name sources) (\<lambda>sources. Inr (work, sources))
       | SymbolicLink \<Rightarrow> linked_link w physical_root path name st
       | OtherFile \<Rightarrow> Inr st))"

fun linked_loop :: "nat \<Rightarrow> 'io walk \<Rightarrow> path \<Rightarrow> linked_source_work list \<Rightarrow> path list \<Rightarrow> string list \<Rightarrow> source_stop + string list" where
  "linked_loop 0 w physical_root work active sources = (if work = [] then Inr sources else Inl OutOfFuel)"
| "linked_loop (Suc n) w physical_root work active sources =
     (case work of
        [] \<Rightarrow> Inr sources
      | Leave # rest \<Rightarrow> linked_loop n w physical_root rest (tl active) sources
      | Visit logical physical # rest \<Rightarrow>
          if physical \<in> set active then Inl (SourceError (source_link_cycle_error logical (wk_root w) physical))
          else rbind (source_error (map_error (source_io_error (wk_fs w) ''enumerate'' logical) (sf_read_dir (wk_fs w) logical))) (\<lambda>entries.
            rbind (try_fold (linked_entry w physical_root logical physical) (Leave # rest, sources) entries) (\<lambda>(work, sources).
              linked_loop n w physical_root work (physical # active) sources)))"

text \<open>The physical directories above the link: the root and every name below it, innermost first.\<close>

definition active_above :: "path \<Rightarrow> path \<Rightarrow> path list" where
  "active_above physical_root relative = rev (map (\<lambda>i. physical_root @ take i relative) [0..<Suc (length relative)])"

definition collect_linked_sources :: "nat \<Rightarrow> 'io walk \<Rightarrow> path \<Rightarrow> path \<Rightarrow> path \<Rightarrow> string list \<Rightarrow> source_stop + string list" where
  "collect_linked_sources n w logical_root physical_target physical_root sources =
     (if logical_root = [] then Inl SourcePanic
      else case strip_path_prefix (butlast logical_root) (wk_root w) of
        None \<Rightarrow> Inl SourcePanic
      | Some relative \<Rightarrow> linked_loop n w physical_root [Visit logical_root physical_target] (active_above physical_root relative) sources)"

section \<open>Below the project\<close>

record collection =
  co_directories :: "path list"
  co_physical_root :: "path option"
  co_sources :: "string list"

definition source_link :: "nat \<Rightarrow> 'io walk \<Rightarrow> path \<Rightarrow> string \<Rightarrow> collection \<Rightarrow> source_stop + collection" where
  "source_link n w path name c =
     (let fs = wk_fs w; validate = source_error (validate_workspace_link fs path (wk_root w) (co_physical_root c) (wk_project_path w)) in
      rbind (source_error (excludes fs (wk_exclusions w) path name)) (\<lambda>excluded.
      if excluded then Inr c else
      rbind (source_error (map_error (unsafe_link_identity_error fs path (wk_root w)) (sf_metadata fs path))) (\<lambda>target.
        if target = Directory then rbind validate (\<lambda>(resolved, root).
          rbind (collect_linked_sources n w path resolved root (co_sources c)) (\<lambda>sources.
            Inr (c\<lparr>co_physical_root := Some root, co_sources := sources\<rparr>)))
        else if target = RegularFile then
          (if is_csharp_name name
           then rbind validate (\<lambda>(_, root). rbind (push_if_csharp w path name (co_sources c)) (\<lambda>sources.
             Inr (c\<lparr>co_physical_root := Some root, co_sources := sources\<rparr>)))
           else Inr c)
        else rbind validate (\<lambda>(resolved, _). Inl (SourceError (unsupported_link_target_error path (wk_root w) resolved))))))"

definition source_entry :: "nat \<Rightarrow> 'io walk \<Rightarrow> path \<Rightarrow> collection \<Rightarrow> 'io directory_entry \<Rightarrow> source_stop + collection" where
  "source_entry n w directory c found =
     rbind (source_error (map_error (source_io_error (wk_fs w) ''enumerate'' directory) found)) (\<lambda>(name, kind).
     let path = directory @ [Normal name] in
     rbind (source_error (map_error (source_io_error (wk_fs w) ''inspect'' path) kind)) (\<lambda>file_type.
       case file_type of
         Directory \<Rightarrow>
           rbind (source_error (excludes (wk_fs w) (wk_exclusions w) path name)) (\<lambda>excluded.
             Inr (if excluded then c else c\<lparr>co_directories := path # co_directories c\<rparr>))
       | RegularFile \<Rightarrow> rbind (push_if_csharp w path name (co_sources c)) (\<lambda>sources. Inr (c\<lparr>co_sources := sources\<rparr>))
       | SymbolicLink \<Rightarrow> source_link n w path name c
       | OtherFile \<Rightarrow> Inr c))"

fun collect_loop :: "nat \<Rightarrow> 'io walk \<Rightarrow> collection \<Rightarrow> source_stop + string list" where
  "collect_loop 0 w c = (if co_directories c = [] then Inr (co_sources c) else Inl OutOfFuel)"
| "collect_loop (Suc n) w c =
     (case co_directories c of
        [] \<Rightarrow> Inr (co_sources c)
      | directory # rest \<Rightarrow>
          rbind (source_error (map_error (source_io_error (wk_fs w) ''enumerate'' directory) (sf_read_dir (wk_fs w) directory))) (\<lambda>entries.
          rbind (try_fold (source_entry (Suc n) w directory) (c\<lparr>co_directories := rest\<rparr>) entries) (collect_loop n w)))"

definition collect_sources :: "nat \<Rightarrow> 'io walk \<Rightarrow> source_stop + string list" where
  "collect_sources n w =
     rbind (source_error (excludes_configured (wk_fs w) (wk_exclusions w) (wk_root w))) (\<lambda>excluded.
       if excluded then Inr []
       else rbind (collect_loop n w \<lparr>co_directories = [wk_root w], co_physical_root = None, co_sources = []\<rparr>) (\<lambda>sources.
         Inr (sort sources)))"

end
