(* ===== verification/Source_Facts.thy ===== *)
theory Source_Facts
  imports Source_Collection
begin

text \<open>
  What collecting the sources finds: the C# files of the directories that can be reached from the project
  without entering an excluded one, where a link counts when its target lies in the workspace.
\<close>

section \<open>Reachable directories\<close>

definition entered :: "'io walk \<Rightarrow> path \<Rightarrow> string \<Rightarrow> bool" where
  "entered w p name \<longleftrightarrow> excludes (wk_fs w) (wk_exclusions w) p name = Inr False"

text \<open>A link whose target lies below the physical workspace.\<close>

definition link_inside :: "'io walk \<Rightarrow> path \<Rightarrow> bool" where
  "link_inside w p \<longleftrightarrow> (\<exists>root target. sf_canonicalize (wk_fs w) (wk_root w) = Inr root
     \<and> sf_canonicalize (wk_fs w) p = Inr target \<and> path_starts_with target root)"

text \<open>What an entry of a directory contributes: a directory to walk, or a source.\<close>

definition entry_child :: "'io walk \<Rightarrow> path \<Rightarrow> 'io directory_entry \<Rightarrow> path \<Rightarrow> bool" where
  "entry_child w d e p \<longleftrightarrow> (\<exists>name. p = d @ [Normal name] \<and> entered w p name
     \<and> (e = Inr (name, Inr Directory)
        \<or> e = Inr (name, Inr SymbolicLink) \<and> sf_metadata (wk_fs w) p = Inr Directory \<and> link_inside w p))"

definition entry_source :: "'io walk \<Rightarrow> path \<Rightarrow> 'io directory_entry \<Rightarrow> path \<Rightarrow> bool" where
  "entry_source w d e p \<longleftrightarrow> (\<exists>name. p = d @ [Normal name] \<and> is_csharp_name name
     \<and> (e = Inr (name, Inr RegularFile)
        \<or> e = Inr (name, Inr SymbolicLink) \<and> entered w p name \<and> sf_metadata (wk_fs w) p = Inr RegularFile \<and> link_inside w p))"

definition entries_of :: "'io walk \<Rightarrow> path \<Rightarrow> 'io directory_entry set" where
  "entries_of w d = (case sf_read_dir (wk_fs w) d of Inr entries \<Rightarrow> set entries | Inl _ \<Rightarrow> {})"

definition children :: "'io walk \<Rightarrow> path \<Rightarrow> path set" where
  "children w d = {p. \<exists>e \<in> entries_of w d. entry_child w d e p}"

text \<open>The texts of the sources of a directory, relative to the project.\<close>

definition source_texts :: "'io walk \<Rightarrow> path \<Rightarrow> 'io directory_entry set \<Rightarrow> string set" where
  "source_texts w d es = {join_with CHR ''/'' names | names. \<exists>e \<in> es. entry_source w d e (wk_root w @ map Normal names)}"

inductive visited :: "'io walk \<Rightarrow> path \<Rightarrow> bool" for w where
  visited_root: "visited w (wk_root w)"
| visited_child: "visited w d \<Longrightarrow> p \<in> children w d \<Longrightarrow> visited w p"

text \<open>A set of directories with all they lead to.\<close>

definition walked :: "'io walk \<Rightarrow> path set \<Rightarrow> bool" where
  "walked w D \<longleftrightarrow> (\<forall>d \<in> D. visited w d \<and> children w d \<subseteq> D)"

definition all_texts :: "'io walk \<Rightarrow> path set \<Rightarrow> string set" where
  "all_texts w D = (\<Union>d \<in> D. source_texts w d (entries_of w d))"

lemma walked_Un: "walked w D \<Longrightarrow> walked w E \<Longrightarrow> walked w (D \<union> E)"
  by (auto simp: walked_def)

lemma all_texts_simps [simp]: "all_texts w {} = {}" "all_texts w (insert d D) = source_texts w d (entries_of w d) \<union> all_texts w D"
  "all_texts w (D \<union> E) = all_texts w D \<union> all_texts w E"
  by (auto simp: all_texts_def)

lemma source_texts_empty [simp]: "source_texts w d {} = {}"
  by (simp add: source_texts_def)

lemma source_texts_insert: "source_texts w d (insert e es) = source_texts w d {e} \<union> source_texts w d es"
  by (auto simp: source_texts_def)

lemma walked_insert: "walked w D \<Longrightarrow> visited w d \<Longrightarrow> children w d \<subseteq> D \<Longrightarrow> walked w (insert d D)"
  by (auto simp: walked_def)

lemma walked_all:
  assumes "walked w D" and "wk_root w \<in> D"
  shows "D = {d. visited w d}"
proof -
  have "d \<in> D" if "visited w d" for d
    using that by induction (use assms in \<open>auto simp: walked_def\<close>)
  then show ?thesis using assms(1) by (auto simp: walked_def)
qed

section \<open>One entry\<close>

lemma source_error_Inr [simp]: "source_error r = Inr x \<longleftrightarrow> r = Inr x"
  by (simp add: source_error_def map_error_Inr)

lemma portable_names_Inr: "portable_names fs p project_file q = Inr names \<Longrightarrow> q = map Normal names"
  by (induction fs p project_file q arbitrary: names rule: portable_names.induct) (auto simp: rbind_eq_Inr split: if_splits)

lemma push_source_Inr:
  assumes "push_source fs root project_file p sources = Inr sources'"
  shows "\<exists>names. p = root @ map Normal names \<and> sources' = sources @ [join_with CHR ''/'' names]"
proof -
  have p: "take (length root) p = root"
    using assms by (simp add: push_source_def strip_path_prefix_def path_starts_with_def split: if_splits)
  have "rbind (source_error (portable_path fs (drop (length root) p) project_file)) (\<lambda>t. Inr (sources @ [t])) = Inr sources'"
    using assms p by (simp add: push_source_def strip_path_prefix_def path_starts_with_def)
  then obtain t where t: "portable_path fs (drop (length root) p) project_file = Inr t" and s: "sources' = sources @ [t]"
    unfolding rbind_eq_Inr by (auto simp: source_error_def map_error_Inr)
  from t obtain names where n: "portable_names fs (drop (length root) p) project_file (drop (length root) p) = Inr names"
    and join: "t = join_with CHR ''/'' names"
    by (auto simp: portable_path_def rbind_eq_Inr)
  have "p = take (length root) p @ drop (length root) p" by (rule append_take_drop_id [symmetric])
  also have "\<dots> = root @ map Normal names" by (simp only: p portable_names_Inr [OF n])
  finally have "p = root @ map Normal names" .
  with s join show ?thesis by (intro exI [of _ names] conjI) simp_all
qed

lemma resolve_link_Inr:
  "resolve_workspace_link fs p root physical = Inr target \<longleftrightarrow> sf_canonicalize fs p = Inr target \<and> path_starts_with target physical"
  by (auto simp: resolve_workspace_link_def rbind_eq_Inr map_error_Inr)

lemma entry_source_unique:
  assumes "entry_source w d e p" and "entry_source w d e q"
  shows "p = q"
proof -
  obtain name kind where p: "p = d @ [Normal name]" "e = Inr (name, Inr kind)"
    using assms(1) unfolding entry_source_def by blast
  obtain name' kind' where q: "q = d @ [Normal name']" "e = Inr (name', Inr kind')"
    using assms(2) unfolding entry_source_def by blast
  show ?thesis using p q by simp
qed

lemma texts_single:
  assumes "entry_source w d e (wk_root w @ map Normal names)"
  shows "source_texts w d {e} = {join_with CHR ''/'' names}"
proof -
  have inj: "inj Normal" by (simp add: inj_def)
  have "entry_source w d e (wk_root w @ map Normal names') \<longleftrightarrow> names' = names" for names'
    using assms entry_source_unique [of w d e "wk_root w @ map Normal names'" "wk_root w @ map Normal names"] inj_map_eq_map [OF inj] by auto
  then show ?thesis unfolding source_texts_def by simp
qed

lemma texts_none: "(\<And>p. \<not> entry_source w d e p) \<Longrightarrow> source_texts w d {e} = {}"
  by (auto simp: source_texts_def)

fun logical_path :: "linked_source_work \<Rightarrow> path option" where
  "logical_path (Visit logical physical) = Some logical"
| "logical_path Leave = None"

definition logical_paths :: "linked_source_work list \<Rightarrow> path set" where
  "logical_paths work = {p. Some p \<in> logical_path ` set work}"

lemma logical_paths_simps [simp]: "logical_paths [] = {}" "logical_paths (Leave # work) = logical_paths work"
  "logical_paths (Visit l p # work) = insert l (logical_paths work)" "logical_paths (xs @ ys) = logical_paths xs \<union> logical_paths ys"
  by (auto simp: logical_paths_def)

lemma texts_source:
  assumes "push_if_csharp w p name sources = Inr sources'" and "p = d @ [Normal name]" and "is_csharp_name name \<Longrightarrow> entry_source w d e p"
    and "\<not> is_csharp_name name \<Longrightarrow> (\<And>q. \<not> entry_source w d e q)"
  shows "set sources' = set sources \<union> source_texts w d {e}"
proof (cases "is_csharp_name name")
  case True
  then have "push_source (wk_fs w) (wk_root w) (wk_project_path w) p sources = Inr sources'"
    using assms(1) by (simp add: push_if_csharp_def)
  from push_source_Inr [OF this] obtain names where names: "p = wk_root w @ map Normal names" "sources' = sources @ [join_with CHR ''/'' names]"
    by blast
  show ?thesis using texts_single [of w d e names] assms(3) [OF True] names by simp
next
  case False
  then show ?thesis using assms(1) texts_none [OF assms(4)] by (simp add: push_if_csharp_def)
qed

lemma linked_link_spec:
  assumes "linked_link w physical_root p name (work, sources) = Inr (work', sources')" and "p = d @ [Normal name]"
    and "sf_canonicalize (wk_fs w) (wk_root w) = Inr physical_root" and e: "e = Inr (name, Inr SymbolicLink)"
  shows "logical_paths work' = logical_paths work \<union> {q. entry_child w d e q} \<and> set sources' = set sources \<union> source_texts w d {e}"
proof -
  have inside: "link_inside w p" if "resolve_workspace_link (wk_fs w) p (wk_root w) physical_root = Inr t" for t
    using that assms(3) by (auto simp: link_inside_def resolve_link_Inr)
  obtain excluded where x: "excludes (wk_fs w) (wk_exclusions w) p name = Inr excluded"
    using assms(1) by (auto simp: linked_link_def Let_def rbind_eq_Inr)
  show ?thesis
  proof (cases excluded)
    case True
    have "source_texts w d {e} = {}" by (rule texts_none) (use assms(2) e x True in \<open>auto simp: entry_source_def entered_def\<close>)
    then show ?thesis using assms(1,2) e x True by (auto simp: linked_link_def Let_def entry_child_def entered_def)
  next
    case False
    then obtain target where m: "sf_metadata (wk_fs w) p = Inr target"
      using assms(1) x by (auto simp: linked_link_def Let_def rbind_eq_Inr map_error_Inr)
    have ent: "entered w p name" using x False by (simp add: entered_def)
    consider "target = Directory" | "target = RegularFile" "is_csharp_name name" | "target = RegularFile" "\<not> is_csharp_name name"
      using assms(1) x False m by (fastforce simp: linked_link_def Let_def rbind_eq_Inr)
    then show ?thesis
    proof cases
      case 1
      then obtain t where t: "resolve_workspace_link (wk_fs w) p (wk_root w) physical_root = Inr t"
        and new: "work' = Visit p t # work" "sources' = sources"
        using assms(1) x False m by (auto simp: linked_link_def Let_def rbind_eq_Inr)
      have "source_texts w d {e} = {}" by (rule texts_none) (use assms(2) m e 1 in \<open>auto simp: entry_source_def\<close>)
      moreover have "entry_child w d e q \<longleftrightarrow> q = p" for q
        using ent m e 1 inside [OF t] assms(2) by (auto simp: entry_child_def)
      ultimately show ?thesis using new by auto
    next
      case 2
      then obtain t where t: "resolve_workspace_link (wk_fs w) p (wk_root w) physical_root = Inr t"
        and push: "push_if_csharp w p name sources = Inr sources'" "work' = work"
        using assms(1) x False m by (auto simp: linked_link_def Let_def rbind_eq_Inr)
      have "entry_source w d e p" using 2 e ent m inside [OF t] assms(2) by (simp add: entry_source_def)
      then show ?thesis using texts_source [OF push(1) assms(2)] 2 m e push(2) assms(2) by (auto simp: entry_child_def)
    next
      case 3
      have "source_texts w d {e} = {}" by (rule texts_none) (use assms(2) e 3 in \<open>auto simp: entry_source_def\<close>)
      then show ?thesis using assms(1,2) x False m 3 e by (auto simp: linked_link_def Let_def entry_child_def)
    qed
  qed
qed

lemma linked_entry_spec:
  assumes "linked_entry w physical_root d physical (work, sources) e = Inr (work', sources')"
    and "sf_canonicalize (wk_fs w) (wk_root w) = Inr physical_root"
  shows "logical_paths work' = logical_paths work \<union> {q. entry_child w d e q} \<and> set sources' = set sources \<union> source_texts w d {e}"
proof -
  obtain name kind where e: "e = Inr (name, Inr kind)"
    using assms(1) by (auto simp: linked_entry_def Let_def rbind_eq_Inr map_error_Inr)
  let ?p = "d @ [Normal name]"
  show ?thesis
  proof (cases kind)
    case Directory
    then obtain excluded where x: "excludes (wk_fs w) (wk_exclusions w) ?p name = Inr excluded"
      and new: "work' = (if excluded then work else Visit ?p (physical @ [Normal name]) # work)" "sources' = sources"
      using assms(1) e by (auto simp: linked_entry_def Let_def rbind_eq_Inr)
    have none: "source_texts w d {e} = {}" by (rule texts_none) (use e Directory in \<open>auto simp: entry_source_def\<close>)
    show ?thesis using x new none Directory e by (auto simp: entry_child_def entered_def)
  next
    case RegularFile
    then have push: "push_if_csharp w ?p name sources = Inr sources'" "work' = work"
      using assms(1) e by (auto simp: linked_entry_def Let_def rbind_eq_Inr)
    have "set sources' = set sources \<union> source_texts w d {e}"
      by (rule texts_source [OF push(1) refl]) (use e RegularFile in \<open>auto simp: entry_source_def\<close>)
    then show ?thesis using push e RegularFile by (auto simp: entry_child_def)
  next
    case OtherFile
    have "source_texts w d {e} = {}" by (rule texts_none) (use e OtherFile in \<open>auto simp: entry_source_def\<close>)
    then show ?thesis using assms(1) e OtherFile by (auto simp: linked_entry_def Let_def entry_child_def)
  next
    case SymbolicLink
    then have "linked_link w physical_root ?p name (work, sources) = Inr (work', sources')"
      using assms(1) e by (simp add: linked_entry_def Let_def)
    from linked_link_spec [OF this refl assms(2)] show ?thesis using e SymbolicLink by simp
  qed
qed

section \<open>One directory\<close>

lemma linked_entries_spec:
  assumes "try_fold (linked_entry w physical_root d physical) (work, sources) es = Inr (work', sources')"
    and "sf_canonicalize (wk_fs w) (wk_root w) = Inr physical_root"
  shows "logical_paths work' = logical_paths work \<union> {q. \<exists>e \<in> set es. entry_child w d e q} \<and> set sources' = set sources \<union> source_texts w d (set es)"
  using assms(1)
proof (induction es arbitrary: work sources)
  case (Cons e es)
  obtain work1 sources1 where first: "linked_entry w physical_root d physical (work, sources) e = Inr (work1, sources1)"
    and rest: "try_fold (linked_entry w physical_root d physical) (work1, sources1) es = Inr (work', sources')"
    using Cons.prems by (auto simp: rbind_eq_Inr)
  from linked_entry_spec [OF first assms(2)] Cons.IH [OF rest] show ?case
    by (auto simp: source_texts_insert [of w d e "set es"])
qed simp

text \<open>What a walk returns: the sources it had and those of a set of directories that leaves nothing out.\<close>

definition found_below :: "'io walk \<Rightarrow> path set \<Rightarrow> string set \<Rightarrow> string set \<Rightarrow> path set \<Rightarrow> bool" where
  "found_below w start before after D \<longleftrightarrow> start \<subseteq> D \<and> walked w D \<and> after = before \<union> all_texts w D"

lemma found_nothing: "\<exists>D. found_below w {} S S D"
  by (rule exI [of _ "{}"]) (simp add: found_below_def walked_def)

lemma linked_loop_found:
  assumes "linked_loop n w physical_root work active sources = Inr sources'"
    and "sf_canonicalize (wk_fs w) (wk_root w) = Inr physical_root" and "\<forall>p \<in> logical_paths work. visited w p"
  shows "\<exists>D. found_below w (logical_paths work) (set sources) (set sources') D"
  using assms(1,3)
proof (induction n arbitrary: work active sources)
  case 0
  then have "work = []" "sources' = sources" by (simp_all split: if_splits)
  then show ?case using found_nothing by simp
next
  case (Suc n)
  show ?case
  proof (cases work)
    case Nil
    then have "sources' = sources" using Suc.prems(1) by simp
    then show ?thesis using Nil found_nothing by simp
  next
    case (Cons item rest)
    show ?thesis
    proof (cases item)
      case Leave
      then show ?thesis using Suc.IH [of rest "tl active" sources] Suc.prems Cons by simp
    next
      case (Visit d physical)
      obtain es work1 sources1 where read: "sf_read_dir (wk_fs w) d = Inr es"
        and fold: "try_fold (linked_entry w physical_root d physical) (Leave # rest, sources) es = Inr (work1, sources1)"
        and loop: "linked_loop n w physical_root work1 (physical # active) sources1 = Inr sources'"
        using Suc.prems(1) Cons Visit by (auto simp: rbind_eq_Inr map_error_Inr split: if_splits)
      have es: "set es = entries_of w d" using read by (simp add: entries_of_def)
      have d: "visited w d" using Suc.prems(2) Cons Visit by simp
      from linked_entries_spec [OF fold assms(2)]
      have work1: "logical_paths work1 = logical_paths rest \<union> children w d" and sources1: "set sources1 = set sources \<union> source_texts w d (entries_of w d)"
        by (simp_all add: children_def es)
      have "\<forall>p \<in> logical_paths work1. visited w p" using Suc.prems(2) Cons Visit work1 visited_child [OF d] by auto
      from Suc.IH [OF loop this] obtain D where D: "found_below w (logical_paths work1) (set sources1) (set sources') D" by blast
      have "found_below w (logical_paths work) (set sources) (set sources') (insert d D)"
        using D d work1 sources1 Cons Visit by (auto simp: found_below_def intro: walked_insert)
      then show ?thesis by blast
    qed
  qed
qed

lemma collect_linked_found:
  assumes "collect_linked_sources n w p resolved physical_root sources = Inr sources'"
    and "sf_canonicalize (wk_fs w) (wk_root w) = Inr physical_root" and "visited w p"
  shows "\<exists>D. found_below w {p} (set sources) (set sources') D"
proof -
  obtain active where "linked_loop n w physical_root [Visit p resolved] active sources = Inr sources'"
    using assms(1) by (auto simp: collect_linked_sources_def split: if_splits option.splits)
  from linked_loop_found [OF this assms(2)] assms(3) show ?thesis by simp
qed

section \<open>Below the project\<close>

definition root_known :: "'io walk \<Rightarrow> collection \<Rightarrow> bool" where
  "root_known w c \<longleftrightarrow> (\<forall>root. co_physical_root c = Some root \<longrightarrow> sf_canonicalize (wk_fs w) (wk_root w) = Inr root)"

text \<open>After an entry: its directory is waiting, or was walked through a link.\<close>

definition entry_done :: "'io walk \<Rightarrow> path set \<Rightarrow> collection \<Rightarrow> collection \<Rightarrow> string set \<Rightarrow> bool" where
  "entry_done w qs c c' texts \<longleftrightarrow> root_known w c' \<and> (\<exists>ps D. set (co_directories c') = ps \<union> set (co_directories c) \<and> ps \<subseteq> qs \<and> qs \<subseteq> ps \<union> D
     \<and> walked w D \<and> set (co_sources c') = set (co_sources c) \<union> texts \<union> all_texts w D)"

lemma entry_done_kept: "root_known w c \<Longrightarrow> entry_done w {} c c {}"
  unfolding entry_done_def by (intro conjI exI [of _ "{}"]) (auto simp: walked_def)

lemma validate_link_Inr:
  assumes "validate_workspace_link (wk_fs w) p (wk_root w) (co_physical_root c) project_file = Inr (target, root)" and "root_known w c"
  shows "sf_canonicalize (wk_fs w) (wk_root w) = Inr root" "link_inside w p"
proof -
  show root: "sf_canonicalize (wk_fs w) (wk_root w) = Inr root"
    using assms by (auto simp: validate_workspace_link_def root_known_def rbind_eq_Inr map_error_Inr split: option.splits)
  have "resolve_workspace_link (wk_fs w) p (wk_root w) root = Inr target"
    using assms(1) by (auto simp: validate_workspace_link_def rbind_eq_Inr)
  then show "link_inside w p" using root by (auto simp: link_inside_def resolve_link_Inr)
qed

lemma source_link_done:
  assumes "source_link n w p name c = Inr c'" and p: "p = d @ [Normal name]" and "root_known w c" and "visited w d"
    and e: "e = Inr (name, Inr SymbolicLink)" and "e \<in> entries_of w d"
  shows "entry_done w {q. entry_child w d e q} c c' (source_texts w d {e})"
proof -
  obtain excluded where x: "excludes (wk_fs w) (wk_exclusions w) p name = Inr excluded"
    using assms(1) by (auto simp: source_link_def Let_def rbind_eq_Inr)
  show ?thesis
  proof (cases excluded)
    case True
    have "source_texts w d {e} = {}" by (rule texts_none) (use p e x True in \<open>auto simp: entry_source_def entered_def\<close>)
    moreover have "{q. entry_child w d e q} = {}" using p e x True by (auto simp: entry_child_def entered_def)
    ultimately show ?thesis using assms(1,3) x True by (simp add: source_link_def entry_done_kept)
  next
    case False
    then obtain target where m: "sf_metadata (wk_fs w) p = Inr target"
      using assms(1) x by (auto simp: source_link_def Let_def rbind_eq_Inr map_error_Inr)
    have ent: "entered w p name" using x False by (simp add: entered_def)
    consider "target = Directory" | "target = RegularFile" "is_csharp_name name" | "target = RegularFile" "\<not> is_csharp_name name"
      using assms(1) x False m by (fastforce simp: source_link_def Let_def rbind_eq_Inr)
    then show ?thesis
    proof cases
      case 1
      then obtain t root sources where t: "validate_workspace_link (wk_fs w) p (wk_root w) (co_physical_root c) (wk_project_path w) = Inr (t, root)"
        and linked: "collect_linked_sources n w p t root (co_sources c) = Inr sources"
        and c': "c' = c\<lparr>co_physical_root := Some root, co_sources := sources\<rparr>"
        using assms(1) x False m by (auto simp: source_link_def Let_def rbind_eq_Inr)
      note inside = validate_link_Inr [OF t assms(3)]
      have child: "entry_child w d e q \<longleftrightarrow> q = p" for q using ent m e 1 inside p by (auto simp: entry_child_def)
      have "p \<in> children w d" using child assms(6) by (auto simp: children_def)
      then have "visited w p" by (rule visited_child [OF assms(4)])
      from collect_linked_found [OF linked inside(1) this] obtain D where D: "found_below w {p} (set (co_sources c)) (set sources) D" by blast
      have "source_texts w d {e} = {}" by (rule texts_none) (use p m e 1 in \<open>auto simp: entry_source_def\<close>)
      then show ?thesis
        unfolding entry_done_def using D inside(1) child c'
        by (intro conjI exI [of _ "{}"] exI [of _ D]) (auto simp: root_known_def found_below_def)
    next
      case 2
      then obtain t root sources where t: "validate_workspace_link (wk_fs w) p (wk_root w) (co_physical_root c) (wk_project_path w) = Inr (t, root)"
        and push: "push_if_csharp w p name (co_sources c) = Inr sources"
        and c': "c' = c\<lparr>co_physical_root := Some root, co_sources := sources\<rparr>"
        using assms(1) x False m by (auto simp: source_link_def Let_def rbind_eq_Inr)
      note inside = validate_link_Inr [OF t assms(3)]
      have "entry_source w d e p" using 2 e ent m inside p by (simp add: entry_source_def)
      then have "set sources = set (co_sources c) \<union> source_texts w d {e}" using texts_source [OF push p] 2 by blast
      moreover have "{q. entry_child w d e q} = {}" using m e 2 p by (auto simp: entry_child_def)
      ultimately show ?thesis unfolding entry_done_def using inside(1) c'
        by (intro conjI exI [of _ "{}"]) (auto simp: root_known_def walked_def)
    next
      case 3
      have "source_texts w d {e} = {}" by (rule texts_none) (use p e 3 in \<open>auto simp: entry_source_def\<close>)
      moreover have "{q. entry_child w d e q} = {}" using m e 3 p by (auto simp: entry_child_def)
      ultimately show ?thesis using assms(1,3) x False m 3 by (simp add: source_link_def entry_done_kept)
    qed
  qed
qed

lemma source_entry_done:
  assumes "source_entry n w d c e = Inr c'" and "root_known w c" and "visited w d" and "e \<in> entries_of w d"
  shows "entry_done w {q. entry_child w d e q} c c' (source_texts w d {e})"
proof -
  obtain name kind where e: "e = Inr (name, Inr kind)"
    using assms(1) by (auto simp: source_entry_def Let_def rbind_eq_Inr map_error_Inr)
  let ?p = "d @ [Normal name]"
  show ?thesis
  proof (cases kind)
    case Directory
    then obtain excluded where x: "excludes (wk_fs w) (wk_exclusions w) ?p name = Inr excluded"
      and new: "c' = (if excluded then c else c\<lparr>co_directories := ?p # co_directories c\<rparr>)"
      using assms(1) e by (auto simp: source_entry_def Let_def rbind_eq_Inr)
    have none: "source_texts w d {e} = {}" by (rule texts_none) (use e Directory in \<open>auto simp: entry_source_def\<close>)
    have child: "{q. entry_child w d e q} = (if excluded then {} else {?p})" using x e Directory by (auto simp: entry_child_def entered_def)
    show ?thesis unfolding none child entry_done_def using new assms(2)
      by (intro conjI exI [of _ "if excluded then {} else {?p}"] exI [of _ "{}"]) (auto simp: root_known_def walked_def)
  next
    case RegularFile
    then obtain sources where push: "push_if_csharp w ?p name (co_sources c) = Inr sources" and c': "c' = c\<lparr>co_sources := sources\<rparr>"
      using assms(1) e by (auto simp: source_entry_def Let_def rbind_eq_Inr)
    have "set sources = set (co_sources c) \<union> source_texts w d {e}"
      by (rule texts_source [OF push refl]) (use e RegularFile in \<open>auto simp: entry_source_def\<close>)
    moreover have "{q. entry_child w d e q} = {}" using e RegularFile by (auto simp: entry_child_def)
    ultimately show ?thesis unfolding entry_done_def using c' assms(2)
      by (intro conjI exI [of _ "{}"]) (auto simp: root_known_def walked_def)
  next
    case OtherFile
    have "source_texts w d {e} = {}" by (rule texts_none) (use e OtherFile in \<open>auto simp: entry_source_def\<close>)
    moreover have "{q. entry_child w d e q} = {}" using e OtherFile by (auto simp: entry_child_def)
    moreover have "c' = c" using assms(1) e OtherFile by (simp add: source_entry_def Let_def)
    ultimately show ?thesis using assms(2) by (simp add: entry_done_kept)
  next
    case SymbolicLink
    then have "source_link n w ?p name c = Inr c'" using assms(1) e by (simp add: source_entry_def Let_def)
    from source_link_done [OF this refl assms(2,3) _ assms(4)] show ?thesis using e SymbolicLink by simp
  qed
qed

lemma entry_done_trans:
  assumes "entry_done w qs c c1 texts1" and "entry_done w qs' c1 c' texts2"
  shows "entry_done w (qs \<union> qs') c c' (texts1 \<union> texts2)"
proof -
  obtain ps D where 1: "set (co_directories c1) = ps \<union> set (co_directories c)" "ps \<subseteq> qs" "qs \<subseteq> ps \<union> D" "walked w D"
    "set (co_sources c1) = set (co_sources c) \<union> texts1 \<union> all_texts w D"
    using assms(1) unfolding entry_done_def by blast
  obtain ps' D' where 2: "set (co_directories c') = ps' \<union> set (co_directories c1)" "ps' \<subseteq> qs'" "qs' \<subseteq> ps' \<union> D'" "walked w D'"
    "set (co_sources c') = set (co_sources c1) \<union> texts2 \<union> all_texts w D'"
    using assms(2) unfolding entry_done_def by blast
  show ?thesis unfolding entry_done_def
    using 1 2 walked_Un [of w D D'] assms(2) by (intro conjI exI [of _ "ps \<union> ps'"] exI [of _ "D \<union> D'"]) (auto simp: entry_done_def)
qed

lemma source_entries_done:
  assumes "try_fold (source_entry n w d) c es = Inr c'" and "root_known w c" and "visited w d" and "set es \<subseteq> entries_of w d"
  shows "entry_done w {q. \<exists>e \<in> set es. entry_child w d e q} c c' (source_texts w d (set es))"
  using assms(1,2,4)
proof (induction es arbitrary: c)
  case Nil
  then show ?case using entry_done_kept by simp
next
  case (Cons e es)
  obtain c1 where first: "source_entry n w d c e = Inr c1" and rest: "try_fold (source_entry n w d) c1 es = Inr c'"
    using Cons.prems(1) by (auto simp: rbind_eq_Inr)
  have e: "entry_done w {q. entry_child w d e q} c c1 (source_texts w d {e})"
    by (rule source_entry_done [OF first Cons.prems(2) assms(3)]) (use Cons.prems(3) in simp)
  have "entry_done w {q. \<exists>e \<in> set es. entry_child w d e q} c1 c' (source_texts w d (set es))"
    by (rule Cons.IH [OF rest]) (use e Cons.prems(3) in \<open>simp_all add: entry_done_def\<close>)
  from entry_done_trans [OF e this] show ?case
    by (simp add: source_texts_insert [of w d e "set es"] Collect_disj_eq)
qed

lemma collect_loop_found:
  assumes "collect_loop n w c = Inr sources" and "root_known w c" and "\<forall>d \<in> set (co_directories c). visited w d"
  shows "\<exists>D. found_below w (set (co_directories c)) (set (co_sources c)) (set sources) D"
  using assms
proof (induction n arbitrary: c)
  case 0
  then have "co_directories c = []" "sources = co_sources c" by (simp_all split: if_splits)
  then show ?case using found_nothing by simp
next
  case (Suc n)
  show ?case
  proof (cases "co_directories c")
    case Nil
    then have "sources = co_sources c" using Suc.prems(1) by simp
    then show ?thesis using Nil found_nothing by simp
  next
    case (Cons d rest)
    obtain es c1 where read: "sf_read_dir (wk_fs w) d = Inr es"
      and fold: "try_fold (source_entry (Suc n) w d) (c\<lparr>co_directories := rest\<rparr>) es = Inr c1"
      and loop: "collect_loop n w c1 = Inr sources"
      using Suc.prems(1) Cons by (auto simp: rbind_eq_Inr map_error_Inr)
    have es: "set es = entries_of w d" using read by (simp add: entries_of_def)
    have d: "visited w d" using Suc.prems(3) Cons by simp
    have "entry_done w (children w d) (c\<lparr>co_directories := rest\<rparr>) c1 (source_texts w d (entries_of w d))"
      using source_entries_done [OF fold _ d] Suc.prems(2) es by (simp add: root_known_def children_def)
    then obtain ps D where step: "root_known w c1" "set (co_directories c1) = ps \<union> set rest" "ps \<subseteq> children w d" "children w d \<subseteq> ps \<union> D"
      "walked w D" "set (co_sources c1) = set (co_sources c) \<union> source_texts w d (entries_of w d) \<union> all_texts w D"
      by (auto simp: entry_done_def)
    have "\<forall>p \<in> set (co_directories c1). visited w p" using step(2,3) Suc.prems(3) Cons visited_child [OF d] by auto
    from Suc.IH [OF loop step(1) this] obtain E where E: "found_below w (set (co_directories c1)) (set (co_sources c1)) (set sources) E" by blast
    have "walked w (insert d (D \<union> E))"
      by (rule walked_insert [OF walked_Un d]) (use step E in \<open>auto simp: found_below_def\<close>)
    then have "found_below w (set (co_directories c)) (set (co_sources c)) (set sources) (insert d (D \<union> E))"
      using E step Cons by (auto simp: found_below_def)
    then show ?thesis by blast
  qed
qed

text \<open>C9: When the sources of a project are collected, the result is sorted and consists of exactly the C# files
  of the directories that can be reached from the project's, relative to it: below directories that are
  not excluded, and through links that are not excluded and whose physical target lies in the physical
  workspace. No file outside the workspace is read through a link to it, and nothing reachable is missed.\<close>
theorem collect_sources_exact:
  assumes "collect_sources n w = Inr sources" and "excludes_configured (wk_fs w) (wk_exclusions w) (wk_root w) = Inr False"
  shows "sorted sources \<and> set sources = {join_with CHR ''/'' names | names.
    \<exists>d e. visited w d \<and> e \<in> entries_of w d \<and> entry_source w d e (wk_root w @ map Normal names)}"
proof -
  let ?start = "\<lparr>co_directories = [wk_root w], co_physical_root = None, co_sources = []\<rparr>"
  obtain unsorted where loop: "collect_loop n w ?start = Inr unsorted" and sources: "sources = sort unsorted"
    using assms by (auto simp: collect_sources_def rbind_eq_Inr)
  have "\<exists>D. found_below w (set (co_directories ?start)) (set (co_sources ?start)) (set unsorted) D"
    by (rule collect_loop_found [OF loop]) (simp_all add: root_known_def visited_root)
  then obtain D where D: "wk_root w \<in> D" "walked w D" "set unsorted = all_texts w D" by (auto simp: found_below_def)
  have "all_texts w D = {join_with CHR ''/'' names | names. \<exists>d e. visited w d \<and> e \<in> entries_of w d \<and> entry_source w d e (wk_root w @ map Normal names)}"
    unfolding walked_all [OF D(2,1)] all_texts_def source_texts_def by blast
  then show ?thesis using D(3) sources by simp
qed

text \<open>A source, an excluded directory, and a link to a source of the workspace.\<close>

definition example_files :: "nat source_files" where
  "example_files = \<lparr>sf_cwd = Inr [RootDir],
     sf_read_dir = (\<lambda>p. if p = [RootDir, Normal ''w''] then Inr [Inr (''b.cs'', Inr RegularFile), Inr (''bin'', Inr Directory), Inr (''a.CS'', Inr SymbolicLink)] else Inl 0),
     sf_metadata = (\<lambda>p. Inr RegularFile), sf_canonicalize = (\<lambda>p. if p = [RootDir, Normal ''w''] then Inr p else Inr [RootDir, Normal ''w'', Normal ''b.cs'']),
     sf_invalid_input = 0, sf_not_found = (\<lambda>_. True), sf_message = (\<lambda>_. []), sf_unicode = (\<lambda>_. True)\<rparr>"

definition example_walk :: "nat walk" where
  "example_walk = \<lparr>wk_fs = example_files, wk_root = [RootDir, Normal ''w''], wk_project_path = [RootDir, Normal ''w'', Normal ''A.csproj''], wk_exclusions = []\<rparr>"

lemma example_collected: "collect_sources 1 example_walk = Inr [''a.CS'', ''b.cs'']"
  by code_simp

lemma collect_sources_exact_witness:
  "sorted [''a.CS'', ''b.cs''] \<and> set [''a.CS'', ''b.cs''] = {join_with CHR ''/'' names | names.
    \<exists>d e. visited example_walk d \<and> e \<in> entries_of example_walk d \<and> entry_source example_walk d e (wk_root example_walk @ map Normal names)}"
  by (rule collect_sources_exact [OF example_collected]) (simp add: example_walk_def)

end
