(* ===== verification/Source_Termination.thy ===== *)
theory Source_Termination
  imports Source_Facts
begin

text \<open>
  Collecting the sources ends. Below the project the walk ends because the tree of directories is
  finite; below a link it ends because a physical directory that is being walked is not entered again,
  whatever the links.
\<close>

section \<open>Results that no longer depend on the fuel\<close>

definition settles :: "(nat \<Rightarrow> source_stop + 'a) \<Rightarrow> bool" where
  "settles f \<longleftrightarrow> (\<exists>n r. r \<noteq> Inl OutOfFuel \<and> (\<forall>m \<ge> n. f m = r))"

lemma settles_const: "r \<noteq> Inl OutOfFuel \<Longrightarrow> settles (\<lambda>_. r)"
  by (auto simp: settles_def)

lemma settles_Suc: "settles (\<lambda>m. f (Suc m)) \<Longrightarrow> settles f"
proof -
  assume "settles (\<lambda>m. f (Suc m))"
  then obtain n r where r: "r \<noteq> Inl OutOfFuel" and s: "\<forall>m \<ge> n. f (Suc m) = r" unfolding settles_def by blast
  have "f m = r" if "Suc n \<le> m" for m using s that by (cases m) auto
  then show "settles f" unfolding settles_def using r by blast
qed

lemma settles_rbind:
  assumes "settles f" and "\<And>x m. f m = Inr x \<Longrightarrow> settles (\<lambda>m. g m x)"
  shows "settles (\<lambda>m. rbind (f m) (g m))"
proof -
  obtain n r where r: "r \<noteq> Inl OutOfFuel" "\<forall>m \<ge> n. f m = r" using assms(1) unfolding settles_def by blast
  show ?thesis
  proof (cases r)
    case (Inl e)
    then have "\<forall>m \<ge> n. rbind (f m) (g m) = Inl e" using r(2) by simp
    then show ?thesis unfolding settles_def using r(1) Inl by blast
  next
    case (Inr x)
    then have "f n = Inr x" using r(2) by simp
    from assms(2) [OF this] obtain n' r' where r': "r' \<noteq> Inl OutOfFuel" "\<forall>m \<ge> n'. g m x = r'" unfolding settles_def by blast
    have "\<forall>m \<ge> max n n'. rbind (f m) (g m) = r'" using r(2) r'(2) Inr by simp
    then show ?thesis unfolding settles_def using r'(1) by blast
  qed
qed

lemma settles_fold:
  assumes "\<And>c e. I c \<Longrightarrow> e \<in> set es \<Longrightarrow> settles (\<lambda>m. f m c e)" and "\<And>m c e c'. I c \<Longrightarrow> e \<in> set es \<Longrightarrow> f m c e = Inr c' \<Longrightarrow> I c'" and "I c"
  shows "settles (\<lambda>m. try_fold (f m) c es)"
  using assms
proof (induction es arbitrary: c)
  case Nil
  then show ?case by (simp add: settles_const)
next
  case (Cons e es)
  have "settles (\<lambda>m. rbind (f m c e) (\<lambda>c'. try_fold (f m) c' es))"
  proof (rule settles_rbind)
    show "settles (\<lambda>m. f m c e)" by (rule Cons.prems(1)) (use Cons.prems(3) in simp_all)
    fix c' m
    assume "f m c e = Inr c'"
    then have "I c'" using Cons.prems(2) [of c e m c'] Cons.prems(3) by simp
    then show "settles (\<lambda>m. try_fold (f m) c' es)"
    proof (rule Cons.IH [rotated 2])
      show "settles (\<lambda>m. f m c e)" if "I c" "e \<in> set es" for c e using Cons.prems(1) that by simp
      show "I c'" if "I c" "e \<in> set es" "f m c e = Inr c'" for m c e c' using Cons.prems(2) [of c e m c'] that by simp
    qed
  qed
  then show ?case by simp
qed

section \<open>Below a link\<close>

lemma source_error_Inl [simp]: "source_error r = Inl e \<longleftrightarrow> (\<exists>e'. r = Inl e' \<and> e = SourceError e')"
  by (cases r) auto

lemma push_fuel [simp]: "push_if_csharp w p name sources \<noteq> Inl OutOfFuel"
  by (auto simp: push_if_csharp_def push_source_def rbind_eq_Inl split: option.splits)

lemma linked_link_fuel: "linked_link w physical_root p name st \<noteq> Inl OutOfFuel"
  by (auto simp: linked_link_def Let_def rbind_eq_Inl split: prod.splits if_splits)

lemma linked_entry_fuel: "linked_entry w physical_root d physical st e \<noteq> Inl OutOfFuel"
  using linked_link_fuel [of w physical_root]
  by (auto simp: linked_entry_def Let_def rbind_eq_Inl split: prod.splits file_kind.splits if_splits)

lemma linked_fold_fuel: "try_fold (linked_entry w physical_root d physical) st es \<noteq> Inl OutOfFuel"
  by (induction es arbitrary: st) (auto simp: rbind_eq_Inl linked_entry_fuel)

text \<open>The directories a walk below a link can meet, with what they are physically.\<close>

inductive physical_directory :: "'io walk \<Rightarrow> path \<Rightarrow> path \<Rightarrow> path \<Rightarrow> bool" for w physical_root where
  through_link: "sf_metadata (wk_fs w) p = Inr Directory \<Longrightarrow> sf_canonicalize (wk_fs w) p = Inr t \<Longrightarrow> path_starts_with t physical_root \<Longrightarrow>
    physical_directory w physical_root p t"
| below_directory: "physical_directory w physical_root d t \<Longrightarrow> Inr (name, Inr Directory) \<in> entries_of w d \<Longrightarrow>
    physical_directory w physical_root (d @ [Normal name]) (t @ [Normal name])"

definition to_walk :: "'io walk \<Rightarrow> path \<Rightarrow> linked_source_work \<Rightarrow> bool" where
  "to_walk w physical_root item \<longleftrightarrow> (\<exists>d t. item = Visit d t \<and> physical_directory w physical_root d t)"

lemma linked_link_work:
  assumes "linked_link w physical_root p name (work, sources) = Inr (work', sources')"
  shows "\<exists>vs. work' = vs @ work \<and> list_all (to_walk w physical_root) vs"
proof -
  obtain excluded where x: "excludes (wk_fs w) (wk_exclusions w) p name = Inr excluded"
    using assms by (auto simp: linked_link_def Let_def rbind_eq_Inr)
  show ?thesis
  proof (cases "excluded \<or> sf_metadata (wk_fs w) p \<noteq> Inr Directory")
    case True
    then have "work' = work"
      using assms x by (auto simp: linked_link_def Let_def rbind_eq_Inr map_error_Inr split: if_splits)
    then show ?thesis by simp
  next
    case False
    then obtain t where "resolve_workspace_link (wk_fs w) p (wk_root w) physical_root = Inr t" and new: "work' = Visit p t # work"
      using assms x by (auto simp: linked_link_def Let_def rbind_eq_Inr)
    then have "to_walk w physical_root (Visit p t)" using False by (auto simp: to_walk_def resolve_link_Inr intro: through_link)
    then show ?thesis using new by (intro exI [of _ "[Visit p t]"]) simp
  qed
qed

lemma linked_entry_work:
  assumes "linked_entry w physical_root d t (work, sources) e = Inr (work', sources')" and "physical_directory w physical_root d t" and "e \<in> entries_of w d"
  shows "\<exists>vs. work' = vs @ work \<and> list_all (to_walk w physical_root) vs"
proof -
  obtain name kind where e: "e = Inr (name, Inr kind)"
    using assms(1) by (auto simp: linked_entry_def Let_def rbind_eq_Inr map_error_Inr)
  show ?thesis
  proof (cases kind)
    case Directory
    then have "physical_directory w physical_root (d @ [Normal name]) (t @ [Normal name])"
      using assms(2,3) e by (auto intro: below_directory)
    then have "to_walk w physical_root (Visit (d @ [Normal name]) (t @ [Normal name]))" by (simp add: to_walk_def)
    moreover have "work' = work \<or> work' = [Visit (d @ [Normal name]) (t @ [Normal name])] @ work"
      using assms(1) e Directory by (auto simp: linked_entry_def Let_def rbind_eq_Inr split: if_splits)
    ultimately show ?thesis
      by (elim disjE) (auto intro: exI [of _ "[]"] exI [of _ "[Visit (d @ [Normal name]) (t @ [Normal name])]"])
  next
    case SymbolicLink
    then have "linked_link w physical_root (d @ [Normal name]) name (work, sources) = Inr (work', sources')"
      using assms(1) e by (simp add: linked_entry_def Let_def)
    then show ?thesis by (rule linked_link_work)
  qed (use assms(1) e in \<open>auto simp: linked_entry_def Let_def rbind_eq_Inr\<close>)
qed

lemma linked_fold_work:
  assumes "try_fold (linked_entry w physical_root d t) (work, sources) es = Inr (work', sources')" and "physical_directory w physical_root d t"
    and "set es \<subseteq> entries_of w d"
  shows "\<exists>vs. work' = vs @ work \<and> list_all (to_walk w physical_root) vs"
  using assms(1,3)
proof (induction es arbitrary: work sources)
  case (Cons e es)
  obtain work1 sources1 where first: "linked_entry w physical_root d t (work, sources) e = Inr (work1, sources1)"
    and rest: "try_fold (linked_entry w physical_root d t) (work1, sources1) es = Inr (work', sources')"
    using Cons.prems(1) by (auto simp: rbind_eq_Inr)
  obtain vs where "work1 = vs @ work" "list_all (to_walk w physical_root) vs"
    using linked_entry_work [OF first assms(2)] Cons.prems(2) by auto
  moreover obtain vs' where "work' = vs' @ work1" "list_all (to_walk w physical_root) vs'"
    using Cons.IH [OF rest] Cons.prems(2) by auto
  ultimately show ?case by (intro exI [of _ "vs' @ vs"]) simp
qed simp

definition linked_returns :: "'io walk \<Rightarrow> path \<Rightarrow> linked_source_work list \<Rightarrow> path list \<Rightarrow> bool" where
  "linked_returns w physical_root work active \<longleftrightarrow> (\<forall>sources. \<exists>n. linked_loop n w physical_root work active sources \<noteq> Inl OutOfFuel)"

lemma linked_returns_Leave: "linked_returns w physical_root work active \<Longrightarrow> linked_returns w physical_root (Leave # work) (t # active)"
  unfolding linked_returns_def
proof
  fix sources
  assume "\<forall>sources. \<exists>n. linked_loop n w physical_root work active sources \<noteq> Inl OutOfFuel"
  then obtain n where "linked_loop n w physical_root work active sources \<noteq> Inl OutOfFuel" by blast
  then show "\<exists>n. linked_loop n w physical_root (Leave # work) (t # active) sources \<noteq> Inl OutOfFuel" by (intro exI [of _ "Suc n"]) simp
qed

text \<open>One directory: it ends if whatever it adds ends above the rest.\<close>

lemma linked_returns_Visit:
  assumes "physical_directory w physical_root d t"
    and "\<And>vs. t \<notin> set active \<Longrightarrow> list_all (to_walk w physical_root) vs \<Longrightarrow> linked_returns w physical_root (vs @ Leave # rest) (t # active)"
  shows "linked_returns w physical_root (Visit d t # rest) active"
  unfolding linked_returns_def
proof
  fix sources
  show "\<exists>n. linked_loop n w physical_root (Visit d t # rest) active sources \<noteq> Inl OutOfFuel"
  proof (cases "t \<in> set active")
    case True
    then show ?thesis by (intro exI [of _ 1]) simp
  next
    case False
    show ?thesis
    proof (cases "sf_read_dir (wk_fs w) d")
      case (Inl e)
      then show ?thesis using False by (intro exI [of _ 1]) simp
    next
      case (Inr es)
      show ?thesis
      proof (cases "try_fold (linked_entry w physical_root d t) (Leave # rest, sources) es")
        case (Inl e)
        then have "e \<noteq> OutOfFuel" using linked_fold_fuel [of w physical_root d t "(Leave # rest, sources)" es] by auto
        then show ?thesis using False Inr Inl by (intro exI [of _ 1]) simp
      next
        case fold: (Inr st)
        obtain work1 sources1 where st: "st = (work1, sources1)" by (cases st)
        have "set es \<subseteq> entries_of w d" using Inr by (simp add: entries_of_def)
        from linked_fold_work [OF fold [unfolded st] assms(1) this] obtain vs where vs: "work1 = vs @ Leave # rest" "list_all (to_walk w physical_root) vs" by blast
        from assms(2) [OF False vs(2)] obtain n where "linked_loop n w physical_root work1 (t # active) sources1 \<noteq> Inl OutOfFuel"
          unfolding linked_returns_def vs(1) by blast
        then show ?thesis using False Inr fold st by (intro exI [of _ "Suc n"]) simp
      qed
    qed
  qed
qed

lemma linked_returns_all:
  assumes "finite {t. \<exists>d. physical_directory w physical_root d t}"
  shows "list_all (to_walk w physical_root) vs \<Longrightarrow> linked_returns w physical_root rest active \<Longrightarrow> linked_returns w physical_root (vs @ rest) active"
proof (induction "card ({t. \<exists>d. physical_directory w physical_root d t} - set active)" arbitrary: vs rest active rule: less_induct)
  case less
  let ?P = "{t. \<exists>d. physical_directory w physical_root d t}"
  show ?case using less.prems(1)
  proof (induction vs)
    case Nil
    then show ?case using less.prems(2) by simp
  next
    case (Cons v vs)
    then obtain d t where v: "v = Visit d t" and d: "physical_directory w physical_root d t" by (auto simp: to_walk_def)
    have tail: "linked_returns w physical_root (vs @ rest) active" using Cons by simp
    have "linked_returns w physical_root (us @ Leave # vs @ rest) (t # active)"
      if "t \<notin> set active" "list_all (to_walk w physical_root) us" for us
    proof (rule less.hyps [OF _ that(2) linked_returns_Leave [OF tail]])
      have "?P - set (t # active) = (?P - set active) - {t}" by auto
      then show "card (?P - set (t # active)) < card (?P - set active)"
        using assms d that(1) by (auto intro!: card_Diff1_less)
    qed
    from linked_returns_Visit [OF d this] show ?case by (simp add: v)
  qed
qed

lemma linked_loop_more:
  "linked_loop n w physical_root work active sources \<noteq> Inl OutOfFuel \<Longrightarrow> n \<le> m \<Longrightarrow>
    linked_loop m w physical_root work active sources = linked_loop n w physical_root work active sources"
proof (induction n arbitrary: m work active sources)
  case 0
  then have "work = []" by (simp split: if_splits)
  then show ?case by (cases m) simp_all
next
  case (Suc n)
  then obtain k where m: "m = Suc k" "n \<le> k" by (cases m) auto
  show ?case
  proof (cases work)
    case Nil
    then show ?thesis using m by simp
  next
    case (Cons item rest)
    show ?thesis
    proof (cases item)
      case Leave
      have "linked_loop k w physical_root rest (tl active) sources = linked_loop n w physical_root rest (tl active) sources"
        by (rule Suc.IH [OF _ m(2)]) (use Suc.prems(1) Cons Leave in simp)
      then show ?thesis by (simp add: m Cons Leave)
    next
      case (Visit d t)
      show ?thesis
      proof (cases "t \<in> set active \<or> (\<exists>e. sf_read_dir (wk_fs w) d = Inl e)")
        case True
        then show ?thesis by (auto simp: m Cons Visit)
      next
        case False
        then obtain es where es: "sf_read_dir (wk_fs w) d = Inr es" and t: "t \<notin> set active"
          by (cases "sf_read_dir (wk_fs w) d") auto
        show ?thesis
        proof (cases "try_fold (linked_entry w physical_root d t) (Leave # rest, sources) es")
          case (Inl e)
          then show ?thesis using es t by (simp add: m Cons Visit)
        next
          case (Inr st)
          obtain work1 sources1 where st: "st = (work1, sources1)" by (cases st)
          have "linked_loop k w physical_root work1 (t # active) sources1 = linked_loop n w physical_root work1 (t # active) sources1"
            by (rule Suc.IH [OF _ m(2)]) (use Suc.prems(1) Cons Visit es t Inr st in simp)
          then show ?thesis using es t Inr st by (simp add: m Cons Visit)
        qed
      qed
    qed
  qed
qed

lemma collect_linked_settles:
  assumes "finite {t. \<exists>d. physical_directory w physical_root d t}" and "physical_directory w physical_root p t"
  shows "settles (\<lambda>n. collect_linked_sources n w p t physical_root sources)"
proof -
  have "settles (\<lambda>n. linked_loop n w physical_root [Visit p t] active sources)" for active
  proof -
    have "linked_returns w physical_root ([Visit p t] @ []) active"
      by (rule linked_returns_all [OF assms(1)]) (use assms(2) in \<open>auto simp: to_walk_def linked_returns_def intro: exI [of _ 0]\<close>)
    then obtain n where "linked_loop n w physical_root [Visit p t] active sources \<noteq> Inl OutOfFuel" by (auto simp: linked_returns_def)
    then show ?thesis unfolding settles_def using linked_loop_more by blast
  qed
  then show ?thesis
    by (cases "p = []"; cases "strip_path_prefix (butlast p) (wk_root w)") (simp_all add: collect_linked_sources_def settles_const)
qed

section \<open>Below the project\<close>

inductive plain_directory :: "'io walk \<Rightarrow> path \<Rightarrow> bool" for w where
  plain_root: "plain_directory w (wk_root w)"
| plain_child: "plain_directory w d \<Longrightarrow> Inr (name, Inr Directory) \<in> entries_of w d \<Longrightarrow> plain_directory w (d @ [Normal name])"

definition links_finite :: "'io walk \<Rightarrow> bool" where
  "links_finite w \<longleftrightarrow> (\<forall>root. sf_canonicalize (wk_fs w) (wk_root w) = Inr root \<longrightarrow> finite {t. \<exists>d. physical_directory w root d t})"

lemma validate_fuel [simp]: "source_error r \<noteq> Inl OutOfFuel"
  by (cases r) simp_all

lemma source_link_settles:
  assumes "links_finite w" and "root_known w c"
  shows "settles (\<lambda>n. source_link n w p name c)"
  unfolding source_link_def Let_def
proof (rule settles_rbind, goal_cases)
  case 1
  show ?case by (rule settles_const) (rule validate_fuel)
next
  case (2 excluded m)
  have metadata: "settles (\<lambda>_. source_error (map_error (unsafe_link_identity_error (wk_fs w) p (wk_root w)) (sf_metadata (wk_fs w) p)))"
    by (rule settles_const) (rule validate_fuel)
  let ?validate = "validate_workspace_link (wk_fs w) p (wk_root w) (co_physical_root c) (wk_project_path w)"
  have validated: "settles (\<lambda>_. source_error ?validate)" by (rule settles_const) (rule validate_fuel)
  have walk: "settles (\<lambda>n. rbind (source_error ?validate) (\<lambda>(resolved, root).
      rbind (collect_linked_sources n w p resolved root (co_sources c)) (\<lambda>sources. Inr (c\<lparr>co_physical_root := Some root, co_sources := sources\<rparr>))))"
    if m: "sf_metadata (wk_fs w) p = Inr Directory"
  proof (rule settles_rbind [OF validated], goal_cases)
    case (1 x m)
    obtain t root where x: "x = (t, root)" by (cases x)
    with 1 have v: "?validate = Inr (t, root)" by simp
    have root: "sf_canonicalize (wk_fs w) (wk_root w) = Inr root" by (rule validate_link_Inr(1) [OF v assms(2)])
    then have fin: "finite {t. \<exists>d. physical_directory w root d t}" using assms(1) by (simp add: links_finite_def)
    have "resolve_workspace_link (wk_fs w) p (wk_root w) root = Inr t" using v by (auto simp: validate_workspace_link_def rbind_eq_Inr)
    then have dir: "physical_directory w root p t" using that by (auto simp: resolve_link_Inr intro: through_link)
    show ?case unfolding x prod.case
      by (rule settles_rbind [OF collect_linked_settles [OF fin dir]]) (simp add: settles_const)
  qed
  show ?case
  proof (cases excluded)
    case True
    then show ?thesis by (simp add: settles_const)
  next
    case False
    then show ?thesis
      unfolding if_not_P [OF False]
    proof (intro settles_rbind [OF metadata], goal_cases)
      case (1 target m)
      then have target: "sf_metadata (wk_fs w) p = Inr target" by (auto simp: map_error_Inr)
      show ?case
      proof (cases "target = Directory")
        case True
        then show ?thesis using walk target by simp
      next
        case False
        then show ?thesis
          by (auto intro!: settles_const simp: rbind_eq_Inl split: prod.splits)
      qed
    qed
  qed
qed

lemma source_entry_settles:
  assumes "links_finite w" and "root_known w c"
  shows "settles (\<lambda>n. source_entry n w d c e)"
proof (cases "\<exists>name. e = Inr (name, Inr SymbolicLink)")
  case True
  then obtain name where e: "e = Inr (name, Inr SymbolicLink)" by blast
  have "(\<lambda>n. source_entry n w d c e) = (\<lambda>n. source_link n w (d @ [Normal name]) name c)"
    by (simp add: e source_entry_def Let_def)
  then show ?thesis using source_link_settles [OF assms] by simp
next
  case False
  have "source_entry n w d c e = source_entry 0 w d c e" for n
    using False by (cases e) (auto simp: source_entry_def Let_def map_error_def split: prod.split sum.split file_kind.split)
  moreover have "source_entry 0 w d c e \<noteq> Inl OutOfFuel"
    using False by (auto simp: source_entry_def Let_def rbind_eq_Inl map_error_Inr split: file_kind.splits if_splits)
  ultimately show ?thesis unfolding settles_def by blast
qed

lemma source_link_directories:
  assumes "source_link n w p name c = Inr c'" and "root_known w c"
  shows "co_directories c' = co_directories c \<and> root_known w c'"
proof -
  have known: "sf_canonicalize (wk_fs w) (wk_root w) = Inr root"
    if "validate_workspace_link (wk_fs w) p (wk_root w) (co_physical_root c) (wk_project_path w) = Inr (t, root)" for t root
    by (rule validate_link_Inr(1) [OF that assms(2)])
  then show ?thesis
    using assms by (auto simp: source_link_def Let_def rbind_eq_Inr root_known_def split: if_splits)
qed

text \<open>What a directory adds to the stack is one level deeper.\<close>

definition one_deeper :: "'io walk \<Rightarrow> path \<Rightarrow> path list \<Rightarrow> bool" where
  "one_deeper w d ps \<longleftrightarrow> list_all (\<lambda>p. plain_directory w p \<and> length p = Suc (length d)) ps"

lemma source_entry_directories:
  assumes "source_entry n w d c e = Inr c'" and "root_known w c" and "plain_directory w d" and "e \<in> entries_of w d"
  shows "(\<exists>ps. co_directories c' = ps @ co_directories c \<and> one_deeper w d ps) \<and> root_known w c'"
proof -
  obtain name kind where e: "e = Inr (name, Inr kind)"
    using assms(1) by (auto simp: source_entry_def Let_def rbind_eq_Inr map_error_Inr)
  let ?p = "d @ [Normal name]"
  have same: "(\<exists>ps. co_directories c' = ps @ co_directories c \<and> one_deeper w d ps) \<and> root_known w c'"
    if "co_directories c' = co_directories c" "root_known w c'"
    using that by (auto simp: one_deeper_def intro: exI [of _ "[]"])
  show ?thesis
  proof (cases kind)
    case Directory
    then obtain excluded where new: "c' = (if excluded then c else c\<lparr>co_directories := ?p # co_directories c\<rparr>)"
      using assms(1) e by (auto simp: source_entry_def Let_def rbind_eq_Inr)
    have "one_deeper w d [?p]" using assms(3,4) e Directory by (auto simp: one_deeper_def intro: plain_child)
    then show ?thesis using new assms(2) same by (cases excluded) (auto simp: root_known_def intro: exI [of _ "[?p]"])
  next
    case SymbolicLink
    then have "source_link n w ?p name c = Inr c'" using assms(1) e by (simp add: source_entry_def Let_def)
    from source_link_directories [OF this assms(2)] show ?thesis by (intro same) simp_all
  next
    case RegularFile
    then show ?thesis using assms(1,2) e by (intro same) (auto simp: source_entry_def Let_def rbind_eq_Inr root_known_def)
  next
    case OtherFile
    then show ?thesis using assms(1,2) e by (intro same) (auto simp: source_entry_def Let_def)
  qed
qed

lemma source_entries_directories:
  assumes "try_fold (source_entry n w d) c es = Inr c'" and "root_known w c" and "plain_directory w d" and "set es \<subseteq> entries_of w d"
  shows "(\<exists>ps. co_directories c' = ps @ co_directories c \<and> one_deeper w d ps) \<and> root_known w c'"
  using assms(1,2,4)
proof (induction es arbitrary: c)
  case Nil
  then show ?case by (auto simp: one_deeper_def intro: exI [of _ "[]"])
next
  case (Cons e es)
  obtain c1 where first: "source_entry n w d c e = Inr c1" and rest: "try_fold (source_entry n w d) c1 es = Inr c'"
    using Cons.prems(1) by (auto simp: rbind_eq_Inr)
  from source_entry_directories [OF first Cons.prems(2) assms(3)] Cons.prems(3)
  obtain ps where ps: "co_directories c1 = ps @ co_directories c" "one_deeper w d ps" and k: "root_known w c1" by auto
  from Cons.IH [OF rest k] Cons.prems(3)
  obtain qs where "co_directories c' = qs @ co_directories c1" "one_deeper w d qs" "root_known w c'" by auto
  then show ?case using ps by (intro conjI exI [of _ "qs @ ps"]) (simp_all add: one_deeper_def)
qed

definition collect_settles :: "'io walk \<Rightarrow> path list \<Rightarrow> bool" where
  "collect_settles w dirs \<longleftrightarrow> (\<forall>c. co_directories c = dirs \<longrightarrow> root_known w c \<longrightarrow> settles (\<lambda>n. collect_loop n w c))"

lemma collect_settles_Cons:
  assumes "links_finite w" and "plain_directory w d" and "\<And>ps. one_deeper w d ps \<Longrightarrow> collect_settles w (ps @ rest)"
  shows "collect_settles w (d # rest)"
  unfolding collect_settles_def
proof (intro allI impI)
  fix c
  assume c: "co_directories c = d # rest" "root_known w c"
  show "settles (\<lambda>n. collect_loop n w c)"
  proof (rule settles_Suc)
    show "settles (\<lambda>n. collect_loop (Suc n) w c)"
    proof (cases "sf_read_dir (wk_fs w) d")
      case (Inl e)
      then show ?thesis using c by (simp add: settles_const)
    next
      case (Inr es)
      have es: "set es \<subseteq> entries_of w d" using Inr by (simp add: entries_of_def)
      let ?c = "c\<lparr>co_directories := rest\<rparr>"
      have known: "root_known w ?c" using c by (simp add: root_known_def)
      have "settles (\<lambda>n. rbind (try_fold (source_entry (Suc n) w d) ?c es) (\<lambda>c1. collect_loop n w c1))"
      proof (rule settles_rbind)
        have entry: "settles (\<lambda>n. source_entry (Suc n) w d c e)" if k: "root_known w c" for c e
        proof -
          obtain n r where "r \<noteq> Inl OutOfFuel" "\<forall>m \<ge> n. source_entry m w d c e = r"
            using source_entry_settles [OF assms(1) k, of d e] unfolding settles_def by blast
          then show ?thesis unfolding settles_def by (intro exI [of _ n] exI [of _ r]) simp
        qed
        show "settles (\<lambda>n. try_fold (source_entry (Suc n) w d) ?c es)"
        proof (rule settles_fold [where I = "root_known w", OF _ _ known])
          show "root_known w c'" if "root_known w c" "e \<in> set es" "source_entry (Suc m) w d c e = Inr c'" for m c e c'
            using source_entry_directories [OF that(3,1) assms(2)] that(2) es by auto
        qed (rule entry)
        fix c1 m
        assume "try_fold (source_entry (Suc m) w d) ?c es = Inr c1"
        from source_entries_directories [OF this known assms(2) es]
        obtain ps where "co_directories c1 = ps @ rest" "one_deeper w d ps" "root_known w c1" by auto
        then show "settles (\<lambda>n. collect_loop n w c1)" using assms(3) [of ps] by (simp add: collect_settles_def)
      qed
      then show ?thesis using c Inr by simp
    qed
  qed
qed

lemma collect_settles_all:
  assumes "links_finite w" and "\<And>d. plain_directory w d \<Longrightarrow> length d \<le> depth"
  shows "list_all (\<lambda>p. plain_directory w p \<and> k + length p > depth) ps \<Longrightarrow> collect_settles w rest \<Longrightarrow> collect_settles w (ps @ rest)"
proof (induction k arbitrary: ps rest)
  case 0
  then have "ps = []" using assms(2) by (cases ps) (auto simp: not_le [symmetric])
  then show ?case using 0 by simp
next
  case (Suc k)
  show ?case using Suc.prems(1)
  proof (induction ps)
    case Nil
    then show ?case using Suc.prems(2) by simp
  next
    case (Cons d ps)
    then have d: "plain_directory w d" "Suc k + length d > depth" and tail: "collect_settles w (ps @ rest)" by simp_all
    have "collect_settles w (qs @ ps @ rest)" if "one_deeper w d qs" for qs
      by (rule Suc.IH [OF _ tail]) (use that d(2) in \<open>auto simp: one_deeper_def list_all_iff\<close>)
    from collect_settles_Cons [OF assms(1) d(1) this] show ?case by simp
  qed
qed

text \<open>C10: Collecting the sources always ends. When the project has finitely many directories and the directories
  below the physical workspace that links lead to are finitely many, there is an amount of fuel
  from which on the result stays the same and is not the lack of fuel, even when links form cycles.\<close>
theorem collect_sources_ends:
  assumes "finite {d. plain_directory w d}"
    and "\<And>root. sf_canonicalize (wk_fs w) (wk_root w) = Inr root \<Longrightarrow> finite {t. \<exists>d. physical_directory w root d t}"
  shows "\<exists>n. collect_sources n w \<noteq> Inl OutOfFuel \<and> (\<forall>m \<ge> n. collect_sources m w = collect_sources n w)"
proof -
  let ?depth = "Max (length ` {d. plain_directory w d})"
  let ?start = "\<lparr>co_directories = [wk_root w], co_physical_root = None, co_sources = []\<rparr>"
  have links: "links_finite w" using assms(2) by (simp add: links_finite_def)
  have depth: "length d \<le> ?depth" if "plain_directory w d" for d using assms(1) that by simp
  have "settles (\<lambda>n. collect_loop n w c)" if "co_directories c = []" for c
    by (rule settles_Suc) (simp add: that settles_const)
  then have nil: "collect_settles w []" by (simp add: collect_settles_def)
  have "collect_settles w ([wk_root w] @ [])"
    by (rule collect_settles_all [where k = "Suc ?depth" and depth = ?depth, OF links _ _ nil]) (simp_all add: depth plain_root)
  then have "settles (\<lambda>n. collect_loop n w ?start)" by (simp add: collect_settles_def root_known_def)
  then have "settles (\<lambda>n. rbind (collect_loop n w ?start) (\<lambda>sources. Inr (sort sources)))"
    by (rule settles_rbind) (simp add: settles_const)
  then have "settles (\<lambda>n. if excluded then Inr [] else rbind (collect_loop n w ?start) (\<lambda>sources. Inr (sort sources)))" for excluded
    by (cases excluded) (simp_all add: settles_const)
  then have "settles (\<lambda>n. collect_sources n w)"
    unfolding collect_sources_def by (intro settles_rbind settles_const) auto
  then obtain n r where "r \<noteq> Inl OutOfFuel" "\<forall>m \<ge> n. collect_sources m w = r" unfolding settles_def by blast
  then show ?thesis by (intro exI [of _ n]) simp
qed

text \<open>A project with one file and a link to the project itself: the walk ends with the error of the cycle.\<close>

definition loop_files :: "nat source_files" where
  "loop_files = \<lparr>sf_cwd = Inr [RootDir],
     sf_read_dir = (\<lambda>p. Inr [Inr (''A.cs'', Inr RegularFile), Inr (''again'', Inr SymbolicLink)]),
     sf_metadata = (\<lambda>p. Inr Directory), sf_canonicalize = (\<lambda>p. Inr [RootDir]), sf_invalid_input = 0, sf_not_found = (\<lambda>_. True),
     sf_message = (\<lambda>_. []), sf_unicode = (\<lambda>_. True)\<rparr>"

definition loop_walk :: "nat walk" where
  "loop_walk = \<lparr>wk_fs = loop_files, wk_root = [RootDir], wk_project_path = [RootDir, Normal ''A.csproj''], wk_exclusions = []\<rparr>"

lemma loop_entries: "entries_of loop_walk d = {Inr (''A.cs'', Inr RegularFile), Inr (''again'', Inr SymbolicLink)}"
  by (simp add: entries_of_def loop_walk_def loop_files_def)

lemma collect_sources_ends_witness:
  "\<exists>n. collect_sources n loop_walk \<noteq> Inl OutOfFuel \<and> (\<forall>m \<ge> n. collect_sources m loop_walk = collect_sources n loop_walk)"
proof (rule collect_sources_ends)
  have "d = [RootDir]" if "plain_directory loop_walk d" for d
    using that by induction (simp_all add: loop_entries, simp add: loop_walk_def)
  then have "{d. plain_directory loop_walk d} \<subseteq> {[RootDir]}" by blast
  then show "finite {d. plain_directory loop_walk d}" by (rule finite_subset) simp
next
  fix root
  have "t = [RootDir]" if "physical_directory loop_walk root d t" for d t
    using that by induction (simp_all add: loop_entries, simp add: loop_walk_def loop_files_def)
  then have "{t. \<exists>d. physical_directory loop_walk root d t} \<subseteq> {[RootDir]}" by blast
  then show "finite {t. \<exists>d. physical_directory loop_walk root d t}" by (rule finite_subset) simp
qed

end
