(* ===== verification/Project_Materialize.thy ===== *)
theory Project_Materialize
  imports Central_Packages Source_Collection
begin

text \<open>
  \<open>crates/dv-core/src/project.rs\<close>: \<open>materialize_project\<close>, which turns what a project file and
  \<open>Directory.Packages.props\<close> say into the project record: the properties with their defaults, the
  references whose conditions hold, the versions of packages under central management, the sources
  below the project, and all texts packed into one table.
\<close>

section \<open>Settings\<close>

record project_settings =
  st_target_framework :: string
  st_parsed_target :: target_framework
  st_output_type :: project_output_type
  st_nullable :: bool
  st_implicit_usings :: bool
  st_deterministic :: bool
  st_self_contained :: bool
  st_nuget_audit_enabled :: bool
  st_restore_package_pruning :: bool
  st_allow_missing_prune_package_data :: bool
  st_central_management :: bool
  st_central_pinning :: bool
  st_central_override :: bool
  st_audit_mode :: nuget_audit_mode
  st_audit_level :: nuget_audit_level
  st_latest_runtime_patch :: "bool option"
  st_roll_forward :: runtime_roll_forward
  st_selected_runtime :: "string option"

definition parse_output_type :: "string \<Rightarrow> string option \<Rightarrow> project_error + project_output_type" where
  "parse_output_type path given =
     (let kind = or_default ''Library'' given in
      if kind = ''Exe'' then Inr Exe else if kind = ''Library'' then Inr Library
      else Inl (invalid_property path ''OutputType {value:?} is unsupported; use Exe or Library'' [kind]))"

definition parse_or_default :: "string \<Rightarrow> string \<Rightarrow> (string \<Rightarrow> 'a option) \<Rightarrow> 'a \<Rightarrow> string option \<Rightarrow> project_error + 'a" where
  "parse_or_default path template parse fallback given =
     (case given of None \<Rightarrow> Inr fallback | Some v \<Rightarrow> ok_or (invalid_property path template [v]) (parse v))"

definition parse_optional_bool :: "string \<Rightarrow> string \<Rightarrow> string option \<Rightarrow> project_error + bool option" where
  "parse_optional_bool path name given =
     (case given of None \<Rightarrow> Inr None | Some v \<Rightarrow> rbind (parse_bool path name (Some v) False) (\<lambda>b. Inr (Some b)))"

definition or_else :: "'a option \<Rightarrow> 'a option \<Rightarrow> 'a option" where
  "or_else x y = (case x of None \<Rightarrow> y | Some _ \<Rightarrow> x)"

text \<open>A central switch: the project's own value counts before the one of \<open>Directory.Packages.props\<close>.\<close>

definition central_switch :: "string \<Rightarrow> string \<Rightarrow> string option \<Rightarrow> string option \<Rightarrow> bool \<Rightarrow> project_error + bool" where
  "central_switch path name own central fallback = parse_bool path name (or_else own central) fallback"

definition central_settings :: "string \<Rightarrow> raw_project \<Rightarrow> raw_central_packages \<Rightarrow> project_error + bool \<times> bool \<times> bool" where
  "central_settings path raw central =
     (let central_path = or_default path (rc_path central) in
      rbind (if rc_path central = None then Inr False
        else central_switch central_path ''ManagePackageVersionsCentrally''
          (raw_properties raw PropertyManagePackageVersionsCentrally) (rc_properties central ManagePackageVersionsCentrally) False) (\<lambda>management.
      rbind (if \<not> management then Inr False
        else central_switch central_path ''CentralPackageTransitivePinningEnabled''
          (raw_properties raw PropertyCentralPackageTransitivePinningEnabled) (rc_properties central CentralPackageTransitivePinningEnabled) False) (\<lambda>pinning.
      rbind (central_switch central_path ''CentralPackageVersionOverrideEnabled''
          (raw_properties raw PropertyCentralPackageVersionOverrideEnabled) (rc_properties central CentralPackageVersionOverrideEnabled) True) (\<lambda>override.
        Inr (management, pinning, override)))))"

definition evaluate_settings :: "string \<Rightarrow> raw_project \<Rightarrow> raw_central_packages \<Rightarrow> project_error + project_settings" where
  "evaluate_settings path raw central =
     (let prop = raw_properties raw in
      rbind (required_property path ''TargetFramework'' (prop PropertyTargetFramework)) (\<lambda>framework.
      rbind (map_error (\<lambda>original. invalid_property path ''invalid or unsupported target framework {:?}'' [original])
        (parse_framework framework)) (\<lambda>target.
      rbind (parse_output_type path (prop PropertyOutputType)) (\<lambda>output_type.
      rbind (parse_toggle path ''Nullable'' (prop PropertyNullable) False True) (\<lambda>nullable.
      rbind (parse_toggle path ''ImplicitUsings'' (prop PropertyImplicitUsings) False False) (\<lambda>implicit_usings.
      rbind (parse_bool path ''Deterministic'' (prop PropertyDeterministic) True) (\<lambda>deterministic.
      rbind (parse_bool path ''SelfContained'' (prop PropertySelfContained) False) (\<lambda>self_contained.
      rbind (parse_bool path ''NuGetAudit'' (prop PropertyNuGetAudit) True) (\<lambda>audit.
      rbind (parse_bool path ''RestoreEnablePackagePruning'' (prop PropertyRestoreEnablePackagePruning)
        (tfm_family target = Net \<and> 10 \<le> tfm_major target)) (\<lambda>pruning.
      rbind (parse_bool path ''AllowMissingPrunePackageData'' (prop PropertyAllowMissingPrunePackageData) False) (\<lambda>allow_missing.
      rbind (central_settings path raw central) (\<lambda>(management, pinning, override).
      rbind (parse_or_default path ''NuGetAuditMode value {value:?} must be direct or all'' parse_audit_mode
        (if 10 \<le> tfm_major target then AuditAll else AuditDirect) (prop PropertyNuGetAuditMode)) (\<lambda>audit_mode.
      rbind (parse_or_default path ''NuGetAuditLevel value {value:?} must be low, moderate, high, or critical'' parse_audit_level
        AuditLow (prop PropertyNuGetAuditLevel)) (\<lambda>audit_level.
      rbind (parse_optional_bool path ''TargetLatestRuntimePatch'' (prop PropertyTargetLatestRuntimePatch)) (\<lambda>latest_patch.
      rbind (parse_or_default path ''RollForward value {value:?} is unsupported'' parse_roll_forward RollMinor (prop PropertyRollForward)) (\<lambda>roll_forward.
      rbind (validate_optional_version path ''RuntimeFrameworkVersion'' (prop PropertyRuntimeFrameworkVersion)) (\<lambda>_.
      rbind (parse_runtime_identifier path (prop PropertyRuntimeIdentifier)) (\<lambda>selected_runtime.
        Inr \<lparr>st_target_framework = framework, st_parsed_target = target, st_output_type = output_type, st_nullable = nullable,
          st_implicit_usings = implicit_usings, st_deterministic = deterministic, st_self_contained = self_contained,
          st_nuget_audit_enabled = audit, st_restore_package_pruning = pruning, st_allow_missing_prune_package_data = allow_missing,
          st_central_management = management, st_central_pinning = pinning, st_central_override = override,
          st_audit_mode = audit_mode, st_audit_level = audit_level, st_latest_runtime_patch = latest_patch,
          st_roll_forward = roll_forward, st_selected_runtime = selected_runtime\<rparr>))))))))))))))))))"

section \<open>Runtimes and names\<close>

text \<open>The selected runtime is looked up among the listed ones and put after them when it is not there.\<close>

fun position :: "'a \<Rightarrow> 'a list \<Rightarrow> nat option" where
  "position x [] = None"
| "position x (y # ys) = (if y = x then Some 0 else map_option Suc (position x ys))"

definition select_runtime :: "string \<Rightarrow> string option \<Rightarrow> string list \<Rightarrow> project_error + nat \<times> string list" where
  "select_runtime path selected dimensions =
     (if 2 ^ 32 \<le> length dimensions
      then Inl (unsupported_error path ''RuntimeIdentifiers contains more than 4 billion target dimensions'' [])
      else case selected of
        None \<Rightarrow> Inr (NO_RUNTIME_IDENTIFIER, dimensions)
      | Some runtime \<Rightarrow> (case position runtime dimensions of
          Some index \<Rightarrow> Inr (index, dimensions)
        | None \<Rightarrow>
            if length dimensions = NO_RUNTIME_IDENTIFIER
            then Inl (unsupported_error path ''runtime target dimensions exhaust the compact selected-index space'' [])
            else Inr (length dimensions, dimensions @ [runtime])))"

definition literal_name :: "string \<Rightarrow> string \<Rightarrow> string \<Rightarrow> project_error + string" where
  "literal_name path template name =
     (if name = [] \<or> is_dynamic name then Inl (invalid_property path template []) else Inr name)"

definition project_names :: "'io source_files \<Rightarrow> string \<Rightarrow> raw_project \<Rightarrow> project_error + string \<times> string" where
  "project_names fs path raw =
     rbind (ok_or (project_error_new ProjectNonUnicodePath path (Text ''project file name is not valid Unicode'' []))
       (project_file_stem fs path)) (\<lambda>fallback.
     rbind (literal_name path ''AssemblyName must be a non-empty literal'' (or_default fallback (raw_properties raw PropertyAssemblyName))) (\<lambda>assembly.
     rbind (literal_name path ''RootNamespace must be a non-empty literal'' (or_default assembly (raw_properties raw PropertyRootNamespace))) (\<lambda>root.
       Inr (assembly, root))))"

definition raw_exclusions :: "raw_project \<Rightarrow> raw_source_exclusions" where
  "raw_exclusions raw = \<lparr>xs_base_output_path = raw_properties raw PropertyBaseOutputPath,
     xs_base_intermediate_output_path = raw_properties raw PropertyBaseIntermediateOutputPath,
     xs_output_path = raw_properties raw PropertyOutputPath, xs_intermediate_output_path = raw_properties raw PropertyIntermediateOutputPath,
     xs_artifacts_path = raw_properties raw PropertyArtifactsPath\<rparr>"

section \<open>Selected references\<close>

text \<open>The rows whose conditions hold, each put through \<open>keep\<close>; conditions and rows fail in their order.\<close>

fun select_rows :: "string \<Rightarrow> string list \<Rightarrow> condition_context \<Rightarrow> ('r \<Rightarrow> raw_reference_conditions) \<Rightarrow> ('r \<Rightarrow> project_error + 's) \<Rightarrow>
    'r list \<Rightarrow> project_error + 's list" where
  "select_rows path conditions context at keep [] = Inr []"
| "select_rows path conditions context at keep (row # rest) =
     rbind (reference_conditions_match path conditions (at row) context) (\<lambda>selected.
       if \<not> selected then select_rows path conditions context at keep rest
       else rbind (keep row) (\<lambda>kept. rbind (select_rows path conditions context at keep rest) (\<lambda>kept_rest. Inr (kept # kept_rest))))"

definition package_row :: "raw_package_reference \<Rightarrow> string option \<Rightarrow> raw_package_reference" where
  "package_row reference version = reference\<lparr>rp_metadata := (rp_metadata reference)(MetadataVersion := version, MetadataVersionOverride := None)\<rparr>"

text \<open>The version of a package: its override, the central one, or its own.\<close>

definition resolve_package_version :: "string \<Rightarrow> bool \<Rightarrow> bool \<Rightarrow> raw_central_version list \<Rightarrow> raw_package_reference \<Rightarrow>
    project_error + raw_package_reference" where
  "resolve_package_version path management override_enabled table reference =
     (case rp_metadata reference MetadataVersionOverride of
        Some version \<Rightarrow>
          if management \<and> \<not> override_enabled
          then Inl (invalid_property path ''package {:?} cannot use VersionOverride because central overrides are disabled'' [rp_id reference])
          else Inr (package_row reference (Some version))
      | None \<Rightarrow>
          if \<not> management then Inr reference
          else if rp_metadata reference MetadataVersion \<noteq> None
          then Inl (invalid_property path
            ''centrally managed package {:?} must use PackageVersion or VersionOverride instead of Version'' [rp_id reference])
          else (case find_central table (rp_id reference) of
            None \<Rightarrow> Inl (invalid_property path ''centrally managed package {:?} has no selected PackageVersion'' [rp_id reference])
          | Some version \<Rightarrow> Inr (package_row reference (Some version))))"

section \<open>The table of texts\<close>

definition push_text :: "string \<Rightarrow> string \<Rightarrow> string \<Rightarrow> project_error + string \<times> tspan" where
  "push_text path table value =
     push_span (unsupported_error path ''project text table exceeds 4 GiB'' []) (unsupported_error path ''one project value exceeds 4 GiB'' []) table value"

fun push_texts :: "string \<Rightarrow> string \<Rightarrow> string list \<Rightarrow> project_error + string \<times> tspan list" where
  "push_texts path table [] = Inr (table, [])"
| "push_texts path table (value # rest) =
     rbind (push_text path table value) (\<lambda>(table, span).
     rbind (push_texts path table rest) (\<lambda>(table, spans). Inr (table, span # spans)))"

definition push_optional :: "string \<Rightarrow> string \<Rightarrow> string option \<Rightarrow> project_error + string \<times> tspan" where
  "push_optional path table value = (case value of None \<Rightarrow> Inr (table, NO_TEXT) | Some v \<Rightarrow> push_text path table v)"

fun pack_central :: "string \<Rightarrow> string \<Rightarrow> raw_central_version list \<Rightarrow> project_error + string \<times> central_package_version list" where
  "pack_central path table [] = Inr (table, [])"
| "pack_central path table (package # rest) =
     rbind (push_text path table (rv_id package)) (\<lambda>(table, ident).
     rbind (push_text path table (or_default [] (rv_version package))) (\<lambda>(table, version).
     rbind (pack_central path table rest) (\<lambda>(table, rows). Inr (table, \<lparr>cpv_id = ident, cpv_version = version\<rparr> # rows))))"

definition default_include_assets :: "raw_package_reference \<Rightarrow> asset_flags" where
  "default_include_assets package =
     (if rp_central_global package
      then flags_union (flags_union (flags_union (flags_union (flags_union ASSETS_RUNTIME ASSETS_BUILD) ASSETS_BUILD_MULTI_TARGETING)
        ASSETS_NATIVE) ASSETS_CONTENT_FILES) ASSETS_ANALYZERS
      else ASSETS_ALL)"

definition pack_package :: "string \<Rightarrow> string \<Rightarrow> raw_package_reference \<Rightarrow> project_error + string \<times> package_reference" where
  "pack_package path table package =
     (let data = rp_metadata package in
      rbind (ok_or (invalid_property path ''package {:?} requires a Version'' [rp_id package]) (data MetadataVersion)) (\<lambda>version.
      if \<not> is_literal_package_version version
      then Inl (invalid_property path ''package {:?} version {version:?} is not a literal version or range'' [rp_id package, version])
      else
      rbind (parse_package_assets path ''IncludeAssets'' (data MetadataIncludeAssets) (default_include_assets package)) (\<lambda>include_assets.
      rbind (parse_package_assets path ''ExcludeAssets'' (data MetadataExcludeAssets) ASSETS_NONE) (\<lambda>exclude_assets.
      rbind (parse_package_assets path ''PrivateAssets'' (data MetadataPrivateAssets)
        (if rp_central_global package then ASSETS_ALL else ASSETS_DEFAULT_PRIVATE)) (\<lambda>private_assets.
      rbind (optional_literal_metadata path ''NoWarn'' (data MetadataNoWarn)) (\<lambda>warn.
      rbind (push_optional path table warn) (\<lambda>(table, no_warn).
      rbind (optional_literal_metadata path ''Aliases'' (data MetadataAliases)) (\<lambda>alias.
      rbind (push_optional path table alias) (\<lambda>(table, aliases).
      rbind (parse_bool path ''GeneratePathProperty''
        (case data MetadataGeneratePathProperty of Some v \<Rightarrow> (if trim v = [] then None else Some v) | None \<Rightarrow> None) False) (\<lambda>generate.
      rbind (push_text path table (rp_id package)) (\<lambda>(table, ident).
      rbind (push_text path table version) (\<lambda>(table, version_span).
        Inr (table, \<lparr>pkg_id = ident, pkg_version = version_span, pkg_no_warn = no_warn, pkg_aliases = aliases,
          pkg_include_assets = include_assets, pkg_exclude_assets = exclude_assets, pkg_private_assets = private_assets,
          pkg_generate_path_property = generate\<rparr>)))))))))))))"

fun pack_packages :: "string \<Rightarrow> string \<Rightarrow> raw_package_reference list \<Rightarrow> project_error + string \<times> package_reference list" where
  "pack_packages path table [] = Inr (table, [])"
| "pack_packages path table (package # rest) =
     rbind (pack_package path table package) (\<lambda>(table, row).
     rbind (pack_packages path table rest) (\<lambda>(table, rows). Inr (table, row # rows)))"

definition pack_framework :: "string \<Rightarrow> string \<times> framework_reference list \<Rightarrow> raw_framework_reference \<Rightarrow>
    project_error + string \<times> framework_reference list" where
  "pack_framework path st reference =
     (let (table, rows) = st; data = rf_metadata reference in
      if rf_id reference = [] \<or> is_dynamic (rf_id reference)
      then Inl (invalid_property path ''FrameworkReference Include must be a non-empty literal'' [])
      else if (\<exists>row \<in> set rows. eq_ignore_case (span_text table (fr_id row)) (rf_id reference))
      then Inl (invalid_property path ''framework reference {:?} is declared more than once'' [rf_id reference])
      else
      rbind (validate_optional_version path ''RuntimeFrameworkVersion'' (data MetadataRuntimeFrameworkVersion)) (\<lambda>_.
      rbind (validate_optional_version path ''TargetingPackVersion'' (data MetadataTargetingPackVersion)) (\<lambda>_.
      rbind (parse_optional_bool path ''TargetLatestRuntimePatch'' (data MetadataTargetLatestRuntimePatch)) (\<lambda>latest_patch.
      rbind (push_text path table (rf_id reference)) (\<lambda>(table, ident).
      rbind (push_optional path table (data MetadataRuntimeFrameworkVersion)) (\<lambda>(table, runtime_version).
      rbind (push_optional path table (data MetadataTargetingPackVersion)) (\<lambda>(table, targeting_pack).
        Inr (table, rows @ [\<lparr>fr_id = ident, fr_runtime_version = runtime_version, fr_targeting_pack_version = targeting_pack,
          fr_target_latest_runtime_patch = latest_patch\<rparr>]))))))))"

section \<open>The project\<close>

text \<open>What is packed.\<close>

record project_parts =
  pp_path :: string
  pp_directory :: string
  pp_configuration :: project_configuration
  pp_settings :: project_settings
  pp_assembly_name :: string
  pp_root_namespace :: string
  pp_runtime_index :: nat
  pp_runtimes_len :: nat
  pp_runtimes :: "string list"
  pp_sources :: "string list"
  pp_references :: "string list"
  pp_fingerprint :: string
  pp_central :: "raw_central_version list"
  pp_packages :: "raw_package_reference list"
  pp_runtime_version :: "string option"
  pp_frameworks :: "raw_framework_reference list"

definition project_record :: "project_parts \<Rightarrow> string \<Rightarrow> tspan list \<Rightarrow> tspan list \<Rightarrow> tspan list \<Rightarrow> tspan list \<Rightarrow> tspan \<Rightarrow>
    central_package_version list \<Rightarrow> package_reference list \<Rightarrow> tspan \<Rightarrow> framework_reference list \<Rightarrow> project_spec" where
  "project_record parts table heads runtimes sources references fingerprint central packages runtime_version frameworks =
     (let s = pp_settings parts in
      \<lparr>ps_text = table, ps_project_path = heads ! 0, ps_project_directory = heads ! 1, ps_target_framework_text = heads ! 2,
        ps_assembly_name = heads ! 3, ps_root_namespace = heads ! 4, ps_runtime_dimensions = runtimes, ps_sources = sources,
        ps_project_references = references, ps_package_references = packages, ps_central_package_versions = central,
        ps_central_package_fingerprint = fingerprint, ps_framework_references = frameworks, ps_runtime_framework_version = runtime_version,
        ps_runtime_identifier_index = pp_runtime_index parts, ps_runtime_identifiers_len = pp_runtimes_len parts,
        ps_configuration = pp_configuration parts, ps_output_type = st_output_type s, ps_nullable = st_nullable s,
        ps_implicit_usings = st_implicit_usings s, ps_deterministic = st_deterministic s, ps_self_contained = st_self_contained s,
        ps_nuget_audit_enabled = st_nuget_audit_enabled s, ps_restore_package_pruning = st_restore_package_pruning s,
        ps_allow_missing_prune_package_data = st_allow_missing_prune_package_data s,
        ps_central_package_management = st_central_management s, ps_central_transitive_pinning = st_central_pinning s,
        ps_nuget_audit_mode = st_audit_mode s, ps_nuget_audit_level = st_audit_level s,
        ps_target_latest_runtime_patch = st_latest_runtime_patch s, ps_roll_forward = st_roll_forward s,
        ps_target_framework = st_parsed_target s\<rparr>)"

definition head_texts :: "project_parts \<Rightarrow> string list" where
  "head_texts parts = [pp_path parts, pp_directory parts, st_target_framework (pp_settings parts), pp_assembly_name parts, pp_root_namespace parts]"

definition pack_project :: "project_parts \<Rightarrow> project_error + project_spec" where
  "pack_project parts =
     (let path = pp_path parts in
      rbind (push_texts path [] (head_texts parts)) (\<lambda>(table, heads).
      rbind (push_texts path table (pp_runtimes parts)) (\<lambda>(table, runtimes).
      rbind (push_texts path table (pp_sources parts)) (\<lambda>(table, sources).
      rbind (push_texts path table (pp_references parts)) (\<lambda>(table, references).
      rbind (push_text path table (pp_fingerprint parts)) (\<lambda>(table, fingerprint).
      rbind (pack_central path table (pp_central parts)) (\<lambda>(table, central).
      rbind (pack_packages path table (pp_packages parts)) (\<lambda>(table, packages).
      rbind (push_optional path table (pp_runtime_version parts)) (\<lambda>(table, runtime_version).
      rbind (try_fold (pack_framework path) (table, []) (pp_frameworks parts)) (\<lambda>(table, frameworks).
        Inr (project_record parts table heads runtimes sources references fingerprint central packages runtime_version frameworks)))))))))))"

definition unicode_text :: "'io source_files \<Rightarrow> string \<Rightarrow> string \<Rightarrow> project_error + string" where
  "unicode_text fs path value =
     (if sf_unicode fs value then Inr value
      else Inl (project_error_new ProjectNonUnicodePath path (Text ''path {} is not valid Unicode'' [value])))"

text \<open>Everything before the packing, in the order of the code.\<close>

definition gather_project :: "(string \<Rightarrow> string) \<Rightarrow> 'io source_files \<Rightarrow> nat \<Rightarrow> string \<Rightarrow> string \<Rightarrow> project_configuration \<Rightarrow>
    raw_project \<Rightarrow> raw_central_packages \<Rightarrow> source_stop + project_parts" where
  "gather_project sha256 fs fuel path directory configuration raw central =
     rbind (source_error (evaluate_settings path raw central)) (\<lambda>s.
     rbind (source_error (parse_runtime_identifiers path (raw_properties raw PropertyRuntimeIdentifiers))) (\<lambda>listed.
     rbind (source_error (select_runtime path (st_selected_runtime s) listed)) (\<lambda>(runtime_index, runtimes).
     rbind (source_error (project_names fs path raw)) (\<lambda>(assembly, root).
     rbind (source_error (exclusions_from_project fs path directory (raw_exclusions raw) configuration (st_target_framework s)
       (st_selected_runtime s) assembly)) (\<lambda>exclusions.
     let context = \<lparr>cc_target_framework = st_target_framework s, cc_runtime_identifier = st_selected_runtime s,
           cc_configuration = configuration_str configuration\<rparr>;
         management = st_central_management s
     in
     rbind (source_error (select_rows path (raw_conditions raw) context rj_conditions (\<lambda>r. normalize_project_reference path (rj_path r))
       (raw_project_references raw))) (\<lambda>references.
     rbind (source_error (select_central management (or_default path (rc_path central)) context central)) (\<lambda>(table, globals).
     rbind (source_error (select_rows path (raw_conditions raw) context rp_conditions
       (resolve_package_version path management (st_central_override s) table) (raw_package_references raw))) (\<lambda>packages.
     rbind (source_error (select_rows path (raw_conditions raw) context rf_conditions Inr (raw_framework_references raw))) (\<lambda>frameworks.
     rbind (collect_sources fuel \<lparr>wk_fs = fs, wk_root = path_of_text directory, wk_project_path = path_of_text path, wk_exclusions = exclusions\<rparr>) (\<lambda>sources.
     rbind (source_error (unicode_text fs path path)) (\<lambda>path_text.
     rbind (source_error (unicode_text fs path directory)) (\<lambda>directory_text.
       Inr \<lparr>pp_path = path_text, pp_directory = directory_text, pp_configuration = configuration, pp_settings = s,
         pp_assembly_name = assembly, pp_root_namespace = root, pp_runtime_index = runtime_index, pp_runtimes_len = length listed,
         pp_runtimes = runtimes, pp_sources = sources, pp_references = references,
         pp_fingerprint = central_package_fingerprint sha256 table management (st_central_pinning s) (st_central_override s),
         pp_central = table, pp_packages = packages @ globals, pp_runtime_version = raw_properties raw PropertyRuntimeFrameworkVersion,
         pp_frameworks = frameworks\<rparr>))))))))))))"

definition materialize_project :: "(string \<Rightarrow> string) \<Rightarrow> 'io source_files \<Rightarrow> nat \<Rightarrow> string \<Rightarrow> string \<Rightarrow> project_configuration \<Rightarrow>
    raw_project \<Rightarrow> raw_central_packages \<Rightarrow> source_stop + project_spec" where
  "materialize_project sha256 fs fuel path directory configuration raw central =
     rbind (gather_project sha256 fs fuel path directory configuration raw central) (\<lambda>parts. source_error (pack_project parts))"

end
