(* ===== verification/Packed_Text.thy ===== *)
theory Packed_Text
  imports Span_Table
begin

text \<open>
  Reading back what was packed into a text table that only grows: the lemmas the packed records of
  \<open>project.rs\<close>, \<open>framework_reference.rs\<close> and \<open>runtime_pack.rs\<close> share.
\<close>

section \<open>Packed texts\<close>

text \<open>A span that reads as a text in a table, and in every longer one.\<close>

definition reads_as :: "string \<Rightarrow> tspan \<Rightarrow> string \<Rightarrow> bool" where
  "reads_as table span v \<longleftrightarrow> span_ok table span \<and> span_text table span = v"

definition reads_optional :: "string \<Rightarrow> tspan \<Rightarrow> string option \<Rightarrow> bool" where
  "reads_optional table span v \<longleftrightarrow> (case v of None \<Rightarrow> span = NO_TEXT | Some t \<Rightarrow> span \<noteq> NO_TEXT \<and> reads_as table span t)"

definition longer :: "string \<Rightarrow> string \<Rightarrow> bool" where
  "longer table table' \<longleftrightarrow> (\<exists>rest. table' = table @ rest)"

lemma longer_refl [simp]: "longer table table"
  by (simp add: longer_def)

lemma longer_trans: "longer a b \<Longrightarrow> longer b c \<Longrightarrow> longer a c"
  by (auto simp: longer_def)

lemma reads_longer: "reads_as table span v \<Longrightarrow> longer table table' \<Longrightarrow> reads_as table' span v"
  by (auto simp: reads_as_def longer_def span_ok_def span_text_def)

lemma optional_longer: "reads_optional table span v \<Longrightarrow> longer table table' \<Longrightarrow> reads_optional table' span v"
  by (auto simp: reads_optional_def split: option.splits intro: reads_longer)

lemma push_span_Inr:
  assumes "push_span e f table v = Inr (table', span)"
  shows "longer table table' \<and> reads_as table' span v \<and> (v \<noteq> [] \<longrightarrow> span \<noteq> NO_TEXT)"
  using assms by (auto simp: push_span_def longer_def reads_as_def span_ok_def span_text_def NO_TEXT_def split: if_splits)

lemma texts_longer: "list_all2 (reads_as table) spans vs \<Longrightarrow> longer table table' \<Longrightarrow> list_all2 (reads_as table') spans vs"
  by (erule list_all2_mono) (rule reads_longer)

lemma span_texts: "list_all2 (reads_as table) spans vs \<Longrightarrow> map (span_text table) spans = vs"
  by (induction rule: list_all2_induct) (simp_all add: reads_as_def)

lemma optional_text: "reads_optional table span v \<Longrightarrow> optional_span_text table span = v"
  by (auto simp: reads_optional_def optional_span_text_def reads_as_def split: option.splits)

end
