(* ===== verification/Project_Facts.thy ===== *)
theory Project_Facts
  imports Project_Materialize Central_Selection Packed_Text
begin

text \<open>
  The materialised project reads back as the parts it was packed from, and its packages have the versions
  the files give them.
\<close>

section \<open>Packed texts\<close>

lemma push_text_Inr:
  assumes "push_text path table v = Inr (table', span)"
  shows "longer table table' \<and> reads_as table' span v \<and> (v \<noteq> [] \<longrightarrow> span \<noteq> NO_TEXT)"
  using assms unfolding push_text_def by (rule push_span_Inr)

lemma push_texts_Inr:
  assumes "push_texts path table vs = Inr (table', spans)"
  shows "longer table table' \<and> list_all2 (reads_as table') spans vs"
  using assms
proof (induction vs arbitrary: table spans)
  case (Cons v vs)
  obtain t span ss where first: "push_text path table v = Inr (t, span)" and rest: "push_texts path t vs = Inr (table', ss)" and s: "spans = span # ss"
    using Cons.prems by (auto simp: rbind_eq_Inr)
  show ?case using push_text_Inr [OF first] Cons.IH [OF rest] s by (auto intro: longer_trans reads_longer)
qed simp

lemma push_optional_Inr:
  assumes "push_optional path table v = Inr (table', span)" and "v \<noteq> Some []"
  shows "longer table table' \<and> reads_optional table' span v"
  using assms push_text_Inr by (cases v) (auto simp: push_optional_def reads_optional_def)

section \<open>Rows\<close>

definition central_reads :: "string \<Rightarrow> central_package_version \<Rightarrow> raw_central_version \<Rightarrow> bool" where
  "central_reads table row p \<longleftrightarrow> reads_as table (cpv_id row) (rv_id p) \<and> reads_as table (cpv_version row) (or_default [] (rv_version p))"

lemma pack_central_Inr:
  assumes "pack_central path table ps = Inr (table', rows)"
  shows "longer table table' \<and> list_all2 (central_reads table') rows ps"
  using assms
proof (induction ps arbitrary: table rows)
  case (Cons p ps)
  obtain t1 i t2 v rs where 1: "push_text path table (rv_id p) = Inr (t1, i)" and 2: "push_text path t1 (or_default [] (rv_version p)) = Inr (t2, v)"
    and rest: "pack_central path t2 ps = Inr (table', rs)" and rows: "rows = \<lparr>cpv_id = i, cpv_version = v\<rparr> # rs"
    using Cons.prems by (auto simp: rbind_eq_Inr)
  note p1 = push_text_Inr [OF 1] and p2 = push_text_Inr [OF 2] and ih = Cons.IH [OF rest]
  have "longer t1 table'" using p2 ih longer_trans by blast
  then show ?case using p1 p2 ih rows by (auto simp: central_reads_def intro: longer_trans reads_longer)
qed simp

text \<open>The texts and values of a package row.\<close>

definition package_reads :: "string \<Rightarrow> string \<Rightarrow> package_reference \<Rightarrow> raw_package_reference \<Rightarrow> bool" where
  "package_reads path table row p \<longleftrightarrow> reads_as table (pkg_id row) (rp_id p)
     \<and> (\<exists>v. rp_metadata p MetadataVersion = Some v \<and> is_literal_package_version v \<and> reads_as table (pkg_version row) v)
     \<and> (\<exists>w. optional_literal_metadata path ''NoWarn'' (rp_metadata p MetadataNoWarn) = Inr w \<and> reads_optional table (pkg_no_warn row) w)
     \<and> (\<exists>w. optional_literal_metadata path ''Aliases'' (rp_metadata p MetadataAliases) = Inr w \<and> reads_optional table (pkg_aliases row) w)
     \<and> parse_package_assets path ''IncludeAssets'' (rp_metadata p MetadataIncludeAssets) (default_include_assets p) = Inr (pkg_include_assets row)
     \<and> parse_package_assets path ''ExcludeAssets'' (rp_metadata p MetadataExcludeAssets) ASSETS_NONE = Inr (pkg_exclude_assets row)
     \<and> parse_package_assets path ''PrivateAssets'' (rp_metadata p MetadataPrivateAssets)
         (if rp_central_global p then ASSETS_ALL else ASSETS_DEFAULT_PRIVATE) = Inr (pkg_private_assets row)"

lemma package_reads_longer: "package_reads path table row p \<Longrightarrow> longer table table' \<Longrightarrow> package_reads path table' row p"
  unfolding package_reads_def using reads_longer optional_longer by blast

lemma literal_metadata_ne: "optional_literal_metadata path name v = Inr w \<Longrightarrow> w \<noteq> Some []"
  by (auto simp: optional_literal_metadata_def split: option.splits if_splits)

lemma pack_package_Inr:
  assumes "pack_package path table p = Inr (table', row)"
  shows "longer table table' \<and> package_reads path table' row p"
proof -
  obtain version include_assets exclude_assets private_assets warn t1 no_warn nick t2 aliases generate t3 ident version_span
    where v: "rp_metadata p MetadataVersion = Some version" "is_literal_package_version version"
    and assets: "parse_package_assets path ''IncludeAssets'' (rp_metadata p MetadataIncludeAssets) (default_include_assets p) = Inr include_assets"
      "parse_package_assets path ''ExcludeAssets'' (rp_metadata p MetadataExcludeAssets) ASSETS_NONE = Inr exclude_assets"
      "parse_package_assets path ''PrivateAssets'' (rp_metadata p MetadataPrivateAssets)
         (if rp_central_global p then ASSETS_ALL else ASSETS_DEFAULT_PRIVATE) = Inr private_assets"
    and warn: "optional_literal_metadata path ''NoWarn'' (rp_metadata p MetadataNoWarn) = Inr warn" "push_optional path table warn = Inr (t1, no_warn)"
    and nick: "optional_literal_metadata path ''Aliases'' (rp_metadata p MetadataAliases) = Inr nick" "push_optional path t1 nick = Inr (t2, aliases)"
    and ident: "push_text path t2 (rp_id p) = Inr (t3, ident)" and version: "push_text path t3 version = Inr (table', version_span)"
    and row: "row = \<lparr>pkg_id = ident, pkg_version = version_span, pkg_no_warn = no_warn, pkg_aliases = aliases,
      pkg_include_assets = include_assets, pkg_exclude_assets = exclude_assets, pkg_private_assets = private_assets, pkg_generate_path_property = generate\<rparr>"
    using assms by (auto simp: pack_package_def Let_def rbind_eq_Inr ok_or_eq_Inr split: if_split_asm)
  note w = push_optional_Inr [OF warn(2) literal_metadata_ne [OF warn(1)]] and a = push_optional_Inr [OF nick(2) literal_metadata_ne [OF nick(1)]]
  note i = push_text_Inr [OF ident] and vs = push_text_Inr [OF version]
  have long: "longer t2 table'" "longer t1 table'" "longer table table'" using w a i vs longer_trans by blast+
  show ?thesis
    using w a i vs long v assets warn(1) nick(1) unfolding row package_reads_def
    by (auto intro: reads_longer optional_longer)
qed

lemma pack_packages_Inr:
  assumes "pack_packages path table ps = Inr (table', rows)"
  shows "longer table table' \<and> list_all2 (package_reads path table') rows ps"
  using assms
proof (induction ps arbitrary: table rows)
  case (Cons p ps)
  obtain t row rs where first: "pack_package path table p = Inr (t, row)" and rest: "pack_packages path t ps = Inr (table', rs)" and rows: "rows = row # rs"
    using Cons.prems by (auto simp: rbind_eq_Inr)
  show ?case using pack_package_Inr [OF first] Cons.IH [OF rest] rows by (auto intro: longer_trans package_reads_longer)
qed simp

definition framework_reads :: "string \<Rightarrow> string \<Rightarrow> framework_reference \<Rightarrow> raw_framework_reference \<Rightarrow> bool" where
  "framework_reads path table row r \<longleftrightarrow> reads_as table (fr_id row) (rf_id r)
     \<and> reads_optional table (fr_runtime_version row) (rf_metadata r MetadataRuntimeFrameworkVersion)
     \<and> reads_optional table (fr_targeting_pack_version row) (rf_metadata r MetadataTargetingPackVersion)
     \<and> parse_optional_bool path ''TargetLatestRuntimePatch'' (rf_metadata r MetadataTargetLatestRuntimePatch) = Inr (fr_target_latest_runtime_patch row)"

lemma framework_reads_longer: "framework_reads path table row r \<Longrightarrow> longer table table' \<Longrightarrow> framework_reads path table' row r"
  unfolding framework_reads_def using reads_longer optional_longer by blast

lemma validated_version_ne: "validate_optional_version path name v = Inr u \<Longrightarrow> v \<noteq> Some []"
  by (auto simp: validate_optional_version_def split: if_splits)

lemma pack_framework_Inr:
  assumes "pack_framework path (table, rows) r = Inr (table', rows')" and "list_all2 (framework_reads path table) rows rs"
  shows "longer table table' \<and> list_all2 (framework_reads path table') rows' (rs @ [r])
    \<and> (\<forall>q \<in> set rs. \<not> eq_ignore_case (rf_id q) (rf_id r))"
proof -
  obtain latest t1 ident t2 runtime_version targeting
    where valid: "validate_optional_version path ''RuntimeFrameworkVersion'' (rf_metadata r MetadataRuntimeFrameworkVersion) = Inr ()"
      "validate_optional_version path ''TargetingPackVersion'' (rf_metadata r MetadataTargetingPackVersion) = Inr ()"
    and latest: "parse_optional_bool path ''TargetLatestRuntimePatch'' (rf_metadata r MetadataTargetLatestRuntimePatch) = Inr latest"
    and 1: "push_text path table (rf_id r) = Inr (t1, ident)"
    and 2: "push_optional path t1 (rf_metadata r MetadataRuntimeFrameworkVersion) = Inr (t2, runtime_version)"
    and 3: "push_optional path t2 (rf_metadata r MetadataTargetingPackVersion) = Inr (table', targeting)"
    and rows': "rows' = rows @ [\<lparr>fr_id = ident, fr_runtime_version = runtime_version, fr_targeting_pack_version = targeting, fr_target_latest_runtime_patch = latest\<rparr>]"
    and new: "\<forall>row \<in> set rows. \<not> eq_ignore_case (span_text table (fr_id row)) (rf_id r)"
    using assms(1) by (auto simp: pack_framework_def Let_def rbind_eq_Inr split: if_split_asm)
  note p1 = push_text_Inr [OF 1] and p2 = push_optional_Inr [OF 2 validated_version_ne [OF valid(1)]]
    and p3 = push_optional_Inr [OF 3 validated_version_ne [OF valid(2)]]
  have long: "longer t1 table'" "longer table table'" using p1 p2 p3 longer_trans by blast+
  have row: "framework_reads path table' (last rows') r"
    using p1 p2 p3 long latest unfolding rows' framework_reads_def by (auto intro: reads_longer optional_longer)
  have old: "list_all2 (framework_reads path table') rows rs"
    using assms(2) by (rule list_all2_mono) (rule framework_reads_longer [OF _ long(2)])
  have "\<forall>q \<in> set rs. \<not> eq_ignore_case (rf_id q) (rf_id r)"
  proof
    fix q assume "q \<in> set rs"
    then obtain i where i: "i < length rs" "q = rs ! i" by (auto simp: in_set_conv_nth)
    obtain row where "row \<in> set rows" "framework_reads path table row q"
    proof
      show "rows ! i \<in> set rows" "framework_reads path table (rows ! i) q"
        using assms(2) i by (simp_all add: list_all2_conv_all_nth)
    qed
    then show "\<not> eq_ignore_case (rf_id q) (rf_id r)" using new by (auto simp: framework_reads_def reads_as_def)
  qed
  then show ?thesis using long(2) old row rows' by (auto intro: list_all2_appendI)
qed

lemma pack_frameworks_Inr:
  assumes "try_fold (pack_framework path) (table, rows) rs = Inr (table', rows')" and "list_all2 (framework_reads path table) rows qs"
    and "distinct (map (\<lambda>r. to_lower (rf_id r)) qs)"
  shows "longer table table' \<and> list_all2 (framework_reads path table') rows' (qs @ rs) \<and> distinct (map (\<lambda>r. to_lower (rf_id r)) (qs @ rs))"
  using assms
proof (induction rs arbitrary: table rows qs)
  case (Cons r rs)
  obtain t rows1 where first: "pack_framework path (table, rows) r = Inr (t, rows1)" and rest: "try_fold (pack_framework path) (t, rows1) rs = Inr (table', rows')"
    using Cons.prems(1) by (auto simp: rbind_eq_Inr)
  note p = pack_framework_Inr [OF first Cons.prems(2)]
  have "distinct (map (\<lambda>r. to_lower (rf_id r)) (qs @ [r]))" using p Cons.prems(3) by (auto simp: eq_ignore_case_def)
  then show ?case using Cons.IH [OF rest, of "qs @ [r]"] p by (auto intro: longer_trans)
qed simp

section \<open>Runtimes\<close>

lemma position_Some: "position x ys = Some i \<Longrightarrow> i < length ys \<and> ys ! i = x"
  by (induction ys arbitrary: i) (auto split: if_splits)

lemma select_runtime_Inr:
  assumes "select_runtime path selected listed = Inr (i, runtimes)"
  shows "take (length listed) runtimes = listed
    \<and> (case selected of None \<Rightarrow> i = NO_RUNTIME_IDENTIFIER | Some r \<Rightarrow> i \<noteq> NO_RUNTIME_IDENTIFIER \<and> i < length runtimes \<and> runtimes ! i = r)"
proof (cases selected)
  case None
  then show ?thesis using assms by (auto simp: select_runtime_def split: if_splits)
next
  case (Some r)
  then show ?thesis
    using assms position_Some [of r listed]
    by (auto simp: select_runtime_def NO_RUNTIME_IDENTIFIER_def nth_append split: option.splits if_splits)
qed

section \<open>The project reads back\<close>

lemma ps_span_eq: "ps_span p = span_text (ps_text p)"
  by (rule ext) (simp add: ps_span_def)

lemma pack_project_Inr:
  assumes "pack_project parts = Inr p"
  shows "project_path p = pp_path parts \<and> project_directory p = pp_directory parts
    \<and> target_framework_name p = st_target_framework (pp_settings parts) \<and> assembly_name p = pp_assembly_name parts
    \<and> root_namespace p = pp_root_namespace parts \<and> runtime_dimensions p = pp_runtimes parts \<and> project_sources p = pp_sources parts
    \<and> project_references p = pp_references parts \<and> ps_span p (ps_central_package_fingerprint p) = pp_fingerprint parts
    \<and> map (\<lambda>r. (central_package_id p r, central_package_version_text p r)) (ps_central_package_versions p)
        = map (\<lambda>c. (rv_id c, or_default [] (rv_version c))) (pp_central parts)
    \<and> list_all2 (package_reads (pp_path parts) (ps_text p)) (ps_package_references p) (pp_packages parts)
    \<and> (pp_runtime_version parts \<noteq> Some [] \<longrightarrow> runtime_framework_version p = pp_runtime_version parts)
    \<and> list_all2 (framework_reads (pp_path parts) (ps_text p)) (ps_framework_references p) (pp_frameworks parts)
    \<and> distinct (map (\<lambda>r. to_lower (rf_id r)) (pp_frameworks parts))
    \<and> ps_runtime_identifier_index p = pp_runtime_index parts \<and> ps_runtime_identifiers_len p = pp_runtimes_len parts"
proof -
  let ?path = "pp_path parts"
  obtain t1 heads t2 runtimes t3 sources t4 references t5 fingerprint t6 central t7 packages t8 runtime_version t9 frameworks
    where h: "push_texts ?path [] (head_texts parts) = Inr (t1, heads)"
    and r: "push_texts ?path t1 (pp_runtimes parts) = Inr (t2, runtimes)" and s: "push_texts ?path t2 (pp_sources parts) = Inr (t3, sources)"
    and j: "push_texts ?path t3 (pp_references parts) = Inr (t4, references)" and f: "push_text ?path t4 (pp_fingerprint parts) = Inr (t5, fingerprint)"
    and c: "pack_central ?path t5 (pp_central parts) = Inr (t6, central)" and k: "pack_packages ?path t6 (pp_packages parts) = Inr (t7, packages)"
    and v: "push_optional ?path t7 (pp_runtime_version parts) = Inr (t8, runtime_version)"
    and w: "try_fold (pack_framework ?path) (t8, []) (pp_frameworks parts) = Inr (t9, frameworks)"
    and p: "p = project_record parts t9 heads runtimes sources references fingerprint central packages runtime_version frameworks"
    using assms by (auto simp: pack_project_def Let_def rbind_eq_Inr)
  note h = push_texts_Inr [OF h] and r = push_texts_Inr [OF r] and s = push_texts_Inr [OF s] and j = push_texts_Inr [OF j]
    and f = push_text_Inr [OF f] and c = pack_central_Inr [OF c] and k = pack_packages_Inr [OF k] and w = pack_frameworks_Inr [OF w, of "[]"]
  have v8: "longer t7 t8" using v push_text_Inr by (cases "pp_runtime_version parts") (auto simp: push_optional_def)
  have w9: "longer t8 t9" "list_all2 (framework_reads ?path t9) frameworks (pp_frameworks parts)" "distinct (map (\<lambda>r. to_lower (rf_id r)) (pp_frameworks parts))"
    using w by simp_all
  note l7 = longer_trans [OF v8 w9(1)]
  note l6 = longer_trans [OF k [THEN conjunct1] l7]
  note l5 = longer_trans [OF c [THEN conjunct1] l6]
  note l4 = longer_trans [OF f [THEN conjunct1] l5]
  note l3 = longer_trans [OF j [THEN conjunct1] l4]
  note l2 = longer_trans [OF s [THEN conjunct1] l3]
  note l1 = longer_trans [OF r [THEN conjunct1] l2]
  have read: "map (span_text t9) spans = vs" if "list_all2 (reads_as t) spans vs" "longer t t9" for t spans vs
    by (rule span_texts [OF texts_longer [OF that]])
  have heads: "map (span_text t9) heads = head_texts parts"
    by (rule read [OF h [THEN conjunct2] l1])
  then have "length (map (span_text t9) heads) = length (head_texts parts)" by (rule arg_cong)
  then have "length heads = 5" by (simp add: head_texts_def)
  then have head: "span_text t9 (heads ! i) = head_texts parts ! i" if "i < 5" for i using that by (simp flip: heads)
  have central: "map (\<lambda>r. (span_text t9 (cpv_id r), span_text t9 (cpv_version r))) central = map (\<lambda>c. (rv_id c, or_default [] (rv_version c))) (pp_central parts)"
  proof -
    have "list_all2 (\<lambda>row q. (span_text t9 (cpv_id row), span_text t9 (cpv_version row)) = (rv_id q, or_default [] (rv_version q))) central (pp_central parts)"
      using c [THEN conjunct2] by (rule list_all2_mono) (use reads_longer [OF _ l6] in \<open>auto simp: central_reads_def reads_as_def\<close>)
    then show ?thesis by (induction rule: list_all2_induct) simp_all
  qed
  have packages: "list_all2 (package_reads ?path t9) packages (pp_packages parts)"
    using k [THEN conjunct2] by (rule list_all2_mono) (rule package_reads_longer [OF _ l7])
  have runtime_version: "optional_span_text t9 runtime_version = pp_runtime_version parts" if "pp_runtime_version parts \<noteq> Some []"
    by (rule optional_text [OF optional_longer [OF push_optional_Inr [OF v that, THEN conjunct2] w9(1)]])
  have fingerprint: "span_text t9 fingerprint = pp_fingerprint parts" using f reads_longer [OF _ l5] by (auto simp: reads_as_def)
  show ?thesis
    using head [of 0] head [of 1] head [of 2] head [of 3] head [of 4] central packages runtime_version fingerprint w9(2,3)
      read [OF r [THEN conjunct2] l2] read [OF s [THEN conjunct2] l3] read [OF j [THEN conjunct2] l4]
    unfolding p by (simp add: project_path_def project_directory_def target_framework_name_def assembly_name_def root_namespace_def
        runtime_dimensions_def project_sources_def project_references_def central_package_id_def central_package_version_text_def
        runtime_framework_version_def ps_span_eq ps_optional_def head_texts_def project_record_def Let_def)
qed

text \<open>The parts come from the settings, the conditions and the sources.\<close>

lemma gather_project_Inr:
  assumes "gather_project sha256 fs fuel path directory configuration raw central = Inr parts"
  shows "pp_path parts = path \<and> pp_directory parts = directory
    \<and> evaluate_settings path raw central = Inr (pp_settings parts)
    \<and> (\<exists>listed. parse_runtime_identifiers path (raw_properties raw PropertyRuntimeIdentifiers) = Inr listed
        \<and> select_runtime path (st_selected_runtime (pp_settings parts)) listed = Inr (pp_runtime_index parts, pp_runtimes parts)
        \<and> pp_runtimes_len parts = length listed)
    \<and> project_names fs path raw = Inr (pp_assembly_name parts, pp_root_namespace parts)
    \<and> (\<exists>exclusions. exclusions_from_project fs path directory (raw_exclusions raw) configuration
          (st_target_framework (pp_settings parts)) (st_selected_runtime (pp_settings parts)) (pp_assembly_name parts) = Inr exclusions
        \<and> collect_sources fuel \<lparr>wk_fs = fs, wk_root = path_of_text directory, wk_project_path = path_of_text path, wk_exclusions = exclusions\<rparr>
            = Inr (pp_sources parts))
    \<and> pp_runtime_version parts = raw_properties raw PropertyRuntimeFrameworkVersion"
  using assms
  by (auto simp: gather_project_def Let_def rbind_eq_Inr unicode_text_def source_error_def map_error_Inr split: if_split_asm)

lemma runtime_version_ne:
  assumes "evaluate_settings path raw central = Inr s"
  shows "raw_properties raw PropertyRuntimeFrameworkVersion \<noteq> Some []"
proof -
  obtain u where "validate_optional_version path ''RuntimeFrameworkVersion'' (raw_properties raw PropertyRuntimeFrameworkVersion) = Inr u"
    using assms by (auto simp: evaluate_settings_def Let_def rbind_eq_Inr)
  then show ?thesis by (rule validated_version_ne)
qed

end
