(* ===== verification/Project_Evaluation.thy ===== *)
theory Project_Evaluation
  imports Project_Facts Source_Facts
begin

text \<open>
  Evaluating a project: what the accessors of the project record return in terms of the files.
\<close>

section \<open>Texts\<close>

text \<open>C13: A materialised project reads back as what it was made from. Its path, directory, target framework,
  names, runtimes, sources and runtime version are read out of one packed table of texts and are exactly
  the evaluated properties and the collected sources; the selected runtime is the one of the project
  file, the listed runtimes are its list, however they share rows.\<close>
theorem materialized_project_reads_back:
  assumes "materialize_project sha256 fs fuel path directory configuration raw central = Inr p"
  shows "\<exists>s assembly exclusions. evaluate_settings path raw central = Inr s
    \<and> project_path p = path \<and> project_directory p = directory \<and> target_framework_name p = st_target_framework s
    \<and> project_names fs path raw = Inr (assembly, root_namespace p) \<and> assembly_name p = assembly
    \<and> runtime_identifier p = st_selected_runtime s
    \<and> parse_runtime_identifiers path (raw_properties raw PropertyRuntimeIdentifiers) = Inr (runtime_identifiers p)
    \<and> exclusions_from_project fs path directory (raw_exclusions raw) configuration (st_target_framework s) (st_selected_runtime s) assembly
        = Inr exclusions
    \<and> collect_sources fuel \<lparr>wk_fs = fs, wk_root = path_of_text directory, wk_project_path = path_of_text path, wk_exclusions = exclusions\<rparr>
        = Inr (project_sources p)
    \<and> runtime_framework_version p = raw_properties raw PropertyRuntimeFrameworkVersion"
proof -
  obtain parts where gather: "gather_project sha256 fs fuel path directory configuration raw central = Inr parts"
    and pack: "pack_project parts = Inr p"
    using assms by (auto simp: materialize_project_def rbind_eq_Inr source_error_def map_error_Inr)
  note g = gather_project_Inr [OF gather] and k = pack_project_Inr [OF pack]
  obtain listed where listed: "parse_runtime_identifiers path (raw_properties raw PropertyRuntimeIdentifiers) = Inr listed"
    and select: "select_runtime path (st_selected_runtime (pp_settings parts)) listed = Inr (pp_runtime_index parts, pp_runtimes parts)"
    and len: "pp_runtimes_len parts = length listed"
    using g by blast
  obtain exclusions where x: "exclusions_from_project fs path directory (raw_exclusions raw) configuration
        (st_target_framework (pp_settings parts)) (st_selected_runtime (pp_settings parts)) (pp_assembly_name parts) = Inr exclusions"
    "collect_sources fuel \<lparr>wk_fs = fs, wk_root = path_of_text directory, wk_project_path = path_of_text path, wk_exclusions = exclusions\<rparr>
        = Inr (pp_sources parts)"
    using g by blast
  have dims: "map (ps_span p) (ps_runtime_dimensions p) = pp_runtimes parts" using k by (simp add: runtime_dimensions_def)
  note r = select_runtime_Inr [OF select]
  have "runtime_identifiers p = listed"
    using k r len by (simp add: runtime_identifiers_def flip: take_map dims)
  moreover have "runtime_identifier p = st_selected_runtime (pp_settings parts)"
    using k r by (cases "st_selected_runtime (pp_settings parts)") (auto simp: runtime_identifier_def simp flip: dims)
  moreover have "pp_runtime_version parts \<noteq> Some []" using g runtime_version_ne [of path raw central "pp_settings parts"] by simp
  ultimately show ?thesis
    using g k listed x by (intro exI [of _ "pp_settings parts"] exI [of _ "pp_assembly_name parts"] exI [of _ exclusions]) simp
qed

section \<open>Packages\<close>

definition evaluation_context :: "project_settings \<Rightarrow> project_configuration \<Rightarrow> condition_context" where
  "evaluation_context s configuration = \<lparr>cc_target_framework = st_target_framework s, cc_runtime_identifier = st_selected_runtime s,
     cc_configuration = configuration_str configuration\<rparr>"

text \<open>The version a reference of the project file gets.\<close>

definition version_given :: "project_settings \<Rightarrow> raw_central_version list \<Rightarrow> raw_package_reference \<Rightarrow> string \<Rightarrow> bool" where
  "version_given s rows r v \<longleftrightarrow> (case rp_metadata r MetadataVersionOverride of
       Some override \<Rightarrow> v = override \<and> \<not> (st_central_management s \<and> \<not> st_central_override s)
     | None \<Rightarrow> if st_central_management s
         then rp_metadata r MetadataVersion = None \<and> (\<exists>c \<in> set rows. eq_ignore_case (rv_id c) (rp_id r) \<and> rv_version c = Some v)
         else rp_metadata r MetadataVersion = Some v)"

lemma select_rows_Inr:
  assumes "select_rows path conditions ctx at keep rows = Inr kept"
  shows "list_all2 (\<lambda>k r. keep r = Inr k) kept (filter (\<lambda>r. row_selected path conditions ctx (at r)) rows)"
  using assms by (induction rows arbitrary: kept) (auto simp: rbind_eq_Inr row_selected_def split: if_splits)

lemma resolved_version:
  assumes "resolve_package_version path management override table r = Inr k"
  shows "rp_id k = rp_id r \<and> (case rp_metadata r MetadataVersionOverride of
       Some v \<Rightarrow> rp_metadata k MetadataVersion = Some v \<and> \<not> (management \<and> \<not> override)
     | None \<Rightarrow> if management then rp_metadata r MetadataVersion = None \<and> rp_metadata k MetadataVersion = find_central table (rp_id r) else k = r)"
  using assms by (auto simp: resolve_package_version_def package_row_def split: option.splits if_splits)

lemma reads_text: "reads_as (ps_text p) span v \<Longrightarrow> ps_span p span = v"
  by (simp add: reads_as_def ps_span_def)

text \<open>C12: The packages of a materialised project are the references of the project file whose two conditions
  hold, in its order, and after them the global packages of \<open>Directory.Packages.props\<close> whose conditions
  hold when versions are managed centrally. A reference has the version of its override when that is
  allowed; else, under central management, the version of the one selected central row with its
  identity in any case, and then no version of its own; else its own version.\<close>
theorem materialized_packages:
  assumes "materialize_project sha256 fs fuel path directory configuration raw central = Inr p"
  shows "\<exists>s own global. evaluate_settings path raw central = Inr s \<and> ps_package_references p = own @ global
    \<and> list_all2 (\<lambda>row r. package_id p row = rp_id r
          \<and> version_given s (central_rows (or_default path (rc_path central)) (evaluation_context s configuration) central) r (package_version_text p row)) own
        (filter (\<lambda>r. row_selected path (raw_conditions raw) (evaluation_context s configuration) (rp_conditions r)) (raw_package_references raw))
    \<and> list_all2 (\<lambda>row r. package_id p row = rp_id r \<and> rp_metadata r MetadataVersion = Some (package_version_text p row)) global
        (if st_central_management s
         then filter (\<lambda>r. row_selected (or_default path (rc_path central)) (rc_conditions central) (evaluation_context s configuration) (rp_conditions r)) (rc_globals central)
         else [])"
proof -
  obtain parts where gather: "gather_project sha256 fs fuel path directory configuration raw central = Inr parts"
    and pack: "pack_project parts = Inr p"
    using assms by (auto simp: materialize_project_def rbind_eq_Inr source_error_def map_error_Inr)
  let ?s = "pp_settings parts" and ?central = "or_default path (rc_path central)"
  let ?ctx = "evaluation_context ?s configuration"
  obtain table globals packages where s: "evaluate_settings path raw central = Inr ?s"
    and c: "select_central (st_central_management ?s) ?central ?ctx central = Inr (table, globals)"
    and k: "select_rows path (raw_conditions raw) ?ctx rp_conditions
        (resolve_package_version path (st_central_management ?s) (st_central_override ?s) table) (raw_package_references raw) = Inr packages"
    and parts: "pp_packages parts = packages @ globals"
    using gather by (auto simp: gather_project_def evaluation_context_def Let_def rbind_eq_Inr source_error_def map_error_Inr)
  have "list_all2 (package_reads (pp_path parts) (ps_text p)) (ps_package_references p) (packages @ globals)"
    using pack_project_Inr [OF pack] parts by simp
  then obtain own global where split: "ps_package_references p = own @ global"
    and own: "list_all2 (package_reads (pp_path parts) (ps_text p)) own packages"
    and global: "list_all2 (package_reads (pp_path parts) (ps_text p)) global globals"
    by (auto simp: list_all2_append2)
  have row: "package_id p row = rp_id k \<and> rp_metadata k MetadataVersion = Some (package_version_text p row)"
    if "package_reads (pp_path parts) (ps_text p) row k" for row k
    using that reads_text by (auto simp: package_reads_def package_id_def package_version_text_def)
  have given: "package_id p row = rp_id r \<and> version_given ?s (central_rows ?central ?ctx central) r (package_version_text p row)"
    if "package_reads (pp_path parts) (ps_text p) row k"
      "resolve_package_version path (st_central_management ?s) (st_central_override ?s) table r = Inr k" for row k r
  proof -
    have find: "st_central_management ?s \<Longrightarrow> find_central table (rp_id r) = Some v \<longleftrightarrow>
        (\<exists>c \<in> set (central_rows ?central ?ctx central). eq_ignore_case (rv_id c) (rp_id r) \<and> rv_version c = Some v)" for v
      using find_selected c by simp
    show ?thesis
    proof (cases "rp_metadata r MetadataVersionOverride = None \<and> st_central_management ?s")
      case True
      then have "find_central table (rp_id r) = Some (package_version_text p row)" "rp_metadata r MetadataVersion = None" "rp_id k = rp_id r"
        using row [OF that(1)] resolved_version [OF that(2)] by simp_all
      then show ?thesis using row [OF that(1)] True find by (simp add: version_given_def)
    next
      case False
      then show ?thesis using row [OF that(1)] resolved_version [OF that(2)]
        by (cases "rp_metadata r MetadataVersionOverride") (auto simp: version_given_def)
    qed
  qed
  have "list_all2 (\<lambda>row r. package_id p row = rp_id r \<and> version_given ?s (central_rows ?central ?ctx central) r (package_version_text p row)) own
      (filter (\<lambda>r. row_selected path (raw_conditions raw) ?ctx (rp_conditions r)) (raw_package_references raw))"
    by (rule list_all2_trans [OF _ own select_rows_Inr [OF k]]) (rule given)
  moreover have "globals = (if st_central_management ?s
         then filter (\<lambda>r. row_selected ?central (rc_conditions central) ?ctx (rp_conditions r)) (rc_globals central) else [])"
    using c select_central_table(3) [of ?central ?ctx central table globals] by (auto simp: select_central_def)
  moreover have "list_all2 (\<lambda>row r. package_id p row = rp_id r \<and> rp_metadata r MetadataVersion = Some (package_version_text p row)) global globals"
    using global by (rule list_all2_mono) (rule row)
  ultimately show ?thesis using s split by blast
qed

section \<open>An example\<close>

text \<open>One package whose version is central, a project with two files.\<close>

definition example_raw :: raw_project where
  "example_raw = default_raw_project\<lparr>raw_properties := [PropertyTargetFramework \<mapsto> ''net8.0'', PropertyAssemblyName \<mapsto> ''App''],
     raw_package_references := [\<lparr>rp_id = ''serilog'', rp_metadata = (\<lambda>_. None),
       rp_conditions = \<lparr>rrc_group = NO_REFERENCE_CONDITION, rrc_item = NO_REFERENCE_CONDITION\<rparr>, rp_central_global = False\<rparr>]\<rparr>"

definition example_props :: raw_central_packages where
  "example_props = example_central\<lparr>rc_properties := [ManagePackageVersionsCentrally \<mapsto> ''true'']\<rparr>"

definition example_settings :: project_settings where
  "example_settings = \<lparr>st_target_framework = ''net8.0'', st_parsed_target = mk_framework Net 8 0, st_output_type = Library, st_nullable = False,
     st_implicit_usings = False, st_deterministic = True, st_self_contained = False, st_nuget_audit_enabled = True,
     st_restore_package_pruning = False, st_allow_missing_prune_package_data = False, st_central_management = True,
     st_central_pinning = False, st_central_override = True, st_audit_mode = AuditDirect, st_audit_level = AuditLow,
     st_latest_runtime_patch = None, st_roll_forward = RollMinor, st_selected_runtime = None\<rparr>"

lemma example_evaluated: "evaluate_settings ''/w/App.csproj'' example_raw example_props = Inr example_settings"
  by (simp add: evaluate_settings_def example_raw_def example_props_def example_central_def default_raw_project_def required_property_def
      is_dynamic_def parse_framework_def dotted_version_def version_component_def mk_framework_def parse_output_type_def or_default_def
      parse_toggle_def parse_bool_def central_settings_def central_switch_def or_else_def parse_or_default_def parse_optional_bool_def
      validate_optional_version_def parse_runtime_identifier_def example_settings_def Let_def str_eval)

lemma example_selected: "select_central True ''Directory.Packages.props'' ctx example_props = Inr (rev (rc_versions example_central), [])"
  by (simp add: select_central_def example_props_def example_central_def reference_conditions_match_def literal_central_row_def sort_by_def
      compare_ascii_case_insensitive_def is_dynamic_def is_literal_package_version_def rust_cmp_def str_eval)

lemma example_found: "find_central (rev (rc_versions example_central)) ''serilog'' = Some ''3.1.1''"
  unfolding find_selected [OF example_selected, of "''serilog''" "''3.1.1''" undefined]
  by (simp add: central_rows_def example_props_def example_central_def row_selected_def reference_conditions_match_def eq_ignore_case_def str_eval)

lemma example_packages: "select_rows ''/w/App.csproj'' [] ctx rp_conditions
    (resolve_package_version ''/w/App.csproj'' True True (rev (rc_versions example_central))) (raw_package_references example_raw)
  = Inr [package_row (hd (raw_package_references example_raw)) (Some ''3.1.1'')]"
  by (simp add: example_raw_def reference_conditions_match_def resolve_package_version_def example_found)

lemma example_sources: "collect_sources 1 \<lparr>wk_fs = example_files, wk_root = path_of_text ''/w'', wk_project_path = path_of_text ''/w/App.csproj'',
    wk_exclusions = []\<rparr> = Inr [''a.CS'', ''b.cs'']"
  by code_simp

lemma example_gathered:
  "\<exists>parts. gather_project (\<lambda>_. []) example_files 1 ''/w/App.csproj'' ''/w'' Release example_raw example_props = Inr parts
    \<and> pp_path parts = ''/w/App.csproj'' \<and> pp_directory parts = ''/w'' \<and> pp_settings parts = example_settings
    \<and> pp_assembly_name parts = ''App'' \<and> pp_root_namespace parts = ''App'' \<and> pp_runtimes parts = [] \<and> pp_references parts = []
    \<and> pp_sources parts = [''a.CS'', ''b.cs''] \<and> pp_fingerprint parts = [] \<and> pp_central parts = rev (rc_versions example_central)
    \<and> pp_packages parts = [package_row (hd (raw_package_references example_raw)) (Some ''3.1.1'')]
    \<and> pp_runtime_version parts = None \<and> pp_frameworks parts = []"
proof -
  have names: "project_names example_files ''/w/App.csproj'' example_raw = Inr (''App'', ''App'')"
    by (simp add: project_names_def project_file_stem_def path_file_name_def path_of_text_def path_component_of_def stem_of_name_def
        example_files_def example_raw_def default_raw_project_def literal_name_def or_default_def is_dynamic_def str_eval)
  have exclusions: "exclusions_from_project example_files ''/w/App.csproj'' ''/w'' (raw_exclusions example_raw) Release ''net8.0'' None ''App'' = Inr []"
    by (simp add: exclusions_from_project_def raw_exclusions_def example_raw_def default_raw_project_def)
  have central: "or_default ''/w/App.csproj'' (rc_path example_props) = ''Directory.Packages.props''"
    by (simp add: or_default_def example_props_def example_central_def)
  have raw: "raw_properties example_raw PropertyRuntimeIdentifiers = None" "raw_conditions example_raw = []" "raw_project_references example_raw = []"
    "raw_framework_references example_raw = []" "raw_properties example_raw PropertyRuntimeFrameworkVersion = None"
    by (simp_all add: example_raw_def default_raw_project_def)
  have unicode: "sf_unicode example_files x" for x by (simp add: example_files_def)
  have s: "st_selected_runtime example_settings = None" "st_target_framework example_settings = ''net8.0''" "st_central_management example_settings"
    "st_central_override example_settings" "\<not> st_central_pinning example_settings"
    by (simp_all add: example_settings_def)
  have "gather_project (\<lambda>_. []) example_files 1 ''/w/App.csproj'' ''/w'' Release example_raw example_props =
      Inr \<lparr>pp_path = ''/w/App.csproj'', pp_directory = ''/w'', pp_configuration = Release, pp_settings = example_settings,
         pp_assembly_name = ''App'', pp_root_namespace = ''App'', pp_runtime_index = NO_RUNTIME_IDENTIFIER, pp_runtimes_len = 0,
         pp_runtimes = [], pp_sources = [''a.CS'', ''b.cs''], pp_references = [], pp_fingerprint = [],
         pp_central = rev (rc_versions example_central), pp_packages = [package_row (hd (raw_package_references example_raw)) (Some ''3.1.1'')],
         pp_runtime_version = None, pp_frameworks = []\<rparr>"
    unfolding gather_project_def example_evaluated source_error_simps rbind_simps raw s parse_runtime_identifiers_def option.case
    using names exclusions example_sources example_packages example_selected
    by (simp add: select_runtime_def central s example_selected example_packages unicode_text_def unicode
        central_package_fingerprint_def Let_def)
  then show ?thesis by simp
qed

lemma example_materialized:
  "\<exists>p. materialize_project (\<lambda>_. []) example_files 1 ''/w/App.csproj'' ''/w'' Release example_raw example_props = Inr p"
proof -
  obtain parts where gather: "gather_project (\<lambda>_. []) example_files 1 ''/w/App.csproj'' ''/w'' Release example_raw example_props = Inr parts"
    and heads: "head_texts parts = [''/w/App.csproj'', ''/w'', ''net8.0'', ''App'', ''App'']" "pp_path parts = ''/w/App.csproj''"
    and parts: "pp_runtimes parts = []" "pp_references parts = []" "pp_sources parts = [''a.CS'', ''b.cs'']" "pp_fingerprint parts = []"
      "pp_central parts = rev (rc_versions example_central)" "pp_packages parts = [package_row (hd (raw_package_references example_raw)) (Some ''3.1.1'')]"
      "pp_runtime_version parts = None" "pp_frameworks parts = []"
    using example_gathered by (auto simp: head_texts_def example_settings_def)
  have "\<exists>p. pack_project parts = Inr p"
    unfolding pack_project_def heads parts
    by (simp add: push_text_def push_span_def push_optional_def example_central_def or_default_def example_raw_def pack_package_def package_row_def
        is_literal_package_version_def is_dynamic_def parse_package_assets_def optional_literal_metadata_def parse_bool_def Let_def str_eval)
  then show ?thesis using gather by (auto simp: materialize_project_def)
qed

lemma materialized_project_reads_back_witness:
  "\<exists>p. materialize_project (\<lambda>_. []) example_files 1 ''/w/App.csproj'' ''/w'' Release example_raw example_props = Inr p
    \<and> project_path p = ''/w/App.csproj'' \<and> target_framework_name p = ''net8.0'' \<and> runtime_identifier p = None \<and> assembly_name p = ''App''"
proof -
  obtain p where p: "materialize_project (\<lambda>_. []) example_files 1 ''/w/App.csproj'' ''/w'' Release example_raw example_props = Inr p"
    using example_materialized by blast
  have "project_names example_files ''/w/App.csproj'' example_raw = Inr (a, b) \<Longrightarrow> a = ''App''" for a b
    by (auto simp: project_names_def rbind_eq_Inr literal_name_def example_raw_def or_default_def split: if_splits)
  then show ?thesis
    using materialized_project_reads_back [OF p] p by (auto simp: example_evaluated example_settings_def)
qed

lemma materialized_packages_witness:
  "\<exists>p. materialize_project (\<lambda>_. []) example_files 1 ''/w/App.csproj'' ''/w'' Release example_raw example_props = Inr p
    \<and> map (package_id p) (ps_package_references p) = [''serilog'']"
proof -
  obtain p where p: "materialize_project (\<lambda>_. []) example_files 1 ''/w/App.csproj'' ''/w'' Release example_raw example_props = Inr p"
    using example_materialized by blast
  have globals: "rc_globals example_props = []" by (simp add: example_props_def example_central_def)
  have own: "filter (\<lambda>r. row_selected ''/w/App.csproj'' (raw_conditions example_raw) ctx (rp_conditions r)) (raw_package_references example_raw)
      = raw_package_references example_raw" for ctx
    by (simp add: example_raw_def row_selected_def reference_conditions_match_def)
  have one: "map rp_id (raw_package_references example_raw) = [''serilog'']" by (simp add: example_raw_def)
  have ids: "map (package_id p) rows = map rp_id rs" if "list_all2 (\<lambda>row r. package_id p row = rp_id r \<and> Q row r) rows rs" for rows rs Q
    using that by (induction rule: list_all2_induct) simp_all
  from materialized_packages [OF p, unfolded globals own] obtain s mine rest where rows: "ps_package_references p = mine @ rest"
    and l: "list_all2 (\<lambda>row r. package_id p row = rp_id r
          \<and> version_given s (central_rows (or_default ''/w/App.csproj'' (rc_path example_props)) (evaluation_context s Release) example_props)
              r (package_version_text p row)) mine (raw_package_references example_raw)"
    and g: "list_all2 (\<lambda>row r. package_id p row = rp_id r \<and> rp_metadata r MetadataVersion = Some (package_version_text p row)) rest
      (if st_central_management s then [] else [] :: raw_package_reference list)"
    unfolding filter.simps(1) by blast
  have "rest = []" using g by (simp only: if_cancel list_all2_Nil2)
  moreover have "map (package_id p) mine = map rp_id (raw_package_references example_raw)" by (rule ids) (rule l)
  ultimately have "map (package_id p) (ps_package_references p) = [''serilog'']" by (simp only: rows one append_Nil2)
  from p this show ?thesis by (intro exI conjI)
qed

end
