(* ===== verification/Framework_Plan.thy ===== *)
theory Framework_Plan
  imports Sdk_Discovery Project_Spec Protocol Xml_Events Span_Table
begin

text \<open>
  \<open>crates/dv-core/src/framework_reference.rs\<close>: the framework references of a project, resolved with the
  manifest of the selected SDK into targeting packs and installed shared frameworks. The file system is
  the machine of the SDK discovery; reading XML, the text of a path and the configured package
  directory are arguments.
\<close>

section \<open>Runtime versions\<close>

record runtime_version =
  fv_text :: string
  fv_major :: nat
  fv_minor :: nat
  fv_patch :: nat
  fv_prerelease :: "string option"

definition numeric_part :: "string \<Rightarrow> nat option" where
  "numeric_part s = (if s = [] \<or> 1 < length s \<and> starts_with ''0'' s \<or> \<not> all_digits s then None else parse_uint (2 ^ 32) s)"

definition valid_identifiers :: "string \<Rightarrow> bool" where
  "valid_identifiers s = list_all (\<lambda>i. i \<noteq> [] \<and> list_all (\<lambda>b. is_alnum b \<or> b = CHR ''-'') i) (split_on CHR ''.'' s)"

definition three_numbers :: "string \<Rightarrow> (nat \<times> nat \<times> nat) option" where
  "three_numbers s = (case split_on CHR ''.'' s of
       [a, b, c] \<Rightarrow> Option.bind (numeric_part a) (\<lambda>major. Option.bind (numeric_part b) (\<lambda>minor.
         map_option (\<lambda>patch. (major, minor, patch)) (numeric_part c)))
     | _ \<Rightarrow> None)"

definition parse_runtime_version :: "string \<Rightarrow> runtime_version option" where
  "parse_runtime_version s =
     (let (precedence, build) = (case split_once CHR ''+'' s of Some (p, b) \<Rightarrow> (p, Some b) | None \<Rightarrow> (s, None)) in
      if (case build of Some b \<Rightarrow> \<not> valid_identifiers b | None \<Rightarrow> False) then None
      else Option.bind
        (case split_once CHR ''-'' precedence of
           Some (numbers, prerelease) \<Rightarrow> if valid_identifiers prerelease then Some (numbers, Some prerelease) else None
         | None \<Rightarrow> Some (precedence, None)) (\<lambda>(numbers, prerelease).
        map_option (\<lambda>(major, minor, patch).
          \<lparr>fv_text = s, fv_major = major, fv_minor = minor, fv_patch = patch, fv_prerelease = prerelease\<rparr>) (three_numbers numbers)))"

definition runtime_cmp :: "runtime_version \<Rightarrow> runtime_version \<Rightarrow> ordering" where
  "runtime_cmp a b =
     then_with (rust_cmp (fv_major a) (fv_major b))
    (then_with (rust_cmp (fv_minor a) (fv_minor b))
    (then_with (rust_cmp (fv_patch a) (fv_patch b))
       (compare_prerelease (fv_prerelease a) (fv_prerelease b))))"

definition runtime_ge :: "runtime_version \<Rightarrow> runtime_version \<Rightarrow> bool" where
  "runtime_ge a b \<longleftrightarrow> runtime_cmp a b \<noteq> Less"

definition runtime_band :: "runtime_version \<Rightarrow> nat list" where
  "runtime_band v = [fv_major v, fv_minor v]"

section \<open>Roll-forward\<close>

definition eligible_release :: "bool \<Rightarrow> runtime_version \<Rightarrow> bool" where
  "eligible_release stable_only v \<longleftrightarrow> \<not> stable_only \<or> fv_prerelease v = None"

definition select_nearest_band :: "runtime_version list \<Rightarrow> runtime_version \<Rightarrow> (runtime_version \<Rightarrow> bool) \<Rightarrow> runtime_version option" where
  "select_nearest_band vs requested eligible =
     Option.bind (min_by rust_cmp (map runtime_band (filter eligible vs))) (\<lambda>nearest.
       max_by runtime_cmp (filter (\<lambda>v. eligible v \<and> runtime_band v = nearest \<and> runtime_ge v requested) vs))"

fun select_runtime_by_policy :: "runtime_version list \<Rightarrow> runtime_version \<Rightarrow> runtime_roll_forward \<Rightarrow> bool \<Rightarrow> runtime_version option" where
  "select_runtime_by_policy vs requested RollDisable stable_only =
     List.find (\<lambda>v. runtime_cmp v requested = Equal) (filter (eligible_release stable_only) vs)"
| "select_runtime_by_policy vs requested RollLatestPatch stable_only =
     max_by runtime_cmp (filter (\<lambda>v. fv_major v = fv_major requested \<and> fv_minor v = fv_minor requested \<and> runtime_ge v requested)
       (filter (eligible_release stable_only) vs))"
| "select_runtime_by_policy vs requested RollMinor stable_only =
     select_nearest_band vs requested
       (\<lambda>v. eligible_release stable_only v \<and> fv_major v = fv_major requested \<and> runtime_ge v requested)"
| "select_runtime_by_policy vs requested RollMajor stable_only =
     select_nearest_band vs requested (\<lambda>v. eligible_release stable_only v \<and> runtime_ge v requested)"
| "select_runtime_by_policy vs requested RollLatestMinor stable_only =
     max_by runtime_cmp (filter (\<lambda>v. fv_major v = fv_major requested \<and> runtime_ge v requested) (filter (eligible_release stable_only) vs))"
| "select_runtime_by_policy vs requested RollLatestMajor stable_only =
     max_by runtime_cmp (filter (\<lambda>v. runtime_ge v requested) (filter (eligible_release stable_only) vs))"

definition select_runtime_version :: "runtime_version list \<Rightarrow> runtime_version \<Rightarrow> runtime_roll_forward \<Rightarrow> runtime_version option" where
  "select_runtime_version vs requested policy =
     (if fv_prerelease requested \<noteq> None then select_runtime_by_policy vs requested policy False
      else (case select_runtime_by_policy vs requested policy True of
          Some v \<Rightarrow> Some v
        | None \<Rightarrow> select_runtime_by_policy vs requested policy False))"

section \<open>Errors\<close>

datatype framework_error_kind =
  FrameworkIo | FrameworkInvalidManifest | UnknownFramework | FrameworkInvalidVersion | TargetingPackNotFound | SharedFrameworkNotFound
| FrameworkConfiguration | FrameworkNonUnicodePath | FrameworkTextOverflow

datatype 'io plan_message = PlanText string "string list" | PlanIo string string 'io

record ('p, 'io) framework_error =
  fk_kind :: framework_error_kind
  fk_path :: 'p
  fk_message :: "'io plan_message"
  fk_requirement :: "pack_requirement option"

definition framework_error_new :: "framework_error_kind \<Rightarrow> 'p \<Rightarrow> 'io plan_message \<Rightarrow> ('p, 'io) framework_error" where
  "framework_error_new kind path msg = \<lparr>fk_kind = kind, fk_path = path, fk_message = msg, fk_requirement = None\<rparr>"

definition with_requirement :: "pack_requirement \<Rightarrow> ('p, 'io) framework_error \<Rightarrow> ('p, 'io) framework_error" where
  "with_requirement requirement e = e\<lparr>fk_requirement := Some requirement\<rparr>"

text \<open>What planning reads of its surroundings.\<close>

record ('p, 'io) pack_world =
  pw_machine :: "('p, 'io) machine"
  pw_to_str :: "'p \<Rightarrow> string option"
  pw_xml :: "string \<Rightarrow> xml_document"
  pw_explicit_packages :: "'p option"
  pw_packages_variable :: "string + 'p option"
  pw_configured_packages :: "string \<Rightarrow> string + 'p"

definition framework_io_error :: "('p, 'io) pack_world \<Rightarrow> string \<Rightarrow> 'p \<Rightarrow> 'io \<Rightarrow> ('p, 'io) framework_error" where
  "framework_io_error w operation path e = framework_error_new FrameworkIo path (PlanIo operation (path_text (pw_machine w) path) e)"

definition framework_manifest_error :: "'p \<Rightarrow> string \<Rightarrow> string list \<Rightarrow> ('p, 'io) framework_error" where
  "framework_manifest_error path template args = framework_error_new FrameworkInvalidManifest path (PlanText template args)"

definition global_packages_directory :: "('p, 'io) pack_world \<Rightarrow> string \<Rightarrow> string + 'p" where
  "global_packages_directory w directory =
     (case pw_explicit_packages w of
        Some cache \<Rightarrow> Inr cache
      | None \<Rightarrow> rbind (pw_packages_variable w) (\<lambda>var. case var of
          Some cache \<Rightarrow> Inr cache
        | None \<Rightarrow> pw_configured_packages w directory))"

section \<open>Installed shared frameworks\<close>

definition scan_runtime_entry :: "('p, 'io) pack_world \<Rightarrow> 'p \<Rightarrow> runtime_version list \<Rightarrow> 'io + ('p, 'io) fs_entry \<Rightarrow>
    ('p, 'io) framework_error + runtime_version list" where
  "scan_runtime_entry w base vs entry =
     rbind (map_error (framework_io_error w ''enumerate shared frameworks'' base) entry) (\<lambda>entry.
     rbind (map_error (framework_io_error w ''inspect shared framework'' (fe_path entry)) (fe_is_dir entry)) (\<lambda>directory.
       Inr (if \<not> directory then vs
            else (case Option.bind (fe_name entry) parse_runtime_version of None \<Rightarrow> vs | Some v \<Rightarrow> vs @ [v]))))"

definition shared_requirement :: "string \<Rightarrow> runtime_version \<Rightarrow> string \<Rightarrow> pack_requirement" where
  "shared_requirement runtime_name requested target_framework =
     new_pack_requirement SharedFramework runtime_name (Some (fv_text requested)) target_framework None InstallRuntime"

text \<open>The message of a failed selection names the last component of the base; the argument here is the base.\<close>

definition select_installed_runtime :: "('p, 'io) pack_world \<Rightarrow> 'p \<Rightarrow> string \<Rightarrow> string \<Rightarrow> runtime_version \<Rightarrow> runtime_roll_forward \<Rightarrow>
    ('p, 'io) framework_error + runtime_version" where
  "select_installed_runtime w base runtime_name target_framework requested policy =
     (let m = pw_machine w; requirement = shared_requirement runtime_name requested target_framework in
      rbind (case read_dir m base of
          Inr entries \<Rightarrow> Inr entries
        | Inl e \<Rightarrow> Inl (if not_found m e
            then with_requirement requirement
              (framework_error_new SharedFrameworkNotFound base (PlanText ''shared framework {} is not installed'' [path_text m base]))
            else framework_io_error w ''enumerate shared frameworks'' base e)) (\<lambda>entries.
      rbind (try_fold (scan_runtime_entry w base) [] entries) (\<lambda>vs.
        ok_or (with_requirement requirement (framework_error_new SharedFrameworkNotFound base
            (PlanText ''no installed {} version satisfies {} with roll-forward {}'' [path_text m base, fv_text requested, roll_forward_str policy])))
          (select_runtime_version (sort_by runtime_cmp vs) requested policy))))"

section \<open>The manifest of the SDK\<close>

definition BUNDLED_VERSIONS_FILE :: string where
  "BUNDLED_VERSIONS_FILE = ''Microsoft.NETCoreSdk.BundledVersions.props''"

definition IMPLICIT_FRAMEWORK_REFERENCE :: string where
  "IMPLICIT_FRAMEWORK_REFERENCE = ''Microsoft.NETCore.App''"

record known_framework =
  kf_target_framework :: string
  kf_name :: string
  kf_runtime_name :: string
  kf_default_runtime_version :: string
  kf_latest_runtime_version :: string
  kf_targeting_pack_id :: string
  kf_targeting_pack_version :: string
  kf_profile :: "string option"

definition manifest_attribute :: "'p \<Rightarrow> xml_element \<Rightarrow> string \<Rightarrow> ('p, 'io) framework_error + string option" where
  "manifest_attribute path element name =
     map_error (\<lambda>e. case e of
         Inl syntax \<Rightarrow> framework_manifest_error path ''invalid SDK framework manifest attribute: {error}'' [syntax]
       | Inr decode \<Rightarrow> framework_manifest_error path ''invalid SDK framework manifest attribute value: {error}'' [decode])
       (find_attribute name (xe_attributes element))"

definition required_manifest_attribute :: "'p \<Rightarrow> xml_element \<Rightarrow> string \<Rightarrow> ('p, 'io) framework_error + string" where
  "required_manifest_attribute path element name =
     rbind (manifest_attribute path element name) (\<lambda>found.
       ok_or (framework_manifest_error path ''{} element requires a non-empty {} attribute'' [local_name (xe_name element), name])
         (case found of Some v \<Rightarrow> if v = [] then None else Some v | None \<Rightarrow> None))"

definition read_known_framework :: "'p \<Rightarrow> string list \<Rightarrow> xml_element \<Rightarrow> ('p, 'io) framework_error + known_framework option" where
  "read_known_framework path wanted element =
     (let required = required_manifest_attribute path element in
      rbind (required ''TargetFramework'') (\<lambda>target_framework.
      if target_framework \<notin> set wanted then Inr None
      else
      rbind (required ''Include'') (\<lambda>name.
      rbind (required ''RuntimeFrameworkName'') (\<lambda>runtime_name.
      rbind (required ''DefaultRuntimeFrameworkVersion'') (\<lambda>default_version.
      rbind (required ''LatestRuntimeFrameworkVersion'') (\<lambda>latest_version.
      rbind (required ''TargetingPackName'') (\<lambda>pack.
      rbind (required ''TargetingPackVersion'') (\<lambda>pack_version.
      rbind (manifest_attribute path element ''Profile'') (\<lambda>profile.
        Inr (Some \<lparr>kf_target_framework = target_framework, kf_name = name, kf_runtime_name = runtime_name,
          kf_default_runtime_version = default_version, kf_latest_runtime_version = latest_version, kf_targeting_pack_id = pack,
          kf_targeting_pack_version = pack_version, kf_profile = profile\<rparr>))))))))))"

definition framework_element :: "xml_event \<Rightarrow> xml_element option" where
  "framework_element event = (case event of
       StartTag e \<Rightarrow> if local_name (xe_name e) = ''KnownFrameworkReference'' then Some e else None
     | EmptyTag e \<Rightarrow> if local_name (xe_name e) = ''KnownFrameworkReference'' then Some e else None
     | _ \<Rightarrow> None)"

fun read_manifest_events :: "'p \<Rightarrow> string list \<Rightarrow> xml_document \<Rightarrow> ('p, 'io) framework_error + known_framework list" where
  "read_manifest_events path wanted [] = Inr []"
| "read_manifest_events path wanted (Inl e # rest) = Inl (framework_manifest_error path ''invalid SDK framework manifest XML: {error}'' [e])"
| "read_manifest_events path wanted (Inr event # rest) =
     (case framework_element event of
        None \<Rightarrow> read_manifest_events path wanted rest
      | Some element \<Rightarrow>
          rbind (read_known_framework path wanted element) (\<lambda>row.
          rbind (read_manifest_events path wanted rest) (\<lambda>rows. Inr (case row of None \<Rightarrow> rows | Some r \<Rightarrow> r # rows))))"

definition read_framework_definitions :: "('p, 'io) pack_world \<Rightarrow> 'p \<Rightarrow> string list \<Rightarrow> ('p, 'io) framework_error + known_framework list" where
  "read_framework_definitions w path wanted =
     rbind (map_error (framework_io_error w ''read SDK framework manifest'' path) (read_file (pw_machine w) path)) (\<lambda>bytes.
       read_manifest_events path wanted (pw_xml w bytes))"

section \<open>Requested frameworks\<close>

record requested_framework =
  rq_name :: string
  rq_source :: "framework_reference option"

definition names_core :: "project_spec \<Rightarrow> framework_reference \<Rightarrow> bool" where
  "names_core project reference \<longleftrightarrow> eq_ignore_case (framework_reference_id project reference) IMPLICIT_FRAMEWORK_REFERENCE"

definition explicit_core :: "project_spec \<Rightarrow> framework_reference option" where
  "explicit_core project = List.find (names_core project) (ps_framework_references project)"

definition requested_row :: "project_spec \<Rightarrow> framework_reference \<Rightarrow> requested_framework" where
  "requested_row project reference = \<lparr>rq_name = framework_reference_id project reference, rq_source = Some reference\<rparr>"

definition requested_frameworks :: "project_spec \<Rightarrow> requested_framework list" where
  "requested_frameworks project =
     \<lparr>rq_name = IMPLICIT_FRAMEWORK_REFERENCE, rq_source = explicit_core project\<rparr>
     # map (requested_row project) (filter (\<lambda>r. \<not> names_core project r) (ps_framework_references project))"

definition package_pruning_requested_frameworks :: "project_spec \<Rightarrow> requested_framework list" where
  "package_pruning_requested_frameworks project =
     (let implicit_core = tfm_family (ps_target_framework project) \<in> {Net, NetCoreApp} in
      (if implicit_core then [\<lparr>rq_name = IMPLICIT_FRAMEWORK_REFERENCE, rq_source = explicit_core project\<rparr>] else [])
      @ map (requested_row project) (filter (\<lambda>r. \<not> names_core project r \<or> \<not> implicit_core) (ps_framework_references project)))"

definition requested_runtime_version :: "project_spec \<Rightarrow> framework_reference option \<Rightarrow> known_framework \<Rightarrow> string" where
  "requested_runtime_version project reference known =
     (case Option.bind reference (framework_runtime_version project) of
        Some version \<Rightarrow> version
      | None \<Rightarrow> (case runtime_framework_version project of
          Some version \<Rightarrow> version
        | None \<Rightarrow>
            (let use_latest = (case Option.bind reference fr_target_latest_runtime_patch of
                   Some b \<Rightarrow> b
                 | None \<Rightarrow> (case ps_target_latest_runtime_patch project of Some b \<Rightarrow> b | None \<Rightarrow> False)) in
             if use_latest then kf_latest_runtime_version known else kf_default_runtime_version known)))"

definition find_definition :: "'p \<Rightarrow> project_spec \<Rightarrow> known_framework list \<Rightarrow> string \<Rightarrow> ('p, 'io) framework_error + known_framework" where
  "find_definition manifest project definitions name =
     ok_or (framework_error_new UnknownFramework manifest
         (PlanText ''selected SDK has no framework reference {:?} for {}'' [name, target_framework_name project]))
       (List.find (\<lambda>d. kf_target_framework d = target_framework_name project \<and> eq_ignore_case (kf_name d) name) definitions)"

definition locate_targeting_pack :: "('p, 'io) pack_world \<Rightarrow> 'p \<Rightarrow> string \<Rightarrow> string \<Rightarrow> string \<Rightarrow> string \<Rightarrow> ('p, 'io) framework_error + 'p" where
  "locate_targeting_pack w dotnet_root directory pack version target_framework =
     (let m = pw_machine w; join = path_join m; present = join (join (join dotnet_root ''packs'') pack) version in
      if is_dir m present then Inr present
      else
      rbind (map_error (\<lambda>e. framework_error_new FrameworkConfiguration (path_of m directory)
          (PlanText ''failed to resolve the global-packages directory: {error}'' [e])) (global_packages_directory w directory)) (\<lambda>packages.
      let cached = join (join packages (to_lower pack)) (to_lower version) in
      if is_dir m cached then Inr cached
      else Inl (with_requirement (new_pack_requirement Targeting pack (Some version) target_framework None InstallSdkOrRestorePackage)
        (framework_error_new TargetingPackNotFound cached
          (PlanText ''required targeting pack {id} {version} is not installed under {} or restored under {}''
            [pack, version, path_text m present, path_text m cached])))))"

section \<open>The plan\<close>

record 'p materialized_framework =
  mf_reference :: string
  mf_runtime_name :: string
  mf_requested_version :: string
  mf_selected_version :: "string option"
  mf_shared_root :: "'p option"
  mf_targeting_pack_id :: string
  mf_targeting_pack_version :: string
  mf_targeting_pack_root :: 'p
  mf_profile :: "string option"

definition three_part :: "('p, 'io) pack_world \<Rightarrow> project_spec \<Rightarrow> string \<Rightarrow> string \<Rightarrow> ('p, 'io) framework_error + runtime_version" where
  "three_part w project template version =
     ok_or (framework_error_new FrameworkInvalidVersion (path_of (pw_machine w) (project_path project)) (PlanText template [version]))
       (parse_runtime_version version)"

definition shared_framework :: "('p, 'io) pack_world \<Rightarrow> project_spec \<Rightarrow> 'p \<Rightarrow> string \<Rightarrow> runtime_version \<Rightarrow>
    ('p, 'io) framework_error + string option \<times> 'p option" where
  "shared_framework w project dotnet_root runtime_name requested =
     (if ps_self_contained project then Inr (None, None)
      else let m = pw_machine w; base = path_join m (path_join m dotnet_root ''shared'') runtime_name in
        rbind (select_installed_runtime w base runtime_name (target_framework_name project) requested (ps_roll_forward project)) (\<lambda>selected.
          Inr (Some (fv_text selected), Some (path_join m base (fv_text selected)))))"

definition plan_framework :: "('p, 'io) pack_world \<Rightarrow> 'p \<Rightarrow> known_framework list \<Rightarrow> 'p \<Rightarrow> project_spec \<Rightarrow> requested_framework \<Rightarrow>
    ('p, 'io) framework_error + 'p materialized_framework" where
  "plan_framework w manifest definitions dotnet_root project request =
     rbind (find_definition manifest project definitions (rq_name request)) (\<lambda>known.
     let requested = requested_runtime_version project (rq_source request) known;
         pack_version = (case Option.bind (rq_source request) (framework_targeting_pack_version project) of
             Some v \<Rightarrow> v | None \<Rightarrow> kf_targeting_pack_version known) in
     rbind (three_part w project ''runtime framework version {requested_version:?} is not a three-part .NET runtime version'' requested) (\<lambda>parsed.
     rbind (three_part w project ''targeting pack version {targeting_pack_version:?} is not a three-part .NET version'' pack_version) (\<lambda>_.
     rbind (locate_targeting_pack w dotnet_root (project_directory project) (kf_targeting_pack_id known) pack_version
       (target_framework_name project)) (\<lambda>pack_root.
     rbind (shared_framework w project dotnet_root (kf_runtime_name known) parsed) (\<lambda>(selected, shared_root).
       Inr \<lparr>mf_reference = rq_name request, mf_runtime_name = kf_runtime_name known, mf_requested_version = requested,
         mf_selected_version = selected, mf_shared_root = shared_root, mf_targeting_pack_id = kf_targeting_pack_id known,
         mf_targeting_pack_version = pack_version, mf_targeting_pack_root = pack_root, mf_profile = kf_profile known\<rparr>)))))"

record resolved_framework =
  rs_reference :: tspan
  rs_runtime_name :: tspan
  rs_requested_version :: tspan
  rs_selected_version :: tspan
  rs_shared_root :: tspan
  rs_targeting_pack_id :: tspan
  rs_targeting_pack_version :: tspan
  rs_targeting_pack_root :: tspan
  rs_profile :: tspan

record framework_plan =
  fp_text :: string
  fp_frameworks :: "resolved_framework list"
  fp_project :: tspan
  fp_sdk_version :: tspan
  fp_manifest :: tspan
  fp_target_framework :: tspan
  fp_roll_forward :: runtime_roll_forward
  fp_self_contained :: bool

definition path_str :: "('p, 'io) pack_world \<Rightarrow> 'p \<Rightarrow> ('p, 'io) framework_error + string" where
  "path_str w path = ok_or (framework_error_new FrameworkNonUnicodePath path
     (PlanText ''framework plan path {} is not valid Unicode'' [path_text (pw_machine w) path])) (pw_to_str w path)"

definition push_plan :: "('p, 'io) pack_world \<Rightarrow> string \<Rightarrow> string \<Rightarrow> ('p, 'io) framework_error + string \<times> tspan" where
  "push_plan w table value =
     (let overflow = (\<lambda>template. framework_error_new FrameworkTextOverflow (path_of (pw_machine w) []) (PlanText template [])) in
      push_span (overflow ''framework plan text exceeds 4 GiB'') (overflow ''one framework plan value exceeds 4 GiB'') table value)"

definition push_plan_optional :: "('p, 'io) pack_world \<Rightarrow> string \<Rightarrow> string option \<Rightarrow> ('p, 'io) framework_error + string \<times> tspan" where
  "push_plan_optional w table value = (case value of Some v \<Rightarrow> push_plan w table v | None \<Rightarrow> Inr (table, NO_TEXT))"

definition push_plan_path :: "('p, 'io) pack_world \<Rightarrow> string \<Rightarrow> 'p \<Rightarrow> ('p, 'io) framework_error + string \<times> tspan" where
  "push_plan_path w table path = rbind (path_str w path) (push_plan w table)"

definition push_plan_optional_path :: "('p, 'io) pack_world \<Rightarrow> string \<Rightarrow> 'p option \<Rightarrow> ('p, 'io) framework_error + string \<times> tspan" where
  "push_plan_optional_path w table path = (case path of Some p \<Rightarrow> push_plan_path w table p | None \<Rightarrow> Inr (table, NO_TEXT))"

definition push_framework_row :: "('p, 'io) pack_world \<Rightarrow> string \<Rightarrow> 'p materialized_framework \<Rightarrow>
    ('p, 'io) framework_error + string \<times> resolved_framework" where
  "push_framework_row w table row =
     rbind (push_plan w table (mf_reference row)) (\<lambda>(table, reference).
     rbind (push_plan w table (mf_runtime_name row)) (\<lambda>(table, runtime_name).
     rbind (push_plan w table (mf_requested_version row)) (\<lambda>(table, requested).
     rbind (push_plan_optional w table (mf_selected_version row)) (\<lambda>(table, selected).
     rbind (push_plan_optional_path w table (mf_shared_root row)) (\<lambda>(table, shared_root).
     rbind (push_plan w table (mf_targeting_pack_id row)) (\<lambda>(table, pack).
     rbind (push_plan w table (mf_targeting_pack_version row)) (\<lambda>(table, pack_version).
     rbind (push_plan_path w table (mf_targeting_pack_root row)) (\<lambda>(table, pack_root).
     rbind (push_plan_optional w table (mf_profile row)) (\<lambda>(table, profile).
       Inr (table, \<lparr>rs_reference = reference, rs_runtime_name = runtime_name, rs_requested_version = requested,
         rs_selected_version = selected, rs_shared_root = shared_root, rs_targeting_pack_id = pack,
         rs_targeting_pack_version = pack_version, rs_targeting_pack_root = pack_root, rs_profile = profile\<rparr>))))))))))"

fun push_framework_rows :: "('p, 'io) pack_world \<Rightarrow> string \<Rightarrow> 'p materialized_framework list \<Rightarrow>
    ('p, 'io) framework_error + string \<times> resolved_framework list" where
  "push_framework_rows w table [] = Inr (table, [])"
| "push_framework_rows w table (row # rest) =
     rbind (push_framework_row w table row) (\<lambda>(table, r).
     rbind (push_framework_rows w table rest) (\<lambda>(table, rs). Inr (table, r # rs)))"

definition materialize_framework_plan :: "('p, 'io) pack_world \<Rightarrow> project_spec \<Rightarrow> string \<Rightarrow> 'p \<Rightarrow> 'p materialized_framework list \<Rightarrow>
    ('p, 'io) framework_error + framework_plan" where
  "materialize_framework_plan w project sdk_version manifest rows =
     rbind (path_str w (path_of (pw_machine w) (project_path project))) (\<lambda>project_text.
     rbind (path_str w manifest) (\<lambda>manifest_text.
     rbind (push_plan w [] project_text) (\<lambda>(table, project_span).
     rbind (push_plan w table sdk_version) (\<lambda>(table, sdk_span).
     rbind (push_plan w table manifest_text) (\<lambda>(table, manifest_span).
     rbind (push_plan w table (target_framework_name project)) (\<lambda>(table, target_span).
     rbind (push_framework_rows w table rows) (\<lambda>(table, frameworks).
       Inr \<lparr>fp_text = table, fp_frameworks = frameworks, fp_project = project_span, fp_sdk_version = sdk_span, fp_manifest = manifest_span,
         fp_target_framework = target_span, fp_roll_forward = ps_roll_forward project, fp_self_contained = ps_self_contained project\<rparr>)))))))"

definition plan_project :: "('p, 'io) pack_world \<Rightarrow> string \<Rightarrow> 'p \<Rightarrow> known_framework list \<Rightarrow> 'p \<Rightarrow> project_spec \<Rightarrow>
    ('p, 'io) framework_error + framework_plan" where
  "plan_project w sdk_version manifest definitions dotnet_root project =
     rbind (try_map (plan_framework w manifest definitions dotnet_root project) (requested_frameworks project)) (\<lambda>rows.
       materialize_framework_plan w project sdk_version manifest rows)"

definition sdk_manifest :: "('p, 'io) pack_world \<Rightarrow> 'p sdk_inventory \<Rightarrow> 'p" where
  "sdk_manifest w inventory = path_join (pw_machine w)
     (inv_installation_path (pw_machine w) (inv_roots inventory) (inv_selected inventory)) BUNDLED_VERSIONS_FILE"

definition plan_framework_references :: "('p, 'io) pack_world \<Rightarrow> 'p sdk_inventory \<Rightarrow> project_spec list \<Rightarrow>
    ('p, 'io) framework_error + framework_plan list" where
  "plan_framework_references w inventory projects =
     (if projects = [] then Inr []
      else rbind (read_framework_definitions w (sdk_manifest w inventory) (map target_framework_name projects)) (\<lambda>definitions.
        try_map (plan_project w (sv_text (si_version (inv_selected inventory))) (sdk_manifest w inventory) definitions
          (inv_root (inv_roots inventory) (inv_selected inventory))) projects))"

definition pruning_name :: "'p \<Rightarrow> project_spec \<Rightarrow> known_framework list \<Rightarrow> string list \<Rightarrow> requested_framework \<Rightarrow>
    ('p, 'io) framework_error + string list" where
  "pruning_name manifest project definitions names request =
     rbind (find_definition manifest project definitions (rq_name request)) (\<lambda>known.
       Inr (if list_ex (\<lambda>n. eq_ignore_case n (kf_runtime_name known)) names then names else names @ [kf_runtime_name known]))"

definition package_pruning_runtime_names :: "('p, 'io) pack_world \<Rightarrow> 'p sdk_inventory \<Rightarrow> project_spec \<Rightarrow> ('p, 'io) framework_error + string list" where
  "package_pruning_runtime_names w inventory project =
     rbind (read_framework_definitions w (sdk_manifest w inventory) [target_framework_name project]) (\<lambda>definitions.
       try_fold (pruning_name (sdk_manifest w inventory) project definitions) [] (package_pruning_requested_frameworks project))"

text \<open>Accessors.\<close>

definition fp_get :: "framework_plan \<Rightarrow> tspan \<Rightarrow> string" where
  "fp_get plan span = span_text (fp_text plan) span"

definition fp_optional :: "framework_plan \<Rightarrow> tspan \<Rightarrow> string option" where
  "fp_optional plan span = (if span \<noteq> NO_TEXT then Some (fp_get plan span) else None)"

end
