(* ===== verification/Pack_Inventory.thy ===== *)
theory Pack_Inventory
  imports Framework_Plan Source_Exclusions
begin

text \<open>
  \<open>crates/dv-core/src/runtime_pack.rs\<close>, the inventory of a runtime pack: building it from the pack's
  manifest, its encoding with fingerprint and checksum, and the cache of encoded inventories. Bytes are
  characters; SHA-512, the file system and the XML reader are arguments; paths are those of Unix.
\<close>

section \<open>Bytes\<close>

fun le_bytes :: "nat \<Rightarrow> nat \<Rightarrow> string" where
  "le_bytes 0 n = []"
| "le_bytes (Suc k) n = char_of (n mod 256) # le_bytes k (n div 256)"

fun le_value :: "string \<Rightarrow> nat" where
  "le_value [] = 0"
| "le_value (c # cs) = of_char c + 256 * le_value cs"

definition get_range :: "string \<Rightarrow> nat \<Rightarrow> nat \<Rightarrow> string option" where
  "get_range bytes a b = (if a \<le> b \<and> b \<le> length bytes then Some (take (b - a) (drop a bytes)) else None)"

definition read_u32 :: "string \<Rightarrow> nat \<Rightarrow> (nat \<times> nat) option" where
  "read_u32 bytes cursor = map_option (\<lambda>raw. (le_value raw, cursor + 4)) (get_range bytes cursor (cursor + 4))"

text \<open>\<open>str::get\<close>: both ends must lie between characters.\<close>

definition char_boundary :: "string \<Rightarrow> nat \<Rightarrow> bool" where
  "char_boundary s i \<longleftrightarrow> i = 0 \<or> i = length s \<or> i < length s \<and> \<not> (0x80 \<le> (of_char (s ! i) :: nat) \<and> (of_char (s ! i) :: nat) < 0xC0)"

definition get_text :: "string \<Rightarrow> tspan \<Rightarrow> string option" where
  "get_text s span = (let a = sp_start span; b = sp_start span + sp_len span in
     if char_boundary s a \<and> char_boundary s b then get_range s a b else None)"

section \<open>The inventory\<close>

definition PACK_INVENTORY_MAGIC :: string where
  "PACK_INVENTORY_MAGIC = ''DVPKINV'' @ [CHR 0x00]"

definition PACK_INVENTORY_SCHEMA :: nat where "PACK_INVENTORY_SCHEMA = 2"
definition PACK_FINGERPRINT_BYTES :: nat where "PACK_FINGERPRINT_BYTES = 64"
definition PACK_CHECKSUM_BYTES :: nat where "PACK_CHECKSUM_BYTES = 64"

definition CACHE_PAYLOAD_OFFSET :: nat where
  "CACHE_PAYLOAD_OFFSET = length PACK_INVENTORY_MAGIC + 4 + PACK_FINGERPRINT_BYTES + PACK_CHECKSUM_BYTES"

definition CACHE_HEADER_BYTES :: nat where
  "CACHE_HEADER_BYTES = CACHE_PAYLOAD_OFFSET + 4 * 4"

datatype asset_kind = Managed | Native

record runtime_asset =
  ra_kind :: asset_kind
  ra_path :: tspan

record pack_inventory =
  pi_text :: string
  pi_assets :: "runtime_asset list"
  pi_apphost_template :: tspan

definition asset_relative_path :: "pack_inventory \<Rightarrow> runtime_asset \<Rightarrow> string" where
  "asset_relative_path inventory asset = span_text (pi_text inventory) (ra_path asset)"

definition apphost_relative_path :: "pack_inventory \<Rightarrow> string" where
  "apphost_relative_path inventory = span_text (pi_text inventory) (pi_apphost_template inventory)"

fun is_normal :: "path_component \<Rightarrow> bool" where
  "is_normal (Normal name) = True"
| "is_normal _ = False"

definition is_safe_pack_relative_path :: "string \<Rightarrow> bool" where
  "is_safe_pack_relative_path s \<longleftrightarrow> s \<noteq> [] \<and> list_all is_normal (path_of_text s)"

section \<open>Encoding\<close>

fun asset_kind_byte :: "asset_kind \<Rightarrow> char" where
  "asset_kind_byte Managed = CHR 0x00"
| "asset_kind_byte Native = CHR 0x01"

definition span_bytes :: "tspan \<Rightarrow> string" where
  "span_bytes span = le_bytes 4 (sp_start span) @ le_bytes 4 (sp_len span)"

definition encode_asset :: "runtime_asset \<Rightarrow> string" where
  "encode_asset asset = asset_kind_byte (ra_kind asset) # span_bytes (ra_path asset)"

text \<open>\<open>None\<close> is the panic of a length that does not fit 32 bits.\<close>

definition encode_pack_inventory :: "(string \<Rightarrow> string) \<Rightarrow> string \<Rightarrow> pack_inventory \<Rightarrow> string option" where
  "encode_pack_inventory sha512 fingerprint inventory =
     (if 2 ^ 32 \<le> length (pi_text inventory) \<or> 2 ^ 32 \<le> length (pi_assets inventory) then None
      else let bytes = PACK_INVENTORY_MAGIC @ le_bytes 4 PACK_INVENTORY_SCHEMA @ fingerprint @ replicate PACK_CHECKSUM_BYTES (CHR 0x00)
          @ le_bytes 4 (length (pi_text inventory)) @ le_bytes 4 (length (pi_assets inventory))
          @ span_bytes (pi_apphost_template inventory) @ pi_text inventory @ concat (map encode_asset (pi_assets inventory));
        checksum = sha512 (drop CACHE_PAYLOAD_OFFSET bytes); checksum_start = CACHE_PAYLOAD_OFFSET - PACK_CHECKSUM_BYTES
      in Some (take checksum_start bytes @ checksum @ drop CACHE_PAYLOAD_OFFSET bytes))"

definition decode_asset :: "string \<Rightarrow> string \<Rightarrow> nat \<Rightarrow> (runtime_asset \<times> nat) option" where
  "decode_asset bytes table cursor =
     (if length bytes \<le> cursor then None
      else Option.bind (if bytes ! cursor = CHR 0x00 then Some Managed else if bytes ! cursor = CHR 0x01 then Some Native else None) (\<lambda>kind.
      Option.bind (read_u32 bytes (cursor + 1)) (\<lambda>(start, cursor).
      Option.bind (read_u32 bytes cursor) (\<lambda>(len, cursor).
      let path = \<lparr>sp_start = start, sp_len = len\<rparr> in
      Option.bind (get_text table path) (\<lambda>relative.
        if is_safe_pack_relative_path relative then Some (\<lparr>ra_kind = kind, ra_path = path\<rparr>, cursor) else None)))))"

fun decode_assets :: "string \<Rightarrow> string \<Rightarrow> nat \<Rightarrow> nat \<Rightarrow> runtime_asset list option" where
  "decode_assets bytes table cursor 0 = Some []"
| "decode_assets bytes table cursor (Suc n) =
     Option.bind (decode_asset bytes table cursor) (\<lambda>(asset, cursor). map_option (\<lambda>rest. asset # rest) (decode_assets bytes table cursor n))"

definition decode_payload :: "string \<Rightarrow> nat \<Rightarrow> pack_inventory option" where
  "decode_payload bytes cursor =
     Option.bind (read_u32 bytes cursor) (\<lambda>(text_len, cursor).
     Option.bind (read_u32 bytes cursor) (\<lambda>(asset_count, cursor).
     Option.bind (read_u32 bytes cursor) (\<lambda>(start, cursor).
     Option.bind (read_u32 bytes cursor) (\<lambda>(len, cursor).
     let template = \<lparr>sp_start = start, sp_len = len\<rparr>; text_end = cursor + text_len in
     Option.bind (get_range bytes cursor text_end) (\<lambda>table.
     if \<not> valid_utf8 table then None
     else Option.bind (get_text table template) (\<lambda>relative.
       if \<not> is_safe_pack_relative_path relative then None
       else if text_end + asset_count * 9 \<noteq> length bytes then None
       else map_option (\<lambda>assets. \<lparr>pi_text = table, pi_assets = assets, pi_apphost_template = template\<rparr>)
         (decode_assets bytes table text_end asset_count)))))))"

definition decode_pack_inventory :: "(string \<Rightarrow> string) \<Rightarrow> string \<Rightarrow> string \<Rightarrow> pack_inventory option" where
  "decode_pack_inventory sha512 bytes expected =
     (if length bytes < CACHE_HEADER_BYTES \<or> get_range bytes 0 (length PACK_INVENTORY_MAGIC) \<noteq> Some PACK_INVENTORY_MAGIC then None
      else Option.bind (read_u32 bytes (length PACK_INVENTORY_MAGIC)) (\<lambda>(schema, cursor).
      if schema \<noteq> PACK_INVENTORY_SCHEMA then None
      else if get_range bytes cursor (cursor + PACK_FINGERPRINT_BYTES) \<noteq> Some expected then None
      else let cursor = cursor + PACK_FINGERPRINT_BYTES in
      Option.bind (get_range bytes cursor (cursor + PACK_CHECKSUM_BYTES)) (\<lambda>checksum.
      let cursor = cursor + PACK_CHECKSUM_BYTES in
      if sha512 (drop cursor bytes) \<noteq> checksum then None else decode_payload bytes cursor)))"

end
