(* ===== verification/Pack_Codec.thy ===== *)
theory Pack_Codec
  imports Pack_Inventory
begin

text \<open>
  The encoding of pack inventories is canonical: exactly the encodings of well-formed inventories decode,
  each to the inventory it encodes.
\<close>

section \<open>Bytes\<close>

lemma length_le_bytes [simp]: "length (le_bytes k n) = k"
  by (induction k arbitrary: n) simp_all

lemma le_value_bytes: "n < 256 ^ k \<Longrightarrow> le_value (le_bytes k n) = n"
proof (induction k arbitrary: n)
  case (Suc k)
  then have "n div 256 < 256 ^ k" by (simp add: less_mult_imp_div_less mult.commute)
  then show ?case using Suc.IH [of "n div 256"] by simp
qed simp

lemma le_bytes_value: "le_bytes (length s) (le_value s) = s"
proof (induction s)
  case (Cons c s)
  have "(of_char c :: nat) < 256" by simp
  then have "(of_char c + 256 * le_value s) mod 256 = of_char c" "(of_char c + 256 * le_value s) div 256 = le_value s" by simp_all
  then show ?case using Cons by simp
qed simp

lemma le_value_bound: "le_value s < 256 ^ length s"
proof (induction s)
  case (Cons c s)
  have "k + 256 * v < 256 * (v + 1)" if "k < 256" for k v :: nat using that by simp
  then have "of_char c + 256 * le_value s < 256 * (le_value s + 1)" by simp
  also have "\<dots> \<le> 256 * 256 ^ length s" using Cons by (intro mult_le_mono2) linarith
  finally show ?case by (simp add: mult.commute)
qed simp

lemma get_range_Some: "get_range bytes c (c + n) = Some x \<longleftrightarrow> c \<le> length bytes \<and> length x = n \<and> (\<exists>rest. drop c bytes = x @ rest)"
proof
  assume "get_range bytes c (c + n) = Some x"
  then show "c \<le> length bytes \<and> length x = n \<and> (\<exists>rest. drop c bytes = x @ rest)"
    by (auto simp: get_range_def intro!: exI [of _ "drop (c + n) bytes"] split: if_splits) (metis append_take_drop_id drop_drop add.commute)
next
  assume r: "c \<le> length bytes \<and> length x = n \<and> (\<exists>rest. drop c bytes = x @ rest)"
  then obtain rest where rest: "drop c bytes = x @ rest" by blast
  have "length bytes - c = length x + length rest" using arg_cong [OF rest, of length] by simp
  then have "c + n \<le> length bytes" using r by linarith
  then show "get_range bytes c (c + n) = Some x" using r rest by (simp add: get_range_def)
qed

lemma read_u32_Some:
  "read_u32 bytes c = Some (v, c') \<longleftrightarrow> c' = c + 4 \<and> v < 2 ^ 32 \<and> c \<le> length bytes \<and> (\<exists>rest. drop c bytes = le_bytes 4 v @ rest)"
proof
  assume "read_u32 bytes c = Some (v, c')"
  then obtain raw where raw: "get_range bytes c (c + 4) = Some raw" and v: "v = le_value raw" "c' = c + 4" by (auto simp: read_u32_def)
  then have "length raw = 4" by (simp add: get_range_Some)
  then have "le_bytes 4 v = raw" "v < 2 ^ 32" using le_bytes_value [of raw] le_value_bound [of raw] v by simp_all
  then show "c' = c + 4 \<and> v < 2 ^ 32 \<and> c \<le> length bytes \<and> (\<exists>rest. drop c bytes = le_bytes 4 v @ rest)"
    using raw v get_range_Some by simp
next
  assume r: "c' = c + 4 \<and> v < 2 ^ 32 \<and> c \<le> length bytes \<and> (\<exists>rest. drop c bytes = le_bytes 4 v @ rest)"
  then have "get_range bytes c (c + 4) = Some (le_bytes 4 v)" unfolding get_range_Some by simp
  then show "read_u32 bytes c = Some (v, c')" using r le_value_bytes [of v 4] by (simp add: read_u32_def)
qed

lemma drop_after: "drop c bytes = x @ rest \<Longrightarrow> drop (c + length x) bytes = rest"
  by (metis append_eq_conv_conj drop_drop add.commute)

lemma within: "c \<le> length bytes \<Longrightarrow> drop c bytes = x @ rest \<Longrightarrow> c + length x \<le> length bytes"
  by (metis le_add1 le_diff_conv2 length_append length_drop add.commute)

section \<open>Well-formed inventories\<close>

definition span32 :: "tspan \<Rightarrow> bool" where
  "span32 span \<longleftrightarrow> sp_start span < 2 ^ 32 \<and> sp_len span < 2 ^ 32"

definition safe_span :: "string \<Rightarrow> tspan \<Rightarrow> bool" where
  "safe_span table span \<longleftrightarrow> span32 span \<and> (\<exists>relative. get_text table span = Some relative \<and> is_safe_pack_relative_path relative)"

definition inventory_ok :: "pack_inventory \<Rightarrow> bool" where
  "inventory_ok inventory \<longleftrightarrow> valid_utf8 (pi_text inventory) \<and> length (pi_text inventory) < 2 ^ 32 \<and> length (pi_assets inventory) < 2 ^ 32
     \<and> safe_span (pi_text inventory) (pi_apphost_template inventory)
     \<and> (\<forall>asset \<in> set (pi_assets inventory). safe_span (pi_text inventory) (ra_path asset))"

section \<open>Decoding\<close>

lemma length_span_bytes [simp]: "length (span_bytes span) = 8"
  by (simp add: span_bytes_def)

lemma span_eta: "\<lparr>sp_start = sp_start span, sp_len = sp_len span\<rparr> = (span :: tspan)"
  by simp

lemma read_span:
  "Option.bind (read_u32 bytes c) (\<lambda>(start, c). Option.bind (read_u32 bytes c) (\<lambda>(len, c). f start len c)) = Some r
   \<longleftrightarrow> (\<exists>span. span32 span \<and> c \<le> length bytes \<and> (\<exists>rest. drop c bytes = span_bytes span @ rest) \<and> f (sp_start span) (sp_len span) (c + 8) = Some r)"
  (is "?l \<longleftrightarrow> ?r")
proof
  assume ?l
  then obtain start c1 len c2 where 1: "read_u32 bytes c = Some (start, c1)" and 2: "read_u32 bytes c1 = Some (len, c2)" and f: "f start len c2 = Some r"
    by (auto simp: bind_eq_Some_conv)
  from 1 obtain rest1 where c1: "c1 = c + 4" "c \<le> length bytes" "start < 2 ^ 32" "drop c bytes = le_bytes 4 start @ rest1" by (auto simp: read_u32_Some)
  from 2 obtain rest2 where c2: "c2 = c1 + 4" "len < 2 ^ 32" "drop c1 bytes = le_bytes 4 len @ rest2" by (auto simp: read_u32_Some)
  have "drop c bytes = span_bytes \<lparr>sp_start = start, sp_len = len\<rparr> @ rest2"
    using drop_after [OF c1(4)] c1 c2 by (simp add: span_bytes_def)
  then show ?r using c1 c2 f by (intro exI [of _ "\<lparr>sp_start = start, sp_len = len\<rparr>"]) (auto simp: span32_def add.commute)
next
  assume ?r
  then obtain span rest where span: "span32 span" "c \<le> length bytes" "drop c bytes = span_bytes span @ rest" "f (sp_start span) (sp_len span) (c + 8) = Some r"
    by blast
  then have d1: "drop c bytes = le_bytes 4 (sp_start span) @ (le_bytes 4 (sp_len span) @ rest)" by (simp add: span_bytes_def)
  have 1: "read_u32 bytes c = Some (sp_start span, c + 4)" using span d1 by (auto simp: read_u32_Some span32_def)
  have "drop (c + 4) bytes = le_bytes 4 (sp_len span) @ rest" "c + 4 \<le> length bytes"
    using drop_after [OF d1] within [OF span(2) d1] by simp_all
  then have "read_u32 bytes (c + 4) = Some (sp_len span, c + 8)" using span by (auto simp: read_u32_Some span32_def)
  with 1 span(4) show ?l by simp
qed

lemma kind_byte: "(if b = CHR 0x00 then Some Managed else if b = CHR 0x01 then Some Native else None) = Some kind \<longleftrightarrow> b = asset_kind_byte kind"
  by (cases kind) auto

lemma length_encode_asset [simp]: "length (encode_asset asset) = 9"
  by (simp add: encode_asset_def span_bytes_def)

lemma decode_asset_Some:
  "decode_asset bytes table c = Some (asset, c') \<longleftrightarrow>
     c' = c + 9 \<and> safe_span table (ra_path asset) \<and> c \<le> length bytes \<and> (\<exists>rest. drop c bytes = encode_asset asset @ rest)"
  (is "?l \<longleftrightarrow> ?r")
proof
  assume ?l
  then have c: "c < length bytes" by (simp add: decode_asset_def split: if_splits)
  let ?kind = "if bytes ! c = CHR 0x00 then Some Managed else if bytes ! c = CHR 0x01 then Some Native else None"
  let ?path = "\<lambda>kind. Option.bind (read_u32 bytes (c + 1)) (\<lambda>(start, c). Option.bind (read_u32 bytes c) (\<lambda>(len, c).
      Option.bind (get_text table \<lparr>sp_start = start, sp_len = len\<rparr>) (\<lambda>relative.
        if is_safe_pack_relative_path relative then Some (\<lparr>ra_kind = kind, ra_path = \<lparr>sp_start = start, sp_len = len\<rparr>\<rparr>, c) else None)))"
  have "Option.bind ?kind ?path = Some (asset, c')" using \<open>?l\<close> c unfolding decode_asset_def Let_def by simp
  then obtain kind where "?kind = Some kind" and s: "?path kind = Some (asset, c')" unfolding bind_eq_Some_conv [of ?kind] by blast
  then have kind: "bytes ! c = asset_kind_byte kind" unfolding kind_byte by blast
  from s obtain span rest where span: "span32 span" "drop (c + 1) bytes = span_bytes span @ rest"
    and r: "Option.bind (get_text table \<lparr>sp_start = sp_start span, sp_len = sp_len span\<rparr>) (\<lambda>relative.
        if is_safe_pack_relative_path relative then Some (\<lparr>ra_kind = kind, ra_path = \<lparr>sp_start = sp_start span, sp_len = sp_len span\<rparr>\<rparr>, c + 1 + 8) else None)
      = Some (asset, c')"
    unfolding read_span by blast
  have asset: "asset = \<lparr>ra_kind = kind, ra_path = span\<rparr>" "c' = c + 9" "safe_span table span"
    using r span(1) unfolding span_eta by (auto simp: bind_eq_Some_conv safe_span_def split: if_splits)
  have "drop c bytes = bytes ! c # drop (c + 1) bytes" using c by (simp add: Cons_nth_drop_Suc)
  then show ?r using asset c kind span(2) by (auto simp: encode_asset_def)
next
  assume ?r
  then obtain rest where r: "c' = c + 9" "safe_span table (ra_path asset)" "drop c bytes = encode_asset asset @ rest" by blast
  have c: "c < length bytes" using r(3) by (metis append_is_Nil_conv drop_eq_Nil2 encode_asset_def list.distinct(1) not_le)
  have "drop c bytes = bytes ! c # drop (c + 1) bytes" using c by (simp add: Cons_nth_drop_Suc)
  then have b: "bytes ! c = asset_kind_byte (ra_kind asset)" "drop (c + 1) bytes = span_bytes (ra_path asset) @ rest"
    using r(3) by (simp_all add: encode_asset_def)
  obtain relative where relative: "get_text table (ra_path asset) = Some relative" "is_safe_pack_relative_path relative" "span32 (ra_path asset)"
    using r(2) by (auto simp: safe_span_def)
  have "Option.bind (read_u32 bytes (c + 1)) (\<lambda>(start, c). Option.bind (read_u32 bytes c) (\<lambda>(len, c).
      Option.bind (get_text table \<lparr>sp_start = start, sp_len = len\<rparr>) (\<lambda>relative.
        if is_safe_pack_relative_path relative then Some (\<lparr>ra_kind = ra_kind asset, ra_path = \<lparr>sp_start = start, sp_len = len\<rparr>\<rparr>, c) else None))) = Some (asset, c')"
    unfolding read_span using relative b(2) c r(1) by (intro exI [of _ "ra_path asset"]) (simp add: span_eta)
  moreover have "(if bytes ! c = CHR 0x00 then Some Managed else if bytes ! c = CHR 0x01 then Some Native else None) = Some (ra_kind asset)"
    unfolding kind_byte by (rule b(1))
  ultimately show ?l unfolding decode_asset_def Let_def using c by simp
qed

lemma decode_assets_Some:
  assumes "c \<le> length bytes"
  shows "decode_assets bytes table c n = Some assets \<longleftrightarrow> length assets = n \<and> (\<forall>asset \<in> set assets. safe_span table (ra_path asset))
    \<and> (\<exists>rest. drop c bytes = concat (map encode_asset assets) @ rest)"
  using assms
proof (induction n arbitrary: c assets)
  case (Suc n)
  show ?case (is "?l \<longleftrightarrow> ?r")
  proof
    assume ?l
    then obtain asset rest where asset: "decode_asset bytes table c = Some (asset, c + 9)" and rest: "decode_assets bytes table (c + 9) n = Some rest"
      and assets: "assets = asset # rest"
      by (auto simp: bind_eq_Some_conv decode_asset_Some)
    from asset obtain tail where a: "safe_span table (ra_path asset)" "drop c bytes = encode_asset asset @ tail" by (auto simp: decode_asset_Some)
    have c: "c + 9 \<le> length bytes" "drop (c + 9) bytes = tail" using within [OF Suc.prems a(2)] drop_after [OF a(2)] by simp_all
    show ?r using rest a assets c(2) unfolding Suc.IH [OF c(1)] by auto
  next
    assume ?r
    then obtain asset rest tail where assets: "assets = asset # rest" "length rest = n" and safe: "\<forall>asset \<in> set assets. safe_span table (ra_path asset)"
      and d: "drop c bytes = encode_asset asset @ (concat (map encode_asset rest) @ tail)"
      by (cases assets) auto
    have c: "c + 9 \<le> length bytes" "drop (c + 9) bytes = concat (map encode_asset rest) @ tail"
      using within [OF Suc.prems d] drop_after [OF d] by simp_all
    have "decode_asset bytes table c = Some (asset, c + 9)" using safe assets d Suc.prems by (auto simp: decode_asset_Some)
    moreover have "decode_assets bytes table (c + 9) n = Some rest" using safe assets c(2) unfolding Suc.IH [OF c(1)] by auto
    ultimately show ?l using assets by simp
  qed
qed auto

definition inventory_payload :: "pack_inventory \<Rightarrow> string" where
  "inventory_payload inventory = le_bytes 4 (length (pi_text inventory)) @ le_bytes 4 (length (pi_assets inventory))
     @ span_bytes (pi_apphost_template inventory) @ pi_text inventory @ concat (map encode_asset (pi_assets inventory))"

lemma length_assets [simp]: "length (concat (map encode_asset assets)) = length assets * 9"
  by (induction assets) simp_all

lemma read_number:
  "Option.bind (read_u32 bytes c) (\<lambda>(v, c). f v c) = Some r
   \<longleftrightarrow> (\<exists>v. v < 2 ^ 32 \<and> c \<le> length bytes \<and> (\<exists>rest. drop c bytes = le_bytes 4 v @ rest) \<and> f v (c + 4) = Some r)"
  using read_u32_Some [of bytes c] by (auto simp: bind_eq_Some_conv)

text \<open>What is read after the two lengths and the template.\<close>

definition decode_table :: "string \<Rightarrow> nat \<Rightarrow> nat \<Rightarrow> tspan \<Rightarrow> nat \<Rightarrow> pack_inventory option" where
  "decode_table bytes text_len asset_count template cursor =
     (let text_end = cursor + text_len in
     Option.bind (get_range bytes cursor text_end) (\<lambda>table.
     if \<not> valid_utf8 table then None
     else Option.bind (get_text table template) (\<lambda>relative.
       if \<not> is_safe_pack_relative_path relative then None
       else if text_end + asset_count * 9 \<noteq> length bytes then None
       else map_option (\<lambda>assets. \<lparr>pi_text = table, pi_assets = assets, pi_apphost_template = template\<rparr>)
         (decode_assets bytes table text_end asset_count))))"

lemma decode_table_Some:
  assumes "c \<le> length bytes" and "span32 template" "text_len < 2 ^ 32" "asset_count < 2 ^ 32"
  shows "decode_table bytes text_len asset_count template c = Some inventory \<longleftrightarrow>
    inventory_ok inventory \<and> length (pi_text inventory) = text_len \<and> length (pi_assets inventory) = asset_count
    \<and> pi_apphost_template inventory = template \<and> drop c bytes = pi_text inventory @ concat (map encode_asset (pi_assets inventory))"
  (is "?l \<longleftrightarrow> ?r")
proof
  assume ?l
  then obtain table relative assets where range: "get_range bytes c (c + text_len) = Some table" and utf8: "valid_utf8 table"
    and template: "get_text table template = Some relative" "is_safe_pack_relative_path relative"
    and len: "c + text_len + asset_count * 9 = length bytes" and assets: "decode_assets bytes table (c + text_len) asset_count = Some assets"
    and inv: "inventory = \<lparr>pi_text = table, pi_assets = assets, pi_apphost_template = template\<rparr>"
    unfolding decode_table_def Let_def by (auto simp: bind_eq_Some_conv split: if_splits)
  obtain rest where table: "length table = text_len" "drop c bytes = table @ rest" using range unfolding get_range_Some by blast
  have "drop (c + text_len) bytes = rest" "c + text_len \<le> length bytes" using drop_after [OF table(2)] within [OF assms(1) table(2)] table(1) by simp_all
  then obtain tail where a: "length assets = asset_count" "\<forall>asset \<in> set assets. safe_span table (ra_path asset)"
    "rest = concat (map encode_asset assets) @ tail"
    using assets decode_assets_Some by auto
  have "length bytes = c + text_len + asset_count * 9 + length tail"
    using arg_cong [OF table(2), of length] assms(1) table(1) a(1) unfolding a(3) length_append length_assets length_drop by linarith
  then have "tail = []" using len by simp
  then show ?r using utf8 template a table assms unfolding inv by (auto simp: inventory_ok_def safe_span_def)
next
  assume r: ?r
  let ?table = "pi_text inventory" and ?assets = "pi_assets inventory"
  have d: "drop c bytes = ?table @ (concat (map encode_asset ?assets))" using r by blast
  have range: "get_range bytes c (c + text_len) = Some ?table" using r assms(1) by (auto simp: get_range_Some)
  have next_part: "drop (c + text_len) bytes = concat (map encode_asset ?assets) @ []" "c + text_len \<le> length bytes"
    using drop_after [OF d] within [OF assms(1) d] r by simp_all
  have assets: "decode_assets bytes ?table (c + text_len) asset_count = Some ?assets"
    unfolding decode_assets_Some [OF next_part(2)] using r next_part(1) by (auto simp: inventory_ok_def)
  have len: "c + text_len + asset_count * 9 = length bytes"
    using arg_cong [OF d, of length] assms(1) r unfolding length_append length_assets length_drop by linarith
  obtain relative where "get_text ?table template = Some relative" "is_safe_pack_relative_path relative" using r by (auto simp: inventory_ok_def safe_span_def)
  then show ?l using r range assets len unfolding decode_table_def Let_def by (cases inventory) (auto simp: inventory_ok_def)
qed

lemma decode_payload_Some:
  assumes "c \<le> length bytes"
  shows "decode_payload bytes c = Some inventory \<longleftrightarrow> inventory_ok inventory \<and> drop c bytes = inventory_payload inventory"
  (is "?l \<longleftrightarrow> ?r")
proof
  assume ?l
  then have "Option.bind (read_u32 bytes c) (\<lambda>(text_len, c). Option.bind (read_u32 bytes c) (\<lambda>(asset_count, c).
      Option.bind (read_u32 bytes c) (\<lambda>(start, c). Option.bind (read_u32 bytes c) (\<lambda>(len, c).
        decode_table bytes text_len asset_count \<lparr>sp_start = start, sp_len = len\<rparr> c)))) = Some inventory"
    unfolding decode_payload_def decode_table_def Let_def .
  then obtain text_len asset_count template r1 r2 r3 where n: "text_len < 2 ^ 32" "asset_count < 2 ^ 32" "span32 template"
    and d: "drop c bytes = le_bytes 4 text_len @ r1" "drop (c + 4) bytes = le_bytes 4 asset_count @ r2" "drop (c + 4 + 4) bytes = span_bytes template @ r3"
    and c: "c + 4 + 4 \<le> length bytes"
    and t: "decode_table bytes text_len asset_count template (c + 4 + 4 + 8) = Some inventory"
    unfolding read_number [of bytes c] read_number [of bytes "c + 4"] read_span [of bytes "c + 4 + 4"] span_eta by blast
  have "c + 4 + 4 + 8 \<le> length bytes" using within [OF c d(3)] by (simp add: span_bytes_def)
  note t' = t [unfolded decode_table_Some [OF this n(3,1,2)]]
  have "r1 = le_bytes 4 asset_count @ r2" "r2 = span_bytes template @ r3" "drop (c + 4 + 4 + 8) bytes = r3"
    using drop_after [OF d(1)] drop_after [OF d(2)] drop_after [OF d(3)] d by (simp_all add: span_bytes_def)
  then show ?r using d t' by (simp add: inventory_payload_def)
next
  assume r: ?r
  let ?text_len = "length (pi_text inventory)" and ?count = "length (pi_assets inventory)" and ?template = "pi_apphost_template inventory"
  let ?tail = "pi_text inventory @ concat (map encode_asset (pi_assets inventory))"
  have n: "?text_len < 2 ^ 32" "?count < 2 ^ 32" "span32 ?template" using r by (auto simp: inventory_ok_def safe_span_def)
  have d1: "drop c bytes = le_bytes 4 ?text_len @ (le_bytes 4 ?count @ span_bytes ?template @ ?tail)" using r by (simp add: inventory_payload_def)
  have c1: "c + 4 \<le> length bytes" using within [OF assms d1] by simp
  have d2: "drop (c + 4) bytes = le_bytes 4 ?count @ (span_bytes ?template @ ?tail)" using drop_after [OF d1] by simp
  have c2: "c + 4 + 4 \<le> length bytes" using within [OF c1 d2] by simp
  have d3: "drop (c + 4 + 4) bytes = span_bytes ?template @ ?tail" using drop_after [OF d2] by simp
  have c3: "c + 4 + 4 + 8 \<le> length bytes" using within [OF c2 d3] by simp
  have d4: "drop (c + 4 + 4 + 8) bytes = ?tail" using drop_after [OF d3] by simp
  have "decode_table bytes ?text_len ?count ?template (c + 4 + 4 + 8) = Some inventory"
    unfolding decode_table_Some [OF c3 n(3,1,2)] using r d4 by simp
  then have "Option.bind (read_u32 bytes c) (\<lambda>(text_len, c). Option.bind (read_u32 bytes c) (\<lambda>(asset_count, c).
      Option.bind (read_u32 bytes c) (\<lambda>(start, c). Option.bind (read_u32 bytes c) (\<lambda>(len, c).
        decode_table bytes text_len asset_count \<lparr>sp_start = start, sp_len = len\<rparr> c)))) = Some inventory"
    unfolding read_number [of bytes c] read_number [of bytes "c + 4"] read_span [of bytes "c + 4 + 4"] span_eta
    using n assms c1 c2 d1 d2 d3 by blast
  then show ?l unfolding decode_payload_def decode_table_def Let_def .
qed

section \<open>The whole encoding\<close>

lemma length_magic [simp]: "length PACK_INVENTORY_MAGIC = 8"
  by (simp add: PACK_INVENTORY_MAGIC_def)

lemma sizes: "PACK_FINGERPRINT_BYTES = 64" "PACK_CHECKSUM_BYTES = 64" "CACHE_PAYLOAD_OFFSET = 140" "CACHE_HEADER_BYTES = 156" "PACK_INVENTORY_SCHEMA = 2"
  by (simp_all add: PACK_FINGERPRINT_BYTES_def PACK_CHECKSUM_BYTES_def CACHE_PAYLOAD_OFFSET_def CACHE_HEADER_BYTES_def PACK_INVENTORY_SCHEMA_def)

definition encoded :: "(string \<Rightarrow> string) \<Rightarrow> string \<Rightarrow> pack_inventory \<Rightarrow> string" where
  "encoded sha512 fingerprint inventory =
     PACK_INVENTORY_MAGIC @ le_bytes 4 2 @ fingerprint @ sha512 (inventory_payload inventory) @ inventory_payload inventory"

lemma encode_encoded:
  assumes "length fingerprint = 64"
  shows "encode_pack_inventory sha512 fingerprint inventory =
    (if 2 ^ 32 \<le> length (pi_text inventory) \<or> 2 ^ 32 \<le> length (pi_assets inventory) then None else Some (encoded sha512 fingerprint inventory))"
proof -
  let ?bytes = "PACK_INVENTORY_MAGIC @ le_bytes 4 2 @ fingerprint @ replicate 64 (CHR 0x00) @ inventory_payload inventory"
  have "drop 140 ?bytes = inventory_payload inventory" "take (140 - 64) ?bytes = PACK_INVENTORY_MAGIC @ le_bytes 4 2 @ fingerprint" using assms by simp_all
  then show ?thesis unfolding encode_pack_inventory_def Let_def sizes inventory_payload_def [symmetric] encoded_def by simp
qed

lemma get_chunk: "get_range bytes c (c + length x) = Some x \<longleftrightarrow> c \<le> length bytes \<and> (\<exists>rest. drop c bytes = x @ rest)"
  by (auto simp: get_range_Some)

lemma decode_inventory_Some:
  assumes "length fingerprint = 64" and "\<forall>x. length (sha512 x) = 64"
  shows "decode_pack_inventory sha512 bytes fingerprint = Some inventory
    \<longleftrightarrow> inventory_ok inventory \<and> encode_pack_inventory sha512 fingerprint inventory = Some bytes"
  (is "?l \<longleftrightarrow> ?r")
proof
  assume l: ?l
  then have magic: "get_range bytes 0 (0 + length PACK_INVENTORY_MAGIC) = Some PACK_INVENTORY_MAGIC"
    by (simp add: decode_pack_inventory_def split: if_splits)
  then obtain r0 where r0: "bytes = PACK_INVENTORY_MAGIC @ r0" unfolding get_chunk by auto
  have l1: "Option.bind (read_u32 bytes 8) (\<lambda>(schema, c). if schema \<noteq> 2 then None
      else if get_range bytes c (c + 64) \<noteq> Some fingerprint then None
      else Option.bind (get_range bytes (c + 64) (c + 64 + 64)) (\<lambda>checksum.
        if sha512 (drop (c + 64 + 64) bytes) \<noteq> checksum then None else decode_payload bytes (c + 64 + 64))) = Some inventory"
    using l unfolding decode_pack_inventory_def sizes Let_def length_magic by (simp only: if_False option.distinct split: if_split_asm)
  from l1 obtain r1 checksum where r1: "drop 8 bytes = le_bytes 4 2 @ r1" and fp: "get_range bytes (8 + 4) (8 + 4 + length fingerprint) = Some fingerprint"
    and sum: "get_range bytes (8 + 4 + 64) (8 + 4 + 64 + 64) = Some checksum" "sha512 (drop (8 + 4 + 64 + 64) bytes) = checksum"
    and pay: "decode_payload bytes (8 + 4 + 64 + 64) = Some inventory"
    unfolding read_number [of bytes 8] using assms(1) by (auto simp: bind_eq_Some_conv split: if_splits)
  obtain r2 where r2: "drop (8 + 4) bytes = fingerprint @ r2" using fp unfolding get_chunk by blast
  obtain r3 where r3: "drop (8 + 4 + 64) bytes = checksum @ r3" "length checksum = 64" "8 + 4 + 64 \<le> length bytes" using sum(1) unfolding get_range_Some by blast
  have "8 + 4 + 64 + 64 \<le> length bytes" using within [OF r3(3) r3(1)] r3(2) by simp
  note p = pay [unfolded decode_payload_Some [OF this]]
  have "r0 = le_bytes 4 2 @ r1" using r0 r1 by simp
  moreover have "r1 = fingerprint @ r2" using drop_after [OF r1] r2 by simp
  moreover have "r2 = checksum @ r3" using drop_after [OF r2] r3(1) assms(1) by simp
  moreover have "r3 = inventory_payload inventory" using drop_after [OF r3(1)] r3(2) p by simp
  ultimately have "bytes = encoded sha512 fingerprint inventory" using r0 sum(2) p by (simp add: encoded_def)
  then show ?r using p by (simp add: encode_encoded [OF assms(1)] inventory_ok_def)
next
  assume r: ?r
  then have ok: "inventory_ok inventory" and bytes: "bytes = encoded sha512 fingerprint inventory"
    by (simp_all add: encode_encoded [OF assms(1)] split: if_splits)
  let ?p = "inventory_payload inventory"
  have len: "length bytes = 140 + length ?p" and header: "16 \<le> length ?p" using assms by (simp_all add: bytes encoded_def inventory_payload_def)
  have d0: "drop 0 bytes = PACK_INVENTORY_MAGIC @ (le_bytes 4 2 @ fingerprint @ sha512 ?p @ ?p)" by (simp add: bytes encoded_def)
  have d1: "drop 8 bytes = le_bytes 4 2 @ (fingerprint @ sha512 ?p @ ?p)" using drop_after [OF d0] by simp
  have d2: "drop (8 + 4) bytes = fingerprint @ (sha512 ?p @ ?p)" using drop_after [OF d1] by simp
  have d3: "drop (8 + 4 + 64) bytes = sha512 ?p @ ?p" using drop_after [OF d2] assms(1) by simp
  have d4: "drop (8 + 4 + 64 + 64) bytes = ?p" using drop_after [OF d3] assms(2) by simp
  have magic: "get_range bytes 0 8 = Some PACK_INVENTORY_MAGIC" by (simp add: bytes encoded_def get_range_def)
  have schema: "read_u32 bytes 8 = Some (2, 8 + 4)" using d1 len by (auto simp: read_u32_Some)
  have fp: "get_range bytes (8 + 4) (8 + 4 + 64) = Some fingerprint" unfolding get_range_Some using d2 len assms(1) by auto
  have sum: "get_range bytes (8 + 4 + 64) (8 + 4 + 64 + 64) = Some (sha512 ?p)" unfolding get_range_Some using d3 len assms(2) by auto
  have pay: "decode_payload bytes (8 + 4 + 64 + 64) = Some inventory" using decode_payload_Some [of "8 + 4 + 64 + 64" bytes inventory] d4 len ok by simp
  show ?l
    unfolding decode_pack_inventory_def sizes Let_def length_magic magic schema Option.bind.bind_lunit prod.case fp sum d4 pay using len header by simp
qed

text \<open>C15: The encoding of a pack inventory is canonical. Whatever bytes a cache file holds, they decode only
  when they are the encoding of a well-formed inventory under the expected fingerprint, and then to
  exactly that inventory: every path is a non-empty sequence of plain names below the pack and lies in
  the text between characters. Conversely every well-formed inventory is encoded without a panic to
  bytes that decode to it.\<close>
theorem pack_inventory_codec:
  assumes "length fingerprint = 64" and "\<forall>x. length (sha512 x) = 64"
  shows "decode_pack_inventory sha512 bytes fingerprint = Some inventory
    \<longleftrightarrow> inventory_ok inventory \<and> encode_pack_inventory sha512 fingerprint inventory = Some bytes"
  using decode_inventory_Some [OF assms] .

text \<open>A pack with one managed and one native file.\<close>

definition example_inventory :: pack_inventory where
  "example_inventory = \<lparr>pi_text = ''a/b.dllc.soapphost'',
     pi_assets = [\<lparr>ra_kind = Managed, ra_path = \<lparr>sp_start = 0, sp_len = 7\<rparr>\<rparr>, \<lparr>ra_kind = Native, ra_path = \<lparr>sp_start = 7, sp_len = 4\<rparr>\<rparr>],
     pi_apphost_template = \<lparr>sp_start = 11, sp_len = 7\<rparr>\<rparr>"

lemma example_inventory_ok: "inventory_ok example_inventory"
proof -
  have "safe_span (pi_text example_inventory) \<lparr>sp_start = 0, sp_len = 7\<rparr>" "safe_span (pi_text example_inventory) \<lparr>sp_start = 7, sp_len = 4\<rparr>"
    "safe_span (pi_text example_inventory) \<lparr>sp_start = 11, sp_len = 7\<rparr>"
    by (simp_all add: safe_span_def span32_def example_inventory_def get_text_def get_range_def char_boundary_def is_safe_pack_relative_path_def
        path_of_text_def path_component_of_def str_eval)
  moreover have "valid_utf8 (pi_text example_inventory)"
    by (simp add: example_inventory_def valid_utf8_def utf8_run.simps(2) utf8_follow_def)
  ultimately show ?thesis by (simp add: inventory_ok_def) (simp add: example_inventory_def)
qed

lemma pack_inventory_codec_witness:
  "\<exists>bytes. encode_pack_inventory (\<lambda>_. replicate 64 CHR ''h'') (replicate 64 CHR ''f'') example_inventory = Some bytes
    \<and> decode_pack_inventory (\<lambda>_. replicate 64 CHR ''h'') bytes (replicate 64 CHR ''f'') = Some example_inventory"
proof -
  have fp: "length (replicate 64 CHR ''f'') = 64" and sha: "\<forall>x :: string. length ((\<lambda>_. replicate 64 CHR ''h'') x) = 64" by simp_all
  obtain bytes where "encode_pack_inventory (\<lambda>_. replicate 64 CHR ''h'') (replicate 64 CHR ''f'') example_inventory = Some bytes"
    using example_inventory_ok by (simp add: encode_encoded [OF fp] inventory_ok_def)
  with pack_inventory_codec [OF fp sha] example_inventory_ok show ?thesis by blast
qed

end
