(* ===== verification/Runtime_Packs.thy ===== *)
theory Runtime_Packs
  imports Pack_Codec Runtime_Graph
begin

text \<open>
  \<open>crates/dv-core/src/runtime_pack.rs\<close>: choosing the runtime pack and the host pack of a project from the
  manifest and the identifier graph of the SDK, finding them, reading what the runtime pack holds
  through the cache of inventories, and packing the plan.
\<close>

section \<open>Errors and surroundings\<close>

datatype runtime_pack_error_kind =
  PackIo | PackInvalidManifest | RuntimeRequired | UnsupportedRuntime | PackNotFound | MissingAsset | PackConfiguration
| PackNonUnicodePath | PackTextOverflow

record ('p, 'io) runtime_pack_error =
  px_kind :: runtime_pack_error_kind
  px_path :: 'p
  px_message :: "'io plan_message"
  px_requirement :: "pack_requirement option"

text \<open>The error is \<open>None\<close> where the code panics.\<close>

type_synonym ('p, 'io, 'a) packed = "('p, 'io) runtime_pack_error option + 'a"

definition pack_error :: "runtime_pack_error_kind \<Rightarrow> 'p \<Rightarrow> string \<Rightarrow> string list \<Rightarrow> ('p, 'io) runtime_pack_error option" where
  "pack_error kind path template args = Some \<lparr>px_kind = kind, px_path = path, px_message = PlanText template args, px_requirement = None\<rparr>"

definition pack_error_requiring :: "pack_requirement \<Rightarrow> ('p, 'io) runtime_pack_error option \<Rightarrow> ('p, 'io) runtime_pack_error option" where
  "pack_error_requiring requirement e = map_option (\<lambda>x. x\<lparr>px_requirement := Some requirement\<rparr>) e"

definition pack_manifest_error :: "'p \<Rightarrow> string \<Rightarrow> string list \<Rightarrow> ('p, 'io) runtime_pack_error option" where
  "pack_manifest_error path template args = pack_error PackInvalidManifest path template args"

text \<open>A file's metadata: its length, the time of its last change after the epoch in seconds and
  nanoseconds when there is one, whether it is a directory and whether it is a file.\<close>

record file_metadata =
  fm_len :: nat
  fm_modified :: "(nat \<times> nat) option"
  fm_is_dir :: bool
  fm_is_file :: bool

record ('p, 'io) runtime_world =
  rw_pack :: "('p, 'io) pack_world"
  rw_metadata :: "'p \<Rightarrow> file_metadata option"
  rw_strip_prefix :: "'p \<Rightarrow> 'p \<Rightarrow> 'p option"
  rw_sha512 :: "string \<Rightarrow> string"
  rw_from_json :: "string \<Rightarrow> string + graph_document"
  rw_graph_error :: "('p, 'io) graph_error \<Rightarrow> string"

definition rw_machine :: "('p, 'io) runtime_world \<Rightarrow> ('p, 'io) machine" where
  "rw_machine w = pw_machine (rw_pack w)"

definition rw_join :: "('p, 'io) runtime_world \<Rightarrow> 'p \<Rightarrow> string \<Rightarrow> 'p" where
  "rw_join w = machine.path_join (rw_machine w)"

definition rw_text :: "('p, 'io) runtime_world \<Rightarrow> 'p \<Rightarrow> string" where
  "rw_text w = machine.path_text (rw_machine w)"

definition rw_is_file :: "('p, 'io) runtime_world \<Rightarrow> 'p \<Rightarrow> bool" where
  "rw_is_file w = machine.is_file (rw_machine w)"

definition pack_io_error :: "('p, 'io) runtime_world \<Rightarrow> string \<Rightarrow> 'p \<Rightarrow> 'io \<Rightarrow> ('p, 'io) runtime_pack_error option" where
  "pack_io_error w operation path e =
     Some \<lparr>px_kind = PackIo, px_path = path, px_message = PlanIo operation (rw_text w path) e, px_requirement = None\<rparr>"

section \<open>The manifest of the SDK\<close>

record pack_definitions =
  pd_runtime_pattern :: string
  pd_default_runtime_version :: string
  pd_runtime_version :: string
  pd_runtime_identifiers :: string
  pd_host_pattern :: string
  pd_host_version :: string
  pd_host_identifiers :: string

definition pack_attribute :: "'p \<Rightarrow> xml_element \<Rightarrow> string \<Rightarrow> ('p, 'io, string option) packed" where
  "pack_attribute path element name =
     map_error (\<lambda>e. case e of
         Inl syntax \<Rightarrow> pack_manifest_error path ''invalid manifest attribute: {error}'' [syntax]
       | Inr decode \<Rightarrow> pack_manifest_error path ''invalid manifest attribute value: {error}'' [decode])
       (find_attribute name (xe_attributes element))"

definition required_pack_attribute :: "'p \<Rightarrow> xml_element \<Rightarrow> string \<Rightarrow> ('p, 'io, string) packed" where
  "required_pack_attribute path element name =
     rbind (pack_attribute path element name)
       (ok_or (pack_manifest_error path ''{} element requires {}'' [local_name (xe_name element), name]))"

definition event_element :: "string \<Rightarrow> xml_event \<Rightarrow> xml_element option" where
  "event_element name event = (case event of
       StartTag e \<Rightarrow> if local_name (xe_name e) = name then Some e else None
     | EmptyTag e \<Rightarrow> if local_name (xe_name e) = name then Some e else None
     | _ \<Rightarrow> None)"

text \<open>\<open>Include\<close> and \<open>TargetFramework\<close>: the second is read only when the first is the core framework.\<close>

definition concerns_core :: "'p \<Rightarrow> string \<Rightarrow> xml_element \<Rightarrow> ('p, 'io, bool) packed" where
  "concerns_core path target_framework element =
     rbind (pack_attribute path element ''Include'') (\<lambda>name.
       if name \<noteq> Some IMPLICIT_FRAMEWORK_REFERENCE then Inr False
       else rbind (pack_attribute path element ''TargetFramework'') (\<lambda>target. Inr (target = Some target_framework)))"

definition read_runtime_definition :: "'p \<Rightarrow> xml_element \<Rightarrow> ('p, 'io, string \<times> string \<times> string \<times> string) packed" where
  "read_runtime_definition path element =
     rbind (required_pack_attribute path element ''RuntimePackNamePatterns'') (\<lambda>pattern.
     rbind (required_pack_attribute path element ''DefaultRuntimeFrameworkVersion'') (\<lambda>default_version.
     rbind (required_pack_attribute path element ''LatestRuntimeFrameworkVersion'') (\<lambda>version.
     rbind (required_pack_attribute path element ''RuntimePackRuntimeIdentifiers'') (\<lambda>identifiers.
       Inr (pattern, default_version, version, identifiers)))))"

definition read_host_definition :: "'p \<Rightarrow> xml_element \<Rightarrow> ('p, 'io, string \<times> string \<times> string) packed" where
  "read_host_definition path element =
     rbind (required_pack_attribute path element ''AppHostPackNamePattern'') (\<lambda>pattern.
     rbind (required_pack_attribute path element ''AppHostPackVersion'') (\<lambda>version.
     rbind (required_pack_attribute path element ''AppHostRuntimeIdentifiers'') (\<lambda>identifiers.
       Inr (pattern, version, identifiers))))"

type_synonym found_definitions = "(string \<times> string \<times> string \<times> string) option \<times> (string \<times> string \<times> string) option"

definition read_pack_event :: "'p \<Rightarrow> string \<Rightarrow> found_definitions \<Rightarrow> xml_event \<Rightarrow> ('p, 'io, found_definitions) packed" where
  "read_pack_event path target_framework found event =
     (let (runtime, host) = found in
      case event_element ''KnownFrameworkReference'' event of
        Some element \<Rightarrow>
          rbind (concerns_core path target_framework element) (\<lambda>concerned.
            if \<not> concerned then Inr found
            else if runtime \<noteq> None
            then Inl (pack_manifest_error path ''multiple Microsoft.NETCore.App runtime definitions match {target_framework}'' [target_framework])
            else rbind (read_runtime_definition path element) (\<lambda>row. Inr (Some row, host)))
      | None \<Rightarrow> (case event_element ''KnownAppHostPack'' event of
          Some element \<Rightarrow>
            rbind (concerns_core path target_framework element) (\<lambda>concerned.
              if \<not> concerned then Inr found
              else if host \<noteq> None
              then Inl (pack_manifest_error path ''multiple Microsoft.NETCore.App host definitions match {target_framework}'' [target_framework])
              else rbind (read_host_definition path element) (\<lambda>row. Inr (runtime, Some row)))
        | None \<Rightarrow> Inr found))"

definition step_pack_event :: "'p \<Rightarrow> string \<Rightarrow> found_definitions \<Rightarrow> string + xml_event \<Rightarrow> ('p, 'io, found_definitions) packed" where
  "step_pack_event path target_framework found event =
     (case event of
        Inl e \<Rightarrow> Inl (pack_manifest_error path ''invalid SDK pack manifest XML: {error}'' [e])
      | Inr event \<Rightarrow> read_pack_event path target_framework found event)"

definition read_pack_definitions :: "('p, 'io) runtime_world \<Rightarrow> 'p \<Rightarrow> string \<Rightarrow> ('p, 'io, pack_definitions) packed" where
  "read_pack_definitions w path target_framework =
     rbind (map_error (pack_io_error w ''read SDK pack manifest'' path) (read_file (rw_machine w) path)) (\<lambda>bytes.
     rbind (try_fold (step_pack_event path target_framework) (None, None) (pw_xml (rw_pack w) bytes)) (\<lambda>(runtime, host).
     rbind (ok_or (pack_manifest_error path ''SDK pack manifest has no Microsoft.NETCore.App runtime definition for {target_framework}'' [target_framework]) runtime)
       (\<lambda>(pattern, default_version, version, identifiers).
     rbind (ok_or (pack_manifest_error path ''SDK pack manifest has no Microsoft.NETCore.App host definition for {target_framework}'' [target_framework]) host)
       (\<lambda>(host_pattern, host_version, host_identifiers).
       Inr \<lparr>pd_runtime_pattern = pattern, pd_default_runtime_version = default_version, pd_runtime_version = version,
         pd_runtime_identifiers = identifiers, pd_host_pattern = host_pattern, pd_host_version = host_version,
         pd_host_identifiers = host_identifiers\<rparr>))))"

definition selected_runtime_pack_version :: "project_spec \<Rightarrow> pack_definitions \<Rightarrow> string" where
  "selected_runtime_pack_version project definitions =
     (case Option.bind (explicit_core project) (framework_runtime_version project) of
        Some version \<Rightarrow> version
      | None \<Rightarrow> (case runtime_framework_version project of
          Some version \<Rightarrow> version
        | None \<Rightarrow>
            (case (case Option.bind (explicit_core project) fr_target_latest_runtime_patch of
                Some b \<Rightarrow> Some b | None \<Rightarrow> ps_target_latest_runtime_patch project) of
               Some False \<Rightarrow> pd_default_runtime_version definitions
             | _ \<Rightarrow> pd_runtime_version definitions)))"

section \<open>Identifiers and packs\<close>

definition RID_PLACEHOLDER :: string where
  "RID_PLACEHOLDER = ''**RID**''"

text \<open>\<open>str::split_once\<close> with a text.\<close>

fun split_once_str :: "string \<Rightarrow> string \<Rightarrow> (string \<times> string) option" where
  "split_once_str sep [] = (if sep = [] then Some ([], []) else None)"
| "split_once_str sep (c # s) =
     (case strip_prefix sep (c # s) of
        Some rest \<Rightarrow> Some ([], rest)
      | None \<Rightarrow> map_option (\<lambda>(a, b). (c # a, b)) (split_once_str sep s))"

definition expand_pack_pattern :: "string \<Rightarrow> string \<Rightarrow> 'p \<Rightarrow> string \<Rightarrow> ('p, 'io, string) packed" where
  "expand_pack_pattern pattern rid manifest label =
     (case split_once_str RID_PLACEHOLDER pattern of
        None \<Rightarrow> Inl (pack_manifest_error manifest ''{pack_kind} pattern {pattern:?} has no **RID** placeholder'' [label, pattern])
      | Some (before, after) \<Rightarrow>
          if contains_str RID_PLACEHOLDER after \<or> CHR '';'' \<in> set pattern
          then Inl (pack_manifest_error manifest ''{pack_kind} pattern {pattern:?} is not one supported pack pattern'' [label, pattern])
          else Inr (before @ rid @ after))"

record pack_selection =
  pl_label :: string
  pl_kind :: pack_kind
  pl_pattern :: string
  pl_version :: string
  pl_target_framework :: string

definition select_pack_runtime_identifier :: "'p runtime_graph \<Rightarrow> string \<Rightarrow> string \<Rightarrow> 'p \<Rightarrow> pack_selection \<Rightarrow> ('p, 'io, string) packed" where
  "select_pack_runtime_identifier graph requested supported manifest pack =
     rbind (ok_or None (compatible_rids graph requested)) (\<lambda>compatible.
     case List.find (\<lambda>candidate. candidate \<in> set (split_on CHR '';'' supported)) compatible of
       Some selected \<Rightarrow> Inr selected
     | None \<Rightarrow>
         rbind (expand_pack_pattern (pl_pattern pack) requested manifest (pl_label pack)) (\<lambda>identity.
           Inl (pack_error_requiring
             (new_pack_requirement (pl_kind pack) identity (Some (pl_version pack)) (pl_target_framework pack) (Some requested) ChooseRuntimeIdentifier)
             (pack_error UnsupportedRuntime manifest ''selected SDK provides no {} compatible with runtime identifier {requested:?}''
               [pl_label pack, requested]))))"

definition locate_pack :: "('p, 'io) runtime_world \<Rightarrow> 'p \<Rightarrow> 'p \<Rightarrow> string \<Rightarrow> string \<Rightarrow> pack_kind \<Rightarrow> string \<Rightarrow> string \<Rightarrow> ('p, 'io, 'p) packed" where
  "locate_pack w dotnet_root packages identity version kind target_framework requested =
     (let join = rw_join w; here = join (join (join dotnet_root ''packs'') identity) version;
          cached = join (join packages (to_lower identity)) (to_lower version)
      in case List.find (is_dir (rw_machine w)) [here, cached] of
           Some root \<Rightarrow> Inr root
         | None \<Rightarrow> Inl (pack_error_requiring
             (new_pack_requirement kind identity (Some version) target_framework (Some requested) RestorePackage)
             (pack_error PackNotFound cached ''required pack {package_id} {version} is not installed under {} or restored under {}''
               [identity, version, rw_text w here, rw_text w cached])))"

section \<open>The fingerprint\<close>

record 'p inventory_inputs =
  ii_sdk_path :: 'p
  ii_sdk_version :: string
  ii_sdk_manifest :: 'p
  ii_runtime_graph :: 'p
  ii_target_framework :: string
  ii_framework_version :: string
  ii_requested_runtime_identifier :: string
  ii_runtime_identifier :: string
  ii_runtime_pack_id :: string
  ii_runtime_pack_version :: string
  ii_runtime_pack_root :: 'p
  ii_runtime_manifest :: 'p
  ii_host_runtime_identifier :: string
  ii_host_pack_id :: string
  ii_host_pack_version :: string
  ii_host_pack_root :: 'p

definition hash_bytes :: "string \<Rightarrow> string" where
  "hash_bytes bytes = le_bytes 8 (length bytes) @ bytes"

definition hash_path :: "('p, 'io) runtime_world \<Rightarrow> 'p \<Rightarrow> string option" where
  "hash_path w path = map_option (\<lambda>s. le_bytes 8 (length s)
     @ map (\<lambda>b. if cfg_windows (rw_machine w) \<and> b = CHR 0x5C then CHR ''/'' else b) s) (pw_to_str (rw_pack w) path)"

definition hash_metadata_value :: "file_metadata \<Rightarrow> string option" where
  "hash_metadata_value metadata = map_option (\<lambda>(secs, nanos).
     le_bytes 8 (fm_len metadata) @ le_bytes 8 secs @ le_bytes 4 nanos @ [if fm_is_dir metadata then CHR 0x01 else CHR 0x00]) (fm_modified metadata)"

definition hash_metadata :: "('p, 'io) runtime_world \<Rightarrow> 'p \<Rightarrow> string option" where
  "hash_metadata w path = Option.bind (rw_metadata w path) hash_metadata_value"

fun hash_all :: "('a \<Rightarrow> string option) \<Rightarrow> 'a list \<Rightarrow> string option" where
  "hash_all f [] = Some []"
| "hash_all f (x # xs) = Option.bind (f x) (\<lambda>a. map_option (\<lambda>b. a @ b) (hash_all f xs))"

definition hash_completion :: "('p, 'io) runtime_world \<Rightarrow> 'p \<Rightarrow> string option" where
  "hash_completion w pack_root =
     (let completion = rw_join w pack_root ''.nupkg.metadata'' in
      case rw_metadata w completion of
        Some metadata \<Rightarrow>
          if fm_is_file metadata
          then Option.bind (hash_path w completion) (\<lambda>a. map_option (\<lambda>b. CHR 0x01 # a @ b) (hash_metadata_value metadata))
          else Some [CHR 0x00]
      | None \<Rightarrow> Some [CHR 0x00])"

definition fingerprint_bytes :: "('p, 'io) runtime_world \<Rightarrow> 'p inventory_inputs \<Rightarrow> string option" where
  "fingerprint_bytes w i =
     (let native = rw_join w (rw_join w (rw_join w (ii_host_pack_root i) ''runtimes'') (ii_host_runtime_identifier i)) ''native'';
        texts = concat (map hash_bytes [ii_sdk_version i, ii_target_framework i, ii_framework_version i, ii_requested_runtime_identifier i,
          ii_runtime_identifier i, ii_runtime_pack_id i, ii_runtime_pack_version i, ii_host_runtime_identifier i, ii_host_pack_id i,
          ii_host_pack_version i]) in
      Option.bind (hash_all (hash_path w) [ii_sdk_path i, ii_sdk_manifest i, ii_runtime_graph i, ii_runtime_pack_root i, ii_runtime_manifest i,
        ii_host_pack_root i]) (\<lambda>paths.
      Option.bind (hash_all (hash_metadata w) [ii_sdk_manifest i, ii_runtime_graph i, ii_runtime_manifest i]) (\<lambda>metadata.
      Option.bind (hash_path w native) (\<lambda>native_path.
      Option.bind (hash_metadata w native) (\<lambda>native_metadata.
      Option.bind (hash_all (hash_completion w) [ii_runtime_pack_root i, ii_host_pack_root i]) (\<lambda>completions.
        Some (PACK_INVENTORY_MAGIC @ le_bytes 4 PACK_INVENTORY_SCHEMA @ texts @ paths @ metadata @ native_path @ native_metadata @ completions)))))))"

definition pack_inventory_fingerprint :: "('p, 'io) runtime_world \<Rightarrow> 'p inventory_inputs \<Rightarrow> string option" where
  "pack_inventory_fingerprint w i = map_option (rw_sha512 w) (fingerprint_bytes w i)"

definition hex_fingerprint :: "string \<Rightarrow> string" where
  "hex_fingerprint fingerprint = concat (map (\<lambda>c. let n = of_char c :: nat; digit = (\<lambda>d. ''0123456789abcdef'' ! d) in
     [digit (n div 16), digit (n mod 16)]) fingerprint)"

section \<open>Building an inventory\<close>

definition pack_text_overflow :: "('p, 'io) runtime_world \<Rightarrow> ('p, 'io) runtime_pack_error option" where
  "pack_text_overflow w = pack_error PackTextOverflow (path_of (rw_machine w) [])
     ''runtime-pack plan text exceeds the compact 32-bit index space'' []"

definition compact_len :: "('p, 'io) runtime_world \<Rightarrow> nat \<Rightarrow> string \<Rightarrow> ('p, 'io, nat) packed" where
  "compact_len w n meaning =
     (if n < 2 ^ 32 then Inr n
      else Inl (pack_error PackTextOverflow (path_of (rw_machine w) []) ''{meaning} exceeds the compact 32-bit index space'' [meaning]))"

definition push_pack :: "('p, 'io) runtime_world \<Rightarrow> string \<Rightarrow> string \<Rightarrow> ('p, 'io, string \<times> tspan) packed" where
  "push_pack w table s =
     rbind (compact_len w (length table) ''runtime-pack plan text'') (\<lambda>start.
     rbind (compact_len w (length s) ''runtime-pack plan value'') (\<lambda>len.
       if 2 ^ 32 \<le> start + len then Inl (pack_text_overflow w)
       else Inr (table @ s, \<lparr>sp_start = start, sp_len = len\<rparr>)))"

definition push_pack_path :: "('p, 'io) runtime_world \<Rightarrow> string \<Rightarrow> 'p \<Rightarrow> ('p, 'io, string \<times> tspan) packed" where
  "push_pack_path w table path =
     rbind (ok_or (pack_error PackNonUnicodePath path ''runtime-pack plan path {} is not valid Unicode'' [rw_text w path])
       (pw_to_str (rw_pack w) path)) (push_pack w table)"

definition join_relative_path :: "('p, 'io) runtime_world \<Rightarrow> 'p \<Rightarrow> string \<Rightarrow> 'p" where
  "join_relative_path w root relative =
     foldl (\<lambda>p c. case c of Normal name \<Rightarrow> rw_join w p name | _ \<Rightarrow> p) root (path_of_text relative)"

definition asset_kind_of :: "string \<Rightarrow> asset_kind option" where
  "asset_kind_of kind = (if kind = ''Managed'' then Some Managed else if kind = ''Native'' then Some Native else None)"

record build_state =
  bs_root_seen :: bool
  bs_assets :: "runtime_asset list"
  bs_text :: string

definition read_file_list :: "'p inventory_inputs \<Rightarrow> build_state \<Rightarrow> xml_element \<Rightarrow> ('p, 'io, build_state) packed" where
  "read_file_list i st element =
     (let path = ii_runtime_manifest i in
      if bs_root_seen st then Inl (pack_manifest_error path ''runtime-pack manifest contains multiple FileList roots'' [])
      else
      rbind (pack_attribute path element ''FrameworkName'') (\<lambda>name.
      rbind (pack_attribute path element ''TargetFrameworkVersion'') (\<lambda>version.
        if name \<noteq> Some IMPLICIT_FRAMEWORK_REFERENCE \<or> version \<noteq> Some (ii_framework_version i)
        then Inl (pack_manifest_error path ''runtime-pack manifest target does not match {}'' [ii_target_framework i])
        else Inr (st\<lparr>bs_root_seen := True\<rparr>))))"

definition read_file_row :: "('p, 'io) runtime_world \<Rightarrow> 'p inventory_inputs \<Rightarrow> build_state \<Rightarrow> xml_element \<Rightarrow> ('p, 'io, build_state) packed" where
  "read_file_row w i st element =
     (let path = ii_runtime_manifest i in
      if \<not> bs_root_seen st then Inl (pack_manifest_error path ''runtime asset appears before the FileList root'' [])
      else
      rbind (pack_attribute path element ''Type'') (\<lambda>kind.
      case Option.bind kind asset_kind_of of
        None \<Rightarrow> Inr st
      | Some kind \<Rightarrow>
          rbind (required_pack_attribute path element ''Path'') (\<lambda>relative.
          if \<not> is_safe_pack_relative_path relative
          then Inl (pack_manifest_error path ''runtime asset path escapes the selected pack'' [])
          else let asset = join_relative_path w (ii_runtime_pack_root i) relative in
            if \<not> rw_is_file w asset
            then Inl (pack_error MissingAsset asset ''runtime-pack asset {} is missing'' [rw_text w asset])
            else rbind (push_pack w (bs_text st) relative) (\<lambda>(table, span).
              Inr (st\<lparr>bs_text := table, bs_assets := bs_assets st @ [\<lparr>ra_kind = kind, ra_path = span\<rparr>]\<rparr>)))))"

definition read_inventory_event :: "('p, 'io) runtime_world \<Rightarrow> 'p inventory_inputs \<Rightarrow> build_state \<Rightarrow> string + xml_event \<Rightarrow>
    ('p, 'io, build_state) packed" where
  "read_inventory_event w i st event =
     (case event of
        Inl e \<Rightarrow> Inl (pack_manifest_error (ii_runtime_manifest i) ''invalid runtime-pack manifest XML: {error}'' [e])
      | Inr event \<Rightarrow>
          (case event_element ''FileList'' event of
             Some element \<Rightarrow> read_file_list i st element
           | None \<Rightarrow> (case event_element ''File'' event of
               Some element \<Rightarrow> read_file_row w i st element
             | None \<Rightarrow> Inr st)))"

definition find_apphost_template :: "('p, 'io) runtime_world \<Rightarrow> 'p \<Rightarrow> string \<Rightarrow> ('p, 'io, 'p) packed" where
  "find_apphost_template w pack_root rid =
     (let directory = rw_join w (rw_join w (rw_join w pack_root ''runtimes'') rid) ''native'' in
      case filter (rw_is_file w) [rw_join w directory ''apphost'', rw_join w directory ''apphost.exe''] of
        [] \<Rightarrow> Inl (pack_error MissingAsset directory ''host pack contains no apphost template in {}'' [rw_text w directory])
      | [template] \<Rightarrow> Inr template
      | _ \<Rightarrow> Inl (pack_error PackInvalidManifest directory ''host pack contains ambiguous apphost templates in {}'' [rw_text w directory]))"

definition build_pack_inventory :: "('p, 'io) runtime_world \<Rightarrow> 'p inventory_inputs \<Rightarrow> ('p, 'io, pack_inventory) packed" where
  "build_pack_inventory w i =
     (let path = ii_runtime_manifest i in
      rbind (map_error (pack_io_error w ''read runtime-pack manifest'' path) (read_file (rw_machine w) path)) (\<lambda>bytes.
      rbind (try_fold (read_inventory_event w i) \<lparr>bs_root_seen = False, bs_assets = [], bs_text = []\<rparr> (pw_xml (rw_pack w) bytes)) (\<lambda>st.
      if \<not> bs_root_seen st then Inl (pack_manifest_error path ''runtime-pack manifest has no FileList root'' [])
      else if \<not> list_ex (\<lambda>a. ra_kind a = Managed) (bs_assets st) \<or> \<not> list_ex (\<lambda>a. ra_kind a = Native) (bs_assets st)
      then Inl (pack_manifest_error path ''runtime-pack manifest must contain managed and native assets'' [])
      else
      rbind (compact_len w (length (bs_assets st)) ''runtime pack inventory'') (\<lambda>_.
      rbind (find_apphost_template w (ii_host_pack_root i) (ii_host_runtime_identifier i)) (\<lambda>apphost.
      rbind (ok_or (pack_manifest_error (ii_host_pack_root i) ''apphost template escapes the selected host pack'' [])
        (rw_strip_prefix w apphost (ii_host_pack_root i))) (\<lambda>relative.
      rbind (push_pack_path w (bs_text st) relative) (\<lambda>(table, template).
        Inr \<lparr>pi_text = table, pi_assets = bs_assets st, pi_apphost_template = template\<rparr>)))))))"

section \<open>The cache\<close>

text \<open>The cache directory: the readable files by name. What the operations on it return in one run is an
  argument: whether each succeeds, what a failed write leaves behind, the process and the counter in the
  name of the temporary file.\<close>

type_synonym cache_directory = "string \<Rightarrow> string option"

record cache_io =
  ci_create :: bool
  ci_write :: bool
  ci_partial :: "string option"
  ci_rename :: bool
  ci_remove_stale :: bool
  ci_remove_temporary :: bool
  ci_process :: nat
  ci_sequence :: nat

definition remove_cached :: "bool \<Rightarrow> cache_directory \<Rightarrow> string \<Rightarrow> cache_directory" where
  "remove_cached succeeds cache name = (if succeeds then cache(name := None) else cache)"

definition cache_name :: "string \<Rightarrow> string" where
  "cache_name fingerprint = hex_fingerprint fingerprint @ ''.bin''"

definition temporary_name :: "cache_io \<Rightarrow> string" where
  "temporary_name io = ''.pack-inventory-'' @ show_nat (ci_process io) @ ''-'' @ show_nat (ci_sequence io) @ ''.tmp''"

definition publish_pack_inventory :: "(string \<Rightarrow> string) \<Rightarrow> cache_io \<Rightarrow> cache_directory \<Rightarrow> string \<Rightarrow> pack_inventory \<Rightarrow>
    ('p, 'io, cache_directory) packed" where
  "publish_pack_inventory sha512 io cache fingerprint inventory =
     (let name = cache_name fingerprint; temporary = temporary_name io in
      if \<not> ci_create io \<or> cache name \<noteq> None then Inr cache
      else rbind (ok_or None (encode_pack_inventory sha512 fingerprint inventory)) (\<lambda>bytes. Inr
        (if \<not> ci_write io then remove_cached (ci_remove_temporary io) (cache(temporary := ci_partial io)) temporary
         else if ci_rename io then cache(temporary := None, name := Some bytes)
         else remove_cached (ci_remove_temporary io) (cache(temporary := Some bytes)) temporary)))"

definition cached_inventory :: "('p, 'io) runtime_world \<Rightarrow> 'p inventory_inputs \<Rightarrow> cache_directory \<Rightarrow> string \<Rightarrow> pack_inventory option" where
  "cached_inventory w i cache fingerprint =
     Option.bind (cache (cache_name fingerprint)) (\<lambda>bytes.
     Option.bind (decode_pack_inventory (rw_sha512 w) bytes fingerprint) (\<lambda>inventory.
       if rw_is_file w (join_relative_path w (ii_host_pack_root i) (apphost_relative_path inventory)) then Some inventory else None))"

definition load_or_build_pack_inventory :: "('p, 'io) runtime_world \<Rightarrow> cache_io \<Rightarrow> cache_directory \<Rightarrow> 'p inventory_inputs \<Rightarrow>
    ('p, 'io, pack_inventory \<times> bool) packed \<times> cache_directory" where
  "load_or_build_pack_inventory w io cache i =
     (case pack_inventory_fingerprint w i of
        None \<Rightarrow> (rbind (build_pack_inventory w i) (\<lambda>inventory. Inr (inventory, False)), cache)
      | Some fingerprint \<Rightarrow>
          (case cached_inventory w i cache fingerprint of
             Some inventory \<Rightarrow> (Inr (inventory, True), cache)
           | None \<Rightarrow>
               (let cache = (if cache (cache_name fingerprint) \<noteq> None
                    then remove_cached (ci_remove_stale io) cache (cache_name fingerprint) else cache) in
                case build_pack_inventory w i of
                  Inl e \<Rightarrow> (Inl e, cache)
                | Inr inventory \<Rightarrow>
                    (case publish_pack_inventory (rw_sha512 w) io cache fingerprint inventory of
                       Inl e \<Rightarrow> (Inl e, cache)
                     | Inr cache \<Rightarrow> (Inr (inventory, False), cache)))))"

section \<open>The plan\<close>

datatype 'p plan_entry = TextEntry string | PathEntry 'p | JoinedEntry 'p string

definition push_joined_path :: "('p, 'io) runtime_world \<Rightarrow> string \<Rightarrow> 'p \<Rightarrow> string \<Rightarrow> ('p, 'io, string \<times> tspan) packed" where
  "push_joined_path w table root relative =
     rbind (ok_or (pack_error PackNonUnicodePath root ''runtime-pack path {} is not valid Unicode'' [rw_text w root])
       (pw_to_str (rw_pack w) root)) (\<lambda>root_text.
     rbind (compact_len w (length table) ''runtime-pack plan text'') (\<lambda>start.
     let separator = (if cfg_windows (rw_machine w) then CHR 0x5C else CHR ''/'');
         added = root_text @ (if ends_with [separator] root_text then [] else [separator])
           @ (if cfg_windows (rw_machine w) then map (\<lambda>c. if c = CHR ''/'' \<or> c = CHR 0x5C then separator else c) relative else relative)
     in rbind (compact_len w (length added) ''runtime-pack plan value'') (\<lambda>len.
        Inr (table @ added, \<lparr>sp_start = start, sp_len = len\<rparr>))))"

definition push_entry :: "('p, 'io) runtime_world \<Rightarrow> string \<Rightarrow> 'p plan_entry \<Rightarrow> ('p, 'io, string \<times> tspan) packed" where
  "push_entry w table entry = (case entry of
       TextEntry s \<Rightarrow> push_pack w table s
     | PathEntry p \<Rightarrow> push_pack_path w table p
     | JoinedEntry root relative \<Rightarrow> push_joined_path w table root relative)"

fun push_entries :: "('p, 'io) runtime_world \<Rightarrow> string \<Rightarrow> 'p plan_entry list \<Rightarrow> ('p, 'io, string \<times> tspan list) packed" where
  "push_entries w table [] = Inr (table, [])"
| "push_entries w table (entry # rest) =
     rbind (push_entry w table entry) (\<lambda>(table, span).
     rbind (push_entries w table rest) (\<lambda>(table, spans). Inr (table, span # spans)))"

record runtime_pack_plan =
  rp_text :: string
  rp_assets :: "tspan list"
  rp_project :: tspan
  rp_sdk_version :: tspan
  rp_manifest :: tspan
  rp_target_framework :: tspan
  rp_requested_runtime_identifier :: tspan
  rp_runtime_identifier :: tspan
  rp_runtime_pack_id :: tspan
  rp_runtime_pack_version :: tspan
  rp_runtime_pack_root :: tspan
  rp_host_runtime_identifier :: tspan
  rp_host_pack_id :: tspan
  rp_host_pack_version :: tspan
  rp_host_pack_root :: tspan
  rp_apphost_template :: tspan
  rp_managed_assets :: index_range
  rp_native_assets :: index_range

definition plan_heads :: "('p, 'io) runtime_world \<Rightarrow> project_spec \<Rightarrow> 'p inventory_inputs \<Rightarrow> pack_inventory \<Rightarrow> 'p plan_entry list" where
  "plan_heads w project i inventory =
     [PathEntry (path_of (rw_machine w) (project_path project)), TextEntry (ii_sdk_version i), PathEntry (ii_sdk_manifest i),
      TextEntry (target_framework_name project), TextEntry (ii_requested_runtime_identifier i), TextEntry (ii_runtime_identifier i),
      TextEntry (ii_runtime_pack_id i), TextEntry (ii_runtime_pack_version i), PathEntry (ii_runtime_pack_root i),
      TextEntry (ii_host_runtime_identifier i), TextEntry (ii_host_pack_id i), TextEntry (ii_host_pack_version i),
      PathEntry (ii_host_pack_root i), JoinedEntry (ii_host_pack_root i) (apphost_relative_path inventory)]"

definition asset_entries :: "'p inventory_inputs \<Rightarrow> pack_inventory \<Rightarrow> asset_kind \<Rightarrow> 'p plan_entry list" where
  "asset_entries i inventory kind =
     map (\<lambda>a. JoinedEntry (ii_runtime_pack_root i) (asset_relative_path inventory a)) (filter (\<lambda>a. ra_kind a = kind) (pi_assets inventory))"

definition materialize_pack_plan :: "('p, 'io) runtime_world \<Rightarrow> project_spec \<Rightarrow> 'p inventory_inputs \<Rightarrow> pack_inventory \<Rightarrow>
    ('p, 'io, runtime_pack_plan) packed" where
  "materialize_pack_plan w project i inventory =
     rbind (push_entries w [] (plan_heads w project i inventory)) (\<lambda>(table, heads).
     rbind (push_entries w table (asset_entries i inventory Managed)) (\<lambda>(table, managed).
     rbind (compact_len w (length managed) ''runtime asset span batch'') (\<lambda>managed_end.
     rbind (push_entries w table (asset_entries i inventory Native)) (\<lambda>(table, native).
     rbind (compact_len w (length (managed @ native)) ''runtime asset span batch'') (\<lambda>native_end.
       Inr \<lparr>rp_text = table, rp_assets = managed @ native, rp_project = heads ! 0, rp_sdk_version = heads ! 1, rp_manifest = heads ! 2,
         rp_target_framework = heads ! 3, rp_requested_runtime_identifier = heads ! 4, rp_runtime_identifier = heads ! 5,
         rp_runtime_pack_id = heads ! 6, rp_runtime_pack_version = heads ! 7, rp_runtime_pack_root = heads ! 8,
         rp_host_runtime_identifier = heads ! 9, rp_host_pack_id = heads ! 10, rp_host_pack_version = heads ! 11,
         rp_host_pack_root = heads ! 12, rp_apphost_template = heads ! 13,
         rp_managed_assets = \<lparr>ir_start = 0, ir_len = managed_end\<rparr>,
         rp_native_assets = \<lparr>ir_start = managed_end, ir_len = native_end - managed_end\<rparr>\<rparr>)))))"

definition rp_get :: "runtime_pack_plan \<Rightarrow> tspan \<Rightarrow> string" where
  "rp_get plan span = span_text (rp_text plan) span"

definition rp_values :: "runtime_pack_plan \<Rightarrow> index_range \<Rightarrow> string list" where
  "rp_values plan rows = map (rp_get plan) (take (ir_len rows) (drop (ir_start rows) (rp_assets plan)))"

section \<open>Choosing the packs\<close>

definition PORTABLE_GRAPH_FILE :: string where
  "PORTABLE_GRAPH_FILE = ''PortableRuntimeIdentifierGraph.json''"

definition load_pack_graph :: "('p, 'io) runtime_world \<Rightarrow> 'p sdk_inventory \<Rightarrow> ('p, 'io, 'p runtime_graph) packed" where
  "load_pack_graph w inventory =
     map_error (\<lambda>failure. case failure of
         Panic \<Rightarrow> None
       | Err e \<Rightarrow> pack_error PackInvalidManifest (ge_path e) ''failed to load the selected SDK RID graph: {error}'' [rw_graph_error w e])
       (load_portable_runtime_graph (rw_machine w) (rw_from_json w) inventory)"

definition choose_packs :: "('p, 'io) runtime_world \<Rightarrow> 'p sdk_inventory \<Rightarrow> project_spec \<Rightarrow> ('p, 'io, 'p inventory_inputs \<times> 'p) packed" where
  "choose_packs w inventory project =
     (let selected = inv_selected inventory; sdk_root = inv_installation_path (rw_machine w) (inv_roots inventory) selected;
          manifest = rw_join w sdk_root BUNDLED_VERSIONS_FILE; target = target_framework_name project;
          dotnet_root = inv_root (inv_roots inventory) selected in
      rbind (ok_or (pack_error RuntimeRequired (path_of (rw_machine w) (project_path project))
        ''runtime-pack planning requires one selected RuntimeIdentifier'' []) (runtime_identifier project)) (\<lambda>requested.
      rbind (read_pack_definitions w manifest target) (\<lambda>definitions.
      let version = selected_runtime_pack_version project definitions in
      rbind (load_pack_graph w inventory) (\<lambda>graph.
      rbind (select_pack_runtime_identifier graph requested (pd_runtime_identifiers definitions) manifest
        \<lparr>pl_label = ''runtime pack'', pl_kind = Runtime, pl_pattern = pd_runtime_pattern definitions, pl_version = version,
          pl_target_framework = target\<rparr>) (\<lambda>rid.
      rbind (select_pack_runtime_identifier graph requested (pd_host_identifiers definitions) manifest
        \<lparr>pl_label = ''host pack'', pl_kind = Host, pl_pattern = pd_host_pattern definitions, pl_version = pd_host_version definitions,
          pl_target_framework = target\<rparr>) (\<lambda>host_rid.
      rbind (expand_pack_pattern (pd_runtime_pattern definitions) rid manifest ''runtime pack'') (\<lambda>pack.
      rbind (expand_pack_pattern (pd_host_pattern definitions) host_rid manifest ''host pack'') (\<lambda>host_pack.
      rbind (map_error (\<lambda>e. pack_error PackConfiguration (path_of (rw_machine w) (project_directory project))
          ''failed to resolve the global-packages directory: {error}'' [e]) (global_packages_directory (rw_pack w) (project_directory project))) (\<lambda>packages.
      rbind (locate_pack w dotnet_root packages pack version Runtime target requested) (\<lambda>pack_root.
      rbind (locate_pack w dotnet_root packages host_pack (pd_host_version definitions) Host target requested) (\<lambda>host_root.
        Inr (\<lparr>ii_sdk_path = sdk_root, ii_sdk_version = sv_text (si_version selected), ii_sdk_manifest = manifest,
          ii_runtime_graph = rw_join w sdk_root PORTABLE_GRAPH_FILE, ii_target_framework = target,
          ii_framework_version = framework_version (ps_target_framework project), ii_requested_runtime_identifier = requested,
          ii_runtime_identifier = rid, ii_runtime_pack_id = pack, ii_runtime_pack_version = version, ii_runtime_pack_root = pack_root,
          ii_runtime_manifest = rw_join w pack_root ''data/RuntimeList.xml'', ii_host_runtime_identifier = host_rid,
          ii_host_pack_id = host_pack, ii_host_pack_version = pd_host_version definitions, ii_host_pack_root = host_root\<rparr>, packages))))))))))))"

text \<open>The cache directory lies below the global packages; it is that of \<open>cache_of\<close>.\<close>

definition plan_runtime_packs :: "('p, 'io) runtime_world \<Rightarrow> cache_io \<Rightarrow> ('p \<Rightarrow> cache_directory) \<Rightarrow> 'p sdk_inventory \<Rightarrow> project_spec \<Rightarrow>
    ('p, 'io, runtime_pack_plan) packed \<times> ('p \<Rightarrow> cache_directory)" where
  "plan_runtime_packs w io cache_of inventory project =
     (case choose_packs w inventory project of
        Inl e \<Rightarrow> (Inl e, cache_of)
      | Inr (i, packages) \<Rightarrow>
          (let directory = rw_join w packages ''.dv/sdk-pack-inventories/v2'';
               (loaded, cache) = load_or_build_pack_inventory w io (cache_of directory) i
           in (rbind loaded (\<lambda>(content, _). materialize_pack_plan w project i content), cache_of(directory := cache))))"

end
