(* ===== verification/Framework_Facts.thy ===== *)
theory Framework_Facts
  imports Framework_Plan Packed_Text
begin

text \<open>
  The shared framework a project runs on is the one its roll-forward policy asks for, and the plan of
  a project reads back as the rows it was made of.
\<close>

section \<open>The order of runtime versions\<close>

interpretation runtime_ord: rust_ord runtime_cmp
  unfolding runtime_cmp_def [abs_def]
  by (intro rust_ord_then_with rust_ord_key rust_ord_on [of compare_prerelease fv_prerelease] rust_ord_compare_prerelease)

lemma runtime_cmp_Equal:
  "runtime_cmp a b = Equal \<longleftrightarrow> fv_major a = fv_major b \<and> fv_minor a = fv_minor b \<and> fv_patch a = fv_patch b \<and> fv_prerelease a = fv_prerelease b"
  by (simp add: runtime_cmp_def then_with_iff compare_prerelease_Equal)

lemma runtime_ge_refl: "runtime_cmp a b = Equal \<Longrightarrow> runtime_ge a b"
  by (simp add: runtime_ge_def)

section \<open>Policies\<close>

text \<open>Which installed versions a policy admits, and how it compares two of them.\<close>

definition runtime_admits :: "runtime_roll_forward \<Rightarrow> runtime_version \<Rightarrow> runtime_version \<Rightarrow> bool" where
  "runtime_admits policy requested v \<longleftrightarrow> (case policy of
       RollDisable \<Rightarrow> runtime_cmp v requested = Equal
     | RollLatestPatch \<Rightarrow> fv_major v = fv_major requested \<and> fv_minor v = fv_minor requested \<and> runtime_ge v requested
     | RollMinor \<Rightarrow> fv_major v = fv_major requested \<and> runtime_ge v requested
     | RollLatestMinor \<Rightarrow> fv_major v = fv_major requested \<and> runtime_ge v requested
     | RollMajor \<Rightarrow> runtime_ge v requested
     | RollLatestMajor \<Rightarrow> runtime_ge v requested)"

definition runtime_prefers :: "runtime_roll_forward \<Rightarrow> runtime_version \<Rightarrow> runtime_version \<Rightarrow> bool" where
  "runtime_prefers policy a b \<longleftrightarrow>
     (if policy \<in> {RollMinor, RollMajor} \<and> runtime_band a \<noteq> runtime_band b then runtime_band a < runtime_band b else runtime_ge a b)"

definition best_of :: "('v \<Rightarrow> 'v \<Rightarrow> bool) \<Rightarrow> 'v list \<Rightarrow> 'v option \<Rightarrow> bool" where
  "best_of better pool r \<longleftrightarrow> (case r of None \<Rightarrow> pool = [] | Some v \<Rightarrow> v \<in> set pool \<and> (\<forall>x \<in> set pool. better v x))"

lemma best_of_max: "best_of runtime_ge pool (max_by runtime_cmp pool)"
  using max_by_in [of runtime_cmp pool] runtime_ord.max_by_upper [of pool]
  by (auto simp: best_of_def runtime_ge_def runtime_ord.not_greater_flip split: option.split)

lemma best_of_weaken: "best_of p pool r \<Longrightarrow> (\<And>a b. a \<in> set pool \<Longrightarrow> b \<in> set pool \<Longrightarrow> p a b \<Longrightarrow> q a b) \<Longrightarrow> best_of q pool r"
  by (auto simp: best_of_def split: option.splits)

lemma best_of_nearest:
  assumes ge: "\<And>v. P v \<Longrightarrow> runtime_ge v requested" and policy: "policy \<in> {RollMinor, RollMajor}"
  shows "best_of (runtime_prefers policy) (filter P vs) (select_nearest_band vs requested P)"
proof (cases "min_by rust_cmp (map runtime_band (filter P vs))")
  case None
  have none: "select_nearest_band vs requested P = None" unfolding select_nearest_band_def None by simp
  have "filter P vs = []" using None unfolding min_by_None by simp
  with none show ?thesis unfolding best_of_def by simp
next
  case (Some nearest)
  let ?bands = "map runtime_band (filter P vs)" and ?pool = "filter (\<lambda>v. P v \<and> runtime_band v = nearest \<and> runtime_ge v requested) vs"
  have low: "nearest \<le> runtime_band x" if "x \<in> set (filter P vs)" for x
    using linorder_ord.min_by_lower [OF Some, of "runtime_band x"] imageI [OF that, of runtime_band] by (simp only: set_map rust_cmp_iff not_less)
  obtain w where "w \<in> set (filter P vs)" "runtime_band w = nearest" using min_by_in [OF Some] unfolding set_map by blast
  then have "w \<in> set ?pool" using ge by simp
  then have "max_by runtime_cmp ?pool \<noteq> None" unfolding max_by_None by (metis empty_iff empty_set)
  then obtain v where v: "max_by runtime_cmp ?pool = Some v" by blast
  have best: "v \<in> set ?pool" "\<And>x. x \<in> set ?pool \<Longrightarrow> runtime_ge v x"
    using best_of_max [of ?pool] unfolding v best_of_def by simp_all
  have "runtime_prefers policy v x" if x: "x \<in> set (filter P vs)" for x
  proof (cases "runtime_band x = nearest")
    case True
    then show ?thesis using best x ge unfolding runtime_prefers_def by simp
  next
    case False
    then have "nearest < runtime_band x" using low [OF x] by (simp only: less_le) simp
    then show ?thesis using best(1) policy False unfolding runtime_prefers_def by (simp only: set_filter mem_Collect_eq if_True) simp
  qed
  then show ?thesis using best(1) unfolding select_nearest_band_def Some Option.bind.bind_lunit v best_of_def by simp
qed

lemma best_of_find:
  "best_of runtime_ge (filter (\<lambda>v. runtime_cmp v requested = Equal) vs) (List.find (\<lambda>v. runtime_cmp v requested = Equal) vs)"
proof (cases "List.find (\<lambda>v. runtime_cmp v requested = Equal) vs")
  case None
  then have "filter (\<lambda>v. runtime_cmp v requested = Equal) vs = []" by (auto simp: find_None_iff filter_empty_conv)
  then show ?thesis using None by (simp add: best_of_def)
next
  case (Some v)
  have "runtime_ge v x" if "runtime_cmp x requested = Equal" for x
    using find_SomeD [OF Some] that by (intro runtime_ge_refl) (simp add: runtime_cmp_Equal)
  then show ?thesis using Some find_SomeD [OF Some] by (simp add: best_of_def)
qed

lemma admitted_by_policy:
  "best_of (runtime_prefers policy) (filter (\<lambda>v. eligible_release only v \<and> runtime_admits policy requested v) vs)
     (select_runtime_by_policy vs requested policy only)"
proof (cases policy)
  case RollDisable
  then show ?thesis using best_of_find [of requested "filter (eligible_release only) vs"]
    by (simp add: runtime_admits_def runtime_prefers_def [abs_def] conj_commute)
next
  case RollMinor
  then show ?thesis
    using best_of_nearest [of "\<lambda>v. eligible_release only v \<and> fv_major v = fv_major requested \<and> runtime_ge v requested" requested policy vs]
    by (simp add: runtime_admits_def)
next
  case RollMajor
  then show ?thesis
    using best_of_nearest [of "\<lambda>v. eligible_release only v \<and> runtime_ge v requested" requested policy vs]
    by (simp add: runtime_admits_def)
qed (use best_of_max in \<open>simp add: runtime_admits_def runtime_prefers_def [abs_def] conj_ac\<close>)+

text \<open>The versions a request chooses from: stable ones when it is stable and one of them is admitted.\<close>

definition runtime_pool :: "runtime_roll_forward \<Rightarrow> runtime_version \<Rightarrow> runtime_version list \<Rightarrow> runtime_version list" where
  "runtime_pool policy requested vs =
     (let admitted = filter (runtime_admits policy requested) vs; stable = filter (\<lambda>v. fv_prerelease v = None) admitted in
      if fv_prerelease requested = None \<and> stable \<noteq> [] then stable else admitted)"

lemma runtime_selected: "best_of (runtime_prefers policy) (runtime_pool policy requested vs) (select_runtime_version vs requested policy)"
proof -
  let ?stable = "filter (\<lambda>v. fv_prerelease v = None \<and> runtime_admits policy requested v) vs"
  have pools: "filter (\<lambda>v. fv_prerelease v = None) (filter (runtime_admits policy requested) vs) = ?stable"
    by (simp add: conj_commute)
  have any: "best_of (runtime_prefers policy) (filter (runtime_admits policy requested) vs) (select_runtime_by_policy vs requested policy False)"
    using admitted_by_policy [of policy False requested vs] by (simp add: eligible_release_def)
  have stable: "best_of (runtime_prefers policy) ?stable (select_runtime_by_policy vs requested policy True)"
    using admitted_by_policy [of policy True requested vs] by (simp add: eligible_release_def)
  show ?thesis
  proof (cases "fv_prerelease requested = None")
    case False
    then show ?thesis using any unfolding runtime_pool_def Let_def select_runtime_version_def by (cases "fv_prerelease requested") simp_all
  next
    case True
    show ?thesis
    proof (cases "select_runtime_by_policy vs requested policy True")
      case None
      then have "?stable = []" using stable by (simp add: best_of_def)
      then show ?thesis using True None any unfolding runtime_pool_def Let_def pools select_runtime_version_def by simp
    next
      case (Some v)
      have "v \<in> set ?stable" using stable unfolding Some best_of_def by simp
      then have "?stable \<noteq> []" by (metis empty_iff empty_set)
      then show ?thesis using True Some stable unfolding runtime_pool_def Let_def pools select_runtime_version_def by simp
    qed
  qed
qed

section \<open>Installed versions\<close>

text \<open>The versions an enumeration shows: the names of its directories that are versions.\<close>

definition listed_versions :: "('p, 'io) fs_entry list \<Rightarrow> runtime_version list" where
  "listed_versions entries =
     List.map_filter (\<lambda>e. if fe_is_dir e = Inr True then Option.bind (fe_name e) parse_runtime_version else None) entries"

lemma scan_runtime_entries:
  assumes "\<And>e. e \<in> set entries \<Longrightarrow> \<exists>d. fe_is_dir e = Inr d"
  shows "try_fold (scan_runtime_entry w base) vs (map Inr entries) = Inr (vs @ listed_versions entries)"
  using assms
proof (induction entries arbitrary: vs)
  case (Cons e es)
  obtain d where d: "fe_is_dir e = Inr d" using Cons.prems by auto
  have ih: "try_fold (scan_runtime_entry w base) vs (map Inr es) = Inr (vs @ listed_versions es)" for vs
    by (rule Cons.IH) (simp add: Cons.prems)
  let ?v = "if d then Option.bind (fe_name e) parse_runtime_version else None"
  have step: "scan_runtime_entry w base vs (Inr e) = Inr (case ?v of None \<Rightarrow> vs | Some v \<Rightarrow> vs @ [v])"
    by (simp add: scan_runtime_entry_def d)
  have "listed_versions (e # es) = (case ?v of None \<Rightarrow> listed_versions es | Some v \<Rightarrow> v # listed_versions es)"
    unfolding listed_versions_def map_filter_simps d by simp
  then show ?case unfolding list.map try_fold.simps step rbind_simps ih by (cases ?v) simp_all
qed (simp add: listed_versions_def map_filter_simps)

lemma runtime_pool_sorted: "set (runtime_pool policy requested (sort_by runtime_cmp vs)) = set (runtime_pool policy requested vs)"
proof -
  have empty: "filter P (sort_by runtime_cmp vs) = [] \<longleftrightarrow> filter P vs = []" for P by (simp add: filter_empty_conv)
  show ?thesis by (simp add: runtime_pool_def Let_def empty)
qed

lemma best_of_set: "best_of better pool r \<Longrightarrow> set pool = set pool' \<Longrightarrow> best_of better pool' r"
  by (auto simp: best_of_def split: option.splits)

text \<open>C18: The shared framework chosen for a project is the one its roll-forward policy asks for. Over the
  directories below \<open>shared/<name>\<close> that are named by a version, in any order: with \<open>Disable\<close> only the
  requested version counts, with the other policies those of the same band, major version or any that
  are not older; among these stable versions come first when a stable one was requested; \<open>Minor\<close> and
  \<open>Major\<close> take the newest patch of the nearest band, the \<open>Latest\<close> policies the newest version. When none
  is admitted the error carries the requirement to install one, with its identity and version.\<close>
theorem shared_runtime_selected:
  fixes requested :: runtime_version and policy :: runtime_roll_forward
  assumes "read_dir (pw_machine w) base = Inr (map Inr entries)" and "\<forall>e \<in> set entries. \<exists>d. fe_is_dir e = Inr d"
  defines "pool \<equiv> runtime_pool policy requested (listed_versions entries)"
  shows "case select_installed_runtime w base runtime_name target_framework requested policy of
      Inr v \<Rightarrow> v \<in> set pool \<and> (\<forall>x \<in> set pool. runtime_prefers policy v x)
    | Inl e \<Rightarrow> pool = [] \<and> fk_kind e = SharedFrameworkNotFound
        \<and> fk_requirement e = Some (new_pack_requirement SharedFramework runtime_name (Some (fv_text requested)) target_framework None InstallRuntime)"
proof -
  have scan: "try_fold (scan_runtime_entry w base) [] (map Inr entries) = Inr (listed_versions entries)"
    using scan_runtime_entries [of entries w base "[]"] assms(2) by auto
  let ?r = "select_runtime_version (sort_by runtime_cmp (listed_versions entries)) requested policy"
  have best: "best_of (runtime_prefers policy) pool ?r"
    unfolding pool_def by (rule best_of_set [OF runtime_selected runtime_pool_sorted])
  show ?thesis
    using best assms(1) scan
    by (cases ?r) (simp_all add: select_installed_runtime_def Let_def best_of_def framework_error_new_def with_requirement_def shared_requirement_def)
qed

section \<open>The plan of a project\<close>

lemma push_plan_Inr:
  assumes "push_plan w table v = Inr (table', span)"
  shows "longer table table' \<and> reads_as table' span v \<and> (v \<noteq> [] \<longrightarrow> span \<noteq> NO_TEXT)"
  using assms unfolding push_plan_def Let_def by (rule push_span_Inr)

text \<open>An optional text; the empty one may read as absent when the table is full.\<close>

definition reads_if_any :: "string \<Rightarrow> tspan \<Rightarrow> string option \<Rightarrow> bool" where
  "reads_if_any table span v \<longleftrightarrow> v \<noteq> Some [] \<longrightarrow> reads_optional table span v"

lemma if_any_longer: "reads_if_any table span v \<Longrightarrow> longer table table' \<Longrightarrow> reads_if_any table' span v"
  by (auto simp: reads_if_any_def intro: optional_longer)

lemma push_plan_optional_Inr:
  assumes "push_plan_optional w table v = Inr (table', span)"
  shows "longer table table' \<and> reads_if_any table' span v"
proof (cases v)
  case (Some t)
  have "push_plan w table t = Inr (table', span)" using assms Some by (simp add: push_plan_optional_def)
  from push_plan_Inr [OF this] show ?thesis unfolding Some reads_if_any_def reads_optional_def by simp
qed (use assms in \<open>simp add: push_plan_optional_def reads_if_any_def reads_optional_def\<close>)

lemma push_plan_path_Inr:
  assumes "push_plan_path w table p = Inr (table', span)"
  shows "longer table table' \<and> (\<exists>t. pw_to_str w p = Some t \<and> reads_as table' span t)"
proof -
  obtain t where t: "pw_to_str w p = Some t" "push_plan w table t = Inr (table', span)"
    using assms by (auto simp: push_plan_path_def path_str_def rbind_eq_Inr ok_or_eq_Inr)
  then show ?thesis using push_plan_Inr by blast
qed

lemma push_plan_optional_path_Inr:
  assumes "push_plan_optional_path w table p = Inr (table', span)"
  shows "longer table table' \<and> (case p of None \<Rightarrow> span = NO_TEXT | Some q \<Rightarrow> \<exists>t. pw_to_str w q = Some t \<and> reads_if_any table' span (Some t))"
proof (cases p)
  case (Some q)
  then obtain t where t: "pw_to_str w q = Some t" "push_plan w table t = Inr (table', span)"
    using assms by (auto simp: push_plan_optional_path_def push_plan_path_def path_str_def rbind_eq_Inr ok_or_eq_Inr)
  then show ?thesis using Some push_plan_Inr [OF t(2)] by (auto simp: reads_if_any_def reads_optional_def)
qed (use assms in \<open>simp add: push_plan_optional_path_def\<close>)

definition row_reads :: "('p, 'io) pack_world \<Rightarrow> string \<Rightarrow> resolved_framework \<Rightarrow> 'p materialized_framework \<Rightarrow> bool" where
  "row_reads w table r row \<longleftrightarrow> reads_as table (rs_reference r) (mf_reference row) \<and> reads_as table (rs_runtime_name r) (mf_runtime_name row)
     \<and> reads_as table (rs_requested_version r) (mf_requested_version row) \<and> reads_if_any table (rs_selected_version r) (mf_selected_version row)
     \<and> (case mf_shared_root row of None \<Rightarrow> rs_shared_root r = NO_TEXT
         | Some q \<Rightarrow> \<exists>t. pw_to_str w q = Some t \<and> reads_if_any table (rs_shared_root r) (Some t))
     \<and> reads_as table (rs_targeting_pack_id r) (mf_targeting_pack_id row) \<and> reads_as table (rs_targeting_pack_version r) (mf_targeting_pack_version row)
     \<and> (\<exists>t. pw_to_str w (mf_targeting_pack_root row) = Some t \<and> reads_as table (rs_targeting_pack_root r) t)
     \<and> reads_if_any table (rs_profile r) (mf_profile row)"

lemma row_reads_longer: "row_reads w table r row \<Longrightarrow> longer table table' \<Longrightarrow> row_reads w table' r row"
  unfolding row_reads_def using reads_longer if_any_longer by (cases "mf_shared_root row") (simp, blast)+

lemma push_framework_row_Inr:
  assumes "push_framework_row w table row = Inr (table', r)"
  shows "longer table table' \<and> row_reads w table' r row"
proof -
  obtain t1 a t2 b t3 c t4 d t5 e t6 f t7 g t8 h i
    where 1: "push_plan w table (mf_reference row) = Inr (t1, a)" and 2: "push_plan w t1 (mf_runtime_name row) = Inr (t2, b)"
    and 3: "push_plan w t2 (mf_requested_version row) = Inr (t3, c)" and 4: "push_plan_optional w t3 (mf_selected_version row) = Inr (t4, d)"
    and 5: "push_plan_optional_path w t4 (mf_shared_root row) = Inr (t5, e)" and 6: "push_plan w t5 (mf_targeting_pack_id row) = Inr (t6, f)"
    and 7: "push_plan w t6 (mf_targeting_pack_version row) = Inr (t7, g)" and 8: "push_plan_path w t7 (mf_targeting_pack_root row) = Inr (t8, h)"
    and 9: "push_plan_optional w t8 (mf_profile row) = Inr (table', i)"
    and r: "r = \<lparr>rs_reference = a, rs_runtime_name = b, rs_requested_version = c, rs_selected_version = d, rs_shared_root = e,
      rs_targeting_pack_id = f, rs_targeting_pack_version = g, rs_targeting_pack_root = h, rs_profile = i\<rparr>"
    using assms unfolding push_framework_row_def by (auto simp: rbind_eq_Inr)
  note p1 = push_plan_Inr [OF 1] and p2 = push_plan_Inr [OF 2] and p3 = push_plan_Inr [OF 3] and p4 = push_plan_optional_Inr [OF 4]
    and p5 = push_plan_optional_path_Inr [OF 5] and p6 = push_plan_Inr [OF 6] and p7 = push_plan_Inr [OF 7] and p8 = push_plan_path_Inr [OF 8]
    and p9 = push_plan_optional_Inr [OF 9]
  have l8: "longer t8 table'" using p9 by blast
  note l7 = longer_trans [OF conjunct1 [OF p8] l8] note l6 = longer_trans [OF conjunct1 [OF p7] l7]
  note l5 = longer_trans [OF conjunct1 [OF p6] l6] note l4 = longer_trans [OF conjunct1 [OF p5] l5]
  note l3 = longer_trans [OF conjunct1 [OF p4] l4] note l2 = longer_trans [OF conjunct1 [OF p3] l3]
  note l1 = longer_trans [OF conjunct1 [OF p2] l2] note l0 = longer_trans [OF conjunct1 [OF p1] l1]
  have fields: "rs_reference r = a" "rs_runtime_name r = b" "rs_requested_version r = c" "rs_selected_version r = d" "rs_shared_root r = e"
    "rs_targeting_pack_id r = f" "rs_targeting_pack_version r = g" "rs_targeting_pack_root r = h" "rs_profile r = i"
    by (simp_all add: r)
  have shared: "case mf_shared_root row of None \<Rightarrow> e = NO_TEXT | Some q \<Rightarrow> \<exists>t. pw_to_str w q = Some t \<and> reads_if_any table' e (Some t)"
    using p5 if_any_longer l5 by (cases "mf_shared_root row") auto
  have pack: "\<exists>t. pw_to_str w (mf_targeting_pack_root row) = Some t \<and> reads_as table' h t" using p8 reads_longer l8 by blast
  have texts: "reads_as table' a (mf_reference row)" "reads_as table' b (mf_runtime_name row)" "reads_as table' c (mf_requested_version row)"
    "reads_as table' f (mf_targeting_pack_id row)" "reads_as table' g (mf_targeting_pack_version row)"
    using p1 p2 p3 p6 p7 l1 l2 l3 l6 l7 reads_longer by blast+
  have "reads_if_any table' d (mf_selected_version row)" "reads_if_any table' i (mf_profile row)" using p4 p9 l4 if_any_longer by blast+
  with texts shared pack l0 show ?thesis unfolding row_reads_def fields by (intro conjI)
qed

lemma push_framework_rows_Inr:
  assumes "push_framework_rows w table rows = Inr (table', rs)"
  shows "longer table table' \<and> list_all2 (row_reads w table') rs rows"
  using assms
proof (induction rows arbitrary: table rs)
  case (Cons row rows)
  obtain t r rs' where first: "push_framework_row w table row = Inr (t, r)" and rest: "push_framework_rows w t rows = Inr (table', rs')" and rs: "rs = r # rs'"
    using Cons.prems by (auto simp: rbind_eq_Inr)
  show ?case using push_framework_row_Inr [OF first] Cons.IH [OF rest] rs longer_trans row_reads_longer by auto
qed simp

text \<open>What a resolved row of a project is.\<close>

definition framework_resolved :: "('p, 'io) pack_world \<Rightarrow> known_framework list \<Rightarrow> 'p \<Rightarrow> project_spec \<Rightarrow> requested_framework \<Rightarrow>
    'p materialized_framework \<Rightarrow> bool" where
  "framework_resolved w definitions root p request row \<longleftrightarrow> (\<exists>known \<in> set definitions.
     kf_target_framework known = target_framework_name p \<and> eq_ignore_case (kf_name known) (rq_name request)
     \<and> mf_reference row = rq_name request \<and> mf_runtime_name row = kf_runtime_name known \<and> mf_profile row = kf_profile known
     \<and> mf_requested_version row = requested_runtime_version p (rq_source request) known
     \<and> mf_targeting_pack_id row = kf_targeting_pack_id known
     \<and> (case Option.bind (rq_source request) (framework_targeting_pack_version p) of
          Some v \<Rightarrow> mf_targeting_pack_version row = v | None \<Rightarrow> mf_targeting_pack_version row = kf_targeting_pack_version known)
     \<and> is_dir (pw_machine w) (mf_targeting_pack_root row)
     \<and> (if ps_self_contained p then mf_selected_version row = None \<and> mf_shared_root row = None
        else let base = path_join (pw_machine w) (path_join (pw_machine w) root ''shared'') (kf_runtime_name known) in
          \<exists>requested v. parse_runtime_version (mf_requested_version row) = Some requested
            \<and> select_installed_runtime w base (kf_runtime_name known) (target_framework_name p) requested (ps_roll_forward p) = Inr v
            \<and> mf_selected_version row = Some (fv_text v) \<and> mf_shared_root row = Some (path_join (pw_machine w) base (fv_text v))))"

lemma located_pack: "locate_targeting_pack w root directory pack version target = Inr q \<Longrightarrow> is_dir (pw_machine w) q"
  by (auto simp: locate_targeting_pack_def Let_def rbind_eq_Inr split: if_split_asm)

lemma plan_framework_Inr:
  assumes "plan_framework w manifest definitions root p request = Inr row"
  shows "framework_resolved w definitions root p request row"
proof -
  let ?version = "\<lambda>known. case Option.bind (rq_source request) (framework_targeting_pack_version p) of Some v \<Rightarrow> v | None \<Rightarrow> kf_targeting_pack_version known"
  obtain known where known: "List.find (\<lambda>d. kf_target_framework d = target_framework_name p \<and> eq_ignore_case (kf_name d) (rq_name request)) definitions
      = Some known"
    using assms unfolding plan_framework_def find_definition_def rbind_eq_Inr ok_or_eq_Inr by blast
  let ?requested = "requested_runtime_version p (rq_source request) known"
  obtain parsed pack_parsed where parsed: "parse_runtime_version ?requested = Some parsed" "parse_runtime_version (?version known) = Some pack_parsed"
    using assms unfolding plan_framework_def find_definition_def known ok_or_simps rbind_simps Let_def rbind_eq_Inr three_part_def ok_or_eq_Inr by blast
  obtain pack_root selected shared
    where pack: "locate_targeting_pack w root (project_directory p) (kf_targeting_pack_id known) (?version known) (target_framework_name p) = Inr pack_root"
    and shared: "shared_framework w p root (kf_runtime_name known) parsed = Inr (selected, shared)"
    using assms unfolding plan_framework_def find_definition_def known ok_or_simps rbind_simps Let_def three_part_def parsed ok_or_simps by (auto simp: rbind_eq_Inr)
  have row: "row = \<lparr>mf_reference = rq_name request, mf_runtime_name = kf_runtime_name known,
      mf_requested_version = ?requested, mf_selected_version = selected, mf_shared_root = shared,
      mf_targeting_pack_id = kf_targeting_pack_id known, mf_targeting_pack_version = ?version known, mf_targeting_pack_root = pack_root,
      mf_profile = kf_profile known\<rparr>"
    using assms unfolding plan_framework_def find_definition_def known ok_or_simps rbind_simps Let_def three_part_def parsed ok_or_simps pack shared by simp
  have k: "known \<in> set definitions" "kf_target_framework known = target_framework_name p" "eq_ignore_case (kf_name known) (rq_name request)"
    using find_SomeD [OF known] by simp_all
  have s: "if ps_self_contained p then selected = None \<and> shared = None
      else let base = path_join (pw_machine w) (path_join (pw_machine w) root ''shared'') (kf_runtime_name known) in
        \<exists>requested v. parse_runtime_version (requested_runtime_version p (rq_source request) known) = Some requested
          \<and> select_installed_runtime w base (kf_runtime_name known) (target_framework_name p) requested (ps_roll_forward p) = Inr v
          \<and> selected = Some (fv_text v) \<and> shared = Some (path_join (pw_machine w) base (fv_text v))"
    using shared parsed by (auto simp: shared_framework_def Let_def rbind_eq_Inr split: if_split_asm)
  show ?thesis unfolding framework_resolved_def
    by (rule bexI [OF _ k(1)]) (use k s located_pack [OF pack] in \<open>auto simp: row Let_def split: option.split if_split_asm\<close>)
qed

text \<open>How a row of the plan reads.\<close>

definition plan_row_reads :: "('p, 'io) pack_world \<Rightarrow> framework_plan \<Rightarrow> resolved_framework \<Rightarrow> 'p materialized_framework \<Rightarrow> bool" where
  "plan_row_reads w plan r row \<longleftrightarrow>
     fp_get plan (rs_reference r) = mf_reference row \<and> fp_get plan (rs_runtime_name r) = mf_runtime_name row
     \<and> fp_get plan (rs_requested_version r) = mf_requested_version row
     \<and> fp_get plan (rs_targeting_pack_id r) = mf_targeting_pack_id row \<and> fp_get plan (rs_targeting_pack_version r) = mf_targeting_pack_version row
     \<and> Some (fp_get plan (rs_targeting_pack_root r)) = pw_to_str w (mf_targeting_pack_root row)
     \<and> (mf_selected_version row \<noteq> Some [] \<longrightarrow> fp_optional plan (rs_selected_version r) = mf_selected_version row)
     \<and> (mf_profile row \<noteq> Some [] \<longrightarrow> fp_optional plan (rs_profile r) = mf_profile row)
     \<and> (case mf_shared_root row of None \<Rightarrow> fp_optional plan (rs_shared_root r) = None
         | Some q \<Rightarrow> pw_to_str w q \<noteq> None \<and> (pw_to_str w q \<noteq> Some [] \<longrightarrow> fp_optional plan (rs_shared_root r) = pw_to_str w q))"

lemma reads_if_any_optional: "reads_if_any (fp_text plan) span v \<Longrightarrow> v \<noteq> Some [] \<Longrightarrow> fp_optional plan span = v"
  using optional_text [of "fp_text plan" span v] unfolding reads_if_any_def fp_optional_def fp_get_def optional_span_text_def by blast

lemma row_reads_plan: "row_reads w (fp_text plan) r row \<Longrightarrow> plan_row_reads w plan r row"
proof -
  assume r: "row_reads w (fp_text plan) r row"
  have shared: "case mf_shared_root row of None \<Rightarrow> fp_optional plan (rs_shared_root r) = None
      | Some q \<Rightarrow> pw_to_str w q \<noteq> None \<and> (pw_to_str w q \<noteq> Some [] \<longrightarrow> fp_optional plan (rs_shared_root r) = pw_to_str w q)"
  proof (cases "mf_shared_root row")
    case None
    then show ?thesis using r by (simp add: row_reads_def fp_optional_def)
  next
    case (Some q)
    then obtain t where "pw_to_str w q = Some t" "reads_if_any (fp_text plan) (rs_shared_root r) (Some t)" using r by (auto simp: row_reads_def)
    then show ?thesis using Some reads_if_any_optional [of plan "rs_shared_root r" "Some t"] by simp
  qed
  have "mf_selected_version row \<noteq> Some [] \<longrightarrow> fp_optional plan (rs_selected_version r) = mf_selected_version row"
    "mf_profile row \<noteq> Some [] \<longrightarrow> fp_optional plan (rs_profile r) = mf_profile row"
    using r reads_if_any_optional unfolding row_reads_def by blast+
  then show "plan_row_reads w plan r row"
    using r shared unfolding plan_row_reads_def by (auto simp: row_reads_def reads_as_def fp_get_def)
qed

text \<open>C19: The plan of a project has one row for every framework it references, \<open>Microsoft.NETCore.App\<close> first
  whether the project names it or not. Each row is that of the SDK's definition for the project's target
  framework, in the version the reference, the project or the SDK gives; its targeting pack is a
  directory that exists; a project that is not self-contained has the installed shared framework its
  roll-forward policy selects, and a self-contained one has none. All texts read back out of the one
  packed table.\<close>
theorem framework_plan_made:
  assumes "plan_project w sdk_version manifest definitions root p = Inr plan"
  shows "\<exists>rows. list_all2 (framework_resolved w definitions root p) (requested_frameworks p) rows
    \<and> list_all2 (plan_row_reads w plan) (fp_frameworks plan) rows
    \<and> map mf_reference rows = IMPLICIT_FRAMEWORK_REFERENCE
        # map (framework_reference_id p) (filter (\<lambda>r. \<not> names_core p r) (ps_framework_references p))
    \<and> fp_get plan (fp_sdk_version plan) = sdk_version \<and> fp_get plan (fp_target_framework plan) = target_framework_name p
    \<and> Some (fp_get plan (fp_manifest plan)) = pw_to_str w manifest
    \<and> Some (fp_get plan (fp_project plan)) = pw_to_str w (path_of (pw_machine w) (project_path p))
    \<and> fp_roll_forward plan = ps_roll_forward p \<and> fp_self_contained plan = ps_self_contained p"
proof -
  obtain rows where rows: "try_map (plan_framework w manifest definitions root p) (requested_frameworks p) = Inr rows"
    and plan: "materialize_framework_plan w p sdk_version manifest rows = Inr plan"
    using assms by (auto simp: plan_project_def rbind_eq_Inr)
  obtain a b t1 s1 t2 s2 t3 s3 t4 s4 where str: "pw_to_str w (path_of (pw_machine w) (project_path p)) = Some a" "pw_to_str w manifest = Some b"
    and 1: "push_plan w [] a = Inr (t1, s1)" and 2: "push_plan w t1 sdk_version = Inr (t2, s2)" and 3: "push_plan w t2 b = Inr (t3, s3)"
    and 4: "push_plan w t3 (target_framework_name p) = Inr (t4, s4)"
    using plan unfolding materialize_framework_plan_def path_str_def by (auto simp: rbind_eq_Inr ok_or_eq_Inr)
  obtain t fs where 5: "push_framework_rows w t4 rows = Inr (t, fs)"
    using plan unfolding materialize_framework_plan_def path_str_def str ok_or_simps rbind_simps 1 2 3 4 prod.case by (auto simp: rbind_eq_Inr)
  have p: "plan = \<lparr>fp_text = t, fp_frameworks = fs, fp_project = s1, fp_sdk_version = s2, fp_manifest = s3,
         fp_target_framework = s4, fp_roll_forward = ps_roll_forward p, fp_self_contained = ps_self_contained p\<rparr>"
    using plan unfolding materialize_framework_plan_def path_str_def str ok_or_simps rbind_simps 1 2 3 4 5 prod.case by simp
  note p1 = push_plan_Inr [OF 1] and p2 = push_plan_Inr [OF 2] and p3 = push_plan_Inr [OF 3] and p4 = push_plan_Inr [OF 4]
    and p5 = push_framework_rows_Inr [OF 5]
  note l4 = conjunct1 [OF p5] note l3 = longer_trans [OF conjunct1 [OF p4] l4] note l2 = longer_trans [OF conjunct1 [OF p3] l3]
  note l1 = longer_trans [OF conjunct1 [OF p2] l2]
  have heads: "reads_as t s1 a" "reads_as t s2 sdk_version" "reads_as t s3 b" "reads_as t s4 (target_framework_name p)"
    using p1 p2 p3 p4 l1 l2 l3 l4 reads_longer by blast+
  have read: "list_all2 (plan_row_reads w plan) (fp_frameworks plan) rows"
    using p5 by (auto simp: p intro!: list_all2_mono [OF _ row_reads_plan])
  have made: "list_all2 (framework_resolved w definitions root p) (requested_frameworks p) rows"
    using rows plan_framework_Inr unfolding try_map_Inr by (rule list_all2_mono)
  have names: "map mf_reference rows = map rq_name requests" if "list_all2 (framework_resolved w definitions root p) requests rows" for requests rows
    using that by (induction rule: list_all2_induct) (auto simp: framework_resolved_def)
  have "map rq_name (requested_frameworks p) = IMPLICIT_FRAMEWORK_REFERENCE
        # map (framework_reference_id p) (filter (\<lambda>r. \<not> names_core p r) (ps_framework_references p))"
    by (simp add: requested_frameworks_def requested_row_def)
  then show ?thesis using made read names [OF made] heads str by (intro exI [of _ rows]) (simp add: p fp_get_def reads_as_def)
qed

section \<open>An example\<close>

text \<open>Three runtimes are installed; a project without references of its own.\<close>

definition example_world :: "(string, unit) pack_world" where
  "example_world = \<lparr>pw_machine = example_machine\<lparr>read_dir := \<lambda>_. Inr (map Inr (map example_entry [''8.0.3'', ''8.0.1'', ''9.0.0-rc.1'']))\<rparr>,
     pw_to_str = Some, pw_xml = (\<lambda>_. []), pw_explicit_packages = None, pw_packages_variable = Inr None,
     pw_configured_packages = (\<lambda>_. Inr ''/p'')\<rparr>"

definition example_runtime :: "string \<Rightarrow> nat \<Rightarrow> nat \<Rightarrow> string option \<Rightarrow> runtime_version" where
  "example_runtime s major patch prerelease =
     \<lparr>fv_text = s, fv_major = major, fv_minor = 0, fv_patch = patch, fv_prerelease = prerelease\<rparr>"

definition example_project :: project_spec where
  "example_project = \<lparr>ps_text = ''/w/a.csproj/wnet8.0'', ps_project_path = \<lparr>sp_start = 0, sp_len = 11\<rparr>,
     ps_project_directory = \<lparr>sp_start = 11, sp_len = 2\<rparr>, ps_target_framework_text = \<lparr>sp_start = 13, sp_len = 6\<rparr>,
     ps_assembly_name = NO_TEXT, ps_root_namespace = NO_TEXT, ps_runtime_dimensions = [], ps_sources = [], ps_project_references = [],
     ps_package_references = [], ps_central_package_versions = [], ps_central_package_fingerprint = NO_TEXT, ps_framework_references = [],
     ps_runtime_framework_version = NO_TEXT, ps_runtime_identifier_index = 0, ps_runtime_identifiers_len = 0, ps_configuration = Debug,
     ps_output_type = Library, ps_nullable = False, ps_implicit_usings = False, ps_deterministic = True, ps_self_contained = True,
     ps_nuget_audit_enabled = False, ps_restore_package_pruning = False, ps_allow_missing_prune_package_data = False,
     ps_central_package_management = False, ps_central_transitive_pinning = False, ps_nuget_audit_mode = AuditDirect,
     ps_nuget_audit_level = AuditLow, ps_target_latest_runtime_patch = None, ps_roll_forward = RollMinor,
     ps_target_framework = mk_framework Net 8 0\<rparr>"

definition example_known :: known_framework where
  "example_known = \<lparr>kf_target_framework = ''net8.0'', kf_name = IMPLICIT_FRAMEWORK_REFERENCE, kf_runtime_name = IMPLICIT_FRAMEWORK_REFERENCE,
     kf_default_runtime_version = ''8.0.1'', kf_latest_runtime_version = ''8.0.3'', kf_targeting_pack_id = ''Ref'', kf_targeting_pack_version = ''8.0.3'',
     kf_profile = None\<rparr>"

lemma parse_example_runtime:
  "parse_runtime_version ''8.0.3'' = Some (example_runtime ''8.0.3'' 8 3 None)" "parse_runtime_version ''8.0.1'' = Some (example_runtime ''8.0.1'' 8 1 None)"
  "parse_runtime_version ''9.0.0-rc.1'' = Some (example_runtime ''9.0.0-rc.1'' 9 0 (Some ''rc.1''))"
  by (simp_all add: parse_runtime_version_def three_numbers_def numeric_part_def valid_identifiers_def example_runtime_def str_eval)

lemma example_listed: "listed_versions (map example_entry [''8.0.3'', ''8.0.1'', ''9.0.0-rc.1'']) =
    [example_runtime ''8.0.3'' 8 3 None, example_runtime ''8.0.1'' 8 1 None, example_runtime ''9.0.0-rc.1'' 9 0 (Some ''rc.1'')]"
  by (simp add: listed_versions_def map_filter_simps example_entry_def parse_example_runtime)

lemma shared_runtime_selected_witness:
  "\<exists>v. select_installed_runtime example_world ''/d/shared/App'' ''App'' ''net8.0'' (example_runtime ''8.0.0'' 8 0 None) RollMinor = Inr v \<and> fv_text v = ''8.0.3''"
proof -
  let ?entries = "map example_entry [''8.0.3'', ''8.0.1'', ''9.0.0-rc.1'']" and ?requested = "example_runtime ''8.0.0'' 8 0 None"
  have dir: "read_dir (pw_machine example_world) ''/d/shared/App'' = Inr (map Inr ?entries)" by (simp add: example_world_def)
  have entries: "\<forall>e \<in> set ?entries. \<exists>d. fe_is_dir e = Inr d" by (auto simp: example_entry_def)
  have pool: "runtime_pool RollMinor ?requested (listed_versions ?entries) = [example_runtime ''8.0.3'' 8 3 None, example_runtime ''8.0.1'' 8 1 None]"
    unfolding example_listed by (simp add: runtime_pool_def runtime_admits_def runtime_ge_def runtime_cmp_def example_runtime_def rust_cmp_def Let_def)
  have worse: "\<not> runtime_prefers RollMinor (example_runtime ''8.0.1'' 8 1 None) (example_runtime ''8.0.3'' 8 3 None)"
    by (simp add: runtime_prefers_def runtime_ge_def runtime_cmp_def runtime_band_def example_runtime_def rust_cmp_def)
  show ?thesis
    using shared_runtime_selected [OF dir entries, where policy = RollMinor and requested = ?requested
        and runtime_name = "''App''" and target_framework = "''net8.0''"] worse unfolding pool
    by (auto simp: example_runtime_def split: sum.splits)
qed

lemma example_planned: "\<exists>plan. plan_project example_world ''8.0.100'' ''/d/m'' [example_known] ''/d'' example_project = Inr plan"
proof -
  have request: "requested_frameworks example_project = [\<lparr>rq_name = IMPLICIT_FRAMEWORK_REFERENCE, rq_source = None\<rparr>]"
    by (simp add: requested_frameworks_def explicit_core_def example_project_def)
  have name: "target_framework_name example_project = ''net8.0''" "project_path example_project = ''/w/a.csproj''"
    by (simp_all add: target_framework_name_def project_path_def ps_span_def span_text_def example_project_def)
  have version: "requested_runtime_version example_project None example_known = ''8.0.1''"
    by (simp add: requested_runtime_version_def runtime_framework_version_def ps_optional_def optional_span_text_def example_project_def example_known_def)
  have known: "kf_target_framework example_known = ''net8.0''" "eq_ignore_case (kf_name example_known) IMPLICIT_FRAMEWORK_REFERENCE"
    "kf_targeting_pack_version example_known = ''8.0.3''"
    by (simp_all add: example_known_def eq_ignore_case_def)
  have fields: "ps_self_contained example_project" "is_dir (pw_machine example_world) x" "pw_to_str example_world x = Some x"
    "path_of (pw_machine example_world) x = x" for x
    by (simp_all add: example_project_def example_world_def example_machine_def)
  obtain row where row: "plan_framework example_world ''/d/m'' [example_known] ''/d'' example_project \<lparr>rq_name = IMPLICIT_FRAMEWORK_REFERENCE, rq_source = None\<rparr> = Inr row"
    "mf_shared_root row = None" "mf_selected_version row = None" "mf_profile row = None" "mf_reference row = IMPLICIT_FRAMEWORK_REFERENCE"
    "mf_runtime_name row = IMPLICIT_FRAMEWORK_REFERENCE" "mf_requested_version row = ''8.0.1''" "mf_targeting_pack_id row = ''Ref''"
    "mf_targeting_pack_version row = ''8.0.3''" "mf_targeting_pack_root row = ''/d/packs/Ref/8.0.3''"
    unfolding plan_framework_def find_definition_def
    by (simp add: known name version three_part_def parse_example_runtime locate_targeting_pack_def fields shared_framework_def Let_def)
      (simp add: Let_def example_known_def example_world_def example_machine_def)
  have "try_map (plan_framework example_world ''/d/m'' [example_known] ''/d'' example_project) (requested_frameworks example_project) = Inr [row]"
    by (simp add: request row(1))
  moreover have "\<exists>plan. materialize_framework_plan example_world example_project ''8.0.100'' ''/d/m'' [row] = Inr plan"
    by (simp add: row(2-) materialize_framework_plan_def path_str_def fields name push_plan_def push_span_def
        push_framework_row_def push_plan_optional_def push_plan_path_def push_plan_optional_path_def IMPLICIT_FRAMEWORK_REFERENCE_def)
  ultimately show ?thesis by (simp add: plan_project_def)
qed

lemma framework_plan_made_witness:
  "\<exists>plan row. plan_project example_world ''8.0.100'' ''/d/m'' [example_known] ''/d'' example_project = Inr plan
    \<and> fp_frameworks plan = [row] \<and> fp_get plan (rs_reference row) = IMPLICIT_FRAMEWORK_REFERENCE"
proof -
  obtain plan where plan: "plan_project example_world ''8.0.100'' ''/d/m'' [example_known] ''/d'' example_project = Inr plan"
    using example_planned by blast
  from framework_plan_made [OF plan] obtain rows where read: "list_all2 (plan_row_reads example_world plan) (fp_frameworks plan) rows"
    and names: "map mf_reference rows = [IMPLICIT_FRAMEWORK_REFERENCE]"
    by (auto simp: example_project_def)
  then obtain row r where "rows = [row]" "mf_reference row = IMPLICIT_FRAMEWORK_REFERENCE" "fp_frameworks plan = [r]" "plan_row_reads example_world plan r row"
    by (auto simp: list_all2_Cons2)
  then show ?thesis using plan by (auto simp: plan_row_reads_def)
qed

end
