(* ===== verification/Runtime_Pack_Facts.thy ===== *)
theory Runtime_Pack_Facts
  imports Runtime_Packs Runtime_Graph_Facts Framework_Facts
begin

text \<open>
  The packs chosen for a project are the nearest the SDK supports; the cache of inventories never
  changes what is planned; the plan reads back as what was chosen and read.
\<close>

section \<open>The nearest identifier\<close>

lemma list_all2_first:
  assumes "list_all2 Q xs levels" and "sorted levels" and "List.find P xs = Some x" and "y \<in> set xs" "P y"
  shows "\<exists>k l. Q x k \<and> Q y l \<and> k \<le> (l :: nat)"
proof -
  obtain i where i: "i < length xs" "xs ! i = x" "\<forall>j < i. \<not> P (xs ! j)" using assms(3) by (auto simp: find_Some_iff)
  obtain m where m: "m < length xs" "xs ! m = y" using assms(4) by (auto simp: in_set_conv_nth)
  have "i \<le> m" using i(3) m assms(5) by (meson not_le)
  then have "levels ! i \<le> levels ! m" using assms(1,2) m by (auto simp: sorted_iff_nth_mono list_all2_lengthD)
  moreover have "Q (xs ! i) (levels ! i)" "Q (xs ! m) (levels ! m)" using assms(1) i(1) m(1) by (simp_all add: list_all2_nthD)
  ultimately show ?thesis using i(2) m(2) by blast
qed

text \<open>An identifier reached in so many imports, and one in the list of an SDK's pack.\<close>

definition import_steps :: "graph_document \<Rightarrow> string \<Rightarrow> nat \<Rightarrow> string \<Rightarrow> bool" where
  "import_steps document requested k rid \<longleftrightarrow> (requested, rid) \<in> import_rel document ^^ k"

definition provided_for :: "string \<Rightarrow> string \<Rightarrow> bool" where
  "provided_for supported rid \<longleftrightarrow> rid \<in> set (split_on CHR '';'' supported)"

text \<open>C17: The identifier a pack is taken for is one the SDK has a pack for, and the nearest such identifier
  to the requested one along the imports of the portable graph: no supported identifier is reached in
  fewer steps. When none is compatible the error says so and carries the requirement for the pack under
  the requested identifier, unless the SDK's pattern of names is itself invalid. A compiled graph never
  makes the choice panic.\<close>
theorem pack_identifier_nearest:
  fixes manifest :: 'p
  assumes "bt_inv document" and "compile_graph path document = Inr graph"
  shows "case select_pack_runtime_identifier graph requested supported manifest pack :: ('p, 'io, string) packed of
      Inr rid \<Rightarrow> provided_for supported rid \<and> (\<exists>k. import_steps document requested k rid \<and> (\<forall>other l. provided_for supported other \<longrightarrow> import_steps document requested l other \<longrightarrow> k \<le> l))
    | Inl e \<Rightarrow> (\<forall>other l. provided_for supported other \<longrightarrow> \<not> import_steps document requested l other)
        \<and> (\<exists>x. e = Some x \<and> (px_kind x = PackInvalidManifest
            \<or> px_kind x = UnsupportedRuntime \<and> (\<exists>identity. px_requirement x = Some (new_pack_requirement (pl_kind pack) identity
                (Some (pl_version pack)) (pl_target_framework pack) (Some requested) ChooseRuntimeIdentifier))))"
proof -
  let ?R = "import_rel document" and ?P = "\<lambda>candidate. candidate \<in> set (split_on CHR '';'' supported)"
  obtain rids levels where listed: "compatible_rids graph requested = Some (requested # rids)"
    and reach: "set (requested # rids) = {p. (requested, p) \<in> ?R\<^sup>*}" and sorted: "sorted levels"
    and dist: "list_all2 (\<lambda>p k. (requested, p) \<in> ?R ^^ k \<and> (\<forall>j < k. (requested, p) \<notin> ?R ^^ j)) (requested # rids) levels"
    using compatible_rids_nearest_first [OF assms(1,2), of requested] by blast
  have listed_in: "p \<in> set (requested # rids)" if "import_steps document requested k p" for k p
    using that unfolding reach import_steps_def by (auto simp: rtrancl_power)
  show ?thesis
  proof (cases "List.find ?P (requested # rids)")
    case None
    then have none: "\<not> provided_for supported p" if "p \<in> set (requested # rids)" for p using that None unfolding find_None_iff provided_for_def by blast
    have away: "\<forall>other l. provided_for supported other \<longrightarrow> \<not> import_steps document requested l other" using none listed_in by blast
    show ?thesis
    proof (cases "expand_pack_pattern (pl_pattern pack) requested manifest (pl_label pack) :: ('p, 'io, string) packed")
      case (Inl e)
      then have "\<exists>x. e = Some x \<and> px_kind x = PackInvalidManifest"
        by (auto simp: expand_pack_pattern_def pack_manifest_error_def pack_error_def split: option.splits prod.splits if_splits)
      then show ?thesis using away Inl None by (auto simp: select_pack_runtime_identifier_def listed)
    next
      case (Inr identity)
      then show ?thesis using away None
        by (auto simp: select_pack_runtime_identifier_def listed pack_error_requiring_def pack_error_def)
    qed
  next
    case (Some rid)
    have rid: "select_pack_runtime_identifier graph requested supported manifest pack = Inr rid"
      unfolding select_pack_runtime_identifier_def listed ok_or_simps rbind_simps Some by simp
    note p = find_SomeD [OF Some]
    obtain k where k: "import_steps document requested k rid" "\<forall>j < k. \<not> import_steps document requested j rid"
      using dist p unfolding import_steps_def by (auto simp: list_all2_conv_all_nth in_set_conv_nth)
    have "k \<le> l" if other: "provided_for supported other" "import_steps document requested l other" for other l
    proof -
      have "other \<in> set (requested # rids)" "?P other" using other listed_in by (auto simp: provided_for_def)
      from list_all2_first [OF dist sorted Some this] obtain k' l' where near: "import_steps document requested k' rid" "\<forall>j < k'. \<not> import_steps document requested j rid" "import_steps document requested l' other" "\<forall>j < l'. \<not> import_steps document requested j other"
        "k' \<le> l'" unfolding import_steps_def by blast
      have "k \<le> k'" using k(2) near(1) by (meson not_le)
      moreover have "l' \<le> l" using near(4) other(2) by (meson not_le)
      ultimately show ?thesis using near(5) by linarith
    qed
    then show ?thesis unfolding rid using p k(1) by (auto simp: provided_for_def)
  qed
qed

lemma pack_identifier_nearest_witness:
  "\<exists>rid. (select_pack_runtime_identifier example_graph ''linux'' ''unix;x'' ''m''
      \<lparr>pl_label = ''runtime pack'', pl_kind = Runtime, pl_pattern = ''P.**RID**'', pl_version = ''8.0.0'', pl_target_framework = ''net8.0''\<rparr>
      :: (string, unit, string) packed) = Inr rid \<and> provided_for ''unix;x'' rid"
proof -
  have inv: "bt_inv example_document" by (simp add: example_document_def)
  let ?pack = "\<lparr>pl_label = ''runtime pack'', pl_kind = Runtime, pl_pattern = ''P.**RID**'', pl_version = ''8.0.0'', pl_target_framework = ''net8.0''\<rparr>"
  have "provided_for ''unix;x'' ''unix''" by (simp add: provided_for_def str_eval)
  moreover have "import_steps example_document ''linux'' 1 ''unix''"
    by (simp add: import_steps_def import_rel_def example_document_def)
  ultimately show ?thesis
    using pack_identifier_nearest [OF inv example_compiles, where requested = "''linux''" and supported = "''unix;x''" and manifest = "''m'' :: string" and pack = ?pack,
        where 'io = unit]
    by (auto split: sum.splits)
qed

section \<open>Inventories\<close>

text \<open>A table reads a listed file's path: safe, and the file is there.\<close>

definition asset_reads :: "('p, 'io) runtime_world \<Rightarrow> 'p inventory_inputs \<Rightarrow> string \<Rightarrow> runtime_asset \<Rightarrow> bool" where
  "asset_reads w i table asset \<longleftrightarrow> span32 (ra_path asset)
     \<and> (\<exists>relative. reads_as table (ra_path asset) relative \<and> is_safe_pack_relative_path relative
        \<and> rw_is_file w (join_relative_path w (ii_runtime_pack_root i) relative))"

definition build_ok :: "('p, 'io) runtime_world \<Rightarrow> 'p inventory_inputs \<Rightarrow> build_state \<Rightarrow> bool" where
  "build_ok w i st \<longleftrightarrow> (\<forall>asset \<in> set (bs_assets st). asset_reads w i (bs_text st) asset)"

lemma push_pack_Inr:
  assumes "push_pack w table s = Inr (table', span)"
  shows "longer table table' \<and> reads_as table' span s \<and> span32 span \<and> length table' < 2 ^ 32"
  using assms by (auto simp: push_pack_def compact_len_def longer_def reads_as_def span_ok_def span_text_def span32_def split: if_splits)

lemma asset_reads_longer: "asset_reads w i table asset \<Longrightarrow> longer table table' \<Longrightarrow> asset_reads w i table' asset"
  by (auto simp: asset_reads_def intro: reads_longer)

lemma required_pack_attribute_Inr: "required_pack_attribute path element key = Inr v \<Longrightarrow> find_attribute key (xe_attributes element) = Inr (Some v)"
  by (auto simp: required_pack_attribute_def pack_attribute_def rbind_eq_Inr ok_or_eq_Inr map_error_Inr)

lemma read_file_row_Inr:
  assumes "read_file_row w i st element = Inr st'"
  shows "st' = st \<or> (\<exists>relative kind table span. find_attribute ''Path'' (xe_attributes element) = Inr (Some relative)
    \<and> is_safe_pack_relative_path relative \<and> rw_is_file w (join_relative_path w (ii_runtime_pack_root i) relative)
    \<and> push_pack w (bs_text st) relative = Inr (table, span)
    \<and> st' = st\<lparr>bs_text := table, bs_assets := bs_assets st @ [\<lparr>ra_kind = kind, ra_path = span\<rparr>]\<rparr>)"
proof -
  from assms obtain kind where
    r: "(case Option.bind kind asset_kind_of of None \<Rightarrow> Inr st
      | Some kind \<Rightarrow> rbind (required_pack_attribute (ii_runtime_manifest i) element ''Path'') (\<lambda>relative.
          if \<not> is_safe_pack_relative_path relative
          then Inl (pack_manifest_error (ii_runtime_manifest i) ''runtime asset path escapes the selected pack'' [])
          else if \<not> rw_is_file w (join_relative_path w (ii_runtime_pack_root i) relative)
            then Inl (pack_error MissingAsset (join_relative_path w (ii_runtime_pack_root i) relative) ''runtime-pack asset {} is missing'' [rw_text w (join_relative_path w (ii_runtime_pack_root i) relative)])
            else rbind (push_pack w (bs_text st) relative) (\<lambda>(table, span).
              Inr (st\<lparr>bs_text := table, bs_assets := bs_assets st @ [\<lparr>ra_kind = kind, ra_path = span\<rparr>]\<rparr>)))) = Inr st'"
    unfolding read_file_row_def Let_def by (auto simp: rbind_eq_Inr split: if_split_asm)
  show ?thesis
  proof (cases "Option.bind kind asset_kind_of")
    case None
    then show ?thesis using r by simp
  next
    case (Some k)
    from r obtain relative table span where "find_attribute ''Path'' (xe_attributes element) = Inr (Some relative)"
      "is_safe_pack_relative_path relative" "rw_is_file w (join_relative_path w (ii_runtime_pack_root i) relative)"
      "push_pack w (bs_text st) relative = Inr (table, span)"
      "st' = st\<lparr>bs_text := table, bs_assets := bs_assets st @ [\<lparr>ra_kind = k, ra_path = span\<rparr>]\<rparr>"
      unfolding Some option.case rbind_eq_Inr by (auto simp: rbind_eq_Inr dest: required_pack_attribute_Inr split: if_split_asm)
    then show ?thesis by blast
  qed
qed

lemma read_file_row_ok:
  assumes row: "read_file_row w i st element = Inr st'" and ok: "build_ok w i st"
  shows "build_ok w i st'"
proof (cases "st' = st")
  case False
  then obtain relative kind table span where r: "is_safe_pack_relative_path relative"
    "rw_is_file w (join_relative_path w (ii_runtime_pack_root i) relative)" "push_pack w (bs_text st) relative = Inr (table, span)"
    "st' = st\<lparr>bs_text := table, bs_assets := bs_assets st @ [\<lparr>ra_kind = kind, ra_path = span\<rparr>]\<rparr>"
    using read_file_row_Inr [OF row] by blast
  note p = push_pack_Inr [OF r(3)]
  have "asset_reads w i table \<lparr>ra_kind = kind, ra_path = span\<rparr>" using p r(1,2) by (auto simp: asset_reads_def)
  moreover have "asset_reads w i table asset" if "asset \<in> set (bs_assets st)" for asset
    using asset_reads_longer ok that p unfolding build_ok_def by blast
  ultimately show ?thesis unfolding r(4) by (simp add: build_ok_def)
qed (use ok in simp)

lemma read_inventory_event_ok:
  assumes "read_inventory_event w i st event = Inr st'" and "build_ok w i st"
  shows "build_ok w i st'"
proof -
  have "build_ok w i st'" if "read_file_list i st element = Inr st'" for element
    using that assms(2) by (auto simp: read_file_list_def Let_def rbind_eq_Inr build_ok_def split: if_split_asm)
  then show ?thesis using assms read_file_row_ok unfolding read_inventory_event_def by (auto split: sum.splits option.splits)
qed

lemma built_inventory:
  fixes w :: "('p, 'io) runtime_world"
  assumes "build_pack_inventory w i = Inr inventory"
  shows "(\<forall>asset \<in> set (pi_assets inventory). asset_reads w i (pi_text inventory) asset)
    \<and> {Managed, Native} \<subseteq> ra_kind ` set (pi_assets inventory) \<and> span32 (pi_apphost_template inventory)
    \<and> length (pi_text inventory) < 2 ^ 32 \<and> length (pi_assets inventory) < 2 ^ 32
    \<and> (\<exists>template relative. find_apphost_template w (ii_host_pack_root i) (ii_host_runtime_identifier i) = Inr template
       \<and> rw_strip_prefix w template (ii_host_pack_root i) = Some relative
       \<and> pw_to_str (rw_pack w) relative = Some (apphost_relative_path inventory))"
proof -
  let ?start = "\<lparr>bs_root_seen = False, bs_assets = [], bs_text = []\<rparr>"
  from assms obtain bytes st template relative table span
    where events: "try_fold (read_inventory_event w i) ?start (pw_xml (rw_pack w) bytes) = Inr st"
      and kinds: "list_ex (\<lambda>a. ra_kind a = Managed) (bs_assets st)" "list_ex (\<lambda>a. ra_kind a = Native) (bs_assets st)"
      and len: "compact_len w (length (bs_assets st)) ''runtime pack inventory'' = Inr (length (bs_assets st))"
      and template: "find_apphost_template w (ii_host_pack_root i) (ii_host_runtime_identifier i) = Inr template"
      and relative: "rw_strip_prefix w template (ii_host_pack_root i) = Some relative"
      and path: "push_pack_path w (bs_text st) relative = Inr (table, span)"
      and inventory: "inventory = \<lparr>pi_text = table, pi_assets = bs_assets st, pi_apphost_template = span\<rparr>"
    unfolding build_pack_inventory_def Let_def rbind_eq_Inr map_error_Inr ok_or_eq_Inr
    by (auto simp: rbind_eq_Inr ok_or_eq_Inr compact_len_def split: if_split_asm)
  have "build_ok w i st" using events
    by (rule try_fold_invariant) (simp add: build_ok_def, rule read_inventory_event_ok)
  moreover obtain s where s: "pw_to_str (rw_pack w) relative = Some s" "push_pack w (bs_text st) s = Inr (table, span)"
    using path by (auto simp: push_pack_path_def rbind_eq_Inr ok_or_eq_Inr)
  moreover note p = push_pack_Inr [OF s(2)]
  ultimately have "\<forall>asset \<in> set (bs_assets st). asset_reads w i table asset" using asset_reads_longer unfolding build_ok_def by blast
  moreover have "{Managed, Native} \<subseteq> ra_kind ` set (bs_assets st)" using kinds
    by (simp add: list_ex_iff) (metis image_eqI)
  moreover have "length (bs_assets st) < 2 ^ 32" using len by (simp add: compact_len_def split: if_splits)
  moreover have "apphost_relative_path inventory = s" using p by (simp add: apphost_relative_path_def inventory reads_as_def)
  ultimately show ?thesis using template relative s(1) p by (simp add: inventory)
qed

text \<open>An inventory that was built lists only files that are there, under paths that stay below the pack,
  at least one managed and one native; its spans and counts fit the 32 bits of the encoding; and the
  template is one of the two names of an application host, below the host pack, the only one there.\<close>
theorem built_inventory_sound:
  assumes "build_pack_inventory w i = Inr inventory"
  shows "(\<forall>asset \<in> set (pi_assets inventory). is_safe_pack_relative_path (asset_relative_path inventory asset)
       \<and> rw_is_file w (join_relative_path w (ii_runtime_pack_root i) (asset_relative_path inventory asset)))
    \<and> {Managed, Native} \<subseteq> ra_kind ` set (pi_assets inventory)
    \<and> (\<forall>asset \<in> set (pi_assets inventory). span32 (ra_path asset)) \<and> span32 (pi_apphost_template inventory)
    \<and> length (pi_text inventory) < 2 ^ 32 \<and> length (pi_assets inventory) < 2 ^ 32
    \<and> (\<exists>template relative. find_apphost_template w (ii_host_pack_root i) (ii_host_runtime_identifier i) = Inr template \<and> rw_is_file w template
       \<and> rw_strip_prefix w template (ii_host_pack_root i) = Some relative
       \<and> pw_to_str (rw_pack w) relative = Some (apphost_relative_path inventory))"
proof -
  note b = built_inventory [OF assms]
  have assets: "\<forall>asset \<in> set (pi_assets inventory). asset_reads w i (pi_text inventory) asset" using b by (rule conjunct1)
  have asset: "is_safe_pack_relative_path (asset_relative_path inventory asset)
      \<and> rw_is_file w (join_relative_path w (ii_runtime_pack_root i) (asset_relative_path inventory asset)) \<and> span32 (ra_path asset)"
    if "asset \<in> set (pi_assets inventory)" for asset
  proof -
    have "asset_reads w i (pi_text inventory) asset" using assets that by (rule bspec)
    then show ?thesis unfolding asset_reads_def reads_as_def asset_relative_path_def by blast
  qed
  obtain template relative where t: "find_apphost_template w (ii_host_pack_root i) (ii_host_runtime_identifier i) = Inr template"
    "rw_strip_prefix w template (ii_host_pack_root i) = Some relative" "pw_to_str (rw_pack w) relative = Some (apphost_relative_path inventory)"
    using b by (elim conjE exE)
  have "rw_is_file w template"
    using t(1) by (auto simp: find_apphost_template_def Let_def split: list.splits if_split_asm dest: filter_eq_ConsD)
  then show ?thesis using asset t b by (intro conjI ballI exI) simp_all
qed

section \<open>The cache\<close>

lemma le_bytes_inject: "m < 256 ^ k \<Longrightarrow> n < 256 ^ k \<Longrightarrow> le_bytes k m = le_bytes k n \<longleftrightarrow> m = n"
  using le_value_bytes by metis

lemma span_bytes_inject: "span32 a \<Longrightarrow> span32 b \<Longrightarrow> span_bytes a = span_bytes b \<longleftrightarrow> a = b"
  by (cases a; cases b) (auto simp: span_bytes_def span32_def le_bytes_inject)

lemma encode_asset_inject: "span32 (ra_path a) \<Longrightarrow> span32 (ra_path b) \<Longrightarrow> encode_asset a = encode_asset b \<longleftrightarrow> a = b"
proof (cases a; cases b)
  fix ka pa kb pb assume "span32 (ra_path a)" "span32 (ra_path b)" "a = \<lparr>ra_kind = ka, ra_path = pa\<rparr>" "b = \<lparr>ra_kind = kb, ra_path = pb\<rparr>"
  then show ?thesis by (cases ka; cases kb) (auto simp: encode_asset_def span_bytes_inject)
qed

lemma encode_assets_inject:
  assumes "length xs = length ys" "\<forall>a \<in> set xs \<union> set ys. span32 (ra_path a)"
    "concat (map encode_asset xs) = concat (map encode_asset ys)"
  shows "xs = ys"
  using assms
proof (induction xs ys rule: list_induct2)
  case (Cons x xs y ys)
  then have "encode_asset x = encode_asset y" "concat (map encode_asset xs) = concat (map encode_asset ys)" by simp_all
  then show ?case using Cons encode_asset_inject by simp
qed simp

definition inventory_fits :: "pack_inventory \<Rightarrow> bool" where
  "inventory_fits inventory \<longleftrightarrow> (\<forall>asset \<in> set (pi_assets inventory). span32 (ra_path asset)) \<and> span32 (pi_apphost_template inventory)
    \<and> length (pi_text inventory) < 2 ^ 32 \<and> length (pi_assets inventory) < 2 ^ 32"

lemma inventory_payload_inject:
  assumes "inventory_fits a" "inventory_fits b" "inventory_payload a = inventory_payload b"
  shows "a = b"
proof -
  note f = assms(1,2) [unfolded inventory_fits_def]
  have n: "le_bytes 4 (length (pi_text a)) = le_bytes 4 (length (pi_text b))" "le_bytes 4 (length (pi_assets a)) = le_bytes 4 (length (pi_assets b))"
    "span_bytes (pi_apphost_template a) = span_bytes (pi_apphost_template b)"
    and rest: "pi_text a @ concat (map encode_asset (pi_assets a)) = pi_text b @ concat (map encode_asset (pi_assets b))"
    using assms(3) by (simp_all add: inventory_payload_def)
  have len: "length (pi_text a) = length (pi_text b)" "length (pi_assets a) = length (pi_assets b)"
    using n(1,2) f by (simp_all add: le_bytes_inject)
  have "pi_text a = pi_text b" "concat (map encode_asset (pi_assets a)) = concat (map encode_asset (pi_assets b))" using rest len(1) by simp_all
  moreover have "pi_assets a = pi_assets b" using encode_assets_inject [OF len(2)] f calculation(2) by blast
  moreover have "pi_apphost_template a = pi_apphost_template b" using n(3) f by (simp add: span_bytes_inject)
  ultimately show ?thesis by (cases a; cases b) simp
qed

text \<open>What a published file decodes to is what was published.\<close>

lemma decode_published:
  assumes sizes: "length fingerprint = 64" "\<forall>x. length (sha512 x) = 64" and fits: "inventory_fits inventory"
    and encoded: "encode_pack_inventory sha512 fingerprint inventory = Some bytes" "decode_pack_inventory sha512 bytes fingerprint = Some other"
  shows "other = inventory"
proof -
  have ok: "inventory_ok other" "encode_pack_inventory sha512 fingerprint other = Some bytes"
    using encoded(2) unfolding decode_inventory_Some [OF sizes] by simp_all
  then have "encoded sha512 fingerprint other = encoded sha512 fingerprint inventory"
    using encoded(1) by (simp add: encode_encoded [OF sizes(1)] split: if_splits)
  then have "sha512 (inventory_payload other) @ inventory_payload other = sha512 (inventory_payload inventory) @ inventory_payload inventory"
    by (simp add: encoded_def)
  then have "inventory_payload other = inventory_payload inventory" using sizes(2) by simp
  moreover have "inventory_fits other" using ok(1) by (auto simp: inventory_ok_def safe_span_def inventory_fits_def)
  ultimately show ?thesis using inventory_payload_inject fits by blast
qed

lemma names_differ: "cache_name fingerprint \<noteq> temporary_name io"
proof
  assume "cache_name fingerprint = temporary_name io"
  then have "last (cache_name fingerprint) = last (temporary_name io)" by simp
  then show False by (simp add: cache_name_def temporary_name_def)
qed

text \<open>A cache is honest for some inputs when a file it would use for them holds what building gives.\<close>

definition honest_cache :: "('p, 'io) runtime_world \<Rightarrow> 'p inventory_inputs \<Rightarrow> cache_directory \<Rightarrow> bool" where
  "honest_cache w i cache \<longleftrightarrow> (\<forall>fingerprint inventory. pack_inventory_fingerprint w i = Some fingerprint
     \<longrightarrow> cached_inventory w i cache fingerprint = Some inventory \<longrightarrow> build_pack_inventory w i = Inr inventory)"

definition publishes :: "cache_io \<Rightarrow> bool" where
  "publishes io \<longleftrightarrow> ci_create io \<and> ci_write io \<and> ci_rename io \<and> ci_remove_stale io"

lemma fitting_encodes:
  assumes "length fingerprint = 64" "inventory_fits inventory"
  shows "encode_pack_inventory sha512 fingerprint inventory = Some (encoded sha512 fingerprint inventory)"
  using assms by (simp add: encode_encoded inventory_fits_def)

text \<open>Publishing under a fingerprint changes its file and the temporary one only, never panics, and leaves
  the file as it was or with the encoding.\<close>

lemma publish_changes:
  assumes "length fingerprint = 64" "inventory_fits inventory"
  shows "\<exists>cache'. publish_pack_inventory sha512 io cache fingerprint inventory = Inr cache'
    \<and> (cache' (cache_name fingerprint) = cache (cache_name fingerprint)
       \<or> cache' (cache_name fingerprint) = Some (encoded sha512 fingerprint inventory))
    \<and> (\<forall>name. name \<noteq> cache_name fingerprint \<longrightarrow> name \<noteq> temporary_name io \<longrightarrow> cache' name = cache name)
    \<and> (publishes io \<longrightarrow> cache (cache_name fingerprint) = None \<longrightarrow> cache' (cache_name fingerprint) = Some (encoded sha512 fingerprint inventory))"
  using names_differ [of fingerprint io]
  by (auto simp: publish_pack_inventory_def Let_def fitting_encodes [OF assms] remove_cached_def publishes_def)

lemma built_fits:
  fixes w :: "('p, 'io) runtime_world"
  shows "build_pack_inventory w i = Inr inventory \<Longrightarrow> inventory_fits inventory"
  using built_inventory [of w i inventory] by (auto simp: inventory_fits_def asset_reads_def)

text \<open>The cached file after a run: what it was, nothing, or the encoding of what was built.\<close>

lemma load_or_build_changes:
  fixes w :: "('p, 'io) runtime_world"
  assumes sha: "\<forall>x. length (rw_sha512 w x) = 64" and fp: "pack_inventory_fingerprint w i = Some fingerprint"
    and miss: "cached_inventory w i cache fingerprint = None" and built: "build_pack_inventory w i = Inr inventory"
  shows "\<exists>cache'. load_or_build_pack_inventory w io cache i = (Inr (inventory, False), cache')
    \<and> cache' (cache_name fingerprint) \<in> {cache (cache_name fingerprint), None, Some (encoded (rw_sha512 w) fingerprint inventory)}
    \<and> (\<forall>name. name \<noteq> cache_name fingerprint \<longrightarrow> name \<noteq> temporary_name io \<longrightarrow> cache' name = cache name)
    \<and> (publishes io \<longrightarrow> cache' (cache_name fingerprint) = Some (encoded (rw_sha512 w) fingerprint inventory))"
proof -
  have len: "length fingerprint = 64" using sha fp by (auto simp: pack_inventory_fingerprint_def)
  let ?name = "cache_name fingerprint"
  define base where "base = (if cache ?name \<noteq> None then remove_cached (ci_remove_stale io) cache ?name else cache)"
  obtain cache' where c: "publish_pack_inventory (rw_sha512 w) io base fingerprint inventory = (Inr cache' :: ('p, 'io, cache_directory) packed)"
    "cache' ?name = base ?name \<or> cache' ?name = Some (encoded (rw_sha512 w) fingerprint inventory)"
    "\<forall>name. name \<noteq> ?name \<longrightarrow> name \<noteq> temporary_name io \<longrightarrow> cache' name = base name"
    "publishes io \<longrightarrow> base ?name = None \<longrightarrow> cache' ?name = Some (encoded (rw_sha512 w) fingerprint inventory)"
    using publish_changes [OF len built_fits [OF built], of "rw_sha512 w" io base] by (elim exE conjE)
  have run: "load_or_build_pack_inventory w io cache i = (Inr (inventory, False), cache')"
    unfolding load_or_build_pack_inventory_def fp option.case miss Let_def built sum.case base_def [symmetric] c(1) by simp
  have b: "base ?name \<in> {cache ?name, None}" "publishes io \<Longrightarrow> base ?name = None" "\<And>name. name \<noteq> ?name \<Longrightarrow> base name = cache name"
    by (auto simp: base_def remove_cached_def publishes_def)
  have "cache' ?name \<in> {cache ?name, None, Some (encoded (rw_sha512 w) fingerprint inventory)}" using c(2) b(1) by auto
  then show ?thesis using run c(3,4) b(2,3) by (intro exI [of _ cache']) simp
qed

lemma cache_loads:
  fixes w :: "('p, 'io) runtime_world"
  assumes sha: "\<forall>x. length (rw_sha512 w x) = 64" and honest: "honest_cache w i cache"
    and run: "load_or_build_pack_inventory w io cache i = (loaded, cache')"
  shows "map_sum id fst loaded = build_pack_inventory w i \<and> honest_cache w i cache'
    \<and> (\<forall>name. name \<noteq> temporary_name io \<longrightarrow> (\<forall>fingerprint. pack_inventory_fingerprint w i = Some fingerprint \<longrightarrow> name \<noteq> cache_name fingerprint)
        \<longrightarrow> cache' name = cache name)
    \<and> (\<forall>inventory fingerprint. build_pack_inventory w i = Inr inventory \<longrightarrow> inventory_ok inventory \<longrightarrow> publishes io
        \<longrightarrow> rw_is_file w (join_relative_path w (ii_host_pack_root i) (apphost_relative_path inventory))
        \<longrightarrow> pack_inventory_fingerprint w i = Some fingerprint \<longrightarrow> cached_inventory w i cache' fingerprint = Some inventory)"
proof (cases "pack_inventory_fingerprint w i")
  case None
  then show ?thesis using run by (cases "build_pack_inventory w i") (auto simp: load_or_build_pack_inventory_def honest_cache_def)
next
  case fp: (Some fingerprint)
  let ?name = "cache_name fingerprint"
  have len: "length fingerprint = 64" using sha fp by (auto simp: pack_inventory_fingerprint_def)
  have hit: "build_pack_inventory w i = Inr inventory" if "cached_inventory w i cache fingerprint = Some inventory" for inventory
    using honest fp that by (simp add: honest_cache_def)
  have same: "cached_inventory w i cache' fingerprint = cached_inventory w i other fingerprint" if "cache' ?name = other ?name" for other
    using that by (simp add: cached_inventory_def)
  show ?thesis
  proof (cases "cached_inventory w i cache fingerprint")
    case (Some inventory)
    then have "loaded = Inr (inventory, True)" "cache' = cache" using run by (simp_all add: load_or_build_pack_inventory_def fp)
    then show ?thesis using hit [OF Some] honest Some fp by simp
  next
    case miss: None
    show ?thesis
    proof (cases "build_pack_inventory w i")
      case (Inl e)
      then have r: "loaded = Inl e" "cache' ?name \<in> {cache ?name, None}" "\<forall>name. name \<noteq> ?name \<longrightarrow> cache' name = cache name"
        using run by (auto simp: load_or_build_pack_inventory_def fp miss remove_cached_def Let_def split: if_splits)
      have "cached_inventory w i cache' fingerprint = None" using r(2) miss by (auto simp: cached_inventory_def)
      then show ?thesis using r(1,3) Inl fp by (simp add: honest_cache_def)
    next
      case (Inr inventory)
      let ?bytes = "encoded (rw_sha512 w) fingerprint inventory"
      note bytes = fitting_encodes [OF len built_fits [OF Inr], of "rw_sha512 w"]
      have r: "loaded = Inr (inventory, False)" "cache' ?name \<in> {cache ?name, None, Some ?bytes}"
        "\<forall>name. name \<noteq> ?name \<longrightarrow> name \<noteq> temporary_name io \<longrightarrow> cache' name = cache name" "publishes io \<longrightarrow> cache' ?name = Some ?bytes"
        using load_or_build_changes [OF sha fp miss Inr, of io] run by auto
      have "other = inventory" if "cached_inventory w i cache' fingerprint = Some other" for other
      proof -
        have "cache' ?name = Some ?bytes" using that r(2) miss by (auto simp: cached_inventory_def)
        then have "decode_pack_inventory (rw_sha512 w) ?bytes fingerprint = Some other" using that by (auto simp: cached_inventory_def bind_eq_Some_conv split: if_splits)
        then show ?thesis by (rule decode_published [OF len sha built_fits [OF Inr] bytes])
      qed
      moreover have "cached_inventory w i cache' fingerprint = Some inventory" if ok: "inventory_ok inventory" "publishes io"
        "rw_is_file w (join_relative_path w (ii_host_pack_root i) (apphost_relative_path inventory))"
      proof -
        have "decode_pack_inventory (rw_sha512 w) ?bytes fingerprint = Some inventory" using ok(1) bytes unfolding decode_inventory_Some [OF len sha] by blast
        then show ?thesis using ok r(4) by (simp add: cached_inventory_def)
      qed
      ultimately show ?thesis using r(1,3) Inr fp by (simp add: honest_cache_def)
    qed
  qed
qed

text \<open>C14: The cache of inventories is transparent. If the file it would use for these inputs holds what
  building gives, loading returns exactly what building returns, errors included, whatever happens to the
  writes, and leaves the cache so that the same holds for the next run. It touches no file but the one
  named after the fingerprint and the temporary one. When the writes succeed and the inventory is well
  formed the next run finds it without building. SHA-512 gives 64 bytes.\<close>
theorem cache_transparent:
  fixes w :: "('p, 'io) runtime_world"
  assumes sha: "\<forall>x. length (rw_sha512 w x) = 64" and honest: "honest_cache w i cache"
    and run: "load_or_build_pack_inventory w io cache i = (loaded, cache')"
  shows "map_sum id fst loaded = build_pack_inventory w i \<and> honest_cache w i cache'
    \<and> (\<forall>name. name \<noteq> temporary_name io \<longrightarrow> (\<forall>fingerprint. pack_inventory_fingerprint w i = Some fingerprint \<longrightarrow> name \<noteq> cache_name fingerprint)
        \<longrightarrow> cache' name = cache name)
    \<and> (\<forall>inventory fingerprint. build_pack_inventory w i = Inr inventory \<longrightarrow> inventory_ok inventory \<longrightarrow> publishes io
        \<longrightarrow> rw_is_file w (join_relative_path w (ii_host_pack_root i) (apphost_relative_path inventory))
        \<longrightarrow> pack_inventory_fingerprint w i = Some fingerprint \<longrightarrow> cached_inventory w i cache' fingerprint = Some inventory)"
  by (rule cache_loads [OF assms])

section \<open>The plan\<close>

text \<open>The text an entry of the plan stands for: a path below a root is written with one separator
  between them, and on Windows with the separators of the system throughout.\<close>

definition entry_reads :: "('p, 'io) runtime_world \<Rightarrow> 'p plan_entry \<Rightarrow> string \<Rightarrow> bool" where
  "entry_reads w entry s \<longleftrightarrow> (case entry of
       TextEntry t \<Rightarrow> s = t
     | PathEntry p \<Rightarrow> pw_to_str (rw_pack w) p = Some s
     | JoinedEntry root relative \<Rightarrow> \<exists>t. pw_to_str (rw_pack w) root = Some t
         \<and> (if cfg_windows (rw_machine w)
            then s = t @ (if ends_with [CHR 0x5C] t then [] else [CHR 0x5C]) @ map (\<lambda>c. if c = CHR ''/'' then CHR 0x5C else c) relative
            else s = t @ (if ends_with ''/'' t then [] else ''/'') @ relative))"

lemma compact_len_Inr: "compact_len w n meaning = Inr m \<Longrightarrow> m = n"
  by (simp add: compact_len_def split: if_splits)

lemma push_joined_path_Inr:
  assumes "push_joined_path w table root relative = Inr (table', span)"
  shows "longer table table' \<and> (\<exists>s. reads_as table' span s \<and> entry_reads w (JoinedEntry root relative) s)"
proof -
  have same: "(\<lambda>c. if c = CHR ''/'' \<or> c = CHR 0x5C then CHR 0x5C else c) = (\<lambda>c. if c = CHR ''/'' then CHR 0x5C else c)" by auto
  obtain t where t: "pw_to_str (rw_pack w) root = Some t" using assms by (auto simp: push_joined_path_def rbind_eq_Inr ok_or_eq_Inr)
  define added where "added = (let separator = (if cfg_windows (rw_machine w) then CHR 0x5C else CHR ''/'') in
      t @ (if ends_with [separator] t then [] else [separator])
           @ (if cfg_windows (rw_machine w) then map (\<lambda>c. if c = CHR ''/'' \<or> c = CHR 0x5C then separator else c) relative else relative))"
  have "entry_reads w (JoinedEntry root relative) added" by (simp add: entry_reads_def t added_def Let_def same)
  moreover have "table' = table @ added" "span = \<lparr>sp_start = length table, sp_len = length added\<rparr>"
    using assms by (auto simp: push_joined_path_def rbind_eq_Inr ok_or_eq_Inr t Let_def added_def dest!: compact_len_Inr)
  ultimately show ?thesis by (auto simp: longer_def reads_as_def span_ok_def span_text_def)
qed

lemma push_entry_Inr:
  assumes "push_entry w table entry = Inr (table', span)"
  shows "longer table table' \<and> (\<exists>s. reads_as table' span s \<and> entry_reads w entry s)"
proof (cases entry)
  case (TextEntry s)
  then show ?thesis using assms push_pack_Inr by (fastforce simp: push_entry_def entry_reads_def)
next
  case (PathEntry p)
  then obtain s where "pw_to_str (rw_pack w) p = Some s" "push_pack w table s = Inr (table', span)"
    using assms by (auto simp: push_entry_def push_pack_path_def rbind_eq_Inr ok_or_eq_Inr)
  then show ?thesis using push_pack_Inr PathEntry by (fastforce simp: entry_reads_def)
next
  case (JoinedEntry root relative)
  then show ?thesis using assms push_joined_path_Inr by (simp add: push_entry_def)
qed

lemma push_entries_Inr:
  assumes "push_entries w table entries = Inr (table', spans)"
  shows "longer table table' \<and> (\<exists>vs. list_all2 (reads_as table') spans vs \<and> list_all2 (entry_reads w) entries vs)"
  using assms
proof (induction entries arbitrary: table table' spans)
  case (Cons entry entries)
  then obtain middle span rest where p: "push_entry w table entry = Inr (middle, span)" "push_entries w middle entries = Inr (table', rest)"
    "spans = span # rest" by (auto simp: rbind_eq_Inr)
  note first = push_entry_Inr [OF p(1)] and later = Cons.IH [OF p(2)]
  then obtain s vs where "reads_as middle span s" "entry_reads w entry s" "list_all2 (reads_as table') rest vs" "list_all2 (entry_reads w) entries vs"
    by blast
  then have "list_all2 (reads_as table') spans (s # vs)" "list_all2 (entry_reads w) (entry # entries) (s # vs)"
    using later p(3) by (auto intro: reads_longer)
  then show ?case using first later longer_trans by blast
qed simp

text \<open>A plan's fields in the order they are packed.\<close>

definition plan_texts :: "runtime_pack_plan \<Rightarrow> string list" where
  "plan_texts plan = map (rp_get plan) [rp_project plan, rp_sdk_version plan, rp_manifest plan, rp_target_framework plan,
     rp_requested_runtime_identifier plan, rp_runtime_identifier plan, rp_runtime_pack_id plan, rp_runtime_pack_version plan,
     rp_runtime_pack_root plan, rp_host_runtime_identifier plan, rp_host_pack_id plan, rp_host_pack_version plan,
     rp_host_pack_root plan, rp_apphost_template plan]"

lemma materialized_pack_plan:
  assumes "materialize_pack_plan w project i content = Inr plan"
  shows "list_all2 (entry_reads w) (plan_heads w project i content) (plan_texts plan)
    \<and> list_all2 (entry_reads w) (asset_entries i content Managed) (rp_values plan (rp_managed_assets plan))
    \<and> list_all2 (entry_reads w) (asset_entries i content Native) (rp_values plan (rp_native_assets plan))"
proof -
  obtain t1 heads t2 managed m_end t3 native n_end where
    p1: "push_entries w [] (plan_heads w project i content) = Inr (t1, heads)"
    and p2: "push_entries w t1 (asset_entries i content Managed) = Inr (t2, managed)"
    and p3: "compact_len w (length managed) ''runtime asset span batch'' = Inr m_end"
    and p4: "push_entries w t2 (asset_entries i content Native) = Inr (t3, native)"
    and p5: "compact_len w (length (managed @ native)) ''runtime asset span batch'' = Inr n_end"
    and plan: "plan = \<lparr>rp_text = t3, rp_assets = managed @ native, rp_project = heads ! 0, rp_sdk_version = heads ! 1, rp_manifest = heads ! 2,
         rp_target_framework = heads ! 3, rp_requested_runtime_identifier = heads ! 4, rp_runtime_identifier = heads ! 5,
         rp_runtime_pack_id = heads ! 6, rp_runtime_pack_version = heads ! 7, rp_runtime_pack_root = heads ! 8,
         rp_host_runtime_identifier = heads ! 9, rp_host_pack_id = heads ! 10, rp_host_pack_version = heads ! 11,
         rp_host_pack_root = heads ! 12, rp_apphost_template = heads ! 13,
         rp_managed_assets = \<lparr>ir_start = 0, ir_len = m_end\<rparr>,
         rp_native_assets = \<lparr>ir_start = m_end, ir_len = n_end - m_end\<rparr>\<rparr>"
    using assms unfolding materialize_pack_plan_def rbind_eq_Inr by (auto simp: rbind_eq_Inr)
  obtain hs where hs: "list_all2 (reads_as t1) heads hs" "list_all2 (entry_reads w) (plan_heads w project i content) hs"
    using push_entries_Inr [OF p1] by blast
  obtain ms where ms: "longer t1 t2" "list_all2 (reads_as t2) managed ms" "list_all2 (entry_reads w) (asset_entries i content Managed) ms"
    using push_entries_Inr [OF p2] by blast
  obtain ns where ns: "longer t2 t3" "list_all2 (reads_as t3) native ns" "list_all2 (entry_reads w) (asset_entries i content Native) ns"
    using push_entries_Inr [OF p4] by blast
  have "longer t1 t3" using ms(1) ns(1) by (rule longer_trans)
  note texts = span_texts [OF texts_longer [OF hs(1) this]] span_texts [OF texts_longer [OF ms(2) ns(1)]] span_texts [OF ns(2)]
  have ends: "m_end = length managed" "n_end = length managed + length native" using compact_len_Inr [OF p3] compact_len_Inr [OF p5] by simp_all
  have "length (plan_heads w project i content) = 14" by (simp add: plan_heads_def)
  then have "length heads = 14" using list_all2_lengthD [OF hs(1)] list_all2_lengthD [OF hs(2)] by simp
  then have "heads = map (nth heads) [0..<14]" using map_nth [of heads] by simp
  also have "\<dots> = map (nth heads) [0, 1, 2, 3, 4, 5, 6, 7, 8, 9, 10, 11, 12, 13]" by (simp add: upt_rec eval_nat_numeral)
  finally have listed: "heads = map (nth heads) [0, 1, 2, 3, 4, 5, 6, 7, 8, 9, 10, 11, 12, 13]" .
  have "plan_texts plan = map (span_text t3) (map (nth heads) [0, 1, 2, 3, 4, 5, 6, 7, 8, 9, 10, 11, 12, 13])"
    by (simp only: plan_texts_def plan rp_get_def list.map runtime_pack_plan.simps)
  then have "plan_texts plan = map (span_text t3) heads" unfolding listed [symmetric] .
  moreover have "rp_values plan (rp_managed_assets plan) = map (span_text t3) managed"
    "rp_values plan (rp_native_assets plan) = map (span_text t3) native"
    by (simp_all add: rp_values_def plan ends rp_get_def [abs_def])
  ultimately show ?thesis using texts hs(2) ms(3) ns(3) by simp
qed

text \<open>C16: A plan of runtime packs is made from packs chosen for the project and the inventory that reading
  the chosen runtime pack gives, whether it comes from the cache or not, provided the cached file for these
  packs is honest; and it reads back: its fourteen fields are the project, the SDK, the manifest, the
  framework, the requested and the chosen identifiers, the packs with their versions and roots and the
  template of the host, and its asset rows are the managed files of the pack in the manifest's order, then
  the native ones, each below the root of the pack.\<close>
theorem runtime_pack_plan_made:
  fixes w :: "('p, 'io) runtime_world"
  assumes sha: "\<forall>x. length (rw_sha512 w x) = 64"
    and honest: "\<forall>i packages. choose_packs w inventory project = Inr (i, packages)
      \<longrightarrow> honest_cache w i (cache_of (rw_join w packages ''.dv/sdk-pack-inventories/v2''))"
    and plan: "plan_runtime_packs w io cache_of inventory project = (Inr plan, cache_of')"
  shows "\<exists>i packages content. choose_packs w inventory project = Inr (i, packages) \<and> build_pack_inventory w i = Inr content
    \<and> honest_cache w i (cache_of' (rw_join w packages ''.dv/sdk-pack-inventories/v2''))
    \<and> list_all2 (entry_reads w) (plan_heads w project i content) (plan_texts plan)
    \<and> list_all2 (entry_reads w) (asset_entries i content Managed) (rp_values plan (rp_managed_assets plan))
    \<and> list_all2 (entry_reads w) (asset_entries i content Native) (rp_values plan (rp_native_assets plan))"
proof -
  obtain i packages where chosen: "choose_packs w inventory project = Inr (i, packages)"
    using plan by (auto simp: plan_runtime_packs_def split: sum.splits)
  let ?directory = "rw_join w packages ''.dv/sdk-pack-inventories/v2''"
  obtain loaded cache' where load: "load_or_build_pack_inventory w io (cache_of ?directory) i = (loaded, cache')" by (rule prod.exhaust)
  note r = cache_loads [OF sha honest [rule_format, OF chosen] load]
  have p: "rbind loaded (\<lambda>(content, _). materialize_pack_plan w project i content) = Inr plan" "cache_of' = cache_of(?directory := cache')"
    using plan by (simp_all add: plan_runtime_packs_def chosen Let_def load)
  then obtain content from_cache where l: "loaded = Inr (content, from_cache)" "materialize_pack_plan w project i content = Inr plan"
    by (auto simp: rbind_eq_Inr)
  have "build_pack_inventory w i = Inr content" using r l(1) by simp
  moreover have "honest_cache w i (cache_of' ?directory)" using r p(2) by simp
  ultimately show ?thesis using chosen materialized_pack_plan [OF l(2)] by blast
qed

section \<open>An example\<close>

text \<open>Every path is \<open>g\<close>, but for \<open>x\<close>, which is no file.\<close>

definition example_tag :: "string \<Rightarrow> (string \<times> string) list \<Rightarrow> string + xml_event" where
  "example_tag name attributes = Inr (EmptyTag \<lparr>xe_name = name, xe_attributes = map (\<lambda>(k, v). Inr (k, Inr v)) attributes\<rparr>)"

definition example_manifest :: xml_document where
  "example_manifest =
     [example_tag ''KnownFrameworkReference'' [(''Include'', IMPLICIT_FRAMEWORK_REFERENCE), (''TargetFramework'', ''net8.0''),
        (''RuntimePackNamePatterns'', ''P.**RID**''), (''DefaultRuntimeFrameworkVersion'', ''8.0.0''),
        (''LatestRuntimeFrameworkVersion'', ''8.0.3''), (''RuntimePackRuntimeIdentifiers'', ''unix;x'')],
      example_tag ''KnownAppHostPack'' [(''Include'', IMPLICIT_FRAMEWORK_REFERENCE), (''TargetFramework'', ''net8.0''),
        (''AppHostPackNamePattern'', ''H.**RID**''), (''AppHostPackVersion'', ''8.0.3''), (''AppHostRuntimeIdentifiers'', ''linux;x'')],
      example_tag ''FileList'' [(''FrameworkName'', IMPLICIT_FRAMEWORK_REFERENCE), (''TargetFrameworkVersion'', ''8.0'')],
      example_tag ''File'' [(''Type'', ''Managed''), (''Path'', ''a.dll'')],
      example_tag ''File'' [(''Type'', ''Native''), (''Path'', ''b.so'')],
      example_tag ''File'' [(''Type'', ''Other''), (''Path'', ''c'')]]"

definition example_packs :: "(string, unit) runtime_world" where
  "example_packs =
     \<lparr>rw_pack = example_world\<lparr>pw_machine := example_machine\<lparr>path_join := \<lambda>_ s. if s = ''apphost.exe'' then ''x'' else ''g'',
          is_file := \<lambda>p. p = ''g'', read_file := \<lambda>_. Inr []\<rparr>, pw_xml := \<lambda>_. example_manifest\<rparr>,
       rw_metadata = (\<lambda>_. Some \<lparr>fm_len = 0, fm_modified = Some (0, 0), fm_is_dir = False, fm_is_file = True\<rparr>),
       rw_strip_prefix = (\<lambda>_ _. Some ''apphost''), rw_sha512 = (\<lambda>_. replicate 64 CHR ''h''),
       rw_from_json = (\<lambda>_. Inr example_document), rw_graph_error = (\<lambda>_. [])\<rparr>"

definition example_sdks :: "string sdk_inventory" where
  "example_sdks = \<lparr>inv_roots = [''g''], inv_installations = [\<lparr>si_version = example_sdk ''8.0.100'' 100, si_root_index = 0\<rparr>],
     inv_selected_index = 0, inv_global_json = None\<rparr>"

definition example_runtime_project :: project_spec where
  "example_runtime_project = example_project\<lparr>ps_text := ''/w/a.csproj/wnet8.0linux'', ps_runtime_dimensions := [\<lparr>sp_start = 19, sp_len = 5\<rparr>]\<rparr>"

definition example_inputs :: "string inventory_inputs" where
  "example_inputs = \<lparr>ii_sdk_path = ''g'', ii_sdk_version = ''8.0.100'', ii_sdk_manifest = ''g'', ii_runtime_graph = ''g'',
     ii_target_framework = ''net8.0'', ii_framework_version = ''8.0'', ii_requested_runtime_identifier = ''linux'',
     ii_runtime_identifier = ''unix'', ii_runtime_pack_id = ''P.unix'', ii_runtime_pack_version = ''8.0.3'', ii_runtime_pack_root = ''g'',
     ii_runtime_manifest = ''g'', ii_host_runtime_identifier = ''linux'', ii_host_pack_id = ''H.linux'', ii_host_pack_version = ''8.0.3'',
     ii_host_pack_root = ''g''\<rparr>"

definition example_io :: cache_io where
  "example_io = \<lparr>ci_create = True, ci_write = True, ci_partial = None, ci_rename = True, ci_remove_stale = True,
     ci_remove_temporary = True, ci_process = 7, ci_sequence = 0\<rparr>"

definition example_content :: pack_inventory where
  "example_content = \<lparr>pi_text = ''a.dllb.soapphost'',
     pi_assets = [\<lparr>ra_kind = Managed, ra_path = \<lparr>sp_start = 0, sp_len = 5\<rparr>\<rparr>, \<lparr>ra_kind = Native, ra_path = \<lparr>sp_start = 5, sp_len = 4\<rparr>\<rparr>],
     pi_apphost_template = \<lparr>sp_start = 9, sp_len = 7\<rparr>\<rparr>"

lemma example_parts:
  "rw_is_file example_packs p = (p = ''g'')" "rw_join example_packs p s = (if s = ''apphost.exe'' then ''x'' else ''g'')"
  "read_file (rw_machine example_packs) p = Inr []" "pw_xml (rw_pack example_packs) bytes = example_manifest"
  "rw_strip_prefix example_packs p q = Some ''apphost''" "pw_to_str (rw_pack example_packs) p = Some p"
  "rw_sha512 example_packs bytes = replicate 64 CHR ''h''" "is_dir (rw_machine example_packs) p" "path_of (rw_machine example_packs) p = p"
  "cfg_windows (rw_machine example_packs) = False"
  by (simp_all add: rw_is_file_def rw_join_def rw_machine_def example_packs_def example_world_def example_machine_def)

lemma example_element: "event_element name (EmptyTag \<lparr>xe_name = tag, xe_attributes = attributes\<rparr>) =
    (if local_name tag = name then Some \<lparr>xe_name = tag, xe_attributes = attributes\<rparr> else None)"
  by (simp add: event_element_def)

lemma example_names [simp]:
  "local_name ''KnownFrameworkReference'' = ''KnownFrameworkReference''" "local_name ''KnownAppHostPack'' = ''KnownAppHostPack''"
  "local_name ''FileList'' = ''FileList''" "local_name ''File'' = ''File''" "local_name ''Include'' = ''Include''"
  "local_name ''TargetFramework'' = ''TargetFramework''" "local_name ''RuntimePackNamePatterns'' = ''RuntimePackNamePatterns''"
  "local_name ''DefaultRuntimeFrameworkVersion'' = ''DefaultRuntimeFrameworkVersion''"
  "local_name ''LatestRuntimeFrameworkVersion'' = ''LatestRuntimeFrameworkVersion''"
  "local_name ''RuntimePackRuntimeIdentifiers'' = ''RuntimePackRuntimeIdentifiers''"
  "local_name ''AppHostPackNamePattern'' = ''AppHostPackNamePattern''" "local_name ''AppHostPackVersion'' = ''AppHostPackVersion''"
  "local_name ''AppHostRuntimeIdentifiers'' = ''AppHostRuntimeIdentifiers''" "local_name ''FrameworkName'' = ''FrameworkName''"
  "local_name ''TargetFrameworkVersion'' = ''TargetFrameworkVersion''" "local_name ''Type'' = ''Type''" "local_name ''Path'' = ''Path''"
  by (simp_all add: local_name_def str_eval)

lemma example_definitions:
  "read_pack_definitions example_packs ''g'' ''net8.0'' = Inr \<lparr>pd_runtime_pattern = ''P.**RID**'', pd_default_runtime_version = ''8.0.0'',
     pd_runtime_version = ''8.0.3'', pd_runtime_identifiers = ''unix;x'', pd_host_pattern = ''H.**RID**'', pd_host_version = ''8.0.3'',
     pd_host_identifiers = ''linux;x''\<rparr>"
  by (simp add: read_pack_definitions_def example_parts example_manifest_def example_tag_def step_pack_event_def read_pack_event_def
      example_element concerns_core_def pack_attribute_def required_pack_attribute_def read_runtime_definition_def read_host_definition_def)

lemma example_built: "build_pack_inventory example_packs example_inputs = Inr example_content"
  by (simp add: build_pack_inventory_def example_parts example_manifest_def example_tag_def read_inventory_event_def example_element
      read_file_list_def read_file_row_def pack_attribute_def required_pack_attribute_def example_inputs_def asset_kind_of_def
      is_safe_pack_relative_path_def path_of_text_def path_component_of_def join_relative_path_def push_pack_def compact_len_def
      find_apphost_template_def push_pack_path_def example_content_def str_eval)

lemma built_inventory_sound_witness:
  "build_pack_inventory example_packs example_inputs = Inr example_content \<and> {Managed, Native} \<subseteq> ra_kind ` set (pi_assets example_content)"
  using built_inventory_sound [OF example_built] example_built by blast

lemma cache_transparent_witness:
  "\<exists>cache'. load_or_build_pack_inventory example_packs example_io (\<lambda>_. None) example_inputs = (Inr (example_content, False), cache')
    \<and> honest_cache example_packs example_inputs cache'"
proof -
  have sha: "\<forall>x. length (rw_sha512 example_packs x) = 64" by (simp add: example_parts)
  have honest: "honest_cache example_packs example_inputs (\<lambda>_. None)" by (simp add: honest_cache_def cached_inventory_def)
  obtain loaded cache' where run: "load_or_build_pack_inventory example_packs example_io (\<lambda>_. None) example_inputs = (loaded, cache')" by (rule prod.exhaust)
  have hit: "snd r = False" if "loaded = Inr r" for r
    using run that by (auto simp: load_or_build_pack_inventory_def cached_inventory_def rbind_eq_Inr Let_def split: option.splits sum.splits)
  note r = cache_transparent [OF sha honest run]
  then have "map_sum id fst loaded = Inr example_content" by (simp add: example_built)
  then obtain b where "loaded = Inr (example_content, b)" by (cases loaded) auto
  then show ?thesis using hit r run by auto
qed

lemma example_graph_loaded: "load_pack_graph example_packs example_sdks = Inr example_graph"
  by (simp add: load_pack_graph_def load_portable_runtime_graph_def load_graph_def rw_machine_def example_packs_def example_world_def
      example_machine_def example_compiles)

lemma example_compatible: "compatible_rids example_graph ''linux'' = Some [''linux'', ''unix'']"
proof -
  have inv: "bt_inv example_document" by (simp add: example_document_def)
  have rel: "import_rel example_document = {(''linux'', ''unix'')}" by (auto simp: import_rel_def example_document_def split: if_splits)
  have "{p. (''linux'', p) \<in> (import_rel example_document)\<^sup>*} = {''linux'', ''unix''}"
  proof -
    have "p \<in> {''linux'', ''unix''}" if "(''linux'', p) \<in> {(''linux'', ''unix'')}\<^sup>*" for p using that by induction auto
    then show ?thesis unfolding rel by auto
  qed
  then obtain rids where rids: "compatible_rids example_graph ''linux'' = Some (''linux'' # rids)" "distinct (''linux'' # rids)"
    "set (''linux'' # rids) = {''linux'', ''unix''}"
    using compatible_rids_nearest_first [OF inv example_compiles, of "''linux''"] by (elim exE conjE) simp
  have "set rids = {''unix''}"
  proof -
    have "set rids = set (''linux'' # rids) - {''linux''}" using rids(2) by simp
    then show ?thesis unfolding rids(3) by auto
  qed
  have "card (set rids) = length rids" using rids(2) by (simp add: distinct_card)
  then have "length rids = 1" unfolding \<open>set rids = {''unix''}\<close> by simp
  then obtain x where x: "rids = [x]" by (metis One_nat_def length_0_conv length_Suc_conv)
  then have "x = ''unix''" using \<open>set rids = {''unix''}\<close> by simp
  then have "rids = [''unix'']" unfolding x by (rule arg_cong)
  then show ?thesis using rids(1) by simp
qed

lemma example_expand:
  "expand_pack_pattern ''P.**RID**'' rid m l = Inr (''P.'' @ rid)" "expand_pack_pattern ''H.**RID**'' rid m l = Inr (''H.'' @ rid)"
  by (simp_all add: expand_pack_pattern_def RID_PLACEHOLDER_def str_eval)

lemma example_chosen: "choose_packs example_packs example_sdks example_runtime_project = Inr (example_inputs, ''/p'')"
proof -
  have root: "inv_selected example_sdks = \<lparr>si_version = example_sdk ''8.0.100'' 100, si_root_index = 0\<rparr>"
    "inv_installation_path (rw_machine example_packs) (inv_roots example_sdks) (inv_selected example_sdks) = ''g''"
    "inv_root (inv_roots example_sdks) (inv_selected example_sdks) = ''g''"
    "sv_text (si_version (inv_selected example_sdks)) = ''8.0.100''"
    by (simp_all add: inv_selected_def example_sdks_def inv_installation_path_def inv_root_def rw_machine_def example_packs_def example_sdk_def)
  then have path: "inv_installation_path (rw_machine example_packs) (inv_roots example_sdks) \<lparr>si_version = example_sdk ''8.0.100'' 100, si_root_index = 0\<rparr> = ''g''"
    "sv_text (example_sdk ''8.0.100'' 100) = ''8.0.100''" by simp_all
  have framework: "framework_version (ps_target_framework example_runtime_project) = ''8.0''"
    by (simp add: example_runtime_project_def example_project_def framework_version_def show_nat.simps [of 8] show_nat.simps [of 0] digit_char_def char_of_def bit_Suc_0_iff)
  have project: "target_framework_name example_runtime_project = ''net8.0''" "runtime_identifier example_runtime_project = Some ''linux''"
    by (simp_all add: target_framework_name_def runtime_identifier_def NO_RUNTIME_IDENTIFIER_def ps_span_def span_text_def
        example_runtime_project_def example_project_def)
  have version: "selected_runtime_pack_version example_runtime_project d = pd_runtime_version d" for d
    by (simp add: selected_runtime_pack_version_def explicit_core_def runtime_framework_version_def ps_optional_def optional_span_text_def
        example_runtime_project_def example_project_def)
  have packages: "global_packages_directory (rw_pack example_packs) d = Inr ''/p''" for d
    by (simp add: global_packages_directory_def example_packs_def example_world_def)
  show ?thesis
    by (simp add: choose_packs_def Let_def root path framework project version packages example_definitions example_graph_loaded example_parts
        select_pack_runtime_identifier_def example_compatible example_expand locate_pack_def example_inputs_def
        BUNDLED_VERSIONS_FILE_def PORTABLE_GRAPH_FILE_def str_eval)
qed

lemma runtime_pack_plan_made_witness:
  "\<exists>plan cache_of'. plan_runtime_packs example_packs example_io (\<lambda>_ _. None) example_sdks example_runtime_project = (Inr plan, cache_of')
    \<and> rp_values plan (rp_managed_assets plan) = [''g/a.dll''] \<and> rp_values plan (rp_native_assets plan) = [''g/b.so'']"
proof -
  have sha: "\<forall>x. length (rw_sha512 example_packs x) = 64" by (simp add: example_parts)
  have honest: "\<forall>i packages. choose_packs example_packs example_sdks example_runtime_project = Inr (i, packages)
      \<longrightarrow> honest_cache example_packs i ((\<lambda>_ _. None) (rw_join example_packs packages ''.dv/sdk-pack-inventories/v2''))"
    by (simp add: honest_cache_def cached_inventory_def)
  have empty: "honest_cache example_packs example_inputs (\<lambda>_. None)" by (simp add: honest_cache_def cached_inventory_def)
  obtain result cache_of' where run: "plan_runtime_packs example_packs example_io (\<lambda>_ _. None) example_sdks example_runtime_project = (result, cache_of')"
    by (rule prod.exhaust)
  obtain loaded cache' where load: "load_or_build_pack_inventory example_packs example_io (\<lambda>_. None) example_inputs = (loaded, cache')" by (rule prod.exhaust)
  have "map_sum id fst loaded = Inr example_content" using cache_loads [OF sha empty load] by (simp add: example_built)
  then obtain b where loaded: "loaded = Inr (example_content, b)" by (cases loaded) auto
  have project: "project_path example_runtime_project = ''/w/a.csproj''" "target_framework_name example_runtime_project = ''net8.0''"
    by (simp_all add: target_framework_name_def project_path_def ps_span_def span_text_def example_runtime_project_def example_project_def)
  have "\<exists>plan. materialize_pack_plan example_packs example_runtime_project example_inputs example_content = Inr plan"
    by (simp add: materialize_pack_plan_def plan_heads_def asset_entries_def push_entry_def push_pack_path_def push_pack_def push_joined_path_def
        compact_len_def example_parts project example_inputs_def example_content_def apphost_relative_path_def asset_relative_path_def
        span_text_def str_eval)
  then obtain plan where plan: "materialize_pack_plan example_packs example_runtime_project example_inputs example_content = Inr plan" by blast
  then have result: "result = Inr plan" using run by (simp add: plan_runtime_packs_def example_chosen Let_def load loaded)
  from runtime_pack_plan_made [OF sha honest run [unfolded result]] example_chosen example_built
  have "list_all2 (entry_reads example_packs) (asset_entries example_inputs example_content Managed) (rp_values plan (rp_managed_assets plan))"
    "list_all2 (entry_reads example_packs) (asset_entries example_inputs example_content Native) (rp_values plan (rp_native_assets plan))"
    by auto
  then show ?thesis using run result
    by (simp add: asset_entries_def example_content_def example_inputs_def asset_relative_path_def span_text_def list_all2_Cons1 entry_reads_def
        example_parts str_eval)
qed

end
