(* ===== verification/Spec2Isabelle.thy ===== *)
theory Spec2Isabelle
  imports Cancellation_Token Protocol Sdk_Runtimes Runtime_Graph_Facts Version_Range Project_Conditions Package_Pruning Resolver_Runs Asset_Flow Dependency_Cycles Config_Facts Service_Index Project_Reading Central_Selection Source_Termination Project_Evaluation Runtime_Pack_Facts
begin

text \<open>
  dv is a build tool for .NET written in Rust: a command line (\<open>crates/dv-cli\<close>) over a library
  (\<open>crates/dv-core\<close>) that finds the installed SDKs, reads projects, resolves their NuGet packages and
  drives the compiler. This development models the library's own logic, translated from the source by
  hand, with the theorems that make it correct. Every file named below is under \<open>src/crates/dv-core/src\<close>.

  Conventions. A Rust string is the list of its UTF-8 bytes; \<open>usize\<close> and \<open>u64\<close> are \<open>nat\<close>, and wherever the
  code converts to a narrower integer or checks a sum the model has the check and its error; words are
  \<open>HOL-Library.Word\<close>. \<open>Result\<close> is a sum with the error on the left, sequenced by \<open>rbind\<close>; where the code
  would panic the error is itself an option, and its \<open>None\<close> is the panic. A \<open>BTreeMap\<close> is an ordered
  association list behind the locale \<open>ordered_map\<close>, a hash map a function. Format strings keep their
  arguments (\<open>Format\<close>) and are not rendered. What is not in the repository is an argument: the file
  system, the environment, the JSON parser, SHA-512 and Base64, the \<open>url\<close> crate, the events of \<open>quick_xml\<close>,
  and the answers of the network.

  Foundations.
  \<^item> \<open>Prelude\<close>: results, folds that may fail, orderings with the locale \<open>rust_ord\<close> and the program's
    sorts, decimal numbers. \<open>Rust_Str\<close>: operations of \<open>str\<close>. \<open>Rust_Map\<close>: ordered maps and sets, with
    \<open>ordered_map\<close> interpreted by them. \<open>Text_Arena\<close>: the contract of a packed text table (\<open>text_arena\<close>),
    interpreted by \<open>Span_Table\<close> (\<open>project.rs\<close>, \<open>package.rs\<close>) and by the table of the runtime graph.
    \<open>Xml_Events\<close>, \<open>Utf16\<close>: what the readers see of XML, and UTF-16 lengths.

  Small protocols.
  \<^item> \<open>Cancellation_Token\<close> (\<open>cancellation.rs\<close>): the token as shared state with a step relation whose steps
    are the atomic operations of callers and waiters; invariants hold in every reachable state.
  \<^item> \<open>Protocol\<close> (\<open>diagnostic.rs\<close>, \<open>event.rs\<close>, \<open>reporter.rs\<close>, \<open>pack_requirement.rs\<close>, \<open>legacy_pruning.rs\<close>,
    \<open>path.rs\<close>, \<open>redaction.rs\<close>).
  \<^item> \<open>Framework\<close> (\<open>framework.rs\<close> and the folder scores of \<open>package.rs\<close>).

  The SDK.
  \<^item> \<open>Sdk_Version\<close>, \<open>Sdk_Discovery\<close>, \<open>Sdk_Runtimes\<close> (\<open>sdk.rs\<close>): versions and comments of global.json, the
    scan of the installation roots and the roll-forward policy, the inventory of shared frameworks.
  \<^item> \<open>Runtime_Graph\<close>, \<open>Bfs\<close>, \<open>Runtime_Graph_Facts\<close> (\<open>runtime_graph.rs\<close>): compilation of the portable
    graph, and that queries decide the closure of the document's imports, nearest first.

  Projects.
  \<^item> \<open>Project_Spec\<close> (\<open>project.rs\<close>): the packed rows of a project, its enumerations and property parsers.
  \<^item> \<open>Project_Conditions\<close> (\<open>project.rs\<close>): the evaluator of conditions on references. Its loops run on the
    text that is left; the one fuel argument is the length of that text plus one, and each turn
    consumes a byte, so it never runs out (\<open>keyword_loop_fuel\<close>).

  Packages (\<open>package.rs\<close>).
  \<^item> \<open>Package_Version\<close>, \<open>Version_Range\<close>: versions, intervals, floating versions, their order and text.
  \<^item> \<open>Package_Pruning\<close>: the table of packages a framework provides.
  \<^item> \<open>Constraint_Selection\<close>: one node of the package graph and the choice of its version.
    \<open>Graph_Search\<close>, \<open>Constraint_Graph\<close>: the graph, its traversals, installing requirements and re-selecting
    dirty nodes. \<open>Constraint_Fixpoint\<close>, \<open>Constraint_Install\<close>: both ends of an edge agree, and re-selection
    reaches the fixpoint of selection over the whole graph.
  \<^item> \<open>Resolver_Loop\<close>, \<open>Resolver_Facts\<close>, \<open>Resolver_Runs\<close>: the scheduler of the resolution as a step relation
    over any answers of the tasks; the graph is settled after every event, and a finished run is
    complete. The hypotheses name what a run must not do, and a run that does is shown.
  \<^item> \<open>Asset_Flow\<close>, \<open>Dependency_Cycles\<close>: which assets of a package are used, and the check for cycles.
  \<^item> \<open>Package_Sources\<close>, \<open>Trusted_Signers\<close> (with \<open>package_signature.rs\<close>), \<open>Nuget_Config\<close>, \<open>Config_Merge\<close>,
    \<open>Config_Facts\<close>: reading NuGet configuration files, event by event, and what a merged configuration
    satisfies. \<open>Source_Mapping\<close>: the compiled package source mapping.

  Not modelled: the network and retry code, archive extraction and signature cryptography, the compiler
  and credential processes, rendering on the command line, and the development tools.
\<close>

end
